(* ===== verification/Prelude.thy ===== *)
theory Prelude
  imports Main "HOL-Library.Char_ord" "HOL-Library.List_Lexorder"
begin

text \<open>
  Shared vocabulary of the development.

  A Go \<open>string\<close> is a \<open>char list\<close>: one \<open>char\<close> per byte, as in Go.  The functions of the
  standard packages \<open>strings\<close> and \<open>strconv\<close> that the program calls are defined here with the
  behaviour their documentation gives for ASCII text; a byte above 127 is neither a letter nor a
  space (Go treats a few non-ASCII letters and spaces specially, which no identifier of the program
  uses).  A Go \<open>error\<close> result is \<open>'e option\<close> (\<open>None\<close> is nil) or, beside a value, \<open>'e + 'a\<close>.
\<close>

named_theorems string_simps \<open>evaluation rules of the string library\<close>
named_theorems result_simps \<open>case analysis rules for fallible results\<close>

type_synonym ('e, 'a) result = "'e + 'a"

section \<open>Prefixes, suffixes, cutting and splitting\<close>

fun HasPrefix :: "string \<Rightarrow> string \<Rightarrow> bool" where
  "HasPrefix s [] = True"
| "HasPrefix [] (p # ps) = False"
| "HasPrefix (c # cs) (p # ps) = (c = p \<and> HasPrefix cs ps)"

definition TrimPrefix :: "string \<Rightarrow> string \<Rightarrow> string" where
  "TrimPrefix s p = (if HasPrefix s p then drop (length p) s else s)"

definition HasSuffix :: "string \<Rightarrow> string \<Rightarrow> bool" where
  "HasSuffix s p = HasPrefix (rev s) (rev p)"

definition TrimSuffix :: "string \<Rightarrow> string \<Rightarrow> string" where
  "TrimSuffix s p = (if HasSuffix s p then take (length s - length p) s else s)"

fun Contains :: "string \<Rightarrow> string \<Rightarrow> bool" where
  "Contains [] sub = HasPrefix [] sub"
| "Contains (c # cs) sub = (HasPrefix (c # cs) sub \<or> Contains cs sub)"

text \<open>\<open>strings.Cut\<close> around the first occurrence of a one-byte separator.\<close>

fun Cut :: "char \<Rightarrow> string \<Rightarrow> string \<times> string \<times> bool" where
  "Cut d [] = ([], [], False)"
| "Cut d (c # cs) =
     (if c = d then ([], cs, True)
      else let (front, after, found) = Cut d cs in (c # front, after, found))"

text \<open>\<open>strings.Split\<close> by a one-byte separator: never empty.\<close>

fun Split :: "char \<Rightarrow> string \<Rightarrow> string list" where
  "Split d [] = [[]]"
| "Split d (c # cs) =
     (if c = d then [] # Split d cs else (c # hd (Split d cs)) # tl (Split d cs))"

fun Join :: "string \<Rightarrow> string list \<Rightarrow> string" where
  "Join sep [] = []"
| "Join sep [w] = w"
| "Join sep (w # ws) = w @ sep @ Join sep ws"

fun split_by :: "(char \<Rightarrow> bool) \<Rightarrow> string \<Rightarrow> string list" where
  "split_by p [] = [[]]"
| "split_by p (c # cs) =
     (if p c then [] # split_by p cs else (c # hd (split_by p cs)) # tl (split_by p cs))"

definition FieldsFunc :: "(char \<Rightarrow> bool) \<Rightarrow> string \<Rightarrow> string list" where
  "FieldsFunc p s = filter (\<lambda>w. w \<noteq> []) (split_by p s)"

definition is_space :: "char \<Rightarrow> bool" where
  "is_space c = (c \<in> {CHR '' '', CHR 0x09, CHR 0x0A, CHR 0x0B, CHR 0x0C, CHR 0x0D})"

definition Fields :: "string \<Rightarrow> string list" where
  "Fields s = FieldsFunc is_space s"

definition trim_by :: "(char \<Rightarrow> bool) \<Rightarrow> string \<Rightarrow> string" where
  "trim_by p s = rev (dropWhile p (rev (dropWhile p s)))"

definition TrimSpace :: "string \<Rightarrow> string" where
  "TrimSpace s = trim_by is_space s"

definition TrimChar :: "char \<Rightarrow> string \<Rightarrow> string" where
  "TrimChar d s = trim_by (\<lambda>c. c = d) s"

definition ReplaceChar :: "char \<Rightarrow> char \<Rightarrow> string \<Rightarrow> string" where
  "ReplaceChar a b s = map (\<lambda>c. if c = a then b else c) s"

definition lower_char :: "char \<Rightarrow> char" where
  "lower_char c = (if CHR ''A'' \<le> c \<and> c \<le> CHR ''Z'' then char_of (of_char c + (32::nat)) else c)"

definition ToLower :: "string \<Rightarrow> string" where
  "ToLower s = map lower_char s"

section \<open>Numbers\<close>

definition is_lower :: "char \<Rightarrow> bool" where
  "is_lower c = (CHR ''a'' \<le> c \<and> c \<le> CHR ''z'')"

definition is_digit :: "char \<Rightarrow> bool" where
  "is_digit c = (CHR ''0'' \<le> c \<and> c \<le> CHR ''9'')"

definition digit_val :: "char \<Rightarrow> nat" where
  "digit_val c = of_char c - 48"

definition decimal :: "string \<Rightarrow> nat" where
  "decimal s = fold (\<lambda>c n. 10 * n + digit_val c) s 0"

definition int64_max :: int where "int64_max = 9223372036854775807"
definition int64_min :: int where "int64_min = - 9223372036854775808"

definition fits_int64 :: "int \<Rightarrow> bool" where
  "fits_int64 i = (int64_min \<le> i \<and> i \<le> int64_max)"

text \<open>
  \<open>strconv.Atoi\<close> (and \<open>strconv.ParseInt\<close> with base 10 and 64 bits): an optional sign, at least one
  digit, nothing else, and a value in the 64-bit range.
\<close>

definition unsigned_digits :: "string \<Rightarrow> nat option" where
  "unsigned_digits s = (if s \<noteq> [] \<and> list_all is_digit s then Some (decimal s) else None)"

definition Atoi :: "string \<Rightarrow> int option" where
  "Atoi s =
     (let signed = (case s of [] \<Rightarrow> None
          | c # cs \<Rightarrow>
              (if c = CHR ''-'' then map_option (\<lambda>n. - int n) (unsigned_digits cs)
               else if c = CHR ''+'' then map_option int (unsigned_digits cs)
               else map_option int (unsigned_digits s)))
      in case signed of None \<Rightarrow> None | Some i \<Rightarrow> (if fits_int64 i then Some i else None))"

text \<open>\<open>strconv.Itoa\<close> on a non-negative number.\<close>

fun show_nat :: "nat \<Rightarrow> string" where
  "show_nat n =
     (if n < 10 then [char_of (48 + n)] else show_nat (n div 10) @ [char_of (48 + n mod 10)])"

declare show_nat.simps [simp del]

text \<open>\<open>strconv.Itoa\<close>, and \<open>big.Int.String\<close>.\<close>

definition show_int :: "int \<Rightarrow> string" where
  "show_int i = (if i < 0 then CHR ''-'' # show_nat (nat (- i)) else show_nat (nat i))"

section \<open>Lemmas on strings\<close>

lemma is_digit_iff: "is_digit c \<longleftrightarrow> 48 \<le> (of_char c :: nat) \<and> (of_char c :: nat) \<le> 57"
  by (simp add: is_digit_def less_eq_char_def)

lemma is_digit_char_of: "d < 10 \<Longrightarrow> is_digit (char_of (48 + d :: nat))"
  by (simp add: is_digit_iff)

lemma digit_val_char_of: "d < 10 \<Longrightarrow> digit_val (char_of (48 + d :: nat)) = d"
  by (simp add: digit_val_def)

lemma decimal_snoc: "decimal (s @ [c]) = 10 * decimal s + digit_val c"
  by (simp add: decimal_def)

lemma show_nat_correct: "show_nat n \<noteq> [] \<and> list_all is_digit (show_nat n) \<and> decimal (show_nat n) = n"
proof (induction n rule: show_nat.induct)
  case (1 n)
  show ?case
  proof (cases "n < 10")
    case True
    then show ?thesis
      using decimal_snoc[of "[]"]
      by (simp add: show_nat.simps[of n] is_digit_char_of digit_val_char_of decimal_def)
  next
    case False
    with 1 show ?thesis
      by (simp add: show_nat.simps[of n] decimal_snoc is_digit_char_of digit_val_char_of)
  qed
qed

lemma unsigned_digits_show_nat [simp]: "unsigned_digits (show_nat n) = Some n"
  using show_nat_correct[of n] by (simp add: unsigned_digits_def)

lemma digits_no_char:
  assumes "list_all is_digit s" and "\<not> is_digit c" shows "c \<notin> set s"
  using assms by (auto simp: list_all_iff)

lemma show_nat_no_char: "\<not> is_digit c \<Longrightarrow> c \<notin> set (show_nat n)"
  using show_nat_correct[of n] by (auto simp: list_all_iff)

lemma Atoi_show_nat: "int n \<le> int64_max \<Longrightarrow> Atoi (show_nat n) = Some (int n)"
proof -
  assume "int n \<le> int64_max"
  obtain c cs where s: "show_nat n = c # cs" using show_nat_correct[of n] by (cases "show_nat n") auto
  have "CHR ''-'' \<notin> set (show_nat n)" "CHR ''+'' \<notin> set (show_nat n)"
    by (rule show_nat_no_char, simp add: is_digit_def)+
  with s have "c \<noteq> CHR ''-''" "c \<noteq> CHR ''+''" by auto
  moreover have "unsigned_digits (c # cs) = Some n" using unsigned_digits_show_nat[of n] s by simp
  ultimately show ?thesis
    using \<open>int n \<le> int64_max\<close> s
    by (simp add: Atoi_def fits_int64_def int64_min_def)
qed

lemma HasPrefix_append [simp]: "HasPrefix (p @ s) p"
  by (induction p) auto

lemma HasPrefix_iff: "HasPrefix s p \<longleftrightarrow> (\<exists>t. s = p @ t)"
  by (induction s p rule: HasPrefix.induct) auto

lemma TrimPrefix_append [simp]: "TrimPrefix (p @ s) p = s"
  by (simp add: TrimPrefix_def)

lemma Split_nonempty [simp]: "Split d s \<noteq> []"
  by (cases s) auto

lemma split_by_nonempty [simp]: "split_by p s \<noteq> []"
  by (cases s) auto

text \<open>Code equations that split the rest of the string once.\<close>

lemma Split_code [code]:
  "Split d [] = [[]]"
  "Split d (c # cs) =
     (if c = d then [] # Split d cs else case Split d cs of [] \<Rightarrow> [[c]] | w # ws \<Rightarrow> (c # w) # ws)"
  using Split_nonempty[of d cs] by (auto split: list.splits)

lemma split_by_code [code]:
  "split_by p [] = [[]]"
  "split_by p (c # cs) =
     (if p c then [] # split_by p cs else case split_by p cs of [] \<Rightarrow> [[c]] | w # ws \<Rightarrow> (c # w) # ws)"
  using split_by_nonempty[of p cs] by (auto split: list.splits)

lemma Split_no_sep: "d \<notin> set s \<Longrightarrow> Split d s = [s]"
  by (induction s) auto

lemma Split_append_sep: "d \<notin> set w \<Longrightarrow> Split d (w @ d # s) = w # Split d s"
  by (induction w) auto

lemma Join_Cons: "ws \<noteq> [] \<Longrightarrow> Join sep (w # ws) = w @ sep @ Join sep ws"
  by (cases ws) auto

lemma Split_Join:
  "ws \<noteq> [] \<Longrightarrow> \<forall>w \<in> set ws. d \<notin> set w \<Longrightarrow> Split d (Join [d] ws) = ws"
proof (induction ws)
  case Nil
  then show ?case by simp
next
  case (Cons w ws)
  then show ?case
    by (cases "ws = []") (auto simp: Split_no_sep Split_append_sep Join_Cons)
qed

lemma Join_Split: "Join [d] (Split d s) = s"
proof (induction s)
  case Nil
  then show ?case by simp
next
  case (Cons c s)
  obtain w ws where "Split d s = w # ws"
    using Split_nonempty[of d s] by (cases "Split d s") auto
  with Cons.IH show ?case by (cases ws) auto
qed

lemma Split_sep_free: "w \<in> set (Split d s) \<Longrightarrow> d \<notin> set w"
proof (induction s arbitrary: w)
  case Nil
  then show ?case by simp
next
  case (Cons c s)
  obtain v vs where "Split d s = v # vs"
    using Split_nonempty[of d s] by (cases "Split d s") auto
  with Cons show ?case by (auto split: if_splits)
qed

lemma Cut_found: "Cut d s = (b, a, True) \<Longrightarrow> s = b @ d # a \<and> d \<notin> set b"
  by (induction s arbitrary: b) (auto split: if_splits prod.splits)

lemma Cut_not_found: "Cut d s = (b, a, False) \<Longrightarrow> b = s \<and> a = [] \<and> d \<notin> set s"
  by (induction s arbitrary: b) (auto split: if_splits prod.splits)

lemma Cut_append: "d \<notin> set b \<Longrightarrow> Cut d (b @ d # a) = (b, a, True)"
  by (induction b) auto

lemma Cut_absent: "d \<notin> set s \<Longrightarrow> Cut d s = (s, [], False)"
  by (induction s) auto

lemma ToLower_Nil [simp]: "ToLower [] = []"
  by (simp add: ToLower_def)

lemma ToLower_append [simp]: "ToLower (s @ t) = ToLower s @ ToLower t"
  by (simp add: ToLower_def)

lemma dropWhile_none: "\<forall>c \<in> set s. \<not> p c \<Longrightarrow> dropWhile p s = s"
  by (cases s) auto

lemma trim_by_id: "\<forall>c \<in> set s. \<not> p c \<Longrightarrow> trim_by p s = s"
  by (simp add: trim_by_def dropWhile_none)

lemma trim_by_ends:
  assumes "s \<noteq> []" "\<not> p (hd s)" "\<not> p (last s)" shows "trim_by p s = s"
proof -
  from assms have "dropWhile p s = s" "dropWhile p (rev s) = rev s"
    by (simp_all add: dropWhile_eq_self_iff hd_rev)
  then show ?thesis by (simp add: trim_by_def)
qed

lemma trim_by_idem: "trim_by p (trim_by p s) = trim_by p s"
proof -
  define t where "t = dropWhile p s"
  have "trim_by p s = rev (dropWhile p (rev t))" by (simp add: trim_by_def t_def)
  moreover have "dropWhile p (rev (dropWhile p (rev t))) = rev (dropWhile p (rev t))"
  proof (cases "dropWhile p (rev t)")
    case (Cons c cs)
    have t: "t \<noteq> [] \<Longrightarrow> \<not> p (List.hd t)" unfolding t_def by (rule hd_dropWhile)
    have "rev t = takeWhile p (rev t) @ c # cs" using Cons takeWhile_dropWhile_id[of p "rev t"] by simp
    then have split: "t = rev (c # cs) @ rev (takeWhile p (rev t))" by (metis rev_append rev_rev_ident)
    then have "List.hd t = List.hd (rev (c # cs))" by (metis hd_append2 rev_is_Nil_conv list.distinct(1))
    moreover have "t \<noteq> []" using Cons by auto
    ultimately have "\<not> p (List.hd (rev (c # cs)))" using t by simp
    then show ?thesis unfolding Cons by (cases "rev (c # cs)") simp_all
  next
    case Nil
    show ?thesis unfolding Nil by simp
  qed
  ultimately show ?thesis by (simp add: trim_by_def)
qed

lemma TrimSpace_id: "\<forall>c \<in> set s. \<not> is_space c \<Longrightarrow> TrimSpace s = s"
  by (simp add: TrimSpace_def trim_by_id)

lemma split_by_none: "\<forall>c \<in> set w. \<not> p c \<Longrightarrow> split_by p w = [w]"
  by (induction w) auto

lemma split_by_append: "\<forall>c \<in> set w. \<not> p c \<Longrightarrow> p d \<Longrightarrow> split_by p (w @ d # s) = w # split_by p s"
  by (induction w) auto

lemma FieldsFunc_word: "w \<noteq> [] \<Longrightarrow> \<forall>c \<in> set w. \<not> p c \<Longrightarrow> FieldsFunc p w = [w]"
  by (simp add: FieldsFunc_def split_by_none)

lemma FieldsFunc_append:
  "w \<noteq> [] \<Longrightarrow> \<forall>c \<in> set w. \<not> p c \<Longrightarrow> p d \<Longrightarrow> FieldsFunc p (w @ d # s) = w # FieldsFunc p s"
  by (simp add: FieldsFunc_def split_by_append)

lemma ReplaceChar_id: "a \<notin> set s \<Longrightarrow> ReplaceChar a b s = s"
  by (induction s) (auto simp: ReplaceChar_def)

lemma set_Join: "set (Join sep ws) \<subseteq> \<Union> (set ` set ws) \<union> set sep"
  by (induction sep ws rule: Join.induct) auto

section \<open>Contracts of state transformers\<close>

text \<open>
  A component's operations share a contract with the loops that call them: every operation keeps an
  invariant, and every operation only appends to a log.  The lemmas about a whole run are proved once.
\<close>

locale preserving =
  fixes step :: "'c \<Rightarrow> 's \<Rightarrow> 's" and inv :: "'s \<Rightarrow> bool"
  assumes step_inv: "inv s \<Longrightarrow> inv (step c s)"
begin

lemma run_inv: "inv s \<Longrightarrow> inv (fold step cs s)"
  by (induction cs arbitrary: s) (simp_all add: step_inv)

end

locale logging =
  fixes step :: "'c \<Rightarrow> 's \<Rightarrow> 's" and log :: "'s \<Rightarrow> 'e list"
  assumes step_appends: "\<exists>es. log (step c s) = log s @ es"
begin

lemma run_appends: "\<exists>es. log (fold step cs s) = log s @ es"
proof (induction cs arbitrary: s)
  case (Cons c cs)
  from Cons[of "step c s"] step_appends[of c s] show ?case by auto
qed simp

lemma run_contains: "set (log s) \<subseteq> set (log (fold step cs s))"
  using run_appends[of cs s] by auto

lemma run_empty: "log (fold step cs s) = [] \<Longrightarrow> log s = []"
  using run_appends[of cs s] by auto

lemma run_split:
  assumes "c \<in> set cs"
  shows "\<exists>t us. fold step cs s = fold step us (step c t) \<and> (\<exists>ts. t = fold step ts s)"
proof -
  from assms obtain xs ys where "cs = xs @ c # ys" by (auto dest: split_list)
  then have "fold step cs s = fold step ys (step c (fold step xs s))" by simp
  then show ?thesis by blast
qed

end

end
