(* ===== verification/Platform_Version.thy ===== *)
theory Platform_Version
  imports Prelude
begin

text \<open>
  \<open>internal/extension/platform/version.go\<close>: semantic versions, their order, and the comparator sets
  that a plugin states as \<open>RequiredCLIVersion\<close>.  Numeric components are the 64-bit \<open>int\<close> of Go,
  read by \<open>Atoi\<close>; an error is a constructor per message.
\<close>

section \<open>Data\<close>

record semanticVersion =
  major :: int
  minor :: int
  patch :: int
  prerelease :: "string list"

datatype version_error =
    BadShape
  | BadComponent string
  | CannotEvaluate bool string version_error
  | EmptyConstraint
  | DanglingComparator string string
  | BadConstraint string version_error
  | UnsupportedOperator string
  | NotSatisfied string string

section \<open>Parsing\<close>

fun parse_components :: "string list \<Rightarrow> (version_error, int list) result" where
  "parse_components [] = Inr []"
| "parse_components (p # ps) =
     (case Atoi p of
        None \<Rightarrow> Inl (BadComponent p)
      | Some n \<Rightarrow>
          (if n < 0 then Inl (BadComponent p)
           else (case parse_components ps of Inl e \<Rightarrow> Inl e | Inr ns \<Rightarrow> Inr (n # ns))))"

definition parseSemanticVersion :: "string \<Rightarrow> (version_error, semanticVersion) result" where
  "parseSemanticVersion value =
     (let v = TrimPrefix (TrimSpace value) ''v'';
          v1 = fst (Cut CHR ''+'' v);
          core = fst (Cut CHR ''-'' v1);
          pre = (if snd (snd (Cut CHR ''-'' v1)) then Split CHR ''.'' (fst (snd (Cut CHR ''-'' v1))) else []);
          parts = Split CHR ''.'' core
      in if length parts \<noteq> 3 then Inl BadShape
         else (case parse_components parts of
                 Inl e \<Rightarrow> Inl e
               | Inr ns \<Rightarrow> Inr \<lparr>major = ns ! 0, minor = ns ! 1, patch = ns ! 2, prerelease = pre\<rparr>))"

section \<open>Comparing\<close>

definition compare_int :: "int \<Rightarrow> int \<Rightarrow> int" where
  "compare_int l r = (if l < r then -1 else if l > r then 1 else 0)"

definition compare_string :: "string \<Rightarrow> string \<Rightarrow> int" where
  "compare_string l r = (if l < r then -1 else if l > r then 1 else 0)"

definition comparePrereleaseIdentifier :: "string \<Rightarrow> string \<Rightarrow> int" where
  "comparePrereleaseIdentifier l r =
     (case (Atoi l, Atoi r) of
        (Some m, Some n) \<Rightarrow> compare_int m n
      | (Some _, None) \<Rightarrow> -1
      | (None, Some _) \<Rightarrow> 1
      | (None, None) \<Rightarrow> compare_string l r)"

text \<open>The loop over the common length, then the comparison of the lengths.\<close>

fun compare_prerelease :: "string list \<Rightarrow> string list \<Rightarrow> int" where
  "compare_prerelease [] [] = 0"
| "compare_prerelease [] (_ # _) = -1"
| "compare_prerelease (_ # _) [] = 1"
| "compare_prerelease (x # xs) (y # ys) =
     (let c = comparePrereleaseIdentifier x y in if c \<noteq> 0 then c else compare_prerelease xs ys)"

fun compare_core :: "(int \<times> int) list \<Rightarrow> int" where
  "compare_core [] = 0"
| "compare_core ((l, r) # ps) = (if l < r then -1 else if l > r then 1 else compare_core ps)"

definition compareSemanticVersion :: "semanticVersion \<Rightarrow> semanticVersion \<Rightarrow> int" where
  "compareSemanticVersion l r =
     (let c = compare_core [(major l, major r), (minor l, minor r), (patch l, patch r)]
      in if c \<noteq> 0 then c
         else if prerelease l = [] \<and> prerelease r = [] then 0
         else if prerelease l = [] then 1
         else if prerelease r = [] then -1
         else compare_prerelease (prerelease l) (prerelease r))"

section \<open>Constraints\<close>

definition isComparator :: "string \<Rightarrow> bool" where
  "isComparator s = (s \<in> {''>='', ''<='', ''=='', ''>'', ''<'', ''=''})"

fun split_fields :: "string \<Rightarrow> string list \<Rightarrow> (version_error, string list) result" where
  "split_fields constraint [] = Inr []"
| "split_fields constraint (f # fs) =
     (if \<not> isComparator f then
        (case split_fields constraint fs of Inl e \<Rightarrow> Inl e | Inr ps \<Rightarrow> Inr (f # ps))
      else (case fs of
              [] \<Rightarrow> Inl (DanglingComparator constraint f)
            | g # gs \<Rightarrow>
                (if isComparator g then Inl (DanglingComparator constraint f)
                 else (case split_fields constraint gs of
                         Inl e \<Rightarrow> Inl e
                       | Inr ps \<Rightarrow> Inr ((f @ g) # ps)))))"

definition splitConstraintParts :: "string \<Rightarrow> (version_error, string list) result" where
  "splitConstraintParts constraint =
     split_fields constraint (Fields (ReplaceChar CHR '','' CHR '' '' constraint))"

fun split_operator :: "string list \<Rightarrow> string \<Rightarrow> string \<times> string" where
  "split_operator [] value = (''='', value)"
| "split_operator (operator # ops) value =
     (if HasPrefix value operator then (operator, TrimSpace (TrimPrefix value operator))
      else split_operator ops value)"

definition splitComparator :: "string \<Rightarrow> string \<times> string" where
  "splitComparator value = split_operator [''>='', ''<='', ''=='', ''>'', ''<'', ''=''] value"

definition operator_holds :: "string \<Rightarrow> int \<Rightarrow> bool option" where
  "operator_holds operator comparison =
     (if operator = ''='' \<or> operator = ''=='' then Some (comparison = 0)
      else if operator = ''>'' then Some (comparison > 0)
      else if operator = ''>='' then Some (comparison \<ge> 0)
      else if operator = ''<'' then Some (comparison < 0)
      else if operator = ''<='' then Some (comparison \<le> 0)
      else None)"

fun check_parts :: "string \<Rightarrow> string \<Rightarrow> semanticVersion \<Rightarrow> string list \<Rightarrow> version_error option" where
  "check_parts constraint current actual [] = None"
| "check_parts constraint current actual (part # parts) =
     (case parseSemanticVersion (snd (splitComparator part)) of
        Inl e \<Rightarrow> Some (BadConstraint constraint e)
      | Inr expected \<Rightarrow>
          (case operator_holds (fst (splitComparator part)) (compareSemanticVersion actual expected) of
             None \<Rightarrow> Some (UnsupportedOperator (fst (splitComparator part)))
           | Some ok \<Rightarrow>
               (if \<not> ok then Some (NotSatisfied current constraint)
                else check_parts constraint current actual parts)))"

definition checkCLIVersion :: "string \<Rightarrow> string \<Rightarrow> version_error option" where
  "checkCLIVersion constraint0 current =
     (let constraint = TrimSpace constraint0 in
      if constraint = [] then None
      else (case parseSemanticVersion current of
              Inl e \<Rightarrow> Some (CannotEvaluate (TrimSpace current = ''dev'') current e)
            | Inr actual \<Rightarrow>
                (case splitConstraintParts constraint of
                   Inl e \<Rightarrow> Some e
                 | Inr parts \<Rightarrow>
                     (if parts = [] then Some EmptyConstraint
                      else check_parts constraint current actual parts))))"

section \<open>Three-way comparisons\<close>

text \<open>
  The contract of a comparison that returns a negative, zero or positive number: its clients are the
  lexicographic comparisons, which compare component by component.
\<close>

fun lex_cmp :: "('a \<Rightarrow> 'a \<Rightarrow> int) \<Rightarrow> 'a list \<Rightarrow> 'a list \<Rightarrow> int" where
  "lex_cmp cmp [] [] = 0"
| "lex_cmp cmp [] (_ # _) = -1"
| "lex_cmp cmp (_ # _) [] = 1"
| "lex_cmp cmp (x # xs) (y # ys) = (if cmp x y \<noteq> 0 then cmp x y else lex_cmp cmp xs ys)"

definition then_cmp :: "('a \<Rightarrow> 'a \<Rightarrow> int) \<Rightarrow> ('a \<Rightarrow> 'a \<Rightarrow> int) \<Rightarrow> 'a \<Rightarrow> 'a \<Rightarrow> int" where
  "then_cmp c d x y = (if c x y \<noteq> 0 then c x y else d x y)"

locale three_way =
  fixes cmp :: "'a \<Rightarrow> 'a \<Rightarrow> int"
  assumes swap: "cmp x y = - cmp y x"
    and le_trans: "cmp x y \<le> 0 \<Longrightarrow> cmp y z \<le> 0 \<Longrightarrow> cmp x z \<le> 0"
begin

lemma refl [simp]: "cmp x x = 0"
  using swap[of x x] by simp

lemma le_less_trans: "cmp x y \<le> 0 \<Longrightarrow> cmp y z < 0 \<Longrightarrow> cmp x z < 0"
  using le_trans[of z x y] swap[of x z] swap[of y z] by linarith

lemma less_le_trans: "cmp x y < 0 \<Longrightarrow> cmp y z \<le> 0 \<Longrightarrow> cmp x z < 0"
  using le_trans[of y z x] swap[of x z] swap[of y x] by linarith

lemma zero_sym: "cmp x y = 0 \<Longrightarrow> cmp y x = 0"
  using swap[of x y] by simp

lemma zero_trans: "cmp x y = 0 \<Longrightarrow> cmp y z = 0 \<Longrightarrow> cmp x z = 0"
  using le_trans[of x y z] le_trans[of z y x] swap[of x z] zero_sym[of x y] zero_sym[of y z]
  by linarith

lemma zero_cong: "cmp x y = 0 \<Longrightarrow> cmp x z \<le> 0 \<longleftrightarrow> cmp y z \<le> 0"
  using le_trans[of x y z] le_trans[of y x z] zero_sym[of x y] by auto

lemma total: "cmp x y \<le> 0 \<or> cmp y x \<le> 0"
  using swap[of x y] by linarith

lemma pullback: "three_way (\<lambda>x y. cmp (f x) (f y))"
  by (unfold_locales; metis swap le_trans)

lemma lex_swap: "lex_cmp cmp xs ys = - lex_cmp cmp ys xs"
proof (induction xs arbitrary: ys)
  case Nil
  then show ?case by (cases ys) auto
next
  case (Cons x xs)
  show ?case
  proof (cases ys)
    case (Cons y zs)
    then show ?thesis using Cons.IH[of zs] swap[of x y] zero_sym[of x y] by auto
  qed simp
qed

lemma lex_le_trans: "lex_cmp cmp xs ys \<le> 0 \<Longrightarrow> lex_cmp cmp ys zs \<le> 0 \<Longrightarrow> lex_cmp cmp xs zs \<le> 0"
proof (induction xs arbitrary: ys zs)
  case Nil
  then show ?case by (cases zs) auto
next
  case (Cons x xs)
  then obtain y ys' where ys: "ys = y # ys'" by (cases ys) auto
  with Cons.prems obtain z zs' where zs: "zs = z # zs'" by (cases zs) auto
  from Cons.prems(1) ys have xy: "cmp x y \<le> 0" by (auto split: if_splits)
  from Cons.prems(2) ys zs have yz: "cmp y z \<le> 0" by (auto split: if_splits)
  show ?case
  proof (cases "cmp x y = 0 \<and> cmp y z = 0")
    case True
    with Cons ys zs zero_trans[of x y z] show ?thesis by simp
  next
    case False
    with xy yz have "cmp x z < 0"
      using less_le_trans[of x y z] le_less_trans[of x y z] by linarith
    with zs show ?thesis by simp
  qed
qed

lemma lex_three_way: "three_way (lex_cmp cmp)"
  by unfold_locales (rule lex_swap, rule lex_le_trans)

end

text \<open>Two comparisons, the second deciding where the first is zero.\<close>

locale three_way_pair = fst_cmp: three_way c + snd_cmp: three_way d
  for c d :: "'a \<Rightarrow> 'a \<Rightarrow> int"
begin

lemma then_le_trans:
  assumes xy: "then_cmp c d x y \<le> 0" and yz: "then_cmp c d y z \<le> 0"
  shows "then_cmp c d x z \<le> 0"
proof (cases "c x y = 0 \<and> c y z = 0")
  case True
  with xy yz show ?thesis
    using fst_cmp.zero_trans[of x y z] snd_cmp.le_trans[of x y z] by (simp add: then_cmp_def)
next
  case False
  from xy have "c x y \<le> 0" by (auto simp: then_cmp_def split: if_splits)
  moreover from yz have "c y z \<le> 0" by (auto simp: then_cmp_def split: if_splits)
  ultimately have "c x z < 0"
    using False fst_cmp.less_le_trans[of x y z] fst_cmp.le_less_trans[of x y z] by linarith
  then show ?thesis by (simp add: then_cmp_def)
qed

lemma then_three_way: "three_way (then_cmp c d)"
proof
  fix x y
  show "then_cmp c d x y = - then_cmp c d y x"
    using fst_cmp.swap[of x y] snd_cmp.swap[of x y] by (simp add: then_cmp_def)
qed (rule then_le_trans)

end

section \<open>The order of versions\<close>

interpretation ints: three_way compare_int
  by unfold_locales (auto simp: compare_int_def split: if_splits)

interpretation strings: three_way compare_string
  by unfold_locales (auto simp: compare_string_def split: if_splits)

interpretation identifiers: three_way comparePrereleaseIdentifier
proof
  fix x y z :: string
  show "comparePrereleaseIdentifier x y = - comparePrereleaseIdentifier y x"
    using ints.swap[of "the (Atoi x)" "the (Atoi y)"] strings.swap[of x y]
    by (cases "Atoi x"; cases "Atoi y") (simp_all add: comparePrereleaseIdentifier_def)
  show "comparePrereleaseIdentifier x z \<le> 0"
    if "comparePrereleaseIdentifier x y \<le> 0" and "comparePrereleaseIdentifier y z \<le> 0"
    using that ints.le_trans[of "the (Atoi x)" "the (Atoi y)" "the (Atoi z)"]
      strings.le_trans[of x y z]
    by (cases "Atoi x"; cases "Atoi y"; cases "Atoi z")
       (simp_all add: comparePrereleaseIdentifier_def)
qed

lemma compare_prerelease_lex:
  "compare_prerelease xs ys = lex_cmp comparePrereleaseIdentifier xs ys"
  by (induction xs ys rule: compare_prerelease.induct) (auto simp: Let_def)

text \<open>An empty prerelease is a release, which comes after all its prereleases.\<close>

definition compare_release :: "string list \<Rightarrow> string list \<Rightarrow> int" where
  "compare_release xs ys =
     (if xs = [] \<and> ys = [] then 0 else if xs = [] then 1 else if ys = [] then -1
      else lex_cmp comparePrereleaseIdentifier xs ys)"

interpretation releases: three_way compare_release
proof
  fix x y z :: "string list"
  show "compare_release x y = - compare_release y x"
    using identifiers.lex_swap[of x y] by (simp add: compare_release_def)
  show "compare_release x z \<le> 0"
    if "compare_release x y \<le> 0" and "compare_release y z \<le> 0"
    using that identifiers.lex_le_trans[of x y z]
    by (simp add: compare_release_def split: if_splits)
qed

lemma compareSemanticVersion_then:
  "compareSemanticVersion =
     then_cmp (\<lambda>l r. compare_int (major l) (major r))
       (then_cmp (\<lambda>l r. compare_int (minor l) (minor r))
          (then_cmp (\<lambda>l r. compare_int (patch l) (patch r))
             (\<lambda>l r. compare_release (prerelease l) (prerelease r))))"
  by (intro ext)
     (simp add: compareSemanticVersion_def then_cmp_def compare_int_def compare_release_def
        compare_prerelease_lex)

interpretation versions: three_way compareSemanticVersion
  unfolding compareSemanticVersion_then
  by (intro three_way_pair.then_three_way three_way_pair.intro ints.pullback releases.pullback)

section \<open>Properties\<close>

text \<open>
  \<open>compareSemanticVersion\<close> is a total preorder: exchanging the operands negates the result, any
  two versions are comparable, and the relation it decides is transitive (prerelease identifiers
  included, numeric ones and alphanumeric ones mixed).
\<close>

lemma version_order:
  "compareSemanticVersion x y = - compareSemanticVersion y x \<and>
   (compareSemanticVersion x y \<le> 0 \<or> compareSemanticVersion y x \<le> 0) \<and>
   (compareSemanticVersion x y \<le> 0 \<and> compareSemanticVersion y z \<le> 0 \<longrightarrow>
    compareSemanticVersion x z \<le> 0)"
  using versions.swap[of x y] versions.total[of x y] versions.le_trans[of x y z] by blast

lemma version_order_witness:
  "compareSemanticVersion \<lparr>major = 1, minor = 0, patch = 0, prerelease = [''alpha'', ''2'']\<rparr>
     \<lparr>major = 1, minor = 0, patch = 0, prerelease = []\<rparr> \<le> 0"
proof -
  let ?x = "\<lparr>major = 1, minor = 0, patch = 0, prerelease = [''alpha'', ''2'']\<rparr>"
  let ?y = "\<lparr>major = 1, minor = 0, patch = 0, prerelease = [''alpha'', ''beta'']\<rparr>"
  let ?z = "\<lparr>major = 1, minor = 0, patch = 0, prerelease = []\<rparr>"
  have "compareSemanticVersion ?x ?y \<le> 0" and "compareSemanticVersion ?y ?z \<le> 0" by code_simp+
  with version_order[of ?x ?y ?z] show ?thesis by blast
qed

definition part_satisfied :: "semanticVersion \<Rightarrow> string \<Rightarrow> bool" where
  "part_satisfied actual part =
     (case parseSemanticVersion (snd (splitComparator part)) of
        Inl _ \<Rightarrow> False
      | Inr expected \<Rightarrow>
          operator_holds (fst (splitComparator part)) (compareSemanticVersion actual expected) = Some True)"

lemma check_parts_None: "check_parts c cur v parts = None \<longleftrightarrow> list_all (part_satisfied v) parts"
  by (induction c cur v parts rule: check_parts.induct)
     (auto simp: part_satisfied_def split: sum.splits option.splits)

text \<open>
  \<open>checkCLIVersion\<close> accepts exactly when the constraint is blank, or the CLI's version parses,
  the constraint splits into at least one comparator, and the version satisfies every one of them:
  an unparsable version, comparator or operator is never accepted.
\<close>

lemma checkCLIVersion_accepts:
  "checkCLIVersion constraint current = None \<longleftrightarrow>
     TrimSpace constraint = [] \<or>
     (\<exists>v parts. parseSemanticVersion current = Inr v \<and>
        splitConstraintParts (TrimSpace constraint) = Inr parts \<and> parts \<noteq> [] \<and>
        list_all (part_satisfied v) parts)"
  by (auto simp: checkCLIVersion_def Let_def check_parts_None split: sum.splits)

subsection \<open>Release versions and ranges\<close>

definition release :: "nat \<Rightarrow> nat \<Rightarrow> nat \<Rightarrow> string" where
  "release a b c = Join ''.'' [show_nat a, show_nat b, show_nat c]"

definition int64_nat :: "nat \<Rightarrow> bool" where
  "int64_nat n = (int n \<le> int64_max)"

lemma release_chars: "x \<in> set (release a b c) \<Longrightarrow> is_digit x \<or> x = CHR ''.''"
  using show_nat_correct[of a] show_nat_correct[of b] show_nat_correct[of c]
  by (auto simp: release_def list_all_iff)

lemma release_nonempty: "release a b c \<noteq> []"
  by (simp add: release_def)

lemma release_plain:
  "\<not> is_digit x \<Longrightarrow> x \<noteq> CHR ''.'' \<Longrightarrow> x \<notin> set (release a b c)"
  using release_chars by blast

lemma release_no_space: "\<forall>x \<in> set (release a b c). \<not> is_space x"
  using release_chars by (force simp: is_space_def is_digit_def)

lemma hd_release: "is_digit (hd (release a b c))"
  using show_nat_correct[of a] by (cases "show_nat a") (auto simp: release_def)

lemma TrimPrefix_hd: "s \<noteq> [] \<Longrightarrow> hd s \<noteq> d \<Longrightarrow> TrimPrefix s (d # ds) = s"
  by (cases s) (auto simp: TrimPrefix_def)

lemma Split_release:
  "Split CHR ''.'' (release a b c) = [show_nat a, show_nat b, show_nat c]"
  unfolding release_def
  by (rule Split_Join) (auto dest: show_nat_no_char simp: show_nat_no_char is_digit_def)

lemma parse_release:
  assumes "int64_nat a" "int64_nat b" "int64_nat c"
  shows "parseSemanticVersion (release a b c) =
    Inr \<lparr>major = int a, minor = int b, patch = int c, prerelease = []\<rparr>"
proof -
  have no: "CHR ''+'' \<notin> set (release a b c)" "CHR ''-'' \<notin> set (release a b c)"
    by (rule release_plain; simp add: is_digit_def)+
  have hd: "hd (release a b c) \<noteq> CHR ''v''" using hd_release[of a b c] by (auto simp: is_digit_def)
  show ?thesis
    using assms
    by (simp add: parseSemanticVersion_def Let_def TrimSpace_id release_no_space
        TrimPrefix_hd[OF release_nonempty hd] Cut_absent[OF no(1)] Cut_absent[OF no(2)]
        Split_release Atoi_show_nat int64_nat_def)
qed

definition version_less :: "nat \<times> nat \<times> nat \<Rightarrow> nat \<times> nat \<times> nat \<Rightarrow> bool" where
  "version_less x y =
     (fst x < fst y \<or> fst x = fst y \<and>
       (fst (snd x) < fst (snd y) \<or> fst (snd x) = fst (snd y) \<and> snd (snd x) < snd (snd y)))"

lemma compare_release_versions:
  "compareSemanticVersion \<lparr>major = int a, minor = int b, patch = int c, prerelease = []\<rparr>
     \<lparr>major = int a', minor = int b', patch = int c', prerelease = []\<rparr> =
   (if version_less (a, b, c) (a', b', c') then -1
    else if version_less (a', b', c') (a, b, c) then 1 else 0)"
  by (auto simp: compareSemanticVersion_def version_less_def)

lemma splitComparator_release:
  "splitComparator (''>='' @ release a b c) = (''>='', release a b c)"
  "splitComparator (''<'' @ release a b c) = (''<'', release a b c)"
proof -
  obtain d ds where r: "release a b c = d # ds" using release_nonempty by (cases "release a b c") auto
  have d: "d \<noteq> CHR ''=''" using hd_release[of a b c] r by (auto simp: is_digit_def)
  have t: "TrimSpace (d # ds) = d # ds" using release_no_space[of a b c] r by (simp add: TrimSpace_id)
  show "splitComparator (''>='' @ release a b c) = (''>='', release a b c)"
    by (simp add: splitComparator_def r TrimPrefix_def t)
  show "splitComparator (''<'' @ release a b c) = (''<'', release a b c)"
    using d by (simp add: splitComparator_def r TrimPrefix_def t)
qed

definition range_constraint :: "string \<Rightarrow> string \<Rightarrow> string" where
  "range_constraint lo hi = (''>='' @ lo) @ CHR '' '' # (''<'' @ hi)"

lemma split_range:
  "splitConstraintParts (TrimSpace (range_constraint (release a b c) (release d e f))) =
     Inr [''>='' @ release a b c, ''<'' @ release d e f]"
proof -
  let ?r = "range_constraint (release a b c) (release d e f)"
  have "last ?r \<in> set (release d e f)"
    using release_nonempty[of d e f] by (simp add: range_constraint_def)
  then have "\<not> is_space (last ?r)" using release_no_space by blast
  then have trim: "TrimSpace ?r = ?r"
    by (simp add: TrimSpace_def trim_by_ends range_constraint_def is_space_def)
  have "CHR '','' \<notin> set ?r"
    using release_plain[of "CHR '',''"] by (simp add: range_constraint_def is_digit_def)
  then have rep: "ReplaceChar CHR '','' CHR '' '' ?r = ?r" by (rule ReplaceChar_id)
  have w: "\<forall>x \<in> set (''>='' @ release a b c). \<not> is_space x"
    "\<forall>x \<in> set (''<'' @ release d e f). \<not> is_space x"
    using release_no_space by (auto simp: is_space_def)
  have fields: "Fields ?r = [''>='' @ release a b c, ''<'' @ release d e f]"
    unfolding Fields_def range_constraint_def
    using w by (subst FieldsFunc_append) (auto simp: FieldsFunc_word is_space_def)
  have nc: "\<not> isComparator (''>='' @ release a b c)" "\<not> isComparator (''<'' @ release d e f)"
    using release_nonempty[of a b c] release_nonempty[of d e f] hd_release[of d e f]
    by (auto simp: isComparator_def is_digit_def)
  show ?thesis
    unfolding splitConstraintParts_def trim rep fields using nc by simp
qed

text \<open>
  For release versions within the 64-bit range, the constraint \<open>>=lo <hi\<close> accepts exactly the
  versions of the half-open interval, in the numeric (not textual) order of the components.
\<close>

lemma range_constraint_interval:
  assumes "int64_nat a" "int64_nat b" "int64_nat c" "int64_nat d" "int64_nat e" "int64_nat f"
    and "int64_nat x" "int64_nat y" "int64_nat z"
  shows "checkCLIVersion (range_constraint (release a b c) (release d e f)) (release x y z) = None
    \<longleftrightarrow> \<not> version_less (x, y, z) (a, b, c) \<and> version_less (x, y, z) (d, e, f)"
proof -
  have "TrimSpace (range_constraint (release a b c) (release d e f)) \<noteq> []"
    using split_range[of a b c d e f] by (auto simp: splitConstraintParts_def Fields_def
      FieldsFunc_def ReplaceChar_def)
  moreover have "\<not> (version_less p q \<and> version_less q p)" for p q
    by (auto simp: version_less_def)
  ultimately show ?thesis
    using assms
    by (auto simp: checkCLIVersion_accepts split_range parse_release part_satisfied_def
        splitComparator_release[simplified] operator_holds_def compare_release_versions)
qed

end
