(* ===== verification/Go_Path.thy ===== *)
theory Go_Path
  imports Prelude
begin

text \<open>
  The glob matcher \<open>path.Match\<close> of Go's standard library, which the policy patterns of the
  platform extension use segment by segment (\<open>extension/platform/types.go\<close>).  The result
  \<open>None\<close> is \<open>path.ErrBadPattern\<close>.  Bytes stand for runes: patterns and command paths are ASCII.
\<close>

section \<open>Scanning a pattern\<close>

text \<open>One chunk up to the next star outside a character class; an escape keeps its byte.\<close>

fun scan_chunk :: "bool \<Rightarrow> string \<Rightarrow> string \<times> string" where
  "scan_chunk inrange [] = ([], [])"
| "scan_chunk inrange (c # cs) =
     (if c = CHR 0x5C then
        (case cs of
           [] \<Rightarrow> ([c], [])
         | d # ds \<Rightarrow> (c # d # fst (scan_chunk inrange ds), snd (scan_chunk inrange ds)))
      else if c = CHR ''*'' \<and> \<not> inrange then ([], c # cs)
      else
        (let r = (if c = CHR ''['' then True else if c = CHR '']'' then False else inrange)
         in (c # fst (scan_chunk r cs), snd (scan_chunk r cs))))"

definition scanChunk :: "string \<Rightarrow> bool \<times> string \<times> string" where
  "scanChunk pattern =
     (let p = dropWhile (\<lambda>c. c = CHR ''*'') pattern
      in (p \<noteq> pattern, fst (scan_chunk False p), snd (scan_chunk False p)))"

fun getEsc :: "string \<Rightarrow> (char \<times> string) option" where
  "getEsc [] = None"
| "getEsc (c # cs) =
     (if c = CHR ''-'' \<or> c = CHR '']'' then None
      else if c = CHR 0x5C then
        (case cs of [] \<Rightarrow> None | d # ds \<Rightarrow> (if ds = [] then None else Some (d, ds)))
      else if cs = [] then None else Some (c, cs))"

lemma getEsc_shorter: "getEsc p = Some (c, q) \<Longrightarrow> length q < length p \<and> q \<noteq> []"
  by (cases p) (auto split: if_splits list.splits)

text \<open>The body of a character class: the ranges up to the closing bracket.\<close>

function match_class :: "char \<Rightarrow> nat \<Rightarrow> bool \<Rightarrow> string \<Rightarrow> (bool \<times> string) option" where
  "match_class r nrange matched chunk =
     (if chunk \<noteq> [] \<and> hd chunk = CHR '']'' \<and> 0 < nrange then Some (matched, tl chunk)
      else (case getEsc chunk of
              None \<Rightarrow> None
            | Some (lo, c1) \<Rightarrow>
                (if hd c1 = CHR ''-'' then
                   (case getEsc (tl c1) of
                      None \<Rightarrow> None
                    | Some (hi, c2) \<Rightarrow>
                        match_class r (Suc nrange) (matched \<or> (lo \<le> r \<and> r \<le> hi)) c2)
                 else match_class r (Suc nrange) (matched \<or> r = lo) c1)))"
  by pat_completeness auto
termination
  by (relation "measure (\<lambda>(r, n, m, chunk). length chunk)")
     (auto dest!: getEsc_shorter)

declare match_class.simps [simp del]

lemma match_class_shorter:
  "match_class r n m chunk = Some (b, rest) \<Longrightarrow> length rest < length chunk"
proof (induction r n m chunk rule: match_class.induct)
  case (1 r n m chunk)
  show ?case
  proof (cases "chunk \<noteq> [] \<and> hd chunk = CHR '']'' \<and> 0 < n")
    case True
    with "1.prems" have "rest = tl chunk" by (subst (asm) match_class.simps) simp
    with True show ?thesis by (cases chunk) auto
  next
    case False
    note no_close = this
    with "1.prems" obtain lo c1 where esc: "getEsc chunk = Some (lo, c1)"
      by (auto simp: match_class.simps[of r n m chunk] split: option.splits prod.splits)
    note shorter = getEsc_shorter[OF esc]
    show ?thesis
    proof (cases "hd c1 = CHR ''-''")
      case True
      with "1.prems" no_close esc obtain hi c2 where esc2: "getEsc (tl c1) = Some (hi, c2)"
        and rec: "match_class r (Suc n) (m \<or> (lo \<le> r \<and> r \<le> hi)) c2 = Some (b, rest)"
        by (auto simp: match_class.simps[of r n m chunk] split: option.splits prod.splits)
      from "1.IH"(1)[OF no_close esc refl True esc2 refl rec] getEsc_shorter[OF esc2] shorter
      show ?thesis by auto
    next
      case nodash: False
      with "1.prems" no_close esc
      have rec: "match_class r (Suc n) (m \<or> r = lo) c1 = Some (b, rest)"
        by (simp add: match_class.simps[of r n m chunk])
      from "1.IH"(2)[OF no_close esc refl nodash rec] shorter show ?thesis by auto
    qed
  qed
qed

section \<open>Matching a chunk and a whole pattern\<close>

text \<open>
  \<open>failed\<close> records a mismatch; the rest of the chunk is still checked for well-formedness.  The
  result is \<open>None\<close> for a malformed chunk, \<open>Some None\<close> for no match and otherwise the rest of the name.
\<close>

function matchChunk :: "bool \<Rightarrow> string \<Rightarrow> string \<Rightarrow> string option option" where
  "matchChunk failed chunk s =
     (case chunk of
        [] \<Rightarrow> Some (if failed then None else Some s)
      | c # cs \<Rightarrow>
          (let bad = failed \<or> s = [] in
           if c = CHR ''['' then
             (let r = (if bad then CHR 0x00 else hd s);
                  s' = (if bad then s else tl s);
                  negated = (cs \<noteq> [] \<and> hd cs = CHR 0x5E);
                  body = (if negated then tl cs else cs)
              in case match_class r 0 False body of
                   None \<Rightarrow> None
                 | Some (m, rest) \<Rightarrow> matchChunk (bad \<or> m = negated) rest s')
           else if c = CHR ''?'' then
             (if bad then matchChunk True cs s
              else matchChunk (hd s = CHR ''/'') cs (tl s))
           else if c = CHR 0x5C then
             (case cs of
                [] \<Rightarrow> None
              | d # ds \<Rightarrow> (if bad then matchChunk True ds s else matchChunk (d \<noteq> hd s) ds (tl s)))
           else (if bad then matchChunk True cs s else matchChunk (c \<noteq> hd s) cs (tl s))))"
  by pat_completeness auto
termination
  by (relation "measure (\<lambda>(f, chunk, s). length chunk)")
     (auto dest!: match_class_shorter split: if_splits)

declare matchChunk.simps [simp del]

fun star_search :: "string \<Rightarrow> bool \<Rightarrow> string \<Rightarrow> string option option" where
  "star_search chunk final [] = Some None"
| "star_search chunk final (c # cs) =
     (if c = CHR ''/'' then Some None
      else (case matchChunk False chunk cs of
              None \<Rightarrow> None
            | Some (Some t) \<Rightarrow>
                (if final \<and> t \<noteq> [] then star_search chunk final cs else Some (Some t))
            | Some None \<Rightarrow> star_search chunk final cs))"

lemma scan_chunk_length: "length (snd (scan_chunk r p)) \<le> length p"
proof (induction r p rule: scan_chunk.induct)
  case (1 r)
  then show ?case by simp
next
  case (2 r c cs)
  show ?case
  proof (cases "c = CHR 0x5C")
    case True
    with "2.IH"(1) show ?thesis by (cases cs) (simp_all add: le_SucI)
  next
    case False
    with "2.IH"(3,4) show ?thesis by (simp add: Let_def le_SucI)
  qed
qed

lemma scan_chunk_progress:
  assumes "p \<noteq> []" and "hd p \<noteq> CHR ''*''"
  shows "length (snd (scan_chunk r p)) < length p"
proof -
  from assms obtain c cs where p: "p = c # cs" and c: "c \<noteq> CHR ''*''" by (cases p) auto
  have "length (snd (scan_chunk q cs)) < Suc (length cs)" for q
    by (simp add: scan_chunk_length less_Suc_eq_le)
  moreover have "length (snd (scan_chunk q (tl cs))) < Suc (length cs)" for q
    using scan_chunk_length[of q "tl cs"] by simp
  ultimately show ?thesis
    using c unfolding p by (cases cs) (simp_all add: Let_def less_SucI)
qed

lemma scanChunk_shorter:
  assumes "pattern \<noteq> []" shows "length (snd (snd (scanChunk pattern))) < length pattern"
proof (cases "hd pattern = CHR ''*''")
  case True
  with assms obtain cs where p: "pattern = CHR ''*'' # cs" by (cases pattern) auto
  have "length (snd (scan_chunk False (dropWhile (\<lambda>c. c = CHR ''*'') cs))) \<le> length cs"
    using scan_chunk_length length_dropWhile_le le_trans by blast
  with p show ?thesis by (simp add: scanChunk_def Let_def)
next
  case False
  with assms have "dropWhile (\<lambda>c. c = CHR ''*'') pattern = pattern" by (cases pattern) auto
  with assms False show ?thesis by (simp add: scanChunk_def Let_def scan_chunk_progress)
qed

function check_rest :: "string \<Rightarrow> bool option" where
  "check_rest pattern =
     (if pattern = [] then Some False
      else (case matchChunk False (fst (snd (scanChunk pattern))) [] of
              None \<Rightarrow> None
            | Some _ \<Rightarrow> check_rest (snd (snd (scanChunk pattern)))))"
  by pat_completeness auto
termination
  by (relation "measure length") (auto simp: scanChunk_shorter)

declare check_rest.simps [simp del]

function path_Match :: "string \<Rightarrow> string \<Rightarrow> bool option" where
  "path_Match pattern name =
     (if pattern = [] then Some (name = [])
      else
        (let star = fst (scanChunk pattern);
             chunk = fst (snd (scanChunk pattern));
             rest = snd (snd (scanChunk pattern));
             skip = (if star then star_search chunk (rest = []) name else Some None)
         in if star \<and> chunk = [] then Some (CHR ''/'' \<notin> set name)
            else (case matchChunk False chunk name of
                    None \<Rightarrow> None
                  | Some (Some t) \<Rightarrow>
                      (if t = [] \<or> rest \<noteq> [] then path_Match rest t
                       else (case skip of
                               None \<Rightarrow> None
                             | Some (Some t') \<Rightarrow> path_Match rest t'
                             | Some None \<Rightarrow> check_rest rest))
                  | Some None \<Rightarrow>
                      (case skip of
                         None \<Rightarrow> None
                       | Some (Some t') \<Rightarrow> path_Match rest t'
                       | Some None \<Rightarrow> check_rest rest))))"
  by pat_completeness auto
termination
  by (relation "measure (\<lambda>(p, n). length p)") (auto simp: scanChunk_shorter)

declare path_Match.simps [simp del]

section \<open>Patterns without metacharacters\<close>

definition literal :: "string \<Rightarrow> bool" where
  "literal p = list_all (\<lambda>c. c \<notin> {CHR ''*'', CHR ''?'', CHR ''['', CHR 0x5C}) p"

lemma literal_Cons [simp]:
  "literal (c # p) \<longleftrightarrow> c \<notin> {CHR ''*'', CHR ''?'', CHR ''['', CHR 0x5C} \<and> literal p"
  by (auto simp: literal_def)

lemma scan_chunk_literal: "literal p \<Longrightarrow> scan_chunk r p = (p, [])"
  by (induction p arbitrary: r) auto

lemma scanChunk_literal: "literal p \<Longrightarrow> scanChunk p = (False, p, [])"
  by (cases p) (auto simp: scanChunk_def scan_chunk_literal Let_def)

lemma matchChunk_plain:
  assumes "c \<notin> {CHR ''*'', CHR ''?'', CHR ''['', CHR 0x5C}"
  shows "matchChunk f (c # cs) s =
    (if f \<or> s = [] then matchChunk True cs s else matchChunk (c \<noteq> hd s) cs (tl s))"
  using assms by (subst matchChunk.simps) simp

lemma matchChunk_Nil [simp]: "matchChunk f [] s = Some (if f then None else Some s)"
  by (subst matchChunk.simps) simp

lemma matchChunk_failed_literal: "literal p \<Longrightarrow> matchChunk True p s = Some None"
  by (induction p arbitrary: s) (simp_all add: matchChunk_plain)

lemma matchChunk_literal:
  "literal p \<Longrightarrow>
   matchChunk False p s = Some (if HasPrefix s p then Some (drop (length p) s) else None)"
proof (induction p arbitrary: s)
  case Nil
  then show ?case by simp
next
  case (Cons c p)
  show ?case
  proof (cases "s \<noteq> [] \<and> hd s = c")
    case True
    then obtain t where "s = c # t" by (cases s) auto
    with Cons show ?thesis by (simp add: matchChunk_plain)
  next
    case False
    with Cons show ?thesis
      by (cases s) (auto simp: matchChunk_plain matchChunk_failed_literal)
  qed
qed

theorem path_Match_literal:
  assumes "literal p" shows "path_Match p n = Some (p = n)"
proof (cases "p = []")
  case True
  then show ?thesis by (auto simp: path_Match.simps)
next
  case False
  have rest: "path_Match [] t = Some (t = [])" "check_rest [] = Some False" for t
    by (simp_all add: path_Match.simps check_rest.simps)
  show ?thesis
    using False assms
    by (auto simp: path_Match.simps[of p n] scanChunk_literal matchChunk_literal rest HasPrefix_iff)
qed

theorem path_Match_star: "path_Match ''*'' n = Some (CHR ''/'' \<notin> set n)"
  by (simp add: path_Match.simps scanChunk_def)

end
