(* ===== verification/Platform_Api.thy ===== *)
theory Platform_Api
  imports Go_Path
begin

text \<open>
  \<open>extension/platform/types.go\<close>: the public vocabulary of the command-governance extension: failure
  policies, risk levels, restriction rules, the view of a command that hooks receive, the selectors
  that decide which commands a hook applies to, and the path patterns of the rules.
\<close>

section \<open>Data\<close>

datatype FailurePolicy = FailOpen | FailClosed | OtherPolicy int
datatype When = Before | After | OtherWhen int
datatype LifecycleEvent = Startup | Shutdown | OtherEvent int

type_synonym Risk = string
type_synonym Identity = string

definition RiskRead :: Risk where "RiskRead = ''read''"
definition RiskWrite :: Risk where "RiskWrite = ''write''"
definition RiskHighRiskWrite :: Risk where "RiskHighRiskWrite = ''high-risk-write''"
definition IdentityUser :: Identity where "IdentityUser = ''user''"
definition IdentityBot :: Identity where "IdentityBot = ''bot''"

record Capabilities =
  RequiredCLIVersion :: string
  Restricts :: bool
  capPolicy :: FailurePolicy

record Rule =
  ruleName :: string
  ruleDescription :: string
  Allow :: "string list"
  Deny :: "string list"
  MaxRisk :: Risk
  ruleIdentities :: "Identity list"
  AllowUnannotated :: bool

text \<open>The interface \<open>CommandView\<close>: the results of its methods on one command.\<close>

record CommandView =
  Path :: string
  Domain :: string
  viewRisk :: "Risk \<times> bool"
  Identities :: "Identity list"
  Annotation :: "string \<Rightarrow> string option"

section \<open>Risk levels\<close>

definition Rank :: "Risk \<Rightarrow> nat \<times> bool" where
  "Rank r =
     (if r = RiskRead then (0, True)
      else if r = RiskWrite then (1, True)
      else if r = RiskHighRiskWrite then (2, True)
      else (0, False))"

text \<open>An invalid risk is returned as the error's argument.\<close>

definition ParseRisk :: "string \<Rightarrow> (string, Risk) result" where
  "ParseRisk value =
     (if value = [] then Inr []
      else if \<not> snd (Rank value) then Inl value
      else Inr value)"

section \<open>Path patterns\<close>

text \<open>
  The recursion over the two index positions is a recursion over the remaining segments; a segment
  pattern that \<open>path.Match\<close> rejects does not match.
\<close>

definition segment_matches :: "string \<Rightarrow> string \<Rightarrow> bool" where
  "segment_matches p v = (path_Match p v = Some True)"

function match_segments :: "string list \<Rightarrow> string list \<Rightarrow> bool" where
  "match_segments [] vs = (vs = [])"
| "match_segments (p # ps) vs =
     (if p = ''**'' then
        match_segments ps vs \<or> (if vs = [] then False else match_segments (p # ps) (tl vs))
      else if vs = [] then False
      else segment_matches p (hd vs) \<and> match_segments ps (tl vs))"
  by pat_completeness auto
termination
  by (relation "measure (\<lambda>(ps, vs). length ps + length vs)") auto

declare match_segments.simps(2) [simp del]

definition path_segments :: "string \<Rightarrow> string list" where
  "path_segments s = Split CHR ''/'' (TrimChar CHR ''/'' s)"

definition matchCommandPath :: "string \<Rightarrow> string \<Rightarrow> bool" where
  "matchCommandPath pattern value = match_segments (path_segments pattern) (path_segments value)"

section \<open>Selectors\<close>

text \<open>
  A \<open>Selector\<close> that is not nil is a predicate on an optional view: hooks may be handed a nil view,
  which only \<open>All\<close> accepts.  A nil selector is \<open>None\<close>.
\<close>

type_synonym Selector = "CommandView option \<Rightarrow> bool"

definition All :: Selector where "All = (\<lambda>_. True)"
definition None_selector :: Selector where "None_selector = (\<lambda>_. False)"

definition on_view :: "(CommandView \<Rightarrow> bool) \<Rightarrow> Selector" where
  "on_view p = (\<lambda>c. case c of None \<Rightarrow> False | Some v \<Rightarrow> p v)"

definition ByDomain :: "string list \<Rightarrow> Selector" where
  "ByDomain domains = on_view (\<lambda>v. Domain v \<in> set domains)"

definition ByCommandPath :: "string list \<Rightarrow> Selector" where
  "ByCommandPath patterns = on_view (\<lambda>v. list_ex (\<lambda>p. matchCommandPath p (Path v)) patterns)"

definition ByIdentity :: "Identity \<Rightarrow> Selector" where
  "ByIdentity i = on_view (\<lambda>v. list_ex (\<lambda>c. c = i) (Identities v))"

definition ByExactRisk :: "Risk \<Rightarrow> Selector" where
  "ByExactRisk r = on_view (\<lambda>v. snd (viewRisk v) \<and> fst (viewRisk v) = r)"

definition ByReadOnly :: Selector where "ByReadOnly = ByExactRisk RiskRead"

definition ByWrite :: Selector where
  "ByWrite = on_view (\<lambda>v. snd (viewRisk v) \<and>
     (fst (viewRisk v) = RiskWrite \<or> fst (viewRisk v) = RiskHighRiskWrite))"

definition matches :: "Selector option \<Rightarrow> CommandView option \<Rightarrow> bool" where
  "matches s c = (case s of None \<Rightarrow> False | Some p \<Rightarrow> p c)"

definition sel_And :: "Selector option \<Rightarrow> Selector option \<Rightarrow> Selector" where
  "sel_And s t = (\<lambda>c. matches s c \<and> matches t c)"

definition sel_Or :: "Selector option \<Rightarrow> Selector option \<Rightarrow> Selector" where
  "sel_Or s t = (\<lambda>c. matches s c \<or> matches t c)"

definition sel_Not :: "Selector option \<Rightarrow> Selector" where
  "sel_Not s = (\<lambda>c. \<not> matches s c)"

section \<open>Lemmas\<close>

lemmas selector_defs = All_def None_selector_def on_view_def ByDomain_def ByCommandPath_def
  ByIdentity_def ByExactRisk_def ByReadOnly_def ByWrite_def matches_def sel_And_def sel_Or_def
  sel_Not_def

lemma Rank_injective: "snd (Rank r) \<Longrightarrow> snd (Rank s) \<Longrightarrow> fst (Rank r) = fst (Rank s) \<Longrightarrow> r = s"
  by (auto simp: Rank_def split: if_splits)

lemma match_segments_star:
  "match_segments (''**'' # ps) vs \<longleftrightarrow> (\<exists>us ws. vs = us @ ws \<and> match_segments ps ws)"
proof (induction vs)
  case Nil
  show ?case by (simp add: match_segments.simps(2)[of "''**''" ps "[]"])
next
  case (Cons v vs)
  have "match_segments (''**'' # ps) (v # vs) \<longleftrightarrow>
      match_segments ps (v # vs) \<or> match_segments (''**'' # ps) vs"
    by (simp add: match_segments.simps(2)[of "''**''" ps "v # vs"])
  also have "\<dots> \<longleftrightarrow> (\<exists>us ws. v # vs = us @ ws \<and> match_segments ps ws)"
    using Cons.IH by (auto simp: Cons_eq_append_conv)
  finally show ?case .
qed

lemma match_segments_plain:
  "p \<noteq> ''**'' \<Longrightarrow>
   match_segments (p # ps) vs \<longleftrightarrow> (\<exists>w ws. vs = w # ws \<and> segment_matches p w \<and> match_segments ps ws)"
  by (cases vs) (simp_all add: match_segments.simps(2)[of p])

text \<open>A declarative reading: the value is a concatenation of one group of segments per pattern segment.\<close>

definition segment_group :: "string \<Rightarrow> string list \<Rightarrow> bool" where
  "segment_group p g = (p = ''**'' \<or> (\<exists>w. g = [w] \<and> segment_matches p w))"

lemma groups_Cons:
  "(\<exists>gs. list_all2 R (p # ps) gs \<and> concat gs = vs) \<longleftrightarrow>
   (\<exists>g gs. R p g \<and> list_all2 R ps gs \<and> vs = g @ concat gs)"
proof
  assume "\<exists>gs. list_all2 R (p # ps) gs \<and> concat gs = vs"
  then show "\<exists>g gs. R p g \<and> list_all2 R ps gs \<and> vs = g @ concat gs"
    unfolding list_all2_Cons1 by force
next
  assume "\<exists>g gs. R p g \<and> list_all2 R ps gs \<and> vs = g @ concat gs"
  then obtain g gs where "R p g" "list_all2 R ps gs" "vs = g @ concat gs" by blast
  then have "list_all2 R (p # ps) (g # gs) \<and> concat (g # gs) = vs" by simp
  then show "\<exists>gs. list_all2 R (p # ps) gs \<and> concat gs = vs" by blast
qed

lemma match_segments_groups:
  "match_segments ps vs \<longleftrightarrow> (\<exists>gs. list_all2 segment_group ps gs \<and> concat gs = vs)"
proof (induction ps arbitrary: vs)
  case Nil
  show ?case by auto
next
  case (Cons p ps)
  show ?case
  proof (cases "p = ''**''")
    case True
    have "match_segments (p # ps) vs \<longleftrightarrow>
        (\<exists>us ws. vs = us @ ws \<and> (\<exists>gs. list_all2 segment_group ps gs \<and> concat gs = ws))"
      unfolding True match_segments_star Cons.IH ..
    also have "\<dots> \<longleftrightarrow>
        (\<exists>g gs. segment_group p g \<and> list_all2 segment_group ps gs \<and> vs = g @ concat gs)"
      unfolding True segment_group_def by blast
    finally show ?thesis unfolding groups_Cons .
  next
    case False
    have "match_segments (p # ps) vs \<longleftrightarrow>
        (\<exists>w gs. segment_matches p w \<and> list_all2 segment_group ps gs \<and> vs = w # concat gs)"
      unfolding match_segments_plain[OF False] Cons.IH by blast
    also have "\<dots> \<longleftrightarrow>
        (\<exists>g gs. segment_group p g \<and> list_all2 segment_group ps gs \<and> vs = g @ concat gs)"
      unfolding segment_group_def using False by force
    finally show ?thesis unfolding groups_Cons .
  qed
qed

lemma match_segments_literal:
  "list_all literal ps \<Longrightarrow> match_segments ps vs \<longleftrightarrow> ps = vs"
proof (induction ps arbitrary: vs)
  case Nil
  then show ?case by auto
next
  case (Cons p ps)
  then have lit: "literal p" by simp
  then have "p \<noteq> ''**''" by (cases p) auto
  then have "match_segments (p # ps) vs \<longleftrightarrow>
      (\<exists>w ws. vs = w # ws \<and> segment_matches p w \<and> match_segments ps ws)"
    by (rule match_segments_plain)
  with Cons lit show ?case
    by (simp add: segment_matches_def path_Match_literal) blast
qed

text \<open>
  A path pattern matches a command path exactly when the path's segments can be divided into
  consecutive groups, one per pattern segment: any number of segments (none included) for \<open>**\<close>, and
  one segment that \<open>path.Match\<close> accepts for any other.
\<close>

lemma matchCommandPath_groups:
  "matchCommandPath pattern value \<longleftrightarrow>
     (\<exists>gs. list_all2 segment_group (path_segments pattern) gs \<and> concat gs = path_segments value)"
  by (simp add: matchCommandPath_def match_segments_groups)

text \<open>
  A pattern without metacharacters matches exactly the paths with the same segments, so a rule
  that names one command never reaches another; leading and trailing slashes do not matter.
\<close>

lemma literal_pattern_exact:
  assumes "list_all literal (path_segments pattern)"
  shows "matchCommandPath pattern value \<longleftrightarrow> path_segments pattern = path_segments value"
  using assms by (simp add: matchCommandPath_def match_segments_literal)

end
