(* ===== verification/Platform_Policy.thy ===== *)
theory Platform_Policy
  imports Platform_Api
begin

text \<open>
  \<open>internal/extension/platform/policy.go\<close>: the decision whether the installed restriction rules deny a
  command.  The reason text of a denial is kept as the values it is formatted from.
\<close>

section \<open>Data\<close>

datatype reason =
    DefaultReason
  | InvalidRule
  | DenyPattern string string
  | OutsideAllow string
  | RiskNotAnnotated
  | RiskExceeds Risk Risk
  | IdentityOutside

record CommandDeniedError =
  deniedPath :: string
  deniedLayer :: string
  PolicySource :: string
  deniedRule :: string
  ReasonCode :: string
  Reason :: reason

record ruleEntry =
  rulePlugin :: string
  entryRule :: Rule

section \<open>One rule\<close>

fun first_match :: "string list \<Rightarrow> CommandView \<Rightarrow> string option" where
  "first_match [] v = None"
| "first_match (p # ps) v = (if ByCommandPath [p] (Some v) then Some p else first_match ps v)"

text \<open>The result is (allowed, reason code, detail); the empty code of an allowed command is \<open>[]\<close>.\<close>

definition evaluateRule :: "Rule option \<Rightarrow> CommandView option \<Rightarrow> bool \<times> string \<times> reason" where
  "evaluateRule rule command =
     (case (rule, command) of
        (Some r, Some v) \<Rightarrow>
          (case first_match (Deny r) v of
             Some pattern \<Rightarrow> (False, ''path_denied'', DenyPattern (Path v) pattern)
           | None \<Rightarrow>
               (if Allow r \<noteq> [] \<and> first_match (Allow r) v = None
                then (False, ''path_not_allowed'', OutsideAllow (Path v))
                else
                  let (actual, annotated) = viewRisk v;
                      too_high = (\<not> snd (Rank actual) \<or> \<not> snd (Rank (MaxRisk r)) \<or>
                                  fst (Rank actual) > fst (Rank (MaxRisk r)));
                      identity_ok = list_ex (\<lambda>a. list_ex (\<lambda>w. a = w) (ruleIdentities r)) (Identities v)
                  in if MaxRisk r \<noteq> [] \<and> \<not> annotated \<and> \<not> AllowUnannotated r
                     then (False, ''risk_not_annotated'', RiskNotAnnotated)
                     else if MaxRisk r \<noteq> [] \<and> annotated \<and> too_high
                     then (False, ''risk_too_high'', RiskExceeds actual (MaxRisk r))
                     else if ruleIdentities r \<noteq> [] \<and> \<not> identity_ok
                     then (False, ''identity_not_supported'', IdentityOutside)
                     else (True, [], DefaultReason)))
      | _ \<Rightarrow> (False, ''invalid_rule'', InvalidRule))"

section \<open>All rules of the restricting plugin\<close>

text \<open>The first loop of \<open>denial\<close>: deny patterns are global.\<close>

fun deny_match :: "ruleEntry list \<Rightarrow> CommandView \<Rightarrow> (string \<times> string) option" where
  "deny_match [] v = None"
| "deny_match (e # es) v =
     (case first_match (Deny (entryRule e)) v of
        Some pattern \<Rightarrow> Some (ruleName (entryRule e), pattern)
      | None \<Rightarrow> deny_match es v)"

text \<open>The second loop: every rule is evaluated and the last refusal names the denial.\<close>

fun evaluate_all ::
    "ruleEntry list \<Rightarrow> CommandView \<Rightarrow> bool \<times> string \<times> string \<times> reason \<Rightarrow> bool \<times> string \<times> string \<times> reason"
where
  "evaluate_all [] v acc = acc"
| "evaluate_all (e # es) v (allAllowed, name, code, detail) =
     (let (allowed, c, d) = evaluateRule (Some (entryRule e)) (Some v) in
      evaluate_all es v
        (if c \<noteq> [] then (allAllowed \<and> allowed, ruleName (entryRule e), c, d)
         else (allAllowed \<and> allowed, name, code, detail)))"

definition denial :: "string \<Rightarrow> ruleEntry list \<Rightarrow> CommandView \<Rightarrow> CommandDeniedError option" where
  "denial restrictor rules v =
     (case rules of
        [] \<Rightarrow> None
      | first # _ \<Rightarrow>
          (case deny_match rules v of
             Some (name, pattern) \<Rightarrow>
               Some \<lparr>deniedPath = Path v, deniedLayer = ''policy'',
                     PolicySource = ''plugin:'' @ restrictor, deniedRule = name,
                     ReasonCode = ''path_denied'', Reason = DenyPattern (Path v) pattern\<rparr>
           | None \<Rightarrow>
               (let (allAllowed, name, code, detail) =
                      evaluate_all rules v (True, ruleName (entryRule first), ''not_allowed'', DefaultReason)
                in if allAllowed then None
                   else Some \<lparr>deniedPath = Path v, deniedLayer = ''policy'',
                          PolicySource = ''plugin:'' @ restrictor, deniedRule = name,
                          ReasonCode = code, Reason = detail\<rparr>)))"

section \<open>What a rule permits\<close>

text \<open>The abstract contract: a rule is a constraint on the command.\<close>

definition path_in :: "string list \<Rightarrow> CommandView \<Rightarrow> bool" where
  "path_in patterns v = (\<exists>p \<in> set patterns. matchCommandPath p (Path v))"

definition risk_permitted :: "Rule \<Rightarrow> CommandView \<Rightarrow> bool" where
  "risk_permitted r v =
     (MaxRisk r = [] \<or>
      (if snd (viewRisk v)
       then snd (Rank (fst (viewRisk v))) \<and> snd (Rank (MaxRisk r)) \<and>
            fst (Rank (fst (viewRisk v))) \<le> fst (Rank (MaxRisk r))
       else AllowUnannotated r))"

definition rule_permits :: "Rule \<Rightarrow> CommandView \<Rightarrow> bool" where
  "rule_permits r v =
     (\<not> path_in (Deny r) v \<and> (Allow r = [] \<or> path_in (Allow r) v) \<and> risk_permitted r v \<and>
      (ruleIdentities r = [] \<or> set (ruleIdentities r) \<inter> set (Identities v) \<noteq> {}))"

lemma ByCommandPath_single: "ByCommandPath [p] (Some v) = matchCommandPath p (Path v)"
  by (simp add: ByCommandPath_def on_view_def)

lemma first_match_None: "first_match ps v = None \<longleftrightarrow> \<not> path_in ps v"
  by (induction ps) (auto simp: path_in_def ByCommandPath_single)

lemma first_match_Some: "first_match ps v = Some p \<Longrightarrow> p \<in> set ps \<and> matchCommandPath p (Path v)"
  by (induction ps) (auto simp: ByCommandPath_single split: if_splits)

lemma evaluateRule_allowed:
  "fst (evaluateRule (Some r) (Some v)) \<longleftrightarrow> rule_permits r v"
proof (cases "first_match (Deny r) v")
  case (Some p)
  then have "path_in (Deny r) v" using first_match_None[of "Deny r" v] by simp
  with Some show ?thesis by (simp add: evaluateRule_def rule_permits_def)
next
  case None
  then have nodeny: "\<not> path_in (Deny r) v" by (simp add: first_match_None)
  obtain actual annotated where risk: "viewRisk v = (actual, annotated)" by (cases "viewRisk v")
  have ids: "list_ex (\<lambda>a. list_ex (\<lambda>w. a = w) (ruleIdentities r)) (Identities v) \<longleftrightarrow>
      set (ruleIdentities r) \<inter> set (Identities v) \<noteq> {}"
    by (auto simp: list_ex_iff)
  have allow: "first_match (Allow r) v = None \<longleftrightarrow> \<not> path_in (Allow r) v"
    by (rule first_match_None)
  have "rule_permits r v \<longleftrightarrow> (Allow r = [] \<or> path_in (Allow r) v) \<and> risk_permitted r v \<and>
      (ruleIdentities r = [] \<or> set (ruleIdentities r) \<inter> set (Identities v) \<noteq> {})"
    using nodeny by (simp add: rule_permits_def)
  then show ?thesis
    by (auto simp: None evaluateRule_def risk_permitted_def risk Let_def ids allow not_less)
qed

lemma evaluateRule_code:
  "fst (snd (evaluateRule r v)) = [] \<longleftrightarrow> fst (evaluateRule r v)"
  by (auto simp: evaluateRule_def Let_def split: option.splits prod.splits)

lemma deny_match_None: "deny_match es v = None \<longleftrightarrow> (\<forall>e \<in> set es. \<not> path_in (Deny (entryRule e)) v)"
proof (induction es)
  case (Cons e es)
  then show ?case
    using first_match_None[of "Deny (entryRule e)" v]
    by (cases "first_match (Deny (entryRule e)) v") auto
qed simp

lemma evaluate_all_allowed:
  "fst (evaluate_all es v (b, acc)) \<longleftrightarrow> b \<and> (\<forall>e \<in> set es. rule_permits (entryRule e) v)"
proof (induction es arbitrary: b acc)
  case Nil
  then show ?case by simp
next
  case (Cons e es)
  obtain name code detail where acc: "acc = (name, code, detail)" by (cases acc)
  obtain a c d where ev: "evaluateRule (Some (entryRule e)) (Some v) = (a, c, d)"
    by (cases "evaluateRule (Some (entryRule e)) (Some v)")
  then have "a \<longleftrightarrow> rule_permits (entryRule e) v" using evaluateRule_allowed[of "entryRule e" v] by simp
  with Cons.IH ev acc show ?case by simp
qed

lemma denial_Cons:
  "denial who (first # rest) v =
     (case deny_match (first # rest) v of
        Some (name, pattern) \<Rightarrow>
          Some \<lparr>deniedPath = Path v, deniedLayer = ''policy'',
                PolicySource = ''plugin:'' @ who, deniedRule = name,
                ReasonCode = ''path_denied'', Reason = DenyPattern (Path v) pattern\<rparr>
      | None \<Rightarrow>
          (let (allAllowed, name, code, detail) =
                 evaluate_all (first # rest) v (True, ruleName (entryRule first), ''not_allowed'', DefaultReason)
           in if allAllowed then None
              else Some \<lparr>deniedPath = Path v, deniedLayer = ''policy'',
                     PolicySource = ''plugin:'' @ who, deniedRule = name,
                     ReasonCode = code, Reason = detail\<rparr>))"
  by (simp only: denial_def list.case)

lemma denial_None_iff:
  "denial who rules v = None \<longleftrightarrow> (\<forall>e \<in> set rules. rule_permits (entryRule e) v)"
proof (cases rules)
  case Nil
  then show ?thesis by (simp add: denial_def)
next
  case (Cons first rest)
  show ?thesis
  proof (cases "deny_match (first # rest) v")
    case None
    let ?acc = "(ruleName (entryRule first), ''not_allowed'', DefaultReason)"
    obtain ok n c d where ev: "evaluate_all (first # rest) v (True, ?acc) = (ok, n, c, d)"
      by (cases "evaluate_all (first # rest) v (True, ?acc)")
    have "denial who (first # rest) v = None \<longleftrightarrow> ok"
      by (simp only: denial_Cons None ev option.case Let_def prod.case) simp
    then show ?thesis
      using evaluate_all_allowed[of "first # rest" v True ?acc] unfolding ev Cons by simp
  next
    case (Some np)
    then have deny: "\<exists>e \<in> set (first # rest). path_in (Deny (entryRule e)) v"
      using deny_match_None[of "first # rest" v] by auto
    have "denial who (first # rest) v \<noteq> None"
      by (cases np) (simp only: denial_Cons Some option.case prod.case, simp)
    with deny show ?thesis unfolding Cons rule_permits_def by blast
  qed
qed

text \<open>Which rule a denial names.\<close>

lemma deny_match_Some:
  "deny_match es v = Some (n, p) \<Longrightarrow>
     (\<exists>before e after. es = before @ e # after \<and> n = ruleName (entryRule e) \<and>
        p \<in> set (Deny (entryRule e)) \<and> matchCommandPath p (Path v) \<and>
        (\<forall>e' \<in> set before. \<not> path_in (Deny (entryRule e')) v))"
proof (induction es)
  case (Cons e es)
  show ?case
  proof (cases "first_match (Deny (entryRule e)) v")
    case None
    then have no: "\<not> path_in (Deny (entryRule e)) v" by (simp add: first_match_None)
    from None Cons.prems have "deny_match es v = Some (n, p)" by simp
    from Cons.IH[OF this] obtain before d after where
      "es = before @ d # after" "n = ruleName (entryRule d)" "p \<in> set (Deny (entryRule d))"
      "matchCommandPath p (Path v)" "\<forall>e' \<in> set before. \<not> path_in (Deny (entryRule e')) v"
      by blast
    with no show ?thesis by (intro exI[of _ "e # before"]) auto
  next
    case (Some q)
    with Cons.prems first_match_Some[OF Some] show ?thesis by (intro exI[of _ "[]"]) auto
  qed
qed simp

definition refuses :: "CommandView \<Rightarrow> ruleEntry \<Rightarrow> string \<times> string \<times> reason \<Rightarrow> bool" where
  "refuses v e acc =
     (evaluateRule (Some (entryRule e)) (Some v) = (False, fst (snd acc), snd (snd acc)) \<and>
      fst acc = ruleName (entryRule e))"

lemma evaluate_all_names:
  "evaluate_all es v (b, acc) = (b', acc') \<Longrightarrow>
     b' = b \<and> acc' = acc \<or> \<not> b' \<and> (\<exists>e \<in> set es. refuses v e acc')"
proof (induction es arbitrary: b acc)
  case (Cons e es)
  obtain n c d where acc: "acc = (n, c, d)" by (cases acc)
  obtain a c' d' where ev: "evaluateRule (Some (entryRule e)) (Some v) = (a, c', d')"
    by (cases "evaluateRule (Some (entryRule e)) (Some v)")
  have code: "c' = [] \<longleftrightarrow> a" using evaluateRule_code[of "Some (entryRule e)" "Some v"] ev by simp
  show ?case
  proof (cases a)
    case True
    with Cons.prems acc ev code have "evaluate_all es v (b, acc) = (b', acc')" by simp
    from Cons.IH[OF this] show ?thesis by auto
  next
    case False
    with Cons.prems acc ev code
    have rec: "evaluate_all es v (False, ruleName (entryRule e), c', d') = (b', acc')" by simp
    have "refuses v e (ruleName (entryRule e), c', d')" using ev False by (simp add: refuses_def)
    with Cons.IH[OF rec] show ?thesis by auto
  qed
qed auto

section \<open>Properties\<close>

text \<open>A read command, and a set of two rules used by the witnesses.\<close>

definition sample_view :: "string \<Rightarrow> Risk \<Rightarrow> CommandView" where
  "sample_view p r = \<lparr>Path = p, Domain = ''workitem'', viewRisk = (r, True),
     Identities = [''user''], Annotation = (\<lambda>_. None)\<rparr>"

definition sample_rule :: "string \<Rightarrow> string list \<Rightarrow> string list \<Rightarrow> Risk \<Rightarrow> ruleEntry" where
  "sample_rule n allow deny risk = \<lparr>rulePlugin = ''gov'', entryRule =
     \<lparr>ruleName = n, ruleDescription = [], Allow = allow, Deny = deny, MaxRisk = risk,
      ruleIdentities = [], AllowUnannotated = False\<rparr>\<rparr>"

lemma sample_paths:
  "matchCommandPath ''workitem/get'' ''workitem/get''"
  "\<not> matchCommandPath ''workitem/create'' ''workitem/get''"
  "matchCommandPath ''workitem/*'' ''workitem/get''"
  by code_simp+

lemma sample_ranks: "Rank ''read'' = (0, True)" "Rank ''write'' = (1, True)"
  by code_simp+

lemmas sample_simps = sample_view_def sample_rule_def sample_paths sample_ranks rule_permits_def
  path_in_def risk_permitted_def

text \<open>
  C1.  The policy lets a command run exactly when every rule of every entry permits it: no deny
  pattern matches, the allow list (if any) matches, the annotated risk is within the maximum (or the
  rule admits unannotated commands), and an identity is shared.  One rule never widens another.
\<close>

theorem denial_None_iff_all_rules_permit:
  "denial restrictor rules v = None \<longleftrightarrow> (\<forall>e \<in> set rules. rule_permits (entryRule e) v)"
  by (rule denial_None_iff)

theorem denial_None_iff_all_rules_permit_witness:
  "denial ''gov'' [sample_rule ''ro'' [''workitem/*''] [''workitem/create''] ''read'']
     (sample_view ''workitem/get'' ''read'') = None"
  by (subst denial_None_iff_all_rules_permit) (simp add: sample_simps)

text \<open>
  Restriction is monotone: installing more rules, in any order, never re-enables a command that a
  subset of the rules denies.
\<close>

lemma denial_monotone:
  assumes "denial restrictor rules v \<noteq> None" and "set rules \<subseteq> set rules'"
  shows "denial restrictor' rules' v \<noteq> None"
  using assms by (auto simp: denial_None_iff)

lemma denial_monotone_witness:
  "denial ''b'' [sample_rule ''x'' [] [] [], sample_rule ''ro'' [] [] ''read'']
     (sample_view ''workitem/get'' ''write'') \<noteq> None"
proof -
  have "denial ''a'' [sample_rule ''ro'' [] [] ''read''] (sample_view ''workitem/get'' ''write'') \<noteq> None"
    by (simp add: denial_None_iff sample_simps)
  then show ?thesis by (rule denial_monotone) simp
qed

text \<open>
  A deny pattern is global: when one matches, the denial carries the code \<open>path_denied\<close>, the first
  rule (in registration order) with a matching deny pattern, and that pattern, whatever the other
  rules allow.
\<close>

lemma deny_takes_precedence:
  assumes "e \<in> set rules" and "path_in (Deny (entryRule e)) v"
  shows "\<exists>before d after p. rules = before @ d # after \<and> p \<in> set (Deny (entryRule d)) \<and>
     matchCommandPath p (Path v) \<and> (\<forall>e' \<in> set before. \<not> path_in (Deny (entryRule e')) v) \<and>
     denial restrictor rules v =
       Some \<lparr>deniedPath = Path v, deniedLayer = ''policy'', PolicySource = ''plugin:'' @ restrictor,
             deniedRule = ruleName (entryRule d), ReasonCode = ''path_denied'',
             Reason = DenyPattern (Path v) p\<rparr>"
proof -
  from assms deny_match_None[of rules v] obtain n p where m: "deny_match rules v = Some (n, p)"
    by (cases "deny_match rules v") auto
  obtain first rest where rules: "rules = first # rest" using assms(1) by (cases rules) auto
  have "denial restrictor rules v =
       Some \<lparr>deniedPath = Path v, deniedLayer = ''policy'', PolicySource = ''plugin:'' @ restrictor,
             deniedRule = n, ReasonCode = ''path_denied'', Reason = DenyPattern (Path v) p\<rparr>"
    using m unfolding rules by (simp only: denial_Cons option.case prod.case)
  with deny_match_Some[OF m] show ?thesis by blast
qed

lemma deny_takes_precedence_witness:
  "denial ''gov'' [sample_rule ''no'' [] [''workitem/*''] [], sample_rule ''yes'' [''workitem/get''] [] []]
     (sample_view ''workitem/get'' ''read'') =
   Some \<lparr>deniedPath = ''workitem/get'', deniedLayer = ''policy'', PolicySource = ''plugin:gov'',
         deniedRule = ''no'', ReasonCode = ''path_denied'',
         Reason = DenyPattern ''workitem/get'' ''workitem/*''\<rparr>"
proof -
  let ?no = "sample_rule ''no'' [] [''workitem/*''] []"
  let ?yes = "sample_rule ''yes'' [''workitem/get''] [] []"
  let ?v = "sample_view ''workitem/get'' ''read''"
  have "?no \<in> set [?no, ?yes]" and "path_in (Deny (entryRule ?no)) ?v"
    by (simp_all add: sample_simps)
  from deny_takes_precedence[OF this, of "''gov''"] obtain before d after p where
    split: "[?no, ?yes] = before @ d # after" and p: "p \<in> set (Deny (entryRule d))"
    and first: "\<forall>e' \<in> set before. \<not> path_in (Deny (entryRule e')) ?v"
    and eq: "denial ''gov'' [?no, ?yes] ?v =
       Some \<lparr>deniedPath = Path ?v, deniedLayer = ''policy'', PolicySource = ''plugin:'' @ ''gov'',
             deniedRule = ruleName (entryRule d), ReasonCode = ''path_denied'',
             Reason = DenyPattern (Path ?v) p\<rparr>"
    by blast
  from split have "before = [] \<and> d = ?no \<or> before = [?no] \<and> d = ?yes"
    by (auto simp: Cons_eq_append_conv)
  with first p have "d = ?no \<and> p = ''workitem/*''" by (auto simp: sample_simps)
  with eq show ?thesis by (simp add: sample_simps)
qed

text \<open>
  Without a matching deny pattern, a denial names a rule of the active set that really refuses
  the command, with that rule's own reason code and detail; the placeholder code \<open>not_allowed\<close> is
  never reported.
\<close>

lemma denial_cites_refusing_rule:
  assumes "denial restrictor rules v = Some d" and "\<forall>e \<in> set rules. \<not> path_in (Deny (entryRule e)) v"
  shows "deniedPath d = Path v \<and> PolicySource d = ''plugin:'' @ restrictor \<and>
    (\<exists>e \<in> set rules. deniedRule d = ruleName (entryRule e) \<and>
       evaluateRule (Some (entryRule e)) (Some v) = (False, ReasonCode d, Reason d))"
proof -
  obtain first rest where rules: "rules = first # rest"
    using assms(1) by (cases rules) (auto simp: denial_def)
  have none: "deny_match (first # rest) v = None"
    using assms(2) unfolding rules deny_match_None .
  let ?acc = "(ruleName (entryRule first), ''not_allowed'', DefaultReason)"
  obtain ok n c t where ev: "evaluate_all (first # rest) v (True, ?acc) = (ok, n, c, t)"
    by (cases "evaluate_all (first # rest) v (True, ?acc)")
  have d: "(if ok then None else Some \<lparr>deniedPath = Path v, deniedLayer = ''policy'',
      PolicySource = ''plugin:'' @ restrictor, deniedRule = n, ReasonCode = c, Reason = t\<rparr>) = Some d"
    using assms(1) unfolding rules
    by (simp only: denial_Cons none ev option.case Let_def prod.case)
  then have "\<not> ok" by (auto split: if_splits)
  with evaluate_all_names[OF ev] obtain e where "e \<in> set (first # rest)" "refuses v e (n, c, t)"
    by blast
  with d \<open>\<not> ok\<close> rules show ?thesis by (auto simp: refuses_def)
qed

lemma denial_cites_refusing_rule_witness:
  "\<exists>d. denial ''gov'' [sample_rule ''ro'' [] [] ''read''] (sample_view ''workitem/get'' ''write'') = Some d \<and>
     deniedRule d = ''ro'' \<and> ReasonCode d = ''risk_too_high''"
proof -
  let ?r = "sample_rule ''ro'' [] [] ''read''"
  let ?v = "sample_view ''workitem/get'' ''write''"
  have "denial ''gov'' [?r] ?v \<noteq> None" by (simp add: denial_None_iff sample_simps)
  then obtain d where d: "denial ''gov'' [?r] ?v = Some d" by blast
  have "\<forall>e \<in> set [?r]. \<not> path_in (Deny (entryRule e)) ?v" by (simp add: sample_simps)
  from denial_cites_refusing_rule[OF d this] d show ?thesis
    by (simp add: evaluateRule_def sample_simps Let_def)
qed

end
