(* ===== verification/Platform_Install.thy ===== *)
theory Platform_Install
  imports Platform_Version Platform_Policy "HOL-Library.Sublist"
begin

text \<open>
  \<open>internal/extension/platform/install.go\<close> and \<open>diagnostics.go\<close>: plugins are installed one after the
  other; each writes to a staging registrar, and only a successful installation is committed.

  A plugin is third-party code.  Each metadata callback is given by its outcome: it returns, panics, or
  is overtaken by the installation deadline.  \<open>Install\<close> is given by the registrar calls it makes before
  it ends, the way it ends, and the calls a late goroutine still makes afterwards.  The functions a
  plugin registers are opaque values of the types \<open>'sel\<close>, \<open>'obs\<close>, \<open>'wrap\<close> and \<open>'life\<close>; nil is \<open>None\<close>.
\<close>

section \<open>Data\<close>

datatype 'a plugin_callback = Returned 'a | Panicked | TimedOut

record ('sel, 'obs) observerEntry =
  obsName :: string
  obsWhen :: When
  obsSelector :: "'sel option"
  obsCallback :: "'obs option"
  obsPolicy :: FailurePolicy

record ('sel, 'wrap) wrapperEntry =
  wrapName :: string
  wrapSelector :: "'sel option"
  wrapCallback :: "'wrap option"
  wrapPolicy :: FailurePolicy

record 'life lifecycleEntry =
  lifeName :: string
  lifeEvent :: LifecycleEvent
  lifeHandler :: "'life option"
  lifePolicy :: FailurePolicy

datatype ('sel, 'obs, 'wrap, 'life) registration =
    Observe When string "'sel option" "'obs option"
  | Wrap string "'sel option" "'wrap option"
  | On LifecycleEvent string "'life option"
  | Restrict "Rule option"

record ('sel, 'obs, 'wrap, 'life) Plugin =
  plgName :: "string plugin_callback"
  plgVersion :: "string plugin_callback"
  plgCapabilities :: "Capabilities plugin_callback"
  plgCalls :: "('sel, 'obs, 'wrap, 'life) registration list"
  plgOutcome :: "string option plugin_callback"
  plgLateCalls :: "('sel, 'obs, 'wrap, 'life) registration list"

datatype registration_error =
    InvalidHookName string
  | DuplicateHook string
  | NilSelector string
  | NilCallback string
  | InvalidTiming string
  | InvalidEvent string
  | NilRule
  | InvalidRuleName string
  | InvalidMaxRisk string Risk
  | InvalidPattern string string

datatype install_error =
    PluginNil
  | MetadataFailed string bool
  | InvalidPolicy int
  | RestrictingFailOpen
  | DuplicatePlugin string
  | InvalidPluginName string
  | InvalidPluginVersion string string version_error
  | Incompatible string version_error
  | InstallReturned string string
  | InstallPanicked string
  | InstallTimedOut string
  | RegistrationInvalid string "registration_error list"
  | RestrictsMismatch string
  | TwoRestrictors string string

record ('sel, 'obs, 'wrap, 'life) stagingRegistrar =
  frozen :: bool
  stPlugin :: string
  stPolicy :: FailurePolicy
  stObservers :: "('sel, 'obs) observerEntry list"
  stWrappers :: "('sel, 'wrap) wrapperEntry list"
  stLifecycles :: "'life lifecycleEntry list"
  stRules :: "ruleEntry list"
  stHookNames :: "string list"
  stErrs :: "registration_error list"

record HookDiagnostic =
  hookName :: string
  hookKind :: string
  hookTiming :: string
  hookSelector :: string

record RuleDiagnostic =
  rdName :: string
  rdAllow :: "string list"
  rdDeny :: "string list"
  rdMaxRisk :: string
  rdIdentities :: "string list"
  rdAllowUnannotated :: bool

record PluginDiagnostic =
  pdName :: string
  pdVersion :: string
  pdStatus :: string
  pdFailurePolicy :: string
  pdFailureStage :: string
  pdRestricts :: bool
  pdHooks :: "HookDiagnostic list"
  pdRules :: "string list"
  pdRuleDetails :: "RuleDiagnostic list"

record ('sel, 'obs, 'wrap, 'life) Runtime =
  observers :: "('sel, 'obs) observerEntry list"
  wrappers :: "('sel, 'wrap) wrapperEntry list"
  lifecycles :: "'life lifecycleEntry list"
  rules :: "ruleEntry list"
  restrictor :: string
  pluginDiagnostics :: "PluginDiagnostic list"

section \<open>The staging registrar\<close>

text \<open>The pattern \<open>^[a-z0-9][a-z0-9-]*$\<close>.\<close>

definition registrationNamePattern :: "string \<Rightarrow> bool" where
  "registrationNamePattern s =
     (case s of [] \<Rightarrow> False
      | c # cs \<Rightarrow> (is_lower c \<or> is_digit c) \<and>
                 list_all (\<lambda>d. is_lower d \<or> is_digit d \<or> d = CHR ''-'') cs)"

definition validateHook ::
    "string \<Rightarrow> bool \<Rightarrow> bool \<Rightarrow> ('sel, 'obs, 'wrap, 'life) stagingRegistrar \<Rightarrow>
     bool \<times> ('sel, 'obs, 'wrap, 'life) stagingRegistrar" where
  "validateHook name selectorValid callbackValid r =
     (let e1 = (if registrationNamePattern name then [] else [InvalidHookName name]);
          e2 = (if name \<in> set (stHookNames r) then [DuplicateHook name] else []);
          e3 = (if selectorValid then [] else [NilSelector name]);
          e4 = (if callbackValid then [] else [NilCallback name]);
          errs = e1 @ e2 @ e3 @ e4
      in (errs = [], r\<lparr>stHookNames := name # stHookNames r, stErrs := stErrs r @ errs\<rparr>))"

definition qualify_hook :: "('sel, 'obs, 'wrap, 'life) stagingRegistrar \<Rightarrow> string \<Rightarrow> string" where
  "qualify_hook r name = stPlugin r @ ''.'' @ name"

definition reg_Observe ::
    "When \<Rightarrow> string \<Rightarrow> 'sel option \<Rightarrow> 'obs option \<Rightarrow> 
     ('sel, 'obs, 'wrap, 'life) stagingRegistrar \<Rightarrow> ('sel, 'obs, 'wrap, 'life) stagingRegistrar" where
  "reg_Observe when name sel obs r =
     (if frozen r then r
      else let (valid, r') = validateHook name (sel \<noteq> None) (obs \<noteq> None) r in
        if \<not> valid then r'
        else if when \<noteq> Before \<and> when \<noteq> After then r'\<lparr>stErrs := stErrs r' @ [InvalidTiming name]\<rparr>
        else r'\<lparr>stObservers := stObservers r' @
               [\<lparr>obsName = qualify_hook r name, obsWhen = when, obsSelector = sel, obsCallback = obs,
                 obsPolicy = stPolicy r\<rparr>]\<rparr>)"

definition reg_Wrap ::
    "string \<Rightarrow> 'sel option \<Rightarrow> 'wrap option \<Rightarrow> 
     ('sel, 'obs, 'wrap, 'life) stagingRegistrar \<Rightarrow> ('sel, 'obs, 'wrap, 'life) stagingRegistrar" where
  "reg_Wrap name sel wrap r =
     (if frozen r then r
      else let (valid, r') = validateHook name (sel \<noteq> None) (wrap \<noteq> None) r in
        if \<not> valid then r'
        else r'\<lparr>stWrappers := stWrappers r' @
               [\<lparr>wrapName = qualify_hook r name, wrapSelector = sel, wrapCallback = wrap,
                 wrapPolicy = stPolicy r\<rparr>]\<rparr>)"

definition reg_On ::
    "LifecycleEvent \<Rightarrow> string \<Rightarrow> 'life option \<Rightarrow> 
     ('sel, 'obs, 'wrap, 'life) stagingRegistrar \<Rightarrow> ('sel, 'obs, 'wrap, 'life) stagingRegistrar" where
  "reg_On event name handler r =
     (if frozen r then r
      else let (valid, r') = validateHook name True (handler \<noteq> None) r in
        if \<not> valid then r'
        else if event \<noteq> Startup \<and> event \<noteq> Shutdown then r'\<lparr>stErrs := stErrs r' @ [InvalidEvent name]\<rparr>
        else r'\<lparr>stLifecycles := stLifecycles r' @
               [\<lparr>lifeName = qualify_hook r name, lifeEvent = event, lifeHandler = handler,
                 lifePolicy = stPolicy r\<rparr>]\<rparr>)"

text \<open>The first pattern with a segment that \<open>path.Match\<close> rejects.\<close>

definition pattern_valid :: "string \<Rightarrow> bool" where
  "pattern_valid pattern =
     list_all (\<lambda>seg. seg = ''**'' \<or> path_Match seg ''probe'' \<noteq> None) (Split CHR ''/'' pattern)"

definition reg_Restrict ::
    "Rule option \<Rightarrow> ('sel, 'obs, 'wrap, 'life) stagingRegistrar \<Rightarrow> 
     ('sel, 'obs, 'wrap, 'life) stagingRegistrar" where
  "reg_Restrict rule r =
     (if frozen r then r
      else case rule of
        None \<Rightarrow> r\<lparr>stErrs := stErrs r @ [NilRule]\<rparr>
      | Some u \<Rightarrow>
          (if \<not> registrationNamePattern (ruleName u) then r\<lparr>stErrs := stErrs r @ [InvalidRuleName (ruleName u)]\<rparr>
           else if MaxRisk u \<noteq> [] \<and> (case ParseRisk (MaxRisk u) of Inl _ \<Rightarrow> True | Inr _ \<Rightarrow> False)
           then r\<lparr>stErrs := stErrs r @ [InvalidMaxRisk (ruleName u) (MaxRisk u)]\<rparr>
           else (case find (\<lambda>p. \<not> pattern_valid p) (Allow u @ Deny u) of
                   Some p \<Rightarrow> r\<lparr>stErrs := stErrs r @ [InvalidPattern (ruleName u) p]\<rparr>
                 | None \<Rightarrow> r\<lparr>stRules := stRules r @ [\<lparr>rulePlugin = stPlugin r, entryRule = u\<rparr>]\<rparr>)))"

definition freeze ::
    "('sel, 'obs, 'wrap, 'life) stagingRegistrar \<Rightarrow> ('sel, 'obs, 'wrap, 'life) stagingRegistrar" where "freeze r = r\<lparr>frozen := True\<rparr>"

fun register ::
    "('sel, 'obs, 'wrap, 'life) registration \<Rightarrow> ('sel, 'obs, 'wrap, 'life) stagingRegistrar \<Rightarrow>
     ('sel, 'obs, 'wrap, 'life) stagingRegistrar" where
  "register (Observe when name sel obs) r = reg_Observe when name sel obs r"
| "register (Wrap name sel wrap) r = reg_Wrap name sel wrap r"
| "register (On event name handler) r = reg_On event name handler r"
| "register (Restrict rule) r = reg_Restrict rule r"

section \<open>Diagnostics of a plugin\<close>

definition failurePolicyName :: "FailurePolicy \<Rightarrow> string" where
  "failurePolicyName p = (if p = FailClosed then ''fail-closed'' else ''fail-open'')"

text \<open>
  \<open>selectorName\<close> reads the name of the linked function by reflection; what reflection answers is the
  parameter \<open>reflect\<close>, and the definitions below take \<open>selectorName reflect\<close> as an argument.
\<close>

definition selector_labels :: "(string \<times> string) list" where
  "selector_labels =
     [(''.All.'', ''all''), (''.None.'', ''none''), (''.ByDomain.'', ''domain''),
      (''.ByCommandPath.'', ''command-path''), (''.ByIdentity.'', ''identity''),
      (''.ByExactRisk.'', ''exact-risk''), (''.ByWrite.'', ''write''),
      (''.And.'', ''and''), (''.Or.'', ''or''), (''.Not.'', ''not'')]"

definition selectorName :: "('sel \<Rightarrow> string option) \<Rightarrow> 'sel option \<Rightarrow> string" where
  "selectorName reflect selector =
     (case selector of
        None \<Rightarrow> ''none''
      | Some s \<Rightarrow>
          (case reflect s of
             None \<Rightarrow> ''custom''
           | Some name \<Rightarrow>
               (case find (\<lambda>(fragment, label). Contains name fragment) selector_labels of
                  Some (_, label) \<Rightarrow> label
                | None \<Rightarrow> ''custom'')))"

definition activePluginDiagnostic ::
    "('sel option \<Rightarrow> string) \<Rightarrow> string \<Rightarrow> string \<Rightarrow> Capabilities \<Rightarrow>
     ('sel, 'obs, 'wrap, 'life) stagingRegistrar \<Rightarrow> PluginDiagnostic" where
  "activePluginDiagnostic labels name version caps stage =
     \<lparr>pdName = name, pdVersion = version, pdStatus = ''active'',
      pdFailurePolicy = failurePolicyName (capPolicy caps), pdFailureStage = [],
      pdRestricts = Restricts caps,
      pdHooks =
        map (\<lambda>e. \<lparr>hookName = obsName e, hookKind = ''observer'',
                  hookTiming = (if obsWhen e = After then ''after'' else ''before''),
                  hookSelector = labels (obsSelector e)\<rparr>) (stObservers stage) @
        map (\<lambda>e. \<lparr>hookName = wrapName e, hookKind = ''wrapper'', hookTiming = [],
                  hookSelector = labels (wrapSelector e)\<rparr>) (stWrappers stage) @
        map (\<lambda>e. \<lparr>hookName = lifeName e, hookKind = ''lifecycle'',
                  hookTiming = (if lifeEvent e = Shutdown then ''shutdown'' else ''startup''),
                  hookSelector = ''n/a''\<rparr>) (stLifecycles stage),
      pdRules = map (\<lambda>e. ruleName (entryRule e)) (stRules stage),
      pdRuleDetails =
        map (\<lambda>e. \<lparr>rdName = ruleName (entryRule e), rdAllow = Allow (entryRule e),
                  rdDeny = Deny (entryRule e), rdMaxRisk = MaxRisk (entryRule e),
                  rdIdentities = ruleIdentities (entryRule e),
                  rdAllowUnannotated = AllowUnannotated (entryRule e)\<rparr>) (stRules stage)\<rparr>"

section \<open>Installing one plugin\<close>

definition skipped :: "string \<Rightarrow> string \<Rightarrow> FailurePolicy \<Rightarrow> bool \<Rightarrow> string \<Rightarrow> PluginDiagnostic" where
  "skipped name version policy restricts stage =
     \<lparr>pdName = name, pdVersion = version, pdStatus = ''skipped'',
      pdFailurePolicy = failurePolicyName policy, pdFailureStage = stage, pdRestricts = restricts,
      pdHooks = [], pdRules = [], pdRuleDetails = []\<rparr>"

definition skip ::
    "PluginDiagnostic \<Rightarrow> string list \<Rightarrow> ('sel, 'obs, 'wrap, 'life) Runtime \<Rightarrow> 
     (install_error, ('sel, 'obs, 'wrap, 'life) Runtime \<times> string list) result" where
  "skip d seen rt = Inr (rt\<lparr>pluginDiagnostics := pluginDiagnostics rt @ [d]\<rparr>, seen)"

text \<open>\<open>callPluginMetadataBounded\<close>: the error records the field and whether the deadline caused it.\<close>

definition callPluginMetadataBounded :: "string \<Rightarrow> 'a plugin_callback \<Rightarrow> (install_error, 'a) result" where
  "callPluginMetadataBounded field c =
     (case c of Returned v \<Rightarrow> Inr v
      | Panicked \<Rightarrow> Inl (MetadataFailed field False)
      | TimedOut \<Rightarrow> Inl (MetadataFailed field True))"

definition empty_stage ::
    "string \<Rightarrow> FailurePolicy \<Rightarrow> ('sel, 'obs, 'wrap, 'life) stagingRegistrar" where
  "empty_stage name policy =
     \<lparr>frozen = False, stPlugin = name, stPolicy = policy, stObservers = [], stWrappers = [],
      stLifecycles = [], stRules = [], stHookNames = [], stErrs = []\<rparr>"

definition installPluginBounded ::
    "string \<Rightarrow> ('sel, 'obs, 'wrap, 'life) Plugin \<Rightarrow> ('sel, 'obs, 'wrap, 'life) stagingRegistrar \<Rightarrow>
     install_error option \<times> ('sel, 'obs, 'wrap, 'life) stagingRegistrar" where
  "installPluginBounded name plugin stage =
     (let stage1 = fold register (plgCalls plugin) stage in
      case plgOutcome plugin of
        Returned None \<Rightarrow> (None, stage1)
      | Returned (Some e) \<Rightarrow> (Some (InstallReturned name e), stage1)
      | Panicked \<Rightarrow> (Some (InstallPanicked name), stage1)
      | TimedOut \<Rightarrow> (Some (InstallTimedOut name), freeze stage1))"

text \<open>The checks after \<open>Install\<close>, in order; the first failure wins.\<close>

definition install_verdict ::
    "string \<Rightarrow> Capabilities \<Rightarrow> string \<Rightarrow> install_error option \<Rightarrow>
     ('sel, 'obs, 'wrap, 'life) stagingRegistrar \<Rightarrow> install_error option" where
  "install_verdict name caps current_restrictor err stage =
     (if err \<noteq> None then err
      else if stErrs stage \<noteq> [] then Some (RegistrationInvalid name (stErrs stage))
      else if Restricts caps \<noteq> (stRules stage \<noteq> []) then Some (RestrictsMismatch name)
      else if stRules stage \<noteq> [] \<and> current_restrictor \<noteq> [] then Some (TwoRestrictors current_restrictor name)
      else None)"

definition commit ::
    "('sel option \<Rightarrow> string) \<Rightarrow> string \<Rightarrow> string \<Rightarrow> Capabilities \<Rightarrow> 
     ('sel, 'obs, 'wrap, 'life) stagingRegistrar \<Rightarrow> ('sel, 'obs, 'wrap, 'life) Runtime \<Rightarrow> 
     ('sel, 'obs, 'wrap, 'life) Runtime" where
  "commit labels name version caps stage rt =
     rt\<lparr>restrictor := (if stRules stage \<noteq> [] then name else restrictor rt),
        observers := observers rt @ stObservers stage,
        wrappers := wrappers rt @ stWrappers stage,
        lifecycles := lifecycles rt @ stLifecycles stage,
        rules := rules rt @ stRules stage,
        pluginDiagnostics := pluginDiagnostics rt @
          [activePluginDiagnostic labels name version caps stage]\<rparr>"

text \<open>
  The body of \<open>installOnePlugin\<close> once the capabilities, the name and the version are known.
\<close>

definition install_named ::
    "('sel option \<Rightarrow> string) \<Rightarrow> string \<Rightarrow> ('sel, 'obs, 'wrap, 'life) Plugin \<Rightarrow> Capabilities \<Rightarrow> 
     string \<Rightarrow> string \<Rightarrow> ('sel, 'obs, 'wrap, 'life) Runtime \<Rightarrow> string list \<Rightarrow> 
     (install_error, ('sel, 'obs, 'wrap, 'life) Runtime \<times> string list) result" where
  "install_named labels version plugin caps name pversion rt seen =
     (let policy = capPolicy caps;
          skip_at = (\<lambda>stage. skip (skipped name pversion policy (Restricts caps) stage) (name # seen) rt)
      in if name \<in> set seen then Inl (DuplicatePlugin name)
         else if \<not> registrationNamePattern name
         then (if policy = FailOpen then skip_at ''validation-name'' else Inl (InvalidPluginName name))
         else (case parseSemanticVersion pversion of
            Inl e \<Rightarrow> (if policy = FailOpen then skip_at ''validation-version''
                      else Inl (InvalidPluginVersion name pversion e))
          | Inr _ \<Rightarrow>
             (case checkCLIVersion (RequiredCLIVersion caps) version of
                Some e \<Rightarrow> (if policy = FailOpen then skip_at ''compatibility''
                           else Inl (Incompatible name e))
              | None \<Rightarrow>
                 (let (err, staged) = installPluginBounded name plugin (empty_stage name policy);
                      stage = freeze staged
                  in case install_verdict name caps (restrictor rt) err stage of
                       Some e \<Rightarrow> (if policy = FailOpen then skip_at ''install'' else Inl e)
                     | None \<Rightarrow> Inr (commit labels name pversion caps stage rt, name # seen)))))"

definition installOnePlugin ::
    "('sel option \<Rightarrow> string) \<Rightarrow> string \<Rightarrow> ('sel, 'obs, 'wrap, 'life) Plugin option \<Rightarrow> 
     ('sel, 'obs, 'wrap, 'life) Runtime \<Rightarrow> string list \<Rightarrow> 
     (install_error, ('sel, 'obs, 'wrap, 'life) Runtime \<times> string list) result" where
  "installOnePlugin labels version plugin_ref rt seen =
     (case plugin_ref of
        None \<Rightarrow> Inl PluginNil
      | Some plugin \<Rightarrow>
          (case callPluginMetadataBounded ''capabilities'' (plgCapabilities plugin) of
             Inl e \<Rightarrow> Inl e
           | Inr caps \<Rightarrow>
               (case capPolicy caps of
                  OtherPolicy n \<Rightarrow> Inl (InvalidPolicy n)
                | _ \<Rightarrow>
                    (if Restricts caps \<and> capPolicy caps = FailOpen then Inl RestrictingFailOpen
                     else
                       (case callPluginMetadataBounded ''name'' (plgName plugin) of
                          Inl e \<Rightarrow>
                            (if capPolicy caps = FailOpen
                             then skip (skipped ''<unavailable>'' [] FailOpen False ''metadata-name'') seen rt
                             else Inl e)
                        | Inr name \<Rightarrow>
                            (case callPluginMetadataBounded ''version'' (plgVersion plugin) of
                               Inl e \<Rightarrow>
                                 (if capPolicy caps = FailOpen
                                  then skip (skipped name [] FailOpen False ''metadata-version'') seen rt
                                  else Inl e)
                             | Inr pversion \<Rightarrow>
                                 install_named labels version plugin caps name pversion rt seen))))))"

section \<open>Installing all plugins\<close>

definition empty_runtime :: "('sel, 'obs, 'wrap, 'life) Runtime" where
  "empty_runtime = \<lparr>observers = [], wrappers = [], lifecycles = [], rules = [], restrictor = [],
     pluginDiagnostics = []\<rparr>"

fun install_loop ::
    "('sel option \<Rightarrow> string) \<Rightarrow> string \<Rightarrow> ('sel, 'obs, 'wrap, 'life) Plugin option list \<Rightarrow> 
     ('sel, 'obs, 'wrap, 'life) Runtime \<Rightarrow> string list \<Rightarrow> (install_error, ('sel, 'obs, 'wrap, 'life) Runtime) result" where
  "install_loop labels version [] rt seen = Inr rt"
| "install_loop labels version (p # ps) rt seen =
     (case installOnePlugin labels version p rt seen of
        Inl e \<Rightarrow> Inl e
      | Inr (rt', seen') \<Rightarrow> install_loop labels version ps rt' seen')"

definition installPlugins ::
    "('sel option \<Rightarrow> string) \<Rightarrow> string \<Rightarrow> ('sel, 'obs, 'wrap, 'life) Plugin option list \<Rightarrow>
     (install_error, ('sel, 'obs, 'wrap, 'life) Runtime) result" where
  "installPlugins labels version plugins =
     install_loop labels version plugins empty_runtime []"

record Diagnostics =
  diagPlugins :: "PluginDiagnostic list"
  diagRestrictor :: string

definition runtime_Diagnostics :: "('sel, 'obs, 'wrap, 'life) Runtime option \<Rightarrow> Diagnostics" where
  "runtime_Diagnostics r =
     (case r of None \<Rightarrow> \<lparr>diagPlugins = [], diagRestrictor = []\<rparr>
      | Some rt \<Rightarrow> \<lparr>diagPlugins = pluginDiagnostics rt, diagRestrictor = restrictor rt\<rparr>)"

section \<open>Invariants of the staging registrar\<close>

definition stage_hooks :: "('sel, 'obs, 'wrap, 'life) stagingRegistrar \<Rightarrow> string list" where
  "stage_hooks r = map obsName (stObservers r) @ map wrapName (stWrappers r) @ map lifeName (stLifecycles r)"

definition observer_ok :: "FailurePolicy \<Rightarrow> ('sel, 'obs) observerEntry \<Rightarrow> bool" where
  "observer_ok policy e = (obsSelector e \<noteq> None \<and> obsCallback e \<noteq> None \<and>
     (obsWhen e = Before \<or> obsWhen e = After) \<and> obsPolicy e = policy)"

definition wrapper_ok :: "FailurePolicy \<Rightarrow> ('sel, 'wrap) wrapperEntry \<Rightarrow> bool" where
  "wrapper_ok policy e = (wrapSelector e \<noteq> None \<and> wrapCallback e \<noteq> None \<and> wrapPolicy e = policy)"

definition lifecycle_ok :: "FailurePolicy \<Rightarrow> 'life lifecycleEntry \<Rightarrow> bool" where
  "lifecycle_ok policy e = (lifeHandler e \<noteq> None \<and>
     (lifeEvent e = Startup \<or> lifeEvent e = Shutdown) \<and> lifePolicy e = policy)"

definition rule_ok :: "Rule \<Rightarrow> bool" where
  "rule_ok u = (registrationNamePattern (ruleName u) \<and> (MaxRisk u = [] \<or> snd (Rank (MaxRisk u))) \<and>
     list_all pattern_valid (Allow u @ Deny u))"

definition stage_inv :: "('sel, 'obs, 'wrap, 'life) stagingRegistrar \<Rightarrow> bool" where
  "stage_inv r =
     (distinct (stage_hooks r) \<and>
      set (stage_hooks r) \<subseteq> qualify_hook r ` set (stHookNames r) \<and>
      list_all (observer_ok (stPolicy r)) (stObservers r) \<and>
      list_all (wrapper_ok (stPolicy r)) (stWrappers r) \<and>
      list_all (lifecycle_ok (stPolicy r)) (stLifecycles r) \<and>
      list_all (\<lambda>e. rulePlugin e = stPlugin r \<and> rule_ok (entryRule e)) (stRules r))"

lemmas registration_defs = reg_Observe_def reg_Wrap_def reg_On_def reg_Restrict_def validateHook_def

lemma ParseRisk_valid: "(case ParseRisk v of Inl _ \<Rightarrow> True | Inr _ \<Rightarrow> False) \<longleftrightarrow> v \<noteq> [] \<and> \<not> snd (Rank v)"
  by (simp add: ParseRisk_def)

lemma qualify_inj: "qualify_hook r a = qualify_hook r b \<longleftrightarrow> a = b"
  by (simp add: qualify_hook_def)

lemma register_frozen: "frozen r \<Longrightarrow> register c r = r"
  by (cases c) (simp_all add: registration_defs)

lemma register_keeps:
  "frozen (register c r) = frozen r \<and> stPlugin (register c r) = stPlugin r \<and> stPolicy (register c r) = stPolicy r"
  by (cases c) (auto simp: registration_defs Let_def split: option.splits)

lemma register_errs: "\<exists>es. stErrs (register c r) = stErrs r @ es"
  by (cases c) (auto simp: registration_defs Let_def split: option.splits)

lemma register_rules: "\<exists>es. stRules (register c r) = stRules r @ es"
  by (cases c) (auto simp: registration_defs Let_def split: option.splits)

lemma fresh_hook:
  "stage_inv r \<Longrightarrow> name \<notin> set (stHookNames r) \<Longrightarrow> qualify_hook r name \<notin> set (stage_hooks r)"
  unfolding stage_inv_def by (auto simp: qualify_inj dest!: subsetD)

lemma Observe_inv:
  assumes "stage_inv r" shows "stage_inv (reg_Observe when name sel obs r)"
  using assms fresh_hook[OF assms, of name]
  by (auto simp: reg_Observe_def validateHook_def Let_def stage_inv_def stage_hooks_def observer_ok_def
      qualify_hook_def)

lemma Wrap_inv:
  assumes "stage_inv r" shows "stage_inv (reg_Wrap name sel wrap r)"
  using assms fresh_hook[OF assms, of name]
  by (auto simp: reg_Wrap_def validateHook_def Let_def stage_inv_def stage_hooks_def wrapper_ok_def
      qualify_hook_def)

lemma On_inv:
  assumes "stage_inv r" shows "stage_inv (reg_On event name handler r)"
  using assms fresh_hook[OF assms, of name]
  by (auto simp: reg_On_def validateHook_def Let_def stage_inv_def stage_hooks_def lifecycle_ok_def
      qualify_hook_def)

lemma Restrict_inv:
  assumes "stage_inv r" shows "stage_inv (reg_Restrict rule r)"
proof (cases rule)
  case None
  with assms show ?thesis by (simp add: reg_Restrict_def stage_inv_def stage_hooks_def qualify_hook_def)
next
  case (Some u)
  have "rule_ok u" if "registrationNamePattern (ruleName u)" "MaxRisk u = [] \<or> snd (Rank (MaxRisk u))"
    "find (\<lambda>p. \<not> pattern_valid p) (Allow u @ Deny u) = None"
    using that by (auto simp: rule_ok_def list_all_iff find_None_iff)
  with assms Some show ?thesis
    by (auto simp: reg_Restrict_def stage_inv_def stage_hooks_def qualify_hook_def ParseRisk_def
        split: option.splits)
qed

interpretation staging: preserving register stage_inv
proof
  fix r :: "('sel, 'obs, 'wrap, 'life) stagingRegistrar" and c
  show "stage_inv r \<Longrightarrow> stage_inv (register c r)"
    by (cases c) (simp_all add: Observe_inv Wrap_inv On_inv Restrict_inv)
qed

interpretation staging_frozen: preserving register "\<lambda>r. r = freeze s"
  by unfold_locales (simp add: register_frozen freeze_def)

interpretation staging_errs: logging register stErrs
  by unfold_locales (rule register_errs)

interpretation staging_rules: logging register stRules
  by unfold_locales (rule register_rules)

lemma run_keeps:
  "frozen (fold register cs r) = frozen r \<and> stPlugin (fold register cs r) = stPlugin r \<and>
   stPolicy (fold register cs r) = stPolicy r"
  by (induction cs arbitrary: r) (simp_all add: register_keeps)

text \<open>A rule whose registration reported no error is in the stage.\<close>

lemma Restrict_accepted:
  "\<not> frozen r \<Longrightarrow> stErrs (register (Restrict (Some u)) r) = [] \<Longrightarrow>
   \<lparr>rulePlugin = stPlugin r, entryRule = u\<rparr> \<in> set (stRules (register (Restrict (Some u)) r))"
  by (auto simp: reg_Restrict_def split: if_splits option.splits)

lemma run_Restrict_accepted:
  assumes "\<not> frozen r" and "stErrs (fold register cs r) = []" and "Restrict (Some u) \<in> set cs"
  shows "\<lparr>rulePlugin = stPlugin r, entryRule = u\<rparr> \<in> set (stRules (fold register cs r))"
proof -
  from staging_errs.run_split[OF assms(3), of r] obtain t us ts where
    run: "fold register cs r = fold register us (register (Restrict (Some u)) t)" and
    t: "t = fold register ts r" by blast
  from assms(2) run have "stErrs (register (Restrict (Some u)) t) = []"
    using staging_errs.run_empty by metis
  moreover have "\<not> frozen t" "stPlugin t = stPlugin r" using assms(1) t run_keeps by metis+
  ultimately have "\<lparr>rulePlugin = stPlugin r, entryRule = u\<rparr> \<in> set (stRules (register (Restrict (Some u)) t))"
    using Restrict_accepted[of t u] by simp
  then show ?thesis unfolding run using staging_rules.run_contains by blast
qed

section \<open>The two outcomes of installing a plugin\<close>

definition was_skipped ::
    "('sel, 'obs, 'wrap, 'life) Runtime \<Rightarrow> string list \<Rightarrow> ('sel, 'obs, 'wrap, 'life) Runtime \<Rightarrow> string list \<Rightarrow> bool" where
  "was_skipped rt seen rt' seen' =
     (\<exists>d. rt' = rt\<lparr>pluginDiagnostics := pluginDiagnostics rt @ [d]\<rparr> \<and> pdStatus d = ''skipped'' \<and>
        pdFailurePolicy d = ''fail-open'' \<and> set seen \<subseteq> set seen')"

definition was_committed ::
    "('sel option \<Rightarrow> string) \<Rightarrow> string \<Rightarrow> ('sel, 'obs, 'wrap, 'life) Plugin \<Rightarrow> ('sel, 'obs, 'wrap, 'life) Runtime \<Rightarrow> string list \<Rightarrow> 
     ('sel, 'obs, 'wrap, 'life) Runtime \<Rightarrow> string list \<Rightarrow> bool" where
  "was_committed labels version plg rt seen rt' seen' =
     (\<exists>caps name pversion stage. plgCapabilities plg = Returned caps \<and> plgName plg = Returned name \<and>
        plgVersion plg = Returned pversion \<and> plgOutcome plg = Returned None \<and>
        capPolicy caps \<in> {FailOpen, FailClosed} \<and> (Restricts caps \<longrightarrow> capPolicy caps = FailClosed) \<and>
        name \<notin> set seen \<and> registrationNamePattern name \<and>
        checkCLIVersion (RequiredCLIVersion caps) version = None \<and>
        stage = freeze (fold register (plgCalls plg) (empty_stage name (capPolicy caps))) \<and>
        stErrs stage = [] \<and> (Restricts caps \<longleftrightarrow> stRules stage \<noteq> []) \<and>
        (stRules stage \<noteq> [] \<longrightarrow> restrictor rt = []) \<and>
        rt' = commit labels name pversion caps stage rt \<and> seen' = name # seen)"

lemma install_verdict_None:
  "install_verdict name caps current err stage = None \<longleftrightarrow>
     err = None \<and> stErrs stage = [] \<and> (Restricts caps \<longleftrightarrow> stRules stage \<noteq> []) \<and>
     (stRules stage \<noteq> [] \<longrightarrow> current = [])"
  by (auto simp: install_verdict_def)

lemma installPluginBounded_None:
  "installPluginBounded name plg stage = (None, st) \<longleftrightarrow>
     plgOutcome plg = Returned None \<and> st = fold register (plgCalls plg) stage"
  by (auto simp: installPluginBounded_def Let_def split: plugin_callback.splits option.splits)

lemma skip_skipped:
  "skip (skipped n v FailOpen b st) seen' rt = Inr (rt', seen'') \<Longrightarrow> set seen \<subseteq> set seen' \<Longrightarrow>
   was_skipped rt seen rt' seen''"
  by (auto simp: skip_def skipped_def was_skipped_def failurePolicyName_def)

lemma install_named_cases:
  assumes inst: "install_named labels version plg caps name pversion rt seen = Inr (rt', seen')"
    and known: "plgCapabilities plg = Returned caps" "plgName plg = Returned name"
      "plgVersion plg = Returned pversion"
    and policy: "capPolicy caps \<in> {FailOpen, FailClosed}" "Restricts caps \<longrightarrow> capPolicy caps = FailClosed"
  shows "capPolicy caps = FailOpen \<and> was_skipped rt seen rt' seen' \<or>
    was_committed labels version plg rt seen rt' seen'"
proof -
  let ?skip = "\<lambda>st. skip (skipped name pversion (capPolicy caps) (Restricts caps) st) (name # seen) rt"
  have skip: "capPolicy caps = FailOpen \<and> was_skipped rt seen rt' seen'"
    if "capPolicy caps = FailOpen" "?skip st = Inr (rt', seen')" for st
    using that skip_skipped[of name pversion _ st "name # seen" rt rt' seen' seen] by auto
  obtain err st where run: "installPluginBounded name plg (empty_stage name (capPolicy caps)) = (err, st)"
    by (cases "installPluginBounded name plg (empty_stage name (capPolicy caps))")
  show ?thesis
  proof (cases "name \<notin> set seen \<and> registrationNamePattern name \<and>
      (\<exists>v. parseSemanticVersion pversion = Inr v) \<and>
      checkCLIVersion (RequiredCLIVersion caps) version = None \<and>
      install_verdict name caps (restrictor rt) err (freeze st) = None")
    case True
    then have ok: "name \<notin> set seen" "registrationNamePattern name"
      "checkCLIVersion (RequiredCLIVersion caps) version = None"
      and verdict: "err = None" "stErrs (freeze st) = []" "Restricts caps \<longleftrightarrow> stRules (freeze st) \<noteq> []"
        "stRules (freeze st) \<noteq> [] \<longrightarrow> restrictor rt = []"
      by (simp_all add: install_verdict_None)
    from True inst run have "rt' = commit labels name pversion caps (freeze st) rt" "seen' = name # seen"
      by (auto simp: install_named_def Let_def)
    moreover from run verdict(1) have "plgOutcome plg = Returned None"
      "st = fold register (plgCalls plg) (empty_stage name (capPolicy caps))"
      by (simp_all add: installPluginBounded_None)
    ultimately have "was_committed labels version plg rt seen rt' seen'"
      unfolding was_committed_def
      using known policy ok verdict(2-4)
      by - (rule exI[of _ caps], rule exI[of _ name], rule exI[of _ pversion], rule exI[of _ "freeze st"],
        intro conjI, simp_all only: simp_thms)
    then show ?thesis ..
  next
    case False
    have "capPolicy caps = FailOpen \<and> (\<exists>s. ?skip s = Inr (rt', seen'))"
      using inst run False
      by (auto simp: install_named_def Let_def split: if_splits sum.splits option.splits)
    then show ?thesis using skip by blast
  qed
qed

lemma installOnePlugin_cases:
  assumes inst: "installOnePlugin labels version p rt seen = Inr (rt', seen')"
  shows "\<exists>plg caps. p = Some plg \<and> plgCapabilities plg = Returned caps \<and>
    (Restricts caps \<longrightarrow> capPolicy caps = FailClosed) \<and>
    (capPolicy caps = FailOpen \<and> was_skipped rt seen rt' seen' \<or>
     was_committed labels version plg rt seen rt' seen')"
proof -
  obtain plg where p: "p = Some plg" using inst by (cases p) (auto simp: installOnePlugin_def)
  obtain caps where caps: "plgCapabilities plg = Returned caps"
    using inst p by (cases "plgCapabilities plg")
      (auto simp: installOnePlugin_def callPluginMetadataBounded_def)
  have policy: "capPolicy caps \<in> {FailOpen, FailClosed}"
    using inst p caps by (cases "capPolicy caps")
      (auto simp: installOnePlugin_def callPluginMetadataBounded_def)
  have restricts: "Restricts caps \<longrightarrow> capPolicy caps = FailClosed"
    using inst p caps policy
    by (auto simp: installOnePlugin_def callPluginMetadataBounded_def)
  show ?thesis
  proof (cases "\<exists>name pversion. plgName plg = Returned name \<and> plgVersion plg = Returned pversion")
    case True
    then obtain name pversion where nv: "plgName plg = Returned name" "plgVersion plg = Returned pversion"
      by blast
    have "install_named labels version plg caps name pversion rt seen = Inr (rt', seen')"
      using inst p caps nv policy restricts
      by (auto simp: installOnePlugin_def callPluginMetadataBounded_def)
    from install_named_cases[OF this caps nv policy restricts] p caps restricts show ?thesis by blast
  next
    case False
    have "capPolicy caps = FailOpen \<and> was_skipped rt seen rt' seen'"
      using inst p caps policy restricts False
      by (auto simp: installOnePlugin_def callPluginMetadataBounded_def
          split: plugin_callback.splits if_splits dest!: skip_skipped)
    with p caps restricts show ?thesis by blast
  qed
qed

section \<open>Invariant of the runtime\<close>

definition runtime_hooks :: "('sel, 'obs, 'wrap, 'life) Runtime \<Rightarrow> string list" where
  "runtime_hooks rt = map obsName (observers rt) @ map wrapName (wrappers rt) @ map lifeName (lifecycles rt)"

definition owned :: "string list \<Rightarrow> string \<Rightarrow> bool" where
  "owned seen n = (\<exists>p \<in> set seen. \<exists>h. n = p @ ''.'' @ h \<and> CHR ''.'' \<notin> set p)"

definition known_policy :: "FailurePolicy \<Rightarrow> bool" where
  "known_policy p = (p = FailOpen \<or> p = FailClosed)"

definition hooks_ok :: "('sel, 'obs, 'wrap, 'life) Runtime \<Rightarrow> bool" where
  "hooks_ok rt =
     (list_all (\<lambda>e. known_policy (obsPolicy e) \<and> observer_ok (obsPolicy e) e) (observers rt) \<and>
      list_all (\<lambda>e. known_policy (wrapPolicy e) \<and> wrapper_ok (wrapPolicy e) e) (wrappers rt) \<and>
      list_all (\<lambda>e. known_policy (lifePolicy e) \<and> lifecycle_ok (lifePolicy e) e) (lifecycles rt))"

definition rules_ok :: "('sel, 'obs, 'wrap, 'life) Runtime \<Rightarrow> bool" where
  "rules_ok rt =
     (list_all (\<lambda>e. rulePlugin e = restrictor rt \<and> rule_ok (entryRule e)) (rules rt) \<and>
      (restrictor rt = [] \<longleftrightarrow> rules rt = []))"

definition runtime_inv :: "string list \<Rightarrow> ('sel, 'obs, 'wrap, 'life) Runtime \<Rightarrow> bool" where
  "runtime_inv seen rt =
     (distinct (runtime_hooks rt) \<and> list_all (owned seen) (runtime_hooks rt) \<and> hooks_ok rt \<and> rules_ok rt)"

lemma empty_stage_inv: "stage_inv (empty_stage name policy)"
  by (simp add: stage_inv_def empty_stage_def stage_hooks_def)

lemma freeze_inv: "stage_inv r \<Longrightarrow> stage_inv (freeze r)"
  by (simp add: stage_inv_def freeze_def stage_hooks_def qualify_hook_def)

definition name_char :: "char \<Rightarrow> bool" where
  "name_char d = (is_lower d \<or> is_digit d \<or> d = CHR ''-'')"

lemma name_chars: "registrationNamePattern p \<Longrightarrow> p \<noteq> [] \<and> list_all name_char p"
  by (cases p) (auto simp: registrationNamePattern_def name_char_def[abs_def])

lemma name_no_dot: "registrationNamePattern p \<Longrightarrow> CHR ''.'' \<notin> set p \<and> p \<noteq> []"
proof -
  assume "registrationNamePattern p"
  then have "p \<noteq> []" "list_all name_char p" by (simp_all add: name_chars)
  moreover have "\<not> name_char CHR ''.''" by (simp add: name_char_def is_lower_def is_digit_def)
  ultimately show ?thesis by (metis list_all_iff)
qed

lemma prefix_before_dot:
  "CHR ''.'' \<notin> set p \<Longrightarrow> CHR ''.'' \<notin> set q \<Longrightarrow> p @ ''.'' @ h = q @ ''.'' @ k \<Longrightarrow> p = q"
proof (induction p arbitrary: q)
  case Nil
  then show ?case by (cases q) auto
next
  case (Cons a p)
  then show ?case by (cases q) auto
qed

lemma stage_hook_owned:
  "stage_inv st \<Longrightarrow> n \<in> set (stage_hooks st) \<Longrightarrow> \<exists>h. n = stPlugin st @ ''.'' @ h"
  unfolding stage_inv_def qualify_hook_def by blast

lemma commit_hooks_set:
  "set (runtime_hooks (commit sel name pv caps st rt)) = set (runtime_hooks rt) \<union> set (stage_hooks st)"
  by (auto simp: runtime_hooks_def stage_hooks_def commit_def)

lemma commit_hooks_distinct:
  "distinct (runtime_hooks (commit sel name pv caps st rt)) \<longleftrightarrow>
   distinct (runtime_hooks rt) \<and> distinct (stage_hooks st) \<and>
   set (runtime_hooks rt) \<inter> set (stage_hooks st) = {}"
  by (auto simp: runtime_hooks_def stage_hooks_def commit_def)

lemma commit_runtime_inv:
  assumes inv: "runtime_inv seen rt" and st: "stage_inv st" "stPlugin st = name" "known_policy (stPolicy st)"
    and fresh: "name \<notin> set seen" and pat: "registrationNamePattern name"
    and single: "stRules st \<noteq> [] \<longrightarrow> restrictor rt = []"
  shows "runtime_inv (name # seen) (commit sel name pv caps st rt)"
proof -
  have dot: "CHR ''.'' \<notin> set name" "name \<noteq> []" using name_no_dot[OF pat] by auto
  have new: "n \<in> set (stage_hooks st) \<Longrightarrow> \<exists>h. n = name @ ''.'' @ h" for n
    using stage_hook_owned[OF st(1)] st(2) by blast
  have old: "n \<in> set (runtime_hooks rt) \<Longrightarrow> owned seen n" for n
    using inv by (simp add: runtime_inv_def list_all_iff)
  have disj: "set (runtime_hooks rt) \<inter> set (stage_hooks st) = {}"
  proof (rule ccontr)
    assume "set (runtime_hooks rt) \<inter> set (stage_hooks st) \<noteq> {}"
    then obtain n where "n \<in> set (runtime_hooks rt)" "n \<in> set (stage_hooks st)" by blast
    with old[of n] new[of n] obtain q h k where
      "q \<in> set seen" "n = q @ ''.'' @ h" "CHR ''.'' \<notin> set q" "n = name @ ''.'' @ k"
      by (auto simp: owned_def)
    with prefix_before_dot[of q name h k] dot fresh show False by simp
  qed
  have "distinct (runtime_hooks (commit sel name pv caps st rt))"
    using inv st(1) disj by (simp add: commit_hooks_distinct runtime_inv_def stage_inv_def)
  moreover have "list_all (owned (name # seen)) (runtime_hooks (commit sel name pv caps st rt))"
    unfolding list_all_iff commit_hooks_set
    using old new dot by (fastforce simp: owned_def)
  moreover have "hooks_ok (commit sel name pv caps st rt)"
    using inv st
    by (auto simp: runtime_inv_def hooks_ok_def commit_def stage_inv_def list_all_iff observer_ok_def
        wrapper_ok_def lifecycle_ok_def)
  moreover have "rules_ok (commit sel name pv caps st rt)"
    using inv st single dot
    by (auto simp: runtime_inv_def rules_ok_def commit_def stage_inv_def list_all_iff)
  ultimately show ?thesis by (simp add: runtime_inv_def)
qed

lemma owned_mono: "set seen \<subseteq> set seen' \<Longrightarrow> owned seen n \<Longrightarrow> owned seen' n"
  by (auto simp: owned_def)

lemma installOnePlugin_inv:
  assumes inst: "installOnePlugin sel version p rt seen = Inr (rt', seen')" and inv: "runtime_inv seen rt"
  shows "runtime_inv seen' rt'"
proof -
  from installOnePlugin_cases[OF inst] obtain plg where
    "was_skipped rt seen rt' seen' \<or> was_committed sel version plg rt seen rt' seen'" by blast
  then show ?thesis
  proof
    assume "was_skipped rt seen rt' seen'"
    then obtain d where rt': "rt' = rt\<lparr>pluginDiagnostics := pluginDiagnostics rt @ [d]\<rparr>"
      and seen: "set seen \<subseteq> set seen'" unfolding was_skipped_def by blast
    have "list_all (owned seen') (runtime_hooks rt)"
      using inv owned_mono[OF seen] unfolding runtime_inv_def list_all_iff by blast
    with inv show ?thesis
      unfolding rt' by (simp add: runtime_inv_def runtime_hooks_def hooks_ok_def rules_ok_def)
  next
    assume "was_committed sel version plg rt seen rt' seen'"
    then obtain caps name pv st where
      st: "st = freeze (fold register (plgCalls plg) (empty_stage name (capPolicy caps)))"
      and c: "capPolicy caps \<in> {FailOpen, FailClosed}" "name \<notin> set seen" "registrationNamePattern name"
        "stRules st \<noteq> [] \<longrightarrow> restrictor rt = []" "rt' = commit sel name pv caps st rt" "seen' = name # seen"
      unfolding was_committed_def by blast
    have inv_st: "stage_inv st"
      unfolding st by (intro freeze_inv staging.run_inv empty_stage_inv)
    have "stPlugin st = name" "stPolicy st = capPolicy caps"
      using run_keeps[of "plgCalls plg" "empty_stage name (capPolicy caps)"] unfolding st
      by (simp_all add: freeze_def empty_stage_def)
    with commit_runtime_inv[OF inv inv_st] c show ?thesis by (simp add: known_policy_def)
  qed
qed

lemma install_loop_inv:
  "install_loop sel version ps rt seen = Inr rt' \<Longrightarrow> runtime_inv seen rt \<Longrightarrow> \<exists>seen'. runtime_inv seen' rt'"
proof (induction ps arbitrary: rt seen)
  case (Cons p ps)
  then obtain rt1 seen1 where one: "installOnePlugin sel version p rt seen = Inr (rt1, seen1)"
    and rest: "install_loop sel version ps rt1 seen1 = Inr rt'"
    by (auto split: sum.splits prod.splits)
  from Cons.IH[OF rest installOnePlugin_inv[OF one Cons.prems(2)]] show ?case .
qed auto

section \<open>Rules and diagnostics only grow\<close>

lemma installOnePlugin_grows:
  assumes "installOnePlugin sel version p rt seen = Inr (rt', seen')"
  shows "set (rules rt) \<subseteq> set (rules rt') \<and> set (pluginDiagnostics rt) \<subseteq> set (pluginDiagnostics rt')"
  using installOnePlugin_cases[OF assms] by (auto simp: was_skipped_def was_committed_def commit_def)

lemma install_loop_grows:
  "install_loop sel version ps rt seen = Inr rt' \<Longrightarrow>
   set (rules rt) \<subseteq> set (rules rt') \<and> set (pluginDiagnostics rt) \<subseteq> set (pluginDiagnostics rt')"
proof (induction ps arbitrary: rt seen)
  case (Cons p ps)
  then obtain rt1 seen1 where one: "installOnePlugin sel version p rt seen = Inr (rt1, seen1)"
    and rest: "install_loop sel version ps rt1 seen1 = Inr rt'"
    by (auto split: sum.splits prod.splits)
  from Cons.IH[OF rest] installOnePlugin_grows[OF one] show ?case by blast
qed simp

text \<open>Each plugin of a successful installation was installed at some point of the loop.\<close>

lemma install_loop_member:
  "install_loop sel version ps rt seen = Inr rt' \<Longrightarrow> p \<in> set ps \<Longrightarrow>
   \<exists>rt1 seen1 rt2 seen2. installOnePlugin sel version p rt1 seen1 = Inr (rt2, seen2) \<and>
     set (rules rt2) \<subseteq> set (rules rt') \<and> set (pluginDiagnostics rt2) \<subseteq> set (pluginDiagnostics rt')"
proof (induction ps arbitrary: rt seen)
  case (Cons q ps)
  then obtain rt1 seen1 where one: "installOnePlugin sel version q rt seen = Inr (rt1, seen1)"
    and rest: "install_loop sel version ps rt1 seen1 = Inr rt'"
    by (auto split: sum.splits prod.splits)
  show ?case
  proof (cases "p = q")
    case True
    with one install_loop_grows[OF rest] show ?thesis by blast
  next
    case False
    with Cons.prems(2) have "p \<in> set ps" by simp
    from Cons.IH[OF rest this] show ?thesis .
  qed
qed simp

lemma committed_rules:
  assumes "was_committed sel version plg rt seen rt' seen'" and "Restrict (Some u) \<in> set (plgCalls plg)"
  shows "\<exists>e \<in> set (rules rt'). entryRule e = u"
proof -
  from assms(1) obtain caps name pv st where
    st: "st = freeze (fold register (plgCalls plg) (empty_stage name (capPolicy caps)))" "stErrs st = []"
    and rt': "rt' = commit sel name pv caps st rt" unfolding was_committed_def by blast
  have "stErrs (fold register (plgCalls plg) (empty_stage name (capPolicy caps))) = []"
    using st by (simp add: freeze_def)
  from run_Restrict_accepted[OF _ this assms(2)]
  have "\<exists>e \<in> set (stRules st). entryRule e = u" unfolding st(1) by (force simp: empty_stage_def freeze_def)
  then show ?thesis unfolding rt' by (auto simp: commit_def)
qed

lemma committed_active:
  "was_committed sel version plg rt seen rt' seen' \<Longrightarrow>
   plgOutcome plg = Returned None \<and>
   (\<exists>d name. plgName plg = Returned name \<and> d \<in> set (pluginDiagnostics rt') \<and> pdName d = name \<and>
      pdStatus d = ''active'' \<and> pdFailureStage d = [])"
  unfolding was_committed_def commit_def activePluginDiagnostic_def by fastforce

section \<open>What a plugin contributes\<close>

text \<open>
  Read off the plugin alone: each registration call gives one entry, under the plugin's own name and with
  its own policy.
\<close>

definition own_name :: "('sel, 'obs, 'wrap, 'life) Plugin \<Rightarrow> string" where
  "own_name plg = (case plgName plg of Returned n \<Rightarrow> n | _ \<Rightarrow> [])"

definition own_policy :: "('sel, 'obs, 'wrap, 'life) Plugin \<Rightarrow> FailurePolicy" where
  "own_policy plg = (case plgCapabilities plg of Returned c \<Rightarrow> capPolicy c | _ \<Rightarrow> FailClosed)"

fun call_observers ::
    "string \<Rightarrow> FailurePolicy \<Rightarrow> ('sel, 'obs, 'wrap, 'life) registration \<Rightarrow> ('sel, 'obs) observerEntry list" where
  "call_observers n policy (Observe when h sel obs) =
     [\<lparr>obsName = n @ ''.'' @ h, obsWhen = when, obsSelector = sel, obsCallback = obs, obsPolicy = policy\<rparr>]"
| "call_observers n policy _ = []"

fun call_wrappers ::
    "string \<Rightarrow> FailurePolicy \<Rightarrow> ('sel, 'obs, 'wrap, 'life) registration \<Rightarrow> ('sel, 'wrap) wrapperEntry list" where
  "call_wrappers n policy (Wrap h sel wrap) =
     [\<lparr>wrapName = n @ ''.'' @ h, wrapSelector = sel, wrapCallback = wrap, wrapPolicy = policy\<rparr>]"
| "call_wrappers n policy _ = []"

fun call_lifecycles ::
    "string \<Rightarrow> FailurePolicy \<Rightarrow> ('sel, 'obs, 'wrap, 'life) registration \<Rightarrow> 'life lifecycleEntry list" where
  "call_lifecycles n policy (On event h handler) =
     [\<lparr>lifeName = n @ ''.'' @ h, lifeEvent = event, lifeHandler = handler, lifePolicy = policy\<rparr>]"
| "call_lifecycles n policy _ = []"

fun call_rules :: "string \<Rightarrow> ('sel, 'obs, 'wrap, 'life) registration \<Rightarrow> ruleEntry list" where
  "call_rules n (Restrict (Some u)) = [\<lparr>rulePlugin = n, entryRule = u\<rparr>]"
| "call_rules n _ = []"

definition own_observers :: "('sel, 'obs, 'wrap, 'life) Plugin \<Rightarrow> ('sel, 'obs) observerEntry list" where
  "own_observers plg = concat (map (call_observers (own_name plg) (own_policy plg)) (plgCalls plg))"

definition own_wrappers :: "('sel, 'obs, 'wrap, 'life) Plugin \<Rightarrow> ('sel, 'wrap) wrapperEntry list" where
  "own_wrappers plg = concat (map (call_wrappers (own_name plg) (own_policy plg)) (plgCalls plg))"

definition own_lifecycles :: "('sel, 'obs, 'wrap, 'life) Plugin \<Rightarrow> 'life lifecycleEntry list" where
  "own_lifecycles plg = concat (map (call_lifecycles (own_name plg) (own_policy plg)) (plgCalls plg))"

definition own_rules :: "('sel, 'obs, 'wrap, 'life) Plugin \<Rightarrow> ruleEntry list" where
  "own_rules plg = concat (map (call_rules (own_name plg)) (plgCalls plg))"

lemmas own_defs = own_observers_def own_wrappers_def own_lifecycles_def own_rules_def

text \<open>A stage whose registrations reported no error holds one entry per call, in the order of the calls.\<close>

definition stage_gained ::
    "('sel, 'obs, 'wrap, 'life) stagingRegistrar \<Rightarrow> ('sel, 'obs, 'wrap, 'life) registration list \<Rightarrow> 
     ('sel, 'obs, 'wrap, 'life) stagingRegistrar \<Rightarrow> bool" where
  "stage_gained r cs r' =
     (stObservers r' = stObservers r @ concat (map (call_observers (stPlugin r) (stPolicy r)) cs) \<and>
      stWrappers r' = stWrappers r @ concat (map (call_wrappers (stPlugin r) (stPolicy r)) cs) \<and>
      stLifecycles r' = stLifecycles r @ concat (map (call_lifecycles (stPlugin r) (stPolicy r)) cs) \<and>
      stRules r' = stRules r @ concat (map (call_rules (stPlugin r)) cs))"

lemma Observe_gained:
  "\<not> frozen r \<Longrightarrow> stErrs (reg_Observe when h sel obs r) = [] \<Longrightarrow>
   stage_gained r [Observe when h sel obs] (reg_Observe when h sel obs r)"
  by (auto simp: reg_Observe_def validateHook_def Let_def stage_gained_def qualify_hook_def split: if_splits)

lemma Wrap_gained:
  "\<not> frozen r \<Longrightarrow> stErrs (reg_Wrap h sel wrap r) = [] \<Longrightarrow>
   stage_gained r [Wrap h sel wrap] (reg_Wrap h sel wrap r)"
  by (auto simp: reg_Wrap_def validateHook_def Let_def stage_gained_def qualify_hook_def split: if_splits)

lemma On_gained:
  "\<not> frozen r \<Longrightarrow> stErrs (reg_On event h handler r) = [] \<Longrightarrow>
   stage_gained r [On event h handler] (reg_On event h handler r)"
  by (auto simp: reg_On_def validateHook_def Let_def stage_gained_def qualify_hook_def split: if_splits)

lemma Restrict_gained:
  "\<not> frozen r \<Longrightarrow> stErrs (reg_Restrict rule r) = [] \<Longrightarrow> stage_gained r [Restrict rule] (reg_Restrict rule r)"
  unfolding reg_Restrict_def
  by (cases rule) (auto simp: stage_gained_def simp del: append_assoc split: if_splits option.splits)

lemma register_gained:
  "\<not> frozen r \<Longrightarrow> stErrs (register c r) = [] \<Longrightarrow> stage_gained r [c] (register c r)"
  by (cases c) (simp_all add: Observe_gained Wrap_gained On_gained Restrict_gained)

lemma run_gained:
  "\<not> frozen r \<Longrightarrow> stErrs (fold register cs r) = [] \<Longrightarrow> stage_gained r cs (fold register cs r)"
proof (induction cs arbitrary: r)
  case Nil
  then show ?case by (simp add: stage_gained_def)
next
  case (Cons c cs)
  have "stErrs (register c r) = []" using staging_errs.run_empty[of cs "register c r"] Cons.prems(2) by simp
  with Cons.prems register_gained[of r c] have "stage_gained r [c] (register c r)" by simp
  moreover have "stage_gained (register c r) cs (fold register cs (register c r))"
    using Cons.prems by (intro Cons.IH) (simp_all add: register_keeps)
  ultimately show ?case by (simp add: stage_gained_def register_keeps)
qed

text \<open>
  The runtime \<open>rt\<close> holds what the plugins \<open>plgs\<close> registered, neither more nor less, in their order; their
  \<open>Install\<close> returned nil, the rules are those of the restricting ones, and the diagnostics list them as active.
\<close>

definition contributed ::
    "('sel, 'obs, 'wrap, 'life) Plugin list \<Rightarrow> ('sel, 'obs, 'wrap, 'life) Runtime \<Rightarrow> bool" where
  "contributed plgs rt =
     (observers rt = concat (map own_observers plgs) \<and> wrappers rt = concat (map own_wrappers plgs) \<and>
      lifecycles rt = concat (map own_lifecycles plgs) \<and> rules rt = concat (map own_rules plgs) \<and>
      list_all (\<lambda>plg. plgOutcome plg = Returned None \<and> plgName plg = Returned (own_name plg)) plgs \<and>
      map pdName (filter (\<lambda>d. pdStatus d = ''active'') (pluginDiagnostics rt)) = map own_name plgs)"

lemma commit_contributed:
  assumes held: "contributed plgs rt" and inst: "was_committed labels version plg rt seen rt' seen'"
  shows "contributed (plgs @ [plg]) rt'"
proof -
  from inst obtain caps name pv st where
    known: "plgCapabilities plg = Returned caps" "plgName plg = Returned name" "plgOutcome plg = Returned None"
    and st: "st = freeze (fold register (plgCalls plg) (empty_stage name (capPolicy caps)))" "stErrs st = []"
    and rt': "rt' = commit labels name pv caps st rt" unfolding was_committed_def by blast
  have own: "own_name plg = name" "own_policy plg = capPolicy caps"
    using known by (simp_all add: own_name_def own_policy_def)
  have "stErrs (fold register (plgCalls plg) (empty_stage name (capPolicy caps))) = []"
    using st by (simp add: freeze_def)
  from run_gained[OF _ this]
  have "stObservers st = own_observers plg" "stWrappers st = own_wrappers plg"
    "stLifecycles st = own_lifecycles plg" "stRules st = own_rules plg"
    unfolding st(1) by (simp_all add: stage_gained_def empty_stage_def freeze_def own_defs own)
  with held known own show ?thesis
    unfolding rt' by (simp add: contributed_def commit_def activePluginDiagnostic_def)
qed

lemma skip_contributed: "contributed plgs rt \<Longrightarrow> was_skipped rt seen rt' seen' \<Longrightarrow> contributed plgs rt'"
  unfolding was_skipped_def contributed_def by auto

definition named :: "string list \<Rightarrow> ('sel, 'obs, 'wrap, 'life) Plugin list \<Rightarrow> bool" where
  "named seen plgs =
     (distinct (map own_name plgs) \<and> set (map own_name plgs) \<subseteq> set seen \<and>
      list_all registrationNamePattern (map own_name plgs))"

lemma commit_named:
  "named seen plgs \<Longrightarrow> was_committed labels version plg rt seen rt' seen' \<Longrightarrow> named seen' (plgs @ [plg])"
  unfolding was_committed_def named_def by (auto simp: own_name_def)

lemma skip_named: "named seen plgs \<Longrightarrow> was_skipped rt seen rt' seen' \<Longrightarrow> named seen' plgs"
  unfolding was_skipped_def named_def by auto

lemma install_loop_contributed:
  "install_loop sel version ps rt seen = Inr rt' \<Longrightarrow> contributed plgs rt \<Longrightarrow> named seen plgs \<Longrightarrow>
   \<exists>added seen'. subseq (map Some added) ps \<and> contributed (plgs @ added) rt' \<and> named seen' (plgs @ added)"
proof (induction ps arbitrary: rt seen plgs)
  case Nil
  then show ?case by (intro exI[of _ "[]"] exI[of _ seen]) simp
next
  case (Cons p ps)
  then obtain rt1 seen1 where one: "installOnePlugin sel version p rt seen = Inr (rt1, seen1)"
    and rest: "install_loop sel version ps rt1 seen1 = Inr rt'"
    by (auto split: sum.splits prod.splits)
  from installOnePlugin_cases[OF one] obtain plg where p: "p = Some plg" and
    either: "was_skipped rt seen rt1 seen1 \<or> was_committed sel version plg rt seen rt1 seen1" by blast
  from either show ?case
  proof
    assume s: "was_skipped rt seen rt1 seen1"
    from Cons.IH[OF rest skip_contributed[OF Cons.prems(2) s] skip_named[OF Cons.prems(3) s]]
    show ?thesis by (blast intro: list_emb_Cons)
  next
    assume c: "was_committed sel version plg rt seen rt1 seen1"
    from Cons.IH[OF rest commit_contributed[OF Cons.prems(2) c] commit_named[OF Cons.prems(3) c]]
    obtain added seen' where "subseq (map Some added) ps" "contributed ((plgs @ [plg]) @ added) rt'"
      "named seen' ((plgs @ [plg]) @ added)" by blast
    then have "subseq (map Some (plg # added)) (p # ps)" "contributed (plgs @ (plg # added)) rt'"
      "named seen' (plgs @ (plg # added))" by (simp_all add: p)
    then show ?thesis by blast
  qed
qed

lemma own_hooks:
  "n \<in> set (map obsName (own_observers plg)) \<union> set (map wrapName (own_wrappers plg)) \<union>
     set (map lifeName (own_lifecycles plg)) \<Longrightarrow> \<exists>h. n = own_name plg @ ''.'' @ h"
proof -
  have "e \<in> set (call_observers m policy c) \<Longrightarrow> \<exists>h. obsName e = m @ ''.'' @ h"
    "w \<in> set (call_wrappers m policy c) \<Longrightarrow> \<exists>h. wrapName w = m @ ''.'' @ h"
    "l \<in> set (call_lifecycles m policy c) \<Longrightarrow> \<exists>h. lifeName l = m @ ''.'' @ h" for e w l m policy c
    by (cases c; simp)+
  moreover assume "n \<in> set (map obsName (own_observers plg)) \<union> set (map wrapName (own_wrappers plg)) \<union>
     set (map lifeName (own_lifecycles plg))"
  ultimately show ?thesis by (fastforce simp: own_defs)
qed

lemma contributed_owned:
  assumes "contributed plgs rt" and "list_all registrationNamePattern (map own_name plgs)"
  shows "list_all (owned (map own_name plgs)) (runtime_hooks rt)"
  unfolding list_all_iff
proof
  fix n
  assume "n \<in> set (runtime_hooks rt)"
  with assms(1) obtain plg where plg: "plg \<in> set plgs" and
    "n \<in> set (map obsName (own_observers plg)) \<union> set (map wrapName (own_wrappers plg)) \<union>
     set (map lifeName (own_lifecycles plg))"
    by (auto simp: runtime_hooks_def contributed_def)
  from own_hooks[OF this(2)] obtain h where "n = own_name plg @ ''.'' @ h" ..
  moreover have "CHR ''.'' \<notin> set (own_name plg)" using assms(2) plg name_no_dot by (auto simp: list_all_iff)
  ultimately show "owned (map own_name plgs) n" using plg by (auto simp: owned_def)
qed

lemma installed_runtime:
  assumes "installPlugins sel version ps = Inr rt"
  shows "\<exists>plgs. subseq (map Some plgs) ps \<and> contributed plgs rt \<and> distinct (map own_name plgs) \<and>
    runtime_inv (map own_name plgs) rt"
proof -
  note loop = assms[unfolded installPlugins_def]
  have "runtime_inv [] (empty_runtime :: ('a, 'b, 'c, 'd) Runtime)"
    by (simp add: runtime_inv_def runtime_hooks_def hooks_ok_def rules_ok_def empty_runtime_def)
  with install_loop_inv[OF loop] obtain seen where inv: "runtime_inv seen rt" by blast
  have "contributed [] (empty_runtime :: ('a, 'b, 'c, 'd) Runtime)" "named [] ([] :: ('a, 'b, 'c, 'd) Plugin list)"
    by (simp_all add: contributed_def named_def empty_runtime_def)
  from install_loop_contributed[OF loop this] obtain plgs seen' where
    plgs: "subseq (map Some plgs) ps" "contributed plgs rt" "named seen' plgs" by auto
  with inv contributed_owned[OF plgs(2)] show ?thesis by (auto simp: runtime_inv_def named_def)
qed

lemma contributed_rules:
  "contributed plgs rt \<Longrightarrow> e \<in> set (rules rt) \<Longrightarrow>
   \<exists>plg \<in> set plgs. rulePlugin e = own_name plg \<and> Restrict (Some (entryRule e)) \<in> set (plgCalls plg)"
proof -
  assume "contributed plgs rt" "e \<in> set (rules rt)"
  then obtain plg c where "plg \<in> set plgs" "c \<in> set (plgCalls plg)" "e \<in> set (call_rules (own_name plg) c)"
    by (auto simp: contributed_def own_rules_def)
  moreover from this(3) have "c = Restrict (Some (entryRule e)) \<and> rulePlugin e = own_name plg"
    by (induction "own_name plg" c rule: call_rules.induct) auto
  ultimately show ?thesis by blast
qed

section \<open>Properties\<close>

text \<open>The rules of a restricting plugin stay in force; \<open>denial\<close> then refuses the command.\<close>

lemma restriction_kept:
  assumes "installPlugins sel version ps = Inr rt" and "Some plg \<in> set ps"
    and "plgCapabilities plg = Returned caps" and "Restricts caps"
    and "Restrict (Some u) \<in> set (plgCalls plg)" and "\<not> rule_permits u v"
  shows "denial (restrictor rt) (rules rt) v \<noteq> None"
proof -
  from install_loop_member[OF assms(1)[unfolded installPlugins_def] assms(2)] obtain rt1 seen1 rt2 seen2 where
    one: "installOnePlugin sel version (Some plg) rt1 seen1 = Inr (rt2, seen2)" and
    sub: "set (rules rt2) \<subseteq> set (rules rt)" by blast
  from installOnePlugin_cases[OF one] assms(3,4) have "was_committed sel version plg rt1 seen1 rt2 seen2"
    by auto
  from committed_rules[OF this assms(5)] sub have "\<exists>e \<in> set (rules rt). entryRule e = u" by blast
  with assms(6) show ?thesis by (auto simp: denial_None_iff)
qed

definition sample_plugin ::
    "string \<Rightarrow> bool \<Rightarrow> FailurePolicy \<Rightarrow> (unit, unit, unit, unit) registration list \<Rightarrow> (unit, unit, unit, unit) Plugin" where
  "sample_plugin name restricts policy calls =
     \<lparr>plgName = Returned name, plgVersion = Returned ''1.0.0'',
      plgCapabilities = Returned \<lparr>RequiredCLIVersion = [], Restricts = restricts, capPolicy = policy\<rparr>,
      plgCalls = calls, plgOutcome = Returned None, plgLateCalls = []\<rparr>"

definition sample_gov :: "(unit, unit, unit, unit) Plugin" where
  "sample_gov = sample_plugin ''gov'' True FailClosed [Restrict (Some (entryRule (sample_rule ''ro'' [] [] ''read'')))]"

definition sample_caps :: Capabilities where
  "sample_caps = \<lparr>RequiredCLIVersion = [], Restricts = True, capPolicy = FailClosed\<rparr>"

definition sample_plugins :: "(unit, unit, unit, unit) Plugin option list" where
  "sample_plugins =
     [Some sample_gov, Some (sample_plugin ''audit'' False FailOpen [Observe Before ''log'' (Some ()) (Some ())])]"

lemma sample_install_ok: "\<exists>rt. installPlugins (\<lambda>_. ''all'') ''1.2.0'' sample_plugins = Inr rt"
proof -
  have "isl (installPlugins (\<lambda>_. ''all'') ''1.2.0'' sample_plugins) = False" by code_simp
  then show ?thesis by (cases "installPlugins (\<lambda>_. ''all'') ''1.2.0'' sample_plugins") auto
qed

lemma sample_gov_facts:
  "Some sample_gov \<in> set sample_plugins" "plgCapabilities sample_gov = Returned sample_caps"
  "Restrict (Some (entryRule (sample_rule ''ro'' [] [] ''read''))) \<in> set (plgCalls sample_gov)"
  by (simp_all add: sample_plugins_def sample_gov_def sample_plugin_def sample_caps_def)

text \<open>
  C2.  Restriction rules cannot be lost: when the installation succeeds and a plugin that declares
  \<open>Restricts\<close> registered a rule, then every command this rule does not permit is denied, whatever the
  other plugins are, wherever they stand in the list and whatever they register.
\<close>

theorem installed_restriction_enforced:
  assumes "installPlugins sel version ps = Inr rt" and "Some plg \<in> set ps"
    and "plgCapabilities plg = Returned caps" and "Restricts caps"
    and "Restrict (Some u) \<in> set (plgCalls plg)" and "\<not> rule_permits u v"
  shows "denial (restrictor rt) (rules rt) v \<noteq> None"
  using assms by (rule restriction_kept)

theorem installed_restriction_enforced_witness:
  "\<exists>rt. installPlugins (\<lambda>_. ''all'') ''1.2.0'' sample_plugins = Inr rt \<and>
     denial (restrictor rt) (rules rt) (sample_view ''workitem/get'' ''write'') \<noteq> None"
proof -
  from sample_install_ok obtain rt where rt: "installPlugins (\<lambda>_. ''all'') ''1.2.0'' sample_plugins = Inr rt" ..
  have "\<not> rule_permits (entryRule (sample_rule ''ro'' [] [] ''read'')) (sample_view ''workitem/get'' ''write'')"
    by (simp add: sample_simps)
  with installed_restriction_enforced[OF rt sample_gov_facts(1,2) _ sample_gov_facts(3)] rt
  show ?thesis by (simp add: sample_caps_def)
qed

text \<open>
  C3.  After a successful installation the runtime holds exactly what the active plugins registered.  They
  are a subsequence of the plugins given, with distinct names, each with an \<open>Install\<close> that returned nil, and
  the diagnostics list them as active in that order.  The observers, wrappers, lifecycle handlers and rules
  are those of their registration calls, one entry per call, in order, nothing lost and nothing added: every
  hook is called \<open>name.hook\<close> with the name of the plugin that registered it and has that plugin's policy.
  Hook names are unique over all plugins and kinds, every hook has its selector, callback and a valid
  timing, every rule passed its validation, and all rules belong to the one restricting plugin.
\<close>

theorem installed_runtime_wellformed:
  assumes "installPlugins sel version ps = Inr rt"
  shows "\<exists>plgs. subseq (map Some plgs) ps \<and> contributed plgs rt \<and> distinct (map own_name plgs) \<and>
    runtime_inv (map own_name plgs) rt"
  using installed_runtime[OF assms] .

theorem installed_runtime_wellformed_witness:
  "\<exists>rt plgs. installPlugins (\<lambda>_. ''all'') ''1.2.0'' sample_plugins = Inr rt \<and>
     subseq (map Some plgs) sample_plugins \<and> contributed plgs rt \<and> runtime_inv (map own_name plgs) rt"
  using sample_install_ok installed_runtime_wellformed[of "\<lambda>_. ''all''" "''1.2.0''" sample_plugins] by blast

text \<open>
  A fail-closed plugin is never skipped: when the installation succeeds, its \<open>Install\<close> returned nil
  in time and the diagnostics list it as active.
\<close>

lemma fail_closed_plugin_active:
  assumes "installPlugins sel version ps = Inr rt" and "Some plg \<in> set ps"
    and "plgCapabilities plg = Returned caps" and "capPolicy caps = FailClosed"
  shows "plgOutcome plg = Returned None \<and>
    (\<exists>d name. plgName plg = Returned name \<and> d \<in> set (pluginDiagnostics rt) \<and> pdName d = name \<and>
       pdStatus d = ''active'' \<and> pdFailureStage d = [])"
proof -
  from install_loop_member[OF assms(1)[unfolded installPlugins_def] assms(2)] obtain rt1 seen1 rt2 seen2 where
    one: "installOnePlugin sel version (Some plg) rt1 seen1 = Inr (rt2, seen2)" and
    sub: "set (pluginDiagnostics rt2) \<subseteq> set (pluginDiagnostics rt)" by blast
  from installOnePlugin_cases[OF one] assms(3,4) have "was_committed sel version plg rt1 seen1 rt2 seen2"
    by auto
  from committed_active[OF this] sub show ?thesis by blast
qed

lemma fail_closed_plugin_active_witness:
  "\<exists>rt d. installPlugins (\<lambda>_. ''all'') ''1.2.0'' sample_plugins = Inr rt \<and>
     d \<in> set (pluginDiagnostics rt) \<and> pdName d = ''gov'' \<and> pdStatus d = ''active''"
proof -
  from sample_install_ok obtain rt where rt: "installPlugins (\<lambda>_. ''all'') ''1.2.0'' sample_plugins = Inr rt" ..
  have "plgName sample_gov = Returned ''gov''" by (simp add: sample_gov_def sample_plugin_def)
  with fail_closed_plugin_active[OF rt sample_gov_facts(1,2)] rt show ?thesis by (auto simp: sample_caps_def)
qed

text \<open>
  C4.  Installation is atomic per plugin: a plugin whose \<open>Install\<close> does not return nil can only be skipped
  when it is fail-open, and then contributes no hook and no rule and leaves the restrictor as it was,
  whatever it registered before it failed; what a late goroutine registers afterwards changes nothing.
\<close>

theorem installation_atomic:
  assumes "installOnePlugin sel version (Some plg) rt seen = Inr (rt', seen')"
    and "plgOutcome plg \<noteq> Returned None"
  shows "(\<exists>caps. plgCapabilities plg = Returned caps \<and> capPolicy caps = FailOpen) \<and>
     (\<exists>d. rt' = rt\<lparr>pluginDiagnostics := pluginDiagnostics rt @ [d]\<rparr> \<and> pdStatus d = ''skipped'') \<and>
     fold register (plgLateCalls plg) (freeze stage) = freeze stage"
proof -
  from installOnePlugin_cases[OF assms(1)] obtain caps where
    "plgCapabilities plg = Returned caps" "capPolicy caps = FailOpen" "was_skipped rt seen rt' seen'"
    using assms(2) by (auto simp: was_committed_def)
  then show ?thesis using staging_frozen.run_inv[OF refl] by (auto simp: was_skipped_def)
qed

theorem installation_atomic_witness:
  "\<exists>rt' d. installOnePlugin (\<lambda>_. ''all'') ''1.2.0''
      (Some (sample_plugin ''audit'' False FailOpen [Observe Before ''log'' (Some ()) (Some ())]
        \<lparr>plgOutcome := Panicked, plgLateCalls := [Restrict None]\<rparr>)) empty_runtime [] = Inr (rt', [''audit'']) \<and>
      pluginDiagnostics rt' = [d] \<and> pdStatus d = ''skipped'' \<and> observers rt' = []"
proof -
  let ?plg = "sample_plugin ''audit'' False FailOpen [Observe Before ''log'' (Some ()) (Some ())]
        \<lparr>plgOutcome := Panicked, plgLateCalls := [Restrict None]\<rparr>"
  let ?run = "installOnePlugin (\<lambda>_. ''all'') ''1.2.0'' (Some ?plg) empty_runtime []"
  have "(case ?run of Inr (_, seen) \<Rightarrow> seen = [''audit''] | Inl _ \<Rightarrow> False)" by code_simp
  then obtain rt' where run: "?run = Inr (rt', [''audit''])" by (auto split: sum.splits prod.splits)
  have "plgOutcome ?plg \<noteq> Returned None" by simp
  from installation_atomic[OF run this, of "empty_stage [] FailOpen"]
  have "\<exists>d. pluginDiagnostics rt' = [d] \<and> pdStatus d = ''skipped'' \<and> observers rt' = []"
    by (auto simp: empty_runtime_def)
  with run show ?thesis by blast
qed

end
