(* ===== verification/Platform_Builder.thy ===== *)
theory Platform_Builder
  imports Platform_Install
begin

text \<open>
  \<open>extension/platform/builder.go\<close>: the fluent builder plugins are written with, and the \<open>builtPlugin\<close>
  it returns.  A builder collects errors and reports them at \<open>Build\<close>; the plugin then replays its
  registrations on the registrar of \<open>Platform_Install\<close>.
\<close>

section \<open>The builder\<close>

datatype builder_error =
    BadPluginName string
  | BadPluginVersion string
  | BadHookName string
  | HookNameUsed string
  | ObserverSelectorNil string
  | ObserverNil string
  | WrapperSelectorNil string
  | WrapperNil string
  | HandlerNil string
  | RuleNil
  | BadRuleName string
  | BadRuleRisk string Risk
  | RestrictNeedsFailClosed

record ('sel, 'obs, 'wrap, 'life) Builder =
  blName :: string
  blVersion :: string
  blCaps :: Capabilities
  blActions :: "('sel, 'obs, 'wrap, 'life) registration list"
  blRules :: "Rule list"
  blHookNames :: "string list"
  blErrs :: "builder_error list"

text \<open>
  The version pattern \<open>^v?[0-9]+\.[0-9]+\.[0-9]+(?:-[0-9A-Za-z.-]+)?(?:\+[0-9A-Za-z.-]+)?$\<close>: none of
  its classes contains the character that ends them, so it is matched from left to right.
\<close>

definition is_version_char :: "char \<Rightarrow> bool" where
  "is_version_char c =
     (is_digit c \<or> is_lower c \<or> (CHR ''A'' \<le> c \<and> c \<le> CHR ''Z'') \<or> c = CHR ''.'' \<or> c = CHR ''-'')"

definition optional_part :: "char \<Rightarrow> string \<Rightarrow> string option" where
  "optional_part mark s =
     (case s of [] \<Rightarrow> Some []
      | c # cs \<Rightarrow>
          (if c \<noteq> mark then Some s
           else if takeWhile is_version_char cs = [] then None
           else Some (dropWhile is_version_char cs)))"

definition pluginVersionPattern :: "string \<Rightarrow> bool" where
  "pluginVersionPattern s =
     (let s0 = TrimPrefix s ''v'';
          a = takeWhile is_digit s0; s1 = dropWhile is_digit s0;
          b = takeWhile is_digit (tl s1); s2 = dropWhile is_digit (tl s1);
          c = takeWhile is_digit (tl s2); s3 = dropWhile is_digit (tl s2)
      in a \<noteq> [] \<and> HasPrefix s1 ''.'' \<and> b \<noteq> [] \<and> HasPrefix s2 ''.'' \<and> c \<noteq> [] \<and>
         (case optional_part CHR ''-'' s3 of None \<Rightarrow> False
          | Some s4 \<Rightarrow> optional_part CHR ''+'' s4 = Some []))"

definition NewPlugin :: "string \<Rightarrow> string \<Rightarrow> ('sel, 'obs, 'wrap, 'life) Builder" where
  "NewPlugin name version =
     \<lparr>blName = name, blVersion = version,
      blCaps = \<lparr>RequiredCLIVersion = [], Restricts = False, capPolicy = FailOpen\<rparr>,
      blActions = [], blRules = [], blHookNames = [],
      blErrs = (if registrationNamePattern name then [] else [BadPluginName name]) @
               (if pluginVersionPattern version then [] else [BadPluginVersion version])\<rparr>"

definition RequireCLI ::
    "string \<Rightarrow> ('sel, 'obs, 'wrap, 'life) Builder \<Rightarrow> ('sel, 'obs, 'wrap, 'life) Builder" where
  "RequireCLI constraint b = b\<lparr>blCaps := (blCaps b)\<lparr>RequiredCLIVersion := constraint\<rparr>\<rparr>"

definition set_policy ::
    "FailurePolicy \<Rightarrow> ('sel, 'obs, 'wrap, 'life) Builder \<Rightarrow> ('sel, 'obs, 'wrap, 'life) Builder" where
  "set_policy p b = b\<lparr>blCaps := (blCaps b)\<lparr>capPolicy := p\<rparr>\<rparr>"

definition validHookName ::
    "string \<Rightarrow> ('sel, 'obs, 'wrap, 'life) Builder \<Rightarrow> bool \<times> ('sel, 'obs, 'wrap, 'life) Builder" where
  "validHookName name b =
     (if \<not> registrationNamePattern name then (False, b\<lparr>blErrs := blErrs b @ [BadHookName name]\<rparr>)
      else if name \<in> set (blHookNames b) then (False, b\<lparr>blErrs := blErrs b @ [HookNameUsed name]\<rparr>)
      else (True, b\<lparr>blHookNames := name # blHookNames b\<rparr>))"

definition add_action ::
    "builder_error list \<Rightarrow> ('sel, 'obs, 'wrap, 'life) registration \<Rightarrow>
     ('sel, 'obs, 'wrap, 'life) Builder \<Rightarrow> ('sel, 'obs, 'wrap, 'life) Builder" where
  "add_action errs action b = b\<lparr>blErrs := blErrs b @ errs, blActions := blActions b @ [action]\<rparr>"

definition build_Observer ::
    "When \<Rightarrow> string \<Rightarrow> 'sel option \<Rightarrow> 'obs option \<Rightarrow>
     ('sel, 'obs, 'wrap, 'life) Builder \<Rightarrow> ('sel, 'obs, 'wrap, 'life) Builder" where
  "build_Observer when name sel obs b =
     (let (ok, b') = validHookName name b in
      if \<not> ok then b'
      else add_action ((if sel = None then [ObserverSelectorNil name] else []) @
                       (if obs = None then [ObserverNil name] else []))
             (Observe when name sel obs) b')"

definition build_Wrap ::
    "string \<Rightarrow> 'sel option \<Rightarrow> 'wrap option \<Rightarrow>
     ('sel, 'obs, 'wrap, 'life) Builder \<Rightarrow> ('sel, 'obs, 'wrap, 'life) Builder" where
  "build_Wrap name sel wrap b =
     (let (ok, b') = validHookName name b in
      if \<not> ok then b'
      else add_action ((if sel = None then [WrapperSelectorNil name] else []) @
                       (if wrap = None then [WrapperNil name] else []))
             (Wrap name sel wrap) b')"

definition build_On ::
    "LifecycleEvent \<Rightarrow> string \<Rightarrow> 'life option \<Rightarrow>
     ('sel, 'obs, 'wrap, 'life) Builder \<Rightarrow> ('sel, 'obs, 'wrap, 'life) Builder" where
  "build_On event name handler b =
     (let (ok, b') = validHookName name b in
      if \<not> ok then b'
      else add_action (if handler = None then [HandlerNil name] else []) (On event name handler) b')"

definition build_Restrict ::
    "Rule option \<Rightarrow> ('sel, 'obs, 'wrap, 'life) Builder \<Rightarrow> ('sel, 'obs, 'wrap, 'life) Builder" where
  "build_Restrict rule b =
     (case rule of
        None \<Rightarrow> b\<lparr>blErrs := blErrs b @ [RuleNil]\<rparr>
      | Some u \<Rightarrow>
          b\<lparr>blRules := blRules b @ [u],
            blErrs := blErrs b @
              (if registrationNamePattern (ruleName u) then [] else [BadRuleName (ruleName u)]) @
              (if MaxRisk u \<noteq> [] \<and> (case ParseRisk (MaxRisk u) of Inl _ \<Rightarrow> True | Inr _ \<Rightarrow> False)
               then [BadRuleRisk (ruleName u) (MaxRisk u)] else []),
            blCaps := (blCaps b)\<lparr>Restricts := True, capPolicy := FailClosed\<rparr>\<rparr>)"

datatype ('sel, 'obs, 'wrap, 'life) builder_call =
    CallRequireCLI string
  | CallFailOpen
  | CallFailClosed
  | CallRegister "('sel, 'obs, 'wrap, 'life) registration"

fun build_step ::
    "('sel, 'obs, 'wrap, 'life) builder_call \<Rightarrow> ('sel, 'obs, 'wrap, 'life) Builder \<Rightarrow>
     ('sel, 'obs, 'wrap, 'life) Builder" where
  "build_step (CallRequireCLI c) b = RequireCLI c b"
| "build_step CallFailOpen b = set_policy FailOpen b"
| "build_step CallFailClosed b = set_policy FailClosed b"
| "build_step (CallRegister (Observe when name sel obs)) b = build_Observer when name sel obs b"
| "build_step (CallRegister (Wrap name sel wrap)) b = build_Wrap name sel wrap b"
| "build_step (CallRegister (On event name handler)) b = build_On event name handler b"
| "build_step (CallRegister (Restrict rule)) b = build_Restrict rule b"

text \<open>The built plugin: its metadata methods return, and \<open>Install\<close> replays the rules, then the actions.\<close>

definition builtPlugin :: "('sel, 'obs, 'wrap, 'life) Builder \<Rightarrow> ('sel, 'obs, 'wrap, 'life) Plugin" where
  "builtPlugin b =
     \<lparr>plgName = Returned (blName b), plgVersion = Returned (blVersion b),
      plgCapabilities = Returned (blCaps b),
      plgCalls = map (\<lambda>u. Restrict (Some u)) (blRules b) @ blActions b,
      plgOutcome = Returned None, plgLateCalls = []\<rparr>"

definition Build ::
    "('sel, 'obs, 'wrap, 'life) Builder \<Rightarrow> (builder_error list, ('sel, 'obs, 'wrap, 'life) Plugin) result" where
  "Build b =
     (let errs = blErrs b @
            (if blRules b \<noteq> [] \<and> capPolicy (blCaps b) = FailOpen then [RestrictNeedsFailClosed] else [])
      in if errs \<noteq> [] then Inl errs else Inr (builtPlugin b))"

definition build_all ::
    "string \<Rightarrow> string \<Rightarrow> ('sel, 'obs, 'wrap, 'life) builder_call list \<Rightarrow>
     (builder_error list, ('sel, 'obs, 'wrap, 'life) Plugin) result" where
  "build_all name version calls = Build (fold build_step calls (NewPlugin name version))"

section \<open>Invariant of the builder\<close>

fun hook_of :: "('sel, 'obs, 'wrap, 'life) registration \<Rightarrow> string list" where
  "hook_of (Observe _ name _ _) = [name]"
| "hook_of (Wrap name _ _) = [name]"
| "hook_of (On _ name _) = [name]"
| "hook_of (Restrict _) = []"

fun action_ok :: "('sel, 'obs, 'wrap, 'life) registration \<Rightarrow> bool" where
  "action_ok (Observe _ name sel obs) = (registrationNamePattern name \<and> sel \<noteq> None \<and> obs \<noteq> None)"
| "action_ok (Wrap name sel wrap) = (registrationNamePattern name \<and> sel \<noteq> None \<and> wrap \<noteq> None)"
| "action_ok (On _ name handler) = (registrationNamePattern name \<and> handler \<noteq> None)"
| "action_ok (Restrict _) = False"

text \<open>What the builder leaves to the registrar: the timing, the event and the patterns of a rule.\<close>

fun late_checked :: "('sel, 'obs, 'wrap, 'life) registration \<Rightarrow> bool" where
  "late_checked (Observe when _ _ _) = (when = Before \<or> when = After)"
| "late_checked (Wrap _ _ _) = True"
| "late_checked (On event _ _) = (event = Startup \<or> event = Shutdown)"
| "late_checked (Restrict rule) = (case rule of None \<Rightarrow> False | Some u \<Rightarrow> list_all pattern_valid (Allow u @ Deny u))"

definition actions_ok :: "string list \<Rightarrow> ('sel, 'obs, 'wrap, 'life) registration list \<Rightarrow> bool" where
  "actions_ok used actions =
     (list_all action_ok actions \<and> distinct (concat (map hook_of actions)) \<and>
      set (concat (map hook_of actions)) \<subseteq> set used)"

definition rule_shape_ok :: "Rule \<Rightarrow> bool" where
  "rule_shape_ok u = (registrationNamePattern (ruleName u) \<and> (MaxRisk u = [] \<or> snd (Rank (MaxRisk u))))"

definition builder_inv :: "('sel, 'obs, 'wrap, 'life) Builder \<Rightarrow> bool" where
  "builder_inv b =
     ((blErrs b = [] \<longrightarrow> registrationNamePattern (blName b) \<and> actions_ok (blHookNames b) (blActions b) \<and>
         list_all rule_shape_ok (blRules b)) \<and>
      (Restricts (blCaps b) \<longleftrightarrow> blRules b \<noteq> []) \<and>
      capPolicy (blCaps b) \<in> {FailOpen, FailClosed})"

lemma actions_ok_snoc:
  "actions_ok used actions \<Longrightarrow> action_ok a \<Longrightarrow> hook_of a = [name] \<Longrightarrow> name \<notin> set used \<Longrightarrow>
   actions_ok (name # used) (actions @ [a])"
  by (auto simp: actions_ok_def)

lemmas builder_defs = RequireCLI_def set_policy_def validHookName_def add_action_def build_Observer_def
  build_Wrap_def build_On_def build_Restrict_def

lemma NewPlugin_inv: "builder_inv (NewPlugin name version)"
  by (simp add: builder_inv_def NewPlugin_def actions_ok_def)

lemma build_register_inv:
  assumes "builder_inv b" shows "builder_inv (build_step (CallRegister r) b)"
proof (cases r)
  case (Restrict rule)
  with assms show ?thesis
    by (cases rule) (auto simp: builder_defs builder_inv_def rule_shape_ok_def ParseRisk_def split: if_splits)
qed (use assms in \<open>auto simp: builder_defs builder_inv_def Let_def intro!: actions_ok_snoc\<close>)

interpretation building: preserving build_step builder_inv
proof
  fix b :: "('sel, 'obs, 'wrap, 'life) Builder" and c
  assume inv: "builder_inv b"
  show "builder_inv (build_step c b)"
  proof (cases c)
    case (CallRegister r)
    with build_register_inv[OF inv] show ?thesis by simp
  qed (use inv in \<open>simp_all add: builder_defs builder_inv_def\<close>)
qed

lemma build_all_inv:
  assumes "build_all name version calls = Inr p"
  obtains b where "p = builtPlugin b" "builder_inv b" "blErrs b = []"
    "blRules b \<noteq> [] \<longrightarrow> capPolicy (blCaps b) = FailClosed"
proof -
  let ?b = "fold build_step calls (NewPlugin name version)"
  have inv: "builder_inv ?b" by (rule building.run_inv) (rule NewPlugin_inv)
  from assms have "p = builtPlugin ?b" "blErrs ?b = []" "\<not> (blRules ?b \<noteq> [] \<and> capPolicy (blCaps ?b) = FailOpen)"
    by (auto simp: build_all_def Build_def Let_def split: if_splits)
  with inv that[of ?b] show ?thesis by (auto simp: builder_inv_def)
qed

section \<open>A built plugin on the registrar\<close>

lemma build_step_keeps: "blName (build_step c b) = blName b \<and> blVersion (build_step c b) = blVersion b"
proof (cases c)
  case (CallRegister r)
  then show ?thesis by (cases r) (auto simp: builder_defs Let_def split: option.splits)
qed (simp_all add: builder_defs)

lemma build_run_keeps:
  "blName (fold build_step cs b) = blName b \<and> blVersion (fold build_step cs b) = blVersion b"
  by (induction cs arbitrary: b) (simp_all add: build_step_keeps)

lemma register_clean:
  assumes "\<not> frozen r" and "action_ok a" and "late_checked a" and "set (hook_of a) \<inter> set (stHookNames r) = {}"
  shows "stErrs (register a r) = stErrs r \<and> stRules (register a r) = stRules r \<and>
    stHookNames (register a r) = hook_of a @ stHookNames r"
  using assms by (cases a) (auto simp: registration_defs)

lemma run_actions_clean:
  "\<not> frozen r \<Longrightarrow> list_all action_ok as \<Longrightarrow> list_all late_checked as \<Longrightarrow> distinct (concat (map hook_of as)) \<Longrightarrow>
   set (concat (map hook_of as)) \<inter> set (stHookNames r) = {} \<Longrightarrow>
   stErrs (fold register as r) = stErrs r \<and> stRules (fold register as r) = stRules r"
proof (induction as arbitrary: r)
  case (Cons a as)
  then have "stErrs (register a r) = stErrs r \<and> stRules (register a r) = stRules r \<and>
      stHookNames (register a r) = hook_of a @ stHookNames r"
    by (intro register_clean) auto
  moreover have "\<not> frozen (register a r)" using Cons.prems(1) register_keeps by metis
  ultimately show ?case using Cons.IH[of "register a r"] Cons.prems by auto
qed simp

lemma Restrict_clean:
  assumes "\<not> frozen r" "rule_shape_ok u" "list_all pattern_valid (Allow u @ Deny u)"
  shows "register (Restrict (Some u)) r = r\<lparr>stRules := stRules r @ [\<lparr>rulePlugin = stPlugin r, entryRule = u\<rparr>]\<rparr>"
proof -
  have "find (\<lambda>p. \<not> pattern_valid p) (Allow u @ Deny u) = None"
    using assms(3) by (auto simp: find_None_iff list_all_iff)
  with assms(1,2) show ?thesis by (auto simp: reg_Restrict_def rule_shape_ok_def ParseRisk_def)
qed

lemma run_rules_clean:
  "\<not> frozen r \<Longrightarrow> list_all rule_shape_ok us \<Longrightarrow> list_all late_checked (map (\<lambda>u. Restrict (Some u)) us) \<Longrightarrow>
   fold register (map (\<lambda>u. Restrict (Some u)) us) r =
   r\<lparr>stRules := stRules r @ map (\<lambda>u. \<lparr>rulePlugin = stPlugin r, entryRule = u\<rparr>) us\<rparr>"
proof (induction us arbitrary: r)
  case (Cons u us)
  then have "register (Restrict (Some u)) r = r\<lparr>stRules := stRules r @ [\<lparr>rulePlugin = stPlugin r, entryRule = u\<rparr>]\<rparr>"
    by (intro Restrict_clean) simp_all
  with Cons show ?case by simp
qed simp

lemma built_run_clean:
  fixes b :: "('sel, 'obs, 'wrap, 'life) Builder"
  assumes "builder_inv b" and "blErrs b = []" and "list_all late_checked (plgCalls (builtPlugin b))"
  shows "stErrs (fold register (plgCalls (builtPlugin b)) (empty_stage name policy)) = [] \<and>
    map entryRule (stRules (fold register (plgCalls (builtPlugin b)) (empty_stage name policy))) = blRules b"
proof -
  let ?stage = "empty_stage name policy :: ('sel, 'obs, 'wrap, 'life) stagingRegistrar"
  let ?r = "?stage\<lparr>stRules := map (\<lambda>u. \<lparr>rulePlugin = name, entryRule = u\<rparr>) (blRules b)\<rparr>"
  have ok: "list_all rule_shape_ok (blRules b)" "actions_ok (blHookNames b) (blActions b)"
    using assms(1,2) by (simp_all add: builder_inv_def)
  have late: "list_all late_checked (map (\<lambda>u. Restrict (Some u) :: ('sel, 'obs, 'wrap, 'life) registration) (blRules b))"
    "list_all late_checked (blActions b)"
    using assms(3) by (simp_all add: builtPlugin_def)
  have "fold register (map (\<lambda>u. Restrict (Some u)) (blRules b)) ?stage = ?r"
    using run_rules_clean[of ?stage, OF _ ok(1) late(1)] by (simp add: empty_stage_def)
  moreover have "stErrs (fold register (blActions b) ?r) = stErrs ?r \<and> stRules (fold register (blActions b) ?r) = stRules ?r"
    using ok(2) late(2) by (intro run_actions_clean) (auto simp: actions_ok_def empty_stage_def)
  ultimately show ?thesis by (simp add: builtPlugin_def empty_stage_def comp_def)
qed

section \<open>Properties\<close>

text \<open>
  A plugin the builder accepts passes every check of the installer that concerns the plugin itself:
  if its timings, events and path patterns are valid, its version parses and it accepts the version of
  the CLI, then it is committed, unless its name is taken or another plugin already restricts.
\<close>

lemma built_plugin_installs:
  assumes "build_all name version calls = Inr p" and "list_all late_checked (plgCalls p)"
    and "parseSemanticVersion version = Inr sv" and "plgCapabilities p = Returned caps"
    and "checkCLIVersion (RequiredCLIVersion caps) cli = None" and "name \<notin> set seen"
    and "Restricts caps \<longrightarrow> restrictor rt = []"
  shows "\<exists>stage. installOnePlugin labels cli (Some p) rt seen =
      Inr (commit labels name version caps stage rt, name # seen) \<and>
    map (\<lambda>e. Restrict (Some (entryRule e))) (stRules stage) = filter (\<lambda>c. hook_of c = []) (plgCalls p)"
proof -
  obtain b where p: "p = builtPlugin b" and inv: "builder_inv b" "blErrs b = []"
    and closed: "blRules b \<noteq> [] \<longrightarrow> capPolicy (blCaps b) = FailClosed"
    and nv: "blName b = name" "blVersion b = version"
  proof -
    let ?b = "fold build_step calls (NewPlugin name version)"
    have "builder_inv ?b" by (rule building.run_inv) (rule NewPlugin_inv)
    moreover have "p = builtPlugin ?b" "blErrs ?b = []" "\<not> (blRules ?b \<noteq> [] \<and> capPolicy (blCaps ?b) = FailOpen)"
      using assms(1) by (auto simp: build_all_def Build_def Let_def split: if_splits)
    moreover have "blName ?b = name" "blVersion ?b = version"
      using build_run_keeps[of calls "NewPlugin name version"] by (simp_all add: NewPlugin_def)
    ultimately show thesis using that[of ?b] by (auto simp: builder_inv_def)
  qed
  have caps: "caps = blCaps b" using assms(4) by (simp add: p builtPlugin_def)
  let ?st = "fold register (plgCalls p) (empty_stage name (capPolicy caps))"
  have clean: "stErrs ?st = []" "map entryRule (stRules ?st) = blRules b"
    using built_run_clean[OF inv, of name "capPolicy caps"] assms(2) by (simp_all add: p)
  have rules: "stRules ?st \<noteq> [] \<longleftrightarrow> Restricts caps"
    using clean(2) inv(1) by (auto simp: builder_inv_def caps)
  have verdict: "install_verdict name caps (restrictor rt) None (freeze ?st) = None"
    using clean(1) rules assms(7) by (auto simp: install_verdict_def freeze_def)
  have meta: "plgName p = Returned name" "plgVersion p = Returned version" "plgOutcome p = Returned None"
    "registrationNamePattern name" "capPolicy caps \<in> {FailOpen, FailClosed}"
    using inv nv by (auto simp: p builtPlugin_def builder_inv_def caps)
  have restricts: "\<not> (Restricts caps \<and> capPolicy caps = FailOpen)"
    using inv(1) closed by (auto simp: builder_inv_def caps)
  have "installOnePlugin labels cli (Some p) rt seen =
      install_named labels cli p caps name version rt seen"
    using assms(4) meta restricts
    by (cases "capPolicy caps") (auto simp: installOnePlugin_def callPluginMetadataBounded_def)
  also have "\<dots> = Inr (commit labels name version caps (freeze ?st) rt, name # seen)"
    using meta assms(3,5,6) verdict by (simp add: install_named_def installPluginBounded_def)
  finally have run: "installOnePlugin labels cli (Some p) rt seen =
      Inr (commit labels name version caps (freeze ?st) rt, name # seen)" .
  have acts: "list_all action_ok (blActions b)" using inv by (simp add: builder_inv_def actions_ok_def)
  have "filter (\<lambda>c. hook_of c = []) (blActions b) = []"
    using acts by (auto simp: filter_empty_conv list_all_iff elim!: hook_of.elims)
  then have "filter (\<lambda>c. hook_of c = []) (plgCalls p) = map (\<lambda>u. Restrict (Some u)) (blRules b)"
    by (simp add: p builtPlugin_def filter_map comp_def)
  also have "\<dots> = map (\<lambda>e. Restrict (Some (entryRule e))) (stRules (freeze ?st))"
    unfolding clean(2)[symmetric] by (simp add: freeze_def)
  finally show ?thesis using run by (intro exI[of _ "freeze ?st"]) simp
qed

definition sample_calls :: "(unit, unit, unit, unit) builder_call list" where
  "sample_calls =
     [CallRequireCLI ''>=1.0.0'', CallRegister (Observe After ''log'' (Some ()) (Some ())),
      CallRegister (Restrict (Some (entryRule (sample_rule ''ro'' [''workitem/*''] [] ''read''))))]"

lemma built_plugin_installs_witness:
  "\<exists>p stage. build_all ''gov'' ''v1.0.0'' sample_calls = Inr p \<and>
     installOnePlugin (\<lambda>_. ''all'') ''1.2.0'' (Some p) empty_runtime [] =
       Inr (commit (\<lambda>_. ''all'') ''gov'' ''v1.0.0''
              \<lparr>RequiredCLIVersion = ''>=1.0.0'', Restricts = True, capPolicy = FailClosed\<rparr> stage empty_runtime, [''gov''])"
proof -
  let ?caps = "\<lparr>RequiredCLIVersion = ''>=1.0.0'', Restricts = True, capPolicy = FailClosed\<rparr>"
  have "(case build_all ''gov'' ''v1.0.0'' sample_calls of Inl _ \<Rightarrow> False
      | Inr p \<Rightarrow> list_all late_checked (plgCalls p) \<and> (case plgCapabilities p of Returned c \<Rightarrow> c = ?caps | _ \<Rightarrow> False))"
    by code_simp
  then obtain p where p: "build_all ''gov'' ''v1.0.0'' sample_calls = Inr p" "list_all late_checked (plgCalls p)"
    "plgCapabilities p = Returned ?caps" by (auto split: sum.splits plugin_callback.splits)
  have "isl (parseSemanticVersion ''v1.0.0'') = False" by code_simp
  then obtain sv where sv: "parseSemanticVersion ''v1.0.0'' = Inr sv" by (cases "parseSemanticVersion ''v1.0.0''") auto
  have cli: "checkCLIVersion (RequiredCLIVersion ?caps) ''1.2.0'' = None" by code_simp
  from built_plugin_installs[OF p(1,2) sv p(3) cli, of "[]" empty_runtime "\<lambda>_. ''all''"] p(1)
  show ?thesis by (auto simp: empty_runtime_def)
qed

end
