(* ===== verification/Platform_Runtime.thy ===== *)
theory Platform_Runtime
  imports Platform_Install
begin

text \<open>
  \<open>internal/extension/platform/runtime.go\<close>: one command invocation under the installed hooks, and
  \<open>pkg/framework/errors/safe.go\<close>, by which errors of third-party callbacks are inspected.

  Hooks are third-party code and are given by their behaviour: a selector returns or panics on a
  command, an observer returns or panics, and a wrapper is the program of its calls: it may call
  \<open>next\<close> any number of times, while it builds its handler and while the handler runs, and it decides
  on the error \<open>next\<close> returned.  An invocation yields its result and the trace of what happened.
  Calls of \<open>next\<close> from other goroutines are the subject of \<open>Platform_Tracker\<close>.

  Go compares errors by identity.  Errors that third-party code creates carry an identity here; those
  the runtime creates within one invocation differ in their values already.
\<close>

section \<open>Errors\<close>

datatype error =
    Opaque nat
  | Wrapped nat error
  | Joined nat "error list"
  | Malicious nat
  | Abort nat string string "error option"
  | NilAbort
  | Denied nat CommandDeniedError
  | NilDenied
  | Errorf string
  | Guarded error
  | RecoveredPanic error
  | CommandPanicked string error
  | RuntimeFailure string string error
  | SafeDelegated error error

datatype panic_value = PanicError error | PanicOther string

definition GuardCause :: "error \<Rightarrow> error" where
  "GuardCause cause = (case cause of Guarded _ \<Rightarrow> cause | _ \<Rightarrow> Guarded cause)"

definition panicCause :: "panic_value \<Rightarrow> error" where
  "panicCause v = (case v of PanicError e \<Rightarrow> RecoveredPanic e | PanicOther s \<Rightarrow> Errorf s)"

text \<open>
  \<open>errors.Is\<close> and \<open>errors.As\<close> walk the chain of causes; \<open>None\<close> is a panic of a method of an error on
  the way, which \<open>SafeIs\<close> and \<open>SafeAs\<close> take for no match.  The causes of the runtime's own errors
  are guarded, so the walk below them is a safe one.
\<close>

fun err_is :: "error \<Rightarrow> error \<Rightarrow> bool option" and err_is_any :: "error list \<Rightarrow> error \<Rightarrow> bool option" where
  "err_is (Opaque n) t = Some (Opaque n = t)"
| "err_is (Wrapped n c) t = (if Wrapped n c = t then Some True else err_is c t)"
| "err_is (Joined n cs) t = (if Joined n cs = t then Some True else err_is_any cs t)"
| "err_is (Malicious n) t = (if Malicious n = t then Some True else None)"
| "err_is (Abort n h r c) t =
     (if Abort n h r c = t then Some True else case c of None \<Rightarrow> Some False | Some e \<Rightarrow> err_is e t)"
| "err_is NilAbort t = Some (NilAbort = t)"
| "err_is (Denied n d) t = Some (Denied n d = t)"
| "err_is NilDenied t = Some (NilDenied = t)"
| "err_is (Errorf s) t = Some (Errorf s = t)"
| "err_is (Guarded c) t = Some (Guarded c = t \<or> err_is c t = Some True)"
| "err_is (RecoveredPanic c) t = Some (RecoveredPanic c = t \<or> err_is c t = Some True)"
| "err_is (CommandPanicked p c) t = (if CommandPanicked p c = t then Some True else err_is c t)"
| "err_is (RuntimeFailure h s c) t = Some (RuntimeFailure h s c = t \<or> err_is c t = Some True)"
| "err_is (SafeDelegated p c) t = Some (SafeDelegated p c = t \<or> err_is c t = Some True)"
| "err_is_any [] t = Some False"
| "err_is_any (e # es) t =
     (case err_is e t of None \<Rightarrow> None | Some True \<Rightarrow> Some True | Some False \<Rightarrow> err_is_any es t)"

definition SafeIs :: "error \<Rightarrow> error \<Rightarrow> bool" where
  "SafeIs e t = (err_is e t = Some True)"

definition found :: "error option option \<Rightarrow> error option" where
  "found r = (case r of Some (Some e) \<Rightarrow> Some e | _ \<Rightarrow> None)"

fun err_as :: "(error \<Rightarrow> bool) \<Rightarrow> error \<Rightarrow> error option option"
  and err_as_any :: "(error \<Rightarrow> bool) \<Rightarrow> error list \<Rightarrow> error option option" where
  "err_as p (Wrapped n c) = (if p (Wrapped n c) then Some (Some (Wrapped n c)) else err_as p c)"
| "err_as p (Joined n cs) = (if p (Joined n cs) then Some (Some (Joined n cs)) else err_as_any p cs)"
| "err_as p (Malicious n) = (if p (Malicious n) then Some (Some (Malicious n)) else None)"
| "err_as p (Abort n h r c) =
     (if p (Abort n h r c) then Some (Some (Abort n h r c))
      else case c of None \<Rightarrow> Some None | Some e \<Rightarrow> err_as p e)"
| "err_as p (Guarded c) = (if p (Guarded c) then Some (Some (Guarded c)) else Some (found (err_as p c)))"
| "err_as p (RecoveredPanic c) =
     (if p (RecoveredPanic c) then Some (Some (RecoveredPanic c)) else Some (found (err_as p c)))"
| "err_as p (CommandPanicked q c) =
     (if p (CommandPanicked q c) then Some (Some (CommandPanicked q c)) else err_as p c)"
| "err_as p (RuntimeFailure h s c) =
     (if p (RuntimeFailure h s c) then Some (Some (RuntimeFailure h s c)) else Some (found (err_as p c)))"
| "err_as p (SafeDelegated q c) =
     (if p (SafeDelegated q c) then Some (Some (SafeDelegated q c)) else Some (found (err_as p c)))"
| "err_as p (Opaque n) = Some (if p (Opaque n) then Some (Opaque n) else None)"
| "err_as p NilAbort = Some (if p NilAbort then Some NilAbort else None)"
| "err_as p (Denied n d) = Some (if p (Denied n d) then Some (Denied n d) else None)"
| "err_as p NilDenied = Some (if p NilDenied then Some NilDenied else None)"
| "err_as p (Errorf s) = Some (if p (Errorf s) then Some (Errorf s) else None)"
| "err_as_any p [] = Some None"
| "err_as_any p (e # es) =
     (case err_as p e of None \<Rightarrow> None | Some (Some x) \<Rightarrow> Some (Some x) | Some None \<Rightarrow> err_as_any p es)"

definition SafeAs :: "(error \<Rightarrow> bool) \<Rightarrow> error \<Rightarrow> error option" where
  "SafeAs p e = found (err_as p e)"

definition is_abort :: "error \<Rightarrow> bool" where
  "is_abort e = (case e of Abort _ _ _ _ \<Rightarrow> True | NilAbort \<Rightarrow> True | _ \<Rightarrow> False)"

definition is_denied :: "error \<Rightarrow> bool" where
  "is_denied e = (case e of Denied _ _ \<Rightarrow> True | NilDenied \<Rightarrow> True | _ \<Rightarrow> False)"

definition is_runtime :: "error \<Rightarrow> bool" where
  "is_runtime e = (case e of RuntimeFailure _ _ _ \<Rightarrow> True | _ \<Rightarrow> False)"

text \<open>The error whose message and payload a user sees: \<open>safeDelegatedError\<close> shows its public part.\<close>

fun public_error :: "error \<Rightarrow> error" where
  "public_error (SafeDelegated p c) = public_error p"
| "public_error e = e"

section \<open>Hook behaviours\<close>

datatype selector_outcome = Selects bool | SelectorPanics panic_value
type_synonym selector_code = "CommandView \<Rightarrow> selector_outcome"

datatype observer_code = ObserverReturns | ObserverPanics panic_value

datatype wrapper_handler =
    HandlerReturns "error option"
  | HandlerPanics panic_value
  | HandlerNext "error option \<Rightarrow> wrapper_handler"

datatype wrapper_code =
    FactoryReturns "wrapper_handler option"
  | FactoryPanics panic_value
  | FactoryNext "error option \<Rightarrow> wrapper_code"

datatype lifecycle_code = LifecycleReturns "error option" | LifecyclePanics panic_value | LifecycleHangs

type_synonym runtime = "(selector_code, observer_code, wrapper_code, lifecycle_code) Runtime"
type_synonym observer_entry = "(selector_code, observer_code) observerEntry"
type_synonym wrapper_entry = "(selector_code, wrapper_code) wrapperEntry"

datatype command_code = CommandReturns "error option" | CommandPanics panic_value

datatype event =
    ObserverRan string When "error option" bool
  | HookSkipped string error
  | CommandRan

type_synonym trace = "event list"
type_synonym handler = "trace \<Rightarrow> error option \<times> trace"

section \<open>Selectors and observers\<close>

definition callSelector :: "string \<Rightarrow> selector_code option \<Rightarrow> CommandView \<Rightarrow> (error, bool) result" where
  "callSelector name selector view =
     (case selector of
        None \<Rightarrow> Inl (RuntimeFailure name ''selector'' (Errorf ''selector is nil''))
      | Some s \<Rightarrow>
          (case s view of
             Selects b \<Rightarrow> Inr b
           | SelectorPanics v \<Rightarrow> Inl (RuntimeFailure name ''selector'' (panicCause v))))"

text \<open>The invocation as hooks see it: the error so far and whether policy denied the command.\<close>

record invocation =
  invErr :: "error option"
  invDenied :: bool

definition callObserver :: "observer_entry \<Rightarrow> invocation \<Rightarrow> trace \<Rightarrow> error option \<times> trace" where
  "callObserver entry ivc tr =
     (case obsCallback entry of
        None \<Rightarrow> (Some (RuntimeFailure (obsName entry) ''observer'' (Errorf ''observer callback is nil'')), tr)
      | Some code \<Rightarrow>
          (let tr' = tr @ [ObserverRan (obsName entry) (obsWhen entry) (invErr ivc) (invDenied ivc)] in
           case code of
             ObserverReturns \<Rightarrow> (None, tr')
           | ObserverPanics v \<Rightarrow>
               (Some (RuntimeFailure (obsName entry) ''observer'' (panicCause v)), tr')))"

fun runObservers ::
    "observer_entry list \<Rightarrow> When \<Rightarrow> CommandView \<Rightarrow> invocation \<Rightarrow> trace \<Rightarrow> error option \<times> trace" where
  "runObservers [] when view ivc tr = (None, tr)"
| "runObservers (entry # rest) when view ivc tr =
     (if obsWhen entry \<noteq> when then runObservers rest when view ivc tr
      else (case callSelector (obsName entry) (obsSelector entry) view of
          Inl e \<Rightarrow>
            (if obsPolicy entry = FailOpen
             then runObservers rest when view ivc (tr @ [HookSkipped (obsName entry) e])
             else (Some e, tr))
        | Inr matched \<Rightarrow>
            (if \<not> matched then runObservers rest when view ivc tr
             else (case callObserver entry ivc tr of
                 (None, tr') \<Rightarrow> runObservers rest when view ivc tr'
               | (Some e, tr') \<Rightarrow>
                   (if obsPolicy entry = FailOpen
                    then runObservers rest when view ivc (tr' @ [HookSkipped (obsName entry) e])
                    else (Some e, tr'))))))"

section \<open>Wrappers\<close>

record tracker =
  called :: bool
  errs :: "error list"
  violation :: "error option"

definition new_tracker :: tracker where
  "new_tracker = \<lparr>called = False, errs = [], violation = None\<rparr>"

definition next_violation :: "string \<Rightarrow> error" where
  "next_violation hook =
     RuntimeFailure hook ''wrapper'' (Errorf ''wrapper next must be called synchronously at most once'')"

definition next_missing :: "string \<Rightarrow> error" where
  "next_missing hook =
     RuntimeFailure hook ''wrapper'' (Errorf ''wrapper next must be called synchronously before returning success'')"

definition tracker_call ::
    "string \<Rightarrow> handler \<Rightarrow> tracker \<Rightarrow> trace \<Rightarrow> error option \<times> tracker \<times> trace" where
  "tracker_call hook next t tr =
     (if called t
      then (Some (next_violation hook),
            (if violation t = None then t\<lparr>violation := Some (next_violation hook)\<rparr> else t), tr)
      else (let (e, tr') = next tr in
        (e, t\<lparr>called := True, errs := errs t @ (case e of None \<Rightarrow> [] | Some x \<Rightarrow> [x])\<rparr>, tr')))"

definition closeAndWait :: "string \<Rightarrow> tracker \<Rightarrow> error option" where
  "closeAndWait hook t =
     (if violation t \<noteq> None then violation t
      else if \<not> called t then Some (next_missing hook)
      else (case errs t of [] \<Rightarrow> None | e # _ \<Rightarrow> Some e))"

definition matching :: "tracker \<Rightarrow> error \<Rightarrow> error option" where
  "matching t e = find (SafeIs e) (errs t)"

primrec callWrapperHandler ::
    "string \<Rightarrow> handler \<Rightarrow> wrapper_handler \<Rightarrow> tracker \<Rightarrow> trace \<Rightarrow> error option \<times> tracker \<times> trace" where
  "callWrapperHandler hook next (HandlerReturns e) = (\<lambda>t tr. (e, t, tr))"
| "callWrapperHandler hook next (HandlerPanics v) =
     (\<lambda>t tr. (Some (RuntimeFailure hook ''wrapper'' (panicCause v)), t, tr))"
| "callWrapperHandler hook next (HandlerNext k) =
     (\<lambda>t tr. let r = tracker_call hook next t tr in
        callWrapperHandler hook next (k (fst r)) (fst (snd r)) (snd (snd r)))"

primrec callWrapperFactory ::
    "string \<Rightarrow> handler \<Rightarrow> wrapper_code \<Rightarrow> tracker \<Rightarrow> trace \<Rightarrow>
     (error, wrapper_handler) result \<times> tracker \<times> trace" where
  "callWrapperFactory hook next (FactoryReturns h) =
     (\<lambda>t tr. ((case h of
        None \<Rightarrow> Inl (RuntimeFailure hook ''wrapper'' (Errorf ''wrapper factory returned nil''))
      | Some w \<Rightarrow> Inr w), t, tr))"
| "callWrapperFactory hook next (FactoryPanics v) =
     (\<lambda>t tr. (Inl (RuntimeFailure hook ''wrapper'' (panicCause v)), t, tr))"
| "callWrapperFactory hook next (FactoryNext k) =
     (\<lambda>t tr. let r = tracker_call hook next t tr in
        callWrapperFactory hook next (k (fst r)) (fst (snd r)) (snd (snd r)))"

text \<open>What a wrapper's non-nil error becomes at the boundary.\<close>

definition classify :: "string \<Rightarrow> tracker \<Rightarrow> error \<Rightarrow> error" where
  "classify hook t e =
     (case matching t e of
        Some d \<Rightarrow> SafeDelegated d e
      | None \<Rightarrow>
          (let a = SafeAs is_abort e; d = SafeAs is_denied e; r = SafeAs is_runtime e in
           if a \<noteq> None \<and> a \<noteq> Some NilAbort then SafeDelegated (the a) e
           else if d \<noteq> None \<and> d \<noteq> Some NilDenied then SafeDelegated (the d) e
           else if r \<noteq> None then SafeDelegated (the r) e
           else RuntimeFailure hook ''wrapper'' e))"

definition wrapped_handler :: "string \<Rightarrow> wrapper_code \<Rightarrow> handler \<Rightarrow> handler" where
  "wrapped_handler hook code next tr =
     (let (built, t, tr1) = callWrapperFactory hook next code new_tracker tr in
      case built of
        Inl e \<Rightarrow> (Some e, tr1)
      | Inr w \<Rightarrow>
          (let (callErr, t2, tr2) = callWrapperHandler hook next w t tr1 in
           ((case callErr of None \<Rightarrow> closeAndWait hook t2 | Some e \<Rightarrow> Some (classify hook t2 e)), tr2)))"

definition buildWrapper :: "wrapper_entry \<Rightarrow> handler \<Rightarrow> (error, handler) result" where
  "buildWrapper entry next =
     (case wrapCallback entry of
        None \<Rightarrow> Inl (RuntimeFailure (wrapName entry) ''wrapper'' (Errorf ''wrapper factory is nil''))
      | Some code \<Rightarrow> Inr (wrapped_handler (wrapName entry) code next))"

text \<open>The loop over the wrappers from the last to the first; the list is given reversed.\<close>

fun build_chain ::
    "wrapper_entry list \<Rightarrow> CommandView \<Rightarrow> handler \<Rightarrow> trace \<Rightarrow> (error, handler) result \<times> trace" where
  "build_chain [] view h tr = (Inr h, tr)"
| "build_chain (entry # rest) view h tr =
     (case callSelector (wrapName entry) (wrapSelector entry) view of
        Inl e \<Rightarrow>
          (if wrapPolicy entry = FailOpen
           then build_chain rest view h (tr @ [HookSkipped (wrapName entry) e])
           else (Inl e, tr))
      | Inr matched \<Rightarrow>
          (if \<not> matched then build_chain rest view h tr
           else (case buildWrapper entry h of
               Inl e \<Rightarrow> (Inl e, tr)
             | Inr wrapped \<Rightarrow> build_chain rest view wrapped tr)))"

section \<open>One invocation\<close>

definition callCommand :: "string \<Rightarrow> command_code \<Rightarrow> error option" where
  "callCommand path body =
     (case body of CommandReturns e \<Rightarrow> e | CommandPanics v \<Rightarrow> Some (CommandPanicked path (panicCause v)))"

definition command_handler :: "string \<Rightarrow> command_code \<Rightarrow> handler" where
  "command_handler path body tr = (callCommand path body, tr @ [CommandRan])"

text \<open>The observers after the command, when the result is already settled: their own error is dropped.\<close>

definition settle :: "runtime \<Rightarrow> CommandView \<Rightarrow> error \<Rightarrow> bool \<Rightarrow> trace \<Rightarrow> error option \<times> trace" where
  "settle rt view e denied tr =
     (Some e, snd (runObservers (observers rt) After view \<lparr>invErr = Some e, invDenied = denied\<rparr> tr))"

definition denied_error :: "CommandDeniedError \<Rightarrow> error" where
  "denied_error d = Denied 0 d"

definition wrapRunE :: "runtime \<Rightarrow> CommandView \<Rightarrow> command_code \<Rightarrow> error option \<times> trace" where
  "wrapRunE rt view body =
     (case runObservers (observers rt) Before view \<lparr>invErr = None, invDenied = False\<rparr> [] of
        (Some e, tr) \<Rightarrow> settle rt view e False tr
      | (None, tr) \<Rightarrow>
          (case denial (restrictor rt) (rules rt) view of
             Some d \<Rightarrow> settle rt view (denied_error d) True tr
           | None \<Rightarrow>
               (case build_chain (rev (wrappers rt)) view (command_handler (Path view) body) tr of
                  (Inl e, tr1) \<Rightarrow> settle rt view e False tr1
                | (Inr h, tr1) \<Rightarrow>
                    (let (result, tr2) = h tr1;
                         (oerr, tr3) = runObservers (observers rt) After view
                           \<lparr>invErr = result, invDenied = False\<rparr> tr2
                     in (if result = None then oerr else result, tr3)))))"

section \<open>What wrappers can and cannot do\<close>

definition ran :: "trace \<Rightarrow> nat" where
  "ran tr = length (filter (\<lambda>e. e = CommandRan) tr)"

lemma ran_simps [simp]:
  "ran [] = 0" "ran (tr @ tr') = ran tr + ran tr'" "ran (e # tr) = (if e = CommandRan then 1 else 0) + ran tr"
  by (simp_all add: ran_def)

text \<open>
  An error a user may see: the command's own error, a structured rejection or denial, or the runtime's
  own failure, which shows no text of third-party code.
\<close>

definition presentable :: "error option \<Rightarrow> error \<Rightarrow> bool" where
  "presentable own e =
     (let p = public_error e in
      (\<exists>x. own = Some x \<and> p = public_error x) \<or> is_runtime p \<or>
      (is_abort p \<and> p \<noteq> NilAbort) \<or> (is_denied p \<and> p \<noteq> NilDenied))"

definition handler_ok :: "error option \<Rightarrow> handler \<Rightarrow> bool" where
  "handler_ok own h =
     (\<forall>tr. \<exists>ev. snd (h tr) = tr @ ev \<and> ran ev \<le> 1 \<and>
        (fst (h tr) = None \<longrightarrow> ran ev = 1 \<and> own = None) \<and>
        (\<forall>e. fst (h tr) = Some e \<longrightarrow> presentable own e))"

definition tracker_ok :: "error option \<Rightarrow> tracker \<Rightarrow> trace \<Rightarrow> bool" where
  "tracker_ok own t ev =
     ((\<not> called t \<longrightarrow> ran ev = 0 \<and> errs t = []) \<and> ran ev \<le> 1 \<and>
      (called t \<and> errs t = [] \<longrightarrow> ran ev = 1 \<and> own = None) \<and>
      list_all (presentable own) (errs t) \<and>
      (violation t \<noteq> None \<longrightarrow> is_runtime (the (violation t))))"

lemma err_as_sound:
  "(err_as p e = Some (Some x) \<longrightarrow> p x) \<and> True"
  "(err_as_any p es = Some (Some x) \<longrightarrow> p x) \<and> True"
  by (induction p e and p es rule: err_as_err_as_any.induct)
    (auto simp: found_def split: option.splits if_splits)

lemma SafeAs_sound: "SafeAs p e = Some x \<Longrightarrow> p x"
  using err_as_sound(1)[of p e x] by (auto simp: SafeAs_def found_def split: option.splits)

lemma public_kinds:
  "is_abort e \<or> is_denied e \<or> is_runtime e \<Longrightarrow> public_error e = e"
  by (cases e) (simp_all add: is_abort_def is_denied_def is_runtime_def)

lemma presentable_kinds:
  "is_runtime e \<Longrightarrow> presentable own e"
  "is_abort e \<Longrightarrow> e \<noteq> NilAbort \<Longrightarrow> presentable own e"
  "is_denied e \<Longrightarrow> e \<noteq> NilDenied \<Longrightarrow> presentable own e"
  by (auto simp: presentable_def public_kinds Let_def)

lemma presentable_delegated: "presentable own (SafeDelegated p c) \<longleftrightarrow> presentable own p"
  by (simp add: presentable_def)

lemma is_runtime_RuntimeFailure [simp]: "is_runtime (RuntimeFailure h s c)"
  by (simp add: is_runtime_def)

lemma tracker_call_ok:
  assumes h: "handler_ok own h" and t: "tracker_ok own t ev" and call: "tracker_call hook h t (tr @ ev) = (e, t', tr')"
  shows "\<exists>ev'. tr' = tr @ ev' \<and> tracker_ok own t' ev'"
proof (cases "called t")
  case True
  with t call show ?thesis
    by (intro exI[of _ ev]) (auto simp: tracker_call_def tracker_ok_def next_violation_def split: if_splits)
next
  case False
  obtain r tr1 where run: "h (tr @ ev) = (r, tr1)" by (cases "h (tr @ ev)")
  with h obtain ev1 where "tr1 = (tr @ ev) @ ev1" "ran ev1 \<le> 1"
    "r = None \<longrightarrow> ran ev1 = 1 \<and> own = None" "\<forall>x. r = Some x \<longrightarrow> presentable own x"
    unfolding handler_ok_def by (metis fst_conv snd_conv)
  moreover have "t' = t\<lparr>called := True, errs := errs t @ (case r of None \<Rightarrow> [] | Some x \<Rightarrow> [x])\<rparr>" "tr' = tr1"
    using call run False by (auto simp: tracker_call_def)
  ultimately show ?thesis
    using t False by (intro exI[of _ "ev @ ev1"]) (auto simp: tracker_ok_def split: option.splits)
qed

lemma callWrapperHandler_ok:
  "handler_ok own h \<Longrightarrow> tracker_ok own t ev \<Longrightarrow>
   \<exists>ev'. snd (snd (callWrapperHandler hook h w t (tr @ ev))) = tr @ ev' \<and>
     tracker_ok own (fst (snd (callWrapperHandler hook h w t (tr @ ev)))) ev'"
proof (induction w arbitrary: t ev)
  case (HandlerNext k)
  obtain e t' tr' where call: "tracker_call hook h t (tr @ ev) = (e, t', tr')"
    by (cases "tracker_call hook h t (tr @ ev)") auto
  with tracker_call_ok[OF HandlerNext.prems call] obtain ev' where "tr' = tr @ ev'" "tracker_ok own t' ev'" by blast
  with HandlerNext.IH[OF _ HandlerNext.prems(1), of "k e" t' ev'] call show ?case by simp
qed auto

lemma callWrapperFactory_ok:
  "handler_ok own h \<Longrightarrow> tracker_ok own t ev \<Longrightarrow>
   \<exists>ev'. snd (snd (callWrapperFactory hook h w t (tr @ ev))) = tr @ ev' \<and>
     tracker_ok own (fst (snd (callWrapperFactory hook h w t (tr @ ev)))) ev' \<and>
     (\<forall>x. fst (callWrapperFactory hook h w t (tr @ ev)) = Inl x \<longrightarrow> is_runtime x)"
proof (induction w arbitrary: t ev)
  case (FactoryNext k)
  obtain e t' tr' where call: "tracker_call hook h t (tr @ ev) = (e, t', tr')"
    by (cases "tracker_call hook h t (tr @ ev)") auto
  with tracker_call_ok[OF FactoryNext.prems call] obtain ev' where "tr' = tr @ ev'" "tracker_ok own t' ev'" by blast
  with FactoryNext.IH[OF _ FactoryNext.prems(1), of "k e" t' ev'] call show ?case by simp
qed (auto split: option.splits)

lemma closeAndWait_ok:
  "tracker_ok own t ev \<Longrightarrow>
   (closeAndWait hook t = None \<longrightarrow> ran ev = 1 \<and> own = None) \<and>
   (\<forall>e. closeAndWait hook t = Some e \<longrightarrow> presentable own e)"
  by (auto simp: closeAndWait_def tracker_ok_def next_missing_def presentable_kinds split: list.splits if_splits)

lemma classify_ok: "tracker_ok own t ev \<Longrightarrow> presentable own (classify hook t e)"
proof -
  assume t: "tracker_ok own t ev"
  show ?thesis
  proof (cases "matching t e")
    case (Some d)
    then have "d \<in> set (errs t)" unfolding matching_def find_Some_iff by auto
    with t Some show ?thesis by (auto simp: classify_def tracker_ok_def list_all_iff presentable_delegated)
  next
    case None
    then show ?thesis
      using SafeAs_sound[of is_abort e] SafeAs_sound[of is_denied e] SafeAs_sound[of is_runtime e]
      by (auto simp: classify_def Let_def presentable_delegated presentable_kinds)
  qed
qed

lemma wrapped_handler_ok:
  assumes h: "handler_ok own h" shows "handler_ok own (wrapped_handler hook code h)"
  unfolding handler_ok_def
proof
  fix tr
  obtain built t1 tr1 where f: "callWrapperFactory hook h code new_tracker tr = (built, t1, tr1)"
    by (cases "callWrapperFactory hook h code new_tracker tr") auto
  have "tracker_ok own new_tracker []" by (simp add: tracker_ok_def new_tracker_def)
  from callWrapperFactory_ok[OF h this, of hook code tr] f obtain ev1 where
    1: "tr1 = tr @ ev1" "tracker_ok own t1 ev1" "\<forall>x. built = Inl x \<longrightarrow> is_runtime x" by auto
  show "\<exists>ev. snd (wrapped_handler hook code h tr) = tr @ ev \<and> ran ev \<le> 1 \<and>
        (fst (wrapped_handler hook code h tr) = None \<longrightarrow> ran ev = 1 \<and> own = None) \<and>
        (\<forall>e. fst (wrapped_handler hook code h tr) = Some e \<longrightarrow> presentable own e)"
  proof (cases built)
    case (Inl x)
    with 1 f show ?thesis
      by (intro exI[of _ ev1]) (auto simp: wrapped_handler_def tracker_ok_def presentable_kinds)
  next
    case (Inr w)
    obtain r t2 tr2 where c: "callWrapperHandler hook h w t1 tr1 = (r, t2, tr2)"
      by (cases "callWrapperHandler hook h w t1 tr1") auto
    with callWrapperHandler_ok[OF h 1(2), of hook w tr] 1(1) obtain ev2 where
      2: "tr2 = tr @ ev2" "tracker_ok own t2 ev2" by auto
    have "wrapped_handler hook code h tr =
        ((case r of None \<Rightarrow> closeAndWait hook t2 | Some e \<Rightarrow> Some (classify hook t2 e)), tr2)"
      using f Inr c by (simp add: wrapped_handler_def)
    with 2 closeAndWait_ok[OF 2(2), of hook] classify_ok[OF 2(2), of hook] show ?thesis
      by (intro exI[of _ ev2]) (auto simp: tracker_ok_def split: option.splits)
  qed
qed

lemma command_handler_ok: "handler_ok (callCommand path body) (command_handler path body)"
  unfolding handler_ok_def
  by (intro allI exI[of _ "[CommandRan]"]) (auto simp: command_handler_def presentable_def Let_def)

text \<open>Every step of the chain keeps the contract of the handler, and a failed step reports a runtime failure.\<close>

lemma callSelector_runtime: "callSelector name sel view = Inl e \<Longrightarrow> is_runtime e"
  by (auto simp: callSelector_def split: option.splits selector_outcome.splits)

lemma build_chain_ok:
  "handler_ok own h \<Longrightarrow> build_chain ws view h tr = (r, tr') \<Longrightarrow>
   (\<exists>ev. tr' = tr @ ev \<and> ran ev = 0) \<and>
   (case r of Inl e \<Rightarrow> is_runtime e | Inr h' \<Rightarrow> handler_ok own h')"
proof (induction ws arbitrary: h tr)
  case (Cons w ws)
  show ?case
  proof (cases "callSelector (wrapName w) (wrapSelector w) view")
    case (Inl e)
    show ?thesis
    proof (cases "wrapPolicy w = FailOpen")
      case True
      with Inl Cons.prems have "build_chain ws view h (tr @ [HookSkipped (wrapName w) e]) = (r, tr')" by simp
      from Cons.IH[OF Cons.prems(1) this] show ?thesis by auto
    next
      case False
      with Inl Cons.prems callSelector_runtime[OF Inl] show ?thesis by auto
    qed
  next
    case (Inr m)
    show ?thesis
    proof (cases "m \<and> (\<exists>code. wrapCallback w = Some code)")
      case True
      then obtain code where code: "wrapCallback w = Some code" "m" by blast
      with Inr Cons.prems have "build_chain ws view (wrapped_handler (wrapName w) code h) tr = (r, tr')"
        by (simp add: buildWrapper_def)
      from Cons.IH[OF wrapped_handler_ok[OF Cons.prems(1)] this] show ?thesis .
    next
      case False
      then show ?thesis
      proof (cases m)
        case True
        with False Inr Cons.prems show ?thesis by (auto simp: buildWrapper_def)
      next
        case False
        with Inr Cons show ?thesis by simp
      qed
    qed
  qed
qed auto

text \<open>Observers only append to the trace; they never run the command, and their errors are runtime failures.\<close>

lemma callObserver_trace:
  "callObserver entry i tr = (r, tr') \<Longrightarrow>
   (\<exists>ev. tr' = tr @ ev \<and> ran ev = 0) \<and> (\<forall>e. r = Some e \<longrightarrow> is_runtime e)"
  by (auto simp: callObserver_def Let_def split: option.splits observer_code.splits)

lemma runObservers_trace:
  "runObservers os w view i tr = (r, tr') \<Longrightarrow>
   (\<exists>ev. tr' = tr @ ev \<and> ran ev = 0) \<and> (\<forall>e. r = Some e \<longrightarrow> is_runtime e)"
proof (induction os arbitrary: tr)
  case (Cons o1 os)
  show ?case
  proof (cases "obsWhen o1 = w")
    case False
    with Cons.prems have "runObservers os w view i tr = (r, tr')" by simp
    from Cons.IH[OF this] show ?thesis .
  next
    case here: True
    show ?thesis
    proof (cases "callSelector (obsName o1) (obsSelector o1) view")
      case (Inl e)
      with here Cons.prems Cons.IH[of "tr @ [HookSkipped (obsName o1) e]"] callSelector_runtime[OF Inl]
      show ?thesis by (auto split: if_splits)
    next
      case (Inr m)
      obtain r1 tr1 where call: "callObserver o1 i tr = (r1, tr1)" by (cases "callObserver o1 i tr")
      from callObserver_trace[OF call] obtain ev where
        ev: "tr1 = tr @ ev" "ran ev = 0" "\<forall>e. r1 = Some e \<longrightarrow> is_runtime e" by blast
      show ?thesis
      proof (cases "m \<and> r1 \<noteq> None \<and> obsPolicy o1 = FailOpen")
        case True
        with here Inr call Cons.prems Cons.IH[of "tr1 @ [HookSkipped (obsName o1) (the r1)]"] ev
        show ?thesis by (auto split: option.splits)
      next
        case False
        with here Inr call Cons.prems Cons.IH[of tr] Cons.IH[of tr1] ev
        show ?thesis by (auto split: option.splits if_splits)
      qed
    qed
  qed
qed auto

section \<open>Properties\<close>

lemma settle_simp:
  "fst (settle rt view e b tr) = Some e"
  "\<exists>ev. snd (settle rt view e b tr) = tr @ ev \<and> ran ev = 0"
proof -
  show "fst (settle rt view e b tr) = Some e" by (simp add: settle_def)
  obtain r tr' where "runObservers (observers rt) After view \<lparr>invErr = Some e, invDenied = b\<rparr> tr = (r, tr')"
    by (cases "runObservers (observers rt) After view \<lparr>invErr = Some e, invDenied = b\<rparr> tr")
  with runObservers_trace[OF this] show "\<exists>ev. snd (settle rt view e b tr) = tr @ ev \<and> ran ev = 0"
    by (simp add: settle_def)
qed

text \<open>The four ways an invocation ends.\<close>

lemma wrapRunE_cases:
  assumes run: "wrapRunE rt view body = (res, tr)"
  obtains
    (before) e where "res = Some e" "is_runtime e" "ran tr = 0"
  | (denied) d where "denial (restrictor rt) (rules rt) view = Some d" "res = Some (denied_error d)" "ran tr = 0"
  | (chain) e where "denial (restrictor rt) (rules rt) view = None" "res = Some e" "is_runtime e" "ran tr = 0"
  | (executed) h tr1 r1 tr2 oerr ev where
      "denial (restrictor rt) (rules rt) view = None" "handler_ok (callCommand (Path view) body) h"
      "ran tr1 = 0" "h tr1 = (r1, tr2)" "res = (if r1 = None then oerr else r1)" "tr = tr2 @ ev" "ran ev = 0"
      "\<forall>e. oerr = Some e \<longrightarrow> is_runtime e"
proof -
  obtain b tr0 where b: "runObservers (observers rt) Before view \<lparr>invErr = None, invDenied = False\<rparr> [] = (b, tr0)"
    by (cases "runObservers (observers rt) Before view \<lparr>invErr = None, invDenied = False\<rparr> []")
  from runObservers_trace[OF b] have tr0: "ran tr0 = 0" and b_run: "\<forall>e. b = Some e \<longrightarrow> is_runtime e" by auto
  show thesis
  proof (cases b)
    case (Some e)
    with run b have "settle rt view e False tr0 = (res, tr)" by (simp add: wrapRunE_def)
    with settle_simp[of rt view e False tr0] tr0 have "res = Some e" "ran tr = 0" by auto
    with before b_run Some show thesis by blast
  next
    case b_none: None
    show thesis
    proof (cases "denial (restrictor rt) (rules rt) view")
      case (Some d)
      with run b b_none have "settle rt view (denied_error d) True tr0 = (res, tr)" by (simp add: wrapRunE_def)
      with settle_simp[of rt view "denied_error d" True tr0] tr0 have "res = Some (denied_error d)" "ran tr = 0"
        by auto
      with denied Some show thesis by blast
    next
      case d_none: None
      let ?h0 = "command_handler (Path view) body"
      obtain c tr1 where c: "build_chain (rev (wrappers rt)) view ?h0 tr0 = (c, tr1)"
        by (cases "build_chain (rev (wrappers rt)) view ?h0 tr0")
      from build_chain_ok[OF command_handler_ok c] obtain ev1 where ev1: "tr1 = tr0 @ ev1" "ran ev1 = 0"
        and c_ok: "case c of Inl e \<Rightarrow> is_runtime e | Inr h' \<Rightarrow> handler_ok (callCommand (Path view) body) h'" by blast
      show thesis
      proof (cases c)
        case (Inl e)
        with run b b_none d_none c have "settle rt view e False tr1 = (res, tr)" by (simp add: wrapRunE_def)
        with settle_simp[of rt view e False tr1] tr0 ev1 have "res = Some e" "ran tr = 0" by auto
        with chain d_none Inl c_ok show thesis by auto
      next
        case (Inr h)
        obtain r1 tr2 where h: "h tr1 = (r1, tr2)" by (cases "h tr1")
        obtain oerr tr3 where o: "runObservers (observers rt) After view \<lparr>invErr = r1, invDenied = False\<rparr> tr2 = (oerr, tr3)"
          by (cases "runObservers (observers rt) After view \<lparr>invErr = r1, invDenied = False\<rparr> tr2")
        from runObservers_trace[OF o] obtain ev where ev: "tr3 = tr2 @ ev" "ran ev = 0" "\<forall>e. oerr = Some e \<longrightarrow> is_runtime e" by blast
        have res: "res = (if r1 = None then oerr else r1)" "tr = tr2 @ ev"
          using run b b_none d_none c Inr h o ev(1) by (auto simp: wrapRunE_def)
        have h_ok: "handler_ok (callCommand (Path view) body) h" "ran tr1 = 0" using Inr c_ok tr0 ev1 by simp_all
        show thesis by (rule executed[OF d_none h_ok h res ev(2,3)])
      qed
    qed
  qed
qed

lemma executed_ok:
  assumes "handler_ok own h" and "h tr1 = (r1, tr2)" and "ran tr1 = 0" and "ran ev = 0"
  shows "ran (tr2 @ ev) \<le> 1 \<and> (r1 = None \<longrightarrow> ran (tr2 @ ev) = 1 \<and> own = None) \<and>
    (\<forall>e. r1 = Some e \<longrightarrow> presentable own e)"
proof -
  from assms(1,2) obtain ev1 where "tr2 = tr1 @ ev1" "ran ev1 \<le> 1"
    "r1 = None \<longrightarrow> ran ev1 = 1 \<and> own = None" "\<forall>e. r1 = Some e \<longrightarrow> presentable own e"
    unfolding handler_ok_def by (metis fst_conv snd_conv)
  with assms(3,4) show ?thesis by auto
qed

lemma refused_not_run:
  assumes "wrapRunE rt view body = (res, tr)" and "denial (restrictor rt) (rules rt) view = Some d"
  shows "ran tr = 0 \<and> (res = Some (denied_error d) \<or> (\<exists>e. res = Some e \<and> is_runtime e))"
  using assms(1) by (cases rule: wrapRunE_cases) (use assms(2) in auto)

definition sample_runtime :: "wrapper_entry list \<Rightarrow> ruleEntry list \<Rightarrow> runtime" where
  "sample_runtime ws us =
     \<lparr>observers = [\<lparr>obsName = ''audit.log'', obsWhen = After, obsSelector = Some (\<lambda>_. Selects True),
        obsCallback = Some ObserverReturns, obsPolicy = FailOpen\<rparr>],
      wrappers = ws, lifecycles = [], rules = us, restrictor = ''gov'', pluginDiagnostics = []\<rparr>"

definition sample_wrapper :: "wrapper_handler \<Rightarrow> wrapper_entry" where
  "sample_wrapper w = \<lparr>wrapName = ''gov.wrap'', wrapSelector = Some (\<lambda>_. Selects True),
     wrapCallback = Some (FactoryReturns (Some w)), wrapPolicy = FailClosed\<rparr>"

text \<open>
  A command that policy denies never runs: its body is not entered, and the invocation fails, with the denial or with the runtime failure of a fail-closed observer.
\<close>

lemma denied_command_never_runs:
  assumes "wrapRunE rt view body = (res, tr)" and "denial (restrictor rt) (rules rt) view = Some d"
  shows "CommandRan \<notin> set tr \<and> (res = Some (denied_error d) \<or> (\<exists>e. res = Some e \<and> is_runtime e))"
  using refused_not_run[OF assms] by (auto simp: ran_def filter_empty_conv)

lemma denied_command_never_runs_witness:
  "\<exists>res tr. wrapRunE (sample_runtime [] [sample_rule ''ro'' [] [] ''read'']) (sample_view ''workitem/get'' ''write'')
     (CommandReturns None) = (res, tr) \<and> CommandRan \<notin> set tr"
proof -
  let ?rt = "sample_runtime [] [sample_rule ''ro'' [] [] ''read'']"
  let ?v = "sample_view ''workitem/get'' ''write''"
  obtain res tr where run: "wrapRunE ?rt ?v (CommandReturns None) = (res, tr)"
    by (cases "wrapRunE ?rt ?v (CommandReturns None)")
  have "denial (restrictor ?rt) (rules ?rt) ?v \<noteq> None"
    by (simp add: denial_None_iff sample_simps sample_runtime_def)
  then obtain d where "denial (restrictor ?rt) (rules ?rt) ?v = Some d" by blast
  with denied_command_never_runs[OF run] run show ?thesis by blast
qed

text \<open>
  C6.  Success means that the command succeeded: whatever the hooks do, the body of the command runs at
  most once, and when the invocation succeeds the command was not denied, its body ran exactly once and
  returned no error.  No wrapper can skip the command or hide its failure behind a success.
\<close>

theorem success_means_command_succeeded:
  assumes "wrapRunE rt view body = (res, tr)"
  shows "length (filter (\<lambda>e. e = CommandRan) tr) \<le> 1 \<and>
    (res = None \<longrightarrow> denial (restrictor rt) (rules rt) view = None \<and> body = CommandReturns None \<and>
       length (filter (\<lambda>e. e = CommandRan) tr) = 1)"
proof -
  have "callCommand (Path view) body = None \<Longrightarrow> body = CommandReturns None"
    by (auto simp: callCommand_def split: command_code.splits)
  with assms show ?thesis unfolding ran_def[symmetric]
    by (cases rule: wrapRunE_cases) (use executed_ok in \<open>auto split: if_splits\<close>)
qed

theorem success_means_command_succeeded_witness:
  "fst (wrapRunE (sample_runtime [sample_wrapper (HandlerReturns None)] []) (sample_view ''workitem/get'' ''write'')
     (CommandReturns (Some (Opaque 7)))) \<noteq> None"
proof
  let ?run = "wrapRunE (sample_runtime [sample_wrapper (HandlerReturns None)] []) (sample_view ''workitem/get'' ''write'')
     (CommandReturns (Some (Opaque 7)))"
  assume none: "fst ?run = None"
  have "?run = (fst ?run, snd ?run)" by simp
  from success_means_command_succeeded[OF this] none show False by simp
qed

text \<open>
  No third-party error text reaches the user: the public error of a failed invocation is that of
  the command itself, a structured abort or denial, or a runtime failure that names hook and stage only.
\<close>

lemma failure_is_presentable:
  assumes "wrapRunE rt view body = (Some e, tr)"
  shows "presentable (callCommand (Path view) body) e"
  using assms
proof (cases rule: wrapRunE_cases)
  case (executed h tr1 r1 tr2 oerr ev)
  with executed_ok[of "callCommand (Path view) body" h tr1 r1 tr2 ev] presentable_kinds(1) show ?thesis
    by (auto split: if_splits)
qed (auto simp: presentable_kinds denied_error_def is_denied_def)

lemma failure_is_presentable_witness:
  "\<exists>e tr. wrapRunE (sample_runtime [sample_wrapper (HandlerNext (\<lambda>_. HandlerReturns (Some (Opaque 9))))] [])
       (sample_view ''workitem/get'' ''write'') (CommandReturns None) = (Some e, tr) \<and>
     presentable None e"
proof -
  let ?run = "wrapRunE (sample_runtime [sample_wrapper (HandlerNext (\<lambda>_. HandlerReturns (Some (Opaque 9))))] [])
       (sample_view ''workitem/get'' ''write'') (CommandReturns None)"
  have "fst ?run \<noteq> None" by code_simp
  then obtain e tr where run: "?run = (Some e, tr)" by (cases ?run) auto
  with failure_is_presentable[OF run] show ?thesis by (auto simp: callCommand_def)
qed

text \<open>
  C5.  Governance end to end: if the plugins install and one of them declares \<open>Restricts\<close> and registers
  a rule, then no command the rule does not permit is ever executed, whatever the other hooks do.
\<close>

theorem restricted_command_never_runs:
  assumes "installPlugins labels version ps = Inr rt" and "Some plg \<in> set ps"
    and "plgCapabilities plg = Returned caps" and "Restricts caps"
    and "Restrict (Some u) \<in> set (plgCalls plg)" and "\<not> rule_permits u view"
    and "wrapRunE rt view body = (res, tr)"
  shows "CommandRan \<notin> set tr \<and> res \<noteq> None"
proof -
  from restriction_kept[OF assms(1-6)] obtain d where "denial (restrictor rt) (rules rt) view = Some d" by blast
  from refused_not_run[OF assms(7) this] show ?thesis by (auto simp: ran_def filter_empty_conv)
qed

theorem restricted_command_never_runs_witness:
  "\<exists>rt res tr. installPlugins (\<lambda>_. ''all'') ''1.2.0''
       [Some \<lparr>plgName = Returned ''gov'', plgVersion = Returned ''1.0.0'', plgCapabilities = Returned sample_caps,
          plgCalls = [Restrict (Some (entryRule (sample_rule ''ro'' [] [] ''read'')))],
          plgOutcome = Returned None, plgLateCalls = []\<rparr>] = Inr rt \<and>
     wrapRunE rt (sample_view ''workitem/get'' ''write'') (CommandReturns None) = (res, tr) \<and> CommandRan \<notin> set tr"
proof -
  let ?u = "entryRule (sample_rule ''ro'' [] [] ''read'')"
  let ?v = "sample_view ''workitem/get'' ''write''"
  let ?plg = "\<lparr>plgName = Returned ''gov'', plgVersion = Returned ''1.0.0'', plgCapabilities = Returned sample_caps,
     plgCalls = [Restrict (Some ?u)], plgOutcome = Returned None, plgLateCalls = []\<rparr> ::
     (selector_code, observer_code, wrapper_code, lifecycle_code) Plugin"
  let ?inst = "installPlugins (\<lambda>_. ''all'') ''1.2.0'' [Some ?plg]"
  have "isl ?inst = False" by code_simp
  then obtain rt where rt: "?inst = Inr rt" by (cases ?inst) auto
  obtain res tr where run: "wrapRunE rt ?v (CommandReturns None) = (res, tr)"
    by (cases "wrapRunE rt ?v (CommandReturns None)")
  have "Some ?plg \<in> set [Some ?plg]" "plgCapabilities ?plg = Returned sample_caps" "Restricts sample_caps"
    "Restrict (Some ?u) \<in> set (plgCalls ?plg)" "\<not> rule_permits ?u ?v"
    by (simp_all add: sample_caps_def sample_simps)
  from restricted_command_never_runs[OF rt this run] rt run show ?thesis by blast
qed

end
