(* ===== verification/Platform_Apply.thy ===== *)
theory Platform_Apply
  imports Platform_Runtime "HOL-Library.AList"
begin

text \<open>
  \<open>internal/extension/platform/runtime.go\<close>: \<open>commandView\<close>, the view of a cobra command that hooks and
  rules receive, and \<open>Apply\<close>, which wraps every runnable command of a tree once and hides the commands
  that policy denies.  A tree node records its name, whether it has a \<open>RunE\<close>, its annotations, whether
  it is hidden, how many times \<open>RunE\<close> has been wrapped, and its children in order.
\<close>

section \<open>Views of commands\<close>

type_synonym annotations = "(string \<times> string) list"

text \<open>The view of a command: its full command path and the annotations of it and of its ancestors, nearest first.\<close>

definition view_path :: "string \<Rightarrow> annotations \<Rightarrow> string" where
  "view_path command_path own =
     (case map_of own ''command_path'' of
        Some p \<Rightarrow> (if p \<noteq> [] then ReplaceChar CHR '' '' CHR ''/'' p
                   else (let parts = Fields command_path
                         in Join ''/'' (if length parts > 1 then tl parts else parts)))
      | None \<Rightarrow> (let parts = Fields command_path
                 in Join ''/'' (if length parts > 1 then tl parts else parts)))"

definition view_domain :: "string \<Rightarrow> string" where
  "view_domain path = (let (front, _, ok) = Cut CHR ''/'' path in if ok then front else path)"

fun view_annotation :: "annotations list \<Rightarrow> string \<Rightarrow> string option" where
  "view_annotation [] key = None"
| "view_annotation (a # rest) key =
     (case map_of a key of Some v \<Rightarrow> Some v | None \<Rightarrow> view_annotation rest key)"

definition view_risk :: "annotations list \<Rightarrow> Risk \<times> bool" where
  "view_risk chain =
     (case view_annotation chain ''risk_level'' of
        None \<Rightarrow> ([], False)
      | Some v \<Rightarrow> (case ParseRisk v of Inl _ \<Rightarrow> ([], False) | Inr r \<Rightarrow> (r, r \<noteq> [])))"

definition commandView :: "string \<Rightarrow> annotations \<Rightarrow> annotations list \<Rightarrow> CommandView" where
  "commandView command_path own ancestors =
     (let path = view_path command_path own in
      \<lparr>Path = path, Domain = view_domain path, viewRisk = view_risk (own # ancestors),
       Identities = [IdentityUser], Annotation = view_annotation (own # ancestors)\<rparr>)"

section \<open>The command tree\<close>

datatype command =
  Command (cmdName: string) (cmdRuns: bool) (cmdAnn: annotations) (cmdHidden: bool) (cmdWraps: nat)
    (cmdChildren: "command list")

definition wrappedAnnotation :: string where "wrappedAnnotation = ''meegle.extension.wrapped''"

definition child_path :: "string \<Rightarrow> string \<Rightarrow> string" where
  "child_path parent name = (if parent = [] then name else parent @ '' '' @ name)"

text \<open>First pass of \<open>Apply\<close>: \<open>applyCommand\<close> on every command of the tree.\<close>

fun apply_wrap :: "command \<Rightarrow> command" where
  "apply_wrap (Command n runs ann hidden wraps cs) =
     (if runs \<and> map_of ann wrappedAnnotation \<noteq> Some ''1''
      then Command n runs (AList.update wrappedAnnotation ''1'' ann) hidden (Suc wraps) (map apply_wrap cs)
      else Command n runs ann hidden wraps (map apply_wrap cs))"

text \<open>
  Second and third pass: a runnable command that policy denies is hidden; a command that only groups
  others is hidden when all its children are.  Commands are visited from the last to the first in
  preorder, so children are settled before their parent.  The root itself is never hidden.
\<close>

definition settle_hidden :: "('a, 'b, 'c, 'd) Runtime \<Rightarrow> CommandView \<Rightarrow> bool \<Rightarrow> bool \<Rightarrow> command list \<Rightarrow> bool" where
  "settle_hidden rt view runs hidden cs =
     (if runs then hidden \<or> denial (restrictor rt) (rules rt) view \<noteq> None
      else hidden \<or> (cs \<noteq> [] \<and> list_all cmdHidden cs))"

fun hide :: "('a, 'b, 'c, 'd) Runtime \<Rightarrow> string \<Rightarrow> annotations list \<Rightarrow> command \<Rightarrow> command" where
  "hide rt parent anns (Command n runs ann hidden wraps cs) =
     (let path = child_path parent n;
          cs' = map (hide rt path (ann # anns)) cs
      in Command n runs ann (settle_hidden rt (commandView path ann anns) runs hidden cs') wraps cs')"

definition Apply :: "('a, 'b, 'c, 'd) Runtime option \<Rightarrow> command option \<Rightarrow> command option" where
  "Apply r root =
     (case (r, root) of
        (Some rt, Some c) \<Rightarrow>
          (case apply_wrap c of
             Command n runs ann hidden wraps cs \<Rightarrow>
               (if rules rt = [] then Some (Command n runs ann hidden wraps cs)
                else Some (Command n runs ann hidden wraps (map (hide rt (child_path [] n) [ann]) cs))))
      | _ \<Rightarrow> root)"

section \<open>Idempotence\<close>

lemma map_of_update_same [simp]: "map_of (AList.update k v al) k = Some v"
  by (simp add: update_conv')

lemma apply_wrap_idem: "apply_wrap (apply_wrap c) = apply_wrap c"
  by (induction c) (auto intro!: map_cong)

lemma hide_name: "cmdRuns (hide rt p anns c) = cmdRuns c \<and> cmdAnn (hide rt p anns c) = cmdAnn c"
  by (cases c) (simp add: Let_def)

lemma hide_idem: "hide rt p anns (hide rt p anns c) = hide rt p anns c"
proof (induction c arbitrary: p anns)
  case (Command n runs ann hidden wraps cs)
  then have "map (hide rt q as) (map (hide rt q as) cs) = map (hide rt q as) cs" for q as
    by (induction cs) auto
  then show ?case unfolding hide.simps Let_def settle_hidden_def by (auto simp del: map_map)
qed

lemma apply_wrap_hide: "apply_wrap c = c \<Longrightarrow> apply_wrap (hide rt p anns c) = hide rt p anns c"
proof (induction c arbitrary: p anns)
  case (Command n runs ann hidden wraps cs)
  have fixed: "\<not> (runs \<and> map_of ann wrappedAnnotation \<noteq> Some ''1'')"
    using Command.prems by (auto split: if_splits)
  then have eq: "map apply_wrap cs = cs"
    using Command.prems unfolding apply_wrap.simps if_not_P[OF fixed] by simp
  then have "apply_wrap x = x" if "x \<in> set cs" for x
    using that by (induction cs) auto
  with Command.IH have "map apply_wrap (map (hide rt q as) cs) = map (hide rt q as) cs" for q as
    by simp
  with fixed show ?case by (simp add: Let_def)
qed

section \<open>Properties\<close>

text \<open>All commands of a tree below the root, with the view that policy decides on.\<close>

fun commands_below :: "string \<Rightarrow> annotations list \<Rightarrow> command \<Rightarrow> (CommandView \<times> command) list" where
  "commands_below parent anns (Command n runs ann hidden wraps cs) =
     (commandView (child_path parent n) ann anns, Command n runs ann hidden wraps cs) #
     concat (map (commands_below (child_path parent n) (ann # anns)) cs)"

definition allCommands :: "command \<Rightarrow> (CommandView \<times> command) list" where
  "allCommands root =
     concat (map (commands_below (child_path [] (cmdName root)) [cmdAnn root]) (cmdChildren root))"

lemma hide_denied:
  "(view, c') \<in> set (commands_below p anns (hide rt p anns c)) \<Longrightarrow> cmdRuns c' \<Longrightarrow>
   denial (restrictor rt) (rules rt) view \<noteq> None \<Longrightarrow> cmdHidden c'"
proof (induction c arbitrary: p anns)
  case (Command n runs ann hidden wraps cs)
  from Command.prems(1) consider
    (here) "view = commandView (child_path p n) ann anns"
      "c' = hide rt p anns (Command n runs ann hidden wraps cs)"
  | (below) x where "x \<in> set cs"
      "(view, c') \<in> set (commands_below (child_path p n) (ann # anns) (hide rt (child_path p n) (ann # anns) x))"
    by (auto simp: Let_def)
  then show ?case
  proof cases
    case here
    with Command.prems(2,3) show ?thesis by (simp add: Let_def settle_hidden_def)
  next
    case below
    from Command.IH[OF this Command.prems(2,3)] show ?thesis .
  qed
qed

text \<open>
  \<open>Apply\<close> can be called again on the same tree: the second call changes nothing, so no command is
  wrapped twice and nothing more is hidden.
\<close>

lemma Apply_idempotent: "Apply r (Apply r root) = Apply r root"
proof (cases "\<exists>rt c. r = Some rt \<and> root = Some c")
  case True
  then obtain rt c where rc: "r = Some rt" "root = Some c" by blast
  obtain n runs ann hidden wraps cs where c': "apply_wrap c = Command n runs ann hidden wraps cs"
    by (cases "apply_wrap c")
  have fixed: "apply_wrap (Command n runs ann hidden wraps cs) = Command n runs ann hidden wraps cs"
    using apply_wrap_idem[of c] c' by simp
  then have not: "\<not> (runs \<and> map_of ann wrappedAnnotation \<noteq> Some ''1'')" by (auto split: if_splits)
  have "map apply_wrap cs = cs" using fixed unfolding apply_wrap.simps if_not_P[OF not] by simp
  then have each: "apply_wrap x = x" if "x \<in> set cs" for x using that by (induction cs) auto
  let ?cs = "map (hide rt (child_path [] n) [ann]) cs"
  have "map apply_wrap ?cs = ?cs"
  proof (rule map_idI)
    fix y assume "y \<in> set ?cs"
    then obtain x where "x \<in> set cs" "y = hide rt (child_path [] n) [ann] x" by auto
    then show "apply_wrap y = y" by (simp add: apply_wrap_hide each)
  qed
  then have "apply_wrap (Command n runs ann hidden wraps ?cs) = Command n runs ann hidden wraps ?cs"
    unfolding apply_wrap.simps if_not_P[OF not] by simp
  moreover have "map (hide rt (child_path [] n) [ann]) ?cs = ?cs" by (simp add: hide_idem)
  ultimately show ?thesis using rc c' fixed by (simp add: Apply_def)
qed (auto simp: Apply_def split: option.splits)

text \<open>
  The help hides what policy denies: after \<open>Apply\<close>, every runnable command below the root that the
  installed rules deny is hidden.
\<close>

lemma Apply_hides_denied:
  assumes "Apply (Some rt) (Some root) = Some root'" and "(view, c) \<in> set (allCommands root')"
    and "cmdRuns c" and "denial (restrictor rt) (rules rt) view \<noteq> None"
  shows "cmdHidden c"
proof -
  obtain n runs ann hidden wraps cs where r: "apply_wrap root = Command n runs ann hidden wraps cs"
    by (cases "apply_wrap root")
  have "rules rt \<noteq> []" using assms(4) by (auto simp: denial_None_iff)
  with assms(1) r have "root' = Command n runs ann hidden wraps (map (hide rt (child_path [] n) [ann]) cs)"
    by (auto simp: Apply_def)
  with assms(2) obtain x where
    "(view, c) \<in> set (commands_below (child_path [] n) [ann] (hide rt (child_path [] n) [ann] x))"
    by (auto simp: allCommands_def)
  from hide_denied[OF this assms(3,4)] show ?thesis .
qed

definition sample_tree :: command where
  "sample_tree = Command ''meegle'' False [] False 0
     [Command ''workitem'' False [] False 0
        [Command ''create'' True [(''risk_level'', ''write'')] False 0 []]]"

lemma Apply_hides_denied_witness:
  "\<exists>root'. Apply (Some (sample_runtime [] [sample_rule ''ro'' [] [] ''read''])) (Some sample_tree) = Some root' \<and>
     (\<exists>p \<in> set (allCommands root'). cmdName (snd p) = ''create'' \<and> cmdHidden (snd p))"
proof -
  let ?rt = "sample_runtime [] [sample_rule ''ro'' [] [] ''read'']"
  let ?c = "Command ''create'' True [(wrappedAnnotation, ''1''), (''risk_level'', ''write'')] True 1 []"
  let ?root' = "the (Apply (Some ?rt) (Some sample_tree))"
  obtain root' where root': "Apply (Some ?rt) (Some sample_tree) = Some root'"
  proof -
    have "Apply (Some ?rt) (Some sample_tree) \<noteq> None" by code_simp
    with that show thesis by blast
  qed
  have "list_ex (\<lambda>(v, c). cmdName c = ''create'' \<and> cmdRuns c \<and>
      denial (restrictor ?rt) (rules ?rt) v \<noteq> None) (allCommands ?root')" by code_simp
  then obtain v c where vc: "(v, c) \<in> set (allCommands root')" "cmdName c = ''create''" "cmdRuns c"
    "denial (restrictor ?rt) (rules ?rt) v \<noteq> None"
    using root' by (auto simp: list_ex_iff)
  from Apply_hides_denied[OF root' vc(1,3,4)] vc(1,2) root' show ?thesis by force
qed

end
