(* ===== verification/Platform_Lifecycle.thy ===== *)
theory Platform_Lifecycle
  imports Platform_Runtime
begin

text \<open>
  \<open>internal/extension/platform/lifecycle.go\<close>: dispatching the process's startup and shutdown events to
  the plugins' handlers.

  Time is counted in milliseconds.  A context is given by the time at which it is done, if ever.  A
  handler is third-party code, given by how long it takes and how it ends; one that takes as long as its
  context lasts is overtaken by it.  An emission yields the error, the time at which it returns, and the
  trace of the handlers called and the fail-open failures logged.
\<close>

section \<open>Handlers and contexts\<close>

type_synonym time = nat
type_synonym context_deadline = "time option"
type_synonym timed_handler = "nat \<times> lifecycle_code"
type_synonym lifecycle_entry = "timed_handler lifecycleEntry"

datatype lifecycle_event_log = HandlerCalled string time | FailureLogged string error

type_synonym lifecycle_trace = "lifecycle_event_log list"

definition ctx_done :: "context_deadline \<Rightarrow> time \<Rightarrow> bool" where
  "ctx_done ctx now = (case ctx of None \<Rightarrow> False | Some d \<Rightarrow> d \<le> now)"

definition with_timeout :: "context_deadline \<Rightarrow> time \<Rightarrow> nat \<Rightarrow> context_deadline" where
  "with_timeout ctx now timeout =
     (case ctx of None \<Rightarrow> Some (now + timeout) | Some d \<Rightarrow> Some (min d (now + timeout)))"

definition deadline_failure :: "string \<Rightarrow> error" where
  "deadline_failure name = RuntimeFailure name ''lifecycle'' (Errorf ''context deadline exceeded'')"

text \<open>\<open>callLifecycle\<close>: the error of a handler that ends; \<open>None\<close> when it never does.\<close>

definition callLifecycle :: "string \<Rightarrow> lifecycle_code \<Rightarrow> error option option" where
  "callLifecycle name code =
     (case code of
        LifecycleReturns None \<Rightarrow> Some None
      | LifecycleReturns (Some e) \<Rightarrow> Some (Some (RuntimeFailure name ''lifecycle'' e))
      | LifecyclePanics v \<Rightarrow> Some (Some (RuntimeFailure name ''lifecycle'' (panicCause v)))
      | LifecycleHangs \<Rightarrow> None)"

text \<open>
  \<open>callLifecycleBounded\<close>: the select over the handler's result and the end of the context.  The first
  result is \<open>None\<close> when the call never returns, which needs a context that is never done.
\<close>

definition callLifecycleBounded ::
    "context_deadline \<Rightarrow> string \<Rightarrow> timed_handler \<Rightarrow> time \<Rightarrow> (error option \<times> time) option" where
  "callLifecycleBounded ctx name h now =
     (case (callLifecycle name (snd h), ctx) of
        (Some r, None) \<Rightarrow> Some (r, now + fst h)
      | (Some r, Some d) \<Rightarrow>
          (if now + fst h < d then Some (r, now + fst h) else Some (Some (deadline_failure name), max now d))
      | (None, None) \<Rightarrow> None
      | (None, Some d) \<Rightarrow> Some (Some (deadline_failure name), max now d))"

definition callLifecycleWithTimeout ::
    "context_deadline \<Rightarrow> nat \<Rightarrow> string \<Rightarrow> timed_handler \<Rightarrow> time \<Rightarrow> (error option \<times> time) option" where
  "callLifecycleWithTimeout ctx timeout name h now =
     callLifecycleBounded (with_timeout ctx now timeout) name h now"

section \<open>Emitting an event\<close>

text \<open>The body of the loop for one entry: it goes on, returns from the function, or blocks.\<close>

datatype loop_control =
    Continue "error option" time lifecycle_trace
  | ReturnNow error time lifecycle_trace
  | Blocks

definition lifecycle_call ::
    "context_deadline \<Rightarrow> LifecycleEvent \<Rightarrow> nat \<Rightarrow> string \<Rightarrow> timed_handler \<Rightarrow> time \<Rightarrow> (error option \<times> time) option" where
  "lifecycle_call ctx event startupTimeout name h now =
     (if event = Startup then callLifecycleWithTimeout ctx startupTimeout name h now
      else callLifecycleBounded ctx name h now)"

definition emit_entry ::
    "context_deadline \<Rightarrow> LifecycleEvent \<Rightarrow> nat \<Rightarrow> lifecycle_entry \<Rightarrow> error option \<Rightarrow> time \<Rightarrow> lifecycle_trace \<Rightarrow>
     loop_control" where
  "emit_entry ctx event startupTimeout entry first now tr =
     (case lifeHandler entry of
        None \<Rightarrow> Continue first now tr
      | Some h \<Rightarrow>
          (if lifeEvent entry \<noteq> event then Continue first now tr
           else if ctx_done ctx now then
             (let e = deadline_failure (lifeName entry) in
              if lifePolicy entry = FailOpen then Continue first now (tr @ [FailureLogged (lifeName entry) e])
              else Continue (if first = None then Some e else first) now tr)
           else
             (let tr1 = tr @ [HandlerCalled (lifeName entry) now] in
              case lifecycle_call ctx event startupTimeout (lifeName entry) h now of
                None \<Rightarrow> Blocks
              | Some (None, now1) \<Rightarrow> Continue first now1 tr1
              | Some (Some e, now1) \<Rightarrow>
                  (if lifePolicy entry = FailOpen
                   then Continue first now1 (tr1 @ [FailureLogged (lifeName entry) e])
                   else if event = Shutdown then Continue (if first = None then Some e else first) now1 tr1
                   else ReturnNow e now1 tr1))))"

text \<open>The loop over the entries, already in dispatch order; \<open>first\<close> is the first failure so far.\<close>

fun emit_loop ::
    "context_deadline \<Rightarrow> LifecycleEvent \<Rightarrow> nat \<Rightarrow> lifecycle_entry list \<Rightarrow> error option \<Rightarrow> time \<Rightarrow> lifecycle_trace \<Rightarrow>
     (error option \<times> time \<times> lifecycle_trace) option" where
  "emit_loop ctx event startupTimeout [] first now tr = Some (first, now, tr)"
| "emit_loop ctx event startupTimeout (entry # rest) first now tr =
     (case emit_entry ctx event startupTimeout entry first now tr of
        Continue first' now' tr' \<Rightarrow> emit_loop ctx event startupTimeout rest first' now' tr'
      | ReturnNow e now' tr' \<Rightarrow> Some (Some e, now', tr')
      | Blocks \<Rightarrow> None)"

definition emitWithLifecycleTimeouts ::
    "context_deadline \<Rightarrow> LifecycleEvent \<Rightarrow> nat \<Rightarrow> nat \<Rightarrow> lifecycle_entry list \<Rightarrow> time \<Rightarrow>
     (error option \<times> time \<times> lifecycle_trace) option" where
  "emitWithLifecycleTimeouts ctx event startupTimeout shutdownTimeout entries now =
     (if event = Shutdown
      then emit_loop (with_timeout None now shutdownTimeout) event startupTimeout (rev entries) None now []
      else emit_loop ctx event startupTimeout entries None now [])"

definition DefaultCallbackTimeout :: nat where "DefaultCallbackTimeout = 2000"

definition Emit ::
    "context_deadline \<Rightarrow> LifecycleEvent \<Rightarrow> lifecycle_entry list \<Rightarrow> time \<Rightarrow>
     (error option \<times> time \<times> lifecycle_trace) option" where
  "Emit ctx event entries now = emitWithLifecycleTimeouts ctx event DefaultCallbackTimeout 2000 entries now"

section \<open>Order, failures and time\<close>

fun calls :: "lifecycle_trace \<Rightarrow> (string \<times> time) list" where
  "calls [] = []"
| "calls (HandlerCalled n t # tr) = (n, t) # calls tr"
| "calls (FailureLogged n e # tr) = calls tr"

lemma calls_append [simp]: "calls (tr @ tr') = calls tr @ calls tr'"
  by (induction tr rule: calls.induct) auto

definition listens :: "LifecycleEvent \<Rightarrow> lifecycle_entry \<Rightarrow> bool" where
  "listens event e = (lifeEvent e = event \<and> lifeHandler e \<noteq> None)"

definition closed_failure :: "lifecycle_entry \<Rightarrow> LifecycleEvent \<Rightarrow> error \<Rightarrow> bool" where
  "closed_failure x event e =
     (listens event x \<and> lifePolicy x \<noteq> FailOpen \<and> (\<exists>c. e = RuntimeFailure (lifeName x) ''lifecycle'' c))"

lemma bounded_time:
  "callLifecycleBounded ctx name h now = Some (r, t) \<Longrightarrow>
   now \<le> t \<and> (\<forall>d. ctx = Some d \<longrightarrow> t \<le> max now d)"
  by (auto simp: callLifecycleBounded_def split: option.splits if_splits)

lemma bounded_failure:
  "callLifecycleBounded ctx name h now = Some (Some e, t) \<Longrightarrow> \<exists>c. e = RuntimeFailure name ''lifecycle'' c"
  by (auto simp: callLifecycleBounded_def callLifecycle_def deadline_failure_def
      split: option.splits if_splits lifecycle_code.splits)

lemma bounded_returns: "callLifecycleBounded (Some d) name h now \<noteq> None"
  by (auto simp: callLifecycleBounded_def split: option.splits)

lemma timeout_bounded:
  "\<exists>d. with_timeout ctx now timeout = Some d \<and> d \<le> now + timeout \<and> (\<forall>c. ctx = Some c \<longrightarrow> d \<le> c)"
  by (auto simp: with_timeout_def split: option.splits)

lemma call_time:
  assumes "lifecycle_call ctx event st name h now = Some (r, t)"
  shows "now \<le> t \<and> (\<forall>d. ctx = Some d \<longrightarrow> t \<le> max now d) \<and> (event = Startup \<longrightarrow> t \<le> now + st)"
proof -
  obtain d where d: "with_timeout ctx now st = Some d" "d \<le> now + st" "\<forall>c. ctx = Some c \<longrightarrow> d \<le> c"
    using timeout_bounded by blast
  show ?thesis
  proof (cases "event = Startup")
    case True
    with assms d have "callLifecycleBounded (Some d) name h now = Some (r, t)"
      by (simp add: lifecycle_call_def callLifecycleWithTimeout_def)
    from bounded_time[OF this] d show ?thesis by fastforce
  next
    case False
    with assms bounded_time[of ctx name h now r t] show ?thesis by (simp add: lifecycle_call_def)
  qed
qed

lemma call_failure:
  "lifecycle_call ctx event st name h now = Some (Some e, t) \<Longrightarrow> \<exists>c. e = RuntimeFailure name ''lifecycle'' c"
  by (auto simp: lifecycle_call_def callLifecycleWithTimeout_def dest: bounded_failure split: if_splits)

lemma call_returns: "event = Startup \<or> ctx \<noteq> None \<Longrightarrow> lifecycle_call ctx event st name h now \<noteq> None"
  unfolding lifecycle_call_def callLifecycleWithTimeout_def
  using timeout_bounded[of ctx now st] bounded_returns[of _ name h now] by (metis option.exhaust)

text \<open>One step of the loop.\<close>

definition called_now :: "context_deadline \<Rightarrow> LifecycleEvent \<Rightarrow> lifecycle_entry \<Rightarrow> time \<Rightarrow> (string \<times> time) list" where
  "called_now ctx event x now = (if listens event x \<and> \<not> ctx_done ctx now then [(lifeName x, now)] else [])"

lemma entry_continues:
  assumes "emit_entry ctx event st x first now tr = Continue first' now' tr'"
  shows "now \<le> now' \<and> (\<forall>d. ctx = Some d \<longrightarrow> now' \<le> max now d) \<and>
    calls tr' = calls tr @ called_now ctx event x now \<and>
    (first' = first \<or> (\<exists>e. first' = Some e \<and> closed_failure x event e))"
proof (cases "listens event x")
  case False
  with assms show ?thesis
    by (auto simp: emit_entry_def listens_def called_now_def split: option.splits if_splits)
next
  case True
  then obtain h where h: "lifeHandler x = Some h" "lifeEvent x = event" by (auto simp: listens_def)
  show ?thesis
  proof (cases "ctx_done ctx now")
    case True
    with assms h \<open>listens event x\<close> show ?thesis
      by (auto simp: emit_entry_def Let_def called_now_def closed_failure_def deadline_failure_def split: if_splits)
  next
    case False
    with assms h obtain r t where call: "lifecycle_call ctx event st (lifeName x) h now = Some (r, t)"
      by (auto simp: emit_entry_def Let_def split: option.splits)
    have "calls tr' = calls tr @ [(lifeName x, now)] \<and> now' = t \<and>
        (first' = first \<or> lifePolicy x \<noteq> FailOpen \<and> first' = r)"
      using assms h False call by (auto simp: emit_entry_def Let_def split: option.splits if_splits)
    moreover have "\<forall>e. r = Some e \<longrightarrow> (\<exists>c. e = RuntimeFailure (lifeName x) ''lifecycle'' c)"
      using call_failure call by blast
    moreover have "first' \<noteq> first \<Longrightarrow> r \<noteq> None"
      using assms h False call by (auto simp: emit_entry_def Let_def split: option.splits if_splits)
    ultimately show ?thesis
      using call_time[OF call] \<open>listens event x\<close> False by (auto simp: called_now_def closed_failure_def)
  qed
qed

lemma entry_returns:
  assumes "emit_entry ctx event st x first now tr = ReturnNow e now' tr'"
  shows "event \<noteq> Shutdown \<and> closed_failure x event e \<and> now \<le> now' \<and>
    calls tr' = calls tr @ [(lifeName x, now)] \<and> \<not> ctx_done ctx now"
proof -
  from assms obtain h where h: "lifeHandler x = Some h" "lifeEvent x = event" "\<not> ctx_done ctx now"
    by (auto simp: emit_entry_def Let_def split: option.splits if_splits)
  with assms obtain r t where call: "lifecycle_call ctx event st (lifeName x) h now = Some (r, t)"
    by (auto simp: emit_entry_def Let_def split: option.splits)
  have "calls tr' = calls tr @ [(lifeName x, now)] \<and> now' = t \<and> r = Some e \<and> event \<noteq> Shutdown \<and> lifePolicy x \<noteq> FailOpen"
    using assms h call by (auto simp: emit_entry_def Let_def split: option.splits if_splits)
  with call_time[OF call] call_failure[of ctx event st "lifeName x" h now e t] call h show ?thesis
    by (auto simp: closed_failure_def listens_def)
qed

lemma entry_not_blocked:
  "event = Startup \<or> ctx \<noteq> None \<Longrightarrow> emit_entry ctx event st x first now tr \<noteq> Blocks"
  using call_returns[of event ctx st "lifeName x" _ now]
  by (auto simp: emit_entry_def Let_def simp del: not_None_eq split: option.splits)

text \<open>The loop returns: at startup every handler has its own deadline, at shutdown the context has one.\<close>

lemma emit_loop_returns:
  "event = Startup \<or> ctx \<noteq> None \<Longrightarrow> emit_loop ctx event st entries first now tr \<noteq> None"
proof (induction entries arbitrary: first now tr)
  case (Cons x xs)
  with entry_not_blocked[OF Cons.prems, of st x first now tr] show ?case
    by (cases "emit_entry ctx event st x first now tr") simp_all
qed simp

lemma emit_loop_failure:
  "emit_loop ctx event st entries first now tr = Some (Some e, t, tr') \<Longrightarrow>
   first = Some e \<or> (\<exists>x \<in> set entries. closed_failure x event e)"
proof (induction entries arbitrary: first now tr)
  case (Cons x xs)
  show ?case
  proof (cases "emit_entry ctx event st x first now tr")
    case (Continue first' now' tr1)
    with Cons.prems have "emit_loop ctx event st xs first' now' tr1 = Some (Some e, t, tr')" by simp
    from Cons.IH[OF this] entry_continues[OF Continue] show ?thesis by auto
  next
    case (ReturnNow f now' tr1)
    with Cons.prems entry_returns[OF ReturnNow] show ?thesis by auto
  qed (use Cons.prems in simp)
qed simp

lemma done_mono: "ctx_done ctx now \<Longrightarrow> now \<le> now' \<Longrightarrow> ctx_done ctx now'"
  by (auto simp: ctx_done_def split: option.splits)

lemma loop_after_done:
  "ctx_done ctx now \<Longrightarrow> emit_loop ctx event st entries first now tr = Some (r, t, tr') \<Longrightarrow> calls tr' = calls tr"
proof (induction entries arbitrary: first now tr)
  case (Cons x xs)
  show ?case
  proof (cases "emit_entry ctx event st x first now tr")
    case (Continue first' now' tr1)
    with Cons.prems have "emit_loop ctx event st xs first' now' tr1 = Some (r, t, tr')" by simp
    with Cons.IH[OF done_mono[OF Cons.prems(1)] this] entry_continues[OF Continue] Cons.prems(1)
    show ?thesis by (simp add: called_now_def)
  next
    case (ReturnNow f now' tr1)
    with entry_returns[OF ReturnNow] Cons.prems(1) show ?thesis by simp
  qed (use Cons.prems in simp)
qed simp

text \<open>Handlers are called in dispatch order, without gaps, each before the context is done.\<close>

lemma emit_loop_calls:
  "emit_loop ctx event st entries first now tr = Some (r, t, tr') \<Longrightarrow>
   \<exists>k cs. calls tr' = calls tr @ cs \<and> map fst cs = take k (map lifeName (filter (listens event) entries)) \<and>
     (\<forall>c \<in> set cs. \<not> ctx_done ctx (snd c)) \<and> now \<le> t \<and>
     (event = Shutdown \<longrightarrow> k < length (filter (listens event) entries) \<longrightarrow> ctx_done ctx t)"
proof (induction entries arbitrary: first now tr)
  case Nil
  then show ?case by (intro exI[of _ 0] exI[of _ "[]"]) auto
next
  case (Cons x xs)
  show ?case
  proof (cases "emit_entry ctx event st x first now tr")
    case (Continue first' now' tr1)
    with Cons.prems have rest: "emit_loop ctx event st xs first' now' tr1 = Some (r, t, tr')" by simp
    from Cons.IH[OF this] obtain k cs where k: "calls tr' = calls tr1 @ cs"
      "map fst cs = take k (map lifeName (filter (listens event) xs))" "\<forall>c \<in> set cs. \<not> ctx_done ctx (snd c)"
      "now' \<le> t" "event = Shutdown \<longrightarrow> k < length (filter (listens event) xs) \<longrightarrow> ctx_done ctx t" by blast
    note one = entry_continues[OF Continue]
    show ?thesis
    proof (cases "listens event x")
      case False
      with one k show ?thesis by (intro exI[of _ k] exI[of _ cs]) (auto simp: called_now_def)
    next
      case True
      show ?thesis
      proof (cases "ctx_done ctx now")
        case True
        with one have "ctx_done ctx now'" using done_mono by blast
        from loop_after_done[OF this rest] one True have "calls tr' = calls tr" by (simp add: called_now_def)
        with True done_mono[OF True] one k(4) show ?thesis
          by (intro exI[of _ 0] exI[of _ "[]"]) auto
      next
        case False
        with one k True show ?thesis
          by (intro exI[of _ "Suc k"] exI[of _ "(lifeName x, now) # cs"]) (auto simp: called_now_def)
      qed
    qed
  next
    case (ReturnNow f now' tr1)
    with Cons.prems entry_returns[OF ReturnNow] show ?thesis
      by (intro exI[of _ 1] exI[of _ "[(lifeName x, now)]"]) (auto simp: closed_failure_def)
  qed (use Cons.prems in simp)
qed

lemma emit_loop_time:
  "emit_loop (Some d) event st entries first now tr = Some (r, t, tr') \<Longrightarrow> event = Shutdown \<Longrightarrow> now \<le> d \<Longrightarrow> t \<le> d"
proof (induction entries arbitrary: first now tr)
  case (Cons x xs)
  show ?case
  proof (cases "emit_entry (Some d) event st x first now tr")
    case (Continue first' now' tr1)
    with Cons.prems have rest: "emit_loop (Some d) event st xs first' now' tr1 = Some (r, t, tr')" by simp
    have "now' \<le> d" using entry_continues[OF Continue] Cons.prems(3) by fastforce
    from Cons.IH[OF rest Cons.prems(2) this] show ?thesis .
  next
    case (ReturnNow f now' tr1)
    with entry_returns[OF ReturnNow] Cons.prems show ?thesis by simp
  qed (use Cons.prems in simp)
qed simp

section \<open>Properties\<close>

text \<open>
  C7.  Shutdown is bounded: \<open>Emit\<close> of a shutdown event always returns, within two seconds, even when
  handlers hang.  It calls the shutdown handlers in reverse order of registration, without gaps, none
  after the budget is spent, and leaves handlers out only when it is.
\<close>

theorem shutdown_bounded:
  "\<exists>res t tr k. Emit ctx Shutdown entries now = Some (res, t, tr) \<and> now \<le> t \<and> t \<le> now + 2000 \<and>
     map fst (calls tr) = take k (map lifeName (rev (filter (listens Shutdown) entries))) \<and>
     (\<forall>c \<in> set (calls tr). snd c < now + 2000) \<and>
     (k < length (filter (listens Shutdown) entries) \<longrightarrow> t = now + 2000)"
proof -
  let ?ctx = "Some (now + 2000)"
  have emit: "Emit ctx Shutdown entries now = emit_loop ?ctx Shutdown DefaultCallbackTimeout (rev entries) None now []"
    by (simp add: Emit_def emitWithLifecycleTimeouts_def with_timeout_def)
  obtain res t tr where run: "Emit ctx Shutdown entries now = Some (res, t, tr)"
    using emit_loop_returns[of Shutdown ?ctx] unfolding emit by (metis option.exhaust option.discI surj_pair)
  note loop = run[unfolded emit]
  from emit_loop_calls[OF loop] obtain k where k: "now \<le> t"
    "map fst (calls tr) = take k (map lifeName (filter (listens Shutdown) (rev entries)))"
    "\<forall>c \<in> set (calls tr). \<not> ctx_done ?ctx (snd c)"
    "k < length (filter (listens Shutdown) (rev entries)) \<longrightarrow> ctx_done ?ctx t" by auto
  moreover have "t \<le> now + 2000" by (rule emit_loop_time[OF loop]) simp_all
  moreover have "length (filter (listens Shutdown) (rev entries)) = length (filter (listens Shutdown) entries)"
    by (simp flip: rev_filter)
  ultimately have "Emit ctx Shutdown entries now = Some (res, t, tr) \<and> now \<le> t \<and> t \<le> now + 2000 \<and>
     map fst (calls tr) = take k (map lifeName (rev (filter (listens Shutdown) entries))) \<and>
     (\<forall>c \<in> set (calls tr). snd c < now + 2000) \<and>
     (k < length (filter (listens Shutdown) entries) \<longrightarrow> t = now + 2000)"
    using run by (auto simp: ctx_done_def rev_filter)
  then show ?thesis by blast
qed

definition sample_handler :: "string \<Rightarrow> LifecycleEvent \<Rightarrow> FailurePolicy \<Rightarrow> timed_handler \<Rightarrow> lifecycle_entry" where
  "sample_handler n ev p h = \<lparr>lifeName = n, lifeEvent = ev, lifeHandler = Some h, lifePolicy = p\<rparr>"

theorem shutdown_bounded_witness:
  "\<exists>t. (\<exists>res tr. Emit None Shutdown [sample_handler ''a.x'' Shutdown FailOpen (0, LifecycleHangs)] 5 = Some (res, t, tr)) \<and> t \<le> 2005"
  using shutdown_bounded[of None "[sample_handler ''a.x'' Shutdown FailOpen (0, LifecycleHangs)]" 5] by auto

text \<open>
  Lifecycle failures respect the policy: whatever event is emitted, an error that \<open>Emit\<close> returns is
  the runtime failure of a handler of that event that is not fail-open; at startup the handlers called
  are an initial segment of those registered, in order, and startup always returns.
\<close>

lemma emit_failure_policy:
  assumes "event = Startup \<or> event = Shutdown"
  shows "\<exists>res t tr. Emit ctx event entries now = Some (res, t, tr) \<and>
    (\<forall>e. res = Some e \<longrightarrow> (\<exists>x \<in> set entries. listens event x \<and> lifePolicy x \<noteq> FailOpen \<and>
       (\<exists>c. e = RuntimeFailure (lifeName x) ''lifecycle'' c))) \<and>
    (event = Startup \<longrightarrow> (\<exists>k. map fst (calls tr) = take k (map lifeName (filter (listens Startup) entries))))"
proof -
  obtain ctx' es where emit: "Emit ctx event entries now = emit_loop ctx' event DefaultCallbackTimeout es None now []"
    and es: "set es = set entries" "event = Startup \<longrightarrow> es = entries" "event = Startup \<or> ctx' \<noteq> None"
    using assms by (auto simp: Emit_def emitWithLifecycleTimeouts_def with_timeout_def)
  obtain res t tr where run: "Emit ctx event entries now = Some (res, t, tr)"
    using emit_loop_returns[OF es(3)] unfolding emit by (metis option.exhaust surj_pair)
  note loop = run[unfolded emit]
  have "\<forall>e. res = Some e \<longrightarrow> (\<exists>x \<in> set entries. closed_failure x event e)"
    using emit_loop_failure[of ctx' event DefaultCallbackTimeout es None now "[]" _ t tr] loop es(1) by auto
  moreover have "\<exists>k. map fst (calls tr) = take k (map lifeName (filter (listens event) es))"
    using emit_loop_calls[OF loop] by auto
  ultimately show ?thesis
    using run es(2) by (intro exI[of _ res] exI[of _ t] exI[of _ tr]) (auto simp: closed_failure_def)
qed

lemma emit_failure_policy_witness:
  "\<exists>t tr. Emit None Startup [sample_handler ''a.x'' Startup FailOpen (3, LifecyclePanics (PanicOther ''boom''))] 0 = Some (None, t, tr)"
  using emit_failure_policy[of Startup None "[sample_handler ''a.x'' Startup FailOpen (3, LifecyclePanics (PanicOther ''boom''))]" 0]
  by (auto simp: sample_handler_def)

end
