(* ===== verification/Platform_Tracker.thy ===== *)
theory Platform_Tracker
  imports Platform_Runtime
begin

text \<open>
  \<open>wrapperInvocationTracker\<close> of \<open>internal/extension/platform/runtime.go\<close> under concurrency: a wrapper may
  call \<open>next\<close> from any number of goroutines, before, while or after its handler returns.

  Each step is one critical section of the mutex: the first half of \<open>call\<close> (which admits the caller or
  records a violation), its deferred second half, and the two halves of \<open>closeAndWait\<close>, the second of
  which passes once no call is in flight.  \<open>entered\<close> counts the calls of the downstream handler, and
  \<open>returned\<close> is what \<open>closeAndWait\<close> returned to the runtime.
\<close>

section \<open>State and steps\<close>

record tstate =
  t_closed :: bool
  t_called :: bool
  t_inFlight :: nat
  t_errs :: "error list"
  t_violation :: "error option"
  t_entered :: nat
  t_returned :: "error option option"

definition newWrapperInvocationTracker :: tstate where
  "newWrapperInvocationTracker =
     \<lparr>t_closed = False, t_called = False, t_inFlight = 0, t_errs = [], t_violation = None,
      t_entered = 0, t_returned = None\<rparr>"

definition begin_call :: "string \<Rightarrow> tstate \<Rightarrow> tstate" where
  "begin_call hook s =
     (if t_closed s \<or> t_called s
      then (if t_violation s = None then s\<lparr>t_violation := Some (next_violation hook)\<rparr> else s)
      else s\<lparr>t_called := True, t_inFlight := t_inFlight s + 1, t_entered := t_entered s + 1\<rparr>)"

definition end_call :: "error option \<Rightarrow> tstate \<Rightarrow> tstate" where
  "end_call e s =
     s\<lparr>t_errs := t_errs s @ (case e of None \<Rightarrow> [] | Some x \<Rightarrow> [x]), t_inFlight := t_inFlight s - 1\<rparr>"

definition close_tracker :: "tstate \<Rightarrow> tstate" where
  "close_tracker s = s\<lparr>t_closed := True\<rparr>"

definition verdict :: "string \<Rightarrow> tstate \<Rightarrow> error option" where
  "verdict hook s =
     (if t_violation s \<noteq> None then t_violation s
      else if \<not> t_called s then Some (next_missing hook)
      else (case t_errs s of [] \<Rightarrow> None | e # _ \<Rightarrow> Some e))"

datatype label = BeginCall | EndCall "error option" | Close | WaitDone

inductive tracker_step :: "string \<Rightarrow> tstate \<Rightarrow> label \<Rightarrow> tstate \<Rightarrow> bool" for hook where
  begin_step: "tracker_step hook s BeginCall (begin_call hook s)"
| end_step: "t_inFlight s > 0 \<Longrightarrow> tracker_step hook s (EndCall e) (end_call e s)"
| close_step: "\<not> t_closed s \<Longrightarrow> tracker_step hook s Close (close_tracker s)"
| wait_step: "t_closed s \<Longrightarrow> t_inFlight s = 0 \<Longrightarrow> t_returned s = None \<Longrightarrow>
    tracker_step hook s WaitDone (s\<lparr>t_returned := Some (verdict hook s)\<rparr>)"

code_pred (modes: i \<Rightarrow> i \<Rightarrow> i \<Rightarrow> o \<Rightarrow> bool) tracker_step .

inductive_cases step_cases: "tracker_step hook s l s'"
inductive_simps begin_simps: "tracker_step hook s BeginCall s'"
inductive_simps wait_simps: "tracker_step hook s WaitDone s'"

inductive tracker_run :: "string \<Rightarrow> tstate \<Rightarrow> label list \<Rightarrow> tstate \<Rightarrow> bool" for hook where
  run_refl: "tracker_run hook s [] s"
| run_step: "tracker_run hook s ls t \<Longrightarrow> tracker_step hook t l u \<Longrightarrow> tracker_run hook s (ls @ [l]) u"

section \<open>Invariant\<close>

text \<open>
  The calls of the downstream handler are at most one; each is in flight or has left its error or its
  success; and \<open>closeAndWait\<close> returns only when none is in flight and none can start any more.
\<close>

definition tracker_inv :: "string \<Rightarrow> tstate \<Rightarrow> bool" where
  "tracker_inv hook s =
     (t_entered s = (if t_called s then 1 else 0) \<and> t_inFlight s \<le> t_entered s \<and>
      length (t_errs s) + t_inFlight s \<le> t_entered s \<and>
      (t_violation s \<noteq> None \<longrightarrow> t_violation s = Some (next_violation hook)) \<and>
      (t_returned s \<noteq> None \<longrightarrow> t_closed s \<and> t_inFlight s = 0 \<and>
         (t_returned s = Some None \<longrightarrow> t_entered s = 1 \<and> t_errs s = [])))"

lemma tracker_inv_start: "tracker_inv hook newWrapperInvocationTracker"
  by (simp add: tracker_inv_def newWrapperInvocationTracker_def)

lemma tracker_inv_step: "tracker_step hook s l s' \<Longrightarrow> tracker_inv hook s \<Longrightarrow> tracker_inv hook s'"
proof (erule step_cases)
  assume "tracker_inv hook s" "s' = begin_call hook s"
  then show "tracker_inv hook s'" by (auto simp: tracker_inv_def begin_call_def split: if_splits)
next
  fix e assume "tracker_inv hook s" "s' = end_call e s" "0 < t_inFlight s"
  then show "tracker_inv hook s'" by (auto simp: tracker_inv_def end_call_def split: if_splits option.splits)
next
  assume "tracker_inv hook s" "s' = close_tracker s"
  then show "tracker_inv hook s'" by (auto simp: tracker_inv_def close_tracker_def)
next
  assume "tracker_inv hook s" "s' = s\<lparr>t_returned := Some (verdict hook s)\<rparr>" "t_closed s" "t_inFlight s = 0"
  then show "tracker_inv hook s'"
    by (auto simp: tracker_inv_def verdict_def split: if_splits list.splits)
qed

lemma tracker_inv_run: "tracker_run hook s ls s' \<Longrightarrow> tracker_inv hook s \<Longrightarrow> tracker_inv hook s'"
  by (induction rule: tracker_run.induct) (auto dest: tracker_inv_step)

text \<open>A run and a list of steps.\<close>

lemma run_append: "tracker_run hook t ls u \<Longrightarrow> tracker_run hook s ks t \<Longrightarrow> tracker_run hook s (ks @ ls) u"
proof (induction rule: tracker_run.induct)
  case (run_step w ls t l u)
  then have "tracker_run hook s ((ks @ ls) @ [l]) u" by (blast intro: tracker_run.run_step)
  then show ?case by simp
qed simp

text \<open>After the return nothing more enters the downstream handler.\<close>

lemma returned_frozen:
  "tracker_step hook s l s' \<Longrightarrow> tracker_inv hook s \<Longrightarrow> t_returned s \<noteq> None \<Longrightarrow>
   t_entered s' = t_entered s \<and> t_returned s' = t_returned s \<and> t_errs s' = t_errs s"
  by (erule step_cases) (auto simp: begin_call_def tracker_inv_def close_tracker_def)

section \<open>Properties\<close>

text \<open>
  C8.  The tracker is safe under every interleaving of calls from any number of goroutines: the
  downstream handler is entered at most once; when \<open>closeAndWait\<close> has returned, no call is in flight;
  it returns success only if the handler was entered exactly once and left without error; and no step
  after its return changes any of this.
\<close>

theorem tracker_safe:
  assumes "tracker_run hook newWrapperInvocationTracker ls s"
  shows "t_entered s \<le> 1 \<and> t_inFlight s \<le> 1 \<and> length (t_errs s) \<le> 1 \<and>
    (t_returned s \<noteq> None \<longrightarrow> t_inFlight s = 0) \<and>
    (t_returned s = Some None \<longrightarrow> t_entered s = 1 \<and> t_errs s = []) \<and>
    (t_returned s \<noteq> None \<longrightarrow> tracker_step hook s l s' \<longrightarrow>
       t_entered s' = t_entered s \<and> t_returned s' = t_returned s \<and> t_errs s' = t_errs s)"
proof -
  have "tracker_inv hook s" by (rule tracker_inv_run[OF assms tracker_inv_start])
  moreover from this have "t_entered s \<le> 1" by (auto simp: tracker_inv_def split: if_splits)
  ultimately show ?thesis using returned_frozen[of hook s l s'] by (auto simp: tracker_inv_def)
qed

theorem tracker_safe_witness:
  "\<exists>s. tracker_run ''h'' newWrapperInvocationTracker [BeginCall, BeginCall] s \<and> t_entered s \<le> 1"
proof -
  let ?s = newWrapperInvocationTracker
  have "tracker_run ''h'' ?s ([] @ [BeginCall]) (begin_call ''h'' ?s)"
    by (rule run_step[OF run_refl begin_step])
  from run_step[OF this begin_step] have
    "tracker_run ''h'' ?s [BeginCall, BeginCall] (begin_call ''h'' (begin_call ''h'' ?s))" by simp
  with tracker_safe[OF this] show ?thesis by blast
qed

text \<open>
  \<open>closeAndWait\<close> does not wait for ever: from every reachable state with calls in flight it returns
  after the calls end and the two halves of \<open>closeAndWait\<close> run, at most three steps.
\<close>

lemma tracker_returns:
  assumes "tracker_run hook newWrapperInvocationTracker ls s" and "t_returned s = None"
  shows "\<exists>ks u. tracker_run hook s ks u \<and> length ks \<le> 3 \<and> t_returned u \<noteq> None"
proof -
  have s_inv: "tracker_inv hook s" by (rule tracker_inv_run[OF assms(1) tracker_inv_start])
  then have "t_inFlight s \<le> 1" by (auto simp: tracker_inv_def split: if_splits)
  obtain ks1 t where t: "tracker_run hook s ks1 t" "length ks1 \<le> 1" "t_inFlight t = 0" "t_returned t = None"
  proof (cases "t_inFlight s = 0")
    case True
    with that[OF run_refl] assms(2) show thesis by simp
  next
    case False
    then have "tracker_step hook s (EndCall None) (end_call None s)" by (intro end_step) simp
    from run_step[OF run_refl this] \<open>t_inFlight s \<le> 1\<close> assms(2) show thesis
      by (intro that[of "[EndCall None]" "end_call None s"]) (auto simp: end_call_def)
  qed
  obtain ks2 u where u: "tracker_run hook t ks2 u" "length ks2 \<le> 1" "t_inFlight u = 0" "t_returned u = None" "t_closed u"
  proof (cases "t_closed t")
    case True
    with that[OF run_refl] t show thesis by simp
  next
    case False
    from run_step[OF run_refl close_step[OF this]] t show thesis
      by (intro that[of "[Close]" "close_tracker t"]) (auto simp: close_tracker_def)
  qed
  have "tracker_run hook u [WaitDone] (u\<lparr>t_returned := Some (verdict hook u)\<rparr>)"
    using run_step[OF run_refl wait_step[OF u(5,3,4)]] by simp
  from run_append[OF this run_append[OF u(1) t(1)]] t(2) u(2) show ?thesis by fastforce
qed

lemma tracker_returns_witness:
  "\<exists>ks u. tracker_run ''h'' newWrapperInvocationTracker ks u \<and> length ks \<le> 3 \<and> t_returned u \<noteq> None"
  using tracker_returns[OF run_refl, of "''h''"] by (simp add: newWrapperInvocationTracker_def)

end
