(* ===== verification/Go_Url.thy ===== *)
theory Go_Url
  imports Prelude
begin

text \<open>
  The part of Go's package \<open>net/url\<close> the program calls: \<open>Parse\<close> with the fields \<open>Path\<close> and \<open>Host\<close> of
  its result, and \<open>Query\<close>.  An error is \<open>None\<close>; its text is not modelled.  The definitions follow the
  documented algorithm: the fragment is cut off, then the scheme, the query, the authority and the path
  are taken apart, and each part is unescaped in its own mode.
\<close>

section \<open>Escapes\<close>

datatype encoding = encodePath | encodeHost | encodeZone | encodeUserPassword | encodeQuery | encodeFragment

definition hex_val :: "char \<Rightarrow> nat option" where
  "hex_val c =
     (if is_digit c then Some (digit_val c)
      else if CHR ''a'' \<le> c \<and> c \<le> CHR ''f'' then Some (of_char c - 87)
      else if CHR ''A'' \<le> c \<and> c \<le> CHR ''F'' then Some (of_char c - 55)
      else None)"

definition is_alnum :: "char \<Rightarrow> bool" where
  "is_alnum c = (is_digit c \<or> (CHR ''a'' \<le> c \<and> c \<le> CHR ''z'') \<or> (CHR ''A'' \<le> c \<and> c \<le> CHR ''Z''))"

text \<open>The characters a host or a zone may contain unescaped.\<close>

definition host_char :: "char \<Rightarrow> bool" where
  "host_char c = (is_alnum c \<or> List.member ''-_.~!$&()*+,;=:[]<>'' c \<or> c = CHR 0x27 \<or> c = CHR 0x22)"

definition cons_opt :: "char \<Rightarrow> string option \<Rightarrow> string option" where
  "cons_opt c r = map_option (\<lambda>s. c # s) r"

fun unescape :: "encoding \<Rightarrow> string \<Rightarrow> string option" where
  "unescape mode [] = Some []"
| "unescape mode (c # cs) =
     (if c = CHR ''%'' then
        (case cs of
           a # b # rest \<Rightarrow>
             (case (hex_val a, hex_val b) of
                (Some h, Some l) \<Rightarrow>
                  (let v = 16 * h + l; out = char_of v in
                   if mode = encodeHost \<and> h < 8 \<and> v \<noteq> 37 then None
                   else if mode = encodeZone \<and> v \<noteq> 37 \<and> out \<noteq> CHR '' '' \<and> \<not> host_char out then None
                   else cons_opt out (unescape mode rest))
              | _ \<Rightarrow> None)
         | _ \<Rightarrow> None)
      else if c = CHR ''+'' \<and> mode = encodeQuery then cons_opt CHR '' '' (unescape mode cs)
      else if (mode = encodeHost \<or> mode = encodeZone) \<and> of_char c < (128 :: nat) \<and> \<not> host_char c then None
      else cons_opt c (unescape mode cs))"

section \<open>Authority\<close>

definition LastCut :: "char \<Rightarrow> string \<Rightarrow> string \<times> string \<times> bool" where
  "LastCut d s =
     (let (after, front, ok) = Cut d (rev s)
      in if ok then (rev front, rev after, True) else (s, [], False))"

definition validOptionalPort :: "string \<Rightarrow> bool" where
  "validOptionalPort port =
     (case port of [] \<Rightarrow> True | c # cs \<Rightarrow> c = CHR '':'' \<and> list_all is_digit cs)"

text \<open>The first occurrence of \<open>%25\<close> splits a bracketed host from its zone.\<close>

fun cut_zone :: "string \<Rightarrow> string \<Rightarrow> (string \<times> string) option" where
  "cut_zone acc [] = None"
| "cut_zone acc (c # cs) =
     (if HasPrefix (c # cs) ''%25'' then Some (rev acc, c # cs) else cut_zone (c # acc) cs)"

definition append_opt :: "string option \<Rightarrow> string option \<Rightarrow> string option" where
  "append_opt a b = (case a of None \<Rightarrow> None | Some x \<Rightarrow> map_option (\<lambda>y. x @ y) b)"

definition parseHost :: "string \<Rightarrow> string option" where
  "parseHost host =
     (if HasPrefix host ''['' then
        (let (inner, port, ok) = LastCut CHR '']'' host in
         if \<not> ok \<or> \<not> validOptionalPort port then None
         else (case cut_zone [] inner of
                 None \<Rightarrow> unescape encodeHost host
               | Some (addr, zone) \<Rightarrow>
                   append_opt (unescape encodeHost addr)
                     (append_opt (unescape encodeZone zone) (unescape encodeHost ('']'' @ port)))))
      else
        (let (front, port, ok) = LastCut CHR '':'' host in
         if ok \<and> \<not> validOptionalPort (CHR '':'' # port) then None else unescape encodeHost host))"

definition validUserinfo :: "string \<Rightarrow> bool" where
  "validUserinfo s = list_all (\<lambda>c. is_alnum c \<or> List.member ''-._:~!$&()*+,;=%@'' c \<or> c = CHR 0x27) s"

definition parseAuthority :: "string \<Rightarrow> string option" where
  "parseAuthority authority =
     (let (user, host, ok) = LastCut CHR ''@'' authority in
      if \<not> ok then parseHost authority
      else (case parseHost host of
              None \<Rightarrow> None
            | Some h \<Rightarrow>
                (if \<not> validUserinfo user then None
                 else (let (name, pw, has_pw) = Cut CHR '':'' user in
                       case (unescape encodeUserPassword name, unescape encodeUserPassword pw) of
                         (Some _, Some _) \<Rightarrow> Some h
                       | _ \<Rightarrow> None))))"

section \<open>Parse\<close>

record URL =
  urlScheme :: string
  urlHost :: string
  urlPath :: string
  urlRawQuery :: string

text \<open>\<open>getScheme\<close>: the scheme and the rest, or an error when the text starts with a colon.\<close>

fun getScheme :: "string \<Rightarrow> string \<Rightarrow> string \<Rightarrow> (string \<times> string) option" where
  "getScheme whole acc [] = Some ([], whole)"
| "getScheme whole acc (c # cs) =
     (if is_alnum c \<and> \<not> is_digit c then getScheme whole (acc @ [c]) cs
      else if is_digit c \<or> c = CHR ''+'' \<or> c = CHR ''-'' \<or> c = CHR ''.'' then
        (if acc = [] then Some ([], whole) else getScheme whole (acc @ [c]) cs)
      else if c = CHR '':'' then (if acc = [] then None else Some (ToLower acc, cs))
      else Some ([], whole))"

definition has_ctl :: "string \<Rightarrow> bool" where
  "has_ctl s = list_ex (\<lambda>c. of_char c < (32 :: nat) \<or> of_char c = (127 :: nat)) s"

definition parse_rest :: "string \<Rightarrow> string \<Rightarrow> string \<Rightarrow> URL option" where
  "parse_rest scheme rest query =
     (if \<not> HasPrefix rest ''/'' \<and> scheme \<noteq> []
      then Some \<lparr>urlScheme = scheme, urlHost = [], urlPath = [], urlRawQuery = query\<rparr>
      else if \<not> HasPrefix rest ''/'' \<and> CHR '':'' \<in> set (fst (Cut CHR ''/'' rest)) then None
      else
        (let has_auth = ((scheme \<noteq> [] \<or> \<not> HasPrefix rest ''///'') \<and> HasPrefix rest ''//'');
             authority = (if has_auth then takeWhile (\<lambda>c. c \<noteq> CHR ''/'') (drop 2 rest) else []);
             path = (if has_auth then dropWhile (\<lambda>c. c \<noteq> CHR ''/'') (drop 2 rest) else rest)
         in case (if has_auth then parseAuthority authority else Some []) of
              None \<Rightarrow> None
            | Some host \<Rightarrow>
                (case unescape encodePath path of
                   None \<Rightarrow> None
                 | Some p \<Rightarrow> Some \<lparr>urlScheme = scheme, urlHost = host, urlPath = p, urlRawQuery = query\<rparr>)))"

definition url_Parse :: "string \<Rightarrow> URL option" where
  "url_Parse raw =
     (let (u, frag, has_frag) = Cut CHR ''#'' raw in
      if has_ctl u then None
      else if u = ''*'' then Some \<lparr>urlScheme = [], urlHost = [], urlPath = u, urlRawQuery = []\<rparr>
      else (case getScheme u [] u of
              None \<Rightarrow> None
            | Some (scheme, rest0) \<Rightarrow>
                (let (rest, query, _) = Cut CHR ''?'' rest0 in
                 if unescape encodeFragment frag = None then None
                 else parse_rest scheme rest query)))"

section \<open>Query\<close>

text \<open>\<open>Query\<close> drops malformed pairs; the values of a key are in order.\<close>

definition parse_pair :: "string \<Rightarrow> (string \<times> string) option" where
  "parse_pair kv =
     (if kv = [] \<or> CHR '';'' \<in> set kv then None
      else (let (k, v, _) = Cut CHR ''='' kv in
            case (unescape encodeQuery k, unescape encodeQuery v) of
              (Some k', Some v') \<Rightarrow> Some (k', v')
            | _ \<Rightarrow> None))"

definition url_Query :: "string \<Rightarrow> (string \<times> string) list" where
  "url_Query raw = List.map_filter parse_pair (Split CHR ''&'' raw)"

section \<open>Lemmas\<close>

lemma unescape_plain:
  "\<forall>c \<in> set s. c \<noteq> CHR ''%'' \<Longrightarrow> mode = encodePath \<or> mode = encodeFragment \<Longrightarrow> unescape mode s = Some s"
proof (induction s)
  case (Cons c s)
  then have "c \<noteq> CHR ''%''" "unescape mode s = Some s" by simp_all
  moreover have "mode \<noteq> encodeQuery" "mode \<noteq> encodeHost" "mode \<noteq> encodeZone" using Cons.prems(2) by auto
  ultimately show ?case unfolding unescape.simps cons_opt_def by (simp only: if_False simp_thms option.map)
qed simp

text \<open>A path of plain characters parses to itself.\<close>

lemma url_Parse_path:
  assumes "HasPrefix p ''/''" and "\<not> HasPrefix p ''//''"
    and "\<forall>c \<in> set p. c \<noteq> CHR ''%'' \<and> c \<noteq> CHR ''#'' \<and> c \<noteq> CHR ''?''" and "\<not> has_ctl p"
  shows "url_Parse p = Some \<lparr>urlScheme = [], urlHost = [], urlPath = p, urlRawQuery = []\<rparr>"
proof -
  obtain q where p: "p = CHR ''/'' # q" using assms(1) by (auto simp: HasPrefix_iff)
  have cut: "Cut CHR ''#'' p = (p, [], False)" "Cut CHR ''?'' p = (p, [], False)"
    using assms(3) by (blast intro: Cut_absent)+
  have "getScheme p [] p = Some ([], p)" by (simp add: p is_alnum_def is_digit_def)
  moreover have "p \<noteq> ''*''" by (simp add: p)
  moreover have "unescape encodePath p = Some p" using assms(3) by (simp add: unescape_plain)
  ultimately show ?thesis
    using cut assms by (simp add: url_Parse_def parse_rest_def)
qed

end
