(* ===== verification/Url_Decode.thy ===== *)
theory Url_Decode
  imports Go_Url
begin

text \<open>
  \<open>internal/products/meegle/commands/url_decode.go\<close> and \<open>url_rules.go\<close>: \<open>meegle url decode\<close> turns a link into
  structured fields by a table of path patterns, tried in order, after legacy paths have been rewritten
  by a table of aliases.

  The maps of captured parameters are association lists in pattern order; the patterns of the tables
  repeat no name, so the order in which Go iterates over them does not matter.
\<close>

section \<open>Data\<close>

record DecodeResult =
  URLKind :: string
  Host :: string
  Pathname :: string
  SimpleName :: string
  WorkItemType :: string
  WorkItemID :: string
  ViewID :: string
  ChartID :: string
  PluginKey :: string
  TeamID :: string
  TemplateID :: string
  User :: string
  BusinessName :: string
  SettingType :: string
  EditStr :: string
  IsResource :: bool
  Query :: "(string \<times> string) list"
  RedirectedFrom :: string
  Raw :: string

definition URLKindUnknown :: string where "URLKindUnknown = ''unknown''"

datatype url_rule = Rule_of (rulePattern: string) (ruleKind: string) (ruleExtras: "(string \<times> string) list")

type_synonym params = "(string \<times> string) list"

section \<open>The tables\<close>

definition urlRules :: "url_rule list" where
  "urlRules =
     [Rule_of ''/'' ''root'' [],
      Rule_of ''/workbench'' ''workbench'' [],
      Rule_of ''/workspaces'' ''workspaces'' [],
      Rule_of ''/favorites'' ''favorites'' [],
      Rule_of ''/inbox'' ''inbox'' [],
      Rule_of ''/teams'' ''teams'' [],
      Rule_of ''/list'' ''project_list'' [],
      Rule_of ''/templates'' ''templates'' [],
      Rule_of ''/tenant'' ''tenant_select'' [],
      Rule_of ''/home'' ''home_ka'' [],
      Rule_of ''/helpcenter'' ''helpcenter'' [],
      Rule_of ''/openapp'' ''openapp'' [],
      Rule_of ''/new-form'' ''quick_create_form'' [],
      Rule_of ''/issue-trans'' ''issue_trans'' [],
      Rule_of ''/jump-to-outer'' ''jump_to_outer'' [],
      Rule_of ''/light-share'' ''light_share'' [],
      Rule_of ''/channel-error'' ''channel_error'' [],
      Rule_of ''/enterprise_manage'' ''enterprise_manage'' [],
      Rule_of ''/fetch-cookie-by-login'' ''login_fetch_cookie'' [],
      Rule_of ''/login-asset'' ''login_asset'' [],
      Rule_of ''/switch-asset'' ''switch_asset'' [],
      Rule_of ''/teams/empty'' ''teams'' [],
      Rule_of ''/teams/detail/:team_id'' ''team_detail'' [],
      Rule_of ''/tenant/create'' ''tenant_create'' [],
      Rule_of ''/templates/manage'' ''template_manage'' [],
      Rule_of ''/templates/detail/:template_id'' ''template_detail'' [],
      Rule_of ''/issue-create-open/use-case'' ''issue_create_open_usecase'' [],
      Rule_of ''/story-create-open/:business_name'' ''story_create_open'' [],
      Rule_of ''/aiApplication/ai_application_share'' ''ai_application_share'' [],
      Rule_of ''/error-page/lark-page-404'' ''lark_page_404'' [],
      Rule_of ''/error-page/project-empty'' ''project_empty_page'' [],
      Rule_of ''/error-page/loading'' ''route_loading'' [],
      Rule_of ''/error-page/system-upgrade'' ''system_upgrade'' [],
      Rule_of ''/b'' ''b_home'' [],
      Rule_of ''/b/noAuth'' ''no_project_auth'' [],
      Rule_of ''/b/preference'' ''preference'' [],
      Rule_of ''/b/mcp'' ''mcp_config'' [],
      Rule_of ''/b/mcp-config'' ''mcp_config'' [],
      Rule_of ''/b/ai'' ''ai_hub'' [],
      Rule_of ''/b/handover'' ''handover'' [],
      Rule_of ''/b/login'' ''login_datacenter'' [],
      Rule_of ''/b/price'' ''trial_price'' [],
      Rule_of ''/b/trial/enable'' ''trial_enable'' [],
      Rule_of ''/b/trial/new'' ''trial_new'' [],
      Rule_of ''/b/onboarding/task'' ''onboarding_task'' [],
      Rule_of ''/b/onboarding/operation-task'' ''onboarding_operation_task'' [],
      Rule_of ''/b/onboarding/create-project-by-shared'' ''onboarding_create_shared'' [],
      Rule_of ''/b/integration/slack/connect'' ''slack_connect'' [],
      Rule_of ''/b/cross/fail'' ''cross_fail'' [],
      Rule_of ''/b/cross/invite'' ''cross_invite'' [],
      Rule_of ''/b/auth/mcp'' ''mcp_auth'' [],
      Rule_of ''/b/auth/mcp-page'' ''mcp_auth'' [],
      Rule_of ''/b/resource/:user'' ''resource_handover'' [],
      Rule_of ''/b/register-meego-unbundled/result'' ''unbundled_register_result'' [],
      Rule_of ''/:simple_name/setting/workObject/:setting_type'' ''setting_workobject'' [],
      Rule_of ''/:simple_name/setting/workObjectSetting/advancedConfig'' ''setting_workobject_advanced'' [],
      Rule_of ''/:simple_name/setting/userGroup/:setting_type'' ''setting_user_group_legacy'' [],
      Rule_of ''/:simple_name/setting/userGroupList'' ''setting_user_group'' [],
      Rule_of ''/:simple_name/setting/permission/:setting_type'' ''setting_permission'' [],
      Rule_of ''/:simple_name/setting/permission_preview'' ''setting_permission_preview'' [],
      Rule_of ''/:simple_name/setting/applyCrossProjectSync'' ''setting_apply_cross_sync'' [],
      Rule_of ''/:simple_name/setting/*'' ''setting_other'' [],
      Rule_of ''/:simple_name/setting'' ''setting_home'' [],
      Rule_of ''/:simple_name/jira-import'' ''import_jira'' [],
      Rule_of ''/:simple_name/import-ins-data'' ''import_excel'' [],
      Rule_of ''/:simple_name/data-recycle-page'' ''data_recycle'' [],
      Rule_of ''/:simple_name/user-gantt/homepage'' ''gantt_homepage'' [],
      Rule_of ''/:simple_name/multi-project-view/homepage'' ''multi_project_homepage'' [],
      Rule_of ''/:simple_name/chart/homepage'' ''chart_homepage'' [],
      Rule_of ''/:simple_name/sub_task/homepage'' ''subtask_homepage'' [],
      Rule_of ''/:simple_name/project-overview/homepage'' ''project_overview_homepage'' [],
      Rule_of ''/:simple_name/chart/detail/:chart_id'' ''chart_detail'' [],
      Rule_of ''/:simple_name/chart/create'' ''chart_create'' [],
      Rule_of ''/:simple_name/chartdatascope/detail/:chart_id'' ''chart_datascope'' [],
      Rule_of ''/:simple_name/chartdatascopeV2/detail/:chart_id'' ''chart_datascope_v2'' [],
      Rule_of ''/:simple_name/chartpenetrate/default/detail/:chart_id'' ''chart_penetrate'' [],
      Rule_of ''/:simple_name/chartpenetrate/detail/:chart_id'' ''chart_penetrate'' [],
      Rule_of ''/:simple_name/chartpenetrate/small/detail/:chart_id'' ''chart_penetrate_small'' [],
      Rule_of ''/:simple_name/chartpenetrateV2/default/detail/:chart_id'' ''chart_penetrate_v2'' [],
      Rule_of ''/:simple_name/chartpenetrateV2/detail/:chart_id'' ''chart_penetrate_v2'' [],
      Rule_of ''/:simple_name/chartpenetrateV2/small/detail/:chart_id'' ''chart_penetrate_v2_small'' [],
      Rule_of ''/:simple_name/storyView/:view_id'' ''view_story'' [(''work_item_type'', ''story'')],
      Rule_of ''/:simple_name/issueView/:view_id'' ''view_issue'' [(''work_item_type'', ''issue'')],
      Rule_of ''/:simple_name/multiProjectView/:view_id'' ''view_multi_project'' [],
      Rule_of ''/:simple_name/project-overview/:view_id'' ''view_project_overview'' [],
      Rule_of ''/:simple_name/userGantt/:view_id'' ''view_user_gantt'' [],
      Rule_of ''/:simple_name/workObjectView/chart/:view_id'' ''view_chart'' [],
      Rule_of ''/:simple_name/workObjectView/:work_item_type/:view_id'' ''view_workitem'' [],
      Rule_of ''/:simple_name/meegoPlg/:plugin_key'' ''plugin_page'' [],
      Rule_of ''/:simple_name/ai-assist'' ''project_ai_assist'' [],
      Rule_of ''/:simple_name/:work_item_type/detail/:work_item_id'' ''workitem_detail'' [],
      Rule_of ''/:simple_name/:work_item_type/create'' ''workitem_create'' [],
      Rule_of ''/:simple_name/:work_item_type/draft'' ''workitem_draft'' [],
      Rule_of ''/:simple_name/:work_item_type/homepage/:edit_str'' ''workitem_homepage_edit'' [],
      Rule_of ''/:simple_name/:work_item_type/homepage'' ''workitem_homepage'' [],
      Rule_of ''/:simple_name/overview/:edit_str'' ''project_overview_edit'' [],
      Rule_of ''/:simple_name/overview'' ''project_overview'' [],
      Rule_of ''/:simple_name/empty'' ''project_empty'' [],
      Rule_of ''/:simple_name/404'' ''project_404'' [],
      Rule_of ''/:simple_name/401'' ''project_401'' [],
      Rule_of ''/:simple_name/500'' ''project_500'' [],
      Rule_of ''/:simple_name'' ''project_home'' []]"

definition urlAliases :: "(string \<times> string) list" where
  "urlAliases =
     [(''/feishu_workbench_mobile'', ''/workbench''),
      (''/fetchCookieByLogin'', ''/fetch-cookie-by-login''),
      (''/loginAsset'', ''/login-asset''),
      (''/switchAsset'', ''/switch-asset''),
      (''/new_form'', ''/new-form''),
      (''/issue_trans'', ''/issue-trans''),
      (''/issue_create_open/use_case'', ''/issue-create-open/use-case''),
      (''/story_create_open/:business_name'', ''/story-create-open/:business_name''),
      (''/jumpToOuter'', ''/jump-to-outer''),
      (''/light_share'', ''/light-share''),
      (''/:simple_name/jiraImport'', ''/:simple_name/jira-import''),
      (''/:simple_name/importInsData'', ''/:simple_name/import-ins-data'')]"

section \<open>Operations\<close>

definition splitPath :: "string \<Rightarrow> string list" where
  "splitPath p = (let q = TrimChar CHR ''/'' p in if q = [] then [] else Split CHR ''/'' q)"

text \<open>The loop over the positions of a pattern, which is not longer than the path.\<close>

fun match_segments_from :: "string list \<Rightarrow> string list \<Rightarrow> params option" where
  "match_segments_from [] segs = Some []"
| "match_segments_from (p # ps) [] = None"
| "match_segments_from (p # ps) (s # segs) =
     (if HasPrefix p '':'' then map_option (\<lambda>ms. (tl p, s) # ms) (match_segments_from ps segs)
      else if p = s then match_segments_from ps segs else None)"

definition match_pattern :: "string list \<Rightarrow> string list \<Rightarrow> params option" where
  "match_pattern pat segs =
     (if pat \<noteq> [] \<and> List.last pat = ''*''
      then (if length segs < length pat then None else match_segments_from (butlast pat) segs)
      else if length segs \<noteq> length pat then None else match_segments_from pat segs)"

definition applyParam :: "string \<Rightarrow> string \<Rightarrow> DecodeResult \<Rightarrow> DecodeResult" where
  "applyParam name value res =
     (if name = ''simple_name'' then res\<lparr>SimpleName := value\<rparr>
      else if name = ''work_item_type'' then res\<lparr>WorkItemType := value\<rparr>
      else if name = ''work_item_id'' then res\<lparr>WorkItemID := value\<rparr>
      else if name = ''view_id'' then res\<lparr>ViewID := value\<rparr>
      else if name = ''chart_id'' then res\<lparr>ChartID := value\<rparr>
      else if name = ''plugin_key'' then res\<lparr>PluginKey := value\<rparr>
      else if name = ''team_id'' then res\<lparr>TeamID := value\<rparr>
      else if name = ''template_id'' then res\<lparr>TemplateID := value\<rparr>
      else if name = ''user'' then res\<lparr>User := value\<rparr>
      else if name = ''business_name'' then res\<lparr>BusinessName := value\<rparr>
      else if name = ''setting_type'' then res\<lparr>SettingType := value\<rparr>
      else if name = ''edit_str'' then res\<lparr>EditStr := value\<rparr>
      else res)"

definition apply_params :: "params \<Rightarrow> DecodeResult \<Rightarrow> DecodeResult" where
  "apply_params ps res = fold (\<lambda>(k, v). applyParam k v) ps res"

definition stripResourceWrap :: "string \<Rightarrow> string option" where
  "stripResourceWrap name =
     (if length name < 3 then None
      else if \<not> HasPrefix name ''_'' \<or> \<not> HasSuffix name ''_resource'' then None
      else (let inner = TrimSuffix (TrimPrefix name ''_'') ''_resource''
            in if inner = [] then None else Some inner))"

definition unwrap_type :: "DecodeResult \<Rightarrow> DecodeResult" where
  "unwrap_type res =
     (case stripResourceWrap (WorkItemType res) of
        None \<Rightarrow> res
      | Some t \<Rightarrow> res\<lparr>WorkItemType := t, IsResource := True\<rparr>)"

fun first_rule :: "url_rule list \<Rightarrow> string list \<Rightarrow> (url_rule \<times> params) option" where
  "first_rule [] segs = None"
| "first_rule (r # rs) segs =
     (case match_pattern (splitPath (rulePattern r)) segs of
        None \<Rightarrow> first_rule rs segs
      | Some ps \<Rightarrow> Some (r, ps))"

definition matchRule :: "string \<Rightarrow> DecodeResult \<Rightarrow> DecodeResult option" where
  "matchRule path res =
     (case first_rule urlRules (splitPath path) of
        None \<Rightarrow> None
      | Some (r, ps) \<Rightarrow>
          Some (unwrap_type (apply_params ps (apply_params (ruleExtras r) (res\<lparr>URLKind := ruleKind r\<rparr>)))))"

fun first_alias :: "(string \<times> string) list \<Rightarrow> string list \<Rightarrow> (string \<times> params) option" where
  "first_alias [] segs = None"
| "first_alias ((pattern, target) # rest) segs =
     (let pat = splitPath pattern in
      case (if length pat \<noteq> length segs then None else match_segments_from pat segs) of
        None \<Rightarrow> first_alias rest segs
      | Some ps \<Rightarrow> Some (target, ps))"

definition matchAlias :: "string \<Rightarrow> (string \<times> params) option" where
  "matchAlias path = first_alias urlAliases (splitPath path)"

definition fill :: "params \<Rightarrow> string \<Rightarrow> string" where
  "fill ps s = (if HasPrefix s '':'' then (case map_of ps (tl s) of Some v \<Rightarrow> v | None \<Rightarrow> s) else s)"

definition applyTemplate :: "string \<Rightarrow> params \<Rightarrow> string" where
  "applyTemplate target ps = CHR ''/'' # Join ''/'' (map (fill ps) (splitPath target))"

section \<open>Decoding\<close>

datatype decode_error = EmptyUrl | InvalidUrl

definition empty_result :: DecodeResult where
  "empty_result =
     \<lparr>URLKind = [], Host = [], Pathname = [], SimpleName = [], WorkItemType = [], WorkItemID = [],
      ViewID = [], ChartID = [], PluginKey = [], TeamID = [], TemplateID = [], User = [],
      BusinessName = [], SettingType = [], EditStr = [], IsResource = False, Query = [],
      RedirectedFrom = [], Raw = []\<rparr>"

fun first_values :: "(string \<times> string) list \<Rightarrow> (string \<times> string) list" where
  "first_values [] = []"
| "first_values ((k, v) # kvs) = (k, v) # filter (\<lambda>kv. fst kv \<noteq> k) (first_values kvs)"

definition strip_meego :: "string \<Rightarrow> string option" where
  "strip_meego pathname =
     (if HasPrefix pathname ''/meego/'' \<or> pathname = ''/meego''
      then Some (let p = TrimPrefix pathname ''/meego'' in if p = [] then ''/'' else p)
      else None)"

definition decode_path :: "string \<Rightarrow> DecodeResult \<Rightarrow> DecodeResult" where
  "decode_path pathname res0 =
     (let (workPath, res1) = (case strip_meego pathname of
            None \<Rightarrow> (pathname, res0)
          | Some p \<Rightarrow> (p, res0\<lparr>RedirectedFrom := pathname\<rparr>));
          (path, res2) = (case matchAlias workPath of
            None \<Rightarrow> (workPath, res1)
          | Some (target, ps) \<Rightarrow>
              (applyTemplate target ps,
               if RedirectedFrom res1 = [] then res1\<lparr>RedirectedFrom := workPath\<rparr> else res1))
      in case matchRule path res2 of
           Some res \<Rightarrow> res
         | None \<Rightarrow> res2\<lparr>URLKind := URLKindUnknown\<rparr>)"

definition DecodeURL :: "string \<Rightarrow> (decode_error, DecodeResult) result" where
  "DecodeURL raw =
     (let trimmed = TrimSpace raw in
      if trimmed = [] then Inl EmptyUrl
      else
        (let input = (if \<not> HasPrefix trimmed ''/'' \<and> \<not> Contains trimmed ''://'' then ''https://'' @ trimmed else trimmed)
         in case url_Parse input of
              None \<Rightarrow> Inl InvalidUrl
            | Some u \<Rightarrow>
                (let pathname = (if urlPath u = [] then ''/'' else urlPath u) in
                 Inr (decode_path pathname
                   (empty_result\<lparr>Host := urlHost u, Pathname := pathname, Raw := raw,
                      Query := first_values (url_Query (urlRawQuery u))\<rparr>)))))"

section \<open>Matching\<close>

definition literal_seg :: "string \<Rightarrow> bool" where
  "literal_seg p = (\<not> HasPrefix p '':'')"

lemma match_from_sound:
  "match_segments_from pat segs = Some ps \<Longrightarrow> j < length pat \<Longrightarrow>
   j < length segs \<and> (literal_seg (pat ! j) \<longrightarrow> pat ! j = segs ! j)"
proof (induction pat segs arbitrary: ps j rule: match_segments_from.induct)
  case (3 p pt s segs)
  then show ?case by (cases j) (auto simp: literal_seg_def split: if_splits)
qed auto

lemma match_from_values: "match_segments_from pat segs = Some ps \<Longrightarrow> snd ` set ps \<subseteq> set segs"
proof (induction pat segs arbitrary: ps rule: match_segments_from.induct)
  case (3 p pt s segs)
  then show ?case by (fastforce split: if_splits)
qed auto

lemma match_from_fill:
  "match_segments_from pat (map (fill ps) pat) \<noteq> None"
  by (induction pat) (auto simp: fill_def)

lemma first_rule_finds:
  "r \<in> set rs \<Longrightarrow> match_pattern (splitPath (rulePattern r)) segs \<noteq> None \<Longrightarrow> first_rule rs segs \<noteq> None"
  by (induction rs) (auto split: option.splits)

lemma first_rule_skip:
  "list_all (\<lambda>r. match_pattern (splitPath (rulePattern r)) segs = None) rs \<Longrightarrow>
   first_rule (rs @ rs') segs = first_rule rs' segs"
  by (induction rs) auto

lemma first_alias_member:
  "first_alias as segs = Some (t, ps) \<Longrightarrow>
   \<exists>p. (p, t) \<in> set as \<and> length (splitPath p) = length segs \<and> match_segments_from (splitPath p) segs = Some ps"
proof (induction as segs rule: first_alias.induct)
  case (2 pattern target rest segs)
  show ?case
  proof (cases "if length (splitPath pattern) \<noteq> length segs then None else match_segments_from (splitPath pattern) segs")
    case None
    with 2 show ?thesis by (auto simp: Let_def split: if_splits)
  next
    case (Some qs)
    with 2(2) show ?thesis by (auto simp: Let_def split: if_splits)
  qed
qed simp

section \<open>Paths and segments\<close>

definition segment_ok :: "string \<Rightarrow> bool" where
  "segment_ok s = (s \<noteq> [] \<and> CHR ''/'' \<notin> set s)"

lemma Join_ends:
  assumes "ws \<noteq> []" and "\<forall>w \<in> set ws. segment_ok w"
  shows "Join ''/'' ws \<noteq> [] \<and> hd (Join ''/'' ws) \<noteq> CHR ''/'' \<and> List.last (Join ''/'' ws) \<noteq> CHR ''/''"
  using assms
proof (induction ws)
  case (Cons w ws)
  have w: "w \<noteq> []" "CHR ''/'' \<notin> set w" using Cons.prems(2) by (auto simp: segment_ok_def)
  then have "hd w \<noteq> CHR ''/''" "List.last w \<noteq> CHR ''/''"
    using hd_in_set[OF w(1)] last_in_set[OF w(1)] by metis+
  with w Cons show ?case by (cases "ws = []") (auto simp: Join_Cons)
qed simp

lemma splitPath_Join:
  assumes "ws \<noteq> []" and "\<forall>w \<in> set ws. segment_ok w"
  shows "splitPath (CHR ''/'' # Join ''/'' ws) = ws"
proof -
  note ends = Join_ends[OF assms]
  obtain c cs where j: "Join ''/'' ws = c # cs" using ends by (cases "Join ''/'' ws") auto
  have "TrimChar CHR ''/'' (CHR ''/'' # Join ''/'' ws) = TrimChar CHR ''/'' (Join ''/'' ws)"
    by (simp add: TrimChar_def trim_by_def)
  also have "\<dots> = Join ''/'' ws" unfolding TrimChar_def using ends by (intro trim_by_ends) auto
  finally have "splitPath (CHR ''/'' # Join ''/'' ws) = Split CHR ''/'' (Join ''/'' ws)"
    using ends by (simp add: splitPath_def)
  also have "\<dots> = ws" using assms by (intro Split_Join) (auto simp: segment_ok_def)
  finally show ?thesis .
qed

lemma Split_two: "Split d s = [a, b] \<Longrightarrow> s = a @ d # b"
  using Join_Split[of d s] by simp

lemma trimmed_ends:
  assumes "trim_by p s = q" and "q \<noteq> []" shows "\<not> p (hd q) \<and> \<not> p (List.last q)"
proof -
  let ?m = "dropWhile p s"
  have q: "q = rev (dropWhile p (rev ?m))" using assms(1) by (simp add: trim_by_def)
  then have ne: "dropWhile p (rev ?m) \<noteq> []" using assms(2) by auto
  from hd_dropWhile[OF this] have last: "\<not> p (List.last q)" using q by (simp add: last_rev)
  have "?m \<noteq> []" using ne by (metis dropWhile.simps(1) rev.simps(1))
  moreover have "\<exists>z. ?m = q @ z"
    unfolding q by (metis rev_append rev_rev_ident takeWhile_dropWhile_id)
  ultimately have "hd q = hd ?m" using assms(2) by auto
  moreover have "\<not> p (hd ?m)" using \<open>?m \<noteq> []\<close> by (rule hd_dropWhile)
  ultimately show ?thesis using last by simp
qed

text \<open>A path of at most two segments has no empty one.\<close>

lemma short_segments_ok:
  assumes "length (splitPath p) \<le> 2" shows "\<forall>s \<in> set (splitPath p). segment_ok s"
proof (cases "TrimChar CHR ''/'' p = []")
  case True
  then show ?thesis by (simp add: splitPath_def)
next
  case False
  let ?q = "TrimChar CHR ''/'' p"
  have ends: "hd ?q \<noteq> CHR ''/''" "List.last ?q \<noteq> CHR ''/''"
    using trimmed_ends[of "\<lambda>c. c = CHR ''/''" p ?q] False by (auto simp: TrimChar_def)
  have sp: "splitPath p = Split CHR ''/'' ?q" using False by (simp add: splitPath_def)
  have free: "CHR ''/'' \<notin> set w" if "w \<in> set (splitPath p)" for w using that Split_sep_free by (simp add: sp)
  have "length (splitPath p) \<noteq> 0" by (simp add: sp)
  then consider (one) a where "splitPath p = [a]" | (two) a b where "splitPath p = [a, b]"
    using assms by (cases "splitPath p" rule: remdups_adj.cases) (auto simp: length_Suc_conv)
  then show ?thesis
  proof cases
    case one
    then have "?q = a" using Join_Split[of "CHR ''/''" ?q] sp by simp
    with one False free show ?thesis by (simp add: segment_ok_def)
  next
    case two
    then have q: "?q = a @ CHR ''/'' # b" using Split_two sp by simp
    then have "a \<noteq> []" "b \<noteq> []" using ends by auto
    with two free show ?thesis by (simp add: segment_ok_def)
  qed
qed

section \<open>Properties\<close>

text \<open>What the tables must satisfy for one hop to be enough; the tables are checked by evaluation.\<close>

definition alias_ok :: "string \<times> string \<Rightarrow> bool" where
  "alias_ok a =
     (length (splitPath (fst a)) \<le> 2 \<and> splitPath (snd a) \<noteq> [] \<and> List.last (splitPath (snd a)) \<noteq> ''*'' \<and>
      list_all segment_ok (splitPath (snd a)) \<and> List.member (map rulePattern urlRules) (snd a))"

lemma aliases_ok: "list_all alias_ok urlAliases"
  by code_simp

lemma fill_ok:
  assumes "match_segments_from pat segs = Some ps" and "\<forall>s \<in> set segs. segment_ok s" and "segment_ok s"
  shows "segment_ok (fill ps s)"
  using match_from_values[OF assms(1)] assms(2,3)
  by (fastforce simp: fill_def split: option.splits dest: map_of_SomeD)

text \<open>
  One hop is enough: whenever a path matches an alias, the rewritten path matches a rule of the
  table, so a legacy link is never reported as unknown.
\<close>

lemma alias_resolves:
  assumes "matchAlias path = Some (target, ps)"
  shows "\<exists>res'. matchRule (applyTemplate target ps) res = Some res'"
proof -
  from first_alias_member[OF assms[unfolded matchAlias_def]] obtain p where
    p: "(p, target) \<in> set urlAliases" "length (splitPath p) = length (splitPath path)"
       "match_segments_from (splitPath p) (splitPath path) = Some ps" by blast
  from aliases_ok p(1) have ok: "alias_ok (p, target)" by (auto simp: list_all_iff)
  let ?t = "splitPath target"
  have "\<forall>s \<in> set (splitPath path). segment_ok s"
    using ok p(2) by (intro short_segments_ok) (simp add: alias_ok_def)
  with fill_ok[OF p(3)] ok have "\<forall>w \<in> set (map (fill ps) ?t). segment_ok w"
    by (auto simp: alias_ok_def list_all_iff)
  moreover have "map (fill ps) ?t \<noteq> []" using ok by (simp add: alias_ok_def)
  ultimately have split: "splitPath (applyTemplate target ps) = map (fill ps) ?t"
    unfolding applyTemplate_def by (intro splitPath_Join)
  from ok obtain r where r: "r \<in> set urlRules" "rulePattern r = target"
    by (auto simp: alias_ok_def)
  have "match_pattern (splitPath (rulePattern r)) (map (fill ps) ?t) \<noteq> None"
    using ok match_from_fill[of ?t ps] by (simp add: r(2) match_pattern_def alias_ok_def)
  from first_rule_finds[OF r(1) this] show ?thesis
    by (auto simp: matchRule_def split)
qed

lemma alias_resolves_witness:
  "\<exists>res'. matchRule (applyTemplate ''/:simple_name/jira-import'' [(''simple_name'', ''abc'')]) empty_result = Some res'"
proof -
  have "matchAlias ''/abc/jiraImport'' = Some (''/:simple_name/jira-import'', [(''simple_name'', ''abc'')])" by code_simp
  from alias_resolves[OF this] show ?thesis .
qed

text \<open>The patterns of the table, split.\<close>

definition rule_segments :: "string list list" where
  "rule_segments =
     [[],
      [''workbench''],
      [''workspaces''],
      [''favorites''],
      [''inbox''],
      [''teams''],
      [''list''],
      [''templates''],
      [''tenant''],
      [''home''],
      [''helpcenter''],
      [''openapp''],
      [''new-form''],
      [''issue-trans''],
      [''jump-to-outer''],
      [''light-share''],
      [''channel-error''],
      [''enterprise_manage''],
      [''fetch-cookie-by-login''],
      [''login-asset''],
      [''switch-asset''],
      [''teams'', ''empty''],
      [''teams'', ''detail'', '':team_id''],
      [''tenant'', ''create''],
      [''templates'', ''manage''],
      [''templates'', ''detail'', '':template_id''],
      [''issue-create-open'', ''use-case''],
      [''story-create-open'', '':business_name''],
      [''aiApplication'', ''ai_application_share''],
      [''error-page'', ''lark-page-404''],
      [''error-page'', ''project-empty''],
      [''error-page'', ''loading''],
      [''error-page'', ''system-upgrade''],
      [''b''],
      [''b'', ''noAuth''],
      [''b'', ''preference''],
      [''b'', ''mcp''],
      [''b'', ''mcp-config''],
      [''b'', ''ai''],
      [''b'', ''handover''],
      [''b'', ''login''],
      [''b'', ''price''],
      [''b'', ''trial'', ''enable''],
      [''b'', ''trial'', ''new''],
      [''b'', ''onboarding'', ''task''],
      [''b'', ''onboarding'', ''operation-task''],
      [''b'', ''onboarding'', ''create-project-by-shared''],
      [''b'', ''integration'', ''slack'', ''connect''],
      [''b'', ''cross'', ''fail''],
      [''b'', ''cross'', ''invite''],
      [''b'', ''auth'', ''mcp''],
      [''b'', ''auth'', ''mcp-page''],
      [''b'', ''resource'', '':user''],
      [''b'', ''register-meego-unbundled'', ''result''],
      ['':simple_name'', ''setting'', ''workObject'', '':setting_type''],
      ['':simple_name'', ''setting'', ''workObjectSetting'', ''advancedConfig''],
      ['':simple_name'', ''setting'', ''userGroup'', '':setting_type''],
      ['':simple_name'', ''setting'', ''userGroupList''],
      ['':simple_name'', ''setting'', ''permission'', '':setting_type''],
      ['':simple_name'', ''setting'', ''permission_preview''],
      ['':simple_name'', ''setting'', ''applyCrossProjectSync''],
      ['':simple_name'', ''setting'', ''*''],
      ['':simple_name'', ''setting''],
      ['':simple_name'', ''jira-import''],
      ['':simple_name'', ''import-ins-data''],
      ['':simple_name'', ''data-recycle-page''],
      ['':simple_name'', ''user-gantt'', ''homepage''],
      ['':simple_name'', ''multi-project-view'', ''homepage''],
      ['':simple_name'', ''chart'', ''homepage''],
      ['':simple_name'', ''sub_task'', ''homepage''],
      ['':simple_name'', ''project-overview'', ''homepage''],
      ['':simple_name'', ''chart'', ''detail'', '':chart_id''],
      ['':simple_name'', ''chart'', ''create''],
      ['':simple_name'', ''chartdatascope'', ''detail'', '':chart_id''],
      ['':simple_name'', ''chartdatascopeV2'', ''detail'', '':chart_id''],
      ['':simple_name'', ''chartpenetrate'', ''default'', ''detail'', '':chart_id''],
      ['':simple_name'', ''chartpenetrate'', ''detail'', '':chart_id''],
      ['':simple_name'', ''chartpenetrate'', ''small'', ''detail'', '':chart_id''],
      ['':simple_name'', ''chartpenetrateV2'', ''default'', ''detail'', '':chart_id''],
      ['':simple_name'', ''chartpenetrateV2'', ''detail'', '':chart_id''],
      ['':simple_name'', ''chartpenetrateV2'', ''small'', ''detail'', '':chart_id''],
      ['':simple_name'', ''storyView'', '':view_id''],
      ['':simple_name'', ''issueView'', '':view_id''],
      ['':simple_name'', ''multiProjectView'', '':view_id''],
      ['':simple_name'', ''project-overview'', '':view_id''],
      ['':simple_name'', ''userGantt'', '':view_id''],
      ['':simple_name'', ''workObjectView'', ''chart'', '':view_id''],
      ['':simple_name'', ''workObjectView'', '':work_item_type'', '':view_id''],
      ['':simple_name'', ''meegoPlg'', '':plugin_key''],
      ['':simple_name'', ''ai-assist''],
      ['':simple_name'', '':work_item_type'', ''detail'', '':work_item_id''],
      ['':simple_name'', '':work_item_type'', ''create''],
      ['':simple_name'', '':work_item_type'', ''draft''],
      ['':simple_name'', '':work_item_type'', ''homepage'', '':edit_str''],
      ['':simple_name'', '':work_item_type'', ''homepage''],
      ['':simple_name'', ''overview'', '':edit_str''],
      ['':simple_name'', ''overview''],
      ['':simple_name'', ''empty''],
      ['':simple_name'', ''404''],
      ['':simple_name'', ''401''],
      ['':simple_name'', ''500''],
      ['':simple_name'']]"

lemma rule_segments_eq: "map (\<lambda>r. splitPath (rulePattern r)) urlRules = rule_segments"
  by code_simp

fun first_index :: "string list list \<Rightarrow> string list \<Rightarrow> nat option" where
  "first_index [] segs = None"
| "first_index (p # ps) segs =
     (if match_pattern p segs \<noteq> None then Some 0 else map_option Suc (first_index ps segs))"

lemma first_rule_index:
  "map_option fst (first_rule rs segs) =
   map_option (\<lambda>k. rs ! k) (first_index (map (\<lambda>r. splitPath (rulePattern r)) rs) segs)"
  by (induction rs) (auto split: option.splits simp: option.map_comp comp_def)

definition sample_segments :: "string list \<Rightarrow> string list" where
  "sample_segments pat = map (\<lambda>s. if HasPrefix s '':'' then ''X'' else if s = ''*'' then ''Y'' else s) pat"

definition picks :: "nat \<Rightarrow> nat \<Rightarrow> bool" where
  "picks i j =
     list_all (\<lambda>k. first_index rule_segments (sample_segments (rule_segments ! k)) = Some k) [i..<j]"

lemma picks_1: "picks 0 50" by code_simp
lemma picks_2: "picks 50 75" by code_simp
lemma picks_3: "picks 75 95" by code_simp
lemma picks_4: "picks 95 (length rule_segments)" by code_simp

lemma picks_all: "k < length rule_segments \<Longrightarrow> first_index rule_segments (sample_segments (rule_segments ! k)) = Some k"
proof -
  assume k: "k < length rule_segments"
  have "k < 50 \<or> 50 \<le> k \<and> k < 75 \<or> 75 \<le> k \<and> k < 95 \<or> 95 \<le> k \<and> k < length rule_segments"
    using k by linarith
  then have "\<exists>a b. picks a b \<and> k \<in> set [a..<b]"
    using picks_1 picks_2 picks_3 picks_4 by (simp only: set_upt atLeastLessThan_iff) blast
  then show ?thesis unfolding picks_def list_all_iff by blast
qed

definition sample_path :: "url_rule \<Rightarrow> string list" where
  "sample_path r = sample_segments (splitPath (rulePattern r))"

text \<open>
  The order of the table leaves no rule dead: for every rule there is a path that it, and no earlier
  rule, matches.
\<close>

lemma no_dead_rule:
  "map (\<lambda>r. map_option fst (first_rule urlRules (sample_path r))) urlRules = map Some urlRules"
proof (rule nth_equalityI)
  fix k assume "k < length (map (\<lambda>r. map_option fst (first_rule urlRules (sample_path r))) urlRules)"
  then have k: "k < length urlRules" by simp
  have len: "length rule_segments = length urlRules" unfolding rule_segments_eq[symmetric] by simp
  have "splitPath (rulePattern (urlRules ! k)) = rule_segments ! k"
    unfolding rule_segments_eq[symmetric] using k by simp
  then have "map_option fst (first_rule urlRules (sample_path (urlRules ! k))) = Some (urlRules ! k)"
    using picks_all[of k] k len by (simp add: first_rule_index rule_segments_eq sample_path_def)
  with k show "map (\<lambda>r. map_option fst (first_rule urlRules (sample_path r))) urlRules ! k = map Some urlRules ! k"
    by simp
qed simp

section \<open>Links to work items\<close>

definition plain :: "string \<Rightarrow> bool" where
  "plain s = (s \<noteq> [] \<and> list_all (\<lambda>c. is_alnum c \<or> c = CHR ''-'' \<or> c = CHR ''_'') s)"

text \<open>The second segments that the table reserves before the rule for work items.\<close>

definition reserved_types :: "string list" where
  "reserved_types =
     [''setting'', ''chart'', ''chartdatascope'', ''chartdatascopeV2'', ''chartpenetrate'', ''chartpenetrateV2'',
      ''workObjectView'']"

definition detail_pattern :: "string list" where
  "detail_pattern = ['':simple_name'', '':work_item_type'', ''detail'', '':work_item_id'']"

text \<open>A check that a pattern cannot match a path \<open>/s/t/detail/i\<close> with an unreserved \<open>t\<close>.\<close>

definition blocked :: "string list \<Rightarrow> bool" where
  "blocked pat =
     (let wild = (pat \<noteq> [] \<and> List.last pat = ''*''); fixed = (if wild then butlast pat else pat) in
      (if wild then length pat > 4 else length pat \<noteq> 4) \<or>
      (length fixed \<ge> 2 \<and> literal_seg (fixed ! 1) \<and> List.member reserved_types (fixed ! 1)) \<or>
      (length fixed \<ge> 3 \<and> literal_seg (fixed ! 2) \<and> fixed ! 2 \<noteq> ''detail''))"

lemma blocked_sound:
  assumes "blocked pat" and "t \<notin> set reserved_types"
  shows "match_pattern pat [s, t, ''detail'', i] = None"
proof (rule ccontr)
  let ?segs = "[s, t, ''detail'', i]"
  define fixed where "fixed = (if pat \<noteq> [] \<and> List.last pat = ''*'' then butlast pat else pat)"
  assume "match_pattern pat ?segs \<noteq> None"
  then obtain ps where m: "match_segments_from fixed ?segs = Some ps"
    and len: "if pat \<noteq> [] \<and> List.last pat = ''*'' then length pat \<le> 4 else length pat = 4"
    by (auto simp: match_pattern_def fixed_def split: if_splits)
  have 1: "length fixed \<ge> 2 \<Longrightarrow> literal_seg (fixed ! 1) \<Longrightarrow> fixed ! 1 = t"
    using match_from_sound[OF m, of 1] by simp
  have 2: "length fixed \<ge> 3 \<Longrightarrow> literal_seg (fixed ! 2) \<Longrightarrow> fixed ! 2 = ''detail''"
    using match_from_sound[OF m, of 2] by simp
  from assms(1) len 1 2 assms(2) show False
    unfolding blocked_def Let_def fixed_def[symmetric] by (auto split: if_splits)
qed

lemma detail_rule_split:
  "urlRules = takeWhile (\<lambda>r. blocked (splitPath (rulePattern r))) urlRules @
     dropWhile (\<lambda>r. blocked (splitPath (rulePattern r))) urlRules"
  "hd (dropWhile (\<lambda>r. blocked (splitPath (rulePattern r))) urlRules) =
     Rule_of ''/:simple_name/:work_item_type/detail/:work_item_id'' ''workitem_detail'' []"
  "dropWhile (\<lambda>r. blocked (splitPath (rulePattern r))) urlRules \<noteq> []"
  by (simp, code_simp, code_simp)

lemma detail_first_rule:
  assumes "t \<notin> set reserved_types"
  shows "first_rule urlRules [s, t, ''detail'', i] =
    Some (Rule_of ''/:simple_name/:work_item_type/detail/:work_item_id'' ''workitem_detail'' [],
      [(''simple_name'', s), (''work_item_type'', t), (''work_item_id'', i)])"
proof -
  let ?p = "\<lambda>r. blocked (splitPath (rulePattern r))"
  let ?r = "Rule_of ''/:simple_name/:work_item_type/detail/:work_item_id'' ''workitem_detail'' []"
  obtain rs where drop: "dropWhile ?p urlRules = ?r # rs"
    using detail_rule_split(2,3) by (cases "dropWhile ?p urlRules") auto
  have "list_all (\<lambda>r. match_pattern (splitPath (rulePattern r)) [s, t, ''detail'', i] = None) (takeWhile ?p urlRules)"
    using blocked_sound[OF _ assms] by (auto simp: list_all_iff dest: set_takeWhileD)
  from first_rule_skip[OF this, of "dropWhile ?p urlRules"] detail_rule_split(1)
  have "first_rule urlRules [s, t, ''detail'', i] = first_rule (?r # rs) [s, t, ''detail'', i]" by (simp add: drop)
  moreover have "splitPath (rulePattern ?r) = detail_pattern" by code_simp
  ultimately show ?thesis by (simp add: match_pattern_def detail_pattern_def)
qed

lemma plain_facts:
  assumes "plain s"
  shows "s \<noteq> []" "c \<in> set s \<Longrightarrow> is_alnum c \<or> c = CHR ''-'' \<or> c = CHR ''_''"
  using assms by (auto simp: plain_def list_all_iff)

definition url_char :: "char \<Rightarrow> bool" where
  "url_char c = (is_alnum c \<or> c = CHR ''-'' \<or> c = CHR ''_'' \<or> c = CHR ''/'')"

lemma url_char_code: "url_char c \<Longrightarrow> 45 \<le> (of_char c :: nat) \<and> (of_char c :: nat) < 127"
  by (auto simp: url_char_def is_alnum_def is_digit_def less_eq_char_def)

lemma url_char_not:
  "url_char c \<Longrightarrow> c \<noteq> CHR ''%'' \<and> c \<noteq> CHR ''#'' \<and> c \<noteq> CHR ''?'' \<and> \<not> is_space c"
proof -
  assume "url_char c"
  then have "(of_char c :: nat) \<ge> 45" "(of_char c :: nat) \<noteq> 63"
    using url_char_code[of c] by (auto simp: url_char_def is_alnum_def is_digit_def less_eq_char_def)
  then show ?thesis by (auto simp: is_space_def)
qed

definition detail_link :: "string \<Rightarrow> string \<Rightarrow> string \<Rightarrow> string" where
  "detail_link s t i = CHR ''/'' # Join ''/'' [s, t, ''detail'', i]"

lemma detail_link_chars:
  assumes "plain s" "plain t" "plain i" shows "\<forall>c \<in> set (detail_link s t i). url_char c"
  using plain_facts(2)[OF assms(1)] plain_facts(2)[OF assms(2)] plain_facts(2)[OF assms(3)]
  by (auto simp: detail_link_def url_char_def is_alnum_def)

lemma plain_segment: "plain s \<Longrightarrow> segment_ok s"
  using plain_facts(1)[of s] plain_facts(2)[of s "CHR ''/''"] by (auto simp: segment_ok_def is_alnum_def is_digit_def)

lemma detail_not_alias:
  assumes "length (splitPath p) = 4" shows "matchAlias p = None"
proof (cases "matchAlias p")
  case (Some tp)
  obtain t ps where tp: "tp = (t, ps)" by (cases tp)
  from first_alias_member[of urlAliases "splitPath p" t ps] Some tp obtain q where
    "(q, t) \<in> set urlAliases" "length (splitPath q) = 4" using assms by (auto simp: matchAlias_def)
  with aliases_ok have False by (auto simp: list_all_iff alias_ok_def)
  then show ?thesis ..
qed

text \<open>
  Links to work items decode to what they were built from: for names of letters, digits, hyphens and
  underscores, with a space not called \<open>meego\<close> and a type the table does not reserve, the link
  \<open>/space/type/detail/id\<close> yields the kind, the space and the id, and the type without its resource wrapping.
\<close>

lemma workitem_link_roundtrip:
  assumes "plain s" and "plain t" and "plain i" and "s \<noteq> ''meego''" and "t \<notin> set reserved_types"
  shows "DecodeURL (detail_link s t i) =
    Inr (empty_result\<lparr>URLKind := ''workitem_detail'', Pathname := detail_link s t i, Raw := detail_link s t i,
      SimpleName := s, WorkItemID := i,
      WorkItemType := (case stripResourceWrap t of None \<Rightarrow> t | Some u \<Rightarrow> u),
      IsResource := (stripResourceWrap t \<noteq> None)\<rparr>)"
proof -
  let ?l = "detail_link s t i"
  note chars = detail_link_chars[OF assms(1-3)]
  have segs: "\<forall>w \<in> set [s, t, ''detail'', i]. segment_ok w"
    using assms(1-3) plain_segment by (auto simp: segment_ok_def)
  have split: "splitPath ?l = [s, t, ''detail'', i]"
    unfolding detail_link_def using segs by (intro splitPath_Join) simp
  obtain c cs where s: "s = c # cs" "c \<noteq> CHR ''/''" using segs by (cases s) (auto simp: segment_ok_def)
  have l: "?l = CHR ''/'' # s @ ''/'' @ t @ ''/detail/'' @ i" by (simp add: detail_link_def)
  have trim: "TrimSpace ?l = ?l" using chars url_char_not by (intro TrimSpace_id) blast
  have parse: "url_Parse ?l = Some \<lparr>urlScheme = [], urlHost = [], urlPath = ?l, urlRawQuery = []\<rparr>"
  proof (rule url_Parse_path)
    show "HasPrefix ?l ''/''" by (simp add: l)
    show "\<not> HasPrefix ?l ''//''" unfolding l using s by simp
    show "\<forall>c \<in> set ?l. c \<noteq> CHR ''%'' \<and> c \<noteq> CHR ''#'' \<and> c \<noteq> CHR ''?''" using chars url_char_not by blast
    show "\<not> has_ctl ?l" using chars url_char_code unfolding has_ctl_def list_ex_iff by fastforce
  qed
  have starts: "HasPrefix ?l ''/''" "?l \<noteq> []" by (simp_all add: l)
  have meego: "strip_meego ?l = None"
  proof -
    have "CHR ''/'' \<notin> set s" using segs by (simp add: segment_ok_def)
    have "\<not> HasPrefix ?l ''/meego/''"
    proof
      assume "HasPrefix ?l ''/meego/''"
      then obtain z where "s @ ''/'' @ (t @ ''/detail/'' @ i) = ''meego'' @ ''/'' @ z" by (auto simp: HasPrefix_iff l)
      then have "takeWhile (\<lambda>c. c \<noteq> CHR ''/'') (s @ ''/'' @ (t @ ''/detail/'' @ i)) = ''meego''" by simp
      moreover have "takeWhile (\<lambda>c. c \<noteq> CHR ''/'') (s @ ''/'' @ (t @ ''/detail/'' @ i)) = s"
        using \<open>CHR ''/'' \<notin> set s\<close> by (subst takeWhile_append2) auto
      ultimately show False using assms(4) by simp
    qed
    moreover have "?l \<noteq> ''/meego''"
    proof
      assume "?l = ''/meego''"
      then have "CHR ''/'' \<in> set ''meego''" unfolding l by (metis append_Cons in_set_conv_decomp list.inject append_Nil)
      then show False by simp
    qed
    ultimately show ?thesis by (simp add: strip_meego_def)
  qed
  have matched: "matchRule ?l res = Some (unwrap_type
      (res\<lparr>URLKind := ''workitem_detail'', SimpleName := s, WorkItemType := t, WorkItemID := i\<rparr>))" for res
    unfolding matchRule_def split detail_first_rule[OF assms(5)]
    by (simp add: apply_params_def applyParam_def)
  have no_alias: "matchAlias ?l = None" using split by (intro detail_not_alias) simp
  have "DecodeURL ?l = Inr (decode_path ?l
      (empty_result\<lparr>Host := [], Pathname := ?l, Raw := ?l, Query := first_values (url_Query [])\<rparr>))"
    unfolding DecodeURL_def trim Let_def using starts by (simp add: parse)
  also have "first_values (url_Query []) = []" by (simp add: url_Query_def parse_pair_def List.map_filter_simps)
  finally show ?thesis
    unfolding decode_path_def meego no_alias Let_def
    by (simp add: matched no_alias unwrap_type_def empty_result_def split: option.splits)
qed

lemma workitem_link_roundtrip_witness:
  "\<exists>res. DecodeURL ''/abc/_story_resource/detail/17'' = Inr res \<and> WorkItemType res = ''story'' \<and> WorkItemID res = ''17''"
proof -
  have "plain ''abc''" "plain ''_story_resource''" "plain ''17''" "(''abc'' :: string) \<noteq> ''meego''"
    "''_story_resource'' \<notin> set reserved_types" "stripResourceWrap ''_story_resource'' = Some ''story''"
    "detail_link ''abc'' ''_story_resource'' ''17'' = ''/abc/_story_resource/detail/17''"
    by code_simp+
  with workitem_link_roundtrip[of "''abc''" "''_story_resource''" "''17''"] show ?thesis by simp
qed

end
