(* ===== verification/Telemetry_Event.thy ===== *)
theory Telemetry_Event
  imports Prelude Complex_Main
begin

text \<open>
  \<open>internal/products/meegle/telemetry/types.go\<close>: the telemetry event, the allowlist of what it may hold,
  its normal form and its validation.  The regular expressions are predicates on the text; a \<open>float64\<close>
  is a finite rational, an infinity or not-a-number.  \<open>Validate\<close> checks \<open>client_version\<close>, \<open>os\<close> and
  \<open>arch\<close> in the unspecified order of a Go map, so the error does not say which of them it names.
\<close>

section \<open>Events\<close>

datatype float64 = Finite rat | Infinite bool | NotANumber

record BackendRef =
  service :: string
  operation :: string
  logID :: string

record Event =
  schemaVersion :: int
  kind :: string
  callID :: string
  occurredAtMS :: int
  clientVersion :: string
  os :: string
  arch :: string
  command :: string
  flagNames :: "string list"
  success :: bool
  durationMS :: int
  exitCode :: int
  failureStage :: string
  finalOutcome :: string
  backendReachability :: string
  category :: string
  errorCode :: string
  retryable :: bool
  httpStatus :: int
  hostClass :: string
  clientType :: string
  credentialSource :: string
  sampleRate :: int
  sampleWeight :: float64
  backendRefs :: "BackendRef list"
  fingerprint :: string
  policyFromValidTCC :: bool

definition SchemaVersion :: int where "SchemaVersion = 1"
definition BasisPoints :: int where "BasisPoints = 10000"
definition EventKindCommand :: string where "EventKindCommand = ''command''"
definition ClientTypeInteractiveCLI :: string where "ClientTypeInteractiveCLI = ''interactive_cli''"
definition OutcomeSuccess :: string where "OutcomeSuccess = ''success''"

definition allowedStages :: "string list" where
  "allowedStages = [''cli_start'', ''preflight'', ''auth_prepare'', ''transport_connect'', ''mcp_initialize'',
     ''capability_discovery'', ''request_build'', ''request_send'', ''response_wait'', ''response_parse'',
     ''object_storage_transfer'', ''local_file_verify'', ''local_output'', ''shutdown'']"

definition allowedOutcomes :: "string list" where
  "allowedOutcomes = [OutcomeSuccess, ''client_error'', ''auth_error'', ''transport_error'', ''backend_error'',
     ''cli_postprocess_error'', ''panic'', ''canceled'', ''abnormal_exit'']"

definition allowedCategories :: "string list" where
  "allowedCategories = [''user'', ''auth'', ''transport'', ''backend'', ''internal'', ''canceled'']"

definition allowedHostClasses :: "string list" where
  "allowedHostClasses = [''meego'', ''larkproject'', ''meegle'', ''custom'', ''unresolved'']"

definition allowedCredentialSources :: "string list" where
  "allowedCredentialSources = [''store'', ''env'', ''config'', ''extension'', ''unset'']"

definition allowedReachability :: "string list" where
  "allowedReachability = [''no'', ''yes'', ''unknown'']"

definition allowedBackendServices :: "string list" where
  "allowedBackendServices = [''meegle_mcp'', ''meegle_api'', ''oauth'', ''object_storage'']"

definition allowedBackendOperations :: "string list" where
  "allowedBackendOperations = [''mcp_initialize'', ''tools_list'', ''tools_call'', ''handoff_config'',
     ''handoff_create_link'', ''preference_update'', ''attachment_upload'', ''attachment_download'',
     ''oauth_discovery'', ''oauth_token'']"

section \<open>The patterns\<close>

definition is_upper :: "char \<Rightarrow> bool" where
  "is_upper c = (CHR ''A'' \<le> c \<and> c \<le> CHR ''Z'')"

definition is_alnum :: "char \<Rightarrow> bool" where
  "is_alnum c = (is_upper c \<or> is_lower c \<or> is_digit c)"

definition callIDPattern :: "string \<Rightarrow> bool" where
  "callIDPattern s = (list_all (\<lambda>c. is_alnum c \<or> c = CHR ''_'' \<or> c = CHR ''-'') s \<and> 1 \<le> length s \<and> length s \<le> 64)"

definition command_char :: "char \<Rightarrow> bool" where
  "command_char c = (is_lower c \<or> is_digit c \<or> c = CHR ''+'')"

definition command_word :: "string \<Rightarrow> bool" where
  "command_word w =
     (case w of [] \<Rightarrow> False | c # cs \<Rightarrow> command_char c \<and> list_all (\<lambda>d. command_char d \<or> d = CHR ''-'') cs)"

definition commandPattern :: "string \<Rightarrow> bool" where
  "commandPattern s = list_all command_word (Split CHR '' '' s)"

definition flagNamePattern :: "string \<Rightarrow> bool" where
  "flagNamePattern s =
     (case s of [] \<Rightarrow> False
      | c # cs \<Rightarrow> (is_lower c \<or> is_digit c) \<and> list_all (\<lambda>d. is_lower d \<or> is_digit d \<or> d = CHR ''-'') cs \<and> length cs \<le> 63)"

definition errorCodePattern :: "string \<Rightarrow> bool" where
  "errorCodePattern s =
     (case s of [] \<Rightarrow> False
      | c # cs \<Rightarrow> is_upper c \<and> list_all (\<lambda>d. is_upper d \<or> is_digit d \<or> d = CHR ''_'') cs \<and> length cs \<le> 63)"

definition logIDPattern :: "string \<Rightarrow> bool" where
  "logIDPattern s = (list_all (\<lambda>c. is_alnum c \<or> c \<in> set ''._:-'') s \<and> 1 \<le> length s \<and> length s \<le> 128)"

definition fingerprintPattern :: "string \<Rightarrow> bool" where
  "fingerprintPattern s = (list_all (\<lambda>c. (CHR ''a'' \<le> c \<and> c \<le> CHR ''f'') \<or> is_digit c) s \<and> length s = 64)"

definition runtimeTokenPattern :: "string \<Rightarrow> bool" where
  "runtimeTokenPattern s =
     (case s of [] \<Rightarrow> False
      | c # cs \<Rightarrow> is_alnum c \<and> list_all (\<lambda>d. is_alnum d \<or> d \<in> set ''._+-'') cs \<and> length cs \<le> 63)"

section \<open>Normal form\<close>

fun unique_from :: "string list \<Rightarrow> string list \<Rightarrow> string list" where
  "unique_from seen [] = []"
| "unique_from seen (v # vs) =
     (if v \<in> set seen then unique_from seen vs else v # unique_from (v # seen) vs)"

definition uniqueSorted :: "string list \<Rightarrow> string list" where
  "uniqueSorted values = sort (unique_from [] values)"

definition ref_allowed :: "BackendRef \<Rightarrow> bool" where
  "ref_allowed r =
     (service r \<in> set allowedBackendServices \<and> operation r \<in> set allowedBackendOperations \<and> logIDPattern (logID r))"

definition ref_key :: "BackendRef \<Rightarrow> string" where
  "ref_key r = service r @ [CHR 0x00] @ operation r @ [CHR 0x00] @ logID r"

fun collect_refs :: "string list \<Rightarrow> BackendRef list \<Rightarrow> BackendRef list \<Rightarrow> BackendRef list" where
  "collect_refs seen refs [] = refs"
| "collect_refs seen refs (r # rs) =
     (if \<not> ref_allowed r then collect_refs seen refs rs
      else if ref_key r \<in> set seen then collect_refs seen refs rs
      else if length (refs @ [r]) = 8 then refs @ [r]
      else collect_refs (ref_key r # seen) (refs @ [r]) rs)"

definition Normalize :: "Event \<Rightarrow> Event" where
  "Normalize e =
     e\<lparr>command := Join '' '' (Fields (ToLower (command e))),
       flagNames := uniqueSorted (flagNames e),
       backendRefs := (if backendRefs e = [] then [] else collect_refs [] [] (backendRefs e))\<rparr>"

section \<open>Validation\<close>

datatype event_error =
    UnsupportedSchema | CallIDInvalid | OccurredInvalid | RuntimeTokenInvalid | CommandInvalid
  | TooManyFlags | FlagNameInvalid string | DuplicateFlag string | DurationInvalid
  | SuccessWithFailureFields | StageInvalid | CategoryInvalid | ErrorCodeInvalid | FingerprintInvalid
  | HTTPStatusInvalid | OutcomeInvalid | ReachabilityInvalid | HostClassInvalid | ClientTypeInvalid
  | CredentialSourceInvalid | SamplingInvalid | TooManyRefs | ServiceInvalid | OperationInvalid | LogIDInvalid

fun check_flags :: "string list \<Rightarrow> string list \<Rightarrow> event_error option" where
  "check_flags seen [] = None"
| "check_flags seen (name # names) =
     (if \<not> flagNamePattern name then Some (FlagNameInvalid name)
      else if name \<in> set seen then Some (DuplicateFlag name)
      else check_flags (name # seen) names)"

definition check_result :: "Event \<Rightarrow> event_error option" where
  "check_result e =
     (if success e then
        (if exitCode e \<noteq> 0 \<or> failureStage e \<noteq> [] \<or> finalOutcome e \<noteq> OutcomeSuccess \<or> category e \<noteq> [] \<or>
            errorCode e \<noteq> [] \<or> retryable e \<or> httpStatus e \<noteq> 0 \<or> fingerprint e \<noteq> []
         then Some SuccessWithFailureFields else None)
      else if failureStage e \<notin> set allowedStages then Some StageInvalid
      else if category e \<notin> set allowedCategories then Some CategoryInvalid
      else if \<not> errorCodePattern (errorCode e) then Some ErrorCodeInvalid
      else if \<not> fingerprintPattern (fingerprint e) then Some FingerprintInvalid
      else None)"

fun weight_valid :: "float64 \<Rightarrow> bool" where
  "weight_valid (Finite w) = (0 \<le> w)"
| "weight_valid (Infinite neg) = False"
| "weight_valid NotANumber = False"

fun check_refs :: "BackendRef list \<Rightarrow> event_error option" where
  "check_refs [] = None"
| "check_refs (r # rs) =
     (if service r \<notin> set allowedBackendServices then Some ServiceInvalid
      else if operation r \<notin> set allowedBackendOperations then Some OperationInvalid
      else if \<not> logIDPattern (logID r) then Some LogIDInvalid
      else check_refs rs)"

definition check_tail :: "Event \<Rightarrow> event_error option" where
  "check_tail e =
     (if httpStatus e \<noteq> 0 \<and> (httpStatus e < 100 \<or> httpStatus e > 599) then Some HTTPStatusInvalid
      else if finalOutcome e \<notin> set allowedOutcomes then Some OutcomeInvalid
      else if backendReachability e \<notin> set allowedReachability then Some ReachabilityInvalid
      else if hostClass e \<notin> set allowedHostClasses then Some HostClassInvalid
      else if clientType e \<noteq> ClientTypeInteractiveCLI then Some ClientTypeInvalid
      else if credentialSource e \<notin> set allowedCredentialSources then Some CredentialSourceInvalid
      else if sampleRate e < 0 \<or> sampleRate e > BasisPoints \<or> \<not> weight_valid (sampleWeight e) then Some SamplingInvalid
      else if length (backendRefs e) > 8 then Some TooManyRefs
      else check_refs (backendRefs e))"

definition Validate :: "Event \<Rightarrow> event_error option" where
  "Validate e =
     (if schemaVersion e \<noteq> SchemaVersion \<or> kind e \<noteq> EventKindCommand then Some UnsupportedSchema
      else if \<not> callIDPattern (callID e) then Some CallIDInvalid
      else if occurredAtMS e < 0 then Some OccurredInvalid
      else if \<exists>v \<in> set [clientVersion e, os e, arch e]. v \<noteq> [] \<and> \<not> runtimeTokenPattern v then Some RuntimeTokenInvalid
      else if length (command e) > 128 \<or> \<not> commandPattern (command e) then Some CommandInvalid
      else if length (flagNames e) > 64 then Some TooManyFlags
      else (case check_flags [] (flagNames e) of
              Some err \<Rightarrow> Some err
            | None \<Rightarrow>
                (if durationMS e < 0 \<or> exitCode e < 0 \<or> exitCode e > 255 then Some DurationInvalid
                 else (case check_result e of Some err \<Rightarrow> Some err | None \<Rightarrow> check_tail e))))"

section \<open>What a validated event can hold\<close>

definition text_char :: "char \<Rightarrow> bool" where
  "text_char c = (is_alnum c \<or> c = CHR '' '' \<or> c = CHR ''_'' \<or> c = CHR ''-'' \<or> c = CHR ''+'' \<or> c = CHR ''.'' \<or> c = CHR '':'')"

definition text_ok :: "nat \<Rightarrow> string \<Rightarrow> bool" where
  "text_ok n s = (length s \<le> n \<and> list_all text_char s)"

definition ref_texts :: "BackendRef \<Rightarrow> string list" where
  "ref_texts r = [service r, operation r, logID r]"

text \<open>Every text of an event, each with the bound it is held to.\<close>

definition scalar_texts :: "Event \<Rightarrow> string list" where
  "scalar_texts e =
     [kind e, callID e, clientVersion e, os e, arch e, command e, failureStage e, finalOutcome e, backendReachability e,
      category e, errorCode e, hostClass e, clientType e, credentialSource e, fingerprint e]"

definition event_texts :: "Event \<Rightarrow> string list" where
  "event_texts e = scalar_texts e @ flagNames e @ concat (map ref_texts (backendRefs e))"

lemma text_ok_empty [simp]: "text_ok n []"
  by (simp add: text_ok_def)

lemma text_ok_mono: "text_ok n s \<Longrightarrow> n \<le> m \<Longrightarrow> text_ok m s"
  by (simp add: text_ok_def)

lemma text_okI:
  assumes "list_all P s" and "\<And>c. P c \<Longrightarrow> text_char c" and "length s \<le> n" shows "text_ok n s"
  using assms by (simp add: text_ok_def list_all_iff)

lemma text_okI_Cons:
  assumes "P c" and "list_all Q cs" and "\<And>c. P c \<Longrightarrow> text_char c" "\<And>c. Q c \<Longrightarrow> text_char c" and "length cs < n"
  shows "text_ok n (c # cs)"
  using assms by (simp add: text_ok_def list_all_iff)

lemma text_char_lower: "is_lower c \<Longrightarrow> text_char c"
  by (simp add: text_char_def is_alnum_def)

lemma text_char_digit: "is_digit c \<Longrightarrow> text_char c"
  by (simp add: text_char_def is_alnum_def)

lemma text_char_upper: "is_upper c \<Longrightarrow> text_char c"
  by (simp add: text_char_def is_alnum_def)

lemma text_char_hex: "(CHR ''a'' \<le> c \<and> c \<le> CHR ''f'') \<or> is_digit c \<Longrightarrow> text_char c"
proof -
  assume h: "(CHR ''a'' \<le> c \<and> c \<le> CHR ''f'') \<or> is_digit c"
  have "CHR ''f'' \<le> CHR ''z''" by code_simp
  with h have "is_lower c \<or> is_digit c" unfolding is_lower_def by (metis order_trans)
  then show ?thesis using text_char_lower text_char_digit by blast
qed

lemmas text_chars = text_char_lower text_char_digit text_char_upper text_char_hex

named_theorems pattern_texts \<open>bounds of the texts the patterns accept\<close>

lemma callID_text [pattern_texts]: "callIDPattern s \<Longrightarrow> text_ok 64 s"
  unfolding callIDPattern_def by (rule text_okI[where P = "\<lambda>c. is_alnum c \<or> c = CHR ''_'' \<or> c = CHR ''-''"])
    (auto simp: text_char_def)

lemma flagName_text [pattern_texts]: "flagNamePattern s \<Longrightarrow> text_ok 64 s"
proof (cases s)
  case (Cons c cs)
  assume "flagNamePattern s"
  with Cons have "is_lower c \<or> is_digit c" "list_all (\<lambda>d. is_lower d \<or> is_digit d \<or> d = CHR ''-'') cs" "length cs \<le> 63"
    by (simp_all add: flagNamePattern_def)
  then show ?thesis unfolding Cons
    by (intro text_okI_Cons[where P = "\<lambda>c. is_lower c \<or> is_digit c" and Q = "\<lambda>d. is_lower d \<or> is_digit d \<or> d = CHR ''-''"])
      (auto simp: text_char_def is_alnum_def)
qed simp

lemma errorCode_text [pattern_texts]: "errorCodePattern s \<Longrightarrow> text_ok 64 s"
proof (cases s)
  case (Cons c cs)
  assume "errorCodePattern s"
  with Cons have "is_upper c" "list_all (\<lambda>d. is_upper d \<or> is_digit d \<or> d = CHR ''_'') cs" "length cs \<le> 63"
    by (simp_all add: errorCodePattern_def)
  then show ?thesis unfolding Cons
    by (intro text_okI_Cons[where P = is_upper and Q = "\<lambda>d. is_upper d \<or> is_digit d \<or> d = CHR ''_''"])
      (auto simp: text_char_def is_alnum_def)
qed simp

lemma logID_text [pattern_texts]: "logIDPattern s \<Longrightarrow> text_ok 128 s"
  unfolding logIDPattern_def
  by (rule text_okI[where P = "\<lambda>c. is_alnum c \<or> c \<in> set ''._:-''"]) (auto simp: text_char_def)

lemma fingerprint_text [pattern_texts]: "fingerprintPattern s \<Longrightarrow> text_ok 64 s"
proof -
  assume "fingerprintPattern s"
  then have hex: "list_all (\<lambda>c. (CHR ''a'' \<le> c \<and> c \<le> CHR ''f'') \<or> is_digit c) s" and len: "length s \<le> 64"
    by (simp_all add: fingerprintPattern_def)
  from hex text_char_hex len show ?thesis by (rule text_okI)
qed

lemma runtimeToken_text [pattern_texts]: "runtimeTokenPattern s \<Longrightarrow> text_ok 64 s"
proof (cases s)
  case (Cons c cs)
  assume "runtimeTokenPattern s"
  with Cons have "is_alnum c" "list_all (\<lambda>d. is_alnum d \<or> d \<in> set ''._+-'') cs" "length cs \<le> 63"
    by (simp_all add: runtimeTokenPattern_def)
  then show ?thesis unfolding Cons
    by (intro text_okI_Cons[where P = is_alnum and Q = "\<lambda>d. is_alnum d \<or> d \<in> set ''._+-''"])
      (auto simp: text_char_def)
qed simp

lemma command_word_text: "command_word w \<Longrightarrow> list_all text_char w"
  by (cases w) (auto simp: command_word_def command_char_def list_all_iff text_char_def is_alnum_def)

lemma command_text: "commandPattern s \<Longrightarrow> list_all text_char s"
proof -
  assume "commandPattern s"
  then have "\<forall>w \<in> set (Split CHR '' '' s). list_all text_char w"
    using command_word_text by (auto simp: commandPattern_def list_all_iff)
  moreover have "set s \<subseteq> \<Union> (set ` set (Split CHR '' '' s)) \<union> {CHR '' ''}"
    using set_Join[of "'' ''" "Split CHR '' '' s"] by (simp add: Join_Split)
  moreover have "text_char CHR '' ''" by (simp add: text_char_def)
  ultimately show ?thesis unfolding list_all_iff by blast
qed

lemma constants_text:
  "list_all (text_ok 32)
     (allowedStages @ allowedOutcomes @ allowedCategories @ allowedHostClasses @ allowedCredentialSources @
      allowedReachability @ allowedBackendServices @ allowedBackendOperations @
      [EventKindCommand, ClientTypeInteractiveCLI, OutcomeSuccess])"
  by code_simp

lemma allowed_text:
  assumes "s \<in> set allowedStages \<or> s \<in> set allowedOutcomes \<or> s \<in> set allowedCategories \<or> s \<in> set allowedHostClasses \<or>
     s \<in> set allowedCredentialSources \<or> s \<in> set allowedReachability \<or> s \<in> set allowedBackendServices \<or>
     s \<in> set allowedBackendOperations \<or> s = EventKindCommand \<or> s = ClientTypeInteractiveCLI \<or> s = OutcomeSuccess"
  shows "text_ok 128 s"
proof -
  from constants_text assms have "text_ok 32 s" unfolding list_all_iff set_append by auto
  then show ?thesis by (rule text_ok_mono) simp
qed

lemma check_flags_None:
  "check_flags seen names = None \<longleftrightarrow> list_all flagNamePattern names \<and> distinct names \<and> set names \<inter> set seen = {}"
  by (induction seen names rule: check_flags.induct) auto

lemma check_refs_None: "check_refs rs = None \<longleftrightarrow> list_all ref_allowed rs"
  by (induction rs rule: check_refs.induct) (auto simp: ref_allowed_def)

text \<open>What the checks of \<open>Validate\<close> establish.\<close>

lemma Validate_facts:
  assumes "Validate e = None"
  shows "kind e = EventKindCommand" "callIDPattern (callID e)"
    "\<forall>v \<in> set [clientVersion e, os e, arch e]. v = [] \<or> runtimeTokenPattern v"
    "length (command e) \<le> 128" "commandPattern (command e)" "length (flagNames e) \<le> 64" "check_flags [] (flagNames e) = None"
    "check_result e = None" "check_tail e = None"
  using assms unfolding Validate_def by (auto split: if_splits option.splits)

lemma check_result_facts:
  assumes "check_result e = None"
  shows "failureStage e = [] \<or> failureStage e \<in> set allowedStages" "category e = [] \<or> category e \<in> set allowedCategories"
    "errorCode e = [] \<or> errorCodePattern (errorCode e)" "fingerprint e = [] \<or> fingerprintPattern (fingerprint e)"
  using assms by (auto simp: check_result_def split: if_splits)

lemma check_tail_facts:
  assumes "check_tail e = None"
  shows "finalOutcome e \<in> set allowedOutcomes" "backendReachability e \<in> set allowedReachability"
    "hostClass e \<in> set allowedHostClasses" "clientType e = ClientTypeInteractiveCLI"
    "credentialSource e \<in> set allowedCredentialSources" "length (backendRefs e) \<le> 8" "list_all ref_allowed (backendRefs e)"
  using assms check_refs_None[of "backendRefs e"] by (auto simp: check_tail_def split: if_splits)

lemma scalar_texts_ok:
  assumes "Validate e = None" shows "list_all (text_ok 128) (scalar_texts e)"
proof -
  note v = Validate_facts[OF assms]
  note r = check_result_facts[OF v(8)] and t = check_tail_facts[OF v(9)]
  have wide: "text_ok 64 s \<Longrightarrow> text_ok 128 s" for s by (erule text_ok_mono) simp
  have "text_ok 128 (kind e)" "text_ok 128 (clientType e)" using v(1) t(4) allowed_text by blast+
  moreover have "text_ok 128 (callID e)" using v(2) callID_text wide by blast
  moreover have "text_ok 128 s" if "s \<in> set [clientVersion e, os e, arch e]" for s
  proof (cases "s = []")
    case False
    with bspec[OF v(3) that] have "runtimeTokenPattern s" by simp
    then show ?thesis by (rule wide[OF runtimeToken_text])
  qed simp
  then have "text_ok 128 (clientVersion e)" "text_ok 128 (os e)" "text_ok 128 (arch e)" by simp_all
  moreover have "text_ok 128 (command e)" using v(4,5) command_text by (simp add: text_ok_def)
  moreover have "text_ok 128 (failureStage e)" "text_ok 128 (category e)" using r(1,2) allowed_text text_ok_empty by metis+
  moreover have "text_ok 128 (errorCode e)" "text_ok 128 (fingerprint e)"
    using r(3,4) errorCode_text fingerprint_text wide text_ok_empty by metis+
  moreover have "text_ok 128 (finalOutcome e)" "text_ok 128 (backendReachability e)" "text_ok 128 (hostClass e)"
    "text_ok 128 (credentialSource e)" using t(1,2,3,5) allowed_text by blast+
  ultimately show ?thesis by (simp add: scalar_texts_def)
qed

lemma flag_texts_ok:
  assumes "Validate e = None" shows "list_all (text_ok 64) (flagNames e)"
  using Validate_facts(7)[OF assms] flagName_text by (simp add: check_flags_None list_all_iff)

lemma ref_texts_ok: "ref_allowed r \<Longrightarrow> list_all (text_ok 128) (ref_texts r)"
  using allowed_text logID_text by (simp add: ref_allowed_def ref_texts_def)

lemma sum_length_le:
  assumes "list_all (text_ok n) ss" shows "sum_list (map length ss) \<le> n * length ss"
  using assms by (induction ss) (auto simp: text_ok_def)

definition sample_ok_event :: Event where
  "sample_ok_event = \<lparr>schemaVersion = 1, kind = EventKindCommand, callID = ''c-1'', occurredAtMS = 5, clientVersion = ''1.2.0'',
     os = ''linux'', arch = ''arm64'', command = ''workitem get'', flagNames = [''format''], success = False, durationMS = 12,
     exitCode = 3, failureStage = ''response_parse'', finalOutcome = ''backend_error'', backendReachability = ''yes'',
     category = ''backend'', errorCode = ''E_PARSE'', retryable = True, httpStatus = 502, hostClass = ''meegle'',
     clientType = ClientTypeInteractiveCLI, credentialSource = ''store'', sampleRate = 10000, sampleWeight = Finite 1,
     backendRefs = [\<lparr>service = ''oauth'', operation = ''oauth_token'', logID = ''2026:a''\<rparr>],
     fingerprint = replicate 64 (CHR ''a''), policyFromValidTCC = True\<rparr>"

lemma sample_ok_event_valid: "Validate sample_ok_event = None"
  by code_simp

text \<open>
  What leaves the machine is bounded and free of paths, addresses and values: every text of a
  validated event consists of letters, digits, spaces and the marks underscore, hyphen, plus, dot and
  colon, and all texts of the event together hold fewer than 9100 characters.
\<close>

lemma validated_event_bounded:
  assumes "Validate e = None"
  shows "list_all (list_all text_char) (event_texts e) \<and> sum_list (map length (event_texts e)) < 9100"
proof -
  note v = Validate_facts[OF assms] and scalars = scalar_texts_ok[OF assms] and flags = flag_texts_ok[OF assms]
  note t = check_tail_facts[OF v(9)]
  have refs: "list_all (text_ok 128) (concat (map ref_texts (backendRefs e)))"
    using t(7) ref_texts_ok by (fastforce simp: list_all_iff)
  have "length (concat (map ref_texts (backendRefs e))) = 3 * length (backendRefs e)"
    by (induction "backendRefs e") (simp_all add: length_concat ref_texts_def comp_def sum_list_triv)
  then have "sum_list (map length (concat (map ref_texts (backendRefs e)))) \<le> 128 * (3 * 8)"
    using sum_length_le[OF refs] t(6) by simp
  moreover have "sum_list (map length (flagNames e)) \<le> 64 * 64" using sum_length_le[OF flags] v(6) by simp
  moreover have "sum_list (map length (scalar_texts e)) \<le> 128 * 15"
    using sum_length_le[OF scalars] by (simp add: scalar_texts_def)
  ultimately have "sum_list (map length (event_texts e)) < 9100" by (simp add: event_texts_def)
  moreover have "list_all (list_all text_char) (event_texts e)"
    using scalars flags refs by (auto simp: event_texts_def list_all_iff text_ok_def)
  ultimately show ?thesis by blast
qed

lemma validated_event_bounded_witness:
  "list_all (list_all text_char) (event_texts sample_ok_event) \<and> sum_list (map length (event_texts sample_ok_event)) < 9100"
  by (rule validated_event_bounded[OF sample_ok_event_valid])

section \<open>The normal form is a normal form\<close>

lemma lower_char_idem [simp]: "lower_char (lower_char c) = lower_char c"
proof (cases "CHR ''A'' \<le> c \<and> c \<le> CHR ''Z''")
  case True
  then have "65 \<le> (of_char c :: nat)" "(of_char c :: nat) \<le> 90" by (simp_all add: less_eq_char_def)
  then have "(of_char (lower_char c) :: nat) = of_char c + 32" using True by (simp add: lower_char_def)
  then have "\<not> lower_char c \<le> CHR ''Z''" using \<open>65 \<le> (of_char c :: nat)\<close> by (simp add: less_eq_char_def)
  then show ?thesis by (simp add: lower_char_def[of "lower_char c"])
next
  case False
  then have "lower_char c = c" unfolding lower_char_def by (rule if_not_P)
  then show ?thesis by simp
qed

lemma split_by_words: "w \<in> set (split_by p s) \<Longrightarrow> set w \<subseteq> set s \<and> (\<forall>c \<in> set w. \<not> p c)"
proof (induction s arbitrary: w)
  case (Cons a s)
  obtain v vs where s: "split_by p s = v # vs" using split_by_nonempty[of p s] by (cases "split_by p s") auto
  show ?case
  proof (cases "p a")
    case True
    with Cons.prems s have "w = [] \<or> w \<in> set (split_by p s)" by auto
    with Cons.IH show ?thesis by fastforce
  next
    case False
    with Cons.prems s have "w = a # v \<or> w \<in> set (split_by p s)" by auto
    moreover have "v \<in> set (split_by p s)" using s by simp
    ultimately show ?thesis using Cons.IH False by fastforce
  qed
qed simp

lemma Fields_words: "w \<in> set (Fields s) \<Longrightarrow> w \<noteq> [] \<and> set w \<subseteq> set s \<and> (\<forall>c \<in> set w. \<not> is_space c)"
  unfolding Fields_def FieldsFunc_def using split_by_words[of w is_space s] by simp

lemma Fields_Join:
  assumes "\<forall>w \<in> set ws. w \<noteq> [] \<and> (\<forall>c \<in> set w. \<not> is_space c)" shows "Fields (Join '' '' ws) = ws"
  using assms
proof (induction ws)
  case (Cons w ws)
  then have w: "w \<noteq> []" "\<forall>c \<in> set w. \<not> is_space c" by simp_all
  have sp: "is_space CHR '' ''" by (simp add: is_space_def)
  show ?case
  proof (cases "ws = []")
    case True
    with w show ?thesis by (simp add: Fields_def FieldsFunc_word)
  next
    case False
    have "Fields (w @ CHR '' '' # Join '' '' ws) = w # Fields (Join '' '' ws)"
      unfolding Fields_def by (rule FieldsFunc_append[OF w sp])
    with Cons False show ?thesis by (simp add: Join_Cons)
  qed
qed (simp add: Fields_def FieldsFunc_def)

lemma ToLower_fixed: "\<forall>c \<in> set s. lower_char c = c \<Longrightarrow> ToLower s = s"
  unfolding ToLower_def by (rule map_idI) simp

lemma command_normal:
  assumes "c' = Join '' '' (Fields (ToLower c))" shows "Join '' '' (Fields (ToLower c')) = c'"
proof -
  let ?ws = "Fields (ToLower c)"
  have "\<forall>d \<in> set (ToLower c). lower_char d = d" by (auto simp: ToLower_def)
  then have "\<forall>w \<in> set ?ws. \<forall>d \<in> set w. lower_char d = d" using Fields_words by blast
  moreover have "lower_char CHR '' '' = CHR '' ''" by code_simp
  ultimately have "\<forall>d \<in> set c'. lower_char d = d" using set_Join[of "'' ''" ?ws] unfolding assms by auto
  then have "ToLower c' = c'" by (rule ToLower_fixed)
  moreover have "Fields c' = ?ws" unfolding assms using Fields_words by (intro Fields_Join) blast
  ultimately show ?thesis by (simp add: assms)
qed

lemma unique_from_facts: "distinct (unique_from seen vs) \<and> set (unique_from seen vs) = set vs - set seen"
  by (induction seen vs rule: unique_from.induct) auto

lemma unique_from_id: "distinct vs \<Longrightarrow> set vs \<inter> set seen = {} \<Longrightarrow> unique_from seen vs = vs"
  by (induction seen vs rule: unique_from.induct) auto

lemma uniqueSorted_facts:
  "set (uniqueSorted vs) = set vs" "distinct (uniqueSorted vs)" "sorted (uniqueSorted vs)"
  using unique_from_facts[of "[]" vs] by (simp_all add: uniqueSorted_def)

lemma uniqueSorted_idem [simp]: "uniqueSorted (uniqueSorted vs) = uniqueSorted vs"
proof -
  have "unique_from [] (uniqueSorted vs) = uniqueSorted vs" by (rule unique_from_id) (simp_all add: uniqueSorted_facts)
  then show ?thesis using uniqueSorted_facts(3) by (simp add: uniqueSorted_def[of "uniqueSorted vs"] sorted_sort_id)
qed

definition refs_normal :: "BackendRef list \<Rightarrow> bool" where
  "refs_normal rs = (list_all ref_allowed rs \<and> distinct (map ref_key rs) \<and> length rs \<le> 8)"

lemma collect_refs_normal:
  "refs_normal refs \<Longrightarrow> length refs < 8 \<Longrightarrow> set seen = set (map ref_key refs) \<Longrightarrow> refs_normal (collect_refs seen refs rs)"
proof (induction seen refs rs rule: collect_refs.induct)
  case (2 seen refs r rs)
  then show ?case by (auto simp: refs_normal_def)
qed simp

lemma collect_refs_id:
  assumes "list_all ref_allowed rs" "distinct (map ref_key rs)" "set (map ref_key rs) \<inter> set seen = {}"
    "length refs + length rs \<le> 8"
  shows "collect_refs seen refs rs = refs @ rs"
  using assms
proof (induction seen refs rs rule: collect_refs.induct)
  case (2 seen refs r rs)
  then have ok: "ref_allowed r" "ref_key r \<notin> set seen" by auto
  show ?case
  proof (cases "length (refs @ [r]) = 8")
    case True
    with 2 have "rs = []" by simp
    with True ok show ?thesis by simp
  next
    case False
    then have "collect_refs (ref_key r # seen) (refs @ [r]) rs = (refs @ [r]) @ rs"
      using 2 ok by (intro "2.IH") auto
    with False ok show ?thesis by simp
  qed
qed simp

lemma Normalize_idem: "Normalize (Normalize e) = Normalize e"
proof -
  have "refs_normal (collect_refs [] [] (backendRefs e))" by (rule collect_refs_normal) (simp_all add: refs_normal_def)
  then have "collect_refs [] [] (collect_refs [] [] (backendRefs e)) = collect_refs [] [] (backendRefs e)"
    using collect_refs_id[of "collect_refs [] [] (backendRefs e)" "[]" "[]"] by (simp add: refs_normal_def)
  moreover have "Join '' '' (Fields (ToLower (Join '' '' (Fields (ToLower (command e)))))) = Join '' '' (Fields (ToLower (command e)))"
    by (rule command_normal) (rule refl)
  ultimately show ?thesis unfolding Normalize_def by simp
qed

text \<open>Normal forms of validated events change nothing but the three fields, and \<open>Normalize\<close> is silent on the rest.\<close>

lemma Normalize_callID [simp]: "callID (Normalize e) = callID e"
  by (simp add: Normalize_def)

end
