(* ===== verification/Telemetry_Policy.thy ===== *)
theory Telemetry_Policy
  imports Telemetry_Event
begin

text \<open>
  \<open>internal/products/meegle/telemetry/policy.go\<close>: the sampling policy, its filters and rates, and the
  store that caches it.  SHA-256 is the parameter \<open>sum256\<close> (its 32 bytes).  The store is a file that is
  absent, unreadable, rejected by the JSON decoder with a syntax or type error, rejected because of its
  timestamp (the error of \<open>time.Time\<close> is neither), or holds a state; the process lock is the atomicity of an
  operation, and a lock or write that fails leaves the file as it was.  Times are nanoseconds since the
  zero instant of \<open>time.Time\<close>.
\<close>

section \<open>Policies\<close>

record Filter =
  mode :: string
  filterValues :: "string list"

record SamplingRates =
  successRate :: int
  failureRate :: int

record CommandSamplingRule =
  ruleCommand :: string
  ruleSuccessRate :: int
  ruleFailureRate :: int

record SamplingPolicy =
  defaultRates :: SamplingRates
  commandRules :: "CommandSamplingRule list"

record Policy =
  enabled :: bool
  commandFilter :: Filter
  errorFilter :: Filter
  sampling :: SamplingPolicy

definition FilterInclude :: string where "FilterInclude = ''include''"
definition FilterExclude :: string where "FilterExclude = ''exclude''"

definition DefaultPolicy :: Policy where
  "DefaultPolicy =
     \<lparr>enabled = True, commandFilter = \<lparr>mode = FilterExclude, filterValues = []\<rparr>,
      errorFilter = \<lparr>mode = FilterExclude, filterValues = []\<rparr>,
      sampling = \<lparr>defaultRates = \<lparr>successRate = 0, failureRate = BasisPoints\<rparr>, commandRules = []\<rparr>\<rparr>"

datatype policy_error =
    FilterModeInvalid string | SuccessRateInvalid string | FailureRateInvalid string
  | RuleCommandInvalid nat | RuleDuplicate string

definition validatePolicyFilter :: "string \<Rightarrow> Filter \<Rightarrow> policy_error option" where
  "validatePolicyFilter name f =
     (if mode f \<noteq> FilterInclude \<and> mode f \<noteq> FilterExclude then Some (FilterModeInvalid name) else None)"

definition validatePolicyRates :: "string \<Rightarrow> SamplingRates \<Rightarrow> policy_error option" where
  "validatePolicyRates name r =
     (if successRate r \<noteq> 0 then Some (SuccessRateInvalid name)
      else if failureRate r < 0 \<or> failureRate r > BasisPoints then Some (FailureRateInvalid name)
      else None)"

fun validate_rules :: "nat \<Rightarrow> string list \<Rightarrow> CommandSamplingRule list \<Rightarrow> policy_error option" where
  "validate_rules index seen [] = None"
| "validate_rules index seen (r # rs) =
     (if ruleCommand r = [] \<or> TrimSpace (ruleCommand r) \<noteq> ruleCommand r then Some (RuleCommandInvalid index)
      else if ruleCommand r \<in> set seen then Some (RuleDuplicate (ruleCommand r))
      else (case validatePolicyRates (''sampling.command_rules['' @ show_nat index @ '']'')
                   \<lparr>successRate = ruleSuccessRate r, failureRate = ruleFailureRate r\<rparr> of
              Some err \<Rightarrow> Some err
            | None \<Rightarrow> validate_rules (Suc index) (ruleCommand r # seen) rs))"

definition policy_Validate :: "Policy \<Rightarrow> policy_error option" where
  "policy_Validate p =
     (case validatePolicyFilter ''command_filter'' (commandFilter p) of
        Some err \<Rightarrow> Some err
      | None \<Rightarrow>
          (case validatePolicyFilter ''error_filter'' (errorFilter p) of
             Some err \<Rightarrow> Some err
           | None \<Rightarrow>
               (case validatePolicyRates ''sampling.default'' (defaultRates (sampling p)) of
                  Some err \<Rightarrow> Some err
                | None \<Rightarrow> validate_rules 0 [] (commandRules (sampling p)))))"

section \<open>Sampling\<close>

definition filterAllows :: "Filter \<Rightarrow> string \<Rightarrow> bool" where
  "filterAllows f v = (let found = (v \<in> set (filterValues f)) in if mode f = FilterInclude then found else \<not> found)"

fun rule_rate :: "string \<Rightarrow> bool \<Rightarrow> int \<Rightarrow> CommandSamplingRule list \<Rightarrow> int" where
  "rule_rate cmd ok rate [] = rate"
| "rule_rate cmd ok rate (r # rs) =
     (if ruleCommand r = cmd then (if ok then ruleSuccessRate r else ruleFailureRate r) else rule_rate cmd ok rate rs)"

definition SampleRate :: "Policy \<Rightarrow> Event \<Rightarrow> int \<times> bool" where
  "SampleRate p e =
     (if \<not> enabled p \<or> \<not> filterAllows (commandFilter p) (command e) \<or> \<not> filterAllows (errorFilter p) (errorCode e) then (0, False)
      else (let d = defaultRates (sampling p);
                rate = rule_rate (command e) (success e) (if success e then successRate d else failureRate d)
                         (commandRules (sampling p))
            in (rate, rate > 0)))"

text \<open>The first eight bytes of the digest, big-endian.\<close>

definition big_endian :: "nat list \<Rightarrow> nat" where
  "big_endian bytes = fold (\<lambda>b n. 256 * n + b mod 256) bytes 0"

definition ShouldSample :: "(string \<Rightarrow> nat list) \<Rightarrow> string \<Rightarrow> int \<Rightarrow> bool" where
  "ShouldSample sum256 call rate =
     (if rate \<le> 0 then False
      else if rate \<ge> BasisPoints then True
      else int (big_endian (take 8 (sum256 call))) mod BasisPoints < rate)"

section \<open>The cached policy\<close>

record PolicyState =
  statePolicy :: Policy
  fromValidTCC :: bool
  hasValidTCC :: bool
  lastRefreshAttempt :: int

datatype policy_file = Missing | Unreadable | Malformed | BadTimestamp | Stored PolicyState

datatype store_error = ReadFailed | DecodeFailed | TimestampInvalid | PolicyInvalid policy_error | LockFailed | WriteFailed

definition hour :: int where "hour = 3600000000000"
definition PolicyRefreshInterval :: int where "PolicyRefreshInterval = 12 * hour"
definition PolicyRetryInterval :: int where "PolicyRetryInterval = hour"

definition fresh_state :: "Policy \<Rightarrow> PolicyState" where
  "fresh_state p = \<lparr>statePolicy = p, fromValidTCC = False, hasValidTCC = False, lastRefreshAttempt = 0\<rparr>"

definition loadRaw :: "policy_file \<Rightarrow> (store_error, PolicyState option) result" where
  "loadRaw f =
     (case f of Missing \<Rightarrow> Inr None | Unreadable \<Rightarrow> Inl ReadFailed | Malformed \<Rightarrow> Inl DecodeFailed
      | BadTimestamp \<Rightarrow> Inl TimestampInvalid | Stored s \<Rightarrow> Inr (Some s))"

definition policy_Load :: "policy_file \<Rightarrow> (store_error, PolicyState) result" where
  "policy_Load f =
     (case loadRaw f of
        Inl err \<Rightarrow> Inl err
      | Inr None \<Rightarrow> Inr (fresh_state DefaultPolicy)
      | Inr (Some s) \<Rightarrow>
          (case policy_Validate (statePolicy s) of Some err \<Rightarrow> Inl (PolicyInvalid err) | None \<Rightarrow> Inr s))"

definition RefreshDue :: "policy_file \<Rightarrow> int \<Rightarrow> bool" where
  "RefreshDue f now =
     (case policy_Load f of
        Inl err \<Rightarrow> True
      | Inr s \<Rightarrow>
          (if lastRefreshAttempt s = 0 then True
           else (let interval = (if fromValidTCC s then PolicyRefreshInterval else PolicyRetryInterval)
                 in \<not> now < lastRefreshAttempt s + interval)))"

text \<open>Whether the lock is obtained and whether the file is written are outcomes of the environment.\<close>

record io =
  locked :: bool
  written :: bool

definition store_update :: "io \<Rightarrow> (PolicyState \<Rightarrow> PolicyState) \<Rightarrow> policy_file \<Rightarrow> policy_file \<times> store_error option" where
  "store_update env mutate f =
     (if \<not> locked env then (f, Some LockFailed)
      else (case loadRaw f of
              Inl err \<Rightarrow>
                (if err \<noteq> DecodeFailed then (f, Some err)
                 else if written env then (Stored (mutate (fresh_state DefaultPolicy)), None) else (f, Some WriteFailed))
            | Inr found \<Rightarrow>
                (let s = (case found of None \<Rightarrow> fresh_state DefaultPolicy | Some s \<Rightarrow> s)
                 in if written env then (Stored (mutate s), None) else (f, Some WriteFailed))))"

definition ApplyRefresh :: "io \<Rightarrow> Policy \<Rightarrow> bool \<Rightarrow> int \<Rightarrow> policy_file \<Rightarrow> policy_file \<times> store_error option" where
  "ApplyRefresh env candidate valid_tcc attempted f =
     (case policy_Validate candidate of
        Some err \<Rightarrow> (f, Some (PolicyInvalid err))
      | None \<Rightarrow>
          store_update env
            (\<lambda>s. let s1 = (if valid_tcc \<or> \<not> hasValidTCC s then s\<lparr>statePolicy := candidate\<rparr> else s);
                     s2 = (if valid_tcc then s1\<lparr>hasValidTCC := True\<rparr> else s1)
                 in s2\<lparr>fromValidTCC := valid_tcc, lastRefreshAttempt := attempted\<rparr>) f)"

definition RecordRefreshFailure :: "io \<Rightarrow> int \<Rightarrow> policy_file \<Rightarrow> policy_file \<times> store_error option" where
  "RecordRefreshFailure env attempted f = store_update env (\<lambda>s. s\<lparr>fromValidTCC := False, lastRefreshAttempt := attempted\<rparr>) f"

section \<open>Properties\<close>

datatype refresh_op = Refresh io Policy bool int | Failure io int

definition refresh_step :: "refresh_op \<Rightarrow> policy_file \<Rightarrow> policy_file" where
  "refresh_step c f =
     (case c of Refresh env p ok t \<Rightarrow> fst (ApplyRefresh env p ok t f) | Failure env t \<Rightarrow> fst (RecordRefreshFailure env t f))"

text \<open>The file holds the policy \<open>p\<close>, received from the service.\<close>

definition holds :: "Policy \<Rightarrow> policy_file \<Rightarrow> bool" where
  "holds p f = (case f of Stored s \<Rightarrow> statePolicy s = p \<and> hasValidTCC s | _ \<Rightarrow> False)"

text \<open>An operation that does not bring a policy from the service.\<close>

definition is_fallback :: "refresh_op \<Rightarrow> bool" where
  "is_fallback c = (case c of Refresh env p ok t \<Rightarrow> \<not> ok | Failure env t \<Rightarrow> True)"

definition fallback_step :: "refresh_op \<Rightarrow> policy_file \<Rightarrow> policy_file" where
  "fallback_step c f = (if is_fallback c then refresh_step c f else f)"

lemma store_update_Stored:
  "fst (store_update env mutate (Stored s)) = (if locked env \<and> written env then Stored (mutate s) else Stored s)"
  by (simp add: store_update_def loadRaw_def Let_def)

lemma fallback_holds: "holds p f \<Longrightarrow> holds p (fallback_step c f)"
  by (cases f; cases c)
    (auto simp: holds_def fallback_step_def is_fallback_def refresh_step_def ApplyRefresh_def RecordRefreshFailure_def
      store_update_Stored Let_def split: option.splits if_splits)

interpretation cache: preserving fallback_step "holds p" for p
  by unfold_locales (rule fallback_holds)

lemma fold_fallback: "list_all is_fallback cs \<Longrightarrow> fold refresh_step cs f = fold fallback_step cs f"
  by (induction cs arbitrary: f) (simp_all add: fallback_step_def)

lemma ApplyRefresh_ok:
  assumes "ApplyRefresh env p ok t f = (f', None)"
  shows "policy_Validate p = None" and "ok \<Longrightarrow> holds p f'"
  using assms
  by (auto simp: ApplyRefresh_def store_update_def holds_def Let_def split: option.splits if_splits sum.splits)

lemma validate_rules_rate:
  assumes "validate_rules k seen rs = None" and "0 \<le> rate \<and> rate \<le> BasisPoints" and "ok \<longrightarrow> rate = 0"
  shows "0 \<le> rule_rate cmd ok rate rs \<and> rule_rate cmd ok rate rs \<le> BasisPoints \<and> (ok \<longrightarrow> rule_rate cmd ok rate rs = 0)"
  using assms
proof (induction rs arbitrary: k seen)
  case (Cons r rs)
  from Cons.prems(1) have rest: "validate_rules (Suc k) (ruleCommand r # seen) rs = None"
    and r: "ruleSuccessRate r = 0" "0 \<le> ruleFailureRate r" "ruleFailureRate r \<le> BasisPoints"
    by (auto simp: validatePolicyRates_def split: if_splits option.splits)
  note Cons.IH[OF rest Cons.prems(2,3)]
  with r show ?case by (auto simp: BasisPoints_def)
qed simp

lemma SampleRate_facts:
  assumes "policy_Validate p = None" and "SampleRate p e = (rate, True)"
  shows "\<not> success e" "0 < rate" "rate \<le> BasisPoints" "enabled p" "filterAllows (commandFilter p) (command e)"
    "filterAllows (errorFilter p) (errorCode e)"
proof -
  let ?d = "defaultRates (sampling p)"
  have d: "successRate ?d = 0" "0 \<le> failureRate ?d" "failureRate ?d \<le> BasisPoints"
    and rules: "validate_rules 0 [] (commandRules (sampling p)) = None"
    using assms(1) by (auto simp: policy_Validate_def validatePolicyRates_def split: option.splits if_splits)
  from assms(2) show "enabled p" "filterAllows (commandFilter p) (command e)" "filterAllows (errorFilter p) (errorCode e)"
    by (auto simp: SampleRate_def split: if_splits)
  from assms(2) have r: "rate = rule_rate (command e) (success e) (if success e then successRate ?d else failureRate ?d)
      (commandRules (sampling p))" "0 < rate"
    by (auto simp: SampleRate_def Let_def split: if_splits)
  have "0 \<le> rate \<and> rate \<le> BasisPoints \<and> (success e \<longrightarrow> rate = 0)"
    unfolding r(1) by (rule validate_rules_rate[OF rules]) (use d in \<open>auto simp: BasisPoints_def\<close>)
  with r(2) show "\<not> success e" "0 < rate" "rate \<le> BasisPoints" by auto
qed

text \<open>
  A policy from the service is never displaced by a fallback: once a refresh with a policy of the
  service succeeds, every later sequence of failed refreshes and of fallback policies leaves that policy
  in force, and it is one that passes validation.
\<close>

lemma service_policy_kept:
  assumes "ApplyRefresh env p True t f = (f', None)" and "list_all is_fallback cs"
  shows "\<exists>s. policy_Load (fold refresh_step cs f') = Inr s \<and> statePolicy s = p \<and> policy_Validate p = None"
proof -
  have "holds p (fold refresh_step cs f')"
    unfolding fold_fallback[OF assms(2)] by (rule cache.run_inv) (use ApplyRefresh_ok(2)[OF assms(1)] in simp)
  then obtain s where "fold refresh_step cs f' = Stored s" "statePolicy s = p"
    by (auto simp: holds_def split: policy_file.splits)
  with ApplyRefresh_ok(1)[OF assms(1)] show ?thesis by (simp add: policy_Load_def loadRaw_def)
qed

definition io_ok :: io where "io_ok = \<lparr>locked = True, written = True\<rparr>"

definition quiet_policy :: Policy where
  "quiet_policy = DefaultPolicy\<lparr>enabled := False\<rparr>"

lemma service_policy_kept_witness:
  "\<exists>s. policy_Load (fold refresh_step [Failure io_ok 7, Refresh io_ok DefaultPolicy False 9]
      (fst (ApplyRefresh io_ok quiet_policy True 5 Malformed))) = Inr s \<and> statePolicy s = quiet_policy \<and>
     policy_Validate quiet_policy = None"
proof -
  have run: "snd (ApplyRefresh io_ok quiet_policy True 5 Malformed) = None" by code_simp
  then have "ApplyRefresh io_ok quiet_policy True 5 Malformed = (fst (ApplyRefresh io_ok quiet_policy True 5 Malformed), None)"
    by (metis prod.collapse)
  moreover have "list_all is_fallback [Failure io_ok 7, Refresh io_ok DefaultPolicy False 9]" by code_simp
  ultimately show ?thesis by (rule service_policy_kept)
qed

text \<open>
  A cached timestamp that does not parse is never repaired: every refresh fails on it and leaves the file.
\<close>

lemma bad_timestamp_stays: "refresh_step c BadTimestamp = BadTimestamp"
  by (cases c) (auto simp: refresh_step_def ApplyRefresh_def RecordRefreshFailure_def store_update_def loadRaw_def split: option.splits)

text \<open>A higher rate samples a superset of the calls.\<close>

lemma ShouldSample_mono: "ShouldSample sum256 c r \<Longrightarrow> r \<le> r' \<Longrightarrow> ShouldSample sum256 c r'"
  by (auto simp: ShouldSample_def split: if_splits)

end
