(* ===== verification/Telemetry_Queue.thy ===== *)
theory Telemetry_Queue
  imports Telemetry_Policy "HOL-Library.Multiset"
begin

text \<open>
  \<open>internal/products/meegle/telemetry/queue.go\<close> and \<open>routes.go\<close>: the queue of events on disk.

  A queue is its directory (absent, or a list of names with what each holds, in no particular order), the
  text of its sequence counter and the text of its last upload attempt.  \<open>encoding/json\<close> is the parameter
  \<open>codec\<close> over the type \<open>'d\<close> of file contents, SHA-256 the parameter \<open>sum256\<close>.  What the operating
  system decides is an argument: whether the lock is obtained, the directory created, the counter and the
  event written, and which files can be removed (in \<open>prune\<close> each removal takes the lock on its own).  A
  temporary file of an interrupted write is an entry whose name starts with \<open>.event-\<close>; a completed write
  appears by its rename.  Contexts that are cancelled are not modelled.  \<open>sort.Slice\<close> is the insertion
  sort it uses on short slices: where the comparison is a strict total order on the items every correct
  sort gives its result.
\<close>

section \<open>State\<close>

record QueueOptions =
  IdentityKey :: string
  MaxEvents :: int
  MaxBytes :: int
  Retention :: int

record queuedEnvelope =
  envIdentity :: string
  envQueuedAt :: int
  envSequence :: nat
  envGlobal :: nat
  envEvent :: Event

record QueuedEvent =
  qIdentity :: string
  qID :: string
  qQueuedAt :: int
  qSequence :: nat
  qGlobal :: nat
  qEvent :: Event
  qSize :: int

datatype 'd dirent = Regular 'd | UnreadableFile | NotRegular

type_synonym 'd directory = "(string \<times> 'd dirent) list"

record 'd Queue =
  qdir :: "'d directory option"
  sequenceFile :: "string option"
  attemptFile :: "string option"

record 'd codec =
  marshal :: "queuedEnvelope \<Rightarrow> 'd option"
  unmarshal :: "'d \<Rightarrow> queuedEnvelope option"
  dsize :: "'d \<Rightarrow> nat"

record queue_io =
  ioLock :: bool
  ioMkdir :: bool
  ioSequence :: bool
  ioWrite :: bool

datatype queue_error =
    QueueBusy | MkdirFailed | EventInvalid event_error | SequenceInvalid | SequenceExhausted | SequenceWriteFailed
  | EncodeFailed | EventTooLarge | EventWriteFailed | InvalidQueueID string | RemoveFailed string | ReadFileFailed
  | AttemptWriteFailed | AttemptRemoveFailed | QueuePanic

definition DefaultMaxQueueEvents :: int where "DefaultMaxQueueEvents = 1000"
definition DefaultMaxQueueBytes :: int where "DefaultMaxQueueBytes = 5 * 1024 * 1024"
definition DefaultQueueRetention :: int where "DefaultQueueRetention = 7 * 24 * hour"

definition NewQueue :: "QueueOptions \<Rightarrow> QueueOptions" where
  "NewQueue o1 =
     (let o2 = (if MaxEvents o1 \<le> 0 then o1\<lparr>MaxEvents := DefaultMaxQueueEvents\<rparr> else o1);
          o3 = (if MaxBytes o2 \<le> 0 then o2\<lparr>MaxBytes := DefaultMaxQueueBytes\<rparr> else o2)
      in if Retention o3 \<le> 0 then o3\<lparr>Retention := DefaultQueueRetention\<rparr> else o3)"

definition emptyQueue :: "'d Queue" where
  "emptyQueue = \<lparr>qdir = None, sequenceFile = None, attemptFile = None\<rparr>"

section \<open>Sequence numbers\<close>

definition uint64_max :: int where "uint64_max = 18446744073709551615"

definition ParseUint :: "string \<Rightarrow> nat option" where
  "ParseUint s =
     (case unsigned_digits s of None \<Rightarrow> None | Some n \<Rightarrow> if int n \<le> uint64_max then Some n else None)"

definition nextQueueSequence :: "bool \<Rightarrow> string option \<Rightarrow> (queue_error, nat) result \<times> string option" where
  "nextQueueSequence can_write file =
     (case (case file of None \<Rightarrow> Some 0 | Some data \<Rightarrow> ParseUint (TrimSpace data)) of
        None \<Rightarrow> (Inl SequenceInvalid, file)
      | Some current \<Rightarrow>
          (if int current = uint64_max then (Inl SequenceExhausted, file)
           else if \<not> can_write then (Inl SequenceWriteFailed, file)
           else (Inr (current + 1), Some (show_nat (current + 1)))))"

section \<open>Names\<close>

definition hex_digit :: "nat \<Rightarrow> char" where
  "hex_digit n = (if n < 10 then char_of (48 + n) else char_of (87 + n))"

definition hex_bytes :: "nat list \<Rightarrow> string" where
  "hex_bytes bytes = concat (map (\<lambda>b. [hex_digit (b div 16 mod 16), hex_digit (b mod 16)]) bytes)"

definition queueEventID :: "(string \<Rightarrow> nat list) \<Rightarrow> string \<Rightarrow> string" where
  "queueEventID sum256 call = hex_bytes (sum256 call) @ ''.json''"

text \<open>\<open>filepath.Base\<close>.\<close>

definition path_Base :: "string \<Rightarrow> string" where
  "path_Base p =
     (if p = [] then ''.''
      else (let s = rev (dropWhile (\<lambda>c. c = CHR ''/'') (rev p)) in
            if s = [] then ''/'' else rev (takeWhile (\<lambda>c. c \<noteq> CHR ''/'') (rev s))))"

section \<open>Directories\<close>

definition dget :: "'d directory \<Rightarrow> string \<Rightarrow> 'd dirent option" where
  "dget d name = map_of d name"

definition ddel :: "string \<Rightarrow> 'd directory \<Rightarrow> 'd directory" where
  "ddel name d = filter (\<lambda>(n, _). n \<noteq> name) d"

definition dput :: "string \<Rightarrow> 'd dirent \<Rightarrow> 'd directory \<Rightarrow> 'd directory" where
  "dput name x d = (name, x) # ddel name d"

definition ReadDir :: "'d directory \<Rightarrow> (string \<times> 'd dirent) list" where
  "ReadDir d = sort_key fst d"

definition remove_file :: "(string \<Rightarrow> bool) \<Rightarrow> string \<Rightarrow> 'd directory \<Rightarrow> 'd directory" where
  "remove_file rm name d = (if rm name then ddel name d else d)"

definition is_event_file :: "string \<times> 'd dirent \<Rightarrow> bool" where
  "is_event_file e = (snd e \<noteq> NotRegular \<and> HasSuffix (fst e) ''.json'')"

section \<open>Enqueue\<close>

definition findByCallID :: "(string \<Rightarrow> nat list) \<Rightarrow> 'd directory \<Rightarrow> string \<Rightarrow> string" where
  "findByCallID sum256 d call =
     (let eid = queueEventID sum256 call in if dget d eid = None then [] else eid)"

text \<open>The part of \<open>enqueueWithIDContext\<close> after the lock and the directory are there.\<close>

definition enqueue_locked ::
  "'d codec \<Rightarrow> (string \<Rightarrow> nat list) \<Rightarrow> QueueOptions \<Rightarrow> int \<Rightarrow> queue_io \<Rightarrow> Event \<Rightarrow> nat \<Rightarrow> 'd directory \<Rightarrow> 'd Queue \<Rightarrow>
   'd Queue \<times> (queue_error, string \<times> bool) result" where
  "enqueue_locked cod sum256 opt now env ev global d q =
     (let event = Normalize ev in
      (case Validate event of
         Some err \<Rightarrow> (q, Inl (EventInvalid err))
       | None \<Rightarrow>
           (let existing = findByCallID sum256 d (callID event) in
            if existing \<noteq> [] then (q, Inr (existing, False))
            else (case (if global = 0 then nextQueueSequence (ioSequence env) (sequenceFile q) else (Inr global, sequenceFile q)) of
                    (Inl err, file) \<Rightarrow> (q\<lparr>sequenceFile := file\<rparr>, Inl err)
                  | (Inr sequence, file) \<Rightarrow>
                      (let q1 = q\<lparr>sequenceFile := file\<rparr>;
                           envelope = \<lparr>envIdentity = IdentityKey opt, envQueuedAt = now, envSequence = sequence,
                                       envGlobal = global, envEvent = event\<rparr>
                       in (case marshal cod envelope of
                             None \<Rightarrow> (q1, Inl EncodeFailed)
                           | Some data \<Rightarrow>
                               (if int (dsize cod data) > MaxBytes opt then (q1, Inl EventTooLarge)
                                else if \<not> ioWrite env then (q1, Inl EventWriteFailed)
                                else (let eid = queueEventID sum256 (callID event)
                                      in (q1\<lparr>qdir := Some (dput eid (Regular data) d)\<rparr>, Inr (eid, True))))))))))"

definition enqueueWithID ::
  "'d codec \<Rightarrow> (string \<Rightarrow> nat list) \<Rightarrow> QueueOptions \<Rightarrow> int \<Rightarrow> queue_io \<Rightarrow> Event \<Rightarrow> nat \<Rightarrow> 'd Queue \<Rightarrow>
   'd Queue \<times> (queue_error, string \<times> bool) result" where
  "enqueueWithID cod sum256 opt now env ev global q =
     (if \<not> ioLock env then (q, Inl QueueBusy)
      else if \<not> ioMkdir env then (q, Inl MkdirFailed)
      else (let d = (case qdir q of None \<Rightarrow> [] | Some d \<Rightarrow> d)
            in enqueue_locked cod sum256 opt now env ev global d (q\<lparr>qdir := Some d\<rparr>)))"

section \<open>Ack and Clear\<close>

fun ack_loop :: "(string \<Rightarrow> bool) \<Rightarrow> string list \<Rightarrow> 'd directory \<Rightarrow> 'd directory \<times> queue_error option" where
  "ack_loop rm [] d = (d, None)"
| "ack_loop rm (eid # ids) d =
     (if path_Base eid \<noteq> eid \<or> \<not> HasSuffix (path_Base eid) ''.json'' then (d, Some (InvalidQueueID eid))
      else if dget d eid \<noteq> None \<and> \<not> rm eid then (d, Some (RemoveFailed eid))
      else ack_loop rm ids (ddel eid d))"

definition Ack :: "bool \<Rightarrow> (string \<Rightarrow> bool) \<Rightarrow> string list \<Rightarrow> 'd Queue \<Rightarrow> 'd Queue \<times> queue_error option" where
  "Ack lock rm ids q =
     (if \<not> lock then (q, Some QueueBusy)
      else (case qdir q of
              None \<Rightarrow> (q, snd (ack_loop rm ids ([] :: 'd directory)))
            | Some d \<Rightarrow> (case ack_loop rm ids d of (d', err) \<Rightarrow> (q\<lparr>qdir := Some d'\<rparr>, err))))"

fun clear_loop :: "(string \<Rightarrow> bool) \<Rightarrow> (string \<times> 'd dirent) list \<Rightarrow> 'd directory \<Rightarrow> 'd directory \<times> queue_error option" where
  "clear_loop rm [] d = (d, None)"
| "clear_loop rm (e # es) d =
     (if is_event_file e then
        (if \<not> rm (fst e) then (d, Some (RemoveFailed (fst e))) else clear_loop rm es (ddel (fst e) d))
      else clear_loop rm es d)"

definition Clear :: "bool \<Rightarrow> (string \<Rightarrow> bool) \<Rightarrow> 'd Queue \<Rightarrow> 'd Queue \<times> queue_error option" where
  "Clear lock rm q =
     (if \<not> lock then (q, Some QueueBusy)
      else (case qdir q of
              None \<Rightarrow> (q, None)
            | Some d \<Rightarrow> (case clear_loop rm (ReadDir d) d of (d', err) \<Rightarrow> (q\<lparr>qdir := Some d'\<rparr>, err))))"

definition HasEvents :: "'d Queue \<Rightarrow> bool" where
  "HasEvents q = (case qdir q of None \<Rightarrow> False | Some d \<Rightarrow> list_ex is_event_file d)"

section \<open>Listing and pruning\<close>

text \<open>The order of \<open>list\<close>: sequence numbers when both have one, else time, sequence and name.\<close>

definition item_less :: "QueuedEvent \<Rightarrow> QueuedEvent \<Rightarrow> bool" where
  "item_less a b =
     (if qSequence a > 0 \<and> qSequence b > 0 \<and> qSequence a \<noteq> qSequence b then qSequence a < qSequence b
      else if qQueuedAt a = qQueuedAt b then
        (if qSequence a \<noteq> qSequence b then qSequence a < qSequence b else qID a < qID b)
      else qQueuedAt a < qQueuedAt b)"

text \<open>\<open>sort.Slice\<close>: each item sinks towards the front while it is less than its neighbour.\<close>

fun sink :: "('a \<Rightarrow> 'a \<Rightarrow> bool) \<Rightarrow> 'a \<Rightarrow> 'a list \<Rightarrow> 'a list" where
  "sink lt x [] = [x]"
| "sink lt x (y # ys) = (if lt x y then y # sink lt x ys else x # y # ys)"

definition sort_slice :: "('a \<Rightarrow> 'a \<Rightarrow> bool) \<Rightarrow> 'a list \<Rightarrow> 'a list" where
  "sort_slice lt xs = rev (fold (sink lt) xs [])"

definition queued_item :: "'d codec \<Rightarrow> string \<Rightarrow> 'd \<Rightarrow> queuedEnvelope \<Rightarrow> QueuedEvent" where
  "queued_item cod name data envelope =
     \<lparr>qIdentity = envIdentity envelope, qID = name, qQueuedAt = envQueuedAt envelope, qSequence = envSequence envelope,
      qGlobal = envGlobal envelope, qEvent = Normalize (envEvent envelope), qSize = int (dsize cod data)\<rparr>"

fun list_loop :: "'d codec \<Rightarrow> (string \<Rightarrow> bool) \<Rightarrow> (string \<times> 'd dirent) list \<Rightarrow> 'd directory \<Rightarrow> QueuedEvent list \<Rightarrow>
   'd directory \<times> (queue_error, QueuedEvent list) result" where
  "list_loop cod rm [] d items = (d, Inr items)"
| "list_loop cod rm ((name, x) # es) d items =
     (if \<not> is_event_file (name, x) then list_loop cod rm es d items
      else (case x of
              NotRegular \<Rightarrow> list_loop cod rm es d items
            | UnreadableFile \<Rightarrow> (d, Inl ReadFileFailed)
            | Regular data \<Rightarrow>
                (case unmarshal cod data of
                   None \<Rightarrow> list_loop cod rm es (remove_file rm name d) items
                 | Some envelope \<Rightarrow>
                     (if Validate (Normalize (envEvent envelope)) \<noteq> None
                      then list_loop cod rm es (remove_file rm name d) items
                      else list_loop cod rm es d (items @ [queued_item cod name data envelope])))))"

definition queue_list :: "'d codec \<Rightarrow> (string \<Rightarrow> bool) \<Rightarrow> 'd directory \<Rightarrow> 'd directory \<times> (queue_error, QueuedEvent list) result" where
  "queue_list cod rm d =
     (case list_loop cod rm (ReadDir d) d [] of
        (d', Inl err) \<Rightarrow> (d', Inl err)
      | (d', Inr items) \<Rightarrow> (d', Inr (sort_slice item_less items)))"

fun cleanup_loop :: "(string \<Rightarrow> bool) \<Rightarrow> (string \<times> 'd dirent) list \<Rightarrow> 'd directory \<Rightarrow> 'd directory \<times> queue_error option" where
  "cleanup_loop rm [] d = (d, None)"
| "cleanup_loop rm (e # es) d =
     (if snd e \<noteq> NotRegular \<and> HasPrefix (fst e) ''.event-'' then
        (if \<not> rm (fst e) then (d, Some (RemoveFailed (fst e))) else cleanup_loop rm es (ddel (fst e) d))
      else cleanup_loop rm es d)"

definition cleanupTemps :: "(string \<Rightarrow> bool) \<Rightarrow> 'd directory \<Rightarrow> 'd directory \<times> queue_error option" where
  "cleanupTemps rm d = cleanup_loop rm (ReadDir d) d"

definition expired :: "QueueOptions \<Rightarrow> int \<Rightarrow> QueuedEvent \<Rightarrow> bool" where
  "expired opt now item =
     (qQueuedAt item = 0 \<or> qQueuedAt item < now - Retention opt \<or> qQueuedAt item > now + Retention opt)"

text \<open>The expired items go, one acknowledgement each; the others are kept with their total size.\<close>

fun expire_loop :: "QueueOptions \<Rightarrow> int \<Rightarrow> (string \<Rightarrow> bool) \<Rightarrow> QueuedEvent list \<Rightarrow> 'd directory \<Rightarrow> QueuedEvent list \<Rightarrow> int \<Rightarrow>
   'd directory \<times> (queue_error, QueuedEvent list \<times> int) result" where
  "expire_loop opt now rm [] d kept bytes = (d, Inr (kept, bytes))"
| "expire_loop opt now rm (item # items) d kept bytes =
     (if expired opt now item then
        (case ack_loop rm [qID item] d of
           (d', Some err) \<Rightarrow> (d', Inl err)
         | (d', None) \<Rightarrow> expire_loop opt now rm items d' kept bytes)
      else expire_loop opt now rm items d (kept @ [item]) (bytes + qSize item))"

text \<open>The oldest go while there are too many; an index out of range would be a panic.\<close>

fun trim_loop :: "int \<Rightarrow> int \<Rightarrow> (string \<Rightarrow> bool) \<Rightarrow> QueuedEvent list \<Rightarrow> int \<Rightarrow> 'd directory \<Rightarrow>
   'd directory \<times> (queue_error, QueuedEvent list) result" where
  "trim_loop max_events max_bytes rm [] bytes d =
     (if 0 > max_events \<or> bytes > max_bytes then (d, Inl QueuePanic) else (d, Inr []))"
| "trim_loop max_events max_bytes rm (item # items) bytes d =
     (if int (length (item # items)) > max_events \<or> bytes > max_bytes then
        (case ack_loop rm [qID item] d of
           (d', Some err) \<Rightarrow> (d', Inl err)
         | (d', None) \<Rightarrow> trim_loop max_events max_bytes rm items (bytes - qSize item) d')
      else (d, Inr (item # items)))"

definition prune_dir :: "'d codec \<Rightarrow> QueueOptions \<Rightarrow> int \<Rightarrow> (string \<Rightarrow> bool) \<Rightarrow> 'd directory \<Rightarrow>
   'd directory \<times> (queue_error, QueuedEvent list) result" where
  "prune_dir cod opt now rm d0 =
     (case cleanupTemps rm d0 of
        (d1, Some err) \<Rightarrow> (d1, Inl err)
      | (d1, None) \<Rightarrow>
          (case queue_list cod rm d1 of
             (d2, Inl err) \<Rightarrow> (d2, Inl err)
           | (d2, Inr items) \<Rightarrow>
               (case expire_loop opt now rm items d2 [] 0 of
                  (d3, Inl err) \<Rightarrow> (d3, Inl err)
                | (d3, Inr (kept, bytes)) \<Rightarrow> trim_loop (MaxEvents opt) (MaxBytes opt) rm kept bytes d3)))"

definition prune :: "'d codec \<Rightarrow> QueueOptions \<Rightarrow> int \<Rightarrow> (string \<Rightarrow> bool) \<Rightarrow> 'd Queue \<Rightarrow>
   'd Queue \<times> (queue_error, QueuedEvent list) result" where
  "prune cod opt now rm q =
     (case qdir q of
        None \<Rightarrow> (q, Inr [])
      | Some d \<Rightarrow> (case prune_dir cod opt now rm d of (d', r) \<Rightarrow> (q\<lparr>qdir := Some d'\<rparr>, r)))"

section \<open>Upload attempts\<close>

definition unix_epoch :: int where "unix_epoch = 62135596800 * 1000000000"

definition show_int :: "int \<Rightarrow> string" where
  "show_int i = (if i < 0 then CHR ''-'' # show_nat (nat (- i)) else show_nat (nat i))"

definition UnixMilli :: "int \<Rightarrow> int" where "UnixMilli t = (t - unix_epoch) div 1000000"

definition from_UnixMilli :: "int \<Rightarrow> int" where "from_UnixMilli ms = unix_epoch + ms * 1000000"

definition uploadRetryInterval :: int where "uploadRetryInterval = hour"

definition UploadDue :: "int \<Rightarrow> 'd Queue \<Rightarrow> bool" where
  "UploadDue now q =
     (case attemptFile q of
        None \<Rightarrow> True
      | Some data \<Rightarrow>
          (case Atoi (TrimSpace data) of
             None \<Rightarrow> True
           | Some ms \<Rightarrow>
               (let attempt = from_UnixMilli ms in
                if attempt > now + uploadRetryInterval then True else \<not> now < attempt + uploadRetryInterval)))"

text \<open>
  \<open>works\<close> tells whether the file system does the write or the removal; a file that is not written atomically
  stays as it was, and one that is not there needs no removal.
\<close>

definition RecordUploadAttempt :: "bool \<Rightarrow> int \<Rightarrow> 'd Queue \<Rightarrow> 'd Queue \<times> queue_error option" where
  "RecordUploadAttempt works now q =
     (if works then (q\<lparr>attemptFile := Some (show_int (UnixMilli now))\<rparr>, None) else (q, Some AttemptWriteFailed))"

definition ClearUploadAttempt :: "bool \<Rightarrow> 'd Queue \<Rightarrow> 'd Queue \<times> queue_error option" where
  "ClearUploadAttempt works q =
     (if attemptFile q = None then (q, None)
      else if works then (q\<lparr>attemptFile := None\<rparr>, None) else (q, Some AttemptRemoveFailed))"

section \<open>Directories as maps\<close>

definition sub_dir :: "'d directory \<Rightarrow> string set \<Rightarrow> 'd directory" where
  "sub_dir d S = filter (\<lambda>(n, _). n \<notin> S) d"

lemma ddel_sub: "ddel n d = sub_dir d {n}"
  by (simp add: ddel_def sub_dir_def)

lemma sub_dir_sub [simp]: "sub_dir (sub_dir d S) T = sub_dir d (S \<union> T)"
  by (simp add: sub_dir_def) (rule filter_cong, auto)

lemma sub_dir_empty [simp]: "sub_dir d {} = d"
  by (simp add: sub_dir_def)

lemma sub_dir_Nil [simp]: "sub_dir [] S = []"
  by (simp add: sub_dir_def)

lemma sub_dir_subset: "set (sub_dir d S) \<subseteq> set d"
  by (auto simp: sub_dir_def)

lemma sub_dir_distinct: "distinct (map fst d) \<Longrightarrow> distinct (map fst (sub_dir d S))"
  by (simp add: sub_dir_def distinct_map_filter)

lemma dget_sub: "dget (sub_dir d S) n = (if n \<in> S then None else dget d n)"
  by (induction d) (auto simp: dget_def sub_dir_def)

text \<open>What the queue holds: the envelopes by the names of their files.\<close>

definition view_dir :: "'d codec \<Rightarrow> 'd directory \<Rightarrow> string \<Rightarrow> queuedEnvelope option" where
  "view_dir cod d n = (case dget d n of Some (Regular data) \<Rightarrow> unmarshal cod data | _ \<Rightarrow> None)"

definition view :: "'d codec \<Rightarrow> 'd Queue \<Rightarrow> string \<Rightarrow> queuedEnvelope option" where
  "view cod q = (case qdir q of None \<Rightarrow> Map.empty | Some d \<Rightarrow> view_dir cod d)"

lemma sub_dir_cong: "(\<And>n. n \<in> fst ` set d \<Longrightarrow> n \<in> S \<longleftrightarrow> n \<in> T) \<Longrightarrow> sub_dir d S = sub_dir d T"
  unfolding sub_dir_def by (rule filter_cong) (force split: prod.splits)+

lemma restrict_map_UNIV [simp]: "m |` UNIV = m"
  by (rule ext) (simp add: restrict_map_def)

lemma view_sub: "view_dir cod (sub_dir d S) = view_dir cod d |` (- S)"
  by (rule ext) (simp add: view_dir_def dget_sub restrict_map_def)

lemma view_put: "view_dir cod (dput n (Regular data) d) = (view_dir cod d)(n := unmarshal cod data)"
proof -
  have "dget (dput n x d) m = (if m = n then Some x else dget d m)" for m x
    using dget_sub[of d "{n}" m] by (simp add: dput_def ddel_sub dget_def)
  then show ?thesis by (auto simp: view_dir_def)
qed

text \<open>A file the queue wrote, and a directory of such files.\<close>

fun entry_ok :: "'d codec \<Rightarrow> (string \<Rightarrow> nat list) \<Rightarrow> string \<times> 'd dirent \<Rightarrow> bool" where
  "entry_ok cod sum256 (n, Regular data) =
     (case unmarshal cod data of
        None \<Rightarrow> False
      | Some envelope \<Rightarrow>
          Validate (envEvent envelope) = None \<and> Normalize (envEvent envelope) = envEvent envelope \<and>
          n = queueEventID sum256 (callID (envEvent envelope)))"
| "entry_ok cod sum256 (n, UnreadableFile) = False"
| "entry_ok cod sum256 (n, NotRegular) = False"

definition dir_ok :: "'d codec \<Rightarrow> (string \<Rightarrow> nat list) \<Rightarrow> 'd directory \<Rightarrow> bool" where
  "dir_ok cod sum256 d = (distinct (map fst d) \<and> list_all (entry_ok cod sum256) d)"

definition queue_ok :: "'d codec \<Rightarrow> (string \<Rightarrow> nat list) \<Rightarrow> 'd Queue \<Rightarrow> bool" where
  "queue_ok cod sum256 q = (case qdir q of None \<Rightarrow> True | Some d \<Rightarrow> dir_ok cod sum256 d)"

lemma dir_ok_sub: "dir_ok cod sum256 d \<Longrightarrow> dir_ok cod sum256 (sub_dir d S)"
  using sub_dir_subset[of d S] by (auto simp: dir_ok_def sub_dir_distinct list_all_iff)

lemma fst_sub: "fst ` set (sub_dir d S) = fst ` set d - S"
  by (force simp: sub_dir_def)

lemma dir_ok_put:
  assumes "dir_ok cod sum256 d" and "entry_ok cod sum256 (n, x)" shows "dir_ok cod sum256 (dput n x d)"
proof -
  have "n \<notin> fst ` set (sub_dir d {n})" by (simp add: fst_sub)
  with assms dir_ok_sub[OF assms(1), of "{n}"] show ?thesis by (simp add: dir_ok_def dput_def ddel_sub)
qed

lemma entry_okE:
  assumes "entry_ok cod sum256 e"
  obtains data envelope where "e = (queueEventID sum256 (callID (envEvent envelope)), Regular data)"
    "unmarshal cod data = Some envelope" "Validate (envEvent envelope) = None" "Normalize (envEvent envelope) = envEvent envelope"
  using assms by (cases "(cod, sum256, e)" rule: entry_ok.cases) (auto split: option.splits)

section \<open>Names of event files\<close>

lemma hex_digit_facts: "n < 16 \<Longrightarrow> hex_digit n \<noteq> CHR ''/'' \<and> hex_digit n \<noteq> CHR ''.''"
proof -
  assume "n < 16"
  then have "n \<in> set [0..<16]" by simp
  moreover have "list_all (\<lambda>n. hex_digit n \<noteq> CHR ''/'' \<and> hex_digit n \<noteq> CHR ''.'') [0..<16]" by code_simp
  ultimately show ?thesis unfolding list_all_iff by blast
qed

lemma hex_bytes_chars: "\<forall>c \<in> set (hex_bytes bs). c \<noteq> CHR ''/'' \<and> c \<noteq> CHR ''.''"
  using hex_digit_facts by (auto simp: hex_bytes_def)

lemma event_name_suffix [simp]: "HasSuffix (queueEventID sum256 call) ''.json''"
  by (simp add: queueEventID_def HasSuffix_def)

lemma event_name_base [simp]: "path_Base (queueEventID sum256 call) = queueEventID sum256 call"
proof -
  let ?n = "queueEventID sum256 call"
  have "\<forall>c \<in> set ?n. c \<noteq> CHR ''/''" using hex_bytes_chars[of "sum256 call"] by (auto simp: queueEventID_def)
  then have no: "\<forall>c \<in> set (rev ?n). c \<noteq> CHR ''/''" by simp
  then have "dropWhile (\<lambda>c. c = CHR ''/'') (rev ?n) = rev ?n"
    by (rule dropWhile_none[where p = "\<lambda>c. c = CHR ''/''"])
  moreover have "takeWhile (\<lambda>c. c \<noteq> CHR ''/'') (rev ?n) = rev ?n"
    unfolding takeWhile_eq_all_conv by (rule no)
  moreover have "?n \<noteq> []" by (simp add: queueEventID_def)
  ultimately show ?thesis by (simp only: path_Base_def Let_def rev_rev_ident if_False rev_is_Nil_conv)
qed

lemma event_name_nonempty [simp]: "queueEventID sum256 call \<noteq> []"
  by (simp add: queueEventID_def)

lemma event_name_not_temp [simp]: "\<not> HasPrefix (queueEventID sum256 call) ''.event-''"
proof (cases "hex_bytes (sum256 call)")
  case (Cons c cs)
  with hex_bytes_chars[of "sum256 call"] have "c \<noteq> CHR ''.''" by simp
  with Cons show ?thesis by (simp add: queueEventID_def)
qed (simp add: queueEventID_def)

section \<open>What the loops do\<close>

lemma sink_mset: "mset (sink lt x ys) = add_mset x (mset ys)"
  by (induction lt x ys rule: sink.induct) auto

lemma sort_slice_mset [simp]: "mset (sort_slice lt xs) = mset xs"
proof -
  have "mset (fold (sink lt) xs ys) = mset xs + mset ys" for ys
    by (induction xs arbitrary: ys) (simp_all add: sink_mset)
  from this[of "[]"] show ?thesis by (simp add: sort_slice_def)
qed

lemma sort_slice_set [simp]: "set (sort_slice lt xs) = set xs"
  by (metis mset_eq_setD sort_slice_mset)

lemma ack_loop_sub:
  "ack_loop rm ids d = (d', err) \<Longrightarrow>
   \<exists>gone rest. ids = gone @ rest \<and> d' = sub_dir d (set gone) \<and> (err = None \<longrightarrow> rest = [])"
proof (induction rm ids d arbitrary: d' err rule: ack_loop.induct)
  case (2 rm eid ids d)
  show ?case
  proof (cases "(path_Base eid \<noteq> eid \<or> \<not> HasSuffix (path_Base eid) ''.json'') \<or> (dget d eid \<noteq> None \<and> \<not> rm eid)")
    case True
    with 2(2) have "d' = d" "err \<noteq> None" by (auto simp only: ack_loop.simps split: if_splits)
    then show ?thesis by (intro exI[of _ "[]"] exI[of _ "eid # ids"]) simp
  next
    case False
    then have f: "\<not> (path_Base eid \<noteq> eid \<or> \<not> HasSuffix (path_Base eid) ''.json'')" "\<not> (dget d eid \<noteq> None \<and> \<not> rm eid)"
      by blast+
    have "ack_loop rm ids (ddel eid d) = (d', err)"
      using 2(2) unfolding ack_loop.simps if_not_P[OF f(1)] if_not_P[OF f(2)] .
    with 2(1) False obtain gone rest where
      "ids = gone @ rest" "d' = sub_dir (ddel eid d) (set gone)" "err = None \<longrightarrow> rest = []" by blast
    then show ?thesis by (intro exI[of _ "eid # gone"] exI[of _ rest]) (simp add: ddel_sub)
  qed
qed simp

lemma ack_one:
  assumes "ack_loop rm [n] d = (d', err)"
  shows "d' = (if err = None then sub_dir d {n} else d)"
proof -
  from ack_loop_sub[OF assms] obtain gone rest where g: "[n] = gone @ rest" "d' = sub_dir d (set gone)" "err = None \<longrightarrow> rest = []"
    by blast
  show ?thesis
  proof (cases "err = None")
    case False
    with assms have "d' = d" by (auto simp: ack_loop.simps(1) simp del: ack_loop.simps(2) simp: ack_loop.simps(2)[of rm n "[]"] split: if_splits)
    with False show ?thesis by auto
  qed (use g in auto)
qed

lemma clear_loop_sub: "clear_loop rm es d = (d', err) \<Longrightarrow> \<exists>S. d' = sub_dir d S"
proof (induction rm es d arbitrary: d' err rule: clear_loop.induct)
  case (1 rm d)
  then show ?case by (metis clear_loop.simps(1) prod.inject sub_dir_empty)
next
  case (2 rm e es d)
  show ?case
  proof (cases "is_event_file e \<and> rm (fst e)")
    case True
    with 2 obtain S where "d' = sub_dir (ddel (fst e) d) S" by auto
    then show ?thesis by (auto simp: ddel_sub)
  next
    case False
    with 2 show ?thesis by (auto split: if_splits) (metis sub_dir_empty)
  qed
qed

lemma cleanup_none:
  assumes "\<forall>e \<in> set es. \<not> HasPrefix (fst e) ''.event-''" shows "cleanup_loop rm es d = (d, None)"
  using assms by (induction es) auto

lemma ReadDir_set [simp]: "set (ReadDir d) = set d"
  by (simp add: ReadDir_def)

definition item_of :: "'d codec \<Rightarrow> string \<times> 'd dirent \<Rightarrow> QueuedEvent" where
  "item_of cod e = (case snd e of Regular data \<Rightarrow> queued_item cod (fst e) data (the (unmarshal cod data)) | _ \<Rightarrow> undefined)"

lemma item_of_ID: "entry_ok cod sum256 e \<Longrightarrow> qID (item_of cod e) = fst e"
  by (erule entry_okE) (simp add: item_of_def queued_item_def)

lemma list_loop_ok:
  assumes "list_all (entry_ok cod sum256) es"
  shows "list_loop cod rm es d items = (d, Inr (items @ map (item_of cod) es))"
  using assms
proof (induction es arbitrary: items)
  case (Cons e es)
  then obtain data envelope where e: "e = (queueEventID sum256 (callID (envEvent envelope)), Regular data)"
    "unmarshal cod data = Some envelope" "Validate (envEvent envelope) = None" "Normalize (envEvent envelope) = envEvent envelope"
    by (auto elim: entry_okE)
  have "is_event_file e" by (simp add: e(1) is_event_file_def)
  with e Cons show ?case by (simp add: item_of_def)
qed simp

lemma expire_loop_ok:
  "expire_loop opt now rm items d kept bytes = (d', r) \<Longrightarrow>
   (\<exists>S. d' = sub_dir d S) \<and>
   (\<forall>kept' bytes'. r = Inr (kept', bytes') \<longrightarrow>
      kept' = kept @ filter (\<lambda>i. \<not> expired opt now i) items \<and>
      bytes' = bytes + sum_list (map qSize (filter (\<lambda>i. \<not> expired opt now i) items)) \<and>
      d' = sub_dir d (qID ` set (filter (expired opt now) items)))"
proof (induction opt now rm items d kept bytes arbitrary: d' r rule: expire_loop.induct)
  case (1 opt now rm d kept bytes)
  then show ?case by (auto intro: exI[of _ "{}"])
next
  case (2 opt now rm item items d kept bytes)
  show ?case
  proof (cases "expired opt now item")
    case True
    obtain d1 err where a: "ack_loop rm [qID item] d = (d1, err)" by (cases "ack_loop rm [qID item] d")
    show ?thesis
    proof (cases err)
      case None
      then have d1: "d1 = sub_dir d {qID item}" using ack_one[OF a] by simp
      from 2(3) True a None have "expire_loop opt now rm items d1 kept bytes = (d', r)" by simp
      from 2(1)[OF True a[symmetric] None this] show ?thesis unfolding d1 by (simp add: True) blast
    next
      case (Some e)
      then have "d1 = d" using ack_one[OF a] by simp
      with 2(3) True a Some have "d' = d" "r = Inl e" by auto
      then show ?thesis by (auto intro: exI[of _ "{}"])
    qed
  next
    case False
    with 2(3) have "expire_loop opt now rm items d (kept @ [item]) (bytes + qSize item) = (d', r)" by simp
    from 2(2)[OF False this] False show ?thesis by (simp add: add.assoc)
  qed
qed

lemma expire_no_panic:
  "expire_loop opt now rm items d kept bytes = (d', r) \<Longrightarrow> r \<noteq> Inl QueuePanic"
proof (induction opt now rm items d kept bytes arbitrary: d' r rule: expire_loop.induct)
  case (2 opt now rm item items d kept bytes)
  show ?case
  proof (cases "expired opt now item")
    case True
    obtain d1 err where a: "ack_loop rm [qID item] d = (d1, err)" by (cases "ack_loop rm [qID item] d")
    show ?thesis
    proof (cases err)
      case None
      with 2(3) True a have "expire_loop opt now rm items d1 kept bytes = (d', r)" by simp
      from 2(1)[OF True a[symmetric] None this] show ?thesis .
    next
      case (Some e)
      with 2(3) True a have "r = Inl e" by auto
      moreover have "e \<noteq> QueuePanic" using a Some by (auto split: if_splits)
      ultimately show ?thesis by simp
    qed
  next
    case False
    with 2(3) have "expire_loop opt now rm items d (kept @ [item]) (bytes + qSize item) = (d', r)" by simp
    from 2(2)[OF False this] show ?thesis .
  qed
qed auto

definition fits_limits :: "int \<Rightarrow> int \<Rightarrow> QueuedEvent list \<Rightarrow> bool" where
  "fits_limits max_events max_bytes items =
     (int (length items) \<le> max_events \<and> sum_list (map qSize items) \<le> max_bytes)"

lemma trim_loop_ok:
  "trim_loop me mb rm items bytes d = (d', r) \<Longrightarrow> bytes = sum_list (map qSize items) \<Longrightarrow> 0 \<le> me \<Longrightarrow> 0 \<le> mb \<Longrightarrow>
   (\<exists>S. d' = sub_dir d S) \<and> r \<noteq> Inl QueuePanic \<and>
   (\<forall>kept. r = Inr kept \<longrightarrow>
      fits_limits me mb kept \<and>
      (\<exists>gone. items = gone @ kept \<and> d' = sub_dir d (qID ` set gone) \<and>
         (\<forall>front x. gone = front @ [x] \<longrightarrow> \<not> fits_limits me mb (x # kept))))"
proof (induction me mb rm items bytes d arbitrary: d' r rule: trim_loop.induct)
  case (1 me mb rm bytes d)
  then have "d' = d" "r = Inr []" by auto
  with 1 show ?case by (auto simp: fits_limits_def intro: exI[of _ "{}"])
next
  case (2 me mb rm item items bytes d)
  show ?case
  proof (cases "int (length (item # items)) > me \<or> bytes > mb")
    case True
    then have over: "\<not> fits_limits me mb (item # items)" using 2(3) by (auto simp: fits_limits_def)
    obtain d1 err where a: "ack_loop rm [qID item] d = (d1, err)" by (cases "ack_loop rm [qID item] d")
    show ?thesis
    proof (cases err)
      case None
      then have d1: "d1 = sub_dir d {qID item}" using ack_one[OF a] by simp
      from 2(2) True a None have "trim_loop me mb rm items (bytes - qSize item) d1 = (d', r)" by simp
      from 2(1)[OF True a[symmetric] None this] 2(3-5)
      have ih: "(\<exists>S. d' = sub_dir d1 S) \<and> r \<noteq> Inl QueuePanic \<and>
        (\<forall>kept. r = Inr kept \<longrightarrow> fits_limits me mb kept \<and>
          (\<exists>gone. items = gone @ kept \<and> d' = sub_dir d1 (qID ` set gone) \<and>
             (\<forall>front x. gone = front @ [x] \<longrightarrow> \<not> fits_limits me mb (x # kept))))" by simp
      have "\<exists>gone. item # items = gone @ kept \<and> d' = sub_dir d (qID ` set gone) \<and>
          (\<forall>front x. gone = front @ [x] \<longrightarrow> \<not> fits_limits me mb (x # kept))" if k: "r = Inr kept" for kept
      proof -
        from ih k obtain gone where g: "items = gone @ kept" "d' = sub_dir d1 (qID ` set gone)"
          "\<forall>front x. gone = front @ [x] \<longrightarrow> \<not> fits_limits me mb (x # kept)" by blast
        have "\<not> fits_limits me mb (x # kept)" if "item # gone = front @ [x]" for front x
        proof (cases gone rule: rev_cases)
          case Nil
          with that over g(1) show ?thesis by (cases front) auto
        next
          case (snoc ys y)
          with that have "x = y" by (cases front) auto
          with g(3) snoc show ?thesis by blast
        qed
        with g d1 show ?thesis by (intro exI[of _ "item # gone"]) simp
      qed
      with ih d1 show ?thesis by auto
    next
      case (Some e)
      then have "d1 = d" using ack_one[OF a] by simp
      with 2(2) True a Some have "d' = d" "r = Inl e" by auto
      moreover have "e \<noteq> QueuePanic" using a Some by (auto split: if_splits)
      ultimately show ?thesis by (auto intro: exI[of _ "{}"])
    qed
  next
    case False
    with 2(2) have "d' = d" "r = Inr (item # items)" by auto
    moreover have "fits_limits me mb (item # items)" using False 2(3) by (simp add: fits_limits_def)
    ultimately show ?thesis by (auto intro: exI[of _ "{}"])
  qed
qed

section \<open>Operations on a well-formed queue\<close>

text \<open>What the queue relies on from \<open>encoding/json\<close>: decoding inverts encoding.\<close>

definition codec_ok :: "'d codec \<Rightarrow> bool" where
  "codec_ok cod = (\<forall>envelope data. marshal cod envelope = Some data \<longrightarrow> unmarshal cod data = Some envelope)"

lemma view_dir_None:
  assumes "dir_ok cod sum256 d" shows "view_dir cod d n = None \<longleftrightarrow> dget d n = None"
proof (cases "dget d n")
  case (Some x)
  then have "(n, x) \<in> set d" by (simp add: dget_def map_of_SomeD)
  with assms have "entry_ok cod sum256 (n, x)" by (simp add: dir_ok_def list_all_iff)
  then show ?thesis by (rule entry_okE) (use Some in \<open>simp add: view_dir_def\<close>)
qed (simp add: view_dir_def)

lemma view_dom: "dir_ok cod sum256 d \<Longrightarrow> dom (view_dir cod d) = fst ` set d"
  using view_dir_None[of cod sum256 d] by (auto simp: dom_def dget_def map_of_eq_None_iff)

lemma view_item:
  assumes "dir_ok cod sum256 d" and "e \<in> set d"
  shows "\<exists>envelope. view_dir cod d (fst e) = Some envelope \<and> qEvent (item_of cod e) = envEvent envelope \<and>
    qSequence (item_of cod e) = envSequence envelope \<and> qQueuedAt (item_of cod e) = envQueuedAt envelope \<and>
    qIdentity (item_of cod e) = envIdentity envelope"
proof -
  from assms have "entry_ok cod sum256 e" by (simp add: dir_ok_def list_all_iff)
  moreover have "dget d (fst e) = Some (snd e)" using assms by (simp add: dget_def dir_ok_def)
  ultimately show ?thesis by (auto elim!: entry_okE simp: view_dir_def item_of_def queued_item_def)
qed

definition accepted_envelope :: "QueueOptions \<Rightarrow> int \<Rightarrow> Event \<Rightarrow> queuedEnvelope \<Rightarrow> bool" where
  "accepted_envelope opt now ev envelope =
     (envEvent envelope = Normalize ev \<and> envQueuedAt envelope = now \<and> envIdentity envelope = IdentityKey opt)"

lemma enqueue_locked_ok:
  assumes cod: "codec_ok cod" and d: "dir_ok cod sum256 d" "qdir q = Some d"
    and run: "enqueue_locked cod sum256 opt now env ev global d q = (q', r)"
  shows "queue_ok cod sum256 q'"
    and "r = Inl err \<Longrightarrow> view cod q' = view_dir cod d"
    and "r = Inr (n, False) \<Longrightarrow> n = queueEventID sum256 (callID ev) \<and> view cod q' = view_dir cod d \<and> n \<in> dom (view_dir cod d)"
    and "r = Inr (n, True) \<Longrightarrow> n = queueEventID sum256 (callID ev) \<and> Validate (Normalize ev) = None \<and> n \<notin> dom (view_dir cod d) \<and>
      (\<exists>envelope. accepted_envelope opt now ev envelope \<and> view cod q' = (view_dir cod d)(n \<mapsto> envelope))"
proof -
  let ?n = "queueEventID sum256 (callID ev)" and ?e = "Normalize ev"
  have same: "queue_ok cod sum256 p" "view cod p = view_dir cod d" if "qdir p = Some d" for p :: "'a Queue"
    using d that by (simp_all add: queue_ok_def view_def)
  consider (err) x where "r = Inl x" "qdir q' = Some d"
    | (dup) "r = Inr (?n, False)" "qdir q' = Some d" "dget d ?n \<noteq> None"
    | (new) data sequence where "r = Inr (?n, True)" "qdir q' = Some (dput ?n (Regular data) d)"
        "dget d ?n = None" "Validate ?e = None"
        "marshal cod \<lparr>envIdentity = IdentityKey opt, envQueuedAt = now, envSequence = sequence, envGlobal = global, envEvent = ?e\<rparr> = Some data"
    using run d(2) unfolding enqueue_locked_def
    by (auto simp: Let_def findByCallID_def split: option.splits if_splits prod.splits sum.splits)
  then have "queue_ok cod sum256 q' \<and> (r = Inl err \<longrightarrow> view cod q' = view_dir cod d) \<and>
      (r = Inr (n, False) \<longrightarrow> n = ?n \<and> view cod q' = view_dir cod d \<and> n \<in> dom (view_dir cod d)) \<and>
      (r = Inr (n, True) \<longrightarrow> n = ?n \<and> Validate ?e = None \<and> n \<notin> dom (view_dir cod d) \<and>
        (\<exists>envelope. accepted_envelope opt now ev envelope \<and> view cod q' = (view_dir cod d)(n \<mapsto> envelope)))"
  proof cases
    case err
    then show ?thesis using same by auto
  next
    case dup
    then have "?n \<in> dom (view_dir cod d)" using view_dir_None[OF d(1), of ?n] by (auto simp: dom_def)
    with dup same show ?thesis by auto
  next
    case new
    let ?envelope = "\<lparr>envIdentity = IdentityKey opt, envQueuedAt = now, envSequence = sequence, envGlobal = global, envEvent = ?e\<rparr>"
    have decoded: "unmarshal cod data = Some ?envelope" using cod new(5) by (simp add: codec_ok_def)
    have "entry_ok cod sum256 (?n, Regular data)" using decoded new(4) by (simp add: Normalize_idem)
    then have "dir_ok cod sum256 (dput ?n (Regular data) d)" by (rule dir_ok_put[OF d(1)])
    moreover have "?n \<notin> dom (view_dir cod d)" using view_dir_None[OF d(1), of ?n] new(3) by (auto simp: dom_def)
    moreover have "view cod q' = (view_dir cod d)(?n \<mapsto> ?envelope)" by (simp add: new(2) view_def view_put decoded)
    moreover have "accepted_envelope opt now ev ?envelope" by (simp add: accepted_envelope_def)
    ultimately show ?thesis using new(1,2,4) by (auto simp: queue_ok_def)
  qed
  then show "queue_ok cod sum256 q'"
    and "r = Inl err \<Longrightarrow> view cod q' = view_dir cod d"
    and "r = Inr (n, False) \<Longrightarrow> n = queueEventID sum256 (callID ev) \<and> view cod q' = view_dir cod d \<and> n \<in> dom (view_dir cod d)"
    and "r = Inr (n, True) \<Longrightarrow> n = queueEventID sum256 (callID ev) \<and> Validate (Normalize ev) = None \<and> n \<notin> dom (view_dir cod d) \<and>
      (\<exists>envelope. accepted_envelope opt now ev envelope \<and> view cod q' = (view_dir cod d)(n \<mapsto> envelope))"
    by blast+
qed

text \<open>Pruning a well-formed directory: exactly the expired items and the oldest beyond the limits go.\<close>

lemma partition_names:
  assumes "distinct (map f xs)" and parts: "filter (\<lambda>i. \<not> P i) xs = gone @ kept" and "n \<in> f ` set xs"
  shows "n \<in> f ` set (filter P xs) \<union> f ` set gone \<longleftrightarrow> n \<notin> f ` set kept"
proof -
  from assms(3) obtain i where i: "i \<in> set xs" "n = f i" by blast
  have one: "j \<in> set xs \<Longrightarrow> f j = n \<Longrightarrow> j = i" for j
    using assms(1) i by (auto simp: distinct_map dest: inj_onD)
  have sets: "set gone \<union> set kept = {j \<in> set xs. \<not> P j}" using arg_cong[OF parts, of set] by auto
  have "distinct xs" using assms(1) by (simp add: distinct_map)
  then have "distinct (gone @ kept)" unfolding parts[symmetric] by (rule distinct_filter)
  then have "set gone \<inter> set kept = {}" by simp
  moreover have "i \<in> set gone \<union> set kept \<longleftrightarrow> \<not> P i" using sets i(1) by blast
  moreover have "n \<in> f ` A \<longleftrightarrow> i \<in> A" if "A \<subseteq> set xs" for A using one i that by blast
  moreover have "set gone \<subseteq> set xs" "set kept \<subseteq> set xs" using sets by blast+
  moreover have "set (filter P xs) \<subseteq> set xs" by (rule filter_is_subset)
  moreover have "i \<in> set (filter P xs) \<longleftrightarrow> P i" using i(1) by simp
  ultimately show ?thesis by (metis Int_iff Un_iff empty_iff)
qed

definition live_items :: "'d codec \<Rightarrow> QueueOptions \<Rightarrow> int \<Rightarrow> 'd directory \<Rightarrow> QueuedEvent list" where
  "live_items cod opt now d =
     filter (\<lambda>i. \<not> expired opt now i) (sort_slice item_less (map (item_of cod) (ReadDir d)))"

lemma prune_dir_ok:
  assumes d: "dir_ok cod sum256 d" and opt: "0 \<le> MaxEvents opt" "0 \<le> MaxBytes opt"
    and run: "prune_dir cod opt now rm d = (d', r)"
  shows "(\<exists>S. d' = sub_dir d S) \<and> r \<noteq> Inl QueuePanic \<and>
    (\<forall>kept. r = Inr kept \<longrightarrow> fits_limits (MaxEvents opt) (MaxBytes opt) kept \<and>
      (\<exists>gone. live_items cod opt now d = gone @ kept \<and> d' = sub_dir d (- qID ` set kept) \<and>
         (\<forall>front x. gone = front @ [x] \<longrightarrow> \<not> fits_limits (MaxEvents opt) (MaxBytes opt) (x # kept))))"
proof -
  let ?items = "sort_slice item_less (map (item_of cod) (ReadDir d))" and ?live = "live_items cod opt now d"
  have entries: "list_all (entry_ok cod sum256) (ReadDir d)" using d by (simp add: dir_ok_def list_all_iff)
  have "\<forall>e \<in> set (ReadDir d). \<not> HasPrefix (fst e) ''.event-''"
    using entries unfolding list_all_iff by (auto elim!: entry_okE)
  then have clean: "cleanupTemps rm d = (d, None)" unfolding cleanupTemps_def by (rule cleanup_none)
  have list: "queue_list cod rm d = (d, Inr ?items)"
    using list_loop_ok[OF entries] by (simp add: queue_list_def)
  obtain d3 r3 where e: "expire_loop opt now rm ?items d [] 0 = (d3, r3)" by (cases "expire_loop opt now rm ?items d [] 0")
  note ex = expire_loop_ok[OF e]
  have run': "(case r3 of Inl err \<Rightarrow> (d3, Inl err)
      | Inr (kept, bytes) \<Rightarrow> trim_loop (MaxEvents opt) (MaxBytes opt) rm kept bytes d3) = (d', r)"
    using run clean list e by (simp add: prune_dir_def split: sum.splits prod.splits)
  have names: "map (qID \<circ> item_of cod) (ReadDir d) = map fst (ReadDir d)"
    using entries item_of_ID[of cod sum256] by (simp add: list_all_iff)
  have "mset (map qID ?items) = mset (map qID (map (item_of cod) (ReadDir d)))" unfolding mset_map sort_slice_mset by (rule refl)
  also have "\<dots> = mset (map fst (ReadDir d))" using names by (simp only: map_map)
  also have "\<dots> = mset (map fst d)" by (simp add: ReadDir_def)
  finally have IDs: "mset (map qID ?items) = mset (map fst d)" .
  then have setIDs: "qID ` set ?items = fst ` set d" by (metis list.set_map mset_eq_setD)
  have distinct: "distinct (map qID ?items)" using mset_eq_imp_distinct_iff[OF IDs] d by (simp add: dir_ok_def)
  have exact: "sub_dir d (qID ` set (filter (expired opt now) ?items) \<union> qID ` set gone) = sub_dir d (- qID ` set kept)"
    if live: "?live = gone @ kept" for gone kept
  proof -
    have "n \<in> qID ` set (filter (expired opt now) ?items) \<union> qID ` set gone \<longleftrightarrow> n \<in> - qID ` set kept"
      if "n \<in> fst ` set d" for n
    proof -
      have "n \<in> qID ` set ?items" unfolding setIDs by (rule that)
      from partition_names[OF distinct live[unfolded live_items_def] this] show ?thesis unfolding Compl_iff .
    qed
    then show ?thesis by (rule sub_dir_cong)
  qed
  obtain S3 where S3: "d3 = sub_dir d S3" using ex by blast
  show ?thesis
  proof (cases r3)
    case (Inl err)
    with run' have r: "d' = d3" "r = Inl err" by auto
    moreover have "err \<noteq> QueuePanic" using expire_no_panic[OF e] Inl by simp
    ultimately show ?thesis using S3 by auto
  next
    case (Inr kb)
    obtain kept0 bytes where kb: "kb = (kept0, bytes)" by (cases kb)
    have k: "kept0 = ?live" "bytes = sum_list (map qSize kept0)" "d3 = sub_dir d (qID ` set (filter (expired opt now) ?items))"
      using ex Inr kb by (simp_all add: live_items_def)
    have "trim_loop (MaxEvents opt) (MaxBytes opt) rm kept0 bytes d3 = (d', r)" using run' Inr kb by simp
    note trim = trim_loop_ok[OF this k(2) opt]
    from trim obtain S where "d' = sub_dir d3 S" by blast
    then have "\<exists>S. d' = sub_dir d S" using S3 by auto
    moreover have "\<exists>gone. ?live = gone @ kept \<and> d' = sub_dir d (- qID ` set kept) \<and>
         (\<forall>front x. gone = front @ [x] \<longrightarrow> \<not> fits_limits (MaxEvents opt) (MaxBytes opt) (x # kept))"
      if r: "r = Inr kept" for kept
    proof -
      from trim r obtain gone where g: "kept0 = gone @ kept" "d' = sub_dir d3 (qID ` set gone)"
        "\<forall>front x. gone = front @ [x] \<longrightarrow> \<not> fits_limits (MaxEvents opt) (MaxBytes opt) (x # kept)" by blast
      have "?live = gone @ kept" using g(1) k(1) by simp
      moreover have "d' = sub_dir d (- qID ` set kept)"
        using g(2) exact[OF \<open>?live = gone @ kept\<close>] unfolding k(3) sub_dir_sub by simp
      ultimately show ?thesis using g(3) by blast
    qed
    ultimately show ?thesis using trim by blast
  qed
qed

section \<open>The abstract queue\<close>

text \<open>
  What a client sees: a finite map from names to envelopes.  An accepted event gets a name that was
  free; a duplicate changes nothing; an acknowledged name is gone; a listing shows exactly what is
  left; a failed operation loses nothing that it was not asked to remove, and a failed listing only
  drops.
\<close>

datatype queue_label =
    Accepted Event string | Duplicate string | Refused
  | Acked "string list" | AckFailed "string list"
  | Listed "QueuedEvent list" | ListFailed | Cleared | ClearFailed

inductive queue_spec ::
  "(string \<Rightarrow> queuedEnvelope option) \<Rightarrow> queue_label \<Rightarrow> (string \<Rightarrow> queuedEnvelope option) \<Rightarrow> bool" where
  accept: "n \<notin> dom m \<Longrightarrow> envEvent envelope = Normalize ev \<Longrightarrow> Validate (Normalize ev) = None \<Longrightarrow>
     queue_spec m (Accepted ev n) (m(n \<mapsto> envelope))"
| duplicate: "n \<in> dom m \<Longrightarrow> queue_spec m (Duplicate n) m"
| refuse: "queue_spec m Refused m"
| ack: "queue_spec m (Acked ids) (m |` (- set ids))"
| ack_fail: "set gone \<subseteq> set ids \<Longrightarrow> queue_spec m (AckFailed ids) (m |` (- set gone))"
| listing: "m' = m |` (qID ` set items) \<Longrightarrow>
     \<forall>i \<in> set items. \<exists>envelope. m (qID i) = Some envelope \<and> qEvent i = envEvent envelope \<Longrightarrow>
     queue_spec m (Listed items) m'"
| list_fail: "queue_spec m ListFailed (m |` S)"
| clear: "queue_spec m Cleared Map.empty"
| clear_fail: "queue_spec m ClearFailed (m |` S)"

inductive queue_trace ::
  "(string \<Rightarrow> queuedEnvelope option) \<Rightarrow> queue_label list \<Rightarrow> (string \<Rightarrow> queuedEnvelope option) \<Rightarrow> bool" where
  trace_Nil: "queue_trace m [] m"
| trace_Cons: "queue_spec m l m' \<Longrightarrow> queue_trace m' ls m'' \<Longrightarrow> queue_trace m (l # ls) m''"

text \<open>The operations of the code with their environment, and what each lets the client see.\<close>

datatype queue_op =
    EnqueueOp queue_io int Event nat
  | AckOp bool "string \<Rightarrow> bool" "string list"
  | ListOp "string \<Rightarrow> bool" int
  | ClearOp bool "string \<Rightarrow> bool"

definition perform ::
  "'d codec \<Rightarrow> (string \<Rightarrow> nat list) \<Rightarrow> QueueOptions \<Rightarrow> queue_op \<Rightarrow> 'd Queue \<Rightarrow> 'd Queue \<times> queue_label" where
  "perform cod sum256 opt c q =
     (case c of
        EnqueueOp env now ev global \<Rightarrow>
          (case enqueueWithID cod sum256 opt now env ev global q of
             (q', Inl err) \<Rightarrow> (q', Refused)
           | (q', Inr (n, created)) \<Rightarrow> (q', if created then Accepted ev n else Duplicate n))
      | AckOp lock rm ids \<Rightarrow>
          (case Ack lock rm ids q of (q', None) \<Rightarrow> (q', Acked ids) | (q', Some err) \<Rightarrow> (q', AckFailed ids))
      | ListOp rm now \<Rightarrow>
          (case prune cod opt now rm q of (q', Inr items) \<Rightarrow> (q', Listed items) | (q', Inl err) \<Rightarrow> (q', ListFailed))
      | ClearOp lock rm \<Rightarrow>
          (case Clear lock rm q of (q', None) \<Rightarrow> (q', Cleared) | (q', Some err) \<Rightarrow> (q', ClearFailed)))"

fun run_queue ::
  "'d codec \<Rightarrow> (string \<Rightarrow> nat list) \<Rightarrow> QueueOptions \<Rightarrow> queue_op list \<Rightarrow> 'd Queue \<Rightarrow> 'd Queue \<times> queue_label list" where
  "run_queue cod sum256 opt [] q = (q, [])"
| "run_queue cod sum256 opt (c # cs) q =
     (case perform cod sum256 opt c q of (q1, l) \<Rightarrow>
        (case run_queue cod sum256 opt cs q1 of (q2, ls) \<Rightarrow> (q2, l # ls)))"

lemma NewQueue_limits: "0 \<le> MaxEvents (NewQueue o1) \<and> 0 \<le> MaxBytes (NewQueue o1)"
  by (simp add: NewQueue_def Let_def DefaultMaxQueueEvents_def DefaultMaxQueueBytes_def)

lemma enqueue_simulates:
  assumes "codec_ok cod" and "queue_ok cod sum256 q"
    and "perform cod sum256 opt (EnqueueOp env now ev global) q = (q', l)"
  shows "queue_ok cod sum256 q' \<and> queue_spec (view cod q) l (view cod q')"
proof (cases "ioLock env \<and> ioMkdir env")
  case False
  with assms(3) have "q' = q" "l = Refused" by (auto simp: perform_def enqueueWithID_def split: if_splits)
  with assms(2) show ?thesis by (auto intro: queue_spec.intros)
next
  case True
  let ?d = "case qdir q of None \<Rightarrow> [] | Some d \<Rightarrow> d" and ?q1 = "q\<lparr>qdir := Some (case qdir q of None \<Rightarrow> [] | Some d \<Rightarrow> d)\<rparr>"
  have d: "dir_ok cod sum256 ?d" "view_dir cod ?d = view cod q"
    using assms(2) by (auto simp: queue_ok_def dir_ok_def view_def view_dir_def dget_def split: option.splits)
  obtain r where run: "enqueue_locked cod sum256 opt now env ev global ?d ?q1 = (q', r)"
    and l: "l = (case r of Inl err \<Rightarrow> Refused | Inr (n, created) \<Rightarrow> if created then Accepted ev n else Duplicate n)"
    using assms(3) True by (auto simp: perform_def enqueueWithID_def Let_def split: prod.splits sum.splits)
  note facts = enqueue_locked_ok[OF assms(1) d(1) _ run, simplified d(2), simplified]
  show ?thesis
  proof (cases r)
    case (Inl err)
    with facts l show ?thesis by (auto intro: queue_spec.intros)
  next
    case (Inr nc)
    obtain n created where nc: "nc = (n, created)" by (cases nc)
    show ?thesis
    proof (cases created)
      case True
      with facts(4) Inr nc obtain envelope where "Validate (Normalize ev) = None" "n \<notin> dom (view cod q)"
        "accepted_envelope opt now ev envelope" "view cod q' = (view cod q)(n \<mapsto> envelope)" by auto
      moreover have "l = Accepted ev n" using l Inr nc True by simp
      ultimately show ?thesis using facts(1) by (simp add: accepted_envelope_def) (auto intro: queue_spec.intros)
    next
      case False
      with facts(3) Inr nc have "view cod q' = view cod q" "n \<in> dom (view cod q)" by auto
      moreover have "l = Duplicate n" using l Inr nc False by simp
      ultimately show ?thesis using facts(1) by (auto intro: queue_spec.intros)
    qed
  qed
qed

lemma sub_simulates:
  assumes "queue_ok cod sum256 q" and "qdir q = Some d" and "qdir q' = Some (sub_dir d S)"
  shows "queue_ok cod sum256 q'" "view cod q' = view cod q |` (- S)"
  using assms by (simp_all add: queue_ok_def view_def view_sub dir_ok_sub)

lemma ack_simulates:
  assumes "queue_ok cod sum256 q" and "perform cod sum256 opt (AckOp lock rm ids) q = (q', l)"
  shows "queue_ok cod sum256 q' \<and> queue_spec (view cod q) l (view cod q')"
proof -
  have same: "queue_spec (view cod q) (AckFailed ids) (view cod q)" using ack_fail[of "[]" ids "view cod q"] by simp
  show ?thesis
  proof (cases "lock \<and> qdir q \<noteq> None")
    case True
    then obtain d where d: "qdir q = Some d" by blast
    obtain d' err where a: "ack_loop rm ids d = (d', err)" by (cases "ack_loop rm ids d")
    from ack_loop_sub[OF a] obtain gone rest where g: "ids = gone @ rest" "d' = sub_dir d (set gone)" "err = None \<longrightarrow> rest = []"
      by blast
    have q': "qdir q' = Some (sub_dir d (set gone))" "l = (case err of None \<Rightarrow> Acked ids | Some e \<Rightarrow> AckFailed ids)"
      using assms(2) True d a g(2) by (auto simp: perform_def Ack_def split: option.splits)
    note s = sub_simulates[OF assms(1) d q'(1)]
    show ?thesis
    proof (cases err)
      case None
      with g q'(2) s show ?thesis using ack[of "view cod q" ids] by simp
    next
      case (Some e)
      with g q'(2) s show ?thesis using ack_fail[of gone ids "view cod q"] by simp
    qed
  next
    case False
    then have "q' = q" "l = AckFailed ids \<or> l = Acked ids \<and> view cod q = Map.empty"
      using assms(2) by (auto simp: perform_def Ack_def view_def split: if_splits option.splits prod.splits)
    with assms(1) same show ?thesis using ack[of "view cod q" ids] by auto
  qed
qed

lemma list_simulates:
  assumes "queue_ok cod sum256 q" and opt: "0 \<le> MaxEvents opt" "0 \<le> MaxBytes opt"
    and "perform cod sum256 opt (ListOp rm now) q = (q', l)"
  shows "queue_ok cod sum256 q' \<and> queue_spec (view cod q) l (view cod q')"
proof (cases "qdir q")
  case None
  with assms(4) have "q' = q" "l = Listed []" "view cod q = Map.empty" by (auto simp: perform_def prune_def view_def)
  with assms(1) show ?thesis using listing[of "view cod q" "view cod q" "[]"] by simp
next
  case (Some d)
  with assms(1) have d: "dir_ok cod sum256 d" by (simp add: queue_ok_def)
  obtain d' r where p: "prune_dir cod opt now rm d = (d', r)" by (cases "prune_dir cod opt now rm d")
  note ok = prune_dir_ok[OF d opt p]
  have q': "qdir q' = Some d'" "l = (case r of Inr items \<Rightarrow> Listed items | Inl e \<Rightarrow> ListFailed)"
    using assms(4) Some p by (auto simp: perform_def prune_def split: sum.splits)
  show ?thesis
  proof (cases r)
    case (Inl e)
    from ok obtain S where S: "d' = sub_dir d S" by blast
    note s = sub_simulates[OF assms(1) Some q'(1)[unfolded S]]
    with Inl q'(2) show ?thesis using list_fail[of "view cod q" "- S"] by simp
  next
    case (Inr kept)
    from ok Inr obtain gone where g: "live_items cod opt now d = gone @ kept" "d' = sub_dir d (- qID ` set kept)" by blast
    note s = sub_simulates[OF assms(1) Some q'(1)[unfolded g(2)]]
    have "\<exists>envelope. view cod q (qID i) = Some envelope \<and> qEvent i = envEvent envelope" if "i \<in> set kept" for i
    proof -
      have "i \<in> set (live_items cod opt now d)" using g(1) that by simp
      then obtain e where e: "e \<in> set d" "i = item_of cod e" by (auto simp: live_items_def)
      with d have "entry_ok cod sum256 e" by (simp add: dir_ok_def list_all_iff)
      with e(2) have "qID i = fst e" using item_of_ID by simp
      with view_item[OF d e(1)] e(2) Some show ?thesis by (auto simp: view_def)
    qed
    with Inr q'(2) s show ?thesis using listing[of "view cod q'" "view cod q" kept] by simp
  qed
qed

lemma clear_all:
  "clear_loop rm es d = (d', None) \<Longrightarrow> list_all is_event_file es \<Longrightarrow> d' = sub_dir d (fst ` set es)"
  by (induction rm es d rule: clear_loop.induct) (auto simp: ddel_sub split: if_splits)

lemma clear_simulates:
  assumes "queue_ok cod sum256 q" and "perform cod sum256 opt (ClearOp lock rm) q = (q', l)"
  shows "queue_ok cod sum256 q' \<and> queue_spec (view cod q) l (view cod q')"
proof (cases "lock \<and> qdir q \<noteq> None")
  case True
  then obtain d where d: "qdir q = Some d" by blast
  obtain d' err where c: "clear_loop rm (ReadDir d) d = (d', err)" by (cases "clear_loop rm (ReadDir d) d")
  from clear_loop_sub[OF c] obtain S where S: "d' = sub_dir d S" by blast
  have q': "qdir q' = Some (sub_dir d S)" "l = (case err of None \<Rightarrow> Cleared | Some e \<Rightarrow> ClearFailed)"
    using assms(2) True d c S by (auto simp: perform_def Clear_def split: option.splits)
  note s = sub_simulates[OF assms(1) d q'(1)]
  show ?thesis
  proof (cases err)
    case None
    have "list_all is_event_file (ReadDir d)"
      using assms(1) d by (auto simp: queue_ok_def dir_ok_def list_all_iff is_event_file_def elim!: entry_okE)
    with clear_all[of rm "ReadDir d" d d'] c None have "d' = sub_dir d (fst ` set d)" by simp
    then have "set d' = {}" using fst_sub[of d "fst ` set d"] by auto
    then have "view cod q' = Map.empty" using q'(1) S by (auto simp: view_def view_dir_def dget_def)
    with None q'(2) s show ?thesis using clear[of "view cod q"] by simp
  next
    case (Some e)
    with q'(2) s show ?thesis using clear_fail[of "view cod q" "- S"] by simp
  qed
next
  case False
  then have "q' = q" "l = ClearFailed \<or> l = Cleared \<and> view cod q = Map.empty"
    using assms(2) by (auto simp: perform_def Clear_def view_def split: if_splits)
  with assms(1) show ?thesis using clear[of "view cod q"] clear_fail[of "view cod q" UNIV] by auto
qed

lemma perform_simulates:
  assumes "codec_ok cod" and "queue_ok cod sum256 q" and "perform cod sum256 (NewQueue opt) c q = (q', l)"
  shows "queue_ok cod sum256 q' \<and> queue_spec (view cod q) l (view cod q')"
proof (cases c)
  case (EnqueueOp env now ev global)
  with assms show ?thesis using enqueue_simulates by blast
next
  case (AckOp lock rm ids)
  with assms(2,3) show ?thesis using ack_simulates by blast
next
  case (ListOp rm now)
  have opt: "0 \<le> MaxEvents (NewQueue opt)" "0 \<le> MaxBytes (NewQueue opt)" using NewQueue_limits[of opt] by simp_all
  from list_simulates[OF assms(2) opt] assms(3) ListOp show ?thesis by blast
next
  case (ClearOp lock rm)
  with assms(2,3) show ?thesis using clear_simulates by blast
qed

lemma run_simulates:
  assumes "codec_ok cod" and "queue_ok cod sum256 q" and "run_queue cod sum256 (NewQueue opt) cs q = (q', ls)"
  shows "queue_ok cod sum256 q' \<and> queue_trace (view cod q) ls (view cod q')"
  using assms(2,3)
proof (induction cs arbitrary: q ls)
  case Nil
  then show ?case by (auto intro: trace_Nil)
next
  case (Cons c cs)
  obtain q1 l where s: "perform cod sum256 (NewQueue opt) c q = (q1, l)" by (cases "perform cod sum256 (NewQueue opt) c q")
  obtain q2 ls2 where r: "run_queue cod sum256 (NewQueue opt) cs q1 = (q2, ls2)" by (cases "run_queue cod sum256 (NewQueue opt) cs q1")
  from Cons.prems(2) s r have e: "q' = q2" "ls = l # ls2" by simp_all
  from perform_simulates[OF assms(1) Cons.prems(1) s] Cons.IH[of q1 ls2] r e show ?case by (auto intro: trace_Cons)
qed

lemma run_ok: "codec_ok cod \<Longrightarrow> queue_ok cod sum256 (fst (run_queue cod sum256 (NewQueue opt) cs emptyQueue))"
  using run_simulates[of cod sum256 emptyQueue opt cs] prod.collapse[of "run_queue cod sum256 (NewQueue opt) cs emptyQueue"]
  by (simp add: queue_ok_def[of _ _ emptyQueue] emptyQueue_def[THEN arg_cong, of qdir]) (metis prod.collapse)

section \<open>Properties\<close>

definition plain_codec :: "queuedEnvelope codec" where
  "plain_codec = \<lparr>marshal = Some, unmarshal = Some, dsize = (\<lambda>_. 3)\<rparr>"

definition no_options :: QueueOptions where
  "no_options = \<lparr>IdentityKey = ''id'', MaxEvents = 0, MaxBytes = 0, Retention = 0\<rparr>"

definition queue_io_ok :: queue_io where
  "queue_io_ok = \<lparr>ioLock = True, ioMkdir = True, ioSequence = True, ioWrite = True\<rparr>"

definition toy_digest :: "string \<Rightarrow> nat list" where
  "toy_digest s = map of_char s"

definition sample_ops :: "queue_op list" where
  "sample_ops =
     [EnqueueOp queue_io_ok 7 sample_ok_event 0, EnqueueOp queue_io_ok 8 sample_ok_event 0,
      ListOp (\<lambda>_. True) 9, AckOp True (\<lambda>_. True) [queueEventID toy_digest ''c-1'']]"

lemma plain_codec_ok: "codec_ok plain_codec"
  by (simp add: codec_ok_def plain_codec_def)

text \<open>
  C11.  The directory on disk refines a map of named events.  For every sequence of enqueues, listings,
  acknowledgements and clears from an empty queue, whatever locks, removals and writes fail, what the
  client sees is a run of the abstract queue: an accepted event was valid and had a free name, a
  duplicate is not stored twice, an acknowledgement removes exactly the names it was given, and a
  listing returns exactly the events the queue holds afterwards.
\<close>

theorem queue_refines:
  assumes "codec_ok cod" and "run_queue cod sum256 (NewQueue opt) cs emptyQueue = (q, ls)"
  shows "queue_trace Map.empty ls (view cod q)"
proof -
  have "queue_ok cod sum256 emptyQueue" "view cod emptyQueue = Map.empty"
    by (simp_all add: queue_ok_def view_def emptyQueue_def)
  with run_simulates[OF assms(1) _ assms(2)] show ?thesis by simp
qed

theorem queue_refines_witness:
  "queue_trace Map.empty (snd (run_queue plain_codec toy_digest (NewQueue no_options) sample_ops emptyQueue))
     (view plain_codec (fst (run_queue plain_codec toy_digest (NewQueue no_options) sample_ops emptyQueue)))"
proof -
  have "run_queue plain_codec toy_digest (NewQueue no_options) sample_ops emptyQueue =
    (fst (run_queue plain_codec toy_digest (NewQueue no_options) sample_ops emptyQueue),
     snd (run_queue plain_codec toy_digest (NewQueue no_options) sample_ops emptyQueue))" by simp
  from queue_refines[OF plain_codec_ok this] show ?thesis .
qed

lemma sink_sorted:
  fixes key :: "'a \<Rightarrow> nat"
  assumes "\<forall>a \<in> insert x (set ys). \<forall>b \<in> insert x (set ys). lt a b \<longleftrightarrow> key a < key b" and "sorted_wrt (\<lambda>a b. key b \<le> key a) ys"
  shows "sorted_wrt (\<lambda>a b. key b \<le> key a) (sink lt x ys)"
  using assms
proof (induction lt x ys rule: sink.induct)
  case (2 lt x y ys)
  have set: "set (sink lt x ys) = insert x (set ys)" using sink_mset[of lt x ys] by (metis set_mset_add_mset_insert set_mset_mset)
  show ?case
  proof (cases "lt x y")
    case True
    then have "sorted_wrt (\<lambda>a b. key b \<le> key a) (sink lt x ys)" using 2 by auto
    moreover have "key x < key y" using True 2(2) by simp
    ultimately show ?thesis using True 2(3) set by auto
  next
    case False
    then have "key y \<le> key x" using 2(2) by (auto simp: not_less)
    with False 2(3) show ?thesis by auto
  qed
qed simp

lemma sort_slice_sorted:
  fixes key :: "'a \<Rightarrow> nat"
  assumes "\<forall>a \<in> set xs. \<forall>b \<in> set xs. lt a b \<longleftrightarrow> key a < key b"
  shows "sorted (map key (sort_slice lt xs))"
proof -
  have "sorted_wrt (\<lambda>a b. key b \<le> key a) (fold (sink lt) us ys)"
    if "set us \<union> set ys \<subseteq> set xs" "sorted_wrt (\<lambda>a b. key b \<le> key a) ys" for us ys
    using that
  proof (induction us arbitrary: ys)
    case (Cons u us)
    have "set (sink lt u ys) = insert u (set ys)" using sink_mset[of lt u ys] by (metis set_mset_add_mset_insert set_mset_mset)
    moreover have "sorted_wrt (\<lambda>a b. key b \<le> key a) (sink lt u ys)"
      using Cons.prems assms by (intro sink_sorted) auto
    ultimately show ?case using Cons.IH[of "sink lt u ys"] Cons.prems(1) by simp
  qed simp
  from this[of xs "[]"] have "sorted_wrt (\<lambda>a b. key b \<le> key a) (fold (sink lt) xs [])" by simp
  then have "sorted_wrt (\<lambda>a b. key a \<le> key b) (sort_slice lt xs)" by (simp add: sort_slice_def sorted_wrt_rev)
  then show ?thesis by (simp add: sorted_map)
qed

definition all_items :: "'d codec \<Rightarrow> 'd Queue \<Rightarrow> QueuedEvent list" where
  "all_items cod q = (case qdir q of None \<Rightarrow> [] | Some d \<Rightarrow> map (item_of cod) (ReadDir d))"

text \<open>Every event has its sequence number, and no two the same.\<close>

definition sequenced :: "QueuedEvent list \<Rightarrow> bool" where
  "sequenced items = (distinct (map qSequence items) \<and> list_all (\<lambda>i. 0 < qSequence i) items)"

lemma sequenced_sorted:
  assumes "sequenced items" shows "sorted (map qSequence (sort_slice item_less items))"
proof (rule sort_slice_sorted)
  have "item_less a b \<longleftrightarrow> qSequence a < qSequence b" if "a \<in> set items" "b \<in> set items" for a b
  proof (cases "a = b")
    case False
    then have "qSequence a \<noteq> qSequence b" using assms that by (auto simp: sequenced_def distinct_map dest: inj_onD)
    with assms that show ?thesis by (auto simp: item_less_def sequenced_def list_all_iff)
  qed (simp add: item_less_def)
  then show "\<forall>a \<in> set items. \<forall>b \<in> set items. item_less a b \<longleftrightarrow> qSequence a < qSequence b" by blast
qed

lemma kept_names:
  assumes d: "dir_ok cod sum256 d" and g: "live_items cod opt now d = gone @ kept" "d' = sub_dir d (- qID ` set kept)"
  shows "dom (view_dir cod d') = qID ` set kept"
proof -
  have "qID i \<in> fst ` set d" if "i \<in> set kept" for i
  proof -
    have "i \<in> set (live_items cod opt now d)" using g(1) that by simp
    then obtain e where e: "e \<in> set d" "i = item_of cod e" by (auto simp: live_items_def)
    with d have "qID i = fst e" using item_of_ID[of cod sum256 e] by (simp add: dir_ok_def list_all_iff)
    with e(1) show ?thesis by simp
  qed
  then have "fst ` set d' = qID ` set kept" unfolding g(2) fst_sub by blast
  moreover have "dir_ok cod sum256 d'" unfolding g(2) by (rule dir_ok_sub[OF d])
  ultimately show ?thesis using view_dom[of cod sum256 d'] by simp
qed

text \<open>The unexpired events of a queue in the order of \<open>list\<close>.\<close>

definition live :: "'d codec \<Rightarrow> QueueOptions \<Rightarrow> int \<Rightarrow> 'd Queue \<Rightarrow> QueuedEvent list" where
  "live cod opt now q = filter (\<lambda>i. \<not> expired opt now i) (sort_slice item_less (all_items cod q))"

lemma live_sorted: "sequenced (all_items cod q) \<Longrightarrow> sorted (map qSequence (live cod opt now q))"
  unfolding live_def by (rule sorted_filter) (rule sequenced_sorted)

lemma prune_queue_ok:
  assumes "queue_ok cod sum256 q" and opt: "0 \<le> MaxEvents opt" "0 \<le> MaxBytes opt"
    and "prune cod opt now rm q = (q', r)"
  shows "r \<noteq> Inl QueuePanic \<and> (\<forall>kept. r = Inr kept \<longrightarrow>
      fits_limits (MaxEvents opt) (MaxBytes opt) kept \<and> dom (view cod q') = qID ` set kept \<and>
      (\<exists>gone. live cod opt now q = gone @ kept \<and>
         (\<forall>front x. gone = front @ [x] \<longrightarrow> \<not> fits_limits (MaxEvents opt) (MaxBytes opt) (x # kept))))"
proof (cases "qdir q")
  case None
  with assms(4) have "q' = q" "r = Inr []" by (auto simp: prune_def)
  with None opt show ?thesis by (simp add: fits_limits_def view_def live_def all_items_def sort_slice_def)
next
  case (Some d)
  with assms(1) have d: "dir_ok cod sum256 d" by (simp add: queue_ok_def)
  obtain d' r' where p: "prune_dir cod opt now rm d = (d', r')" by (cases "prune_dir cod opt now rm d")
  have q': "q' = q\<lparr>qdir := Some d'\<rparr>" "r = r'" using assms(4) Some p by (auto simp: prune_def)
  have live: "live cod opt now q = live_items cod opt now d" using Some by (simp add: live_def all_items_def live_items_def)
  note ok = prune_dir_ok[OF d opt p]
  have v: "view cod q' = view_dir cod d'" using q'(1) by (simp add: view_def)
  have "dom (view cod q') = qID ` set kept" if "r = Inr kept" for kept
  proof -
    from ok that q'(2) obtain gone where "live_items cod opt now d = gone @ kept" "d' = sub_dir d (- qID ` set kept)" by blast
    then show ?thesis unfolding v by (rule kept_names[OF d])
  qed
  with ok q'(2) show ?thesis unfolding live by blast
qed

text \<open>
  The queue is bounded, and it is the newest events that stay.  A listing of a queue never runs out
  of events to drop; when it succeeds, what it returns is within both limits, is exactly what the queue
  then holds, and with what it dropped in front it is the sequence of all unexpired events; keeping one
  more event would have broken a limit.  When every event has its own sequence number that sequence is
  in their order: first in, first dropped.
\<close>

lemma prune_keeps_newest:
  assumes "queue_ok cod sum256 q" and "prune cod (NewQueue opt) now rm q = (q', r)"
  shows "r \<noteq> Inl QueuePanic \<and> (\<forall>kept. r = Inr kept \<longrightarrow>
      fits_limits (MaxEvents (NewQueue opt)) (MaxBytes (NewQueue opt)) kept \<and> dom (view cod q') = qID ` set kept \<and>
      (\<exists>gone. live cod (NewQueue opt) now q = gone @ kept \<and>
         (gone \<noteq> [] \<longrightarrow> \<not> fits_limits (MaxEvents (NewQueue opt)) (MaxBytes (NewQueue opt)) (last gone # kept)) \<and>
         (sequenced (all_items cod q) \<longrightarrow> sorted (map qSequence (gone @ kept)))))"
proof -
  have opt: "0 \<le> MaxEvents (NewQueue opt)" "0 \<le> MaxBytes (NewQueue opt)" using NewQueue_limits[of opt] by simp_all
  note facts = prune_queue_ok[OF assms(1) opt assms(2)]
  have "\<exists>gone. live cod (NewQueue opt) now q = gone @ kept \<and>
         (gone \<noteq> [] \<longrightarrow> \<not> fits_limits (MaxEvents (NewQueue opt)) (MaxBytes (NewQueue opt)) (last gone # kept)) \<and>
         (sequenced (all_items cod q) \<longrightarrow> sorted (map qSequence (gone @ kept)))" if r: "r = Inr kept" for kept
  proof -
    from facts r obtain gone where g: "live cod (NewQueue opt) now q = gone @ kept"
      "\<forall>front x. gone = front @ [x] \<longrightarrow> \<not> fits_limits (MaxEvents (NewQueue opt)) (MaxBytes (NewQueue opt)) (x # kept)" by blast
    from spec[OF spec[OF g(2), of "butlast gone"], of "last gone"]
    have "gone \<noteq> [] \<longrightarrow> \<not> fits_limits (MaxEvents (NewQueue opt)) (MaxBytes (NewQueue opt)) (last gone # kept)" by simp
    moreover have "sequenced (all_items cod q) \<longrightarrow> sorted (map qSequence (gone @ kept))"
      using live_sorted[of cod q "NewQueue opt" now] unfolding g(1) by blast
    ultimately show ?thesis using g(1) by blast
  qed
  with facts show ?thesis by blast
qed

definition full_queue :: "queuedEnvelope Queue" where
  "full_queue = fst (run_queue plain_codec toy_digest (NewQueue no_options)
     [EnqueueOp queue_io_ok 70 sample_ok_event 0, EnqueueOp queue_io_ok 60 (sample_ok_event\<lparr>callID := ''c-2''\<rparr>) 0] emptyQueue)"

lemma full_queue_ok: "queue_ok plain_codec toy_digest full_queue"
  unfolding full_queue_def by (rule run_ok[OF plain_codec_ok])

definition one_event :: QueueOptions where
  "one_event = no_options\<lparr>MaxEvents := 1\<rparr>"

lemma prune_keeps_newest_witness:
  "\<exists>q' kept. prune plain_codec (NewQueue one_event) 80 (\<lambda>_. True) full_queue = (q', Inr kept) \<and>
     map qSequence kept = [2] \<and> dom (view plain_codec q') = qID ` set kept"
proof -
  obtain q' r where p: "prune plain_codec (NewQueue one_event) 80 (\<lambda>_. True) full_queue = (q', r)"
    by (cases "prune plain_codec (NewQueue one_event) 80 (\<lambda>_. True) full_queue")
  have "case snd (prune plain_codec (NewQueue one_event) 80 (\<lambda>_. True) full_queue) of Inr kept \<Rightarrow> map qSequence kept = [2] | Inl e \<Rightarrow> False"
    by code_simp
  then obtain kept where k: "r = Inr kept" "map qSequence kept = [2]" using p by (auto split: sum.splits)
  from prune_keeps_newest[OF full_queue_ok p, THEN conjunct2, THEN spec, THEN mp, OF k(1)]
  have "dom (view plain_codec q') = qID ` set kept" by (elim conjE)
  with k p show ?thesis by (intro exI[of _ q'] exI[of _ kept] conjI) (simp_all only:)
qed

text \<open>Events with and without sequence numbers can be in a cycle of the comparison.\<close>

definition cyclic_item :: "nat \<Rightarrow> int \<Rightarrow> QueuedEvent" where
  "cyclic_item n t = \<lparr>qIdentity = [], qID = [], qQueuedAt = t, qSequence = n, qGlobal = 0, qEvent = sample_ok_event, qSize = 1\<rparr>"

lemma mixed_order_cycle:
  "item_less (cyclic_item 1 30) (cyclic_item 2 10)" "item_less (cyclic_item 2 10) (cyclic_item 0 20)"
  "item_less (cyclic_item 0 20) (cyclic_item 1 30)"
  by (simp_all add: item_less_def cyclic_item_def)

section \<open>The queue as a client sees it\<close>

text \<open>
  The contract between the queue and the uploader: a listing returns what is left, an acknowledgement
  removes what it names.  A client that acknowledges something it has listed makes the queue smaller.
\<close>

locale event_store =
  fixes ok :: "'s \<Rightarrow> bool" and names :: "'s \<Rightarrow> string set"
    and list_events :: "'e \<Rightarrow> 's \<Rightarrow> 's \<times> QueuedEvent list option" and ack :: "'f \<Rightarrow> string list \<Rightarrow> 's \<Rightarrow> 's \<times> bool"
  assumes names_finite: "ok s \<Longrightarrow> finite (names s)"
    and list_ok: "ok s \<Longrightarrow> list_events e s = (s', Some items) \<Longrightarrow> ok s' \<and> names s' = qID ` set items \<and> names s' \<subseteq> names s"
    and ack_ok: "ok s \<Longrightarrow> ack f ids s = (s', True) \<Longrightarrow> ok s' \<and> names s' = names s - set ids"
begin

lemma listed_card: "ok s \<Longrightarrow> list_events e s = (s', Some items) \<Longrightarrow> card (names s') \<le> card (names s)"
  using list_ok names_finite by (blast intro: card_mono)

lemma ack_card:
  assumes "ok s" and "ack f ids s = (s', True)" and "n \<in> set ids" and "n \<in> names s"
  shows "card (names s') < card (names s)"
proof -
  have "names s' \<subset> names s" using ack_ok[OF assms(1,2)] assms(3,4) by blast
  with names_finite[OF assms(1)] show ?thesis by (rule psubset_card_mono)
qed

lemma deliver_card:
  assumes "ok s" and "list_events e s = (s1, Some items)" and "b \<in> set items" and "qID b \<in> set ids"
    and "ok s2" and "names s2 = names s1" and "ack f ids s2 = (s3, True)"
  shows "ok s3 \<and> card (names s3) < card (names s)"
proof -
  have "qID b \<in> names s2" using list_ok[OF assms(1,2)] assms(3,6) by simp
  from ack_card[OF assms(5,7,4) this] listed_card[OF assms(1,2)] ack_ok[OF assms(5,7)] assms(6) show ?thesis by simp
qed

end

definition list_op :: "'d codec \<Rightarrow> QueueOptions \<Rightarrow> int \<times> (string \<Rightarrow> bool) \<Rightarrow> 'd Queue \<Rightarrow> 'd Queue \<times> QueuedEvent list option" where
  "list_op cod opt e q =
     (case prune cod (NewQueue opt) (fst e) (snd e) q of (q', Inr items) \<Rightarrow> (q', Some items) | (q', Inl err) \<Rightarrow> (q', None))"

definition ack_op :: "bool \<times> (string \<Rightarrow> bool) \<Rightarrow> string list \<Rightarrow> 'd Queue \<Rightarrow> 'd Queue \<times> bool" where
  "ack_op e ids q = (case Ack (fst e) (snd e) ids q of (q', err) \<Rightarrow> (q', err = None))"

inductive_cases listed_cases: "queue_spec m (Listed items) m'"
inductive_cases acked_cases: "queue_spec m (Acked ids) m'"

lemma finite_view: "finite (dom (view cod q))"
proof (cases "qdir q")
  case (Some d)
  have "dom (view_dir cod d) \<subseteq> dom (map_of d)" by (auto simp: view_dir_def dget_def split: option.splits)
  then have "finite (dom (view_dir cod d))" using finite_dom_map_of by (rule finite_subset)
  then show ?thesis using Some by (simp add: view_def)
qed (simp add: view_def)

interpretation stored: event_store "queue_ok cod sum256" "\<lambda>q. dom (view cod q)" "list_op cod opt" ack_op
  for cod :: "'d codec" and sum256 opt
proof
  fix s s' :: "'d Queue" and e items
  show "finite (dom (view cod s))" by (rule finite_view)
  assume ok: "queue_ok cod sum256 s"
  have opt: "0 \<le> MaxEvents (NewQueue opt)" "0 \<le> MaxBytes (NewQueue opt)" using NewQueue_limits[of opt] by simp_all
  show "queue_ok cod sum256 s' \<and> dom (view cod s') = qID ` set items \<and> dom (view cod s') \<subseteq> dom (view cod s)"
    if "list_op cod opt e s = (s', Some items)"
  proof -
    have p: "prune cod (NewQueue opt) (fst e) (snd e) s = (s', Inr items)"
      using that by (auto simp: list_op_def split: prod.splits sum.splits)
    then have "perform cod sum256 (NewQueue opt) (ListOp (snd e) (fst e)) s = (s', Listed items)" by (simp add: perform_def)
    note sim = list_simulates[OF ok opt this]
    then have "view cod s' = view cod s |` (qID ` set items)" by (auto elim: listed_cases)
    moreover have "dom (view cod s') = qID ` set items" using prune_queue_ok[OF ok opt p] by blast
    ultimately show ?thesis using sim by auto
  qed
next
  fix s s' :: "'d Queue" and f ids
  assume ok: "queue_ok cod sum256 s" and a: "ack_op f ids s = (s', True)"
  then have "perform cod sum256 (NewQueue opt) (AckOp (fst f) (snd f) ids) s = (s', Acked ids)"
    by (auto simp: ack_op_def perform_def split: prod.splits option.splits)
  from ack_simulates[OF ok this] have "queue_ok cod sum256 s'" "queue_spec (view cod s) (Acked ids) (view cod s')" by simp_all
  moreover from this(2) have "view cod s' = view cod s |` (- set ids)" by (rule acked_cases)
  ultimately show "queue_ok cod sum256 s' \<and> dom (view cod s') = dom (view cod s) - set ids"
    by (simp add: dom_restrict Diff_eq)
qed

end
