(* ===== verification/Telemetry_Reporter.thy ===== *)
theory Telemetry_Reporter
  imports Telemetry_Queue "HOL-Library.Word"
begin

text \<open>
  \<open>internal/products/meegle/telemetry/settings.go\<close> and \<open>reporter.go\<close>: the local consent settings and the
  decision to record an event.

  The settings file is absent, unreadable, not decodable, or a JSON object in which either field may be
  missing.  Other processes may change it while an event is recorded: the three loads of a recording are
  arguments, as are the policy file, the locks, the sequence number and the queue's environment.
\<close>

section \<open>Local settings\<close>

record LocalSettings =
  localEnabled :: bool
  generation :: "64 word"

datatype settings_file = NoSettings | UnreadableSettings | MalformedSettings | SettingsObject "bool option" "64 word option"

datatype settings_error = SettingsReadFailed | SettingsDecodeFailed | SettingsBusy | SettingsWriteFailed

definition settings_Load :: "settings_file \<Rightarrow> (settings_error, LocalSettings) result" where
  "settings_Load f =
     (let defaults = \<lparr>localEnabled = True, generation = 0\<rparr> in
      case f of
        NoSettings \<Rightarrow> Inr defaults
      | UnreadableSettings \<Rightarrow> Inl SettingsReadFailed
      | MalformedSettings \<Rightarrow> Inl SettingsDecodeFailed
      | SettingsObject e g \<Rightarrow>
          Inr \<lparr>localEnabled = (case e of None \<Rightarrow> localEnabled defaults | Some b \<Rightarrow> b),
               generation = (case g of None \<Rightarrow> generation defaults | Some n \<Rightarrow> n)\<rparr>)"

definition settings_save :: "bool \<Rightarrow> LocalSettings \<Rightarrow> settings_file \<Rightarrow> settings_file \<times> settings_error option" where
  "settings_save can_write s f =
     (if \<not> can_write then (f, Some SettingsWriteFailed)
      else (SettingsObject (Some (localEnabled s)) (if generation s = 0 then None else Some (generation s)), None))"

definition SetEnabled :: "io \<Rightarrow> bool \<Rightarrow> settings_file \<Rightarrow> settings_file \<times> settings_error option" where
  "SetEnabled env on f =
     (if \<not> locked env then (f, Some SettingsBusy)
      else (case settings_Load f of
              Inl err \<Rightarrow> (f, Some err)
            | Inr s \<Rightarrow> settings_save (written env) (s\<lparr>localEnabled := on, generation := generation s + 1\<rparr>) f))"

text \<open>The version of the disclosure that was shown: a file with a JSON integer.\<close>

datatype disclosure_file = NoDisclosure | BadDisclosure settings_error | Shown int

definition loadDisclosureVersion :: "disclosure_file \<Rightarrow> (settings_error, int) result" where
  "loadDisclosureVersion f = (case f of NoDisclosure \<Rightarrow> Inr 0 | BadDisclosure err \<Rightarrow> Inl err | Shown v \<Rightarrow> Inr v)"

definition DisclosureDue :: "int \<Rightarrow> disclosure_file \<Rightarrow> (settings_error, bool) result" where
  "DisclosureDue version f =
     (case loadDisclosureVersion f of Inl err \<Rightarrow> Inl err | Inr shown \<Rightarrow> Inr (version > shown))"

definition MarkDisclosureShown :: "io \<Rightarrow> int \<Rightarrow> disclosure_file \<Rightarrow> disclosure_file \<times> settings_error option" where
  "MarkDisclosureShown env version f =
     (if \<not> locked env then (f, Some SettingsBusy)
      else (case loadDisclosureVersion f of
              Inl err \<Rightarrow> (f, Some err)
            | Inr shown \<Rightarrow>
                (if version \<le> shown then (f, None)
                 else if \<not> written env then (f, Some SettingsWriteFailed)
                 else (Shown version, None))))"

definition EffectiveEnabled :: "LocalSettings \<Rightarrow> Policy \<Rightarrow> bool" where
  "EffectiveEnabled s p = (localEnabled s \<and> enabled p)"

section \<open>Recording an event\<close>

text \<open>The quotient of two positive numbers below two to the 53rd, rounded to the nearest \<open>float64\<close>.\<close>

fun bits :: "nat \<Rightarrow> nat" where
  "bits n = (if n = 0 then 0 else Suc (bits (n div 2)))"

declare bits.simps [simp del]

definition float64_div :: "int \<Rightarrow> int \<Rightarrow> float64" where
  "float64_div a b =
     (let k0 = 53 + bits (nat b) - bits (nat a);
          k = (if a * 2 ^ k0 div b \<ge> 2 ^ 53 then k0 - 1 else k0);
          n = a * 2 ^ k; q = n div b; r = n mod b;
          m = (if 2 * r > b \<or> (2 * r = b \<and> odd q) then q + 1 else q)
      in Finite (of_int m / 2 ^ k))"

datatype record_error =
    SettingsError settings_error | PolicyError store_error | NoSamplingDecision | RecordInvalid event_error
  | RecordEncodeFailed | RecordTooLarge | CommitLockFailed | SequenceFailed | QueueError queue_error | ReporterNotConfigured

record record_env =
  firstSettings :: settings_file
  commitSettings :: settings_file
  lastSettings :: settings_file
  policyFile :: policy_file
  commitLock :: "bool option"
  nextSequence :: "nat option option"
  queueIO :: queue_io
  ackLock :: bool
  ackRemove :: "string \<Rightarrow> bool"

text \<open>Settings that stop the recording: an error, no consent, or another generation than expected.\<close>

definition settings_stop :: "settings_file \<Rightarrow> 64 word option \<Rightarrow> record_error option option" where
  "settings_stop f gen =
     (case settings_Load f of
        Inl err \<Rightarrow> Some (Some (SettingsError err))
      | Inr s \<Rightarrow>
          (if \<not> localEnabled s \<or> (case gen of None \<Rightarrow> False | Some g \<Rightarrow> generation s \<noteq> g) then Some None else None))"

definition stopped :: "record_error option \<Rightarrow> (record_error, bool) result" where
  "stopped r = (case r of None \<Rightarrow> Inr False | Some err \<Rightarrow> Inl err)"

text \<open>The sampling decision: a fresh one from the policy, or the check of one made earlier.\<close>

definition decide :: "(string \<Rightarrow> nat list) \<Rightarrow> PolicyState \<Rightarrow> 64 word option \<Rightarrow> Event \<Rightarrow> (record_error option, Event) result" where
  "decide sum256 state gen event =
     (if gen = None then
        (case SampleRate (statePolicy state) event of (rate, selected) \<Rightarrow>
           (if \<not> selected \<or> \<not> ShouldSample sum256 (callID event) rate then Inl None
            else Inr (event\<lparr>sampleRate := rate, sampleWeight := float64_div BasisPoints rate,
                            policyFromValidTCC := fromValidTCC state\<rparr>)))
      else if success event \<or> sampleRate event \<le> 0 \<or> sampleWeight event \<noteq> float64_div BasisPoints (sampleRate event)
      then Inl (Some NoSamplingDecision)
      else Inr event)"

text \<open>From the commit lock on: the sequence number, the queue, and the last look at the settings.\<close>

definition commit_event ::
  "'d codec \<Rightarrow> (string \<Rightarrow> nat list) \<Rightarrow> QueueOptions \<Rightarrow> int \<Rightarrow> record_env \<Rightarrow> 64 word option \<Rightarrow> Event \<Rightarrow> 'd Queue \<Rightarrow>
   'd Queue \<times> (record_error, bool) result" where
  "commit_event cod sum256 opt now env gen event q =
     (if commitLock env = Some False then (q, Inl CommitLockFailed)
      else (case settings_stop (commitSettings env) gen of
              Some r \<Rightarrow> (q, stopped r)
            | None \<Rightarrow>
                (if nextSequence env = Some None then (q, Inl SequenceFailed)
                 else (let sequence = (case nextSequence env of Some (Some n) \<Rightarrow> n | _ \<Rightarrow> 0) in
                       (case enqueueWithID cod sum256 opt now (queueIO env) event sequence q of
                          (q1, Inl err) \<Rightarrow> (q1, Inl (QueueError err))
                        | (q1, Inr (n, created)) \<Rightarrow>
                            (case settings_stop (lastSettings env) gen of
                               Some r \<Rightarrow>
                                 (if created then fst (Ack (ackLock env) (ackRemove env) [n] q1) else q1, stopped r)
                             | None \<Rightarrow> (q1, Inr created)))))))"

definition recordContext ::
  "'d codec \<Rightarrow> (string \<Rightarrow> nat list) \<Rightarrow> (Event \<Rightarrow> nat option) \<Rightarrow> QueueOptions \<Rightarrow> int \<Rightarrow> record_env \<Rightarrow> 64 word option \<Rightarrow>
   Event \<Rightarrow> 'd Queue \<Rightarrow> 'd Queue \<times> (record_error, bool) result" where
  "recordContext cod sum256 event_size opt now env gen ev q =
     (case settings_stop (firstSettings env) gen of
        Some r \<Rightarrow> (q, stopped r)
      | None \<Rightarrow>
          (case policy_Load (policyFile env) of
             Inl err \<Rightarrow> (q, Inl (PolicyError err))
           | Inr state \<Rightarrow>
               (if \<not> (case settings_Load (firstSettings env) of
                         Inl err \<Rightarrow> False | Inr s \<Rightarrow> EffectiveEnabled s (statePolicy state)) then (q, Inr False)
                else (case decide sum256 state gen (Normalize ev) of
                        Inl r \<Rightarrow> (q, stopped r)
                      | Inr event \<Rightarrow>
                          (case Validate event of
                             Some err \<Rightarrow> (q, Inl (RecordInvalid err))
                           | None \<Rightarrow>
                               (case event_size event of
                                  None \<Rightarrow> (q, Inl RecordEncodeFailed)
                                | Some bytes \<Rightarrow>
                                    (if bytes > 16 * 1024 then (q, Inl RecordTooLarge)
                                     else commit_event cod sum256 opt now env gen event q)))))))"

definition reporter_Enabled :: "settings_file \<Rightarrow> policy_file \<Rightarrow> (record_error, bool) result" where
  "reporter_Enabled f p =
     (case settings_Load f of
        Inl err \<Rightarrow> Inl (SettingsError err)
      | Inr s \<Rightarrow>
          (if \<not> localEnabled s then Inr False
           else (case policy_Load p of
                   Inl err \<Rightarrow> Inl (PolicyError err)
                 | Inr state \<Rightarrow> Inr (EffectiveEnabled s (statePolicy state)))))"

section \<open>Properties\<close>

text \<open>Consent: the settings load, they are enabled, and the generation is the expected one.\<close>

definition consent :: "64 word option \<Rightarrow> settings_file \<Rightarrow> bool" where
  "consent gen f =
     (case settings_Load f of Inl err \<Rightarrow> False | Inr s \<Rightarrow> localEnabled s \<and> (case gen of None \<Rightarrow> True | Some g \<Rightarrow> generation s = g))"

lemma settings_stop_None: "settings_stop f gen = None \<longleftrightarrow> consent gen f"
  by (auto simp: settings_stop_def consent_def split: sum.splits option.splits)

lemma stopped_not_created: "stopped r \<noteq> Inr True"
  by (simp add: stopped_def split: option.splits)

lemma ack_created:
  assumes "queue_ok cod sum256 q" and "view cod q = m(n \<mapsto> envelope)" and "n \<notin> dom m" and "n = queueEventID sum256 call"
    and "rm n"
  shows "view cod (fst (Ack True rm [n] q)) = m"
proof (cases "qdir q")
  case None
  then have "view cod q = Map.empty" by (simp add: view_def)
  with assms(2) show ?thesis by (metis fun_upd_same option.distinct(1))
next
  case (Some d)
  have "ack_loop rm [n] d = (ddel n d, None)" using assms(4,5) by simp
  with Some have "qdir (fst (Ack True rm [n] q)) = Some (sub_dir d {n})" by (simp add: Ack_def ddel_sub)
  from sub_simulates(2)[OF assms(1) Some this] have "view cod (fst (Ack True rm [n] q)) = (m(n \<mapsto> envelope)) |` (- {n})"
    by (simp only: assms(2))
  also have "\<dots> = m" using assms(3) by (auto simp: restrict_map_def dom_def)
  finally show ?thesis .
qed

lemma enqueue_view:
  assumes "codec_ok cod" and "queue_ok cod sum256 q"
    and "enqueueWithID cod sum256 opt now env ev global q = (q', r)"
  shows "queue_ok cod sum256 q'"
    and "r = Inl err \<Longrightarrow> view cod q' = view cod q"
    and "r = Inr (n, False) \<Longrightarrow> view cod q' = view cod q"
    and "r = Inr (n, True) \<Longrightarrow> n = queueEventID sum256 (callID ev) \<and> n \<notin> dom (view cod q) \<and>
      (\<exists>envelope. accepted_envelope opt now ev envelope \<and> view cod q' = (view cod q)(n \<mapsto> envelope))"
proof -
  let ?d = "case qdir q of None \<Rightarrow> [] | Some d \<Rightarrow> d" and ?q1 = "q\<lparr>qdir := Some (case qdir q of None \<Rightarrow> [] | Some d \<Rightarrow> d)\<rparr>"
  have d: "dir_ok cod sum256 ?d" "view_dir cod ?d = view cod q"
    using assms(2) by (auto simp: queue_ok_def dir_ok_def view_def view_dir_def dget_def split: option.splits)
  have "(q' = q \<and> (\<exists>e. r = Inl e)) \<or> enqueue_locked cod sum256 opt now env ev global ?d ?q1 = (q', r)"
    using assms(3) by (auto simp: enqueueWithID_def Let_def split: if_splits)
  then show "queue_ok cod sum256 q'"
    and "r = Inl err \<Longrightarrow> view cod q' = view cod q"
    and "r = Inr (n, False) \<Longrightarrow> view cod q' = view cod q"
    and "r = Inr (n, True) \<Longrightarrow> n = queueEventID sum256 (callID ev) \<and> n \<notin> dom (view cod q) \<and>
      (\<exists>envelope. accepted_envelope opt now ev envelope \<and> view cod q' = (view cod q)(n \<mapsto> envelope))"
    using assms(2) enqueue_locked_ok[OF assms(1) d(1), of ?q1 opt now env ev global q' r, unfolded d(2)]
    by (auto simp del: fun_upd_apply)
qed

lemma commit_created:
  assumes "commit_event cod sum256 opt now env gen event q = (q', Inr True)"
  shows "consent gen (commitSettings env) \<and> consent gen (lastSettings env)"
  using assms stopped_not_created unfolding commit_event_def
  by (auto simp: settings_stop_None[symmetric] split: if_splits option.splits prod.splits sum.splits)

lemma commit_nothing:
  assumes "codec_ok cod" and "queue_ok cod sum256 q" and "commit_event cod sum256 opt now env gen event q = (q', r)"
    and "r \<noteq> Inr True" and "ackLock env" and "ackRemove env (queueEventID sum256 (callID event))"
  shows "view cod q' = view cod q"
proof -
  consider (same) "q' = q"
    | (enq) sequence q1 r1 where "enqueueWithID cod sum256 opt now (queueIO env) event sequence q = (q1, r1)"
        "(case r1 of Inl err \<Rightarrow> q' = q1
          | Inr (n, created) \<Rightarrow> q' = (if created then fst (Ack True (ackRemove env) [n] q1) else q1))"
    using assms(3-5) unfolding commit_event_def
    by (cases "commitLock env = Some False")
      (auto simp: Let_def split: if_splits option.splits prod.splits sum.splits)
  then show ?thesis
  proof cases
    case enq
    note e = enqueue_view[OF assms(1,2) enq(1)]
    show ?thesis
    proof (cases r1)
      case (Inl err)
      with enq(2) e(2) show ?thesis by simp
    next
      case (Inr nc)
      obtain n created where nc: "nc = (n, created)" by (cases nc)
      show ?thesis
      proof (cases created)
        case True
        with e(4) Inr nc obtain envelope where v: "n = queueEventID sum256 (callID event)" "n \<notin> dom (view cod q)"
          "view cod q1 = (view cod q)(n \<mapsto> envelope)" by auto
        from ack_created[OF e(1) v(3,2,1)] assms(6) v(1) have "view cod (fst (Ack True (ackRemove env) [n] q1)) = view cod q" by simp
        with enq(2) Inr nc True show ?thesis by simp
      next
        case False
        with enq(2) Inr nc e(3) show ?thesis by simp
      qed
    qed
  qed simp
qed

lemma default_policy_valid: "policy_Validate DefaultPolicy = None"
  by code_simp

lemma loaded_policy_valid: "policy_Load f = Inr s \<Longrightarrow> policy_Validate (statePolicy s) = None"
  using default_policy_valid by (auto simp: policy_Load_def fresh_state_def split: sum.splits option.splits)

lemma Normalize_success [simp]: "success (Normalize e) = success e"
  by (simp add: Normalize_def)

lemma decide_callID: "decide sum256 state gen e = Inr e' \<Longrightarrow> callID e' = callID e"
  by (auto simp: decide_def split: if_splits prod.splits)

text \<open>A fresh decision follows the policy; an earlier one is accepted for failures only.\<close>

lemma decide_sampled:
  assumes "policy_Validate (statePolicy state) = None" and "decide sum256 state gen e = Inr e'"
  shows "\<not> success e" and "gen = None \<Longrightarrow> filterAllows (commandFilter (statePolicy state)) (command e) \<and>
    filterAllows (errorFilter (statePolicy state)) (errorCode e) \<and>
    (\<exists>rate. SampleRate (statePolicy state) e = (rate, True) \<and> ShouldSample sum256 (callID e) rate)"
proof -
  have "\<not> success e \<and> (gen = None \<longrightarrow> filterAllows (commandFilter (statePolicy state)) (command e) \<and>
    filterAllows (errorFilter (statePolicy state)) (errorCode e) \<and>
    (\<exists>rate. SampleRate (statePolicy state) e = (rate, True) \<and> ShouldSample sum256 (callID e) rate))"
  proof (cases "gen = None")
    case True
    obtain rate selected where s: "SampleRate (statePolicy state) e = (rate, selected)" by (cases "SampleRate (statePolicy state) e")
    with True assms(2) have sel: "selected" "ShouldSample sum256 (callID e) rate"
      by (auto simp: decide_def split: if_splits)
    from SampleRate_facts[OF assms(1), of e rate] s sel show ?thesis by simp
  next
    case False
    with assms(2) show ?thesis by (auto simp: decide_def split: if_splits)
  qed
  then show "\<not> success e" and "gen = None \<Longrightarrow> filterAllows (commandFilter (statePolicy state)) (command e) \<and>
    filterAllows (errorFilter (statePolicy state)) (errorCode e) \<and>
    (\<exists>rate. SampleRate (statePolicy state) e = (rate, True) \<and> ShouldSample sum256 (callID e) rate)" by blast+
qed

lemma record_cases:
  assumes "recordContext cod sum256 event_size opt now env gen ev q = (q', r)"
  shows "(q' = q \<and> r \<noteq> Inr True) \<or>
    (\<exists>state event. consent gen (firstSettings env) \<and> policy_Load (policyFile env) = Inr state \<and> enabled (statePolicy state) \<and>
       decide sum256 state gen (Normalize ev) = Inr event \<and> commit_event cod sum256 opt now env gen event q = (q', r))"
  using assms stopped_not_created unfolding recordContext_def
  by (auto simp: settings_stop_None EffectiveEnabled_def split: option.splits sum.splits if_splits)

definition sample_env :: record_env where
  "sample_env = \<lparr>firstSettings = NoSettings, commitSettings = NoSettings, lastSettings = NoSettings, policyFile = Missing,
     commitLock = Some True, nextSequence = Some (Some 4), queueIO = queue_io_ok, ackLock = True, ackRemove = (\<lambda>_. True)\<rparr>"

lemma empty_queue_ok [simp]: "queue_ok cod sum256 emptyQueue"
  by (simp add: queue_ok_def emptyQueue_def)

text \<open>
  C12.  Nothing is recorded without consent.  When an event is reported as recorded, the settings allowed
  it at each of the three looks at them, with the generation the caller expected, the policy was enabled,
  the event is a failure, and a fresh decision let it through the filters and the sampling.  In every
  other case, whatever failed and however the settings changed meanwhile, the queue holds what it held
  before, given that the deletion of a withdrawn event succeeds.
\<close>

theorem recording_needs_consent:
  assumes "codec_ok cod" and "queue_ok cod sum256 q"
    and run: "recordContext cod sum256 event_size opt now env gen ev q = (q', r)"
    and "ackLock env" and "ackRemove env (queueEventID sum256 (callID ev))"
  shows "(r \<noteq> Inr True \<longrightarrow> view cod q' = view cod q) \<and>
    (r = Inr True \<longrightarrow>
       (\<forall>f \<in> {firstSettings env, commitSettings env, lastSettings env}. consent gen f) \<and> \<not> success ev \<and>
       (\<exists>state. policy_Load (policyFile env) = Inr state \<and> enabled (statePolicy state) \<and>
          (gen = None \<longrightarrow> filterAllows (commandFilter (statePolicy state)) (command (Normalize ev)) \<and>
             filterAllows (errorFilter (statePolicy state)) (errorCode (Normalize ev)) \<and>
             (\<exists>rate. SampleRate (statePolicy state) (Normalize ev) = (rate, True) \<and> ShouldSample sum256 (callID ev) rate))))"
  using record_cases[OF run]
proof (elim disjE exE conjE)
  fix state event
  assume c: "consent gen (firstSettings env)" "policy_Load (policyFile env) = Inr state" "enabled (statePolicy state)"
    "decide sum256 state gen (Normalize ev) = Inr event" "commit_event cod sum256 opt now env gen event q = (q', r)"
  have call: "callID event = callID ev" using decide_callID[OF c(4)] by simp
  note sampled = decide_sampled[OF loaded_policy_valid[OF c(2)] c(4), simplified]
  have "r \<noteq> Inr True \<longrightarrow> view cod q' = view cod q" using commit_nothing[OF assms(1,2) c(5)] assms(4,5) call by simp
  moreover have "r = Inr True \<longrightarrow> consent gen (commitSettings env) \<and> consent gen (lastSettings env)"
    using commit_created c(5) by blast
  ultimately show ?thesis using c(1-3) sampled by blast
qed simp

theorem recording_needs_consent_witness:
  "snd (recordContext plain_codec toy_digest (\<lambda>_. Some 900) no_options 8 (sample_env\<lparr>lastSettings := SettingsObject (Some False) None\<rparr>)
      None sample_ok_event emptyQueue) \<noteq> Inr True \<and>
   view plain_codec (fst (recordContext plain_codec toy_digest (\<lambda>_. Some 900) no_options 8
      (sample_env\<lparr>lastSettings := SettingsObject (Some False) None\<rparr>) None sample_ok_event emptyQueue)) = Map.empty"
proof -
  let ?env = "sample_env\<lparr>lastSettings := SettingsObject (Some False) None\<rparr>"
  obtain q' r where run: "recordContext plain_codec toy_digest (\<lambda>_. Some 900) no_options 8 ?env None sample_ok_event emptyQueue = (q', r)"
    by (cases "recordContext plain_codec toy_digest (\<lambda>_. Some 900) no_options 8 ?env None sample_ok_event emptyQueue")
  have env: "ackLock ?env" "ackRemove ?env (queueEventID toy_digest (callID sample_ok_event))" by (simp_all add: sample_env_def)
  note facts = recording_needs_consent[OF plain_codec_ok empty_queue_ok run env]
  have "\<not> consent None (lastSettings ?env)" by code_simp
  with facts have "r \<noteq> Inr True" by blast
  with facts run show ?thesis by (simp add: view_def emptyQueue_def)
qed

end
