(* ===== verification/Json_Number.thy ===== *)
theory Json_Number
  imports Prelude Complex_Main
begin

text \<open>
  \<open>pkg/framework/jsonvalue/jsonvalue.go\<close>: JSON numbers are kept as the text they were written as
  (\<open>json.Number\<close>); whether one is an integer, and its 64-bit value, are computed on the text so that an
  exponent of a million digits costs nothing.

  \<open>ParseNumber\<close> runs the JSON decoder on the text and keeps the result when it is a number: it succeeds
  exactly on a number of the JSON grammar with JSON white space around it, and returns the number alone.
\<close>

section \<open>The grammar of JSON numbers\<close>

record number_parts =
  negative :: bool
  intPart :: string
  fraction :: "string option"
  exponent :: "(char \<times> string \<times> string) option"

definition json_space :: "char \<Rightarrow> bool" where
  "json_space c = (c = CHR '' '' \<or> c = CHR 0x09 \<or> c = CHR 0x0A \<or> c = CHR 0x0D)"

definition digits_of :: "string \<Rightarrow> string \<times> string" where
  "digits_of s = (takeWhile is_digit s, dropWhile is_digit s)"

definition scan_exponent :: "string \<Rightarrow> (char \<times> string \<times> string) option option" where
  "scan_exponent s =
     (case s of
        [] \<Rightarrow> Some None
      | c # cs \<Rightarrow>
          (if c \<noteq> CHR ''e'' \<and> c \<noteq> CHR ''E'' then None
           else (let sign = (case cs of d # _ \<Rightarrow> (if d = CHR ''+'' \<or> d = CHR ''-'' then [d] else []) | [] \<Rightarrow> []);
                     ds = drop (length sign) cs
                 in if ds \<noteq> [] \<and> list_all is_digit ds then Some (Some (c, sign, ds)) else None)))"

definition scan_number :: "string \<Rightarrow> number_parts option" where
  "scan_number s =
     (let neg = HasPrefix s ''-''; (i, r) = digits_of (TrimPrefix s ''-'');
          has_frac = HasPrefix r ''.''; (f, r') = (if has_frac then digits_of (tl r) else ([], r))
      in if i = [] \<or> (hd i = CHR ''0'' \<and> length i > 1) \<or> (has_frac \<and> f = []) then None
         else (case scan_exponent r' of
                 None \<Rightarrow> None
               | Some e \<Rightarrow> Some \<lparr>negative = neg, intPart = i, fraction = (if has_frac then Some f else None), exponent = e\<rparr>))"

definition ParseNumber :: "string \<Rightarrow> string option" where
  "ParseNumber raw =
     (let s = trim_by json_space raw in case scan_number s of None \<Rightarrow> None | Some _ \<Rightarrow> Some s)"

section \<open>Operations\<close>

definition TrimLeftZeros :: "string \<Rightarrow> string" where
  "TrimLeftZeros s = dropWhile (\<lambda>c. c = CHR ''0'') s"

definition TrimRightZeros :: "string \<Rightarrow> string" where
  "TrimRightZeros s = rev (dropWhile (\<lambda>c. c = CHR ''0'') (rev s))"

definition parseDecimalAtMost :: "string \<Rightarrow> nat \<Rightarrow> nat \<times> bool" where
  "parseDecimalAtMost raw limit =
     (let normalized = TrimLeftZeros raw; limitText = show_nat limit in
      if normalized = [] then (0, True)
      else if length normalized > length limitText \<or>
              (length normalized = length limitText \<and> normalized > limitText) then (0, False)
      else (case Atoi normalized of None \<Rightarrow> (0, False) | Some v \<Rightarrow> (nat v, True)))"

text \<open>The mantissa, the exponent text and whether there is one.\<close>

definition cut_exponent :: "string \<Rightarrow> string \<times> string \<times> bool" where
  "cut_exponent unsigned =
     (let r = Cut CHR ''e'' unsigned in if snd (snd r) then r else Cut CHR ''E'' unsigned)"

definition IsInteger :: "string \<Rightarrow> bool" where
  "IsInteger raw =
     (if ParseNumber raw = None then False
      else (let unsigned = TrimPrefix raw ''-'';
                (mantissa, exponentText, hasExponent) = cut_exponent unsigned;
                (integerPart, frac, hasFraction) = Cut CHR ''.'' mantissa;
                coefficient = (if hasFraction then integerPart @ frac else integerPart)
            in if TrimChar CHR ''0'' coefficient = [] then True
               else (let trailingZeros = length coefficient - length (TrimRightZeros coefficient);
                         fractionDigits = length frac
                     in if \<not> hasExponent \<or> exponentText = [] then trailingZeros \<ge> fractionDigits
                        else (let negativeExponent = HasPrefix exponentText ''-'';
                                  exponentDigits = TrimPrefix (TrimPrefix exponentText ''+'') ''-''
                              in if negativeExponent then
                                   (if trailingZeros < fractionDigits then False
                                    else snd (parseDecimalAtMost exponentDigits (trailingZeros - fractionDigits)))
                                 else (case parseDecimalAtMost exponentDigits fractionDigits of
                                         (e, fits) \<Rightarrow> (if \<not> fits then True else trailingZeros \<ge> fractionDigits - e))))))"

datatype int64_error = NotAnInteger string | OutsideInt64 string

text \<open>The digits \<open>Int64\<close> hands to \<open>ParseInt\<close>, if any.\<close>

definition scaled_digits :: "string \<Rightarrow> int \<Rightarrow> string option" where
  "scaled_digits c scale =
     (if scale < 0 then
        (let keep = int (length c) + scale in if keep \<le> 0 then None else Some (take (nat keep) c))
      else if int (length c) + scale > 19 then None
      else Some (c @ replicate (nat scale) CHR ''0''))"

definition Int64 :: "string \<Rightarrow> (int64_error, int) result" where
  "Int64 raw =
     (if \<not> IsInteger raw then Inl (NotAnInteger raw)
      else (let neg = HasPrefix raw ''-''; unsigned = TrimPrefix raw ''-'';
                (mantissa, exponentText, hasExponent) = cut_exponent unsigned;
                (integerPart, frac, hasFraction) = Cut CHR ''.'' mantissa;
                coefficient = TrimLeftZeros (if hasFraction then integerPart @ frac else integerPart)
            in if coefficient = [] then Inr 0
               else (let exponentNegative = HasPrefix exponentText ''-'';
                         exponentDigits = TrimPrefix (TrimPrefix exponentText ''+'') ''-'';
                         limit = (if exponentNegative then length coefficient else length frac + 20);
                         (parsed, fits) = (if hasExponent then parseDecimalAtMost exponentDigits limit else (0, True))
                     in if \<not> fits then Inl (OutsideInt64 raw)
                        else (let expo = (if exponentNegative then - int parsed else int parsed);
                                  scale = expo - int (length frac);
                                  scaled = scaled_digits coefficient scale
                              in case scaled of
                                   None \<Rightarrow> Inl (OutsideInt64 raw)
                                 | Some ds \<Rightarrow>
                                     (case Atoi (if neg then CHR ''-'' # ds else ds) of
                                        None \<Rightarrow> Inl (OutsideInt64 raw)
                                      | Some v \<Rightarrow> Inr v)))))"

section \<open>The value of a number\<close>

definition parts_ok :: "number_parts \<Rightarrow> bool" where
  "parts_ok p =
     (intPart p \<noteq> [] \<and> list_all is_digit (intPart p) \<and>
      (case fraction p of None \<Rightarrow> True | Some f \<Rightarrow> f \<noteq> [] \<and> list_all is_digit f) \<and>
      (case exponent p of None \<Rightarrow> True
       | Some (c, sign, ds) \<Rightarrow> (c = CHR ''e'' \<or> c = CHR ''E'') \<and> sign \<in> {[], ''+'', ''-''} \<and> ds \<noteq> [] \<and> list_all is_digit ds))"

definition parts_text :: "number_parts \<Rightarrow> string" where
  "parts_text p =
     (if negative p then ''-'' else []) @ intPart p @
     (case fraction p of None \<Rightarrow> [] | Some f \<Rightarrow> CHR ''.'' # f) @
     (case exponent p of None \<Rightarrow> [] | Some (c, sign, ds) \<Rightarrow> c # sign @ ds)"

definition frac_digits :: "number_parts \<Rightarrow> string" where
  "frac_digits p = (case fraction p of None \<Rightarrow> [] | Some f \<Rightarrow> f)"

definition exp_value :: "number_parts \<Rightarrow> int" where
  "exp_value p =
     (case exponent p of None \<Rightarrow> 0
      | Some (c, sign, ds) \<Rightarrow> if sign = ''-'' then - int (decimal ds) else int (decimal ds))"

definition parts_value :: "number_parts \<Rightarrow> rat" where
  "parts_value p =
     (if negative p then -1 else 1) * of_nat (decimal (intPart p @ frac_digits p)) *
     10 powi (exp_value p - int (length (frac_digits p)))"

text \<open>The mathematical value of a JSON number.\<close>

definition number_value :: "string \<Rightarrow> rat" where
  "number_value s = (case scan_number s of None \<Rightarrow> 0 | Some p \<Rightarrow> parts_value p)"

lemma digits_of_split: "digits_of s = (a, b) \<Longrightarrow> s = a @ b \<and> list_all is_digit a"
  unfolding digits_of_def by (auto simp: list_all_iff dest: set_takeWhileD)

lemma scan_exponent_sound:
  "scan_exponent s = Some e \<Longrightarrow>
   s = (case e of None \<Rightarrow> [] | Some (c, sign, ds) \<Rightarrow> c # sign @ ds) \<and>
   (case e of None \<Rightarrow> True
    | Some (c, sign, ds) \<Rightarrow> (c = CHR ''e'' \<or> c = CHR ''E'') \<and> sign \<in> {[], ''+'', ''-''} \<and> ds \<noteq> [] \<and> list_all is_digit ds)"
  by (auto simp: scan_exponent_def Let_def split: list.splits if_splits)

lemma scan_number_sound:
  assumes "scan_number s = Some p" shows "parts_ok p \<and> s = parts_text p"
proof -
  obtain i r where d1: "digits_of (TrimPrefix s ''-'') = (i, r)" by (cases "digits_of (TrimPrefix s ''-'')")
  obtain f r' where d2: "(if HasPrefix r ''.'' then digits_of (tl r) else ([], r)) = (f, r')"
    by (cases "if HasPrefix r ''.'' then digits_of (tl r) else ([], r)")
  from assms d1 d2 obtain e where
    ok: "i \<noteq> []" "HasPrefix r ''.'' \<longrightarrow> f \<noteq> []" and e: "scan_exponent r' = Some e" and
    p: "p = \<lparr>negative = HasPrefix s ''-'', intPart = i,
         fraction = (if HasPrefix r ''.'' then Some f else None), exponent = e\<rparr>"
    by (auto simp: scan_number_def Let_def split: if_splits option.splits)
  have s: "s = (if HasPrefix s ''-'' then ''-'' else []) @ i @ r" "list_all is_digit i"
    using digits_of_split[OF d1] by (auto simp: TrimPrefix_def HasPrefix_iff split: if_splits)
  have r: "r = (if HasPrefix r ''.'' then CHR ''.'' # f else []) @ r' \<and> list_all is_digit f"
  proof (cases "HasPrefix r ''.''")
    case True
    then obtain t where "r = CHR ''.'' # t" by (auto simp: HasPrefix_iff)
    with d2 True digits_of_split[of t f r'] show ?thesis by simp
  qed (use d2 in auto)
  from scan_exponent_sound[OF e] s r ok p show ?thesis
    unfolding parts_ok_def parts_text_def by (auto split: if_splits option.splits)
qed

section \<open>Decimal texts\<close>

definition zero_char :: "char \<Rightarrow> bool" where "zero_char c = (c = CHR ''0'')"

lemma decimal_append: "decimal (a @ b) = decimal a * 10 ^ length b + decimal b"
proof (induction b rule: rev_induct)
  case (snoc x xs)
  have "decimal (a @ xs @ [x]) = 10 * decimal (a @ xs) + digit_val x"
    using decimal_snoc[of "a @ xs" x] by simp
  with snoc show ?case by (simp add: decimal_snoc algebra_simps)
qed (simp add: decimal_def)

lemma digit_val_less: "is_digit c \<Longrightarrow> digit_val c < 10"
  unfolding is_digit_iff digit_val_def by linarith

lemma digit_val_zero: "is_digit c \<Longrightarrow> digit_val c = 0 \<longleftrightarrow> c = CHR ''0''"
proof -
  assume "is_digit c"
  have "c = CHR ''0'' \<longleftrightarrow> (of_char c :: nat) = of_char CHR ''0''" by (metis of_char_eq_iff)
  with \<open>is_digit c\<close> show ?thesis by (auto simp: is_digit_iff digit_val_def)
qed

lemma decimal_single [simp]: "decimal [c] = digit_val c"
  by (simp add: decimal_def)

lemma decimal_Nil [simp]: "decimal [] = 0"
  by (simp add: decimal_def)

lemma decimal_Cons: "decimal (c # s) = digit_val c * 10 ^ length s + decimal s"
  using decimal_append[of "[c]" s] by simp

lemma decimal_zeros: "decimal (replicate k CHR ''0'') = 0"
  by (induction k) (simp_all add: decimal_Cons digit_val_def)

lemma decimal_less: "list_all is_digit s \<Longrightarrow> decimal s < 10 ^ length s"
proof (induction s)
  case (Cons c s)
  have "digit_val c * 10 ^ length s + decimal s < 10 * 10 ^ length s"
  proof -
    have "digit_val c \<le> 9" "decimal s < 10 ^ length s" using Cons digit_val_less[of c] by simp_all
    then have "digit_val c * 10 ^ length s \<le> 9 * 10 ^ length s" by simp
    with \<open>decimal s < 10 ^ length s\<close> show ?thesis by linarith
  qed
  then show ?case by (simp add: decimal_Cons)
qed simp

lemma decimal_ge:
  assumes "list_all is_digit s" "s \<noteq> []" "hd s \<noteq> CHR ''0''" shows "10 ^ (length s - 1) \<le> decimal s"
proof (cases s)
  case (Cons c r)
  with assms have "digit_val c \<noteq> 0" using digit_val_zero[of c] by simp
  then have "10 ^ length r \<le> digit_val c * 10 ^ length r" by simp
  then have "10 ^ length r \<le> decimal s" unfolding Cons decimal_Cons by linarith
  with Cons show ?thesis by simp
qed (use assms in simp)

lemma char_less_digit: "is_digit c \<Longrightarrow> is_digit d \<Longrightarrow> c < d \<longleftrightarrow> digit_val c < digit_val d"
  by (auto simp: less_char_def is_digit_iff digit_val_def)

lemma decimal_lex:
  "length s = length t \<Longrightarrow> list_all is_digit s \<Longrightarrow> list_all is_digit t \<Longrightarrow> s < t \<longleftrightarrow> decimal s < decimal t"
proof (induction s t rule: list_induct2)
  case (Cons c s d t)
  then have digits: "is_digit c" "is_digit d" "list_all is_digit s" "list_all is_digit t" by simp_all
  have less: "decimal s < 10 ^ length t" "decimal t < 10 ^ length t"
    using decimal_less[OF digits(3)] decimal_less[OF digits(4)] Cons.hyps by simp_all
  have eq: "c = d \<longleftrightarrow> digit_val c = digit_val d"
    using digits char_less_digit[of c d] char_less_digit[of d c] by (metis less_irrefl not_less_iff_gr_or_eq)
  consider "digit_val c < digit_val d" | "digit_val c = digit_val d" | "digit_val d < digit_val c" by linarith
  then show ?case
  proof cases
    case 1
    then have "Suc (digit_val c) * 10 ^ length t \<le> digit_val d * 10 ^ length t" by (intro mult_right_mono) simp_all
    with less have "decimal (c # s) < decimal (d # t)" using Cons.hyps by (simp add: decimal_Cons)
    with 1 char_less_digit[OF digits(1,2)] show ?thesis by (simp add: Cons_less_Cons)
  next
    case 2
    with eq Cons.IH[OF digits(3,4)] Cons.hyps show ?thesis by (simp add: decimal_Cons Cons_less_Cons)
  next
    case 3
    then have "Suc (digit_val d) * 10 ^ length t \<le> digit_val c * 10 ^ length t" by (intro mult_right_mono) simp_all
    with less have "\<not> decimal (c # s) < decimal (d # t)" using Cons.hyps by (simp add: decimal_Cons)
    with 3 char_less_digit[OF digits(1,2)] eq show ?thesis by (auto simp: Cons_less_Cons)
  qed
qed simp

lemma TrimLeftZeros_split: "\<exists>k. s = replicate k CHR ''0'' @ TrimLeftZeros s"
proof -
  have "takeWhile (\<lambda>c. c = CHR ''0'') s = replicate (length (takeWhile (\<lambda>c. c = CHR ''0'') s)) CHR ''0''"
    by (rule replicate_length_same[symmetric]) (auto dest: set_takeWhileD)
  then show ?thesis unfolding TrimLeftZeros_def by (metis takeWhile_dropWhile_id)
qed

lemma TrimLeftZeros_facts:
  assumes "list_all is_digit s"
  shows "decimal (TrimLeftZeros s) = decimal s" "list_all is_digit (TrimLeftZeros s)"
    "TrimLeftZeros s \<noteq> [] \<Longrightarrow> hd (TrimLeftZeros s) \<noteq> CHR ''0''"
proof -
  obtain k where k: "s = replicate k CHR ''0'' @ TrimLeftZeros s" using TrimLeftZeros_split by blast
  then have "decimal s = decimal (replicate k CHR ''0'' @ TrimLeftZeros s)" by simp
  then show "decimal (TrimLeftZeros s) = decimal s" by (simp add: decimal_append decimal_zeros)
  have "list_all is_digit (replicate k CHR ''0'' @ TrimLeftZeros s)" using assms k by simp
  then show "list_all is_digit (TrimLeftZeros s)" by simp
  show "TrimLeftZeros s \<noteq> [] \<Longrightarrow> hd (TrimLeftZeros s) \<noteq> CHR ''0''"
    unfolding TrimLeftZeros_def by (rule hd_dropWhile)
qed

lemma show_nat_facts:
  "list_all is_digit (show_nat n)" "show_nat n \<noteq> []" "decimal (show_nat n) = n"
  using show_nat_correct by auto

lemma show_nat_length: "n < 10 ^ length (show_nat n)" "n > 0 \<Longrightarrow> 10 ^ (length (show_nat n) - 1) \<le> n" "n = 0 \<Longrightarrow> length (show_nat n) = 1"
proof -
  show "n < 10 ^ length (show_nat n)" using decimal_less[OF show_nat_facts(1)[of n]] show_nat_facts(3) by simp
  show "n > 0 \<Longrightarrow> 10 ^ (length (show_nat n) - 1) \<le> n"
  proof (induction n rule: show_nat.induct)
    case (1 n)
    show ?case
    proof (cases "n < 10")
      case False
      then have "10 ^ (length (show_nat (n div 10)) - 1) \<le> n div 10" using 1 by simp
      moreover have "length (show_nat (n div 10)) = Suc (length (show_nat (n div 10)) - 1)"
        using show_nat_facts(2)[of "n div 10"] by (cases "show_nat (n div 10)") auto
      ultimately have "10 ^ length (show_nat (n div 10)) \<le> 10 * (n div 10)"
        by (metis mult_le_mono2 power_Suc)
      also have "\<dots> \<le> n" by simp
      finally show ?thesis using False by (simp add: show_nat.simps[of n])
    qed (use 1 in \<open>simp add: show_nat.simps[of n]\<close>)
  qed
  show "n = 0 \<Longrightarrow> length (show_nat n) = 1" by (simp add: show_nat.simps[of 0])
qed

lemma Atoi_digits:
  assumes "list_all is_digit s" "s \<noteq> []"
  shows "Atoi s = (if fits_int64 (int (decimal s)) then Some (int (decimal s)) else None)"
    "Atoi (CHR ''-'' # s) = (if fits_int64 (- int (decimal s)) then Some (- int (decimal s)) else None)"
proof -
  obtain c cs where s: "s = c # cs" using assms(2) by (cases s) auto
  have "is_digit c" using assms(1) s by simp
  moreover have "\<not> is_digit CHR ''-''" "\<not> is_digit CHR ''+''" by (simp_all add: is_digit_def)
  ultimately have "c \<noteq> CHR ''-''" "c \<noteq> CHR ''+''" by auto
  then show "Atoi s = (if fits_int64 (int (decimal s)) then Some (int (decimal s)) else None)"
    using assms s by (simp add: Atoi_def unsigned_digits_def)
  show "Atoi (CHR ''-'' # s) = (if fits_int64 (- int (decimal s)) then Some (- int (decimal s)) else None)"
    using assms by (simp add: Atoi_def unsigned_digits_def)
qed

text \<open>\<open>parseDecimalAtMost\<close> decides the bound on the text, without overflow.\<close>

lemma parseDecimalAtMost_correct:
  assumes "list_all is_digit raw" and "int limit \<le> int64_max"
  shows "parseDecimalAtMost raw limit = (if decimal raw \<le> limit then (decimal raw, True) else (0, False))"
proof -
  let ?n = "TrimLeftZeros raw" and ?t = "show_nat limit"
  note trim = TrimLeftZeros_facts[OF assms(1)]
  show ?thesis
  proof (cases "?n = []")
    case True
    with trim(1) show ?thesis by (simp add: parseDecimalAtMost_def Let_def)
  next
    case False
    have ge: "10 ^ (length ?n - 1) \<le> decimal raw" using decimal_ge[OF trim(2) False trim(3)[OF False]] trim(1) by simp
    have pos: "0 < length ?n" using False by simp
    have gt: "(length ?n > length ?t \<or> (length ?n = length ?t \<and> ?n > ?t)) \<longleftrightarrow> decimal raw > limit"
    proof -
      consider "length ?n > length ?t" | "length ?n = length ?t" | "length ?n < length ?t" by linarith
      then show ?thesis
      proof cases
        case 1
        then have "(10::nat) ^ length ?t \<le> 10 ^ (length ?n - 1)" by (intro power_increasing) auto
        with ge show_nat_length(1)[of limit] have "decimal raw > limit" by linarith
        with 1 show ?thesis by simp
      next
        case 2
        with decimal_lex[of ?t ?n] show_nat_facts trim show ?thesis by simp
      next
        case 3
        then have "limit > 0" using show_nat_length(3)[of limit] pos by (cases "limit = 0") auto
        have "decimal raw < 10 ^ length ?n" using decimal_less[OF trim(2)] trim(1) by simp
        also have "\<dots> \<le> 10 ^ (length ?t - 1)" using 3 by (intro power_increasing) auto
        also have "\<dots> \<le> limit" using show_nat_length(2)[OF \<open>limit > 0\<close>] .
        finally show ?thesis using 3 by simp
      qed
    qed
    show ?thesis
    proof (cases "decimal raw \<le> limit")
      case True
      then have "fits_int64 (int (decimal raw))" using assms(2) by (simp add: fits_int64_def int64_min_def)
      then have "Atoi ?n = Some (int (decimal raw))" using Atoi_digits(1)[OF trim(2) False] trim(1) by simp
      with True False gt show ?thesis by (auto simp: parseDecimalAtMost_def Let_def)
    next
      case beyond: False
      with gt have "length ?n > length ?t \<or> (length ?n = length ?t \<and> ?n > ?t)" by simp
      with False beyond show ?thesis by (simp add: parseDecimalAtMost_def Let_def)
    qed
  qed
qed

section \<open>Taking a number apart\<close>

definition exp_text :: "number_parts \<Rightarrow> string" where
  "exp_text p = (case exponent p of None \<Rightarrow> [] | Some (c, sign, ds) \<Rightarrow> sign @ ds)"

definition exp_digits :: "number_parts \<Rightarrow> string" where
  "exp_digits p = (case exponent p of None \<Rightarrow> [] | Some (c, sign, ds) \<Rightarrow> ds)"

definition exp_negative :: "number_parts \<Rightarrow> bool" where
  "exp_negative p = (case exponent p of None \<Rightarrow> False | Some (c, sign, ds) \<Rightarrow> sign = ''-'')"

definition mantissa_text :: "number_parts \<Rightarrow> string" where
  "mantissa_text p = intPart p @ (case fraction p of None \<Rightarrow> [] | Some f \<Rightarrow> CHR ''.'' # f)"

definition coefficient_of :: "number_parts \<Rightarrow> string" where
  "coefficient_of p = intPart p @ frac_digits p"

lemma digit_not:
  "\<not> is_digit CHR ''-''" "\<not> is_digit CHR ''+''" "\<not> is_digit CHR ''.''" "\<not> is_digit CHR ''e''" "\<not> is_digit CHR ''E''"
  by (simp_all add: is_digit_def)

lemma digits_no: "list_all is_digit s \<Longrightarrow> \<not> is_digit c \<Longrightarrow> c \<notin> set s"
  by (rule digits_no_char)

lemma parts_digits:
  assumes "parts_ok p"
  shows "list_all is_digit (intPart p)" "list_all is_digit (frac_digits p)" "list_all is_digit (coefficient_of p)"
    "list_all is_digit (exp_digits p)" "intPart p \<noteq> []"
  using assms by (auto simp: parts_ok_def frac_digits_def coefficient_of_def exp_digits_def split: option.splits)

lemma HasPrefix_digit: "list_all is_digit s \<Longrightarrow> \<not> is_digit c \<Longrightarrow> \<not> HasPrefix s [c]"
  by (cases s) auto

lemma TrimPrefix_digit: "list_all is_digit s \<Longrightarrow> \<not> is_digit c \<Longrightarrow> TrimPrefix s [c] = s"
  by (simp add: TrimPrefix_def HasPrefix_digit)

lemma sign_cut:
  assumes "parts_ok p"
  shows "TrimPrefix (parts_text p) ''-'' = mantissa_text p @ (case exponent p of None \<Rightarrow> [] | Some (c, sign, ds) \<Rightarrow> c # exp_text p)"
    "HasPrefix (parts_text p) ''-'' \<longleftrightarrow> negative p"
proof -
  obtain c cs where i: "intPart p = c # cs" "is_digit c" using parts_digits(1,5)[OF assms] by (cases "intPart p") auto
  have "c \<noteq> CHR ''-''" using i(2) digit_not(1) by blast
  with i show "TrimPrefix (parts_text p) ''-'' = mantissa_text p @ (case exponent p of None \<Rightarrow> [] | Some (c, sign, ds) \<Rightarrow> c # exp_text p)"
    "HasPrefix (parts_text p) ''-'' \<longleftrightarrow> negative p"
    by (auto simp: parts_text_def mantissa_text_def exp_text_def TrimPrefix_def split: option.splits)
qed

lemma mantissa_no_e: "parts_ok p \<Longrightarrow> CHR ''e'' \<notin> set (mantissa_text p)" "parts_ok p \<Longrightarrow> CHR ''E'' \<notin> set (mantissa_text p)"
  using digits_no[OF _ digit_not(4)] digits_no[OF _ digit_not(5)]
  by (auto simp: parts_ok_def mantissa_text_def split: option.splits)

lemma exp_text_no_e:
  assumes "parts_ok p" shows "CHR ''e'' \<notin> set (exp_text p)"
proof (cases "exponent p")
  case (Some x)
  obtain c sign ds where x: "x = (c, sign, ds)" by (cases x)
  with assms Some have "sign \<in> {[], ''+'', ''-''}" "list_all is_digit ds" by (auto simp: parts_ok_def)
  with digits_no[OF _ digit_not(4)] Some x show ?thesis by (auto simp: exp_text_def)
qed (simp add: exp_text_def)

lemma exponent_cut:
  assumes "parts_ok p"
  shows "cut_exponent (TrimPrefix (parts_text p) ''-'') = (mantissa_text p, exp_text p, exponent p \<noteq> None)"
proof (cases "exponent p")
  case None
  with mantissa_no_e[OF assms] show ?thesis
    by (simp add: sign_cut[OF assms] cut_exponent_def exp_text_def Cut_absent)
next
  case (Some x)
  obtain c sign ds where x: "x = (c, sign, ds)" by (cases x)
  with assms Some have c: "c = CHR ''e'' \<or> c = CHR ''E''" by (auto simp: parts_ok_def)
  have shape: "TrimPrefix (parts_text p) ''-'' = mantissa_text p @ c # exp_text p" using Some x sign_cut(1)[OF assms] by simp
  show ?thesis
  proof (cases "c = CHR ''e''")
    case True
    with mantissa_no_e[OF assms] Some show ?thesis unfolding shape by (simp add: cut_exponent_def Cut_append)
  next
    case False
    with c have E: "c = CHR ''E''" by simp
    have "CHR ''e'' \<notin> set (mantissa_text p @ c # exp_text p)"
      using mantissa_no_e[OF assms] exp_text_no_e[OF assms] E by simp
    then have "Cut CHR ''e'' (mantissa_text p @ c # exp_text p) = (mantissa_text p @ c # exp_text p, [], False)"
      by (rule Cut_absent)
    with mantissa_no_e[OF assms] Some E show ?thesis unfolding shape by (simp add: cut_exponent_def Cut_append)
  qed
qed

lemma fraction_cut:
  assumes "parts_ok p" shows "Cut CHR ''.'' (mantissa_text p) = (intPart p, frac_digits p, fraction p \<noteq> None)"
  using digits_no[OF parts_digits(1)[OF assms] digit_not(3)]
  by (cases "fraction p") (simp_all add: mantissa_text_def frac_digits_def Cut_append Cut_absent)

lemma exp_text_facts:
  assumes "parts_ok p" "exponent p \<noteq> None"
  shows "exp_text p \<noteq> []" "HasPrefix (exp_text p) ''-'' \<longleftrightarrow> exp_negative p"
    "TrimPrefix (TrimPrefix (exp_text p) ''+'') ''-'' = exp_digits p"
    "exp_value p = (if exp_negative p then - int (decimal (exp_digits p)) else int (decimal (exp_digits p)))"
proof -
  obtain c sign ds where x: "exponent p = Some (c, sign, ds)" using assms(2) by auto
  with assms(1) have s: "sign = [] \<or> sign = ''+'' \<or> sign = ''-''" and d: "ds \<noteq> []" "list_all is_digit ds"
    by (auto simp: parts_ok_def)
  note no = HasPrefix_digit[OF d(2) digit_not(1)] TrimPrefix_digit[OF d(2) digit_not(1)] TrimPrefix_digit[OF d(2) digit_not(2)]
  have plus: "TrimPrefix (CHR ''+'' # ds) ''+'' = ds" "TrimPrefix (CHR ''-'' # ds) ''-'' = ds"
    "TrimPrefix (CHR ''-'' # ds) ''+'' = CHR ''-'' # ds" by (simp_all add: TrimPrefix_def)
  show "exp_text p \<noteq> []" "HasPrefix (exp_text p) ''-'' \<longleftrightarrow> exp_negative p"
    "TrimPrefix (TrimPrefix (exp_text p) ''+'') ''-'' = exp_digits p"
    "exp_value p = (if exp_negative p then - int (decimal (exp_digits p)) else int (decimal (exp_digits p)))"
    using s d(1) x no plus
    by (auto simp: exp_text_def exp_negative_def exp_digits_def exp_value_def)
qed

lemma number_not_space:
  assumes "parts_ok p" shows "ParseNumber (parts_text p) \<noteq> None \<longleftrightarrow> scan_number (parts_text p) \<noteq> None"
proof -
  have space: "\<not> json_space c" if "is_digit c" for c
  proof
    assume "json_space c"
    then consider "c = CHR '' ''" | "c = CHR 0x09" | "c = CHR 0x0A" | "c = CHR 0x0D" unfolding json_space_def by blast
    then show False using that by cases (simp_all add: is_digit_def)
  qed
  have chars: "\<not> json_space CHR ''-''" "\<not> json_space CHR ''+''" "\<not> json_space CHR ''.''" "\<not> json_space CHR ''e''"
    "\<not> json_space CHR ''E''" by (simp_all add: json_space_def)
  have "\<forall>c \<in> set (parts_text p). \<not> json_space c"
    using assms space chars by (auto simp: parts_text_def parts_ok_def list_all_iff split: option.splits)
  then have "trim_by json_space (parts_text p) = parts_text p" by (rule trim_by_id)
  then show ?thesis by (auto simp: ParseNumber_def Let_def split: option.splits)
qed

section \<open>Trailing zeros\<close>

definition trailing :: "string \<Rightarrow> nat" where
  "trailing s = length s - length (TrimRightZeros s)"

lemma TrimRightZeros_split: "s = TrimRightZeros s @ replicate (trailing s) CHR ''0''"
proof -
  define z where "z = takeWhile (\<lambda>c. c = CHR ''0'') (rev s)"
  have "z = replicate (length z) CHR ''0''"
    by (rule replicate_length_same[symmetric]) (auto simp: z_def dest: set_takeWhileD)
  then obtain n where n: "z = replicate n CHR ''0''" by blast
  have "rev s = z @ rev (TrimRightZeros s)" by (simp add: TrimRightZeros_def z_def)
  then have s: "s = TrimRightZeros s @ rev z" by (metis rev_append rev_rev_ident)
  from arg_cong[OF this, of length] n have "n = trailing s" unfolding trailing_def by simp
  moreover have "rev z = replicate n CHR ''0''" by (simp add: n)
  ultimately show ?thesis using s by simp
qed

lemma all_zeros: "list_all is_digit s \<Longrightarrow> TrimChar CHR ''0'' s = [] \<longleftrightarrow> decimal s = 0"
proof -
  assume d: "list_all is_digit s"
  have "TrimChar CHR ''0'' s = [] \<longleftrightarrow> (\<forall>c \<in> set s. c = CHR ''0'')"
  proof
    assume "TrimChar CHR ''0'' s = []"
    then have "dropWhile (\<lambda>c. c = CHR ''0'') (rev (dropWhile (\<lambda>c. c = CHR ''0'') s)) = []"
      unfolding TrimChar_def trim_by_def rev_is_Nil_conv .
    then have all: "\<forall>c \<in> set (dropWhile (\<lambda>c. c = CHR ''0'') s). c = CHR ''0''"
      unfolding dropWhile_eq_Nil_conv set_rev .
    have "dropWhile (\<lambda>c. c = CHR ''0'') s = []"
    proof (rule ccontr)
      assume ne: "dropWhile (\<lambda>c. c = CHR ''0'') s \<noteq> []"
      from hd_dropWhile[OF ne] hd_in_set[OF ne] all show False by blast
    qed
    then show "\<forall>c \<in> set s. c = CHR ''0''" by (simp add: dropWhile_eq_Nil_conv)
  next
    assume "\<forall>c \<in> set s. c = CHR ''0''"
    then have "dropWhile (\<lambda>c. c = CHR ''0'') s = []" unfolding dropWhile_eq_Nil_conv .
    then show "TrimChar CHR ''0'' s = []" unfolding TrimChar_def trim_by_def by (simp only: rev.simps dropWhile.simps)
  qed
  also have "\<dots> \<longleftrightarrow> decimal s = 0"
    using d by (induction s) (auto simp: decimal_Cons digit_val_zero)
  finally show ?thesis .
qed

lemma trailing_dvd:
  assumes "list_all is_digit s" and "decimal s \<noteq> 0" shows "10 ^ k dvd decimal s \<longleftrightarrow> k \<le> trailing s"
proof -
  let ?b = "TrimRightZeros s" and ?t = "trailing s"
  have split: "s = ?b @ replicate ?t CHR ''0''" by (rule TrimRightZeros_split)
  have dec: "decimal s = decimal ?b * 10 ^ ?t"
    by (subst split) (simp add: decimal_append decimal_zeros)
  then have "?b \<noteq> []" using assms(2) by auto
  then have "List.last ?b \<noteq> CHR ''0''" unfolding TrimRightZeros_def
    by (metis (mono_tags, lifting) hd_dropWhile last_rev rev_is_Nil_conv)
  have "list_all is_digit ?b" using assms(1) split by (metis list_all_append)
  obtain init l where b: "?b = init @ [l]" using \<open>?b \<noteq> []\<close> by (metis append_butlast_last_id)
  have "is_digit l" "l \<noteq> CHR ''0''" using \<open>list_all is_digit ?b\<close> \<open>List.last ?b \<noteq> CHR ''0''\<close> b by auto
  then have "digit_val l \<noteq> 0" "digit_val l < 10" by (simp_all add: digit_val_zero digit_val_less)
  moreover have "decimal ?b mod 10 = digit_val l mod 10" unfolding b decimal_snoc by simp
  ultimately have not_ten: "\<not> 10 dvd decimal ?b" by (simp add: dvd_eq_mod_eq_0)
  show ?thesis
  proof
    assume "10 ^ k dvd decimal s"
    show "k \<le> ?t"
    proof (rule ccontr)
      assume "\<not> k \<le> ?t"
      then have "(10::nat) ^ Suc ?t dvd 10 ^ k" by (intro le_imp_power_dvd) simp
      then have "10 * 10 ^ ?t dvd decimal ?b * 10 ^ ?t" using \<open>10 ^ k dvd decimal s\<close> dec by (metis dvd_trans power_Suc)
      then have "10 dvd decimal ?b" by simp
      with not_ten show False ..
    qed
  next
    assume "k \<le> ?t"
    then show "10 ^ k dvd decimal s" unfolding dec by (intro dvd_mult le_imp_power_dvd)
  qed
qed

section \<open>Integrality\<close>

abbreviation scale_of :: "number_parts \<Rightarrow> int" where
  "scale_of p \<equiv> exp_value p - int (length (frac_digits p))"

text \<open>The absolute value of an integral number.\<close>

definition magnitude :: "number_parts \<Rightarrow> nat" where
  "magnitude p =
     (let d = decimal (coefficient_of p) in
      if scale_of p \<ge> 0 then d * 10 ^ nat (scale_of p) else d div 10 ^ nat (- scale_of p))"

definition integral :: "number_parts \<Rightarrow> bool" where
  "integral p = (scale_of p \<ge> 0 \<or> 10 ^ nat (- scale_of p) dvd decimal (coefficient_of p))"

lemma powi_scale:
  "(10 :: rat) powi n = (if n \<ge> 0 then 10 ^ nat n else 1 / 10 ^ nat (- n))"
  unfolding power_int_def inverse_eq_divide power_divide power_one by (rule refl)

lemma parts_value_abs:
  "parts_value p = (if negative p then -1 else 1) *
     (if scale_of p \<ge> 0 then of_nat (decimal (coefficient_of p) * 10 ^ nat (scale_of p))
      else of_nat (decimal (coefficient_of p)) / of_nat (10 ^ nat (- scale_of p)))"
  unfolding parts_value_def coefficient_of_def[symmetric] powi_scale by simp

lemma nat_quotient_Ints: "(of_nat a / of_nat b :: rat) \<in> \<int> \<longleftrightarrow> b = 0 \<or> b dvd a"
  using of_int_div_of_int_in_Ints_iff[of "int a" "int b", where ?'a = rat] by simp

lemma Ints_neg: "(if b then -1 else 1 :: rat) * x \<in> \<int> \<longleftrightarrow> x \<in> \<int>"
  using Ints_minus[of x] Ints_minus[of "- x"] by (cases b) auto

lemma value_integral: "parts_value p \<in> \<int> \<longleftrightarrow> integral p"
proof (cases "scale_of p \<ge> 0")
  case True
  then have "parts_value p = (if negative p then -1 else 1) * of_nat (decimal (coefficient_of p) * 10 ^ nat (scale_of p))"
    by (simp only: parts_value_abs if_True)
  then show ?thesis using True by (simp only: Ints_neg) (simp add: integral_def)
next
  case False
  then have "parts_value p = (if negative p then -1 else 1) *
      (of_nat (decimal (coefficient_of p)) / of_nat (10 ^ nat (- scale_of p)))"
    by (simp only: parts_value_abs if_False)
  then have "parts_value p \<in> \<int> \<longleftrightarrow> 10 ^ nat (- scale_of p) dvd decimal (coefficient_of p)"
    by (simp only: Ints_neg nat_quotient_Ints) simp
  with False show ?thesis by (simp add: integral_def)
qed

lemma integral_value:
  assumes "integral p" shows "parts_value p = of_int (if negative p then - int (magnitude p) else int (magnitude p))"
proof (cases "scale_of p \<ge> 0")
  case True
  then show ?thesis by (simp add: parts_value_abs magnitude_def)
next
  case False
  with assms obtain m where m: "decimal (coefficient_of p) = 10 ^ nat (- scale_of p) * m" by (auto simp: integral_def)
  have "(of_nat (10 ^ nat (- scale_of p) * m) / of_nat (10 ^ nat (- scale_of p)) :: rat) = of_nat m" by simp
  with False m show ?thesis by (simp add: parts_value_abs magnitude_def)
qed

lemma IsInteger_integral:
  assumes ok: "parts_ok p" and scan: "scan_number (parts_text p) \<noteq> None"
    and len: "int (length (coefficient_of p)) \<le> int64_max"
  shows "IsInteger (parts_text p) \<longleftrightarrow> integral p"
proof -
  let ?c = "coefficient_of p" and ?f = "length (frac_digits p)" and ?t = "trailing (coefficient_of p)"
  note digits = parts_digits[OF ok]
  have parse: "ParseNumber (parts_text p) \<noteq> None" using scan number_not_space[OF ok] by simp
  have coef: "(if fraction p \<noteq> None then intPart p @ frac_digits p else intPart p) = ?c"
    by (simp add: coefficient_of_def frac_digits_def)
  have unfold1: "IsInteger (parts_text p) \<longleftrightarrow> (TrimChar CHR ''0'' ?c = [] \<or>
     (if \<not> exponent p \<noteq> None \<or> exp_text p = [] then ?t \<ge> ?f
      else if HasPrefix (exp_text p) ''-'' then
        \<not> ?t < ?f \<and> snd (parseDecimalAtMost (TrimPrefix (TrimPrefix (exp_text p) ''+'') ''-'') (?t - ?f))
      else (case parseDecimalAtMost (TrimPrefix (TrimPrefix (exp_text p) ''+'') ''-'') ?f of
              (e, fits) \<Rightarrow> \<not> fits \<or> ?t \<ge> ?f - e)))"
    unfolding IsInteger_def if_not_P[OF parse] Let_def exponent_cut[OF ok] prod.case fraction_cut[OF ok] coef
      trailing_def by (simp split: prod.split)
  have fle: "?f \<le> length ?c" by (simp add: coefficient_of_def)
  have tle: "?t \<le> length ?c" by (simp add: trailing_def)
  show ?thesis
  proof (cases "decimal ?c = 0")
    case True
    then show ?thesis using all_zeros[OF digits(3)] unfold1 by (simp add: integral_def)
  next
    case False
    then have nz: "TrimChar CHR ''0'' ?c \<noteq> []" using all_zeros[OF digits(3)] by simp
    have int: "integral p \<longleftrightarrow> scale_of p \<ge> 0 \<or> nat (- scale_of p) \<le> ?t"
      unfolding integral_def using trailing_dvd[OF digits(3) False] by blast
    show ?thesis
    proof (cases "exponent p = None")
      case True
      then have "exp_value p = 0" by (simp add: exp_value_def)
      with True nz unfold1 int show ?thesis by auto
    next
      case has: False
      note facts = exp_text_facts[OF ok has]
      let ?e = "decimal (exp_digits p)"
      have atmost: "parseDecimalAtMost (exp_digits p) n = (if ?e \<le> n then (?e, True) else (0, False))"
        if "n \<le> length ?c" for n
        using that len by (intro parseDecimalAtMost_correct[OF digits(4)]) simp
      show ?thesis
      proof (cases "exp_negative p")
        case True
        have "snd (parseDecimalAtMost (exp_digits p) (?t - ?f)) \<longleftrightarrow> ?e \<le> ?t - ?f" using atmost[of "?t - ?f"] tle by simp
        then have "IsInteger (parts_text p) \<longleftrightarrow> \<not> ?t < ?f \<and> ?e \<le> ?t - ?f"
          using True has nz unfold1 facts by simp
        moreover have "scale_of p = - int (?e + ?f)" using True facts(4) by simp
        ultimately show ?thesis using int by auto
      next
        case False
        have "IsInteger (parts_text p) \<longleftrightarrow> \<not> ?e \<le> ?f \<or> ?t \<ge> ?f - ?e"
          using False has nz unfold1 facts atmost[OF fle] by simp
        moreover have "scale_of p = int ?e - int ?f" using False facts(4) by simp
        ultimately show ?thesis using int by auto
      qed
    qed
  qed
qed

lemma coefficient_length: "length (coefficient_of p) \<le> length (parts_text p)"
  by (auto simp: coefficient_of_def parts_text_def frac_digits_def split: option.splits)

section \<open>The 64-bit value\<close>

lemma scaled_digits_correct:
  assumes "list_all is_digit c" and "c \<noteq> []" and "hd c \<noteq> CHR ''0''"
    and "scale \<ge> 0 \<or> 10 ^ nat (- scale) dvd decimal c"
  shows "case scaled_digits c scale of
      None \<Rightarrow> 10 ^ 19 \<le> (if scale \<ge> 0 then decimal c * 10 ^ nat scale else decimal c div 10 ^ nat (- scale))
    | Some ds \<Rightarrow> list_all is_digit ds \<and> ds \<noteq> [] \<and>
        decimal ds = (if scale \<ge> 0 then decimal c * 10 ^ nat scale else decimal c div 10 ^ nat (- scale))"
proof (cases "scale < 0")
  case True
  let ?k = "nat (- scale)"
  have ge: "10 ^ (length c - 1) \<le> decimal c" by (rule decimal_ge[OF assms(1-3)])
  then have pos: "0 < decimal c" by (rule less_le_trans[rotated]) simp
  have "10 ^ ?k dvd decimal c" using assms(4) True by simp
  then have "10 ^ ?k \<le> decimal c" using pos by (rule dvd_imp_le)
  also have "\<dots> < 10 ^ length c" by (rule decimal_less[OF assms(1)])
  finally have k: "?k < length c" by (simp add: power_less_imp_less_exp)
  let ?a = "take (length c - ?k) c" and ?b = "drop (length c - ?k) c"
  have keep: "nat (int (length c) + scale) = length c - ?k" "\<not> int (length c) + scale \<le> 0" using True k by auto
  have "decimal c = decimal (?a @ ?b)" by simp
  also have "\<dots> = decimal ?a * 10 ^ ?k + decimal ?b" unfolding decimal_append using k by simp
  finally have dec: "decimal c = decimal ?a * 10 ^ ?k + decimal ?b" .
  have "list_all is_digit ?a \<and> list_all is_digit ?b" using assms(1) by (metis append_take_drop_id list_all_append)
  then have digits: "list_all is_digit ?a" "list_all is_digit ?b" by simp_all
  have "decimal ?b < 10 ^ ?k" using decimal_less[OF digits(2)] k by simp
  then have "decimal c div 10 ^ ?k = decimal ?a" unfolding dec by simp
  moreover have "?a \<noteq> []" using k assms(2) by simp
  ultimately show ?thesis using True keep digits by (simp add: scaled_digits_def Let_def)
next
  case False
  then have s: "int (nat scale) = scale" by simp
  have ge: "10 ^ (length c - 1) \<le> decimal c" by (rule decimal_ge[OF assms(1-3)])
  show ?thesis
  proof (cases "int (length c) + scale > 19")
    case True
    then have "19 \<le> (length c - 1) + nat scale" using assms(2) s by (cases c) auto
    then have "(10::nat) ^ 19 \<le> 10 ^ ((length c - 1) + nat scale)" by (intro power_increasing) simp_all
    also have "\<dots> = 10 ^ (length c - 1) * 10 ^ nat scale" by (rule power_add)
    also have "\<dots> \<le> decimal c * 10 ^ nat scale" using ge by (rule mult_right_mono) simp
    finally show ?thesis using False True by (simp add: scaled_digits_def)
  next
    case small: False
    have "decimal (c @ replicate (nat scale) CHR ''0'') = decimal c * 10 ^ nat scale"
      by (simp add: decimal_append decimal_zeros)
    moreover have "list_all is_digit (replicate (nat scale) CHR ''0'')" by (simp add: list_all_iff is_digit_def)
    ultimately show ?thesis using False small assms(1,2) by (simp add: scaled_digits_def)
  qed
qed

lemma fits_small: "10 ^ 19 \<le> n \<Longrightarrow> \<not> fits_int64 (int n) \<and> \<not> fits_int64 (- int n)"
proof -
  assume "10 ^ 19 \<le> n"
  then have "(10::int) ^ 19 \<le> int n" by (metis of_nat_le_iff of_nat_power of_nat_numeral)
  then show ?thesis by (simp add: fits_int64_def int64_max_def int64_min_def)
qed

definition signed_magnitude :: "number_parts \<Rightarrow> int" where
  "signed_magnitude p = (if negative p then - int (magnitude p) else int (magnitude p))"

text \<open>The exponent fits the limit, or the value is far out of range.\<close>

lemma exponent_limit:
  assumes ok: "parts_ok p" and int: "integral p" and nz: "TrimLeftZeros (coefficient_of p) \<noteq> []" and has: "exponent p \<noteq> None"
    and big: "\<not> decimal (exp_digits p) \<le>
      (if exp_negative p then length (TrimLeftZeros (coefficient_of p)) else length (frac_digits p) + 20)"
  shows "10 ^ 19 \<le> magnitude p"
proof -
  let ?c = "TrimLeftZeros (coefficient_of p)" and ?e = "decimal (exp_digits p)" and ?f = "length (frac_digits p)"
  note trim = TrimLeftZeros_facts[OF parts_digits(3)[OF ok]]
  have "10 ^ (length ?c - 1) \<le> decimal ?c" by (rule decimal_ge[OF trim(2) nz trim(3)[OF nz]])
  then have pos: "0 < decimal (coefficient_of p)" unfolding trim(1) by (rule less_le_trans[rotated]) simp
  have less: "decimal (coefficient_of p) < 10 ^ length ?c" using decimal_less[OF trim(2)] trim(1) by simp
  note expo = exp_text_facts(4)[OF ok has]
  show ?thesis
  proof (cases "exp_negative p")
    case True
    then have scale: "nat (- scale_of p) = ?e + ?f" "\<not> scale_of p \<ge> 0" using expo big by auto
    then have "10 ^ (?e + ?f) dvd decimal (coefficient_of p)" using int by (simp add: integral_def)
    then have "10 ^ (?e + ?f) \<le> decimal (coefficient_of p)" using pos by (rule dvd_imp_le)
    then have "(10::nat) ^ (?e + ?f) < 10 ^ length ?c" using less by (rule le_less_trans)
    then have "?e + ?f < length ?c" by (simp add: power_less_imp_less_exp)
    with big True show ?thesis by simp
  next
    case False
    then have e: "?e > ?f + 20" "exp_value p = int ?e" using big expo by simp_all
    then have scale: "scale_of p \<ge> 0" "19 \<le> nat (scale_of p)" by auto
    then have "(10::nat) ^ 19 \<le> 10 ^ nat (scale_of p)" by (intro power_increasing) simp_all
    also have "\<dots> \<le> decimal (coefficient_of p) * 10 ^ nat (scale_of p)" using pos by simp
    finally show ?thesis using scale by (simp add: magnitude_def)
  qed
qed

lemma Int64_parts:
  assumes ok: "parts_ok p" and scan: "scan_number (parts_text p) \<noteq> None"
    and len: "int (length (parts_text p)) + 20 \<le> int64_max"
  shows "Int64 (parts_text p) =
    (if \<not> integral p then Inl (NotAnInteger (parts_text p))
     else if fits_int64 (signed_magnitude p) then Inr (signed_magnitude p) else Inl (OutsideInt64 (parts_text p)))"
proof (cases "integral p")
  case False
  have "int (length (coefficient_of p)) \<le> int64_max" using coefficient_length[of p] len by linarith
  from IsInteger_integral[OF ok scan this] False show ?thesis by (simp add: Int64_def)
next
  case int: True
  have clen: "int (length (coefficient_of p)) \<le> int64_max" using coefficient_length[of p] len by linarith
  have isint: "IsInteger (parts_text p)" using IsInteger_integral[OF ok scan clen] int by simp
  let ?c = "TrimLeftZeros (coefficient_of p)" and ?f = "length (frac_digits p)" and ?e = "decimal (exp_digits p)"
  let ?limit = "if HasPrefix (exp_text p) ''-'' then length ?c else ?f + 20"
  note trim = TrimLeftZeros_facts[OF parts_digits(3)[OF ok]]
  have coef: "(if fraction p \<noteq> None then intPart p @ frac_digits p else intPart p) = coefficient_of p"
    by (simp add: coefficient_of_def frac_digits_def)
  have unfolded: "Int64 (parts_text p) =
     (if ?c = [] then Inr 0
      else (let (parsed, fits) = (if exponent p \<noteq> None
              then parseDecimalAtMost (TrimPrefix (TrimPrefix (exp_text p) ''+'') ''-'') ?limit else (0, True))
            in if \<not> fits then Inl (OutsideInt64 (parts_text p))
               else (case scaled_digits ?c ((if HasPrefix (exp_text p) ''-'' then - int parsed else int parsed) - int ?f) of
                       None \<Rightarrow> Inl (OutsideInt64 (parts_text p))
                     | Some ds \<Rightarrow> (case Atoi (if negative p then CHR ''-'' # ds else ds) of
                          None \<Rightarrow> Inl (OutsideInt64 (parts_text p)) | Some v \<Rightarrow> Inr v))))"
    unfolding Int64_def Let_def exponent_cut[OF ok] prod.case fraction_cut[OF ok] coef sign_cut(2)[OF ok]
    using isint by simp
  show ?thesis
  proof (cases "?c = []")
    case True
    with trim(1) have "decimal (coefficient_of p) = 0" by simp
    then have "magnitude p = 0" by (simp add: magnitude_def)
    then have "signed_magnitude p = 0" "fits_int64 (signed_magnitude p)"
      by (simp_all add: signed_magnitude_def fits_int64_def int64_max_def int64_min_def)
    with True int show ?thesis unfolding unfolded by simp
  next
    case nz: False
    have far: "\<not> fits_int64 (signed_magnitude p)" if "10 ^ 19 \<le> magnitude p"
      using fits_small[OF that] by (simp add: signed_magnitude_def)
    have finish: ?thesis
      if "Int64 (parts_text p) = (case scaled_digits ?c (scale_of p) of
            None \<Rightarrow> Inl (OutsideInt64 (parts_text p))
          | Some ds \<Rightarrow> (case Atoi (if negative p then CHR ''-'' # ds else ds) of
               None \<Rightarrow> Inl (OutsideInt64 (parts_text p)) | Some v \<Rightarrow> Inr v))"
    proof -
      have mag: "(if scale_of p \<ge> 0 then decimal ?c * 10 ^ nat (scale_of p) else decimal ?c div 10 ^ nat (- scale_of p)) = magnitude p"
        using trim(1) by (simp add: magnitude_def)
      have "scale_of p \<ge> 0 \<or> 10 ^ nat (- scale_of p) dvd decimal ?c" using int trim(1) by (simp add: integral_def)
      from scaled_digits_correct[OF trim(2) nz trim(3)[OF nz] this] show ?thesis
      proof (cases "scaled_digits ?c (scale_of p)")
        case None
        with scaled_digits_correct[OF trim(2) nz trim(3)[OF nz] \<open>scale_of p \<ge> 0 \<or> _\<close>] mag have "10 ^ 19 \<le> magnitude p" by simp
        with far None that int show ?thesis by simp
      next
        case (Some ds)
        with scaled_digits_correct[OF trim(2) nz trim(3)[OF nz] \<open>scale_of p \<ge> 0 \<or> _\<close>] mag
        have ds: "list_all is_digit ds" "ds \<noteq> []" "decimal ds = magnitude p" by simp_all
        have "Atoi (if negative p then CHR ''-'' # ds else ds) =
            (if fits_int64 (signed_magnitude p) then Some (signed_magnitude p) else None)"
          using Atoi_digits[OF ds(1,2)] ds(3) by (simp add: signed_magnitude_def)
        with that Some int show ?thesis by simp
      qed
    qed
    show ?thesis
    proof (cases "exponent p = None")
      case True
      then have "exp_value p = 0" "exp_text p = []" by (simp_all add: exp_value_def exp_text_def)
      with True nz show ?thesis by (intro finish) (simp add: unfolded)
    next
      case has: False
      note facts = exp_text_facts[OF ok has]
      have limit: "int ?limit \<le> int64_max"
      proof -
        have "length ?c \<le> length (coefficient_of p)" by (simp add: TrimLeftZeros_def length_dropWhile_le)
        moreover have "?f \<le> length (coefficient_of p)" by (simp add: coefficient_of_def)
        ultimately show ?thesis using coefficient_length[of p] len by simp
      qed
      note parse = parseDecimalAtMost_correct[OF parts_digits(4)[OF ok] limit]
      show ?thesis
      proof (cases "?e \<le> ?limit")
        case True
        with parse have "parseDecimalAtMost (exp_digits p) ?limit = (?e, True)" by simp
        moreover have "(if HasPrefix (exp_text p) ''-'' then - int ?e else int ?e) = exp_value p"
          using facts(2,4) by simp
        ultimately show ?thesis using has nz facts(3) by (intro finish) (simp add: unfolded)
      next
        case False
        then have "10 ^ 19 \<le> magnitude p"
          using exponent_limit[OF ok int nz has] facts(2) by simp
        moreover have "Int64 (parts_text p) = Inl (OutsideInt64 (parts_text p))"
          using False parse has nz facts(3) unfolding unfolded by simp
        ultimately show ?thesis using far int by simp
      qed
    qed
  qed
qed

section \<open>Properties\<close>

text \<open>
  C10.  Whether a JSON number is an integer is decided exactly: for every number of the JSON grammar,
  however it is written and whatever its exponent, \<open>IsInteger\<close> holds when and only when its mathematical
  value is an integer.
\<close>

theorem IsInteger_correct:
  assumes "scan_number s \<noteq> None" and "int (length s) + 20 \<le> int64_max"
  shows "IsInteger s \<longleftrightarrow> number_value s \<in> \<int>"
proof -
  from assms(1) obtain p where p: "scan_number s = Some p" by blast
  from scan_number_sound[OF this] have ok: "parts_ok p" "s = parts_text p" by simp_all
  have "int (length (coefficient_of p)) \<le> int64_max" using coefficient_length[of p] assms(2) ok(2) by simp
  from IsInteger_integral[OF ok(1) _ this] p ok(2) value_integral[of p] show ?thesis by (simp add: number_value_def)
qed

theorem IsInteger_correct_witness: "number_value ''12.50e1'' \<in> \<int> \<and> number_value ''12.50e0'' \<notin> \<int>"
proof -
  have s: "scan_number ''12.50e1'' \<noteq> None" "scan_number ''12.50e0'' \<noteq> None" by code_simp+
  have "IsInteger ''12.50e1''" "\<not> IsInteger ''12.50e0''" by code_simp+
  with IsInteger_correct[OF s(1)] IsInteger_correct[OF s(2)] show ?thesis by (simp add: int64_max_def)
qed

text \<open>
  The 64-bit value of a JSON number is exact: \<open>Int64\<close> returns the mathematical value when it is an
  integer in the range of 64 bits, and otherwise the error that says which of the two fails; no exponent
  makes it overflow or allocate.
\<close>

lemma Int64_correct:
  assumes "scan_number s \<noteq> None" and "int (length s) + 20 \<le> int64_max"
  shows "Int64 s =
    (if number_value s \<notin> \<int> then Inl (NotAnInteger s)
     else if fits_int64 \<lfloor>number_value s\<rfloor> then Inr \<lfloor>number_value s\<rfloor> else Inl (OutsideInt64 s))"
proof -
  from assms(1) obtain p where p: "scan_number s = Some p" by blast
  from scan_number_sound[OF this] have ok: "parts_ok p" "s = parts_text p" by simp_all
  have "integral p \<Longrightarrow> \<lfloor>parts_value p\<rfloor> = signed_magnitude p"
    by (simp only: integral_value signed_magnitude_def floor_of_int)
  moreover have "number_value (parts_text p) = parts_value p" using p ok(2) by (simp add: number_value_def)
  moreover have "scan_number (parts_text p) \<noteq> None" using p ok(2) by simp
  ultimately show ?thesis
    using Int64_parts[OF ok(1)] assms(2) value_integral[of p] unfolding ok(2) by auto
qed

lemma Int64_correct_witness: "number_value ''-12.50e2'' = -1250"
proof -
  have s: "scan_number ''-12.50e2'' \<noteq> None" by code_simp
  have r: "Int64 ''-12.50e2'' = Inr (- 1250)" by code_simp
  from Int64_correct[OF s] r have "number_value ''-12.50e2'' \<in> \<int>" "\<lfloor>number_value ''-12.50e2''\<rfloor> = -1250"
    by (simp_all add: int64_max_def split: if_splits)
  then show ?thesis by (metis Ints_cases floor_of_int of_int_minus of_int_numeral)
qed

end
