(* ===== verification/Json_Value.thy ===== *)
theory Json_Value
  imports Json_Number
begin

text \<open>
  JSON values as \<open>encoding/json\<close> decodes them: a number keeps its text, an object keeps its members in the
  order of the text.  Of two members with the same name the last one counts, as in a Go map that is filled
  in order.
\<close>

datatype json =
    JNull
  | JBool bool
  | JNumber string
  | JString string
  | JArray "json list"
  | JObject "(string \<times> json) list"

type_synonym json_object = "(string \<times> json) list"

definition member :: "json_object \<Rightarrow> string \<Rightarrow> json option" where
  "member kvs k = map_of (rev kvs) k"

text \<open>\<open>json.Unmarshal\<close> into a map that may hold members already: an object adds its members, null keeps the map.\<close>

definition into_map :: "json_object \<Rightarrow> json option \<Rightarrow> json_object option" where
  "into_map m v = (case v of Some (JObject kvs) \<Rightarrow> Some (m @ kvs) | Some JNull \<Rightarrow> Some m | _ \<Rightarrow> None)"

text \<open>\<open>json.Unmarshal\<close> into a slice of strings; null is the nil slice, and a null element the empty string.\<close>

fun json_string :: "json \<Rightarrow> string option" where
  "json_string (JString s) = Some s"
| "json_string JNull = Some []"
| "json_string (JBool b) = None"
| "json_string (JNumber n) = None"
| "json_string (JArray vs) = None"
| "json_string (JObject kvs) = None"

fun all_some :: "'a option list \<Rightarrow> 'a list option" where
  "all_some [] = Some []"
| "all_some (None # xs) = None"
| "all_some (Some x # xs) = map_option ((#) x) (all_some xs)"

fun json_strings :: "json \<Rightarrow> string list option option" where
  "json_strings JNull = Some None"
| "json_strings (JArray vs) = map_option Some (all_some (map json_string vs))"
| "json_strings (JBool b) = None"
| "json_strings (JNumber n) = None"
| "json_strings (JString s) = None"
| "json_strings (JObject kvs) = None"

end
