(* ===== verification/Telemetry_Uploader.thy ===== *)
theory Telemetry_Uploader
  imports Telemetry_Reporter Json_Value
begin

text \<open>
  \<open>internal/products/meegle/telemetry/uploader.go\<close>: the delivery of queued events and the refresh of the
  policy.

  A response is its status and its body, a JSON value or a text that is none.  The service answers a
  report by the function \<open>reply\<close>, which sees the round and the events of the report.  What may differ from
  round to round (the settings another process left, the clock, which files can be removed, whether the
  lock is obtained) is the record \<open>round_env\<close>.  The size of an encoded report is the parameter
  \<open>report_size\<close> (\<open>None\<close>: it cannot be encoded).  The loop of \<open>Run\<close> takes fuel; a theorem shows that one unit
  per queued event and one more are enough.
\<close>

section \<open>Responses\<close>

record http_response =
  statusCode :: int
  body :: "json option"

datatype decode_error =
    EmptyResponse | HTTPStatus int | InvalidResponse | GatewayError int | InvalidBusiness | BusinessError int

text \<open>A code is absent or a raw value: a 64-bit integer, the decimal text of one, or something else.\<close>

definition parseTelemetryCode :: "json option \<Rightarrow> int" where
  "parseTelemetryCode raw =
     (case raw of
        None \<Rightarrow> 0
      | Some JNull \<Rightarrow> -1
      | Some (JNumber n) \<Rightarrow> (case Atoi n of Some i \<Rightarrow> i | None \<Rightarrow> -1)
      | Some (JString s) \<Rightarrow> (case Atoi s of Some i \<Rightarrow> i | None \<Rightarrow> -1)
      | Some other \<Rightarrow> -1)"

fun firstTelemetryCode :: "json_object \<Rightarrow> string list \<Rightarrow> int" where
  "firstTelemetryCode values [] = 0"
| "firstTelemetryCode values (k # ks) =
     (let code = parseTelemetryCode (member values k) in if code \<noteq> 0 then code else firstTelemetryCode values ks)"

fun check_business :: "json_object \<Rightarrow> string list \<Rightarrow> decode_error option" where
  "check_business outer [] = None"
| "check_business outer (k # ks) =
     (case member outer k of
        None \<Rightarrow> check_business outer ks
      | Some (JObject base) \<Rightarrow>
          (let code = firstTelemetryCode base [''StatusCode'', ''status_code''] in
           if code \<noteq> 0 then Some (BusinessError code) else check_business outer ks)
      | Some other \<Rightarrow> Some InvalidBusiness)"

definition decodeTelemetryResponse ::
  "(json option \<Rightarrow> 'a option) \<Rightarrow> http_response option \<Rightarrow> (decode_error, 'a) result" where
  "decodeTelemetryResponse decode_target response =
     (case response of
        None \<Rightarrow> Inl EmptyResponse
      | Some r \<Rightarrow>
          (if statusCode r < 200 \<or> statusCode r \<ge> 300 then Inl (HTTPStatus (statusCode r))
           else (case into_map [] (body r) of
                   None \<Rightarrow> Inl InvalidResponse
                 | Some outer \<Rightarrow>
                     (let code = parseTelemetryCode (member outer ''code'') in
                      if code \<noteq> 0 then Inl (GatewayError code)
                      else (let nested = (case member outer ''data'' of None \<Rightarrow> None | Some JNull \<Rightarrow> None | Some v \<Rightarrow> Some v);
                                payload = (case nested of None \<Rightarrow> body r | Some v \<Rightarrow> Some v)
                            in (case (case nested of None \<Rightarrow> Some outer | Some v \<Rightarrow> into_map outer (Some v)) of
                                  None \<Rightarrow> Inl InvalidResponse
                                | Some outer2 \<Rightarrow>
                                    (case check_business outer2 [''BaseResp'', ''base_resp''] of
                                       Some err \<Rightarrow> Inl err
                                     | None \<Rightarrow>
                                         (case decode_target payload of None \<Rightarrow> Inl InvalidResponse | Some t \<Rightarrow> Inr t))))))))"

text \<open>The response to a report: the failed identifiers, or the nil slice.\<close>

definition decode_report :: "json option \<Rightarrow> string list option option" where
  "decode_report payload =
     (case payload of
        Some (JObject kvs) \<Rightarrow> (case member kvs ''failed_call_ids'' of None \<Rightarrow> Some None | Some v \<Rightarrow> json_strings v)
      | Some JNull \<Rightarrow> Some None
      | _ \<Rightarrow> None)"

section \<open>Batches\<close>

datatype upload_error =
    NotConfigured | LockTaken | SettingsFailed settings_error | QueueFailed queue_error | BatchInvalid event_error
  | BatchEncodeFailed | BatchTooLarge | TransportFailed nat | ResponseFailed decode_error | InvalidAcknowledgement

definition MaxReportEvents :: nat where "MaxReportEvents = 50"
definition MaxReportBytes :: int where "MaxReportBytes = 256 * 1024"

fun batch_loop :: "(Event list \<Rightarrow> nat option) \<Rightarrow> QueuedEvent list \<Rightarrow> QueuedEvent list \<Rightarrow> (upload_error, QueuedEvent list) result" where
  "batch_loop report_size batch [] = Inr batch"
| "batch_loop report_size batch (item # items) =
     (case Validate (qEvent item) of
        Some err \<Rightarrow> Inl (BatchInvalid err)
      | None \<Rightarrow>
          (case report_size (map qEvent (batch @ [item])) of
             None \<Rightarrow> Inl BatchEncodeFailed
           | Some bytes \<Rightarrow>
               (if int bytes > MaxReportBytes then (if batch = [] then Inl BatchTooLarge else Inr batch)
                else batch_loop report_size (batch @ [item]) items)))"

definition buildBatch :: "(Event list \<Rightarrow> nat option) \<Rightarrow> QueuedEvent list \<Rightarrow> (upload_error, QueuedEvent list) result" where
  "buildBatch report_size items = batch_loop report_size [] (take (min MaxReportEvents (length items)) items)"

definition acknowledgedQueueIDs :: "QueuedEvent list \<Rightarrow> string list option \<Rightarrow> (upload_error, string list \<times> bool) result" where
  "acknowledgedQueueIDs batch failed =
     (case failed of
        None \<Rightarrow> Inl InvalidAcknowledgement
      | Some ids \<Rightarrow>
          (let calls = map (\<lambda>i. callID (qEvent i)) batch in
           if \<not> distinct calls then Inl InvalidAcknowledgement
           else if \<not> distinct ids \<or> \<not> list_all (\<lambda>c. c \<in> set calls) ids then Inl InvalidAcknowledgement
           else Inr (map qID (filter (\<lambda>i. callID (qEvent i) \<notin> set ids) batch), length ids > 0)))"

section \<open>The run of the uploader\<close>

record round_env =
  roundSettings :: settings_file
  roundNow :: int
  roundRemove :: "string \<Rightarrow> bool"
  roundLock :: bool
  roundRecord :: bool
  roundClear :: bool
  roundAck :: "string \<Rightarrow> bool"

type_synonym reply = "nat \<Rightarrow> Event list \<Rightarrow> nat + http_response option"

datatype upload_result = Finished | Failed upload_error

definition report_round ::
  "reply \<Rightarrow> nat \<Rightarrow> QueuedEvent list \<Rightarrow> (upload_error, string list \<times> bool) result" where
  "report_round reply n batch =
     (case reply n (map qEvent batch) of
        Inl failure \<Rightarrow> Inl (TransportFailed failure)
      | Inr response \<Rightarrow>
          (case decodeTelemetryResponse decode_report response of
             Inl err \<Rightarrow> Inl (ResponseFailed err)
           | Inr failed \<Rightarrow> acknowledgedQueueIDs batch failed))"

text \<open>The attempt is recorded in the first round that finds the upload due; later rounds keep the record.\<close>

definition record_once :: "round_env \<Rightarrow> bool \<Rightarrow> 'd Queue \<Rightarrow> 'd Queue \<times> queue_error option" where
  "record_once e recorded q = (if recorded then (q, None) else RecordUploadAttempt (roundRecord e) (roundNow e) q)"

definition upload_end :: "queue_error option \<Rightarrow> upload_result" where
  "upload_end err = (case err of None \<Rightarrow> Finished | Some e \<Rightarrow> Failed (QueueFailed e))"

text \<open>A report that was sent, and the identifiers it acknowledged.\<close>

type_synonym sent = "QueuedEvent list \<times> string list"

fun upload_loop ::
  "'d codec \<Rightarrow> QueueOptions \<Rightarrow> (Event list \<Rightarrow> nat option) \<Rightarrow> reply \<Rightarrow> (nat \<Rightarrow> round_env) \<Rightarrow> 64 word \<Rightarrow>
   nat \<Rightarrow> nat \<Rightarrow> bool \<Rightarrow> 'd Queue \<Rightarrow> sent list \<Rightarrow> ('d Queue \<times> upload_result \<times> sent list) option" where
  "upload_loop cod opt report_size reply env gen 0 n recorded q trace = None"
| "upload_loop cod opt report_size reply env gen (Suc fuel) n recorded q trace =
     (case settings_Load (roundSettings (env n)) of
        Inl err \<Rightarrow> Some (q, Failed (SettingsFailed err), trace)
      | Inr latest \<Rightarrow>
          (if \<not> localEnabled latest \<or> generation latest \<noteq> gen then Some (q, Finished, trace)
           else (case prune cod opt (roundNow (env n)) (roundRemove (env n)) q of
                   (q1, Inl err) \<Rightarrow> Some (q1, Failed (QueueFailed err), trace)
                 | (q1, Inr items) \<Rightarrow>
                     (if items = [] then
                        (let (q2, err) = ClearUploadAttempt (roundClear (env n)) q1 in Some (q2, upload_end err, trace))
                      else if \<not> recorded \<and> \<not> UploadDue (roundNow (env n)) q1 then Some (q1, Finished, trace)
                      else (case record_once (env n) recorded q1 of
                              (q2, Some err) \<Rightarrow> Some (q2, Failed (QueueFailed err), trace)
                            | (q2, None) \<Rightarrow>
                                (let matching = filter (\<lambda>i. qIdentity i = IdentityKey opt) items
                                 in if matching = [] then Some (q2, Finished, trace)
                                    else (case buildBatch report_size matching of
                                            Inl err \<Rightarrow> Some (q2, Failed err, trace)
                                          | Inr batch \<Rightarrow>
                                              (case report_round reply n batch of
                                                 Inl err \<Rightarrow> Some (q2, Failed err, trace @ [(batch, [])])
                                               | Inr (ids, partial) \<Rightarrow>
                                                   (case Ack (roundLock (env n)) (roundAck (env n)) ids q2 of
                                                      (q3, Some err) \<Rightarrow> Some (q3, Failed (QueueFailed err), trace @ [(batch, ids)])
                                                    | (q3, None) \<Rightarrow>
                                                        (if partial then Some (q3, Finished, trace @ [(batch, ids)])
                                                         else upload_loop cod opt report_size reply env gen fuel (Suc n) True q3
                                                                (trace @ [(batch, ids)])))))))))))"

text \<open>\<open>Run\<close>: without a transport nothing is done; the lock and the settings come first.\<close>

definition upload_Run ::
  "'d codec \<Rightarrow> QueueOptions \<Rightarrow> (Event list \<Rightarrow> nat option) \<Rightarrow> reply option \<Rightarrow> (nat \<Rightarrow> round_env) \<Rightarrow> bool \<Rightarrow> settings_file \<Rightarrow>
   nat \<Rightarrow> 'd Queue \<Rightarrow> ('d Queue \<times> upload_result \<times> sent list) option" where
  "upload_Run cod opt report_size transport env lock settings fuel q =
     (case transport of
        None \<Rightarrow> Some (q, Finished, [])
      | Some reply \<Rightarrow>
          (if \<not> lock then Some (q, Failed LockTaken, [])
           else (case settings_Load settings of
                   Inl err \<Rightarrow> Some (q, Failed (SettingsFailed err), [])
                 | Inr s \<Rightarrow>
                     (if \<not> localEnabled s then Some (q, Finished, [])
                      else upload_loop cod opt report_size reply env (generation s) fuel 0 False q []))))"

section \<open>Batches and acknowledgements\<close>

lemma batch_loop_ok:
  assumes "batch_loop report_size batch items = Inr b" and "list_all (\<lambda>i. Validate (qEvent i) = None) batch"
    and "batch = [] \<or> (\<exists>n. report_size (map qEvent batch) = Some n \<and> int n \<le> MaxReportBytes)"
  shows "(\<exists>k \<le> length items. b = batch @ take k items) \<and> list_all (\<lambda>i. Validate (qEvent i) = None) b \<and>
    (b = [] \<or> (\<exists>n. report_size (map qEvent b) = Some n \<and> int n \<le> MaxReportBytes)) \<and> (batch = [] \<longrightarrow> items \<noteq> [] \<longrightarrow> b \<noteq> [])"
  using assms
proof (induction items arbitrary: batch)
  case (Cons item items)
  from Cons.prems(1) obtain n where v: "Validate (qEvent item) = None" "report_size (map qEvent (batch @ [item])) = Some n"
    by (auto split: option.splits)
  show ?case
  proof (cases "int n > MaxReportBytes")
    case True
    with Cons.prems v have "b = batch" "batch \<noteq> []" by (auto split: if_splits)
    with Cons.prems(2,3) show ?thesis by (auto intro: exI[of _ 0])
  next
    case False
    with Cons.prems(1) v have "batch_loop report_size (batch @ [item]) items = Inr b" by simp
    moreover have "list_all (\<lambda>i. Validate (qEvent i) = None) (batch @ [item])" using Cons.prems(2) v(1) by simp
    moreover have "\<exists>n. report_size (map qEvent (batch @ [item])) = Some n \<and> int n \<le> MaxReportBytes" using v(2) False by auto
    ultimately have ih: "(\<exists>k \<le> length items. b = (batch @ [item]) @ take k items) \<and> list_all (\<lambda>i. Validate (qEvent i) = None) b \<and>
      (b = [] \<or> (\<exists>n. report_size (map qEvent b) = Some n \<and> int n \<le> MaxReportBytes))"
      using Cons.IH[of "batch @ [item]"] by blast
    then obtain k where "k \<le> length items" "b = (batch @ [item]) @ take k items" by blast
    then have "Suc k \<le> length (item # items) \<and> b = batch @ take (Suc k) (item # items)" "b \<noteq> []" by simp_all
    with ih show ?thesis by blast
  qed
qed auto

lemma buildBatch_ok:
  assumes "buildBatch report_size items = Inr b" and "items \<noteq> []"
  shows "b \<noteq> []" "\<exists>k. b = take k items" "length b \<le> MaxReportEvents" "list_all (\<lambda>i. Validate (qEvent i) = None) b"
    "\<exists>n. report_size (map qEvent b) = Some n \<and> int n \<le> MaxReportBytes"
proof -
  let ?m = "min MaxReportEvents (length items)"
  have start: "list_all (\<lambda>i. Validate (qEvent i) = None) ([] :: QueuedEvent list)" by simp
  note ok = batch_loop_ok[OF assms(1)[unfolded buildBatch_def] start disjI1[OF refl]]
  from conjunct1[OF ok] obtain k where k: "k \<le> length (take ?m items)" "b = take k (take ?m items)"
    unfolding append_Nil by blast
  then show "\<exists>k. b = take k items" by (auto simp: take_take)
  show "length b \<le> MaxReportEvents" using k by simp
  have "take ?m items \<noteq> []" using assms(2) by (simp add: MaxReportEvents_def)
  with ok show "b \<noteq> []" "list_all (\<lambda>i. Validate (qEvent i) = None) b"
    "\<exists>n. report_size (map qEvent b) = Some n \<and> int n \<le> MaxReportBytes" by blast+
qed

lemma acknowledged_ids:
  assumes "acknowledgedQueueIDs batch failed = Inr (ids, partial)"
  shows "set ids \<subseteq> qID ` set batch" "\<not> partial \<Longrightarrow> ids = map qID batch"
  using assms by (auto simp: acknowledgedQueueIDs_def Let_def split: option.splits if_splits)

lemma report_round_ids:
  assumes "report_round reply n batch = Inr (ids, partial)"
  shows "set ids \<subseteq> qID ` set batch" "\<not> partial \<Longrightarrow> ids = map qID batch"
proof -
  from assms obtain failed where "acknowledgedQueueIDs batch failed = Inr (ids, partial)"
    by (auto simp: report_round_def split: sum.splits)
  note a = acknowledged_ids[OF this]
  show "set ids \<subseteq> qID ` set batch" by (rule a(1))
  show "\<not> partial \<Longrightarrow> ids = map qID batch" by (rule a(2))
qed

text \<open>What every report of a run looks like.\<close>

definition report_ok :: "QueueOptions \<Rightarrow> (Event list \<Rightarrow> nat option) \<Rightarrow> sent \<Rightarrow> bool" where
  "report_ok opt report_size s =
     (fst s \<noteq> [] \<and> length (fst s) \<le> MaxReportEvents \<and>
      list_all (\<lambda>i. qIdentity i = IdentityKey opt \<and> Validate (qEvent i) = None) (fst s) \<and>
      (case report_size (map qEvent (fst s)) of None \<Rightarrow> False | Some n \<Rightarrow> int n \<le> MaxReportBytes) \<and>
      set (snd s) \<subseteq> qID ` set (fst s))"

lemma batch_report_ok:
  assumes "buildBatch report_size (filter (\<lambda>i. qIdentity i = IdentityKey opt) items) = Inr batch"
    and "filter (\<lambda>i. qIdentity i = IdentityKey opt) items \<noteq> []" and "set ids \<subseteq> qID ` set batch"
  shows "report_ok opt report_size (batch, ids)" and "set batch \<subseteq> set items"
proof -
  note b = buildBatch_ok[OF assms(1,2)]
  from b(2) have sub: "set batch \<subseteq> set (filter (\<lambda>i. qIdentity i = IdentityKey opt) items)" by (auto dest: in_set_takeD)
  then show "set batch \<subseteq> set items" by auto
  have "list_all (\<lambda>i. qIdentity i = IdentityKey opt \<and> Validate (qEvent i) = None) batch"
    using sub b(4) by (auto simp: list_all_iff)
  with b assms(3) show "report_ok opt report_size (batch, ids)" by (auto simp: report_ok_def)
qed

lemma record_once_view:
  "record_once e recorded q = (q2, err) \<Longrightarrow>
   queue_ok cod sum256 q2 = queue_ok cod sum256 q \<and> view cod q2 = view cod q"
  by (auto simp: record_once_def RecordUploadAttempt_def queue_ok_def view_def split: if_splits)

section \<open>The run ends\<close>

text \<open>A result of a run, with at most \<open>k\<close> well-formed reports after those already sent.\<close>

definition ends :: "QueueOptions \<Rightarrow> (Event list \<Rightarrow> nat option) \<Rightarrow> nat \<Rightarrow> sent list \<Rightarrow>
    ('d Queue \<times> upload_result \<times> sent list) option \<Rightarrow> bool" where
  "ends opt report_size k before_sent r =
     (case r of
        None \<Rightarrow> False
      | Some (q', res, trace) \<Rightarrow>
          \<exists>new. trace = before_sent @ new \<and> length new \<le> k \<and> list_all (report_ok opt report_size) new)"

lemma ends_same: "ends opt report_size k trace (Some (q', res, trace))"
  by (simp add: ends_def)

lemma ends_one: "report_ok opt report_size s \<Longrightarrow> 0 < k \<Longrightarrow> ends opt report_size k trace (Some (q', res, trace @ [s]))"
  by (simp add: ends_def)

lemma ends_more:
  assumes "report_ok opt report_size s" and "ends opt report_size j (trace @ [s]) r" and "j < k"
  shows "ends opt report_size k trace r"
  using assms by (fastforce simp: ends_def split: option.splits)

text \<open>A round in which everything up to the report succeeds.\<close>

lemma upload_loop_report:
  assumes "settings_Load (roundSettings (env n)) = Inr s" "localEnabled s" "generation s = gen"
    and "prune cod opt (roundNow (env n)) (roundRemove (env n)) q = (q1, Inr items)" and "items \<noteq> []"
    and "recorded \<or> UploadDue (roundNow (env n)) q1" and "filter (\<lambda>i. qIdentity i = IdentityKey opt) items \<noteq> []"
    and "buildBatch report_size (filter (\<lambda>i. qIdentity i = IdentityKey opt) items) = Inr batch"
    and "record_once (env n) recorded q1 = (q2, None)"
  shows "upload_loop cod opt report_size reply env gen (Suc fuel) n recorded q trace =
    (case report_round reply n batch of
       Inl err \<Rightarrow> Some (q2, Failed err, trace @ [(batch, [])])
     | Inr (ids, partial) \<Rightarrow>
         (case Ack (roundLock (env n)) (roundAck (env n)) ids q2 of
            (q3, Some err) \<Rightarrow> Some (q3, Failed (QueueFailed err), trace @ [(batch, ids)])
          | (q3, None) \<Rightarrow>
              (if partial then Some (q3, Finished, trace @ [(batch, ids)])
               else upload_loop cod opt report_size reply env gen fuel (Suc n) True q3 (trace @ [(batch, ids)]))))"
  using assms by (cases recorded) (simp_all add: Let_def)

text \<open>What the round does to the number of events, given that the rest of the run ends.\<close>

lemma report_ends:
  fixes cod :: "'d codec"
  assumes ok: "queue_ok cod sum256 q" and listed: "list_op cod opt e q = (q1, Some items)"
    and b: "filter (\<lambda>i. qIdentity i = IdentityKey (NewQueue opt)) items \<noteq> []"
      "buildBatch report_size (filter (\<lambda>i. qIdentity i = IdentityKey (NewQueue opt)) items) = Inr batch"
    and same: "queue_ok cod sum256 q2 = queue_ok cod sum256 q1" "view cod q2 = view cod q1"
    and rest: "\<And>q3 ids. queue_ok cod sum256 q3 \<Longrightarrow> card (dom (view cod q3)) < card (dom (view cod q)) \<Longrightarrow>
      ends (NewQueue opt) report_size (card (dom (view cod q3))) (trace @ [(batch, ids)]) (continue q3 ids)"
  shows "ends (NewQueue opt) report_size (card (dom (view cod q))) trace
    (case report_round reply n batch of
       Inl err \<Rightarrow> Some (q2, Failed err, trace @ [(batch, [])])
     | Inr (ids, partial) \<Rightarrow>
         (case Ack lock rm ids q2 of
            (q3, Some err) \<Rightarrow> Some (q3, Failed (QueueFailed err), trace @ [(batch, ids)])
          | (q3, None) \<Rightarrow> (if partial then Some (q3, Finished, trace @ [(batch, ids)]) else continue q3 ids)))"
proof -
  note l = stored.list_ok[OF ok listed] and report = batch_report_ok[OF b(2,1)]
  have q2: "queue_ok cod sum256 q2" "dom (view cod q2) = dom (view cod q1)"
    using l same by simp_all
  have "dom (view cod q) \<noteq> {}" using l b(1) by auto
  then have pos: "0 < card (dom (view cod q))" by (simp add: card_gt_0_iff finite_view)
  show ?thesis
  proof (cases "report_round reply n batch")
    case (Inl err)
    have "report_ok (NewQueue opt) report_size (batch, [])" by (rule report(1)) simp
    with Inl pos show ?thesis by (simp add: ends_one)
  next
    case (Inr ip)
    obtain ids partial where ip: "ip = (ids, partial)" by (cases ip)
    note ids = report_round_ids[OF Inr[unfolded ip]]
    note rep = report(1)[OF ids(1)]
    obtain q3 err where a: "Ack lock rm ids q2 = (q3, err)" by (cases "Ack lock rm ids q2")
    show ?thesis
    proof (cases "partial \<or> err \<noteq> None")
      case True
      with Inr ip a rep pos show ?thesis by (auto simp: ends_one split: option.splits)
    next
      case False
      obtain i where i: "i \<in> set batch" using rep by (cases batch) (auto simp: report_ok_def)
      then have "i \<in> set items" "qID i \<in> set ids" using report(2)[OF ids(1)] ids(2) False by auto
      moreover have "ack_op (lock, rm) ids q2 = (q3, True)" using a False by (simp add: ack_op_def)
      ultimately have d: "queue_ok cod sum256 q3" "card (dom (view cod q3)) < card (dom (view cod q))"
        using stored.deliver_card[OF ok listed _ _ q2] by blast+
      from ends_more[OF rep rest[OF d] d(2)] show ?thesis using Inr ip a False by simp
    qed
  qed
qed

lemma upload_loop_ends:
  fixes cod :: "'d codec"
  assumes "queue_ok cod sum256 q" and "card (dom (view cod q)) < fuel"
  shows "ends (NewQueue opt) report_size (card (dom (view cod q))) trace
    (upload_loop cod (NewQueue opt) report_size reply env gen fuel n recorded q trace)"
  using assms
proof (induction fuel arbitrary: q n recorded trace)
  case (Suc fuel)
  let ?opt = "NewQueue opt"
  obtain q1 r1 where p: "prune cod ?opt (roundNow (env n)) (roundRemove (env n)) q = (q1, r1)"
    by (cases "prune cod ?opt (roundNow (env n)) (roundRemove (env n)) q")
  show ?case
  proof (cases "(\<exists>err. settings_Load (roundSettings (env n)) = Inl err) \<or> (\<exists>s. settings_Load (roundSettings (env n)) = Inr s \<and>
      (\<not> localEnabled s \<or> generation s \<noteq> gen)) \<or> (\<exists>e. r1 = Inl e)")
    case True
    then show ?thesis by (auto simp: p ends_same split: sum.splits)
  next
    case False
    then obtain s items where s: "settings_Load (roundSettings (env n)) = Inr s" "localEnabled s" "generation s = gen"
      and r1: "r1 = Inr items" by (metis sum.exhaust)
    let ?matching = "filter (\<lambda>i. qIdentity i = IdentityKey ?opt) items"
    have listed: "list_op cod opt (roundNow (env n), roundRemove (env n)) q = (q1, Some items)"
      using p r1 by (simp add: list_op_def)
    show ?thesis
    proof (cases "items = [] \<or> (\<not> recorded \<and> \<not> UploadDue (roundNow (env n)) q1) \<or> ?matching = [] \<or>
        (\<exists>e. buildBatch report_size ?matching = Inl e) \<or> snd (record_once (env n) recorded q1) \<noteq> None")
      case True
      then show ?thesis by (auto simp: p r1 s ends_same Let_def split: sum.split prod.split option.split)
    next
      case False
      then obtain batch where b: "items \<noteq> []" "recorded \<or> UploadDue (roundNow (env n)) q1" "?matching \<noteq> []"
        "buildBatch report_size ?matching = Inr batch" by (metis sum.exhaust)
      from False obtain q2 where q2: "record_once (env n) recorded q1 = (q2, None)" by (metis prod.collapse)
      note same = record_once_view[OF q2]
      show ?thesis unfolding upload_loop_report[where env = env, OF s p[unfolded r1] b q2]
        by (rule report_ends[OF Suc.prems(1) listed b(3,4)]) (use same in simp, use same in simp, rule Suc.IH, use Suc.prems(2) in simp_all)
    qed
  qed
qed simp

section \<open>Properties\<close>

definition accept_all :: reply where
  "accept_all n events = Inr (Some \<lparr>statusCode = 200, body = Some (JObject [(''failed_call_ids'', JArray [])])\<rparr>)"

definition quiet_env :: "nat \<Rightarrow> round_env" where
  "quiet_env n = \<lparr>roundSettings = NoSettings, roundNow = 80, roundRemove = (\<lambda>_. True), roundLock = True, roundRecord = True, roundClear = True, roundAck = (\<lambda>_. True)\<rparr>"

text \<open>
  C13.  Delivery ends.  With one unit of fuel more than the queue holds events, a run of the uploader
  returns, whatever the service answers, however the settings change and whichever files cannot be
  removed; it sends at most one report per event, and every report is a non-empty batch of at most 50
  valid events of the caller's identity within the byte limit, of which only members are acknowledged.
\<close>

theorem uploader_terminates:
  assumes "queue_ok cod sum256 q" and "card (dom (view cod q)) < fuel"
  shows "\<exists>q' res trace. upload_Run cod (NewQueue opt) report_size transport env lock settings fuel q = Some (q', res, trace) \<and>
    length trace \<le> card (dom (view cod q)) \<and> list_all (report_ok (NewQueue opt) report_size) trace"
proof -
  have "ends (NewQueue opt) report_size (card (dom (view cod q))) [] (upload_Run cod (NewQueue opt) report_size transport env lock settings fuel q)"
    using upload_loop_ends[OF assms] by (simp add: upload_Run_def ends_same split: option.splits sum.splits)
  then show ?thesis by (auto simp: ends_def split: option.splits)
qed

theorem uploader_terminates_witness:
  "\<exists>q' res trace. upload_Run plain_codec (NewQueue no_options) (\<lambda>_. Some 900) (Some accept_all) quiet_env True NoSettings 3 full_queue =
    Some (q', res, trace) \<and> length trace \<le> 2"
proof -
  have "dom (view plain_codec full_queue) \<subseteq> dom (map_of (case qdir full_queue of Some d \<Rightarrow> d | None \<Rightarrow> []))"
    by (auto simp: view_def view_dir_def dget_def split: option.splits)
  then have "dom (view plain_codec full_queue) \<subseteq> set (map fst (case qdir full_queue of Some d \<Rightarrow> d | None \<Rightarrow> []))"
    by (simp add: dom_map_of_conv_image_fst)
  moreover have "length (map fst (case qdir full_queue of Some d \<Rightarrow> d | None \<Rightarrow> [])) = 2" by code_simp
  ultimately have "card (dom (view plain_codec full_queue)) \<le> 2" by (metis List.finite_set card_length card_mono le_trans)
  then show ?thesis
    using uploader_terminates[OF full_queue_ok, where fuel = 3 and opt = no_options and report_size = "\<lambda>_. Some 900" and transport = "Some accept_all"
      and env = quiet_env and lock = True and settings = NoSettings] by fastforce
qed

section \<open>Refreshing the policy\<close>

text \<open>
  \<open>PolicyRefresher.RefreshIfDue\<close>.  The decoding of the policy response into its struct is the argument
  \<open>decode_policy\<close>; the two updates of the cache have their own environments.
\<close>

datatype refresh_error =
    TransportMissing | RefreshTransport nat | RefreshResponse decode_error | RefreshRejected store_error
  | RecordingFailed refresh_error store_error

definition recordFailure :: "io \<Rightarrow> int \<Rightarrow> refresh_error \<Rightarrow> policy_file \<Rightarrow> policy_file \<times> refresh_error option" where
  "recordFailure env now cause f =
     (case RecordRefreshFailure env now f of
        (f', Some err) \<Rightarrow> (f', Some (RecordingFailed cause err))
      | (f', None) \<Rightarrow> (f', Some cause))"

definition RefreshIfDue ::
  "(json option \<Rightarrow> (Policy \<times> bool) option) \<Rightarrow> (nat + http_response option) option \<Rightarrow> io \<Rightarrow> io \<Rightarrow> int \<Rightarrow> policy_file \<Rightarrow>
   policy_file \<times> refresh_error option" where
  "RefreshIfDue decode_policy transport apply_env record_env now f =
     (if \<not> RefreshDue f now then (f, None)
      else (case transport of
              None \<Rightarrow> recordFailure record_env now TransportMissing f
            | Some (Inl failure) \<Rightarrow> recordFailure record_env now (RefreshTransport failure) f
            | Some (Inr response) \<Rightarrow>
                (case decodeTelemetryResponse decode_policy response of
                   Inl err \<Rightarrow> recordFailure record_env now (RefreshResponse err) f
                 | Inr (policy, from_tcc) \<Rightarrow>
                     (case ApplyRefresh apply_env policy from_tcc now f of
                        (f', Some err) \<Rightarrow> recordFailure record_env now (RefreshRejected err) f'
                      | (f', None) \<Rightarrow> (f', None)))))"

text \<open>A refresh that fails keeps a policy of the service.\<close>

lemma recordFailure_holds: "holds p f \<Longrightarrow> holds p (fst (recordFailure env now cause f))"
  using fallback_holds[of p f "Failure env now"]
  by (auto simp: recordFailure_def fallback_step_def is_fallback_def refresh_step_def split: prod.splits option.splits)

lemma ApplyRefresh_error: "ApplyRefresh env policy ok now f = (f', Some err) \<Longrightarrow> f' = f"
  by (auto simp: ApplyRefresh_def store_update_def Let_def split: option.splits if_splits sum.splits)

lemma failed_refresh_keeps:
  assumes "holds p f" and "RefreshIfDue decode_policy transport apply_env record_env now f = (f', Some err)"
  shows "holds p f'"
proof -
  have "\<exists>cause. f' = fst (recordFailure record_env now cause f)"
    using assms(2) unfolding RefreshIfDue_def
    by (auto split: if_splits option.splits sum.splits prod.splits dest!: ApplyRefresh_error) (metis fst_conv)+
  with recordFailure_holds[OF assms(1)] show ?thesis by blast
qed

end
