(* ===== verification/Refresh_Lock.thy ===== *)
theory Refresh_Lock
  imports Prelude
begin

text \<open>
  The lock file of \<open>internal/products/meegle/auth/file_store.go\<close> that serializes the refreshing of tokens by
  independent processes (\<open>WithRefreshLock\<close>, \<open>removeStaleRefreshLock\<close>, \<open>releaseRefreshLock\<close>), as a step
  relation with one transition per operation on the file system.

  A file is identified by the process that created it, which creates it once; it stands for the inode a
  process keeps writing to after the path was renamed.  The content is empty until its creator has written
  its mark.  Time is in milliseconds.
\<close>

section \<open>State\<close>

definition refreshLockWait :: int where "refreshLockWait = 30000"
definition refreshLockStaleAfter :: int where "refreshLockStaleAfter = 600000"

type_synonym pid = nat

datatype lock_phase =
    Trying int
  | FoundStale int
  | Opened
  | Inside
  | OwnMark
  | Returned

record lock_file =
  creator :: pid
  mark :: "pid option"
  modified :: int

record lock_state =
  lock_path :: "lock_file option"
  lock_phase :: "pid \<Rightarrow> lock_phase"
  lock_clock :: int

definition set_phase :: "pid \<Rightarrow> lock_phase \<Rightarrow> lock_state \<Rightarrow> lock_state" where
  "set_phase p ph s = s\<lparr>lock_phase := (lock_phase s)(p := ph)\<rparr>"

definition is_stale :: "int \<Rightarrow> lock_file \<Rightarrow> bool" where
  "is_stale now f = (now - modified f > refreshLockStaleAfter)"

section \<open>Operations\<close>

text \<open>\<open>OpenFile\<close> with \<open>O_EXCL\<close>, and the mark that is written and whose failure is ignored.\<close>

definition open_lock :: "pid \<Rightarrow> lock_state \<Rightarrow> lock_state" where
  "open_lock p s = set_phase p Opened (s\<lparr>lock_path := Some \<lparr>creator = p, mark = None, modified = lock_clock s\<rparr>\<rparr>)"

definition write_mark :: "pid \<Rightarrow> bool \<Rightarrow> lock_state \<Rightarrow> lock_state" where
  "write_mark p ok s =
     (let s' = set_phase p Inside s in
      case lock_path s of
        Some f \<Rightarrow> (if ok \<and> creator f = p then s'\<lparr>lock_path := Some (f\<lparr>mark := Some p, modified := lock_clock s\<rparr>)\<rparr> else s')
      | None \<Rightarrow> s')"

text \<open>\<open>removeStaleRefreshLock\<close> looks at the age first and renames the path afterwards.\<close>

definition inspect_lock :: "pid \<Rightarrow> int \<Rightarrow> lock_state \<Rightarrow> lock_state" where
  "inspect_lock p deadline s =
     (case lock_path s of
        Some f \<Rightarrow> (if is_stale (lock_clock s) f then set_phase p (FoundStale deadline) s else s)
      | None \<Rightarrow> s)"

definition rename_stale :: "pid \<Rightarrow> int \<Rightarrow> lock_state \<Rightarrow> lock_state" where
  "rename_stale p deadline s = set_phase p (Trying deadline) (s\<lparr>lock_path := None\<rparr>)"

text \<open>\<open>releaseRefreshLock\<close> reads the mark first and removes the path afterwards.\<close>

definition read_mark :: "pid \<Rightarrow> lock_state \<Rightarrow> lock_state" where
  "read_mark p s =
     (case lock_path s of
        Some f \<Rightarrow> set_phase p (if mark f = Some p then OwnMark else Returned) s
      | None \<Rightarrow> set_phase p Returned s)"

definition remove_lock :: "pid \<Rightarrow> lock_state \<Rightarrow> lock_state" where
  "remove_lock p s = set_phase p Returned (s\<lparr>lock_path := None\<rparr>)"

datatype lock_label =
    Open pid
  | Mark pid bool
  | Inspect pid
  | Rename pid
  | GiveUp pid
  | ReadMark pid
  | Remove pid
  | Wait int

inductive lock_step :: "lock_state \<Rightarrow> lock_label \<Rightarrow> lock_state \<Rightarrow> bool" where
  open_step: "lock_phase s p = Trying d \<Longrightarrow> lock_path s = None \<Longrightarrow> lock_step s (Open p) (open_lock p s)"
| mark_step: "lock_phase s p = Opened \<Longrightarrow> lock_step s (Mark p ok) (write_mark p ok s)"
| inspect_step: "lock_phase s p = Trying d \<Longrightarrow> lock_step s (Inspect p) (inspect_lock p d s)"
| rename_step: "lock_phase s p = FoundStale d \<Longrightarrow> lock_step s (Rename p) (rename_stale p d s)"
| give_up_step: "lock_phase s p = Trying d \<Longrightarrow> lock_clock s > d \<Longrightarrow> lock_step s (GiveUp p) (set_phase p Returned s)"
| read_step: "lock_phase s p = Inside \<Longrightarrow> lock_step s (ReadMark p) (read_mark p s)"
| remove_step: "lock_phase s p = OwnMark \<Longrightarrow> lock_step s (Remove p) (remove_lock p s)"
| wait_step: "0 \<le> t \<Longrightarrow> lock_step s (Wait t) (s\<lparr>lock_clock := lock_clock s + t\<rparr>)"

inductive_cases lock_step_cases: "lock_step s l s'"

inductive lock_run :: "lock_state \<Rightarrow> lock_label list \<Rightarrow> lock_state \<Rightarrow> bool" where
  lock_done: "lock_run s [] s"
| lock_more: "lock_step s l s' \<Longrightarrow> lock_run s' ls s'' \<Longrightarrow> lock_run s (l # ls) s''"

text \<open>The processes start at given times; a lock file may have been left behind.\<close>

definition lock_start :: "lock_file option \<Rightarrow> int \<Rightarrow> lock_state" where
  "lock_start left now = \<lparr>lock_path = left, lock_phase = (\<lambda>p. Trying (now + refreshLockWait)), lock_clock = now\<rparr>"

section \<open>Mutual exclusion\<close>

text \<open>No lock file outlives the time after which it counts as stale.\<close>

definition timely :: "lock_state \<Rightarrow> bool" where
  "timely s = (case lock_path s of None \<Rightarrow> True | Some f \<Rightarrow> \<not> is_stale (lock_clock s) f)"

inductive timely_run :: "lock_state \<Rightarrow> lock_state \<Rightarrow> bool" where
  timely_start: "timely_run s s"
| timely_more: "timely_run s t \<Longrightarrow> lock_step t l u \<Longrightarrow> timely u \<Longrightarrow> timely_run s u"

definition owns :: "lock_state \<Rightarrow> pid \<Rightarrow> bool" where
  "owns s p = (case lock_path s of None \<Rightarrow> False | Some f \<Rightarrow> creator f = p)"

definition lock_inv :: "lock_state \<Rightarrow> bool" where
  "lock_inv s =
     ((\<forall>p d. lock_phase s p \<noteq> FoundStale d) \<and>
      (\<forall>p. lock_phase s p \<in> {Opened, Inside, OwnMark} \<longrightarrow> owns s p) \<and>
      (\<forall>f. lock_path s = Some f \<longrightarrow> mark f \<in> {None, Some (creator f)}))"

lemma lock_inv_start: "lock_inv (lock_start None now)"
  by (simp add: lock_inv_def lock_start_def)

lemma lock_inv_one:
  "lock_inv s \<Longrightarrow> lock_phase s p \<in> {Opened, Inside, OwnMark} \<Longrightarrow> lock_phase s q \<in> {Opened, Inside, OwnMark} \<Longrightarrow> p = q"
proof -
  assume "lock_inv s" "lock_phase s p \<in> {Opened, Inside, OwnMark}" "lock_phase s q \<in> {Opened, Inside, OwnMark}"
  then have "owns s p" "owns s q" unfolding lock_inv_def by blast+
  then show "p = q" by (simp add: owns_def split: option.splits)
qed

text \<open>A phase inside the lock may only be entered by the owner of the path.\<close>

lemma lock_inv_set:
  assumes "lock_inv s" "owns s p \<or> ph \<notin> {Opened, Inside, OwnMark}" "\<forall>d. ph \<noteq> FoundStale d"
  shows "lock_inv (set_phase p ph s)"
  using assms by (auto simp: lock_inv_def set_phase_def owns_def)

lemma lock_inv_mark:
  assumes "lock_inv s" "lock_path s = Some f"
  shows "lock_inv (s\<lparr>lock_path := Some (f\<lparr>mark := Some (creator f), modified := m\<rparr>)\<rparr>)"
proof -
  have "owns (s\<lparr>lock_path := Some (f\<lparr>mark := Some (creator f), modified := m\<rparr>)\<rparr>) p = owns s p" for p
    using assms(2) by (simp add: owns_def)
  then show ?thesis using assms(1) by (simp add: lock_inv_def)
qed

lemma lock_inv_step: "lock_step s l s' \<Longrightarrow> timely s \<Longrightarrow> lock_inv s \<Longrightarrow> lock_inv s'"
proof (erule lock_step_cases)
  fix p d assume "lock_inv s" "s' = open_lock p s" "lock_path s = None"
  then show "lock_inv s'" by (auto simp: lock_inv_def open_lock_def set_phase_def owns_def)
next
  fix p ok assume *: "lock_inv s" "s' = write_mark p ok s" "lock_phase s p = Opened"
  then have "owns s p" by (simp add: lock_inv_def)
  with lock_inv_set[OF *(1), of p Inside] have "lock_inv (set_phase p Inside s)" by simp
  then show "lock_inv s'"
    using lock_inv_mark[of "set_phase p Inside s"] unfolding *(2) write_mark_def Let_def
    by (auto simp: set_phase_def split: option.split)
next
  fix p d assume "timely s" "lock_inv s" "s' = inspect_lock p d s"
  then show "lock_inv s'" by (auto simp: inspect_lock_def timely_def split: option.splits)
next
  fix p d assume "lock_inv s" "lock_phase s p = FoundStale d"
  then show "lock_inv s'" by (simp add: lock_inv_def)
next
  fix p d assume "lock_inv s" "s' = set_phase p Returned s"
  then show "lock_inv s'" by (simp add: lock_inv_set)
next
  fix p assume *: "lock_inv s" "s' = read_mark p s" "lock_phase s p = Inside"
  then have "owns s p" by (simp add: lock_inv_def)
  then show "lock_inv s'" using *(1) unfolding *(2) read_mark_def by (auto simp: lock_inv_set split: option.split)
next
  fix p assume *: "lock_inv s" "s' = remove_lock p s" "lock_phase s p = OwnMark"
  have "lock_phase s q \<notin> {Opened, Inside, OwnMark}" if "q \<noteq> p" for q
    using lock_inv_one[OF *(1), of p q] *(3) that by auto
  with * show "lock_inv s'"
    by (auto simp: lock_inv_def remove_lock_def set_phase_def)
next
  fix t assume "lock_inv s" "s' = s\<lparr>lock_clock := lock_clock s + t\<rparr>"
  then show "lock_inv s'" by (auto simp: lock_inv_def owns_def split: option.splits)
qed

lemma timely_run_inv: "timely_run s t \<Longrightarrow> timely s \<Longrightarrow> lock_inv s \<Longrightarrow> timely t \<and> lock_inv t"
  by (induction rule: timely_run.induct) (auto dest: lock_inv_step)

section \<open>Properties\<close>

text \<open>
  C25.  At most one process refreshes at a time: from a state without a lock file, under every interleaving of
  any number of processes and their single file operations, as long as no lock file gets old enough to count
  as stale, at most one process is inside the lock, the path is its own file, and no process removes or
  renames it.
\<close>

theorem refresh_lock_exclusive:
  assumes "timely_run (lock_start None now) s"
  shows "(\<exists>p. {q. lock_phase s q \<in> {Opened, Inside, OwnMark}} \<subseteq> {p}) \<and>
    {q. lock_phase s q \<in> {Opened, Inside, OwnMark} \<and> \<not> owns s q} = {} \<and>
    {q. \<exists>d. lock_phase s q = FoundStale d} = {}"
proof -
  have inv: "lock_inv s"
    using timely_run_inv[OF assms] lock_inv_start by (simp add: timely_def lock_start_def)
  have "\<exists>p. {q. lock_phase s q \<in> {Opened, Inside, OwnMark}} \<subseteq> {p}"
    using lock_inv_one[OF inv] by blast
  with inv show ?thesis unfolding lock_inv_def by blast
qed

lemma trying_start: "lock_phase (lock_start left now) p = Trying (now + refreshLockWait)"
  by (simp add: lock_start_def)

theorem refresh_lock_exclusive_witness:
  "\<exists>s. timely_run (lock_start None 0) s \<and> lock_phase s 1 = Inside \<and> lock_clock s = 600000 \<and>
     (\<exists>p. {q. lock_phase s q \<in> {Opened, Inside, OwnMark}} \<subseteq> {p})"
proof -
  let ?s0 = "lock_start None 0"
  let ?s1 = "open_lock 1 ?s0" let ?s2 = "write_mark 1 True ?s1" let ?s3 = "?s2\<lparr>lock_clock := lock_clock ?s2 + 600000\<rparr>"
  have "lock_step ?s0 (Open 1) ?s1" by (rule open_step) (simp_all add: lock_start_def)
  moreover have "timely ?s1" by (simp add: timely_def open_lock_def set_phase_def is_stale_def refreshLockStaleAfter_def lock_start_def)
  ultimately have 1: "timely_run ?s0 ?s1" by (rule timely_more[OF timely_start])
  have "lock_step ?s1 (Mark 1 True) ?s2" by (rule mark_step) (simp add: open_lock_def set_phase_def)
  moreover have "timely ?s2"
    by (simp add: timely_def write_mark_def open_lock_def set_phase_def is_stale_def refreshLockStaleAfter_def lock_start_def)
  ultimately have 2: "timely_run ?s0 ?s2" by (rule timely_more[OF 1])
  have "lock_step ?s2 (Wait 600000) ?s3" by (rule wait_step) simp
  moreover have "timely ?s3"
    by (simp add: timely_def write_mark_def open_lock_def set_phase_def is_stale_def refreshLockStaleAfter_def lock_start_def)
  ultimately have 3: "timely_run ?s0 ?s3" by (rule timely_more[OF 2])
  have "lock_phase ?s3 1 = Inside" "lock_clock ?s3 = 600000"
    by (simp_all add: write_mark_def open_lock_def set_phase_def lock_start_def)
  then show ?thesis using 3 refresh_lock_exclusive[OF 3] by blast
qed

text \<open>A lock left by a crashed process is taken over once it is stale.\<close>

lemma stale_lock_taken_over:
  assumes "is_stale now f"
  shows "\<exists>s. lock_run (lock_start (Some f) now) [Inspect p, Rename p, Open p, Mark p True] s \<and>
    lock_phase s p = Inside \<and> owns s p"
proof -
  let ?d = "now + refreshLockWait" and ?s0 = "lock_start (Some f) now"
  let ?s1 = "inspect_lock p ?d ?s0" let ?s2 = "rename_stale p ?d ?s1" let ?s3 = "open_lock p ?s2"
  let ?s4 = "write_mark p True ?s3"
  have "lock_step ?s0 (Inspect p) ?s1" by (rule inspect_step) (rule trying_start)
  moreover have "lock_step ?s1 (Rename p) ?s2"
    by (rule rename_step) (use assms in \<open>simp add: inspect_lock_def set_phase_def lock_start_def\<close>)
  moreover have "lock_step ?s2 (Open p) ?s3"
    by (rule open_step) (simp_all add: rename_stale_def set_phase_def)
  moreover have "lock_step ?s3 (Mark p True) ?s4" by (rule mark_step) (simp add: open_lock_def set_phase_def)
  ultimately have "lock_run ?s0 [Inspect p, Rename p, Open p, Mark p True] ?s4"
    by (intro lock_more[of _ _ ?s1] lock_more[of ?s1 _ ?s2] lock_more[of ?s2 _ ?s3] lock_more[of ?s3 _ ?s4] lock_done)
  moreover have "lock_phase ?s4 p = Inside" "owns ?s4 p"
    by (simp_all add: write_mark_def open_lock_def set_phase_def owns_def Let_def)
  ultimately show ?thesis by blast
qed

text \<open>
  Taking over a stale lock is not atomic: two processes that both found it stale end up inside together,
  because the second one renames the fresh lock of the first.
\<close>

lemma two_processes_inside:
  "\<exists>s. lock_run (lock_start (Some \<lparr>creator = 0, mark = Some 0, modified = 0\<rparr>) 600001)
        [Inspect 1, Inspect 2, Rename 1, Open 1, Mark 1 True, Rename 2, Open 2, Mark 2 True] s \<and>
     lock_phase s 1 = Inside \<and> lock_phase s 2 = Inside \<and> lock_clock s = 600001"
proof -
  let ?d = "600001 + refreshLockWait" and ?s0 = "lock_start (Some \<lparr>creator = 0, mark = Some 0, modified = 0\<rparr>) 600001"
  note defs = inspect_lock_def rename_stale_def open_lock_def write_mark_def set_phase_def is_stale_def
    refreshLockStaleAfter_def lock_start_def Let_def
  let ?s1 = "inspect_lock 1 ?d ?s0" let ?s2 = "inspect_lock 2 ?d ?s1" let ?s3 = "rename_stale 1 ?d ?s2"
  let ?s4 = "open_lock 1 ?s3" let ?s5 = "write_mark 1 True ?s4" let ?s6 = "rename_stale 2 ?d ?s5"
  let ?s7 = "open_lock 2 ?s6" let ?s8 = "write_mark 2 True ?s7"
  have "lock_step ?s0 (Inspect 1) ?s1" by (rule inspect_step) (rule trying_start)
  moreover have "lock_step ?s1 (Inspect 2) ?s2" by (rule inspect_step) (simp add: defs)
  moreover have "lock_step ?s2 (Rename 1) ?s3" by (rule rename_step) (simp add: defs)
  moreover have "lock_step ?s3 (Open 1) ?s4" by (rule open_step) (simp_all add: defs)
  moreover have "lock_step ?s4 (Mark 1 True) ?s5" by (rule mark_step) (simp add: defs)
  moreover have "lock_step ?s5 (Rename 2) ?s6" by (rule rename_step) (simp add: defs)
  moreover have "lock_step ?s6 (Open 2) ?s7" by (rule open_step) (simp_all add: defs)
  moreover have "lock_step ?s7 (Mark 2 True) ?s8" by (rule mark_step) (simp add: defs)
  ultimately have "lock_run ?s0 [Inspect 1, Inspect 2, Rename 1, Open 1, Mark 1 True, Rename 2, Open 2, Mark 2 True] ?s8"
    by (intro lock_more[of _ _ ?s1] lock_more[of ?s1 _ ?s2] lock_more[of ?s2 _ ?s3] lock_more[of ?s3 _ ?s4]
        lock_more[of ?s4 _ ?s5] lock_more[of ?s5 _ ?s6] lock_more[of ?s6 _ ?s7] lock_more[of ?s7 _ ?s8] lock_done)
  moreover have "lock_phase ?s8 1 = Inside" "lock_phase ?s8 2 = Inside" "lock_clock ?s8 = 600001"
    by (simp_all add: defs)
  ultimately show ?thesis by blast
qed

end
