(* ===== verification/Token_Manager.thy ===== *)
theory Token_Manager
  imports Refresh_Lock
begin

text \<open>
  \<open>internal/products/meegle/auth\<close>: the data of a token and the store with a fallback (\<open>token_store.go\<close>,
  \<open>fallback_store.go\<close>), and the token manager (\<open>token_manager.go\<close>) used by independent processes at once, as
  a step relation with one transition per access to the store, the lock or the service.

  The lock is the lock file of \<open>Refresh_Lock\<close>, operation by operation; a store may have none.  Failures of the store, of
  the lock and of the service, and crashes of a process at any point, are labels of the steps.  A process stands for
  one call of an operation.
\<close>

section \<open>Tokens and the store with a fallback\<close>

record TokenData =
  AccessToken :: string
  RefreshToken :: string
  ExpiresAt :: int
  ClientID :: string

record FallbackStore =
  primary :: "TokenData option"
  fallback :: "TokenData option"
  primaryFailed :: bool

text \<open>The arguments say which of the operations on the two stores succeed; a context may be done.\<close>

definition fallback_Save :: "bool \<Rightarrow> bool \<Rightarrow> bool \<Rightarrow> TokenData \<Rightarrow> FallbackStore \<Rightarrow> bool \<times> FallbackStore" where
  "fallback_Save primary_ok clear_ok fallback_ok d s =
     (if \<not> primaryFailed s \<and> primary_ok then
        (True, s\<lparr>primary := Some d, fallback := (if clear_ok then None else fallback s)\<rparr>)
      else
        (let s' = s\<lparr>primaryFailed := True\<rparr> in
         if fallback_ok then (True, s'\<lparr>fallback := Some d\<rparr>) else (False, s')))"

definition fallback_Load :: "bool \<Rightarrow> bool \<Rightarrow> bool \<Rightarrow> FallbackStore \<Rightarrow> TokenData option option \<times> FallbackStore" where
  "fallback_Load primary_ok ctx_done fallback_ok s =
     (let second = (\<lambda>s. (if fallback_ok then Some (fallback s) else None, s)) in
      if primaryFailed s then second s
      else if primary_ok then (case primary s of Some d \<Rightarrow> (Some (Some d), s) | None \<Rightarrow> second s)
      else if ctx_done then (None, s)
      else second (s\<lparr>primaryFailed := True\<rparr>))"

definition fallback_Clear :: "bool \<Rightarrow> bool \<Rightarrow> FallbackStore \<Rightarrow> bool \<times> FallbackStore" where
  "fallback_Clear primary_ok fallback_ok s =
     (primary_ok \<and> fallback_ok,
      s\<lparr>primary := (if primary_ok then None else primary s), fallback := (if fallback_ok then None else fallback s)\<rparr>)"

text \<open>What was saved is loaded again in the same process, unless the store that took it fails.\<close>

lemma fallback_reads_its_writes:
  assumes "fallback_Save p1 c1 f1 d s = (True, s')"
  shows "fst (fallback_Load True ctx True s') = Some (Some d)"
  using assms by (auto simp: fallback_Save_def fallback_Load_def Let_def split: if_splits)

lemma fallback_cleared:
  assumes "fallback_Clear p1 f1 s = (True, s')"
  shows "fst (fallback_Load p2 ctx True s') \<in> {None, Some None}"
  using assms by (auto simp: fallback_Clear_def fallback_Load_def Let_def split: if_splits)

text \<open>
  A token saved in the fallback leaves an older one in the primary store, which the next process prefers: the
  code clears only the fallback, although its comment says that each side clears the other.
\<close>

definition restarted :: "FallbackStore \<Rightarrow> FallbackStore" where
  "restarted s = s\<lparr>primaryFailed := False\<rparr>"

lemma stale_primary_preferred:
  "fallback_Save False c True new \<lparr>primary = Some old, fallback = None, primaryFailed = False\<rparr> = (True, s') \<Longrightarrow>
   fst (fallback_Load True ctx True (restarted s')) = Some (Some old)"
  by (auto simp: fallback_Save_def fallback_Load_def restarted_def Let_def)

section \<open>Refreshing\<close>

definition token_expired :: "int \<Rightarrow> TokenData \<Rightarrow> bool" where
  "token_expired now d = (ExpiresAt d > 0 \<and> now > ExpiresAt d)"

text \<open>The sum wraps around at 64 bits.\<close>

definition expiresAtFromSeconds :: "int \<Rightarrow> int \<Rightarrow> int" where
  "expiresAtFromSeconds now secs = (if secs \<le> 0 then 0 else signed_take_bit 63 (now + secs * 1000))"

definition tokenDataChanged :: "TokenData \<Rightarrow> TokenData \<Rightarrow> bool" where
  "tokenDataChanged a b =
     (AccessToken a \<noteq> AccessToken b \<or> RefreshToken a \<noteq> RefreshToken b \<or> ClientID a \<noteq> ClientID b \<or>
      ExpiresAt a \<noteq> ExpiresAt b)"

definition refreshable :: "string \<Rightarrow> TokenData \<Rightarrow> bool" where
  "refreshable host d = (RefreshToken d \<noteq> [] \<and> ClientID d \<noteq> [] \<and> host \<noteq> [])"

record tokenResponse =
  trAccess :: string
  trRefresh :: string
  trExpiresIn :: int

definition refreshed_data :: "int \<Rightarrow> TokenData \<Rightarrow> tokenResponse \<Rightarrow> TokenData" where
  "refreshed_data now d tr =
     \<lparr>AccessToken = trAccess tr, RefreshToken = (if trRefresh tr = [] then RefreshToken d else trRefresh tr),
      ExpiresAt = expiresAtFromSeconds now (trExpiresIn tr), ClientID = ClientID d\<rparr>"

text \<open>What a process wants, and what it ends with.\<close>

datatype tm_request = WantToken | WantRefresh TokenData | WantDrop string

datatype tm_result = GotToken string | Refreshed | Dropped bool | TokenFailed

datatype tm_phase =
    AtRest
  | Waiting tm_request
  | Locked tm_request
  | Exchanging tm_request TokenData
  | Persisting tm_request TokenData
  | Clearing string
  | Leaving tm_result
  | Finished tm_result
  | Crashed tm_phase

text \<open>The first look at the store, before the lock.\<close>

definition begin_get :: "int \<Rightarrow> TokenData option \<Rightarrow> tm_phase" where
  "begin_get now d =
     (case d of
        None \<Rightarrow> Finished (GotToken [])
      | Some t \<Rightarrow> (if token_expired now t then Waiting WantToken else Finished (GotToken (AccessToken t))))"

definition begin_refresh :: "TokenData option \<Rightarrow> tm_phase" where
  "begin_refresh d = (case d of None \<Rightarrow> Finished TokenFailed | Some t \<Rightarrow> Waiting (WantRefresh t))"

definition begin_drop :: "string \<Rightarrow> tm_phase" where
  "begin_drop expected = (if expected = [] then Finished (Dropped False) else Waiting (WantDrop expected))"

text \<open>The second look, inside the lock.\<close>

definition locked_phase :: "string \<Rightarrow> int \<Rightarrow> tm_request \<Rightarrow> TokenData option \<Rightarrow> tm_phase" where
  "locked_phase host now req d =
     (case req of
        WantToken \<Rightarrow>
          (case d of
             None \<Rightarrow> Leaving (GotToken [])
           | Some t \<Rightarrow>
               (if \<not> token_expired now t then Leaving (GotToken (AccessToken t))
                else if refreshable host t then Exchanging req t
                else Leaving (GotToken [])))
      | WantRefresh snapshot \<Rightarrow>
          (case d of
             None \<Rightarrow> Leaving TokenFailed
           | Some t \<Rightarrow>
               (if AccessToken t \<noteq> [] \<and> tokenDataChanged snapshot t then Leaving Refreshed
                else if refreshable host t then Exchanging req t
                else Leaving TokenFailed))
      | WantDrop expected \<Rightarrow>
          (case d of
             None \<Rightarrow> Leaving (Dropped False)
           | Some t \<Rightarrow> (if AccessToken t \<noteq> expected then Leaving (Dropped False) else Clearing expected)))"

text \<open>A response without an access token is an error.\<close>

definition exchanged_phase :: "int \<Rightarrow> tm_request \<Rightarrow> TokenData \<Rightarrow> tokenResponse option \<Rightarrow> tm_phase" where
  "exchanged_phase now req d response =
     (case response of
        None \<Rightarrow> Leaving TokenFailed
      | Some tr \<Rightarrow> (if trAccess tr = [] then Leaving TokenFailed else Persisting req (refreshed_data now d tr)))"

definition refresh_result :: "tm_request \<Rightarrow> TokenData \<Rightarrow> tm_result" where
  "refresh_result req d = (case req of WantToken \<Rightarrow> GotToken (AccessToken d) | _ \<Rightarrow> Refreshed)"

section \<open>Processes\<close>

text \<open>
  \<open>seen\<close> holds every refresh token that ever was in the store or came from the service; \<open>exchanged\<close> logs the
  refresh tokens the service took and the data it gave for them, \<open>dropped\<close> what was cleared for which rejected
  token.  The clock is that of the lock.
\<close>

record tm_state =
  stored :: "TokenData option"
  tm_lock :: lock_state
  tm_phase :: "pid \<Rightarrow> tm_phase"
  exchanged :: "(string \<times> TokenData) list"
  dropped :: "(string \<times> TokenData option) list"
  seen :: "string list"

definition tm_clock :: "tm_state \<Rightarrow> int" where "tm_clock s = lock_clock (tm_lock s)"

definition tm_go :: "pid \<Rightarrow> tm_phase \<Rightarrow> tm_state \<Rightarrow> tm_state" where
  "tm_go p ph s = s\<lparr>tm_phase := (tm_phase s)(p := ph)\<rparr>"

text \<open>\<open>withRefreshLock\<close>: a store without a lock of its own runs the critical section at once.\<close>

definition withRefreshLock :: "bool \<Rightarrow> pid \<Rightarrow> tm_phase \<Rightarrow> tm_state \<Rightarrow> tm_state" where
  "withRefreshLock locker p ph s =
     (case ph of
        Waiting req \<Rightarrow>
          (if locker then tm_go p ph (s\<lparr>tm_lock := set_phase p (Trying (tm_clock s + refreshLockWait)) (tm_lock s)\<rparr>)
           else tm_go p (Locked req) s)
      | _ \<Rightarrow> tm_go p ph s)"

text \<open>The operations on the lock file in front of the critical section, and those behind it.\<close>

definition acquires :: "pid \<Rightarrow> lock_label \<Rightarrow> bool" where
  "acquires p l = (case l of Open q \<Rightarrow> q = p | Mark q ok \<Rightarrow> q = p | Inspect q \<Rightarrow> q = p | Rename q \<Rightarrow> q = p | GiveUp q \<Rightarrow> q = p | _ \<Rightarrow> False)"

definition lets_go :: "pid \<Rightarrow> lock_label \<Rightarrow> bool" where
  "lets_go p l = (case l of ReadMark q \<Rightarrow> q = p | Remove q \<Rightarrow> q = p | _ \<Rightarrow> False)"

definition lock_entered :: "pid \<Rightarrow> tm_request \<Rightarrow> lock_state \<Rightarrow> tm_state \<Rightarrow> tm_state" where
  "lock_entered p req lk s =
     tm_go p (case lock_phase lk p of Inside \<Rightarrow> Locked req | Returned \<Rightarrow> Finished TokenFailed | _ \<Rightarrow> Waiting req) (s\<lparr>tm_lock := lk\<rparr>)"

definition lock_left :: "pid \<Rightarrow> tm_result \<Rightarrow> lock_state \<Rightarrow> tm_state \<Rightarrow> tm_state" where
  "lock_left p r lk s = tm_go p (if lock_phase lk p = Returned then Finished r else Leaving r) (s\<lparr>tm_lock := lk\<rparr>)"

fun trying :: "lock_phase \<Rightarrow> bool" where
  "trying (Trying d) = True"
| "trying (FoundStale d) = True"
| "trying ph = False"

definition lock_refused :: "pid \<Rightarrow> tm_state \<Rightarrow> tm_state" where
  "lock_refused p s = tm_go p (Finished TokenFailed) (s\<lparr>tm_lock := set_phase p Returned (tm_lock s)\<rparr>)"

definition logged :: "TokenData \<Rightarrow> tokenResponse \<Rightarrow> tm_state \<Rightarrow> tm_state" where
  "logged d tr s =
     s\<lparr>exchanged := exchanged s @ [(RefreshToken d, refreshed_data (tm_clock s) d tr)],
       seen := RefreshToken (refreshed_data (tm_clock s) d tr) # seen s\<rparr>"

definition do_exchange :: "pid \<Rightarrow> tm_request \<Rightarrow> TokenData \<Rightarrow> tokenResponse option \<Rightarrow> tm_state \<Rightarrow> tm_state" where
  "do_exchange p req d response s =
     (let s' = tm_go p (exchanged_phase (tm_clock s) req d response) s in
      case response of
        None \<Rightarrow> s'
      | Some tr \<Rightarrow> (if trAccess tr = [] then s' else logged d tr s'))"

definition persistRefreshedToken :: "pid \<Rightarrow> bool \<Rightarrow> tm_request \<Rightarrow> TokenData \<Rightarrow> tm_state \<Rightarrow> tm_state" where
  "persistRefreshedToken p ok req d s =
     tm_go p (Leaving (refresh_result req d)) (if ok then s\<lparr>stored := Some d\<rparr> else s)"

definition drop_token :: "pid \<Rightarrow> bool \<Rightarrow> string \<Rightarrow> tm_state \<Rightarrow> tm_state" where
  "drop_token p ok expected s =
     (if ok then tm_go p (Leaving (Dropped True)) (s\<lparr>stored := None, dropped := dropped s @ [(expected, stored s)]\<rparr>)
      else tm_go p (Leaving TokenFailed) s)"

fun running :: "tm_phase \<Rightarrow> bool" where
  "running AtRest = False"
| "running (Finished r) = False"
| "running (Crashed ph) = False"
| "running ph = True"

datatype tm_label =
    GetToken pid
  | TryRefresh pid
  | ClearTokenIfCurrent pid string
  | LoadFails pid
  | Lock pid lock_label
  | AcquireFails pid
  | Look pid
  | LookFails pid
  | Exchange pid "tokenResponse option"
  | ReplyLost pid tokenResponse
  | Persist pid bool
  | Drop pid bool
  | Release pid lock_label
  | Unlocked pid
  | Crash pid
  | SaveToken TokenData
  | ClearToken
  | Later int

inductive tm_step :: "string \<Rightarrow> bool \<Rightarrow> tm_state \<Rightarrow> tm_label \<Rightarrow> tm_state \<Rightarrow> bool" for host locker where
  get_step: "tm_phase s p = AtRest \<Longrightarrow>
    tm_step host locker s (GetToken p) (withRefreshLock locker p (begin_get (tm_clock s) (stored s)) s)"
| refresh_step: "tm_phase s p = AtRest \<Longrightarrow>
    tm_step host locker s (TryRefresh p) (withRefreshLock locker p (begin_refresh (stored s)) s)"
| clear_step: "tm_phase s p = AtRest \<Longrightarrow>
    tm_step host locker s (ClearTokenIfCurrent p e) (withRefreshLock locker p (begin_drop e) s)"
| load_fails_step: "tm_phase s p = AtRest \<Longrightarrow> tm_step host locker s (LoadFails p) (tm_go p (Finished TokenFailed) s)"
| acquire_step: "tm_phase s p = Waiting req \<Longrightarrow> acquires p l \<Longrightarrow> lock_step (tm_lock s) l lk \<Longrightarrow>
    tm_step host locker s (Lock p l) (lock_entered p req lk s)"
| acquire_fails_step: "tm_phase s p = Waiting req \<Longrightarrow> trying (lock_phase (tm_lock s) p) \<Longrightarrow>
    tm_step host locker s (AcquireFails p) (lock_refused p s)"
| look_step: "tm_phase s p = Locked req \<Longrightarrow>
    tm_step host locker s (Look p) (tm_go p (locked_phase host (tm_clock s) req (stored s)) s)"
| look_fails_step: "tm_phase s p = Locked req \<Longrightarrow> tm_step host locker s (LookFails p) (tm_go p (Leaving TokenFailed) s)"
| exchange_step: "tm_phase s p = Exchanging req d \<Longrightarrow>
    tm_step host locker s (Exchange p response) (do_exchange p req d response s)"
| reply_lost_step: "tm_phase s p = Exchanging req d \<Longrightarrow>
    tm_step host locker s (ReplyLost p tr) (logged d tr (tm_go p (Leaving TokenFailed) s))"
| persist_step: "tm_phase s p = Persisting req d \<Longrightarrow>
    tm_step host locker s (Persist p ok) (persistRefreshedToken p ok req d s)"
| drop_step: "tm_phase s p = Clearing e \<Longrightarrow> tm_step host locker s (Drop p ok) (drop_token p ok e s)"
| release_step: "tm_phase s p = Leaving r \<Longrightarrow> lets_go p l \<Longrightarrow> lock_step (tm_lock s) l lk \<Longrightarrow>
    tm_step host locker s (Release p l) (lock_left p r lk s)"
| unlocked_step: "tm_phase s p = Leaving r \<Longrightarrow> \<not> locker \<Longrightarrow> tm_step host locker s (Unlocked p) (tm_go p (Finished r) s)"
| crash_step: "running (tm_phase s p) \<Longrightarrow> tm_step host locker s (Crash p) (tm_go p (Crashed (tm_phase s p)) s)"
| login_step: "tm_step host locker s (SaveToken d) (s\<lparr>stored := Some d, seen := RefreshToken d # seen s\<rparr>)"
| logout_step: "tm_step host locker s ClearToken (s\<lparr>stored := None\<rparr>)"
| later_step: "lock_step (tm_lock s) (Wait t) lk \<Longrightarrow> tm_step host locker s (Later t) (s\<lparr>tm_lock := lk\<rparr>)"

inductive_cases tm_step_cases: "tm_step host locker s l s'"

definition tm_start :: "TokenData option \<Rightarrow> int \<Rightarrow> tm_state" where
  "tm_start d now =
     \<lparr>stored = d, tm_lock = \<lparr>lock_path = None, lock_phase = (\<lambda>p. Returned), lock_clock = now\<rparr>, tm_phase = (\<lambda>p. AtRest),
      exchanged = [], dropped = [], seen = (case d of None \<Rightarrow> [] | Some t \<Rightarrow> [RefreshToken t])\<rparr>"

text \<open>
  A service that rotates its refresh tokens and whose replies arrive, and a store that keeps what it is given: every
  response and every login brings a refresh token that was never seen, and refreshed tokens are persisted.
\<close>

definition rotates :: "tm_state \<Rightarrow> tm_label \<Rightarrow> bool" where
  "rotates s l =
     (case l of
        Exchange p (Some tr) \<Rightarrow> trRefresh tr \<noteq> [] \<and> trRefresh tr \<notin> set (seen s)
      | ReplyLost p tr \<Rightarrow> False
      | SaveToken d \<Rightarrow> RefreshToken d \<notin> set (seen s)
      | Persist p ok \<Rightarrow> ok
      | _ \<Rightarrow> True)"

text \<open>No lock file gets stale, in particular none that a crashed process left.\<close>

definition orderly :: "tm_state \<Rightarrow> tm_label \<Rightarrow> bool" where
  "orderly s l = (rotates s l \<and> timely (tm_lock s))"

inductive tm_run :: "string \<Rightarrow> bool \<Rightarrow> (tm_state \<Rightarrow> tm_label \<Rightarrow> bool) \<Rightarrow> tm_state \<Rightarrow> tm_state \<Rightarrow> bool" for host locker law where
  tm_refl: "tm_run host locker law s s"
| tm_more: "tm_run host locker law s t \<Longrightarrow> tm_step host locker t l u \<Longrightarrow> law t l \<Longrightarrow> tm_run host locker law s u"

section \<open>Playing a run\<close>

text \<open>The step relations as partial functions, to evaluate runs.\<close>

definition guarded :: "bool \<Rightarrow> 'a \<Rightarrow> 'a option" where "guarded b x = (if b then Some x else None)"

lemma guarded_Some [simp]: "guarded b x = Some y \<longleftrightarrow> b \<and> x = y"
  by (simp add: guarded_def)

fun lock_next :: "lock_state \<Rightarrow> lock_label \<Rightarrow> lock_state option" where
  "lock_next s (Open p) = (case lock_phase s p of Trying d \<Rightarrow> guarded (lock_path s = None) (open_lock p s) | _ \<Rightarrow> None)"
| "lock_next s (Mark p ok) = guarded (lock_phase s p = Opened) (write_mark p ok s)"
| "lock_next s (Inspect p) = (case lock_phase s p of Trying d \<Rightarrow> Some (inspect_lock p d s) | _ \<Rightarrow> None)"
| "lock_next s (Rename p) = (case lock_phase s p of FoundStale d \<Rightarrow> Some (rename_stale p d s) | _ \<Rightarrow> None)"
| "lock_next s (GiveUp p) = (case lock_phase s p of Trying d \<Rightarrow> guarded (lock_clock s > d) (set_phase p Returned s) | _ \<Rightarrow> None)"
| "lock_next s (ReadMark p) = guarded (lock_phase s p = Inside) (read_mark p s)"
| "lock_next s (Remove p) = guarded (lock_phase s p = OwnMark) (remove_lock p s)"
| "lock_next s (Wait t) = guarded (0 \<le> t) (s\<lparr>lock_clock := lock_clock s + t\<rparr>)"

lemma lock_next_sound: "lock_next s l = Some s' \<Longrightarrow> lock_step s l s'"
  by (cases l) (auto split: lock_phase.splits intro: lock_step.intros)

fun tm_next :: "string \<Rightarrow> bool \<Rightarrow> tm_state \<Rightarrow> tm_label \<Rightarrow> tm_state option" where
  "tm_next host locker s (GetToken p) = guarded (tm_phase s p = AtRest) (withRefreshLock locker p (begin_get (tm_clock s) (stored s)) s)"
| "tm_next host locker s (TryRefresh p) = guarded (tm_phase s p = AtRest) (withRefreshLock locker p (begin_refresh (stored s)) s)"
| "tm_next host locker s (ClearTokenIfCurrent p e) = guarded (tm_phase s p = AtRest) (withRefreshLock locker p (begin_drop e) s)"
| "tm_next host locker s (LoadFails p) = guarded (tm_phase s p = AtRest) (tm_go p (Finished TokenFailed) s)"
| "tm_next host locker s (Lock p l) =
     (case tm_phase s p of
        Waiting req \<Rightarrow> (if acquires p l then map_option (\<lambda>lk. lock_entered p req lk s) (lock_next (tm_lock s) l) else None)
      | _ \<Rightarrow> None)"
| "tm_next host locker s (AcquireFails p) =
     (case tm_phase s p of Waiting req \<Rightarrow> guarded (trying (lock_phase (tm_lock s) p)) (lock_refused p s) | _ \<Rightarrow> None)"
| "tm_next host locker s (Look p) =
     (case tm_phase s p of Locked req \<Rightarrow> Some (tm_go p (locked_phase host (tm_clock s) req (stored s)) s) | _ \<Rightarrow> None)"
| "tm_next host locker s (LookFails p) =
     (case tm_phase s p of Locked req \<Rightarrow> Some (tm_go p (Leaving TokenFailed) s) | _ \<Rightarrow> None)"
| "tm_next host locker s (Exchange p response) =
     (case tm_phase s p of Exchanging req d \<Rightarrow> Some (do_exchange p req d response s) | _ \<Rightarrow> None)"
| "tm_next host locker s (ReplyLost p tr) =
     (case tm_phase s p of Exchanging req d \<Rightarrow> Some (logged d tr (tm_go p (Leaving TokenFailed) s)) | _ \<Rightarrow> None)"
| "tm_next host locker s (Persist p ok) =
     (case tm_phase s p of Persisting req d \<Rightarrow> Some (persistRefreshedToken p ok req d s) | _ \<Rightarrow> None)"
| "tm_next host locker s (Drop p ok) = (case tm_phase s p of Clearing e \<Rightarrow> Some (drop_token p ok e s) | _ \<Rightarrow> None)"
| "tm_next host locker s (Release p l) =
     (case tm_phase s p of
        Leaving r \<Rightarrow> (if lets_go p l then map_option (\<lambda>lk. lock_left p r lk s) (lock_next (tm_lock s) l) else None)
      | _ \<Rightarrow> None)"
| "tm_next host locker s (Unlocked p) = (case tm_phase s p of Leaving r \<Rightarrow> guarded (\<not> locker) (tm_go p (Finished r) s) | _ \<Rightarrow> None)"
| "tm_next host locker s (Crash p) = guarded (running (tm_phase s p)) (tm_go p (Crashed (tm_phase s p)) s)"
| "tm_next host locker s (SaveToken d) = Some (s\<lparr>stored := Some d, seen := RefreshToken d # seen s\<rparr>)"
| "tm_next host locker s ClearToken = Some (s\<lparr>stored := None\<rparr>)"
| "tm_next host locker s (Later t) = map_option (\<lambda>lk. s\<lparr>tm_lock := lk\<rparr>) (lock_next (tm_lock s) (Wait t))"

lemma tm_next_sound: "tm_next host locker s l = Some s' \<Longrightarrow> tm_step host locker s l s'"
  by (cases l)
    (auto simp del: lock_next.simps split: tm_phase.splits if_splits intro: tm_step.intros dest: lock_next_sound)

fun tm_play :: "string \<Rightarrow> bool \<Rightarrow> (tm_state \<Rightarrow> tm_label \<Rightarrow> bool) \<Rightarrow> tm_state \<Rightarrow> tm_label list \<Rightarrow> tm_state option" where
  "tm_play host locker law s [] = Some s"
| "tm_play host locker law s (l # ls) =
     (if law s l then Option.bind (tm_next host locker s l) (\<lambda>t. tm_play host locker law t ls) else None)"

lemma tm_play_run: "tm_play host locker law t ls = Some u \<Longrightarrow> tm_run host locker law s t \<Longrightarrow> tm_run host locker law s u"
proof (induction ls arbitrary: t)
  case (Cons l ls)
  then obtain t' where "law t l" "tm_next host locker t l = Some t'" "tm_play host locker law t' ls = Some u"
    by (auto split: if_splits simp: bind_eq_Some_conv)
  then show ?case using Cons tm_more tm_next_sound by blast
qed simp

text \<open>A run with a property, from its evaluation.\<close>

lemma tm_play_exists:
  assumes "case tm_play host locker law s ls of Some t \<Rightarrow> P t | None \<Rightarrow> False"
  shows "\<exists>t. tm_run host locker law s t \<and> P t"
proof -
  from assms obtain t where "tm_play host locker law s ls = Some t" "P t" by (auto split: option.splits)
  then show ?thesis using tm_play_run tm_refl by blast
qed

section \<open>Invariants\<close>

text \<open>A crashed process holds what it held.\<close>

fun in_lock :: "tm_phase \<Rightarrow> bool" where
  "in_lock (Locked r) = True"
| "in_lock (Exchanging r d) = True"
| "in_lock (Persisting r d) = True"
| "in_lock (Clearing e) = True"
| "in_lock (Leaving r) = True"
| "in_lock (Crashed ph) = in_lock ph"
| "in_lock ph = False"

definition inside_lock :: "lock_state \<Rightarrow> pid \<Rightarrow> bool" where
  "inside_lock lk p = (lock_phase lk p \<in> {Opened, Inside, OwnMark})"

definition held_inv :: "tm_state \<Rightarrow> bool" where
  "held_inv s = (lock_inv (tm_lock s) \<and> (\<forall>p. in_lock (tm_phase s p) \<longrightarrow> inside_lock (tm_lock s) p))"

lemma not_in_lock [simp]:
  "\<not> in_lock (begin_get now d)" "\<not> in_lock (begin_refresh d)" "\<not> in_lock (begin_drop e)"
  by (simp_all add: begin_get_def begin_refresh_def begin_drop_def split: option.split)

lemma go_fields [simp]:
  "stored (tm_go p ph s) = stored s" "tm_lock (tm_go p ph s) = tm_lock s" "exchanged (tm_go p ph s) = exchanged s"
  "dropped (tm_go p ph s) = dropped s" "seen (tm_go p ph s) = seen s" "tm_clock (tm_go p ph s) = tm_clock s"
  "tm_phase (tm_go p ph s) q = (if q = p then ph else tm_phase s q)"
  by (simp_all add: tm_go_def tm_clock_def)

lemma held_inv_go: "held_inv s \<Longrightarrow> \<not> in_lock ph \<or> in_lock (tm_phase s p) \<Longrightarrow> held_inv (tm_go p ph s)"
  by (auto simp: held_inv_def)

lemma held_inv_fields: "held_inv s \<Longrightarrow> tm_phase s' = tm_phase s \<Longrightarrow> tm_lock s' = tm_lock s \<Longrightarrow> held_inv s'"
  by (simp add: held_inv_def)

text \<open>An operation on the lock file changes the state of its process only.\<close>

lemma lock_step_others:
  assumes "lock_step s l s'" "acquires p l \<or> lets_go p l" "q \<noteq> p"
  shows "lock_phase s' q = lock_phase s q"
  using assms(1)
  by (rule lock_step_cases)
    (use assms(2,3) in \<open>auto simp: acquires_def lets_go_def open_lock_def write_mark_def inspect_lock_def rename_stale_def
      read_mark_def remove_lock_def set_phase_def Let_def split: option.splits\<close>)

lemma inside_lock_others:
  "lock_step s l s' \<Longrightarrow> acquires p l \<or> lets_go p l \<Longrightarrow> q \<noteq> p \<Longrightarrow> inside_lock s' q = inside_lock s q"
  by (simp add: inside_lock_def lock_step_others)

lemma held_inv_entered:
  assumes "held_inv s" "timely (tm_lock s)" "lock_step (tm_lock s) l lk" "acquires p l"
  shows "held_inv (lock_entered p req lk s)"
proof -
  have "lock_inv lk" using lock_inv_step[OF assms(3,2)] assms(1) by (simp add: held_inv_def)
  moreover have "inside_lock lk q" if "q \<noteq> p" "in_lock (tm_phase s q)" for q
    using that assms(1,4) inside_lock_others[OF assms(3), of p q] by (simp add: held_inv_def)
  ultimately show ?thesis
    by (auto simp: held_inv_def lock_entered_def tm_go_def inside_lock_def split: lock_phase.split)
qed

lemma held_inv_left:
  assumes "held_inv s" "timely (tm_lock s)" "lock_step (tm_lock s) l lk" "lets_go p l"
  shows "held_inv (lock_left p r lk s)"
proof -
  have "lock_inv lk" using lock_inv_step[OF assms(3,2)] assms(1) by (simp add: held_inv_def)
  moreover have "inside_lock lk q" if "q \<noteq> p" "in_lock (tm_phase s q)" for q
    using that assms(1,4) inside_lock_others[OF assms(3), of p q] by (simp add: held_inv_def)
  moreover have "lock_phase lk p = Returned \<or> inside_lock lk p"
    using assms(3)
    by (rule lock_step_cases)
      (use assms(4) in \<open>auto simp: lets_go_def inside_lock_def read_mark_def remove_lock_def set_phase_def split: option.splits\<close>)
  ultimately show ?thesis by (auto simp: held_inv_def lock_left_def tm_go_def)
qed

lemma held_inv_wait:
  assumes "held_inv s" "timely (tm_lock s)" "lock_step (tm_lock s) (Wait t) lk"
  shows "held_inv (s\<lparr>tm_lock := lk\<rparr>)"
proof -
  have "lock_inv lk" using lock_inv_step[OF assms(3,2)] assms(1) by (simp add: held_inv_def)
  moreover have "lock_phase lk = lock_phase (tm_lock s)" using assms(3) by (auto elim: lock_step_cases)
  ultimately show ?thesis using assms(1) by (simp add: held_inv_def inside_lock_def)
qed

lemma held_inv_trying:
  assumes "held_inv s" "\<not> in_lock (tm_phase s p)" "ph \<notin> {Opened, Inside, OwnMark}" "\<forall>d. ph \<noteq> FoundStale d"
  shows "held_inv (s\<lparr>tm_lock := set_phase p ph (tm_lock s)\<rparr>)"
  using assms lock_inv_set[of "tm_lock s" p ph] by (auto simp: held_inv_def inside_lock_def set_phase_def)

lemma held_inv_begin:
  assumes "held_inv s" "tm_phase s p = AtRest" "\<not> in_lock ph"
  shows "held_inv (withRefreshLock True p ph s)"
proof (cases "\<exists>req. ph = Waiting req")
  case True
  then obtain req where "ph = Waiting req" by blast
  then have "withRefreshLock True p ph s = tm_go p ph (s\<lparr>tm_lock := set_phase p (Trying (tm_clock s + refreshLockWait)) (tm_lock s)\<rparr>)"
    by (simp add: withRefreshLock_def)
  moreover have "held_inv (s\<lparr>tm_lock := set_phase p (Trying (tm_clock s + refreshLockWait)) (tm_lock s)\<rparr>)"
    using assms by (intro held_inv_trying) simp_all
  ultimately show ?thesis using assms(3) held_inv_go by simp
next
  case False
  then have "withRefreshLock True p ph s = tm_go p ph s" by (simp add: withRefreshLock_def split: tm_phase.split)
  then show ?thesis using assms held_inv_go by simp
qed

lemma held_inv_refused: "held_inv s \<Longrightarrow> tm_phase s p = Waiting req \<Longrightarrow> held_inv (lock_refused p s)"
  using held_inv_go[OF held_inv_trying[of s p Returned], of "Finished TokenFailed" p] by (simp add: lock_refused_def)

lemma held_inv_step:
  assumes "tm_step host True s l s'" "timely (tm_lock s)" "held_inv s"
  shows "held_inv s'"
  using assms(1)
proof (rule tm_step_cases)
  fix p req d response assume *: "tm_phase s p = Exchanging req d" "s' = do_exchange p req d response s"
  have "held_inv (tm_go p (exchanged_phase (tm_clock s) req d response) s)" using assms(3) * by (simp add: held_inv_go)
  then show "held_inv s'" unfolding *(2) do_exchange_def Let_def logged_def by (auto elim: held_inv_fields split: option.split)
next
  fix p req d tr assume *: "tm_phase s p = Exchanging req d" "s' = logged d tr (tm_go p (Leaving TokenFailed) s)"
  have "held_inv (tm_go p (Leaving TokenFailed) s)" using assms(3) * by (simp add: held_inv_go)
  then show "held_inv s'" unfolding *(2) logged_def by (auto elim: held_inv_fields)
next
  fix p req d ok assume *: "tm_phase s p = Persisting req d" "s' = persistRefreshedToken p ok req d s"
  have "held_inv (if ok then s\<lparr>stored := Some d\<rparr> else s)" using assms(3) by (auto elim: held_inv_fields)
  then show "held_inv s'" unfolding *(2) persistRefreshedToken_def by (rule held_inv_go) (simp add: *(1))
next
  fix p e ok assume *: "tm_phase s p = Clearing e" "s' = drop_token p ok e s"
  have "held_inv (s\<lparr>stored := None, dropped := dropped s @ [(e, stored s)]\<rparr>)" using assms(3) by (auto elim: held_inv_fields)
  then show "held_inv s'" unfolding *(2) drop_token_def using assms(3) * by (auto intro!: held_inv_go)
next
  fix p r l' lk assume "lets_go p l'" "lock_step (tm_lock s) l' lk" "s' = lock_left p r lk s"
  then show "held_inv s'" using held_inv_left assms(2,3) by blast
next
  fix p req l' lk assume "acquires p l'" "lock_step (tm_lock s) l' lk" "s' = lock_entered p req lk s"
  then show "held_inv s'" using held_inv_entered assms(2,3) by blast
next
  fix t lk assume "lock_step (tm_lock s) (Wait t) lk" "s' = s\<lparr>tm_lock := lk\<rparr>"
  then show "held_inv s'" using held_inv_wait assms(2,3) by blast
next
  fix p req assume "tm_phase s p = Waiting req" "s' = lock_refused p s"
  then show "held_inv s'" using held_inv_refused assms(3) by blast
next
  fix p assume "running (tm_phase s p)" "s' = tm_go p (Crashed (tm_phase s p)) s"
  then show "held_inv s'" using held_inv_go[OF assms(3), of "Crashed (tm_phase s p)" p] by auto
qed (use assms(3) in \<open>auto intro: held_inv_go held_inv_begin elim: held_inv_fields\<close>)

text \<open>
  What has been exchanged is used up.  A refresh token that is about to be exchanged or stored is not, and the
  one in the store is not either, except while its replacement is on its way to the store, or was when the process crashed.
\<close>

definition used :: "tm_state \<Rightarrow> string set" where
  "used s = fst ` set (exchanged s)"

fun pending :: "tm_phase \<Rightarrow> TokenData option" where
  "pending (Exchanging r d) = Some d"
| "pending (Persisting r d) = Some d"
| "pending (Crashed ph) = pending ph"
| "pending ph = None"

fun is_persisting :: "tm_phase \<Rightarrow> bool" where
  "is_persisting (Persisting r d) = True"
| "is_persisting (Crashed ph) = is_persisting ph"
| "is_persisting ph = False"

definition unused :: "tm_state \<Rightarrow> TokenData \<Rightarrow> bool" where
  "unused s d = (RefreshToken d \<notin> used s \<and> RefreshToken d \<in> set (seen s))"

definition fresh_inv :: "tm_state \<Rightarrow> bool" where
  "fresh_inv s =
     (distinct (map fst (exchanged s)) \<and> used s \<subseteq> set (seen s) \<and>
      (\<forall>p d. pending (tm_phase s p) = Some d \<longrightarrow> unused s d) \<and>
      (\<forall>d. stored s = Some d \<longrightarrow> RefreshToken d \<in> set (seen s)) \<and>
      (\<forall>d. stored s = Some d \<longrightarrow> unused s d \<or> (\<exists>p. is_persisting (tm_phase s p))))"

definition once_inv :: "tm_state \<Rightarrow> bool" where
  "once_inv s = (held_inv s \<and> fresh_inv s)"

lemma held_inv_start: "held_inv (tm_start d now)"
  by (simp add: held_inv_def tm_start_def lock_inv_def)

lemma once_inv_start: "once_inv (tm_start d now)"
  using held_inv_start by (auto simp: once_inv_def fresh_inv_def tm_start_def used_def unused_def split: option.split)

lemma unused_go [simp]: "unused (tm_go p ph s) = unused s" "used (tm_go p ph s) = used s"
  by (simp_all add: unused_def used_def tm_go_def fun_eq_iff)

text \<open>Going to a phase that holds back nothing, or only the token in the store.\<close>

lemma fresh_inv_go:
  assumes inv: "fresh_inv s" and p: "is_persisting (tm_phase s p) \<Longrightarrow> is_persisting ph"
    and ph: "\<And>d. pending ph = Some d \<Longrightarrow> unused s d"
  shows "fresh_inv (tm_go p ph s)"
proof -
  have "(\<exists>q. is_persisting (tm_phase s q)) \<longrightarrow> (\<exists>q. is_persisting (tm_phase (tm_go p ph s) q))"
    using p by (metis go_fields(7))
  then have "\<forall>d. stored s = Some d \<longrightarrow> unused s d \<or> (\<exists>q. is_persisting (tm_phase (tm_go p ph s) q))"
    using inv unfolding fresh_inv_def by blast
  moreover have "\<forall>q d. pending (tm_phase (tm_go p ph s) q) = Some d \<longrightarrow> unused s d"
    using inv ph unfolding fresh_inv_def by simp
  ultimately show ?thesis using inv unfolding fresh_inv_def unused_go go_fields(1-6) by blast
qed

lemma fresh_inv_lock [simp]: "fresh_inv (s\<lparr>tm_lock := lk\<rparr>) = fresh_inv s"
  by (simp add: fresh_inv_def unused_def used_def)

lemma unused_lock [simp]: "unused (s\<lparr>tm_lock := lk\<rparr>) = unused s"
  by (simp add: unused_def used_def fun_eq_iff)

lemma fresh_inv_seen:
  assumes "fresh_inv s" "exchanged s' = exchanged s" "tm_phase s' = tm_phase s"
    and "set (seen s) \<subseteq> set (seen s')"
    and "stored s' = stored s \<or> stored s' = None \<or> (\<exists>d. stored s' = Some d \<and> unused s' d)"
  shows "fresh_inv s'"
proof -
  have u: "used s' = used s" by (simp add: used_def assms(2))
  have "unused s' d" if "unused s d" for d using that assms(4) by (auto simp: unused_def u)
  then show ?thesis using assms unfolding fresh_inv_def u by (auto simp: unused_def)
qed

lemma pending_begin [simp]:
  "pending (begin_get now d) = None" "pending (begin_refresh d) = None" "pending (begin_drop e) = None"
  by (simp_all add: begin_get_def begin_refresh_def begin_drop_def split: option.split)

lemma fresh_inv_begin:
  "fresh_inv s \<Longrightarrow> tm_phase s p = AtRest \<Longrightarrow> pending ph = None \<Longrightarrow> fresh_inv (withRefreshLock locker p ph s)"
  by (auto simp: withRefreshLock_def intro!: fresh_inv_go split: tm_phase.split)

lemma pending_locked: "pending (locked_phase host now req d) = Some t \<Longrightarrow> d = Some t"
  by (auto simp: locked_phase_def split: tm_request.splits option.splits if_splits)

lemma others_not_inside: "held_inv s \<Longrightarrow> in_lock (tm_phase s p) \<Longrightarrow> q \<noteq> p \<Longrightarrow> \<not> in_lock (tm_phase s q)"
  using lock_inv_one[of "tm_lock s" p q] by (auto simp: held_inv_def inside_lock_def)

lemma persisting_in_lock: "is_persisting ph \<Longrightarrow> in_lock ph" "pending ph = Some d \<Longrightarrow> in_lock ph"
  by (induction ph) simp_all

lemma fresh_inv_exchange:
  assumes held: "held_inv s" and inv: "fresh_inv s" and ph: "tm_phase s p = Exchanging req d"
    and new: "trRefresh tr \<noteq> []" "trRefresh tr \<notin> set (seen s)"
  shows "fresh_inv (do_exchange p req d (Some tr) s)"
proof (cases "trAccess tr = []")
  case True
  then have "do_exchange p req d (Some tr) s = tm_go p (Leaving TokenFailed) s"
    by (simp add: do_exchange_def exchanged_phase_def)
  with fresh_inv_go[OF inv, of p "Leaving TokenFailed"] ph show ?thesis by simp
next
  case False
  let ?d' = "refreshed_data (tm_clock s) d tr" and ?s' = "do_exchange p req d (Some tr) s"
  have s': "?s' = (tm_go p (Persisting req ?d') s)\<lparr>exchanged := exchanged s @ [(RefreshToken d, ?d')], seen := RefreshToken ?d' # seen s\<rparr>"
    using False by (simp add: do_exchange_def exchanged_phase_def logged_def)
  have rt: "RefreshToken ?d' = trRefresh tr" using new(1) by (simp add: refreshed_data_def)
  have old: "unused s d" using inv ph unfolding fresh_inv_def by (metis pending.simps(1))
  have used': "used ?s' = insert (RefreshToken d) (used s)" by (simp add: s' used_def)
  have sub: "used s \<subseteq> set (seen s)" using inv by (simp add: fresh_inv_def)
  have fresh: "unused ?s' ?d'" using new(2) sub old unfolding unused_def used' rt by (auto simp: s' rt)
  have others: "pending (tm_phase s q) = None" if "q \<noteq> p" for q
    using others_not_inside[OF held, of p q] persisting_in_lock(2)[of "tm_phase s q"] ph that
    by (metis in_lock.simps(2) not_None_eq)
  have "\<forall>q e. pending (tm_phase ?s' q) = Some e \<longrightarrow> unused ?s' e"
    using others fresh by (auto simp: s')
  moreover have "distinct (map fst (exchanged ?s'))"
    using inv old by (auto simp: fresh_inv_def s' unused_def used_def)
  moreover have "used ?s' \<subseteq> set (seen ?s')" using sub old unfolding used' unused_def by (auto simp: s')
  moreover have "\<forall>e. stored ?s' = Some e \<longrightarrow> RefreshToken e \<in> set (seen ?s')"
    using inv by (simp add: fresh_inv_def s')
  moreover have "is_persisting (tm_phase ?s' p)" by (simp add: s')
  ultimately show ?thesis unfolding fresh_inv_def by blast
qed

lemma fresh_inv_persisted:
  assumes "fresh_inv s" "tm_phase s p = Persisting req d"
  shows "fresh_inv (persistRefreshedToken p True req d s)"
proof -
  have s': "persistRefreshedToken p True req d s = tm_go p (Leaving (refresh_result req d)) (s\<lparr>stored := Some d\<rparr>)"
    by (simp add: persistRefreshedToken_def)
  have d: "unused s d" using assms unfolding fresh_inv_def by (metis pending.simps(2))
  have "unused (s\<lparr>stored := Some d\<rparr>) = unused s" "used (s\<lparr>stored := Some d\<rparr>) = used s"
    by (simp_all add: unused_def used_def fun_eq_iff)
  moreover have "RefreshToken d \<in> set (seen s)" using d by (simp add: unused_def)
  ultimately show ?thesis using assms d unfolding s' fresh_inv_def by simp
qed

lemma settled:
  assumes "once_inv s" "stored s = Some d" "tm_phase s p = Locked req"
  shows "unused s d"
proof -
  have "\<not> is_persisting (tm_phase s q)" for q
  proof (cases "q = p")
    case False
    then have "\<not> in_lock (tm_phase s q)" using others_not_inside[of s p q] assms(1,3) by (simp add: once_inv_def)
    then show ?thesis using persisting_in_lock(1) by blast
  qed (simp add: assms(3))
  then show ?thesis using assms(1,2) unfolding once_inv_def fresh_inv_def by blast
qed

lemma fresh_inv_entered:
  "fresh_inv s \<Longrightarrow> tm_phase s p = Waiting req \<Longrightarrow> fresh_inv (lock_entered p req lk s)"
  by (auto simp: lock_entered_def intro!: fresh_inv_go split: lock_phase.splits)

lemma fresh_inv_left: "fresh_inv s \<Longrightarrow> tm_phase s p = Leaving r \<Longrightarrow> fresh_inv (lock_left p r lk s)"
  by (auto simp: lock_left_def intro!: fresh_inv_go split: if_splits)

lemma fresh_inv_step:
  assumes "tm_step host True s l s'" "rotates s l" "once_inv s"
  shows "fresh_inv s'"
proof -
  have inv: "fresh_inv s" using assms(3) by (simp add: once_inv_def)
  from assms(1) show ?thesis
  proof (rule tm_step_cases)
    fix p req assume *: "tm_phase s p = Locked req" "s' = tm_go p (locked_phase host (tm_clock s) req (stored s)) s"
    show ?thesis unfolding *(2)
      by (rule fresh_inv_go[OF inv]) (use *(1) pending_locked settled[OF assms(3) _ *(1)] in auto)
  next
    fix p req d response assume *: "l = Exchange p response" "tm_phase s p = Exchanging req d" "s' = do_exchange p req d response s"
    show ?thesis
    proof (cases response)
      case None
      then have "s' = tm_go p (Leaving TokenFailed) s" using * by (simp add: do_exchange_def exchanged_phase_def)
      then show ?thesis using *(2) by (auto intro!: fresh_inv_go[OF inv])
    next
      case (Some tr)
      then show ?thesis using fresh_inv_exchange[OF _ inv *(2), of tr] assms(2,3) * by (simp add: rotates_def once_inv_def)
    qed
  next
    fix p req d ok assume *: "l = Persist p ok" "tm_phase s p = Persisting req d" "s' = persistRefreshedToken p ok req d s"
    have "ok" using assms(2) *(1) by (simp add: rotates_def)
    then show ?thesis using fresh_inv_persisted[OF inv *(2)] *(3) by simp
  next
    fix p e ok assume *: "tm_phase s p = Clearing e" "s' = drop_token p ok e s"
    have "fresh_inv (s\<lparr>stored := None, dropped := dropped s @ [(e, stored s)]\<rparr>)"
      by (rule fresh_inv_seen[OF inv]) simp_all
    then show ?thesis using * inv by (auto simp: drop_token_def intro!: fresh_inv_go)
  next
    fix d assume *: "l = SaveToken d" "s' = s\<lparr>stored := Some d, seen := RefreshToken d # seen s\<rparr>"
    have "RefreshToken d \<notin> used s" using assms(2) inv *(1) by (auto simp: rotates_def fresh_inv_def)
    then have "unused s' d" using *(2) by (simp add: unused_def used_def)
    then show ?thesis by (intro fresh_inv_seen[OF inv]) (auto simp: *(2))
  next
    assume "s' = s\<lparr>stored := None\<rparr>"
    then show ?thesis by (intro fresh_inv_seen[OF inv]) simp_all
  next
    fix p req d tr assume "l = ReplyLost p tr" then show ?thesis using assms(2) by (simp add: rotates_def)
  next
    fix p assume *: "s' = tm_go p (Crashed (tm_phase s p)) s"
    show ?thesis unfolding * by (rule fresh_inv_go[OF inv]) (use inv in \<open>auto simp: fresh_inv_def\<close>)
  next
    fix p req assume "tm_phase s p = Waiting req" "s' = lock_refused p s"
    then show ?thesis using inv by (auto simp: lock_refused_def intro!: fresh_inv_go)
  qed (use inv in \<open>auto intro!: fresh_inv_begin fresh_inv_entered fresh_inv_left fresh_inv_go\<close>)
qed

lemma once_inv_step: "tm_step host True s l s' \<Longrightarrow> orderly s l \<Longrightarrow> once_inv s \<Longrightarrow> once_inv s'"
  using fresh_inv_step held_inv_step by (auto simp: once_inv_def orderly_def)

text \<open>Without a login or logout in between, the token that is cleared is the rejected one.\<close>

definition no_login :: "tm_state \<Rightarrow> tm_label \<Rightarrow> bool" where
  "no_login s l = (case l of SaveToken d \<Rightarrow> False | ClearToken \<Rightarrow> False | _ \<Rightarrow> timely (tm_lock s))"

definition holds_token :: "TokenData option \<Rightarrow> string \<Rightarrow> bool" where
  "holds_token d e = (case d of None \<Rightarrow> False | Some t \<Rightarrow> AccessToken t = e)"

definition drop_inv :: "tm_state \<Rightarrow> bool" where
  "drop_inv s =
     (held_inv s \<and> (\<forall>p e. tm_phase s p = Clearing e \<longrightarrow> holds_token (stored s) e) \<and>
      list_all (\<lambda>(e, d). holds_token d e) (dropped s))"

lemma drop_inv_start: "drop_inv (tm_start d now)"
  using held_inv_start by (simp add: drop_inv_def tm_start_def)

lemma not_clearing [simp]:
  "begin_get now d \<noteq> Clearing e" "begin_refresh d \<noteq> Clearing e" "begin_drop x \<noteq> Clearing e"
  "exchanged_phase now req t response \<noteq> Clearing e"
  by (simp_all add: begin_get_def begin_refresh_def begin_drop_def exchanged_phase_def split: option.split)

lemma locked_clearing: "locked_phase host now req d = Clearing e \<Longrightarrow> holds_token d e"
  by (auto simp: locked_phase_def holds_token_def split: tm_request.splits option.splits if_splits)

lemma begin_keeps:
  "(\<And>x. ph \<noteq> Clearing x) \<Longrightarrow> tm_phase (withRefreshLock locker p ph s) q = Clearing e \<Longrightarrow> tm_phase s q = Clearing e"
  "stored (withRefreshLock locker p ph s) = stored s" "dropped (withRefreshLock locker p ph s) = dropped s"
  by (auto simp: withRefreshLock_def split: tm_phase.splits if_splits)

lemma lock_keeps:
  "tm_phase (lock_entered p req lk s) q = Clearing e \<Longrightarrow> tm_phase s q = Clearing e"
  "tm_phase (lock_left p r lk s) q = Clearing e \<Longrightarrow> tm_phase s q = Clearing e"
  "stored (lock_entered p req lk s) = stored s" "dropped (lock_entered p req lk s) = dropped s"
  "stored (lock_left p r lk s) = stored s" "dropped (lock_left p r lk s) = dropped s"
  by (auto simp: lock_entered_def lock_left_def split: if_splits lock_phase.splits)

lemma drop_inv_step:
  assumes "tm_step host True s l s'" "no_login s l" "drop_inv s"
  shows "drop_inv s'"
proof -
  have held: "held_inv s'"
    using held_inv_step[OF assms(1)] assms(2,3) by (auto simp: drop_inv_def no_login_def split: tm_label.splits)
  have alone: "tm_phase s q \<noteq> Clearing e" if "in_lock (tm_phase s p)" "q \<noteq> p" for p q e
    using others_not_inside[of s p q] assms(3) that by (auto simp: drop_inv_def)
  have old: "holds_token (stored s) e" if "tm_phase s p = Clearing e" for p e
    using assms(3) that by (simp add: drop_inv_def)
  have log: "list_all (\<lambda>(e, d). holds_token d e) (dropped s)" using assms(3) by (simp add: drop_inv_def)
  have keep: "drop_inv s'"
    if "dropped s' = dropped s" "stored s' = stored s"
      "\<And>p e. tm_phase s' p = Clearing e \<Longrightarrow> tm_phase s p = Clearing e \<or> holds_token (stored s) e"
    using that held log old unfolding drop_inv_def by metis
  have begun: "drop_inv s'" if ph: "\<And>x. ph \<noteq> Clearing x" and s': "s' = withRefreshLock True p ph s" for p ph
  proof (rule keep)
    show "dropped s' = dropped s" "stored s' = stored s" by (simp_all add: s' begin_keeps)
    fix q e assume "tm_phase s' q = Clearing e"
    with begin_keeps(1)[OF ph] show "tm_phase s q = Clearing e \<or> holds_token (stored s) e" unfolding s' by blast
  qed
  from assms(1) show ?thesis
  proof (rule tm_step_cases)
    fix p req assume *: "tm_phase s p = Locked req" "s' = tm_go p (locked_phase host (tm_clock s) req (stored s)) s"
    show ?thesis by (rule keep) (use * locked_clearing in \<open>auto split: if_splits\<close>)
  next
    fix p req d response assume *: "tm_phase s p = Exchanging req d" "s' = do_exchange p req d response s"
    show ?thesis
      by (rule keep) (auto simp: *(2) do_exchange_def logged_def Let_def tm_go_def split: option.splits if_splits)
  next
    fix p req d tr assume *: "s' = logged d tr (tm_go p (Leaving TokenFailed) s)"
    show ?thesis by (rule keep) (auto simp: * logged_def tm_go_def split: if_splits)
  next
    fix p req d ok assume *: "tm_phase s p = Persisting req d" "s' = persistRefreshedToken p ok req d s"
    have "tm_phase s' q \<noteq> Clearing e" for q e
      using alone[of p q e] * by (auto simp: persistRefreshedToken_def tm_go_def)
    moreover have "dropped s' = dropped s" using *(2) by (simp add: persistRefreshedToken_def)
    ultimately show ?thesis using held log by (simp add: drop_inv_def)
  next
    fix p e ok assume *: "tm_phase s p = Clearing e" "s' = drop_token p ok e s"
    show ?thesis
    proof (cases ok)
      case True
      have "tm_phase s' q \<noteq> Clearing e'" for q e'
        using alone[of p q e'] * True by (auto simp: drop_token_def tm_go_def)
      moreover have "dropped s' = dropped s @ [(e, stored s)]" using *(2) True by (simp add: drop_token_def)
      ultimately show ?thesis using held log old[OF *(1)] by (simp add: drop_inv_def)
    next
      case False
      show ?thesis by (rule keep) (use * False in \<open>auto simp: drop_token_def split: if_splits\<close>)
    qed
  next
    fix d assume "l = SaveToken d" then show ?thesis using assms(2) by (simp add: no_login_def)
  next
    assume "l = ClearToken" then show ?thesis using assms(2) by (simp add: no_login_def)
  next
    fix p assume "s' = withRefreshLock True p (begin_get (tm_clock s) (stored s)) s"
    then show ?thesis by (rule begun[rotated]) simp
  next
    fix p assume "s' = withRefreshLock True p (begin_refresh (stored s)) s"
    then show ?thesis by (rule begun[rotated]) simp
  next
    fix p e assume "s' = withRefreshLock True p (begin_drop e) s"
    then show ?thesis by (rule begun[rotated]) simp
  next
    fix p req l' lk assume s': "s' = lock_entered p req lk s"
    show ?thesis by (rule keep) (auto simp: s' lock_keeps(3-) dest: lock_keeps(1))
  next
    fix p r l' lk assume s': "s' = lock_left p r lk s"
    show ?thesis by (rule keep) (auto simp: s' lock_keeps(3-) dest: lock_keeps(2))
  next
    fix p req assume s': "s' = lock_refused p s"
    show ?thesis by (rule keep) (auto simp: s' lock_refused_def split: if_splits)
  qed (rule keep; auto split: if_splits)+
qed

section \<open>Properties\<close>

lemma tm_run_inv:
  "tm_run host locker law s t \<Longrightarrow> (\<And>a l b. tm_step host locker a l b \<Longrightarrow> law a l \<Longrightarrow> I a \<Longrightarrow> I b) \<Longrightarrow> I s \<Longrightarrow> I t"
  by (induction rule: tm_run.induct) blast+

text \<open>
  C26.  A refresh token is exchanged at most once, with a store that has the lock file: under every interleaving of any
  number of processes that get, refresh or drop tokens and of their single operations on the lock file, with crashes at
  any point, logins, logouts and failures in between, no refresh token is given to the service successfully twice, and
  at most one process is between acquiring and releasing the lock.  This is under three conditions: the service
  rotates its refresh tokens and its replies arrive, refreshed tokens are persisted, and no lock file gets old enough to
  count as stale.  Without a lock, or with a takeover of the stale lock of a process that crashed, it fails
  (\<open>unlocked_store_exchanges_twice\<close>, \<open>crash_exchanges_twice\<close>).
\<close>

theorem refresh_token_used_once:
  assumes "tm_run host True orderly (tm_start d now) s"
  shows "distinct (map fst (exchanged s)) \<and> (\<exists>p. {q. in_lock (tm_phase s q)} \<subseteq> {p})"
proof -
  have inv: "once_inv s" by (rule tm_run_inv[where I = once_inv, OF assms once_inv_step once_inv_start])
  then have "in_lock (tm_phase s q) \<Longrightarrow> in_lock (tm_phase s r) \<Longrightarrow> q = r" for q r
    using others_not_inside by (auto simp: once_inv_def)
  then have "\<exists>p. {q. in_lock (tm_phase s q)} \<subseteq> {p}" by blast
  then show ?thesis using inv by (simp add: once_inv_def fresh_inv_def)
qed

definition demo_token :: "string \<Rightarrow> int \<Rightarrow> TokenData" where
  "demo_token n t = \<lparr>AccessToken = ''a'' @ n, RefreshToken = ''r'' @ n, ExpiresAt = t, ClientID = ''c''\<rparr>"

definition demo_reply :: "string \<Rightarrow> tokenResponse option" where
  "demo_reply n = Some \<lparr>trAccess = ''a'' @ n, trRefresh = ''r'' @ n, trExpiresIn = 60\<rparr>"

definition demo_start :: tm_state where "demo_start = tm_start (Some (demo_token ''1'' 5)) 10"

text \<open>Two processes find the token expired; the second one waits and takes what the first one stored.\<close>

definition demo_run :: "tm_label list" where
  "demo_run =
     [GetToken 1, GetToken 2, Lock 1 (Open 1), Lock 2 (Inspect 2), Lock 1 (Mark 1 True), Look 1, Exchange 1 (demo_reply ''2''),
      Persist 1 True, Release 1 (ReadMark 1), Release 1 (Remove 1), Lock 2 (Open 2), Lock 2 (Mark 2 True), Look 2,
      Release 2 (ReadMark 2), Release 2 (Remove 2)]"

definition demo_end :: "tm_state \<Rightarrow> bool" where
  "demo_end s =
     (map fst (exchanged s) = [''r1''] \<and> tm_phase s 1 = Finished (GotToken ''a2'') \<and> tm_phase s 2 = Finished (GotToken ''a2''))"

lemma demo_played: "\<exists>s. tm_run ''h'' True orderly demo_start s \<and> demo_end s"
proof -
  have "case tm_play ''h'' True orderly demo_start demo_run of Some s \<Rightarrow> demo_end s | None \<Rightarrow> False" by code_simp
  then show ?thesis by (rule tm_play_exists)
qed

theorem refresh_token_used_once_witness:
  "\<exists>s. tm_run ''h'' True orderly (tm_start (Some (demo_token ''1'' 5)) 10) s \<and> demo_end s \<and> distinct (map fst (exchanged s))"
proof -
  obtain s where s: "tm_run ''h'' True orderly (tm_start (Some (demo_token ''1'' 5)) 10) s" "demo_end s"
    using demo_played unfolding demo_start_def by blast
  from refresh_token_used_once[OF s(1)] s show ?thesis by blast
qed

text \<open>
  The conditions matter.  A store without a lock lets two processes exchange the same token; so does a lock that goes stale
  after its process crashed between the exchange and the saving.
\<close>

definition twice :: "tm_state \<Rightarrow> bool" where "twice s = (map fst (exchanged s) = [''r1'', ''r1''])"

lemma unlocked_store_exchanges_twice: "\<exists>s. tm_run ''h'' False orderly demo_start s \<and> twice s"
proof -
  have "case tm_play ''h'' False orderly demo_start
      [GetToken 1, GetToken 2, Look 1, Look 2, Exchange 1 (demo_reply ''2''), Exchange 2 (demo_reply ''3'')]
    of Some s \<Rightarrow> twice s | None \<Rightarrow> False" by code_simp
  then show ?thesis by (rule tm_play_exists)
qed

lemma crash_exchanges_twice: "\<exists>s. tm_run ''h'' True rotates demo_start s \<and> twice s"
proof -
  have "case tm_play ''h'' True rotates demo_start
      [GetToken 1, Lock 1 (Open 1), Lock 1 (Mark 1 True), Look 1, Exchange 1 (demo_reply ''2''), Crash 1, Later 600001,
       GetToken 2, Lock 2 (Inspect 2), Lock 2 (Rename 2), Lock 2 (Open 2), Lock 2 (Mark 2 True), Look 2,
       Exchange 2 (demo_reply ''3'')]
    of Some s \<Rightarrow> twice s | None \<Rightarrow> False" by code_simp
  then show ?thesis by (rule tm_play_exists)
qed

text \<open>A token is dropped only if it is the rejected one, as long as nobody logs in or out meanwhile and no lock gets stale.\<close>

lemma late_rejection_keeps_new_token:
  assumes "tm_run host True no_login (tm_start d now) s"
  shows "list_all (\<lambda>(e, t). holds_token t e) (dropped s)"
proof -
  have "drop_inv s" by (rule tm_run_inv[where I = drop_inv, OF assms drop_inv_step drop_inv_start])
  then show ?thesis by (simp add: drop_inv_def)
qed

text \<open>A login does not take the lock: the token it stores can be dropped for the one that was rejected before.\<close>

lemma login_dropped:
  "\<exists>s. tm_run ''h'' True (\<lambda>s l. True) demo_start s \<and> dropped s = [(''a1'', Some (demo_token ''2'' 0))] \<and> stored s = None"
proof -
  have "case tm_play ''h'' True (\<lambda>s l. True) demo_start
      [ClearTokenIfCurrent 1 ''a1'', Lock 1 (Open 1), Lock 1 (Mark 1 True), Look 1, SaveToken (demo_token ''2'' 0), Drop 1 True]
    of Some s \<Rightarrow> dropped s = [(''a1'', Some (demo_token ''2'' 0))] \<and> stored s = None | None \<Rightarrow> False" by code_simp
  then show ?thesis by (rule tm_play_exists)
qed

end
