(* ===== verification/Registry.thy ===== *)
theory Registry
  imports Prelude
begin

text \<open>
  \<open>pkg/framework/registry\<close>: the command tree a product describes (\<open>model.go\<close>, \<open>builtin_flags.go\<close>), the
  composition of several sources (\<open>setups.go\<close>), the validation rules (\<open>validator.go\<close>) and the registry
  built from a valid tree (\<open>registry.go\<close>).

  A pointer to a node is an option; the parent pointers of the built nodes are replaced by what the
  program reads through them, the full path and the inherited flags.  A nil pointer that the code
  dereferences is a panic.
\<close>

section \<open>Data\<close>

record FlagDef =
  flagName :: string
  Short :: string
  flagType :: string
  Required :: bool
  Default :: "string option"
  Enum :: "string list"
  flagHidden :: bool
  flagDescription :: string
  flagDeprecated :: string

record ArgDef =
  argName :: string
  argRequired :: bool
  Variadic :: bool
  argDescription :: string

record Example =
  exDescription :: string
  exCommand :: string

record HelpText =
  Brief :: string
  Long :: string
  TemplateVars :: "(string \<times> string) list"
  Examples :: "Example list"

record NodeMeta =
  metaHidden :: bool
  Dangerous :: bool
  metaDeprecated :: string
  Scope :: string
  CommandID :: string
  Source :: string
  metaRisk :: string
  ToolName :: string
  Tags :: "(string \<times> string) list"

datatype CommandNode =
  CommandNode (nodeName: string) (nodeAliases: "string list") (nodeHelp: HelpText) (nodeFlags: "FlagDef list")
    (nodeArgs: "ArgDef list") (nodeHandler: string) (nodeMeta: NodeMeta) (nodeChildren: "CommandNode option list")

record CommandTree =
  treeVersion :: string
  GlobalFlags :: "FlagDef list"
  Nodes :: "CommandNode option list"

datatype BuiltNode =
  BuiltNode (bnName: string) (bnAliases: "string list") (bnHelp: HelpText) (bnFlags: "FlagDef list")
    (bnArgs: "ArgDef list") (bnHandler: string) (bnMeta: NodeMeta) (bnPath: "string list")
    (bnInherited: "FlagDef list") (bnChildren: "BuiltNode list")

record ValidationError =
  vPath :: string
  vField :: string
  vRule :: string
  vSubject :: string

record ValidationResult =
  vErrors :: "ValidationError list"
  vWarnings :: "ValidationError list"

definition plain_flag :: "string \<Rightarrow> string \<Rightarrow> string \<Rightarrow> string list \<Rightarrow> string \<Rightarrow> FlagDef" where
  "plain_flag n short ty enum desc =
     \<lparr>flagName = n, Short = short, flagType = ty, Required = False, Default = None, Enum = enum,
      flagHidden = False, flagDescription = desc, flagDeprecated = []\<rparr>"

definition BuiltinFlags :: "FlagDef list" where
  "BuiltinFlags =
     [plain_flag ''set'' [] ''string-slice'' [] ''Set nested parameters using key=value, supports dot path.'',
      plain_flag ''params'' ''P'' ''string'' [] ''JSON object whose top-level keys are merged as CLI flags.'',
      plain_flag ''dry-run'' [] ''bool'' [] ''Render the normalized request without executing the backend.'',
      plain_flag ''format'' ''o'' ''string'' [''json'', ''ndjson'', ''table''] ''Output format. Default json.'',
      plain_flag ''select'' [] ''string'' [] ''Field projection; comma-separated dot paths, e.g. id,creator.email.'',
      plain_flag ''envelope'' [] ''bool'' [] ''Wrap result in {data, meta, error} envelope.'',
      plain_flag ''verbose'' ''v'' ''bool'' [] ''Show more columns in --format table.'',
      plain_flag ''auto-paginate'' [] ''bool'' []
        ''Automatically fetch and merge all pages when the response contains pagination signals (next_page_token or pagination.has_more).'']"

definition IsExecutable :: "CommandNode \<Rightarrow> bool" where
  "IsExecutable n = (TrimSpace (nodeHandler n) \<noteq> [])"

definition bnExecutable :: "BuiltNode \<Rightarrow> bool" where
  "bnExecutable n = (TrimSpace (bnHandler n) \<noteq> [])"

section \<open>Composing command sources\<close>

text \<open>A setup is given by what it returns: an error, or a tree that may be nil.\<close>

datatype setup_error = SetupFailed nat string | DuplicateRoot string

definition root_key :: "string \<Rightarrow> string" where
  "root_key name = ToLower (TrimSpace name)"

fun add_names :: "string list \<Rightarrow> string list \<Rightarrow> (setup_error, string list) result" where
  "add_names [] seen = Inr seen"
| "add_names (name # names) seen =
     (let key = root_key name in
      if key = [] then add_names names seen
      else if key \<in> set seen then Inl (DuplicateRoot name)
      else add_names names (key # seen))"

fun add_nodes ::
    "CommandNode option list \<Rightarrow> string list \<Rightarrow> (setup_error, CommandNode option list \<times> string list) result" where
  "add_nodes [] seen = Inr ([], seen)"
| "add_nodes (None # nodes) seen = add_nodes nodes seen"
| "add_nodes (Some n # nodes) seen =
     (case add_names (nodeName n # nodeAliases n) seen of
        Inl e \<Rightarrow> Inl e
      | Inr seen1 \<Rightarrow>
          (case add_nodes nodes seen1 of
             Inl e \<Rightarrow> Inl e
           | Inr (rest, seen2) \<Rightarrow> Inr (Some n # rest, seen2)))"

definition join_version :: "string \<Rightarrow> string \<Rightarrow> string" where
  "join_version v w = (if v = [] then w else if w \<noteq> [] then v @ ''+'' @ w else v)"

fun composite_loop ::
    "nat \<Rightarrow> (string, CommandTree option) result option list \<Rightarrow> CommandTree \<Rightarrow> string list \<Rightarrow>
     (setup_error, CommandTree) result" where
  "composite_loop i [] acc seen = Inr acc"
| "composite_loop i (None # setups) acc seen = composite_loop (Suc i) setups acc seen"
| "composite_loop i (Some (Inl e) # setups) acc seen = Inl (SetupFailed i e)"
| "composite_loop i (Some (Inr None) # setups) acc seen = composite_loop (Suc i) setups acc seen"
| "composite_loop i (Some (Inr (Some t)) # setups) acc seen =
     (case add_nodes (Nodes t) seen of
        Inl e \<Rightarrow> Inl e
      | Inr (nodes, seen') \<Rightarrow>
          composite_loop (Suc i) setups
            (acc\<lparr>treeVersion := join_version (treeVersion acc) (treeVersion t),
                 GlobalFlags := GlobalFlags acc @ GlobalFlags t,
                 Nodes := Nodes acc @ nodes\<rparr>) seen')"

definition CompositeSetup :: "(string, CommandTree option) result option list \<Rightarrow> (setup_error, CommandTree) result" where
  "CompositeSetup setups = composite_loop 0 setups \<lparr>treeVersion = [], GlobalFlags = [], Nodes = []\<rparr> []"

section \<open>Validation\<close>

text \<open>The pattern \<open>^\+?[a-z][a-z0-9-]*$\<close>.\<close>

definition commandNamePattern :: "string \<Rightarrow> bool" where
  "commandNamePattern s =
     (case TrimPrefix s ''+'' of [] \<Rightarrow> False
      | c # cs \<Rightarrow> is_lower c \<and> list_all (\<lambda>d. is_lower d \<or> is_digit d \<or> d = CHR ''-'') cs)"

definition protocolKeywords :: "string list" where
  "protocolKeywords = [''mcp'', ''json-rpc'', ''json_rpc'', ''tool_call'', ''tools/list'', ''tools/call'']"

definition verr :: "string \<Rightarrow> string \<Rightarrow> string \<Rightarrow> string \<Rightarrow> ValidationError" where
  "verr path field rule subject = \<lparr>vPath = path, vField = field, vRule = rule, vSubject = subject\<rparr>"

fun handler_refs :: "CommandNode \<Rightarrow> string list" and handler_refs_all :: "CommandNode option list \<Rightarrow> string list" where
  "handler_refs (CommandNode n al h fl ar hr me cs) =
     (let ref = TrimSpace hr in (if ref \<noteq> [] then [ref] else []) @ handler_refs_all cs)"
| "handler_refs_all [] = []"
| "handler_refs_all (None # cs) = handler_refs_all cs"
| "handler_refs_all (Some c # cs) = handler_refs c @ handler_refs_all cs"

text \<open>\<open>countHandlers\<close> counts the references; the map of counts is the list of all references.\<close>

definition countHandlers :: "CommandNode option list \<Rightarrow> string \<Rightarrow> nat" where
  "countHandlers nodes ref = length (filter (\<lambda>r. r = ref) (handler_refs_all nodes))"

definition leaked :: "string \<Rightarrow> string list" where
  "leaked text = (case find (Contains (ToLower text)) protocolKeywords of None \<Rightarrow> [] | Some kw \<Rightarrow> [kw])"

fun flag_errors :: "string \<Rightarrow> string list \<Rightarrow> string list \<Rightarrow> FlagDef list \<Rightarrow> ValidationError list" where
  "flag_errors path names shorts [] = []"
| "flag_errors path names shorts (f # fs) =
     (let nameKey = ToLower (flagName f); shortKey = ToLower (Short f); has_short = (TrimSpace (Short f) \<noteq> []) in
      (if nameKey \<in> set names then [verr path (flagName f) ''R_DUP_FLAG'' (flagName f)] else []) @
      (if nameKey \<in> set (map (\<lambda>b. ToLower (flagName b)) BuiltinFlags)
       then [verr path (flagName f) ''R_BUILTIN_FLAG_CONFLICT'' (flagName f)] else []) @
      (if Required f \<and> Default f \<noteq> None
       then [verr path (flagName f) ''R_REQUIRED_WITH_DEFAULT'' (flagName f)] else []) @
      (if has_short \<and> shortKey \<in> set shorts then [verr path (flagName f) ''R_SHORT_CONFLICT'' (Short f)] else []) @
      flag_errors path (nameKey # names) (if has_short then shortKey # shorts else shorts) fs)"

definition validateFlags :: "string \<Rightarrow> FlagDef list \<Rightarrow> ValidationError list" where
  "validateFlags path flags = flag_errors path [] [] flags"

fun validateArgs :: "string \<Rightarrow> ArgDef list \<Rightarrow> ValidationError list" where
  "validateArgs path [] = []"
| "validateArgs path (a # as) =
     (if Variadic a \<and> as \<noteq> [] then [verr path (argName a) ''R_VARIADIC_POSITION'' (argName a)] else []) @
     validateArgs path as"

fun conflict_errors :: "string \<Rightarrow> string list \<Rightarrow> string list \<Rightarrow> ValidationError list" where
  "conflict_errors path seen [] = []"
| "conflict_errors path seen (name # names) =
     (if ToLower name \<in> set seen then [verr path name ''R_CHILD_CONFLICT'' name] else []) @
     conflict_errors path (ToLower name # seen) names"

definition non_nil :: "'a option list \<Rightarrow> 'a list" where
  "non_nil xs = List.map_filter id xs"

definition node_names :: "CommandNode \<Rightarrow> string list" where
  "node_names c = nodeName c # nodeAliases c"

definition validateChildren :: "string \<Rightarrow> CommandNode option list \<Rightarrow> ValidationError list" where
  "validateChildren path children = conflict_errors path [] (concat (map node_names (non_nil children)))"

text \<open>The checks of one node: its errors and its warnings.\<close>

definition node_errors :: "string \<Rightarrow> CommandNode \<Rightarrow> ValidationError list" where
  "node_errors path n =
     (if TrimSpace (nodeName n) = [] then [verr path ''name'' ''R_NAME_REQUIRED'' []]
      else if \<not> commandNamePattern (nodeName n) then [verr path ''name'' ''R_NAME_FORMAT'' (nodeName n)] else []) @
     (if \<not> IsExecutable n \<and> nodeChildren n = [] then [verr path ''handler_ref'' ''R_DEAD_END'' []] else []) @
     (if TrimSpace (Brief (nodeHelp n)) = [] then [verr path ''help.brief'' ''R_MISSING_BRIEF'' (nodeName n)] else []) @
     validateFlags path (nodeFlags n) @ validateArgs path (nodeArgs n) @ validateChildren path (nodeChildren n)"

definition node_warnings :: "(string \<Rightarrow> nat) \<Rightarrow> string \<Rightarrow> CommandNode \<Rightarrow> ValidationError list" where
  "node_warnings count path n =
     (let ref = TrimSpace (nodeHandler n) in
      if ref \<noteq> [] \<and> count ref > 1 then [verr path ''handler_ref'' ''R_HANDLER_REUSE'' ref] else []) @
     concat (map (\<lambda>t. map (verr path ''help'' ''R_PROTOCOL_LEAK'') (leaked t)) [Brief (nodeHelp n), Long (nodeHelp n)]) @
     concat (map (\<lambda>ex. map (verr path ''help.examples'' ''R_PROTOCOL_LEAK'')
       (leaked (exDescription ex @ '' '' @ exCommand ex))) (Examples (nodeHelp n)))"

fun validateNode :: "(string \<Rightarrow> nat) \<Rightarrow> string list \<Rightarrow> CommandNode \<Rightarrow> ValidationError list \<times> ValidationError list"
  and validateNodes :: "(string \<Rightarrow> nat) \<Rightarrow> string list \<Rightarrow> CommandNode option list \<Rightarrow> ValidationError list \<times> ValidationError list"
  where
  "validateNode count path (CommandNode n al h fl ar hr me cs) =
     (let node = CommandNode n al h fl ar hr me cs; here = path @ [n]; p = Join ''.'' here;
          below = validateNodes count here cs
      in (node_errors p node @ fst below, node_warnings count p node @ snd below))"
| "validateNodes count path [] = ([], [])"
| "validateNodes count path (None # cs) = validateNodes count path cs"
| "validateNodes count path (Some c # cs) =
     (let one = validateNode count path c; rest = validateNodes count path cs
      in (fst one @ fst rest, snd one @ snd rest))"

definition ValidateTree :: "CommandTree option \<Rightarrow> ValidationResult" where
  "ValidateTree tree =
     (case tree of
        None \<Rightarrow> \<lparr>vErrors = [verr [] [] ''TREE_NIL'' []], vWarnings = []\<rparr>
      | Some t \<Rightarrow>
          (let r = validateNodes (countHandlers (Nodes t)) [] (Nodes t)
           in \<lparr>vErrors = fst r, vWarnings = snd r\<rparr>))"

section \<open>Building the registry\<close>

record Registry =
  regTree :: CommandTree
  regRoots :: "BuiltNode list"
  allNodes :: "BuiltNode list"

datatype registry_outcome =
    TreeNil
  | TreeInvalid ValidationResult
  | NilDereference
  | Built Registry

fun buildNode :: "FlagDef list \<Rightarrow> string list \<Rightarrow> CommandNode \<Rightarrow> BuiltNode option"
  and buildNodes :: "FlagDef list \<Rightarrow> string list \<Rightarrow> CommandNode option list \<Rightarrow> BuiltNode list option" where
  "buildNode inh path (CommandNode n al h fl ar hr me cs) =
     (case buildNodes (inh @ fl) (path @ [n]) cs of
        None \<Rightarrow> None
      | Some bs \<Rightarrow> Some (BuiltNode n al h fl ar hr me (path @ [n]) inh bs))"
| "buildNodes inh path [] = Some []"
| "buildNodes inh path (None # cs) = None"
| "buildNodes inh path (Some c # cs) =
     (case buildNode inh path c of
        None \<Rightarrow> None
      | Some b \<Rightarrow> (case buildNodes inh path cs of None \<Rightarrow> None | Some bs \<Rightarrow> Some (b # bs)))"

text \<open>The nodes in the order in which \<open>buildNode\<close> finishes them.\<close>

fun nodes_of :: "BuiltNode \<Rightarrow> BuiltNode list" where
  "nodes_of (BuiltNode n al h fl ar hr me p inh cs) =
     concat (map nodes_of cs) @ [BuiltNode n al h fl ar hr me p inh cs]"

definition New :: "CommandTree option \<Rightarrow> registry_outcome" where
  "New tree =
     (case tree of
        None \<Rightarrow> TreeNil
      | Some t \<Rightarrow>
          (let result = ValidateTree (Some t) in
           if vErrors result \<noteq> [] then TreeInvalid result
           else (case buildNodes [] [] (filter (\<lambda>n. n \<noteq> None) (Nodes t)) of
                   None \<Rightarrow> NilDereference
                 | Some roots \<Rightarrow>
                     Built \<lparr>regTree = t, regRoots = roots, allNodes = concat (map nodes_of roots)\<rparr>)))"

section \<open>Looking commands up\<close>

definition allNames :: "BuiltNode \<Rightarrow> string list" where
  "allNames b = ToLower (bnName b) # map ToLower (bnAliases b)"

text \<open>The child index: a name entered later overwrites an earlier one.\<close>

definition childIndex :: "BuiltNode list \<Rightarrow> string \<Rightarrow> BuiltNode option" where
  "childIndex cs key = map_of (rev (concat (map (\<lambda>c. map (\<lambda>n. (n, c)) (allNames c)) cs))) key"

fun resolve_loop :: "BuiltNode option \<Rightarrow> BuiltNode list \<Rightarrow> string list \<Rightarrow> BuiltNode option \<times> string list" where
  "resolve_loop current children [] = (current, [])"
| "resolve_loop current children (token # args) =
     (if HasPrefix token ''-'' then (current, token # args)
      else (case childIndex children (ToLower token) of
              None \<Rightarrow> (current, token # args)
            | Some next \<Rightarrow> resolve_loop (Some next) (bnChildren next) args))"

definition Resolve :: "Registry \<Rightarrow> string list \<Rightarrow> BuiltNode option \<times> string list" where
  "Resolve reg args = resolve_loop None (regRoots reg) args"

definition path_separator :: "char \<Rightarrow> bool" where
  "path_separator c = (c = CHR ''.'' \<or> c = CHR ''/'' \<or> c = CHR '' '')"

definition normalizePath :: "string \<Rightarrow> string" where
  "normalizePath path = ToLower (Join ''.'' (FieldsFunc path_separator path))"

definition GetByPath :: "Registry \<Rightarrow> string \<Rightarrow> BuiltNode option" where
  "GetByPath reg path =
     map_of (rev (map (\<lambda>b. (normalizePath (Join ''.'' (bnPath b)), b)) (allNodes reg))) (normalizePath path)"

definition ExecutableCommands :: "Registry \<Rightarrow> BuiltNode list" where
  "ExecutableCommands reg = filter bnExecutable (allNodes reg)"

text \<open>The index of \<open>dedupFlags\<close> is the position of the name in the list built so far.\<close>

definition flag_key :: "FlagDef \<Rightarrow> string" where
  "flag_key f = ToLower (flagName f)"

fun put_flag :: "FlagDef list \<Rightarrow> FlagDef \<Rightarrow> FlagDef list" where
  "put_flag [] f = [f]"
| "put_flag (g # gs) f = (if flag_key g = flag_key f then f # gs else g # put_flag gs f)"

definition dedupFlags :: "FlagDef list \<Rightarrow> FlagDef list" where
  "dedupFlags flags = fold (\<lambda>f ordered. put_flag ordered f) flags []"

definition AllFlagsForNode :: "Registry \<Rightarrow> BuiltNode option \<Rightarrow> FlagDef list" where
  "AllFlagsForNode reg node =
     (case node of
        None \<Rightarrow> BuiltinFlags
      | Some n \<Rightarrow> dedupFlags (BuiltinFlags @ GlobalFlags (regTree reg) @ bnInherited n @ bnFlags n))"

section \<open>What validation guarantees\<close>

definition flags_ok :: "FlagDef list \<Rightarrow> bool" where
  "flags_ok fs =
     (distinct (map flag_key fs) \<and>
      list_all (\<lambda>f. flag_key f \<notin> set (map flag_key BuiltinFlags) \<and> \<not> (Required f \<and> Default f \<noteq> None)) fs \<and>
      distinct (map (\<lambda>f. ToLower (Short f)) (filter (\<lambda>f. TrimSpace (Short f) \<noteq> []) fs)))"

definition args_ok :: "ArgDef list \<Rightarrow> bool" where
  "args_ok as = list_all (\<lambda>a. \<not> Variadic a) (butlast as)"

definition siblings_ok :: "CommandNode option list \<Rightarrow> bool" where
  "siblings_ok cs = distinct (map ToLower (concat (map node_names (non_nil cs))))"

definition node_ok :: "CommandNode \<Rightarrow> bool" where
  "node_ok n =
     (commandNamePattern (nodeName n) \<and> (IsExecutable n \<or> nodeChildren n \<noteq> []) \<and>
      TrimSpace (Brief (nodeHelp n)) \<noteq> [] \<and> flags_ok (nodeFlags n) \<and> args_ok (nodeArgs n) \<and>
      siblings_ok (nodeChildren n))"

fun well_formed :: "CommandNode \<Rightarrow> bool" and all_well_formed :: "CommandNode option list \<Rightarrow> bool" where
  "well_formed (CommandNode n al h fl ar hr me cs) =
     (node_ok (CommandNode n al h fl ar hr me cs) \<and> all_well_formed cs)"
| "all_well_formed [] = True"
| "all_well_formed (None # cs) = all_well_formed cs"
| "all_well_formed (Some c # cs) = (well_formed c \<and> all_well_formed cs)"

lemma conflict_errors_none:
  "conflict_errors path seen names = [] \<longleftrightarrow> distinct (map ToLower names) \<and> set (map ToLower names) \<inter> set seen = {}"
  by (induction path seen names rule: conflict_errors.induct) auto

lemma validateArgs_none: "validateArgs path as = [] \<longleftrightarrow> args_ok as"
  by (induction as) (auto simp: args_ok_def)

lemma flag_errors_none:
  "flag_errors path names shorts fs = [] \<longleftrightarrow>
     flags_ok fs \<and> set (map flag_key fs) \<inter> set names = {} \<and>
     set (map (\<lambda>f. ToLower (Short f)) (filter (\<lambda>f. TrimSpace (Short f) \<noteq> []) fs)) \<inter> set shorts = {}"
proof (induction path names shorts fs rule: flag_errors.induct)
  case (2 path names shorts f fs)
  let ?s = "TrimSpace (Short f) \<noteq> []"
  have "flag_errors path names shorts (f # fs) = [] \<longleftrightarrow>
      flag_key f \<notin> set names \<and> flag_key f \<notin> set (map flag_key BuiltinFlags) \<and>
      \<not> (Required f \<and> Default f \<noteq> None) \<and> \<not> (?s \<and> ToLower (Short f) \<in> set shorts) \<and>
      flag_errors path (flag_key f # names) (if ?s then ToLower (Short f) # shorts else shorts) fs = []"
    by (simp add: Let_def flag_key_def)
  also have "\<dots> \<longleftrightarrow> flags_ok (f # fs) \<and> set (map flag_key (f # fs)) \<inter> set names = {} \<and>
     set (map (\<lambda>f. ToLower (Short f)) (filter (\<lambda>f. TrimSpace (Short f) \<noteq> []) (f # fs))) \<inter> set shorts = {}"
    unfolding 2[of "flag_key f" "ToLower (Short f)" ?s, simplified flag_key_def, OF refl refl refl, folded flag_key_def]
    by (cases ?s) (auto simp: flags_ok_def)
  finally show ?case .
qed (simp add: flags_ok_def)

lemma lower_not_space: "is_lower c \<Longrightarrow> \<not> is_space c"
proof
  assume lower: "is_lower c" and "is_space c"
  then consider "c = CHR '' ''" | "c = CHR 0x09" | "c = CHR 0x0A" | "c = CHR 0x0B" | "c = CHR 0x0C" | "c = CHR 0x0D"
    unfolding is_space_def by blast
  then show False using lower by cases (simp_all add: is_lower_def)
qed

lemma pattern_not_blank: "commandNamePattern s \<Longrightarrow> TrimSpace s \<noteq> []"
proof
  assume p: "commandNamePattern s" and blank: "TrimSpace s = []"
  have "dropWhile is_space s = []"
    using blank unfolding TrimSpace_def trim_by_def by (metis dropWhile_eq_Nil_conv hd_dropWhile hd_in_set rev_is_Nil_conv set_rev)
  then have all: "\<forall>c \<in> set s. is_space c" by simp
  obtain c cs where "TrimPrefix s ''+'' = c # cs" "is_lower c"
    using p by (auto simp: commandNamePattern_def split: list.splits)
  then have "c \<in> set s" by (metis TrimPrefix_def in_set_dropD list.set_intros(1))
  with all \<open>is_lower c\<close> show False by (metis lower_not_space)
qed

lemma node_errors_none: "node_errors path n = [] \<longleftrightarrow> node_ok n"
  using pattern_not_blank[of "nodeName n"]
  by (auto simp: node_errors_def node_ok_def validateArgs_none validateFlags_def flag_errors_none
      validateChildren_def conflict_errors_none siblings_ok_def)

lemma validate_none:
  "fst (validateNode count path n) = [] \<longleftrightarrow> well_formed n"
  "fst (validateNodes count path cs) = [] \<longleftrightarrow> all_well_formed cs"
  by (induction count path n and count path cs rule: validateNode_validateNodes.induct)
    (simp_all add: Let_def node_errors_none)

section \<open>Building\<close>

text \<open>A built node mirrors its source; well-formed siblings have pairwise different names.\<close>

fun mirrors :: "CommandNode \<Rightarrow> BuiltNode \<Rightarrow> bool" and mirrors_all :: "CommandNode option list \<Rightarrow> BuiltNode list \<Rightarrow> bool" where
  "mirrors (CommandNode n al h fl ar hr me cs) b =
     (bnName b = n \<and> bnAliases b = al \<and> bnHelp b = h \<and> bnFlags b = fl \<and> bnArgs b = ar \<and> bnHandler b = hr \<and>
      bnMeta b = me \<and> mirrors_all cs (bnChildren b))"
| "mirrors_all [] bs = (bs = [])"
| "mirrors_all (None # cs) bs = False"
| "mirrors_all (Some c # cs) bs = (case bs of [] \<Rightarrow> False | b # bs' \<Rightarrow> mirrors c b \<and> mirrors_all cs bs')"

lemma build_mirrors:
  "buildNode inh path n = Some b \<Longrightarrow> mirrors n b"
  "buildNodes inh path cs = Some bs \<Longrightarrow> mirrors_all cs bs"
  by (induction inh path n and inh path cs arbitrary: b and bs rule: buildNode_buildNodes.induct)
    (auto split: option.splits)

lemma mirrors_names: "mirrors n b \<Longrightarrow> allNames b = map ToLower (node_names n)"
  by (cases n) (simp add: allNames_def node_names_def)

lemma mirrors_all_names:
  "mirrors_all cs bs \<Longrightarrow> map allNames bs = map (\<lambda>n. map ToLower (node_names n)) (non_nil cs)"
proof (induction cs arbitrary: bs)
  case (Cons c cs)
  then show ?case
    by (cases c; cases bs) (auto simp: non_nil_def List.map_filter_simps mirrors_names)
qed (simp add: non_nil_def List.map_filter_simps)

text \<open>A name that is not blank belongs to at most one of the siblings.\<close>

definition unique_names :: "BuiltNode list \<Rightarrow> bool" where
  "unique_names bs =
     (\<forall>b \<in> set bs. \<forall>b' \<in> set bs. \<forall>k. TrimSpace k \<noteq> [] \<longrightarrow> k \<in> set (allNames b) \<longrightarrow> k \<in> set (allNames b') \<longrightarrow> b = b')"

fun resolvable :: "BuiltNode \<Rightarrow> bool" where
  "resolvable (BuiltNode n al h fl ar hr me p inh cs) = (unique_names cs \<and> list_all resolvable cs)"

lemma distinct_concat_unique:
  "distinct (concat (map f bs)) \<Longrightarrow> b \<in> set bs \<Longrightarrow> b' \<in> set bs \<Longrightarrow> k \<in> set (f b) \<Longrightarrow> k \<in> set (f b') \<Longrightarrow> b = b'"
  by (induction bs) auto

lemma distinct_unique_names: "distinct (concat (map allNames bs)) \<Longrightarrow> unique_names bs"
  unfolding unique_names_def using distinct_concat_unique[of allNames bs] by blast

lemma mirrors_unique: "mirrors_all cs bs \<Longrightarrow> siblings_ok cs \<Longrightarrow> unique_names bs"
proof (rule distinct_unique_names)
  assume "mirrors_all cs bs" "siblings_ok cs"
  then show "distinct (concat (map allNames bs))"
    unfolding siblings_ok_def by (simp add: mirrors_all_names map_concat comp_def)
qed

lemma mirrors_resolvable:
  "mirrors n b \<Longrightarrow> well_formed n \<Longrightarrow> resolvable b"
  "mirrors_all cs bs \<Longrightarrow> all_well_formed cs \<Longrightarrow> list_all resolvable bs"
proof (induction n b and cs bs rule: mirrors_mirrors_all.induct)
  case (1 n al h fl ar hr me cs b)
  then have "mirrors_all cs (bnChildren b)" "siblings_ok cs" "all_well_formed cs"
    by (auto simp: node_ok_def)
  with 1(1) mirrors_unique show ?case by (cases b) auto
qed (auto split: list.splits)

lemma childIndex_unique:
  assumes "unique_names cs" and "b \<in> set cs" and "k \<in> set (allNames b)" and "TrimSpace k \<noteq> []"
  shows "childIndex cs k = Some b"
proof -
  let ?l = "concat (map (\<lambda>c. map (\<lambda>n. (n, c)) (allNames c)) cs)"
  have "(k, b) \<in> set ?l" using assms(2,3) by auto
  then have "map_of (rev ?l) k \<noteq> None" by (metis map_of_eq_None_iff image_eqI fst_conv set_rev)
  then obtain b' where b': "map_of (rev ?l) k = Some b'" by blast
  then have "(k, b') \<in> set ?l" by (metis map_of_SomeD set_rev)
  then have "b' \<in> set cs" "k \<in> set (allNames b')" by auto
  with assms have "b' = b" unfolding unique_names_def by blast
  with b' show ?thesis by (simp add: childIndex_def)
qed

section \<open>Resolving\<close>

text \<open>A chain of nodes from the roots, and the tokens that name them in any case, by name or alias.\<close>

fun descends :: "BuiltNode list \<Rightarrow> BuiltNode list \<Rightarrow> bool" where
  "descends cs [] = True"
| "descends cs (b # bs) = (b \<in> set cs \<and> descends (bnChildren b) bs)"

definition names_node :: "string \<Rightarrow> BuiltNode \<Rightarrow> bool" where
  "names_node w b = (ToLower w \<in> set (allNames b) \<and> TrimSpace (ToLower w) \<noteq> [] \<and> \<not> HasPrefix w ''-'')"

definition stops_at :: "BuiltNode \<Rightarrow> string list \<Rightarrow> bool" where
  "stops_at b rest =
     (case rest of [] \<Rightarrow> True | w # _ \<Rightarrow> HasPrefix w ''-'' \<or> childIndex (bnChildren b) (ToLower w) = None)"

lemma resolve_chain:
  "descends cs bs \<Longrightarrow> list_all2 names_node ws bs \<Longrightarrow> unique_names cs \<Longrightarrow> list_all resolvable cs \<Longrightarrow>
   resolve_loop cur cs (ws @ rest) =
     resolve_loop (if bs = [] then cur else Some (List.last bs)) (if bs = [] then cs else bnChildren (List.last bs)) rest"
proof (induction bs arbitrary: cs ws cur)
  case (Cons b bs)
  then obtain w ws' where ws: "ws = w # ws'" "names_node w b" "list_all2 names_node ws' bs"
    by (auto simp: list_all2_Cons2)
  have "b \<in> set cs" "descends (bnChildren b) bs" using Cons.prems(1) by auto
  moreover have "resolvable b" using Cons.prems(4) calculation(1) by (simp add: list_all_iff)
  then have "unique_names (bnChildren b)" "list_all resolvable (bnChildren b)" by (cases b; simp)+
  moreover have "childIndex cs (ToLower w) = Some b"
    using childIndex_unique[OF Cons.prems(3) calculation(1)] ws(2) by (simp add: names_node_def)
  moreover have "\<not> HasPrefix w ''-''" using ws(2) by (simp add: names_node_def)
  ultimately show ?case using Cons.IH[of "bnChildren b" ws' "Some b"] ws by simp
qed simp

lemma resolve_stops: "stops_at b rest \<Longrightarrow> resolve_loop (Some b) (bnChildren b) rest = (Some b, rest)"
  by (cases rest) (auto simp: stops_at_def split: option.splits)

lemma last_resolvable: "bs \<noteq> [] \<Longrightarrow> descends cs bs \<Longrightarrow> list_all resolvable cs \<Longrightarrow> resolvable (List.last bs)"
proof (induction bs arbitrary: cs)
  case (Cons b bs)
  then have "resolvable b" by (simp add: list_all_iff)
  then have "list_all resolvable (bnChildren b)" by (cases b) simp
  with Cons \<open>resolvable b\<close> show ?case by (cases "bs = []") auto
qed simp

section \<open>Unique root names\<close>

lemma add_names_ok:
  "add_names names seen = Inr seen' \<Longrightarrow>
   set seen' = set seen \<union> {k \<in> root_key ` set names. k \<noteq> []} \<and>
   {k \<in> root_key ` set names. k \<noteq> []} \<inter> set seen = {}"
proof (induction names arbitrary: seen)
  case (Cons n ns)
  show ?case
  proof (cases "root_key n = []")
    case True
    with Cons show ?thesis by (auto simp: Let_def)
  next
    case False
    with Cons.prems have "root_key n \<notin> set seen" "add_names ns (root_key n # seen) = Inr seen'"
      by (auto simp: Let_def split: if_splits)
    with Cons.IH[OF this(2)] False show ?thesis by auto
  qed
qed auto

definition keys_of :: "CommandNode \<Rightarrow> string set" where
  "keys_of n = {k \<in> root_key ` set (node_names n). k \<noteq> []}"

text \<open>The non-blank root names of different positions are disjoint.\<close>

fun disjoint_keys :: "CommandNode list \<Rightarrow> bool" where
  "disjoint_keys [] = True"
| "disjoint_keys (n # ns) = (keys_of n \<inter> (\<Union> (keys_of ` set ns)) = {} \<and> disjoint_keys ns)"

lemma disjoint_keys_append:
  "disjoint_keys (ns @ ms) \<longleftrightarrow>
   disjoint_keys ns \<and> disjoint_keys ms \<and> (\<Union> (keys_of ` set ns)) \<inter> (\<Union> (keys_of ` set ms)) = {}"
  by (induction ns) auto

lemma add_nodes_ok:
  "add_nodes nodes seen = Inr (out, seen') \<Longrightarrow>
   out = filter (\<lambda>n. n \<noteq> None) nodes \<and> disjoint_keys (non_nil out) \<and>
   set seen' = set seen \<union> (\<Union> (keys_of ` set (non_nil out))) \<and>
   set seen \<inter> (\<Union> (keys_of ` set (non_nil out))) = {}"
proof (induction nodes seen arbitrary: out seen' rule: add_nodes.induct)
  case (3 n nodes seen)
  from "3.prems" obtain seen1 rest where
    1: "add_names (nodeName n # nodeAliases n) seen = Inr seen1" "add_nodes nodes seen1 = Inr (rest, seen')"
       "out = Some n # rest" by (auto split: sum.splits)
  have "set seen1 = set seen \<union> keys_of n" "keys_of n \<inter> set seen = {}"
    using add_names_ok[OF 1(1)] by (simp_all add: keys_of_def node_names_def)
  with "3.IH"[OF 1(1,2)] 1(3) show ?case by (auto simp: non_nil_def List.map_filter_simps)
qed (auto simp: non_nil_def List.map_filter_simps)

lemma non_nil_append [simp]: "non_nil (xs @ ys) = non_nil xs @ non_nil ys"
  by (simp add: non_nil_def List.map_filter_def)

lemma composite_loop_ok:
  "composite_loop i setups acc seen = Inr t \<Longrightarrow> disjoint_keys (non_nil (Nodes acc)) \<Longrightarrow>
   (\<Union> (keys_of ` set (non_nil (Nodes acc)))) = set seen \<Longrightarrow> None \<notin> set (Nodes acc) \<Longrightarrow>
   disjoint_keys (non_nil (Nodes t)) \<and> None \<notin> set (Nodes t)"
proof (induction i setups acc seen rule: composite_loop.induct)
  case (5 i t' setups acc seen)
  then obtain nodes seen' where n: "add_nodes (Nodes t') seen = Inr (nodes, seen')"
    by (auto split: sum.splits)
  let ?acc = "acc\<lparr>treeVersion := join_version (treeVersion acc) (treeVersion t'),
      GlobalFlags := GlobalFlags acc @ GlobalFlags t', Nodes := Nodes acc @ nodes\<rparr>"
  from "5.prems"(1) n have "composite_loop (Suc i) setups ?acc seen' = Inr t" by simp
  moreover note add_nodes_ok[OF n]
  ultimately show ?case
    using "5.IH"[OF n refl] "5.prems"(2-4) by (auto simp: disjoint_keys_append)
qed auto

lemma is_space_code: "is_space c \<longleftrightarrow> (of_char c :: nat) \<in> {32, 9, 10, 11, 12, 13}"
proof -
  have "c = d \<longleftrightarrow> (of_char c :: nat) = of_char d" for d by simp
  note eq = this
  show ?thesis unfolding is_space_def eq[of "CHR '' ''"] eq[of "CHR 0x09"] eq[of "CHR 0x0A"] eq[of "CHR 0x0B"]
      eq[of "CHR 0x0C"] eq[of "CHR 0x0D"] insert_iff by simp
qed

lemma lower_char_space: "is_space (lower_char c) = is_space c"
  by (auto simp: lower_char_def is_space_code less_eq_char_def)

lemma TrimSpace_ToLower: "TrimSpace (ToLower s) = ToLower (TrimSpace s)"
proof -
  have "is_space \<circ> lower_char = is_space" by (rule ext) (simp add: lower_char_space)
  then show ?thesis by (simp add: TrimSpace_def trim_by_def ToLower_def dropWhile_map rev_map)
qed

lemma mirrors_keys: "mirrors n b \<Longrightarrow> keys_of n = TrimSpace ` set (allNames b) - {[]}"
  by (auto simp: keys_of_def root_key_def mirrors_names TrimSpace_ToLower[symmetric])

lemma mirrors_all_keys: "mirrors_all cs bs \<Longrightarrow> b \<in> set bs \<Longrightarrow> \<exists>n \<in> set (non_nil cs). mirrors n b"
proof (induction cs arbitrary: bs)
  case (Cons c cs)
  then show ?case by (cases c; cases bs) (auto simp: non_nil_def List.map_filter_simps)
qed simp

lemma disjoint_unique: "mirrors_all cs bs \<Longrightarrow> disjoint_keys (non_nil cs) \<Longrightarrow> unique_names bs"
proof (induction cs arbitrary: bs)
  case Nil
  then show ?case by (simp add: unique_names_def)
next
  case (Cons c cs)
  then obtain n b bs' where c: "c = Some n" "bs = b # bs'" "mirrors n b" "mirrors_all cs bs'"
    by (cases c; cases bs) auto
  have dis: "keys_of n \<inter> (\<Union> (keys_of ` set (non_nil cs))) = {}" "disjoint_keys (non_nil cs)"
    using Cons.prems(2) c(1) by (auto simp: non_nil_def List.map_filter_simps)
  have other: "k \<notin> set (allNames b')" if "b' \<in> set bs'" "k \<in> set (allNames b)" "TrimSpace k \<noteq> []" for b' k
  proof
    assume "k \<in> set (allNames b')"
    from mirrors_all_keys[OF c(4) that(1)] obtain n' where n': "n' \<in> set (non_nil cs)" "mirrors n' b'" by blast
    have "TrimSpace k \<in> keys_of n" "TrimSpace k \<in> keys_of n'"
      using that \<open>k \<in> set (allNames b')\<close> mirrors_keys[OF c(3)] mirrors_keys[OF n'(2)] by auto
    with n'(1) dis(1) show False by blast
  qed
  with Cons.IH[OF c(4) dis(2)] show ?case unfolding unique_names_def c(2) by auto
qed

lemma filter_non_nil: "None \<notin> set ns \<Longrightarrow> filter (\<lambda>n. n \<noteq> None) ns = ns"
  by (rule filter_True) metis

lemma New_built:
  "New (Some t) = Built reg \<longleftrightarrow>
   vErrors (ValidateTree (Some t)) = [] \<and> regTree reg = t \<and> allNodes reg = concat (map nodes_of (regRoots reg)) \<and>
   buildNodes [] [] (filter (\<lambda>n. n \<noteq> None) (Nodes t)) = Some (regRoots reg)"
  by (cases reg) (auto simp: New_def Let_def split: option.splits)

lemma ValidateTree_none: "vErrors (ValidateTree (Some t)) = [] \<longleftrightarrow> all_well_formed (Nodes t)"
  by (simp add: ValidateTree_def Let_def validate_none)

lemma all_well_formed_filter: "all_well_formed (filter (\<lambda>n. n \<noteq> None) ns) = all_well_formed ns"
proof (induction ns)
  case (Cons n ns)
  then show ?case by (cases n) auto
qed simp

section \<open>Deduplicating flags\<close>

definition keyed :: "FlagDef list \<Rightarrow> (string \<times> FlagDef) list" where
  "keyed fs = map (\<lambda>f. (flag_key f, f)) fs"

lemma keyed_append: "keyed (fs @ [f]) = keyed fs @ [(flag_key f, f)]"
  by (simp add: keyed_def)

lemma put_flag_keys:
  "map flag_key (put_flag fs f) = (if flag_key f \<in> set (map flag_key fs) then map flag_key fs else map flag_key fs @ [flag_key f])"
  by (induction fs f rule: put_flag.induct) auto

lemma put_flag_map: "map_of (keyed (put_flag fs f)) = (map_of (keyed fs))(flag_key f \<mapsto> f)"
  by (induction fs f rule: put_flag.induct) (auto simp: keyed_def)

text \<open>Later definitions win; the order is that of the first occurrences.\<close>

lemma dedup_fold:
  "map flag_key (fold (\<lambda>f ordered. put_flag ordered f) fs acc) =
     map flag_key acc @ filter (\<lambda>k. k \<notin> set (map flag_key acc)) (rev (remdups (rev (map flag_key fs)))) \<and>
   map_of (keyed (fold (\<lambda>f ordered. put_flag ordered f) fs acc)) = map_of (keyed acc) ++ map_of (rev (keyed fs))"
proof (induction fs rule: rev_induct)
  case Nil
  then show ?case by (simp add: keyed_def)
next
  case (snoc f fs)
  then show ?case
    by (auto simp: put_flag_keys put_flag_map keyed_append map_add_def fun_eq_iff)
qed

section \<open>Properties\<close>

text \<open>
  C9.  Every command of a composed tree can be reached: if the sources compose and the registry is built,
  then the names or aliases of the nodes on a path from a root, in upper or lower case, resolve to the
  node at its end, and the arguments that follow are left over.
\<close>

theorem composite_commands_resolve:
  assumes "CompositeSetup setups = Inr tree" and "New (Some tree) = Built reg"
    and "descends (regRoots reg) bs" and "bs \<noteq> []" and "list_all2 names_node ws bs"
    and "stops_at (List.last bs) rest"
  shows "Resolve reg (ws @ rest) = (Some (List.last bs), rest)"
proof -
  have keys: "disjoint_keys (non_nil (Nodes tree))" "None \<notin> set (Nodes tree)"
    using composite_loop_ok[OF assms(1)[unfolded CompositeSetup_def]] by (simp_all add: non_nil_def List.map_filter_simps)
  from assms(2) have build: "buildNodes [] [] (Nodes tree) = Some (regRoots reg)" "all_well_formed (Nodes tree)"
    unfolding New_built ValidateTree_none filter_non_nil[OF keys(2)] by simp_all
  note mir = build_mirrors(2)[OF build(1)]
  have "unique_names (regRoots reg)" "list_all resolvable (regRoots reg)"
    using disjoint_unique[OF mir keys(1)] mirrors_resolvable(2)[OF mir build(2)] by simp_all
  from resolve_chain[OF assms(3,5) this, of None rest] assms(4) resolve_stops[OF assms(6)]
  show ?thesis by (simp add: Resolve_def)
qed

definition sample_node :: "string \<Rightarrow> string list \<Rightarrow> string \<Rightarrow> CommandNode option list \<Rightarrow> CommandNode" where
  "sample_node n aliases handler cs =
     CommandNode n aliases \<lparr>Brief = ''does something'', Long = [], TemplateVars = [], Examples = []\<rparr> [] [] handler
       \<lparr>metaHidden = False, Dangerous = False, metaDeprecated = [], Scope = [], CommandID = [], Source = [],
        metaRisk = [], ToolName = [], Tags = []\<rparr> cs"

definition sample_setups :: "(string, CommandTree option) result option list" where
  "sample_setups =
     [Some (Inr (Some \<lparr>treeVersion = ''1'', GlobalFlags = [],
        Nodes = [Some (sample_node ''workitem'' [''wi''] [] [Some (sample_node ''get'' [] ''h'' [])])]\<rparr>)), None]"

theorem composite_commands_resolve_witness:
  "\<exists>tree reg b. CompositeSetup sample_setups = Inr tree \<and> New (Some tree) = Built reg \<and>
     bnName b = ''get'' \<and> Resolve reg [''WI'', ''get'', ''--id''] = (Some b, [''--id''])"
proof -
  obtain tree where tree: "CompositeSetup sample_setups = Inr tree"
  proof -
    have "isl (CompositeSetup sample_setups) = False" by code_simp
    with that show thesis by (cases "CompositeSetup sample_setups") auto
  qed
  have "(case CompositeSetup sample_setups of Inl _ \<Rightarrow> False | Inr t \<Rightarrow>
      (case New (Some t) of Built reg \<Rightarrow>
         (case regRoots reg of [r] \<Rightarrow>
            (case bnChildren r of [b] \<Rightarrow> names_node ''WI'' r \<and> names_node ''get'' b \<and> stops_at b [''--id''] \<and> bnName b = ''get''
             | _ \<Rightarrow> False)
          | _ \<Rightarrow> False)
       | _ \<Rightarrow> False))" by code_simp
  with tree obtain reg r b where reg: "New (Some tree) = Built reg" "regRoots reg = [r]" "bnChildren r = [b]"
    "names_node ''WI'' r" "names_node ''get'' b" "stops_at b [''--id'']" "bnName b = ''get''"
    by (auto split: registry_outcome.splits list.splits)
  from composite_commands_resolve[OF tree reg(1), of "[r, b]" "[''WI'', ''get'']" "[''--id'']"] reg tree
  show ?thesis by auto
qed

fun no_nil :: "CommandNode \<Rightarrow> bool" and none_nil :: "CommandNode option list \<Rightarrow> bool" where
  "no_nil (CommandNode n al h fl ar hr me cs) = none_nil cs"
| "none_nil [] = True"
| "none_nil (None # cs) = False"
| "none_nil (Some c # cs) = (no_nil c \<and> none_nil cs)"

lemma build_no_nil:
  "buildNode inh path n \<noteq> None \<longleftrightarrow> no_nil n"
  "buildNodes inh path cs \<noteq> None \<longleftrightarrow> none_nil cs"
  by (induction inh path n and inh path cs rule: buildNode_buildNodes.induct) (auto split: option.splits)

text \<open>
  The registry accepts exactly the well-formed trees: validation reports an error exactly when a
  node breaks one of the rules on names, handlers, help, flags, arguments and siblings, and then no
  registry is built; a registry is built exactly from the well-formed trees without nil pointers below
  the roots.
\<close>

lemma New_accepts_well_formed:
  "(vErrors (ValidateTree (Some t)) = []) = all_well_formed (Nodes t) \<and>
   (\<exists>reg. New (Some t) = Built reg) = (all_well_formed (Nodes t) \<and> none_nil (filter (\<lambda>n. n \<noteq> None) (Nodes t)))"
  using build_no_nil(2)[of "[]" "[]" "filter (\<lambda>n. n \<noteq> None) (Nodes t)"]
  by (auto simp: ValidateTree_none New_def Let_def split: option.splits)

text \<open>A nil child below a root passes validation, and building the registry then dereferences it.\<close>

lemma nested_nil_panics:
  "New (Some \<lparr>treeVersion = [], GlobalFlags = [], Nodes = [Some (sample_node ''workitem'' [] [] [None])]\<rparr>) = NilDereference"
  by code_simp

text \<open>
  The flags of a command: every name occurs once, whatever its case, the definition nearest to the
  command wins over those of its ancestors, the tree and the built-in ones, and the order is that of
  the first definitions.
\<close>

lemma command_flags:
  "map_of (keyed (AllFlagsForNode reg (Some n))) =
     map_of (keyed BuiltinFlags) ++ map_of (rev (keyed (GlobalFlags (regTree reg)))) ++
     map_of (rev (keyed (bnInherited n))) ++ map_of (rev (keyed (bnFlags n))) \<and>
   map flag_key (AllFlagsForNode reg (Some n)) =
     rev (remdups (rev (map flag_key (BuiltinFlags @ GlobalFlags (regTree reg) @ bnInherited n @ bnFlags n)))) \<and>
   distinct (map flag_key (AllFlagsForNode reg (Some n)))"
proof -
  let ?all = "BuiltinFlags @ GlobalFlags (regTree reg) @ bnInherited n @ bnFlags n"
  have builtin: "map_of (rev (keyed BuiltinFlags)) = map_of (keyed BuiltinFlags)"
  proof -
    have "distinct (map fst (keyed BuiltinFlags))" by code_simp
    moreover from this have "distinct (map fst (rev (keyed BuiltinFlags)))" by (simp add: rev_map[symmetric])
    ultimately show ?thesis by (simp add: map_of_inject_set)
  qed
  have keys: "map flag_key (dedupFlags ?all) = rev (remdups (rev (map flag_key ?all)))"
    using dedup_fold[of ?all "[]"] unfolding dedupFlags_def by (simp del: rev_append map_append)
  moreover have "map_of (keyed (dedupFlags ?all)) = map_of (rev (keyed ?all))"
    using dedup_fold[of ?all "[]"] unfolding dedupFlags_def by (simp add: keyed_def)
  moreover have "distinct (map flag_key (dedupFlags ?all))" unfolding keys by simp
  ultimately show ?thesis
    by (simp add: AllFlagsForNode_def keyed_def builtin[unfolded keyed_def] map_add_assoc)
qed

end
