(* ===== verification/Tool_Mapping.thy ===== *)
theory Tool_Mapping
  imports Platform_Api Registry
begin

text \<open>
  \<open>internal/products/meegle/types\<close>, \<open>dynamic/mapper.go\<close> and \<open>risk.go\<close>: the tools the service announces, the
  commands they become, the fixed paths of the known tools and the risk of each.

  A pointer to a record is an option.  Texts are bytes, so a dash outside ASCII is written by its bytes.
\<close>

section \<open>Data\<close>

record ToolParameter =
  paramName :: string
  paramType :: string
  paramDescription :: string
  paramRequired :: bool
  paramItems :: "string option"

record ToolMetadata =
  tmResource :: string
  tmMethod :: string

record ToolDefinitionIssue =
  tdiCode :: string
  tdiPath :: string

record ToolDefinition =
  tdName :: string
  tdDescription :: string
  tdParameters :: "ToolParameter list"
  tdMetadata :: "ToolMetadata option"
  tdIssue :: "ToolDefinitionIssue option"

record MappedCommand =
  mcResource :: string
  mcMethod :: string
  mcToolName :: string
  mcDescription :: string
  mcParameters :: "ToolParameter list"
  mcHasFields :: bool

record fallbackEntry =
  feResource :: string
  feMethod :: string
  feHasFields :: bool
  feDescription :: string

definition entry :: "string \<Rightarrow> string \<Rightarrow> string \<Rightarrow> bool \<Rightarrow> string \<Rightarrow> string \<times> fallbackEntry" where
  "entry tool res met has desc =
     (tool, \<lparr>feResource = res, feMethod = met, feHasFields = has, feDescription = desc\<rparr>)"

section \<open>The fixed paths\<close>

definition fallbackTable :: "(string \<times> fallbackEntry) list" where
  "fallbackTable =
     [entry ''create_workitem'' ''workitem'' ''create'' True (''Create work item (query meta-fields and meta-roles first)''),
      entry ''get_workitem_brief'' ''workitem'' ''get'' False (''Get work item brief; pass --fields for custom fields''),
      entry ''update_field'' ''workitem'' ''update'' True (''Update work item fields or roles (not node fields)''),
      entry ''update_node'' ''workflow'' ''update-node'' True (''Update node-level fields (schedule/points/owners); cannot update multiple categories at once''),
      entry ''update_node_subtask'' ''subtask'' ''update'' True (''Create, update, complete, or rollback a subtask''),
      entry ''search_by_mql'' ''workitem'' ''query'' False (''Query work items by MQL expression''),
      entry ''transition_node'' ''workflow'' ''transition'' False (''Transition workflow node (node-flow work items only)''),
      entry ''transition_state'' ''workflow'' ''transition-state'' False (''Transition state-flow work item state''),
      entry ''add_comment'' ''comment'' ''add'' False (''Add comment''),
      entry ''get_node_detail'' ''workflow'' ''get-node'' False (''Get workflow node details including subtasks and custom fields''),
      entry ''list_workitem_comments'' ''comment'' ''list'' False (''List work item comments''),
      entry ''list_workitem_relations'' ''relation'' ''meta-definitions'' False (''List relation definitions''),
      entry ''list_related_workitem'' ''relation'' ''list'' False (''List work items linked by a relation field''),
      entry ''get_workitem_man_hour_records'' ''workhour'' ''list-records'' False (''List work hour records''),
      entry ''get_workitem_op_record'' ''workitem'' ''list-op-records'' False (''List work item operation records''),
      entry ''get_transitable_states'' ''workflow'' ''list-state-transitions'' False (''List available state transitions (state-flow work items only)''),
      entry ''get_transition_required'' ''workflow'' ''list-state-required'' False (''List required fields for node or state transition''),
      entry ''list_workitem_types'' ''workitem'' ''meta-types'' False (''List work item types''),
      entry ''get_workitem_field_meta'' ''workitem'' ''meta-create-fields'' False (''Get required field metadata for creating work items''),
      entry ''list_workitem_field_config'' ''workitem'' ''meta-fields'' False (''List work item field configuration (excludes disabled fields and roles)''),
      entry ''list_workitem_role_config'' ''workitem'' ''meta-roles'' False (''List work item role configuration for validating role keys''),
      entry ''list_node_field_config'' ''workflow'' ''meta-node-fields'' False (''List node field configuration''),
      entry ''list_todo'' ''mywork'' ''todo'' False (''List my work items by action (todo/done/overdue/this_week)''),
      entry ''create_fixed_view'' ''view'' ''create-fixed'' False (''Create fixed view''),
      entry ''get_view_detail'' ''view'' ''get'' False (''List work items under a view by view ID''),
      entry ''update_fixed_view'' ''view'' ''update-fixed'' False (''Update fixed view''),
      entry ''search_view_by_title'' ''view'' ''search'' False (''Search views by title to resolve view_id''),
      entry ''list_multi_project_view_workitems'' ''view'' ''list-multi-project-workitems'' False (''List work items the caller can access under a multi-project (panoramic) view; pass --view-id from a multiProjectView URL''),
      entry ''get_chart_detail'' ''chart'' ''get'' False (''Get chart details''),
      entry ''list_charts'' ''chart'' ''list'' False (''List charts''),
      entry ''list_project_team'' ''team'' ''list'' False (''List space teams''),
      entry ''list_team_members'' ''team'' ''list-members'' False (''List team members''),
      entry ''list_schedule'' ''workhour'' ''list-schedule'' False (''List schedule and workload details (max 20 users, 3-month span per call)''),
      entry ''search_project_info'' ''project'' ''search'' False (''Resolve space name to project_key or verify space existence''),
      entry ''search_user_info'' ''user'' ''search'' False (''Resolve user name/email to user_key''),
      entry ''upload_file'' ''attachment'' ''prepare-upload'' False (''Preprocess an attachment upload '' @ [CHR 0xE2, CHR 0x80, CHR 0x94] @ '' returns the signed URL + multipart plan''),
      entry ''get_download_url'' ''attachment'' ''prepare-download'' False (''Preprocess an attachment download '' @ [CHR 0xE2, CHR 0x80, CHR 0x94] @ '' returns the signed URL + multipart plan''),
      entry ''list_deliverables'' ''deliverable'' ''list'' False (''List deliverables with their root and source work items''),
      entry ''create_resource_work_item'' ''resource'' ''create'' True (''Create a resource template (resource instance) under a resource-library-enabled work item type''),
      entry ''get_resource_work_item_type_conf'' ''resource'' ''meta-fields'' False (''List resource library configuration (resource fields and roles)''),
      entry ''list_wbs_draft_rows'' ''wbs'' ''list-draft-rows'' False (''List rows in a WBS draft, filtered by query and projected to selected fields''),
      entry ''list_wbs_instance_rows'' ''wbs'' ''list-instance-rows'' False (''List rows in a published WBS instance, filtered by query and projected to selected fields''),
      entry ''edit_wbs_draft'' ''wbs'' ''edit-draft'' False (''Apply one atomic operation to a single WBS draft row (add/delete/restore/sort/rename/owner/schedule); operation type via --params''),
      entry ''create_wbs_draft'' ''wbs'' ''create-draft'' False (''Create a new WBS draft for a work item instance''),
      entry ''publish_wbs_draft'' ''wbs'' ''publish-draft'' False (''Publish a WBS draft online''),
      entry ''reset_wbs_draft'' ''wbs'' ''reset-draft'' False (''Reset a WBS draft to match the published instance, discarding unpublished changes''),
      entry ''get_wbs_draft_operation_progress'' ''wbs'' ''get-draft-progress'' False (''Get the execution progress of a WBS draft operation (create/edit/publish)''),
      entry ''list_element_template'' ''wbs'' ''list-element-templates'' False (''List element templates (resource nodes and tasks) from the flow resource library'')]"

text \<open>An empty command stands for a tool that is not exposed.\<close>

definition no_command :: MappedCommand where
  "no_command =
     \<lparr>mcResource = [], mcMethod = [], mcToolName = [], mcDescription = [], mcParameters = [], mcHasFields = False\<rparr>"

definition MapTool :: "ToolDefinition \<Rightarrow> MappedCommand" where
  "MapTool t =
     (if tdIssue t \<noteq> None then no_command
      else
        (case map_of fallbackTable (tdName t) of
           Some e \<Rightarrow>
             \<lparr>mcResource = feResource e, mcMethod = feMethod e, mcToolName = tdName t,
              mcDescription = (if feDescription e \<noteq> [] then feDescription e else tdDescription t),
              mcParameters = tdParameters t, mcHasFields = feHasFields e\<rparr>
         | None \<Rightarrow>
             (case tdMetadata t of
                None \<Rightarrow> no_command
              | Some m \<Rightarrow>
                  (if tmResource m \<noteq> [] \<and> tmMethod m \<noteq> [] then
                     \<lparr>mcResource = tmResource m, mcMethod = tmMethod m, mcToolName = tdName t,
                      mcDescription = tdDescription t, mcParameters = tdParameters t, mcHasFields = False\<rparr>
                   else no_command))))"

definition IsFallbackTool :: "string \<Rightarrow> bool" where
  "IsFallbackTool name = (map_of fallbackTable name \<noteq> None)"

definition FallbackToolNames :: "string list" where
  "FallbackToolNames = sort (map fst fallbackTable)"

text \<open>The smallest name among the tools with the path; no name is empty.\<close>

definition owners :: "string \<Rightarrow> string \<Rightarrow> string list" where
  "owners res met = map fst (filter (\<lambda>x. feResource (snd x) = res \<and> feMethod (snd x) = met) fallbackTable)"

definition FallbackToolForPath :: "string \<Rightarrow> string \<Rightarrow> string option" where
  "FallbackToolForPath res met = (case sort (owners res met) of [] \<Rightarrow> None | owner # _ \<Rightarrow> Some owner)"

definition MapTools :: "ToolDefinition list \<Rightarrow> MappedCommand list" where
  "MapTools tools = filter (\<lambda>c. mcToolName c \<noteq> []) (map MapTool tools)"

definition FallbackResources :: "string list" where
  "FallbackResources = sort (remdups (map (feResource \<circ> snd) fallbackTable))"

section \<open>Risks\<close>

definition commandRiskByTool :: "(string \<times> Risk) list" where
  "commandRiskByTool =
     (map (\<lambda>tool. (tool, RiskRead))
        [''get_workitem_brief'', ''search_by_mql'', ''get_node_detail'', ''list_workitem_comments'',
         ''list_workitem_relations'', ''list_related_workitem'', ''get_workitem_man_hour_records'',
         ''get_workitem_op_record'', ''get_transitable_states'', ''get_transition_required'',
         ''list_workitem_types'', ''get_workitem_field_meta'', ''list_workitem_field_config'',
         ''list_workitem_role_config'', ''list_node_field_config'', ''list_todo'', ''get_view_detail'',
         ''search_view_by_title'', ''list_multi_project_view_workitems'', ''get_chart_detail'', ''list_charts'',
         ''list_project_team'', ''list_team_members'', ''list_schedule'', ''search_project_info'',
         ''search_user_info'', ''get_download_url'', ''list_deliverables'', ''get_resource_work_item_type_conf'',
         ''list_wbs_draft_rows'', ''list_wbs_instance_rows'', ''get_wbs_draft_operation_progress'',
         ''list_element_template'']) @
     (map (\<lambda>tool. (tool, RiskWrite))
        [''create_workitem'', ''update_field'', ''update_node'', ''update_node_subtask'', ''transition_node'',
         ''transition_state'', ''add_comment'', ''create_fixed_view'', ''update_fixed_view'', ''upload_file'',
         ''create_resource_work_item'', ''edit_wbs_draft'', ''create_wbs_draft'']) @
     (map (\<lambda>tool. (tool, RiskHighRiskWrite))
        [''publish_wbs_draft'', ''reset_wbs_draft''])"

definition riskForTool :: "string \<Rightarrow> string" where
  "riskForTool tool = (case map_of commandRiskByTool tool of None \<Rightarrow> [] | Some r \<Rightarrow> r)"

section \<open>What the tables guarantee\<close>

text \<open>Every tool with a fixed path has a reviewed risk and no other tool has one; no two of them share a path.\<close>

lemma risk_directory_complete: "sort (map fst commandRiskByTool) = FallbackToolNames"
  by code_simp

lemma fallback_paths_distinct: "distinct (map (\<lambda>x. (feResource (snd x), feMethod (snd x))) fallbackTable)"
  by code_simp

lemma fallback_names_distinct: "distinct (map fst fallbackTable)"
  by code_simp

lemma fallback_names_nonempty: "list_all (\<lambda>(name, e). name \<noteq> []) fallbackTable"
  by code_simp

lemma distinct_filter_single:
  "distinct (map f xs) \<Longrightarrow> x \<in> set xs \<Longrightarrow> filter (\<lambda>y. f y = f x) xs = [x]"
  by (induction xs) (auto simp: filter_empty_conv image_iff)

text \<open>The path of a known tool belongs to that tool.\<close>

lemma fallback_owner:
  assumes "map_of fallbackTable name = Some e"
  shows "FallbackToolForPath (feResource e) (feMethod e) = Some name"
proof -
  let ?path = "\<lambda>x. (feResource (snd x), feMethod (snd x))"
  have "filter (\<lambda>x. ?path x = ?path (name, e)) fallbackTable = [(name, e)]"
    by (rule distinct_filter_single) (use fallback_paths_distinct map_of_SomeD[OF assms] in \<open>simp_all add: case_prod_beta\<close>)
  then have "owners (feResource e) (feMethod e) = [name]" by (simp add: owners_def)
  then show ?thesis by (simp add: FallbackToolForPath_def)
qed

end
