(* ===== verification/Local_Registry.thy ===== *)
theory Local_Registry
  imports Tool_Mapping
begin

text \<open>
  \<open>internal/products/meegle/local_registry.go\<close>: the commands the client brings itself, which call the CLI API
  instead of a tool, and the entries \<open>meegle inspect\<close> shows for them.
\<close>

section \<open>The tree\<close>

definition help_of :: "string \<Rightarrow> string \<Rightarrow> (string \<times> string) list \<Rightarrow> HelpText" where
  "help_of brief long examples =
     \<lparr>Brief = brief, Long = long, TemplateVars = [],
      Examples = map (\<lambda>(d, c). \<lparr>exDescription = d, exCommand = c\<rparr>) examples\<rparr>"

definition plain_meta :: "string \<Rightarrow> string \<Rightarrow> string \<Rightarrow> string \<Rightarrow> (string \<times> string) list \<Rightarrow> NodeMeta" where
  "plain_meta ident src risk tool tags =
     \<lparr>metaHidden = False, Dangerous = False, metaDeprecated = [], Scope = [], CommandID = ident, Source = src,
      metaRisk = risk, ToolName = tool, Tags = tags\<rparr>"

definition localNodeMeta :: "string \<Rightarrow> string \<Rightarrow> NodeMeta" where
  "localNodeMeta kind risk = plain_meta [] ''static'' risk [] [(''executor_kind'', kind)]"

definition no_meta :: NodeMeta where
  "no_meta = plain_meta [] [] [] [] []"

definition handlerHandoffAvailability :: string where
  "handlerHandoffAvailability = ''meegle.local.ai-handoff.availability''"
definition handlerHandoffCreateLink :: string where
  "handlerHandoffCreateLink = ''meegle.local.ai-handoff.create-link''"
definition handlerPreferenceAuto :: string where
  "handlerPreferenceAuto = ''meegle.local.preference.handoff.auto''"
definition handlerPreferenceAsk :: string where
  "handlerPreferenceAsk = ''meegle.local.preference.handoff.ask''"
definition handlerPreferenceOff :: string where
  "handlerPreferenceOff = ''meegle.local.preference.handoff.off''"

definition typed_flag :: "string \<Rightarrow> string \<Rightarrow> bool \<Rightarrow> string \<Rightarrow> FlagDef" where
  "typed_flag n ty req desc =
     \<lparr>flagName = n, Short = [], flagType = ty, Required = req, Default = None, Enum = [],
      flagHidden = False, flagDescription = desc, flagDeprecated = []\<rparr>"

definition availability_node :: CommandNode where
  "availability_node =
     CommandNode ''availability'' []
       (help_of ''Check current AI handoff availability without creating a link''
       (''Optional preflight that checks the business switch, rollout, AI entitlement, personal preference, and link-service readiness. The result contains available and the negotiated query/context limits; it may contain mode, or reject_code and reject_msg when unavailable. Successful snapshots are cached per profile for up to 1 hour. create-link does not trust this cache and always rechecks the server. When MEEGLE_AI_HANDOFF=disabled, the CLI returns available=false with reject_code=LOCAL_DISABLED without requiring authentication, reading the cache, or calling the Handoff API.'')
       [(''Check availability and negotiated limits'', ''meegle ai-handoff availability --format json'')])
       [] [] handlerHandoffAvailability (localNodeMeta ''cliapi'' ''read'') []"

definition create_link_node :: CommandNode where
  "create_link_node =
     CommandNode ''create-link'' []
       (help_of ''Create an AI assistant link from a query and optional Meegle context''
       (''--query is required and must contain non-empty text after trimming. --related-context is optional and repeatable; each occurrence accepts a strict JSON object or array. Unknown fields, trailing JSON, mismatched type/payload pairs, and missing required identifiers are rejected.'' @
       [CHR 0x0A, CHR 0x0A] @ ''Context types and payloads:'' @ [CHR 0x0A] @
       ''  1 Project       project(project_key)'' @ [CHR 0x0A] @
       ''  2 Reserved      WorkItemType is currently unsupported; do not use'' @ [CHR 0x0A] @
       ''  3 WorkItem      work_item(project_key, work_item_type_key, work_item_id)'' @ [CHR 0x0A] @
       ''  4 View          view(project_key, view_id[, work_item_type_key])'' @ [CHR 0x0A] @
       ''  5 MeasureChart  measure_chart(project_key, chart_id)'' @ [CHR 0x0A, CHR 0x0A] @
       ''The limits returned by availability are advisory for request preparation; create-link always applies the authoritative server-side policy and limits. On success, the CLI replaces the returned URL host with the current login host while preserving its scheme, path, query, and fragment. When MEEGLE_AI_HANDOFF=disabled, a valid invocation returns available=false with reject_code=LOCAL_DISABLED without requiring authentication or calling the Handoff API.'')
       [(''Create a link from query text only'',
         (''meegle ai-handoff create-link --query '' @ [CHR 0x27] @ ''Summarize the risks and propose next actions'' @
       [CHR 0x27])),
        (''Create a link with a WorkItem context'',
         (''meegle ai-handoff create-link --query '' @ [CHR 0x22] @ ''Summarize this work item'' @ [CHR 0x22] @
       '' --related-context '' @ [CHR 0x27] @ ''{'' @ [CHR 0x22] @ ''type'' @ [CHR 0x22] @ '':3,'' @ [CHR 0x22] @
       ''work_item'' @ [CHR 0x22] @ '':{'' @ [CHR 0x22] @ ''project_key'' @ [CHR 0x22] @ '':'' @ [CHR 0x22] @
       ''PROJ'' @ [CHR 0x22] @ '','' @ [CHR 0x22] @ ''work_item_type_key'' @ [CHR 0x22] @ '':'' @ [CHR 0x22] @
       ''story'' @ [CHR 0x22] @ '','' @ [CHR 0x22] @ ''work_item_id'' @ [CHR 0x22] @ '':'' @ [CHR 0x22] @ ''123'' @
       [CHR 0x22] @ ''}}'' @ [CHR 0x27]))])
       [typed_flag ''query'' ''string'' True
          ''Non-empty text to prefill; maximum UTF-8 bytes are reported by availability.limits.max_query_bytes'',
        typed_flag ''related-context'' ''string-array'' False
          ''Strict typed JSON object or array; repeatable, with the item limit reported by availability.limits.max_related_context_items'']
       [] handlerHandoffCreateLink (localNodeMeta ''cliapi'' ''write'') []"

definition preference_node :: "string \<Rightarrow> string \<Rightarrow> string \<Rightarrow> CommandNode" where
  "preference_node mode brief handler =
     CommandNode mode []
       (help_of brief
         (''Set the personal handoff recommendation mode to '' @ mode @ '' and invalidate the local CLI configuration cache.'')
         [([], ''meegle preference handoff '' @ mode)])
       [] [] handler (localNodeMeta ''cliapi'' ''write'') []"

definition newMeegleLocalCommandTree :: CommandTree where
  "newMeegleLocalCommandTree =
     \<lparr>treeVersion = ''meegle-local-v1'', GlobalFlags = [], Nodes =
       [Some (CommandNode ''ai-handoff'' []
          (help_of ''Hand work off to the AI assistant''
          (''Check whether AI handoff is currently available, then create a link with an optional typed Meegle context. Availability is an optional preflight; create-link always performs an authoritative server-side check. Set MEEGLE_AI_HANDOFF=disabled to hard-disable both operations in the local installation.'') [])
          [] [] [] no_meta [Some availability_node, Some create_link_node]),
        Some (CommandNode ''preference'' [] (help_of ''Manage personal CLI preferences'' [] []) [] [] [] no_meta
          [Some (CommandNode ''handoff'' []
            (help_of ''Manage AI handoff recommendations''
            (''Set the personal handoff recommendation mode. These commands take no project or tenant parameter. A successful update invalidates the local CLI configuration cache; run '' @
       [CHR 0x27] @ ''meegle ai-handoff availability'' @ [CHR 0x27] @
       '' to read the effective mode. The MVP supports auto, ask, and off; status and reset are not exposed.'') [])
            [] [] [] no_meta
            [Some (preference_node ''auto'' ''Automatically show AI handoff recommendations'' handlerPreferenceAuto),
             Some (preference_node ''ask'' ''Ask before showing an AI handoff recommendation'' handlerPreferenceAsk),
             Some (preference_node ''off'' ''Disable AI handoff recommendations'' handlerPreferenceOff)])])]\<rparr>"

section \<open>The entries of inspect\<close>

definition inspectParameterType :: "string \<Rightarrow> string" where
  "inspectParameterType ty =
     (if ty \<in> set [''int'', ''float'', ''integer'', ''number''] then ''number''
      else if ty = ''bool'' then ''boolean''
      else if ty \<in> set [''string-slice'', ''string-array'', ''int-slice'', ''integer-slice'', ''object-slice''] then ''array''
      else if ty = ''object'' then ''object''
      else ''string'')"

definition inspectParameterItemType :: "string \<Rightarrow> string" where
  "inspectParameterItemType ty =
     (if ty \<in> set [''int-slice'', ''integer-slice''] then ''number''
      else if ty = ''object-slice'' then ''object''
      else ''string'')"

definition local_parameter :: "FlagDef \<Rightarrow> ToolParameter" where
  "local_parameter f =
     (let ty = inspectParameterType (flagType f) in
      \<lparr>paramName = flagName f, paramType = ty, paramDescription = flagDescription f, paramRequired = Required f,
       paramItems = (if ty = ''array'' then Some (inspectParameterItemType (flagType f)) else None)\<rparr>)"

fun local_commands :: "string list \<Rightarrow> CommandNode \<Rightarrow> MappedCommand list"
  and local_commands_all :: "string list \<Rightarrow> CommandNode option list \<Rightarrow> MappedCommand list" where
  "local_commands parentPath (CommandNode n al h fl ar hr me cs) =
     (let path = parentPath @ [n] in
      (if TrimSpace hr \<noteq> [] \<and> length path \<ge> 2 then
         [\<lparr>mcResource = List.hd path, mcMethod = Join '' '' (tl path), mcToolName = hr, mcDescription = Brief h,
           mcParameters = map local_parameter fl, mcHasFields = False\<rparr>]
       else []) @ local_commands_all path cs)"
| "local_commands_all path [] = []"
| "local_commands_all path (None # cs) = local_commands_all path cs"
| "local_commands_all path (Some c # cs) = local_commands path c @ local_commands_all path cs"

definition localMappedCommands :: "MappedCommand list" where
  "localMappedCommands = local_commands_all [] (Nodes newMeegleLocalCommandTree)"

section \<open>What the tree is\<close>

lemma local_tree_valid: "vErrors (ValidateTree (Some newMeegleLocalCommandTree)) = []"
  unfolding ValidateTree_none by code_simp

lemma local_commands_listed:
  "map (\<lambda>c. (mcResource c, mcMethod c)) localMappedCommands =
     [(''ai-handoff'', ''availability''), (''ai-handoff'', ''create-link''), (''preference'', ''handoff auto''),
      (''preference'', ''handoff ask''), (''preference'', ''handoff off'')]"
  by code_simp

end
