(* ===== verification/Router_Parse.thy ===== *)
theory Router_Parse
  imports Registry Json_Value "HOL-Library.AList"
begin

text \<open>
  \<open>pkg/framework/router\<close>: the parameters of a command.  \<open>parse.go\<close> turns the tokens after the command's
  path into typed flag values and positional arguments; \<open>params.go\<close> folds the JSON of \<open>--params\<close> and the
  assignments of \<open>--set\<close> into them.

  A Go value of type \<open>any\<close> is a tagged value \<open>'f any\<close>, where \<open>'f\<close> is the type of the 64-bit floats;
  \<open>strconv.ParseFloat\<close>, the JSON decoder and the file system are arguments of the operations that call them.  A Go map with
  string keys is an association list with distinct keys, updated by \<open>AList.update\<close>; a nil map is \<open>None\<close>
  where the code can tell it from an empty one.  Writing to a nil map is the result \<open>Panicked\<close>.
\<close>

section \<open>Data\<close>

datatype 'f any =
    VNil
  | VBool bool
  | VInt int
  | VFloat 'f
  | VNumber string
  | VString string
  | VStrings "string list"
  | VNumbers "string list"
  | VList "'f any list"
  | VMap "(string \<times> 'f any) list"

type_synonym 'f value_map = "(string \<times> 'f any) list"

record 'f ParsedCommand =
  cmdNode :: "BuiltNode option"
  FullPath :: "string list"
  Flags :: "'f value_map"
  ExplicitFlags :: "'f value_map"
  Args :: "string list"
  IsHelp :: bool
  RawArgs :: "string list"
  RawFlags :: "(string \<times> string) list"

datatype route_error =
    RegistryNotConfigured
  | InputRequired
  | CommandNotFound
  | InvalidNumericFlag string string
  | ArgumentMissing string
  | VariadicArgumentMissing string
  | TooManyArguments nat nat
  | EmptyParamsPath
  | UnreadableParamsFile string
  | InvalidParamsJson
  | InvalidSetItem string

section \<open>Parsing a value\<close>

fun parse_integers :: "string list \<Rightarrow> string list option" where
  "parse_integers [] = Some []"
| "parse_integers (raw # raws) =
     (case ParseNumber raw of
        None \<Rightarrow> None
      | Some number \<Rightarrow> (if \<not> IsInteger number then None else map_option ((#) number) (parse_integers raws)))"

definition parseValue ::
    "(string \<Rightarrow> 'f option) \<Rightarrow> string \<Rightarrow> string \<Rightarrow> string \<Rightarrow> (route_error, 'f any) result" where
  "parseValue parse_float name val typ =
     (if typ = ''int'' then (case Atoi val of Some i \<Rightarrow> Inr (VInt i) | None \<Rightarrow> Inr (VString val))
      else if typ = ''float'' then (case parse_float val of Some f \<Rightarrow> Inr (VFloat f) | None \<Rightarrow> Inr (VString val))
      else if typ = ''number'' \<or> typ = ''integer'' then
        (case ParseNumber val of
           None \<Rightarrow> Inl (InvalidNumericFlag name typ)
         | Some number \<Rightarrow>
             (if typ = ''integer'' \<and> \<not> IsInteger number then Inl (InvalidNumericFlag name typ)
              else Inr (VNumber number)))
      else if typ = ''integer-slice'' then
        (case parse_integers (Split CHR '','' val) of
           None \<Rightarrow> Inl (InvalidNumericFlag name typ)
         | Some numbers \<Rightarrow> Inr (VNumbers numbers))
      else if typ = ''bool'' then Inr (VBool (val = ''true'' \<or> val = ''1'' \<or> val = ''yes''))
      else if typ = ''string-slice'' \<or> typ = ''string-array'' then Inr (VStrings [val])
      else Inr (VString val))"

section \<open>Parsing the tokens\<close>

record 'f parsed_tokens =
  ptFlags :: "'f value_map"
  ptExplicit :: "'f value_map"
  ptRaw :: "(string \<times> string) list"
  ptArgs :: "string list"
  ptHelp :: bool

text \<open>The maps \<open>flagDefs\<close> and \<open>flagShorts\<close>: of two definitions with one key the later one is kept.\<close>

definition flagDefs :: "FlagDef list \<Rightarrow> string \<Rightarrow> FlagDef option" where
  "flagDefs defs key = map_of (rev (map (\<lambda>d. (ToLower (flagName d), d)) defs)) key"

definition flagShorts :: "FlagDef list \<Rightarrow> string \<Rightarrow> string option" where
  "flagShorts defs short =
     map_of (rev (map (\<lambda>d. (ToLower (Short d), ToLower (flagName d))) (filter (\<lambda>d. Short d \<noteq> []) defs))) short"

definition canConsumeFlagValue :: "FlagDef list \<Rightarrow> string \<Rightarrow> bool" where
  "canConsumeFlagValue defs token =
     (if \<not> HasPrefix token ''-'' \<or> token = ''-'' then True
      else if HasPrefix token ''--'' then
        (let name = fst (Cut CHR ''='' (TrimPrefix token ''--'')) in
         if name = ''help'' then False else flagDefs defs (ToLower name) = None)
      else
        (let short = fst (Cut CHR ''='' (TrimPrefix token ''-'')) in
         if short = ''h'' then False else flagShorts defs (ToLower short) = None))"

definition numbers_of :: "'f any option \<Rightarrow> string list" where
  "numbers_of v = (case v of Some (VNumbers ns) \<Rightarrow> ns | _ \<Rightarrow> [])"

definition storeParsedFlag ::
    "string \<Rightarrow> string \<Rightarrow> 'f any \<Rightarrow> string \<Rightarrow> 'f parsed_tokens \<Rightarrow> 'f parsed_tokens" where
  "storeParsedFlag key raw parsed typ p =
     (if typ = ''integer-slice'' then
        (let merged = numbers_of (map_of (ptFlags p) key) @ numbers_of (Some parsed);
             previous = (case map_of (ptRaw p) key of None \<Rightarrow> [] | Some s \<Rightarrow> s)
         in p\<lparr>ptFlags := AList.update key (VNumbers merged) (ptFlags p),
              ptExplicit := AList.update key (VNumbers merged) (ptExplicit p),
              ptRaw := AList.update key (if previous \<noteq> [] then previous @ '','' @ raw else raw) (ptRaw p)\<rparr>)
      else p\<lparr>ptFlags := AList.update key parsed (ptFlags p),
             ptExplicit := AList.update key parsed (ptExplicit p),
             ptRaw := AList.update key raw (ptRaw p)\<rparr>)"

definition store_value ::
    "(string \<Rightarrow> 'f option) \<Rightarrow> string \<Rightarrow> FlagDef \<Rightarrow> string \<Rightarrow> 'f parsed_tokens \<Rightarrow>
     (route_error, 'f parsed_tokens) result" where
  "store_value parse_float key def raw p =
     (case parseValue parse_float key raw (flagType def) of
        Inl e \<Rightarrow> Inl e
      | Inr v \<Rightarrow> Inr (storeParsedFlag key raw v (flagType def) p))"

text \<open>A flag without \<open>=\<close>: a bool is set, any other flag takes the next token when that is no flag itself.\<close>

definition take_flag ::
    "(string \<Rightarrow> 'f option) \<Rightarrow> FlagDef list \<Rightarrow> string \<Rightarrow> FlagDef \<Rightarrow> string list \<Rightarrow> 'f parsed_tokens \<Rightarrow>
     (route_error, 'f parsed_tokens \<times> string list) result" where
  "take_flag parse_float defs key def rest p =
     (if flagType def = ''bool'' then
        Inr (p\<lparr>ptFlags := AList.update key (VBool True) (ptFlags p),
               ptExplicit := AList.update key (VBool True) (ptExplicit p),
               ptRaw := AList.update key ''true'' (ptRaw p)\<rparr>, rest)
      else
        (case rest of
           [] \<Rightarrow> Inr (p, rest)
         | next # rest' \<Rightarrow>
             (if canConsumeFlagValue defs next then
                (case store_value parse_float key def next p of
                   Inl e \<Rightarrow> Inl e
                 | Inr p' \<Rightarrow> Inr (p', rest'))
              else Inr (p, rest))))"

definition long_flag ::
    "(string \<Rightarrow> 'f option) \<Rightarrow> FlagDef list \<Rightarrow> string \<Rightarrow> string list \<Rightarrow> 'f parsed_tokens \<Rightarrow>
     (route_error, 'f parsed_tokens \<times> string list) result" where
  "long_flag parse_float defs key rest p =
     (if key = ''help'' then Inr (p\<lparr>ptHelp := True\<rparr>, rest)
      else
        (case Cut CHR ''='' key of
           (name, val, True) \<Rightarrow>
             (case flagDefs defs (ToLower name) of
                None \<Rightarrow> Inr (p, rest)
              | Some def \<Rightarrow>
                  (case store_value parse_float (ToLower name) def val p of
                     Inl e \<Rightarrow> Inl e
                   | Inr p' \<Rightarrow> Inr (p', rest)))
         | (name, val, False) \<Rightarrow>
             (case flagDefs defs (ToLower key) of
                None \<Rightarrow> Inr (p, rest)
              | Some def \<Rightarrow> take_flag parse_float defs (ToLower key) def rest p)))"

text \<open>A short name always leads to a definition (\<open>flagShorts_defined\<close>), so the \<open>None\<close> below is not reached.\<close>

definition short_flag ::
    "(string \<Rightarrow> 'f option) \<Rightarrow> FlagDef list \<Rightarrow> string \<Rightarrow> string list \<Rightarrow> 'f parsed_tokens \<Rightarrow>
     (route_error, 'f parsed_tokens \<times> string list) result" where
  "short_flag parse_float defs short rest p =
     (case flagShorts defs (ToLower short) of
        None \<Rightarrow> Inr (p, rest)
      | Some fullName \<Rightarrow>
          (case flagDefs defs fullName of
             None \<Rightarrow> Inr (p, rest)
           | Some def \<Rightarrow> take_flag parse_float defs fullName def rest p))"

definition parse_token ::
    "(string \<Rightarrow> 'f option) \<Rightarrow> FlagDef list \<Rightarrow> string \<Rightarrow> string list \<Rightarrow> 'f parsed_tokens \<Rightarrow>
     (route_error, 'f parsed_tokens \<times> string list) result" where
  "parse_token parse_float defs token rest p =
     (if HasPrefix token ''--'' then long_flag parse_float defs (drop 2 token) rest p
      else if HasPrefix token ''-'' \<and> length token > 1 \<and> token \<noteq> ''-'' then
        short_flag parse_float defs (drop 1 token) rest p
      else Inr (p\<lparr>ptArgs := ptArgs p @ [token]\<rparr>, rest))"

lemma take_flag_rest: "take_flag pf defs key def rest p = Inr (p', rest') \<Longrightarrow> length rest' \<le> length rest"
  by (auto simp: take_flag_def split: if_splits list.splits sum.splits)

lemma parse_token_rest: "parse_token pf defs token rest p = Inr (p', rest') \<Longrightarrow> length rest' \<le> length rest"
  by (auto simp: parse_token_def long_flag_def short_flag_def
      split: if_splits option.splits sum.splits prod.splits bool.splits dest: take_flag_rest)

function parse_loop ::
    "(string \<Rightarrow> 'f option) \<Rightarrow> FlagDef list \<Rightarrow> string list \<Rightarrow> 'f parsed_tokens \<Rightarrow>
     (route_error, 'f parsed_tokens) result" where
  "parse_loop parse_float defs [] p = Inr p"
| "parse_loop parse_float defs (token # rest) p =
     (case parse_token parse_float defs token rest p of
        Inl e \<Rightarrow> Inl e
      | Inr (p', rest') \<Rightarrow> parse_loop parse_float defs rest' p')"
  by pat_completeness auto
termination
  by (relation "measure (\<lambda>(pf, defs, tokens, p). length tokens)")
    (auto simp: less_Suc_eq_le dest: parse_token_rest)

definition parseTokens ::
    "(string \<Rightarrow> 'f option) \<Rightarrow> string list \<Rightarrow> FlagDef list \<Rightarrow> (route_error, 'f parsed_tokens) result" where
  "parseTokens parse_float tokens defs =
     parse_loop parse_float defs tokens \<lparr>ptFlags = [], ptExplicit = [], ptRaw = [], ptArgs = [], ptHelp = False\<rparr>"

section \<open>The arguments and the command\<close>

fun args_loop :: "ArgDef list \<Rightarrow> nat \<Rightarrow> nat \<Rightarrow> (route_error, nat) result" where
  "args_loop [] argIndex n = Inr argIndex"
| "args_loop (d # defs) argIndex n =
     (if argRequired d \<and> argIndex \<ge> n then Inl (ArgumentMissing (argName d))
      else if Variadic d then
        (if argIndex \<ge> n \<and> argRequired d then Inl (VariadicArgumentMissing (argName d)) else args_loop defs n n)
      else args_loop defs (Suc argIndex) n)"

definition route_validateArgs :: "ArgDef list \<Rightarrow> string list \<Rightarrow> route_error option" where
  "route_validateArgs defs args =
     (case args_loop defs 0 (length args) of
        Inl e \<Rightarrow> Some e
      | Inr argIndex \<Rightarrow>
          (if argIndex < length args \<and> (defs = [] \<or> \<not> Variadic (List.last defs))
           then Some (TooManyArguments (length defs) (length args)) else None))"

definition ParseInput ::
    "(string \<Rightarrow> 'f option) \<Rightarrow> Registry option \<Rightarrow> string list option \<Rightarrow> (route_error, 'f ParsedCommand) result" where
  "ParseInput parse_float reg input =
     (case reg of
        None \<Rightarrow> Inl RegistryNotConfigured
      | Some r \<Rightarrow>
          (case input of
             None \<Rightarrow> Inl InputRequired
           | Some tokens \<Rightarrow>
               (case Resolve r tokens of
                  (None, remaining) \<Rightarrow> Inl CommandNotFound
                | (Some n, remaining) \<Rightarrow>
                    (case parseTokens parse_float remaining (AllFlagsForNode r (Some n)) of
                       Inl e \<Rightarrow> Inl e
                     | Inr p \<Rightarrow>
                         (case route_validateArgs (bnArgs n) (ptArgs p) of
                            Some e \<Rightarrow> Inl e
                          | None \<Rightarrow>
                              Inr \<lparr>cmdNode = Some n, FullPath = bnPath n, Flags = ptFlags p, ExplicitFlags = ptExplicit p,
                                   Args = ptArgs p, IsHelp = ptHelp p, RawArgs = tokens, RawFlags = ptRaw p\<rparr>)))))"

section \<open>What parsing guarantees\<close>

text \<open>The Go type of the value that a definition of the given flag type is stored with.\<close>

definition has_type :: "string \<Rightarrow> 'f any \<Rightarrow> bool" where
  "has_type typ v =
     (if typ = ''int'' then (case v of VInt i \<Rightarrow> fits_int64 i | VString s \<Rightarrow> Atoi s = None | _ \<Rightarrow> False)
      else if typ = ''float'' then (case v of VFloat f \<Rightarrow> True | VString s \<Rightarrow> True | _ \<Rightarrow> False)
      else if typ = ''number'' \<or> typ = ''integer'' then
        (case v of VNumber n \<Rightarrow> ParseNumber n = Some n \<and> (typ \<noteq> ''integer'' \<or> IsInteger n) | _ \<Rightarrow> False)
      else if typ = ''integer-slice'' then (case v of VNumbers ns \<Rightarrow> ns \<noteq> [] \<and> list_all IsInteger ns | _ \<Rightarrow> False)
      else if typ = ''bool'' then (case v of VBool b \<Rightarrow> True | _ \<Rightarrow> False)
      else if typ = ''string-slice'' \<or> typ = ''string-array'' then (case v of VStrings ss \<Rightarrow> length ss = 1 | _ \<Rightarrow> False)
      else (case v of VString s \<Rightarrow> True | _ \<Rightarrow> False))"

text \<open>A stored flag belongs to the definition that is in force for its key, and has that definition's type.\<close>

definition typed_entry :: "FlagDef list \<Rightarrow> string \<times> 'f any \<Rightarrow> bool" where
  "typed_entry defs e =
     (case flagDefs defs (fst e) of None \<Rightarrow> False | Some def \<Rightarrow> has_type (flagType def) (snd e))"

definition not_a_flag :: "string \<Rightarrow> bool" where
  "not_a_flag token = (HasPrefix token ''-'' \<longrightarrow> token = ''-'')"

definition tokens_typed :: "FlagDef list \<Rightarrow> 'f parsed_tokens \<Rightarrow> bool" where
  "tokens_typed defs p =
     (list_all (typed_entry defs) (ptFlags p) \<and> distinct (map fst (ptFlags p)) \<and> ptExplicit p = ptFlags p \<and>
      map fst (ptRaw p) = map fst (ptFlags p) \<and> list_all not_a_flag (ptArgs p))"

lemma ParseNumber_idem: "ParseNumber raw = Some n \<Longrightarrow> ParseNumber n = Some n"
  by (auto simp: ParseNumber_def Let_def trim_by_idem split: option.splits)

lemma Atoi_fits: "Atoi s = Some i \<Longrightarrow> fits_int64 i"
  by (auto simp: Atoi_def Let_def split: option.splits if_splits)

lemma parse_integers_ok: "parse_integers raws = Some ns \<Longrightarrow> length ns = length raws \<and> list_all IsInteger ns"
  by (induction raws arbitrary: ns) (auto split: option.splits if_splits)

lemma parseValue_typed:
  assumes v: "parseValue pf name val typ = Inr v" shows "has_type typ v"
proof -
  note unf = parseValue_def[of pf name val "typ"] has_type_def[of "typ" v]
  consider "typ = ''int''" | "typ \<noteq> ''int''" "typ = ''float''"
    | "typ \<noteq> ''int''" "typ \<noteq> ''float''" "typ = ''number'' \<or> typ = ''integer''"
    | "typ \<noteq> ''int''" "typ \<noteq> ''float''" "\<not> (typ = ''number'' \<or> typ = ''integer'')" "typ = ''integer-slice''"
    | "typ \<noteq> ''int''" "typ \<noteq> ''float''" "\<not> (typ = ''number'' \<or> typ = ''integer'')" "typ \<noteq> ''integer-slice''"
    by blast
  then show ?thesis
  proof cases
    case 1
    show ?thesis using v Atoi_fits[of val] unfolding unf if_P[OF 1] by (auto split: option.splits)
  next
    case 2
    show ?thesis using v unfolding unf if_not_P[OF 2(1)] if_P[OF 2(2)] by (auto split: option.splits)
  next
    case 3
    show ?thesis using v ParseNumber_idem[of val] unfolding unf if_not_P[OF 3(1)] if_not_P[OF 3(2)] if_P[OF 3(3)]
      by (auto split: option.splits if_split_asm)
  next
    case 4
    have "ns \<noteq> [] \<and> list_all IsInteger ns" if "parse_integers (Split CHR '','' val) = Some ns" for ns
      using parse_integers_ok[OF that] by (cases ns) simp_all
    then show ?thesis using v unfolding unf if_not_P[OF 4(1)] if_not_P[OF 4(2)] if_not_P[OF 4(3)] if_P[OF 4(4)]
      by (auto split: option.splits)
  next
    case 5
    show ?thesis using v unfolding unf if_not_P[OF 5(1)] if_not_P[OF 5(2)] if_not_P[OF 5(3)] if_not_P[OF 5(4)]
      by (auto split: if_split_asm)
  qed
qed

lemma map_of_rev_pairs: "map_of (rev (map (\<lambda>d. (f d, g d)) ds)) k = Some y \<Longrightarrow> \<exists>d \<in> set ds. k = f d \<and> y = g d"
  by (drule map_of_SomeD) auto

lemma flagDefs_defined: "d \<in> set defs \<Longrightarrow> \<exists>def. flagDefs defs (ToLower (flagName d)) = Some def"
proof -
  assume "d \<in> set defs"
  then have "ToLower (flagName d) \<in> fst ` set (rev (map (\<lambda>d. (ToLower (flagName d), d)) defs))"
    by (simp add: image_image)
  then have "flagDefs defs (ToLower (flagName d)) \<noteq> None" unfolding flagDefs_def map_of_eq_None_iff by simp
  then show ?thesis by simp
qed

lemma flagShorts_defined: "flagShorts defs s = Some key \<Longrightarrow> \<exists>def. flagDefs defs key = Some def"
  unfolding flagShorts_def by (drule map_of_rev_pairs) (use flagDefs_defined in auto)

lemma typed_entry_update:
  assumes "list_all (typed_entry defs) m" and "typed_entry defs (key, v)"
  shows "list_all (typed_entry defs) (AList.update key v m)"
  using assms(1) by (induction m) (auto simp: assms(2))

lemma keys_update: "map fst (AList.update k v m) = (if k \<in> set (map fst m) then map fst m else map fst m @ [k])"
  by (induction m) auto

text \<open>Storing a value of the right type under all three maps keeps them typed.\<close>

lemma tokens_typed_store:
  assumes p: "tokens_typed defs p" and e: "typed_entry defs (key, v)"
  shows "tokens_typed defs (p\<lparr>ptFlags := AList.update key v (ptFlags p), ptExplicit := AList.update key v (ptExplicit p),
            ptRaw := AList.update key raw (ptRaw p)\<rparr>)"
  using p typed_entry_update[of defs "ptFlags p" key v] e
  by (auto simp: tokens_typed_def keys_update distinct_update)

lemma numbers_typed:
  assumes "list_all (typed_entry defs) m" "flagDefs defs key = Some def" "flagType def = ''integer-slice''"
  shows "list_all IsInteger (numbers_of (map_of m key))"
proof (cases "map_of m key")
  case (Some v)
  then have "typed_entry defs (key, v)" using assms(1) map_of_SomeD by (fastforce simp: list_all_iff)
  then have "has_type ''integer-slice'' v" using assms(2,3) by (simp add: typed_entry_def)
  then show ?thesis using Some by (simp add: has_type_def numbers_of_def split: any.splits)
qed (simp add: numbers_of_def)

lemma storeParsedFlag_typed:
  assumes p: "tokens_typed defs p" and d: "flagDefs defs key = Some def" and v: "has_type (flagType def) v"
  shows "tokens_typed defs (storeParsedFlag key raw v (flagType def) p)"
proof (cases "flagType def = ''integer-slice''")
  case True
  let ?merged = "numbers_of (map_of (ptFlags p) key) @ numbers_of (Some v)"
  have "list_all (typed_entry defs) (ptFlags p)" using p by (simp add: tokens_typed_def)
  then have "list_all IsInteger (numbers_of (map_of (ptFlags p) key))" using d True by (rule numbers_typed)
  moreover have "numbers_of (Some v) \<noteq> []" "list_all IsInteger (numbers_of (Some v))"
    using v True by (simp_all add: has_type_def numbers_of_def split: any.splits)
  ultimately have "typed_entry defs (key, VNumbers ?merged)"
    using d True by (simp add: typed_entry_def has_type_def)
  from tokens_typed_store[OF p this] show ?thesis unfolding storeParsedFlag_def Let_def if_P[OF True] .
next
  case False
  have "typed_entry defs (key, v)" using d v by (simp add: typed_entry_def)
  from tokens_typed_store[OF p this] show ?thesis unfolding storeParsedFlag_def if_not_P[OF False] .
qed

lemma store_value_typed:
  "store_value pf key def raw p = Inr p' \<Longrightarrow> tokens_typed defs p \<Longrightarrow> flagDefs defs key = Some def \<Longrightarrow>
   tokens_typed defs p'"
  by (auto simp: store_value_def split: sum.splits intro!: storeParsedFlag_typed dest!: parseValue_typed)

lemma take_flag_typed:
  assumes r: "take_flag pf defs key def rest p = Inr (p', rest')" and p: "tokens_typed defs p"
    and d: "flagDefs defs key = Some def"
  shows "tokens_typed defs p'"
proof (cases "flagType def = ''bool''")
  case True
  then have "typed_entry defs (key, VBool True)" using d by (simp add: typed_entry_def has_type_def)
  from tokens_typed_store[OF p this] show ?thesis using r True by (auto simp: take_flag_def)
next
  case False
  then show ?thesis using r p d store_value_typed[of pf key def _ p p' "defs"]
    unfolding take_flag_def if_not_P[OF False] by (auto split: list.splits if_split_asm sum.splits)
qed

lemma parse_token_typed:
  assumes r: "parse_token pf defs token rest p = Inr (p', rest')" and p: "tokens_typed defs p"
  shows "tokens_typed defs p'"
proof -
  have helped: "tokens_typed defs (p\<lparr>ptHelp := True\<rparr>)" using p by (simp add: tokens_typed_def)
  have long: "tokens_typed defs p'" if "long_flag pf defs key rest p = Inr (p', rest')" for key
    using that p helped store_value_typed[of pf "ToLower (fst (Cut CHR ''='' key))" _ _ p p' "defs"]
    unfolding long_flag_def
    by (auto split: if_split_asm prod.splits bool.splits option.splits sum.splits dest: take_flag_typed)
  have short: "tokens_typed defs p'" if "short_flag pf defs s rest p = Inr (p', rest')" for s
    using that p unfolding short_flag_def by (auto split: option.splits dest: take_flag_typed)
  have plain: "tokens_typed defs (p\<lparr>ptArgs := ptArgs p @ [token]\<rparr>)"
    if "\<not> HasPrefix token ''-'' \<or> length token \<le> 1"
  proof -
    have "not_a_flag token"
      using that by (cases token) (auto simp: not_a_flag_def)
    then show ?thesis using p by (simp add: tokens_typed_def)
  qed
  show ?thesis
    using r long[of "drop 2 token"] short[of "drop 1 token"] plain
    unfolding parse_token_def by (auto split: if_split_asm)
qed

lemma parse_loop_typed: "parse_loop pf defs tokens p = Inr p' \<Longrightarrow> tokens_typed defs p \<Longrightarrow> tokens_typed defs p'"
  by (induction pf "defs" tokens p rule: parse_loop.induct) (auto split: sum.splits prod.splits dest: parse_token_typed)

lemma parseTokens_typed: "parseTokens pf tokens defs = Inr p \<Longrightarrow> tokens_typed defs p"
  unfolding parseTokens_def by (erule parse_loop_typed) (simp add: tokens_typed_def)

text \<open>The arguments fit: every required one is there, and none is left over.\<close>

definition args_fit :: "ArgDef list \<Rightarrow> nat \<Rightarrow> bool" where
  "args_fit defs n =
     (list_all (\<lambda>(i, d). \<not> argRequired d \<or> i < n) (enumerate 0 defs) \<and> (n \<le> length defs \<or> list_ex Variadic defs))"

lemma args_loop_fits:
  "args_loop defs argIndex n = Inr k \<Longrightarrow> i \<le> argIndex \<or> n \<le> argIndex \<Longrightarrow>
   list_all (\<lambda>(j, d). \<not> argRequired d \<or> j < n) (enumerate i defs) \<and>
   (list_ex Variadic defs \<or> k = argIndex + length defs)"
proof (induction defs argIndex n arbitrary: i rule: args_loop.induct)
  case (2 d defs argIndex n)
  show ?case
  proof (cases "Variadic d")
    case True
    then have "\<not> argRequired d \<or> argIndex < n" "args_loop defs n n = Inr k"
      using "2.prems"(1) by (auto split: if_splits)
    moreover have "Suc i \<le> n \<or> n \<le> n" by simp
    ultimately show ?thesis using "2.IH"(1)[OF _ True, of "Suc i"] "2.prems" True by (auto split: if_splits)
  next
    case False
    then have "\<not> argRequired d \<or> argIndex < n" "args_loop defs (Suc argIndex) n = Inr k"
      using "2.prems"(1) by (auto split: if_splits)
    moreover have "Suc i \<le> Suc argIndex \<or> n \<le> Suc argIndex" using "2.prems"(2) by auto
    ultimately show ?thesis using "2.IH"(2)[of "Suc i"] "2.prems"(2) False by (auto split: if_splits)
  qed
qed simp

lemma route_validateArgs_fits: "route_validateArgs defs args = None \<Longrightarrow> args_fit defs (length args)"
proof -
  assume none: "route_validateArgs defs args = None"
  then obtain k where k: "args_loop defs 0 (length args) = Inr k"
    by (auto simp: route_validateArgs_def split: sum.splits)
  with none have "length args \<le> k \<or> (defs \<noteq> [] \<and> Variadic (List.last defs))"
    by (auto simp: route_validateArgs_def split: if_splits)
  moreover have "list_ex Variadic defs" if "defs \<noteq> []" "Variadic (List.last defs)"
    using that last_in_set by (auto simp: list_ex_iff)
  ultimately show ?thesis using args_loop_fits[OF k, of 0] by (auto simp: args_fit_def)
qed

definition well_typed_command :: "FlagDef list \<Rightarrow> BuiltNode \<Rightarrow> 'f ParsedCommand \<Rightarrow> bool" where
  "well_typed_command defs n c =
     (cmdNode c = Some n \<and> FullPath c = bnPath n \<and>
      list_all (typed_entry defs) (Flags c) \<and> distinct (map fst (Flags c)) \<and>
      ExplicitFlags c = Flags c \<and> map fst (RawFlags c) = map fst (Flags c) \<and>
      list_all not_a_flag (Args c) \<and> args_fit (bnArgs n) (length (Args c)))"

text \<open>
  C14.  The command that \<open>ParseInput\<close> returns is well typed: it belongs to the node the tokens resolve to;
  every flag it stores is a flag of that node, stored once, with the Go type its definition declares (an
  exact number for number, an exact integer for integer, a list of exact integers for integer-slice, a
  bool for bool, the raw text where an int or a float does not parse); the explicit flags are the stored
  flags and each has its raw text; no positional argument looks like a flag, every required argument is
  there and none is left over.
\<close>

theorem ParseInput_typed:
  assumes "ParseInput parse_float (Some reg) (Some tokens) = Inr c"
  shows "\<exists>n. fst (Resolve reg tokens) = Some n \<and> well_typed_command (AllFlagsForNode reg (Some n)) n c"
proof -
  from assms obtain n rest p where
    n: "Resolve reg tokens = (Some n, rest)" and
    p: "parseTokens parse_float rest (AllFlagsForNode reg (Some n)) = Inr p" and
    a: "route_validateArgs (bnArgs n) (ptArgs p) = None" and
    c: "c = \<lparr>cmdNode = Some n, FullPath = bnPath n, Flags = ptFlags p, ExplicitFlags = ptExplicit p,
             Args = ptArgs p, IsHelp = ptHelp p, RawArgs = tokens, RawFlags = ptRaw p\<rparr>"
    by (auto simp: ParseInput_def split: prod.splits option.splits sum.splits)
  have "well_typed_command (AllFlagsForNode reg (Some n)) n c"
    using parseTokens_typed[OF p] route_validateArgs_fits[OF a]
    by (simp add: well_typed_command_def tokens_typed_def c)
  with n show ?thesis by simp
qed

definition demo_node :: BuiltNode where
  "demo_node = BuiltNode ''get'' [] \<lparr>Brief = ''b'', Long = [], TemplateVars = [], Examples = []\<rparr>
     [plain_flag ''ids'' [] ''integer-slice'' [] [], plain_flag ''limit'' ''n'' ''int'' [] []]
     [\<lparr>argName = ''id'', argRequired = True, Variadic = False, argDescription = []\<rparr>] ''h''
     \<lparr>metaHidden = False, Dangerous = False, metaDeprecated = [], Scope = [], CommandID = [], Source = [],
       metaRisk = [], ToolName = [], Tags = []\<rparr> [''get''] [] []"

definition demo_registry :: Registry where
  "demo_registry = \<lparr>regTree = \<lparr>treeVersion = [], GlobalFlags = [], Nodes = []\<rparr>, regRoots = [demo_node],
     allNodes = [demo_node]\<rparr>"

definition demo_tokens :: "string list" where
  "demo_tokens = [''get'', ''--ids=1,2'', ''7'', ''-n'', ''5'', ''--ids'', ''3e0'', ''--Verbose'']"

definition demo_command :: "unit ParsedCommand" where
  "demo_command =
     \<lparr>cmdNode = Some demo_node, FullPath = [''get''],
      Flags = [(''ids'', VNumbers [''1'', ''2'', ''3e0'']), (''limit'', VInt 5), (''verbose'', VBool True)],
      ExplicitFlags = [(''ids'', VNumbers [''1'', ''2'', ''3e0'']), (''limit'', VInt 5), (''verbose'', VBool True)],
      Args = [''7''], IsHelp = False, RawArgs = demo_tokens,
      RawFlags = [(''ids'', ''1,2,3e0''), (''limit'', ''5''), (''verbose'', ''true'')]\<rparr>"

lemma demo_parse: "ParseInput (\<lambda>s. None) (Some demo_registry) (Some demo_tokens) = Inr demo_command"
  by code_simp

theorem ParseInput_typed_witness:
  "\<exists>n. fst (Resolve demo_registry demo_tokens) = Some n \<and>
       well_typed_command (AllFlagsForNode demo_registry (Some n)) n demo_command"
  by (rule ParseInput_typed[OF demo_parse])

end
