(* ===== verification/Router_Params.thy ===== *)
theory Router_Params
  imports Router_Parse
begin

text \<open>
  \<open>pkg/framework/router/params.go\<close>: \<open>--params\<close> (a JSON object, or \<open>@file\<close>) and \<open>--set a.b=v\<close> are folded
  into the flags of a command; a flag the user typed wins.  \<open>decode\<close> is the JSON decoder of
  \<open>jsonvalue.Unmarshal\<close> and \<open>read_file\<close> is \<open>os.ReadFile\<close>.

  The result of an operation that may panic is an \<open>outcome\<close>.  Decoding \<open>null\<close> sets the target map to nil,
  hence the option in the type of the decoded parameters.
\<close>

section \<open>Operations\<close>

datatype 'a outcome = Returned 'a | Failed route_error | Panicked

definition put_all :: "'f value_map \<Rightarrow> 'f value_map \<Rightarrow> 'f value_map" where
  "put_all kvs m = fold (\<lambda>(k, v). AList.update k v) kvs m"

fun json_any :: "json \<Rightarrow> 'f any" where
  "json_any JNull = VNil"
| "json_any (JBool b) = VBool b"
| "json_any (JNumber n) = VNumber n"
| "json_any (JString s) = VString s"
| "json_any (JArray vs) = VList (map json_any vs)"
| "json_any (JObject kvs) = VMap (put_all (map (\<lambda>(k, v). (k, json_any v)) kvs) [])"

definition resolveParamsPayload ::
    "(string \<Rightarrow> string option) \<Rightarrow> string \<Rightarrow> (route_error, string) result" where
  "resolveParamsPayload read_file raw =
     (if \<not> HasPrefix raw ''@'' then Inr raw
      else
        (let path = TrimPrefix raw ''@'' in
         if TrimSpace path = [] then Inl EmptyParamsPath
         else (case read_file path of None \<Rightarrow> Inl (UnreadableParamsFile path) | Some data \<Rightarrow> Inr data)))"

definition parseSetKV :: "string \<Rightarrow> (route_error, string list \<times> string) result" where
  "parseSetKV item =
     (case Cut CHR ''='' item of
        (key, val, ok) \<Rightarrow>
          (if \<not> ok \<or> TrimSpace key = [] then Inl (InvalidSetItem item) else Inr (Split CHR ''.'' key, val)))"

fun setNestedField :: "'f value_map \<Rightarrow> string list \<Rightarrow> 'f any \<Rightarrow> 'f value_map" where
  "setNestedField target [] v = target"
| "setNestedField target [key] v = AList.update key v target"
| "setNestedField target (key # key' # path) v =
     (let next = (case map_of target key of Some (VMap m) \<Rightarrow> m | _ \<Rightarrow> [])
      in AList.update key (VMap (setNestedField next (key' # path) v)) target)"

text \<open>\<open>strconv.ParseBool\<close>.\<close>

definition ParseBool :: "string \<Rightarrow> bool option" where
  "ParseBool s =
     (if s \<in> set [''1'', ''t'', ''T'', ''TRUE'', ''true'', ''True''] then Some True
      else if s \<in> set [''0'', ''f'', ''F'', ''FALSE'', ''false'', ''False''] then Some False
      else None)"

definition inferType :: "string \<Rightarrow> 'f any" where
  "inferType val =
     (case ParseNumber val of
        Some parsed \<Rightarrow> VNumber parsed
      | None \<Rightarrow> (case ParseBool val of Some parsed \<Rightarrow> VBool parsed | None \<Rightarrow> VString val))"

text \<open>The map \<open>merged\<close> after \<open>--params\<close>.\<close>

definition load_params ::
    "(string \<Rightarrow> json option) \<Rightarrow> (string \<Rightarrow> string option) \<Rightarrow> 'f value_map \<Rightarrow>
     (route_error, 'f value_map option) result" where
  "load_params decode read_file flags =
     (case map_of flags ''params'' of
        Some (VString raw) \<Rightarrow>
          (if TrimSpace raw = [] then Inr (Some [])
           else
             (case resolveParamsPayload read_file raw of
                Inl e \<Rightarrow> Inl e
              | Inr payload \<Rightarrow>
                  (case decode payload of
                     Some (JObject kvs) \<Rightarrow> Inr (Some (put_all (map (\<lambda>(k, v). (k, json_any v)) kvs) []))
                   | Some JNull \<Rightarrow> Inr None
                   | _ \<Rightarrow> Inl InvalidParamsJson)))
      | _ \<Rightarrow> Inr (Some []))"

fun apply_sets :: "string list \<Rightarrow> 'f value_map option \<Rightarrow> 'f value_map option outcome" where
  "apply_sets [] merged = Returned merged"
| "apply_sets (item # items) merged =
     (case parseSetKV item of
        Inl e \<Rightarrow> Failed e
      | Inr (path, val) \<Rightarrow>
          (case merged of
             None \<Rightarrow> Panicked
           | Some m \<Rightarrow> apply_sets items (Some (setNestedField m path (inferType val)))))"

definition set_items :: "'f value_map \<Rightarrow> string list" where
  "set_items flags = (case map_of flags ''set'' of Some (VStrings rawSets) \<Rightarrow> rawSets | _ \<Rightarrow> [])"

fun promote :: "'f value_map \<Rightarrow> 'f value_map \<times> 'f value_map \<Rightarrow> 'f value_map \<times> 'f value_map" where
  "promote [] maps = maps"
| "promote ((key, v) # merged) (flags, explicit) =
     (if map_of explicit key \<noteq> None then promote merged (flags, explicit)
      else promote merged (AList.update key v flags, AList.update key v explicit))"

definition merged_params ::
    "(string \<Rightarrow> json option) \<Rightarrow> (string \<Rightarrow> string option) \<Rightarrow> 'f value_map \<Rightarrow> 'f value_map option outcome" where
  "merged_params decode read_file flags =
     (case load_params decode read_file flags of
        Inl e \<Rightarrow> Failed e
      | Inr loaded \<Rightarrow> apply_sets (set_items flags) loaded)"

definition map_entries :: "'f value_map option \<Rightarrow> 'f value_map" where
  "map_entries m = (case m of None \<Rightarrow> [] | Some kvs \<Rightarrow> kvs)"

definition MergeStructuredParams ::
    "(string \<Rightarrow> json option) \<Rightarrow> (string \<Rightarrow> string option) \<Rightarrow> 'f value_map \<Rightarrow> 'f value_map \<Rightarrow>
     ('f value_map \<times> 'f value_map) outcome" where
  "MergeStructuredParams decode read_file flags explicit =
     (case merged_params decode read_file flags of
        Failed e \<Rightarrow> Failed e
      | Panicked \<Rightarrow> Panicked
      | Returned merged \<Rightarrow>
          (case promote (map_entries merged) (flags, explicit) of
             (flags', explicit') \<Rightarrow> Returned (AList.delete ''set'' (AList.delete ''params'' flags'), explicit')))"

section \<open>Nested fields\<close>

text \<open>The value at a dotted path.\<close>

fun field_at :: "'f value_map \<Rightarrow> string list \<Rightarrow> 'f any option" where
  "field_at m [] = None"
| "field_at m [key] = map_of m key"
| "field_at m (key # key' # path) =
     (case map_of m key of Some (VMap m') \<Rightarrow> field_at m' (key' # path) | _ \<Rightarrow> None)"

definition diverge :: "string list \<Rightarrow> string list \<Rightarrow> bool" where
  "diverge p q = (take (length q) p \<noteq> q \<and> take (length p) q \<noteq> p)"

lemma map_of_update: "map_of (AList.update k v m) = (map_of m)(k \<mapsto> v)"
  by (rule update_conv')

lemma field_set_same: "p \<noteq> [] \<Longrightarrow> field_at (setNestedField m p v) p = Some v"
  by (induction m p v rule: setNestedField.induct) (simp_all add: map_of_update Let_def)

lemma field_set_diverging:
  "diverge p q \<Longrightarrow> field_at (setNestedField m p v) q = field_at m q"
proof (induction m p v arbitrary: q rule: setNestedField.induct)
  case (2 m k v)
  then obtain k' q' where q: "q = k' # q'" "k' \<noteq> k" by (cases q) (auto simp: diverge_def)
  then show ?case by (cases q') (simp_all add: map_of_update)
next
  case (3 m k k2 path v)
  then obtain k' q' where q: "q = k' # q'" by (cases q) (auto simp: diverge_def)
  show ?case
  proof (cases "k' = k")
    case True
    with 3(2) q have d: "diverge (k2 # path) q'" by (simp add: diverge_def)
    then obtain k3 q'' where q': "q' = k3 # q''" by (cases q') (auto simp: diverge_def)
    have none: "field_at [] (k3 # q'') = None" by (cases q'') simp_all
    show ?thesis using 3(1)[OF refl d] none True unfolding q q'
      by (auto simp: map_of_update Let_def split: option.splits any.splits)
  next
    case False
    then show ?thesis unfolding q by (cases q') (simp_all add: map_of_update Let_def)
  qed
qed (simp add: diverge_def)

section \<open>What the user typed wins\<close>

lemma put_all_distinct: "distinct (map fst m) \<Longrightarrow> distinct (map fst (put_all kvs m))"
  unfolding put_all_def by (induction kvs arbitrary: m) (auto simp: distinct_update)

lemma setNestedField_distinct: "distinct (map fst m) \<Longrightarrow> distinct (map fst (setNestedField m p v))"
  by (induction m p v rule: setNestedField.induct) (simp_all add: distinct_update Let_def)

lemma load_params_distinct: "load_params decode rf flags = Inr m \<Longrightarrow> distinct (map fst (map_entries m))"
  by (auto simp: load_params_def map_entries_def put_all_distinct split: option.splits any.splits if_splits sum.splits json.splits)

lemma apply_sets_distinct:
  "apply_sets items m = Returned m' \<Longrightarrow> distinct (map fst (map_entries m)) \<Longrightarrow> distinct (map fst (map_entries m'))"
  by (induction items m rule: apply_sets.induct)
    (auto split: sum.splits prod.splits option.splits simp: map_entries_def setNestedField_distinct)

lemma merged_params_distinct:
  "merged_params decode rf flags = Returned m \<Longrightarrow> distinct (map fst (map_entries m))"
  by (auto simp: merged_params_def split: sum.splits dest: load_params_distinct apply_sets_distinct)

lemma promote_lookup:
  "promote merged (fs, ex) = (fs', ex') \<Longrightarrow> distinct (map fst merged) \<Longrightarrow>
   map_of fs' k = (if map_of ex k = None \<and> map_of merged k \<noteq> None then map_of merged k else map_of fs k) \<and>
   map_of ex' k = (if map_of ex k = None then map_of merged k else map_of ex k)"
proof (induction merged "(fs, ex)" arbitrary: fs ex rule: promote.induct)
  case (2 key v merged fs ex)
  have fresh: "map_of merged key = None" using "2.prems"(2) by (simp add: map_of_eq_None_iff)
  show ?case
  proof (cases "map_of ex key")
    case None
    with 2 fresh
    show ?thesis by (auto simp: map_of_update)
  next
    case (Some w)
    with 2 fresh show ?thesis by auto
  qed
qed simp

lemma MergeStructuredParams_returned:
  assumes "MergeStructuredParams decode rf flags explicit = Returned (flags', explicit')"
  obtains m where "merged_params decode rf flags = Returned m"
    "\<And>k. map_of flags' k =
       (if k = ''params'' \<or> k = ''set'' then None
        else if map_of explicit k = None \<and> map_of (map_entries m) k \<noteq> None then map_of (map_entries m) k
        else map_of flags k)"
    "\<And>k. map_of explicit' k = (if map_of explicit k = None then map_of (map_entries m) k else map_of explicit k)"
proof -
  from assms obtain m fs where m: "merged_params decode rf flags = Returned m"
    and p: "promote (map_entries m) (flags, explicit) = (fs, explicit')"
    and f: "flags' = AList.delete ''set'' (AList.delete ''params'' fs)"
    by (auto simp: MergeStructuredParams_def split: outcome.splits prod.splits)
  note look = promote_lookup[OF p merged_params_distinct[OF m]]
  show thesis
  proof (rule that[OF m])
    fix k
    show "map_of explicit' k = (if map_of explicit k = None then map_of (map_entries m) k else map_of explicit k)"
      using look by blast
    have "map_of flags' k = (if k = ''params'' \<or> k = ''set'' then None else map_of fs k)"
      unfolding f by (simp add: delete_conv')
    then show "map_of flags' k =
       (if k = ''params'' \<or> k = ''set'' then None
        else if map_of explicit k = None \<and> map_of (map_entries m) k \<noteq> None then map_of (map_entries m) k
        else map_of flags k)"
      using look by (simp only: split: if_split)
  qed
qed

lemma MergeStructuredParams_explicit:
  assumes "MergeStructuredParams decode rf flags explicit = Returned (flags', explicit')"
    and m: "merged_params decode rf flags = Returned m"
  shows "map_of explicit' k = (if map_of explicit k = None then map_of (map_entries m) k else map_of explicit k)"
proof -
  from assms obtain fs where p: "promote (map_entries m) (flags, explicit) = (fs, explicit')"
    by (auto simp: MergeStructuredParams_def split: prod.splits)
  from promote_lookup[OF p merged_params_distinct[OF m]] show ?thesis by blast
qed

text \<open>Merging panics exactly when \<open>--params\<close> is the JSON value null and the first \<open>--set\<close> is well formed.\<close>

lemma apply_sets_panics:
  "apply_sets items m = Panicked \<longleftrightarrow> m = None \<and> items \<noteq> [] \<and> (\<exists>pv. parseSetKV (List.hd items) = Inr pv)"
  by (induction items m rule: apply_sets.induct) (auto split: sum.splits option.splits)

lemma merge_panics_iff:
  "MergeStructuredParams decode rf flags explicit = Panicked \<longleftrightarrow>
   load_params decode rf flags = Inr None \<and> set_items flags \<noteq> [] \<and>
   (\<exists>pv. parseSetKV (List.hd (set_items flags)) = Inr pv)"
proof -
  have "MergeStructuredParams decode rf flags explicit = Panicked \<longleftrightarrow> merged_params decode rf flags = Panicked"
    by (simp add: MergeStructuredParams_def split: outcome.splits prod.splits)
  also have "\<dots> \<longleftrightarrow> (\<exists>m. load_params decode rf flags = Inr m \<and> apply_sets (set_items flags) m = Panicked)"
    by (simp add: merged_params_def split: sum.splits)
  finally show ?thesis unfolding apply_sets_panics by blast
qed

lemma null_params_panic:
  "MergeStructuredParams (\<lambda>s. if s = ''null'' then Some JNull else None) (\<lambda>f. None)
     [(''params'', VString ''null''), (''set'', VStrings [''a=1''])] [] = (Panicked :: (unit value_map \<times> unit value_map) outcome)"
  by code_simp

lemma apply_sets_append:
  "apply_sets (items @ [item]) m = Returned m' \<Longrightarrow>
   \<exists>before path val. apply_sets items m = Returned (Some before) \<and> parseSetKV item = Inr (path, val) \<and>
     m' = Some (setNestedField before path (inferType val))"
  by (induction items m rule: apply_sets.induct) (auto split: sum.splits option.splits prod.splits)

lemma field_at_cong: "map_of m (List.hd p) = map_of m' (List.hd p) \<Longrightarrow> field_at m p = field_at m' p"
proof (cases p)
  case (Cons k q)
  assume "map_of m (List.hd p) = map_of m' (List.hd p)"
  then show ?thesis unfolding Cons by (cases q) simp_all
qed simp

lemma setNestedField_hd: "path \<noteq> [] \<Longrightarrow> map_of (setNestedField m path v) (List.hd path) \<noteq> None"
  by (induction m path v rule: setNestedField.induct) (simp_all add: map_of_update Let_def)

lemma setNestedField_other:
  "k \<noteq> List.hd path \<Longrightarrow> path \<noteq> [] \<Longrightarrow> map_of (setNestedField m path v) k = map_of m k"
  by (induction m path v rule: setNestedField.induct) (simp_all add: map_of_update Let_def)

lemma parseSetKV_path:
  assumes "path \<noteq> []" "list_all (\<lambda>w. CHR ''.'' \<notin> set w \<and> CHR ''='' \<notin> set w) path" "TrimSpace (Join ''.'' path) \<noteq> []"
  shows "parseSetKV (Join ''.'' path @ ''='' @ val) = Inr (path, val)"
proof -
  have "CHR ''='' \<notin> set (Join ''.'' path)" using set_Join[of "''.''" path] assms(2) by (auto simp: list_all_iff)
  then have cut: "Cut CHR ''='' (Join ''.'' path @ ''='' @ val) = (Join ''.'' path, val, True)"
    using Cut_append by simp
  have "Split CHR ''.'' (Join ''.'' path) = path"
    using Split_Join assms(1,2) by (simp add: list_all_iff)
  with cut assms(3) show ?thesis by (simp add: parseSetKV_def)
qed

lemma load_params_update_set: "load_params decode rf (AList.update ''set'' v flags) = load_params decode rf flags"
  by (simp add: load_params_def map_of_update)

text \<open>
  C15.  What \<open>--set\<close> writes is what the command reads, and it changes nothing else.  The last item \<open>a.b.c=v\<close>
  is the value at the path a.b.c of the effective flags (a JSON number keeps its text, a boolean word is a
  bool, anything else a string), unless the user typed a flag of the name a.  Let \<open>before\<close> be what
  \<open>--params\<close> and the items before it gave.  At every path below a that leaves a.b.c the effective flags hold
  what \<open>before\<close> holds.  Every other flag is as it would be without the item: \<open>params\<close> and \<open>set\<close> are gone, a
  typed flag and a flag not in \<open>before\<close> keep their value, any other is the one of \<open>before\<close>; the
  explicit flags gain exactly the structured ones the user did not type.
\<close>

theorem set_param_stored:
  assumes "MergeStructuredParams decode read_file flags explicit = Returned (flags', explicit')"
    and "set_items flags = items @ [Join ''.'' path @ ''='' @ val]"
    and "path \<noteq> []" "list_all (\<lambda>w. CHR ''.'' \<notin> set w \<and> CHR ''='' \<notin> set w) path" "TrimSpace (Join ''.'' path) \<noteq> []"
    and "map_of explicit (List.hd path) = None" "List.hd path \<noteq> ''params''" "List.hd path \<noteq> ''set''"
  shows "field_at flags' path = Some (inferType val) \<and>
     map_of explicit' (List.hd path) = map_of flags' (List.hd path) \<and>
     (\<exists>before. merged_params decode read_file (AList.update ''set'' (VStrings items) flags) = Returned (Some before) \<and>
       (\<forall>q. List.hd q = List.hd path \<longrightarrow> diverge path q \<longrightarrow> field_at flags' q = field_at before q) \<and>
       (\<forall>k. k \<noteq> List.hd path \<longrightarrow>
          map_of flags' k =
            (if k = ''params'' \<or> k = ''set'' then None
             else if map_of explicit k = None \<and> map_of before k \<noteq> None then map_of before k
             else map_of flags k) \<and>
          map_of explicit' k = (if map_of explicit k = None then map_of before k else map_of explicit k)))"
proof -
  obtain m where m: "merged_params decode read_file flags = Returned m"
    and look: "\<And>k. map_of flags' k =
       (if k = ''params'' \<or> k = ''set'' then None
        else if map_of explicit k = None \<and> map_of (map_entries m) k \<noteq> None then map_of (map_entries m) k
        else map_of flags k)"
    using MergeStructuredParams_returned[OF assms(1)] by metis
  note look' = MergeStructuredParams_explicit[OF assms(1) m]
  from m obtain l where l: "load_params decode read_file flags = Inr l"
    and sets: "apply_sets (set_items flags) l = Returned m"
    by (auto simp: merged_params_def split: sum.splits)
  from apply_sets_append[OF sets[unfolded assms(2)]] obtain b where
    b: "apply_sets items l = Returned (Some b)" and m': "m = Some (setNestedField b path (inferType val))"
    unfolding parseSetKV_path[OF assms(3-5)] by auto
  have before: "merged_params decode read_file (AList.update ''set'' (VStrings items) flags) = Returned (Some b)"
    using l b by (simp add: merged_params_def load_params_update_set set_items_def map_of_update)
  have top: "map_of flags' (List.hd path) = map_of (setNestedField b path (inferType val)) (List.hd path)"
    using look[of "List.hd path"] assms(6-8) m' setNestedField_hd[OF assms(3), of b "inferType val"]
    by (simp add: map_entries_def)
  have at: "field_at flags' path = Some (inferType val)"
    using field_at_cong[OF top] field_set_same[OF assms(3)] by simp
  have typed: "map_of explicit' (List.hd path) = map_of flags' (List.hd path)"
    using look'[of "List.hd path"] top m' assms(6) by (simp add: map_entries_def)
  have below: "field_at flags' q = field_at b q" if "List.hd q = List.hd path" "diverge path q" for q
    using field_at_cong[of flags' q "setNestedField b path (inferType val)"] top that field_set_diverging[OF that(2)] by simp
  have others: "map_of flags' k =
       (if k = ''params'' \<or> k = ''set'' then None
        else if map_of explicit k = None \<and> map_of b k \<noteq> None then map_of b k else map_of flags k) \<and>
     map_of explicit' k = (if map_of explicit k = None then map_of b k else map_of explicit k)"
    if "k \<noteq> List.hd path" for k
    using look[of k] look'[of k] setNestedField_other[OF that assms(3), of b "inferType val"] unfolding m'
    by (simp add: map_entries_def)
  show ?thesis using before at typed below others by blast
qed

definition demo_flags :: "unit value_map" where
  "demo_flags = [(''params'', VString ''{}''), (''set'', VStrings [''a.x=1'', ''a.b.c=true'']), (''limit'', VInt 5)]"

definition demo_decode :: "string \<Rightarrow> json option" where
  "demo_decode s = (if s = ''{}'' then Some (JObject [(''limit'', JNumber ''7''), (''a'', JString ''s'')]) else None)"

lemma demo_merge:
  "MergeStructuredParams demo_decode (\<lambda>f. None) demo_flags [(''limit'', VInt 5)] =
     Returned ([(''limit'', VInt 5), (''a'', VMap [(''x'', VNumber ''1''), (''b'', VMap [(''c'', VBool True)])])],
               [(''limit'', VInt 5), (''a'', VMap [(''x'', VNumber ''1''), (''b'', VMap [(''c'', VBool True)])])])"
  by code_simp

lemma demo_sets: "set_items demo_flags = [''a.x=1''] @ [Join ''.'' [''a'', ''b'', ''c''] @ ''='' @ ''true'']"
  by code_simp

theorem set_param_stored_witness:
  "field_at [(''limit'', VInt 5), (''a'', VMap [(''x'', VNumber ''1''), (''b'', VMap [(''c'', VBool True)])])]
     [''a'', ''b'', ''c''] = Some (inferType ''true'' :: unit any)"
  by (rule set_param_stored[OF demo_merge demo_sets, THEN conjunct1]) (code_simp | simp add: TrimSpace_def trim_by_def is_space_def)+

end
