(* ===== verification/Pipeline.thy ===== *)
theory Pipeline
  imports Router_Params
begin

text \<open>
  \<open>pkg/framework/pipeline\<close>: the steps every command passes through (\<open>steps.go\<close>) and the loop that runs
  them (\<open>execute.go\<close>), with the requests of \<open>pkg/framework/executor/types.go\<close>.

  The executor and the output processor are arguments; the run records the names of the steps entered, the
  requests given to the executor and the results given to the processor.  \<open>fmt.Sprint\<close> is modelled on all
  values but floats, whose text is an argument.
\<close>

section \<open>Data\<close>

record source_meta =
  Channel :: string
  srcCommand :: string
  Product :: string
  srcVersion :: string

datatype IOMode = IOModeTTY | IOModeStructured | IOModeProgrammatic

text \<open>The context and the two writers of an input are the surroundings of a run, not data.\<close>

record raw_input =
  inArgs :: "string list"
  inEnv :: "(string \<times> string) list"
  inMode :: IOMode
  inSource :: source_meta

record request_meta =
  DryRun :: bool
  Output :: string
  Select :: string
  Verbose :: bool

record 'f Request =
  reqCommand :: "'f ParsedCommand"
  reqValues :: "'f value_map"
  reqMeta :: request_meta
  reqSource :: source_meta

record 'f NormalizedRequest =
  nrTool :: string
  nrInput :: "'f value_map"
  nrMeta :: request_meta
  nrSource :: source_meta

datatype 'f result_data = Normalized "'f NormalizedRequest" | Plain "'f any"

record 'f RawResult =
  resData :: "'f result_data"
  resMetadata :: "'f value_map"

text \<open>The fields \<open>Err\<close> and \<open>OutputConfig\<close> of the context and \<open>Err\<close> of a result are read by no step.\<close>

record 'f PipelineContext =
  ctxInput :: "raw_input option"
  ctxParsed :: "'f ParsedCommand option"
  ctxResult :: "'f RawResult option"
  ctxValues :: "'f value_map"

record 'f run =
  context_of :: "'f PipelineContext"
  entered :: "string list"
  requests :: "'f Request list"
  written :: "'f RawResult list"

datatype step_error =
    ParsedCommandRequired
  | RouteError route_error
  | ParamRequired string
  | InvalidFlagValue string
  | ExecutorNotConfigured
  | ExecutorError string
  | OutputError string

datatype step_result = Continue | Error step_error | Panic

type_synonym 'f exec = "'f Request \<Rightarrow> (string, 'f RawResult option) result"
type_synonym 'f processor = "'f PipelineContext \<Rightarrow> string option"

record 'f host =
  decodeJson :: "string \<Rightarrow> json option"
  readFile :: "string \<Rightarrow> string option"
  floatText :: "'f \<Rightarrow> string"

datatype 'f pipeline_step =
    ParamMergeStep
  | ParamValidateStep
  | ExecutorStep "'f exec option"
  | OutputStep "'f processor option"

definition no_source :: source_meta where
  "no_source = \<lparr>Channel = [], srcCommand = [], Product = [], srcVersion = []\<rparr>"

section \<open>Values as text\<close>

fun Sprint :: "('f \<Rightarrow> string) \<Rightarrow> 'f any \<Rightarrow> string" where
  "Sprint ft VNil = ''<nil>''"
| "Sprint ft (VBool b) = (if b then ''true'' else ''false'')"
| "Sprint ft (VInt i) = show_int i"
| "Sprint ft (VFloat f) = ft f"
| "Sprint ft (VNumber n) = n"
| "Sprint ft (VString s) = s"
| "Sprint ft (VStrings ss) = ''['' @ Join '' '' ss @ '']''"
| "Sprint ft (VNumbers ns) = ''['' @ Join '' '' ns @ '']''"
| "Sprint ft (VList vs) = ''['' @ Join '' '' (map (Sprint ft) vs) @ '']''"
| "Sprint ft (VMap kvs) =
     ''map['' @ Join '' '' (map (\<lambda>(k, t). k @ '':'' @ t) (sort_key fst (map (\<lambda>(k, v). (k, Sprint ft v)) kvs))) @ '']''"

definition stringValue :: "('f \<Rightarrow> string) \<Rightarrow> 'f any option \<Rightarrow> string" where
  "stringValue ft v = (case v of None \<Rightarrow> [] | Some VNil \<Rightarrow> [] | Some w \<Rightarrow> TrimSpace (Sprint ft w))"

definition boolValue :: "'f any option \<Rightarrow> bool" where
  "boolValue v = (case v of Some (VBool b) \<Rightarrow> b | _ \<Rightarrow> False)"

section \<open>Missing inputs\<close>

record missing_inputs =
  missingFlags :: "string list"
  missingArgs :: "string list"

definition missing_len :: "missing_inputs \<Rightarrow> nat" where
  "missing_len m = length (missingFlags m) + length (missingArgs m)"

definition CollectMissingRequiredInputs :: "'f ParsedCommand \<Rightarrow> missing_inputs" where
  "CollectMissingRequiredInputs c =
     (case cmdNode c of
        None \<Rightarrow> \<lparr>missingFlags = [], missingArgs = []\<rparr>
      | Some n \<Rightarrow>
          \<lparr>missingFlags =
             map flagName (filter (\<lambda>f. Required f \<and> map_of (ExplicitFlags c) (flagName f) = None) (bnFlags n @ bnInherited n)),
           missingArgs =
             map (argName \<circ> snd) (filter (\<lambda>(i, a). argRequired a \<and> i \<ge> length (Args c)) (enumerate 0 (bnArgs n)))\<rparr>)"

definition formatMissingRequiredInputs :: "missing_inputs \<Rightarrow> string" where
  "formatMissingRequiredInputs m =
     (let inputs = map (\<lambda>n. ''--'' @ n) (missingFlags m) @ map (\<lambda>n. ''<'' @ n @ ''>'') (missingArgs m) in
      if length (missingFlags m) = 1 \<and> missingArgs m = [] then
        ''missing required parameter --'' @ List.hd (missingFlags m)
      else if missingFlags m = [] \<and> length (missingArgs m) = 1 then
        ''missing required argument <'' @ List.hd (missingArgs m) @ ''>''
      else if missingArgs m = [] then ''missing required parameters: '' @ Join '', '' inputs
      else if missingFlags m = [] then ''missing required arguments: '' @ Join '', '' inputs
      else ''missing required inputs: '' @ Join '', '' inputs)"

definition containsEnum :: "string list \<Rightarrow> string \<Rightarrow> bool" where
  "containsEnum candidates actual = list_ex (\<lambda>c. c = actual) candidates"

definition enum_violated :: "('f \<Rightarrow> string) \<Rightarrow> 'f value_map \<Rightarrow> FlagDef \<Rightarrow> bool" where
  "enum_violated ft flags f =
     (Enum f \<noteq> [] \<and>
      (case map_of flags (flagName f) of None \<Rightarrow> False | Some v \<Rightarrow> \<not> containsEnum (Enum f) (Sprint ft v)))"

section \<open>The request\<close>

definition builtinFlagSet :: "string list" where
  "builtinFlagSet = map (\<lambda>f. ToLower (flagName f)) BuiltinFlags"

fun put_args :: "ArgDef list \<Rightarrow> string list \<Rightarrow> 'f value_map \<Rightarrow> 'f value_map" where
  "put_args [] args m = m"
| "put_args (d # defs) args m =
     (if Variadic d then (if args \<noteq> [] then AList.update (argName d) (VStrings args) m else m)
      else (case args of
              [] \<Rightarrow> put_args defs [] m
            | a # args' \<Rightarrow> put_args defs args' (AList.update (argName d) (VString a) m)))"

definition BuildInputValues :: "'f ParsedCommand \<Rightarrow> 'f value_map" where
  "BuildInputValues c =
     (case cmdNode c of
        None \<Rightarrow> []
      | Some n \<Rightarrow> put_args (bnArgs n) (Args c) (filter (\<lambda>(k, v). ToLower k \<notin> set builtinFlagSet) (Flags c)))"

definition isDryRun :: "'f ParsedCommand \<Rightarrow> bool" where
  "isDryRun c = (case map_of (Flags c) ''dry-run'' of Some (VBool b) \<Rightarrow> b | _ \<Rightarrow> False)"

definition request_meta_of :: "('f \<Rightarrow> string) \<Rightarrow> 'f ParsedCommand \<Rightarrow> request_meta" where
  "request_meta_of ft c =
     \<lparr>DryRun = isDryRun c, Output = stringValue ft (map_of (Flags c) ''format''),
      Select = stringValue ft (map_of (Flags c) ''select''), Verbose = boolValue (map_of (Flags c) ''verbose'')\<rparr>"

definition source_of :: "raw_input option \<Rightarrow> source_meta" where
  "source_of input = (case input of None \<Rightarrow> no_source | Some i \<Rightarrow> inSource i)"

definition BuildNormalizedRequest ::
    "('f \<Rightarrow> string) \<Rightarrow> raw_input option \<Rightarrow> 'f ParsedCommand \<Rightarrow> 'f value_map \<Rightarrow> 'f NormalizedRequest" where
  "BuildNormalizedRequest ft input c vals =
     \<lparr>nrTool = (case cmdNode c of None \<Rightarrow> [] | Some n \<Rightarrow> bnHandler n), nrInput = vals,
      nrMeta = request_meta_of ft c, nrSource = source_of input\<rparr>"

section \<open>The steps\<close>

definition with_context :: "('f PipelineContext \<Rightarrow> 'f PipelineContext) \<Rightarrow> 'f run \<Rightarrow> 'f run" where
  "with_context f r = r\<lparr>context_of := f (context_of r)\<rparr>"

definition merge_step :: "'f host \<Rightarrow> 'f run \<Rightarrow> step_result \<times> 'f run" where
  "merge_step h r =
     (case ctxParsed (context_of r) of
        None \<Rightarrow> (Error ParsedCommandRequired, r)
      | Some c \<Rightarrow>
          (case MergeStructuredParams (decodeJson h) (readFile h) (Flags c) (ExplicitFlags c) of
             Failed e \<Rightarrow> (Error (RouteError e), r)
           | Panicked \<Rightarrow> (Panic, r)
           | Returned (flags, explicit) \<Rightarrow>
               (Continue, with_context (\<lambda>x. x\<lparr>ctxParsed := Some (c\<lparr>Flags := flags, ExplicitFlags := explicit\<rparr>)\<rparr>) r)))"

definition validate_step :: "'f host \<Rightarrow> 'f run \<Rightarrow> step_result \<times> 'f run" where
  "validate_step h r =
     (case ctxParsed (context_of r) of
        None \<Rightarrow> (Error ParsedCommandRequired, r)
      | Some c \<Rightarrow>
          (case cmdNode c of
             None \<Rightarrow> (Error ParsedCommandRequired, r)
           | Some n \<Rightarrow>
               (let missing = CollectMissingRequiredInputs c in
                if missing_len missing > 0 then (Error (ParamRequired (formatMissingRequiredInputs missing)), r)
                else (case find (enum_violated (floatText h) (Flags c)) (bnInherited n @ bnFlags n) of
                        Some f \<Rightarrow> (Error (InvalidFlagValue (flagName f)), r)
                      | None \<Rightarrow> (Continue, r)))))"

definition request_for :: "'f host \<Rightarrow> raw_input option \<Rightarrow> 'f ParsedCommand \<Rightarrow> 'f Request" where
  "request_for h input c =
     \<lparr>reqCommand = c, reqValues = BuildInputValues c, reqMeta = request_meta_of (floatText h) c,
      reqSource = source_of input\<rparr>"

definition dry_run_result :: "'f host \<Rightarrow> raw_input option \<Rightarrow> 'f ParsedCommand \<Rightarrow> 'f RawResult" where
  "dry_run_result h input c =
     \<lparr>resData = Normalized (BuildNormalizedRequest (floatText h) input c (BuildInputValues c)),
      resMetadata = [(''tool'', VString ''meta.dry_run''), (''dry_run'', VBool True)]\<rparr>"

definition executor_step :: "'f host \<Rightarrow> 'f exec option \<Rightarrow> 'f run \<Rightarrow> step_result \<times> 'f run" where
  "executor_step h ex r =
     (case ctxParsed (context_of r) of
        None \<Rightarrow> (Error ParsedCommandRequired, r)
      | Some c \<Rightarrow>
          (let input = ctxInput (context_of r);
               r1 = with_context (\<lambda>x. x\<lparr>ctxValues := BuildInputValues c\<rparr>) r
           in if isDryRun c then
                (Continue, with_context (\<lambda>x. x\<lparr>ctxResult := Some (dry_run_result h input c)\<rparr>) r1)
              else
                (case ex of
                   None \<Rightarrow> (Error ExecutorNotConfigured, r1)
                 | Some run_it \<Rightarrow>
                     (let req = request_for h input c;
                          r2 = r1\<lparr>requests := requests r1 @ [req]\<rparr>
                      in case run_it req of
                           Inl e \<Rightarrow> (Error (ExecutorError e), r2)
                         | Inr res \<Rightarrow> (Continue, with_context (\<lambda>x. x\<lparr>ctxResult := res\<rparr>) r2)))))"

definition output_step :: "'f processor option \<Rightarrow> 'f run \<Rightarrow> step_result \<times> 'f run" where
  "output_step pr r =
     (case (pr, ctxResult (context_of r)) of
        (Some process, Some res) \<Rightarrow>
          (let r1 = r\<lparr>written := written r @ [res]\<rparr>
           in case process (context_of r) of None \<Rightarrow> (Continue, r1) | Some e \<Rightarrow> (Error (OutputError e), r1))
      | _ \<Rightarrow> (Continue, r))"

fun step_name :: "'f pipeline_step \<Rightarrow> string" where
  "step_name ParamMergeStep = ''param_merge''"
| "step_name ParamValidateStep = ''param_validate''"
| "step_name (ExecutorStep ex) = ''executor''"
| "step_name (OutputStep pr) = ''output''"

fun exec_step :: "'f host \<Rightarrow> 'f pipeline_step \<Rightarrow> 'f run \<Rightarrow> step_result \<times> 'f run" where
  "exec_step h ParamMergeStep r = merge_step h r"
| "exec_step h ParamValidateStep r = validate_step h r"
| "exec_step h (ExecutorStep ex) r = executor_step h ex r"
| "exec_step h (OutputStep pr) r = output_step pr r"

fun run_steps :: "'f host \<Rightarrow> 'f pipeline_step option list \<Rightarrow> 'f run \<Rightarrow> step_result \<times> 'f run" where
  "run_steps h [] r = (Continue, r)"
| "run_steps h (None # steps) r = run_steps h steps r"
| "run_steps h (Some st # steps) r =
     (case exec_step h st (r\<lparr>entered := entered r @ [step_name st]\<rparr>) of
        (Continue, r') \<Rightarrow> run_steps h steps r'
      | (Error e, r') \<Rightarrow> (Error e, r')
      | (Panic, r') \<Rightarrow> (Panic, r'))"

text \<open>\<open>Pipeline.Execute\<close>; a nil pipeline does nothing, a nil state is an empty one.\<close>

definition empty_context :: "'f PipelineContext" where
  "empty_context = \<lparr>ctxInput = None, ctxParsed = None, ctxResult = None, ctxValues = []\<rparr>"

definition start_run :: "'f PipelineContext option \<Rightarrow> 'f run" where
  "start_run state =
     \<lparr>context_of = (case state of None \<Rightarrow> empty_context | Some s \<Rightarrow> s), entered = [], requests = [], written = []\<rparr>"

definition Execute ::
    "'f host \<Rightarrow> 'f pipeline_step option list option \<Rightarrow> 'f PipelineContext option \<Rightarrow> step_result \<times> 'f run" where
  "Execute h p state =
     (case p of
        None \<Rightarrow> (Continue, start_run state)
      | Some steps \<Rightarrow> run_steps h steps (start_run state))"

section \<open>The pipeline of the command line\<close>

text \<open>\<open>DefaultPipelineFactory\<close> of \<open>pkg/runtime/cliapp/defaults.go\<close>, and the state \<open>executeParsed\<close> starts with.\<close>

definition DefaultPipeline :: "'f exec option \<Rightarrow> 'f processor \<Rightarrow> 'f pipeline_step option list" where
  "DefaultPipeline ex pr =
     [Some ParamMergeStep, Some ParamValidateStep, Some (ExecutorStep ex), Some (OutputStep (Some pr))]"

definition new_context :: "raw_input option \<Rightarrow> 'f ParsedCommand \<Rightarrow> 'f PipelineContext" where
  "new_context input c = \<lparr>ctxInput = input, ctxParsed = Some c, ctxResult = None, ctxValues = []\<rparr>"

definition run_command ::
    "'f host \<Rightarrow> 'f exec option \<Rightarrow> 'f processor \<Rightarrow> raw_input option \<Rightarrow> 'f ParsedCommand \<Rightarrow> step_result \<times> 'f run" where
  "run_command h ex pr input c = Execute h (Some (DefaultPipeline ex pr)) (Some (new_context input c))"

text \<open>The values the user typed as flags are still there.\<close>

definition typed_flags_kept :: "'f ParsedCommand \<Rightarrow> 'f ParsedCommand \<Rightarrow> bool" where
  "typed_flags_kept c0 c =
     list_all (\<lambda>k. k \<in> set [''params'', ''set''] \<or> map_of (Flags c) k = map_of (Flags c0) k) (map fst (ExplicitFlags c0))"

definition inputs_valid :: "'f host \<Rightarrow> 'f ParsedCommand \<Rightarrow> bool" where
  "inputs_valid h c =
     (case cmdNode c of
        None \<Rightarrow> False
      | Some n \<Rightarrow>
          list_all (\<lambda>f. \<not> Required f \<or> map_of (ExplicitFlags c) (flagName f) \<noteq> None) (bnFlags n @ bnInherited n) \<and>
          list_all (\<lambda>(i, a). \<not> argRequired a \<or> i < length (Args c)) (enumerate 0 (bnArgs n)) \<and>
          list_all (\<lambda>f. \<not> enum_violated (floatText h) (Flags c) f) (bnFlags n @ bnInherited n))"

definition lawful_request :: "'f host \<Rightarrow> raw_input option \<Rightarrow> 'f ParsedCommand \<Rightarrow> 'f ParsedCommand \<Rightarrow> 'f Request \<Rightarrow> bool" where
  "lawful_request h input c0 c req =
     (req = request_for h input c \<and>
      \<not> isDryRun c \<and> inputs_valid h c \<and> typed_flags_kept c0 c \<and> cmdNode c = cmdNode c0 \<and> Args c = Args c0)"

lemma no_missing_inputs:
  "cmdNode c = Some n \<Longrightarrow> missing_len (CollectMissingRequiredInputs c) = 0 \<Longrightarrow>
   list_all (\<lambda>f. \<not> Required f \<or> map_of (ExplicitFlags c) (flagName f) \<noteq> None) (bnFlags n @ bnInherited n) \<and>
   list_all (\<lambda>(i, a). \<not> argRequired a \<or> i < length (Args c)) (enumerate 0 (bnArgs n))"
  by (auto simp: missing_len_def CollectMissingRequiredInputs_def list_all_iff filter_empty_conv not_le)

text \<open>Each step as a case distinction on what it leaves behind.\<close>

lemma merge_step_cases:
  assumes "merge_step h r = (out, r')" "ctxParsed (context_of r) = Some c0"
  obtains "out \<noteq> Continue" "r' = r"
    | c where "out = Continue" "r' = with_context (\<lambda>x. x\<lparr>ctxParsed := Some c\<rparr>) r" "typed_flags_kept c0 c"
      "cmdNode c = cmdNode c0" "Args c = Args c0"
proof (cases "MergeStructuredParams (decodeJson h) (readFile h) (Flags c0) (ExplicitFlags c0)")
  case (Returned maps)
  obtain fs ex where maps: "maps = (fs, ex)" by (cases maps)
  note merged = Returned[unfolded maps]
  obtain m where look: "\<And>k. map_of fs k =
       (if k = ''params'' \<or> k = ''set'' then None
        else if map_of (ExplicitFlags c0) k = None \<and> map_of (map_entries m) k \<noteq> None then map_of (map_entries m) k
        else map_of (Flags c0) k)"
    by (rule MergeStructuredParams_returned[OF merged]) (rule that)
  have "map_of fs k = map_of (Flags c0) k"
    if "k \<in> set (map fst (ExplicitFlags c0))" "k \<noteq> ''params''" "k \<noteq> ''set''" for k
  proof -
    have "map_of (ExplicitFlags c0) k \<noteq> None" using that(1) by (simp add: map_of_eq_None_iff)
    then show ?thesis unfolding look[of k] using that(2,3) by auto
  qed
  then have "typed_flags_kept c0 (c0\<lparr>Flags := fs, ExplicitFlags := ex\<rparr>)"
    unfolding typed_flags_kept_def list_all_iff by auto
  moreover have "out = Continue \<and> r' = with_context (\<lambda>x. x\<lparr>ctxParsed := Some (c0\<lparr>Flags := fs, ExplicitFlags := ex\<rparr>)\<rparr>) r"
    using assms merged by (simp add: merge_step_def)
  ultimately show thesis using that(2) by simp
qed (use assms that(1) in \<open>auto simp: merge_step_def\<close>)

lemma validate_step_facts:
  assumes "validate_step h r = (out, r')" "ctxParsed (context_of r) = Some c"
  shows "r' = r" "out = Continue \<Longrightarrow> inputs_valid h c"
proof -
  show "r' = r" using assms by (auto simp: validate_step_def Let_def split: option.splits if_splits)
  assume "out = Continue"
  then obtain n where n: "cmdNode c = Some n" "missing_len (CollectMissingRequiredInputs c) = 0"
    "find (enum_violated (floatText h) (Flags c)) (bnInherited n @ bnFlags n) = None"
    using assms by (auto simp: validate_step_def Let_def split: option.splits if_splits)
  then show "inputs_valid h c"
    using no_missing_inputs[OF n(1,2)] by (auto simp: inputs_valid_def find_None_iff list_all_iff)
qed

lemma executor_step_facts:
  assumes "executor_step h ex r = (out, r')" "ctxParsed (context_of r) = Some c" "ctxResult (context_of r) = None"
  shows "ctxParsed (context_of r') = Some c" "written r' = written r"
    "requests r' = requests r \<or>
     \<not> isDryRun c \<and> requests r' = requests r @
        [request_for h (ctxInput (context_of r)) c]"
    "out = Continue \<Longrightarrow> \<not> isDryRun c \<Longrightarrow> length (requests r') = Suc (length (requests r))"
    "isDryRun c \<Longrightarrow> out = Continue \<and> ctxResult (context_of r') = Some (dry_run_result h (ctxInput (context_of r)) c)"
  using assms by (auto simp: executor_step_def with_context_def Let_def split: if_splits option.splits sum.splits)

lemma output_step_facts:
  assumes "output_step pr r = (out, r')"
  shows "context_of r' = context_of r" "requests r' = requests r"
    "pr \<noteq> None \<Longrightarrow> written r' = written r @ (case ctxResult (context_of r) of None \<Rightarrow> [] | Some res \<Rightarrow> [res])"
  using assms by (auto simp: output_step_def Let_def split: option.splits)

lemma run_Continue: "run_steps h (Some st # steps) r = (out, r') \<Longrightarrow>
   (\<And>r1. exec_step h st (r\<lparr>entered := entered r @ [step_name st]\<rparr>) = (Continue, r1) \<Longrightarrow> run_steps h steps r1 = (out, r') \<Longrightarrow> P) \<Longrightarrow>
   (exec_step h st (r\<lparr>entered := entered r @ [step_name st]\<rparr>) = (out, r') \<Longrightarrow> out \<noteq> Continue \<Longrightarrow> P) \<Longrightarrow> P"
  by (auto split: prod.splits step_result.splits)

text \<open>From a validated command on: at most one request, none on a dry run.\<close>

definition executed_as ::
    "'f host \<Rightarrow> raw_input option \<Rightarrow> 'f ParsedCommand \<Rightarrow> step_result \<Rightarrow> 'f run \<Rightarrow> bool" where
  "executed_as h input c out r =
     (ctxParsed (context_of r) = Some c \<and>
      (requests r = [] \<or> \<not> isDryRun c \<and> requests r = [request_for h input c]) \<and>
      (out = Continue \<longrightarrow> \<not> isDryRun c \<longrightarrow> requests r \<noteq> []) \<and>
      (isDryRun c \<longrightarrow> written r = [dry_run_result h input c]))"

lemma run_validated:
  assumes run: "run_steps h [Some (ExecutorStep ex), Some (OutputStep (Some pr))] r = (out, r')"
    and r: "ctxParsed (context_of r) = Some c" "ctxResult (context_of r) = None" "requests r = []" "written r = []"
  shows "executed_as h (ctxInput (context_of r)) c out r'"
proof (rule run_Continue[OF run])
  fix r1
  assume e: "exec_step h (ExecutorStep ex) (r\<lparr>entered := entered r @ [step_name (ExecutorStep ex)]\<rparr>) = (Continue, r1)"
    and o: "run_steps h [Some (OutputStep (Some pr))] r1 = (out, r')"
  from o have "exec_step h (OutputStep (Some pr)) (r1\<lparr>entered := entered r1 @ [step_name (OutputStep (Some pr))]\<rparr>) = (out, r')"
    by (auto split: prod.splits step_result.splits)
  note of' = output_step_facts[OF this[unfolded exec_step.simps]]
  show ?thesis
    using executor_step_facts[OF e[unfolded exec_step.simps], of c] of' r by (auto simp: executed_as_def)
next
  assume e: "exec_step h (ExecutorStep ex) (r\<lparr>entered := entered r @ [step_name (ExecutorStep ex)]\<rparr>) = (out, r')"
    and "out \<noteq> Continue"
  then show ?thesis
    using executor_step_facts[OF e[unfolded exec_step.simps], of c] r by (auto simp: executed_as_def)
qed

lemma run_merged:
  assumes run: "run_steps h [Some ParamValidateStep, Some (ExecutorStep ex), Some (OutputStep (Some pr))] r = (out, r')"
    and r: "ctxParsed (context_of r) = Some c" "ctxResult (context_of r) = None" "requests r = []" "written r = []"
  shows "requests r' = [] \<and> out \<noteq> Continue \<or> inputs_valid h c \<and> executed_as h (ctxInput (context_of r)) c out r'"
proof (rule run_Continue[OF run])
  fix r1
  assume v: "exec_step h ParamValidateStep (r\<lparr>entered := entered r @ [step_name ParamValidateStep]\<rparr>) = (Continue, r1)"
    and tail: "run_steps h [Some (ExecutorStep ex), Some (OutputStep (Some pr))] r1 = (out, r')"
  note facts = validate_step_facts[OF v[unfolded exec_step.simps], of c]
  have "executed_as h (ctxInput (context_of r)) c out r'" using run_validated[OF tail, of c] facts(1) r by simp
  then show ?thesis using facts(2) r by simp
next
  assume v: "exec_step h ParamValidateStep (r\<lparr>entered := entered r @ [step_name ParamValidateStep]\<rparr>) = (out, r')"
    and "out \<noteq> Continue"
  then show ?thesis using validate_step_facts(1)[OF v[unfolded exec_step.simps], of c] r by simp
qed

lemma executed_lawfully:
  assumes e: "requests r = [] \<and> out \<noteq> Continue \<or> inputs_valid h c \<and> executed_as h input c out r"
    and c: "typed_flags_kept c0 c" "cmdNode c = cmdNode c0" "Args c = Args c0"
  shows "(requests r = [] \<or> (\<exists>c req. requests r = [req] \<and> lawful_request h input c0 c req)) \<and>
     (out = Continue \<longrightarrow>
        (\<exists>c. ctxParsed (context_of r) = Some c \<and> inputs_valid h c \<and> typed_flags_kept c0 c \<and>
           (if isDryRun c then requests r = [] \<and> written r = [dry_run_result h input c] else length (requests r) = 1)))"
  using e
proof
  assume "inputs_valid h c \<and> executed_as h input c out r"
  then have v: "inputs_valid h c" and p: "ctxParsed (context_of r) = Some c"
    and q: "requests r = [] \<or> \<not> isDryRun c \<and> requests r = [request_for h input c]"
    and d: "out = Continue \<longrightarrow> \<not> isDryRun c \<longrightarrow> requests r \<noteq> []" "isDryRun c \<longrightarrow> written r = [dry_run_result h input c]"
    unfolding executed_as_def by blast+
  have "lawful_request h input c0 c (request_for h input c)" if "\<not> isDryRun c"
    using v c that by (simp add: lawful_request_def)
  with q have 1: "requests r = [] \<or> (\<exists>c req. requests r = [req] \<and> lawful_request h input c0 c req)" by blast
  have "if isDryRun c then requests r = [] \<and> written r = [dry_run_result h input c] else length (requests r) = 1"
    if "out = Continue" using q d that by auto
  with 1 p v c(1) show ?thesis by blast
qed simp

text \<open>
  C16.  The executor sees a command at most once, and only a command in order: every required flag and
  argument is there, every flag with an enum has one of its values, it is no dry run, the values the user
  typed as flags are those of the command whatever \<open>--params\<close> and \<open>--set\<close> say, and node and positional
  arguments are the parsed ones.  When the run succeeds the executor was called, unless the command is a
  dry run, whose normalized request is then what is written.
\<close>

theorem pipeline_executes_lawfully:
  assumes "run_command h ex pr input c0 = (out, r)"
  shows "(requests r = [] \<or> (\<exists>c req. requests r = [req] \<and> lawful_request h input c0 c req)) \<and>
     (out = Continue \<longrightarrow>
        (\<exists>c. ctxParsed (context_of r) = Some c \<and> inputs_valid h c \<and> typed_flags_kept c0 c \<and>
           (if isDryRun c then requests r = [] \<and> written r = [dry_run_result h input c] else length (requests r) = 1)))"
proof -
  let ?start = "start_run (Some (new_context input c0))"
  note start = start_run_def new_context_def with_context_def
  have run: "run_steps h [Some ParamMergeStep, Some ParamValidateStep, Some (ExecutorStep ex), Some (OutputStep (Some pr))]
      ?start = (out, r)"
    using assms by (simp add: run_command_def Execute_def DefaultPipeline_def)
  show ?thesis
  proof (rule run_Continue[OF run])
    fix r1
    assume m: "exec_step h ParamMergeStep (?start\<lparr>entered := entered ?start @ [step_name ParamMergeStep]\<rparr>) = (Continue, r1)"
      and rest: "run_steps h [Some ParamValidateStep, Some (ExecutorStep ex), Some (OutputStep (Some pr))] r1 = (out, r)"
    obtain c where c: "typed_flags_kept c0 c" "cmdNode c = cmdNode c0" "Args c = Args c0"
      and r1: "ctxParsed (context_of r1) = Some c" "ctxResult (context_of r1) = None" "ctxInput (context_of r1) = input"
        "requests r1 = []" "written r1 = []"
      by (rule merge_step_cases[OF m[unfolded exec_step.simps], of c0]) (auto simp: start)
    have "requests r = [] \<and> out \<noteq> Continue \<or> inputs_valid h c \<and> executed_as h input c out r"
      using run_merged[OF rest r1(1,2,4,5)] unfolding r1(3) .
    then show ?thesis by (rule executed_lawfully) (use c in simp_all)
  next
    assume m: "exec_step h ParamMergeStep (?start\<lparr>entered := entered ?start @ [step_name ParamMergeStep]\<rparr>) = (out, r)"
      and "out \<noteq> Continue"
    then have "requests r = []" by (auto simp: start intro: merge_step_cases[OF m[unfolded exec_step.simps], of c0])
    with \<open>out \<noteq> Continue\<close> show ?thesis by simp
  qed
qed

definition demo_host :: "unit host" where
  "demo_host = \<lparr>decodeJson = demo_decode, readFile = (\<lambda>f. None), floatText = (\<lambda>f. [])\<rparr>"

definition demo_exec :: "unit exec" where
  "demo_exec req = Inr (Some \<lparr>resData = Plain (VMap (reqValues req)), resMetadata = []\<rparr>)"

lemma demo_requests:
  "map reqValues (requests (snd (run_command demo_host (Some demo_exec) (\<lambda>x. None) None
     (demo_command\<lparr>Flags := (''params'', VString ''{}'') # Flags demo_command\<rparr>)))) =
   [[(''ids'', VNumbers [''1'', ''2'', ''3e0'']), (''limit'', VInt 5), (''a'', VString ''s''), (''id'', VString ''7'')]]"
  by code_simp

theorem pipeline_executes_lawfully_witness:
  "\<exists>c req. requests (snd (run_command demo_host (Some demo_exec) (\<lambda>x. None) None
       (demo_command\<lparr>Flags := (''params'', VString ''{}'') # Flags demo_command\<rparr>))) = [req] \<and>
     lawful_request demo_host None (demo_command\<lparr>Flags := (''params'', VString ''{}'') # Flags demo_command\<rparr>) c req"
  using pipeline_executes_lawfully[of demo_host "Some demo_exec" "\<lambda>x. None" None
      "demo_command\<lparr>Flags := (''params'', VString ''{}'') # Flags demo_command\<rparr>", OF prod.collapse[symmetric]]
    demo_requests by (auto simp del: run_command_def)

text \<open>
  A flag declared with a capital letter is filed under its lower-case name by the parser and looked up
  under its declared name by the validation.
\<close>

lemma capital_flag_missing:
  "let n = BuiltNode ''get'' [] \<lparr>Brief = ''b'', Long = [], TemplateVars = [], Examples = []\<rparr>
         [(plain_flag ''Name'' [] ''string'' [] [])\<lparr>Required := True\<rparr>] [] ''h'' (bnMeta demo_node) [''get''] [] []
   in case ParseInput (\<lambda>s. None :: unit option) (Some (demo_registry\<lparr>regRoots := [n], allNodes := [n]\<rparr>))
        (Some [''get'', ''--Name=x'']) of
        Inl e \<Rightarrow> False
      | Inr c \<Rightarrow> CollectMissingRequiredInputs c = \<lparr>missingFlags = [''Name''], missingArgs = []\<rparr>"
  by code_simp

end
