(* ===== verification/Batch_Ids.thy ===== *)
theory Batch_Ids
  imports Pipeline
begin

text \<open>
  \<open>internal/products/meegle/batch.go\<close>, first half: the identifiers of a batch command.  They come from a flag
  and from a file, are checked, counted and kept once each; two spellings of one integer (1000, 1e3, 1000.0)
  are one identifier, decided on a key that is never longer than the number.
\<close>

section \<open>The key of a number\<close>

text \<open>\<open>big.Int.SetString\<close> with base 10; an exponent of a JSON number always parses.\<close>

definition big_SetString :: "string \<Rightarrow> int" where
  "big_SetString s = (if HasPrefix s ''-'' then - int (decimal (TrimPrefix s ''-'')) else int (decimal (TrimPrefix s ''+'')))"

definition canonicalIntegerKey :: "string \<Rightarrow> string" where
  "canonicalIntegerKey raw =
     (let neg = HasPrefix raw ''-''; unsigned = TrimPrefix raw ''-'';
          (mantissa, exponentText, hasExponent) = cut_exponent unsigned;
          (integer, frac, hasFraction) = Cut CHR ''.'' mantissa;
          digits = TrimLeftZeros (if hasFraction then integer @ frac else mantissa)
      in if digits = [] then ''0''
         else (let trailingZeros = length digits - length (TrimRightZeros digits);
                   coefficient = TrimRightZeros digits;
                   expo = (if hasExponent then big_SetString exponentText else 0);
                   fractionDigits = (if hasFraction then length frac else 0)
               in (if neg then ''-'' else []) @ coefficient @ ''e'' @
                  show_int (expo + (int trailingZeros - int fractionDigits))))"

section \<open>Equal keys are equal numbers\<close>

text \<open>The digits of a number without zeros at either end, and the exponent that goes with them.\<close>

definition core_digits :: "number_parts \<Rightarrow> string" where
  "core_digits p = TrimRightZeros (TrimLeftZeros (coefficient_of p))"

definition core_exponent :: "number_parts \<Rightarrow> int" where
  "core_exponent p = scale_of p + int (trailing (TrimLeftZeros (coefficient_of p)))"

lemma big_SetString_exponent:
  assumes "parts_ok p" shows "(if exponent p \<noteq> None then big_SetString (exp_text p) else 0) = exp_value p"
proof (cases "exponent p")
  case (Some x)
  obtain c sign ds where x: "exponent p = Some (c, sign, ds)" using Some by (cases x) auto
  with assms have s: "sign = [] \<or> sign = ''+'' \<or> sign = ''-''" and d: "list_all is_digit ds" by (auto simp: parts_ok_def)
  note no = HasPrefix_digit[OF d digit_not(1)] TrimPrefix_digit[OF d digit_not(2)]
  show ?thesis using s x no
    by (auto simp: big_SetString_def exp_text_def exp_value_def TrimPrefix_def)
qed (simp add: exp_value_def)

lemma key_of_parts:
  assumes ok: "parts_ok p"
  shows "canonicalIntegerKey (parts_text p) =
     (if TrimLeftZeros (coefficient_of p) = [] then ''0''
      else (if negative p then ''-'' else []) @ core_digits p @ ''e'' @ show_int (core_exponent p))"
proof -
  have coef: "(if fraction p \<noteq> None then intPart p @ frac_digits p else mantissa_text p) = coefficient_of p"
    by (auto simp: coefficient_of_def frac_digits_def mantissa_text_def split: option.splits)
  have frac: "(if fraction p \<noteq> None then length (frac_digits p) else 0) = length (frac_digits p)"
    by (simp add: frac_digits_def split: option.splits)
  show ?thesis
    unfolding canonicalIntegerKey_def Let_def exponent_cut[OF ok] prod.case fraction_cut[OF ok] coef frac
      big_SetString_exponent[OF ok] sign_cut(2)[OF ok] core_digits_def core_exponent_def trailing_def[symmetric]
    by (simp add: algebra_simps)
qed

lemma core_digits_facts:
  assumes ok: "parts_ok p" and ne: "TrimLeftZeros (coefficient_of p) \<noteq> []"
  shows "list_all is_digit (core_digits p)" "core_digits p \<noteq> []" "List.hd (core_digits p) \<noteq> CHR ''0''"
    "\<not> 10 dvd decimal (core_digits p)"
    "decimal (coefficient_of p) = decimal (core_digits p) * 10 ^ trailing (TrimLeftZeros (coefficient_of p))"
proof -
  let ?d = "TrimLeftZeros (coefficient_of p)"
  note d = TrimLeftZeros_facts[OF parts_digits(3)[OF ok]]
  have split: "?d = core_digits p @ replicate (trailing ?d) CHR ''0''"
    unfolding core_digits_def by (rule TrimRightZeros_split)
  show digits: "list_all is_digit (core_digits p)" using d(2) split by (metis list_all_append)
  have nz: "decimal ?d \<noteq> 0" using decimal_ge[OF d(2) ne d(3)[OF ne]] by (metis power_not_zero le_0_eq zero_neq_numeral)
  have "decimal ?d = decimal (core_digits p @ replicate (trailing ?d) CHR ''0'')" using split by simp
  then have dec: "decimal ?d = decimal (core_digits p) * 10 ^ trailing ?d" by (simp add: decimal_append decimal_zeros)
  then show "decimal (coefficient_of p) = decimal (core_digits p) * 10 ^ trailing ?d" using d(1) by simp
  show cne: "core_digits p \<noteq> []" using nz dec by (metis decimal_Nil mult_0)
  have "List.hd ?d = List.hd (core_digits p @ replicate (trailing ?d) CHR ''0'')" using split by simp
  then show "List.hd (core_digits p) \<noteq> CHR ''0''" using d(3)[OF ne] cne by simp
  have "\<not> 10 ^ Suc (trailing ?d) dvd decimal ?d" using trailing_dvd[OF d(2) nz, of "Suc (trailing ?d)"] by simp
  then show "\<not> 10 dvd decimal (core_digits p)" unfolding dec power_Suc by (metis dvd_refl mult_dvd_mono)
qed

lemma decimal_inj:
  assumes "list_all is_digit s" "s \<noteq> []" "List.hd s \<noteq> CHR ''0''" "list_all is_digit t" "t \<noteq> []" "List.hd t \<noteq> CHR ''0''"
    and eq: "decimal s = decimal t"
  shows "s = t"
proof -
  have "length s = length t"
  proof (rule ccontr)
    assume "length s \<noteq> length t"
    then consider "length s \<le> length t - 1" | "length t \<le> length s - 1" by linarith
    then show False
    proof cases
      case 1
      then have "(10::nat) ^ length s \<le> 10 ^ (length t - 1)" by (intro power_increasing) auto
      with decimal_less[OF assms(1)] decimal_ge[OF assms(4-6)] eq show False by linarith
    next
      case 2
      then have "(10::nat) ^ length t \<le> 10 ^ (length s - 1)" by (intro power_increasing) auto
      with decimal_less[OF assms(4)] decimal_ge[OF assms(1-3)] eq show False by linarith
    qed
  qed
  with decimal_lex[of s t] decimal_lex[of t s] assms(1,4) eq show ?thesis by (metis less_irrefl not_less_iff_gr_or_eq)
qed

lemma powi_unique_le:
  assumes "(of_nat a :: rat) * 10 powi m = of_nat b * 10 powi n" "\<not> 10 dvd a" "m \<le> n"
  shows "a = b \<and> m = n"
proof -
  have "(of_nat a :: rat) * 10 powi m = of_nat b * 10 powi (n - m) * 10 powi m"
    using assms(1) by (simp add: power_int_add[symmetric] mult.assoc)
  then have "(of_nat a :: rat) = of_nat b * 10 powi (n - m)" by simp
  also have "\<dots> = of_nat (b * 10 ^ nat (n - m))" using assms(3) by (simp add: power_int_def)
  finally have a: "a = b * 10 ^ nat (n - m)" unfolding of_nat_eq_iff .
  have "nat (n - m) = 0"
  proof (rule ccontr)
    assume "nat (n - m) \<noteq> 0"
    then have "10 dvd b * 10 ^ nat (n - m)" by (intro dvd_mult dvd_power) simp
    with a assms(2) show False by simp
  qed
  with a assms(3) show ?thesis by simp
qed

lemma powi_unique:
  assumes "(of_nat a :: rat) * 10 powi m = of_nat b * 10 powi n" "\<not> 10 dvd a" "\<not> 10 dvd b"
  shows "a = b \<and> m = n"
  using powi_unique_le[OF assms(1,2)] powi_unique_le[OF assms(1)[symmetric] assms(3)] by linarith

lemma core_value:
  assumes ok: "parts_ok p" and ne: "TrimLeftZeros (coefficient_of p) \<noteq> []"
  shows "parts_value p = (if negative p then -1 else 1) * (of_nat (decimal (core_digits p)) * 10 powi core_exponent p)"
proof -
  have "(of_nat (decimal (coefficient_of p)) :: rat) * 10 powi scale_of p =
      of_nat (decimal (core_digits p)) * (10 powi int (trailing (TrimLeftZeros (coefficient_of p))) * 10 powi scale_of p)"
    unfolding core_digits_facts(5)[OF ok ne] by simp
  also have "(10 :: rat) powi int (trailing (TrimLeftZeros (coefficient_of p))) * 10 powi scale_of p = 10 powi core_exponent p"
    using power_int_add[of "10 :: rat" "int (trailing (TrimLeftZeros (coefficient_of p)))" "scale_of p"]
    by (simp only: core_exponent_def add.commute) simp
  finally show ?thesis by (simp add: parts_value_def coefficient_of_def mult.assoc)
qed

lemma zero_value:
  assumes "parts_ok p" "TrimLeftZeros (coefficient_of p) = []" shows "parts_value p = 0"
proof -
  have "decimal (coefficient_of p) = 0" using TrimLeftZeros_facts(1)[OF parts_digits(3)[OF assms(1)]] assms(2) by simp
  then show ?thesis by (simp add: parts_value_def coefficient_of_def)
qed

lemma core_positive: "parts_ok p \<Longrightarrow> TrimLeftZeros (coefficient_of p) \<noteq> [] \<Longrightarrow> decimal (core_digits p) > 0"
  using core_digits_facts(4) by (metis dvd_0_right gr0I)

lemma show_nat_inject: "show_nat m = show_nat n \<longleftrightarrow> m = n"
  using show_nat_facts(3) by metis

lemma show_int_inject: "show_int i = show_int j \<Longrightarrow> i = j"
proof -
  have minus: "show_nat n \<noteq> CHR ''-'' # s" for n s
    using show_nat_facts(1)[of n] digit_not(1) by auto
  assume "show_int i = show_int j"
  then show ?thesis
    using minus minus[symmetric] by (auto simp: show_int_def show_nat_inject split: if_splits)
qed

lemma core_hd_not_minus: "parts_ok p \<Longrightarrow> TrimLeftZeros (coefficient_of p) \<noteq> [] \<Longrightarrow> \<not> HasPrefix (core_digits p @ s) ''-''"
  using core_digits_facts(1,2)[of p] digit_not(1) by (cases "core_digits p") auto

lemma key_inject:
  assumes p: "parts_ok p" "TrimLeftZeros (coefficient_of p) \<noteq> []" and q: "parts_ok q" "TrimLeftZeros (coefficient_of q) \<noteq> []"
    and eq: "canonicalIntegerKey (parts_text p) = canonicalIntegerKey (parts_text q)"
  shows "negative p = negative q \<and> core_digits p = core_digits q \<and> core_exponent p = core_exponent q"
proof -
  let ?tail = "\<lambda>p. core_digits p @ CHR ''e'' # show_int (core_exponent p)"
  have eq': "(if negative p then ''-'' else []) @ ?tail p = (if negative q then ''-'' else []) @ ?tail q"
    using eq p(2) q(2) by (simp add: key_of_parts[OF p(1)] key_of_parts[OF q(1)])
  have neg: "HasPrefix ((if negative r then ''-'' else []) @ ?tail r) ''-'' = negative r"
    if "parts_ok r" "TrimLeftZeros (coefficient_of r) \<noteq> []" for r
    using core_hd_not_minus[OF that] by simp
  have sign: "negative p = negative q" using neg[OF p] neg[OF q] eq' by simp
  then have "?tail p = ?tail q" using eq' by simp
  moreover have "Cut CHR ''e'' (?tail r) = (core_digits r, show_int (core_exponent r), True)"
    if "parts_ok r" "TrimLeftZeros (coefficient_of r) \<noteq> []" for r
    using digits_no[OF core_digits_facts(1)[OF that] digit_not(4)] by (rule Cut_append)
  ultimately have "(core_digits p, show_int (core_exponent p), True) = (core_digits q, show_int (core_exponent q), True)"
    using p q by metis
  with sign show_int_inject show ?thesis by blast
qed

lemma key_zero:
  assumes "parts_ok p"
  shows "canonicalIntegerKey (parts_text p) = ''0'' \<longleftrightarrow> TrimLeftZeros (coefficient_of p) = []"
proof (cases "TrimLeftZeros (coefficient_of p) = []")
  case False
  have "CHR ''e'' \<in> set (canonicalIntegerKey (parts_text p))" using False by (simp add: key_of_parts[OF assms])
  then have "canonicalIntegerKey (parts_text p) \<noteq> ''0''" by auto
  with False show ?thesis by simp
qed (simp add: key_of_parts[OF assms])

text \<open>Two JSON numbers have the same key exactly when they are the same number.\<close>

lemma key_value:
  assumes p: "parts_ok p" and q: "parts_ok q"
  shows "canonicalIntegerKey (parts_text p) = canonicalIntegerKey (parts_text q) \<longleftrightarrow> parts_value p = parts_value q"
proof -
  let ?z = "\<lambda>p. TrimLeftZeros (coefficient_of p) = []"
  have nonzero: "parts_value r \<noteq> 0" if "parts_ok r" "\<not> ?z r" for r
    using core_value[OF that] core_positive[OF that] by simp
  consider "?z p" | "\<not> ?z p" "?z q" | "\<not> ?z p" "\<not> ?z q" by blast
  then show ?thesis
  proof cases
    case 1
    then show ?thesis using key_zero[OF p] key_zero[OF q] zero_value[OF p] zero_value[OF q] nonzero[OF q] by metis
  next
    case 2
    then show ?thesis using key_zero[OF p] key_zero[OF q] zero_value[OF q] nonzero[OF p] by metis
  next
    case 3
    show ?thesis
    proof
      assume "canonicalIntegerKey (parts_text p) = canonicalIntegerKey (parts_text q)"
      from key_inject[OF p 3(1) q 3(2) this] show "parts_value p = parts_value q"
        by (simp only: core_value[OF p 3(1)] core_value[OF q 3(2)])
    next
      let ?m = "\<lambda>r. (of_nat (decimal (core_digits r)) :: rat) * 10 powi core_exponent r"
      assume "parts_value p = parts_value q"
      then have v: "(if negative p then -1 else 1) * ?m p = (if negative q then -1 else 1) * ?m q"
        by (simp only: core_value[OF p 3(1)] core_value[OF q 3(2)])
      have pos: "?m p > 0" "?m q > 0" using core_positive[OF p 3(1)] core_positive[OF q 3(2)] by simp_all
      have sign: "negative p = negative q" using v pos by (auto split: if_splits)
      then have "?m p = ?m q" using v by (simp split: if_splits)
      from powi_unique[OF this core_digits_facts(4)[OF p 3(1)] core_digits_facts(4)[OF q 3(2)]]
      have dec: "decimal (core_digits p) = decimal (core_digits q)" and e: "core_exponent p = core_exponent q" by auto
      have "core_digits p = core_digits q"
        using decimal_inj[OF core_digits_facts(1-3)[OF p 3(1)] core_digits_facts(1-3)[OF q 3(2)] dec] .
      with sign e 3 show "canonicalIntegerKey (parts_text p) = canonicalIntegerKey (parts_text q)"
        by (simp only: key_of_parts[OF p] key_of_parts[OF q] if_False)
    qed
  qed
qed

section \<open>The identifiers of a command\<close>

record batchCommand =
  Group :: string
  batchName :: string
  batchAliases :: "string list"
  batchBrief :: string
  SingleCommandName :: string
  PerItemParam :: string
  IDsFlag :: string
  IDsFileFlag :: string

definition maxBatchIDs :: nat where "maxBatchIDs = 200"
definition batchConcurrency :: nat where "batchConcurrency = 3"

definition batchCommands :: "batchCommand list" where
  "batchCommands =
     [\<lparr>Group = ''workitem'', batchName = ''+batch-get'', batchAliases = [''+get-batch''],
       batchBrief = ''Batch-read work items by IDs (client-side fan-out over `workitem get`).'',
       SingleCommandName = ''get'', PerItemParam = ''work_item_id'', IDsFlag = ''work-item-ids'',
       IDsFileFlag = ''ids-file''\<rparr>]"

datatype batch_error =
    BatchWiringMissing
  | IDsFileNotOpened string
  | IDsFileNotRead string
  | MissingIDs string
  | InvalidID string string
  | TooManyIDs nat

definition batchCommandForNode :: "BuiltNode option \<Rightarrow> batchCommand option" where
  "batchCommandForNode node =
     (case node of
        None \<Rightarrow> None
      | Some n \<Rightarrow>
          (case bnPath n of
             g # c # _ \<Rightarrow> find (\<lambda>bc. Group bc = g \<and> batchName bc = c) batchCommands
           | _ \<Rightarrow> None))"

definition csv_parts :: "string \<Rightarrow> string list" where
  "csv_parts s = filter (\<lambda>p. p \<noteq> []) (map TrimSpace (Split CHR '','' s))"

definition splitCSV :: "string list \<Rightarrow> string list" where
  "splitCSV ss = concat (map csv_parts ss)"

definition flattenStringSliceFlag :: "('f \<Rightarrow> string) \<Rightarrow> 'f any option \<Rightarrow> string list" where
  "flattenStringSliceFlag ft v =
     (case v of
        Some (VStrings ss) \<Rightarrow> splitCSV ss
      | Some (VList items) \<Rightarrow> splitCSV (map (Sprint ft) (filter (\<lambda>i. i \<noteq> VNil) items))
      | Some (VString s) \<Rightarrow> splitCSV [s]
      | _ \<Rightarrow> [])"

text \<open>
  \<open>bufio.Scanner\<close> over the lines of a text, with the buffer of one mebibyte: a longer line is an error.  A
  file that opens is given by its content and by whether reading it fails at the end of that content.
\<close>

definition dropCR :: "string \<Rightarrow> string" where
  "dropCR line = (if line \<noteq> [] \<and> List.last line = CHR 0x0D then butlast line else line)"

definition raw_lines :: "string \<Rightarrow> string list" where
  "raw_lines content = (let ls = Split CHR 0x0A content in if List.last ls = [] then butlast ls else ls)"

definition line_tokens :: "string \<Rightarrow> string list" where
  "line_tokens line = csv_parts (takeWhile (\<lambda>c. c \<noteq> CHR ''#'') line)"

definition byte_order_mark :: string where
  "byte_order_mark = [CHR 0xEF, CHR 0xBB, CHR 0xBF]"

fun strip_first :: "string list \<Rightarrow> string list" where
  "strip_first [] = []"
| "strip_first (line # ls) = TrimPrefix line byte_order_mark # ls"

definition parseIDsFromFile ::
    "(string \<Rightarrow> (string \<times> bool) option) \<Rightarrow> string \<Rightarrow> (batch_error, string list) result" where
  "parseIDsFromFile open_file path =
     (case open_file path of
        None \<Rightarrow> Inl (IDsFileNotOpened path)
      | Some (content, failed) \<Rightarrow>
          (if failed \<or> list_ex (\<lambda>l. int (length l) \<ge> 1048576) (raw_lines content) then Inl (IDsFileNotRead path)
           else Inr (concat (map line_tokens (strip_first (map dropCR (raw_lines content)))))))"

fun collect_ids :: "string \<Rightarrow> string list \<Rightarrow> string list \<Rightarrow> (batch_error, string list) result" where
  "collect_ids flag [] seen = Inr []"
| "collect_ids flag (s # raw) seen =
     (let t = TrimSpace s in
      if t = [] then collect_ids flag raw seen
      else
        (case ParseNumber t of
           None \<Rightarrow> Inl (InvalidID flag t)
         | Some n \<Rightarrow>
             (if \<not> IsInteger n then Inl (InvalidID flag t)
              else if canonicalIntegerKey n \<in> set seen then collect_ids flag raw seen
              else (case collect_ids flag raw (canonicalIntegerKey n # seen) of
                      Inl e \<Rightarrow> Inl e
                    | Inr ids \<Rightarrow> Inr (n # ids)))))"

text \<open>The tokens of the flag, then those of the file.\<close>

definition raw_ids ::
    "('f \<Rightarrow> string) \<Rightarrow> (string \<Rightarrow> (string \<times> bool) option) \<Rightarrow> batchCommand \<Rightarrow> 'f value_map \<Rightarrow>
     (batch_error, string list) result" where
  "raw_ids ft open_file bc flags =
     (let given = flattenStringSliceFlag ft (map_of flags (IDsFlag bc)) in
      if IDsFileFlag bc = [] then Inr given
      else
        (case map_of flags (IDsFileFlag bc) of
           Some (VString path) \<Rightarrow>
             (if TrimSpace path = [] then Inr given
              else (case parseIDsFromFile open_file path of Inl e \<Rightarrow> Inl e | Inr tokens \<Rightarrow> Inr (given @ tokens)))
         | _ \<Rightarrow> Inr given))"

definition collectBatchIDs ::
    "('f \<Rightarrow> string) \<Rightarrow> (string \<Rightarrow> (string \<times> bool) option) \<Rightarrow> 'f ParsedCommand \<Rightarrow> (batch_error, string list) result" where
  "collectBatchIDs ft open_file c =
     (case batchCommandForNode (cmdNode c) of
        None \<Rightarrow> Inl BatchWiringMissing
      | Some bc \<Rightarrow>
          (case raw_ids ft open_file bc (Flags c) of
             Inl e \<Rightarrow> Inl e
           | Inr raw \<Rightarrow>
               (if raw = [] then Inl (MissingIDs (batchName bc))
                else
                  (case collect_ids (IDsFlag bc) raw [] of
                     Inl e \<Rightarrow> Inl e
                   | Inr ids \<Rightarrow>
                       (if ids = [] then Inl (MissingIDs (batchName bc))
                        else if length ids > maxBatchIDs then Inl (TooManyIDs (length ids))
                        else Inr ids)))))"

section \<open>What is collected\<close>

text \<open>The contract: the integers among the tokens, each value once, in the spelling that comes first.\<close>

definition valid_id :: "string \<Rightarrow> bool" where
  "valid_id t = (case ParseNumber t of None \<Rightarrow> False | Some n \<Rightarrow> IsInteger n)"

definition id_tokens :: "string list \<Rightarrow> string list" where
  "id_tokens raw = filter (\<lambda>t. t \<noteq> []) (map TrimSpace raw)"

definition id_number :: "string \<Rightarrow> string" where
  "id_number t = (case ParseNumber t of None \<Rightarrow> [] | Some n \<Rightarrow> n)"

fun first_of_each :: "('a \<Rightarrow> 'b) \<Rightarrow> 'a list \<Rightarrow> 'a list" where
  "first_of_each f [] = []"
| "first_of_each f (x # xs) = x # filter (\<lambda>y. f y \<noteq> f x) (first_of_each f xs)"

lemma first_of_each_filter:
  assumes P: "\<And>x y. f x = f y \<Longrightarrow> P x = P y"
  shows "filter P (first_of_each f xs) = first_of_each f (filter P xs)"
proof (induction xs)
  case (Cons x xs)
  show ?case
  proof (cases "P x")
    case True
    have "filter P (filter (\<lambda>y. f y \<noteq> f x) (first_of_each f xs)) =
        filter (\<lambda>y. f y \<noteq> f x) (filter P (first_of_each f xs))"
      by (simp add: conj_commute)
    with True Cons show ?thesis by simp
  next
    case False
    then have "f y \<noteq> f x" if "P y" for y using P[of y x] that by blast
    then have "filter P (filter (\<lambda>y. f y \<noteq> f x) (first_of_each f xs)) = filter P (first_of_each f xs)"
      unfolding filter_filter by (intro filter_cong) auto
    with False Cons show ?thesis by simp
  qed
qed simp

lemma first_of_each_cong:
  "(\<And>x y. x \<in> set xs \<Longrightarrow> y \<in> set xs \<Longrightarrow> (f x = f y) = (g x = g y)) \<Longrightarrow> first_of_each f xs = first_of_each g xs"
proof (induction xs)
  case (Cons x xs)
  then have "first_of_each f xs = first_of_each g xs" by simp
  moreover have "set (first_of_each g xs) \<subseteq> set xs" by (induction xs) auto
  ultimately show ?case using Cons.prems by (auto intro!: filter_cong)
qed simp

lemma first_of_each_facts:
  "distinct (map f (first_of_each f xs))" "f ` set (first_of_each f xs) = f ` set xs"
proof (induction xs)
  case (Cons x xs)
  {
    case 1
    show ?case using Cons(1) by (auto simp: distinct_map inj_on_def)
  next
    case 2
    have "f ` set (filter (\<lambda>y. f y \<noteq> f x) (first_of_each f xs)) = f ` set (first_of_each f xs) - {f x}" by auto
    then show ?case using Cons(2) by auto
  }
qed simp_all

lemma collect_ids_spec:
  "collect_ids flag raw seen =
     (case find (\<lambda>t. \<not> valid_id t) (id_tokens raw) of
        Some t \<Rightarrow> Inl (InvalidID flag t)
      | None \<Rightarrow> Inr (first_of_each canonicalIntegerKey
          (filter (\<lambda>n. canonicalIntegerKey n \<notin> set seen) (map id_number (id_tokens raw)))))"
proof (induction raw arbitrary: seen)
  case Nil
  show ?case by (simp add: id_tokens_def)
next
  case (Cons s raw)
  let ?t = "TrimSpace s"
  show ?case
  proof (cases "?t = []")
    case True
    then have toks: "id_tokens (s # raw) = id_tokens raw" by (simp add: id_tokens_def)
    show ?thesis unfolding toks using True Cons by simp
  next
    case False
    then have toks: "id_tokens (s # raw) = ?t # id_tokens raw" by (simp add: id_tokens_def)
    show ?thesis
    proof (cases "valid_id ?t")
      case invalid: False
      then show ?thesis unfolding toks using False by (auto simp: valid_id_def Let_def split: option.splits)
    next
      case True
      then obtain n where n: "ParseNumber ?t = Some n" "IsInteger n" by (auto simp: valid_id_def split: option.splits)
      then have num: "id_number ?t = n" by (simp add: id_number_def)
      let ?key = canonicalIntegerKey and ?ns = "map id_number (id_tokens raw)"
      have filt: "filter (\<lambda>m. ?key m \<noteq> ?key n) (first_of_each ?key (filter (\<lambda>m. ?key m \<notin> set seen) ?ns)) =
          first_of_each ?key (filter (\<lambda>m. ?key m \<notin> set (?key n # seen)) ?ns)"
        by (subst first_of_each_filter) (auto intro!: arg_cong[of _ _ "first_of_each ?key"] filter_cong)
      show ?thesis
      proof (cases "?key n \<in> set seen")
        case seen: True
        then show ?thesis unfolding toks using False n num True Cons[of seen] by (simp add: Let_def split: option.split)
      next
        case fresh: False
        then show ?thesis unfolding toks using False n num True Cons[of "?key n # seen"] filt
          by (simp add: Let_def split: option.split)
      qed
    qed
  qed
qed

lemma key_number_value:
  assumes "ParseNumber s = Some a" "ParseNumber t = Some b"
  shows "canonicalIntegerKey a = canonicalIntegerKey b \<longleftrightarrow> number_value a = number_value b"
proof -
  obtain p q where p: "scan_number a = Some p" and q: "scan_number b = Some q"
    using assms by (auto simp: ParseNumber_def Let_def split: option.splits)
  note ps = scan_number_sound[OF p] and qs = scan_number_sound[OF q]
  have "number_value a = parts_value p" "number_value b = parts_value q" using p q by (simp_all add: number_value_def)
  with key_value[of p q] ps qs show ?thesis by simp
qed

lemma collect_ids_values:
  "collect_ids flag raw [] =
     (case find (\<lambda>t. \<not> valid_id t) (id_tokens raw) of
        Some t \<Rightarrow> Inl (InvalidID flag t)
      | None \<Rightarrow> Inr (first_of_each number_value (map id_number (id_tokens raw))))"
proof (cases "find (\<lambda>t. \<not> valid_id t) (id_tokens raw)")
  case None
  then have "\<And>t. t \<in> set (id_tokens raw) \<Longrightarrow> \<exists>n. ParseNumber t = Some n \<and> id_number t = n"
    by (auto simp: find_None_iff valid_id_def id_number_def split: option.splits)
  then have "first_of_each canonicalIntegerKey (map id_number (id_tokens raw)) =
      first_of_each number_value (map id_number (id_tokens raw))"
    by (intro first_of_each_cong) (auto dest!: key_number_value)
  with None show ?thesis by (simp add: collect_ids_spec)
qed (simp add: collect_ids_spec)

text \<open>
  C17.  The identifiers of a batch command are decided by value: the first token that is no JSON integer is
  reported; otherwise the identifiers are the integers of the flag and then of the file, each mathematical
  value once, spelled as it comes first, in the order of their first occurrence.  None at all and more than
  200 different ones are errors; 1000, 1e3 and 1000.0 count once, however long their exponents are.
\<close>

theorem batch_ids_by_value:
  assumes "batchCommandForNode (cmdNode c) = Some bc" and "raw_ids ft open_file bc (Flags c) = Inr raw"
  shows "collectBatchIDs ft open_file c =
     (case find (\<lambda>t. \<not> valid_id t) (id_tokens raw) of
        Some t \<Rightarrow> Inl (InvalidID (IDsFlag bc) t)
      | None \<Rightarrow>
          (let ids = first_of_each number_value (map id_number (id_tokens raw)) in
           if ids = [] then Inl (MissingIDs (batchName bc))
           else if length ids > 200 then Inl (TooManyIDs (length ids))
           else Inr ids))"
proof (cases "raw = []")
  case True
  then have "id_tokens raw = []" by (simp add: id_tokens_def)
  then show ?thesis using assms True by (simp add: collectBatchIDs_def)
next
  case False
  then show ?thesis unfolding collectBatchIDs_def assms option.case sum.case if_not_P[OF False] collect_ids_values
    by (simp add: Let_def maxBatchIDs_def split: option.split)
qed

definition batch_node :: BuiltNode where
  "batch_node = BuiltNode ''+batch-get'' [] (bnHelp demo_node) [] [] ''get_workitem'' (bnMeta demo_node)
     [''workitem'', ''+batch-get''] [] []"

definition batch_cmd :: "unit ParsedCommand" where
  "batch_cmd = \<lparr>cmdNode = Some batch_node, FullPath = [''workitem'', ''+batch-get''],
     Flags = [(''work-item-ids'', VStrings [''1000, 7'', '''']), (''ids-file'', VString ''f'')],
     ExplicitFlags = [], Args = [], IsHelp = False, RawArgs = [], RawFlags = []\<rparr>"

definition batch_file :: "string \<Rightarrow> (string \<times> bool) option" where
  "batch_file path = Some (byte_order_mark @ ''1e3,70e-1 # seven'' @ [CHR 0x0D, CHR 0x0A] @ ''1e99, 8'' @ [CHR 0x0A], False)"

lemma batch_node_command: "batchCommandForNode (cmdNode batch_cmd) = Some (List.hd batchCommands)"
  by code_simp

definition batch_tokens :: "string list" where
  "batch_tokens = [''1000'', ''7'', ''1e3'', ''70e-1'', ''1e99'', ''8'']"

lemma batch_raw: "raw_ids (\<lambda>f. []) batch_file (List.hd batchCommands) (Flags batch_cmd) = Inr batch_tokens"
  by code_simp

lemma settled_ids:
  "(let ids = l in if ids = [] then Inl a else if length ids > n then Inl (f ids) else Inr ids) = Inr xs \<Longrightarrow> l = xs"
  by (auto simp: Let_def split: if_split_asm)

theorem batch_ids_by_value_witness:
  "collectBatchIDs (\<lambda>f. []) batch_file batch_cmd = Inr [''1000'', ''7'', ''1e99'', ''8''] \<and>
   first_of_each number_value (map id_number (id_tokens batch_tokens)) = [''1000'', ''7'', ''1e99'', ''8'']"
proof -
  have ids: "collectBatchIDs (\<lambda>f. []) batch_file batch_cmd = Inr [''1000'', ''7'', ''1e99'', ''8'']"
    by code_simp
  have valid: "find (\<lambda>t. \<not> valid_id t) (id_tokens batch_tokens) = None"
    by code_simp
  note eq = batch_ids_by_value[OF batch_node_command batch_raw, unfolded ids valid option.case, symmetric]
  show ?thesis by (rule conjI[OF ids settled_ids[OF eq]])
qed

end
