(* ===== verification/Param_Coercion.thy ===== *)
theory Param_Coercion
  imports Pipeline Batch_Ids
begin

text \<open>
  \<open>internal/products/meegle/mcp_runtime.go\<close>, \<open>params_validate.go\<close>, \<open>validation.go\<close> and the parameters of
  \<open>batch.go\<close>: the flags a user typed become the parameters of a tool.  Names go from kebab case to snake
  case, values are coerced to the type the tool declares, and the fixed parameters of the command are added.

  The types a tool declares are JSON texts in the tags of the command's node; \<open>decode\<close> is the JSON decoder.
  \<open>floatG\<close> is \<open>strconv.FormatFloat\<close> with the format \<open>g\<close>.
\<close>

section \<open>Numbers\<close>

datatype param_error = NumericParamInvalid string string

definition snake :: "string \<Rightarrow> string" where "snake k = ReplaceChar CHR ''-'' CHR ''_'' k"
definition kebab :: "string \<Rightarrow> string" where "kebab k = ReplaceChar CHR ''_'' CHR ''-'' k"

definition exactJSONNumber :: "('f \<Rightarrow> string) \<Rightarrow> 'f any \<Rightarrow> string option" where
  "exactJSONNumber floatG v =
     (case v of
        VNumber n \<Rightarrow> ParseNumber n
      | VString s \<Rightarrow> ParseNumber s
      | VFloat f \<Rightarrow> ParseNumber (floatG f)
      | VInt i \<Rightarrow> ParseNumber (show_int i)
      | _ \<Rightarrow> None)"

definition validateNumericParam :: "('f \<Rightarrow> string) \<Rightarrow> string \<Rightarrow> 'f any \<Rightarrow> string \<Rightarrow> param_error option" where
  "validateNumericParam floatG name v mcpType =
     (if mcpType \<noteq> ''number'' \<and> mcpType \<noteq> ''integer'' then None
      else (case exactJSONNumber floatG v of
              None \<Rightarrow> Some (NumericParamInvalid (snake name) mcpType)
            | Some n \<Rightarrow>
                (if mcpType = ''integer'' \<and> \<not> IsInteger n then Some (NumericParamInvalid (snake name) mcpType) else None)))"

definition parseArrayNumber :: "string \<Rightarrow> string \<Rightarrow> string option" where
  "parseArrayNumber raw itemsType =
     (case ParseNumber raw of
        None \<Rightarrow> None
      | Some n \<Rightarrow> (if itemsType = ''integer'' \<and> \<not> IsInteger n then None else Some n))"

fun array_numbers :: "string \<Rightarrow> string list \<Rightarrow> string list option" where
  "array_numbers itemsType [] = Some []"
| "array_numbers itemsType (s # ss) =
     (case parseArrayNumber s itemsType of
        None \<Rightarrow> None
      | Some n \<Rightarrow> map_option ((#) n) (array_numbers itemsType ss))"

section \<open>Coercion\<close>

text \<open>The text of a JSON object or array, by its first character.\<close>

definition looks_json :: "string \<Rightarrow> bool" where
  "looks_json s = (case s of c # _ \<Rightarrow> c = CHR ''{'' \<or> c = CHR ''['' | [] \<Rightarrow> False)"

definition decode_any :: "(string \<Rightarrow> json option) \<Rightarrow> string \<Rightarrow> 'f any option" where
  "decode_any decode s = map_option json_any (decode s)"

definition decodeArrayElement :: "(string \<Rightarrow> json option) \<Rightarrow> string \<Rightarrow> 'f any" where
  "decodeArrayElement decode s =
     (let trimmed = TrimSpace s in
      if looks_json trimmed then
        (case decode_any decode trimmed of Some parsed \<Rightarrow> parsed | None \<Rightarrow> VString s)
      else VString s)"

definition splitAndCoerce :: "string \<Rightarrow> string \<Rightarrow> 'f any" where
  "splitAndCoerce val itemsType =
     (let trimmed = map TrimSpace (Split CHR '','' val);
          nums = (if itemsType = ''number'' \<or> itemsType = ''integer'' then array_numbers itemsType trimmed else None)
      in case nums of
           Some ns \<Rightarrow> (if ns \<noteq> [] then VNumbers ns else VList (map VString trimmed))
         | None \<Rightarrow> VList (map VString trimmed))"

definition is_array :: "'f any \<Rightarrow> bool" where
  "is_array v = (case v of VList _ \<Rightarrow> True | _ \<Rightarrow> False)"

definition coerceArraySingleValue :: "(string \<Rightarrow> json option) \<Rightarrow> string \<Rightarrow> string \<Rightarrow> 'f any" where
  "coerceArraySingleValue decode val itemsType =
     (let trimmed = TrimSpace val in
      case (if looks_json trimmed then decode_any decode trimmed else None) of
        Some parsed \<Rightarrow> (if \<not> is_array parsed then VList [parsed] else parsed)
      | None \<Rightarrow> splitAndCoerce val itemsType)"

definition coerceArray :: "(string \<Rightarrow> json option) \<Rightarrow> 'f any \<Rightarrow> string \<Rightarrow> 'f any" where
  "coerceArray decode v itemsType =
     (case v of
        VStrings vals \<Rightarrow>
          (case vals of
             [s] \<Rightarrow> coerceArraySingleValue decode s itemsType
           | _ \<Rightarrow>
               (let nums = (if itemsType = ''number'' \<or> itemsType = ''integer''
                            then array_numbers itemsType (map TrimSpace vals) else None)
                in case nums of
                     Some ns \<Rightarrow> (if ns \<noteq> [] then VNumbers ns else VList (map (decodeArrayElement decode) vals))
                   | None \<Rightarrow> VList (map (decodeArrayElement decode) vals)))
      | VString s \<Rightarrow> coerceArraySingleValue decode s itemsType
      | _ \<Rightarrow> v)"

definition coerceObject :: "(string \<Rightarrow> json option) \<Rightarrow> 'f any \<Rightarrow> 'f any" where
  "coerceObject decode v =
     (case v of
        VString s \<Rightarrow>
          (if looks_json (TrimSpace s)
           then (case decode_any decode (TrimSpace s) of Some parsed \<Rightarrow> parsed | None \<Rightarrow> v) else v)
      | _ \<Rightarrow> v)"

text \<open>The guard \<open>s != ""\<close> of the code is implied: the empty text is neither a number nor an object.\<close>

definition coerceNumber :: "bool \<Rightarrow> 'f any \<Rightarrow> 'f any" where
  "coerceNumber integer_only v =
     (case v of
        VString s \<Rightarrow>
          (if s = [] then v
           else (case ParseNumber s of None \<Rightarrow> v | Some n \<Rightarrow> (if integer_only \<and> \<not> IsInteger n then v else VNumber n)))
      | _ \<Rightarrow> v)"

definition coerceValue :: "(string \<Rightarrow> json option) \<Rightarrow> 'f any \<Rightarrow> string \<Rightarrow> string \<Rightarrow> 'f any" where
  "coerceValue decode v mcpType itemsType =
     (if mcpType = ''number'' then coerceNumber False v
      else if mcpType = ''integer'' then coerceNumber True v
      else if mcpType = ''array'' then coerceArray decode v itemsType
      else if mcpType = ''object'' then coerceObject decode v
      else v)"

section \<open>The declared types and the fixed parameters\<close>

text \<open>
  \<open>json.Unmarshal\<close> into a map of strings: an element of another type leaves the empty string and an error,
  which only some callers look at.
\<close>

definition json_text :: "json \<Rightarrow> string" where
  "json_text v = (case v of JString s \<Rightarrow> s | _ \<Rightarrow> [])"

definition texts_of :: "json option \<Rightarrow> (string \<times> string) list" where
  "texts_of v = (case v of Some (JObject kvs) \<Rightarrow> fold (\<lambda>(k, w). AList.update k (json_text w)) kvs [] | _ \<Rightarrow> [])"

definition texts_ok :: "json option \<Rightarrow> bool" where
  "texts_ok v =
     (case v of
        Some (JObject kvs) \<Rightarrow> list_all (\<lambda>(k, w). json_string w \<noteq> None) kvs
      | Some JNull \<Rightarrow> True
      | _ \<Rightarrow> False)"

definition tag :: "BuiltNode \<Rightarrow> string \<Rightarrow> string option" where
  "tag n k = map_of (Tags (bnMeta n)) k"

definition tag_texts :: "(string \<Rightarrow> json option) \<Rightarrow> string \<Rightarrow> BuiltNode \<Rightarrow> (string \<times> string) list" where
  "tag_texts decode k n = (case tag n k of None \<Rightarrow> [] | Some raw \<Rightarrow> texts_of (decode raw))"

text \<open>Reading a missing key of a Go map of strings gives the empty string.\<close>

definition text_at :: "(string \<times> string) list \<Rightarrow> string \<Rightarrow> string" where
  "text_at m k = (case map_of m k of None \<Rightarrow> [] | Some s \<Rightarrow> s)"

definition param_type :: "(string \<Rightarrow> json option) \<Rightarrow> BuiltNode \<Rightarrow> string \<Rightarrow> string" where
  "param_type decode n k = text_at (tag_texts decode ''mcp_param_types'' n) k"

definition param_items :: "(string \<Rightarrow> json option) \<Rightarrow> BuiltNode \<Rightarrow> string \<Rightarrow> string" where
  "param_items decode n k = text_at (tag_texts decode ''mcp_param_items'' n) k"

definition fixed_params :: "(string \<Rightarrow> json option) \<Rightarrow> BuiltNode \<Rightarrow> 'f value_map" where
  "fixed_params decode n =
     (case tag n ''mcp_fixed_params'' of
        None \<Rightarrow> []
      | Some raw \<Rightarrow>
          (case decode raw of
             Some (JObject kvs) \<Rightarrow> put_all (map (\<lambda>(k, v). (k, json_any v)) kvs) []
           | _ \<Rightarrow> []))"

fun add_fixed :: "'f value_map \<Rightarrow> 'f value_map \<Rightarrow> 'f value_map" where
  "add_fixed [] m = m"
| "add_fixed ((k, v) # fixed) m =
     add_fixed fixed (if map_of m k = None then AList.update k v m else m)"

section \<open>The parameters of a call\<close>

definition isMeegleRuntimeFlag :: "string \<Rightarrow> bool" where
  "isMeegleRuntimeFlag name = (let l = ToLower name in l = ''profile'' \<or> l = ''refresh'')"

definition sortedValueKeys :: "'f value_map \<Rightarrow> string list" where
  "sortedValueKeys m = sort (map fst m)"

text \<open>\<open>state.Values\<close>: what an earlier step left there, or the values of the command.\<close>

definition state_values :: "'f ParsedCommand \<Rightarrow> 'f value_map option \<Rightarrow> 'f value_map" where
  "state_values c vals = (case vals of None \<Rightarrow> BuildInputValues c | Some m \<Rightarrow> m)"

definition explicitly_set :: "'f ParsedCommand \<Rightarrow> string \<Rightarrow> bool" where
  "explicitly_set c k = (k \<in> set (map fst (ExplicitFlags c)) \<and> \<not> isMeegleRuntimeFlag k)"

fun send_params ::
    "(string \<Rightarrow> json option) \<Rightarrow> ('f \<Rightarrow> string) \<Rightarrow> BuiltNode \<Rightarrow> (string \<Rightarrow> bool) \<Rightarrow> 'f value_map \<Rightarrow>
     string list \<Rightarrow> 'f value_map \<Rightarrow> (param_error, 'f value_map) result" where
  "send_params decode floatG n wanted vals [] m = Inr m"
| "send_params decode floatG n wanted vals (k # ks) m =
     (if \<not> wanted k then send_params decode floatG n wanted vals ks m
      else
        (let v = (case map_of vals k of None \<Rightarrow> VNil | Some v \<Rightarrow> v) in
         case validateNumericParam floatG k v (param_type decode n k) of
           Some e \<Rightarrow> Inl e
         | None \<Rightarrow>
             send_params decode floatG n wanted vals ks
               (AList.update (snake k) (coerceValue decode v (param_type decode n k) (param_items decode n k)) m)))"

definition with_fixed ::
    "(string \<Rightarrow> json option) \<Rightarrow> BuiltNode \<Rightarrow> (param_error, 'f value_map) result \<Rightarrow>
     (param_error, 'f value_map) result" where
  "with_fixed decode n r = (case r of Inl e \<Rightarrow> Inl e | Inr m \<Rightarrow> Inr (add_fixed (fixed_params decode n) m))"

definition buildSnakeParams ::
    "(string \<Rightarrow> json option) \<Rightarrow> ('f \<Rightarrow> string) \<Rightarrow> 'f ParsedCommand \<Rightarrow> 'f value_map option \<Rightarrow>
     (param_error, 'f value_map) result" where
  "buildSnakeParams decode floatG c vals =
     (case cmdNode c of
        None \<Rightarrow> Inr []
      | Some n \<Rightarrow>
          (let vs = state_values c vals in
           with_fixed decode n (send_params decode floatG n (explicitly_set c) vs (sortedValueKeys vs) [])))"

text \<open>The parameters all calls of a batch share, and those of the call for one identifier.\<close>

definition batch_skips :: "batchCommand \<Rightarrow> string \<Rightarrow> bool" where
  "batch_skips bc k =
     (k = IDsFlag bc \<or> (IDsFileFlag bc \<noteq> [] \<and> k = IDsFileFlag bc) \<or> k = kebab (PerItemParam bc))"

definition batchSharedParams ::
    "(string \<Rightarrow> json option) \<Rightarrow> ('f \<Rightarrow> string) \<Rightarrow> 'f ParsedCommand \<Rightarrow> 'f value_map option \<Rightarrow>
     (param_error, 'f value_map) result" where
  "batchSharedParams decode floatG c vals =
     (case cmdNode c of
        None \<Rightarrow> Inr []
      | Some n \<Rightarrow>
          (case batchCommandForNode (Some n) of
             None \<Rightarrow> Inr []
           | Some bc \<Rightarrow>
               (let vs = state_values c vals in
                with_fixed decode n
                  (send_params decode floatG n (\<lambda>k. explicitly_set c k \<and> \<not> batch_skips bc k) vs
                     (sortedValueKeys vs) []))))"

definition perItemCoercionTypes :: "(string \<Rightarrow> json option) \<Rightarrow> BuiltNode \<Rightarrow> string \<Rightarrow> string \<times> string" where
  "perItemCoercionTypes decode n perItemParam =
     (param_type decode n (kebab perItemParam), param_items decode n (kebab perItemParam))"

definition item_params ::
    "(string \<Rightarrow> json option) \<Rightarrow> BuiltNode \<Rightarrow> string \<Rightarrow> 'f value_map \<Rightarrow> string \<Rightarrow> 'f value_map" where
  "item_params decode n perItemParam shared idText =
     (case perItemCoercionTypes decode n perItemParam of
        (mcpType, itemsType) \<Rightarrow>
          AList.update perItemParam (coerceValue decode (VString idText) mcpType itemsType) shared)"

section \<open>What is sent\<close>

definition value_of :: "'f value_map \<Rightarrow> string \<Rightarrow> 'f any" where
  "value_of vs k = (case map_of vs k of None \<Rightarrow> VNil | Some v \<Rightarrow> v)"

definition sent_value :: "(string \<Rightarrow> json option) \<Rightarrow> BuiltNode \<Rightarrow> 'f value_map \<Rightarrow> string \<Rightarrow> 'f any" where
  "sent_value decode n vs k =
     coerceValue decode (value_of vs k) (param_type decode n k) (param_items decode n k)"

definition key_valid :: "(string \<Rightarrow> json option) \<Rightarrow> ('f \<Rightarrow> string) \<Rightarrow> BuiltNode \<Rightarrow> 'f value_map \<Rightarrow> string \<Rightarrow> bool" where
  "key_valid decode floatG n vs k = (validateNumericParam floatG k (value_of vs k) (param_type decode n k) = None)"

text \<open>The keys that become the parameter \<open>s\<close>; the last one in the order of the keys is the one that is sent.\<close>

definition sources :: "(string \<Rightarrow> bool) \<Rightarrow> 'f value_map \<Rightarrow> string \<Rightarrow> string list" where
  "sources wanted vs s = filter (\<lambda>k. wanted k \<and> snake k = s) (sortedValueKeys vs)"

definition sent_at ::
    "(string \<Rightarrow> json option) \<Rightarrow> BuiltNode \<Rightarrow> (string \<Rightarrow> bool) \<Rightarrow> 'f value_map \<Rightarrow> string \<Rightarrow> 'f any option" where
  "sent_at decode n wanted vs s =
     (case sources wanted vs s of
        [] \<Rightarrow> map_of (fixed_params decode n) s
      | k # ks \<Rightarrow> Some (sent_value decode n vs (List.last (k # ks))))"

lemma send_params_Cons:
  "send_params decode floatG n wanted vs (k # ks) m =
     (if \<not> wanted k then send_params decode floatG n wanted vs ks m
      else if key_valid decode floatG n vs k
      then send_params decode floatG n wanted vs ks (AList.update (snake k) (sent_value decode n vs k) m)
      else Inl (the (validateNumericParam floatG k (value_of vs k) (param_type decode n k))))"
  by (simp add: key_valid_def sent_value_def value_of_def Let_def split: option.split)

declare send_params.simps(2) [simp del]

lemma send_params_map:
  "send_params decode floatG n wanted vs ks m = Inr m' \<Longrightarrow>
   list_all (key_valid decode floatG n vs) (filter wanted ks) \<and>
   map_of m' s =
     (case filter (\<lambda>k. wanted k \<and> snake k = s) ks of
        [] \<Rightarrow> map_of m s
      | x # xs \<Rightarrow> Some (sent_value decode n vs (List.last (x # xs))))"
proof (induction ks arbitrary: m)
  case (Cons k ks)
  show ?case
  proof (cases "wanted k")
    case False
    then show ?thesis using Cons by (simp add: send_params_Cons)
  next
    case True
    with Cons.prems have ok: "key_valid decode floatG n vs k"
      and run: "send_params decode floatG n wanted vs ks (AList.update (snake k) (sent_value decode n vs k) m) = Inr m'"
      by (simp_all add: send_params_Cons split: if_splits)
    from Cons.IH[OF run] True ok show ?thesis by (auto simp: update_conv' split: list.splits)
  qed
qed simp

lemma send_params_fails:
  "send_params decode floatG n wanted vs ks m = Inl e \<Longrightarrow> \<not> list_all (key_valid decode floatG n vs) (filter wanted ks)"
  by (induction ks arbitrary: m) (auto simp: send_params_Cons split: if_splits)

lemma send_params_ok:
  "(\<exists>m'. send_params decode floatG n wanted vs ks m = Inr m') \<longleftrightarrow>
   list_all (key_valid decode floatG n vs) (filter wanted ks)"
  using send_params_map send_params_fails by (cases "send_params decode floatG n wanted vs ks m") fastforce+

lemma add_fixed_map: "map_of (add_fixed fixed m) s = (case map_of m s of Some v \<Rightarrow> Some v | None \<Rightarrow> map_of fixed s)"
  by (induction fixed arbitrary: m) (auto simp: update_conv' split: option.splits)

text \<open>The result of \<open>with_fixed (send_params \<dots>)\<close>, on its two branches.\<close>

definition built ::
    "(string \<Rightarrow> json option) \<Rightarrow> ('f \<Rightarrow> string) \<Rightarrow> BuiltNode \<Rightarrow> (string \<Rightarrow> bool) \<Rightarrow> 'f value_map \<Rightarrow>
     (param_error, 'f value_map) result" where
  "built decode floatG n wanted vs =
     with_fixed decode n (send_params decode floatG n wanted vs (sortedValueKeys vs) [])"

lemma built_map:
  assumes "built decode floatG n wanted vs = Inr m"
  shows "list_all (key_valid decode floatG n vs) (filter wanted (sortedValueKeys vs)) \<and>
    map_of m s = sent_at decode n wanted vs s"
proof -
  from assms obtain m0 where run: "send_params decode floatG n wanted vs (sortedValueKeys vs) [] = Inr m0"
    and m: "m = add_fixed (fixed_params decode n) m0"
    by (auto simp: built_def with_fixed_def split: sum.splits)
  from send_params_map[OF run, of s] show ?thesis
    by (auto simp: m add_fixed_map sent_at_def sources_def split: list.splits)
qed

lemma built_ok:
  "(\<exists>m. built decode floatG n wanted vs = Inr m) \<longleftrightarrow>
   list_all (key_valid decode floatG n vs) (filter wanted (sortedValueKeys vs))"
  by (subst send_params_ok[where m = "[]", symmetric]) (auto simp: built_def with_fixed_def split: sum.splits)

lemma buildSnakeParams_built:
  "cmdNode c = Some n \<Longrightarrow>
   buildSnakeParams decode floatG c vals = built decode floatG n (explicitly_set c) (state_values c vals)"
  by (simp add: buildSnakeParams_def built_def Let_def)

lemma batchSharedParams_built:
  "cmdNode c = Some n \<Longrightarrow> batchCommandForNode (Some n) = Some bc \<Longrightarrow>
   batchSharedParams decode floatG c vals =
     built decode floatG n (\<lambda>k. explicitly_set c k \<and> \<not> batch_skips bc k) (state_values c vals)"
  by (simp add: batchSharedParams_def built_def Let_def)

text \<open>What a parameter of a numeric type looks like to the service: a number, and never a text.\<close>

definition numeric_type :: "string \<Rightarrow> bool" where
  "numeric_type t = (t = ''number'' \<or> t = ''integer'')"

definition sent_number :: "('f \<Rightarrow> string) \<Rightarrow> string \<Rightarrow> 'f any \<Rightarrow> bool" where
  "sent_number floatG mcpType v =
     (case v of
        VString s \<Rightarrow> False
      | _ \<Rightarrow> (case exactJSONNumber floatG v of None \<Rightarrow> False | Some n \<Rightarrow> mcpType = ''number'' \<or> IsInteger n))"

lemma ParseNumber_empty: "ParseNumber [] = None" by code_simp

lemma ParseNumber_nonempty: "ParseNumber s = Some n \<Longrightarrow> s \<noteq> []"
  using ParseNumber_empty by (cases s) auto

lemma coerced_number:
  assumes valid: "validateNumericParam floatG k v mcpType = None" and num: "numeric_type mcpType"
  shows "sent_number floatG mcpType (coerceValue decode v mcpType itemsType)"
proof -
  have neq: "''integer'' \<noteq> ''number''" by simp
  from num have t: "mcpType = ''number'' \<or> mcpType = ''integer''" by (simp add: numeric_type_def)
  from valid t obtain n where n: "exactJSONNumber floatG v = Some n" "mcpType = ''integer'' \<longrightarrow> IsInteger n"
    by (auto simp: validateNumericParam_def split: option.splits if_splits)
  have c: "coerceValue decode v mcpType itemsType = coerceNumber (mcpType = ''integer'') v"
    using t neq by (auto simp: coerceValue_def)
  from n t have ok: "mcpType = ''number'' \<or> IsInteger n" by blast
  have other: "sent_number floatG mcpType w" if "exactJSONNumber floatG w = Some n" "\<And>s. w \<noteq> VString s" for w
    using that ok by (cases w) (auto simp: sent_number_def)
  show ?thesis
  proof (cases "\<exists>s. v = VString s")
    case True
    then obtain s where s: "v = VString s" by blast
    with n have p: "ParseNumber s = Some n" by (simp add: exactJSONNumber_def)
    then have "coerceNumber (mcpType = ''integer'') v = VNumber n"
      using n(2) ParseNumber_nonempty[OF p] by (simp add: s coerceNumber_def)
    then show ?thesis using other[of "VNumber n"] ParseNumber_idem[OF p] unfolding c by (simp add: exactJSONNumber_def)
  next
    case False
    then have "coerceNumber (mcpType = ''integer'') v = v" by (cases v) (simp_all add: coerceNumber_def)
    then show ?thesis using other[of v] n(1) False unfolding c by simp
  qed
qed

text \<open>
  C20.  The parameters of a call.  Parameter \<open>s\<close> is the coerced value of the last flag, in the order of the
  names, among the explicitly set flags whose name is \<open>s\<close> in snake case; a fixed parameter of the command
  is used only where no such flag exists, and nothing else is sent; the runtime's own flags never are.  A
  parameter that the tool declares as a number or integer is sent as a JSON number or integer.
\<close>

theorem tool_parameters:
  assumes "cmdNode c = Some n" "buildSnakeParams decode floatG c vals = Inr params"
  shows "map_of params s = sent_at decode n (explicitly_set c) (state_values c vals) s \<and>
    (\<forall>k \<in> set (sources (explicitly_set c) (state_values c vals) s).
       \<not> isMeegleRuntimeFlag k \<and> k \<in> set (map fst (ExplicitFlags c)) \<and>
       (numeric_type (param_type decode n k) \<longrightarrow>
          sent_number floatG (param_type decode n k) (sent_value decode n (state_values c vals) k)))"
proof -
  have b: "built decode floatG n (explicitly_set c) (state_values c vals) = Inr params"
    using assms(2) by (simp add: buildSnakeParams_built[OF assms(1)])
  have "sent_number floatG (param_type decode n k) (sent_value decode n (state_values c vals) k)"
    if k: "k \<in> set (sources (explicitly_set c) (state_values c vals) s)" "numeric_type (param_type decode n k)" for k
  proof -
    from built_map[OF b] k(1) have "key_valid decode floatG n (state_values c vals) k"
      by (auto simp: list_all_iff sources_def)
    then show ?thesis unfolding key_valid_def sent_value_def by (rule coerced_number[OF _ k(2)])
  qed
  with built_map[OF b] show ?thesis by (auto simp: sources_def explicitly_set_def)
qed

section \<open>A batch call is the single call\<close>

lemma sorted_distinct_filter_eq:
  assumes "distinct (map fst vs1)" "distinct (map fst vs2)"
    and "\<And>k. k \<in> set (map fst vs1) \<and> P k \<longleftrightarrow> k \<in> set (map fst vs2) \<and> Q k"
  shows "filter P (sortedValueKeys vs1) = filter Q (sortedValueKeys vs2)"
proof (rule sorted_distinct_set_unique)
  show "sorted (filter P (sortedValueKeys vs1))" "sorted (filter Q (sortedValueKeys vs2))"
    by (simp_all add: sortedValueKeys_def filter_sort)
  show "distinct (filter P (sortedValueKeys vs1))" "distinct (filter Q (sortedValueKeys vs2))"
    using assms(1,2) by (simp_all add: sortedValueKeys_def)
  show "set (filter P (sortedValueKeys vs1)) = set (filter Q (sortedValueKeys vs2))"
    using assms(3) by (auto simp: sortedValueKeys_def)
qed

definition same_tags :: "BuiltNode \<Rightarrow> BuiltNode \<Rightarrow> bool" where
  "same_tags n1 n2 = list_all (\<lambda>k. tag n1 k = tag n2 k) [''mcp_param_types'', ''mcp_param_items'', ''mcp_fixed_params'']"

lemma same_tags_facts:
  assumes "same_tags n1 n2"
  shows "param_type decode n1 = param_type decode n2" "param_items decode n1 = param_items decode n2"
    "fixed_params decode n1 = fixed_params decode n2"
  using assms by (auto simp: same_tags_def param_type_def param_items_def fixed_params_def tag_texts_def)

text \<open>
  The two commands agree: the single command has the flag for its item set to the text of the identifier,
  and they share all flags that are neither that one nor the flags of the identifiers.
\<close>

definition item_key :: "batchCommand \<Rightarrow> string" where "item_key bc = kebab (PerItemParam bc)"

definition shared_value :: "(string \<Rightarrow> bool) \<Rightarrow> 'f value_map \<Rightarrow> string \<Rightarrow> 'f any option" where
  "shared_value wanted vs k = (if wanted k then map_of vs k else None)"

definition single_shares :: "batchCommand \<Rightarrow> 'f ParsedCommand \<Rightarrow> string \<Rightarrow> bool" where
  "single_shares bc c k = (explicitly_set c k \<and> k \<noteq> item_key bc)"

definition batch_shares :: "batchCommand \<Rightarrow> 'f ParsedCommand \<Rightarrow> string \<Rightarrow> bool" where
  "batch_shares bc c k = (explicitly_set c k \<and> \<not> batch_skips bc k)"

definition same_flags ::
    "batchCommand \<Rightarrow> 'f ParsedCommand \<Rightarrow> 'f value_map \<Rightarrow> 'f ParsedCommand \<Rightarrow> 'f value_map \<Rightarrow> string \<Rightarrow> bool" where
  "same_flags bc single vs1 batch vs2 idText =
     (distinct (map fst vs1) \<and> distinct (map fst vs2) \<and>
      list_all (\<lambda>k. shared_value (single_shares bc single) vs1 k = shared_value (batch_shares bc batch) vs2 k)
        (map fst (vs1 @ vs2)) \<and>
      explicitly_set single (item_key bc) \<and> map_of vs1 (item_key bc) = Some (VString idText) \<and>
      snake (item_key bc) = PerItemParam bc \<and>
      list_all (\<lambda>k. explicitly_set single k \<and> snake k = PerItemParam bc \<longrightarrow> k = item_key bc) (map fst vs1) \<and>
      ParseNumber idText = Some idText \<and> IsInteger idText)"

lemma same_flags_shared:
  assumes "same_flags bc single vs1 batch vs2 idText"
  shows "shared_value (single_shares bc single) vs1 k = shared_value (batch_shares bc batch) vs2 k"
proof (cases "k \<in> set (map fst (vs1 @ vs2))")
  case True
  with assms show ?thesis by (auto simp: same_flags_def list_all_iff simp del: map_append)
next
  case False
  then have "map_of vs1 k = None" "map_of vs2 k = None" by (auto simp: map_of_eq_None_iff)
  then show ?thesis by (simp add: shared_value_def)
qed

lemma shared_value_key: "shared_value P vs k \<noteq> None \<longleftrightarrow> P k \<and> k \<in> set (map fst vs)"
  using map_of_eq_None_iff[of vs k] by (auto simp: shared_value_def simp del: map_of_eq_None_iff)

lemma same_flags_filter:
  assumes s: "same_flags bc single vs1 batch vs2 idText"
  shows "filter (\<lambda>k. single_shares bc single k \<and> Q k) (sortedValueKeys vs1) =
    filter (\<lambda>k. batch_shares bc batch k \<and> Q k) (sortedValueKeys vs2)"
proof (rule sorted_distinct_filter_eq)
  show "distinct (map fst vs1)" "distinct (map fst vs2)" using s by (simp_all add: same_flags_def)
  show "k \<in> set (map fst vs1) \<and> single_shares bc single k \<and> Q k \<longleftrightarrow>
    k \<in> set (map fst vs2) \<and> batch_shares bc batch k \<and> Q k" for k
    using shared_value_key[of "single_shares bc single" vs1 k] shared_value_key[of "batch_shares bc batch" vs2 k]
      same_flags_shared[OF s, of k] by auto
qed

lemma same_flags_value:
  assumes s: "same_flags bc single vs1 batch vs2 idText" and k: "k \<in> set (filter (single_shares bc single) (sortedValueKeys vs1))"
  shows "value_of vs1 k = value_of vs2 k"
proof -
  from k have "single_shares bc single k" by simp
  moreover have "k \<in> set (filter (batch_shares bc batch) (sortedValueKeys vs2))"
    using k same_flags_filter[OF s, of "\<lambda>k. True"] by (simp only: simp_thms)
  then have "batch_shares bc batch k" by simp
  ultimately show ?thesis using same_flags_shared[OF s, of k] by (simp add: shared_value_def value_of_def)
qed

lemma integer_id_valid:
  "ParseNumber idText = Some idText \<Longrightarrow> IsInteger idText \<Longrightarrow> validateNumericParam floatG k (VString idText) t = None"
  by (simp add: validateNumericParam_def exactJSONNumber_def)

lemma filter_eq_singleton: "distinct xs \<Longrightarrow> x \<in> set xs \<Longrightarrow> filter (\<lambda>y. y = x) xs = [x]"
  by (induction xs) (auto simp: filter_empty_conv)

lemma filter_but_one:
  assumes "distinct xs" "x \<in> set xs" "P x"
  shows "list_all Q (filter P xs) \<longleftrightarrow> Q x \<and> list_all Q (filter (\<lambda>y. P y \<and> y \<noteq> x) xs)"
  using assms by (auto simp: list_all_iff)

text \<open>
  C21.  A call of a batch is the call of the single command.  When a batch command and the single command
  it is made from carry the same types and fixed parameters and share their other flags, then the single
  command with the text of an identifier as its item is refused whenever the batch is, and otherwise sends
  exactly the parameters the batch sends for that identifier.
\<close>

theorem batch_call_is_single_call:
  assumes nodes: "cmdNode single = Some n1" "cmdNode batch = Some n2" "batchCommandForNode (Some n2) = Some bc"
    and tags: "same_tags n1 n2"
    and flags: "same_flags bc single (state_values single vals1) batch (state_values batch vals2) idText"
  shows "case batchSharedParams decode floatG batch vals2 of
      Inl e \<Rightarrow> \<exists>e'. buildSnakeParams decode floatG single vals1 = Inl e'
    | Inr shared \<Rightarrow>
        \<exists>m. buildSnakeParams decode floatG single vals1 = Inr m \<and>
          map_of m = map_of (item_params decode n2 (PerItemParam bc) shared idText)"
proof -
  let ?vs1 = "state_values single vals1" and ?vs2 = "state_values batch vals2" and ?item = "item_key bc"
  let ?P1 = "explicitly_set single" and ?P2 = "batch_shares bc batch"
  note t = same_tags_facts[OF tags, of decode]
  have b1: "buildSnakeParams decode floatG single vals1 = built decode floatG n1 ?P1 ?vs1"
    by (rule buildSnakeParams_built[OF nodes(1)])
  have b2: "batchSharedParams decode floatG batch vals2 = built decode floatG n2 ?P2 ?vs2"
    unfolding batch_shares_def by (rule batchSharedParams_built[OF nodes(2,3)])
  have item: "?P1 ?item" "map_of ?vs1 ?item = Some (VString idText)" "snake ?item = PerItemParam bc"
      "distinct (map fst ?vs1)" "ParseNumber idText = Some idText" "IsInteger idText"
    and alone: "\<And>k. k \<in> set (map fst ?vs1) \<Longrightarrow> ?P1 k \<Longrightarrow> snake k = PerItemParam bc \<Longrightarrow> k = ?item"
    using flags by (auto simp: same_flags_def list_all_iff)
  have mem: "?item \<in> set (sortedValueKeys ?vs1)" and dist: "distinct (sortedValueKeys ?vs1)"
    using item(2,4) by (auto simp: sortedValueKeys_def dest: map_of_SomeD intro: rev_image_eqI)
  have rest: "filter (\<lambda>k. ?P1 k \<and> k \<noteq> ?item) (sortedValueKeys ?vs1) = filter ?P2 (sortedValueKeys ?vs2)"
    using same_flags_filter[OF flags, of "\<lambda>k. True"] by (simp add: single_shares_def)
  have vals: "value_of ?vs1 k = value_of ?vs2 k" if "k \<in> set (filter ?P2 (sortedValueKeys ?vs2))" for k
    using same_flags_value[OF flags, of k] that[folded rest] by (simp add: single_shares_def)
  have validity: "list_all (key_valid decode floatG n1 ?vs1) (filter ?P1 (sortedValueKeys ?vs1)) =
      list_all (key_valid decode floatG n2 ?vs2) (filter ?P2 (sortedValueKeys ?vs2))"
    unfolding filter_but_one[OF dist mem, of ?P1, OF item(1)] rest
    using integer_id_valid[OF item(5,6)] vals
    by (auto simp: list_all_iff key_valid_def value_of_def[of ?vs1 ?item] item(2) t)
  show ?thesis
  proof (cases "built decode floatG n2 ?P2 ?vs2")
    case (Inl e)
    then have "\<not> (\<exists>m. built decode floatG n1 ?P1 ?vs1 = Inr m)" unfolding built_ok validity using built_ok[of decode floatG n2 ?P2 ?vs2] by simp
    then show ?thesis unfolding b1 b2 by (cases "built decode floatG n1 ?P1 ?vs1") (simp_all add: Inl)
  next
    case (Inr shared)
    then obtain m where m: "built decode floatG n1 ?P1 ?vs1 = Inr m"
      using built_ok[of decode floatG n1 ?P1 ?vs1] built_ok[of decode floatG n2 ?P2 ?vs2] validity by auto
    have "map_of m s = map_of (item_params decode n2 (PerItemParam bc) shared idText) s" for s
    proof (cases "s = PerItemParam bc")
      case True
      have "sources ?P1 ?vs1 s = [?item]"
      proof -
        have "sources ?P1 ?vs1 s = filter (\<lambda>k. k = ?item) (sortedValueKeys ?vs1)"
          unfolding sources_def by (rule filter_cong) (use alone item(1,3) True in \<open>auto simp: sortedValueKeys_def\<close>)
        also have "\<dots> = [?item]" using mem dist by (simp add: filter_eq_singleton)
        finally show ?thesis .
      qed
      with built_map[OF m, of s] show ?thesis
        by (simp add: True sent_at_def item_params_def perItemCoercionTypes_def sent_value_def value_of_def item(2) t
            item_key_def[symmetric] update_conv')
    next
      case False
      have src: "sources ?P1 ?vs1 s = sources ?P2 ?vs2 s"
      proof -
        have "sources ?P1 ?vs1 s = filter (\<lambda>k. single_shares bc single k \<and> snake k = s) (sortedValueKeys ?vs1)"
          unfolding sources_def single_shares_def by (rule filter_cong) (use item(3) False in auto)
        then show ?thesis by (simp add: sources_def same_flags_filter[OF flags])
      qed
      have sv: "sent_value decode n1 ?vs1 k = sent_value decode n2 ?vs2 k" if "k \<in> set (sources ?P2 ?vs2 s)" for k
        using vals[of k] that by (simp add: sent_value_def t sources_def)
      have "sent_at decode n1 ?P1 ?vs1 s = sent_at decode n2 ?P2 ?vs2 s"
        unfolding sent_at_def src t using sv[OF last_in_set] by (cases "sources ?P2 ?vs2 s") (simp_all del: last.simps)
      with built_map[OF m, of s] built_map[OF Inr, of s] False show ?thesis
        by (simp add: item_params_def perItemCoercionTypes_def update_conv')
    qed
    then show ?thesis unfolding b1 b2 by (simp add: Inr m fun_eq_iff)
  qed
qed

section \<open>An example\<close>

definition demo_meta :: "string \<Rightarrow> NodeMeta" where
  "demo_meta src =
     \<lparr>metaHidden = False, Dangerous = False, metaDeprecated = [], Scope = [], CommandID = [], Source = src,
      metaRisk = [], ToolName = ''get_workitem_brief'',
      Tags = [(''mcp_param_types'', ''T''), (''mcp_fixed_params'', ''F'')]\<rparr>"

definition demo_help :: HelpText where
  "demo_help = \<lparr>Brief = [], Long = [], TemplateVars = [], Examples = []\<rparr>"

definition demo_call_node :: "string \<Rightarrow> string \<Rightarrow> BuiltNode" where
  "demo_call_node name src =
     BuiltNode name [] demo_help [] [] ''get_workitem_brief'' (demo_meta src) [''workitem'', name] [] []"

definition demo_types :: "string \<Rightarrow> json option" where
  "demo_types raw =
     (if raw = ''T'' then Some (JObject [(''work-item-id'', JString ''integer''), (''fields'', JString ''array'')])
      else if raw = ''F'' then Some (JObject [(''source'', JString ''cli'')])
      else None)"

definition demo_flags_call :: "(string \<times> unit any) list \<Rightarrow> string \<Rightarrow> string \<Rightarrow> unit ParsedCommand" where
  "demo_flags_call flags name src =
     \<lparr>cmdNode = Some (demo_call_node name src), FullPath = [''workitem'', name], Flags = flags, ExplicitFlags = flags,
      Args = [], IsHelp = False, RawArgs = [], RawFlags = []\<rparr>"

definition demo_single :: "unit ParsedCommand" where
  "demo_single =
     demo_flags_call [(''work-item-id'', VString ''42''), (''fields'', VStrings [''name,owner'']), (''profile'', VString ''p'')]
       ''get'' ''mcp''"

definition demo_batch :: "unit ParsedCommand" where
  "demo_batch =
     demo_flags_call [(''work-item-ids'', VStrings [''42'']), (''fields'', VStrings [''name,owner'']), (''profile'', VString ''p'')]
       ''+batch-get'' ''batch''"

definition demo_sent :: "unit value_map" where
  "demo_sent =
     [(''fields'', VList [VString ''name'', VString ''owner'']), (''work_item_id'', VNumber ''42''),
      (''source'', VString ''cli'')]"

lemma demo_single_sent: "buildSnakeParams demo_types (\<lambda>f. []) demo_single None = Inr demo_sent"
  by code_simp

theorem tool_parameters_witness:
  "map_of demo_sent ''work_item_id'' =
     sent_at demo_types (demo_call_node ''get'' ''mcp'') (explicitly_set demo_single) (state_values demo_single None) ''work_item_id''"
  by (rule tool_parameters[OF _ demo_single_sent, THEN conjunct1]) (simp add: demo_single_def demo_flags_call_def)

definition demo_bc :: batchCommand where "demo_bc = List.hd batchCommands"

lemma demo_bc_found: "batchCommandForNode (Some (demo_call_node ''+batch-get'' ''batch'')) = Some demo_bc"
  by code_simp

lemma demo_same_tags: "same_tags (demo_call_node ''get'' ''mcp'') (demo_call_node ''+batch-get'' ''batch'')"
  by code_simp

lemma demo_same_flags:
  "same_flags demo_bc demo_single (state_values demo_single None) demo_batch (state_values demo_batch None) ''42''"
  by code_simp

theorem batch_call_is_single_call_witness:
  "case batchSharedParams demo_types (\<lambda>f. []) demo_batch None of
      Inl e \<Rightarrow> \<exists>e'. buildSnakeParams demo_types (\<lambda>f. []) demo_single None = Inl e'
    | Inr shared \<Rightarrow>
        \<exists>m. buildSnakeParams demo_types (\<lambda>f. []) demo_single None = Inr m \<and>
          map_of m = map_of (item_params demo_types (demo_call_node ''+batch-get'' ''batch'') (PerItemParam demo_bc) shared ''42'')"
  by (rule batch_call_is_single_call[OF _ _ demo_bc_found demo_same_tags demo_same_flags])
    (simp_all add: demo_single_def demo_batch_def demo_flags_call_def)

end
