(* ===== verification/Product_Tree.thy ===== *)
theory Product_Tree
  imports Local_Registry Param_Coercion
begin

text \<open>
  \<open>internal/products/meegle/registry.go\<close> with the injections of \<open>batch.go\<close> and \<open>attachment_register.go\<close>: the
  tools of the service are mapped to commands, the untrusted ones are sanitized one by one, and the accepted
  ones become the command tree.

  \<open>encode\<close> is \<open>json.Marshal\<close> on a map of strings.  Texts are taken to be ASCII where they are cleaned.  The
  methods within a resource are sorted by name; methods of equal name do not occur among sanitized commands.
\<close>

section \<open>Texts\<close>

definition resourceDescriptions :: "(string \<times> string) list" where
  "resourceDescriptions =
     [(''workitem'', (''Work Item domain '' @ [CHR 0xE2, CHR 0x80, CHR 0x94] @ '' CRUD, field metadata, time tracking, comments'')),
      (''workflow'', (''Workflow domain '' @ [CHR 0xE2, CHR 0x80, CHR 0x94] @ '' node transitions, state transitions, node fields'')),
      (''subtask'', (''Subtask domain '' @ [CHR 0xE2, CHR 0x80, CHR 0x94] @ '' subtask operations'')),
      (''comment'', (''Comment domain '' @ [CHR 0xE2, CHR 0x80, CHR 0x94] @ '' cross-entity commenting'')),
      (''workhour'', (''Work Hour domain '' @ [CHR 0xE2, CHR 0x80, CHR 0x94] @ '' time tracking and scheduling'')),
      (''relation'', (''Relation domain '' @ [CHR 0xE2, CHR 0x80, CHR 0x94] @ '' work item relationships'')),
      (''mywork'', (''My Work domain '' @ [CHR 0xE2, CHR 0x80, CHR 0x94] @ '' cross-space personal to-do/done items'')),
      (''view'', (''View domain '' @ [CHR 0xE2, CHR 0x80, CHR 0x94] @ '' create, query, update views'')),
      (''chart'', (''Chart domain '' @ [CHR 0xE2, CHR 0x80, CHR 0x94] @ '' chart queries'')),
      (''team'', (''Team domain '' @ [CHR 0xE2, CHR 0x80, CHR 0x94] @ '' space members, team queries'')),
      (''user'', (''User domain '' @ [CHR 0xE2, CHR 0x80, CHR 0x94] @ '' user information search'')),
      (''project'', (''Project domain '' @ [CHR 0xE2, CHR 0x80, CHR 0x94] @ '' project space queries'')),
      (''attachment'', (''Attachment domain '' @ [CHR 0xE2, CHR 0x80, CHR 0x94] @
         '' upload/download files via Lark Project attachment protocol'')),
      (''deliverable'', (''Deliverable domain '' @ [CHR 0xE2, CHR 0x80, CHR 0x94] @
         '' deliverable listing and related work item context'')),
      (''wbs'', (''WBS domain '' @ [CHR 0xE2, CHR 0x80, CHR 0x94] @ '' plan-table draft and instance workflows'')),
      (''resource'', (''Resource domain '' @ [CHR 0xE2, CHR 0x80, CHR 0x94] @
         '' resource-library template (resource instance) operations''))]"

definition resource_brief :: "string \<Rightarrow> string" where
  "resource_brief name =
     (let desc = text_at resourceDescriptions name in if desc = [] then name @ '' domain'' else desc)"

text \<open>The rest of a text after an escape sequence \<open>ESC [ \<dots>\<close>, if it starts with one.\<close>

definition ansi_rest :: "string \<Rightarrow> string option" where
  "ansi_rest s =
     (case s of
        c # d # rest \<Rightarrow>
          (if c = CHR 0x1B \<and> d = CHR ''['' then
             (case dropWhile (\<lambda>c. CHR '' '' \<le> c \<and> c \<le> CHR ''/'')
                (dropWhile (\<lambda>c. is_digit c \<or> c = CHR '';'' \<or> c = CHR ''?'') rest) of
                e # rest' \<Rightarrow> (if CHR 0x40 \<le> e \<and> e \<le> CHR 0x7E then Some rest' else None)
              | [] \<Rightarrow> None)
           else None)
      | _ \<Rightarrow> None)"

lemma ansi_rest_shorter: "ansi_rest s = Some r \<Longrightarrow> length r < length s"
proof -
  assume "ansi_rest s = Some r"
  then obtain c d rest e where s: "s = c # d # rest"
    and r: "dropWhile (\<lambda>c. CHR '' '' \<le> c \<and> c \<le> CHR ''/'')
      (dropWhile (\<lambda>c. is_digit c \<or> c = CHR '';'' \<or> c = CHR ''?'') rest) = e # r"
    by (auto simp: ansi_rest_def split: list.splits if_splits)
  have "length (e # r) \<le> length rest"
    unfolding r[symmetric] by (rule order_trans[OF length_dropWhile_le length_dropWhile_le])
  then show ?thesis by (simp add: s)
qed

function strip_ansi :: "string \<Rightarrow> string" where
  "strip_ansi s =
     (case ansi_rest s of
        Some rest \<Rightarrow> strip_ansi rest
      | None \<Rightarrow> (case s of [] \<Rightarrow> [] | c # cs \<Rightarrow> c # strip_ansi cs))"
  by pat_completeness auto
termination
  by (relation "measure length") (auto dest: ansi_rest_shorter)

declare strip_ansi.simps [simp del]

definition is_control :: "char \<Rightarrow> bool" where
  "is_control c = (c < CHR '' '' \<or> c = CHR 0x7F)"

definition sanitizeHelpText :: "string \<Rightarrow> string" where
  "sanitizeHelpText s = Join '' '' (Fields (map (\<lambda>c. if is_control c then CHR '' '' else c) (strip_ansi s)))"

section \<open>Flags and texts of a command\<close>

definition toFlagName :: "string \<Rightarrow> string" where
  "toFlagName name = kebab name"

definition mapParamType :: "string \<Rightarrow> string" where
  "mapParamType ty =
     (if ty = ''string'' then ''string''
      else if ty = ''number'' then ''number''
      else if ty = ''integer'' then ''integer''
      else if ty = ''boolean'' then ''bool''
      else if ty = ''array'' then ''string-array''
      else ''string'')"

text \<open>The parameter \<open>url\<close> is no flag.\<close>

definition flag_params :: "ToolParameter list \<Rightarrow> ToolParameter list" where
  "flag_params ps = filter (\<lambda>p. paramName p \<noteq> ''url'') ps"

definition convertParameters :: "ToolParameter list \<Rightarrow> FlagDef list" where
  "convertParameters ps =
     map (\<lambda>p. typed_flag (toFlagName (paramName p)) (mapParamType (paramType p)) (paramRequired p) (paramDescription p))
       (flag_params ps)"

definition buildShortDesc :: "MappedCommand \<Rightarrow> string" where
  "buildShortDesc cmd =
     (let hints = map (\<lambda>p. ''--'' @ toFlagName (paramName p) @ ''*'') (filter paramRequired (flag_params (mcParameters cmd))) @
                  (if mcHasFields cmd then [''--set''] else [])
      in if hints \<noteq> [] then mcDescription cmd @ '' ['' @ Join '', '' hints @ '']'' else mcDescription cmd)"

definition param_types :: "ToolParameter list \<Rightarrow> (string \<times> string) list" where
  "param_types ps = fold (\<lambda>p. AList.update (kebab (paramName p)) (paramType p)) (flag_params ps) []"

definition param_item_types :: "ToolParameter list \<Rightarrow> (string \<times> string) list" where
  "param_item_types ps =
     fold (\<lambda>p m.
       (case paramItems p of
          Some ty \<Rightarrow> (if paramType p = ''array'' \<and> ty \<noteq> [] then AList.update (kebab (paramName p)) ty m else m)
        | None \<Rightarrow> m)) (flag_params ps) []"

definition command_tags :: "((string \<times> string) list \<Rightarrow> string) \<Rightarrow> MappedCommand \<Rightarrow> (string \<times> string) list" where
  "command_tags encode cmd =
     (let types = param_types (mcParameters cmd); items = param_item_types (mcParameters cmd) in
      (if types \<noteq> [] then [(''mcp_param_types'', encode types)] else []) @
      (if items \<noteq> [] then [(''mcp_param_items'', encode items)] else []))"

definition child_node :: "((string \<times> string) list \<Rightarrow> string) \<Rightarrow> MappedCommand \<Rightarrow> CommandNode" where
  "child_node encode cmd =
     CommandNode (mcMethod cmd) [] (help_of (buildShortDesc cmd) [] []) (convertParameters (mcParameters cmd)) []
       (mcToolName cmd)
       (plain_meta (''mcp:'' @ mcToolName cmd) ''mcp'' (riskForTool (mcToolName cmd)) (mcToolName cmd)
         (command_tags encode cmd)) []"

section \<open>Injected commands\<close>

fun node_append :: "CommandNode \<Rightarrow> CommandNode \<Rightarrow> CommandNode" where
  "node_append (CommandNode n al h fl ar hr me cs) c = CommandNode n al h fl ar hr me (cs @ [Some c])"

fun update_first :: "(CommandNode \<Rightarrow> CommandNode) \<Rightarrow> string \<Rightarrow> CommandNode list \<Rightarrow> CommandNode list" where
  "update_first f name [] = []"
| "update_first f name (n # ns) = (if nodeName n = name then f n # ns else n # update_first f name ns)"

definition hasChildNamed :: "CommandNode \<Rightarrow> string \<Rightarrow> bool" where
  "hasChildNamed n name = list_ex (\<lambda>c. nodeName c = name) (non_nil (nodeChildren n))"

definition findChild :: "CommandNode \<Rightarrow> string \<Rightarrow> CommandNode option" where
  "findChild n name = find (\<lambda>c. nodeName c = name) (non_nil (nodeChildren n))"

record sugarCommand =
  sgGroup :: string
  sgName :: string
  sgBrief :: string
  sgHandler :: string
  sgFlags :: "FlagDef list"
  sgFixed :: string

text \<open>The fixed parameters of a sugar command are given by their JSON text.\<close>

definition sugarCommands :: "sugarCommand list" where
  "sugarCommands =
     [\<lparr>sgGroup = ''user'', sgName = ''me'', sgBrief = ''View current logged-in user information'',
        sgHandler = ''search_user_info'', sgFlags = [],
        sgFixed = (''{'' @ [CHR 0x22] @ ''user_keys'' @ [CHR 0x22] @ '':['' @ [CHR 0x22] @ ''current_login_user()'' @
         [CHR 0x22] @ '']}'')\<rparr>]"

definition sugar_node :: "sugarCommand \<Rightarrow> CommandNode" where
  "sugar_node sg =
     CommandNode (sgName sg) [] (help_of (sgBrief sg) [] []) (sgFlags sg) [] (sgHandler sg)
       (plain_meta (''sugar:'' @ sgGroup sg @ ''/'' @ sgName sg) ''sugar'' (riskForTool (sgHandler sg)) (sgHandler sg)
         (if sgFixed sg \<noteq> [] then [(''mcp_fixed_params'', sgFixed sg)] else [])) []"

definition injectSugarCommands :: "CommandNode list \<Rightarrow> CommandNode list" where
  "injectSugarCommands nodes =
     fold (\<lambda>sg. update_first (\<lambda>n. node_append n (sugar_node sg)) (sgGroup sg)) sugarCommands nodes"

record attachmentShortcut =
  scName :: string
  scAliases :: "string list"
  scBrief :: string
  scLong :: string
  scKind :: string
  scSibling :: string
  scArgs :: "ArgDef list"
  scFlags :: "FlagDef list"

definition attachmentShortcuts :: "attachmentShortcut list" where
  "attachmentShortcuts =
     [\<lparr>scName = ''+upload'', scAliases = [], scBrief = ''Upload a local file end-to-end (preprocess + signed HTTP POST)'',
        scLong =
         (''Composes `attachment prepare-upload` with the signed HTTP POST(s) to object storage and returns the resulting file_token alongside the file metadata.'' @
         [CHR 0x0A, CHR 0x0A] @ ''resource-type values:'' @ [CHR 0x0A] @ ''  13  comment attachment'' @ [CHR 0x0A] @
         ''  14  comment image'' @ [CHR 0x0A] @ ''  15  workitem attachment field'' @ [CHR 0x0A] @
         ''  16  workitem rich-text field image''),
        scKind = ''upload'', scSibling = ''prepare-upload'',
        scArgs = [\<lparr>argName = ''source-path'', argRequired = True, Variadic = False, argDescription = ''Local file path to upload''\<rparr>],
        scFlags =
        [typed_flag ''resource-type'' ''string'' True (''Backend resource type '' @ [CHR 0xE2, CHR 0x80, CHR 0x94] @
           '' 13=comment-attachment | 14=comment-image | 15=attachment-field | 16=rich-text-field-image''),
         typed_flag ''project-key'' ''string'' True (''Lark project key''),
         typed_flag ''work-item-id'' ''string'' False (''Target work item ID '' @ [CHR 0xE2, CHR 0x80, CHR 0x94] @
           '' preferred whenever the workitem already exists (takes precedence if both flags are given)''),
         typed_flag ''work-item-type'' ''string'' False (''Workitem type key '' @ [CHR 0xE2, CHR 0x80, CHR 0x94] @
           '' fallback for create-with-attachment only (no workitem id yet); ignored when --work-item-id is set''),
         typed_flag ''field-key'' ''string'' False (''Field key (required for --resource-type 15 / 16)''),
         typed_flag ''filename'' ''string'' False (''Override file name sent to backend (default: base name of <source-path>)''),
         typed_flag ''content-type'' ''string'' False (''Override MIME type (default: detected from extension, fallback application/octet-stream)'')]\<rparr>,
      \<lparr>scName = ''+download'', scAliases = [], scBrief = ''Download an attachment end-to-end (preprocess + signed HTTP GET + atomic write)'',
        scLong =
         ''Composes `attachment prepare-download` with the signed HTTP GET(s) and writes via a `.partial` temp file + os.Rename so a failed download never leaves a half-written file at the destination.'',
        scKind = ''download'', scSibling = ''prepare-download'',
        scArgs = [\<lparr>argName = ''file-url'', argRequired = True, Variadic = False, argDescription = ''Opaque file URL embedded in another command'' @ [CHR 0x27] @ ''s response''\<rparr>],
        scFlags =
        [typed_flag ''project-key'' ''string'' True (''Lark project key''),
         typed_flag ''work-item-id'' ''string'' True (''Source work item ID''),
         typed_flag ''output'' ''string'' True (''Local destination path''),
         typed_flag ''overwrite'' ''bool'' False (''Allow overwriting an existing file at --output'')]\<rparr>]"

definition copied_tags :: "(string \<times> string) list \<Rightarrow> (string \<times> string) list" where
  "copied_tags tags =
     List.map_filter (\<lambda>key. case map_of tags key of Some raw \<Rightarrow> (if raw \<noteq> [] then Some (key, raw) else None) | None \<Rightarrow> None)
       [''mcp_param_types'', ''mcp_param_items'', ''mcp_fixed_params'']"

definition shortcut_node :: "string \<Rightarrow> attachmentShortcut \<Rightarrow> CommandNode \<Rightarrow> CommandNode" where
  "shortcut_node grp sc sibling =
     CommandNode (scName sc) (scAliases sc) (help_of (scBrief sc) (scLong sc) []) (scFlags sc) (scArgs sc) (nodeHandler sibling)
       (plain_meta (''attachment:'' @ grp @ ''/'' @ scName sc) ''attachment'' (metaRisk (nodeMeta sibling)) (nodeHandler sibling)
         ((''mcp_attachment_shortcut'', scKind sc) # copied_tags (Tags (nodeMeta sibling)))) []"

definition add_shortcut :: "attachmentShortcut \<Rightarrow> CommandNode \<Rightarrow> CommandNode" where
  "add_shortcut sc n =
     (if hasChildNamed n (scName sc) then n
      else (case findChild n (scSibling sc) of
              None \<Rightarrow> n
            | Some sibling \<Rightarrow> node_append n (shortcut_node (nodeName n) sc sibling)))"

definition injectAttachmentCommands :: "CommandNode list \<Rightarrow> CommandNode list" where
  "injectAttachmentCommands nodes = update_first (fold add_shortcut attachmentShortcuts) ''attachment'' nodes"

definition buildBatchLongHelp :: "batchCommand \<Rightarrow> string" where
  "buildBatchLongHelp bc =
     Join [CHR 0x0A]
       [''Client-side fan-out over `meegle '' @ Group bc @ '' '' @ SingleCommandName bc @ ''`, one call per ID.'',
        ''Up to '' @ show_nat maxBatchIDs @ '' IDs per invocation, executed with '' @ show_nat batchConcurrency @
          '' concurrent workers.'',
        [],
        ''Provide IDs via --'' @ IDsFlag bc @ '' (comma-separated or repeated)'' @
          (if IDsFileFlag bc \<noteq> []
           then '' or --'' @ IDsFileFlag bc @ '' (one per line, '' @ [CHR 0x27] @ ''#'' @ [CHR 0x27] @ '' starts a comment).''
           else ''.''),
        [],
        ''Output shape: {results, errors, summary}. Use `--format ndjson` to stream one record per line (summary on the last line).'']"

definition derived_flags :: "batchCommand \<Rightarrow> FlagDef list \<Rightarrow> FlagDef list" where
  "derived_flags bc flags =
     typed_flag (IDsFlag bc) ''string-slice'' False
       (''Target IDs (comma-separated or repeated). Required unless --'' @ IDsFileFlag bc @ '' is given.'') #
     (if IDsFileFlag bc \<noteq> [] then
        [typed_flag (IDsFileFlag bc) ''string'' False
          ''Read IDs from file (one per line or comma-separated; lines starting with # are ignored).'']
      else []) @
     filter (\<lambda>f. flagName f \<noteq> kebab (PerItemParam bc)) flags"

definition derived_tags :: "batchCommand \<Rightarrow> (string \<times> string) list \<Rightarrow> (string \<times> string) list" where
  "derived_tags bc tags = [(''mcp_batch'', ''1''), (''mcp_batch_per_item'', PerItemParam bc)] @ copied_tags tags"

definition batch_node_of :: "batchCommand \<Rightarrow> CommandNode \<Rightarrow> CommandNode" where
  "batch_node_of bc sibling =
     CommandNode (batchName bc) (batchAliases bc) (help_of (batchBrief bc) (buildBatchLongHelp bc) [])
       (derived_flags bc (nodeFlags sibling)) [] (nodeHandler sibling)
       (plain_meta (''batch:'' @ Group bc @ ''/'' @ batchName bc) ''batch'' (metaRisk (nodeMeta sibling)) (nodeHandler sibling)
         (derived_tags bc (Tags (nodeMeta sibling)))) []"

definition add_batch :: "batchCommand \<Rightarrow> CommandNode \<Rightarrow> CommandNode" where
  "add_batch bc n =
     (if hasChildNamed n (batchName bc) then n
      else (case findChild n (SingleCommandName bc) of
              None \<Rightarrow> n
            | Some sibling \<Rightarrow> node_append n (batch_node_of bc sibling)))"

definition injectBatchCommands :: "CommandNode list \<Rightarrow> CommandNode list" where
  "injectBatchCommands nodes = fold (\<lambda>bc. update_first (add_batch bc) (Group bc)) batchCommands nodes"

section \<open>The tree\<close>

definition group_names :: "MappedCommand list \<Rightarrow> string list" where
  "group_names commands = sort (remdups (map mcResource commands))"

definition group_commands :: "MappedCommand list \<Rightarrow> string \<Rightarrow> MappedCommand list" where
  "group_commands commands name = sort_key mcMethod (filter (\<lambda>c. mcResource c = name) commands)"

definition group_node :: "((string \<times> string) list \<Rightarrow> string) \<Rightarrow> MappedCommand list \<Rightarrow> string \<Rightarrow> CommandNode" where
  "group_node encode commands name =
     CommandNode name [] (help_of (resource_brief name) [] []) [] [] [] no_meta
       (map (Some \<circ> child_node encode) (group_commands commands name))"

definition buildCommandTree :: "((string \<times> string) list \<Rightarrow> string) \<Rightarrow> MappedCommand list \<Rightarrow> CommandTree" where
  "buildCommandTree encode commands =
     \<lparr>treeVersion = ''dynamic'', GlobalFlags = [],
      Nodes = map Some (injectBatchCommands (injectAttachmentCommands (injectSugarCommands
        (map (group_node encode commands) (group_names commands)))))\<rparr>"

section \<open>Sanitizing\<close>

record ToolMappingIssue =
  issueCode :: string
  issueTool :: string
  issuePath :: string

text \<open>The pattern \<open>^[a-z][a-z0-9-]*$\<close>.\<close>

definition dynamicCommandNamePattern :: "string \<Rightarrow> bool" where
  "dynamicCommandNamePattern s =
     (case s of [] \<Rightarrow> False
      | c # cs \<Rightarrow> is_lower c \<and> list_all (\<lambda>d. is_lower d \<or> is_digit d \<or> d = CHR ''-'') cs)"

definition reservedDynamicResources :: "string list" where
  "reservedDynamicResources =
     [''auth'', ''completion'', ''config'', ''extension'', ''help'', ''inspect'', ''url'', ''version''] @
     filter (\<lambda>k. k \<noteq> [])
       (map (ToLower \<circ> TrimSpace) (concat (map node_names (non_nil (Nodes newMeegleLocalCommandTree)))))"

definition reservedDynamicFlagNames :: "string list" where
  "reservedDynamicFlagNames = [''help'', ''version'']"

definition mapping_issue :: "string \<Rightarrow> MappedCommand \<Rightarrow> ToolMappingIssue" where
  "mapping_issue code cmd =
     \<lparr>issueCode = code, issueTool = mcToolName cmd, issuePath = TrimChar CHR ''/'' (mcResource cmd @ ''/'' @ mcMethod cmd)\<rparr>"

definition clean_command :: "MappedCommand \<Rightarrow> MappedCommand" where
  "clean_command cmd =
     (let desc = sanitizeHelpText (mcDescription cmd) in
      cmd\<lparr>mcDescription := (if desc = [] then ''Run dynamic tool'' else desc),
          mcParameters := map (\<lambda>p. p\<lparr>paramDescription := sanitizeHelpText (paramDescription p)\<rparr>) (mcParameters cmd)\<rparr>)"

definition param_accepted :: "FlagDef list \<Rightarrow> ToolParameter \<Rightarrow> bool" where
  "param_accepted globalFlags p =
     (let name = toFlagName (paramName p) in
      paramName p = ''url'' \<or>
      (dynamicCommandNamePattern name \<and> name \<notin> set reservedDynamicFlagNames \<and>
       \<not> list_ex (\<lambda>g. ToLower name = ToLower (flagName g)) globalFlags))"

definition command_path :: "MappedCommand \<Rightarrow> string" where
  "command_path cmd = mcResource cmd @ ''/'' @ mcMethod cmd"

text \<open>The checks of one command in their order: the cleaned command, or the code of the issue.\<close>

definition check_command ::
    "((string \<times> string) list \<Rightarrow> string) \<Rightarrow> FlagDef list \<Rightarrow> MappedCommand \<Rightarrow> (string, MappedCommand) result" where
  "check_command encode globalFlags cmd =
     (if mcResource cmd \<in> set reservedDynamicResources then Inl ''reserved_path''
      else if (case FallbackToolForPath (mcResource cmd) (mcMethod cmd) of
                 Some owner \<Rightarrow> owner \<noteq> mcToolName cmd | None \<Rightarrow> False) then Inl ''reserved_path''
      else if \<not> dynamicCommandNamePattern (mcResource cmd) \<or> \<not> dynamicCommandNamePattern (mcMethod cmd)
      then Inl ''invalid_command''
      else
        (let cleaned = clean_command cmd in
         if \<not> list_all (param_accepted globalFlags) (mcParameters cleaned) then Inl ''invalid_command''
         else if vErrors (ValidateTree (Some (buildCommandTree encode [cleaned]))) \<noteq> [] then Inl ''invalid_command''
         else Inr cleaned))"

fun sanitize_loop ::
    "((string \<times> string) list \<Rightarrow> string) \<Rightarrow> FlagDef list \<Rightarrow> MappedCommand list \<Rightarrow> MappedCommand list \<Rightarrow>
     ToolMappingIssue list \<Rightarrow> MappedCommand list \<times> ToolMappingIssue list" where
  "sanitize_loop encode globalFlags [] accepted issues = (accepted, issues)"
| "sanitize_loop encode globalFlags (cmd # cmds) accepted issues =
     (case check_command encode globalFlags cmd of
        Inl code \<Rightarrow> sanitize_loop encode globalFlags cmds accepted (issues @ [mapping_issue code cmd])
      | Inr cleaned \<Rightarrow>
          (if command_path cleaned \<in> set (map command_path accepted)
           then sanitize_loop encode globalFlags cmds accepted (issues @ [mapping_issue ''duplicate_path'' cleaned])
           else sanitize_loop encode globalFlags cmds (accepted @ [cleaned]) issues))"

definition sanitizeMappedCommands ::
    "((string \<times> string) list \<Rightarrow> string) \<Rightarrow> MappedCommand list \<Rightarrow> FlagDef list \<Rightarrow>
     MappedCommand list \<times> ToolMappingIssue list" where
  "sanitizeMappedCommands encode commands globalFlags = sanitize_loop encode globalFlags commands [] []"

definition wire_issue :: "ToolDefinition \<Rightarrow> ToolMappingIssue option" where
  "wire_issue t =
     (case tdIssue t of
        Some i \<Rightarrow> Some \<lparr>issueCode = tdiCode i, issueTool = tdName t, issuePath = tdiPath i\<rparr>
      | None \<Rightarrow>
          (if IsFallbackTool (tdName t) then None
           else
             (case tdMetadata t of
                None \<Rightarrow> Some \<lparr>issueCode = ''missing_mapping'', issueTool = tdName t, issuePath = []\<rparr>
              | Some m \<Rightarrow>
                  (if TrimSpace (tmResource m) = [] \<or> TrimSpace (tmMethod m) = [] then
                     Some \<lparr>issueCode = ''invalid_tool_definition'', issueTool = tdName t,
                           issuePath = TrimChar CHR ''/'' (tmResource m @ ''/'' @ tmMethod m)\<rparr>
                   else None))))"

definition mapAndSanitizeTools ::
    "((string \<times> string) list \<Rightarrow> string) \<Rightarrow> ToolDefinition list \<Rightarrow> FlagDef list \<Rightarrow>
     MappedCommand list \<times> ToolMappingIssue list" where
  "mapAndSanitizeTools encode tools globalFlags =
     (case sanitizeMappedCommands encode (MapTools tools) globalFlags of
        (commands, issues) \<Rightarrow> (commands, List.map_filter wire_issue tools @ issues))"

end
