(* ===== verification/Product_Registry.thy ===== *)
theory Product_Registry
  imports Product_Tree "HOL-Library.Sublist"
begin

text \<open>
  What the command tree of the product guarantees, whatever tools the service announces: the tree built from
  the sanitized commands is valid, composes with the local commands, and reaches every accepted command.

  The tree is brought into a normal form first: one group per resource with the nodes of its commands and
  the injected ones.  A group is well formed because the trees built from its single commands are, which is
  what the sanitizing checks.
\<close>

section \<open>Nodes and their children\<close>

lemma non_nil_Some [simp]: "non_nil (map Some ns) = ns"
  by (induction ns) (simp_all add: non_nil_def List.map_filter_simps)

lemma non_nil_Nil [simp]: "non_nil [] = []" by (simp add: non_nil_def List.map_filter_simps)

lemma non_nil_Cons [simp]: "non_nil (Some n # ns) = n # non_nil ns" by (simp add: non_nil_def List.map_filter_simps)

lemma non_nil_one [simp]: "non_nil [Some n] = [n]" by (simp add: non_nil_def List.map_filter_simps)

lemma non_nil_comp [simp]: "non_nil (map (Some \<circ> f) xs) = map f xs"
  by (metis non_nil_Some map_map)

lemma all_well_formed_map [simp]: "all_well_formed (map Some ns) = list_all well_formed ns"
  by (induction ns) simp_all

lemma all_well_formed_append [simp]: "all_well_formed (xs @ ys) = (all_well_formed xs \<and> all_well_formed ys)"
proof (induction xs)
  case (Cons x xs)
  then show ?case by (cases x) simp_all
qed simp

lemma none_nil_append [simp]: "none_nil (xs @ ys) = (none_nil xs \<and> none_nil ys)"
proof (induction xs)
  case (Cons x xs)
  then show ?case by (cases x) simp_all
qed simp

lemma none_nil_map [simp]: "none_nil (map Some ns) = list_all no_nil ns"
  by (induction ns) simp_all

lemma node_append_fields [simp]:
  "nodeName (node_append n c) = nodeName n"
  "nodeAliases (node_append n c) = nodeAliases n"
  "nodeHelp (node_append n c) = nodeHelp n"
  "nodeFlags (node_append n c) = nodeFlags n"
  "nodeArgs (node_append n c) = nodeArgs n"
  "nodeHandler (node_append n c) = nodeHandler n"
  "nodeChildren (node_append n c) = nodeChildren n @ [Some c]"
  by (cases n; simp)+

text \<open>A change that only adds children.\<close>

definition adds :: "(CommandNode \<Rightarrow> CommandNode) \<Rightarrow> bool" where
  "adds f = (\<forall>n. nodeName (f n) = nodeName n \<and> nodeAliases (f n) = nodeAliases n \<and> nodeHelp (f n) = nodeHelp n \<and>
     nodeFlags (f n) = nodeFlags n \<and> nodeArgs (f n) = nodeArgs n \<and> nodeHandler (f n) = nodeHandler n)"

lemma adds_append: "adds (\<lambda>n. node_append n c)" by (simp add: adds_def)
lemma adds_shortcut: "adds (add_shortcut sc)" by (simp add: adds_def add_shortcut_def split: option.split)
lemma adds_batch: "adds (add_batch bc)" by (simp add: adds_def add_batch_def split: option.split)
lemma adds_fold: "list_all (\<lambda>x. adds (f x)) xs \<Longrightarrow> adds (fold f xs)"
  by (induction xs) (auto simp: adds_def)
lemma adds_if: "adds f \<Longrightarrow> adds (\<lambda>n. if P then f n else n)" by (simp add: adds_def)
lemma adds_comp: "adds f \<Longrightarrow> adds g \<Longrightarrow> adds (\<lambda>n. f (g n))" by (simp add: adds_def)

lemma adds_name: "adds f \<Longrightarrow> nodeName (f n) = nodeName n" by (simp add: adds_def)

lemma update_first_map:
  "distinct (map nodeName ns) \<Longrightarrow> update_first f g ns = map (\<lambda>n. if nodeName n = g then f n else n) ns"
proof (induction ns)
  case (Cons n ns)
  have "map (\<lambda>m. if nodeName m = g then f m else m) ns = ns" if "nodeName n = g"
    by (rule map_idI) (use Cons.prems that in \<open>auto simp: image_iff\<close>)
  with Cons show ?case by simp
qed simp

lemma update_first_names:
  "adds f \<Longrightarrow> map nodeName (update_first f g ns) = map nodeName ns"
  by (induction ns) (auto simp: adds_name)

section \<open>The normal form\<close>

definition extended :: "CommandNode \<Rightarrow> CommandNode" where
  "extended n0 =
     (let n1 = (if nodeName n0 = ''user'' then node_append n0 (sugar_node (List.hd sugarCommands)) else n0);
          n2 = (if nodeName n1 = ''attachment'' then fold add_shortcut attachmentShortcuts n1 else n1)
      in if nodeName n2 = ''workitem'' then add_batch (List.hd batchCommands) n2 else n2)"

lemma adds_attachment: "adds (fold add_shortcut attachmentShortcuts)"
  by (rule adds_fold) (simp add: adds_shortcut list_all_iff)

lemma one_sugar: "sugarCommands = [List.hd sugarCommands]" "sgGroup (List.hd sugarCommands) = ''user''"
  by (simp_all add: sugarCommands_def)

lemma one_batch: "batchCommands = [List.hd batchCommands]" "Group (List.hd batchCommands) = ''workitem''"
  by (simp_all add: batchCommands_def)

lemma injected_nodes:
  assumes "distinct (map nodeName ns)"
  shows "injectBatchCommands (injectAttachmentCommands (injectSugarCommands ns)) = map extended ns"
proof -
  let ?s = "\<lambda>n. node_append n (sugar_node (List.hd sugarCommands))" and ?a = "fold add_shortcut attachmentShortcuts"
    and ?b = "add_batch (List.hd batchCommands)"
  have s: "injectSugarCommands ns = update_first ?s ''user'' ns"
    unfolding injectSugarCommands_def by (subst one_sugar(1)) (simp add: one_sugar(2))
  have b: "injectBatchCommands ms = update_first ?b ''workitem'' ms" for ms
    unfolding injectBatchCommands_def by (subst one_batch(1)) (simp add: one_batch(2))
  have d1: "distinct (map nodeName (update_first ?s ''user'' ns))"
    using assms by (simp add: update_first_names[OF adds_append])
  have d2: "distinct (map nodeName (update_first ?a ''attachment'' (update_first ?s ''user'' ns)))"
    using d1 by (simp add: update_first_names[OF adds_attachment])
  show ?thesis
    unfolding s b injectAttachmentCommands_def
    by (subst update_first_map[OF d2], subst update_first_map[OF d1], subst update_first_map[OF assms])
      (simp add: extended_def Let_def comp_def)
qed

lemma group_names_distinct: "distinct (group_names cmds)" by (simp add: group_names_def)

lemma group_node_name [simp]: "nodeName (group_node encode cmds name) = name" by (simp add: group_node_def)

lemma tree_nodes:
  "Nodes (buildCommandTree encode cmds) = map Some (map (extended \<circ> group_node encode cmds) (group_names cmds))"
proof -
  have "distinct (map nodeName (map (group_node encode cmds) (group_names cmds)))"
    by (simp add: comp_def group_names_distinct)
  from injected_nodes[OF this] show ?thesis by (simp add: buildCommandTree_def comp_assoc)
qed

section \<open>The children of a group\<close>

text \<open>The injected nodes of a group with the given commands.\<close>

definition extra_nodes :: "((string \<times> string) list \<Rightarrow> string) \<Rightarrow> string \<Rightarrow> MappedCommand list \<Rightarrow> CommandNode list" where
  "extra_nodes encode name cs =
     (if name = ''user'' then [sugar_node (List.hd sugarCommands)]
      else if name = ''attachment'' then
        List.map_filter (\<lambda>sc. map_option (\<lambda>c. shortcut_node name sc (child_node encode c))
          (find (\<lambda>c. mcMethod c = scSibling sc) cs)) attachmentShortcuts
      else if name = ''workitem'' then
        List.map_filter (\<lambda>bc. map_option (\<lambda>c. batch_node_of bc (child_node encode c))
          (find (\<lambda>c. mcMethod c = SingleCommandName bc) cs)) [List.hd batchCommands]
      else [])"

lemma child_node_fields [simp]:
  "nodeName (child_node encode c) = mcMethod c" "nodeAliases (child_node encode c) = []"
  "nodeHandler (child_node encode c) = mcToolName c" "nodeChildren (child_node encode c) = []"
  by (simp_all add: child_node_def)

lemma find_map: "find P (map f xs) = map_option f (find (\<lambda>x. P (f x)) xs)"
  by (induction xs) simp_all

lemma find_append: "find P (xs @ ys) = (case find P xs of Some x \<Rightarrow> Some x | None \<Rightarrow> find P ys)"
  by (induction xs) simp_all

lemma map_filter_cong: "(\<And>x. x \<in> set xs \<Longrightarrow> f x = g x) \<Longrightarrow> List.map_filter f xs = List.map_filter g xs"
  by (induction xs) (auto simp: List.map_filter_simps split: option.split)

lemma set_map_filter_eq: "x \<in> set (List.map_filter f xs) \<longleftrightarrow> (\<exists>y \<in> set xs. f y = Some x)"
  by (induction xs) (auto simp: List.map_filter_simps split: option.split)

lemma fold_shortcuts:
  assumes "list_all (\<lambda>sc. \<not> hasChildNamed n (scName sc)) scs" "distinct (map scName scs)"
    "list_all (\<lambda>sc. scSibling sc \<notin> set (map scName scs)) scs"
  shows "nodeChildren (fold add_shortcut scs n) =
    nodeChildren n @ map Some (List.map_filter (\<lambda>sc. map_option (shortcut_node (nodeName n) sc) (findChild n (scSibling sc))) scs)"
  using assms
proof (induction scs arbitrary: n)
  case (Cons sc scs)
  show ?case
  proof (cases "findChild n (scSibling sc)")
    case None
    then have "add_shortcut sc n = n" by (simp add: add_shortcut_def)
    moreover have "nodeChildren (fold add_shortcut scs n) =
        nodeChildren n @ map Some (List.map_filter (\<lambda>sc. map_option (shortcut_node (nodeName n) sc) (findChild n (scSibling sc))) scs)"
      by (rule Cons.IH) (use Cons.prems in \<open>auto simp: list_all_iff\<close>)
    ultimately show ?thesis by (simp add: None List.map_filter_simps)
  next
    case (Some sib)
    let ?new = "shortcut_node (nodeName n) sc sib" and ?n = "node_append n (shortcut_node (nodeName n) sc sib)"
    have a: "add_shortcut sc n = ?n" using Cons.prems(1) by (simp add: add_shortcut_def Some)
    have name: "nodeName ?new = scName sc" by (simp add: shortcut_node_def)
    have nn: "non_nil (nodeChildren ?n) = non_nil (nodeChildren n) @ [?new]" by simp
    have find: "findChild ?n (scSibling sc') = findChild n (scSibling sc')" if "sc' \<in> set scs" for sc'
    proof -
      have "scName sc \<noteq> scSibling sc'" using Cons.prems(3) that by (auto simp: list_all_iff)
      then show ?thesis unfolding findChild_def nn by (simp add: find_append name split: option.split)
    qed
    have "nodeChildren (fold add_shortcut scs ?n) =
        nodeChildren ?n @ map Some (List.map_filter (\<lambda>sc. map_option (shortcut_node (nodeName ?n) sc) (findChild ?n (scSibling sc))) scs)"
    proof (rule Cons.IH)
      show "list_all (\<lambda>sc. \<not> hasChildNamed ?n (scName sc)) scs"
        using Cons.prems(1,2) unfolding hasChildNamed_def nn by (auto simp: list_all_iff name)
    qed (use Cons.prems in \<open>auto simp: list_all_iff\<close>)
    also have "List.map_filter (\<lambda>sc. map_option (shortcut_node (nodeName ?n) sc) (findChild ?n (scSibling sc))) scs =
        List.map_filter (\<lambda>sc. map_option (shortcut_node (nodeName n) sc) (findChild n (scSibling sc))) scs"
      by (rule map_filter_cong) (simp_all add: find)
    finally show ?thesis by (simp add: a Some List.map_filter_simps)
  qed
qed (simp add: List.map_filter_simps)


text \<open>Methods that pass the name pattern are in lower case and clash with no injected name but \<open>me\<close>.\<close>

lemma pattern_lower: "dynamicCommandNamePattern s \<Longrightarrow> ToLower s = s"
proof -
  assume "dynamicCommandNamePattern s"
  then have "list_all (\<lambda>d. is_lower d \<or> is_digit d \<or> d = CHR ''-'') s"
    by (auto simp: dynamicCommandNamePattern_def split: list.splits)
  moreover have "lower_char d = d" if "is_lower d \<or> is_digit d \<or> d = CHR ''-''" for d
  proof (rule ccontr)
    assume "lower_char d \<noteq> d"
    then have "CHR ''A'' \<le> d \<and> d \<le> CHR ''Z''" by (auto simp: lower_char_def split: if_splits)
    moreover have "\<not> CHR ''a'' \<le> CHR ''Z''" "\<not> CHR ''A'' \<le> CHR ''9''" "\<not> CHR ''A'' \<le> CHR ''-''" by simp_all
    ultimately show False using that order_trans[of "CHR ''a''" d "CHR ''Z''"] order_trans[of "CHR ''A''" d "CHR ''9''"]
      unfolding is_lower_def is_digit_def by blast
  qed
  ultimately show ?thesis by (auto simp: ToLower_def list_all_iff intro!: map_idI)
qed

lemma pattern_no_plus: "dynamicCommandNamePattern s \<Longrightarrow> \<not> HasPrefix s ''+''"
  by (auto simp: dynamicCommandNamePattern_def is_lower_def split: list.splits)

lemma pattern_no_dash: "dynamicCommandNamePattern s \<Longrightarrow> \<not> HasPrefix s ''-''"
  by (auto simp: dynamicCommandNamePattern_def is_lower_def split: list.splits)


definition methods_ok :: "MappedCommand list \<Rightarrow> bool" where
  "methods_ok cs = list_all (\<lambda>c. dynamicCommandNamePattern (mcMethod c)) cs"

lemma group_node_children:
  "nodeChildren (group_node encode cmds name) = map Some (map (child_node encode) (group_commands cmds name))"
  by (simp add: group_node_def)

lemma group_findChild:
  "findChild (group_node encode cmds name) m =
     map_option (child_node encode) (find (\<lambda>c. mcMethod c = m) (group_commands cmds name))"
  unfolding findChild_def group_node_children non_nil_Some by (simp add: find_map)

lemma group_hasChild:
  assumes "methods_ok (group_commands cmds name)" "HasPrefix m ''+''"
  shows "\<not> hasChildNamed (group_node encode cmds name) m"
  using assms pattern_no_plus
  unfolding hasChildNamed_def group_node_children non_nil_Some by (auto simp: methods_ok_def list_all_iff list_ex_iff)

lemma shortcut_names:
  "list_all (\<lambda>sc. HasPrefix (scName sc) ''+'') attachmentShortcuts" "distinct (map scName attachmentShortcuts)"
  "list_all (\<lambda>sc. scSibling sc \<notin> set (map scName attachmentShortcuts)) attachmentShortcuts"
  by (simp_all add: attachmentShortcuts_def)

lemma batch_names: "HasPrefix (batchName (List.hd batchCommands)) ''+''"
  by (simp add: batchCommands_def)

lemma extended_children:
  assumes "methods_ok (group_commands cmds name)"
  shows "nodeChildren (extended (group_node encode cmds name)) =
    map Some (map (child_node encode) (group_commands cmds name) @ extra_nodes encode name (group_commands cmds name))"
proof -
  let ?g = "group_node encode cmds name" and ?cs = "group_commands cmds name"
  consider "name = ''user''" | "name = ''attachment''" | "name = ''workitem''"
    | "name \<noteq> ''user''" "name \<noteq> ''attachment''" "name \<noteq> ''workitem''" by blast
  then show ?thesis
  proof cases
    case 1
    have "extended ?g = node_append ?g (sugar_node (List.hd sugarCommands))" by (simp add: extended_def Let_def 1)
    then show ?thesis by (simp add: extra_nodes_def 1 group_node_children)
  next
    case 2
    have n: "nodeName (fold add_shortcut attachmentShortcuts ?g) = name" by (simp add: adds_name[OF adds_attachment])
    have "extended ?g = fold add_shortcut attachmentShortcuts ?g" using n by (simp add: extended_def Let_def 2)
    moreover have "nodeChildren (fold add_shortcut attachmentShortcuts ?g) = nodeChildren ?g @
        map Some (List.map_filter (\<lambda>sc. map_option (shortcut_node (nodeName ?g) sc) (findChild ?g (scSibling sc))) attachmentShortcuts)"
      by (rule fold_shortcuts) (use shortcut_names group_hasChild[OF assms] in \<open>auto simp: list_all_iff\<close>)
    ultimately show ?thesis
      by (simp add: extra_nodes_def 2 group_node_children group_findChild option.map_comp comp_def)
  next
    case 3
    have "extended ?g = add_batch (List.hd batchCommands) ?g" by (simp add: extended_def Let_def 3)
    then show ?thesis using group_hasChild[OF assms batch_names, of encode]
      by (simp add: extra_nodes_def 3 add_batch_def group_node_children group_findChild List.map_filter_simps split: option.split)
  next
    case 4
    have "extended ?g = ?g" using 4 by (simp add: extended_def Let_def)
    then show ?thesis using 4 by (simp add: extra_nodes_def group_node_children)
  qed
qed

lemma extended_fields:
  "nodeName (extended n) = nodeName n" "nodeAliases (extended n) = nodeAliases n" "nodeHelp (extended n) = nodeHelp n"
  "nodeFlags (extended n) = nodeFlags n" "nodeArgs (extended n) = nodeArgs n" "nodeHandler (extended n) = nodeHandler n"
proof -
  have "adds extended"
    using adds_attachment adds_batch[of "List.hd batchCommands"] by (simp add: adds_def extended_def Let_def)
  then show "nodeName (extended n) = nodeName n" "nodeAliases (extended n) = nodeAliases n" "nodeHelp (extended n) = nodeHelp n"
    "nodeFlags (extended n) = nodeFlags n" "nodeArgs (extended n) = nodeArgs n" "nodeHandler (extended n) = nodeHandler n"
    by (simp_all add: adds_def)
qed

section \<open>Well-formed groups\<close>

lemma well_formed_iff: "well_formed n = (node_ok n \<and> all_well_formed (nodeChildren n))"
  by (cases n) simp

text \<open>The names of the injected nodes.\<close>

lemma extra_names:
  "distinct (map ToLower (concat (map node_names (extra_nodes encode name cs)))) \<and>
   (\<forall>e \<in> set (extra_nodes encode name cs). \<forall>m \<in> set (node_names e). HasPrefix m ''+'' \<or> name = ''user'' \<and> m = ''me'') \<and>
   (\<forall>m \<in> set (concat (map node_names (extra_nodes encode name cs))). ToLower m = m)"
proof -
  consider "name = ''user''" | "name = ''attachment''" | "name = ''workitem''"
    | "name \<noteq> ''user''" "name \<noteq> ''attachment''" "name \<noteq> ''workitem''" by blast
  then show ?thesis
  proof cases
    case 1
    have "node_names (sugar_node (List.hd sugarCommands)) = [''me'']"
      by (simp add: sugarCommands_def sugar_node_def node_names_def)
    then show ?thesis by (simp add: extra_nodes_def 1 ToLower_def lower_char_def)
  next
    case 2
    obtain s1 s2 where sc: "attachmentShortcuts = [s1, s2]" "scName s1 = ''+upload''" "scName s2 = ''+download''"
      "scAliases s1 = []" "scAliases s2 = []"
      by (simp add: attachmentShortcuts_def)
    have names: "node_names (shortcut_node g s1 c) = [''+upload'']" "node_names (shortcut_node g s2 c) = [''+download'']" for g c
      by (simp_all add: shortcut_node_def node_names_def sc)
    show ?thesis
      by (cases "find (\<lambda>c. mcMethod c = scSibling s1) cs"; cases "find (\<lambda>c. mcMethod c = scSibling s2) cs")
        (simp_all add: extra_nodes_def 2 sc(1) List.map_filter_simps names ToLower_def lower_char_def)
  next
    case 3
    have names: "node_names (batch_node_of (List.hd batchCommands) c) = [''+batch-get'', ''+get-batch'']" for c
      by (simp add: batch_node_of_def node_names_def batchCommands_def)
    show ?thesis
      by (cases "find (\<lambda>c. mcMethod c = SingleCommandName (List.hd batchCommands)) cs")
        (simp_all add: extra_nodes_def 3 List.map_filter_simps names ToLower_def lower_char_def)
  next
    case 4
    then show ?thesis by (simp add: extra_nodes_def)
  qed
qed

text \<open>An injected node depends on one of the commands only.\<close>

lemma extra_single:
  assumes "e \<in> set (extra_nodes encode name cs)" "cs \<noteq> []"
  shows "\<exists>c \<in> set cs. e \<in> set (extra_nodes encode name [c])"
proof -
  have found: "c \<in> set cs \<and> mcMethod c = m" if "find (\<lambda>c. mcMethod c = m) cs = Some c" for m c
    using that by (auto simp: find_Some_iff)
  consider "name = ''user''" | "name = ''attachment''" | "name = ''workitem''"
    | "name \<noteq> ''user''" "name \<noteq> ''attachment''" "name \<noteq> ''workitem''" by blast
  then show ?thesis
  proof cases
    case 1
    then show ?thesis using assms by (cases cs) (auto simp: extra_nodes_def)
  next
    case 2
    from assms(1) obtain sc c where sc: "sc \<in> set attachmentShortcuts" "find (\<lambda>c. mcMethod c = scSibling sc) cs = Some c"
      "e = shortcut_node name sc (child_node encode c)"
      by (auto simp: extra_nodes_def 2 set_map_filter_eq)
    have "e \<in> set (extra_nodes encode name [c])"
      using sc found[OF sc(2)] by (auto simp: extra_nodes_def 2 set_map_filter_eq)
    then show ?thesis using found[OF sc(2)] by blast
  next
    case 3
    from assms(1) obtain c where c: "find (\<lambda>c. mcMethod c = SingleCommandName (List.hd batchCommands)) cs = Some c"
      "e = batch_node_of (List.hd batchCommands) (child_node encode c)"
      by (auto simp: extra_nodes_def 3 List.map_filter_simps split: option.splits)
    have "e \<in> set (extra_nodes encode name [c])"
      using c found[OF c(1)] by (simp add: extra_nodes_def 3 List.map_filter_simps)
    then show ?thesis using found[OF c(1)] by blast
  next
    case 4
    then show ?thesis using assms by (simp add: extra_nodes_def)
  qed
qed

definition command_ok :: "((string \<times> string) list \<Rightarrow> string) \<Rightarrow> MappedCommand \<Rightarrow> bool" where
  "command_ok encode c =
     (mcResource c \<notin> set reservedDynamicResources \<and> dynamicCommandNamePattern (mcResource c) \<and>
      dynamicCommandNamePattern (mcMethod c) \<and> all_well_formed (Nodes (buildCommandTree encode [c])))"

lemma group_commands_one [simp]: "group_commands [c] (mcResource c) = [c]"
  by (simp add: group_commands_def)

lemma set_group_commands: "set (group_commands cmds name) = {c \<in> set cmds. mcResource c = name}"
  by (auto simp: group_commands_def)

lemma set_group_names: "set (group_names cmds) = mcResource ` set cmds"
  by (simp add: group_names_def)

lemma command_ok_group:
  assumes ok: "command_ok encode c"
  shows "well_formed (child_node encode c)"
    "e \<in> set (extra_nodes encode (mcResource c) [c]) \<Longrightarrow> well_formed e"
    "commandNamePattern (mcResource c)" "TrimSpace (resource_brief (mcResource c)) \<noteq> []"
    "ToLower (mcMethod c) \<notin> set (map ToLower (concat (map node_names (extra_nodes encode (mcResource c) [c]))))"
proof -
  let ?g = "extended (group_node encode [c] (mcResource c))"
  have nodes: "Nodes (buildCommandTree encode [c]) = map Some [?g]"
    unfolding tree_nodes by (simp add: group_names_def)
  have "methods_ok (group_commands [c] (mcResource c))" using ok by (simp add: command_ok_def methods_ok_def)
  from extended_children[OF this, of encode]
  have children: "nodeChildren ?g = map Some (child_node encode c # extra_nodes encode (mcResource c) [c])" by simp
  have "well_formed ?g" using ok by (simp add: command_ok_def nodes)
  then have g: "node_ok ?g" and below: "list_all well_formed (child_node encode c # extra_nodes encode (mcResource c) [c])"
    by (simp_all add: well_formed_iff children)
  from below show "well_formed (child_node encode c)"
    "e \<in> set (extra_nodes encode (mcResource c) [c]) \<Longrightarrow> well_formed e" by (auto simp: list_all_iff)
  from g show "commandNamePattern (mcResource c)" "TrimSpace (resource_brief (mcResource c)) \<noteq> []"
    by (simp_all add: node_ok_def extended_fields group_node_def help_of_def)
  have "siblings_ok (nodeChildren ?g)" using g by (simp add: node_ok_def)
  then show "ToLower (mcMethod c) \<notin> set (map ToLower (concat (map node_names (extra_nodes encode (mcResource c) [c]))))"
    by (simp add: siblings_ok_def children node_names_def)
qed

lemma group_methods_distinct:
  assumes "distinct (map command_path cmds)"
  shows "distinct (map mcMethod (group_commands cmds name))"
proof -
  let ?cs = "filter (\<lambda>c. mcResource c = name) cmds"
  have "distinct (map command_path ?cs)" using assms by (rule distinct_map_filter)
  then have "distinct (map mcMethod ?cs)" by (auto simp: distinct_map inj_on_def command_path_def)
  then show ?thesis by (simp add: group_commands_def distinct_map)
qed

lemma group_well_formed:
  assumes ok: "list_all (command_ok encode) cmds" and paths: "distinct (map command_path cmds)"
    and name: "name \<in> set (group_names cmds)"
  shows "well_formed (extended (group_node encode cmds name))"
proof -
  let ?cs = "group_commands cmds name" and ?g = "extended (group_node encode cmds name)"
  let ?x = "extra_nodes encode name ?cs"
  have cs: "command_ok encode c \<and> mcResource c = name" if "c \<in> set ?cs" for c
    using that ok by (auto simp: set_group_commands list_all_iff)
  from name obtain c0 where c0: "c0 \<in> set ?cs" by (auto simp: set_group_names set_group_commands)
  then have ne: "?cs \<noteq> []" by auto
  have methods: "methods_ok ?cs" using cs by (auto simp: methods_ok_def list_all_iff command_ok_def)
  note children = extended_children[OF methods, of encode]
  have below: "list_all well_formed (map (child_node encode) ?cs @ ?x)"
  proof -
    have "well_formed e" if e: "e \<in> set ?x" for e
    proof -
      obtain c where "c \<in> set ?cs" "e \<in> set (extra_nodes encode name [c])" using extra_single[OF e ne] by blast
      then show ?thesis using command_ok_group(2)[of encode c e] cs by simp
    qed
    then show ?thesis using command_ok_group(1) cs by (auto simp: list_all_iff)
  qed
  have lower: "map ToLower (map mcMethod ?cs) = map mcMethod ?cs"
    by (rule map_idI) (use methods pattern_lower in \<open>auto simp: methods_ok_def list_all_iff\<close>)
  have apart: "ToLower m \<noteq> mcMethod c" if c: "c \<in> set ?cs" and e: "e \<in> set ?x" "m \<in> set (node_names e)" for c e m
  proof
    assume eq: "ToLower m = mcMethod c"
    from extra_names[of encode name ?cs] e have m: "ToLower m = m" "HasPrefix m ''+'' \<or> name = ''user'' \<and> m = ''me''" by auto
    have p: "dynamicCommandNamePattern (mcMethod c)" using methods c by (auto simp: methods_ok_def list_all_iff)
    show False
    proof (cases "HasPrefix m ''+''")
      case True
      then show ?thesis using pattern_no_plus[OF p] eq m(1) by simp
    next
      case False
      then have u: "name = ''user''" "m = ''me''" using m(2) by simp_all
      have "ToLower (mcMethod c) \<notin> set (map ToLower (concat (map node_names (extra_nodes encode name [c]))))"
        using command_ok_group(5)[of encode c] cs[OF c] by simp
      moreover have "m \<in> set (concat (map node_names (extra_nodes encode name [c])))"
        by (simp add: extra_nodes_def u sugarCommands_def sugar_node_def node_names_def)
      ultimately show False using eq m(1) pattern_lower[OF p] by (metis imageI set_map)
    qed
  qed
  have "siblings_ok (nodeChildren ?g)"
  proof -
    have "map ToLower (concat (map node_names (map (child_node encode) ?cs @ ?x))) =
        map mcMethod ?cs @ map ToLower (concat (map node_names ?x))"
      using lower by (simp add: node_names_def comp_def)
    moreover have "distinct (map mcMethod ?cs)" by (rule group_methods_distinct[OF paths])
    moreover have "set (map mcMethod ?cs) \<inter> set (map ToLower (concat (map node_names ?x))) = {}"
      using apart by fastforce
    moreover have "distinct (map ToLower (concat (map node_names ?x)))"
      by (rule extra_names[THEN conjunct1])
    ultimately show ?thesis
      unfolding siblings_ok_def children non_nil_Some by (simp only: distinct_append)
  qed
  moreover have "commandNamePattern name" "TrimSpace (resource_brief name) \<noteq> []"
    using command_ok_group(3,4)[of encode c0] cs[OF c0] by simp_all
  moreover have "nodeChildren ?g \<noteq> []" using ne by (simp add: children)
  ultimately have "node_ok ?g"
    by (simp add: node_ok_def extended_fields group_node_def help_of_def flags_ok_def args_ok_def)
  then show ?thesis using below by (simp add: well_formed_iff children map_map[symmetric] del: map_map)
qed

lemma tree_well_formed:
  assumes "list_all (command_ok encode) cmds" "distinct (map command_path cmds)"
  shows "all_well_formed (Nodes (buildCommandTree encode cmds))"
  unfolding tree_nodes all_well_formed_map using group_well_formed[OF assms] by (simp add: list_all_iff)

section \<open>What sanitizing accepts\<close>

lemma check_command_ok:
  assumes "check_command encode gf cmd = Inr c"
  shows "command_ok encode c \<and> list_all (param_accepted gf) (mcParameters c) \<and> c = clean_command cmd \<and>
    (\<forall>owner. FallbackToolForPath (mcResource c) (mcMethod c) = Some owner \<longrightarrow> owner = mcToolName c)"
  using assms
  by (auto simp: check_command_def Let_def clean_command_def command_ok_def ValidateTree_none split: if_splits option.splits)

definition accepted_ok :: "((string \<times> string) list \<Rightarrow> string) \<Rightarrow> FlagDef list \<Rightarrow> MappedCommand list \<Rightarrow> bool" where
  "accepted_ok encode gf cmds =
     (list_all (\<lambda>c. command_ok encode c \<and> list_all (param_accepted gf) (mcParameters c) \<and>
        (case FallbackToolForPath (mcResource c) (mcMethod c) of None \<Rightarrow> True | Some owner \<Rightarrow> owner = mcToolName c)) cmds \<and>
      distinct (map command_path cmds))"

lemma sanitize_loop_ok:
  "accepted_ok encode gf acc \<Longrightarrow> sanitize_loop encode gf cmds acc issues = (out, issues') \<Longrightarrow> accepted_ok encode gf out"
proof (induction cmds arbitrary: acc issues)
  case (Cons cmd cmds)
  show ?case
  proof (cases "check_command encode gf cmd")
    case (Inl code)
    then show ?thesis using Cons by simp
  next
    case (Inr c)
    show ?thesis
    proof (cases "command_path c \<in> set (map command_path acc)")
      case True
      then show ?thesis using Cons Inr by simp
    next
      case False
      have "accepted_ok encode gf (acc @ [c])"
        using Cons.prems(1) check_command_ok[OF Inr] False by (auto simp: accepted_ok_def split: option.split)
      then show ?thesis using Cons.IH[of "acc @ [c]" issues] Cons.prems(2) Inr False by simp
    qed
  qed
qed simp

lemma sanitized_ok: "accepted_ok encode gf (fst (mapAndSanitizeTools encode tools gf))"
proof -
  obtain out issues where "sanitizeMappedCommands encode (MapTools tools) gf = (out, issues)" by fastforce
  moreover from this have "accepted_ok encode gf out"
    unfolding sanitizeMappedCommands_def by (rule sanitize_loop_ok[rotated]) (simp add: accepted_ok_def)
  ultimately show ?thesis by (simp add: mapAndSanitizeTools_def)
qed


section \<open>Composing and reaching\<close>

text \<open>Names that are distinct up to case and blanks compose.\<close>

lemma add_names_done:
  "distinct (map root_key names) \<Longrightarrow> [] \<notin> set (map root_key names) \<Longrightarrow> set (map root_key names) \<inter> set seen = {} \<Longrightarrow>
   add_names names seen = Inr (rev (map root_key names) @ seen)"
  by (induction names arbitrary: seen) (auto simp: Let_def)

lemma add_nodes_done:
  "distinct (concat (map (\<lambda>n. map root_key (node_names n)) ns)) \<Longrightarrow>
   [] \<notin> set (concat (map (\<lambda>n. map root_key (node_names n)) ns)) \<Longrightarrow>
   set (concat (map (\<lambda>n. map root_key (node_names n)) ns)) \<inter> set seen = {} \<Longrightarrow>
   \<exists>seen'. add_nodes (map Some ns) seen = Inr (map Some ns, seen') \<and>
     set seen' = set (concat (map (\<lambda>n. map root_key (node_names n)) ns)) \<union> set seen"
proof (induction ns arbitrary: seen)
  case (Cons n ns)
  let ?k = "map root_key (node_names n)"
  have names: "add_names (nodeName n # nodeAliases n) seen = Inr (rev ?k @ seen)"
    using add_names_done[of "node_names n" seen] Cons.prems by (auto simp: node_names_def)
  have "\<exists>seen'. add_nodes (map Some ns) (rev ?k @ seen) = Inr (map Some ns, seen') \<and>
      set seen' = set (concat (map (\<lambda>n. map root_key (node_names n)) ns)) \<union> set (rev ?k @ seen)"
  proof (rule Cons.IH)
    show "distinct (concat (map (\<lambda>n. map root_key (node_names n)) ns))"
      "[] \<notin> set (concat (map (\<lambda>n. map root_key (node_names n)) ns))"
      using Cons.prems(1,2) by simp_all
    have "set ?k \<inter> set (concat (map (\<lambda>n. map root_key (node_names n)) ns)) = {}"
      using Cons.prems(1) unfolding list.map concat.simps distinct_append by (rule conjunct2[OF conjunct2])
    then show "set (concat (map (\<lambda>n. map root_key (node_names n)) ns)) \<inter> set (rev ?k @ seen) = {}"
      using Cons.prems(3) unfolding list.map concat.simps set_append set_rev by blast
  qed
  then show ?case by (auto simp: names simp del: add_names.simps)
qed simp

lemma pattern_key: "dynamicCommandNamePattern s \<Longrightarrow> root_key s = s \<and> s \<noteq> []"
proof -
  assume p: "dynamicCommandNamePattern s"
  have "\<not> is_space c" if "c \<in> set s" for c
  proof -
    have "is_lower c \<or> is_digit c \<or> c = CHR ''-''"
      using p that by (auto simp: dynamicCommandNamePattern_def list_all_iff split: list.splits)
    then have "\<not> (of_char c :: nat) \<in> {32, 9, 10, 11, 12, 13}"
      by (auto simp: is_lower_def is_digit_def less_eq_char_def)
    then show ?thesis by (simp add: is_space_code)
  qed
  then have "TrimSpace s = s"
    unfolding TrimSpace_def trim_by_def by (metis dropWhile_eq_self_iff hd_in_set rev_rev_ident set_rev)
  then show ?thesis using pattern_lower[OF p] p by (auto simp: root_key_def dynamicCommandNamePattern_def)
qed

text \<open>The roots of the local commands are reserved.\<close>

lemma local_roots:
  "concat (map (\<lambda>n. map root_key (node_names n)) (non_nil (Nodes newMeegleLocalCommandTree))) = [''ai-handoff'', ''preference'']"
  by code_simp

lemma local_reserved: "''ai-handoff'' \<in> set reservedDynamicResources" "''preference'' \<in> set reservedDynamicResources"
  unfolding atomize_conj by code_simp

lemma none_nil_Some: "none_nil ns \<Longrightarrow> ns = map Some (non_nil ns)"
proof (induction ns)
  case (Cons n ns)
  then show ?case by (cases n) simp_all
qed simp

lemma local_no_nil: "none_nil (Nodes newMeegleLocalCommandTree)"
  by code_simp

text \<open>The root names of the dynamic tree.\<close>

lemma dynamic_roots:
  assumes "list_all (command_ok encode) cmds"
  shows "concat (map (\<lambda>n. map root_key (node_names n)) (map (extended \<circ> group_node encode cmds) (group_names cmds))) = group_names cmds"
proof -
  have names: "node_names (extended (group_node encode cmds g)) = [g]" for g
    by (simp add: node_names_def extended_fields group_node_def)
  have key: "root_key g = g" if "g \<in> set (group_names cmds)" for g
    using assms that pattern_key by (auto simp: set_group_names command_ok_def list_all_iff)
  have "concat (map (\<lambda>n. map root_key (node_names n)) (map (extended \<circ> group_node encode cmds) gs)) = gs"
    if "set gs \<subseteq> set (group_names cmds)" for gs
    using that by (induction gs) (simp_all add: names key)
  then show ?thesis by blast
qed

lemma dynamic_root_names:
  assumes "list_all (command_ok encode) cmds" "g \<in> set (group_names cmds)"
  shows "g \<noteq> []" "g \<noteq> ''ai-handoff''" "g \<noteq> ''preference''"
proof -
  obtain c where c: "command_ok encode c" "mcResource c = g"
    using assms by (auto simp: set_group_names list_all_iff)
  then have "g \<notin> set reservedDynamicResources" "dynamicCommandNamePattern g" by (simp_all add: command_ok_def)
  then show "g \<noteq> []" "g \<noteq> ''ai-handoff''" "g \<noteq> ''preference''"
    using local_reserved pattern_key[of g] by metis+
qed

text \<open>A tree whose root names are in their normal form, distinct and different from the local ones.\<close>

definition own_roots :: "CommandNode list \<Rightarrow> string list \<Rightarrow> bool" where
  "own_roots ns ks =
     (concat (map (\<lambda>n. map root_key (node_names n)) ns) = ks \<and> distinct ks \<and> [] \<notin> set ks \<and>
      ''ai-handoff'' \<notin> set ks \<and> ''preference'' \<notin> set ks)"

lemma dynamic_own_roots:
  "list_all (command_ok encode) cmds \<Longrightarrow>
   own_roots (map (extended \<circ> group_node encode cmds) (group_names cmds)) (group_names cmds)"
  unfolding own_roots_def using dynamic_roots dynamic_root_names group_names_distinct by blast

lemma tree_composes:
  assumes nodes: "Nodes t = map Some ns" and own: "own_roots ns ks"
  shows "CompositeSetup [Some (Inr (Some t)), Some (Inr (Some newMeegleLocalCommandTree))] =
    Inr \<lparr>treeVersion = join_version (join_version [] (treeVersion t)) ''meegle-local-v1'', GlobalFlags = GlobalFlags t,
         Nodes = Nodes t @ Nodes newMeegleLocalCommandTree\<rparr>"
proof -
  let ?ls = "non_nil (Nodes newMeegleLocalCommandTree)"
  have keys: "concat (map (\<lambda>n. map root_key (node_names n)) ns) = ks" and dis: "distinct ks"
    and roots: "[] \<notin> set ks" "''ai-handoff'' \<notin> set ks" "''preference'' \<notin> set ks"
    using own unfolding own_roots_def by blast+
  have local: "Nodes newMeegleLocalCommandTree = map Some ?ls" by (rule none_nil_Some[OF local_no_nil])
  obtain seen1 where d: "add_nodes (map Some ns) [] = Inr (map Some ns, seen1)" "set seen1 = set ks"
    using add_nodes_done[of ns "[]"] dis roots(1) unfolding keys by auto
  obtain seen2 where l: "add_nodes (map Some ?ls) seen1 = Inr (map Some ?ls, seen2)"
    using add_nodes_done[of ?ls seen1] roots unfolding local_roots d(2) by fastforce
  have "treeVersion newMeegleLocalCommandTree = ''meegle-local-v1''" "GlobalFlags newMeegleLocalCommandTree = []"
    by (simp_all add: newMeegleLocalCommandTree_def)
  moreover have "add_nodes (Nodes t) [] = Inr (Nodes t, seen1)" unfolding nodes by (rule d(1))
  moreover have "add_nodes (Nodes newMeegleLocalCommandTree) seen1 = Inr (Nodes newMeegleLocalCommandTree, seen2)"
    using l unfolding local[symmetric] .
  ultimately show ?thesis by (simp add: CompositeSetup_def)
qed

text \<open>No nil pointers: every node of the tree is built.\<close>

lemma no_nil_iff: "no_nil n = none_nil (nodeChildren n)"
  by (cases n) simp

lemma injected_no_nil:
  "no_nil (child_node encode c)" "no_nil (sugar_node sg)" "no_nil (shortcut_node g sc n)" "no_nil (batch_node_of bc n)"
  by (simp_all add: child_node_def sugar_node_def shortcut_node_def batch_node_of_def)

lemma extra_no_nil: "e \<in> set (extra_nodes encode name cs) \<Longrightarrow> no_nil e"
  by (auto simp: extra_nodes_def List.map_filter_simps set_map_filter_eq injected_no_nil split: if_splits option.splits)

lemma tree_no_nil:
  assumes "list_all (command_ok encode) cmds"
  shows "none_nil (Nodes (buildCommandTree encode cmds))"
proof -
  have methods: "methods_ok (group_commands cmds g)" for g
    using assms by (auto simp: methods_ok_def list_all_iff set_group_commands command_ok_def)
  have "no_nil (extended (group_node encode cmds g))" for g
    unfolding no_nil_iff extended_children[OF methods] none_nil_map
    by (simp add: list_all_iff ball_Un injected_no_nil[unfolded no_nil_iff] extra_no_nil[unfolded no_nil_iff])
  then show ?thesis unfolding tree_nodes none_nil_map by (simp add: list_all_iff)
qed

text \<open>The built counterpart of a node.\<close>

lemma mirrors_all_built: "mirrors_all cs bs \<Longrightarrow> n \<in> set (non_nil cs) \<Longrightarrow> \<exists>b \<in> set bs. mirrors n b"
proof (induction cs arbitrary: bs)
  case (Cons c cs)
  then show ?case by (cases c; cases bs) auto
qed simp

lemma mirrors_fields: "mirrors n b \<Longrightarrow> bnName b = nodeName n \<and> bnHandler b = nodeHandler n \<and> bnMeta b = nodeMeta n \<and>
   bnFlags b = nodeFlags n \<and> mirrors_all (nodeChildren n) (bnChildren b)"
  by (cases n) simp

lemma names_self: "dynamicCommandNamePattern s \<Longrightarrow> bnName b = s \<Longrightarrow> names_node s b"
  using pattern_key[of s] pattern_lower[of s] pattern_no_dash[of s]
  by (auto simp: names_node_def allNames_def root_key_def)

section \<open>The registry of the product\<close>

text \<open>The two sources in the order in which \<open>NewApp\<close> composes them; the tree of the tools carries the global flags.\<close>

definition product_sources :: "CommandTree \<Rightarrow> (string, CommandTree option) result option list" where
  "product_sources t = [Some (Inr (Some t)), Some (Inr (Some newMeegleLocalCommandTree))]"

definition dynamic_tree ::
    "((string \<times> string) list \<Rightarrow> string) \<Rightarrow> FlagDef list \<Rightarrow> MappedCommand list \<Rightarrow> CommandTree" where
  "dynamic_tree encode globalFlags cmds = (buildCommandTree encode cmds)\<lparr>GlobalFlags := globalFlags\<rparr>"

lemma registry_built:
  assumes nodes: "Nodes t = map Some ns" and own: "own_roots ns ks"
    and wf: "list_all well_formed ns" and no_nil: "list_all no_nil ns"
  obtains tree reg where "CompositeSetup (product_sources t) = Inr tree" "New (Some tree) = Built reg"
    "GlobalFlags tree = GlobalFlags t" "mirrors_all (Nodes t @ Nodes newMeegleLocalCommandTree) (regRoots reg)"
    "unique_names (regRoots reg)" "list_all resolvable (regRoots reg)"
proof -
  let ?ns = "Nodes t @ Nodes newMeegleLocalCommandTree"
  let ?t = "\<lparr>treeVersion = join_version (join_version [] (treeVersion t)) ''meegle-local-v1'', GlobalFlags = GlobalFlags t, Nodes = ?ns\<rparr>"
  have comp: "CompositeSetup (product_sources t) = Inr ?t"
    unfolding product_sources_def by (rule tree_composes[OF nodes own])
  have wf: "all_well_formed ?ns" using wf local_tree_valid[unfolded ValidateTree_none] by (simp add: nodes)
  have nil: "none_nil ?ns" using no_nil local_no_nil by (simp add: nodes)
  then have some: "None \<notin> set ?ns" by (metis (no_types, lifting) ex_map_conv none_nil_Some option.distinct(1))
  from nil build_no_nil(2)[of "[]" "[]" ?ns] obtain roots where roots: "buildNodes [] [] ?ns = Some roots" by blast
  let ?reg = "\<lparr>regTree = ?t, regRoots = roots, allNodes = concat (map nodes_of roots)\<rparr>"
  have built: "New (Some ?t) = Built ?reg"
    unfolding New_built ValidateTree_none CommandTree.simps filter_non_nil[OF some] using wf roots by simp
  note mir = build_mirrors(2)[OF roots]
  have "disjoint_keys (non_nil ?ns)" using composite_loop_ok[OF comp[unfolded CompositeSetup_def]] by simp
  then show thesis
    using that[OF comp built] mir disjoint_unique[OF mir] mirrors_resolvable(2)[OF mir wf] by simp
qed

lemma dynamic_registry_built:
  assumes "list_all (command_ok encode) cmds" "distinct (map command_path cmds)"
  obtains tree reg where "CompositeSetup (product_sources (dynamic_tree encode gf cmds)) = Inr tree" "New (Some tree) = Built reg"
    "GlobalFlags tree = gf" "mirrors_all (Nodes (buildCommandTree encode cmds) @ Nodes newMeegleLocalCommandTree) (regRoots reg)"
    "unique_names (regRoots reg)" "list_all resolvable (regRoots reg)"
proof -
  let ?ns = "map (extended \<circ> group_node encode cmds) (group_names cmds)"
  have nodes: "Nodes (dynamic_tree encode gf cmds) = map Some ?ns" unfolding dynamic_tree_def by (simp add: tree_nodes)
  have "list_all well_formed ?ns" using tree_well_formed[OF assms] unfolding tree_nodes all_well_formed_map .
  moreover have "list_all no_nil ?ns" using tree_no_nil[OF assms(1)] unfolding tree_nodes none_nil_map .
  ultimately obtain tree reg where "CompositeSetup (product_sources (dynamic_tree encode gf cmds)) = Inr tree"
    "New (Some tree) = Built reg" "GlobalFlags tree = GlobalFlags (dynamic_tree encode gf cmds)"
    "mirrors_all (Nodes (dynamic_tree encode gf cmds) @ Nodes newMeegleLocalCommandTree) (regRoots reg)"
    "unique_names (regRoots reg)" "list_all resolvable (regRoots reg)"
    using registry_built[OF nodes dynamic_own_roots[OF assms(1)]] by blast
  then show thesis by (intro that) (simp_all add: dynamic_tree_def)
qed

lemma accepted_reached:
  assumes ok: "list_all (command_ok encode) cmds" "distinct (map command_path cmds)"
    and mir: "mirrors_all (Nodes (buildCommandTree encode cmds) @ Nodes newMeegleLocalCommandTree) (regRoots reg)"
    and names: "unique_names (regRoots reg)" "list_all resolvable (regRoots reg)"
    and c: "c \<in> set cmds"
  shows "\<exists>b. Resolve reg [mcResource c, mcMethod c] = (Some b, []) \<and> mirrors (child_node encode c) b"
proof -
  have p: "dynamicCommandNamePattern (mcResource c)" "dynamicCommandNamePattern (mcMethod c)"
    using ok(1) c by (simp_all add: list_all_iff command_ok_def)
  have methods: "methods_ok (group_commands cmds (mcResource c))"
    using ok(1) by (auto simp: methods_ok_def list_all_iff set_group_commands command_ok_def)
  let ?g = "extended (group_node encode cmds (mcResource c))"
  have "?g \<in> set (non_nil (Nodes (buildCommandTree encode cmds) @ Nodes newMeegleLocalCommandTree))"
    using c unfolding tree_nodes non_nil_append non_nil_Some by (auto simp: set_group_names)
  from mirrors_all_built[OF mir this] obtain r where r: "r \<in> set (regRoots reg)" "mirrors ?g r" by blast
  have "child_node encode c \<in> set (non_nil (nodeChildren ?g))"
    unfolding extended_children[OF methods] non_nil_Some using c by (simp add: set_group_commands)
  from mirrors_all_built[OF _ this, of "bnChildren r"] r(2)
  obtain b where b: "b \<in> set (bnChildren r)" "mirrors (child_node encode c) b" using mirrors_fields by blast
  have "names_node (mcResource c) r" "names_node (mcMethod c) b"
    using names_self p mirrors_fields[OF r(2)] mirrors_fields[OF b(2)] by (simp_all add: extended_fields)
  then have "Resolve reg ([mcResource c, mcMethod c] @ []) = resolve_loop (Some b) (bnChildren b) []"
    unfolding Resolve_def using r(1) b(1) by (subst resolve_chain[where bs = "[r, b]", OF _ _ names]) simp_all
  then show ?thesis using b(2) by simp
qed

lemma accepted_ok_commands: "accepted_ok encode gf cmds \<Longrightarrow> list_all (command_ok encode) cmds \<and> distinct (map command_path cmds)"
  by (simp add: accepted_ok_def list_all_iff)

section \<open>Properties\<close>

text \<open>
  C23.  No list of tools the service announces can break the command line: the commands that are left after
  mapping and sanitizing always compose with the local commands, the tree is always accepted by the
  registry, and each of these commands is reached by its resource and method, with its own tool as the
  handler.  (A whole registry was lost to one bad tool otherwise.)
\<close>

theorem server_tools_cannot_break_cli:
  "\<exists>tree reg. CompositeSetup (product_sources (dynamic_tree encode gf (fst (mapAndSanitizeTools encode tools gf)))) = Inr tree \<and>
     New (Some tree) = Built reg \<and>
     list_all (\<lambda>c. \<exists>b. Resolve reg [mcResource c, mcMethod c] = (Some b, []) \<and> bnHandler b = mcToolName c \<and>
         bnFlags b = convertParameters (mcParameters c) \<and> metaRisk (bnMeta b) = riskForTool (mcToolName c))
       (fst (mapAndSanitizeTools encode tools gf))"
proof -
  let ?cmds = "fst (mapAndSanitizeTools encode tools gf)"
  have "accepted_ok encode gf ?cmds" by (rule sanitized_ok)
  note ok = accepted_ok_commands[OF this, THEN conjunct1] accepted_ok_commands[OF this, THEN conjunct2]
  from dynamic_registry_built[OF ok, of gf] obtain tree reg where reg:
    "CompositeSetup (product_sources (dynamic_tree encode gf ?cmds)) = Inr tree" "New (Some tree) = Built reg"
    "mirrors_all (Nodes (buildCommandTree encode ?cmds) @ Nodes newMeegleLocalCommandTree) (regRoots reg)"
    "unique_names (regRoots reg)" "list_all resolvable (regRoots reg)" by metis
  have node: "nodeFlags (child_node encode c) = convertParameters (mcParameters c) \<and>
      metaRisk (nodeMeta (child_node encode c)) = riskForTool (mcToolName c)" for c
    by (simp add: child_node_def plain_meta_def)
  have "\<exists>b. Resolve reg [mcResource c, mcMethod c] = (Some b, []) \<and> bnHandler b = mcToolName c \<and>
         bnFlags b = convertParameters (mcParameters c) \<and> metaRisk (bnMeta b) = riskForTool (mcToolName c)"
    if "c \<in> set ?cmds" for c
    using accepted_reached[OF ok reg(3-5) that] mirrors_fields[of "child_node encode c"] node[of c] by auto
  with reg(1,2) show ?thesis by (auto simp: list_all_iff)
qed

text \<open>How sanitizing splits the commands.\<close>

lemma sanitize_loop_split:
  "sanitize_loop encode gf cmds acc issues = (out, issues') \<Longrightarrow>
   \<exists>new. out = acc @ new \<and> subseq new (map clean_command cmds) \<and>
     length new + length issues' = length cmds + length issues"
proof (induction cmds arbitrary: acc issues)
  case (Cons cmd cmds)
  show ?case
  proof (cases "\<exists>c. check_command encode gf cmd = Inr c \<and> command_path c \<notin> set (map command_path acc)")
    case True
    then obtain c where c: "check_command encode gf cmd = Inr c" "command_path c \<notin> set (map command_path acc)" by blast
    with Cons.prems have "sanitize_loop encode gf cmds (acc @ [c]) issues = (out, issues')" by simp
    from Cons.IH[OF this] obtain new where "out = (acc @ [c]) @ new" "subseq new (map clean_command cmds)"
      "length new + length issues' = length cmds + length issues" by blast
    then show ?thesis using check_command_ok[OF c(1)] by (intro exI[of _ "c # new"]) simp
  next
    case False
    then obtain i where "sanitize_loop encode gf cmds acc (issues @ [i]) = (out, issues')"
      using Cons.prems by (cases "check_command encode gf cmd") auto
    from Cons.IH[OF this] obtain new where "out = acc @ new" "subseq new (map clean_command cmds)"
      "length new + length issues' = length cmds + length (issues @ [i])" by blast
    then show ?thesis by (intro exI[of _ new]) (simp add: list_emb_Cons)
  qed
qed simp

definition flag_free :: "FlagDef list \<Rightarrow> FlagDef \<Rightarrow> bool" where
  "flag_free gf f =
     (flagName f \<notin> set reservedDynamicFlagNames \<and> dynamicCommandNamePattern (flagName f) \<and>
      ToLower (flagName f) \<notin> set (map (ToLower \<circ> flagName) gf))"

lemma accepted_flags: "list_all (param_accepted gf) ps \<Longrightarrow> list_all (flag_free gf) (convertParameters ps)"
  by (auto simp: convertParameters_def flag_params_def list_all_iff param_accepted_def flag_free_def typed_flag_def
      list_ex_iff Let_def)

text \<open>
  C24.  What sanitizing accepts is safe and what it refuses is reported: every tool becomes a command or an
  issue, the accepted commands keep their order, no two have the same path, none uses a reserved resource
  or the fallback path of another tool, and none brings a flag that is reserved, malformed or a global one.
\<close>

theorem accepted_commands_safe:
  "case sanitizeMappedCommands encode cmds gf of (accepted, issues) \<Rightarrow>
     length accepted + length issues = length cmds \<and> subseq accepted (map clean_command cmds) \<and>
     distinct (map (\<lambda>c. (mcResource c, mcMethod c)) accepted) \<and>
     list_all (\<lambda>c. mcResource c \<notin> set reservedDynamicResources \<and>
         FallbackToolForPath (mcResource c) (mcMethod c) \<in> {None, Some (mcToolName c)} \<and>
         list_all (flag_free gf) (convertParameters (mcParameters c))) accepted"
proof -
  obtain out issues where out: "sanitizeMappedCommands encode cmds gf = (out, issues)" by fastforce
  then have loop: "sanitize_loop encode gf cmds [] [] = (out, issues)" by (simp add: sanitizeMappedCommands_def)
  have ok: "accepted_ok encode gf out" by (rule sanitize_loop_ok[OF _ loop]) (simp add: accepted_ok_def)
  have "distinct (map (\<lambda>c. (mcResource c, mcMethod c)) out)"
    using ok by (auto simp: accepted_ok_def distinct_map inj_on_def command_path_def)
  moreover have "mcResource c \<notin> set reservedDynamicResources \<and>
      FallbackToolForPath (mcResource c) (mcMethod c) \<in> {None, Some (mcToolName c)} \<and>
      list_all (flag_free gf) (convertParameters (mcParameters c))" if "c \<in> set out" for c
  proof -
    have "command_ok encode c" "list_all (param_accepted gf) (mcParameters c)"
      "case FallbackToolForPath (mcResource c) (mcMethod c) of None \<Rightarrow> True | Some owner \<Rightarrow> owner = mcToolName c"
      using ok that by (simp_all add: accepted_ok_def list_all_iff)
    then show ?thesis by (auto simp: command_ok_def accepted_flags split: option.splits)
  qed
  ultimately show ?thesis using sanitize_loop_split[OF loop] by (auto simp: out list_all_iff)
qed

text \<open>
  The reserved resources leave out \<open>telemetry\<close>, although the root customizer installs a command of that
  name: a tool of the service can take it.
\<close>

lemma telemetry_root_not_reserved:
  "check_command (\<lambda>_. []) []
     \<lparr>mcResource = ''telemetry'', mcMethod = ''off'', mcToolName = ''t'', mcDescription = ''d'',
      mcParameters = [], mcHasFields = False\<rparr> =
   Inr \<lparr>mcResource = ''telemetry'', mcMethod = ''off'', mcToolName = ''t'', mcDescription = ''d'',
      mcParameters = [], mcHasFields = False\<rparr>"
  unfolding check_command_def ValidateTree_none by code_simp

end
