(* ===== verification/Batch_Fanout.thy ===== *)
theory Batch_Fanout
  imports Batch_Ids Tool_Mapping "HOL-Library.Multiset"
begin

text \<open>
  \<open>internal/products/meegle/batch.go\<close>, second half: one call of a tool per identifier, by at most three
  workers.  The goroutines of \<open>BatchExecutorStep.Execute\<close> are a step relation: the main goroutine sends the
  indices and closes the channel while the workers take them, look at the context, call and store; the
  caller may cancel its context at any time.  Every call has any reply whatsoever.

  A slot that no worker has written is \<open>None\<close>; in the program it is the zero \<open>batchItem\<close>, which would be
  shown as a success without data.
\<close>

section \<open>Errors of a call\<close>

text \<open>A \<open>MeegleError\<close> with code, message and HTTP status; an error that wraps another; any other error.\<close>

datatype call_error = MeegleError string string int | WrappingError string call_error | OtherError string

fun as_meegle :: "call_error \<Rightarrow> (string \<times> int) option" where
  "as_meegle (MeegleError code msg status) = Some (code, status)"
| "as_meegle (WrappingError msg cause) = as_meegle cause"
| "as_meegle (OtherError msg) = None"

definition IsUnauthorized :: "call_error \<Rightarrow> bool" where
  "IsUnauthorized e =
     (case as_meegle e of None \<Rightarrow> False | Some (code, status) \<Rightarrow> status = 401 \<or> code = ''AUTH_EXPIRED'')"

definition classifyBatchError :: "call_error \<Rightarrow> string \<times> string" where
  "classifyBatchError e =
     (case e of
        MeegleError code msg status \<Rightarrow> (code, msg)
      | WrappingError msg cause \<Rightarrow> (''EXECUTION_ERROR'', msg)
      | OtherError msg \<Rightarrow> (''EXECUTION_ERROR'', msg))"

text \<open>\<open>strings.ReplaceAll\<close> and \<open>sanitizeToolNames\<close>; ties in length keep their order.\<close>

function replace_from :: "string \<Rightarrow> string \<Rightarrow> string \<Rightarrow> string" where
  "replace_from old new s =
     (if old \<noteq> [] \<and> HasPrefix s old then new @ replace_from old new (drop (length old) s)
      else (case s of [] \<Rightarrow> [] | c # cs \<Rightarrow> c # replace_from old new cs))"
  by pat_completeness auto
termination
  by (relation "measure (\<lambda>(old, new, s). length s)") (auto simp: HasPrefix_iff)

definition ReplaceAll :: "string \<Rightarrow> string \<Rightarrow> string \<Rightarrow> string" where
  "ReplaceAll s old new = (if old = [] then new @ concat (map (\<lambda>c. c # new) s) else replace_from old new s)"

definition sanitizeToolNames :: "string \<Rightarrow> MappedCommand list \<Rightarrow> string" where
  "sanitizeToolNames msg commands =
     fold (\<lambda>c m. if Contains m (mcToolName c)
                then ReplaceAll m (mcToolName c) (''meegle '' @ mcResource c @ '' '' @ mcMethod c) else m)
       (sort_key (\<lambda>c. - int (length (mcToolName c))) commands) msg"

section \<open>The state\<close>

type_synonym 'd reply = "(call_error, 'd) result"

datatype worker = Ready | Took nat | Calling nat | Gone

datatype 'd batch_verdict =
    Terminal call_error
  | ContextDone
  | Assembled "'d reply option list"

record 'd fan =
  sent :: nat
  pending :: "nat list"
  closed :: bool
  workers :: "worker list"
  slots :: "'d reply option list"
  first_err :: "call_error option"
  fan_cancelled :: bool
  parent_done :: bool
  returned :: "'d batch_verdict option"
  replies :: "(nat \<times> 'd reply) list"

definition start_fan :: "nat \<Rightarrow> bool \<Rightarrow> 'd fan" where
  "start_fan n done_before =
     \<lparr>sent = 0, pending = [], closed = False, workers = replicate (min batchConcurrency n) Ready,
      slots = replicate n None, first_err = None, fan_cancelled = False, parent_done = done_before,
      returned = None, replies = []\<rparr>"

section \<open>The steps\<close>

datatype 'd fan_label =
    Send
  | CloseJobs
  | Take nat
  | Check nat
  | Reply nat "'d reply"
  | Quit nat
  | CancelParent
  | Return

definition set_worker :: "nat \<Rightarrow> worker \<Rightarrow> 'd fan \<Rightarrow> 'd fan" where
  "set_worker w x s = s\<lparr>workers := (workers s)[w := x]\<rparr>"

definition handle_reply :: "nat \<Rightarrow> nat \<Rightarrow> 'd reply \<Rightarrow> 'd fan \<Rightarrow> 'd fan" where
  "handle_reply w i r s0 =
     (let s = s0\<lparr>replies := replies s0 @ [(i, r)]\<rparr> in
      case r of
        Inl e \<Rightarrow>
          (if IsUnauthorized e then
             set_worker w Gone (if first_err s = None then s\<lparr>first_err := Some e, fan_cancelled := True\<rparr> else s)
           else set_worker w Ready (s\<lparr>slots := (slots s)[i := Some r]\<rparr>))
      | Inr d \<Rightarrow> set_worker w Ready (s\<lparr>slots := (slots s)[i := Some r]\<rparr>))"

text \<open>What the main goroutine does after \<open>wg.Wait\<close>.\<close>

definition fan_verdict :: "'d fan \<Rightarrow> 'd batch_verdict" where
  "fan_verdict s =
     (case first_err s of
        Some e \<Rightarrow> Terminal e
      | None \<Rightarrow> (if parent_done s then ContextDone else Assembled (slots s)))"

inductive fan_step :: "'d fan \<Rightarrow> 'd fan_label \<Rightarrow> 'd fan \<Rightarrow> bool" where
  send: "sent s < length (slots s) \<Longrightarrow>
    fan_step s Send (s\<lparr>sent := Suc (sent s), pending := pending s @ [sent s]\<rparr>)"
| close: "sent s = length (slots s) \<Longrightarrow> \<not> closed s \<Longrightarrow> fan_step s CloseJobs (s\<lparr>closed := True\<rparr>)"
| take: "w < length (workers s) \<Longrightarrow> workers s ! w = Ready \<Longrightarrow> pending s = i # q \<Longrightarrow>
    fan_step s (Take w) (set_worker w (Took i) (s\<lparr>pending := q\<rparr>))"
| check: "w < length (workers s) \<Longrightarrow> workers s ! w = Took i \<Longrightarrow>
    fan_step s (Check w) (set_worker w (if fan_cancelled s \<or> parent_done s then Gone else Calling i) s)"
| reply: "w < length (workers s) \<Longrightarrow> workers s ! w = Calling i \<Longrightarrow> fan_step s (Reply w r) (handle_reply w i r s)"
| quit: "w < length (workers s) \<Longrightarrow> workers s ! w = Ready \<Longrightarrow> pending s = [] \<Longrightarrow> closed s \<Longrightarrow>
    fan_step s (Quit w) (set_worker w Gone s)"
| cancel_parent: "\<not> parent_done s \<Longrightarrow> fan_step s CancelParent (s\<lparr>parent_done := True\<rparr>)"
| return: "closed s \<Longrightarrow> list_all (\<lambda>x. x = Gone) (workers s) \<Longrightarrow> returned s = None \<Longrightarrow>
    fan_step s Return (s\<lparr>returned := Some (fan_verdict s)\<rparr>)"

inductive_cases fan_step_cases: "fan_step s l s'"

inductive fan_run :: "'d fan \<Rightarrow> 'd fan_label list \<Rightarrow> 'd fan \<Rightarrow> bool" where
  run_done: "fan_run s [] s"
| run_more: "fan_run s ls s' \<Longrightarrow> fan_step s' l s'' \<Longrightarrow> fan_run s (ls @ [l]) s''"

section \<open>The invariant\<close>

definition hold :: "worker \<Rightarrow> nat list" where
  "hold x = (case x of Took i \<Rightarrow> [i] | Calling i \<Rightarrow> [i] | _ \<Rightarrow> [])"

definition held :: "worker list \<Rightarrow> nat list" where
  "held ws = concat (map hold ws)"

text \<open>The indices that were sent and not given up: in the channel, with a worker, or answered.\<close>

definition accounted :: "'d fan \<Rightarrow> nat list" where
  "accounted s = pending s @ held (workers s) @ map fst (replies s)"

definition auth_reply :: "'d reply \<Rightarrow> bool" where
  "auth_reply r = (case r of Inl e \<Rightarrow> IsUnauthorized e | Inr d \<Rightarrow> False)"

definition slot_of :: "(nat \<times> 'd reply) list \<Rightarrow> nat \<Rightarrow> 'd reply option" where
  "slot_of rs i = (case map_of rs i of None \<Rightarrow> None | Some r \<Rightarrow> if auth_reply r then None else Some r)"

definition stopped :: "'d fan \<Rightarrow> bool" where
  "stopped s = (fan_cancelled s \<or> parent_done s)"

definition indices_ok :: "'d fan \<Rightarrow> bool" where
  "indices_ok s =
     (distinct (accounted s) \<and> set (accounted s) \<subseteq> {..<sent s} \<and> (stopped s \<or> {..<sent s} \<subseteq> set (accounted s)))"

definition shape_ok :: "nat \<Rightarrow> 'd fan \<Rightarrow> bool" where
  "shape_ok n s =
     (length (workers s) = min batchConcurrency n \<and> length (slots s) = n \<and> sent s \<le> n \<and> (closed s \<longrightarrow> sent s = n))"

definition slots_ok :: "nat \<Rightarrow> 'd fan \<Rightarrow> bool" where
  "slots_ok n s = (slots s = map (slot_of (replies s)) [0..<n])"

definition errors_ok :: "'d fan \<Rightarrow> bool" where
  "errors_ok s =
     ((first_err s = None) = list_all (\<lambda>r. \<not> auth_reply (snd r)) (replies s) \<and> fan_cancelled s = (first_err s \<noteq> None))"

definition gone_ok :: "'d fan \<Rightarrow> bool" where
  "gone_ok s = (Gone \<in> set (workers s) \<longrightarrow> stopped s \<or> pending s = [] \<and> closed s)"

definition fan_inv :: "nat \<Rightarrow> 'd fan \<Rightarrow> bool" where
  "fan_inv n s = (shape_ok n s \<and> indices_ok s \<and> slots_ok n s \<and> errors_ok s \<and> gone_ok s)"

lemma fan_invI:
  "shape_ok n s \<Longrightarrow> indices_ok s \<Longrightarrow> slots_ok n s \<Longrightarrow> errors_ok s \<Longrightarrow> gone_ok s \<Longrightarrow> fan_inv n s"
  by (simp add: fan_inv_def)

lemma fan_invD:
  assumes "fan_inv n s"
  shows "shape_ok n s" "indices_ok s" "slots_ok n s" "errors_ok s" "gone_ok s"
  using assms by (simp_all add: fan_inv_def)

lemma held_update:
  "w < length ws \<Longrightarrow> mset (held (ws[w := x])) + mset (hold (ws ! w)) = mset (held ws) + mset (hold x)"
proof (induction ws arbitrary: w)
  case (Cons y ws)
  then show ?case by (cases w) (auto simp: held_def)
qed simp

lemma accounted_update:
  assumes "w < length (workers s)"
  shows "mset (accounted (set_worker w x s)) + mset (hold (workers s ! w)) = mset (accounted s) + mset (hold x)"
  using held_update[OF assms, of x] by (simp add: accounted_def set_worker_def ac_simps)

lemma indices_ok_same:
  assumes "indices_ok s" "mset (accounted s') = mset (accounted s)" "sent s' = sent s" "stopped s \<Longrightarrow> stopped s'"
  shows "indices_ok s'"
  using assms mset_eq_imp_distinct_iff[OF assms(2)] mset_eq_setD[OF assms(2)] by (auto simp: indices_ok_def)

lemma indices_ok_drop:
  assumes "indices_ok s" "mset (accounted s) = add_mset i (mset (accounted s'))" "sent s' = sent s" "stopped s'"
  shows "indices_ok s'"
proof -
  have e: "mset (i # accounted s') = mset (accounted s)" using assms(2) by simp
  from assms mset_eq_imp_distinct_iff[OF e] mset_eq_setD[OF e] show ?thesis by (auto simp: indices_ok_def)
qed

lemma stopped_simps [simp]:
  "stopped (set_worker w x s) = stopped s" "sent (set_worker w x s) = sent s" "pending (set_worker w x s) = pending s"
  "closed (set_worker w x s) = closed s" "slots (set_worker w x s) = slots s" "first_err (set_worker w x s) = first_err s"
  "fan_cancelled (set_worker w x s) = fan_cancelled s" "replies (set_worker w x s) = replies s"
  "parent_done (set_worker w x s) = parent_done s" "returned (set_worker w x s) = returned s"
  "length (workers (set_worker w x s)) = length (workers s)"
  by (simp_all add: set_worker_def stopped_def)

lemma workers_set: "w < length (workers s) \<Longrightarrow> Gone \<in> set (workers (set_worker w x s)) \<Longrightarrow> x = Gone \<or> Gone \<in> set (workers s)"
  unfolding set_worker_def by (auto dest: set_update_subset_insert[THEN subsetD])

lemma held_member: "w < length (workers s) \<Longrightarrow> i \<in> set (hold (workers s ! w)) \<Longrightarrow> i \<in> set (accounted s)"
  by (auto simp: accounted_def held_def)

lemma start_inv: "fan_inv n (start_fan n d)"
proof (rule fan_invI)
  have held: "held (replicate k Ready) = []" for k by (induction k) (simp_all add: held_def hold_def)
  have empty: "accounted (start_fan n d) = []" by (simp add: accounted_def start_fan_def held)
  show "shape_ok n (start_fan n d)" by (simp add: shape_ok_def start_fan_def)
  show "indices_ok (start_fan n d)" unfolding indices_ok_def empty by (simp add: start_fan_def)
  have "replicate n None = map (slot_of []) [0..<n]" by (rule nth_equalityI) (simp_all add: slot_of_def)
  then show "slots_ok n (start_fan n d)" by (simp add: slots_ok_def start_fan_def)
  show "errors_ok (start_fan n d)" by (simp add: errors_ok_def start_fan_def)
  show "gone_ok (start_fan n d)" by (simp add: gone_ok_def start_fan_def)
qed

lemma errors_ok_cong:
  "errors_ok s \<Longrightarrow> first_err s' = first_err s \<Longrightarrow> fan_cancelled s' = fan_cancelled s \<Longrightarrow> replies s' = replies s \<Longrightarrow>
   errors_ok s'"
  by (simp only: errors_ok_def)

lemma send_inv:
  assumes inv: "fan_inv n s" and "sent s < n"
  shows "fan_inv n (s\<lparr>sent := Suc (sent s), pending := pending s @ [sent s]\<rparr>)" (is "fan_inv n ?s")
proof (rule fan_invI)
  note inv = fan_invD[OF inv]
  have open_jobs: "\<not> closed s" using inv(1) \<open>sent s < n\<close> by (auto simp: shape_ok_def)
  show "shape_ok n ?s" using inv(1) \<open>sent s < n\<close> open_jobs by (simp add: shape_ok_def)
  have e: "mset (accounted ?s) = mset (sent s # accounted s)" by (simp add: accounted_def)
  have "sent s \<notin> set (accounted s)" using inv(2) by (auto simp: indices_ok_def)
  then show "indices_ok ?s"
    using inv(2) mset_eq_imp_distinct_iff[OF e] mset_eq_setD[OF e]
    by (auto simp: indices_ok_def stopped_def lessThan_Suc less_Suc_eq)
  show "slots_ok n ?s" using inv(3) by (simp add: slots_ok_def)
  show "errors_ok ?s" by (rule errors_ok_cong[OF inv(4)]) simp_all
  show "gone_ok ?s" using inv(5) open_jobs by (simp add: gone_ok_def stopped_def)
qed

text \<open>A worker changes and holds the same index, or gives it up once the run is stopped.\<close>

lemma worker_inv:
  assumes inv: "fan_inv n s" and w: "w < length (workers s)"
    and idx: "hold x = hold (workers s ! w) \<or> hold x = [] \<and> hold (workers s ! w) = [i] \<and> stopped s"
    and gone: "x = Gone \<Longrightarrow> stopped s \<or> pending s = [] \<and> closed s"
  shows "fan_inv n (set_worker w x s)"
proof (rule fan_invI)
  note inv = fan_invD[OF inv]
  show "shape_ok n (set_worker w x s)" using inv(1) by (simp add: shape_ok_def)
  from idx show "indices_ok (set_worker w x s)"
  proof
    assume "hold x = hold (workers s ! w)"
    then have "mset (accounted (set_worker w x s)) = mset (accounted s)" using accounted_update[OF w, of x] by simp
    then show ?thesis by (rule indices_ok_same[OF inv(2)]) simp_all
  next
    assume d: "hold x = [] \<and> hold (workers s ! w) = [i] \<and> stopped s"
    then have "mset (accounted s) = add_mset i (mset (accounted (set_worker w x s)))"
      using accounted_update[OF w, of x] by simp
    then show ?thesis by (rule indices_ok_drop[OF inv(2)]) (simp_all add: d)
  qed
  show "slots_ok n (set_worker w x s)" using inv(3) by (simp add: slots_ok_def)
  show "errors_ok (set_worker w x s)" by (rule errors_ok_cong[OF inv(4)]) simp_all
  show "gone_ok (set_worker w x s)"
    using inv(5) gone workers_set[OF w, of x] unfolding gone_ok_def by auto
qed

lemma take_inv:
  assumes inv: "fan_inv n s" and w: "w < length (workers s)" "workers s ! w = Ready" and p: "pending s = i # q"
  shows "fan_inv n (set_worker w (Took i) (s\<lparr>pending := q\<rparr>))" (is "fan_inv n ?s")
proof (rule fan_invI)
  let ?t = "s\<lparr>pending := q\<rparr>"
  note inv = fan_invD[OF inv]
  show "shape_ok n ?s" using inv(1) by (simp add: shape_ok_def)
  have "mset (accounted ?s) + mset (hold (workers ?t ! w)) = mset (accounted ?t) + mset (hold (Took i))"
    using w(1) by (intro accounted_update) simp
  then have "mset (accounted ?s) = mset (accounted s)" using w(2) p by (simp add: hold_def accounted_def)
  then show "indices_ok ?s" by (rule indices_ok_same[OF inv(2)]) (simp_all add: stopped_def)
  show "slots_ok n ?s" using inv(3) by (simp add: slots_ok_def)
  show "errors_ok ?s" by (rule errors_ok_cong[OF inv(4)]) simp_all
  have "Gone \<in> set (workers ?s) \<Longrightarrow> Gone \<in> set (workers s)" using workers_set[of w ?t "Took i"] w(1) by simp
  then show "gone_ok ?s" using inv(5) p by (auto simp: gone_ok_def stopped_def)
qed

lemma slot_of_append:
  assumes "i \<notin> set (map fst rs)"
  shows "slot_of (rs @ [(i, r)]) j = (if j = i then (if auth_reply r then None else Some r) else slot_of rs j)"
proof (cases "j = i")
  case True
  have "map_of rs i = None" unfolding map_of_eq_None_iff using assms by simp
  with True show ?thesis by (simp add: slot_of_def map_of_append map_add_def)
next
  case False
  then have "map_of (rs @ [(i, r)]) j = map_of rs j" by (simp add: map_of_append map_add_def split: option.splits)
  with False show ?thesis by (simp add: slot_of_def)
qed

lemma slots_reply:
  assumes "i \<notin> set (map fst rs)"
  shows "map (slot_of (rs @ [(i, r)])) [0..<n] =
     (if auth_reply r then map (slot_of rs) [0..<n] else (map (slot_of rs) [0..<n])[i := Some r])"
proof (rule nth_equalityI)
  have "map_of rs i = None" unfolding map_of_eq_None_iff using assms by simp
  then have old: "slot_of rs i = None" by (simp add: slot_of_def)
  fix j assume "j < length (map (slot_of (rs @ [(i, r)])) [0..<n])"
  then have "j < n" by simp
  then show "map (slot_of (rs @ [(i, r)])) [0..<n] ! j =
     (if auth_reply r then map (slot_of rs) [0..<n] else (map (slot_of rs) [0..<n])[i := Some r]) ! j"
    using old by (auto simp: slot_of_append[OF assms] nth_list_update)
qed simp

lemma handle_reply_shape:
  "workers (handle_reply w i r s) = (workers s)[w := (if auth_reply r then Gone else Ready)]"
  "pending (handle_reply w i r s) = pending s" "sent (handle_reply w i r s) = sent s"
  "closed (handle_reply w i r s) = closed s" "replies (handle_reply w i r s) = replies s @ [(i, r)]"
  "parent_done (handle_reply w i r s) = parent_done s"
  "slots (handle_reply w i r s) = (if auth_reply r then slots s else (slots s)[i := Some r])"
  "first_err (handle_reply w i r s) = None \<longleftrightarrow> first_err s = None \<and> \<not> auth_reply r"
  "fan_cancelled (handle_reply w i r s) = (fan_cancelled s \<or> auth_reply r \<and> first_err s = None)"
  "returned (handle_reply w i r s) = returned s"
  by (auto simp: handle_reply_def set_worker_def auth_reply_def Let_def split: sum.splits)

lemma reply_inv:
  assumes inv: "fan_inv n s" and w: "w < length (workers s)" "workers s ! w = Calling i"
  shows "fan_inv n (handle_reply w i r s)" (is "fan_inv n ?s")
proof (rule fan_invI)
  let ?x = "if auth_reply r then Gone else Ready"
  note inv = fan_invD[OF inv] and shape = handle_reply_shape[of w i r s]
  have "i \<in> set (held (workers s))" using w by (force simp: held_def hold_def in_set_conv_nth)
  then have fresh: "i \<notin> set (map fst (replies s))" using inv(2) by (auto simp: indices_ok_def accounted_def)
  have stop: "stopped s \<Longrightarrow> stopped ?s" using shape by (auto simp: stopped_def)
  show "shape_ok n ?s" using inv(1) by (simp add: shape_ok_def shape)
  have "mset (held ((workers s)[w := ?x])) + {#i#} = mset (held (workers s))"
    using held_update[OF w(1), of ?x] w(2) by (simp add: hold_def split: if_splits)
  then have "mset (accounted ?s) = mset (accounted s)" by (auto simp: accounted_def shape)
  then show "indices_ok ?s" by (rule indices_ok_same[OF inv(2)]) (simp_all add: stop shape)
  show "slots_ok n ?s" using inv(3) unfolding slots_ok_def shape slots_reply[OF fresh] by simp
  show "errors_ok ?s" using inv(4) unfolding errors_ok_def shape(5,8,9) by (simp only: list_all_append list.pred_inject snd_conv simp_thms) blast
  show "gone_ok ?s" unfolding gone_ok_def
  proof
    assume "Gone \<in> set (workers ?s)"
    then have "?x = Gone \<or> Gone \<in> set (workers s)" unfolding shape by (auto dest: set_update_subset_insert[THEN subsetD])
    then have "auth_reply r \<or> stopped s \<or> pending s = [] \<and> closed s"
      using inv(5) by (simp add: gone_ok_def split: if_splits)
    moreover have "stopped ?s" if "auth_reply r"
      using that inv(4) unfolding stopped_def errors_ok_def shape by blast
    ultimately show "stopped ?s \<or> pending ?s = [] \<and> closed ?s" using stop shape by auto
  qed
qed

lemma check_inv:
  assumes inv: "fan_inv n s" and w: "w < length (workers s)" "workers s ! w = Took i"
  shows "fan_inv n (set_worker w (if fan_cancelled s \<or> parent_done s then Gone else Calling i) s)"
proof (cases "stopped s")
  case True
  then have x: "(if fan_cancelled s \<or> parent_done s then Gone else Calling i) = Gone" by (simp add: stopped_def)
  show ?thesis unfolding x by (rule worker_inv[OF inv w(1), of _ i]) (simp_all add: True w(2) hold_def)
next
  case False
  then have x: "(if fan_cancelled s \<or> parent_done s then Gone else Calling i) = Calling i" by (simp add: stopped_def)
  show ?thesis unfolding x by (rule worker_inv[OF inv w(1)]) (simp_all add: w(2) hold_def)
qed

text \<open>A step that moves no index: closing the channel, cancelling the context, returning.\<close>

lemma control_inv:
  assumes inv: "fan_inv n s"
    and same: "workers s' = workers s" "pending s' = pending s" "replies s' = replies s" "slots s' = slots s"
      "first_err s' = first_err s" "fan_cancelled s' = fan_cancelled s" "sent s' = sent s"
    and more: "closed s \<longrightarrow> closed s'" "closed s' \<longrightarrow> sent s = n" "parent_done s \<longrightarrow> parent_done s'"
  shows "fan_inv n s'"
proof (rule fan_invI)
  note inv = fan_invD[OF inv]
  have stop: "stopped s \<Longrightarrow> stopped s'" using same more by (auto simp: stopped_def)
  show "shape_ok n s'" using inv(1) more by (simp add: shape_ok_def same)
  show "indices_ok s'" by (rule indices_ok_same[OF inv(2)]) (simp_all add: accounted_def same stop)
  show "slots_ok n s'" using inv(3) by (simp only: slots_ok_def same)
  show "errors_ok s'" by (rule errors_ok_cong[OF inv(4)]) (simp_all add: same)
  show "gone_ok s'" using inv(5) stop more by (auto simp: gone_ok_def same)
qed

lemma fan_step_inv:
  assumes step: "fan_step s l s'" and inv: "fan_inv n s" shows "fan_inv n s'"
  using step
proof cases
  case send
  then show ?thesis using send_inv[OF inv] fan_invD(1)[OF inv] by (simp add: shape_ok_def)
next
  case close
  have "sent s = n" using close fan_invD(1)[OF inv] by (simp add: shape_ok_def)
  then show ?thesis using close by (intro control_inv[OF inv]) simp_all
next
  case (take w i q)
  then show ?thesis using take_inv[OF inv] by simp
next
  case (check w i)
  show ?thesis unfolding check(2) by (rule check_inv[OF inv check(3,4)])
next
  case (reply w i r)
  then show ?thesis using reply_inv[OF inv] by simp
next
  case (quit w)
  then show ?thesis using worker_inv[OF inv, of w Gone] by (simp add: hold_def)
next
  case cancel_parent
  have "closed s \<longrightarrow> sent s = n" using fan_invD(1)[OF inv] by (simp add: shape_ok_def)
  then show ?thesis using cancel_parent by (intro control_inv[OF inv]) simp_all
next
  case return
  have "sent s = n" using return fan_invD(1)[OF inv] by (simp add: shape_ok_def)
  then show ?thesis using return by (intro control_inv[OF inv]) simp_all
qed

text \<open>What a returned verdict says of the state.\<close>

definition verdict_ok :: "nat \<Rightarrow> 'd fan \<Rightarrow> bool" where
  "verdict_ok n s =
     (case returned s of
        None \<Rightarrow> True
      | Some v \<Rightarrow>
          closed s \<and> list_all (\<lambda>x. x = Gone) (workers s) \<and>
          (case v of
             Terminal e \<Rightarrow> first_err s = Some e
           | ContextDone \<Rightarrow> parent_done s
           | Assembled sl \<Rightarrow> sl = slots s \<and> first_err s = None \<and> set (map fst (replies s)) = {..<n}))"

lemma all_gone_held: "list_all (\<lambda>x. x = Gone) ws \<Longrightarrow> held ws = []"
  by (induction ws) (simp_all add: held_def hold_def)

lemma all_gone_nth: "list_all (\<lambda>x. x = Gone) ws \<Longrightarrow> w < length ws \<Longrightarrow> ws ! w = Gone"
  by (simp add: list_all_length)

lemma complete_when_unstopped:
  assumes inv: "fan_inv n s" and c: "closed s" and g: "list_all (\<lambda>x. x = Gone) (workers s)"
    and e: "first_err s = None" and p: "\<not> parent_done s"
  shows "set (map fst (replies s)) = {..<n}"
proof -
  note inv = fan_invD[OF inv]
  have run: "\<not> stopped s" using e p inv(4) by (simp add: stopped_def errors_ok_def)
  have n: "sent s = n" "length (workers s) = min batchConcurrency n" using inv(1) c by (auto simp: shape_ok_def)
  have all: "set (accounted s) = {..<n}" using inv(2) run n(1) by (auto simp: indices_ok_def)
  have "pending s = []"
  proof (cases "workers s")
    case Nil
    then have "n = 0" using n(2) by (simp add: batchConcurrency_def)
    then show ?thesis using all by (simp add: accounted_def)
  next
    case (Cons x xs)
    then have "Gone \<in> set (workers s)" using g by simp
    then show ?thesis using inv(5) run by (simp add: gone_ok_def)
  qed
  then show ?thesis using all all_gone_held[OF g] by (simp add: accounted_def)
qed

lemma fan_step_verdict:
  assumes step: "fan_step s l s'" and inv: "fan_inv n s" and v: "verdict_ok n s"
  shows "verdict_ok n s'"
proof (cases "returned s")
  case None
  show ?thesis
  proof (cases "l = Return")
    case True
    then have s': "s' = s\<lparr>returned := Some (fan_verdict s)\<rparr>" and g: "closed s" "list_all (\<lambda>x. x = Gone) (workers s)"
      using step by (auto elim: fan_step_cases)
    show ?thesis using g complete_when_unstopped[OF inv g]
      by (auto simp: s' verdict_ok_def fan_verdict_def split: option.splits)
  next
    case False
    then have "returned s' = None" using step None by (auto elim!: fan_step_cases simp: handle_reply_shape)
    then show ?thesis by (simp add: verdict_ok_def)
  qed
next
  case (Some x)
  with v have g: "closed s" "list_all (\<lambda>x. x = Gone) (workers s)" by (simp_all add: verdict_ok_def)
  have "sent s = length (slots s)" using fan_invD(1)[OF inv] g(1) by (simp add: shape_ok_def)
  then have "s' = s\<lparr>parent_done := True\<rparr>"
    using step g(1) Some by (auto elim!: fan_step_cases dest: all_gone_nth[OF g(2)])
  then show ?thesis using v Some by (auto simp: verdict_ok_def split: batch_verdict.splits)
qed

lemma fan_run_inv: "fan_run s0 ls s \<Longrightarrow> fan_inv n s0 \<and> verdict_ok n s0 \<Longrightarrow> fan_inv n s \<and> verdict_ok n s"
  by (induction rule: fan_run.induct) (auto intro: fan_step_inv fan_step_verdict)

lemma start_fan_returned: "returned (start_fan n d) = None"
  by (simp add: start_fan_def)

lemma reachable_inv: "fan_run (start_fan n d) ls s \<Longrightarrow> fan_inv n s \<and> verdict_ok n s"
  by (erule fan_run_inv) (simp add: conjI[OF start_inv] verdict_ok_def start_fan_returned)

section \<open>The run ends\<close>

fun weight :: "worker \<Rightarrow> nat" where
  "weight Ready = 1"
| "weight (Took i) = 3"
| "weight (Calling i) = 2"
| "weight Gone = 0"

text \<open>What is left to do; every step makes it smaller, whatever the replies are.\<close>

definition work_left :: "'d fan \<Rightarrow> nat" where
  "work_left s =
     4 * (length (slots s) - sent s) + 3 * length (pending s) + sum_list (map weight (workers s)) +
     (if closed s then 0 else 1) + (if parent_done s then 0 else 1) + (if returned s = None then 1 else 0)"

lemma weight_update:
  "w < length ws \<Longrightarrow> sum_list (map weight (ws[w := x])) + weight (ws ! w) = sum_list (map weight ws) + weight x"
proof (induction ws arbitrary: w)
  case (Cons y ws)
  then show ?case by (cases w) auto
qed simp

lemma work_left_worker:
  assumes "w < length (workers s)"
  shows "work_left (set_worker w x s) + weight (workers s ! w) = work_left s + weight x"
  using weight_update[OF assms, of x] by (simp add: work_left_def) (simp add: set_worker_def)

lemma fan_step_decreases: "fan_step s l s' \<Longrightarrow> work_left s' < work_left s"
proof (induction rule: fan_step.induct)
  case (take w s i q)
  have "work_left (set_worker w (Took i) (s\<lparr>pending := q\<rparr>)) + weight Ready = work_left (s\<lparr>pending := q\<rparr>) + weight (Took i)"
    using work_left_worker[of w "s\<lparr>pending := q\<rparr>" "Took i"] take by simp
  moreover have "work_left s = work_left (s\<lparr>pending := q\<rparr>) + 3" using take by (simp add: work_left_def)
  ultimately show ?case by simp
next
  case (check w s i)
  then show ?case using work_left_worker[of w s "if fan_cancelled s \<or> parent_done s then Gone else Calling i"] by auto
next
  case (reply w s i r)
  let ?x = "if auth_reply r then Gone else Ready"
  have "work_left (handle_reply w i r s) = work_left (set_worker w ?x s)"
    using handle_reply_shape[of w i r s] by (simp add: work_left_def) (simp add: set_worker_def)
  then show ?case using work_left_worker[of w s ?x] reply by auto
next
  case (quit w s)
  then show ?case using work_left_worker[of w s Gone] by simp
qed (simp_all add: work_left_def)

lemma fan_run_length: "fan_run s0 ls s \<Longrightarrow> length ls + work_left s \<le> work_left s0"
  by (induction rule: fan_run.induct) (use fan_step_decreases in fastforce)+

lemma start_work: "work_left (start_fan n d) \<le> 5 * n + 3"
  by (simp add: work_left_def start_fan_def sum_list_replicate min_def batchConcurrency_def)

text \<open>Until the main goroutine has returned, some goroutine can go on: nothing waits for the caller's context.\<close>

lemma fan_progress:
  assumes "fan_inv n s" "returned s = None"
  shows "\<exists>l s'. l \<noteq> CancelParent \<and> fan_step s l s'"
proof (cases "closed s")
  case False
  have "sent s \<le> length (slots s)" using fan_invD(1)[OF assms(1)] by (simp add: shape_ok_def)
  then consider "sent s < length (slots s)" | "sent s = length (slots s)" by linarith
  then show ?thesis
  proof cases
    case 1
    from fan_step.send[OF this] show ?thesis by blast
  next
    case 2
    from fan_step.close[OF this False] show ?thesis by blast
  qed
next
  case True
  show ?thesis
  proof (cases "list_all (\<lambda>x. x = Gone) (workers s)")
    case gone: True
    from fan_step.return[OF True gone assms(2)] show ?thesis by blast
  next
    case False
    then obtain w where w: "w < length (workers s)" "workers s ! w \<noteq> Gone" by (auto simp: list_all_length)
    show ?thesis
    proof (cases "workers s ! w")
      case Ready
      show ?thesis
      proof (cases "pending s")
        case Nil
        from fan_step.quit[OF w(1) Ready Nil True] show ?thesis by blast
      next
        case (Cons i q)
        from fan_step.take[OF w(1) Ready Cons] show ?thesis by blast
      qed
    next
      case (Took i)
      from fan_step.check[OF w(1) Took] show ?thesis by blast
    next
      case (Calling i)
      from fan_step.reply[OF w(1) Calling, of "Inl (OtherError [])"] show ?thesis by blast
    qed (use w in simp)
  qed
qed

section \<open>The response\<close>

text \<open>A slot nobody wrote is the zero item: no identifier, no data, no error.\<close>

definition batch_item :: "string \<Rightarrow> 'f any reply option \<Rightarrow> string \<times> 'f any reply" where
  "batch_item n slot = (case slot of None \<Rightarrow> ([], Inr VNil) | Some r \<Rightarrow> (n, r))"

definition success_row :: "string \<Rightarrow> string \<times> 'f any reply \<Rightarrow> 'f any option" where
  "success_row param it =
     (case it of
        (n, Inr d) \<Rightarrow> Some (VMap (put_all [(param, VNumber n), (''data'', d)] []))
      | (n, Inl e) \<Rightarrow> None)"

definition error_row :: "(string \<Rightarrow> string) \<Rightarrow> string \<Rightarrow> string \<times> 'f any reply \<Rightarrow> 'f any option" where
  "error_row sanitize param it =
     (case it of
        (n, Inr d) \<Rightarrow> None
      | (n, Inl e) \<Rightarrow>
          (case classifyBatchError e of
             (code, message) \<Rightarrow>
               Some (VMap (put_all [(param, VNumber n), (''code'', VString code), (''message'', VString (sanitize message))] []))))"

definition assembleBatchResponse :: "(string \<Rightarrow> string) \<Rightarrow> string \<Rightarrow> (string \<times> 'f any reply) list \<Rightarrow> 'f any" where
  "assembleBatchResponse sanitize param items =
     (let results = List.map_filter (success_row param) items; errs = List.map_filter (error_row sanitize param) items;
          succeeded = length results
      in VMap [(''results'', VList results), (''errors'', VList errs),
               (''summary'', VMap [(''total'', VInt (int (length items))), (''succeeded'', VInt (int succeeded)),
                                 (''failed'', VInt (int (length items) - int succeeded))])])"

datatype batch_failure = CallFailed call_error | ContextError

definition sanitize_error :: "(string \<Rightarrow> string) \<Rightarrow> call_error \<Rightarrow> call_error" where
  "sanitize_error sanitize e = (case e of MeegleError code msg status \<Rightarrow> MeegleError code (sanitize msg) status | _ \<Rightarrow> e)"

text \<open>What \<open>Execute\<close> returns or stores, from the verdict of the fan-out over the identifiers.\<close>

definition batch_result ::
    "(string \<Rightarrow> string) \<Rightarrow> string \<Rightarrow> string list \<Rightarrow> 'f any batch_verdict \<Rightarrow> (batch_failure, 'f any) result" where
  "batch_result sanitize param ids v =
     (case v of
        Terminal e \<Rightarrow> Inl (CallFailed (sanitize_error sanitize e))
      | ContextDone \<Rightarrow> Inl ContextError
      | Assembled sl \<Rightarrow> Inr (assembleBatchResponse sanitize param (map2 batch_item ids sl)))"

lemma rows_partition:
  "length (List.map_filter (success_row param) items) + length (List.map_filter (error_row sanitize param) items) = length items"
  by (induction items) (auto simp: List.map_filter_simps success_row_def error_row_def split: sum.splits prod.splits)

text \<open>\<open>reshapeBatchForNDJSON\<close>: one line per result, then per error, then the summary.\<close>

definition toMapSlice :: "'f any \<Rightarrow> 'f any list" where
  "toMapSlice v = (case v of VList vs \<Rightarrow> filter (\<lambda>x. case x of VMap m \<Rightarrow> True | _ \<Rightarrow> False) vs | _ \<Rightarrow> [])"

definition reshapeBatchForNDJSON :: "'f any \<Rightarrow> 'f any list option" where
  "reshapeBatchForNDJSON data =
     (case data of
        VMap payload \<Rightarrow>
          (case (map_of payload ''results'', map_of payload ''errors'') of
             (Some rs, Some es) \<Rightarrow>
               Some (toMapSlice rs @ toMapSlice es @
                 (case map_of payload ''summary'' of None \<Rightarrow> [] | Some summary \<Rightarrow> [VMap [(''summary'', summary)]]))
           | _ \<Rightarrow> None)
      | _ \<Rightarrow> None)"

section \<open>Properties\<close>

definition calling :: "'d fan \<Rightarrow> nat list" where
  "calling s = concat (map (\<lambda>x. case x of Calling i \<Rightarrow> [i] | _ \<Rightarrow> []) (workers s))"

definition answer_of :: "'d fan \<Rightarrow> nat \<Rightarrow> 'd reply" where
  "answer_of s i = (case map_of (replies s) i of Some r \<Rightarrow> r | None \<Rightarrow> Inl (OtherError []))"

lemma calling_held:
  "distinct (held ws @ r) \<Longrightarrow>
   distinct (concat (map (\<lambda>x. case x of Calling i \<Rightarrow> [i] | _ \<Rightarrow> []) ws) @ r) \<and>
   set (concat (map (\<lambda>x. case x of Calling i \<Rightarrow> [i] | _ \<Rightarrow> []) ws)) \<subseteq> set (held ws)"
  by (induction ws) (auto simp: held_def hold_def split: worker.splits)

lemma calling_bound: "length (calling s) \<le> length (workers s)"
proof -
  have "length (concat (map (\<lambda>x. case x of Calling i \<Rightarrow> [i] | _ \<Rightarrow> []) ws)) \<le> length ws" for ws
    by (induction ws) (auto split: worker.splits)
  then show ?thesis by (simp add: calling_def)
qed

lemma first_err_reply:
  "fan_run s0 ls s \<Longrightarrow> first_err s0 = None \<Longrightarrow> first_err s = Some e \<Longrightarrow>
   \<exists>i. (i, Inl e) \<in> set (replies s) \<and> IsUnauthorized e"
proof (induction arbitrary: e rule: fan_run.induct)
  case (run_more s0 ls s l s')
  show ?case
  proof (cases "\<exists>w r. l = Reply w r")
    case True
    then obtain w i r where s': "s' = handle_reply w i r s" using run_more(2) by (auto elim: fan_step_cases)
    show ?thesis
    proof (cases "first_err s = None")
      case True
      then have "\<exists>e'. r = Inl e' \<and> IsUnauthorized e' \<and> e = e'"
        using run_more(5) s' by (auto simp: handle_reply_def Let_def split: sum.splits if_splits)
      then show ?thesis by (auto simp: s' handle_reply_shape)
    next
      case False
      then have "first_err s' = first_err s" by (auto simp: s' handle_reply_def Let_def split: sum.splits)
      then show ?thesis using run_more(3)[OF run_more(4)] run_more(5) by (auto simp: s' handle_reply_shape)
    qed
  next
    case False
    then have "first_err s' = first_err s \<and> replies s' = replies s" using run_more(2) by (auto elim: fan_step_cases)
    then show ?thesis using run_more by simp
  qed
qed simp

lemma answers_complete:
  assumes "distinct (map fst rs)" "set (map fst rs) = {..<n}" "list_all (\<lambda>r. \<not> auth_reply (snd r)) rs" "length ids = n"
    and "sl = map (slot_of rs) [0..<n]"
  shows "map2 batch_item ids sl = map (\<lambda>i. (ids ! i, case map_of rs i of Some r \<Rightarrow> r | None \<Rightarrow> Inl (OtherError []))) [0..<n]"
proof (rule nth_equalityI)
  fix i assume "i < length (map2 batch_item ids sl)"
  then have i: "i < n" using assms(4,5) by simp
  then have "i \<in> fst ` set rs" using assms(2) by auto
  then obtain r where r: "map_of rs i = Some r" by (metis map_of_eq_None_iff not_None_eq)
  then have "\<not> auth_reply r" using assms(3) map_of_SomeD by (fastforce simp: list_all_iff)
  then have "slot_of rs i = Some r" using r by (simp add: slot_of_def)
  then show "map2 batch_item ids sl ! i =
      map (\<lambda>i. (ids ! i, case map_of rs i of Some r \<Rightarrow> r | None \<Rightarrow> Inl (OtherError []))) [0..<n] ! i"
    using i r assms(4,5) by (simp add: batch_item_def)
qed (use assms(4,5) in simp)

text \<open>
  C18.  Whatever the interleaving of the workers, the replies and a cancellation of the caller: no index is
  called twice and at most three calls are in flight; a response is assembled only when every identifier was
  called exactly once, none was rejected as unauthorized, and row by row in the order of the identifiers it
  holds what the call of that identifier returned, never an empty slot; the error of the batch is one that a
  call returned as unauthorized, or the caller's context is done.
\<close>

theorem batch_complete:
  fixes ids :: "string list" and s :: "'f any fan"
  assumes "fan_run (start_fan (length ids) done_before) ls s"
  shows "distinct (map fst (replies s) @ calling s) \<and> length (calling s) \<le> 3 \<and>
    (case returned s of
       None \<Rightarrow> True
     | Some v \<Rightarrow>
         (case batch_result sanitize param ids v of
            Inr response \<Rightarrow>
              response = assembleBatchResponse sanitize param (map (\<lambda>i. (ids ! i, answer_of s i)) [0..<length ids]) \<and>
              set (map fst (replies s)) = {..<length ids} \<and> list_all (\<lambda>r. \<not> auth_reply (snd r)) (replies s)
          | Inl (CallFailed e) \<Rightarrow>
              (\<exists>i e'. (i, Inl e') \<in> set (replies s) \<and> IsUnauthorized e' \<and> e = sanitize_error sanitize e')
          | Inl ContextError \<Rightarrow> parent_done s))"
proof -
  let ?n = "length ids"
  have inv: "fan_inv ?n s" "verdict_ok ?n s" using reachable_inv[OF assms] by blast+
  note parts = fan_invD[OF inv(1)]
  have d: "distinct (held (workers s) @ map fst (replies s))" using parts(2) by (auto simp: indices_ok_def accounted_def)
  from calling_held[OF d] have 1: "distinct (map fst (replies s) @ calling s)" by (auto simp: calling_def)
  have 2: "length (calling s) \<le> 3"
    using calling_bound[of s] parts(1) by (simp add: shape_ok_def batchConcurrency_def)
  have first: "\<exists>i. (i, Inl e) \<in> set (replies s) \<and> IsUnauthorized e" if "first_err s = Some e" for e
    using first_err_reply[OF assms _ that] by (simp add: start_fan_def)
  have rows: "map2 batch_item ids (slots s) = map (\<lambda>i. (ids ! i, answer_of s i)) [0..<?n]"
    and good: "list_all (\<lambda>r. \<not> auth_reply (snd r)) (replies s)"
    if "first_err s = None" "set (map fst (replies s)) = {..<?n}"
  proof -
    show good: "list_all (\<lambda>r. \<not> auth_reply (snd r)) (replies s)" using that(1) parts(4) by (simp add: errors_ok_def)
    have "distinct (map fst (replies s))" using 1 by simp
    from answers_complete[OF this that(2) good refl parts(3)[unfolded slots_ok_def]]
    show "map2 batch_item ids (slots s) = map (\<lambda>i. (ids ! i, answer_of s i)) [0..<?n]" unfolding answer_of_def .
  qed
  have 3: "case returned s of None \<Rightarrow> True | Some v \<Rightarrow>
         (case batch_result sanitize param ids v of
            Inr response \<Rightarrow>
              response = assembleBatchResponse sanitize param (map (\<lambda>i. (ids ! i, answer_of s i)) [0..<?n]) \<and>
              set (map fst (replies s)) = {..<?n} \<and> list_all (\<lambda>r. \<not> auth_reply (snd r)) (replies s)
          | Inl (CallFailed e) \<Rightarrow>
              (\<exists>i e'. (i, Inl e') \<in> set (replies s) \<and> IsUnauthorized e' \<and> e = sanitize_error sanitize e')
          | Inl ContextError \<Rightarrow> parent_done s)"
  proof (cases "returned s")
    case (Some v)
    then show ?thesis using inv(2) first rows good
      by (cases v) (auto simp: verdict_ok_def batch_result_def)
  qed simp
  from 1 2 3 show ?thesis by blast
qed

text \<open>
  C19.  A batch always ends: a run of n identifiers has at most 5 n + 3 steps, and until the main goroutine
  has returned some goroutine can take a step without waiting for the caller to cancel.
\<close>

theorem batch_returns:
  assumes "fan_run (start_fan n done_before) ls s"
  shows "length ls \<le> 5 * n + 3 \<and> (returned s \<noteq> None \<or> (\<exists>l s'. l \<noteq> CancelParent \<and> fan_step s l s'))"
proof -
  have "length ls + work_left s \<le> 5 * n + 3" by (rule order_trans[OF fan_run_length[OF assms] start_work])
  moreover have "fan_inv n s" using reachable_inv[OF assms] by blast
  ultimately show ?thesis using fan_progress[of n s] by (cases "returned s") auto
qed

text \<open>Runs are computed by a function that takes the enabled step of a label.\<close>

fun next_fan :: "'d fan \<Rightarrow> 'd fan_label \<Rightarrow> 'd fan option" where
  "next_fan s Send =
     (if sent s < length (slots s) then Some (s\<lparr>sent := Suc (sent s), pending := pending s @ [sent s]\<rparr>) else None)"
| "next_fan s CloseJobs = (if sent s = length (slots s) \<and> \<not> closed s then Some (s\<lparr>closed := True\<rparr>) else None)"
| "next_fan s (Take w) =
     (if w < length (workers s) \<and> workers s ! w = Ready then
        (case pending s of [] \<Rightarrow> None | i # q \<Rightarrow> Some (set_worker w (Took i) (s\<lparr>pending := q\<rparr>))) else None)"
| "next_fan s (Check w) =
     (if w < length (workers s) then
        (case workers s ! w of
           Took i \<Rightarrow> Some (set_worker w (if fan_cancelled s \<or> parent_done s then Gone else Calling i) s)
         | _ \<Rightarrow> None) else None)"
| "next_fan s (Reply w r) =
     (if w < length (workers s) then
        (case workers s ! w of Calling i \<Rightarrow> Some (handle_reply w i r s) | _ \<Rightarrow> None) else None)"
| "next_fan s (Quit w) =
     (if w < length (workers s) \<and> workers s ! w = Ready \<and> pending s = [] \<and> closed s then Some (set_worker w Gone s) else None)"
| "next_fan s CancelParent = (if \<not> parent_done s then Some (s\<lparr>parent_done := True\<rparr>) else None)"
| "next_fan s Return =
     (if closed s \<and> list_all (\<lambda>x. x = Gone) (workers s) \<and> returned s = None
      then Some (s\<lparr>returned := Some (fan_verdict s)\<rparr>) else None)"

fun exec_fan :: "'d fan \<Rightarrow> 'd fan_label list \<Rightarrow> 'd fan option" where
  "exec_fan s [] = Some s"
| "exec_fan s (l # ls) = (case next_fan s l of None \<Rightarrow> None | Some s' \<Rightarrow> exec_fan s' ls)"

lemma next_fan_step:
  assumes "next_fan s l = Some s'" shows "fan_step s l s'"
proof (cases l)
  case (Check w)
  then obtain i where i: "w < length (workers s)" "workers s ! w = Took i"
    and s': "s' = set_worker w (if fan_cancelled s \<or> parent_done s then Gone else Calling i) s"
    using assms by (auto simp del: if_weak_cong split: if_split_asm worker.splits)
  show ?thesis unfolding Check s' by (rule fan_step.check[OF i])
qed (use assms in \<open>auto split: if_splits list.splits worker.splits intro: fan_step.intros\<close>)

lemma fan_run_first: "fan_run s' ls s'' \<Longrightarrow> fan_step s l s' \<Longrightarrow> fan_run s (l # ls) s''"
proof (induction rule: fan_run.induct)
  case (run_done s')
  from fan_run.run_more[OF fan_run.run_done run_done] show ?case by simp
next
  case (run_more s0 ls s1 l' s2)
  from fan_run.run_more[OF run_more(3)[OF run_more(4)] run_more(2)] show ?case by simp
qed

lemma exec_fan_run: "exec_fan s ls = Some s' \<Longrightarrow> fan_run s ls s'"
  by (induction ls arbitrary: s) (auto split: option.splits intro: fan_run.run_done fan_run_first next_fan_step)

definition demo_labels :: "unit any fan_label list" where
  "demo_labels = [Send, Take 1, Check 1, Send, CloseJobs, Take 0, Check 0, Reply 0 (Inr (VString ''second'')),
     Reply 1 (Inl (OtherError ''boom'')), Quit 0, Quit 1, Return]"

definition demo_end :: "unit any fan" where
  "demo_end =
     \<lparr>sent = 2, pending = [], closed = True, workers = [Gone, Gone],
      slots = [Some (Inl (OtherError ''boom'')), Some (Inr (VString ''second''))], first_err = None,
      fan_cancelled = False, parent_done = False,
      returned = Some (Assembled [Some (Inl (OtherError ''boom'')), Some (Inr (VString ''second''))]),
      replies = [(1, Inr (VString ''second'')), (0, Inl (OtherError ''boom''))]\<rparr>"

lemma demo_run: "fan_run (start_fan (length [''7'', ''8'']) False) demo_labels demo_end"
  by (rule exec_fan_run) code_simp

theorem batch_complete_witness:
  "\<exists>response. batch_result (\<lambda>m. m) ''work_item_id'' [''7'', ''8'']
     (Assembled [Some (Inl (OtherError ''boom'')), Some (Inr (VString ''second''))]) = Inr response \<and>
     response = assembleBatchResponse (\<lambda>m. m) ''work_item_id''
       (map (\<lambda>i. ([''7'', ''8''] ! i, answer_of demo_end i)) [0..<length [''7'', ''8'']])"
proof -
  have "returned demo_end = Some (Assembled [Some (Inl (OtherError ''boom'')), Some (Inr (VString ''second''))])"
    by (simp add: demo_end_def)
  with batch_complete[OF demo_run, of "\<lambda>m. m" "''work_item_id''"] show ?thesis
    by (auto simp only: batch_result_def batch_verdict.case option.case sum.case)
qed

theorem batch_returns_witness:
  "length demo_labels \<le> 5 * length [''7'', ''8''] + 3 \<and> (\<exists>v. returned demo_end = Some v)"
  using batch_returns[OF demo_run] by (simp add: demo_end_def)

end
