(* ===== verification/Pagination.thy ===== *)
theory Pagination
  imports Param_Coercion Batch_Fanout
begin

text \<open>
  \<open>AutoPaginateStep\<close> of \<open>internal/products/meegle/mcp_runtime.go\<close>: with \<open>--auto-paginate\<close> the remaining pages of
  a result are fetched and merged into it.  The cursor is a \<open>next_page_token\<close> or a page number.

  The service is a function of the number of the call and its parameters, so that it may answer equal
  requests differently.  Every loop returns the exchanges it made: the parameters of each call, and its reply
  after the result transformation.  A Go \<open>int\<close> has 64 bits.

  \<open>getListLength\<close> may depend on the random order in which Go iterates over a map; \<open>pick\<close> gives that order
  for each of the places and times it is called.
\<close>

section \<open>Values\<close>

record 'f float_ops =
  floatG :: "'f \<Rightarrow> string"
  floatF :: "'f \<Rightarrow> string"
  positiveIntegral :: "'f \<Rightarrow> bool"

definition getString :: "'f value_map \<Rightarrow> string \<Rightarrow> string" where
  "getString m key = (case map_of m key of Some (VString s) \<Rightarrow> TrimSpace s | _ \<Rightarrow> [])"

definition jsonNumberToInt64 :: "string \<Rightarrow> int option" where
  "jsonNumberToInt64 n = (case Int64 n of Inl _ \<Rightarrow> None | Inr i \<Rightarrow> Some i)"

definition toInt :: "'f float_ops \<Rightarrow> 'f any \<Rightarrow> int option" where
  "toInt fl v =
     (case v of
        VFloat f \<Rightarrow> Atoi (floatF fl f)
      | VNumber n \<Rightarrow> jsonNumberToInt64 n
      | VInt i \<Rightarrow> Some i
      | _ \<Rightarrow> None)"

definition toInt64 :: "'f float_ops \<Rightarrow> 'f any option \<Rightarrow> int" where
  "toInt64 fl v =
     (case v of
        None \<Rightarrow> 0
      | Some w \<Rightarrow>
          (case w of
             VFloat f \<Rightarrow> (case Atoi (floatF fl f) of None \<Rightarrow> 0 | Some i \<Rightarrow> i)
           | VNumber n \<Rightarrow> (case jsonNumberToInt64 n of None \<Rightarrow> 0 | Some i \<Rightarrow> i)
           | VInt i \<Rightarrow> i
           | _ \<Rightarrow> 0))"

definition incrementInt :: "int \<Rightarrow> int option" where
  "incrementInt i = (if i = int64_max then None else Some (i + 1))"

definition is_exponent_mark :: "char \<Rightarrow> bool" where
  "is_exponent_mark c = (c = CHR ''e'' \<or> c = CHR ''E'')"

definition isPositiveInteger :: "'f float_ops \<Rightarrow> 'f any \<Rightarrow> bool" where
  "isPositiveInteger fl v =
     (case v of
        VNumber n \<Rightarrow>
          (if \<not> IsInteger n \<or> HasPrefix n ''-'' then False
           else list_ex (\<lambda>d. CHR ''1'' \<le> d \<and> d \<le> CHR ''9'') (takeWhile (\<lambda>c. \<not> is_exponent_mark c) n))
      | VFloat f \<Rightarrow> positiveIntegral fl f
      | VInt i \<Rightarrow> i > 0
      | _ \<Rightarrow> False)"

definition withParam :: "'f value_map \<Rightarrow> string \<Rightarrow> 'f any \<Rightarrow> 'f value_map" where
  "withParam base key v = AList.update key v base"

definition merge_value :: "'f any \<Rightarrow> 'f any \<Rightarrow> 'f any" where
  "merge_value existing v =
     (case (existing, v) of
        (VList a, VList b) \<Rightarrow> VList (a @ b)
      | (VMap a, VMap b) \<Rightarrow> VMap (put_all b a)
      | _ \<Rightarrow> v)"

fun mergePayloads :: "'f value_map \<Rightarrow> 'f value_map \<Rightarrow> 'f value_map" where
  "mergePayloads result [] = result"
| "mergePayloads result ((k, v) # next) =
     mergePayloads
       (AList.update k (case map_of result k of None \<Rightarrow> v | Some existing \<Rightarrow> merge_value existing v) result) next"

definition listFieldPriority :: "string list" where
  "listFieldPriority = [''list'', ''items'', ''data'']"

definition list_at :: "'f value_map \<Rightarrow> string \<Rightarrow> 'f any list option" where
  "list_at m key = (case map_of m key of Some (VList arr) \<Rightarrow> Some arr | _ \<Rightarrow> None)"

fun first_some :: "'a option list \<Rightarrow> 'a option" where
  "first_some [] = None"
| "first_some (None # xs) = first_some xs"
| "first_some (Some x # xs) = Some x"

definition getListLength :: "('f value_map \<Rightarrow> 'f value_map) \<Rightarrow> 'f value_map \<Rightarrow> nat" where
  "getListLength pick m =
     (case first_some (map (list_at m) listFieldPriority) of
        Some arr \<Rightarrow> length arr
      | None \<Rightarrow>
          (case first_some (map (\<lambda>(k, v). case v of VList arr \<Rightarrow> Some arr | _ \<Rightarrow> None) (pick m)) of
             Some arr \<Rightarrow> length arr
           | None \<Rightarrow> 0))"

section \<open>The command\<close>

text \<open>The types a command declares, when the tag is there and decodes.\<close>

definition declared_params :: "(string \<Rightarrow> json option) \<Rightarrow> 'f ParsedCommand \<Rightarrow> (string \<times> string) list option" where
  "declared_params decode c =
     (case cmdNode c of
        None \<Rightarrow> None
      | Some n \<Rightarrow>
          (case tag n ''mcp_param_types'' of
             None \<Rightarrow> None
           | Some raw \<Rightarrow> (if texts_ok (decode raw) then Some (texts_of (decode raw)) else None)))"

definition hasParamInMetadata :: "(string \<Rightarrow> json option) \<Rightarrow> 'f ParsedCommand \<Rightarrow> string \<Rightarrow> bool" where
  "hasParamInMetadata decode c snakeParam =
     (case declared_params decode c of None \<Rightarrow> False | Some types \<Rightarrow> map_of types (kebab snakeParam) \<noteq> None)"

definition resolveTokenParamName :: "(string \<Rightarrow> json option) \<Rightarrow> 'f ParsedCommand \<Rightarrow> string" where
  "resolveTokenParamName decode c =
     (case declared_params decode c of
        None \<Rightarrow> ''page_token''
      | Some types \<Rightarrow>
          (case find (\<lambda>candidate. map_of types (kebab candidate) \<noteq> None) [''next_page_token'', ''page_token''] of
             Some candidate \<Rightarrow> candidate
           | None \<Rightarrow> ''page_token''))"

text \<open>The only result transformation of the program, that of \<open>user me\<close>.\<close>

definition me_transform :: "'f any \<Rightarrow> 'f any" where
  "me_transform data =
     (case data of
        VList (first # rest) \<Rightarrow>
          (case first of
             VMap m \<Rightarrow>
               VMap (map (\<lambda>k. (k, case map_of m k of None \<Rightarrow> VNil | Some v \<Rightarrow> v))
                 [''user_key'', ''name_cn'', ''name_en'', ''email'', ''avatar_url''])
           | _ \<Rightarrow> first)
      | _ \<Rightarrow> data)"

definition LookupResultTransform :: "string list \<Rightarrow> ('f any \<Rightarrow> 'f any) option" where
  "LookupResultTransform fullPath =
     (case fullPath of
        grp # name # _ \<Rightarrow> (if grp @ ''/'' @ name = ''user/me'' then Some me_transform else None)
      | _ \<Rightarrow> None)"

definition transformed :: "string list \<Rightarrow> 'f any \<Rightarrow> 'f any" where
  "transformed fullPath data = (case LookupResultTransform fullPath of None \<Rightarrow> data | Some fn \<Rightarrow> fn data)"

section \<open>The loops\<close>

datatype page_error = PageCallFailed call_error | PageNumInvalid | PageNumOverflow

definition maxAutoPaginatePages :: nat where "maxAutoPaginatePages = 200"
definition maxEmptyPageStreak :: nat where "maxEmptyPageStreak = 3"

record 'f service =
  answer :: "nat \<Rightarrow> 'f value_map \<Rightarrow> 'f any reply"
  reshape :: "'f any \<Rightarrow> 'f any"
  iterated :: "nat \<Rightarrow> 'f value_map \<Rightarrow> 'f value_map"

record 'f token_state =
  tsMerged :: "'f value_map"
  tsPages :: nat
  tsToken :: string
  tsLast :: string
  tsStreak :: nat
  tsStopped :: string
  tsExchanges :: "('f value_map \<times> 'f any) list"

text \<open>One round after the limit: the call, and the state with the reply unless that is no object.\<close>

definition token_page ::
    "'f service \<Rightarrow> 'f value_map \<Rightarrow> 'f any \<Rightarrow> 'f value_map \<Rightarrow> 'f token_state \<Rightarrow> 'f token_state" where
  "token_page sv params raw pageData st =
     (let beforeLen = getListLength (iterated sv (2 * tsPages st)) (tsMerged st);
          merged = mergePayloads (tsMerged st) pageData;
          afterLen = getListLength (iterated sv (2 * tsPages st + 1)) merged;
          streak = (if afterLen = beforeLen then Suc (tsStreak st) else 0)
      in st\<lparr>tsMerged := merged, tsPages := Suc (tsPages st), tsToken := getString pageData ''next_page_token'',
            tsStreak := streak,
            tsStopped := (if streak \<ge> maxEmptyPageStreak then ''consecutive_empty_pages'' else tsStopped st),
            tsExchanges := tsExchanges st @ [(params, raw)]\<rparr>)"

function token_loop ::
    "'f service \<Rightarrow> 'f value_map \<Rightarrow> string \<Rightarrow> 'f token_state \<Rightarrow> (page_error, 'f token_state) result" where
  "token_loop sv base tokenParam st =
     (if tsToken st = [] then Inr st
      else if tsPages st \<ge> maxAutoPaginatePages then Inr (st\<lparr>tsLast := tsToken st\<rparr>)
      else
        (let params = withParam base tokenParam (VString (tsToken st)) in
         case answer sv (length (tsExchanges st)) params of
           Inl e \<Rightarrow> Inl (PageCallFailed e)
         | Inr data \<Rightarrow>
             (case reshape sv data of
                VMap pageData \<Rightarrow>
                  (let st' = token_page sv params (VMap pageData) pageData st in
                   if tsStreak st' \<ge> maxEmptyPageStreak then Inr st' else token_loop sv base tokenParam st')
              | raw \<Rightarrow> Inr (st\<lparr>tsPages := Suc (tsPages st), tsExchanges := tsExchanges st @ [(params, raw)]\<rparr>))))"
  by pat_completeness auto
termination
  by (relation "measure (\<lambda>(sv, base, p, st). maxAutoPaginatePages - tsPages st)") (auto simp: token_page_def Let_def)

declare token_loop.simps [simp del]

definition token_meta :: "'f service \<Rightarrow> 'f value_map \<Rightarrow> 'f token_state \<Rightarrow> 'f value_map" where
  "token_meta sv merged st =
     [(''auto_paginated'', VBool True), (''pages_merged'', VInt (int (tsPages st))),
      (''total_items'', VInt (int (getListLength (iterated sv 0) merged)))] @
     (if tsLast st \<noteq> [] then [(''truncated'', VBool True), (''next_page_token'', VString (tsLast st))] else []) @
     (if tsStopped st \<noteq> [] then [(''stopped_reason'', VString (tsStopped st))] else [])"

text \<open>A result is the payload, the metadata when the pages were merged, and the exchanges.\<close>

type_synonym 'f paged = "'f value_map \<times> 'f value_map option \<times> ('f value_map \<times> 'f any) list"

definition start_tokens :: "'f value_map \<Rightarrow> 'f token_state" where
  "start_tokens firstData =
     \<lparr>tsMerged = firstData, tsPages = 1, tsToken = getString firstData ''next_page_token'', tsLast = [], tsStreak = 0,
      tsStopped = [], tsExchanges = []\<rparr>"

definition paginateByToken ::
    "'f service \<Rightarrow> 'f value_map \<Rightarrow> 'f value_map \<Rightarrow> string \<Rightarrow> (page_error, 'f paged) result" where
  "paginateByToken sv base firstData tokenParam =
     (if getString firstData ''next_page_token'' = [] then Inr (firstData, None, [])
      else
        (case token_loop sv base tokenParam (start_tokens firstData) of
           Inl e \<Rightarrow> Inl e
         | Inr st \<Rightarrow>
             (let merged = AList.delete ''next_page_token'' (tsMerged st) in
              Inr (merged, Some (token_meta sv merged st), tsExchanges st))))"

section \<open>By page number\<close>

record 'f page_state =
  psMerged :: "'f value_map"
  psPages :: nat
  psCurrent :: int
  psTruncated :: bool
  psStreak :: nat
  psStopped :: string
  psExchanges :: "('f value_map \<times> 'f any) list"

definition page_has_more :: "'f value_map \<Rightarrow> bool" where
  "page_has_more pageData =
     (case map_of pageData ''pagination'' of
        Some (VMap pg) \<Rightarrow> (case map_of pg ''has_more'' of Some (VBool b) \<Rightarrow> b | _ \<Rightarrow> False)
      | _ \<Rightarrow> False)"

text \<open>The page after the number was advanced: merged, and with the streak counted when there are more.\<close>

definition number_page ::
    "'f service \<Rightarrow> int \<Rightarrow> 'f value_map \<Rightarrow> 'f any \<Rightarrow> 'f value_map \<Rightarrow> 'f page_state \<Rightarrow> 'f page_state" where
  "number_page sv page params raw pageData st =
     (let merged = mergePayloads (psMerged st) pageData;
          st' = st\<lparr>psMerged := merged, psPages := Suc (psPages st), psCurrent := page,
                   psExchanges := psExchanges st @ [(params, raw)]\<rparr>
      in if \<not> page_has_more pageData then st'
         else
           (let beforeLen = getListLength (iterated sv (3 * psPages st)) (psMerged st);
                afterLen = getListLength (iterated sv (3 * psPages st + 1)) merged;
                streak = (if afterLen = beforeLen then Suc (psStreak st) else 0)
            in st'\<lparr>psStreak := streak,
                   psStopped := (if streak \<ge> maxEmptyPageStreak then ''consecutive_empty_pages'' else psStopped st)\<rparr>))"

function number_loop ::
    "'f service \<Rightarrow> 'f value_map \<Rightarrow> int \<Rightarrow> 'f page_state \<Rightarrow> (page_error, 'f page_state) result" where
  "number_loop sv base expected st =
     (if psPages st \<ge> maxAutoPaginatePages then Inr (st\<lparr>psTruncated := True\<rparr>)
      else if expected > 0 \<and> int (getListLength (iterated sv (3 * psPages st + 2)) (psMerged st)) \<ge> expected then Inr st
      else
        (case incrementInt (psCurrent st) of
           None \<Rightarrow> Inl PageNumOverflow
         | Some page \<Rightarrow>
             (let params = withParam base ''page_num'' (VInt page) in
              case answer sv (length (psExchanges st)) params of
                Inl e \<Rightarrow> Inl (PageCallFailed e)
              | Inr data \<Rightarrow>
                  (case reshape sv data of
                     VMap pageData \<Rightarrow>
                       (let st' = number_page sv page params (VMap pageData) pageData st in
                        if \<not> page_has_more pageData \<or> psStreak st' \<ge> maxEmptyPageStreak then Inr st'
                        else number_loop sv base expected st')
                   | raw \<Rightarrow> Inr (st\<lparr>psCurrent := page, psExchanges := psExchanges st @ [(params, raw)]\<rparr>)))))"
  by pat_completeness auto
termination
  by (relation "measure (\<lambda>(sv, base, expected, st). maxAutoPaginatePages - psPages st)") (auto simp: number_page_def Let_def)

declare number_loop.simps [simp del]

definition flatten_total :: "'f float_ops \<Rightarrow> 'f value_map \<Rightarrow> 'f value_map" where
  "flatten_total fl merged =
     (case map_of merged ''pagination'' of
        Some (VMap pg) \<Rightarrow>
          AList.delete ''pagination''
            (if map_of merged ''total'' \<noteq> None then merged
             else (case map_of pg ''total'' of
                     Some rawTotal \<Rightarrow> (if isPositiveInteger fl rawTotal then AList.update ''total'' rawTotal merged else merged)
                   | None \<Rightarrow> merged))
      | _ \<Rightarrow> merged)"

definition number_meta :: "'f service \<Rightarrow> 'f value_map \<Rightarrow> 'f page_state \<Rightarrow> 'f value_map" where
  "number_meta sv merged st =
     (let m0 = [(''auto_paginated'', VBool True), (''pages_merged'', VInt (int (psPages st))),
                (''total_items'', VInt (int (getListLength (iterated sv 0) merged)))];
          m1 = (if psTruncated st then
                  (let m = AList.update ''truncated'' (VBool True) m0 in
                   case incrementInt (psCurrent st) of
                     Some nextPage \<Rightarrow> AList.update ''next_page_num'' (VInt nextPage) m
                   | None \<Rightarrow> AList.update ''stopped_reason'' (VString ''page_number_range_exhausted'') m)
                else m0)
      in if psStopped st \<noteq> [] then AList.update ''stopped_reason'' (VString (psStopped st)) m1 else m1)"

definition start_page :: "'f float_ops \<Rightarrow> 'f value_map \<Rightarrow> int option" where
  "start_page fl base =
     (case map_of base ''page_num'' of
        None \<Rightarrow> Some 1
      | Some raw \<Rightarrow> (case toInt fl raw of None \<Rightarrow> None | Some n \<Rightarrow> (if n < 1 then None else Some n)))"

definition start_numbers :: "'f value_map \<Rightarrow> int \<Rightarrow> 'f page_state" where
  "start_numbers firstData page =
     \<lparr>psMerged = firstData, psPages = 1, psCurrent = page, psTruncated = False, psStreak = 0, psStopped = [],
      psExchanges = []\<rparr>"

definition stated_total :: "'f float_ops \<Rightarrow> 'f value_map \<Rightarrow> 'f value_map \<Rightarrow> int" where
  "stated_total fl pagination firstData =
     (let expected = toInt64 fl (map_of pagination ''total'') in
      if expected = 0 then toInt64 fl (map_of firstData ''total'') else expected)"

definition paginateByPageNum ::
    "'f float_ops \<Rightarrow> 'f service \<Rightarrow> 'f value_map \<Rightarrow> 'f value_map \<Rightarrow> bool \<Rightarrow> (page_error, 'f paged) result" where
  "paginateByPageNum fl sv base firstData declared =
     (case map_of firstData ''pagination'' of
        Some (VMap pagination) \<Rightarrow>
          (if \<not> page_has_more firstData \<or> \<not> declared then Inr (firstData, None, [])
           else
             (case start_page fl base of
                None \<Rightarrow> Inl PageNumInvalid
              | Some startPage \<Rightarrow>
                  (case number_loop sv base (stated_total fl pagination firstData) (start_numbers firstData startPage) of
                     Inl e \<Rightarrow> Inl e
                   | Inr st \<Rightarrow>
                       (let merged = flatten_total fl (psMerged st) in
                        Inr (merged, Some (number_meta sv merged st), psExchanges st)))))
      | _ \<Rightarrow> Inr (firstData, None, []))"

section \<open>The step\<close>

definition isAutoPaginateFlag :: "'f ParsedCommand \<Rightarrow> bool" where
  "isAutoPaginateFlag c = (case map_of (Flags c) ''auto-paginate'' of Some (VBool b) \<Rightarrow> b | _ \<Rightarrow> False)"

datatype step_failure = ParamFailure param_error | PageFailure page_error | NodeMissing

text \<open>Commands that run their calls themselves are left alone.\<close>

definition paginates :: "'f ParsedCommand \<Rightarrow> bool" where
  "paginates c =
     (isAutoPaginateFlag c \<and>
      (case cmdNode c of
         None \<Rightarrow> True
       | Some n \<Rightarrow>
           tag n ''mcp_batch'' \<noteq> Some ''1'' \<and>
           (case tag n ''mcp_attachment_shortcut'' of None \<Rightarrow> True | Some kind \<Rightarrow> kind = [])))"

definition token_or_number ::
    "(string \<Rightarrow> json option) \<Rightarrow> 'f float_ops \<Rightarrow> 'f service \<Rightarrow> 'f ParsedCommand \<Rightarrow> 'f value_map \<Rightarrow> 'f value_map \<Rightarrow>
     (page_error, 'f paged) result" where
  "token_or_number decode fl sv c base firstData =
     (let sv' = sv\<lparr>reshape := transformed (FullPath c)\<rparr> in
      case paginateByToken sv' base firstData (resolveTokenParamName decode c) of
        Inl e \<Rightarrow> Inl e
      | Inr (merged, Some meta, exchanges) \<Rightarrow> Inr (merged, Some meta, exchanges)
      | Inr (merged, None, exchanges) \<Rightarrow>
          paginateByPageNum fl sv' base firstData (hasParamInMetadata decode c ''page_num''))"

text \<open>The data and the metadata of the result afterwards, and the exchanges.\<close>

definition AutoPaginateStep ::
    "(string \<Rightarrow> json option) \<Rightarrow> 'f float_ops \<Rightarrow> 'f service \<Rightarrow> 'f ParsedCommand \<Rightarrow> 'f value_map option \<Rightarrow>
     'f any \<Rightarrow> 'f value_map \<Rightarrow>
     (step_failure, 'f any \<times> 'f value_map \<times> ('f value_map \<times> 'f any) list) result" where
  "AutoPaginateStep decode fl sv c vals data metadata =
     (if \<not> paginates c then Inr (data, metadata, [])
      else
        (case data of
           VMap firstData \<Rightarrow>
             (case cmdNode c of
                None \<Rightarrow> Inl NodeMissing
              | Some n \<Rightarrow>
                  (case buildSnakeParams decode (floatG fl) c vals of
                     Inl e \<Rightarrow> Inl (ParamFailure e)
                   | Inr base \<Rightarrow>
                       (case token_or_number decode fl sv c base firstData of
                          Inl e \<Rightarrow> Inl (PageFailure e)
                        | Inr (merged, None, exchanges) \<Rightarrow> Inr (data, metadata, exchanges)
                        | Inr (merged, Some meta, exchanges) \<Rightarrow> Inr (VMap merged, put_all meta metadata, exchanges))))
         | _ \<Rightarrow> Inr (data, metadata, [])))"

section \<open>What merging does\<close>

definition list_items :: "'f value_map \<Rightarrow> string \<Rightarrow> 'f any list" where
  "list_items m k = (case list_at m k of None \<Rightarrow> [] | Some xs \<Rightarrow> xs)"

text \<open>Field \<open>k\<close> of a page is an array if it is there at all; the page is a Go map.\<close>

definition array_page :: "string \<Rightarrow> 'f value_map \<Rightarrow> bool" where
  "array_page k m = (distinct (map fst m) \<and> (case map_of m k of None \<Rightarrow> True | Some v \<Rightarrow> is_array v))"

lemma mergePayloads_map:
  "distinct (map fst next) \<Longrightarrow>
   map_of (mergePayloads base next) k =
     (case map_of next k of
        None \<Rightarrow> map_of base k
      | Some v \<Rightarrow> Some (case map_of base k of None \<Rightarrow> v | Some existing \<Rightarrow> merge_value existing v))"
proof (induction "next" arbitrary: base)
  case (Cons e rest)
  obtain k' v where e: "e = (k', v)" by (cases e)
  from Cons.prems e have "map_of rest k' = None" by (simp add: map_of_eq_None_iff)
  with Cons e show ?case by (auto simp: update_conv' split: option.splits)
qed simp

lemma mergePayloads_distinct: "distinct (map fst base) \<Longrightarrow> distinct (map fst (mergePayloads base next))"
  by (induction base "next" rule: mergePayloads.induct) (auto simp: distinct_update)

lemma array_page_cases:
  assumes "array_page k m"
  obtains "map_of m k = None" "list_at m k = None" | xs where "map_of m k = Some (VList xs)" "list_at m k = Some xs"
proof (cases "map_of m k")
  case None
  then show ?thesis using that(1) by (simp add: list_at_def)
next
  case (Some v)
  then obtain xs where "v = VList xs" using assms by (cases v) (simp_all add: array_page_def is_array_def)
  then show ?thesis using that(2)[of xs] Some by (simp add: list_at_def)
qed

lemma merge_items:
  assumes base: "array_page k base" and page: "array_page k page"
  shows "array_page k (mergePayloads base page) \<and>
    list_items (mergePayloads base page) k = list_items base k @ list_items page k"
proof -
  have d: "distinct (map fst (mergePayloads base page))"
    using base by (simp add: array_page_def mergePayloads_distinct)
  have m: "map_of (mergePayloads base page) k =
     (case map_of page k of
        None \<Rightarrow> map_of base k
      | Some v \<Rightarrow> Some (case map_of base k of None \<Rightarrow> v | Some existing \<Rightarrow> merge_value existing v))"
    using page by (intro mergePayloads_map) (simp add: array_page_def)
  show ?thesis
  proof (rule array_page_cases[OF base]; rule array_page_cases[OF page])
  qed (use d m in \<open>auto simp: array_page_def list_items_def list_at_def is_array_def merge_value_def\<close>)
qed

lemma merge_all_items:
  "list_all (array_page k) (first # pages) \<Longrightarrow>
   list_items (foldl mergePayloads first pages) k = concat (map (\<lambda>p. list_items p k) (first # pages))"
proof (induction pages arbitrary: first)
  case (Cons page pages)
  from Cons.prems merge_items[of k first page]
  have m: "array_page k (mergePayloads first page)" "list_items (mergePayloads first page) k = list_items first k @ list_items page k"
    by auto
  show ?case using Cons.IH[of "mergePayloads first page"] Cons.prems m by simp
qed simp

section \<open>The cursor\<close>

fun cursor_chain :: "'f value_map \<Rightarrow> string \<Rightarrow> 'f value_map \<Rightarrow> ('f value_map \<times> 'f any) list \<Rightarrow> bool" where
  "cursor_chain base tokenParam page [] = True"
| "cursor_chain base tokenParam page ((params, raw) # exchanges) =
     (getString page ''next_page_token'' \<noteq> [] \<and>
      params = withParam base tokenParam (VString (getString page ''next_page_token'')) \<and>
      (case raw of VMap page' \<Rightarrow> cursor_chain base tokenParam page' exchanges | _ \<Rightarrow> exchanges = []))"

definition page_in :: "'f value_map \<times> 'f any \<Rightarrow> 'f value_map list" where
  "page_in ex = (case snd ex of VMap m \<Rightarrow> [m] | _ \<Rightarrow> [])"

definition pages_in :: "('f value_map \<times> 'f any) list \<Rightarrow> 'f value_map list" where
  "pages_in exchanges = concat (map page_in exchanges)"

definition all_objects :: "('f value_map \<times> 'f any) list \<Rightarrow> bool" where
  "all_objects exchanges = list_all (\<lambda>ex. case snd ex of VMap _ \<Rightarrow> True | _ \<Rightarrow> False) exchanges"

definition last_page :: "'f value_map \<Rightarrow> ('f value_map \<times> 'f any) list \<Rightarrow> 'f value_map" where
  "last_page first exchanges = List.last (first # pages_in exchanges)"

lemma pages_in_snoc [simp]: "pages_in (xs @ [x]) = pages_in xs @ page_in x"
  by (simp add: pages_in_def)

lemma pages_in_Nil [simp]: "pages_in [] = []" by (simp add: pages_in_def)

lemma all_objects_snoc [simp]:
  "all_objects (xs @ [x]) = (all_objects xs \<and> (case snd x of VMap _ \<Rightarrow> True | _ \<Rightarrow> False))"
  by (simp add: all_objects_def)

lemma all_objects_Nil [simp]: "all_objects []" by (simp add: all_objects_def)

lemma pages_in_length: "length (pages_in xs) \<le> length xs \<and> (length (pages_in xs) = length xs \<longleftrightarrow> all_objects xs)"
  by (induction xs) (auto simp: pages_in_def all_objects_def page_in_def split: any.splits)

lemma pages_in_Cons: "pages_in (x # xs) = page_in x @ pages_in xs" by (simp add: pages_in_def)

lemma last_page_object [simp]: "last_page first (xs @ [(p, VMap m)]) = m"
  by (simp add: last_page_def page_in_def)

lemma last_page_Nil [simp]: "last_page first [] = first" by (simp add: last_page_def)

lemma last_page_Cons: "last_page first ((p, VMap m) # xs) = last_page m xs"
  by (simp add: last_page_def pages_in_Cons page_in_def)

lemma cursor_chain_snoc:
  "all_objects exs \<Longrightarrow> cursor_chain base tp first exs \<Longrightarrow>
   getString (last_page first exs) ''next_page_token'' \<noteq> [] \<Longrightarrow>
   cursor_chain base tp first
     (exs @ [(withParam base tp (VString (getString (last_page first exs) ''next_page_token'')), raw)])"
proof (induction exs arbitrary: first)
  case Nil
  then show ?case by (cases raw) simp_all
next
  case (Cons ex exs)
  obtain p m where ex: "ex = (p, VMap m)" using Cons.prems(1) by (cases ex) (auto simp: all_objects_def split: any.splits)
  have "all_objects exs" using Cons.prems(1) by (simp add: all_objects_def)
  with Cons ex show ?case by (simp add: last_page_Cons)
qed

definition token_inv :: "'f value_map \<Rightarrow> string \<Rightarrow> 'f value_map \<Rightarrow> 'f token_state \<Rightarrow> bool" where
  "token_inv base tp first st =
     (cursor_chain base tp first (tsExchanges st) \<and> all_objects (tsExchanges st) \<and>
      tsMerged st = foldl mergePayloads first (pages_in (tsExchanges st)) \<and>
      tsToken st = getString (last_page first (tsExchanges st)) ''next_page_token'' \<and>
      tsPages st = Suc (length (tsExchanges st)) \<and> tsPages st \<le> maxAutoPaginatePages \<and>
      tsLast st = [] \<and> tsStopped st = [])"

text \<open>How the loop may end.\<close>

definition token_end :: "'f value_map \<Rightarrow> 'f token_state \<Rightarrow> bool" where
  "token_end first st =
     (let cursor = getString (last_page first (tsExchanges st)) ''next_page_token'' in
      if tsLast st \<noteq> [] then
        tsLast st = cursor \<and> tsPages st = maxAutoPaginatePages \<and> all_objects (tsExchanges st) \<and> tsStopped st = []
      else if tsStopped st \<noteq> [] then tsStopped st = ''consecutive_empty_pages'' \<and> all_objects (tsExchanges st)
      else cursor = [] \<or> \<not> all_objects (tsExchanges st))"

definition token_post :: "'f value_map \<Rightarrow> string \<Rightarrow> 'f value_map \<Rightarrow> 'f token_state \<Rightarrow> bool" where
  "token_post base tp first st =
     (cursor_chain base tp first (tsExchanges st) \<and>
      tsMerged st = foldl mergePayloads first (pages_in (tsExchanges st)) \<and>
      tsPages st = Suc (length (tsExchanges st)) \<and> tsPages st \<le> maxAutoPaginatePages \<and> token_end first st)"

lemma token_page_fields:
  "tsExchanges (token_page sv params raw page st) = tsExchanges st @ [(params, raw)]"
  "tsMerged (token_page sv params raw page st) = mergePayloads (tsMerged st) page"
  "tsToken (token_page sv params raw page st) = getString page ''next_page_token''"
  "tsPages (token_page sv params raw page st) = Suc (tsPages st)"
  "tsLast (token_page sv params raw page st) = tsLast st"
  "tsStopped (token_page sv params raw page st) =
     (if tsStreak (token_page sv params raw page st) \<ge> maxEmptyPageStreak then ''consecutive_empty_pages'' else tsStopped st)"
  by (simp_all add: token_page_def Let_def)

lemma token_loop_post:
  "token_inv base tp first st \<Longrightarrow> token_loop sv base tp st = Inr st' \<Longrightarrow> token_post base tp first st'"
proof (induction sv base tp st rule: token_loop.induct)
  case (1 sv base tp st)
  note inv = 1(2)[unfolded token_inv_def]
  let ?params = "withParam base tp (VString (tsToken st))"
  show ?case
  proof (cases "tsToken st = [] \<or> tsPages st \<ge> maxAutoPaginatePages")
    case True
    then show ?thesis using 1(3) inv
      by (auto simp: token_loop.simps[of sv base tp st] token_post_def token_end_def Let_def split: if_splits)
  next
    case False
    then have go: "tsToken st \<noteq> []" "\<not> tsPages st \<ge> maxAutoPaginatePages" by simp_all
    note run = 1(3)[unfolded token_loop.simps[of sv base tp st] if_not_P[OF go(1)] if_not_P[OF go(2)] Let_def]
    from run obtain data where data: "answer sv (length (tsExchanges st)) ?params = Inr data"
      by (auto split: sum.splits)
    have chain: "cursor_chain base tp first (tsExchanges st @ [(?params, raw)])" for raw
      using cursor_chain_snoc[of "tsExchanges st" base tp first raw] inv go(1) by simp
    show ?thesis
    proof (cases "\<exists>page. reshape sv data = VMap page")
      case True
      then obtain page where page: "reshape sv data = VMap page" by blast
      define st1 where "st1 = token_page sv ?params (VMap page) page st"
      note f = token_page_fields[of sv ?params "VMap page" page st, folded st1_def]
      have end1: "(if tsStreak st1 \<ge> maxEmptyPageStreak then Inr st1 else token_loop sv base tp st1) = Inr st'"
        using run by (simp only: data page sum.case any.case st1_def)
      show ?thesis
      proof (cases "tsStreak st1 \<ge> maxEmptyPageStreak")
        case True
        with end1 have "st' = st1" by simp
        then show ?thesis using inv chain[of "VMap page"] go(2) True
          by (simp add: token_post_def token_end_def f Let_def page_in_def)
      next
        case False
        have "token_inv base tp first st1" using inv chain[of "VMap page"] go(2) False
          by (simp add: token_inv_def f page_in_def)
        moreover have "token_loop sv base tp st1 = Inr st'" using end1 False by simp
        ultimately show ?thesis using 1(1)[OF go refl data page refl] False by (simp add: st1_def)
      qed
    next
      case False
      then have none: "page_in (?params, reshape sv data) = []" "\<not> (case reshape sv data of VMap _ \<Rightarrow> True | _ \<Rightarrow> False)"
        by (auto simp: page_in_def split: any.splits)
      have "st' = st\<lparr>tsPages := Suc (tsPages st), tsExchanges := tsExchanges st @ [(?params, reshape sv data)]\<rparr>"
        using run False by (simp add: data split: any.splits)
      then show ?thesis using inv chain[of "reshape sv data"] go(2) none
        by (simp add: token_post_def token_end_def Let_def)
    qed
  qed
qed

text \<open>
  Pagination by cursor.  The first follow-up call carries the cursor of the first page and each later
  one the cursor of the page before it; there are fewer than 200 of them.  The merged payload has no cursor, and each of its
  array fields is the concatenation of that field over the pages, in order, nothing lost and nothing
  repeated.  When neither truncation nor a stop is reported, the last page has no cursor, or the last
  reply was no object; a reported truncation comes with the cursor to continue from.
\<close>

lemma pages_by_token:
  assumes "paginateByToken sv base first tokenParam = Inr (merged, Some meta, exchanges)"
  shows "cursor_chain base tokenParam first exchanges \<and> length exchanges < maxAutoPaginatePages \<and>
    map_of meta ''pages_merged'' = Some (VInt (int (Suc (length exchanges)))) \<and>
    map_of merged ''next_page_token'' = None \<and>
    (list_all (array_page k) (first # pages_in exchanges) \<and> k \<noteq> ''next_page_token'' \<longrightarrow>
       list_items merged k = concat (map (\<lambda>p. list_items p k) (first # pages_in exchanges))) \<and>
    (case map_of meta ''truncated'' of
       Some _ \<Rightarrow>
         length exchanges = maxAutoPaginatePages - 1 \<and>
         map_of meta ''next_page_token'' = Some (VString (getString (last_page first exchanges) ''next_page_token''))
     | None \<Rightarrow>
         map_of meta ''stopped_reason'' = None \<longrightarrow>
           getString (last_page first exchanges) ''next_page_token'' = [] \<or> \<not> all_objects exchanges)"
proof -
  from assms obtain st where run: "token_loop sv base tokenParam (start_tokens first) = Inr st"
    and nonempty: "getString first ''next_page_token'' \<noteq> []"
    and merged: "merged = AList.delete ''next_page_token'' (tsMerged st)"
    and meta: "meta = token_meta sv merged st" and exs: "exchanges = tsExchanges st"
    by (auto simp: paginateByToken_def Let_def split: if_splits sum.splits)
  have "token_inv base tokenParam first (start_tokens first)"
    by (simp add: token_inv_def start_tokens_def maxAutoPaginatePages_def)
  from token_loop_post[OF this run] have post: "token_post base tokenParam first st" .
  have items: "list_items merged k = list_items (tsMerged st) k" if "k \<noteq> ''next_page_token''"
    using that by (simp add: merged list_items_def list_at_def delete_conv')
  have metas: "map_of meta ''pages_merged'' = Some (VInt (int (tsPages st)))"
    "map_of meta ''truncated'' = (if tsLast st \<noteq> [] then Some (VBool True) else None)"
    "map_of meta ''next_page_token'' = (if tsLast st \<noteq> [] then Some (VString (tsLast st)) else None)"
    "map_of meta ''stopped_reason'' = (if tsStopped st \<noteq> [] then Some (VString (tsStopped st)) else None)"
    by (simp_all add: meta token_meta_def)
  have "map_of merged ''next_page_token'' = None" by (simp add: merged delete_conv')
  moreover have "list_items merged k = concat (map (\<lambda>p. list_items p k) (first # pages_in exchanges))"
    if "list_all (array_page k) (first # pages_in exchanges)" "k \<noteq> ''next_page_token''"
    using merge_all_items[OF that(1)] items[OF that(2)] post by (simp add: token_post_def exs)
  moreover have "tsPages st = Suc (length exchanges)" "tsPages st \<le> maxAutoPaginatePages"
    using post by (simp_all add: token_post_def exs)
  moreover have "token_end first st" "cursor_chain base tokenParam first exchanges"
    using post by (simp_all add: token_post_def exs)
  ultimately show ?thesis
    unfolding metas token_end_def Let_def exs by (auto split: if_splits)
qed

text \<open>An error of the pagination is an error of one of its calls.\<close>

lemma token_loop_error: "token_loop sv base tp st = Inl e \<Longrightarrow> \<exists>i params c. answer sv i params = Inl c \<and> e = PageCallFailed c"
proof (induction sv base tp st rule: token_loop.induct)
  case (1 sv base tp st)
  from 1(2) have go: "tsToken st \<noteq> []" "\<not> tsPages st \<ge> maxAutoPaginatePages"
    by (auto simp: token_loop.simps[of sv base tp st] split: if_splits)
  note run = 1(2)[unfolded token_loop.simps[of sv base tp st] if_not_P[OF go(1)] if_not_P[OF go(2)] Let_def]
  show ?case
  proof (cases "answer sv (length (tsExchanges st)) (withParam base tp (VString (tsToken st)))")
    case (Inl c)
    then show ?thesis using run by auto
  next
    case (Inr data)
    show ?thesis
    proof (cases "\<exists>page. reshape sv data = VMap page")
      case True
      then obtain page where page: "reshape sv data = VMap page" by blast
      show ?thesis using run 1(1)[OF go refl Inr page refl] by (auto simp: Inr page split: if_splits)
    next
      case False
      then show ?thesis using run by (simp add: Inr split: any.splits)
    qed
  qed
qed

section \<open>The page number\<close>

fun number_chain :: "'f value_map \<Rightarrow> int \<Rightarrow> ('f value_map \<times> 'f any) list \<Rightarrow> bool" where
  "number_chain base page [] = True"
| "number_chain base page ((params, raw) # exchanges) =
     (params = withParam base ''page_num'' (VInt (page + 1)) \<and>
      (case raw of
         VMap m \<Rightarrow> (if page_has_more m then number_chain base (page + 1) exchanges else exchanges = [])
       | _ \<Rightarrow> exchanges = []))"

definition all_continue :: "('f value_map \<times> 'f any) list \<Rightarrow> bool" where
  "all_continue exchanges = list_all (\<lambda>ex. case snd ex of VMap m \<Rightarrow> page_has_more m | _ \<Rightarrow> False) exchanges"

lemma all_continue_simps [simp]:
  "all_continue []"
  "all_continue (x # xs) = ((case snd x of VMap m \<Rightarrow> page_has_more m | _ \<Rightarrow> False) \<and> all_continue xs)"
  "all_continue (xs @ [x]) = (all_continue xs \<and> (case snd x of VMap m \<Rightarrow> page_has_more m | _ \<Rightarrow> False))"
  by (simp_all add: all_continue_def)

lemma all_continue_objects: "all_continue xs \<Longrightarrow> all_objects xs"
  by (induction xs) (auto simp: all_objects_def split: any.splits)

lemma number_chain_snoc:
  "all_continue exs \<Longrightarrow> number_chain base page exs \<Longrightarrow>
   number_chain base page (exs @ [(withParam base ''page_num'' (VInt (page + int (length exs) + 1)), raw)])"
proof (induction exs arbitrary: page)
  case Nil
  then show ?case by (cases raw) simp_all
next
  case (Cons ex exs)
  obtain p m where ex: "ex = (p, VMap m)" "page_has_more m" "all_continue exs"
    using Cons.prems(1) by (cases ex) (auto split: any.splits)
  with Cons.prems(2) Cons.IH[of "page + 1"] show ?case by (simp add: algebra_simps)
qed

definition number_inv :: "'f value_map \<Rightarrow> int \<Rightarrow> 'f value_map \<Rightarrow> 'f page_state \<Rightarrow> bool" where
  "number_inv base start first st =
     (number_chain base start (psExchanges st) \<and> all_continue (psExchanges st) \<and>
      psMerged st = foldl mergePayloads first (pages_in (psExchanges st)) \<and>
      psCurrent st = start + int (length (psExchanges st)) \<and>
      psPages st = Suc (length (psExchanges st)) \<and> psPages st \<le> maxAutoPaginatePages \<and>
      \<not> psTruncated st \<and> psStopped st = [])"

definition number_end :: "int \<Rightarrow> int \<Rightarrow> 'f page_state \<Rightarrow> bool" where
  "number_end start expected st =
     (if psTruncated st then
        psPages st = maxAutoPaginatePages \<and> all_continue (psExchanges st) \<and> psStopped st = [] \<and>
        psCurrent st = start + int (length (psExchanges st))
      else if psStopped st \<noteq> [] then psStopped st = ''consecutive_empty_pages'' \<and> all_continue (psExchanges st)
      else \<not> all_continue (psExchanges st) \<or> (\<exists>pick. 0 < expected \<and> expected \<le> int (getListLength pick (psMerged st))))"

definition number_post :: "'f value_map \<Rightarrow> int \<Rightarrow> 'f value_map \<Rightarrow> int \<Rightarrow> 'f page_state \<Rightarrow> bool" where
  "number_post base start first expected st =
     (number_chain base start (psExchanges st) \<and>
      psMerged st = foldl mergePayloads first (pages_in (psExchanges st)) \<and>
      psPages st = Suc (length (pages_in (psExchanges st))) \<and> psPages st \<le> maxAutoPaginatePages \<and>
      length (psExchanges st) < maxAutoPaginatePages \<and> number_end start expected st)"

lemma number_page_fields:
  "psExchanges (number_page sv n params raw page st) = psExchanges st @ [(params, raw)]"
  "psMerged (number_page sv n params raw page st) = mergePayloads (psMerged st) page"
  "psCurrent (number_page sv n params raw page st) = n"
  "psPages (number_page sv n params raw page st) = Suc (psPages st)"
  "psTruncated (number_page sv n params raw page st) = psTruncated st"
  "psStopped (number_page sv n params raw page st) =
     (if page_has_more page \<and> psStreak (number_page sv n params raw page st) \<ge> maxEmptyPageStreak
      then ''consecutive_empty_pages'' else psStopped st)"
  by (simp_all add: number_page_def Let_def)

lemma number_loop_post:
  "number_inv base start first st \<Longrightarrow> number_loop sv base expected st = Inr st' \<Longrightarrow> number_post base start first expected st'"
proof (induction sv base expected st rule: number_loop.induct)
  case (1 sv base expected st)
  note inv = 1(2)[unfolded number_inv_def]
  have len: "length (pages_in (psExchanges st)) = length (psExchanges st)"
    using pages_in_length[of "psExchanges st"] all_continue_objects[of "psExchanges st"] inv by blast
  let ?reached = "expected > 0 \<and> int (getListLength (iterated sv (3 * psPages st + 2)) (psMerged st)) \<ge> expected"
  show ?case
  proof (cases "psPages st \<ge> maxAutoPaginatePages \<or> ?reached")
    case True
    then show ?thesis using 1(3) inv len
      by (auto simp: number_loop.simps[of sv base expected st] number_post_def number_end_def Let_def split: if_splits)
  next
    case False
    then have go: "\<not> psPages st \<ge> maxAutoPaginatePages" "\<not> ?reached" by simp_all
    note run0 = 1(3)[unfolded number_loop.simps[of sv base expected st] if_not_P[OF go(1)] if_not_P[OF go(2)] Let_def]
    then obtain n where n: "incrementInt (psCurrent st) = Some n" by (cases "incrementInt (psCurrent st)") simp_all
    then have n': "n = start + int (length (psExchanges st)) + 1" using inv by (simp add: incrementInt_def split: if_splits)
    let ?params = "withParam base ''page_num'' (VInt n)"
    note run = run0[unfolded n option.case Let_def]
    from run obtain data where data: "answer sv (length (psExchanges st)) ?params = Inr data"
      by (auto split: sum.splits)
    have chain: "number_chain base start (psExchanges st @ [(?params, raw)])" for raw
      using number_chain_snoc[of "psExchanges st" base start raw] inv by (simp add: n')
    show ?thesis
    proof (cases "\<exists>page. reshape sv data = VMap page")
      case True
      then obtain page where page: "reshape sv data = VMap page" by blast
      define st1 where "st1 = number_page sv n ?params (VMap page) page st"
      note f = number_page_fields[of sv n ?params "VMap page" page st, folded st1_def]
      let ?stop = "\<not> page_has_more page \<or> psStreak st1 \<ge> maxEmptyPageStreak"
      have end1: "(if ?stop then Inr st1 else number_loop sv base expected st1) = Inr st'"
        using run by (simp only: data page sum.case any.case st1_def)
      show ?thesis
      proof (cases ?stop)
        case True
        with end1 have "st' = st1" by simp
        then show ?thesis using inv len chain[of "VMap page"] go(1) True
          by (auto simp: number_post_def number_end_def f page_in_def)
      next
        case False
        have "number_inv base start first st1" using inv chain[of "VMap page"] go(1) False n'
          by (simp add: number_inv_def f page_in_def)
        moreover have "number_loop sv base expected st1 = Inr st'" using end1 False by simp
        ultimately show ?thesis using 1(1)[OF go n refl data page refl] False by (simp add: st1_def)
      qed
    next
      case False
      then have none: "page_in (?params, reshape sv data) = []" "\<not> (case reshape sv data of VMap m \<Rightarrow> page_has_more m | _ \<Rightarrow> False)"
        by (auto simp: page_in_def split: any.splits)
      have "st' = st\<lparr>psCurrent := n, psExchanges := psExchanges st @ [(?params, reshape sv data)]\<rparr>"
        using run False by (simp add: data split: any.splits)
      then show ?thesis using inv len chain[of "reshape sv data"] go(1) none
        by (simp add: number_post_def number_end_def)
    qed
  qed
qed

text \<open>
  Pagination by page number.  The follow-up calls ask for the pages after the first one, one by one;
  there are fewer than 200 of them and none after a page without more pages.  Each array field but
  \<open>pagination\<close> and \<open>total\<close> is the concatenation of that field over the pages, in order.  When neither
  truncation nor a stop is reported, there are no more pages, a reply was no object, or the stated
  total has been reached; a reported truncation comes with the next page number, if it is in range.
\<close>

lemma pages_by_number:
  assumes "paginateByPageNum fl sv base first declared = Inr (merged, Some meta, exchanges)"
  shows "\<exists>start. start_page fl base = Some start \<and> number_chain base start exchanges \<and>
    length exchanges < maxAutoPaginatePages \<and>
    map_of meta ''pages_merged'' = Some (VInt (int (Suc (length (pages_in exchanges))))) \<and>
    (list_all (array_page k) (first # pages_in exchanges) \<and> k \<noteq> ''pagination'' \<and> k \<noteq> ''total'' \<longrightarrow>
       list_items merged k = concat (map (\<lambda>p. list_items p k) (first # pages_in exchanges))) \<and>
    (case map_of meta ''truncated'' of
       Some _ \<Rightarrow>
         length exchanges = maxAutoPaginatePages - 1 \<and>
         map_of meta ''next_page_num'' = map_option VInt (incrementInt (start + int (length exchanges)))
     | None \<Rightarrow>
         map_of meta ''stopped_reason'' = None \<longrightarrow>
           \<not> all_continue exchanges \<or>
           (\<exists>pick expected. 0 < expected \<and>
              expected \<le> int (getListLength pick (foldl mergePayloads first (pages_in exchanges)))))"
proof -
  from assms obtain pg start st where start: "start_page fl base = Some start"
    and run: "number_loop sv base (stated_total fl pg first) (start_numbers first start) = Inr st"
    and merged: "merged = flatten_total fl (psMerged st)"
    and meta: "meta = number_meta sv merged st" and exs: "exchanges = psExchanges st"
    by (auto simp: paginateByPageNum_def Let_def split: option.splits any.splits if_splits sum.splits)
  have "number_inv base start first (start_numbers first start)"
    by (simp add: number_inv_def start_numbers_def maxAutoPaginatePages_def)
  from number_loop_post[OF this run] have post: "number_post base start first (stated_total fl pg first) st" .
  have other: "map_of merged k = map_of (psMerged st) k" if "k \<noteq> ''pagination''" "k \<noteq> ''total''"
    using that by (auto simp: merged flatten_total_def delete_conv' update_conv' split: option.splits any.splits)
  have metas: "map_of meta ''pages_merged'' = Some (VInt (int (psPages st)))"
    "map_of meta ''truncated'' = (if psTruncated st then Some (VBool True) else None)"
    "map_of meta ''next_page_num'' = (if psTruncated st then map_option VInt (incrementInt (psCurrent st)) else None)"
    by (auto simp: meta number_meta_def Let_def update_conv' split: option.splits)
  have stopped: "map_of meta ''stopped_reason'' = Some (VString (psStopped st))" if "psStopped st \<noteq> []"
    using that by (simp add: meta number_meta_def Let_def update_conv')
  have "list_items merged k = concat (map (\<lambda>p. list_items p k) (first # pages_in exchanges))"
    if "list_all (array_page k) (first # pages_in exchanges)" "k \<noteq> ''pagination''" "k \<noteq> ''total''"
    using merge_all_items[OF that(1)] other[OF that(2,3)] post by (simp add: number_post_def exs list_items_def list_at_def)
  moreover have "number_chain base start exchanges" "psPages st = Suc (length (pages_in exchanges))"
      "length exchanges < maxAutoPaginatePages" "number_end start (stated_total fl pg first) st"
      "psMerged st = foldl mergePayloads first (pages_in exchanges)"
    using post by (simp_all add: number_post_def exs)
  moreover from this have "length exchanges = maxAutoPaginatePages - 1 \<and> psCurrent st = start + int (length exchanges)"
    if "psTruncated st"
    using that pages_in_length[of exchanges] by (auto simp: number_end_def exs)
  moreover have "\<not> all_continue exchanges \<or>
      (\<exists>pick expected. 0 < expected \<and> expected \<le> int (getListLength pick (foldl mergePayloads first (pages_in exchanges))))"
    if "\<not> psTruncated st" "map_of meta ''stopped_reason'' = None"
  proof -
    have "psStopped st = []" using stopped that(2) by (cases "psStopped st = []") simp_all
    with calculation(5,6) that(1) show ?thesis by (auto simp: number_end_def exs)
  qed
  ultimately show ?thesis
    unfolding metas using start by (intro exI[of _ start]) auto
qed

section \<open>Examples\<close>

definition unit_floats :: "unit float_ops" where
  "unit_floats = \<lparr>floatG = (\<lambda>f. []), floatF = (\<lambda>f. []), positiveIntegral = (\<lambda>f. False)\<rparr>"

definition demo_first :: "unit value_map" where
  "demo_first = [(''list'', VList [VString ''a'']), (''next_page_token'', VString ''t1'')]"

definition demo_service :: "unit service" where
  "demo_service =
     \<lparr>answer = (\<lambda>i params. Inr (VMap (if i = 0 then [(''list'', VList [VString ''b'']), (''next_page_token'', VString ''t2'')]
                                     else [(''list'', VList [VString ''c''])]))),
      reshape = (\<lambda>v. v), iterated = (\<lambda>i m. m)\<rparr>"

definition demo_paged :: "unit paged" where
  "demo_paged =
     ([(''list'', VList [VString ''a'', VString ''b'', VString ''c''])],
      Some [(''auto_paginated'', VBool True), (''pages_merged'', VInt 3), (''total_items'', VInt 3)],
      [([(''page_token'', VString ''t1'')], VMap [(''list'', VList [VString ''b'']), (''next_page_token'', VString ''t2'')]),
       ([(''page_token'', VString ''t2'')], VMap [(''list'', VList [VString ''c''])])])"

lemma demo_token_run: "paginateByToken demo_service [] demo_first ''page_token'' = Inr demo_paged"
  by code_simp

lemma pages_by_token_witness:
  "list_items (fst demo_paged) ''list'' = [VString ''a'', VString ''b'', VString ''c'']"
proof -
  have pages: "list_all (array_page ''list'') (demo_first # pages_in (snd (snd demo_paged)))" by code_simp
  have "list_items (fst demo_paged) ''list'' =
      concat (map (\<lambda>p. list_items p ''list'') (demo_first # pages_in (snd (snd demo_paged))))"
    using pages_by_token[of demo_service "[]" demo_first "''page_token''" "fst demo_paged"
        "the (fst (snd demo_paged))" "snd (snd demo_paged)" "''list''"] demo_token_run pages
    by (simp add: demo_paged_def)
  also have "\<dots> = [VString ''a'', VString ''b'', VString ''c'']" by code_simp
  finally show ?thesis .
qed

definition more_pages :: "bool \<Rightarrow> string \<Rightarrow> unit value_map" where
  "more_pages again item =
     [(''list'', VList [VString item]), (''pagination'', VMap [(''has_more'', VBool again), (''total'', VNumber ''9'')])]"

definition number_service :: "unit service" where
  "number_service =
     \<lparr>answer = (\<lambda>i params. Inr (VMap (if i = 0 then more_pages True ''b'' else more_pages False ''c''))),
      reshape = (\<lambda>v. v), iterated = (\<lambda>i m. m)\<rparr>"

definition number_paged :: "unit paged" where
  "number_paged =
     ([(''list'', VList [VString ''a'', VString ''b'', VString ''c'']), (''total'', VNumber ''9'')],
      Some [(''auto_paginated'', VBool True), (''pages_merged'', VInt 3), (''total_items'', VInt 3)],
      [([(''page_num'', VInt 5)], VMap (more_pages True ''b'')), ([(''page_num'', VInt 6)], VMap (more_pages False ''c''))])"

lemma demo_number_run:
  "paginateByPageNum unit_floats number_service [(''page_num'', VNumber ''4'')] (more_pages True ''a'') True = Inr number_paged"
  by code_simp

lemma pages_by_number_witness:
  "\<exists>start. start_page unit_floats [(''page_num'', VNumber ''4'')] = Some start \<and>
     number_chain [(''page_num'', VNumber ''4'')] start (snd (snd number_paged))"
proof -
  have "paginateByPageNum unit_floats number_service [(''page_num'', VNumber ''4'')] (more_pages True ''a'') True =
      Inr (fst number_paged, Some (the (fst (snd number_paged))), snd (snd number_paged))"
    unfolding demo_number_run by (simp add: number_paged_def)
  from pages_by_number[OF this, of "''list''"] show ?thesis by (elim exE conjE) (intro exI conjI)
qed

text \<open>
  A reply that is no object ends the loop although the last page has a cursor: the cursor is dropped, nothing
  is reported, and the page that was not merged is counted.
\<close>

definition broken_service :: "unit service" where
  "broken_service = demo_service\<lparr>answer := (\<lambda>i params. Inr (VString ''busy''))\<rparr>"

lemma cursor_lost:
  "paginateByToken broken_service [] demo_first ''page_token'' =
     Inr ([(''list'', VList [VString ''a''])],
       Some [(''auto_paginated'', VBool True), (''pages_merged'', VInt 2), (''total_items'', VInt 1)],
       [([(''page_token'', VString ''t1'')], VString ''busy'')])"
  by code_simp

section \<open>The step\<close>

text \<open>Without the flag, and for commands that run their calls themselves, nothing changes and nothing is called.\<close>

lemma no_pagination:
  "\<not> paginates c \<Longrightarrow> AutoPaginateStep decode fl sv c vals data metadata = Inr (data, metadata, [])"
  by (simp add: AutoPaginateStep_def)

text \<open>A result that is kept comes with no call; a merged result comes from one of the two loops.\<close>

lemma step_merges:
  assumes "AutoPaginateStep decode fl sv c vals data metadata = Inr (data', metadata', exchanges)" "exchanges \<noteq> []"
  obtains base first merged meta where "data = VMap first" "data' = VMap merged" "metadata' = put_all meta metadata"
    "buildSnakeParams decode (floatG fl) c vals = Inr base"
    "paginateByToken (sv\<lparr>reshape := transformed (FullPath c)\<rparr>) base first (resolveTokenParamName decode c) =
       Inr (merged, Some meta, exchanges) \<or>
     paginateByPageNum fl (sv\<lparr>reshape := transformed (FullPath c)\<rparr>) base first (hasParamInMetadata decode c ''page_num'') =
       Inr (merged, Some meta, exchanges)"
proof -
  have no_calls: "exs = []" if "paginateByPageNum fl sv' base first declared = Inr (m, None, exs)" for sv' base first declared m exs
    using that by (auto simp: paginateByPageNum_def Let_def split: option.splits any.splits if_splits sum.splits)
  from assms obtain first base merged meta where "data = VMap first" "buildSnakeParams decode (floatG fl) c vals = Inr base"
    and t: "token_or_number decode fl sv c base first = Inr (merged, meta, exchanges)"
    and r: "case meta of None \<Rightarrow> data' = data \<and> metadata' = metadata | Some mt \<Rightarrow> data' = VMap merged \<and> metadata' = put_all mt metadata"
    by (auto simp: AutoPaginateStep_def split: if_splits any.splits option.splits sum.splits)
  from t assms(2) no_calls obtain mt where "meta = Some mt"
    "paginateByToken (sv\<lparr>reshape := transformed (FullPath c)\<rparr>) base first (resolveTokenParamName decode c) =
       Inr (merged, Some mt, exchanges) \<or>
     paginateByPageNum fl (sv\<lparr>reshape := transformed (FullPath c)\<rparr>) base first (hasParamInMetadata decode c ''page_num'') =
       Inr (merged, Some mt, exchanges)"
    by (cases meta) (auto simp: token_or_number_def Let_def split: sum.splits option.splits)
  with r \<open>data = VMap first\<close> \<open>buildSnakeParams decode (floatG fl) c vals = Inr base\<close> that show thesis by auto
qed

end
