(* ===== verification/Command_Runtime.thy ===== *)
theory Command_Runtime
  imports Pagination
begin

text \<open>
  The product's pipeline (\<open>internal/products/meegle/pipeline.go\<close>): structured parameters are merged, their
  names put into kebab case (\<open>validation.go\<close>), the runtime of the command is resolved
  (\<open>command_runtime.go\<close>), and the runtime validates, prepares the session and executes.  For the MCP
  runtime the execution is one call of a tool (\<open>McpExecutorStep\<close>), a batch or an attachment shortcut.

  The session, the batch and the attachment steps are arguments; so are the client, the order in which Go
  iterates over the explicit flags, and the duration of a call.
\<close>

section \<open>Validation\<close>

datatype command_error =
    MissingRequired string string
  | InvalidEnumValue string string "string list"
  | RuntimeNotConfigured string
  | ToolParams param_error
  | DiscoveryFailed string string
  | ConfigUnresolved string
  | ToolFailed call_error
  | PagesFailed step_failure
  | SessionFailed string
  | OtherMode string

definition formatMeegleMissingRequiredInputs :: "missing_inputs \<Rightarrow> string" where
  "formatMeegleMissingRequiredInputs m =
     (let inputs = map (\<lambda>n. ''--'' @ n) (missingFlags m) @ map (\<lambda>n. ''<'' @ n @ ''>'') (missingArgs m) in
      if length (missingFlags m) = 1 \<and> missingArgs m = [] then
        ''missing required parameter: --'' @ List.hd (missingFlags m)
      else if missingFlags m = [] \<and> length (missingArgs m) = 1 then
        ''missing required argument <'' @ List.hd (missingArgs m) @ ''>''
      else if missingArgs m = [] then ''missing required parameters: '' @ Join '', '' inputs
      else if missingFlags m = [] then ''missing required arguments: '' @ Join '', '' inputs
      else ''missing required inputs: '' @ Join '', '' inputs)"

text \<open>The allowed values are looked up among the inherited flags only.\<close>

definition validateMeegleCommand :: "('f \<Rightarrow> string) \<Rightarrow> 'f ParsedCommand \<Rightarrow> command_error option" where
  "validateMeegleCommand ft c =
     (case cmdNode c of
        None \<Rightarrow> None
      | Some n \<Rightarrow>
          (let missing = CollectMissingRequiredInputs c in
           if missing_len missing > 0 then
             Some (MissingRequired (formatMeegleMissingRequiredInputs missing)
               (''meegle '' @ Join '' '' (bnPath n) @ '' --help''))
           else
             (case find (enum_violated ft (Flags c)) (bnInherited n) of
                None \<Rightarrow> None
              | Some f \<Rightarrow>
                  Some (InvalidEnumValue
                    (case map_of (Flags c) (flagName f) of None \<Rightarrow> [] | Some v \<Rightarrow> Sprint ft v) (flagName f) (Enum f)))))"

section \<open>Names of structured parameters\<close>

definition known_flags :: "BuiltNode \<Rightarrow> string list" where
  "known_flags n = map flagName (bnInherited n @ bnFlags n)"

definition rename_key ::
    "string list \<Rightarrow> string \<Rightarrow> 'f value_map \<times> 'f value_map \<Rightarrow> 'f value_map \<times> 'f value_map" where
  "rename_key known key maps =
     (case maps of
        (flags, explicit) \<Rightarrow>
          (case map_of explicit key of
             None \<Rightarrow> maps
           | Some v \<Rightarrow>
               (if key = kebab key \<or> kebab key \<notin> set known then maps
                else
                  (let direct = (map_of explicit (kebab key) \<noteq> None);
                       flags1 = (if direct then flags else AList.update (kebab key) v flags);
                       explicit1 = (if direct then explicit else AList.update (kebab key) v explicit)
                   in (AList.delete key flags1, AList.delete key explicit1)))))"

definition normalizeStructuredFlagNames :: "string list \<Rightarrow> 'f ParsedCommand \<Rightarrow> 'f ParsedCommand" where
  "normalizeStructuredFlagNames order c =
     (case cmdNode c of
        None \<Rightarrow> c
      | Some n \<Rightarrow>
          (case fold (rename_key (known_flags n)) order (Flags c, ExplicitFlags c) of
             (flags, explicit) \<Rightarrow> c\<lparr>Flags := flags, ExplicitFlags := explicit\<rparr>))"

section \<open>Unknown parameters\<close>

definition findUnknownParams :: "(string \<Rightarrow> json option) \<Rightarrow> 'f ParsedCommand \<Rightarrow> 'f value_map \<Rightarrow> string list" where
  "findUnknownParams decode c params =
     (case cmdNode c of
        None \<Rightarrow> []
      | Some n \<Rightarrow>
          (let raw = text_at (Tags (bnMeta n)) ''mcp_param_types'' in
           if raw = [] \<or> \<not> texts_ok (decode raw) then []
           else
             (let valid = map (snake \<circ> fst) (texts_of (decode raw)) @
                    (if text_at (Tags (bnMeta n)) ''mcp_fixed_params'' = [] then []
                     else map fst (fixed_params decode n :: 'f value_map))
              in sort (filter (\<lambda>k. k \<notin> set valid) (map fst params)))))"

definition formatUnknownParamsWarning :: "string \<Rightarrow> string list \<Rightarrow> string" where
  "formatUnknownParamsWarning toolName unknown =
     (if unknown = [] then []
      else ''warning: unknown argument(s) for '' @ toolName @ '': '' @ Join '', '' unknown @ '' '' @
        [CHR 0xE2, CHR 0x80, CHR 0x94] @
        '' sent to backend as-is and likely ignored. See --help for valid flags.'')"

section \<open>Calling the tool\<close>

definition extractLogID :: "string \<Rightarrow> string" where
  "extractLogID raw =
     (let s = TrimSpace raw in
      if s = [] then []
      else if HasPrefix s ''log_id:'' then TrimSpace (TrimPrefix s ''log_id:'')
      else if HasPrefix s ''logid:'' then TrimSpace (TrimPrefix s ''logid:'')
      else s)"

definition discoveryFailureHandlerRef :: string where
  "discoveryFailureHandlerRef = ''__meegle_tool_discovery_failed__''"

definition discoveryFailureCommandError :: "'f ParsedCommand \<Rightarrow> BuiltNode \<Rightarrow> command_error" where
  "discoveryFailureCommandError c n =
     (let parts = FullPath c @ takeWhile (\<lambda>arg. \<not> HasPrefix arg ''-'') (Args c);
          command = TrimSpace (Join '' '' parts);
          detail = TrimSpace (text_at (Tags (bnMeta n)) ''meegle_discovery_failure'')
      in if tag n ''meegle_config_resolution_failure'' = Some ''1'' then ConfigUnresolved detail
         else DiscoveryFailed (if command = [] then ''dynamic command'' else command) detail)"

text \<open>A reply of the client: an error, no response, or data with a log id.\<close>

record 'f tool_host =
  callTool :: "string \<Rightarrow> 'f value_map \<Rightarrow> (call_error, ('f any \<times> string) option) result"
  commandNames :: "MappedCommand list"
  elapsed :: int

text \<open>What an execution does: the calls, the warnings, and the error or the result (data and metadata).\<close>

record 'f tool_run =
  trCalls :: "(string \<times> 'f value_map) list"
  trWarnings :: "string list"
  trResult :: "(command_error, ('f any \<times> 'f value_map) option) result"

definition quiet :: "(command_error, ('f any \<times> 'f value_map) option) result \<Rightarrow> 'f tool_run" where
  "quiet r = \<lparr>trCalls = [], trWarnings = [], trResult = r\<rparr>"

definition dry_run_payload :: "string \<Rightarrow> 'f value_map \<Rightarrow> string list \<Rightarrow> 'f any" where
  "dry_run_payload toolName params unknown =
     VMap ([(''tool'', VString toolName), (''params'', VMap params), (''dry_run'', VBool True)] @
       (if unknown = [] then [] else [(''validation'', VMap [(''unknown_params'', VStrings unknown)])]))"

definition tool_result ::
    "'f tool_host \<Rightarrow> 'f ParsedCommand \<Rightarrow> string \<Rightarrow> (call_error, ('f any \<times> string) option) result \<Rightarrow>
     (command_error, ('f any \<times> 'f value_map) option) result" where
  "tool_result h c toolName reply =
     (case reply of
        Inl e \<Rightarrow> Inl (ToolFailed (sanitize_error (\<lambda>m. sanitizeToolNames m (commandNames h)) e))
      | Inr None \<Rightarrow> Inr None
      | Inr (Some (data, logID)) \<Rightarrow>
          Inr (Some (transformed (FullPath c) data,
            [(''tool'', VString toolName), (''command'', VString (Join '' '' (FullPath c))),
             (''duration_ms'', VInt (elapsed h))] @
            (if extractLogID logID = [] then [] else [(''logid'', VString (extractLogID logID))]))))"

definition McpExecutorStep ::
    "(string \<Rightarrow> json option) \<Rightarrow> 'f float_ops \<Rightarrow> 'f tool_host \<Rightarrow> 'f ParsedCommand \<Rightarrow> 'f value_map option \<Rightarrow> 'f tool_run" where
  "McpExecutorStep decode fl h c vals =
     (case cmdNode c of
        None \<Rightarrow> quiet (Inr None)
      | Some n \<Rightarrow>
          (let toolName = bnHandler n in
           if toolName = [] then quiet (Inr None)
           else if toolName = discoveryFailureHandlerRef then quiet (Inl (discoveryFailureCommandError c n))
           else
             (case buildSnakeParams decode (floatG fl) c vals of
                Inl e \<Rightarrow> quiet (Inl (ToolParams e))
              | Inr params \<Rightarrow>
                  (let unknown = findUnknownParams decode c params in
                   if isDryRun c then quiet (Inr (Some (dry_run_payload toolName params unknown, [])))
                   else
                     \<lparr>trCalls = [(toolName, params)],
                      trWarnings = (if unknown = [] then [] else [formatUnknownParamsWarning toolName unknown]),
                      trResult = tool_result h c toolName (callTool h toolName params)\<rparr>))))"

section \<open>Runtimes\<close>

record 'f command_runtime =
  rtValidate :: "'f ParsedCommand \<Rightarrow> command_error option"
  rtPrepareSession :: "'f ParsedCommand \<Rightarrow> command_error option"
  rtExecute :: "'f ParsedCommand \<Rightarrow> 'f tool_run"

text \<open>A resolver maps a kind to a runtime; a runtime may be nil.\<close>

type_synonym 'f resolver = "(string \<times> 'f command_runtime option) list"

definition NewCommandRuntimeResolver :: "'f command_runtime option \<Rightarrow> 'f command_runtime option \<Rightarrow> 'f resolver" where
  "NewCommandRuntimeResolver mcpRuntime cliAPIRuntime = [(''mcp'', mcpRuntime), (''cliapi'', cliAPIRuntime)]"

definition runtime_kind :: "BuiltNode \<Rightarrow> string" where
  "runtime_kind n =
     (let kind = text_at (Tags (bnMeta n)) ''executor_kind'' in if kind = [] then ''mcp'' else kind)"

definition resolve_runtime ::
    "'f resolver option \<Rightarrow> 'f ParsedCommand \<Rightarrow> (command_error, 'f command_runtime option) result" where
  "resolve_runtime resolver c =
     (case cmdNode c of
        None \<Rightarrow> Inr None
      | Some n \<Rightarrow>
          (case resolver of
             None \<Rightarrow> Inl (RuntimeNotConfigured (runtime_kind n))
           | Some runtimes \<Rightarrow>
               (case map_of runtimes (runtime_kind n) of
                  Some (Some runtime) \<Rightarrow> Inr (Some runtime)
                | _ \<Rightarrow> Inl (RuntimeNotConfigured (runtime_kind n)))))"

text \<open>The steps of the runtime: validation, session and execution each resolve the runtime again.\<close>

definition runtime_check ::
    "'f resolver option \<Rightarrow> ('f command_runtime \<Rightarrow> 'f ParsedCommand \<Rightarrow> command_error option) \<Rightarrow> 'f ParsedCommand \<Rightarrow>
     command_error option" where
  "runtime_check resolver phase c =
     (case resolve_runtime resolver c of
        Inl e \<Rightarrow> Some e
      | Inr None \<Rightarrow> None
      | Inr (Some runtime) \<Rightarrow> phase runtime c)"

definition runtime_execute :: "'f resolver option \<Rightarrow> 'f ParsedCommand \<Rightarrow> 'f tool_run" where
  "runtime_execute resolver c =
     (case resolve_runtime resolver c of
        Inl e \<Rightarrow> quiet (Inl e)
      | Inr None \<Rightarrow> quiet (Inr None)
      | Inr (Some runtime) \<Rightarrow> rtExecute runtime c)"

text \<open>\<open>MCPRuntime.Execute\<close>: a batch, an attachment shortcut, or a call followed by pagination.\<close>

record 'f mcp_parts =
  runBatch :: "'f ParsedCommand \<Rightarrow> 'f tool_run"
  runAttachment :: "'f ParsedCommand \<Rightarrow> 'f tool_run"
  pageService :: "'f service"

definition paginate_run ::
    "(string \<Rightarrow> json option) \<Rightarrow> 'f float_ops \<Rightarrow> 'f service \<Rightarrow> 'f ParsedCommand \<Rightarrow> 'f value_map option \<Rightarrow>
     'f tool_run \<Rightarrow> 'f tool_run" where
  "paginate_run decode fl sv c vals r =
     (case trResult r of
        Inr (Some (data, metadata)) \<Rightarrow>
          (case AutoPaginateStep decode fl sv c vals data metadata of
             Inl e \<Rightarrow> r\<lparr>trResult := Inl (PagesFailed e)\<rparr>
           | Inr (data', metadata', exchanges) \<Rightarrow>
               r\<lparr>trCalls := trCalls r @ map (\<lambda>ex. (case cmdNode c of None \<Rightarrow> [] | Some n \<Rightarrow> bnHandler n, fst ex)) exchanges,
                 trResult := Inr (Some (data', metadata'))\<rparr>)
      | _ \<Rightarrow> r)"

definition mcp_execute ::
    "(string \<Rightarrow> json option) \<Rightarrow> 'f float_ops \<Rightarrow> 'f tool_host \<Rightarrow> 'f mcp_parts \<Rightarrow> 'f ParsedCommand \<Rightarrow> 'f tool_run" where
  "mcp_execute decode fl h parts c =
     (case cmdNode c of
        None \<Rightarrow> quiet (Inr None)
      | Some n \<Rightarrow>
          (if tag n ''mcp_batch'' = Some ''1'' then runBatch parts c
           else if text_at (Tags (bnMeta n)) ''mcp_attachment_shortcut'' \<noteq> [] then runAttachment parts c
           else paginate_run decode fl (pageService parts) c (Some (BuildInputValues c)) (McpExecutorStep decode fl h c None)))"

definition MCPRuntime ::
    "(string \<Rightarrow> json option) \<Rightarrow> 'f float_ops \<Rightarrow> ('f \<Rightarrow> string) \<Rightarrow> 'f tool_host \<Rightarrow> 'f mcp_parts \<Rightarrow>
     ('f ParsedCommand \<Rightarrow> command_error option) \<Rightarrow> 'f command_runtime" where
  "MCPRuntime decode fl ft h parts session =
     \<lparr>rtValidate = validateMeegleCommand ft, rtPrepareSession = session, rtExecute = mcp_execute decode fl h parts\<rparr>"

section \<open>The pipeline\<close>

definition meegle_pipeline ::
    "'f host \<Rightarrow> string list \<Rightarrow> 'f resolver option \<Rightarrow> 'f ParsedCommand \<Rightarrow>
     (command_error + route_error + unit, 'f tool_run) result" where
  "meegle_pipeline h order resolver c =
     (case MergeStructuredParams (decodeJson h) (readFile h) (Flags c) (ExplicitFlags c) of
        Failed e \<Rightarrow> Inl (Inr (Inl e))
      | Panicked \<Rightarrow> Inl (Inr (Inr ()))
      | Returned (flags, explicit) \<Rightarrow>
          (let c1 = normalizeStructuredFlagNames order (c\<lparr>Flags := flags, ExplicitFlags := explicit\<rparr>) in
           case runtime_check resolver rtValidate c1 of
             Some e \<Rightarrow> Inl (Inl e)
           | None \<Rightarrow>
               (case runtime_check resolver rtPrepareSession c1 of
                  Some e \<Rightarrow> Inl (Inl e)
                | None \<Rightarrow> Inr (runtime_execute resolver c1))))"

section \<open>What normalization guarantees\<close>

lemma kebab_idem [simp]: "kebab (kebab k) = kebab k"
  by (simp add: kebab_def ReplaceChar_def)

definition renames :: "string list \<Rightarrow> 'f value_map \<Rightarrow> string \<Rightarrow> bool" where
  "renames known explicit key = (map_of explicit key \<noteq> None \<and> key \<noteq> kebab key \<and> kebab key \<in> set known)"

definition value_kept :: "'f value_map \<Rightarrow> string \<Rightarrow> string \<Rightarrow> 'f any option" where
  "value_kept m key k =
     (if k = key then None else if k = kebab key \<and> map_of m k = None then map_of m key else map_of m k)"

lemma rename_key_skip: "\<not> renames known e key \<Longrightarrow> rename_key known key (f, e) = (f, e)"
  by (auto simp: rename_key_def renames_def split: option.split)

lemma rename_key_explicit:
  assumes "renames known e key" "rename_key known key (f, e) = (f', e')"
  shows "map_of e' k = value_kept e key k"
  using assms by (auto simp: rename_key_def renames_def value_kept_def Let_def delete_conv' update_conv' split: option.splits if_splits)

lemma rename_key_flags:
  assumes "renames known e key" "rename_key known key (f, e) = (f', e')" "k \<noteq> key"
    "k \<noteq> kebab key \<or> map_of e k \<noteq> None"
  shows "map_of f' k = map_of f k"
  using assms by (auto simp: rename_key_def renames_def Let_def delete_conv' update_conv' split: option.splits if_splits)

definition rename_inv ::
    "string list \<Rightarrow> 'f value_map \<Rightarrow> 'f value_map \<Rightarrow> string set \<Rightarrow> 'f value_map \<times> 'f value_map \<Rightarrow> bool" where
  "rename_inv known f0 e0 seen maps =
     (case maps of
        (f, e) \<Rightarrow>
          (\<forall>k. map_of e k \<noteq> None \<longrightarrow> kebab k = k \<or> map_of e0 k \<noteq> None) \<and>
          (\<forall>k\<in>seen. map_of e k \<noteq> None \<longrightarrow> kebab k = k \<or> kebab k \<notin> set known) \<and>
          (\<forall>k. kebab k = k \<and> map_of e0 k \<noteq> None \<longrightarrow> map_of e k = map_of e0 k \<and> map_of f k = map_of f0 k) \<and>
          (\<forall>k v. map_of e k = Some v \<longrightarrow> (\<exists>k2. kebab k2 = kebab k \<and> map_of e0 k2 = Some v)) \<and>
          (\<forall>k. map_of e0 k \<noteq> None \<and> kebab k \<in> set known \<longrightarrow> map_of e k \<noteq> None \<or> map_of e (kebab k) \<noteq> None))"

lemma rename_step:
  assumes inv: "rename_inv known f0 e0 seen (f, e)"
  shows "rename_inv known f0 e0 (insert key seen) (rename_key known key (f, e))"
proof (cases "renames known e key")
  case False
  then show ?thesis using inv unfolding rename_key_skip[OF False] by (auto simp: rename_inv_def renames_def)
next
  case True
  obtain f' e' where fe: "rename_key known key (f, e) = (f', e')" by (cases "rename_key known key (f, e)")
  note e' = rename_key_explicit[OF True fe]
  note f' = rename_key_flags[OF True fe]
  from True have key: "map_of e key \<noteq> None" "kebab key \<noteq> key" "kebab key \<in> set known" by (auto simp: renames_def)
  note I = inv[unfolded rename_inv_def prod.case]
  have 1: "kebab k = k \<or> map_of e0 k \<noteq> None" if "map_of e' k \<noteq> None" for k
    using that I[THEN conjunct1] by (auto simp: e' value_kept_def split: if_splits)
  have 2: "kebab k = k \<or> kebab k \<notin> set known" if "k \<in> insert key seen" "map_of e' k \<noteq> None" for k
    using that I[THEN conjunct2, THEN conjunct1] by (auto simp: e' value_kept_def split: if_splits)
  have 3: "map_of e' k = map_of e0 k \<and> map_of f' k = map_of f0 k" if k: "kebab k = k" "map_of e0 k \<noteq> None" for k
  proof -
    have k': "map_of e k = map_of e0 k" "map_of f k = map_of f0 k" "k \<noteq> key"
      using I[THEN conjunct2, THEN conjunct2, THEN conjunct1] k key by auto
    then have "map_of e k \<noteq> None" using k by simp
    then show ?thesis using k' f'[of k] by (auto simp: e' value_kept_def)
  qed
  have 4: "\<exists>k2. kebab k2 = kebab k \<and> map_of e0 k2 = Some v" if "map_of e' k = Some v" for k v
  proof (cases "k = kebab key \<and> map_of e k = None")
    case True
    then have "map_of e key = Some v" using that key by (auto simp: e' value_kept_def)
    then obtain k2 where "kebab k2 = kebab key" "map_of e0 k2 = Some v"
      using I[THEN conjunct2, THEN conjunct2, THEN conjunct2, THEN conjunct1] by blast
    then show ?thesis using True by auto
  next
    case False
    then have "map_of e k = Some v" using that by (auto simp: e' value_kept_def split: if_splits)
    then show ?thesis using I[THEN conjunct2, THEN conjunct2, THEN conjunct2, THEN conjunct1] by blast
  qed
  have 5: "map_of e' k \<noteq> None \<or> map_of e' (kebab k) \<noteq> None" if k: "map_of e0 k \<noteq> None" "kebab k \<in> set known" for k
  proof -
    have some: "map_of e k \<noteq> None \<or> map_of e (kebab k) \<noteq> None"
      using I[THEN conjunct2, THEN conjunct2, THEN conjunct2, THEN conjunct2] k by blast
    have kk: "kebab k \<noteq> key" using key kebab_idem by metis
    show ?thesis using some kk key by (auto simp: e' value_kept_def)
  qed
  show ?thesis unfolding fe rename_inv_def prod.case
    by (intro conjI) (use 1 in blast, use 2 in blast, use 3 in blast, use 4 in blast, use 5 in blast)
qed

lemma rename_all: "rename_inv known f0 e0 seen maps \<Longrightarrow> rename_inv known f0 e0 (seen \<union> set order) (fold (rename_key known) order maps)"
proof (induction order arbitrary: seen maps)
  case (Cons key order)
  obtain f e where "maps = (f, e)" by (cases maps)
  with rename_step[of known f0 e0 seen f e key] Cons.prems Cons.IH[of "insert key seen" "rename_key known key maps"]
  show ?case by simp
qed simp

text \<open>
  Names of structured parameters.  In whatever order the flags are visited: afterwards no explicit
  flag carries a snake-case name that has a known kebab-case form; a flag given under its kebab-case name
  keeps its value; and every flag that was given under any spelling of a known name is there under the
  known name, with a value that was given for one of the spellings.
\<close>

lemma structured_names_normalized:
  assumes n: "cmdNode c = Some n" and order: "list_all (\<lambda>k. k \<in> set order) (map fst (ExplicitFlags c))"
    and c': "c' = normalizeStructuredFlagNames order c"
  shows "list_all (\<lambda>k. kebab k = k \<or> kebab k \<notin> set (known_flags n)) (map fst (ExplicitFlags c')) \<and>
    list_all (\<lambda>k. kebab k = k \<longrightarrow>
        map_of (ExplicitFlags c') k = map_of (ExplicitFlags c) k \<and> map_of (Flags c') k = map_of (Flags c) k)
      (map fst (ExplicitFlags c)) \<and>
    list_all (\<lambda>k. kebab k \<in> set (known_flags n) \<longrightarrow>
        (\<exists>k2 v. kebab k2 = kebab k \<and> map_of (ExplicitFlags c) k2 = Some v \<and> map_of (ExplicitFlags c') (kebab k) = Some v))
      (map fst (ExplicitFlags c))"
proof -
  let ?known = "known_flags n"
  have e': "fold (rename_key ?known) order (Flags c, ExplicitFlags c) = (Flags c', ExplicitFlags c')"
    by (cases "fold (rename_key ?known) order (Flags c, ExplicitFlags c)")
      (simp add: c' normalizeStructuredFlagNames_def n)
  have "rename_inv ?known (Flags c) (ExplicitFlags c) {} (Flags c, ExplicitFlags c)"
    by (auto simp: rename_inv_def)
  from rename_all[OF this, of order, unfolded e']
  have I: "rename_inv ?known (Flags c) (ExplicitFlags c) (set order) (Flags c', ExplicitFlags c')" by simp
  note I = I[unfolded rename_inv_def prod.case]
  have key: "map_of m k \<noteq> None \<longleftrightarrow> k \<in> set (map fst m)" for m :: "'a value_map" and k
    by (simp add: map_of_eq_None_iff)
  have 1: "kebab k = k \<or> kebab k \<notin> set ?known" if "map_of (ExplicitFlags c') k \<noteq> None" for k
  proof (cases "k \<in> set order")
    case True
    then show ?thesis using I[THEN conjunct2, THEN conjunct1] that by blast
  next
    case False
    then have "map_of (ExplicitFlags c) k = None" using order by (auto simp: list_all_iff map_of_eq_None_iff)
    then show ?thesis using I[THEN conjunct1] that by blast
  qed
  moreover have "\<exists>k2 v. kebab k2 = kebab k \<and> map_of (ExplicitFlags c) k2 = Some v \<and> map_of (ExplicitFlags c') (kebab k) = Some v"
    if "map_of (ExplicitFlags c) k \<noteq> None" "kebab k \<in> set ?known" for k
  proof -
    have "map_of (ExplicitFlags c') (kebab k) \<noteq> None"
      using I[THEN conjunct2, THEN conjunct2, THEN conjunct2, THEN conjunct2] that 1[of k] by metis
    then obtain v where "map_of (ExplicitFlags c') (kebab k) = Some v" by blast
    then show ?thesis using I[THEN conjunct2, THEN conjunct2, THEN conjunct2, THEN conjunct1] kebab_idem by metis
  qed
  ultimately show ?thesis
    using I[THEN conjunct2, THEN conjunct2, THEN conjunct1] unfolding list_all_iff Ball_def key[symmetric] by blast
qed

section \<open>What the pipeline calls\<close>

text \<open>The pipeline with the MCP runtime for its commands, and any runtime for the others.\<close>

definition mcp_resolver ::
    "(string \<Rightarrow> json option) \<Rightarrow> 'f float_ops \<Rightarrow> ('f \<Rightarrow> string) \<Rightarrow> 'f tool_host \<Rightarrow> 'f mcp_parts \<Rightarrow>
     ('f ParsedCommand \<Rightarrow> command_error option) \<Rightarrow> 'f command_runtime option \<Rightarrow> 'f resolver option" where
  "mcp_resolver decode fl ft h parts session other =
     Some (NewCommandRuntimeResolver (Some (MCPRuntime decode fl ft h parts session)) other)"

lemma normalize_node [simp]: "cmdNode (normalizeStructuredFlagNames order c) = cmdNode c"
  by (simp add: normalizeStructuredFlagNames_def split: option.split prod.split)

lemma resolve_mcp:
  "cmdNode c = Some n \<Longrightarrow> runtime_kind n = ''mcp'' \<Longrightarrow>
   resolve_runtime (mcp_resolver decode fl ft h parts session other) c = Inr (Some (MCPRuntime decode fl ft h parts session))"
  by (simp add: resolve_runtime_def mcp_resolver_def NewCommandRuntimeResolver_def)

lemma McpExecutorStep_calls:
  assumes "cmdNode c = Some n" "trCalls (McpExecutorStep decode fl h c vals) = call # calls"
  shows "calls = [] \<and> fst call = bnHandler n \<and> bnHandler n \<notin> {[], discoveryFailureHandlerRef} \<and> \<not> isDryRun c \<and>
    buildSnakeParams decode (floatG fl) c vals = Inr (snd call)"
  using assms by (auto simp: McpExecutorStep_def quiet_def Let_def split: if_splits sum.splits)

lemma paginate_run_calls:
  "\<exists>more. trCalls (paginate_run decode fl sv c vals r) = trCalls r @ more \<and>
     (trCalls r = [] \<and> trResult r = Inr None \<longrightarrow> more = [])"
  by (auto simp: paginate_run_def split: sum.splits option.splits)

text \<open>A command is called by the product's pipeline only as this predicate says.\<close>

definition lawful_call ::
    "(string \<Rightarrow> json option) \<Rightarrow> ('f \<Rightarrow> string) \<Rightarrow> ('f \<Rightarrow> string) \<Rightarrow> ('f ParsedCommand \<Rightarrow> command_error option) \<Rightarrow>
     BuiltNode \<Rightarrow> 'f ParsedCommand \<Rightarrow> string \<times> 'f value_map \<Rightarrow> bool" where
  "lawful_call decode fG ft session n c call =
     (fst call = bnHandler n \<and> bnHandler n \<notin> {[], discoveryFailureHandlerRef} \<and> cmdNode c = Some n \<and> \<not> isDryRun c \<and>
      missing_len (CollectMissingRequiredInputs c) = 0 \<and>
      list_all (\<lambda>f. \<not> enum_violated ft (Flags c) f) (bnInherited n) \<and> session c = None \<and>
      buildSnakeParams decode fG c None = Inr (snd call))"

lemma validateMeegleCommand_ok:
  "cmdNode c = Some n \<Longrightarrow> validateMeegleCommand ft c = None \<Longrightarrow>
   missing_len (CollectMissingRequiredInputs c) = 0 \<and> list_all (\<lambda>f. \<not> enum_violated ft (Flags c) f) (bnInherited n)"
  by (auto simp: validateMeegleCommand_def Let_def list_all_iff find_None_iff split: if_splits option.splits)

text \<open>A dry run makes no call: its payload has no cursor and no pagination.\<close>

lemma dry_run_not_paged:
  "AutoPaginateStep decode fl sv c vals (dry_run_payload toolName params unknown) metadata = Inr (data, md, exs) \<Longrightarrow> exs = []"
  by (auto simp: AutoPaginateStep_def dry_run_payload_def token_or_number_def paginateByToken_def paginateByPageNum_def
      getString_def Let_def split: if_splits option.splits sum.splits)

lemma dry_run_calls_nothing:
  assumes "isDryRun c" "cmdNode c = Some n"
  shows "trCalls (paginate_run decode fl sv c vals2 (McpExecutorStep decode fl h c vals)) = []"
proof -
  have "trCalls (McpExecutorStep decode fl h c vals) = [] \<and>
    (\<forall>x. trResult (McpExecutorStep decode fl h c vals) = Inr (Some x) \<longrightarrow>
       (\<exists>tool params unknown. x = (dry_run_payload tool params unknown, [])))"
    using assms by (auto simp: McpExecutorStep_def quiet_def Let_def split: sum.split)
  then show ?thesis
    by (auto simp: paginate_run_def dest: dry_run_not_paged split: sum.splits option.splits)
qed

text \<open>
  C22.  What the product's pipeline sends.  When an ordinary tool command makes a call at all, its first call
  goes to the tool of its node; the merged and normalized command is complete, its inherited flags have
  allowed values, it is no dry run, its session was prepared; and the parameters sent are those
  \<open>buildSnakeParams\<close> makes of it.  Without such a first call there is no other.
\<close>

theorem pipeline_call_lawful:
  assumes n: "cmdNode c0 = Some n" "runtime_kind n = ''mcp''" "tag n ''mcp_batch'' \<noteq> Some ''1''"
      "text_at (Tags (bnMeta n)) ''mcp_attachment_shortcut'' = []"
    and run: "meegle_pipeline h order (mcp_resolver decode fl ft th parts session other) c0 = Inr r"
    and calls: "trCalls r = call # calls"
  shows "\<exists>flags explicit.
    MergeStructuredParams (decodeJson h) (readFile h) (Flags c0) (ExplicitFlags c0) = Returned (flags, explicit) \<and>
    lawful_call decode (floatG fl) ft session n
      (normalizeStructuredFlagNames order (c0\<lparr>Flags := flags, ExplicitFlags := explicit\<rparr>)) call"
proof -
  let ?res = "mcp_resolver decode fl ft th parts session other"
  from run obtain flags explicit where m:
    "MergeStructuredParams (decodeJson h) (readFile h) (Flags c0) (ExplicitFlags c0) = Returned (flags, explicit)"
    by (auto simp: meegle_pipeline_def split: outcome.splits)
  define c where "c = normalizeStructuredFlagNames order (c0\<lparr>Flags := flags, ExplicitFlags := explicit\<rparr>)"
  have node: "cmdNode c = Some n" using n(1) by (simp add: c_def)
  note rt = resolve_mcp[OF node n(2), of decode fl ft th parts session other]
  from run have steps: "runtime_check ?res rtValidate c = None" "runtime_check ?res rtPrepareSession c = None"
    and r: "r = runtime_execute ?res c"
    by (auto simp: meegle_pipeline_def m c_def Let_def split: option.splits)
  from steps have valid: "validateMeegleCommand ft c = None" "session c = None"
    by (simp_all add: runtime_check_def rt MCPRuntime_def)
  let ?step = "McpExecutorStep decode fl th c None"
  have r': "r = paginate_run decode fl (pageService parts) c (Some (BuildInputValues c)) ?step"
    unfolding r using n(3,4) by (simp add: runtime_execute_def rt MCPRuntime_def mcp_execute_def node)
  with paginate_run_calls obtain more where more: "trCalls r = trCalls ?step @ more" by blast
  have wet: "\<not> isDryRun c" using dry_run_calls_nothing[OF _ node] calls by (auto simp: r')
  have "trCalls ?step \<noteq> []"
  proof
    assume none: "trCalls ?step = []"
    then have "\<And>x. trResult ?step \<noteq> Inr (Some x)"
      using wet by (auto simp: McpExecutorStep_def quiet_def node Let_def split: if_splits sum.splits)
    then have "r = ?step" using r' by (auto simp: paginate_run_def split: sum.splits option.splits)
    with none calls show False by simp
  qed
  then have "trCalls ?step = call # tl (trCalls ?step)" using more calls by (cases "trCalls ?step") auto
  from McpExecutorStep_calls[OF node this] validateMeegleCommand_ok[OF node valid(1)] valid(2) node
  have "lawful_call decode (floatG fl) ft session n c call" by (simp add: lawful_call_def)
  then show ?thesis using m c_def by blast
qed

section \<open>Examples\<close>

definition demo_runtime_node :: BuiltNode where
  "demo_runtime_node =
     BuiltNode ''get'' [] demo_help
       [plain_flag ''work-item-id'' [] ''integer'' [] [], plain_flag ''mode'' [] ''string'' [''brief'', ''full''] []]
       [] ''get_workitem_brief'' (demo_meta ''mcp'') [''workitem'', ''get''] [] []"

definition demo_typed :: "unit value_map" where
  "demo_typed = [(''mode'', VString ''everything''), (''set'', VStrings [''work_item_id=42''])]"

definition demo_input :: "unit ParsedCommand" where
  "demo_input =
     \<lparr>cmdNode = Some demo_runtime_node, FullPath = [''workitem'', ''get''], Flags = demo_typed, ExplicitFlags = demo_typed,
      Args = [], IsHelp = False, RawArgs = [], RawFlags = []\<rparr>"

definition demo_tool_host :: "unit tool_host" where
  "demo_tool_host =
     \<lparr>callTool = (\<lambda>tool params. Inr (Some (VMap [(''name'', VString ''task'')], ''log_id: 7''))), commandNames = [], elapsed = 3\<rparr>"

definition demo_parts :: "unit mcp_parts" where
  "demo_parts =
     \<lparr>runBatch = (\<lambda>c. quiet (Inr None)), runAttachment = (\<lambda>c. quiet (Inr None)), pageService = demo_service\<rparr>"

definition demo_order :: "string list" where "demo_order = [''work_item_id'', ''mode'', ''set'']"

definition demo_json_host :: "unit host" where
  "demo_json_host = \<lparr>decodeJson = demo_types, readFile = (\<lambda>p. None), floatText = (\<lambda>f. [])\<rparr>"

definition demo_run :: "unit tool_run" where
  "demo_run =
     \<lparr>trCalls = [(''get_workitem_brief'',
        [(''mode'', VString ''everything''), (''work_item_id'', VNumber ''42''),
         (''source'', VString ''cli'')])],
      trWarnings = [formatUnknownParamsWarning ''get_workitem_brief'' [''mode'']],
      trResult = Inr (Some (VMap [(''name'', VString ''task'')],
        [(''tool'', VString ''get_workitem_brief''), (''command'', VString ''workitem get''), (''duration_ms'', VInt 3),
         (''logid'', VString ''7'')]))\<rparr>"

lemma demo_pipeline_run:
  "meegle_pipeline demo_json_host demo_order
     (mcp_resolver demo_types unit_floats (\<lambda>f. []) demo_tool_host demo_parts (\<lambda>c. None) None) demo_input = Inr demo_run"
  by code_simp

theorem pipeline_call_lawful_witness:
  "\<exists>flags explicit.
    MergeStructuredParams (decodeJson demo_json_host) (readFile demo_json_host) (Flags demo_input) (ExplicitFlags demo_input) =
      Returned (flags, explicit) \<and>
    lawful_call demo_types (floatG unit_floats) (\<lambda>f. []) (\<lambda>c. None) demo_runtime_node
      (normalizeStructuredFlagNames demo_order (demo_input\<lparr>Flags := flags, ExplicitFlags := explicit\<rparr>))
      (List.hd (trCalls demo_run))"
  by (rule pipeline_call_lawful[OF _ _ _ _ demo_pipeline_run, where calls = "[]"])
    (simp_all add: demo_input_def demo_runtime_node_def demo_meta_def runtime_kind_def text_at_def tag_def demo_run_def)

definition snake_flags :: "unit value_map" where
  "snake_flags = [(''work_item_id'', VNumber ''42''), (''mode'', VString ''full'')]"

definition snake_input :: "unit ParsedCommand" where
  "snake_input = demo_input\<lparr>Flags := snake_flags, ExplicitFlags := snake_flags\<rparr>"

lemma structured_names_normalized_witness:
  "list_all (\<lambda>k. kebab k = k \<or> kebab k \<notin> set (known_flags demo_runtime_node))
     (map fst (ExplicitFlags (normalizeStructuredFlagNames [''mode'', ''work_item_id''] snake_input)))"
  by (rule structured_names_normalized[THEN conjunct1, OF _ _ refl])
    (simp_all add: snake_input_def snake_flags_def demo_input_def)

text \<open>
  The flag \<open>mode\<close> of the command itself has the allowed values \<open>brief\<close> and \<open>full\<close>; the command was sent with
  another one, because only inherited flags are looked at.
\<close>

lemma own_enum_unchecked:
  "list_ex (enum_violated (\<lambda>f. []) demo_typed) (bnFlags demo_runtime_node) \<and> validateMeegleCommand (\<lambda>f. []) demo_input = None"
  by code_simp

end
