(* ===== verification/Config.thy ===== *)
theory Config
  imports Json_Value Go_Url "HOL-Library.AList"
begin

text \<open>
  \<open>internal/products/meegle/config.go\<close>: the profiles of the configuration file, the placeholders for
  environment variables and the addresses derived from a host.

  The file is its decoded content; an unreadable file is the empty configuration, as in \<open>readRootConfig\<close>.  A Go
  map is an association list without repeated keys.  \<open>show_any\<close> is \<open>fmt.Sprintf("%v", _)\<close> for a value that is no
  string.
\<close>

section \<open>Profiles\<close>

record MeegleConfig =
  cfgHost :: string
  cfgHeaders :: "(string \<times> string) list"
  cfgAccessToken :: string
  cfgAccessTokenHeader :: string
  cfgUserAgent :: string

definition empty_config :: MeegleConfig where
  "empty_config = \<lparr>cfgHost = [], cfgHeaders = [], cfgAccessToken = [], cfgAccessTokenHeader = [], cfgUserAgent = []\<rparr>"

record rootConfig =
  Current :: string
  Profiles :: "(string \<times> json_object) list"

definition GetCurrentProfileName :: "rootConfig \<Rightarrow> string" where
  "GetCurrentProfileName rc = (if Current rc = [] then ''default'' else Current rc)"

definition SetCurrentProfileName :: "string \<Rightarrow> rootConfig \<Rightarrow> rootConfig" where
  "SetCurrentProfileName name rc = rc\<lparr>Current := name\<rparr>"

definition profileToMap :: "MeegleConfig \<Rightarrow> json_object" where
  "profileToMap cfg =
     (if cfgHost cfg \<noteq> [] then [(''host'', JString (cfgHost cfg))] else []) @
     (if cfgHeaders cfg \<noteq> [] then [(''headers'', JObject (map (\<lambda>(k, v). (k, JString v)) (cfgHeaders cfg)))] else []) @
     (if cfgAccessToken cfg \<noteq> [] then [(''user_access_token'', JString (cfgAccessToken cfg))] else []) @
     (if cfgAccessTokenHeader cfg \<noteq> [] then [(''access_token_header'', JString (cfgAccessTokenHeader cfg))] else []) @
     (if cfgUserAgent cfg \<noteq> [] then [(''user_agent'', JString (cfgUserAgent cfg))] else [])"

definition string_field :: "json_object \<Rightarrow> string \<Rightarrow> string" where
  "string_field m k = (case map_of m k of Some (JString s) \<Rightarrow> s | _ \<Rightarrow> [])"

definition header_text :: "(json \<Rightarrow> string) \<Rightarrow> json \<Rightarrow> string" where
  "header_text show_any v = (case v of JString s \<Rightarrow> s | _ \<Rightarrow> show_any v)"

definition mapToProfile :: "(json \<Rightarrow> string) \<Rightarrow> json_object \<Rightarrow> MeegleConfig" where
  "mapToProfile show_any m =
     \<lparr>cfgHost = string_field m ''host'',
      cfgHeaders = (case map_of m ''headers'' of
        Some (JObject h) \<Rightarrow> map (\<lambda>(k, v). (k, header_text show_any v)) h | _ \<Rightarrow> []),
      cfgAccessToken = string_field m ''user_access_token'',
      cfgAccessTokenHeader = string_field m ''access_token_header'',
      cfgUserAgent = string_field m ''user_agent''\<rparr>"

definition LoadProfileConfig :: "(json \<Rightarrow> string) \<Rightarrow> string \<Rightarrow> rootConfig \<Rightarrow> MeegleConfig" where
  "LoadProfileConfig show_any profile rc =
     (case map_of (Profiles rc) profile of None \<Rightarrow> empty_config | Some m \<Rightarrow> mapToProfile show_any m)"

definition LoadConfig :: "(json \<Rightarrow> string) \<Rightarrow> string \<Rightarrow> rootConfig \<Rightarrow> MeegleConfig" where
  "LoadConfig show_any profile rc =
     LoadProfileConfig show_any (if profile = [] then GetCurrentProfileName rc else profile) rc"

definition profile_map :: "string \<Rightarrow> rootConfig \<Rightarrow> json_object" where
  "profile_map profile rc = (case map_of (Profiles rc) profile of None \<Rightarrow> [] | Some m \<Rightarrow> m)"

definition put_profile :: "string \<Rightarrow> json_object \<Rightarrow> rootConfig \<Rightarrow> rootConfig" where
  "put_profile profile m rc =
     rc\<lparr>Profiles := AList.update profile m (Profiles rc), Current := (if Current rc = [] then profile else Current rc)\<rparr>"

definition saved_fields :: "MeegleConfig \<Rightarrow> json_object \<Rightarrow> json_object" where
  "saved_fields cfg m =
     (let m1 = fold (\<lambda>(k, v). AList.update k v) (profileToMap cfg) m;
          m2 = (if cfgHost cfg = [] then AList.delete ''host'' m1 else m1)
      in if cfgHeaders cfg = [] then AList.delete ''headers'' m2 else m2)"

definition SaveProfileConfig :: "string \<Rightarrow> MeegleConfig \<Rightarrow> rootConfig \<Rightarrow> rootConfig" where
  "SaveProfileConfig profile cfg rc = put_profile profile (saved_fields cfg (profile_map profile rc)) rc"

definition GetProfileValue :: "string \<Rightarrow> string \<Rightarrow> rootConfig \<Rightarrow> json option" where
  "GetProfileValue profile key rc = map_of (profile_map profile rc) key"

text \<open>\<open>decode\<close> is \<open>jsonvalue.Unmarshal\<close>; a text that is no JSON is stored as a string.\<close>

definition SetProfileValue ::
    "(string \<Rightarrow> json option) \<Rightarrow> string \<Rightarrow> string \<Rightarrow> string \<Rightarrow> rootConfig \<Rightarrow> rootConfig" where
  "SetProfileValue decode profile key val rc =
     put_profile profile
       (AList.update key (case decode val of Some v \<Rightarrow> v | None \<Rightarrow> JString val) (profile_map profile rc)) rc"

definition ListProfiles :: "rootConfig \<Rightarrow> string list \<times> string" where
  "ListProfiles rc = (sort (map fst (Profiles rc)), GetCurrentProfileName rc)"

definition DeleteProfile :: "string \<Rightarrow> rootConfig \<Rightarrow> rootConfig" where
  "DeleteProfile name rc =
     (let rest = AList.delete name (Profiles rc);
          rc' = rc\<lparr>Profiles := rest\<rparr>
      in if Current rc = name then
           rc'\<lparr>Current := (case sort (map fst rest) of [] \<Rightarrow> ''default'' | first # _ \<Rightarrow> first)\<rparr>
         else rc')"

section \<open>Environment variables and addresses\<close>

definition is_name_start :: "char \<Rightarrow> bool" where
  "is_name_start c = (CHR ''A'' \<le> c \<and> c \<le> CHR ''Z'' \<or> is_lower c \<or> c = CHR ''_'')"

text \<open>The pattern \<open>^\$\{([A-Za-z_][A-Za-z0-9_]*)\}$\<close>: the name of the variable.\<close>

definition env_template :: "string \<Rightarrow> string option" where
  "env_template raw =
     (if HasPrefix raw ''${'' \<and> HasSuffix raw ''}'' then
        (let name = TrimSuffix (TrimPrefix raw ''${'') ''}'' in
         case name of
           c # cs \<Rightarrow> (if is_name_start c \<and> list_all (\<lambda>d. is_name_start d \<or> is_digit d) cs then Some name else None)
         | [] \<Rightarrow> None)
      else None)"

type_synonym environ = "string \<Rightarrow> string option"

definition Getenv :: "environ \<Rightarrow> string \<Rightarrow> string" where
  "Getenv env name = (case env name of Some v \<Rightarrow> v | None \<Rightarrow> [])"

text \<open>The error is the name of a variable that is not set, below the field that refers to it.\<close>

definition ExpandEnvTemplate :: "environ \<Rightarrow> string \<Rightarrow> (string, string) result" where
  "ExpandEnvTemplate env raw =
     (case env_template raw of
        None \<Rightarrow> Inr raw
      | Some name \<Rightarrow> (if Getenv env name = [] then Inl name else Inr (Getenv env name)))"

fun expand_headers :: "environ \<Rightarrow> (string \<times> string) list \<Rightarrow> (string \<times> string, (string \<times> string) list) result" where
  "expand_headers env [] = Inr []"
| "expand_headers env ((k, raw) # hs) =
     (case ExpandEnvTemplate env raw of
        Inl name \<Rightarrow> Inl (''headers.'' @ k, name)
      | Inr v \<Rightarrow> (case expand_headers env hs of Inl e \<Rightarrow> Inl e | Inr hs' \<Rightarrow> Inr ((k, v) # hs')))"

definition ExpandEnv :: "environ \<Rightarrow> MeegleConfig \<Rightarrow> (string \<times> string, MeegleConfig) result" where
  "ExpandEnv env c =
     (case ExpandEnvTemplate env (cfgHost c) of
        Inl n \<Rightarrow> Inl (''host'', n)
      | Inr host \<Rightarrow>
          (case ExpandEnvTemplate env (cfgAccessToken c) of
             Inl n \<Rightarrow> Inl (''user_access_token'', n)
           | Inr token \<Rightarrow>
               (case ExpandEnvTemplate env (cfgAccessTokenHeader c) of
                  Inl n \<Rightarrow> Inl (''access_token_header'', n)
                | Inr header \<Rightarrow>
                    (case ExpandEnvTemplate env (cfgUserAgent c) of
                       Inl n \<Rightarrow> Inl (''user_agent'', n)
                     | Inr agent \<Rightarrow>
                         (case expand_headers env (cfgHeaders c) of
                            Inl e \<Rightarrow> Inl e
                          | Inr hs \<Rightarrow>
                              Inr \<lparr>cfgHost = host, cfgHeaders = hs, cfgAccessToken = token,
                                   cfgAccessTokenHeader = header, cfgUserAgent = agent\<rparr>)))))"

definition sanitizeHost :: "string \<Rightarrow> string" where
  "sanitizeHost host =
     (if Contains host ''://'' then (case url_Parse host of Some u \<Rightarrow> urlHost u | None \<Rightarrow> host) else host)"

definition server_host :: "MeegleConfig \<Rightarrow> string" where
  "server_host cfg = sanitizeHost (if cfgHost cfg = [] then ''meegle.com'' else cfgHost cfg)"

definition GetServerURL :: "MeegleConfig \<Rightarrow> string" where
  "GetServerURL cfg = ''https://'' @ server_host cfg @ ''/mcp_server/v1''"

definition GetAPIBaseURL :: "MeegleConfig \<Rightarrow> string" where
  "GetAPIBaseURL cfg = ''https://'' @ server_host cfg"

definition IsConfigured :: "(json \<Rightarrow> string) \<Rightarrow> string \<Rightarrow> rootConfig \<Rightarrow> bool" where
  "IsConfigured show_any profile rc = (cfgHost (LoadConfig show_any profile rc) \<noteq> [])"

section \<open>What is saved is loaded\<close>

lemma map_of_update_all:
  "map_of (fold (\<lambda>(k, v). AList.update k v) kvs m) = map_of m ++ map_of (rev kvs)"
  by (induction kvs arbitrary: m) (auto simp: update_conv')

lemma rev_profile_fields:
  "map_of (rev (profileToMap cfg)) ''host'' = (if cfgHost cfg = [] then None else Some (JString (cfgHost cfg)))"
  "map_of (rev (profileToMap cfg)) ''headers'' =
     (if cfgHeaders cfg = [] then None else Some (JObject (map (\<lambda>(k, v). (k, JString v)) (cfgHeaders cfg))))"
  "map_of (rev (profileToMap cfg)) ''user_access_token'' =
     (if cfgAccessToken cfg = [] then None else Some (JString (cfgAccessToken cfg)))"
  "map_of (rev (profileToMap cfg)) ''access_token_header'' =
     (if cfgAccessTokenHeader cfg = [] then None else Some (JString (cfgAccessTokenHeader cfg)))"
  "map_of (rev (profileToMap cfg)) ''user_agent'' = (if cfgUserAgent cfg = [] then None else Some (JString (cfgUserAgent cfg)))"
  by (simp_all add: profileToMap_def)

lemma headers_back: "map (\<lambda>(k, v). (k, header_text sh v)) (map (\<lambda>(k, v). (k, JString v)) hs) = hs"
  by (induction hs) (auto simp: header_text_def)

definition kept :: "string \<Rightarrow> string \<Rightarrow> string" where
  "kept new old = (if new = [] then old else new)"

definition known_fields :: "string list" where
  "known_fields = [''host'', ''headers'', ''user_access_token'', ''access_token_header'', ''user_agent'']"

lemma saved_fields_of:
  "map_of (saved_fields cfg m) k =
     (if k = ''host'' \<and> cfgHost cfg = [] \<or> k = ''headers'' \<and> cfgHeaders cfg = [] then None
      else (map_of m ++ map_of (rev (profileToMap cfg))) k)"
  by (auto simp: saved_fields_def Let_def delete_conv' map_of_update_all)

text \<open>What is read of the fields that were written.\<close>

lemma saved_fields_read:
  "mapToProfile show_any (saved_fields cfg m) =
     (let old = mapToProfile show_any m in
      cfg\<lparr>cfgAccessToken := kept (cfgAccessToken cfg) (cfgAccessToken old),
          cfgAccessTokenHeader := kept (cfgAccessTokenHeader cfg) (cfgAccessTokenHeader old),
          cfgUserAgent := kept (cfgUserAgent cfg) (cfgUserAgent old)\<rparr>)"
proof -
  have host: "string_field (saved_fields cfg m) ''host'' = cfgHost cfg"
    unfolding string_field_def saved_fields_of by (simp add: map_add_def rev_profile_fields)
  have headers: "(case map_of (saved_fields cfg m) ''headers'' of
      Some (JObject h) \<Rightarrow> map (\<lambda>(k, v). (k, header_text show_any v)) h | _ \<Rightarrow> []) = cfgHeaders cfg"
    unfolding saved_fields_of by (simp add: map_add_def rev_profile_fields headers_back del: map_map)
  have rest: "string_field (saved_fields cfg m) ''user_access_token'' = kept (cfgAccessToken cfg) (string_field m ''user_access_token'')"
    "string_field (saved_fields cfg m) ''access_token_header'' = kept (cfgAccessTokenHeader cfg) (string_field m ''access_token_header'')"
    "string_field (saved_fields cfg m) ''user_agent'' = kept (cfgUserAgent cfg) (string_field m ''user_agent'')"
    unfolding string_field_def saved_fields_of by (simp_all add: map_add_def rev_profile_fields kept_def)
  show ?thesis unfolding mapToProfile_def host headers rest by simp
qed

text \<open>Fields the program does not know stay.\<close>

lemma unknown_field_kept: "\<not> List.member known_fields k \<Longrightarrow> map_of (saved_fields cfg m) k = map_of m k"
  by (auto simp: saved_fields_of known_fields_def map_add_def profileToMap_def split: option.split)

lemma profile_map_put: "profile_map q (put_profile p m rc) = (if q = p then m else profile_map q rc)"
  by (simp add: profile_map_def put_profile_def update_conv')

lemma Load_profile_map: "LoadProfileConfig show_any p rc = mapToProfile show_any (profile_map p rc)"
  by (simp add: LoadProfileConfig_def profile_map_def mapToProfile_def string_field_def empty_config_def split: option.split)


text \<open>The current profile exists after a deletion, or it is the default one.\<close>

lemma current_after_delete:
  "Current (DeleteProfile name rc) = Current rc \<and> Current rc \<noteq> name \<or>
   Current (DeleteProfile name rc) = ''default'' \<and> Profiles (DeleteProfile name rc) = [] \<or>
   Current (DeleteProfile name rc) \<in> fst ` set (Profiles (DeleteProfile name rc))"
proof -
  have "(case sort ks of [] \<Rightarrow> ''default'' | first # _ \<Rightarrow> first) \<in> set ks" if "ks \<noteq> []" for ks
  proof (cases "sort ks")
    case Nil
    then have "set ks = {}" by (metis set_empty set_sort)
    with that show ?thesis by simp
  next
    case (Cons k ks')
    have "k \<in> set (sort ks)" unfolding Cons by simp
    then have "k \<in> set ks" unfolding set_sort .
    then show ?thesis using Cons by simp
  qed
  from this[of "map fst (AList.delete name (Profiles rc))"] show ?thesis
    by (cases "AList.delete name (Profiles rc) = []") (auto simp: DeleteProfile_def Let_def)
qed

end
