(* ===== verification/Identity.thy ===== *)
theory Identity
  imports Config "HOL-Library.Multiset"
begin

text \<open>
  Who the client acts as: the chain of credential providers (\<open>extension/credential/registry.go\<close>) and the
  resolution of the identity from providers, environment, configuration and stored token
  (\<open>internal/products/meegle/identity.go\<close>).

  A callback of a provider is what it does within its deadline.  \<open>stored_token\<close> is what the token manager of a
  profile and a host returns, the empty text when it fails.
\<close>

section \<open>Providers\<close>

datatype 'a callback = Answer 'a | Fails string | Panics string | Hangs

record Account =
  acHost :: string
  acProfile :: string

record Token =
  tokValue :: string
  tokHeader :: string
  tokSource :: string

record TokenSpec =
  tsHost :: string
  tsProfile :: string

record Provider =
  providerName :: "string callback"
  providerPriority :: "int callback option"
  ResolveAccount :: "Account option callback"
  ResolveToken :: "TokenSpec \<Rightarrow> Token option callback"

record Registration =
  regProvider :: Provider
  regName :: string
  regPriority :: int

record RegistrationIssue =
  issueProvider :: string
  issueStage :: string

record provider_registry =
  providers :: "Registration list"
  registrationIssues :: "RegistrationIssue list"

definition defaultPriority :: int where "defaultPriority = 10"

text \<open>The pattern \<open>^[a-z0-9][a-z0-9-]*$\<close>.\<close>

definition providerNamePattern :: "string \<Rightarrow> bool" where
  "providerNamePattern s =
     (case s of [] \<Rightarrow> False
      | c # cs \<Rightarrow> (is_lower c \<or> is_digit c) \<and> list_all (\<lambda>d. is_lower d \<or> is_digit d \<or> d = CHR ''-'') cs)"

definition resolveName :: "Provider \<Rightarrow> string \<times> bool" where
  "resolveName p =
     (case providerName p of
        Answer n \<Rightarrow> (if providerNamePattern n then (n, True) else (''<invalid>'', False))
      | _ \<Rightarrow> (''<unavailable>'', False))"

definition resolvePriority :: "Provider \<Rightarrow> int \<times> bool" where
  "resolvePriority p =
     (case providerPriority p of
        None \<Rightarrow> (defaultPriority, True)
      | Some (Answer n) \<Rightarrow> (n, True)
      | Some _ \<Rightarrow> (defaultPriority, False))"

text \<open>A nil provider is not registered.\<close>

definition Register :: "Provider option \<Rightarrow> provider_registry \<Rightarrow> provider_registry" where
  "Register provider r =
     (case provider of
        None \<Rightarrow> r
      | Some p \<Rightarrow>
          (let (name, name_ok) = resolveName p; (priority, priority_ok) = resolvePriority p in
           \<lparr>providers = sort_key regPriority (providers r @ [\<lparr>regProvider = p, regName = name, regPriority = priority\<rparr>]),
            registrationIssues = registrationIssues r @
              (if name_ok then [] else [\<lparr>issueProvider = name, issueStage = ''name''\<rparr>]) @
              (if priority_ok then [] else [\<lparr>issueProvider = name, issueStage = ''priority''\<rparr>])\<rparr>))"

definition Validate_providers :: "provider_registry \<Rightarrow> bool" where
  "Validate_providers r = (registrationIssues r = [])"

text \<open>The chain is the registered providers by priority, and those of equal priority in their order.\<close>

definition registration_of :: "Provider \<Rightarrow> Registration" where
  "registration_of p = \<lparr>regProvider = p, regName = fst (resolveName p), regPriority = fst (resolvePriority p)\<rparr>"

lemma sort_key_snoc: "sort_key f (sort_key f xs @ [x]) = sort_key f (xs @ [x])"
proof (rule properties_for_sort_key)
  show "mset (sort_key f (xs @ [x])) = mset (sort_key f xs @ [x])" by simp
  show "filter (\<lambda>y. f k = f y) (sort_key f (xs @ [x])) = filter (\<lambda>y. f k = f y) (sort_key f xs @ [x])" for k
    by (simp only: eq_commute[of "f k"] sort_key_stable filter_append)
  show "sorted (map f (sort_key f (xs @ [x])))" by simp
qed

lemma registered_chain:
  "providers (fold Register ps \<lparr>providers = [], registrationIssues = []\<rparr>) =
     sort_key regPriority (map registration_of (List.map_filter id ps))"
proof (induction ps rule: rev_induct)
  case (snoc p ps)
  then show ?case
    by (cases p)
      (simp_all add: Register_def Let_def case_prod_beta registration_of_def[symmetric] sort_key_snoc List.map_filter_def)
qed (simp add: List.map_filter_def)

section \<open>Identities\<close>

datatype IdentitySource = SourceUnset | SourceEnv | SourceConfig | SourceStore | SourceExtension

definition IdentitySource_String :: "IdentitySource \<Rightarrow> string" where
  "IdentitySource_String s =
     (case s of SourceEnv \<Rightarrow> ''env'' | SourceConfig \<Rightarrow> ''config'' | SourceStore \<Rightarrow> ''store''
      | SourceExtension \<Rightarrow> ''extension'' | SourceUnset \<Rightarrow> ''unset'')"

text \<open>\<open>idManaged\<close> says that the token manager and the store are attached.\<close>

record ResolvedIdentity =
  idHost :: string
  idHeaders :: "(string \<times> string) list"
  idToken :: string
  idSource :: IdentitySource
  idProfileName :: string
  idAccessTokenHeader :: string
  idUserAgentCaller :: string
  idManaged :: bool
  idCredentialProvider :: string
  idCredentialTokenSource :: string

definition no_identity :: ResolvedIdentity where
  "no_identity =
     \<lparr>idHost = [], idHeaders = [], idToken = [], idSource = SourceUnset, idProfileName = [], idAccessTokenHeader = [],
      idUserAgentCaller = [], idManaged = False, idCredentialProvider = [], idCredentialTokenSource = []\<rparr>"

datatype identity_error =
    ProvidersInvalid
  | AccountFailed string
  | TokenFailedBy string
  | EmptyToken string
  | InvalidTokenHeader string
  | ConfigUnresolved string string
  | SnapshotFailed

definition or_env :: "environ \<Rightarrow> string \<Rightarrow> string \<Rightarrow> string" where
  "or_env env name v = (if Getenv env name \<noteq> [] then Getenv env name else v)"

definition resolveIdentityWithoutStore ::
    "environ \<Rightarrow> MeegleConfig \<Rightarrow> (string \<times> string, ResolvedIdentity \<times> MeegleConfig) result" where
  "resolveIdentityWithoutStore env cfg0 =
     (case ExpandEnv env cfg0 of
        Inl e \<Rightarrow> Inl e
      | Inr cfg \<Rightarrow>
          (let out = no_identity\<lparr>idHost := sanitizeHost (or_env env ''MEEGLE_HOST'' (cfgHost cfg)), idHeaders := cfgHeaders cfg,
                 idAccessTokenHeader := or_env env ''MEEGLE_ACCESS_TOKEN_HEADER'' (cfgAccessTokenHeader cfg),
                 idUserAgentCaller := or_env env ''MEEGLE_USER_AGENT'' (cfgUserAgent cfg)\<rparr>;
               tok = Getenv env ''MEEGLE_USER_ACCESS_TOKEN''
           in Inr (if tok \<noteq> [] then out\<lparr>idToken := tok, idSource := SourceEnv\<rparr>
                   else if cfgAccessToken cfg \<noteq> [] then out\<lparr>idToken := cfgAccessToken cfg, idSource := SourceConfig\<rparr>
                   else out, cfg)))"

type_synonym token_source = "string \<Rightarrow> string \<Rightarrow> (string \<times> string) list \<Rightarrow> string"

definition attachStoredToken ::
    "token_source \<Rightarrow> ResolvedIdentity \<Rightarrow> string \<Rightarrow> MeegleConfig \<Rightarrow> ResolvedIdentity" where
  "attachStoredToken stored_token out profile cfg =
     (let tok = stored_token profile (idHost out) (cfgHeaders cfg) in
      if tok \<noteq> [] then out\<lparr>idToken := tok, idSource := SourceStore, idManaged := True\<rparr> else out)"

definition ResolveIdentity ::
    "environ \<Rightarrow> token_source \<Rightarrow> MeegleConfig \<Rightarrow> string \<Rightarrow> (string \<times> string, ResolvedIdentity) result" where
  "ResolveIdentity env stored_token cfg profile =
     (case resolveIdentityWithoutStore env cfg of
        Inl e \<Rightarrow> Inl e
      | Inr (out, expanded) \<Rightarrow>
          Inr ((if idToken out = [] then attachStoredToken stored_token out profile expanded else out)
               \<lparr>idProfileName := profile\<rparr>))"

section \<open>The identity of the command line\<close>

text \<open>The first provider that gives an account or a token; one that fails ends the search.\<close>

fun first_account :: "Registration list \<Rightarrow> (identity_error, (string \<times> Account) option) result" where
  "first_account [] = Inr None"
| "first_account (r # rs) =
     (case ResolveAccount (regProvider r) of
        Answer None \<Rightarrow> first_account rs
      | Answer (Some a) \<Rightarrow> Inr (Some (regName r, a))
      | _ \<Rightarrow> Inl (AccountFailed (regName r)))"

fun first_token :: "TokenSpec \<Rightarrow> Registration list \<Rightarrow> (identity_error, (string \<times> Token) option) result" where
  "first_token spec [] = Inr None"
| "first_token spec (r # rs) =
     (case ResolveToken (regProvider r) spec of
        Answer None \<Rightarrow> first_token spec rs
      | Answer (Some t) \<Rightarrow> Inr (Some (regName r, t))
      | _ \<Rightarrow> Inl (TokenFailedBy (regName r)))"

definition label_char :: "char \<Rightarrow> bool" where
  "label_char c = (is_lower c \<or> is_digit c \<or> c \<in> {CHR ''-'', CHR ''_'', CHR ''.''})"

definition safeCredentialLabel :: "string \<Rightarrow> string \<Rightarrow> string" where
  "safeCredentialLabel val fallback =
     (if val = [] then fallback
      else if length val > 64 \<or> \<not> list_all label_char val then ''<invalid>''
      else val)"

definition header_char :: "char \<Rightarrow> bool" where
  "header_char c =
     (is_alnum c \<or> c \<in> set ''!#$%&*+-.^_`|~'' \<or> c = CHR 0x27)"

definition validHTTPHeaderName :: "string \<Rightarrow> bool" where
  "validHTTPHeaderName val = (val \<noteq> [] \<and> list_all header_char val)"

definition is_authorization :: "string \<Rightarrow> bool" where
  "is_authorization h = (ToLower h = ''authorization'')"

text \<open>The token of a provider replaces whatever the environment or the configuration gave.\<close>

definition use_extension_token ::
    "string \<Rightarrow> Token \<Rightarrow> ResolvedIdentity \<Rightarrow> (identity_error, ResolvedIdentity) result" where
  "use_extension_token name t out =
     (if tokValue t = [] then Inl (EmptyToken name)
      else
        (let out' = out\<lparr>idToken := tokValue t, idSource := SourceExtension, idManaged := False,
               idCredentialProvider := name, idCredentialTokenSource := safeCredentialLabel (tokSource t) ''extension''\<rparr>
         in if tokHeader t = [] \<or> is_authorization (tokHeader t) then Inr (out'\<lparr>idAccessTokenHeader := []\<rparr>)
            else if \<not> validHTTPHeaderName (tokHeader t) then Inl (InvalidTokenHeader name)
            else Inr (out'\<lparr>idAccessTokenHeader := tokHeader t\<rparr>)))"

record identity_world =
  world_env :: environ
  world_config :: rootConfig
  world_show :: "json \<Rightarrow> string"
  world_tokens :: token_source
  world_snapshot :: "string \<Rightarrow> string option"
  world_registry :: provider_registry

text \<open>
  The profile, the host and the configuration after the account of a provider, with the error of the
  configuration kept for later.
\<close>

definition account_base ::
    "identity_world \<Rightarrow> MeegleConfig \<Rightarrow> string \<Rightarrow> (string \<times> Account) option \<Rightarrow>
     string \<times> ResolvedIdentity \<times> MeegleConfig \<times> (string \<times> string) option" where
  "account_base w cfg profile account =
     (let profile' = (case account of Some (n, a) \<Rightarrow> (if acProfile a \<noteq> [] then acProfile a else profile) | None \<Rightarrow> profile);
          selected = (case account of
            Some (n, a) \<Rightarrow> (if acProfile a \<noteq> [] then LoadConfig (world_show w) (acProfile a) (world_config w) else cfg)
          | None \<Rightarrow> cfg);
          (base, expanded, err) =
            (case resolveIdentityWithoutStore (world_env w) selected of
               Inl e \<Rightarrow> (no_identity, empty_config, Some e)
             | Inr (b, x) \<Rightarrow> (b, x, None));
          host = (case account of Some (n, a) \<Rightarrow> (if acHost a \<noteq> [] then sanitizeHost (acHost a) else []) | None \<Rightarrow> []);
          hosted = (if host \<noteq> [] then base\<lparr>idHost := host\<rparr> else base);
          named = hosted\<lparr>idCredentialProvider := (case account of Some (n, a) \<Rightarrow> n | None \<Rightarrow> [])\<rparr>
      in (profile', named, expanded, err))"

definition stored_identity ::
    "identity_world \<Rightarrow> bool \<Rightarrow> string \<Rightarrow> MeegleConfig \<Rightarrow> ResolvedIdentity \<Rightarrow> (identity_error, ResolvedIdentity) result" where
  "stored_identity w refresh profile expanded out =
     (if idToken out \<noteq> [] then Inr out
      else if refresh then Inr (attachStoredToken (world_tokens w) out profile expanded)
      else (case world_snapshot w profile of
              None \<Rightarrow> Inl SnapshotFailed
            | Some tok \<Rightarrow> Inr (if tok \<noteq> [] then out\<lparr>idToken := tok, idSource := SourceStore\<rparr> else out)))"

definition resolveCLIIdentity ::
    "identity_world \<Rightarrow> MeegleConfig \<Rightarrow> string \<Rightarrow> bool \<Rightarrow> (identity_error, ResolvedIdentity) result" where
  "resolveCLIIdentity w cfg profile refresh =
     (if \<not> Validate_providers (world_registry w) then Inl ProvidersInvalid
      else
        (case first_account (providers (world_registry w)) of
           Inl e \<Rightarrow> Inl e
         | Inr account \<Rightarrow>
             (case account_base w cfg profile account of (profile', base, expanded, cfg_err) \<Rightarrow>
                (case first_token \<lparr>tsHost = idHost base, tsProfile = profile'\<rparr> (providers (world_registry w)) of
                   Inl e \<Rightarrow> Inl e
                 | Inr None \<Rightarrow>
                     (case cfg_err of
                        Some (field, name) \<Rightarrow> Inl (ConfigUnresolved field name)
                      | None \<Rightarrow>
                          (case stored_identity w refresh profile' expanded base of
                             Inl e \<Rightarrow> Inl e
                           | Inr out \<Rightarrow> Inr (out\<lparr>idProfileName := profile'\<rparr>)))
                 | Inr (Some (name, t)) \<Rightarrow>
                     (case use_extension_token name t base of
                        Inl e \<Rightarrow> Inl e
                      | Inr out \<Rightarrow>
                          (case cfg_err of
                             Some (field, v) \<Rightarrow>
                               (if idHost out = [] then Inl (ConfigUnresolved field v) else Inr (out\<lparr>idProfileName := profile'\<rparr>))
                           | None \<Rightarrow> Inr (out\<lparr>idProfileName := profile'\<rparr>)))))))"

section \<open>What an identity rests on\<close>

text \<open>A provider that gave nothing, and the chain up to the one that decided.\<close>

definition no_account :: "Registration \<Rightarrow> bool" where
  "no_account r = (ResolveAccount (regProvider r) = Answer None)"

definition no_token :: "TokenSpec \<Rightarrow> Registration \<Rightarrow> bool" where
  "no_token spec r = (ResolveToken (regProvider r) spec = Answer None)"

lemma first_token_find:
  "first_token spec rs =
     (case find (\<lambda>r. \<not> no_token spec r) rs of
        None \<Rightarrow> Inr None
      | Some r \<Rightarrow> (case ResolveToken (regProvider r) spec of
          Answer (Some t) \<Rightarrow> Inr (Some (regName r, t)) | _ \<Rightarrow> Inl (TokenFailedBy (regName r))))"
  by (induction rs) (auto simp: no_token_def split: callback.splits option.splits)

lemma first_account_find:
  "first_account rs =
     (case find (\<lambda>r. \<not> no_account r) rs of
        None \<Rightarrow> Inr None
      | Some r \<Rightarrow> (case ResolveAccount (regProvider r) of
          Answer (Some a) \<Rightarrow> Inr (Some (regName r, a)) | _ \<Rightarrow> Inl (AccountFailed (regName r))))"
  by (induction rs) (auto simp: no_account_def split: callback.splits option.splits)

text \<open>The tokens that are built in, by precedence, each with its source.\<close>

definition builtin_token ::
    "identity_world \<Rightarrow> bool \<Rightarrow> string \<Rightarrow> string \<Rightarrow> MeegleConfig \<Rightarrow> string \<times> IdentitySource" where
  "builtin_token w refresh profile host expanded =
     (let from_env = Getenv (world_env w) ''MEEGLE_USER_ACCESS_TOKEN'';
          from_store = (if refresh then world_tokens w profile host (cfgHeaders expanded)
            else (case world_snapshot w profile of Some t \<Rightarrow> t | None \<Rightarrow> []))
      in if from_env \<noteq> [] then (from_env, SourceEnv)
         else if cfgAccessToken expanded \<noteq> [] then (cfgAccessToken expanded, SourceConfig)
         else if from_store \<noteq> [] then (from_store, SourceStore)
         else ([], SourceUnset))"

definition config_token :: "environ \<Rightarrow> MeegleConfig \<Rightarrow> string \<times> IdentitySource" where
  "config_token env x =
     (let from_env = Getenv env ''MEEGLE_USER_ACCESS_TOKEN'' in
      if from_env \<noteq> [] then (from_env, SourceEnv)
      else if cfgAccessToken x \<noteq> [] then (cfgAccessToken x, SourceConfig) else ([], SourceUnset))"

lemma without_store_token:
  "resolveIdentityWithoutStore env cfg = Inr (b, x) \<Longrightarrow>
   (idToken b, idSource b) = config_token env x \<and> \<not> idManaged b"
  by (auto simp: resolveIdentityWithoutStore_def config_token_def Let_def no_identity_def split: sum.splits if_splits)

lemma base_token:
  assumes "account_base w cfg profile account = (p, base, x, None)"
  shows "(idToken base, idSource base) = config_token (world_env w) x \<and> \<not> idManaged base"
proof -
  obtain selected b where b: "resolveIdentityWithoutStore (world_env w) selected = Inr (b, x)"
    "idToken base = idToken b" "idSource base = idSource b" "idManaged base = idManaged b"
    using assms unfolding account_base_def Let_def by (auto split: sum.splits if_splits)
  then show ?thesis using without_store_token[OF b(1)] by simp
qed

lemma stored_identity_token:
  assumes "stored_identity w refresh profile x base = Inr out" "\<not> idManaged base"
    and "(idToken base, idSource base) = config_token (world_env w) x"
  shows "(idToken out, idSource out) = builtin_token w refresh profile (idHost base) x \<and>
    (idManaged out \<longrightarrow> idSource out = SourceStore) \<and> idHost out = idHost base"
  using assms
  by (auto simp: stored_identity_def attachStoredToken_def builtin_token_def config_token_def Let_def split: if_splits option.splits)

lemma extension_token_used:
  assumes "use_extension_token name t base = Inr out"
  shows "idToken out = tokValue t \<and> tokValue t \<noteq> [] \<and> idSource out = SourceExtension \<and> \<not> idManaged out \<and>
    idCredentialProvider out = name \<and> idHost out = idHost base \<and>
    (idAccessTokenHeader out = [] \<or> validHTTPHeaderName (idAccessTokenHeader out) \<and> \<not> is_authorization (idAccessTokenHeader out))"
  using assms by (auto simp: use_extension_token_def Let_def split: if_splits)

section \<open>Properties\<close>

text \<open>
  C28.  Where the token of an identity comes from: no provider is broken; if any provider of the chain answers
  the request for a token with more than nothing, the first one that does gave a token that is used, with
  nothing attached that could refresh or clear it; only if all of them have nothing, a built-in token is used,
  the environment before the configuration before the store.  A failing provider never lets a built-in token
  through, and only a stored token is ever managed.  An error of the configuration is hidden only by a
  provider's token together with a host.
\<close>

theorem token_source:
  assumes "resolveCLIIdentity w cfg profile refresh = Inr i"
  shows "registrationIssues (world_registry w) = [] \<and>
    (\<exists>account p base x cfg_err.
       first_account (providers (world_registry w)) = Inr account \<and>
       account_base w cfg profile account = (p, base, x, cfg_err) \<and> idProfileName i = p \<and> idHost i = idHost base \<and>
       (case find (\<lambda>r. \<not> no_token \<lparr>tsHost = idHost base, tsProfile = p\<rparr> r) (providers (world_registry w)) of
          Some r \<Rightarrow>
            ResolveToken (regProvider r) \<lparr>tsHost = idHost base, tsProfile = p\<rparr> \<in>
              {Answer (Some t) |t. tokValue t = idToken i \<and> tokValue t \<noteq> []} \<and>
            idSource i = SourceExtension \<and> \<not> idManaged i \<and> idCredentialProvider i = regName r \<and>
            (cfg_err = None \<or> idHost i \<noteq> [])
        | None \<Rightarrow>
            cfg_err = None \<and> (idToken i, idSource i) = builtin_token w refresh p (idHost base) x \<and>
            (idManaged i \<longrightarrow> idSource i = SourceStore)))"
proof -
  let ?rs = "providers (world_registry w)"
  from assms have issues: "registrationIssues (world_registry w) = []"
    by (simp add: resolveCLIIdentity_def Validate_providers_def split: if_splits)
  from assms obtain account where account: "first_account ?rs = Inr account"
    by (auto simp: resolveCLIIdentity_def split: if_splits sum.splits)
  obtain p base x cfg_err where base: "account_base w cfg profile account = (p, base, x, cfg_err)"
    by (cases "account_base w cfg profile account") auto
  let ?spec = "\<lparr>tsHost = idHost base, tsProfile = p\<rparr>"
  have i: "(case first_token ?spec ?rs of
       Inl e \<Rightarrow> Inl e
     | Inr None \<Rightarrow>
         (case cfg_err of
            Some (field, name) \<Rightarrow> Inl (ConfigUnresolved field name)
          | None \<Rightarrow> (case stored_identity w refresh p x base of Inl e \<Rightarrow> Inl e | Inr out \<Rightarrow> Inr (out\<lparr>idProfileName := p\<rparr>)))
     | Inr (Some (name, t)) \<Rightarrow>
         (case use_extension_token name t base of
            Inl e \<Rightarrow> Inl e
          | Inr out \<Rightarrow>
              (case cfg_err of
                 Some (field, v) \<Rightarrow> (if idHost out = [] then Inl (ConfigUnresolved field v) else Inr (out\<lparr>idProfileName := p\<rparr>))
               | None \<Rightarrow> Inr (out\<lparr>idProfileName := p\<rparr>)))) = Inr i"
    using assms by (simp add: resolveCLIIdentity_def account base split: if_splits)
  show ?thesis
  proof (cases "find (\<lambda>r. \<not> no_token ?spec r) ?rs")
    case None
    then have "first_token ?spec ?rs = Inr None" by (simp add: first_token_find)
    with i obtain out where out: "cfg_err = None" "stored_identity w refresh p x base = Inr out" "i = out\<lparr>idProfileName := p\<rparr>"
      by (auto split: option.splits sum.splits)
    note t = base_token[OF base[unfolded out(1)]]
    from stored_identity_token[OF out(2) t[THEN conjunct2] t[THEN conjunct1]] issues account base None out(1,3) show ?thesis by auto
  next
    case (Some r)
    then obtain t where t: "ResolveToken (regProvider r) ?spec = Answer (Some t)" "first_token ?spec ?rs = Inr (Some (regName r, t))"
      using i by (auto simp: first_token_find split: callback.splits option.splits)
    with i obtain out where out: "use_extension_token (regName r) t base = Inr out" "i = out\<lparr>idProfileName := p\<rparr>"
      "cfg_err = None \<or> idHost out \<noteq> []"
      by (auto split: option.splits sum.splits if_splits)
    from extension_token_used[OF out(1)] issues account base Some out(2,3) t(1) show ?thesis by auto
  qed
qed

definition demo_provider :: "string \<Rightarrow> Token option callback \<Rightarrow> Provider" where
  "demo_provider n tok =
     \<lparr>providerName = Answer n, providerPriority = None, ResolveAccount = Answer None, ResolveToken = (\<lambda>spec. tok)\<rparr>"

definition demo_world :: identity_world where
  "demo_world =
     \<lparr>world_env = map_of [(''MEEGLE_USER_ACCESS_TOKEN'', ''e''), (''MEEGLE_HOST'', ''https://h.example/x'')],
      world_config = \<lparr>Current = [], Profiles = []\<rparr>, world_show = (\<lambda>v. []), world_tokens = (\<lambda>p h hs. ''s''),
      world_snapshot = (\<lambda>p. None),
      world_registry = fold Register
        [Some (demo_provider ''one'' (Answer None)),
         Some (demo_provider ''two'' (Answer (Some \<lparr>tokValue = ''t'', tokHeader = ''X-Token'', tokSource = ''oidc''\<rparr>)))]
        \<lparr>providers = [], registrationIssues = []\<rparr>\<rparr>"

theorem token_source_witness:
  "\<exists>i. resolveCLIIdentity demo_world empty_config ''default'' True = Inr i \<and>
     registrationIssues (world_registry demo_world) = [] \<and> idToken i = ''t'' \<and> idSource i = SourceExtension \<and>
     idHost i = ''h.example'' \<and> idAccessTokenHeader i = ''X-Token''"
proof -
  have "(case resolveCLIIdentity demo_world empty_config ''default'' True of
      Inl e \<Rightarrow> False
    | Inr i \<Rightarrow> idToken i = ''t'' \<and> idSource i = SourceExtension \<and> idHost i = ''h.example'' \<and> idAccessTokenHeader i = ''X-Token'')"
    by code_simp
  then obtain i where i: "resolveCLIIdentity demo_world empty_config ''default'' True = Inr i"
    "idToken i = ''t'' \<and> idSource i = SourceExtension \<and> idHost i = ''h.example'' \<and> idAccessTokenHeader i = ''X-Token''"
    by (auto split: sum.splits)
  show ?thesis by (intro exI[of _ i] conjI i(1) token_source[OF i(1), THEN conjunct1]) (simp_all add: i(2))
qed

end
