(* ===== verification/Registry_Setup.thy ===== *)
theory Registry_Setup
  imports Product_Registry Command_Runtime Identity
begin

text \<open>
  \<open>internal/products/meegle/registry.go\<close> (\<open>Setup\<close>, \<open>resolveToolsState\<close>, the placeholder trees), \<open>cache.go\<close>,
  \<open>file_cache.go\<close> and \<open>discovery/discover.go\<close>: where the tools come from, and the tree that is built when none
  can be had.

  The file of a cache is its decoded content, absent when it is missing or unreadable.  A client is what its
  \<open>ListTools\<close> returns.  What a run does beside its result is the list of its effects.
\<close>

section \<open>Caches\<close>

record 'a cached =
  cachedValue :: 'a
  cachedStale :: bool

definition jsonFileCache_Get :: "int \<Rightarrow> int \<Rightarrow> ('a \<Rightarrow> int) \<Rightarrow> 'a option \<Rightarrow> 'a cached option" where
  "jsonFileCache_Get now ttl timestamp content =
     map_option (\<lambda>v. \<lparr>cachedValue = v, cachedStale = (now - timestamp v > ttl)\<rparr>) content"

text \<open>\<open>newJSONFileCache\<close>: each profile but the default one has a file of its own.\<close>

definition cache_filename :: "string \<Rightarrow> string \<Rightarrow> string" where
  "cache_filename name profile =
     (if profile \<noteq> [] \<and> profile \<noteq> ''default'' then name @ ''-'' @ profile @ ''.json'' else name @ ''.json'')"

record cacheData =
  cdTimestamp :: int
  cdTools :: "ToolDefinition list"

definition DefaultTTL :: int where "DefaultTTL = 86400000"

definition ToolCache_Get :: "int \<Rightarrow> int \<Rightarrow> cacheData option \<Rightarrow> (ToolDefinition list \<times> bool) option" where
  "ToolCache_Get now ttl content =
     map_option (\<lambda>c. (cdTools (cachedValue c), cachedStale c)) (jsonFileCache_Get now ttl cdTimestamp content)"

definition ToolCache_Set :: "int \<Rightarrow> ToolDefinition list \<Rightarrow> cacheData" where
  "ToolCache_Set now tools = \<lparr>cdTimestamp = now, cdTools = tools\<rparr>"

section \<open>Resolving the tools\<close>

type_synonym tool_reply = "(call_error, ToolDefinition list) result"

definition DiscoverTools :: "tool_reply \<Rightarrow> tool_reply" where
  "DiscoverTools reply = reply"

record registry_setup =
  rsClient :: "tool_reply option"
  rsCache :: "cacheData option option"
  rsManaged :: bool
  rsActiveToken :: string
  rsSource :: IdentitySource
  rsGlobalFlags :: "FlagDef list"
  rsForceRefresh :: bool
  rsDegrade :: bool
  rsBootstrapError :: "call_error option"

datatype setup_effect = ClearTokenIfCurrent string | CacheTools "ToolDefinition list"

definition error_text :: "call_error \<Rightarrow> string" where
  "error_text e = (case e of MeegleError code msg status \<Rightarrow> msg | WrappingError msg cause \<Rightarrow> msg | OtherError msg \<Rightarrow> msg)"

definition discovery_error :: "call_error \<Rightarrow> call_error" where
  "discovery_error e = WrappingError (''tool discovery failed: '' @ error_text e) e"

definition token_rejected :: call_error where
  "token_rejected = MeegleError ''AUTH_REJECTED'' ''token rejected by server during tool discovery'' 0"

definition usable_cache :: "int \<Rightarrow> registry_setup \<Rightarrow> (ToolDefinition list \<times> bool) option" where
  "usable_cache now s =
     (case rsCache s of
        None \<Rightarrow> None
      | Some content \<Rightarrow>
          (case ToolCache_Get now DefaultTTL content of
             None \<Rightarrow> None
           | Some (tools, stale) \<Rightarrow> (if tools \<noteq> [] then Some (tools, stale \<or> rsForceRefresh s) else None)))"

definition stale_tools :: "int \<Rightarrow> registry_setup \<Rightarrow> ToolDefinition list option" where
  "stale_tools now s = map_option fst (usable_cache now s)"

definition resolveToolsState ::
    "int \<Rightarrow> registry_setup \<Rightarrow> (call_error, ToolDefinition list \<times> bool) result \<times> setup_effect list" where
  "resolveToolsState now s =
     (case usable_cache now s of
        Some (tools, False) \<Rightarrow> (Inr (tools, False), [])
      | _ \<Rightarrow>
          (case rsClient s of
             None \<Rightarrow> (Inr (case stale_tools now s of Some tools \<Rightarrow> tools | None \<Rightarrow> [], False), [])
           | Some reply \<Rightarrow>
               (case DiscoverTools reply of
                  Inl e \<Rightarrow>
                    (if IsUnauthorized e then
                       (if rsSource s \<noteq> SourceUnset then
                          (Inr ([], True),
                           if rsSource s = SourceStore \<and> rsManaged s then [ClearTokenIfCurrent (rsActiveToken s)] else [])
                        else (Inl token_rejected, []))
                     else (case stale_tools now s of
                             Some tools \<Rightarrow> (Inr (tools, False), [])
                           | None \<Rightarrow> (Inl (discovery_error e), [])))
                | Inr tools \<Rightarrow>
                    (if tools = [] then
                       (case stale_tools now s of
                          Some old \<Rightarrow> (Inr (old, False), [])
                        | None \<Rightarrow> (Inl (OtherError ''tool discovery returned empty list''), []))
                     else (Inr (tools, False), if rsCache s \<noteq> None then [CacheTools tools] else [])))))"

section \<open>Placeholders\<close>

definition isUnauthorizedErr :: "call_error \<Rightarrow> bool" where
  "isUnauthorizedErr e =
     (case as_meegle e of None \<Rightarrow> False | Some (code, status) \<Rightarrow> status = 401 \<or> code = ''AUTH_EXPIRED'')"

definition placeholder_node :: "(string \<times> string) list \<Rightarrow> string \<Rightarrow> CommandNode" where
  "placeholder_node tags name =
     CommandNode name []
       (help_of (resource_brief name) ''Dynamic Meegle commands are unavailable because tool discovery failed.'' [])
       [] [\<lparr>argName = ''command-and-flags'', argRequired = False, Variadic = True, argDescription = []\<rparr>]
       discoveryFailureHandlerRef ((plain_meta [] [] [] [] tags)\<lparr>metaHidden := True\<rparr>) []"

definition failure_tags :: "call_error \<Rightarrow> (string \<times> string) list" where
  "failure_tags e = [(''meegle_discovery_failure'', TrimSpace (error_text e)), (''router_allow_unknown_flags'', ''1'')]"

definition buildDiscoveryFailureTree :: "call_error \<Rightarrow> CommandTree" where
  "buildDiscoveryFailureTree e =
     \<lparr>treeVersion = ''dynamic-discovery-failed'', GlobalFlags = [],
      Nodes = map Some (map (placeholder_node (failure_tags e)) FallbackResources)\<rparr>"

definition buildConfigResolutionFailureTree :: "call_error \<Rightarrow> CommandTree" where
  "buildConfigResolutionFailureTree e =
     (buildDiscoveryFailureTree e)
       \<lparr>Nodes := map Some (map (placeholder_node (failure_tags e @ [(''meegle_config_resolution_failure'', ''1'')])) FallbackResources)\<rparr>"

section \<open>Setup\<close>

record setup_snapshot =
  snapCommands :: "MappedCommand list"
  snapIssues :: "ToolMappingIssue list"
  snapAuthFailed :: bool

definition publishSnapshot :: "MappedCommand list \<Rightarrow> ToolMappingIssue list \<Rightarrow> bool \<Rightarrow> setup_snapshot" where
  "publishSnapshot commands issues failed = \<lparr>snapCommands = commands, snapIssues = issues, snapAuthFailed = failed\<rparr>"

definition Setup ::
    "((string \<times> string) list \<Rightarrow> string) \<Rightarrow> int \<Rightarrow> registry_setup \<Rightarrow>
     (call_error, CommandTree \<times> setup_snapshot) result \<times> setup_effect list" where
  "Setup encode now s =
     (case rsBootstrapError s of
        Some e \<Rightarrow>
          (Inr ((buildConfigResolutionFailureTree e)\<lparr>GlobalFlags := rsGlobalFlags s\<rparr>, publishSnapshot [] [] False), [])
      | None \<Rightarrow>
          (case resolveToolsState now s of
             (Inl e, effects) \<Rightarrow>
               (if rsDegrade s \<and> \<not> isUnauthorizedErr e then
                  (Inr ((buildDiscoveryFailureTree e)\<lparr>GlobalFlags := rsGlobalFlags s\<rparr>, publishSnapshot [] [] False), effects)
                else (Inl e, effects))
           | (Inr (tools, failed), effects) \<Rightarrow>
               (case mapAndSanitizeTools encode tools (rsGlobalFlags s) of
                  (commands, issues) \<Rightarrow>
                    (Inr ((buildCommandTree encode commands)\<lparr>GlobalFlags := rsGlobalFlags s\<rparr>,
                          publishSnapshot commands issues failed), effects))))"

section \<open>The trees of a setup build\<close>

lemma placeholder_fields [simp]:
  "nodeName (placeholder_node tags name) = name" "nodeAliases (placeholder_node tags name) = []"
  "nodeChildren (placeholder_node tags name) = []" "nodeHandler (placeholder_node tags name) = discoveryFailureHandlerRef"
  by (simp_all add: placeholder_node_def)

lemma fallback_resources_ok:
  "list_all (\<lambda>n. commandNamePattern n \<and> TrimSpace (resource_brief n) \<noteq> [] \<and> root_key n = n) FallbackResources \<and>
   distinct FallbackResources \<and> [] \<notin> set FallbackResources \<and> ''ai-handoff'' \<notin> set FallbackResources \<and>
   ''preference'' \<notin> set FallbackResources"
  by code_simp

lemma placeholders_well_formed: "list_all well_formed (map (placeholder_node tags) FallbackResources)"
proof -
  have exec: "TrimSpace discoveryFailureHandlerRef \<noteq> []" by code_simp
  have "well_formed (placeholder_node tags n)" if "commandNamePattern n" "TrimSpace (resource_brief n) \<noteq> []" for n
    using that exec
    by (simp add: placeholder_node_def node_ok_def IsExecutable_def flags_ok_def args_ok_def siblings_ok_def help_of_def)
  then show ?thesis using fallback_resources_ok by (simp add: list_all_iff)
qed

lemma placeholders_own_roots: "own_roots (map (placeholder_node tags) FallbackResources) FallbackResources"
proof -
  have "concat (map (\<lambda>n. map root_key (node_names n)) (map (placeholder_node tags) ns)) = ns" if "list_all (\<lambda>n. root_key n = n) ns" for ns
    using that by (induction ns) (simp_all add: node_names_def)
  moreover have "list_all (\<lambda>n. root_key n = n) FallbackResources" using fallback_resources_ok by (simp add: list_all_iff)
  ultimately show ?thesis using fallback_resources_ok unfolding own_roots_def by blast
qed

lemma placeholders_no_nil: "list_all no_nil (map (placeholder_node tags) FallbackResources)"
  by (simp add: list_all_iff no_nil_iff)

text \<open>What every tree of a setup has, given that it was built from sanitized commands.\<close>

definition buildable :: "CommandTree \<Rightarrow> bool" where
  "buildable t = (\<exists>ns ks. Nodes t = map Some ns \<and> own_roots ns ks \<and> list_all well_formed ns \<and> list_all no_nil ns)"

lemma placeholders_buildable:
  "Nodes t = map Some (map (placeholder_node tags) FallbackResources) \<Longrightarrow> buildable t"
  unfolding buildable_def using placeholders_own_roots placeholders_well_formed placeholders_no_nil by blast

lemma dynamic_buildable: "buildable ((buildCommandTree encode (fst (mapAndSanitizeTools encode tools gf)))\<lparr>GlobalFlags := gf'\<rparr>)"
proof -
  let ?cmds = "fst (mapAndSanitizeTools encode tools gf)"
  let ?ns = "map (extended \<circ> group_node encode ?cmds) (group_names ?cmds)"
  have "accepted_ok encode gf ?cmds" by (rule sanitized_ok)
  note ok = accepted_ok_commands[OF this, THEN conjunct1] accepted_ok_commands[OF this, THEN conjunct2]
  have "list_all well_formed ?ns" using tree_well_formed[OF ok] unfolding tree_nodes all_well_formed_map .
  moreover have "list_all no_nil ?ns" using tree_no_nil[OF ok(1)] unfolding tree_nodes none_nil_map .
  moreover have "Nodes ((buildCommandTree encode ?cmds)\<lparr>GlobalFlags := gf'\<rparr>) = map Some ?ns" by (simp add: tree_nodes)
  ultimately show ?thesis unfolding buildable_def using dynamic_own_roots[OF ok(1)] by blast
qed

lemma Setup_buildable: "fst (Setup encode now s) = Inr (t, snap) \<Longrightarrow> buildable t \<and> GlobalFlags t = rsGlobalFlags s"
proof -
  assume "fst (Setup encode now s) = Inr (t, snap)"
  moreover have "buildable ((buildConfigResolutionFailureTree e)\<lparr>GlobalFlags := gf\<rparr>)" for e gf
    by (rule placeholders_buildable[of _ "failure_tags e @ [(''meegle_config_resolution_failure'', ''1'')]"])
      (simp add: buildConfigResolutionFailureTree_def)
  moreover have "buildable ((buildDiscoveryFailureTree e)\<lparr>GlobalFlags := gf\<rparr>)" for e gf
    by (rule placeholders_buildable[of _ "failure_tags e"]) (simp add: buildDiscoveryFailureTree_def)
  moreover have "buildable ((buildCommandTree encode cmds)\<lparr>GlobalFlags := gf'\<rparr>)"
    if "mapAndSanitizeTools encode tools gf = (cmds, issues)" for cmds tools gf gf' issues
    using dynamic_buildable[where encode = encode and tools = tools and gf = gf and gf' = gf'] that by simp
  ultimately show ?thesis by (auto simp: Setup_def split: option.splits prod.splits sum.splits if_splits)
qed

lemma buildable_built:
  assumes "buildable t"
  obtains tree reg where "CompositeSetup (product_sources t) = Inr tree" "New (Some tree) = Built reg"
    "GlobalFlags tree = GlobalFlags t"
  using assms registry_built unfolding buildable_def by metis

end
