(* ===== verification/Mcp_Client.thy ===== *)
theory Mcp_Client
  imports Identity Batch_Fanout
begin

text \<open>
  \<open>internal/products/meegle/mcpclient\<close> (\<open>client.go\<close>, \<open>options.go\<close>): one JSON-RPC call over HTTP with its
  credential, the guard on redirects, and the single retry after a rejected token; \<open>NewMCPClientFromIdentity\<close> of
  \<open>app.go\<close>.

  The network is a script: for each attempt of a call the list of what the servers answer, in order, to the
  request and to the redirects that are followed.  Every request that leaves is recorded with the headers of
  the first one; the HTTP library may drop some of them on a redirect to another host, never add any.  The
  token manager and the JSON codec are arguments.
\<close>

section \<open>Headers of net/http\<close>

definition upper_char :: "char \<Rightarrow> char" where
  "upper_char c = (if CHR ''a'' \<le> c \<and> c \<le> CHR ''z'' then char_of (of_char c - 32 :: nat) else c)"

fun canonical_from :: "bool \<Rightarrow> string \<Rightarrow> string" where
  "canonical_from up [] = []"
| "canonical_from up (c # cs) = (if up then upper_char c else lower_char c) # canonical_from (c = CHR ''-'') cs"

definition CanonicalHeaderKey :: "string \<Rightarrow> string" where
  "CanonicalHeaderKey s = (if list_all header_char s then canonical_from True s else s)"

type_synonym header = "(string \<times> string list) list"

definition Header_Get :: "header \<Rightarrow> string \<Rightarrow> string" where
  "Header_Get h k = (case map_of h (CanonicalHeaderKey k) of Some (v # vs) \<Rightarrow> v | _ \<Rightarrow> [])"

definition Header_Set :: "string \<Rightarrow> string \<Rightarrow> header \<Rightarrow> header" where
  "Header_Set k v h = AList.update (CanonicalHeaderKey k) [v] h"

definition Header_Add :: "string \<Rightarrow> string \<Rightarrow> header \<Rightarrow> header" where
  "Header_Add k v h =
     (let key = CanonicalHeaderKey k
      in AList.update key ((case map_of h key of None \<Rightarrow> [] | Some vs \<Rightarrow> vs) @ [v]) h)"

definition Header_Del :: "string \<Rightarrow> header \<Rightarrow> header" where
  "Header_Del k h = AList.delete (CanonicalHeaderKey k) h"

section \<open>Clients\<close>

datatype token_func = NoToken | FixedToken string | ManagedToken

record mcp_client =
  mcpBaseURL :: string
  mcpToken :: token_func
  mcpRefresh :: bool
  mcpHeaders :: header
  mcpUserAgent :: string
  mcpAuthHeader :: string

definition UserAgentForVersion :: "string \<Rightarrow> string \<Rightarrow> string" where
  "UserAgentForVersion build version =
     (if version \<noteq> [] \<and> version \<noteq> ''dev'' then ''meegle-cli/'' @ version
      else if build \<noteq> [] \<and> build \<noteq> ''(devel)'' then ''meegle-cli/'' @ build else ''meegle-cli'')"

definition BuildUserAgentForVersion :: "string \<Rightarrow> string \<Rightarrow> string \<Rightarrow> string" where
  "BuildUserAgentForVersion build version caller =
     (let base = UserAgentForVersion build version in if caller = [] then base else base @ '' '' @ caller)"

definition NewMCPClientFromIdentity :: "string \<Rightarrow> string \<Rightarrow> ResolvedIdentity \<Rightarrow> mcp_client option" where
  "NewMCPClientFromIdentity build agent i =
     (if idHost i = [] \<or> idToken i = [] then None
      else Some
        \<lparr>mcpBaseURL = GetServerURL (empty_config\<lparr>cfgHost := idHost i\<rparr>),
         mcpToken = (if idSource i = SourceStore then ManagedToken else FixedToken (idToken i)),
         mcpRefresh = (idSource i = SourceStore),
         mcpHeaders = fold (\<lambda>(k, v). Header_Set k v) (idHeaders i) [],
         mcpUserAgent = (if agent \<noteq> [] then agent else BuildUserAgentForVersion build [] (idUserAgentCaller i)),
         mcpAuthHeader = idAccessTokenHeader i\<rparr>)"

section \<open>Origins\<close>

text \<open>\<open>Hostname\<close> and \<open>Port\<close> of a URL: the host without its port, and without the brackets of an address.\<close>

definition split_host :: "string \<Rightarrow> string \<times> string" where
  "split_host hp =
     (let (front, port, ok) = LastCut CHR '':'' hp;
          (host, p) = (if ok \<and> validOptionalPort (CHR '':'' # port) then (front, port) else (hp, []))
      in (if HasPrefix host ''['' \<and> HasSuffix host '']'' then TrimSuffix (TrimPrefix host ''['') '']'' else host, p))"

definition Hostname :: "URL \<Rightarrow> string" where "Hostname u = fst (split_host (urlHost u))"
definition Port :: "URL \<Rightarrow> string" where "Port u = snd (split_host (urlHost u))"

definition effectivePort :: "URL \<Rightarrow> string" where
  "effectivePort u =
     (if Port u \<noteq> [] then Port u
      else if ToLower (urlScheme u) = ''http'' then ''80''
      else if ToLower (urlScheme u) = ''https'' then ''443'' else [])"

definition originLabel :: "URL \<Rightarrow> string" where
  "originLabel u = ToLower (urlScheme u) @ ''://'' @ urlHost u"

record redirectOrigin =
  originScheme :: string
  originHost :: string
  originPort :: string
  label :: string

definition snapshotOrigin :: "URL \<Rightarrow> redirectOrigin" where
  "snapshotOrigin u =
     \<lparr>originScheme = ToLower (urlScheme u), originHost = ToLower (Hostname u), originPort = effectivePort u,
      label = originLabel u\<rparr>"

definition sameOrigin :: "redirectOrigin \<Rightarrow> URL \<Rightarrow> bool" where
  "sameOrigin left right =
     (originScheme left = ToLower (urlScheme right) \<and> originHost left = ToLower (Hostname right) \<and>
      originPort left = effectivePort right)"

section \<open>Redirects\<close>

text \<open>
  What a check of a redirect decides; a check may change the target.  \<open>UseLast\<close> is \<open>http.ErrUseLastResponse\<close>.
\<close>

datatype redirect_decision = Follow URL | UseLast | CrossOrigin string | Refuse string

type_synonym redirect_check = "URL \<Rightarrow> URL list \<Rightarrow> redirect_decision"

definition rejectCrossOriginRedirect :: "redirectOrigin \<Rightarrow> URL \<Rightarrow> redirect_decision" where
  "rejectCrossOriginRedirect source u =
     (if sameOrigin source u then Follow u
      else CrossOrigin (''credential security: cross-origin redirect from '' @ label source @ '' to '' @ originLabel u @ '' rejected''))"

definition maxCredentialRedirects :: nat where "maxCredentialRedirects = 10"

definition withCredentialRedirectGuard :: "redirect_check option \<Rightarrow> redirectOrigin \<Rightarrow> redirect_check" where
  "withCredentialRedirectGuard base source u via =
     (if maxCredentialRedirects \<le> length via then Refuse ''credential security: stopped after 10 redirects''
      else (case rejectCrossOriginRedirect source u of
              Follow u' \<Rightarrow>
                (case base of
                   None \<Rightarrow> rejectCrossOriginRedirect source u'
                 | Some f \<Rightarrow>
                     (case f u' via of
                        Follow u'' \<Rightarrow> rejectCrossOriginRedirect source u''
                      | d \<Rightarrow> d))
            | d \<Rightarrow> d))"

text \<open>The policy of \<open>net/http\<close> for a client without a check of its own.\<close>

definition default_check :: "redirect_check option \<Rightarrow> redirect_check" where
  "default_check base =
     (case base of Some f \<Rightarrow> f | None \<Rightarrow> (\<lambda>u via. if 10 \<le> length via then Refuse ''stopped after 10 redirects'' else Follow u))"

text \<open>A server redirects with a status, responds with a status and a body that may break off, or fails.\<close>

datatype hop = Redirects int URL | Responds int string "string option" | Breaks bool string

datatype http_result = Response int string "string option" | CrossOriginError string | Failed bool string

fun http_Do :: "redirect_check \<Rightarrow> URL list \<Rightarrow> URL \<Rightarrow> hop list \<Rightarrow> http_result \<times> URL list" where
  "http_Do check via u [] = (Failed False ''EOF'', [u])"
| "http_Do check via u (Responds status body broken # hops) = (Response status body broken, [u])"
| "http_Do check via u (Breaks timeout msg # hops) = (Failed timeout msg, [u])"
| "http_Do check via u (Redirects status target # hops) =
     (case check target (via @ [u]) of
        Follow u' \<Rightarrow> (let (r, sent) = http_Do check (via @ [u]) u' hops in (r, u # sent))
      | UseLast \<Rightarrow> (Response status [] None, [u])
      | CrossOrigin msg \<Rightarrow> (CrossOriginError msg, [u])
      | Refuse msg \<Rightarrow> (Failed False msg, [u]))"

section \<open>One attempt\<close>

record rpc_response =
  rpcResult :: string
  rpcError :: "string option"

definition maxToolsListResponseBytes :: int where "maxToolsListResponseBytes = 8388608"
definition maxRPCResponseBytes :: int where "maxRPCResponseBytes = 33554432"

text \<open>\<open>io.ReadAll\<close> of a \<open>LimitReader\<close>: a body that breaks off beyond the limit is not noticed.\<close>

definition decodeRPCResponse ::
    "(string \<Rightarrow> (string, rpc_response) result) \<Rightarrow> string \<Rightarrow> string option \<Rightarrow> int \<Rightarrow> (string, rpc_response) result" where
  "decodeRPCResponse unmarshal body broken maxBytes =
     (if int (length body) > maxBytes then Inl ''response exceeds limit''
      else (case broken of Some e \<Rightarrow> Inl e | None \<Rightarrow> unmarshal body))"

definition request_header :: "mcp_client \<Rightarrow> string \<Rightarrow> header" where
  "request_header c token =
     (let base = Header_Set ''User-Agent'' (mcpUserAgent c) (Header_Set ''Content-Type'' ''application/json'' []);
          static = fold (\<lambda>(k, vs) h. fold (\<lambda>v. Header_Add k v) vs h) (mcpHeaders c) base;
          bare = (if mcpAuthHeader c \<noteq> [] then Header_Del (mcpAuthHeader c) (Header_Del ''Authorization'' static) else static)
      in if token = [] then bare
         else if mcpAuthHeader c \<noteq> [] then Header_Set (mcpAuthHeader c) token bare
         else Header_Set ''Authorization'' (''Bearer '' @ token) bare)"

definition carries_credential :: "mcp_client \<Rightarrow> header \<Rightarrow> bool" where
  "carries_credential c h =
     (Header_Get h ''Authorization'' \<noteq> [] \<or> mcpAuthHeader c \<noteq> [] \<and> Header_Get h (mcpAuthHeader c) \<noteq> [])"

record mcp_env =
  marshalled :: "nat \<Rightarrow> string option"
  managedToken :: "nat \<Rightarrow> (string, string) result"
  refreshed :: bool
  baseRedirect :: "redirect_check option"
  network :: "nat \<Rightarrow> hop list"
  unmarshal :: "string \<Rightarrow> (string, rpc_response) result"

definition current_token :: "mcp_client \<Rightarrow> mcp_env \<Rightarrow> nat \<Rightarrow> (string, string) result" where
  "current_token c env k =
     (case mcpToken c of NoToken \<Rightarrow> Inr [] | FixedToken t \<Rightarrow> Inr t | ManagedToken \<Rightarrow> managedToken env k)"

definition http_error :: "int \<Rightarrow> call_error" where
  "http_error status = MeegleError ''SERVER_HTTP_ERROR'' (''server returned error ('' @ show_int status @ '')'') status"

definition rpc_outcome :: "mcp_env \<Rightarrow> string \<Rightarrow> http_result \<Rightarrow> (call_error, string) result" where
  "rpc_outcome env rpc r =
     (case r of
        CrossOriginError msg \<Rightarrow> Inl (OtherError (''http request: '' @ msg))
      | Failed timeout msg \<Rightarrow>
          (if timeout \<or> Contains msg ''context deadline exceeded''
           then Inl (MeegleError ''SERVER_TIMEOUT'' ''request timed out, please check your network connection and retry'' 0)
           else Inl (OtherError (''http request: '' @ msg)))
      | Response status body broken \<Rightarrow>
          (if status \<noteq> 200 then Inl (http_error status)
           else (case decodeRPCResponse (unmarshal env) body broken
                   (if rpc = ''tools/list'' then maxToolsListResponseBytes else maxRPCResponseBytes) of
                   Inl e \<Rightarrow> Inl (OtherError (''decode response: '' @ e))
                 | Inr resp \<Rightarrow>
                     (case rpcError resp of
                        Some msg \<Rightarrow> Inl (MeegleError ''SERVER_CALL_FAILED'' msg 0)
                      | None \<Rightarrow> Inr (rpcResult resp)))))"

type_synonym sent = "URL \<times> header"

definition doCall :: "mcp_client \<Rightarrow> mcp_env \<Rightarrow> string \<Rightarrow> nat \<Rightarrow> (call_error, string) result \<times> sent list" where
  "doCall c env rpc k =
     (case marshalled env k of
        None \<Rightarrow> (Inl (OtherError ''marshal request''), [])
      | Some payload \<Rightarrow>
          (case url_Parse (mcpBaseURL c) of
             None \<Rightarrow> (Inl (OtherError ''create request''), [])
           | Some u \<Rightarrow>
               (case current_token c env k of
                  Inl e \<Rightarrow> (Inl (OtherError (''get token: '' @ e)), [])
                | Inr token \<Rightarrow>
                    (let h = request_header c token;
                         check = (if carries_credential c h
                           then withCredentialRedirectGuard (baseRedirect env) (snapshotOrigin u)
                           else default_check (baseRedirect env));
                         (r, visited) = http_Do check [] u (network env k)
                     in (rpc_outcome env rpc r, map (\<lambda>v. (v, h)) visited)))))"

section \<open>A call\<close>

definition auth_expired :: call_error where
  "auth_expired = MeegleError ''AUTH_EXPIRED'' ''authentication expired, please log in again'' 0"

definition rejected_call :: "mcp_client \<Rightarrow> call_error \<Rightarrow> bool" where
  "rejected_call c e =
     (case e of
        MeegleError code msg status \<Rightarrow> code = ''SERVER_HTTP_ERROR'' \<and> status = 401 \<and> mcpRefresh c
      | _ \<Rightarrow> False)"

definition Call :: "mcp_client \<Rightarrow> mcp_env \<Rightarrow> string \<Rightarrow> (call_error, string) result \<times> sent list" where
  "Call c env rpc =
     (case doCall c env rpc 0 of
        (Inr r, out) \<Rightarrow> (Inr r, out)
      | (Inl e, out) \<Rightarrow>
          (if rejected_call c e then
             (if refreshed env then (let (r, out') = doCall c env rpc 1 in (r, out @ out'))
              else (Inl auth_expired, out))
           else (Inl e, out)))"

section \<open>What leaves the client\<close>

lemma guard_Follow:
  assumes "withCredentialRedirectGuard base source u via = Follow v"
  shows "sameOrigin source v \<and> length via < 10"
  using assms
  by (auto simp: withCredentialRedirectGuard_def rejectCrossOriginRedirect_def maxCredentialRedirects_def
      split: if_splits redirect_decision.splits option.splits)

lemma guarded_visits:
  assumes "sameOrigin source u" "length via < 10"
  shows "list_all (sameOrigin source) (snd (http_Do (withCredentialRedirectGuard base source) via u hops)) \<and>
    length via + length (snd (http_Do (withCredentialRedirectGuard base source) via u hops)) \<le> 10"
  using assms
proof (induction hops arbitrary: via u)
  case Nil then show ?case by simp
next
  case (Cons hop hops)
  show ?case
  proof (cases hop)
    case (Redirects status target)
    show ?thesis
    proof (cases "withCredentialRedirectGuard base source target (via @ [u])")
      case (Follow v)
      from guard_Follow[OF this] have "sameOrigin source v" "length (via @ [u]) < 10" by simp_all
      from Cons.IH[OF this] Cons.prems Redirects Follow show ?thesis by (auto split: prod.split)
    qed (use Cons.prems Redirects in auto)
  qed (use Cons.prems in auto)
qed

lemma sameOrigin_self: "sameOrigin (snapshotOrigin u) u"
  by (simp add: sameOrigin_def snapshotOrigin_def)

lemma canonical_Authorization: "CanonicalHeaderKey ''Authorization'' = ''Authorization''"
  by code_simp

text \<open>The credential a token stands for in the headers of a request.\<close>

definition credential_header :: "mcp_client \<Rightarrow> string \<Rightarrow> header \<Rightarrow> bool" where
  "credential_header c token h =
     (if mcpAuthHeader c = [] then token = [] \<or> map_of h ''Authorization'' = Some [''Bearer '' @ token]
      else map_of h (CanonicalHeaderKey (mcpAuthHeader c)) = (if token = [] then None else Some [token]) \<and>
           (CanonicalHeaderKey (mcpAuthHeader c) = ''Authorization'' \<or> map_of h ''Authorization'' = None))"

lemma request_header_credential: "credential_header c token (request_header c token)"
  unfolding credential_header_def request_header_def Let_def Header_Set_def Header_Del_def canonical_Authorization
  by (simp add: map_of_update delete_conv)

text \<open>A request of an attempt with a token towards the address of the client.\<close>

definition lawful_request :: "mcp_client \<Rightarrow> (string, string) result \<Rightarrow> sent \<Rightarrow> bool" where
  "lawful_request c token s =
     (case (token, url_Parse (mcpBaseURL c)) of
        (Inr t, Some u) \<Rightarrow>
          credential_header c t (snd s) \<and>
          (if carries_credential c (snd s) then sameOrigin (snapshotOrigin u) (fst s) else True)
      | _ \<Rightarrow> False)"

definition credentialed :: "mcp_client \<Rightarrow> sent list \<Rightarrow> sent list" where
  "credentialed c out = filter (\<lambda>s. carries_credential c (snd s)) out"

lemma doCall_lawful:
  "list_all (lawful_request c (current_token c env k)) (snd (doCall c env rpc k)) \<and>
   length (credentialed c (snd (doCall c env rpc k))) \<le> 10"
proof (cases "marshalled env k = None \<or> url_Parse (mcpBaseURL c) = None \<or> (\<exists>e. current_token c env k = Inl e)")
  case True
  then have "snd (doCall c env rpc k) = []"
    by (auto simp: doCall_def split: option.splits sum.splits)
  then show ?thesis by (simp add: credentialed_def)
next
  case False
  then obtain p u t where ok: "marshalled env k = Some p" "url_Parse (mcpBaseURL c) = Some u" "current_token c env k = Inr t"
    by (auto simp: not_None_eq) (meson sum.exhaust)
  let ?h = "request_header c t"
  let ?check = "if carries_credential c ?h then withCredentialRedirectGuard (baseRedirect env) (snapshotOrigin u)
     else default_check (baseRedirect env)"
  let ?visited = "snd (http_Do ?check [] u (network env k))"
  have out: "snd (doCall c env rpc k) = map (\<lambda>v. (v, ?h)) ?visited"
    by (simp add: doCall_def ok Let_def split: prod.split)
  show ?thesis
  proof (cases "carries_credential c ?h")
    case True
    with guarded_visits[OF sameOrigin_self, of "[]" u "baseRedirect env" "network env k"]
    have "list_all (sameOrigin (snapshotOrigin u)) ?visited" "length ?visited \<le> 10" using True by simp_all
    with True show ?thesis unfolding out
      by (simp add: lawful_request_def ok request_header_credential credentialed_def list_all_iff comp_def)
  next
    case False
    then show ?thesis unfolding out
      by (simp add: lawful_request_def ok request_header_credential credentialed_def list_all_iff comp_def)
  qed
qed

section \<open>Properties\<close>

text \<open>
  C29.  Where the credential goes: a call makes at most two attempts, the second only after the service rejected
  the token and the refresh succeeded.  Every request of an attempt carries exactly the token that is current
  then, in one header; every request that carries a credential goes to the origin of the configured service,
  whatever the servers redirect to and whatever the policy of the HTTP client rewrites; and at most ten such
  requests leave per attempt.
\<close>

theorem credential_stays_at_origin:
  "\<exists>first second. snd (Call c env rpc) = first @ second \<and>
     list_all (lawful_request c (current_token c env 0)) first \<and> length (credentialed c first) \<le> 10 \<and>
     list_all (lawful_request c (current_token c env 1)) second \<and> length (credentialed c second) \<le> 10 \<and>
     (case second of [] \<Rightarrow> True
      | _ \<Rightarrow> refreshed env \<and> (case fst (doCall c env rpc 0) of Inl e \<Rightarrow> rejected_call c e | Inr r \<Rightarrow> False))"
proof -
  obtain r0 out0 where d0: "doCall c env rpc 0 = (r0, out0)" by (cases "doCall c env rpc 0")
  obtain r1 out1 where d1: "doCall c env rpc 1 = (r1, out1)" by (cases "doCall c env rpc 1")
  note l0 = doCall_lawful[of c env 0 rpc, unfolded d0 snd_conv]
  note l1 = doCall_lawful[of c env 1 rpc, unfolded d1 snd_conv]
  show ?thesis
  proof (cases "case r0 of Inl e \<Rightarrow> rejected_call c e \<and> refreshed env | Inr r \<Rightarrow> False")
    case True
    then have "snd (Call c env rpc) = out0 @ out1" by (auto simp: Call_def d0 d1[unfolded One_nat_def] split: sum.splits)
    then show ?thesis using l0 l1 True
      by (intro exI[of _ out0] exI[of _ out1]) (auto simp: d0 split: sum.splits list.split)
  next
    case False
    then have "snd (Call c env rpc) = out0" by (auto simp: Call_def d0 split: sum.splits if_splits)
    then show ?thesis using l0
      by (intro exI[of _ out0] exI[of _ "[]"]) (simp add: credentialed_def)
  qed
qed

end
