(* ===== verification/Mcp_Tools.thy ===== *)
theory Mcp_Tools
  imports Mcp_Client Json_Value
begin

text \<open>
  What the client makes of the replies of the service: \<open>ListTools\<close> and \<open>parseToolDefinition\<close> of
  \<open>internal/products/meegle/mcpclient/client.go\<close>, and \<open>response.go\<close>.

  JSON is decoded: a raw message is its value with the size of its text.  Decoding into a struct follows
  \<open>encoding/json\<close>: names are matched without case, a member that occurs again is decoded over the first, null
  keeps a field, and a value of the wrong kind makes the whole decoding fail.  A list that occurs again replaces
  the first.
\<close>

section \<open>Decoding structs\<close>

text \<open>The folding of names: ASCII letters, the Kelvin sign and the long s.\<close>

function fold_name :: "string \<Rightarrow> string" where
  "fold_name [] = []"
| "fold_name (c # cs) =
     (if HasPrefix (c # cs) [CHR 0xE2, CHR 0x84, CHR 0xAA] then CHR ''k'' # fold_name (drop 2 cs)
      else if HasPrefix (c # cs) [CHR 0xC5, CHR 0xBF] then CHR ''s'' # fold_name (drop 1 cs)
      else lower_char c # fold_name cs)"
  by pat_completeness auto
termination by (relation "measure length") auto

fun decode_members :: "(string \<Rightarrow> json \<Rightarrow> 'a \<Rightarrow> 'a option) \<Rightarrow> json_object \<Rightarrow> 'a \<Rightarrow> 'a option" where
  "decode_members field [] a = Some a"
| "decode_members field ((k, v) # kvs) a =
     (case field (fold_name k) v a of None \<Rightarrow> None | Some a' \<Rightarrow> decode_members field kvs a')"

definition decode_struct :: "(string \<Rightarrow> json \<Rightarrow> 'a \<Rightarrow> 'a option) \<Rightarrow> json \<Rightarrow> 'a \<Rightarrow> 'a option" where
  "decode_struct field v a =
     (case v of JObject kvs \<Rightarrow> decode_members field kvs a | JNull \<Rightarrow> Some a | _ \<Rightarrow> None)"

text \<open>A field that is a pointer to a struct: null clears it, an object is decoded over what it points to.\<close>

definition decode_pointer :: "(string \<Rightarrow> json \<Rightarrow> 'a \<Rightarrow> 'a option) \<Rightarrow> 'a \<Rightarrow> json \<Rightarrow> 'a option \<Rightarrow> 'a option option" where
  "decode_pointer field zero v old =
     (case v of JNull \<Rightarrow> Some None
      | _ \<Rightarrow> map_option Some (decode_struct field v (case old of Some a \<Rightarrow> a | None \<Rightarrow> zero)))"

definition decode_text :: "json \<Rightarrow> string \<Rightarrow> string option" where
  "decode_text v old = (case v of JString s \<Rightarrow> Some s | JNull \<Rightarrow> Some old | _ \<Rightarrow> None)"

section \<open>Tool definitions\<close>

record wire_schema =
  wsType :: "json option"
  wsProperties :: json_object
  wsRequired :: "string list"

record wire_tool =
  wtName :: string
  wtDescription :: string
  wtMetadata :: "ToolMetadata option"
  wtSchema :: "wire_schema option"

record wire_property =
  wpType :: "json option"
  wpDescription :: string
  wpItems :: "json option option"

definition metadata_field :: "string \<Rightarrow> json \<Rightarrow> ToolMetadata \<Rightarrow> ToolMetadata option" where
  "metadata_field k v a =
     (if k = ''resource'' then map_option (\<lambda>s. a\<lparr>tmResource := s\<rparr>) (decode_text v (tmResource a))
      else if k = ''method'' then map_option (\<lambda>s. a\<lparr>tmMethod := s\<rparr>) (decode_text v (tmMethod a))
      else Some a)"

definition schema_field :: "string \<Rightarrow> json \<Rightarrow> wire_schema \<Rightarrow> wire_schema option" where
  "schema_field k v a =
     (if k = ''type'' then Some (a\<lparr>wsType := Some v\<rparr>)
      else if k = ''properties'' then
        (case v of JNull \<Rightarrow> Some (a\<lparr>wsProperties := []\<rparr>)
         | _ \<Rightarrow> map_option (\<lambda>m. a\<lparr>wsProperties := m\<rparr>) (into_map (wsProperties a) (Some v)))
      else if k = ''required'' then
        map_option (\<lambda>r. a\<lparr>wsRequired := (case r of None \<Rightarrow> [] | Some names \<Rightarrow> names)\<rparr>) (json_strings v)
      else Some a)"

definition no_metadata :: ToolMetadata where "no_metadata = \<lparr>tmResource = [], tmMethod = []\<rparr>"
definition no_schema :: wire_schema where "no_schema = \<lparr>wsType = None, wsProperties = [], wsRequired = []\<rparr>"

definition tool_field :: "string \<Rightarrow> json \<Rightarrow> wire_tool \<Rightarrow> wire_tool option" where
  "tool_field k v a =
     (if k = ''name'' then map_option (\<lambda>s. a\<lparr>wtName := s\<rparr>) (decode_text v (wtName a))
      else if k = ''description'' then map_option (\<lambda>s. a\<lparr>wtDescription := s\<rparr>) (decode_text v (wtDescription a))
      else if k = ''metadata'' then map_option (\<lambda>x. a\<lparr>wtMetadata := x\<rparr>) (decode_pointer metadata_field no_metadata v (wtMetadata a))
      else if k = ''inputschema'' then map_option (\<lambda>x. a\<lparr>wtSchema := x\<rparr>) (decode_pointer schema_field no_schema v (wtSchema a))
      else Some a)"

definition items_field :: "string \<Rightarrow> json \<Rightarrow> json option \<Rightarrow> json option option" where
  "items_field k v a = (if k = ''type'' then Some (Some v) else Some a)"

definition property_field :: "string \<Rightarrow> json \<Rightarrow> wire_property \<Rightarrow> wire_property option" where
  "property_field k v a =
     (if k = ''type'' then Some (a\<lparr>wpType := Some v\<rparr>)
      else if k = ''description'' then map_option (\<lambda>s. a\<lparr>wpDescription := s\<rparr>) (decode_text v (wpDescription a))
      else if k = ''items'' then map_option (\<lambda>x. a\<lparr>wpItems := x\<rparr>) (decode_pointer items_field None v (wpItems a))
      else Some a)"

datatype parse_error = UnsupportedUnion | InvalidDefinition

text \<open>One type besides null; anything else in a union is not supported.\<close>

fun union_type :: "string \<Rightarrow> string list \<Rightarrow> string option" where
  "union_type nonNull [] = (if nonNull = [] then None else Some nonNull)"
| "union_type nonNull (candidate # rest) =
     (if candidate = ''null'' then union_type nonNull rest
      else if candidate = [] \<or> (nonNull \<noteq> [] \<and> candidate \<noteq> nonNull) then None
      else union_type candidate rest)"

definition normalizeSchemaType :: "json option \<Rightarrow> string \<Rightarrow> (parse_error, string) result" where
  "normalizeSchemaType raw defaultType =
     (case raw of
        None \<Rightarrow> Inr defaultType
      | Some v \<Rightarrow>
          (case json_string v of
             Some single \<Rightarrow> (if single = [] then Inl InvalidDefinition else Inr single)
           | None \<Rightarrow>
               (case json_strings v of
                  None \<Rightarrow> Inl InvalidDefinition
                | Some names \<Rightarrow>
                    (case union_type [] (case names of None \<Rightarrow> [] | Some ns \<Rightarrow> ns) of
                       None \<Rightarrow> Inl UnsupportedUnion
                     | Some ty \<Rightarrow> Inr ty))))"

definition maxToolDefinitionBytes :: int where "maxToolDefinitionBytes = 262144"
definition maxDiscoveredTools :: nat where "maxDiscoveredTools = 2048"
definition maxToolParameters :: nat where "maxToolParameters = 512"
definition maxToolTextBytes :: int where "maxToolTextBytes = 16384"

definition too_long :: "string \<Rightarrow> bool" where
  "too_long s = (int (length s) > maxToolTextBytes)"

definition parse_property :: "string \<Rightarrow> bool \<Rightarrow> json \<Rightarrow> (parse_error, ToolParameter) result" where
  "parse_property name required v =
     (if too_long name then Inl InvalidDefinition
      else (case decode_pointer property_field \<lparr>wpType = None, wpDescription = [], wpItems = None\<rparr> v None of
              None \<Rightarrow> Inl InvalidDefinition
            | Some None \<Rightarrow> Inl InvalidDefinition
            | Some (Some p) \<Rightarrow>
                (if too_long (wpDescription p) then Inl InvalidDefinition
                 else (case normalizeSchemaType (wpType p) ''string'' of
                         Inl e \<Rightarrow> Inl e
                       | Inr ty \<Rightarrow>
                           (let parameter = \<lparr>paramName = name, paramType = ty, paramDescription = wpDescription p,
                              paramRequired = required, paramItems = None\<rparr>
                            in case wpItems p of
                                 None \<Rightarrow> Inr parameter
                               | Some items \<Rightarrow>
                                   (case normalizeSchemaType items [] of
                                      Inl e \<Rightarrow> Inl e
                                    | Inr itemsType \<Rightarrow> Inr (parameter\<lparr>paramItems := Some itemsType\<rparr>)))))))"

fun parse_properties :: "wire_schema \<Rightarrow> string list \<Rightarrow> (parse_error, ToolParameter list) result" where
  "parse_properties schema [] = Inr []"
| "parse_properties schema (name # names) =
     (case parse_property name (List.member (wsRequired schema) name) (case member (wsProperties schema) name of Some v \<Rightarrow> v | None \<Rightarrow> JNull) of
        Inl e \<Rightarrow> Inl e
      | Inr p \<Rightarrow> (case parse_properties schema names of Inl e \<Rightarrow> Inl e | Inr ps \<Rightarrow> Inr (p # ps)))"

definition property_names :: "wire_schema \<Rightarrow> string list" where
  "property_names schema = sort (remdups (map fst (wsProperties schema)))"

definition parseToolDefinition :: "json \<Rightarrow> (parse_error, ToolDefinition) result" where
  "parseToolDefinition raw =
     (case decode_struct tool_field raw \<lparr>wtName = [], wtDescription = [], wtMetadata = None, wtSchema = None\<rparr> of
        None \<Rightarrow> Inl InvalidDefinition
      | Some wire \<Rightarrow>
          (if TrimSpace (wtName wire) = [] then Inl InvalidDefinition
           else if too_long (wtName wire) \<or> too_long (wtDescription wire) then Inl InvalidDefinition
           else
             (let tool = \<lparr>tdName = wtName wire, tdDescription = wtDescription wire, tdParameters = [],
                tdMetadata = wtMetadata wire, tdIssue = None\<rparr>
              in case wtSchema wire of
                   None \<Rightarrow> Inr tool
                 | Some schema \<Rightarrow>
                     (case normalizeSchemaType (wsType schema) ''object'' of
                        Inl e \<Rightarrow> Inl e
                      | Inr ty \<Rightarrow>
                          (if ty \<noteq> ''object'' then Inl InvalidDefinition
                           else if length (property_names schema) > maxToolParameters \<or> length (wsRequired schema) > maxToolParameters
                           then Inl InvalidDefinition
                           else (case parse_properties schema (property_names schema) of
                                   Inl e \<Rightarrow> Inl e
                                 | Inr ps \<Rightarrow> Inr (tool\<lparr>tdParameters := ps\<rparr>)))))))"

section \<open>Listing\<close>

record raw_tool =
  rawSize :: int
  rawValue :: json

record tool_identity =
  tiName :: string
  tiMetadata :: "ToolMetadata option"

definition identity_field :: "string \<Rightarrow> json \<Rightarrow> tool_identity \<Rightarrow> tool_identity option" where
  "identity_field k v a =
     (if k = ''name'' then map_option (\<lambda>s. a\<lparr>tiName := s\<rparr>) (decode_text v (tiName a))
      else if k = ''metadata'' then map_option (\<lambda>x. a\<lparr>tiMetadata := x\<rparr>) (decode_pointer metadata_field no_metadata v (tiMetadata a))
      else Some a)"

definition trim_slashes :: "string \<Rightarrow> string" where
  "trim_slashes s = rev (dropWhile (\<lambda>c. c = CHR ''/'') (rev (dropWhile (\<lambda>c. c = CHR ''/'') s)))"

definition malformedToolIdentity :: "json \<Rightarrow> nat \<Rightarrow> string \<times> string" where
  "malformedToolIdentity raw index =
     (let name = ''tools['' @ show_nat index @ '']'' in
      case decode_struct identity_field raw \<lparr>tiName = [], tiMetadata = None\<rparr> of
        None \<Rightarrow> (name, [])
      | Some i \<Rightarrow>
          (let name' = (if TrimSpace (tiName i) \<noteq> [] then tiName i else name) in
           case tiMetadata i of
             None \<Rightarrow> (name', [])
           | Some md \<Rightarrow> (name', trim_slashes (tmResource md @ ''/'' @ tmMethod md))))"

definition issue_tool :: "string \<Rightarrow> string \<Rightarrow> string \<Rightarrow> ToolDefinition" where
  "issue_tool name code path =
     \<lparr>tdName = name, tdDescription = [], tdParameters = [], tdMetadata = None,
      tdIssue = Some \<lparr>tdiCode = code, tdiPath = path\<rparr>\<rparr>"

definition listed_tool :: "nat \<Rightarrow> raw_tool \<Rightarrow> ToolDefinition" where
  "listed_tool index r =
     (let (name, path) = malformedToolIdentity (rawValue r) index in
      if rawSize r > maxToolDefinitionBytes then issue_tool name ''tool_definition_too_large'' path
      else (case parseToolDefinition (rawValue r) of
              Inl UnsupportedUnion \<Rightarrow> issue_tool name ''unsupported_schema_union'' path
            | Inl InvalidDefinition \<Rightarrow> issue_tool name ''invalid_tool_definition'' path
            | Inr tool \<Rightarrow> tool))"

fun listed_from :: "nat \<Rightarrow> raw_tool list \<Rightarrow> ToolDefinition list" where
  "listed_from index [] = []"
| "listed_from index (r # rs) = listed_tool index r # listed_from (Suc index) rs"

definition listed_tools :: "raw_tool list \<Rightarrow> ToolDefinition list" where
  "listed_tools raws =
     listed_from 0 (take maxDiscoveredTools raws) @
     (if length raws > maxDiscoveredTools
      then [issue_tool (''tools['' @ show_nat maxDiscoveredTools @ '':]'') ''tool_count_limit_exceeded'' []] else [])"

definition ListTools :: "(string \<Rightarrow> raw_tool list option) \<Rightarrow> mcp_client \<Rightarrow> mcp_env \<Rightarrow> (call_error, ToolDefinition list) result" where
  "ListTools split_tools c env =
     (case fst (Call c env ''tools/list'') of
        Inl e \<Rightarrow> Inl e
      | Inr raw \<Rightarrow>
          (case split_tools raw of
             None \<Rightarrow> Inl (OtherError ''parse tools/list result'')
           | Some raws \<Rightarrow> Inr (listed_tools raws)))"

section \<open>What a listing holds\<close>

definition parameter_ok :: "ToolParameter \<Rightarrow> bool" where
  "parameter_ok p = (paramType p \<noteq> [] \<and> \<not> too_long (paramName p) \<and> \<not> too_long (paramDescription p))"

text \<open>An entry is marked as unusable and empty, or within every limit, its parameters in order and without repetition.\<close>

definition tool_ok :: "ToolDefinition \<Rightarrow> bool" where
  "tool_ok t =
     (case tdIssue t of
        Some i \<Rightarrow> tdParameters t = [] \<and> tdMetadata t = None
      | None \<Rightarrow>
          TrimSpace (tdName t) \<noteq> [] \<and> \<not> too_long (tdName t) \<and> \<not> too_long (tdDescription t) \<and>
          length (tdParameters t) \<le> maxToolParameters \<and> list_all parameter_ok (tdParameters t) \<and>
          sorted (map paramName (tdParameters t)) \<and> distinct (map paramName (tdParameters t)))"

lemma union_type_nonempty: "union_type n names = Some ty \<Longrightarrow> ty \<noteq> []"
  by (induction n names rule: union_type.induct) (auto split: if_splits)

lemma normalized_nonempty: "normalizeSchemaType raw d = Inr ty \<Longrightarrow> d \<noteq> [] \<Longrightarrow> ty \<noteq> []"
  by (auto simp: normalizeSchemaType_def dest: union_type_nonempty split: option.splits if_splits)

lemma parse_property_ok:
  assumes "parse_property name required v = Inr p"
  shows "parameter_ok p \<and> paramName p = name \<and> paramRequired p = required"
  using assms normalized_nonempty
  by (fastforce simp: parse_property_def parameter_ok_def Let_def split: if_splits option.splits sum.splits)

lemma parse_properties_ok:
  "parse_properties schema names = Inr ps \<Longrightarrow> list_all parameter_ok ps \<and> map paramName ps = names"
  by (induction names arbitrary: ps) (auto split: sum.splits dest: parse_property_ok)

lemma parsed_ok: "parseToolDefinition raw = Inr t \<Longrightarrow> tool_ok t \<and> tdIssue t = None"
proof -
  assume parsed: "parseToolDefinition raw = Inr t"
  then obtain wire where decoded:
    "decode_struct tool_field raw \<lparr>wtName = [], wtDescription = [], wtMetadata = None, wtSchema = None\<rparr> = Some wire"
    by (auto simp: parseToolDefinition_def split: option.splits)
  with parsed have wire: "TrimSpace (wtName wire) \<noteq> []" "\<not> too_long (wtName wire)" "\<not> too_long (wtDescription wire)"
    "tdName t = wtName wire" "tdDescription t = wtDescription wire" "tdIssue t = None"
    "tdParameters t = [] \<or> (\<exists>schema. parse_properties schema (property_names schema) = Inr (tdParameters t) \<and>
       length (property_names schema) \<le> maxToolParameters)"
    by (auto simp: parseToolDefinition_def Let_def split: option.splits if_splits sum.splits)
  show ?thesis
  proof (cases "tdParameters t = []")
    case True then show ?thesis using wire(1-6) by (simp add: tool_ok_def)
  next
    case False
    then obtain schema where s: "parse_properties schema (property_names schema) = Inr (tdParameters t)"
      "length (property_names schema) \<le> maxToolParameters" using wire(7) by blast
    from parse_properties_ok[OF s(1)] have names: "map paramName (tdParameters t) = property_names schema"
      and ok: "list_all parameter_ok (tdParameters t)" by simp_all
    have "length (tdParameters t) \<le> maxToolParameters" using s(2) names by (metis length_map)
    moreover have "sorted (map paramName (tdParameters t))" "distinct (map paramName (tdParameters t))"
      unfolding names property_names_def by simp_all
    ultimately show ?thesis using wire(1-6) ok by (simp add: tool_ok_def)
  qed
qed

lemma issue_tool_ok [simp]: "tool_ok (issue_tool name code path)" "tdIssue (issue_tool name code path) \<noteq> None"
  by (simp_all add: tool_ok_def issue_tool_def)

definition faithful :: "raw_tool \<Rightarrow> ToolDefinition \<Rightarrow> bool" where
  "faithful r t =
     (case parseToolDefinition (rawValue r) of
        Inr tool \<Rightarrow> (if rawSize r > maxToolDefinitionBytes then tdIssue t \<noteq> None else t = tool)
      | Inl e \<Rightarrow> tdIssue t \<noteq> None)"

lemma listed_tool_ok: "tool_ok (listed_tool index r) \<and> faithful r (listed_tool index r)"
  using parsed_ok[of "rawValue r"]
  by (auto simp: listed_tool_def faithful_def simp del: not_None_eq split: prod.split sum.split parse_error.split)

lemma listed_from_ok: "list_all tool_ok (listed_from index rs) \<and> list_all2 faithful rs (listed_from index rs)"
  by (induction rs arbitrary: index) (simp_all add: listed_tool_ok)

lemma listed_from_length [simp]: "length (listed_from index rs) = length rs"
  by (induction rs arbitrary: index) simp_all

text \<open>
  C30.  Whatever the service announces, the listing is bounded: at most 2049 entries, each either marked as
  unusable or a tool whose texts, number of parameters and types are within the limits and whose parameters
  are sorted without repetition.  Each of the first 2048 entries stands for the announced tool of the same
  place: the tool itself if it can be decoded and is not too large, a mark otherwise, so that no entry spoils
  another.
\<close>

theorem discovered_tools_bounded:
  "length (listed_tools raws) \<le> 2049 \<and> list_all tool_ok (listed_tools raws) \<and>
   list_all2 faithful (take maxDiscoveredTools raws) (take maxDiscoveredTools (listed_tools raws))"
proof -
  have "take maxDiscoveredTools (listed_tools raws) = listed_from 0 (take maxDiscoveredTools raws)"
    by (auto simp: listed_tools_def)
  moreover have "length (listed_tools raws) \<le> 2049"
    by (simp add: listed_tools_def maxDiscoveredTools_def)
  moreover have "list_all tool_ok (listed_tools raws)"
    using listed_from_ok[of 0 "take maxDiscoveredTools raws"] by (simp add: listed_tools_def)
  ultimately show ?thesis using listed_from_ok[of 0 "take maxDiscoveredTools raws"] by simp
qed

section \<open>Results of a tool\<close>

record Response =
  Data :: "json option"
  Raw :: string
  LogID :: string

record content_entry =
  entryType :: string
  entryText :: string

record tool_response =
  trContent :: "content_entry list"
  trIsError :: bool

definition entry_field :: "string \<Rightarrow> json \<Rightarrow> content_entry \<Rightarrow> content_entry option" where
  "entry_field k v a =
     (if k = ''type'' then map_option (\<lambda>s. a\<lparr>entryType := s\<rparr>) (decode_text v (entryType a))
      else if k = ''text'' then map_option (\<lambda>s. a\<lparr>entryText := s\<rparr>) (decode_text v (entryText a))
      else Some a)"

definition response_field :: "string \<Rightarrow> json \<Rightarrow> tool_response \<Rightarrow> tool_response option" where
  "response_field k v a =
     (if k = ''content'' then
        (case v of
           JNull \<Rightarrow> Some (a\<lparr>trContent := []\<rparr>)
         | JArray vs \<Rightarrow>
             map_option (\<lambda>es. a\<lparr>trContent := es\<rparr>)
               (all_some (map (\<lambda>e. decode_struct entry_field e \<lparr>entryType = [], entryText = []\<rparr>) vs))
         | _ \<Rightarrow> None)
      else if k = ''iserror'' then
        (case v of JNull \<Rightarrow> Some a | JBool b \<Rightarrow> Some (a\<lparr>trIsError := b\<rparr>) | _ \<Rightarrow> None)
      else Some a)"

definition stripLogIDPrefix :: "string \<Rightarrow> string option" where
  "stripLogIDPrefix t =
     (if HasPrefix t ''log_id:'' then Some (TrimSpace (TrimPrefix t ''log_id:''))
      else if HasPrefix t ''logid:'' then Some (TrimSpace (TrimPrefix t ''logid:'')) else None)"

definition text_entries :: "tool_response \<Rightarrow> string list" where
  "text_entries r = map entryText (filter (\<lambda>e. entryType e = ''text'' \<and> entryText e \<noteq> []) (trContent r))"

fun split_log :: "string list \<Rightarrow> string list \<times> string \<Rightarrow> string list \<times> string" where
  "split_log [] acc = acc"
| "split_log (t # ts) (texts, logid) =
     (case stripLogIDPrefix t of
        Some i \<Rightarrow> split_log ts (texts, i)
      | None \<Rightarrow> split_log ts (texts @ [t], logid))"

definition unwrapResponse ::
    "(string \<Rightarrow> json option) \<Rightarrow> string \<Rightarrow> (call_error \<times> string, Response) result" where
  "unwrapResponse decode raw =
     (if raw = [] then Inr \<lparr>Data = None, Raw = [], LogID = []\<rparr>
      else (case Option.bind (decode raw) (\<lambda>v. decode_struct response_field v \<lparr>trContent = [], trIsError = False\<rparr>) of
              None \<Rightarrow> Inr \<lparr>Data = None, Raw = raw, LogID = []\<rparr>
            | Some r \<Rightarrow>
                (case split_log (text_entries r) ([], []) of
                   (texts, logid) \<Rightarrow>
                     (if trIsError r then
                        (let msg = Join [CHR 0x0A] texts in
                         Inl (MeegleError ''SERVER_CALL_FAILED'' (if msg = [] then ''server returned error'' else msg) 0, TrimSpace logid))
                      else
                        (case texts of
                           [] \<Rightarrow> Inr \<lparr>Data = None, Raw = [], LogID = logid\<rparr>
                         | t # ts \<Rightarrow>
                             (case decode t of
                                Some v \<Rightarrow> Inr \<lparr>Data = Some v, Raw = [], LogID = logid\<rparr>
                              | None \<Rightarrow> Inr \<lparr>Data = Some (JString t), Raw = t, LogID = logid\<rparr>))))))"

lemma split_log_parts:
  "split_log ts (texts, logid) =
     (texts @ filter (\<lambda>t. stripLogIDPrefix t = None) ts,
      last (logid # List.map_filter stripLogIDPrefix ts))"
  by (induction ts arbitrary: texts logid) (auto simp: List.map_filter_simps split: option.split)

definition CallTool ::
    "(string \<Rightarrow> json option) \<Rightarrow> mcp_client \<Rightarrow> mcp_env \<Rightarrow> (call_error \<times> string, Response) result" where
  "CallTool decode c env =
     (case fst (Call c env ''tools/call'') of
        Inl e \<Rightarrow> Inl (e, [])
      | Inr raw \<Rightarrow> unwrapResponse decode raw)"

end
