(* ===== verification/Command_Line.thy ===== *)
theory Command_Line
  imports Router_Params Registry
begin

text \<open>
  What the client reads from its command line before and beside the flag parser:
  \<open>pkg/runtime/cliapp/command_string.go\<close>, the alias and format scans of \<open>pkg/runtime/cliapp/app.go\<close>, and the
  scans of \<open>internal/products/meegle/app.go\<close> that decide about credentials, refresh and profile.

  cobra is an argument: the flags of the command it finds, each with its value for a bare use.
\<close>

section \<open>Command strings\<close>

fun command_string :: "bool \<Rightarrow> string \<Rightarrow> string list \<Rightarrow> string \<Rightarrow> string list" where
  "command_string inQuotes current args [] = (if current \<noteq> [] then args @ [current] else args)"
| "command_string inQuotes current args (c # cs) =
     (if c = CHR 0x5C then
        (case cs of
           [] \<Rightarrow> command_string inQuotes (current @ [c]) args []
         | d # ds \<Rightarrow>
             (if d = CHR ''n'' then command_string inQuotes (current @ [CHR 0x0A]) args ds
              else if d \<in> {CHR 0x22, CHR 0x5C, CHR '' ''} then command_string inQuotes (current @ [d]) args ds
              else command_string inQuotes (current @ [c]) args cs))
      else if c = CHR 0x22 then command_string (\<not> inQuotes) current args cs
      else if c = CHR '' '' \<and> \<not> inQuotes then
        (if current \<noteq> [] then command_string inQuotes [] (args @ [current]) cs
         else command_string inQuotes current args cs)
      else command_string inQuotes (current @ [c]) args cs)"

definition ParseCommandStringArgs :: "string \<Rightarrow> string list" where
  "ParseCommandStringArgs cmdStr = command_string False [] [] cmdStr"

text \<open>A writer for command strings: every argument in quotes, with the escapes the reader knows.\<close>

fun quote_char :: "char \<Rightarrow> string" where
  "quote_char c =
     (if c = CHR 0x0A then [CHR 0x5C, CHR ''n'']
      else if c = CHR 0x22 \<or> c = CHR 0x5C then [CHR 0x5C, c] else [c])"

definition quote_arg :: "string \<Rightarrow> string" where
  "quote_arg a = [CHR 0x22] @ concat (map quote_char a) @ [CHR 0x22]"

definition quote_args :: "string list \<Rightarrow> string" where
  "quote_args args = Join '' '' (map quote_arg args)"

lemma read_quoted_char:
  "command_string True cur args (quote_char c @ cs) = command_string True (cur @ [c]) args cs"
  by (cases cs) (auto simp: char_of_def)

lemma read_quoted_text:
  "command_string True cur args (concat (map quote_char a) @ cs) = command_string True (cur @ a) args cs"
  by (induction a arbitrary: cur) (simp_all del: quote_char.simps command_string.simps add: read_quoted_char)

lemma read_quoted_arg:
  "command_string False cur args (quote_arg a @ cs) = command_string False (cur @ a) args cs"
  using read_quoted_text[of cur args a "CHR 0x22 # cs"] by (simp add: quote_arg_def)

lemma read_quoted_args:
  "command_string False [] args (quote_args as) = args @ filter (\<lambda>a. a \<noteq> []) as"
proof (induction as arbitrary: args)
  case Nil then show ?case by (simp add: quote_args_def)
next
  case (Cons a as)
  show ?case
  proof (cases as)
    case Nil
    then show ?thesis using read_quoted_arg[of "[]" args a "[]"] by (simp add: quote_args_def)
  next
    case (Cons b bs)
    then have "quote_args (a # as) = quote_arg a @ CHR '' '' # quote_args as" by (simp add: quote_args_def)
    then show ?thesis using read_quoted_arg[of "[]" args a "CHR '' '' # quote_args as"] Cons.IH by simp
  qed
qed

text \<open>
  Command strings round trip: whatever characters the arguments hold, quoting them and reading the string
  gives them back, in order; only arguments without any character are lost.
\<close>

lemma command_string_roundtrip: "ParseCommandStringArgs (quote_args args) = filter (\<lambda>a. a \<noteq> []) args"
  by (simp add: ParseCommandStringArgs_def read_quoted_args)

section \<open>The version flag\<close>

definition CutPrefix :: "string \<Rightarrow> string \<Rightarrow> string option" where
  "CutPrefix s p = (if HasPrefix s p then Some (drop (length p) s) else None)"

definition isEnabledVersionFlag :: "string \<Rightarrow> bool" where
  "isEnabledVersionFlag arg =
     (if arg = ''--version'' then True
      else (case CutPrefix arg ''--version='' of
              None \<Rightarrow> False
            | Some v \<Rightarrow> (case ParseBool v of Some b \<Rightarrow> b | None \<Rightarrow> False)))"

text \<open>The flags of a command of cobra: by name and, in its three flag sets, by shorthand; each \<open>NoOptDefVal\<close>.\<close>

record cobra_command =
  Flag :: "string \<Rightarrow> string option"
  ShorthandLookup :: "(string \<Rightarrow> string option) list"

fun first_shorthand :: "string \<Rightarrow> (string \<Rightarrow> string option) list \<Rightarrow> string option" where
  "first_shorthand s [] = None"
| "first_shorthand s (lookup # rest) = (case lookup s of Some v \<Rightarrow> Some v | None \<Rightarrow> first_shorthand s rest)"

definition flagRequiresSeparateValue :: "cobra_command option \<Rightarrow> string \<Rightarrow> bool" where
  "flagRequiresSeparateValue command arg =
     (case command of
        None \<Rightarrow> False
      | Some c \<Rightarrow>
          (if CHR ''='' \<in> set arg then False
           else if HasPrefix arg ''--'' \<and> drop 2 arg \<noteq> [] then Flag c (drop 2 arg) = Some []
           else (case arg of
                   [d, s] \<Rightarrow> (if d = CHR ''-'' \<and> s \<noteq> CHR ''-'' then first_shorthand [s] (ShorthandLookup c) = Some [] else False)
                 | _ \<Rightarrow> False)))"

text \<open>Which arguments are enabled version flags: none after the terminator, none that is the value of a flag.\<close>

fun version_flags :: "cobra_command option \<Rightarrow> bool \<Rightarrow> bool \<Rightarrow> string list \<Rightarrow> bool list" where
  "version_flags c after expects [] = []"
| "version_flags c after expects (arg # args) =
     (if arg = ''--'' then False # version_flags c True False args
      else if after then False # version_flags c after expects args
      else if expects then False # version_flags c after False args
      else if isEnabledVersionFlag arg then True # version_flags c after False args
      else False # version_flags c after (flagRequiresSeparateValue c arg) args)"

definition normalizeExecutableAliases :: "cobra_command option \<Rightarrow> string list \<Rightarrow> string list" where
  "normalizeExecutableAliases command args =
     (let marks = version_flags command False False args in
      if True \<notin> set marks then args
      else ''version'' # map fst (filter (\<lambda>(a, m). \<not> m) (zip args marks)))"

lemma version_flags_length [simp]: "length (version_flags c after expects args) = length args"
  by (induction c after expects args rule: version_flags.induct) simp_all

definition unmarked :: "string list \<Rightarrow> bool list \<Rightarrow> string list" where
  "unmarked args marks = map fst (filter (\<lambda>(a, m). \<not> m) (zip args marks))"

lemma unmarked_simps [simp]:
  "unmarked [] ms = []" "unmarked (a # as) (m # ms) = (if m then unmarked as ms else a # unmarked as ms)"
  by (simp_all add: unmarked_def)

lemma version_flags_unmarked:
  "True \<notin> set (version_flags c after expects (unmarked args (version_flags c after expects args)))"
  by (induction c after expects args rule: version_flags.induct) auto

lemma unmarked_filter:
  "list_all (\<lambda>(a, m). m \<longrightarrow> isEnabledVersionFlag a) (zip args (version_flags c after expects args))"
  by (induction c after expects args rule: version_flags.induct) auto

lemma unmarked_kept:
  "filter (\<lambda>a. \<not> isEnabledVersionFlag a) (unmarked args (version_flags c after expects args)) =
   filter (\<lambda>a. \<not> isEnabledVersionFlag a) args"
  by (induction c after expects args rule: version_flags.induct) auto

lemma version_flags_terminator:
  "version_flags c True expects args = map (\<lambda>a. False) args"
  by (induction args arbitrary: expects) auto

lemma unmarked_none: "unmarked args (map (\<lambda>a. False) args) = args"
  by (induction args) simp_all

lemma unmarked_terminator:
  "dropWhile (\<lambda>a. a \<noteq> ''--'') (unmarked args (version_flags c after expects args)) = dropWhile (\<lambda>a. a \<noteq> ''--'') args"
proof (induction c after expects args rule: version_flags.induct)
  case (2 c after expects arg args)
  have "\<not> isEnabledVersionFlag ''--''" by code_simp
  with 2 show ?case by (auto simp: version_flags_terminator unmarked_none)
qed simp

text \<open>
  The version flag becomes a command that hooks and restrictions see: if there is an enabled version flag
  among the flags, the command \<open>version\<close> comes first and no such flag is left for cobra to act on; all other
  arguments are kept in their order and nothing from the terminator on is touched.  Without one the arguments
  stay as they are.
\<close>

theorem version_flag_becomes_command:
  "if True \<in> set (version_flags c False False args) then
     (\<exists>kept. normalizeExecutableAliases c args = ''version'' # kept \<and> True \<notin> set (version_flags c False False kept) \<and>
        filter (\<lambda>a. isEnabledVersionFlag a = False) kept = filter (\<lambda>a. isEnabledVersionFlag a = False) args \<and>
        dropWhile (\<lambda>a. a \<noteq> ''--'') kept = dropWhile (\<lambda>a. a \<noteq> ''--'') args)
   else normalizeExecutableAliases c args = args"
  using version_flags_unmarked[of c False False args] unmarked_kept[of args c False False]
    unmarked_terminator[of args c False False]
  by (simp add: normalizeExecutableAliases_def unmarked_def Let_def)

section \<open>Formats and meta commands\<close>

fun explicitErrorFormat :: "string list \<Rightarrow> string option" where
  "explicitErrorFormat [] = None"
| "explicitErrorFormat (arg # args) =
     (if arg = ''--'' then None
      else if arg = ''--format'' \<or> arg = ''-o'' then
        (case args of next_arg # rest \<Rightarrow> Some (TrimSpace next_arg) | [] \<Rightarrow> explicitErrorFormat args)
      else if HasPrefix arg ''--format='' then Some (TrimSpace (TrimPrefix arg ''--format=''))
      else if HasPrefix arg ''-o='' then Some (TrimSpace (TrimPrefix arg ''-o=''))
      else explicitErrorFormat args)"

definition isMetaCommand :: "string list \<Rightarrow> bool" where
  "isMetaCommand args =
     (case args of
        [] \<Rightarrow> False
      | first # rest \<Rightarrow>
          (if list_ex (\<lambda>arg. arg = ''-h'' \<or> arg = ''--help'' \<or> arg = ''--version'') args then True
           else first = ''help'' \<or> first = ''version''))"

end
