(* ===== verification/Startup.thy ===== *)
theory Startup
  imports Registry_Setup Mcp_Tools Command_Line Platform_Install
begin

text \<open>
  The start of a process (\<open>internal/products/meegle/app.go\<close>): which command lines need credentials before the
  commands are known, the profile and the refresh read from them, and \<open>NewCLIApp\<close>, which composes the plugins, the
  identity, the client, the caches and the registry; \<open>session.go\<close>, the identity a command runs with.

  The world of a start holds the command line, the credential world, the plugins, the network and the cache
  files by name.  cobra's tree and the decoration of its root are not part of the model.
\<close>

section \<open>Scanning the command line\<close>

definition MeegleGlobalFlags :: "FlagDef list" where
  "MeegleGlobalFlags =
     [plain_flag ''profile'' [] ''string'' [] ''Specify the configuration profile name'',
      plain_flag ''refresh'' [] ''bool'' [] ''Refresh cached commands from server'']"

definition credentialDeferredRootCommands :: "string list" where
  "credentialDeferredRootCommands =
     [''auth'', ''completion'', ''config'', ''extension'', ''help'', ''inspect'', ''telemetry'', ''url'', ''version'']"

definition longFlags :: "string \<Rightarrow> FlagDef option" where
  "longFlags = map_of (rev (map (\<lambda>f. (flagName f, f)) (BuiltinFlags @ MeegleGlobalFlags)))"

definition shortFlags :: "string \<Rightarrow> FlagDef option" where
  "shortFlags = map_of (rev (map (\<lambda>f. (Short f, f)) (filter (\<lambda>f. Short f \<noteq> []) (BuiltinFlags @ MeegleGlobalFlags))))"

definition enabledBooleanFlag :: "string \<Rightarrow> string \<Rightarrow> string \<Rightarrow> bool" where
  "enabledBooleanFlag arg longName shortName =
     (if arg = ''--'' @ longName \<or> (shortName \<noteq> [] \<and> arg = ''-'' @ shortName) then True
      else (case CutPrefix arg (''--'' @ longName @ ''='') of
              None \<Rightarrow> False
            | Some v \<Rightarrow> (case ParseBool v of Some b \<Rightarrow> b | None \<Rightarrow> False)))"

definition splitLongFlag :: "string \<Rightarrow> (string \<times> bool) option" where
  "splitLongFlag arg =
     (case CutPrefix arg ''--'' of
        None \<Rightarrow> None
      | Some v \<Rightarrow> (if v = [] then None else (case Cut CHR ''='' v of (name, _, hasValue) \<Rightarrow> Some (name, hasValue))))"

definition splitShortFlag :: "string \<Rightarrow> (string \<times> bool) option" where
  "splitShortFlag arg =
     (case arg of
        d # s # rest \<Rightarrow> (if d \<noteq> CHR ''-'' \<or> s = CHR ''-'' then None else Some ([s], rest \<noteq> []))
      | _ \<Rightarrow> None)"

definition takes_value :: "FlagDef \<Rightarrow> bool \<Rightarrow> bool" where
  "takes_value f hasValue = (\<not> hasValue \<and> flagType f \<noteq> ''bool'')"

fun bootstrap_scan :: "string \<Rightarrow> bool \<Rightarrow> string list \<Rightarrow> bool" where
  "bootstrap_scan root_command expects [] = (root_command \<noteq> [])"
| "bootstrap_scan root_command expects (arg # args) =
     (if expects then bootstrap_scan root_command False args
      else if arg = ''--'' then root_command \<noteq> []
      else if enabledBooleanFlag arg ''help'' ''h'' then root_command \<noteq> []
      else if enabledBooleanFlag arg ''version'' [] then False
      else (case splitLongFlag arg of
              Some (name, hasValue) \<Rightarrow>
                (case longFlags name of
                   None \<Rightarrow> root_command \<noteq> []
                 | Some f \<Rightarrow> bootstrap_scan root_command (takes_value f hasValue) args)
            | None \<Rightarrow>
                (case splitShortFlag arg of
                   Some (name, hasValue) \<Rightarrow>
                     (case shortFlags name of
                        None \<Rightarrow> root_command \<noteq> []
                      | Some f \<Rightarrow> bootstrap_scan root_command (takes_value f hasValue) args)
                 | None \<Rightarrow>
                     (if root_command = [] then
                        (if List.member credentialDeferredRootCommands arg then False else bootstrap_scan arg False args)
                      else bootstrap_scan root_command False args))))"

definition shouldResolveCredentialAtBootstrap :: "string list \<Rightarrow> bool" where
  "shouldResolveCredentialAtBootstrap args = (if args = [] then False else bootstrap_scan [] False args)"

fun hasRefreshFlag :: "string list \<Rightarrow> bool" where
  "hasRefreshFlag [] = False"
| "hasRefreshFlag (a # args) =
     (if a = ''--'' then False else if a = ''--refresh'' \<or> a = ''--refresh=true'' then True else hasRefreshFlag args)"

fun profile_scan :: "string list \<Rightarrow> string \<Rightarrow> string" where
  "profile_scan [] profile = profile"
| "profile_scan (arg # args) profile =
     (if arg = ''--'' then profile
      else (case CutPrefix arg ''--profile='' of
              Some v \<Rightarrow> profile_scan args (if v \<noteq> [] then v else profile)
            | None \<Rightarrow>
                (case args of
                   v # rest \<Rightarrow>
                     (if arg = ''--profile'' \<and> v \<noteq> [] \<and> \<not> HasPrefix v ''--'' then profile_scan rest v
                      else profile_scan args profile)
                 | [] \<Rightarrow> profile)))"

definition profileNameFromArgs :: "string list \<Rightarrow> string \<Rightarrow> string" where
  "profileNameFromArgs args fallback = profile_scan args fallback"

section \<open>The client of a start\<close>

record ('sel, 'obs, 'wrap, 'life) start_world =
  swArgs :: "string list"
  swVersion :: string
  swBuild :: string
  swIdentity :: identity_world
  swLabels :: "'sel option \<Rightarrow> string"
  swPlugins :: "('sel, 'obs, 'wrap, 'life) Plugin option list"
  swNetwork :: mcp_env
  swSplit :: "string \<Rightarrow> raw_tool list option"
  swCacheFile :: "string \<Rightarrow> cacheData option"
  swNow :: int
  swEncode :: "(string \<times> string) list \<Rightarrow> string"

definition start_profile :: "('sel, 'obs, 'wrap, 'life, 'x) start_world_scheme \<Rightarrow> string" where
  "start_profile w = profileNameFromArgs (swArgs w) (GetCurrentProfileName (world_config (swIdentity w)))"

definition start_config :: "('sel, 'obs, 'wrap, 'life, 'x) start_world_scheme \<Rightarrow> MeegleConfig" where
  "start_config w = LoadConfig (world_show (swIdentity w)) (start_profile w) (world_config (swIdentity w))"

definition buildCLIClient ::
    "string \<Rightarrow> string \<Rightarrow> identity_world \<Rightarrow> MeegleConfig \<Rightarrow> string \<Rightarrow>
     (identity_error, mcp_client option \<times> ResolvedIdentity) result" where
  "buildCLIClient build version w cfg profile =
     (case resolveCLIIdentity w cfg profile True of
        Inl e \<Rightarrow> Inl e
      | Inr i \<Rightarrow>
          (if idHost i = [] \<or> idToken i = [] then Inr (None, i)
           else Inr (NewMCPClientFromIdentity build (BuildUserAgentForVersion build version (idUserAgentCaller i)) i, i)))"

definition isCLIConfigResolutionError :: "identity_error \<Rightarrow> bool" where
  "isCLIConfigResolutionError e = (case e of ConfigUnresolved field name \<Rightarrow> True | _ \<Rightarrow> False)"

definition config_error_text :: "string \<Rightarrow> string \<Rightarrow> string" where
  "config_error_text field name =
     ''config field '' @ field @ '': environment variable '' @ [CHR 0x22] @ name @ [CHR 0x22] @ '' referenced by config is not set''"

definition bootstrap_error :: "identity_error \<Rightarrow> call_error" where
  "bootstrap_error e =
     (case e of ConfigUnresolved field name \<Rightarrow> OtherError (config_error_text field name) | _ \<Rightarrow> OtherError [])"

text \<open>What the start knows of the identity: deferred, resolved, or an error of the configuration kept for later.\<close>

datatype start_credential = Deferred | Resolved "mcp_client option" ResolvedIdentity | Unresolved call_error

definition start_identity ::
    "('sel, 'obs, 'wrap, 'life, 'x) start_world_scheme \<Rightarrow> (identity_error, start_credential) result" where
  "start_identity w =
     (if shouldResolveCredentialAtBootstrap (swArgs w) then
        (case buildCLIClient (swBuild w) (swVersion w) (swIdentity w) (start_config w) (start_profile w) of
           Inr (client, i) \<Rightarrow> Inr (Resolved client i)
         | Inl e \<Rightarrow> (if isCLIConfigResolutionError e then Inr (Unresolved (bootstrap_error e)) else Inl e))
      else Inr Deferred)"

definition known_identity :: "start_credential \<Rightarrow> ResolvedIdentity" where
  "known_identity s = (case s of Resolved client i \<Rightarrow> i | _ \<Rightarrow> no_identity)"

definition known_client :: "start_credential \<Rightarrow> mcp_client option" where
  "known_client s = (case s of Resolved client i \<Rightarrow> client | _ \<Rightarrow> None)"

section \<open>Assembling the application\<close>

record ('sel, 'obs, 'wrap, 'life) cli_app =
  appRegistry :: Registry
  appSnapshot :: setup_snapshot
  appClient :: "mcp_client option"
  appIdentity :: "ResolvedIdentity option"
  appProfile :: string
  appPlugins :: "('sel, 'obs, 'wrap, 'life) Runtime"
  appEffects :: "setup_effect list"
  appNote :: "IdentitySource option"

datatype start_error =
    ExtensionInstallFailed install_error
  | CredentialResolutionFailed identity_error
  | SetupFailed call_error
  | TreesIncompatible
  | RegistryRejected

definition effective_profile :: "string \<Rightarrow> ResolvedIdentity \<Rightarrow> string" where
  "effective_profile profile i = (if idProfileName i \<noteq> [] then idProfileName i else profile)"

definition dynamic_setup :: "('sel, 'obs, 'wrap, 'life, 'x) start_world_scheme \<Rightarrow> start_credential \<Rightarrow> registry_setup" where
  "dynamic_setup w s =
     (let i = known_identity s in
      \<lparr>rsClient = map_option (\<lambda>c. ListTools (swSplit w) c (swNetwork w)) (known_client s),
       rsCache = Some (swCacheFile w (cache_filename ''tools'' (effective_profile (start_profile w) i))),
       rsManaged = idManaged i, rsActiveToken = idToken i, rsSource = idSource i,
       rsGlobalFlags = MeegleGlobalFlags, rsForceRefresh = hasRefreshFlag (swArgs w), rsDegrade = True,
       rsBootstrapError = (case s of Unresolved e \<Rightarrow> Some e | _ \<Rightarrow> None)\<rparr>)"

text \<open>The note about a missing or rejected login that the help of the root shows.\<close>

definition login_note :: "registry_setup \<Rightarrow> mcp_client option \<Rightarrow> setup_snapshot \<Rightarrow> IdentitySource option" where
  "login_note setup client snap = (if client = None \<or> snapAuthFailed snap then Some (rsSource setup) else None)"

definition NewCLIApp ::
    "('sel, 'obs, 'wrap, 'life) start_world \<Rightarrow> (start_error, ('sel, 'obs, 'wrap, 'life) cli_app) result" where
  "NewCLIApp w =
     (case installPlugins (swLabels w) (swVersion w) (swPlugins w) of
        Inl e \<Rightarrow> Inl (ExtensionInstallFailed e)
      | Inr rt \<Rightarrow>
          (case start_identity w of
             Inl e \<Rightarrow> Inl (CredentialResolutionFailed e)
           | Inr s \<Rightarrow>
               (case Setup (swEncode w) (swNow w) (dynamic_setup w s) of
                  (Inl e, effects) \<Rightarrow> Inl (SetupFailed e)
                | (Inr (t, snap), effects) \<Rightarrow>
                    (case CompositeSetup (product_sources t) of
                       Inl e \<Rightarrow> Inl TreesIncompatible
                     | Inr tree \<Rightarrow>
                         (case New (Some tree) of
                            Built reg \<Rightarrow>
                              Inr \<lparr>appRegistry = reg, appSnapshot = snap, appClient = known_client s,
                                   appIdentity = (case s of Resolved client i \<Rightarrow> Some i | _ \<Rightarrow> None),
                                   appProfile = effective_profile (start_profile w) (known_identity s), appPlugins = rt,
                                   appEffects = effects, appNote = login_note (dynamic_setup w s) (known_client s) snap\<rparr>
                          | _ \<Rightarrow> Inl RegistryRejected)))))"

section \<open>Local commands in a built registry\<close>

fun node_path :: "CommandNode option list \<Rightarrow> CommandNode list \<Rightarrow> bool" where
  "node_path ns [] = True"
| "node_path ns (n # rest) = (n \<in> set (non_nil ns) \<and> node_path (nodeChildren n) rest)"

fun find_path :: "CommandNode option list \<Rightarrow> string list \<Rightarrow> CommandNode option" where
  "find_path ns [] = None"
| "find_path ns (w # ws) =
     (case find (\<lambda>n. nodeName n = w) (non_nil ns) of
        None \<Rightarrow> None
      | Some n \<Rightarrow> (if ws = [] then Some n else find_path (nodeChildren n) ws))"

lemma find_path_nodes:
  "find_path ns ws = Some n \<Longrightarrow> \<exists>path. node_path ns path \<and> map nodeName path = ws \<and> path \<noteq> [] \<and> List.last path = n"
proof (induction ns ws rule: find_path.induct)
  case (2 ns w ws)
  then obtain m where m: "find (\<lambda>n. nodeName n = w) (non_nil ns) = Some m"
    "(if ws = [] then Some m else find_path (nodeChildren m) ws) = Some n" by (auto split: option.splits)
  then have in_ns: "m \<in> set (non_nil ns)" "nodeName m = w" by (auto simp: find_Some_iff)
  show ?case
  proof (cases ws)
    case Nil
    then show ?thesis using m(2) in_ns by (intro exI[of _ "[m]"]) simp
  next
    case (Cons v vs)
    then have "find_path (nodeChildren m) ws = Some n" "ws \<noteq> []" using m(2) by simp_all
    with 2(1)[OF m(1)] obtain path where "node_path (nodeChildren m) path" "map nodeName path = ws" "path \<noteq> []" "List.last path = n"
      by blast
    then show ?thesis using in_ns by (intro exI[of _ "m # path"]) simp
  qed
qed simp

lemma node_path_descends:
  "node_path ns path \<Longrightarrow> list_all (\<lambda>n. dynamicCommandNamePattern (nodeName n)) path \<Longrightarrow> mirrors_all ns bs \<Longrightarrow>
   \<exists>chain. descends bs chain \<and> list_all2 mirrors path chain \<and> list_all2 names_node (map nodeName path) chain"
proof (induction path arbitrary: ns bs)
  case Nil then show ?case by (intro exI[of _ "[]"]) simp
next
  case (Cons n path)
  from mirrors_all_built[OF Cons.prems(3), of n] Cons.prems(1) obtain b where b: "b \<in> set bs" "mirrors n b" by auto
  from Cons.IH[of "nodeChildren n" "bnChildren b"] Cons.prems(1,2) mirrors_fields[OF b(2)]
  obtain chain where "descends (bnChildren b) chain" "list_all2 mirrors path chain" "list_all2 names_node (map nodeName path) chain"
    by auto
  moreover have "names_node (nodeName n) b" using names_self[of "nodeName n" b] mirrors_fields[OF b(2)] Cons.prems(2) by simp
  ultimately show ?case using b by (intro exI[of _ "b # chain"]) simp
qed

lemma node_path_append: "node_path ns path \<Longrightarrow> node_path (ms @ ns) path"
  by (cases path) (simp_all add: non_nil_append)

lemma path_resolves:
  assumes "find_path ns ws = Some n" and "list_all dynamicCommandNamePattern ws" and "mirrors_all (ms @ ns) (regRoots reg)"
    and "unique_names (regRoots reg)" "list_all resolvable (regRoots reg)"
  shows "\<exists>b. Resolve reg ws = (Some b, []) \<and> mirrors n b"
proof -
  from find_path_nodes[OF assms(1)] obtain path where path: "node_path ns path" "map nodeName path = ws" "path \<noteq> []" "List.last path = n"
    by blast
  have "list_all (\<lambda>n. dynamicCommandNamePattern (nodeName n)) path" using assms(2) path(2) by (auto simp: list_all_iff)
  from node_path_descends[OF node_path_append[OF path(1)] this assms(3)] obtain chain where chain: "descends (regRoots reg) chain"
    "list_all2 mirrors path chain" "list_all2 names_node ws chain" using path(2) by auto
  then have "chain \<noteq> []" using path(3) by auto
  with resolve_chain[OF chain(1,3) assms(4,5), of None "[]"]
  have "Resolve reg ws = (Some (List.last chain), [])" by (simp add: Resolve_def)
  moreover have "mirrors n (List.last chain)"
    using chain(2) path(3,4) by (metis list_all2_lengthD list_all2_nthD2 last_conv_nth length_0_conv diff_less length_greater_0_conv zero_less_one \<open>chain \<noteq> []\<close>)
  ultimately show ?thesis by blast
qed

definition local_command_paths :: "(string list \<times> string) list" where
  "local_command_paths =
     [([''ai-handoff'', ''availability''], handlerHandoffAvailability),
      ([''ai-handoff'', ''create-link''], handlerHandoffCreateLink),
      ([''preference'', ''handoff'', ''auto''], handlerPreferenceAuto),
      ([''preference'', ''handoff'', ''ask''], handlerPreferenceAsk),
      ([''preference'', ''handoff'', ''off''], handlerPreferenceOff)]"

lemma local_paths_found:
  "list_all (\<lambda>(ws, h). list_all dynamicCommandNamePattern ws \<and>
      (case find_path (Nodes newMeegleLocalCommandTree) ws of Some n \<Rightarrow> nodeHandler n = h | None \<Rightarrow> False)) local_command_paths"
  by code_simp


lemma buildable_app:
  assumes "buildable t"
  obtains tree reg where "CompositeSetup (product_sources t) = Inr tree" "New (Some tree) = Built reg"
    "GlobalFlags (regTree reg) = GlobalFlags t"
    "list_all (\<lambda>(ws, h). \<exists>b. Resolve reg ws = (Some b, []) \<and> bnHandler b = h) local_command_paths"
proof -
  from assms obtain ns ks where ns: "Nodes t = map Some ns" "own_roots ns ks" "list_all well_formed ns" "list_all no_nil ns"
    unfolding buildable_def by blast
  from registry_built[OF ns] obtain tree reg where reg: "CompositeSetup (product_sources t) = Inr tree" "New (Some tree) = Built reg"
    "GlobalFlags tree = GlobalFlags t" "mirrors_all (Nodes t @ Nodes newMeegleLocalCommandTree) (regRoots reg)"
    "unique_names (regRoots reg)" "list_all resolvable (regRoots reg)" by metis
  have "\<exists>b. Resolve reg ws = (Some b, []) \<and> bnHandler b = h" if path: "(ws, h) \<in> set local_command_paths" for ws h
  proof -
    obtain n where n: "find_path (Nodes newMeegleLocalCommandTree) ws = Some n" "nodeHandler n = h" "list_all dynamicCommandNamePattern ws"
      using bspec[OF local_paths_found[unfolded list_all_iff] path] by (auto simp: list_all_iff split: option.splits)
    from path_resolves[OF n(1,3) reg(4-6)] n(2) mirrors_fields[of n] show ?thesis by metis
  qed
  then have "list_all (\<lambda>(ws, h). \<exists>b. Resolve reg ws = (Some b, []) \<and> bnHandler b = h) local_command_paths"
    by (auto simp: list_all_iff)
  moreover have "GlobalFlags (regTree reg) = GlobalFlags t"
    using reg(2,3) by (auto simp: New_def Let_def split: option.splits if_splits)
  ultimately show thesis using that[OF reg(1,2)] by blast
qed

lemma resolve_errors: "fst (resolveToolsState now s) = Inl e \<Longrightarrow> \<not> isUnauthorizedErr e"
proof -
  assume "fst (resolveToolsState now s) = Inl e"
  then have "e = token_rejected \<or> e = OtherError ''tool discovery returned empty list'' \<or> (\<exists>e'. e = discovery_error e' \<and> \<not> IsUnauthorized e')"
    by (auto simp: resolveToolsState_def split: option.splits sum.splits if_splits prod.splits bool.splits)
  then show ?thesis
    by (auto simp: token_rejected_def isUnauthorizedErr_def discovery_error_def IsUnauthorized_def split: option.splits)
qed

lemma Setup_degrades: "rsDegrade s \<Longrightarrow> \<exists>t snap. fst (Setup encode now s) = Inr (t, snap)"
  using resolve_errors[of now s]
  by (auto simp: Setup_def split: option.splits prod.splits sum.splits if_splits)

lemma start_identity_error: "start_identity w = Inl e \<Longrightarrow>
   shouldResolveCredentialAtBootstrap (swArgs w) \<and> \<not> isCLIConfigResolutionError e \<and>
   resolveCLIIdentity (swIdentity w) (start_config w) (start_profile w) True = Inl e"
  by (auto simp: start_identity_def buildCLIClient_def split: if_splits sum.splits)

text \<open>What a start knows, from whether the credentials are wanted and what their resolution answers.\<close>

definition resolved_identity :: "start_credential \<Rightarrow> ResolvedIdentity option" where
  "resolved_identity s = (case s of Resolved client i \<Rightarrow> Some i | _ \<Rightarrow> None)"

definition start_known ::
    "('sel, 'obs, 'wrap, 'life, 'x) start_world_scheme \<Rightarrow> mcp_client option \<Rightarrow> ResolvedIdentity option \<Rightarrow> bool" where
  "start_known w client ident =
     (if shouldResolveCredentialAtBootstrap (swArgs w)
      then (case resolveCLIIdentity (swIdentity w) (start_config w) (start_profile w) True of
              Inr i \<Rightarrow>
                ident = Some i \<and>
                (if idHost i \<noteq> [] \<and> idToken i \<noteq> []
                 then (\<exists>c. client = Some c \<and> mcpBaseURL c = GetServerURL (empty_config\<lparr>cfgHost := idHost i\<rparr>) \<and>
                         mcpToken c = (if idSource i = SourceStore then ManagedToken else FixedToken (idToken i)))
                 else client = None)
            | Inl ie \<Rightarrow> isCLIConfigResolutionError ie \<and> ident = None \<and> client = None)
      else ident = None \<and> client = None)"

lemma start_identity_known:
  "start_identity w = Inr s \<Longrightarrow> start_known w (known_client s) (resolved_identity s)"
  by (auto simp: start_identity_def start_known_def known_client_def resolved_identity_def buildCLIClient_def
      NewMCPClientFromIdentity_def split: if_splits sum.splits)

section \<open>Properties\<close>

text \<open>
  C31.  A start fails for two reasons only: a plugin that cannot be installed, or credentials that are needed to
  find the commands and that a provider refuses.  Whatever else happens -- no login, a broken profile, no
  network, any reply of the service, any content of the cache -- an application is built with the flags of the
  product and the local commands, each reached by its path.  Unless the command line defers the credentials,
  an identity that resolves is kept, and it gets a client exactly when it has a host and a token: a client for
  that host with that token (the live one of the token manager after a login).  A deferred command line and a
  profile whose configuration does not resolve have no client; without a client the help tells about the login.
\<close>

theorem cli_boots:
  "case NewCLIApp w of
     Inl e \<Rightarrow>
       (case e of
          ExtensionInstallFailed ie \<Rightarrow> installPlugins (swLabels w) (swVersion w) (swPlugins w) = Inl ie
        | CredentialResolutionFailed ie \<Rightarrow>
            shouldResolveCredentialAtBootstrap (swArgs w) \<and> isCLIConfigResolutionError ie = False \<and>
            resolveCLIIdentity (swIdentity w) (start_config w) (start_profile w) True = Inl ie
        | _ \<Rightarrow> False)
   | Inr app \<Rightarrow>
       installPlugins (swLabels w) (swVersion w) (swPlugins w) = Inr (appPlugins app) \<and>
       GlobalFlags (regTree (appRegistry app)) = MeegleGlobalFlags \<and>
       list_all (\<lambda>(ws, h). \<exists>b. Resolve (appRegistry app) ws = (Some b, []) \<and> bnHandler b = h) local_command_paths \<and>
       (if shouldResolveCredentialAtBootstrap (swArgs w)
        then (case resolveCLIIdentity (swIdentity w) (start_config w) (start_profile w) True of
                Inr i \<Rightarrow>
                  appIdentity app = Some i \<and>
                  (if idHost i \<noteq> [] \<and> idToken i \<noteq> []
                   then (\<exists>c. appClient app = Some c \<and> mcpBaseURL c = GetServerURL (empty_config\<lparr>cfgHost := idHost i\<rparr>) \<and>
                           mcpToken c = (if idSource i = SourceStore then ManagedToken else FixedToken (idToken i)))
                   else appClient app = None)
              | Inl ie \<Rightarrow> isCLIConfigResolutionError ie \<and> appIdentity app = None \<and> appClient app = None)
        else appIdentity app = None \<and> appClient app = None) \<and>
       (case appClient app of None \<Rightarrow> appNote app \<noteq> None | Some c \<Rightarrow> True)"
proof (cases "installPlugins (swLabels w) (swVersion w) (swPlugins w)")
  case (Inl e)
  then show ?thesis by (simp add: NewCLIApp_def)
next
  case installed: (Inr rt)
  show ?thesis
  proof (cases "start_identity w")
    case (Inl e)
    with start_identity_error[OF Inl] installed show ?thesis by (simp add: NewCLIApp_def)
  next
    case started: (Inr s)
    have "rsDegrade (dynamic_setup w s)" by (simp add: dynamic_setup_def Let_def)
    from Setup_degrades[OF this] obtain t snap effects where
      set_up: "Setup (swEncode w) (swNow w) (dynamic_setup w s) = (Inr (t, snap), effects)" by (metis prod.collapse)
    have "rsGlobalFlags (dynamic_setup w s) = MeegleGlobalFlags" by (simp add: dynamic_setup_def Let_def)
    moreover have "fst (Setup (swEncode w) (swNow w) (dynamic_setup w s)) = Inr (t, snap)" unfolding set_up by simp
    note Setup_buildable[OF this]
    ultimately have t: "buildable t" "GlobalFlags t = MeegleGlobalFlags" by simp_all
    obtain tree reg where built: "CompositeSetup (product_sources t) = Inr tree"
      "New (Some tree) = Built reg" "GlobalFlags (regTree reg) = GlobalFlags t"
      "list_all (\<lambda>(ws, h). \<exists>b. Resolve reg ws = (Some b, []) \<and> bnHandler b = h) local_command_paths"
      by (rule buildable_app[OF t(1)])
    from installed started set_up built t(2) obtain app where
      app: "NewCLIApp w = Inr app" "appPlugins app = rt" "appRegistry app = reg"
        "appClient app = known_client s" "appIdentity app = resolved_identity s"
        "appNote app = login_note (dynamic_setup w s) (known_client s) snap"
      by (simp add: NewCLIApp_def resolved_identity_def)
    have "case appClient app of None \<Rightarrow> appNote app \<noteq> None | Some c \<Rightarrow> True"
      unfolding app(4,6) by (cases "known_client s") (simp_all add: login_note_def)
    moreover have "GlobalFlags (regTree (appRegistry app)) = MeegleGlobalFlags" "list_all
      (\<lambda>(ws, h). \<exists>b. Resolve (appRegistry app) ws = (Some b, []) \<and> bnHandler b = h) local_command_paths"
      using built(3,4) t(2) app(3) by simp_all
    ultimately show ?thesis
      using start_identity_known[OF started, folded app(4,5), unfolded start_known_def] app(2) installed
      unfolding app(1) sum.case by blast
  qed
qed

section \<open>Local commands need no credentials\<close>

text \<open>Flags in front of the command: known ones, each with its value where it takes one apart.\<close>

definition flag_of :: "string \<Rightarrow> (FlagDef \<times> bool) option" where
  "flag_of arg =
     (case splitLongFlag arg of
        Some (name, hasValue) \<Rightarrow> map_option (\<lambda>f. (f, hasValue)) (longFlags name)
      | None \<Rightarrow>
          (case splitShortFlag arg of
             Some (name, hasValue) \<Rightarrow> map_option (\<lambda>f. (f, hasValue)) (shortFlags name)
           | None \<Rightarrow> None))"

definition meta_flag :: "string \<Rightarrow> bool" where
  "meta_flag arg = (arg = ''--'' \<or> enabledBooleanFlag arg ''help'' ''h'' \<or> enabledBooleanFlag arg ''version'' [])"

fun scannable_flags :: "string list \<Rightarrow> bool" where
  "scannable_flags [] = True"
| "scannable_flags [arg] = (\<not> meta_flag arg \<and> (case flag_of arg of None \<Rightarrow> False | Some (f, hasValue) \<Rightarrow> \<not> takes_value f hasValue))"
| "scannable_flags (arg # v # rest) =
     (\<not> meta_flag arg \<and>
      (case flag_of arg of
         None \<Rightarrow> False
       | Some (f, hasValue) \<Rightarrow> (if takes_value f hasValue then scannable_flags rest else scannable_flags (v # rest))))"

lemma flag_step:
  "\<not> meta_flag arg \<Longrightarrow> flag_of arg = Some (f, hasValue) \<Longrightarrow>
   bootstrap_scan r False (arg # args) = bootstrap_scan r (takes_value f hasValue) args"
  by (auto simp: meta_flag_def flag_of_def split: option.splits)

lemma value_step: "bootstrap_scan r True (v # args) = bootstrap_scan r False args"
  by simp

lemma scan_scannable_flags: "scannable_flags flags \<Longrightarrow> bootstrap_scan [] False (flags @ args) = bootstrap_scan [] False args"
proof (induction flags rule: scannable_flags.induct)
  case (2 arg)
  then obtain f hv where "\<not> meta_flag arg" "flag_of arg = Some (f, hv)" "\<not> takes_value f hv"
    by (auto split: option.splits)
  from flag_step[OF this(1,2), of "[]" args] this(3) show ?case by (simp del: bootstrap_scan.simps)
next
  case (3 arg v rest)
  then obtain f hv where f: "\<not> meta_flag arg" "flag_of arg = Some (f, hv)"
    "if takes_value f hv then scannable_flags rest else scannable_flags (v # rest)"
    by (auto split: option.splits)
  note step = flag_step[OF f(1,2), of "[]" "v # rest @ args"]
  show ?case
  proof (cases "takes_value f hv")
    case True
    with 3(1)[OF f(2) refl] f(3) step value_step[of "[]" v "rest @ args"] show ?thesis by (simp del: bootstrap_scan.simps)
  next
    case False
    with 3(2)[OF f(2) refl] f(3) step show ?thesis by (simp del: bootstrap_scan.simps)
  qed
qed simp

definition plain_word :: "string \<Rightarrow> bool" where
  "plain_word w = (w \<noteq> [] \<and> \<not> HasPrefix w ''-'')"

lemma plain_word_scan:
  assumes "plain_word w"
  shows "bootstrap_scan [] False (w # args) = (if List.member credentialDeferredRootCommands w then False else bootstrap_scan w False args)"
proof -
  from assms have "\<not> enabledBooleanFlag w ''help'' ''h''" "\<not> enabledBooleanFlag w ''version'' []" "w \<noteq> ''--''"
    "splitLongFlag w = None" "splitShortFlag w = None"
    by (auto simp: plain_word_def enabledBooleanFlag_def splitLongFlag_def splitShortFlag_def CutPrefix_def HasPrefix_iff split: list.splits)
  then show ?thesis by simp
qed

lemma local_root_deferred:
  assumes "scannable_flags flags" "plain_word root_command" "List.member credentialDeferredRootCommands root_command"
  shows "shouldResolveCredentialAtBootstrap (flags @ root_command # args) = False"
  using scan_scannable_flags[OF assms(1)] plain_word_scan[OF assms(2)] assms(3)
  by (simp add: shouldResolveCredentialAtBootstrap_def)

end
