(* ===== verification/Execution.thy ===== *)
theory Execution
  imports Startup
begin

text \<open>
  One run of a started application: the identity a command runs with (\<open>session.go\<close>), \<open>ExecuteWithIO\<close> of
  \<open>pkg/runtime/cliapp/app.go\<close> with the lifecycle hooks of \<open>internal/products/meegle/app.go\<close>, and the exit code of the
  process (\<open>cmd/execute.go\<close>).

  Routing through cobra, the hooks and the rendering of an error are arguments.  Errors are given by what the
  code asks about them.
\<close>

section \<open>Sessions\<close>

record session_config =
  scHost :: string
  scToken :: string
  scHeaders :: "(string \<times> string) list"
  scSource :: IdentitySource
  scHeader :: string
  scProfile :: string
  scAgent :: string
  scManaged :: bool

datatype session_error = HostNotConfigured | AuthRequired | ConfigEnvUnresolved string string

datatype session_result =
    SessionSkipped
  | SessionReady session_config
  | FirstRun string ResolvedIdentity
  | SessionFailed session_error

definition session_less_roots :: "string list" where
  "session_less_roots = [''auth'', ''config'', ''help'', ''version'', ''inspect'', ''completion'']"

definition session_agent :: "string \<Rightarrow> string \<Rightarrow> ResolvedIdentity \<Rightarrow> string" where
  "session_agent build agent i =
     (if agent \<noteq> [] then agent
      else if idUserAgentCaller i \<noteq> [] then BuildUserAgentForVersion build [] (idUserAgentCaller i) else [])"

definition project_session :: "bool \<Rightarrow> string \<Rightarrow> string \<Rightarrow> string \<Rightarrow> ResolvedIdentity \<Rightarrow> session_result" where
  "project_session interactive build agent profile i =
     (let effective = effective_profile profile i in
      if idHost i = [] then (if interactive then FirstRun effective i else SessionFailed HostNotConfigured)
      else if idToken i = [] then (if interactive then FirstRun effective i else SessionFailed AuthRequired)
      else SessionReady
        \<lparr>scHost = idHost i, scToken = idToken i, scHeaders = idHeaders i, scSource = idSource i,
         scHeader = idAccessTokenHeader i, scProfile = profile, scAgent = session_agent build agent i,
         scManaged = (idSource i = SourceStore)\<rparr>)"

text \<open>The snapshot is the identity of the start with its user agent, absent when the start deferred it.\<close>

definition SessionStep ::
    "identity_world \<Rightarrow> bool \<Rightarrow> string \<Rightarrow> (ResolvedIdentity \<times> string) option \<Rightarrow> string list \<Rightarrow> bool \<Rightarrow> string \<Rightarrow> session_result" where
  "SessionStep w interactive build snapshot path dryRun profileFlag =
     (case path of
        [] \<Rightarrow> SessionSkipped
      | first # rest \<Rightarrow>
          (if dryRun then SessionSkipped
           else if List.member session_less_roots first then SessionSkipped
           else
             (let profile = (if profileFlag = [] then GetCurrentProfileName (world_config w) else profileFlag) in
              case snapshot of
                Some (i, agent) \<Rightarrow> project_session interactive build agent profile i
              | None \<Rightarrow>
                  (case ResolveIdentity (world_env w) (world_tokens w) (LoadConfig (world_show w) profile (world_config w)) profile of
                     Inl (field, name) \<Rightarrow> SessionFailed (ConfigEnvUnresolved field name)
                   | Inr i \<Rightarrow> project_session interactive build [] profile i))))"

lemma session_of_snapshot:
  "SessionStep w interactive build (Some (i, agent)) path dryRun profileFlag = SessionReady sc \<Longrightarrow>
   scToken sc = idToken i \<and> scHost sc = idHost i \<and> scHeader sc = idAccessTokenHeader i \<and> idToken i \<noteq> [] \<and> idHost i \<noteq> []"
  by (auto simp: SessionStep_def project_session_def Let_def split: list.splits if_splits)

text \<open>
  A flag of a command may stand in front of it.  The scan of the start does not know it and defers the
  credentials; the session then resolves the identity itself, from the built-in sources only.  In a world in
  which a provider is registered whose token counts before the one of the environment, the order of the
  words decides which of the two a command runs with.
\<close>

definition flag_last :: "string list" where "flag_last = [''workitem'', ''list'', ''--project-key'', ''P'']"
definition flag_first :: "string list" where "flag_first = [''--project-key'', ''P'', ''workitem'', ''list'']"

lemma flag_position_decides: "shouldResolveCredentialAtBootstrap flag_last" "\<not> shouldResolveCredentialAtBootstrap flag_first"
  by code_simp+

lemma providers_bypassed:
  "(case resolveCLIIdentity demo_world empty_config ''default'' True of
      Inr i \<Rightarrow> (case SessionStep demo_world False [] (Some (i, [])) [''workitem'', ''list''] False [] of
                 SessionReady sc \<Rightarrow> scToken sc = ''t'' \<and> scSource sc = SourceExtension | _ \<Rightarrow> False)
    | Inl e \<Rightarrow> False) \<and>
   (case SessionStep demo_world False [] None [''workitem'', ''list''] False [] of
      SessionReady sc \<Rightarrow> scToken sc = ''e'' \<and> scSource sc = SourceEnv | _ \<Rightarrow> False)"
  by code_simp

section \<open>Errors of a run\<close>

text \<open>\<open>CausedBy e c\<close> is the error \<open>e\<close> wrapping \<open>c\<close>.\<close>

datatype run_error =
    Canceled
  | FirstRunSetupComplete
  | StatusExitError int
  | MeegleFailure int
  | CLIFailure nat
  | OtherFailure string
  | SuccessfulExit run_error
  | AlreadyRenderedError run_error
  | CausedBy run_error run_error

fun chain :: "run_error \<Rightarrow> run_error list" where
  "chain (SuccessfulExit e) = SuccessfulExit e # chain e"
| "chain (AlreadyRenderedError e) = AlreadyRenderedError e # chain e"
| "chain (CausedBy e c) = chain e @ chain c"
| "chain e = [e]"

definition is_exit_marker :: "run_error \<Rightarrow> bool" where
  "is_exit_marker e = (case e of SuccessfulExit e' \<Rightarrow> True | FirstRunSetupComplete \<Rightarrow> True | _ \<Rightarrow> False)"

definition IsSuccessfulExit :: "run_error option \<Rightarrow> bool" where
  "IsSuccessfulExit err = (case err of None \<Rightarrow> False | Some e \<Rightarrow> list_ex is_exit_marker (chain e))"

definition is_rendered :: "run_error \<Rightarrow> bool" where
  "is_rendered e = list_ex (\<lambda>x. case x of AlreadyRenderedError e' \<Rightarrow> True | _ \<Rightarrow> False) (chain e)"

definition finalizePlugins :: "run_error option \<Rightarrow> run_error option \<Rightarrow> run_error option" where
  "finalizePlugins runErr shutdownErr =
     (if IsSuccessfulExit runErr then (if shutdownErr \<noteq> None then shutdownErr else runErr)
      else if runErr \<noteq> None then runErr else shutdownErr)"

definition lifecycleCommandError :: "run_error option \<Rightarrow> run_error option" where
  "lifecycleCommandError runErr = (if IsSuccessfulExit runErr then None else runErr)"

section \<open>Running\<close>

definition after_hooks :: "(run_error option \<Rightarrow> run_error option) \<Rightarrow> run_error option \<Rightarrow> run_error option" where
  "after_hooks shutdown runErr = finalizePlugins runErr (shutdown (lifecycleCommandError runErr))"

text \<open>\<open>renders\<close> says whether an envelope of the error can be built and written.  The calls of the router are returned.\<close>

definition close_run :: "(run_error option \<Rightarrow> run_error option) \<Rightarrow> run_error option \<Rightarrow> run_error option" where
  "close_run after outcome =
     (case after outcome of
        Some e \<Rightarrow> (if outcome = None \<or> IsSuccessfulExit outcome then Some e else outcome)
      | None \<Rightarrow> outcome)"

definition report_error :: "(run_error \<Rightarrow> bool) \<Rightarrow> string list \<Rightarrow> run_error option \<Rightarrow> run_error option" where
  "report_error renders args final =
     (if IsSuccessfulExit final then final
      else (case final of
              None \<Rightarrow> None
            | Some e \<Rightarrow>
                (if is_rendered e then Some e
                 else if explicitErrorFormat args \<noteq> None \<and> renders e then Some (AlreadyRenderedError e)
                 else Some e)))"

definition ExecuteWithIO ::
    "run_error option \<Rightarrow> (string list \<Rightarrow> run_error option) \<Rightarrow> (run_error option \<Rightarrow> run_error option) \<Rightarrow>
     (run_error \<Rightarrow> bool) \<Rightarrow> cobra_command option \<Rightarrow> string list \<Rightarrow> run_error option \<times> string list list" where
  "ExecuteWithIO before route after renders command args =
     (let args' = normalizeExecutableAliases command args;
          (outcome, calls) = (case before of None \<Rightarrow> (route args', [args']) | Some e \<Rightarrow> (Some e, []))
      in (report_error renders args' (close_run after outcome), calls))"

section \<open>Exit codes\<close>

definition CLI_ExitCode :: "nat \<Rightarrow> int" where
  "CLI_ExitCode category = int category + 1"

fun first_category :: "run_error list \<Rightarrow> nat option" where
  "first_category [] = None"
| "first_category (e # es) = (case e of CLIFailure c \<Rightarrow> Some c | _ \<Rightarrow> first_category es)"

definition ExitCode :: "run_error \<Rightarrow> int" where
  "ExitCode e = (case first_category (chain e) of Some c \<Rightarrow> CLI_ExitCode c | None \<Rightarrow> 1)"

fun first_meegle :: "run_error list \<Rightarrow> int option" where
  "first_meegle [] = None"
| "first_meegle (e # es) = (case e of MeegleFailure c \<Rightarrow> Some c | _ \<Rightarrow> first_meegle es)"

fun first_status :: "run_error list \<Rightarrow> int option" where
  "first_status [] = None"
| "first_status (e # es) = (case e of StatusExitError c \<Rightarrow> Some c | _ \<Rightarrow> first_status es)"

definition renderError :: "(run_error \<Rightarrow> bool) \<Rightarrow> run_error \<Rightarrow> int" where
  "renderError explicit e =
     (if IsSuccessfulExit (Some e) then 0
      else if is_rendered e then ExitCode e
      else if explicit e then ExitCode e
      else (case first_meegle (chain e) of Some c \<Rightarrow> c | None \<Rightarrow> ExitCode e))"

definition commandExitCode :: "(run_error \<Rightarrow> bool) \<Rightarrow> run_error \<Rightarrow> int" where
  "commandExitCode explicit e =
     (if Canceled \<in> set (chain e) then 130
      else if FirstRunSetupComplete \<in> set (chain e) then 0
      else (case first_status (chain e) of Some c \<Rightarrow> c | None \<Rightarrow> renderError explicit e))"

definition process_exit :: "(run_error \<Rightarrow> bool) \<Rightarrow> run_error option \<Rightarrow> int" where
  "process_exit explicit err = (case err of None \<Rightarrow> 0 | Some e \<Rightarrow> commandExitCode explicit e)"

text \<open>A server error is to exit with 2; once its envelope was written it exits with 1.\<close>

lemma rendered_server_error_exit:
  "commandExitCode explicit (AlreadyRenderedError (MeegleFailure 2)) = 1"
  "commandExitCode (\<lambda>e. False) (MeegleFailure 2) = 2"
  by (simp_all add: commandExitCode_def renderError_def ExitCode_def is_rendered_def IsSuccessfulExit_def is_exit_marker_def)

section \<open>Properties\<close>

definition reported :: "run_error \<Rightarrow> run_error option \<Rightarrow> bool" where
  "reported e out = (out \<in> {Some e, Some (AlreadyRenderedError e)})"

lemma ExitCode_positive: "ExitCode e > 0"
  by (simp add: ExitCode_def CLI_ExitCode_def split: option.split)

text \<open>
  C32.  How a run ends: a failing startup hook keeps the command from running; the command runs at most once,
  with the normalized arguments.  A failure of the command is what is reported, whatever the shutdown hooks
  do; a failure of the shutdown hooks is reported exactly when the command succeeded; the run succeeds only if
  both did.  The shutdown hooks see a successful exit as no error.
\<close>

theorem run_outcome:
  "let outcome = (case before of None \<Rightarrow> route (normalizeExecutableAliases command args) | Some e \<Rightarrow> Some e);
       out = ExecuteWithIO before route (after_hooks shutdown) renders command args
   in snd out = (case before of None \<Rightarrow> [normalizeExecutableAliases command args] | Some e \<Rightarrow> []) \<and>
      (case outcome of
         None \<Rightarrow> (case shutdown None of None \<Rightarrow> fst out = None | Some e \<Rightarrow> reported e (fst out))
       | Some e \<Rightarrow>
           (if IsSuccessfulExit outcome then
              (case shutdown None of None \<Rightarrow> fst out = Some e | Some e' \<Rightarrow> reported e' (fst out))
            else reported e (fst out)))"
proof -
  define args' where "args' = normalizeExecutableAliases command args"
  define outcome where "outcome = (case before of None \<Rightarrow> route args' | Some e \<Rightarrow> Some e)"
  have out: "ExecuteWithIO before route (after_hooks shutdown) renders command args =
      (report_error renders args' (close_run (after_hooks shutdown) outcome), case before of None \<Rightarrow> [args'] | Some e \<Rightarrow> [])"
    unfolding ExecuteWithIO_def args'_def[symmetric] outcome_def by (cases before) simp_all
  have final: "close_run (after_hooks shutdown) outcome =
      (if outcome = None \<or> IsSuccessfulExit outcome then (case shutdown None of None \<Rightarrow> outcome | Some e \<Rightarrow> Some e) else outcome)"
    by (auto simp: close_run_def after_hooks_def finalizePlugins_def lifecycleCommandError_def IsSuccessfulExit_def split: option.splits)
  have "report_error renders args' None = None" "reported e (report_error renders args' (Some e))"
    "IsSuccessfulExit (Some e) \<Longrightarrow> report_error renders args' (Some e) = Some e" for e
    by (simp_all add: report_error_def reported_def IsSuccessfulExit_def)
  then show ?thesis unfolding Let_def args'_def[symmetric] out outcome_def[symmetric] fst_conv snd_conv final
    by (cases outcome; cases "shutdown None") (simp_all add: IsSuccessfulExit_def)
qed

end
