(* ===== verification/Transport.thy ===== *)
theory Transport
  imports Mcp_Client
begin

text \<open>
  The transport extension (\<open>extension/transport\<close>, \<open>internal/extension/transport/client.go\<close>): the resolution of the
  provider, the round trip around an interceptor's hooks, and the rules no hook may break.

  A hook is a function of the request it is given; it returns, panics or runs into its deadline, each with the
  request as it left it.  Bodies are numbered; what is closed, sent and called is recorded in order.  The body
  of a request that is sent belongs to the base transport, which closes it.
\<close>

section \<open>Requests and hooks\<close>

datatype request_body = Tracked nat | Foreign nat

record http_request =
  rqURL :: "URL option"
  rqHost :: string
  rqHeader :: header
  rqBody :: "request_body option"

record http_response =
  respStatus :: int
  respHeader :: header
  respBody :: "nat option"

datatype transport_error =
    RuntimeFailure string string "transport_error list"
  | AbortError string transport_error
  | SecurityBaseline string
  | HookError string
  | Panicked string
  | DeadlineExceeded
  | NilInterceptor
  | InvalidName string
  | NetworkError string

datatype post_outcome = PostReturns | PostPanics string | PostTimesOut

type_synonym post_hook = "http_response option \<Rightarrow> transport_error option \<Rightarrow> post_outcome"

datatype pre_outcome =
    PreReturns http_request "post_hook option" "string option"
  | PrePanics http_request string
  | PreTimesOut http_request

type_synonym interceptor = "http_request \<Rightarrow> pre_outcome"

datatype transport_event =
    CloseBody request_body
  | Send http_request
  | PostCalled "http_response option" "transport_error option"
  | CloseResponse nat

type_synonym round_trip = "(transport_error, http_response) result \<times> transport_event list"

section \<open>Bodies\<close>

text \<open>
  The body of the caller is tracked: it is closed at most once.  A body a hook puts in its place is closed as
  often as it is asked for.
\<close>

definition trackRequestBody :: "http_request \<Rightarrow> http_request" where
  "trackRequestBody r = r\<lparr>rqBody := (case rqBody r of Some (Foreign n) \<Rightarrow> Some (Tracked n) | b \<Rightarrow> b)\<rparr>"

definition closeBody :: "request_body option \<Rightarrow> transport_event list \<Rightarrow> transport_event list" where
  "closeBody b ev =
     (case b of
        None \<Rightarrow> ev
      | Some (Foreign n) \<Rightarrow> ev @ [CloseBody (Foreign n)]
      | Some (Tracked n) \<Rightarrow> (if CloseBody (Tracked n) \<in> set ev then ev else ev @ [CloseBody (Tracked n)]))"

definition closeOriginalBodyIfReplaced ::
    "http_request \<Rightarrow> request_body option \<Rightarrow> transport_event list \<Rightarrow> transport_event list" where
  "closeOriginalBodyIfReplaced r original ev = (if original \<noteq> None \<and> rqBody r \<noteq> original then closeBody original ev else ev)"

section \<open>Calling the hooks\<close>

definition callPreHook ::
    "string \<Rightarrow> interceptor \<Rightarrow> http_request \<Rightarrow> http_request \<times> post_hook option \<times> transport_error option" where
  "callPreHook ext hook r =
     (case hook r of
        PreReturns r' post err \<Rightarrow> (r', post, map_option HookError err)
      | PrePanics r' cause \<Rightarrow> (r', None, Some (RuntimeFailure ext ''pre'' [Panicked cause]))
      | PreTimesOut r' \<Rightarrow> (r', None, Some (RuntimeFailure ext ''pre'' [DeadlineExceeded])))"

definition callPostHook ::
    "string \<Rightarrow> post_hook \<Rightarrow> http_response option \<Rightarrow> transport_error option \<Rightarrow> transport_error option" where
  "callPostHook ext post resp err =
     (case post resp err of
        PostReturns \<Rightarrow> None
      | PostPanics cause \<Rightarrow> Some (RuntimeFailure ext ''post'' [Panicked cause])
      | PostTimesOut \<Rightarrow> Some (RuntimeFailure ext ''post'' [DeadlineExceeded]))"

definition combineRuntimeFailure :: "transport_error \<Rightarrow> transport_error option \<Rightarrow> transport_error" where
  "combineRuntimeFailure e other =
     (case (e, other) of
        (RuntimeFailure ext stage causes, Some cause) \<Rightarrow> RuntimeFailure ext stage (causes @ [cause])
      | _ \<Rightarrow> e)"

definition responseMetadataSnapshot :: "http_response option \<Rightarrow> http_response option" where
  "responseMetadataSnapshot resp = map_option (\<lambda>r. r\<lparr>respBody := None\<rparr>) resp"

definition validHTTPURL :: "URL option \<Rightarrow> bool" where
  "validHTTPURL u =
     (case u of
        None \<Rightarrow> False
      | Some v \<Rightarrow> urlHost v \<noteq> [] \<and> (ToLower (urlScheme v) = ''http'' \<or> ToLower (urlScheme v) = ''https''))"

definition is_https :: "URL \<Rightarrow> bool" where
  "is_https u = (ToLower (urlScheme u) = ''https'')"

definition abortRequest ::
    "string \<Rightarrow> http_request \<Rightarrow> post_hook option \<Rightarrow> transport_error \<Rightarrow> transport_event list \<Rightarrow> round_trip" where
  "abortRequest ext r post reason ev =
     (let ev' = closeBody (rqBody r) ev; abort = AbortError ext reason in
      case post of
        None \<Rightarrow> (Inl abort, ev')
      | Some f \<Rightarrow>
          (case callPostHook ext f None (Some reason) of
             None \<Rightarrow> (Inl abort, ev' @ [PostCalled None (Some reason)])
           | Some e \<Rightarrow> (Inl (combineRuntimeFailure e (Some abort)), ev' @ [PostCalled None (Some reason)])))"

section \<open>The round trip\<close>

text \<open>What is wrong with the request a hook left, measured against the original.\<close>

definition baseline_violation :: "URL \<Rightarrow> string \<Rightarrow> http_request \<Rightarrow> transport_error option" where
  "baseline_violation original host r =
     (case rqURL r of
        None \<Rightarrow> Some (SecurityBaseline ''invalid request URL'')
      | Some u \<Rightarrow>
          (if \<not> validHTTPURL (Some u) then Some (SecurityBaseline ''invalid request URL'')
           else if urlHost u \<noteq> urlHost original \<or> rqHost r \<noteq> host then Some (SecurityBaseline ''changed the request authority'')
           else if is_https original \<and> \<not> is_https u then Some (SecurityBaseline ''changed URL scheme from HTTPS'')
           else None))"

definition finish_trip ::
    "string \<Rightarrow> post_hook option \<Rightarrow> (transport_error, http_response) result \<Rightarrow> transport_event list \<Rightarrow> round_trip" where
  "finish_trip ext post outcome ev =
     (case post of
        None \<Rightarrow> (outcome, ev)
      | Some f \<Rightarrow>
          (let resp = (case outcome of Inr x \<Rightarrow> Some x | Inl e \<Rightarrow> None);
               err = (case outcome of Inr x \<Rightarrow> None | Inl e \<Rightarrow> Some e);
               ev' = ev @ [PostCalled (responseMetadataSnapshot resp) err]
           in case callPostHook ext f (responseMetadataSnapshot resp) err of
                None \<Rightarrow> (outcome, ev')
              | Some e \<Rightarrow>
                  (Inl (combineRuntimeFailure e err),
                   ev' @ (case Option.bind resp respBody of Some b \<Rightarrow> [CloseResponse b] | None \<Rightarrow> []))))"

definition RoundTrip ::
    "string \<Rightarrow> interceptor \<Rightarrow> (http_request \<Rightarrow> (transport_error, http_response) result) \<Rightarrow> http_request \<Rightarrow> round_trip" where
  "RoundTrip ext hook base req =
     (let r = trackRequestBody req; original = rqBody r in
      case rqURL r of
        None \<Rightarrow> abortRequest ext r None (SecurityBaseline ''received an invalid request URL'') (closeBody original [])
      | Some u \<Rightarrow>
          (if \<not> validHTTPURL (Some u)
           then abortRequest ext r None (SecurityBaseline ''received an invalid request URL'') (closeBody original [])
           else
             (case callPreHook ext hook r of
                (r', post, Some (RuntimeFailure x stage cs)) \<Rightarrow>
                  (Inl (RuntimeFailure x stage cs), closeBody (rqBody r') (closeBody original []))
              | (r', post, Some e) \<Rightarrow> abortRequest ext r' post e (closeBody original [])
              | (r', post, None) \<Rightarrow>
                  (case baseline_violation u (rqHost r) r' of
                     Some reason \<Rightarrow> abortRequest ext r' post reason (closeBody original [])
                   | None \<Rightarrow> finish_trip ext post (base r') (closeOriginalBodyIfReplaced r' original [] @ [Send r'])))))"

section \<open>What a round trip does\<close>

definition sends :: "transport_event list \<Rightarrow> http_request list" where
  "sends ev = List.map_filter (\<lambda>e. case e of Send r \<Rightarrow> Some r | _ \<Rightarrow> None) ev"

text \<open>A body is released when it is closed or given to the base transport.\<close>

definition releases :: "request_body \<Rightarrow> transport_event list \<Rightarrow> nat" where
  "releases b ev = length (filter (\<lambda>e. e = CloseBody b \<or> (\<exists>r. e = Send r \<and> rqBody r = Some b)) ev)"

definition closed_responses :: "transport_event list \<Rightarrow> nat list" where
  "closed_responses ev = List.map_filter (\<lambda>e. case e of CloseResponse b \<Rightarrow> Some b | _ \<Rightarrow> None) ev"

lemma sends_simps [simp]:
  "sends [] = []" "sends (Send r # ev) = r # sends ev" "sends (CloseBody b # ev) = sends ev"
  "sends (PostCalled p e # ev) = sends ev" "sends (CloseResponse k # ev) = sends ev" "sends (ev @ ev') = sends ev @ sends ev'"
  by (simp_all add: sends_def List.map_filter_def)

lemma closed_responses_simps [simp]:
  "closed_responses [] = []" "closed_responses (Send r # ev) = closed_responses ev" "closed_responses (CloseBody b # ev) = closed_responses ev"
  "closed_responses (PostCalled p e # ev) = closed_responses ev" "closed_responses (CloseResponse k # ev) = k # closed_responses ev"
  "closed_responses (ev @ ev') = closed_responses ev @ closed_responses ev'"
  by (simp_all add: closed_responses_def List.map_filter_def)

lemma releases_simps [simp]:
  "releases b [] = 0" "releases b (Send r # ev) = (if rqBody r = Some b then Suc (releases b ev) else releases b ev)"
  "releases b (CloseBody c # ev) = (if c = b then Suc (releases b ev) else releases b ev)"
  "releases b (PostCalled p e # ev) = releases b ev" "releases b (CloseResponse k # ev) = releases b ev"
  "releases b (ev @ ev') = releases b ev + releases b ev'"
  by (simp_all add: releases_def)

definition body_released :: "request_body option \<Rightarrow> transport_event list \<Rightarrow> bool" where
  "body_released b ev = (case b of None \<Rightarrow> True | Some c \<Rightarrow> releases c ev = 1)"

definition hook_sees_no_body :: "transport_event list \<Rightarrow> bool" where
  "hook_sees_no_body ev = list_all (\<lambda>e. case e of PostCalled (Some p) err \<Rightarrow> respBody p = None | _ \<Rightarrow> True) ev"

lemma tracked_body: "\<exists>n. rqBody (trackRequestBody req) \<in> {None, Some (Tracked n)}"
  by (auto simp: trackRequestBody_def split: option.split request_body.split)

lemma track_fields [simp]: "rqURL (trackRequestBody r) = rqURL r" "rqHost (trackRequestBody r) = rqHost r"
  by (simp_all add: trackRequestBody_def)

text \<open>A trip that ends without a request: both bodies are closed once.\<close>

lemma closed_both:
  fixes req :: http_request and b :: "request_body option"
  defines "ev \<equiv> closeBody b (closeBody (rqBody (trackRequestBody req)) [])"
  shows "sends ev = []" "closed_responses ev = []" "hook_sees_no_body ev" "body_released (rqBody (trackRequestBody req)) ev" "body_released b ev"
  using tracked_body[of req]
  by (auto simp: ev_def closeBody_def body_released_def hook_sees_no_body_def split: option.splits request_body.splits)

definition quiet :: "http_request \<Rightarrow> http_request \<Rightarrow> round_trip \<Rightarrow> bool" where
  "quiet req r' t =
     (sends (snd t) = [] \<and> (\<exists>e. fst t = Inl e) \<and> hook_sees_no_body (snd t) \<and>
      body_released (rqBody (trackRequestBody req)) (snd t) \<and> body_released (rqBody r') (snd t))"

lemma body_released_post [simp]: "body_released b (ev @ [PostCalled p e]) = body_released b ev"
  by (simp add: body_released_def split: option.split)

lemma abort_quiet: "quiet req r' (abortRequest ext r' post reason (closeBody (rqBody (trackRequestBody req)) []))"
proof -
  let ?ev = "closeBody (rqBody r') (closeBody (rqBody (trackRequestBody req)) [])"
  note both = closed_both[where req = req and b = "rqBody r'"]
  have "hook_sees_no_body (?ev @ [PostCalled None (Some reason)])"
    using both(3) by (simp add: hook_sees_no_body_def)
  with both show ?thesis by (auto simp: quiet_def abortRequest_def Let_def split: option.split)
qed

lemma baseline_respected:
  assumes "baseline_violation u host r' = None"
  shows "\<exists>v. rqURL r' = Some v \<and> validHTTPURL (Some v) \<and> urlHost v = urlHost u \<and> rqHost r' = host \<and> (if is_https u then is_https v else True)"
  using assms by (auto simp: baseline_violation_def split: option.splits if_splits)

text \<open>A trip that reaches the base transport.\<close>

lemma dispatched:
  fixes req r' :: http_request
  defines "ev \<equiv> closeOriginalBodyIfReplaced r' (rqBody (trackRequestBody req)) [] @ [Send r']"
  shows "sends ev = [r']" "closed_responses ev = []" "hook_sees_no_body ev"
    "body_released (rqBody (trackRequestBody req)) ev" "body_released (rqBody r') ev"
  using tracked_body[of req]
  by (auto simp: ev_def closeOriginalBodyIfReplaced_def closeBody_def body_released_def hook_sees_no_body_def
      split: option.splits request_body.splits)

lemma finished:
  assumes "finish_trip ext post outcome ev = (res, ev')"
  shows "sends ev' = sends ev" "hook_sees_no_body ev \<Longrightarrow> hook_sees_no_body ev'" "body_released b ev' = body_released b ev"
    "case res of Inr x \<Rightarrow> outcome = Inr x \<and> closed_responses ev' = closed_responses ev
     | Inl e \<Rightarrow> (case outcome of Inr x \<Rightarrow> closed_responses ev' = closed_responses ev @ (case respBody x of None \<Rightarrow> [] | Some b \<Rightarrow> [b]) | Inl e' \<Rightarrow> True)"
  using assms
  by (auto simp: finish_trip_def Let_def hook_sees_no_body_def body_released_def responseMetadataSnapshot_def
      split: option.splits sum.splits)

section \<open>Properties\<close>

definition authority_kept :: "http_request \<Rightarrow> http_request \<Rightarrow> bool" where
  "authority_kept req r =
     (case (rqURL req, rqURL r) of
        (Some u, Some v) \<Rightarrow>
          validHTTPURL (Some v) \<and> urlHost v = urlHost u \<and> rqHost r = rqHost req \<and> (if is_https u then is_https v else True)
      | _ \<Rightarrow> False)"

text \<open>
  C33.  What an extension can do to a request: whatever its hooks do, at most one request reaches the base
  transport, and only if the hook returned without an error, panic or timeout; its URL is one of HTTP, its
  authority is that of the original, and HTTPS stays HTTPS.  The trip succeeds only with the response of the
  base transport to it.  The body of the caller and the one the hook left are each released exactly once; the
  post hook sees no body, and a response that is not handed on is closed.
\<close>

theorem extension_confined:
  "case RoundTrip ext hook base req of
     (res, ev) \<Rightarrow>
       body_released (rqBody (trackRequestBody req)) ev \<and> hook_sees_no_body ev \<and>
       (if validHTTPURL (rqURL req) then
          (case callPreHook ext hook (trackRequestBody req) of
             (r', post, err) \<Rightarrow>
               body_released (rqBody r') ev \<and>
               (case sends ev of
                  [] \<Rightarrow> (\<exists>e. res = Inl e)
                | x # others \<Rightarrow>
                    others = [] \<and> x = r' \<and> err = None \<and> authority_kept req r' \<and>
                    (case res of
                       Inr resp \<Rightarrow> base r' = Inr resp \<and> closed_responses ev = []
                     | Inl e \<Rightarrow>
                         (case base r' of
                            Inr resp \<Rightarrow> closed_responses ev = (case respBody resp of None \<Rightarrow> [] | Some b \<Rightarrow> [b])
                          | Inl e' \<Rightarrow> True))))
        else sends ev = [] \<and> (\<exists>e. res = Inl e))"
proof -
  let ?r = "trackRequestBody req"
  obtain r' post err where pre: "callPreHook ext hook ?r = (r', post, err)" by (cases "callPreHook ext hook ?r")
  obtain res ev where trip: "RoundTrip ext hook base req = (res, ev)" by (cases "RoundTrip ext hook base req")
  show ?thesis
  proof (cases "validHTTPURL (rqURL req)")
    case False
    then have "(res, ev) = abortRequest ext ?r None (SecurityBaseline ''received an invalid request URL'') (closeBody (rqBody ?r) [])"
      using trip by (auto simp: RoundTrip_def Let_def split: option.splits)
    with abort_quiet[of req ?r ext None] have "quiet req ?r (res, ev)" by metis
    then show ?thesis using False trip by (simp add: quiet_def)
  next
    case True
    then obtain u where u: "rqURL req = Some u" by (cases "rqURL req") (auto simp: validHTTPURL_def)
    show ?thesis
    proof (cases "err = None \<and> baseline_violation u (rqHost req) r' = None")
      case sent: True
      let ?ev0 = "closeOriginalBodyIfReplaced r' (rqBody ?r) [] @ [Send r']"
      have "finish_trip ext post (base r') ?ev0 = (res, ev)"
        using trip True sent pre by (simp add: RoundTrip_def Let_def u)
      note fin = finished[OF this] and disp = dispatched[where r' = r' and req = req]
      have "authority_kept req r'" using baseline_respected[of u "rqHost req" r'] sent by (auto simp: authority_kept_def u)
      moreover have "sends ev = [r']" "hook_sees_no_body ev" "body_released (rqBody ?r) ev" "body_released (rqBody r') ev"
        using fin(1-3) disp by simp_all
      moreover have "case res of
          Inr resp \<Rightarrow> base r' = Inr resp \<and> closed_responses ev = []
        | Inl e \<Rightarrow> (case base r' of Inr resp \<Rightarrow> closed_responses ev = (case respBody resp of None \<Rightarrow> [] | Some b \<Rightarrow> [b]) | Inl e' \<Rightarrow> True)"
        using fin(4) disp(2) by (simp split: sum.splits)
      ultimately show ?thesis using True trip pre sent by simp
    next
      case False
      have "quiet req r' (res, ev)"
      proof (cases "\<exists>x stage cs. err = Some (RuntimeFailure x stage cs)")
        case rt: True
        then obtain x stage cs where "err = Some (RuntimeFailure x stage cs)" by blast
        then have "(res, ev) = (Inl (RuntimeFailure x stage cs), closeBody (rqBody r') (closeBody (rqBody ?r) []))"
          using trip True pre by (simp add: RoundTrip_def Let_def u)
        then show ?thesis using closed_both[where req = req and b = "rqBody r'"] by (simp add: quiet_def)
      next
        case other: False
        then have "\<exists>reason. abortRequest ext r' post reason (closeBody (rqBody ?r) []) = (res, ev)"
          using trip True pre False by (auto simp: RoundTrip_def Let_def u split: option.splits transport_error.splits)
        then show ?thesis using abort_quiet by metis
      qed
      then show ?thesis using True trip pre by (simp add: quiet_def)
    qed
  qed
qed

section \<open>Clients\<close>

definition MaxRedirects :: nat where "MaxRedirects = 10"

definition redirectSourceScheme :: "URL list \<Rightarrow> string" where
  "redirectSourceScheme via = (if via = [] then [] else urlScheme (List.last via))"

definition validateRedirectSecurity :: "URL \<Rightarrow> string \<Rightarrow> redirect_decision" where
  "validateRedirectSecurity u source =
     (if ToLower source = ''https'' \<and> \<not> is_https u then Refuse ''redirect changed URL scheme from HTTPS'' else Follow u)"

definition withSecurityBaseline :: "redirect_check option \<Rightarrow> redirect_check" where
  "withSecurityBaseline base u via =
     (if MaxRedirects \<le> length via then Refuse ''stopped after 10 redirects''
      else (case validateRedirectSecurity u (redirectSourceScheme via) of
              Follow u' \<Rightarrow>
                (case base of
                   None \<Rightarrow> validateRedirectSecurity u' (redirectSourceScheme via)
                 | Some f \<Rightarrow>
                     (case f u' via of
                        Follow u'' \<Rightarrow> validateRedirectSecurity u'' (redirectSourceScheme via)
                      | d \<Rightarrow> d))
            | d \<Rightarrow> d))"

record transport_provider =
  tpName :: "string callback"
  tpInterceptor :: "interceptor option callback"

datatype client_transport = BaseTransport | FailingTransport transport_error | Intercepting string interceptor

record http_client =
  hcCheckRedirect :: "redirect_check option"
  hcTransport :: client_transport

record transport_diagnostics =
  dgProvider :: string
  dgStatus :: string
  dgFailureStage :: string

definition callback_cause :: "'a callback \<Rightarrow> transport_error" where
  "callback_cause c = (case c of Panics e \<Rightarrow> Panicked e | Fails e \<Rightarrow> Panicked e | _ \<Rightarrow> DeadlineExceeded)"

definition ResolveProviderName :: "transport_provider \<Rightarrow> string \<times> transport_error option" where
  "ResolveProviderName p =
     (case tpName p of
        Answer n \<Rightarrow>
          (if providerNamePattern n then (n, None)
           else (''<invalid>'', Some (RuntimeFailure ''<invalid>'' ''provider-name'' [InvalidName n])))
      | c \<Rightarrow> (''<unavailable>'', Some (RuntimeFailure ''<unavailable>'' ''provider-name'' [callback_cause c])))"

definition callResolveInterceptor :: "string \<Rightarrow> transport_provider \<Rightarrow> (transport_error, interceptor option) result" where
  "callResolveInterceptor ext p =
     (case tpInterceptor p of
        Answer i \<Rightarrow> Inr i
      | c \<Rightarrow> Inl (RuntimeFailure ext ''resolve-interceptor'' [callback_cause c]))"

definition failClosedClient :: "http_client \<Rightarrow> string \<Rightarrow> transport_error \<Rightarrow> http_client" where
  "failClosedClient base ext reason =
     base\<lparr>hcTransport := FailingTransport (case reason of RuntimeFailure x stage cs \<Rightarrow> reason | _ \<Rightarrow> AbortError ext reason)\<rparr>"

definition failedDiagnostics :: "string \<Rightarrow> transport_error \<Rightarrow> transport_diagnostics" where
  "failedDiagnostics provider e =
     \<lparr>dgProvider = provider, dgStatus = ''failed'',
      dgFailureStage = (case e of RuntimeFailure x stage cs \<Rightarrow> (if stage \<noteq> [] then stage else ''resolve-interceptor'') | _ \<Rightarrow> ''resolve-interceptor'')\<rparr>"

definition NewHTTPClientWithDiagnostics :: "transport_provider option \<Rightarrow> http_client \<Rightarrow> http_client \<times> transport_diagnostics" where
  "NewHTTPClientWithDiagnostics provider base =
     (case provider of
        None \<Rightarrow> (base, \<lparr>dgProvider = ''built-in'', dgStatus = ''active'', dgFailureStage = []\<rparr>)
      | Some p \<Rightarrow>
          (case ResolveProviderName p of
             (ext, Some e) \<Rightarrow> (failClosedClient base ext e, failedDiagnostics ext e)
           | (ext, None) \<Rightarrow>
               (case callResolveInterceptor ext p of
                  Inl e \<Rightarrow> (failClosedClient base ext e, failedDiagnostics ext e)
                | Inr None \<Rightarrow>
                    (failClosedClient base ext NilInterceptor,
                     \<lparr>dgProvider = ext, dgStatus = ''failed'', dgFailureStage = ''resolve-interceptor''\<rparr>)
                | Inr (Some hook) \<Rightarrow>
                    (\<lparr>hcCheckRedirect = Some (withSecurityBaseline (hcCheckRedirect base)), hcTransport = Intercepting ext hook\<rparr>,
                     \<lparr>dgProvider = ext, dgStatus = ''active'', dgFailureStage = []\<rparr>))))"

text \<open>A registered provider is never passed over: the client uses its interceptor or fails every request.\<close>

lemma provider_not_bypassed:
  "NewHTTPClientWithDiagnostics (Some p) base = (client, d) \<Longrightarrow>
   (case hcTransport client of
      BaseTransport \<Rightarrow> False
    | FailingTransport e \<Rightarrow> dgStatus d = ''failed'' \<and> dgFailureStage d \<noteq> []
    | Intercepting ext hook \<Rightarrow> dgStatus d = ''active'' \<and> tpName p = Answer ext \<and> tpInterceptor p = Answer (Some hook) \<and>
        hcCheckRedirect client = Some (withSecurityBaseline (hcCheckRedirect base)))"
  by (auto simp: NewHTTPClientWithDiagnostics_def ResolveProviderName_def callResolveInterceptor_def failClosedClient_def
      failedDiagnostics_def split: callback.splits option.splits if_splits)

lemma baseline_Follow:
  "withSecurityBaseline base u via = Follow v \<Longrightarrow>
   length via < 10 \<and> (ToLower (redirectSourceScheme via) = ''https'' \<longrightarrow> is_https v)"
  by (auto simp: withSecurityBaseline_def validateRedirectSecurity_def MaxRedirects_def
      split: if_splits redirect_decision.splits option.splits)

lemma baseline_visits:
  "length via < 10 \<Longrightarrow>
   successively (\<lambda>a b. is_https a \<longrightarrow> is_https b) (snd (http_Do (withSecurityBaseline base) via u hops)) \<and>
   length via + length (snd (http_Do (withSecurityBaseline base) via u hops)) \<le> 10 \<and>
   (\<exists>rest. snd (http_Do (withSecurityBaseline base) via u hops) = u # rest)"
proof (induction hops arbitrary: via u)
  case Nil then show ?case by simp
next
  case (Cons hop hops)
  show ?case
  proof (cases hop)
    case (Redirects status target)
    show ?thesis
    proof (cases "withSecurityBaseline base target (via @ [u])")
      case (Follow v)
      note step = baseline_Follow[OF this]
      then have "length (via @ [u]) < 10" by simp
      from Cons.IH[OF this, of v] obtain rest where ih: "snd (http_Do (withSecurityBaseline base) (via @ [u]) v hops) = v # rest"
        "successively (\<lambda>a b. is_https a \<longrightarrow> is_https b) (v # rest)" "length (via @ [u]) + length (v # rest) \<le> 10" by auto
      have "is_https u \<longrightarrow> is_https v" using step by (simp add: redirectSourceScheme_def is_https_def)
      moreover have "snd (http_Do (withSecurityBaseline base) via u (hop # hops)) = u # v # rest"
        using Redirects Follow ih(1) by (simp add: split_beta Let_def)
      ultimately show ?thesis using ih(2,3) by simp
    qed (use Cons.prems Redirects in auto)
  qed (use Cons.prems in auto)
qed

text \<open>With an extension, redirects never leave HTTPS and end after ten requests, whatever the client's own policy rewrites.\<close>

theorem redirects_keep_https:
  "successively (\<lambda>a b. if is_https a then is_https b else True) (snd (http_Do (withSecurityBaseline base) [] u hops)) \<and>
   length (snd (http_Do (withSecurityBaseline base) [] u hops)) \<le> 10"
  using baseline_visits[of "[]" base u hops] by (simp add: if_bool_eq_conj)

section \<open>The registry\<close>

text \<open>The last registration that is not nil counts.\<close>

definition Register_transport :: "transport_provider option \<Rightarrow> transport_provider option \<Rightarrow> transport_provider option" where
  "Register_transport p registered = (case p of None \<Rightarrow> registered | Some q \<Rightarrow> Some q)"

lemma last_registration: "fold Register_transport (ps @ [Some p]) registered = Some p"
  by (simp add: Register_transport_def)

end
