(* ===== verification/Cli_Client.thy ===== *)
theory Cli_Client
  imports Mcp_Tools
begin

text \<open>
  \<open>internal/products/meegle/cliapiclient\<close> (\<open>client.go\<close>, \<open>types.go\<close>): the HTTP operations of the AI handoff, with
  bounded retries, a refresh of the token after a 401, backoff with jitter, and the decoding of the replies.

  The exchange of one attempt with the service, the tokens, the refresh and the end of the caller's context are
  numbered by the attempt; the jitter and the end of a wait by the retry.  A reply is its decoded JSON, absent when
  it is malformed.  The trace records every request handed to the HTTP client with the error of its attempt.
\<close>

section \<open>Errors\<close>

record meegle_error =
  meCode :: string
  meMessage :: string
  meSuggestion :: string
  meLogID :: string
  meExit :: nat
  meStatus :: int

datatype api_error = MeegleErr meegle_error | Wraps string api_error | PlainError string

definition NewClientError :: "string \<Rightarrow> string \<Rightarrow> meegle_error" where
  "NewClientError code message =
     \<lparr>meCode = code, meMessage = message, meSuggestion = [], meLogID = [], meExit = 1, meStatus = 0\<rparr>"

definition NewServerError :: "string \<Rightarrow> string \<Rightarrow> meegle_error" where
  "NewServerError code message =
     \<lparr>meCode = code, meMessage = message, meSuggestion = [], meLogID = [], meExit = 2, meStatus = 0\<rparr>"

definition WithLogID :: "string \<Rightarrow> meegle_error \<Rightarrow> meegle_error" where
  "WithLogID logID e = e\<lparr>meLogID := TrimSpace logID\<rparr>"

fun as_MeegleError :: "api_error \<Rightarrow> meegle_error option" where
  "as_MeegleError (MeegleErr e) = Some e"
| "as_MeegleError (Wraps msg e) = as_MeegleError e"
| "as_MeegleError (PlainError msg) = None"

definition BackendLogID :: "api_error \<Rightarrow> string" where
  "BackendLogID e = (case as_MeegleError e of None \<Rightarrow> [] | Some m \<Rightarrow> TrimSpace (meLogID m))"

definition isUnauthorized :: "api_error \<Rightarrow> bool" where
  "isUnauthorized e = (case as_MeegleError e of None \<Rightarrow> False | Some m \<Rightarrow> meStatus m = 401)"

definition isRetryable :: "api_error \<Rightarrow> bool" where
  "isRetryable e =
     (case as_MeegleError e of
        None \<Rightarrow> False
      | Some m \<Rightarrow>
          (if meCode m = ''HANDOFF_API_TIMEOUT'' \<or> meCode m = ''HANDOFF_API_UNAVAILABLE'' then True
           else if meCode m = ''HANDOFF_API_HTTP_ERROR'' then meStatus m \<ge> 500 \<or> meStatus m = 429
           else False))"

section \<open>Replies\<close>

definition facadeInvalidParamCode :: int where "facadeInvalidParamCode = 20006"

datatype reply_error = EnvelopeError int string | DecodeError string

text \<open>\<open>strconv.ParseInt\<close> with its error ignored: the nearest bound for a value out of range, else zero.\<close>

definition signed_digits :: "string \<Rightarrow> int option" where
  "signed_digits s =
     (case s of [] \<Rightarrow> None
      | c # cs \<Rightarrow>
          (if c = CHR ''-'' then map_option (\<lambda>n. - int n) (unsigned_digits cs)
           else if c = CHR ''+'' then map_option int (unsigned_digits cs)
           else map_option int (unsigned_digits s)))"

definition parse_clamped :: "string \<Rightarrow> int" where
  "parse_clamped s = (case signed_digits s of None \<Rightarrow> 0 | Some i \<Rightarrow> max int64_min (min int64_max i))"

definition parseCode :: "json option \<Rightarrow> int" where
  "parseCode raw =
     (case raw of
        Some (JNumber n) \<Rightarrow> (case Atoi n of Some i \<Rightarrow> i | None \<Rightarrow> 0)
      | Some (JString s) \<Rightarrow> parse_clamped s
      | _ \<Rightarrow> 0)"

fun firstMessage :: "json_object \<Rightarrow> string list \<Rightarrow> string" where
  "firstMessage raw [] = ''unknown error''"
| "firstMessage raw (key # keys) =
     (case Option.bind (member raw key) json_string of
        Some message \<Rightarrow> (if message \<noteq> [] then message else firstMessage raw keys)
      | None \<Rightarrow> firstMessage raw keys)"

definition status_error :: "json_object \<Rightarrow> string \<Rightarrow> reply_error option" where
  "status_error base codeKey =
     (let code = parseCode (member base codeKey) in
      if code \<noteq> 0
      then Some (EnvelopeError code (''handoff API status '' @ show_int code @ '': '' @ firstMessage base [''status_message'', ''StatusMessage'']))
      else None)"

definition base_error :: "json_object \<Rightarrow> string \<Rightarrow> reply_error option" where
  "base_error raw key =
     (case member raw key of
        None \<Rightarrow> None
      | Some baseRaw \<Rightarrow>
          (case into_map [] (Some baseRaw) of
             None \<Rightarrow> None
           | Some base \<Rightarrow>
               (case status_error base ''status_code'' of Some e \<Rightarrow> Some e | None \<Rightarrow> status_error base ''StatusCode'')))"

definition checkEnvelopeError :: "json_object \<Rightarrow> reply_error option" where
  "checkEnvelopeError raw =
     (let code = (case member raw ''code'' of Some codeRaw \<Rightarrow> parseCode (Some codeRaw) | None \<Rightarrow> 0) in
      if code \<noteq> 0
      then Some (EnvelopeError code (''handoff API error '' @ show_int code @ '': '' @ firstMessage raw [''msg'', ''message'']))
      else (case base_error raw ''base_resp'' of Some e \<Rightarrow> Some e | None \<Rightarrow> base_error raw ''BaseResp''))"

text \<open>The target is decoded over what it holds; \<open>decode\<close> is its \<open>json.Unmarshal\<close>.\<close>

definition decodeResponse :: "(json \<Rightarrow> 'a \<Rightarrow> 'a option) \<Rightarrow> json option \<Rightarrow> 'a \<Rightarrow> (reply_error, 'a) result" where
  "decodeResponse decode payload target =
     (case payload of
        None \<Rightarrow> Inl (DecodeError ''decode handoff response'')
      | Some v \<Rightarrow>
          (case into_map [] (Some v) of
             None \<Rightarrow> Inl (DecodeError ''decode handoff response'')
           | Some raw \<Rightarrow>
               (case checkEnvelopeError raw of
                  Some e \<Rightarrow> Inl e
                | None \<Rightarrow>
                    (let used = (case member raw ''data'' of Some d \<Rightarrow> (if d \<noteq> JNull then d else v) | None \<Rightarrow> v)
                     in case decode used target of
                          None \<Rightarrow> Inl (DecodeError ''decode handoff payload'')
                        | Some a \<Rightarrow> Inr a))))"

definition isInvalidParamEnvelope :: "reply_error \<Rightarrow> bool" where
  "isInvalidParamEnvelope e =
     (case e of
        EnvelopeError code message \<Rightarrow>
          code = facadeInvalidParamCode \<or> Contains message (''code='' @ show_int facadeInvalidParamCode)
      | DecodeError msg \<Rightarrow> False)"

definition invalidParamUserMessage :: "reply_error \<Rightarrow> string" where
  "invalidParamUserMessage e =
     (case e of
        DecodeError msg \<Rightarrow> ''handoff request contains invalid parameters''
      | EnvelopeError code message \<Rightarrow>
          (if Contains (ToLower message) ''user_query exceeds'' then ''query exceeds the current max_query_bytes limit''
           else if Contains (ToLower message) ''related_context exceeds''
           then ''related context exceeds the current max_related_context_items limit''
           else ''handoff request contains invalid parameters''))"

definition reply_text :: "reply_error \<Rightarrow> string" where
  "reply_text e = (case e of EnvelopeError code message \<Rightarrow> message | DecodeError msg \<Rightarrow> msg)"

definition reply_failure :: "reply_error \<Rightarrow> string \<Rightarrow> api_error" where
  "reply_failure e logID =
     (if isInvalidParamEnvelope e
      then MeegleErr (WithLogID logID ((NewClientError ''HANDOFF_API_INVALID_PARAM'' (invalidParamUserMessage e))
             \<lparr>meSuggestion := ''run 'meegle ai-handoff availability' to check max_query_bytes and max_related_context_items''\<rparr>))
      else MeegleErr (WithLogID logID (NewServerError ''HANDOFF_API_INVALID_RESPONSE'' (reply_text e))))"

section \<open>The types of the replies\<close>

record Limits =
  maxQueryBytes :: int
  maxRelatedContextItems :: int

record Availability =
  avAvailable :: bool
  avRejectCode :: string
  avRejectMsg :: string
  avMode :: string
  avLimits :: Limits
  avLogID :: string

record CLIConfig =
  ccHandoff :: Availability
  ccLogID :: string

record CreateLinkResponse =
  clAvailable :: bool
  clExpiresAt :: int
  clRejectCode :: string
  clRejectMsg :: string
  clURL :: string
  clLogID :: string

record PreferenceUpdateResult =
  puSuccess :: bool
  puLogID :: string

definition decode_bool :: "json \<Rightarrow> bool \<Rightarrow> bool option" where
  "decode_bool v old = (case v of JBool b \<Rightarrow> Some b | JNull \<Rightarrow> Some old | _ \<Rightarrow> None)"

definition decode_int :: "json \<Rightarrow> int \<Rightarrow> int option" where
  "decode_int v old = (case v of JNumber n \<Rightarrow> Atoi n | JNull \<Rightarrow> Some old | _ \<Rightarrow> None)"

definition limits_field :: "string \<Rightarrow> json \<Rightarrow> Limits \<Rightarrow> Limits option" where
  "limits_field k v a =
     (if k = ''max_query_bytes'' then map_option (\<lambda>i. a\<lparr>maxQueryBytes := i\<rparr>) (decode_int v (maxQueryBytes a))
      else if k = ''max_related_context_items''
      then map_option (\<lambda>i. a\<lparr>maxRelatedContextItems := i\<rparr>) (decode_int v (maxRelatedContextItems a))
      else Some a)"

definition availability_field :: "string \<Rightarrow> json \<Rightarrow> Availability \<Rightarrow> Availability option" where
  "availability_field k v a =
     (if k = ''available'' then map_option (\<lambda>b. a\<lparr>avAvailable := b\<rparr>) (decode_bool v (avAvailable a))
      else if k = ''reject_code'' then map_option (\<lambda>s. a\<lparr>avRejectCode := s\<rparr>) (decode_text v (avRejectCode a))
      else if k = ''reject_msg'' then map_option (\<lambda>s. a\<lparr>avRejectMsg := s\<rparr>) (decode_text v (avRejectMsg a))
      else if k = ''mode'' then map_option (\<lambda>s. a\<lparr>avMode := s\<rparr>) (decode_text v (avMode a))
      else if k = ''limits'' then map_option (\<lambda>l. a\<lparr>avLimits := l\<rparr>) (decode_struct limits_field v (avLimits a))
      else Some a)"

definition config_field :: "string \<Rightarrow> json \<Rightarrow> CLIConfig \<Rightarrow> CLIConfig option" where
  "config_field k v a =
     (if k = ''handoff_suggestion''
      then map_option (\<lambda>x. a\<lparr>ccHandoff := x\<rparr>) (decode_struct availability_field v (ccHandoff a)) else Some a)"

definition link_field :: "string \<Rightarrow> json \<Rightarrow> CreateLinkResponse \<Rightarrow> CreateLinkResponse option" where
  "link_field k v a =
     (if k = ''available'' then map_option (\<lambda>b. a\<lparr>clAvailable := b\<rparr>) (decode_bool v (clAvailable a))
      else if k = ''expires_at'' then map_option (\<lambda>i. a\<lparr>clExpiresAt := i\<rparr>) (decode_int v (clExpiresAt a))
      else if k = ''reject_code'' then map_option (\<lambda>s. a\<lparr>clRejectCode := s\<rparr>) (decode_text v (clRejectCode a))
      else if k = ''reject_msg'' then map_option (\<lambda>s. a\<lparr>clRejectMsg := s\<rparr>) (decode_text v (clRejectMsg a))
      else if k = ''url'' then map_option (\<lambda>s. a\<lparr>clURL := s\<rparr>) (decode_text v (clURL a))
      else Some a)"

definition preference_field :: "string \<Rightarrow> json \<Rightarrow> PreferenceUpdateResult \<Rightarrow> PreferenceUpdateResult option" where
  "preference_field k v a =
     (if k = ''success'' then map_option (\<lambda>b. a\<lparr>puSuccess := b\<rparr>) (decode_bool v (puSuccess a)) else Some a)"

section \<open>One attempt\<close>

text \<open>How an exchange ends: the errors are those of the request or of the reading of the body.\<close>

datatype exchange = Cancelled | TimedOut | NetworkDown string | Answered int string "json option"

record api_client =
  acBaseURL :: string
  acToken :: token_func
  acRefresh :: bool
  acHeaders :: header
  acAuthHeader :: string
  acUserAgent :: string
  acMaxRetries :: int
  acRetryBackoff :: int

record api_request =
  arMethod :: string
  arURL :: string
  arHeader :: header
  arBody :: "json option"

record api_env =
  tokenAt :: "nat \<Rightarrow> (api_error, string) result"
  exchangeAt :: "nat \<Rightarrow> exchange"
  refreshAt :: "nat \<Rightarrow> bool"
  endedAt :: "nat \<Rightarrow> bool"
  jitterAt :: "nat \<Rightarrow> int"
  waitEnds :: "nat \<Rightarrow> bool"

datatype api_event = Requested api_request "api_error option" | Refreshes bool | Waits int

definition transportError :: "exchange \<Rightarrow> api_error option" where
  "transportError x =
     (case x of
        Cancelled \<Rightarrow> Some (MeegleErr (NewClientError ''HANDOFF_API_CANCELLED'' ''handoff API request cancelled''))
      | TimedOut \<Rightarrow> Some (MeegleErr ((NewServerError ''HANDOFF_API_TIMEOUT'' ''handoff API request timed out'')
          \<lparr>meSuggestion := ''check your network or try again later''\<rparr>))
      | NetworkDown msg \<Rightarrow> Some (MeegleErr (NewServerError ''HANDOFF_API_UNAVAILABLE'' (''handoff API request failed: '' @ msg)))
      | Answered status logID payload \<Rightarrow> None)"

definition http_failure :: "int \<Rightarrow> string \<Rightarrow> api_error" where
  "http_failure status logID =
     MeegleErr (WithLogID logID ((NewServerError ''HANDOFF_API_HTTP_ERROR'' (''handoff API returned HTTP '' @ show_int status))
       \<lparr>meStatus := status\<rparr>))"

definition attempt_token :: "api_client \<Rightarrow> api_env \<Rightarrow> nat \<Rightarrow> (api_error, string) result" where
  "attempt_token c env n =
     (case acToken c of NoToken \<Rightarrow> Inr [] | FixedToken t \<Rightarrow> Inr t | ManagedToken \<Rightarrow> tokenAt env n)"

text \<open>The headers in front of the credential: those of the caller, then the managed ones, which replace them.\<close>

definition managed_header :: "api_client \<Rightarrow> bool \<Rightarrow> string \<Rightarrow> header" where
  "managed_header c hasBody key =
     (let static = fold (\<lambda>(k, vs) h. fold (\<lambda>v. Header_Add k v) vs h) (acHeaders c) [];
          accept = Header_Set ''Accept'' ''application/json'' static;
          typed = (if hasBody then Header_Set ''Content-Type'' ''application/json'' accept else accept);
          keyed = (if key \<noteq> [] then Header_Set ''Idempotency-Key'' key typed else typed)
      in if acUserAgent c \<noteq> [] then Header_Set ''User-Agent'' (acUserAgent c) keyed else keyed)"

definition authorize :: "string \<Rightarrow> string \<Rightarrow> header \<Rightarrow> header" where
  "authorize authHeader token h =
     (if token = [] then h
      else if authHeader \<noteq> [] then Header_Del ''Authorization'' (Header_Set authHeader token h)
      else Header_Set ''Authorization'' (''Bearer '' @ token) h)"

definition trim_right_slashes :: "string \<Rightarrow> string" where
  "trim_right_slashes s = rev (dropWhile (\<lambda>c. c = CHR ''/'') (rev s))"

text \<open>\<open>finish\<close> is the decoding of the target with the log id the reply names.\<close>

definition read_reply ::
    "(json \<Rightarrow> 'a \<Rightarrow> 'a option) \<Rightarrow> (string \<Rightarrow> 'a \<Rightarrow> 'a) \<Rightarrow> exchange \<Rightarrow> 'a \<Rightarrow> api_error option \<times> 'a" where
  "read_reply decode setLogID x target =
     (case x of
        Answered status logID payload \<Rightarrow>
          (if status < 200 \<or> status \<ge> 300 then (Some (http_failure status logID), target)
           else (case decodeResponse decode payload target of
                   Inl e \<Rightarrow> (Some (reply_failure e logID), target)
                 | Inr a \<Rightarrow> (None, setLogID (TrimSpace logID) a)))
      | _ \<Rightarrow> (transportError x, target))"

record 'a api_call =
  callMethod :: string
  callPath :: string
  callBody :: "json option"
  callKey :: string
  callDecode :: "json \<Rightarrow> 'a \<Rightarrow> 'a option"
  callLogID :: "string \<Rightarrow> 'a \<Rightarrow> 'a"

definition request_url :: "api_client \<Rightarrow> string \<Rightarrow> string" where
  "request_url c path = trim_right_slashes (acBaseURL c) @ path"

definition request_of :: "api_client \<Rightarrow> 'a api_call \<Rightarrow> string \<Rightarrow> api_request" where
  "request_of c call token =
     \<lparr>arMethod = callMethod call, arURL = request_url c (callPath call),
      arHeader = authorize (acAuthHeader c) token (managed_header c (callBody call \<noteq> None) (callKey call)),
      arBody = callBody call\<rparr>"

definition api_doCall ::
    "api_client \<Rightarrow> api_env \<Rightarrow> 'a api_call \<Rightarrow> 'a \<Rightarrow> nat \<Rightarrow> (api_error option \<times> 'a) \<times> api_event list" where
  "api_doCall c env call target n =
     (case url_Parse (request_url c (callPath call)) of
        None \<Rightarrow> ((Some (PlainError ''create handoff request''), target), [])
      | Some u \<Rightarrow>
          (case attempt_token c env n of
             Inl e \<Rightarrow> ((Some (Wraps ''get handoff token: '' e), target), [])
           | Inr token \<Rightarrow>
               (let (err, a) = read_reply (callDecode call) (callLogID call) (exchangeAt env n) target
                in ((err, a), [Requested (request_of c call token) err]))))"

definition api_expired :: api_error where
  "api_expired = MeegleErr ((NewClientError ''AUTH_EXPIRED'' ''authentication expired, please log in again'')
     \<lparr>meSuggestion := ''meegle auth login''\<rparr>)"

text \<open>The number of attempts made goes along.\<close>

definition callWithRefresh ::
    "api_client \<Rightarrow> api_env \<Rightarrow> 'a api_call \<Rightarrow> 'a \<Rightarrow> nat \<Rightarrow> (api_error option \<times> 'a) \<times> api_event list \<times> nat" where
  "callWithRefresh c env call target n =
     (let ((err, a), ev) = api_doCall c env call target n in
      if (case err of None \<Rightarrow> False | Some e \<Rightarrow> isUnauthorized e) \<and> acRefresh c
      then (if \<not> refreshAt env n then ((Some api_expired, a), ev @ [Refreshes False], Suc n)
            else (let (out, ev') = api_doCall c env call a (Suc n) in (out, ev @ Refreshes True # ev', Suc (Suc n))))
      else ((err, a), ev, Suc n))"

section \<open>Retries\<close>

text \<open>Durations are nanoseconds in 64 bits.\<close>

definition wrap64 :: "int \<Rightarrow> int" where
  "wrap64 i = (i - int64_min) mod 18446744073709551616 + int64_min"

definition maxRetryBackoff :: int where "maxRetryBackoff = 5000000000"
definition defaultRetryBackoff :: int where "defaultRetryBackoff = 200000000"
definition DefaultMaxRetries :: int where "DefaultMaxRetries = 3"

definition maxRetries :: "api_client \<Rightarrow> int" where
  "maxRetries c = (if acMaxRetries c < 0 then 0 else if acMaxRetries c = 0 then DefaultMaxRetries else acMaxRetries c)"

text \<open>The loop that doubles, for the rounds that are left.\<close>

fun double_backoff :: "nat \<Rightarrow> int \<Rightarrow> int" where
  "double_backoff 0 b = b"
| "double_backoff (Suc k) b =
     (let b' = wrap64 (b * 2) in if b' \<ge> maxRetryBackoff then maxRetryBackoff else double_backoff k b')"

definition backoff_interval :: "api_client \<Rightarrow> nat \<Rightarrow> int" where
  "backoff_interval c attempt =
     (let base = (if acRetryBackoff c \<le> 0 then defaultRetryBackoff else acRetryBackoff c);
          b = double_backoff (attempt - 1) base
      in if b > maxRetryBackoff then maxRetryBackoff else b)"

text \<open>The wait: half the interval and a random part of the other half.  Division rounds towards zero; \<open>Int63n\<close> panics on a bound that is not positive.\<close>

definition half_interval :: "int \<Rightarrow> int" where
  "half_interval b = (if b < 0 then - ((- b) div 2) else b div 2)"

definition retry_wait :: "api_client \<Rightarrow> api_env \<Rightarrow> nat \<Rightarrow> int option" where
  "retry_wait c env attempt =
     (let half = half_interval (backoff_interval c attempt)
      in if half + 1 \<le> 0 then None else Some (half + jitterAt env attempt mod (half + 1)))"

fun call_loop ::
    "api_client \<Rightarrow> api_env \<Rightarrow> 'a api_call \<Rightarrow> nat \<Rightarrow> nat \<Rightarrow> nat \<Rightarrow> api_error option \<Rightarrow> 'a \<Rightarrow>
     ((api_error option \<times> 'a) \<times> api_event list) option" where
  "call_loop c env call 0 attempt n lastErr target = Some ((lastErr, target), [])"
| "call_loop c env call (Suc passes) attempt n lastErr target =
     (case (if attempt > 0 then map_option (\<lambda>w. [Waits w]) (retry_wait c env attempt) else Some []) of
        None \<Rightarrow> None
      | Some waited \<Rightarrow>
          (if attempt > 0 \<and> waitEnds env attempt then Some ((lastErr, target), waited)
           else
             (case callWithRefresh c env call target n of
                ((None, a), ev, n') \<Rightarrow> Some ((None, a), waited @ ev)
              | ((Some e, a), ev, n') \<Rightarrow>
                  (if endedAt env n' \<or> \<not> isRetryable e then Some ((Some e, a), waited @ ev)
                   else map_option (\<lambda>(out, ev'). (out, waited @ ev @ ev'))
                          (call_loop c env call passes (Suc attempt) n' (Some e) a)))))"

text \<open>None is a panic.\<close>

definition api_call_run :: "api_client \<Rightarrow> api_env \<Rightarrow> 'a api_call \<Rightarrow> 'a \<Rightarrow> ((api_error option \<times> 'a) \<times> api_event list) option" where
  "api_call_run c env call target = call_loop c env call (nat (maxRetries c + 1)) 0 0 None target"

section \<open>Operations\<close>

definition no_limits :: Limits where "no_limits = \<lparr>maxQueryBytes = 0, maxRelatedContextItems = 0\<rparr>"

definition no_availability :: Availability where
  "no_availability = \<lparr>avAvailable = False, avRejectCode = [], avRejectMsg = [], avMode = [], avLimits = no_limits, avLogID = []\<rparr>"

definition set_config_log :: "string \<Rightarrow> CLIConfig \<Rightarrow> CLIConfig" where
  "set_config_log logID a = a\<lparr>ccLogID := logID, ccHandoff := (ccHandoff a)\<lparr>avLogID := logID\<rparr>\<rparr>"

definition config_call :: "CLIConfig api_call" where
  "config_call = \<lparr>callMethod = ''GET'', callPath = ''/goapi/v5/meeglecli/config'', callBody = None, callKey = [],
     callDecode = decode_struct config_field, callLogID = set_config_log\<rparr>"

definition client_Config :: "api_client \<Rightarrow> api_env \<Rightarrow> ((api_error option \<times> CLIConfig) \<times> api_event list) option" where
  "client_Config c env = api_call_run c env config_call \<lparr>ccHandoff = no_availability, ccLogID = []\<rparr>"

definition availability_call :: "Availability api_call" where
  "availability_call = \<lparr>callMethod = ''GET'', callPath = ''/goapi/v5/meeglecli/config'', callBody = None, callKey = [],
     callDecode = decode_struct availability_field, callLogID = (\<lambda>logID a. a\<lparr>avLogID := logID\<rparr>)\<rparr>"

definition client_Availability :: "api_client \<Rightarrow> api_env \<Rightarrow> ((api_error option \<times> Availability) \<times> api_event list) option" where
  "client_Availability c env = api_call_run c env availability_call no_availability"

definition link_call :: "string \<Rightarrow> json \<Rightarrow> CreateLinkResponse api_call" where
  "link_call key body = \<lparr>callMethod = ''POST'', callPath = ''/goapi/v5/meeglecli/handoff/link'', callBody = Some body, callKey = key,
     callDecode = decode_struct link_field, callLogID = (\<lambda>logID a. a\<lparr>clLogID := logID\<rparr>)\<rparr>"

definition client_CreateLink ::
    "api_client \<Rightarrow> api_env \<Rightarrow> string \<Rightarrow> json \<Rightarrow> ((api_error option \<times> CreateLinkResponse) \<times> api_event list) option" where
  "client_CreateLink c env key body =
     api_call_run c env (link_call key body)
       \<lparr>clAvailable = False, clExpiresAt = 0, clRejectCode = [], clRejectMsg = [], clURL = [], clLogID = []\<rparr>"

definition preference_body :: "string \<Rightarrow> json" where
  "preference_body payload =
     JObject [(''preferences'', JArray [JObject [(''type'', JString ''handoff_suggestions''), (''payload'', JString payload)]])]"

definition preference_call :: "string \<Rightarrow> PreferenceUpdateResult api_call" where
  "preference_call payload = \<lparr>callMethod = ''POST'', callPath = ''/goapi/v5/meeglecli/preference'', callBody = Some (preference_body payload),
     callKey = [], callDecode = decode_struct preference_field, callLogID = (\<lambda>logID a. a\<lparr>puLogID := logID\<rparr>)\<rparr>"

text \<open>\<open>encode\<close> writes the payload, which the body carries as a text.\<close>

definition client_UpdatePreference ::
    "(json \<Rightarrow> string) \<Rightarrow> api_client \<Rightarrow> api_env \<Rightarrow> string \<Rightarrow> ((api_error option \<times> PreferenceUpdateResult) \<times> api_event list) option" where
  "client_UpdatePreference encode c env mode =
     api_call_run c env (preference_call (encode (JObject [(''mode'', JString mode)]))) \<lparr>puSuccess = True, puLogID = []\<rparr>"

section \<open>The backoff\<close>

lemma wrap64_id: "fits_int64 i \<Longrightarrow> wrap64 i = i"
  by (simp add: wrap64_def fits_int64_def int64_min_def int64_max_def mod_pos_pos_trivial)

lemma double_backoff_min:
  "0 < b \<Longrightarrow> b \<le> 4611686018427387903 \<Longrightarrow>
   min maxRetryBackoff (double_backoff k b) = min maxRetryBackoff (b * 2 ^ k) \<and> 0 < double_backoff k b"
proof (induction k arbitrary: b)
  case 0 then show ?case by simp
next
  case (Suc k)
  have w: "wrap64 (b * 2) = b * 2" using Suc.prems by (intro wrap64_id) (simp add: fits_int64_def int64_min_def int64_max_def)
  show ?case
  proof (cases "b * 2 \<ge> maxRetryBackoff")
    case True
    have "b * 2 * 1 \<le> b * 2 * 2 ^ k" using Suc.prems by (intro mult_left_mono) auto
    with True have "maxRetryBackoff \<le> b * 2 ^ Suc k" by (simp add: mult.assoc)
    then show ?thesis using True by (simp add: w min_absorb1 maxRetryBackoff_def del: power_Suc)
  next
    case False
    then have "b * 2 \<le> 4611686018427387903" by (simp add: maxRetryBackoff_def)
    with Suc.IH[of "b * 2"] Suc.prems False show ?thesis by (simp add: w mult.assoc)
  qed
qed

text \<open>The loop computes the doubled base with its cap.\<close>

lemma backoff_interval_eq:
  assumes "acRetryBackoff c \<le> 4611686018427387903"
  shows "backoff_interval c attempt =
    min maxRetryBackoff ((if acRetryBackoff c \<le> 0 then defaultRetryBackoff else acRetryBackoff c) * 2 ^ (attempt - 1))"
proof -
  let ?b = "if acRetryBackoff c \<le> 0 then defaultRetryBackoff else acRetryBackoff c"
  have "0 < ?b" "?b \<le> 4611686018427387903" using assms by (auto simp: defaultRetryBackoff_def)
  note doubled = double_backoff_min[OF this, of "attempt - 1"]
  have "backoff_interval c attempt = min maxRetryBackoff (double_backoff (attempt - 1) ?b)"
    by (simp add: backoff_interval_def Let_def min_def)
  then show ?thesis using doubled by (simp only:)
qed

lemma backoff_interval_bounds:
  assumes "acRetryBackoff c \<le> 4611686018427387903"
  shows "0 < backoff_interval c attempt \<and> backoff_interval c attempt \<le> maxRetryBackoff"
  by (simp add: backoff_interval_eq[OF assms] maxRetryBackoff_def defaultRetryBackoff_def)

lemma retry_wait_bounds:
  assumes "acRetryBackoff c \<le> 4611686018427387903"
  shows "\<exists>w. retry_wait c env attempt = Some w \<and>
    backoff_interval c attempt div 2 \<le> w \<and> w \<le> backoff_interval c attempt \<and> 0 \<le> w \<and> w \<le> maxRetryBackoff"
proof -
  let ?b = "backoff_interval c attempt" and ?j = "jitterAt env attempt mod (backoff_interval c attempt div 2 + 1)"
  note b = backoff_interval_bounds[OF assms, of attempt]
  have half: "0 < ?b div 2 + 1" using b by linarith
  then have j: "0 \<le> ?j" "?j \<le> ?b div 2" using pos_mod_bound[of "?b div 2 + 1" "jitterAt env attempt"] by auto
  have "retry_wait c env attempt = Some (?b div 2 + ?j)" 
  proof -
    have "half_interval ?b = ?b div 2" using b by (simp add: half_interval_def)
    moreover have "\<not> ?b div 2 + 1 \<le> 0" using half by linarith
    ultimately show ?thesis unfolding retry_wait_def Let_def by (simp only: if_False)
  qed
  moreover have "?b div 2 + ?j \<le> ?b" "0 \<le> ?b div 2" using j b by linarith+
  ultimately show ?thesis using j b by auto
qed

section \<open>The requests of a call\<close>

definition api_requests :: "api_event list \<Rightarrow> (api_request \<times> api_error option) list" where
  "api_requests ev = List.map_filter (\<lambda>e. case e of Requested r err \<Rightarrow> Some (r, err) | _ \<Rightarrow> None) ev"

definition waits :: "api_event list \<Rightarrow> int list" where
  "waits ev = List.map_filter (\<lambda>e. case e of Waits w \<Rightarrow> Some w | _ \<Rightarrow> None) ev"

lemma event_simps [simp]:
  "api_requests [] = []" "api_requests (Requested r err # ev) = (r, err) # api_requests ev" "api_requests (Refreshes b # ev) = api_requests ev"
  "api_requests (Waits w # ev) = api_requests ev" "api_requests (ev @ ev') = api_requests ev @ api_requests ev'"
  "waits [] = []" "waits (Requested r err # ev) = waits ev" "waits (Refreshes b # ev) = waits ev"
  "waits (Waits w # ev) = w # waits ev" "waits (ev @ ev') = waits ev @ waits ev'"
  by (simp_all add: api_requests_def waits_def List.map_filter_def)

text \<open>A request of a call: what it asks for is the same each time, and so is its key.\<close>

definition same_request :: "api_client \<Rightarrow> 'a api_call \<Rightarrow> api_request \<Rightarrow> bool" where
  "same_request c call r =
     (arMethod r = callMethod call \<and> arURL r = request_url c (callPath call) \<and> arBody r = callBody call \<and>
      (if callKey call \<noteq> [] \<and> CanonicalHeaderKey (acAuthHeader c) \<noteq> ''Idempotency-Key''
       then map_of (arHeader r) ''Idempotency-Key'' = Some [callKey call] else True))"

lemma canonical_names:
  "CanonicalHeaderKey ''Idempotency-Key'' = ''Idempotency-Key''" "CanonicalHeaderKey ''User-Agent'' = ''User-Agent''"
  by code_simp+

lemma managed_key: "key \<noteq> [] \<Longrightarrow> map_of (managed_header c hasBody key) ''Idempotency-Key'' = Some [key]"
  by (simp add: managed_header_def Let_def Header_Set_def canonical_names map_of_update)

lemma authorize_keeps: "CanonicalHeaderKey a \<noteq> k \<Longrightarrow> k \<noteq> ''Authorization'' \<Longrightarrow> map_of (authorize a token h) k = map_of h k"
  by (simp add: authorize_def Header_Set_def Header_Del_def canonical_Authorization map_of_update delete_conv)

lemma request_of_same: "same_request c call (request_of c call token)"
  by (simp add: same_request_def request_of_def authorize_keeps managed_key)

text \<open>Why a further request follows one: its error may pass, or its token was rejected and can be renewed.\<close>

definition renews :: "api_client \<Rightarrow> api_request \<times> api_error option \<Rightarrow> bool" where
  "renews c q = (case snd q of None \<Rightarrow> False | Some e \<Rightarrow> isRetryable e \<or> isUnauthorized e \<and> acRefresh c)"

definition ends_with :: "api_client \<Rightarrow> api_error option \<Rightarrow> (api_request \<times> api_error option) list \<Rightarrow> bool" where
  "ends_with c err rs =
     ((\<exists>pre r. rs = pre @ [(r, err)] \<and> list_all (renews c) pre) \<or> (err \<noteq> None \<and> list_all (renews c) rs))"

lemma ends_with_retry:
  assumes "ends_with c (Some e) rs" "isRetryable e" "ends_with c err rs'" shows "ends_with c err (rs @ rs')"
proof -
  have all: "list_all (renews c) rs" using assms(1,2) by (auto simp: ends_with_def renews_def)
  from assms(3) consider pre r where "rs' = pre @ [(r, err)]" "list_all (renews c) pre" | "err \<noteq> None" "list_all (renews c) rs'"
    by (auto simp: ends_with_def)
  then show ?thesis
  proof cases
    case 1
    then have "rs @ rs' = (rs @ pre) @ [(r, err)] \<and> list_all (renews c) (rs @ pre)" using all by simp
    then show ?thesis unfolding ends_with_def by blast
  next
    case 2 then show ?thesis using all by (simp add: ends_with_def)
  qed
qed

lemma doCall_ends:
  assumes "api_doCall c env call target n = ((err, a), ev)"
  shows "waits ev = [] \<and> length (api_requests ev) \<le> 1 \<and> list_all (same_request c call \<circ> fst) (api_requests ev) \<and>
    (api_requests ev = [] \<and> err \<noteq> None \<or> (\<exists>r. api_requests ev = [(r, err)]))"
  using assms by (auto simp: api_doCall_def request_of_same split: option.splits sum.splits prod.splits)

lemma pass_ends:
  assumes "callWithRefresh c env call target n = ((err, a), ev, n')"
  shows "waits ev = [] \<and> length (api_requests ev) \<le> 2 \<and> list_all (same_request c call \<circ> fst) (api_requests ev) \<and> ends_with c err (api_requests ev)"
proof -
  obtain err1 a1 ev1 where d1: "api_doCall c env call target n = ((err1, a1), ev1)" by (metis prod.exhaust)
  obtain err2 a2 ev2 where d2: "api_doCall c env call a1 (Suc n) = ((err2, a2), ev2)" by (metis prod.exhaust)
  note e1 = doCall_ends[OF d1] and e2 = doCall_ends[OF d2]
  show ?thesis
  proof (cases "(case err1 of None \<Rightarrow> False | Some e \<Rightarrow> isUnauthorized e) \<and> acRefresh c")
    case True
    then have r1: "list_all (renews c) (api_requests ev1)" using e1 by (auto simp: renews_def split: option.splits)
    show ?thesis
    proof (cases "refreshAt env n")
      case False
      then have "err = Some api_expired" "ev = ev1 @ [Refreshes False]"
        using assms True by (simp_all add: callWithRefresh_def d1)
      then show ?thesis using e1 r1 by (auto simp: ends_with_def)
    next
      case renewed: True
      then have out: "err = err2" "ev = ev1 @ Refreshes True # ev2" using assms True by (simp_all add: callWithRefresh_def d1 d2)
      have "ends_with c err (api_requests ev1 @ api_requests ev2)" using e2 r1 out(1) by (auto simp: ends_with_def)
      then show ?thesis using e1 e2 out by (auto simp: list_all_append)
    qed
  next
    case False
    then have "err = err1" "ev = ev1" using assms by (auto simp: callWithRefresh_def d1 split: if_splits)
    then show ?thesis using e1 by (fastforce simp: ends_with_def)
  qed
qed

definition call_trace_ok :: "api_client \<Rightarrow> 'a api_call \<Rightarrow> nat \<Rightarrow> nat \<Rightarrow> api_error option \<Rightarrow> api_event list \<Rightarrow> bool" where
  "call_trace_ok c call passes retries err ev =
     (length (api_requests ev) \<le> 2 * passes \<and> length (waits ev) \<le> retries \<and>
      list_all (\<lambda>w. 0 \<le> w \<and> w \<le> maxRetryBackoff) (waits ev) \<and>
      list_all (same_request c call \<circ> fst) (api_requests ev) \<and> ends_with c err (api_requests ev))"

lemma call_loop_ends:
  assumes "acRetryBackoff c \<le> 4611686018427387903" "attempt > 0 \<longrightarrow> lastErr \<noteq> None" "passes = 0 \<longrightarrow> attempt > 0"
  shows "\<exists>err a ev. call_loop c env call passes attempt n lastErr target = Some ((err, a), ev) \<and>
    call_trace_ok c call passes (if attempt = 0 then passes - 1 else passes) err ev"
  using assms(2,3)
proof (induction passes arbitrary: attempt n lastErr target)
  case 0
  then show ?case by (simp add: call_trace_ok_def ends_with_def)
next
  case (Suc passes)
  obtain w where w: "retry_wait c env attempt = Some w" "0 \<le> w" "w \<le> maxRetryBackoff"
    using retry_wait_bounds[OF assms(1)] by blast
  let ?waited = "if attempt > 0 then [Waits w] else []"
  have waited: "(if attempt > 0 then map_option (\<lambda>w. [Waits w]) (retry_wait c env attempt) else Some []) = Some ?waited"
    using w(1) by simp
  obtain err1 a1 ev1 n1 where p: "callWithRefresh c env call target n = ((err1, a1), ev1, n1)" by (metis prod.exhaust)
  note e1 = pass_ends[OF p]
  show ?case
  proof (cases "attempt > 0 \<and> waitEnds env attempt")
    case True
    then have "call_loop c env call (Suc passes) attempt n lastErr target = Some ((lastErr, target), [Waits w])"
      unfolding call_loop.simps waited by simp
    then show ?thesis using True Suc.prems w by (simp add: call_trace_ok_def ends_with_def)
  next
    case False
    show ?thesis
    proof (cases "case err1 of None \<Rightarrow> True | Some e \<Rightarrow> endedAt env n1 \<or> \<not> isRetryable e")
      case True
      then have "call_loop c env call (Suc passes) attempt n lastErr target = Some ((err1, a1), ?waited @ ev1)"
        unfolding call_loop.simps waited option.case if_not_P[OF False] p prod.case by (auto split: option.splits)
      then show ?thesis using e1 w by (auto simp: call_trace_ok_def)
    next
      case again: False
      then obtain e where e: "err1 = Some e" "isRetryable e" "\<not> endedAt env n1" by (auto split: option.splits)
      obtain err a ev where ih: "call_loop c env call passes (Suc attempt) n1 (Some e) a1 = Some ((err, a), ev)"
        "call_trace_ok c call passes passes err ev" using Suc.IH[of "Suc attempt" "Some e" n1 a1] by auto
      have "call_loop c env call (Suc passes) attempt n lastErr target = Some ((err, a), ?waited @ ev1 @ ev)"
        unfolding call_loop.simps waited option.case if_not_P[OF False] p prod.case e(1) using e ih(1) by simp
      moreover have "ends_with c err (api_requests ev1 @ api_requests ev)"
        using ends_with_retry e1 e ih(2) unfolding call_trace_ok_def by blast
      ultimately show ?thesis using e1 ih(2) w by (auto simp: call_trace_ok_def)
    qed
  qed
qed

lemma api_call_ends:
  assumes "acRetryBackoff c \<le> 4611686018427387903"
  shows "\<exists>err a ev. api_call_run c env call target = Some ((err, a), ev) \<and>
    call_trace_ok c call (nat (maxRetries c + 1)) (nat (maxRetries c)) err ev"
proof -
  have "nat (maxRetries c + 1) \<noteq> 0" "nat (maxRetries c + 1) - 1 = nat (maxRetries c)"
    by (auto simp: maxRetries_def DefaultMaxRetries_def)
  with call_loop_ends[OF assms, of 0 None "nat (maxRetries c + 1)" env call 0 target]
  show ?thesis by (auto simp: api_call_run_def)
qed

lemma ends_with_None: "ends_with c err rs \<Longrightarrow> (err = None) = (\<exists>pre r. rs = pre @ [(r, None)])"
  by (auto simp: ends_with_def renews_def)

section \<open>Properties\<close>

text \<open>
  C34.  What a call of the API does in the worst case: it returns.  It makes at most two requests in each of its passes,
  one more than the retries, and waits at most once before each retry and never longer than the cap.
  Every request asks for the same, with the same idempotency key.  Each request but the last one failed in a way
  that may pass, or was rejected for its token, which can be renewed: nothing is sent again after the service has
  accepted it.  The call succeeds exactly if its last request did.
\<close>

theorem api_call_bounded:
  assumes "acRetryBackoff c \<le> 4611686018427387903"
  shows "\<exists>err a ev. api_call_run c env call target = Some ((err, a), ev) \<and>
    length (api_requests ev) \<le> 2 * nat (maxRetries c + 1) \<and> length (waits ev) \<le> nat (maxRetries c) \<and>
    list_all (\<lambda>w. 0 \<le> w \<and> w \<le> maxRetryBackoff) (waits ev) \<and>
    list_all (same_request c call \<circ> fst) (api_requests ev) \<and>
    list_all (renews c) (butlast (api_requests ev)) \<and>
    (err = None) = (\<exists>pre r. api_requests ev = pre @ [(r, None)])"
proof -
  obtain err a ev where run: "api_call_run c env call target = Some ((err, a), ev)"
    and ok: "call_trace_ok c call (nat (maxRetries c + 1)) (nat (maxRetries c)) err ev"
    using api_call_ends[OF assms, of env call target] by blast
  from ok have ends: "ends_with c err (api_requests ev)" by (simp add: call_trace_ok_def)
  then have "list_all (renews c) (butlast (api_requests ev))"
    by (auto simp: ends_with_def list_all_iff dest: in_set_butlastD)
  moreover have "(err = None) = (\<exists>pre r. api_requests ev = pre @ [(r, None)])"
    by (rule ends_with_None[OF ends])
  ultimately show ?thesis using run ok by (auto simp: call_trace_ok_def)
qed

text \<open>A client whose service is unavailable once: the second request, after one wait, succeeds.\<close>

definition demo_client :: api_client where
  "demo_client = \<lparr>acBaseURL = ''https://h/'', acToken = FixedToken ''t'', acRefresh = False, acHeaders = [], acAuthHeader = [],
     acUserAgent = ''u'', acMaxRetries = 0, acRetryBackoff = 0\<rparr>"

definition demo_api :: api_env where
  "demo_api = \<lparr>tokenAt = (\<lambda>n. Inr []),
     exchangeAt = (\<lambda>n. if n = 0 then Answered 503 [] None else Answered 200 ''L'' (Some (JObject [(''data'', JObject [(''success'', JBool True)])]))),
     refreshAt = (\<lambda>n. False), endedAt = (\<lambda>n. False), jitterAt = (\<lambda>n. 7), waitEnds = (\<lambda>n. False)\<rparr>"

theorem api_call_bounded_witness:
  "acRetryBackoff demo_client \<le> 4611686018427387903 \<and>
   (\<exists>err a ev. api_call_run demo_client demo_api (preference_call ''p'') \<lparr>puSuccess = True, puLogID = []\<rparr> = Some ((err, a), ev) \<and>
     length (api_requests ev) \<le> 2 * nat (maxRetries demo_client + 1)) \<and>
   map_option (\<lambda>((err, a), ev). (err, puLogID a, length (api_requests ev), waits ev))
     (api_call_run demo_client demo_api (preference_call ''p'') \<lparr>puSuccess = True, puLogID = []\<rparr>) = Some (None, ''L'', 2, [100000007])"
proof -
  have small: "acRetryBackoff demo_client \<le> 4611686018427387903" by (simp add: demo_client_def)
  moreover have "map_option (\<lambda>((err, a), ev). (err, puLogID a, length (api_requests ev), waits ev))
     (api_call_run demo_client demo_api (preference_call ''p'') \<lparr>puSuccess = True, puLogID = []\<rparr>) = Some (None, ''L'', 2, [100000007])"
    by code_simp
  ultimately show ?thesis
    using api_call_bounded[OF small, of demo_api "preference_call ''p''" "\<lparr>puSuccess = True, puLogID = []\<rparr>"] by blast
qed

text \<open>
  The reply \<open>Config\<close> reads has the availability in a section of its own; the compatibility helper \<open>Availability\<close> asks for the
  same reply and decodes its top level.
\<close>

lemma availability_helper_blind:
  fixes env :: api_env
  defines "env \<equiv> demo_api\<lparr>exchangeAt := (\<lambda>n. Answered 200 [] (Some (JObject [(''handoff_suggestion'', JObject [(''available'', JBool True)])])))\<rparr>"
  shows "map_option (\<lambda>((err, a), ev). (err, avAvailable (ccHandoff a))) (client_Config demo_client env) = Some (None, True)"
    and "map_option (\<lambda>((err, a), ev). (err, avAvailable a)) (client_Availability demo_client env) = Some (None, False)"
  unfolding env_def by code_simp+

text \<open>A numeric code that is no 64-bit integer counts as success.\<close>

lemma large_code_accepted: "checkEnvelopeError [(''code'', JNumber ''99999999999999999999'')] = None"
  by (simp add: checkEnvelopeError_def member_def parseCode_def base_error_def Atoi_def unsigned_digits_def decimal_def
      is_digit_def digit_val_def fits_int64_def int64_max_def int64_min_def)

end
