(* ===== verification/Http_Transport.thy ===== *)
theory Http_Transport
  imports Cli_Client
begin

text \<open>
  \<open>internal/products/meegle/httptransport/client.go\<close>: one bounded, authenticated request, as the delivery of telemetry
  makes it.  What the HTTP client answers is an argument.
\<close>

record transport_config =
  htBaseURL :: string
  htToken :: "(string, string) result option"
  htHeaders :: header
  htAuthHeader :: string
  htUserAgent :: string
  htTimeout :: int
  htMaxResponseBytes :: int

record transport_request =
  hrMethod :: string
  hrPath :: string
  hrBody :: string
  hrHeaders :: header

datatype failure_kind = ErrorToken | ErrorCreateRequest | ErrorRequest | ErrorReadResponse | ErrorResponseTooLarge

record transport_failure =
  tfKind :: failure_kind
  tfStatus :: int
  tfCause :: string

record transport_response =
  hsStatus :: int
  hsHeader :: header
  hsBody :: string

text \<open>A body that breaks off carries the error of the connection.\<close>

record http_answer =
  haStatus :: int
  haHeader :: header
  haBody :: string
  haBroken :: "string option"

definition New_transport :: "transport_config \<Rightarrow> transport_config" where
  "New_transport c =
     c\<lparr>htTimeout := (if htTimeout c \<le> 0 then 8000000000 else htTimeout c),
       htMaxResponseBytes := (if htMaxResponseBytes c \<le> 0 then 4194304 else htMaxResponseBytes c)\<rparr>"

definition transport_header :: "transport_config \<Rightarrow> transport_request \<Rightarrow> header" where
  "transport_header c r =
     (let own = fold (\<lambda>(k, vs) h. fold (\<lambda>v. Header_Add k v) vs (Header_Del k h)) (hrHeaders r) (htHeaders c)
      in if htUserAgent c \<noteq> [] then Header_Set ''User-Agent'' (htUserAgent c) own else own)"

definition failure :: "failure_kind \<Rightarrow> int \<Rightarrow> string \<Rightarrow> transport_failure" where
  "failure kind status cause = \<lparr>tfKind = kind, tfStatus = status, tfCause = cause\<rparr>"

text \<open>The body is read up to one byte beyond the limit, which is taken to be smaller than the largest 64-bit number.\<close>

definition read_answer :: "transport_config \<Rightarrow> http_answer \<Rightarrow> transport_failure option \<times> transport_response option" where
  "read_answer c a =
     (let response = \<lparr>hsStatus = haStatus a, hsHeader = haHeader a, hsBody = []\<rparr> in
      if int (length (haBody a)) > htMaxResponseBytes c
      then (Some (failure ErrorResponseTooLarge (haStatus a) (''response body exceeds '' @ show_int (htMaxResponseBytes c) @ '' bytes'')), Some response)
      else (case haBroken a of
              Some e \<Rightarrow> (Some (failure ErrorReadResponse (haStatus a) e), Some response)
            | None \<Rightarrow> (None, Some (response\<lparr>hsBody := haBody a\<rparr>))))"

definition transport_Do ::
    "transport_config \<Rightarrow> (api_request \<Rightarrow> (string, http_answer) result) \<Rightarrow> transport_request \<Rightarrow>
     (transport_failure option \<times> transport_response option) \<times> api_request list" where
  "transport_Do c answers r =
     (let url = trim_right_slashes (htBaseURL c) @ hrPath r in
      case url_Parse url of
        None \<Rightarrow> ((Some (failure ErrorCreateRequest 0 ''parse''), None), [])
      | Some u \<Rightarrow>
          (case (case htToken c of None \<Rightarrow> Inr [] | Some t \<Rightarrow> t) of
             Inl e \<Rightarrow> ((Some (failure ErrorToken 0 e), None), [])
           | Inr token \<Rightarrow>
               (let q = \<lparr>arMethod = (if hrMethod r = [] then ''GET'' else hrMethod r), arURL = url,
                         arHeader = authorize (TrimSpace (htAuthHeader c)) token (transport_header c r), arBody = Some (JString (hrBody r))\<rparr>
                in case answers q of
                     Inl e \<Rightarrow> ((Some (failure ErrorRequest 0 e), None), [q])
                   | Inr a \<Rightarrow> (read_answer c a, [q]))))"

text \<open>At most one request leaves, and no body beyond the limit is handed on; a response without an error has its whole body.\<close>

lemma transport_bounded:
  assumes "transport_Do (New_transport c) answers r = ((err, resp), out)"
  shows "length out \<le> 1 \<and> 0 < htMaxResponseBytes (New_transport c) \<and>
    (case resp of None \<Rightarrow> err \<noteq> None
     | Some s \<Rightarrow> int (length (hsBody s)) \<le> htMaxResponseBytes (New_transport c) \<and>
         (if err = None then \<exists>a. list_all (\<lambda>q. answers q = Inr a) out \<and> hsBody s = haBody a \<and> haBroken a = None else hsBody s = []))"
  using assms
  by (auto simp: transport_Do_def read_answer_def New_transport_def failure_def Let_def split: option.splits sum.splits if_splits)

end
