(* ===== verification/Oauth_Login.thy ===== *)
theory Oauth_Login
  imports Cli_Client Token_Manager
begin

text \<open>
  Logging in (\<open>internal/products/meegle/auth\<close>: \<open>oauth_discovery.go\<close>, \<open>oauth_registration.go\<close>, \<open>pkce.go\<close>, \<open>callback.go\<close>,
  \<open>code_flow.go\<close>, \<open>device_flow.go\<close>): the discovery of the endpoints, the registration of a client, the authorization
  code flow with its local callback, and the device code flow with its polling.

  The network answers the n-th request that is sent during the login; an answer is a status with the first JSON value of
  its body, or a redirect with the address it leads to.  Redirects are followed by the HTTP client.  The hash, the random
  bytes, the callbacks of the browser and the clock are arguments.  The encoding of a form is
  \<open>net/url\<close>'s, and a form the list of its fields; what is shown to the user is not part of the model.
\<close>

section \<open>Requests\<close>

datatype oauth_body = NoBody | Form "(string \<times> string) list" | JsonBody json

record oauth_request =
  oqMethod :: string
  oqURL :: string
  oqHeaders :: header
  oqBody :: oauth_body
  oqRedirected :: bool

datatype oauth_reply = Unreachable string | Replied int "json option" | Moved int string

text \<open>
  The HTTP client of the login with the headers of the profile.  It is guarded when a transport extension is
  installed (\<open>withSecurityBaseline\<close>); the default client follows redirects with no check of its own.
\<close>

record oauth_client =
  ocAnswer :: "nat \<Rightarrow> oauth_request \<Rightarrow> oauth_reply"
  ocHeaders :: header
  ocGuarded :: bool

definition is_https_text :: "string \<Rightarrow> bool" where "is_https_text s = HasPrefix s ''https://''"

text \<open>
  \<open>net/http\<close> sends a body again after 307 and 308; after the other redirects it asks with GET.  It may drop some of the
  headers on the way to another host and never adds any.
\<close>

definition redirected :: "int \<Rightarrow> string \<Rightarrow> oauth_request \<Rightarrow> oauth_request" where
  "redirected status target q =
     (if status = 307 \<or> status = 308 then q\<lparr>oqURL := target, oqRedirected := True\<rparr>
      else q\<lparr>oqMethod := (if oqMethod q = ''HEAD'' then ''HEAD'' else ''GET''), oqURL := target, oqBody := NoBody, oqRedirected := True\<rparr>)"

primrec follow :: "nat \<Rightarrow> oauth_client \<Rightarrow> nat \<Rightarrow> oauth_request \<Rightarrow> (string, int \<times> json option) result \<times> oauth_request list" where
  "follow 0 c n q =
     (case ocAnswer c n q of
        Unreachable e \<Rightarrow> (Inl e, [q])
      | Replied status body \<Rightarrow> (Inr (status, body), [q])
      | Moved status target \<Rightarrow> (Inl ''stopped after 10 redirects'', [q]))"
| "follow (Suc hops) c n q =
     (case ocAnswer c n q of
        Unreachable e \<Rightarrow> (Inl e, [q])
      | Replied status body \<Rightarrow> (Inr (status, body), [q])
      | Moved status target \<Rightarrow>
          (if ocGuarded c \<and> is_https_text (oqURL q) \<and> \<not> is_https_text target
           then (Inl ''redirect changed URL scheme from HTTPS'', [q])
           else (let (r, qs) = follow hops c (Suc n) (redirected status target q) in (r, q # qs))))"

type_synonym 'a oauth_run = "(api_error, 'a) result \<times> oauth_request list"

text \<open>One request after another; the first failure ends the run.\<close>

definition after :: "'a oauth_run \<Rightarrow> (nat \<Rightarrow> 'a \<Rightarrow> 'b oauth_run) \<Rightarrow> 'b oauth_run" where
  "after run f =
     (case run of
        (Inl e, qs) \<Rightarrow> (Inl e, qs)
      | (Inr a, qs) \<Rightarrow> (let (r, qs') = f (length qs) a in (r, qs @ qs')))"

definition client_failure :: "string \<Rightarrow> string \<Rightarrow> api_error" where
  "client_failure code msg = MeegleErr (NewClientError code msg)"

definition server_failure :: "string \<Rightarrow> string \<Rightarrow> api_error" where
  "server_failure code msg = MeegleErr (NewServerError code msg)"

definition applyHeaders :: "header \<Rightarrow> header \<Rightarrow> header" where
  "applyHeaders headers h = fold (\<lambda>(k, vs) h. fold (\<lambda>v. Header_Add k v) vs h) headers h"

definition content_type :: "oauth_body \<Rightarrow> header" where
  "content_type b =
     (case b of
        NoBody \<Rightarrow> []
      | Form fs \<Rightarrow> Header_Set ''Content-Type'' ''application/x-www-form-urlencoded'' []
      | JsonBody v \<Rightarrow> Header_Set ''Content-Type'' ''application/json'' [])"

definition own_request :: "oauth_client \<Rightarrow> string \<Rightarrow> string \<Rightarrow> oauth_body \<Rightarrow> oauth_request" where
  "own_request c meth url body =
     \<lparr>oqMethod = meth, oqURL = url, oqHeaders = applyHeaders (ocHeaders c) (content_type body), oqBody = body, oqRedirected = False\<rparr>"

text \<open>\<open>HTTPClient(ctx).Do\<close>: at most ten requests.\<close>

definition send :: "oauth_client \<Rightarrow> nat \<Rightarrow> oauth_request \<Rightarrow> (int \<times> json option) oauth_run" where
  "send c n q =
     (case follow 9 c n q of
        (Inl e, qs) \<Rightarrow> (Inl (PlainError e), qs)
      | (Inr answered, qs) \<Rightarrow> (Inr answered, qs))"

section \<open>Discovery\<close>

record OAuthMetadata =
  omIssuer :: string
  omAuthorization :: string
  omToken :: string
  omRegistration :: string
  omDevice :: string

definition metadata_member :: "string \<Rightarrow> json \<Rightarrow> OAuthMetadata \<Rightarrow> OAuthMetadata option" where
  "metadata_member k v a =
     (if k = ''issuer'' then map_option (\<lambda>s. a\<lparr>omIssuer := s\<rparr>) (decode_text v (omIssuer a))
      else if k = ''authorization_endpoint'' then map_option (\<lambda>s. a\<lparr>omAuthorization := s\<rparr>) (decode_text v (omAuthorization a))
      else if k = ''token_endpoint'' then map_option (\<lambda>s. a\<lparr>omToken := s\<rparr>) (decode_text v (omToken a))
      else if k = ''registration_endpoint'' then map_option (\<lambda>s. a\<lparr>omRegistration := s\<rparr>) (decode_text v (omRegistration a))
      else if k = ''device_authorization_endpoint'' then map_option (\<lambda>s. a\<lparr>omDevice := s\<rparr>) (decode_text v (omDevice a))
      else if List.member [''response_types_supported'', ''grant_types_supported'', ''code_challenge_methods_supported''] k
      then (case json_strings v of None \<Rightarrow> None | Some ss \<Rightarrow> Some a)
      else Some a)"

definition metadata_url :: "string \<Rightarrow> string" where
  "metadata_url host = ''https://'' @ host @ ''/.well-known/oauth-authorization-server''"

text \<open>The four required fields are looked at in the order of a map; which one an error names is left open.\<close>

definition metadata_valid :: "OAuthMetadata \<Rightarrow> bool" where
  "metadata_valid m = list_all is_https_text [omIssuer m, omAuthorization m, omToken m, omRegistration m]"

definition read_metadata :: "int \<times> json option \<Rightarrow> (api_error, OAuthMetadata) result" where
  "read_metadata answered =
     (let (status, body) = answered in
      if status \<noteq> 200 then Inl (client_failure ''OAUTH_DISCOVERY_FAILED'' (''Failed to fetch OAuth configuration: '' @ show_int status))
      else (case Option.bind body (\<lambda>v. decode_struct metadata_member v
          \<lparr>omIssuer = [], omAuthorization = [], omToken = [], omRegistration = [], omDevice = []\<rparr>) of
              None \<Rightarrow> Inl (PlainError ''decode'')
            | Some m \<Rightarrow>
                (if metadata_valid m then Inr m
                 else Inl (client_failure ''OAUTH_DISCOVERY_INVALID'' ''Invalid OAuth configuration field''))))"

definition FetchOAuthMetadata :: "oauth_client \<Rightarrow> string \<Rightarrow> nat \<Rightarrow> OAuthMetadata oauth_run" where
  "FetchOAuthMetadata net host n =
     (case url_Parse (metadata_url host) of
        None \<Rightarrow> (Inl (PlainError ''parse''), [])
      | Some u \<Rightarrow>
          after (send net n (own_request net ''GET'' (metadata_url host) NoBody)) (\<lambda>k answered. (read_metadata answered, [])))"

section \<open>Registration\<close>

record ClientCredentials =
  crID :: string
  crSecret :: string

definition credentials_member :: "string \<Rightarrow> json \<Rightarrow> ClientCredentials \<Rightarrow> ClientCredentials option" where
  "credentials_member k v a =
     (if k = ''client_id'' then map_option (\<lambda>s. a\<lparr>crID := s\<rparr>) (decode_text v (crID a))
      else if k = ''client_secret'' then map_option (\<lambda>s. a\<lparr>crSecret := s\<rparr>) (decode_text v (crSecret a))
      else Some a)"

definition no_credentials :: ClientCredentials where "no_credentials = \<lparr>crID = [], crSecret = []\<rparr>"

text \<open>A reply may be wrapped into the member \<open>data\<close>.\<close>

definition data_member :: "(string \<Rightarrow> json \<Rightarrow> 'a \<Rightarrow> 'a option) \<Rightarrow> string \<Rightarrow> json \<Rightarrow> 'a \<Rightarrow> 'a option" where
  "data_member field k v a = (if k = ''data'' then decode_struct field v a else Some a)"

definition wrapped_credentials :: "string \<Rightarrow> json \<Rightarrow> ClientCredentials \<times> string \<Rightarrow> (ClientCredentials \<times> string) option" where
  "wrapped_credentials k v a =
     (if k = ''msg'' then map_option (\<lambda>s. (fst a, s)) (decode_text v (snd a))
      else map_option (\<lambda>c. (c, snd a)) (data_member credentials_member k v (fst a)))"

definition read_credentials :: "json option \<Rightarrow> (api_error, ClientCredentials) result" where
  "read_credentials body =
     (case body of
        None \<Rightarrow> Inl (PlainError ''decode'')
      | Some v \<Rightarrow>
          (case decode_struct credentials_member v no_credentials of
             None \<Rightarrow> Inl (PlainError ''decode'')
           | Some c \<Rightarrow>
               (if crID c \<noteq> [] then Inr c
                else (case decode_struct wrapped_credentials v (no_credentials, []) of
                        Some (w, msg) \<Rightarrow>
                          (if crID w \<noteq> [] then Inr w else Inl (client_failure ''CLIENT_REGISTRATION_FAILED'' ''missing client_id in response''))
                      | None \<Rightarrow> Inl (client_failure ''CLIENT_REGISTRATION_FAILED'' ''missing client_id in response'')))))"

definition registration_json :: "string \<Rightarrow> string \<Rightarrow> json" where
  "registration_json clientName redirectURI =
     (let grants = (if redirectURI = [] then [''urn:ietf:params:oauth:grant-type:device_code'', ''refresh_token''] else [''authorization_code'', ''refresh_token'']);
          common = [(''client_name'', JString clientName), (''grant_types'', JArray (map JString grants)), (''token_endpoint_auth_method'', JString ''none'')]
      in JObject (if redirectURI = [] then common
           else common @ [(''redirect_uris'', JArray [JString redirectURI]), (''response_types'', JArray [JString ''code''])]))"

definition registered :: "int \<times> json option \<Rightarrow> (api_error, ClientCredentials) result" where
  "registered answered =
     (let (status, body) = answered in
      if status \<noteq> 200 \<and> status \<noteq> 201 then Inl (client_failure ''CLIENT_REGISTRATION_FAILED'' (''Client registration failed: '' @ show_int status))
      else read_credentials body)"

definition RegisterClient :: "oauth_client \<Rightarrow> string \<Rightarrow> string \<Rightarrow> string \<Rightarrow> nat \<Rightarrow> ClientCredentials oauth_run" where
  "RegisterClient net clientName endpoint redirectURI n =
     (case url_Parse endpoint of
        None \<Rightarrow> (Inl (PlainError ''parse''), [])
      | Some u \<Rightarrow>
          after (send net n (own_request net ''POST'' endpoint (JsonBody (registration_json clientName redirectURI))))
            (\<lambda>k answered. (registered answered, [])))"

section \<open>Proof keys\<close>

definition base64_char :: "nat \<Rightarrow> char" where
  "base64_char n =
     (if n < 26 then char_of (65 + n) else if n < 52 then char_of (71 + n) else if n < 62 then char_of (n - 4)
      else if n = 62 then CHR ''-'' else CHR ''_'')"

fun RawURLEncoding :: "nat list \<Rightarrow> string" where
  "RawURLEncoding [] = []"
| "RawURLEncoding [a] = [base64_char (a div 4), base64_char (a mod 4 * 16)]"
| "RawURLEncoding [a, b] = [base64_char (a div 4), base64_char (a mod 4 * 16 + b div 16), base64_char (b mod 16 * 4)]"
| "RawURLEncoding (a # b # c # rest) =
     base64_char (a div 4) # base64_char (a mod 4 * 16 + b div 16) # base64_char (b mod 16 * 4 + c div 64) # base64_char (c mod 64) #
     RawURLEncoding rest"

definition GenerateCodeVerifier :: "nat list \<Rightarrow> string" where
  "GenerateCodeVerifier random = RawURLEncoding random"

definition GenerateCodeChallenge :: "(string \<Rightarrow> nat list) \<Rightarrow> string \<Rightarrow> string" where
  "GenerateCodeChallenge sha256 verifier = RawURLEncoding (sha256 verifier)"

text \<open>RFC 7636 asks for 43 to 128 characters that are letters, digits or one of four others.\<close>

definition verifier_char :: "char \<Rightarrow> bool" where
  "verifier_char c = (is_alnum c \<or> c = CHR ''-'' \<or> c = CHR ''_'')"

lemma base64_chars: "list_all (\<lambda>n. verifier_char (base64_char n)) [0..<64]"
  by code_simp

lemma base64_char_ok: "n < 64 \<Longrightarrow> verifier_char (base64_char n)"
  using base64_chars by (simp add: list_all_iff)

lemma RawURLEncoding_ok:
  "list_all (\<lambda>b. b < 256) bytes \<Longrightarrow>
   list_all verifier_char (RawURLEncoding bytes) \<and> length (RawURLEncoding bytes) = (length bytes * 8 + 5) div 6"
  by (induction bytes rule: RawURLEncoding.induct) (auto intro!: base64_char_ok)

lemma verifier_ok:
  "length bytes = 32 \<Longrightarrow> list_all (\<lambda>b. b < 256) bytes \<Longrightarrow>
   length (GenerateCodeVerifier bytes) = 43 \<and> list_all verifier_char (GenerateCodeVerifier bytes)"
  using RawURLEncoding_ok[of bytes] by (simp add: GenerateCodeVerifier_def)

section \<open>The authorization code flow\<close>

definition token_member :: "string \<Rightarrow> json \<Rightarrow> tokenResponse \<Rightarrow> tokenResponse option" where
  "token_member k v a =
     (if k = ''access_token'' then map_option (\<lambda>s. a\<lparr>trAccess := s\<rparr>) (decode_text v (trAccess a))
      else if k = ''refresh_token'' then map_option (\<lambda>s. a\<lparr>trRefresh := s\<rparr>) (decode_text v (trRefresh a))
      else if k = ''expires_in'' then map_option (\<lambda>i. a\<lparr>trExpiresIn := i\<rparr>) (decode_int v (trExpiresIn a))
      else Some a)"

definition no_tokens :: tokenResponse where "no_tokens = \<lparr>trAccess = [], trRefresh = [], trExpiresIn = 0\<rparr>"

definition exchanged :: "int \<times> json option \<Rightarrow> (api_error, tokenResponse) result" where
  "exchanged answered =
     (let (status, body) = answered in
      if status \<noteq> 200 then Inl (server_failure ''TOKEN_EXCHANGE_FAILED'' (''Token exchange failed: '' @ show_int status))
      else (case Option.bind body (\<lambda>v. decode_struct token_member v no_tokens) of
              None \<Rightarrow> Inl (PlainError ''decode'')
            | Some t \<Rightarrow>
                (if trAccess t = []
                 then Inl (server_failure ''TOKEN_EXCHANGE_FAILED'' ''Token exchange response did not include access_token'')
                 else Inr t)))"

definition exchangeToken :: "oauth_client \<Rightarrow> string \<Rightarrow> (string \<times> string) list \<Rightarrow> nat \<Rightarrow> tokenResponse oauth_run" where
  "exchangeToken net endpoint params n =
     (case url_Parse endpoint of
        None \<Rightarrow> (Inl (PlainError ''parse''), [])
      | Some u \<Rightarrow> after (send net n (own_request net ''POST'' endpoint (Form params))) (\<lambda>k answered. (exchanged answered, [])))"

text \<open>A request of the browser to the local server: its code and its state, empty when absent.\<close>

record oauth_callback =
  cbCode :: string
  cbState :: string

text \<open>The first request that arrives in time decides.\<close>

definition WaitForCallback :: "string \<Rightarrow> oauth_callback list \<Rightarrow> (api_error, string) result" where
  "WaitForCallback expectedState callbacks =
     (case callbacks of
        [] \<Rightarrow> Inl (client_failure ''OAUTH_TIMEOUT'' ''Authorization timed out (120 seconds)'')
      | c # rest \<Rightarrow>
          (if cbState c \<noteq> expectedState then Inl (client_failure ''OAUTH_STATE_MISMATCH'' ''OAuth state mismatch'')
           else if cbCode c = [] then Inl (client_failure ''OAUTH_NO_CODE'' ''No authorization code received'')
           else Inr (cbCode c)))"

record login_world =
  lwNet :: oauth_client
  lwClientName :: string
  lwPort :: "nat option"
  lwVerifierBytes :: "nat list"
  lwStateBytes :: "nat list"
  lwSha256 :: "string \<Rightarrow> nat list"
  lwCallbacks :: "string \<Rightarrow> (string \<times> string) list \<Rightarrow> oauth_callback list"
  lwNow :: int

definition hex_text :: "nat list \<Rightarrow> string" where
  "hex_text bytes = concat (map (\<lambda>b. [''0123456789abcdef'' ! (b div 16 mod 16), ''0123456789abcdef'' ! (b mod 16)]) bytes)"

definition login_state :: "login_world \<Rightarrow> string" where "login_state w = hex_text (lwStateBytes w)"
definition login_verifier :: "login_world \<Rightarrow> string" where "login_verifier w = GenerateCodeVerifier (lwVerifierBytes w)"

definition callback_uri :: "nat \<Rightarrow> string" where
  "callback_uri port = ''http://127.0.0.1:'' @ show_nat port @ ''/callback''"

definition authorization_params :: "login_world \<Rightarrow> string \<Rightarrow> string \<Rightarrow> (string \<times> string) list" where
  "authorization_params w clientID redirectURI =
     [(''response_type'', ''code''), (''client_id'', clientID), (''redirect_uri'', redirectURI),
      (''code_challenge'', GenerateCodeChallenge (lwSha256 w) (login_verifier w)), (''code_challenge_method'', ''S256''),
      (''state'', login_state w), (''channel'', ''meegle-cli'')]"

definition exchange_params :: "login_world \<Rightarrow> string \<Rightarrow> string \<Rightarrow> string \<Rightarrow> (string \<times> string) list" where
  "exchange_params w clientID redirectURI code =
     [(''grant_type'', ''authorization_code''), (''code'', code), (''redirect_uri'', redirectURI), (''client_id'', clientID),
      (''code_verifier'', login_verifier w)]"

definition token_data :: "int \<Rightarrow> string \<Rightarrow> tokenResponse \<Rightarrow> TokenData" where
  "token_data now clientID t =
     \<lparr>AccessToken = trAccess t, RefreshToken = trRefresh t, ExpiresAt = expiresAtFromSeconds now (trExpiresIn t), ClientID = clientID\<rparr>"

text \<open>The browser, or the user, follows the address that is shown; the callbacks depend on it.\<close>

definition code_exchange :: "login_world \<Rightarrow> OAuthMetadata \<Rightarrow> string \<Rightarrow> string \<Rightarrow> nat \<Rightarrow> TokenData oauth_run" where
  "code_exchange w m redirectURI clientID n =
     (case WaitForCallback (login_state w) (lwCallbacks w (omAuthorization m) (authorization_params w clientID redirectURI)) of
        Inl e \<Rightarrow> (Inl e, [])
      | Inr code \<Rightarrow>
          after (exchangeToken (lwNet w) (omToken m) (exchange_params w clientID redirectURI code) n)
            (\<lambda>k t. (Inr (token_data (lwNow w) clientID t), [])))"

definition StartAuthCodeFlow :: "login_world \<Rightarrow> string \<Rightarrow> TokenData oauth_run" where
  "StartAuthCodeFlow w host =
     after (FetchOAuthMetadata (lwNet w) host 0)
       (\<lambda>n m. case lwPort w of
          None \<Rightarrow> (Inl (PlainError ''listen''), [])
        | Some port \<Rightarrow>
            after (RegisterClient (lwNet w) (lwClientName w) (omRegistration m) (callback_uri port) n)
              (\<lambda>k c. code_exchange w m (callback_uri port) (crID c) (n + k)))"

section \<open>The device code flow\<close>

record deviceCodeResponse =
  dcDeviceCode :: string
  dcUserCode :: string
  dcVerificationURI :: string
  dcVerificationURIComplete :: string
  dcExpiresIn :: int
  dcInterval :: int

definition device_code_member :: "string \<Rightarrow> json \<Rightarrow> deviceCodeResponse \<Rightarrow> deviceCodeResponse option" where
  "device_code_member k v a =
     (if k = ''device_code'' then map_option (\<lambda>s. a\<lparr>dcDeviceCode := s\<rparr>) (decode_text v (dcDeviceCode a))
      else if k = ''user_code'' then map_option (\<lambda>s. a\<lparr>dcUserCode := s\<rparr>) (decode_text v (dcUserCode a))
      else if k = ''verification_uri'' then map_option (\<lambda>s. a\<lparr>dcVerificationURI := s\<rparr>) (decode_text v (dcVerificationURI a))
      else if k = ''verification_uri_complete''
      then map_option (\<lambda>s. a\<lparr>dcVerificationURIComplete := s\<rparr>) (decode_text v (dcVerificationURIComplete a))
      else if k = ''expires_in'' then map_option (\<lambda>i. a\<lparr>dcExpiresIn := i\<rparr>) (decode_int v (dcExpiresIn a))
      else if k = ''interval'' then map_option (\<lambda>i. a\<lparr>dcInterval := i\<rparr>) (decode_int v (dcInterval a))
      else Some a)"

definition no_device_code :: deviceCodeResponse where
  "no_device_code = \<lparr>dcDeviceCode = [], dcUserCode = [], dcVerificationURI = [], dcVerificationURIComplete = [], dcExpiresIn = 0, dcInterval = 0\<rparr>"

definition read_device_code :: "json option \<Rightarrow> (api_error, deviceCodeResponse) result" where
  "read_device_code body =
     (case body of
        None \<Rightarrow> Inl (PlainError ''decode'')
      | Some v \<Rightarrow>
          (case decode_struct device_code_member v no_device_code of
             None \<Rightarrow> Inl (PlainError ''decode'')
           | Some d \<Rightarrow>
               (if dcDeviceCode d \<noteq> [] then Inr d
                else (case decode_struct (data_member device_code_member) v no_device_code of
                        Some w \<Rightarrow>
                          (if dcDeviceCode w \<noteq> [] then Inr w else Inl (server_failure ''DEVICE_CODE_FAILED'' ''Failed to obtain device code''))
                      | None \<Rightarrow> Inl (server_failure ''DEVICE_CODE_FAILED'' ''Failed to obtain device code'')))))"

text \<open>The address that is shown: the parsed one with its query rewritten, or the text when it does not parse.\<close>

datatype shown_uri = Verbatim string | WithQuery URL "(string \<times> string) list"

definition query_drop :: "string \<Rightarrow> (string \<times> string) list \<Rightarrow> (string \<times> string) list" where
  "query_drop k q = filter (\<lambda>(k', v). k' \<noteq> k) q"

definition query_set :: "string \<Rightarrow> string \<Rightarrow> (string \<times> string) list \<Rightarrow> (string \<times> string) list" where
  "query_set k v q = query_drop k q @ [(k, v)]"

definition rewrite_verification :: "string \<Rightarrow> shown_uri" where
  "rewrite_verification uri =
     (if uri = [] then Verbatim []
      else (case url_Parse uri of
              None \<Rightarrow> Verbatim uri
            | Some u \<Rightarrow>
                (let q = url_Query (urlRawQuery u);
                     code = (case map_of q ''user_code'' of Some c \<Rightarrow> c | None \<Rightarrow> []);
                     q' = (if code \<noteq> [] then query_set ''usercode'' code (query_drop ''user_code'' q) else q)
                 in WithQuery u (query_set ''channel'' ''meegle-cli'' q'))))"

record DeviceCodeInitResult =
  diDeviceCode :: string
  diUserCode :: string
  diVerificationURI :: string
  diVerificationURIComplete :: shown_uri
  diExpiresIn :: int
  diInterval :: int
  diClientID :: string

text \<open>A request for an address that does not parse is not built; the code then uses the nil request and crashes.\<close>

definition request_device_code :: "oauth_client \<Rightarrow> string \<Rightarrow> string \<Rightarrow> nat \<Rightarrow> deviceCodeResponse oauth_run" where
  "request_device_code net endpoint clientID n =
     after (send net n (own_request net ''POST'' endpoint (Form [(''client_id'', clientID)])))
       (\<lambda>k (status, body). (read_device_code body, []))"

definition init_result :: "deviceCodeResponse \<Rightarrow> string \<Rightarrow> DeviceCodeInitResult" where
  "init_result d clientID =
     \<lparr>diDeviceCode = dcDeviceCode d, diUserCode = dcUserCode d, diVerificationURI = dcVerificationURI d,
      diVerificationURIComplete = rewrite_verification (dcVerificationURIComplete d), diExpiresIn = dcExpiresIn d,
      diInterval = dcInterval d, diClientID = clientID\<rparr>"

text \<open>None is a crash.\<close>

definition StartDeviceCodeInit :: "login_world \<Rightarrow> string \<Rightarrow> DeviceCodeInitResult oauth_run option" where
  "StartDeviceCodeInit w host =
     (case FetchOAuthMetadata (lwNet w) host 0 of
        (Inl e, qs) \<Rightarrow> Some (Inl e, qs)
      | (Inr m, qs) \<Rightarrow>
          (if omDevice m = [] then Some (Inl (client_failure ''DEVICE_FLOW_UNSUPPORTED'' ''This site does not support the Device Code flow''), qs)
           else (case RegisterClient (lwNet w) (lwClientName w) (omRegistration m) [] (length qs) of
                   (Inl e, qs') \<Rightarrow> Some (Inl e, qs @ qs')
                 | (Inr c, qs') \<Rightarrow>
                     (if url_Parse (omDevice m) = None then None
                      else (let (r, qs'') = request_device_code (lwNet w) (omDevice m) (crID c) (length (qs @ qs'))
                            in Some ((case r of Inl e \<Rightarrow> Inl e | Inr d \<Rightarrow> Inr (init_result d (crID c))), qs @ qs' @ qs''))))))"

section \<open>Polling\<close>

record deviceTokenResponse =
  dtAccess :: string
  dtRefresh :: string
  dtExpiresIn :: int
  dtError :: string

definition device_token_member :: "string \<Rightarrow> json \<Rightarrow> deviceTokenResponse \<Rightarrow> deviceTokenResponse option" where
  "device_token_member k v a =
     (if k = ''access_token'' then map_option (\<lambda>s. a\<lparr>dtAccess := s\<rparr>) (decode_text v (dtAccess a))
      else if k = ''refresh_token'' then map_option (\<lambda>s. a\<lparr>dtRefresh := s\<rparr>) (decode_text v (dtRefresh a))
      else if k = ''expires_in'' then map_option (\<lambda>i. a\<lparr>dtExpiresIn := i\<rparr>) (decode_int v (dtExpiresIn a))
      else if k = ''error'' then map_option (\<lambda>s. a\<lparr>dtError := s\<rparr>) (decode_text v (dtError a))
      else Some a)"

definition no_device_token :: deviceTokenResponse where
  "no_device_token = \<lparr>dtAccess = [], dtRefresh = [], dtExpiresIn = 0, dtError = []\<rparr>"

datatype poll_status = PollOK TokenData | AuthorizationPending | SlowDown | ExpiredToken

definition unwrap_device_token :: "json \<Rightarrow> deviceTokenResponse \<Rightarrow> deviceTokenResponse" where
  "unwrap_device_token v d =
     (if dtAccess d = [] \<and> dtError d = []
      then (case decode_struct (data_member device_token_member) v no_device_token of Some d' \<Rightarrow> d' | None \<Rightarrow> d) else d)"

definition poll_verdict :: "int \<Rightarrow> string \<Rightarrow> deviceTokenResponse \<Rightarrow> (api_error, poll_status) result" where
  "poll_verdict now clientID d =
     (if dtAccess d \<noteq> []
      then Inr (PollOK \<lparr>AccessToken = dtAccess d, RefreshToken = dtRefresh d, ExpiresAt = expiresAtFromSeconds now (dtExpiresIn d),
             ClientID = clientID\<rparr>)
      else if dtError d = ''authorization_pending'' then Inr AuthorizationPending
      else if dtError d = ''slow_down'' then Inr SlowDown
      else if dtError d = ''expired_token'' then Inr ExpiredToken
      else Inl (server_failure ''DEVICE_CODE_FAILED'' (''Device code authorization failed: '' @ dtError d)))"

definition device_token_params :: "string \<Rightarrow> string \<Rightarrow> (string \<times> string) list" where
  "device_token_params deviceCode clientID =
     [(''grant_type'', ''urn:ietf:params:oauth:grant-type:device_code''), (''device_code'', deviceCode), (''client_id'', clientID)]"

definition read_poll :: "int \<Rightarrow> string \<Rightarrow> json option \<Rightarrow> (api_error, poll_status) result" where
  "read_poll now clientID body =
     (case body of
        None \<Rightarrow> Inl (PlainError ''decode'')
      | Some v \<Rightarrow>
          (case decode_struct device_token_member v no_device_token of
             None \<Rightarrow> Inl (PlainError ''decode'')
           | Some d \<Rightarrow> poll_verdict now clientID (unwrap_device_token v d)))"

definition PollDeviceCodeOnce :: "oauth_client \<Rightarrow> int \<Rightarrow> string \<Rightarrow> string \<Rightarrow> string \<Rightarrow> nat \<Rightarrow> poll_status oauth_run" where
  "PollDeviceCodeOnce net now host deviceCode clientID n =
     after (FetchOAuthMetadata net host n)
       (\<lambda>k m. case url_Parse (omToken m) of
          None \<Rightarrow> (Inl (PlainError ''parse''), [])
        | Some u \<Rightarrow>
            after (send net (n + k) (own_request net ''POST'' (omToken m) (Form (device_token_params deviceCode clientID))))
              (\<lambda>j (status, body). (read_poll now clientID body, [])))"

record DeviceCodePollOptions =
  poHost :: string
  poDeviceCode :: string
  poClientID :: string
  poInterval :: int
  poExpiresIn :: int

definition second :: int where "second = 1000000000"

text \<open>
  Times are nanoseconds, an interval is a \<open>time.Duration\<close> of 64 bits.  A pause lasts at least as long as asked for, and a poll takes its time: \<open>lag\<close> is what the
  n-th round takes beyond the pause.  \<open>clock\<close> gives the date in milliseconds.  None: the rounds do not suffice.
\<close>

fun poll_loop ::
    "nat \<Rightarrow> oauth_client \<Rightarrow> (nat \<Rightarrow> nat) \<Rightarrow> (int \<Rightarrow> int) \<Rightarrow> DeviceCodePollOptions \<Rightarrow> int \<Rightarrow> int \<Rightarrow> int \<Rightarrow> nat \<Rightarrow> nat \<Rightarrow>
     (TokenData oauth_run \<times> int list) option" where
  "poll_loop 0 net lag clock opts deadline now interval i n = None"
| "poll_loop (Suc rounds) net lag clock opts deadline now interval i n =
     (if \<not> now < deadline
      then Some ((Inl (client_failure ''DEVICE_CODE_EXPIRED'' ''Device code has expired, please try again''), []), [])
      else (let later = now + max 0 interval + int (lag i);
                (result, qs) = PollDeviceCodeOnce net (clock later) (poHost opts) (poDeviceCode opts) (poClientID opts) n;
                go_on = (\<lambda>pause. map_option (\<lambda>((r, qs'), ps). ((r, qs @ qs'), interval # ps))
                   (poll_loop rounds net lag clock opts deadline later pause (Suc i) (n + length qs)))
            in case result of
                 Inl e \<Rightarrow> Some ((Inl e, qs), [interval])
               | Inr (PollOK t) \<Rightarrow> Some ((Inr t, qs), [interval])
               | Inr SlowDown \<Rightarrow> go_on (wrap64 (interval + 5 * second))
               | Inr AuthorizationPending \<Rightarrow> go_on interval
               | Inr ExpiredToken \<Rightarrow>
                   Some ((Inl (client_failure ''DEVICE_CODE_EXPIRED'' ''Authorization timed out, please re-run meegle auth login --device-code''), qs), [interval])))"

definition poll_interval :: "DeviceCodePollOptions \<Rightarrow> int" where
  "poll_interval opts = max (wrap64 (poInterval opts * second)) (5 * second)"

definition StartDeviceCodePoll ::
    "nat \<Rightarrow> oauth_client \<Rightarrow> (nat \<Rightarrow> nat) \<Rightarrow> (int \<Rightarrow> int) \<Rightarrow> int \<Rightarrow> DeviceCodePollOptions \<Rightarrow> nat \<Rightarrow>
     (TokenData oauth_run \<times> int list) option" where
  "StartDeviceCodePoll rounds net lag clock now opts n =
     poll_loop rounds net lag clock opts (now + wrap64 (poExpiresIn opts * second)) now (poll_interval opts) 0 n"

text \<open>Enough rounds: one for each five seconds until the deadline, and one to see that it has passed.\<close>

definition poll_rounds :: "DeviceCodePollOptions \<Rightarrow> nat" where
  "poll_rounds opts = nat (max 0 (wrap64 (poExpiresIn opts * second)) div (5 * second)) + 2"

section \<open>Where a login sends its requests\<close>

lemma after_cases:
  assumes "after run f = (r, qs)"
  obtains (failed) e where "run = (Inl e, qs)" "r = Inl e"
  | (ok) a qs1 qs2 where "run = (Inr a, qs1)" "f (length qs1) a = (r, qs2)" "qs = qs1 @ qs2"
  using assms by (auto simp: after_def split: prod.splits sum.splits)

text \<open>
  The login's own requests go over HTTPS, and with a guarded client those of redirects too.
\<close>

definition secured :: "oauth_client \<Rightarrow> oauth_request \<Rightarrow> bool" where
  "secured c q = (if oqRedirected q \<and> \<not> ocGuarded c then True else is_https_text (oqURL q))"

definition over_https :: "oauth_client \<Rightarrow> oauth_request list \<Rightarrow> bool" where
  "over_https c qs = list_all (secured c) qs"

lemma over_https_append [simp]: "over_https c (a @ b) = (over_https c a \<and> over_https c b)" "over_https c []"
  "over_https c (q # qs) = (secured c q \<and> over_https c qs)"
  by (simp_all add: over_https_def)

lemma follow_hops:
  "follow hops c n q = (r, qs) \<Longrightarrow> secured c q \<Longrightarrow>
   \<exists>rest. qs = q # rest \<and> length rest \<le> hops \<and> list_all oqRedirected rest \<and> over_https c qs"
proof (induction hops arbitrary: n q r qs)
  case 0 then show ?case by (auto split: oauth_reply.splits)
next
  case (Suc hops)
  show ?case
  proof (cases "ocAnswer c n q")
    case (Moved status target)
    let ?q = "redirected status target q"
    show ?thesis
    proof (cases "ocGuarded c \<and> is_https_text (oqURL q) \<and> \<not> is_https_text target")
      case True
      then have "qs = [q]" using Suc.prems(1) Moved by auto
      then show ?thesis using Suc.prems(2) by simp
    next
      case False
      obtain r' qs' where next_hop: "follow hops c (Suc n) ?q = (r', qs')" by (metis prod.exhaust)
      have q: "oqRedirected ?q" "oqURL ?q = target" by (simp_all add: redirected_def)
      have "secured c ?q" using False Suc.prems(2) q by (auto simp: secured_def split: if_splits)
      from Suc.IH[OF next_hop this] obtain rest where
        "qs' = ?q # rest" "length rest \<le> hops" "list_all oqRedirected rest" "over_https c qs'" by blast
      then show ?thesis using Suc.prems Moved False next_hop q by auto
    qed
  qed (use Suc.prems in auto)
qed

text \<open>A request with the requests of the redirects behind it.\<close>

definition sent_as :: "oauth_request \<Rightarrow> oauth_request list \<Rightarrow> bool" where
  "sent_as q qs = (\<exists>rest. qs = q # rest \<and> length rest \<le> 9 \<and> list_all oqRedirected rest)"

lemma send_sound:
  assumes "send c n q = (r, qs)" "is_https_text (oqURL q)" shows "over_https c qs \<and> sent_as q qs"
proof -
  obtain r' where "follow 9 c n q = (r', qs)" using assms(1) by (auto simp: send_def split: prod.splits sum.splits)
  moreover have "secured c q" using assms(2) by (simp add: secured_def)
  ultimately show ?thesis unfolding sent_as_def using follow_hops by blast
qed

lemma own_request_url [simp]: "oqURL (own_request c meth url body) = url"
  by (simp add: own_request_def)

lemma metadata_url_https: "is_https_text (metadata_url host)"
  by (simp add: is_https_text_def metadata_url_def HasPrefix_iff)

lemma FetchOAuthMetadata_sound:
  assumes "FetchOAuthMetadata net host n = (r, qs)"
  shows "over_https net qs \<and>
    (case r of Inr m \<Rightarrow> metadata_valid m \<and> sent_as (own_request net ''GET'' (metadata_url host) NoBody) qs | Inl e \<Rightarrow> True)"
proof (cases "url_Parse (metadata_url host)")
  case None with assms show ?thesis by (auto simp: FetchOAuthMetadata_def)
next
  case (Some u)
  with assms have "after (send net n (own_request net ''GET'' (metadata_url host) NoBody)) (\<lambda>k answered. (read_metadata answered, [])) = (r, qs)"
    by (simp add: FetchOAuthMetadata_def)
  then show ?thesis
  proof (cases rule: after_cases)
    case (failed e) then show ?thesis using send_sound[OF failed(1)] metadata_url_https by simp
  next
    case (ok answered qs1 qs2)
    then show ?thesis using send_sound[OF ok(1)] metadata_url_https
      by (auto simp: read_metadata_def split: prod.splits if_splits option.splits)
  qed
qed

lemma RegisterClient_sound:
  assumes "RegisterClient net name endpoint uri n = (r, qs)" "is_https_text endpoint"
  shows "over_https net qs \<and> (case r of Inr c \<Rightarrow> crID c \<noteq> [] | Inl e \<Rightarrow> True)"
proof (cases "url_Parse endpoint")
  case None with assms show ?thesis by (auto simp: RegisterClient_def)
next
  case (Some u)
  with assms have "after (send net n (own_request net ''POST'' endpoint (JsonBody (registration_json name uri))))
      (\<lambda>k answered. (registered answered, [])) = (r, qs)" by (simp add: RegisterClient_def)
  then show ?thesis
  proof (cases rule: after_cases)
    case (failed e) then show ?thesis using send_sound[OF failed(1)] assms(2) by simp
  next
    case (ok answered qs1 qs2)
    then show ?thesis using send_sound[OF ok(1)] assms(2)
      by (auto simp: registered_def read_credentials_def split: prod.splits if_splits option.splits sum.splits)
  qed
qed

lemma exchangeToken_sound:
  assumes "exchangeToken net endpoint params n = (r, qs)" "is_https_text endpoint"
  shows "over_https net qs \<and>
    (case r of Inr t \<Rightarrow> trAccess t \<noteq> [] \<and> sent_as (own_request net ''POST'' endpoint (Form params)) qs | Inl e \<Rightarrow> True)"
proof (cases "url_Parse endpoint")
  case None with assms show ?thesis by (auto simp: exchangeToken_def)
next
  case (Some u)
  with assms have "after (send net n (own_request net ''POST'' endpoint (Form params))) (\<lambda>k answered. (exchanged answered, [])) = (r, qs)"
    by (simp add: exchangeToken_def)
  then show ?thesis
  proof (cases rule: after_cases)
    case (failed e) then show ?thesis using send_sound[OF failed(1)] assms(2) by simp
  next
    case (ok answered qs1 qs2)
    then show ?thesis using send_sound[OF ok(1)] assms(2)
      by (auto simp: exchanged_def split: prod.splits if_splits option.splits)
  qed
qed

lemma callback_sound:
  "WaitForCallback st cbs = Inr code \<Longrightarrow> code \<noteq> [] \<and> (\<exists>c rest. cbs = c # rest \<and> cbState c = st \<and> cbCode c = code)"
  by (auto simp: WaitForCallback_def split: list.splits if_splits)

definition token_for :: "oauth_client \<Rightarrow> string \<Rightarrow> TokenData oauth_run \<Rightarrow> bool" where
  "token_for net clientID run =
     (over_https net (snd run) \<and> (case fst run of Inr t \<Rightarrow> AccessToken t \<noteq> [] \<and> ClientID t = clientID | Inl e \<Rightarrow> True))"

lemma PollDeviceCodeOnce_sound:
  assumes "PollDeviceCodeOnce net now host code clientID n = (r, qs)"
  shows "over_https net qs \<and> (case r of Inr (PollOK t) \<Rightarrow> AccessToken t \<noteq> [] \<and> ClientID t = clientID | _ \<Rightarrow> True)"
  using assms unfolding PollDeviceCodeOnce_def
proof (cases rule: after_cases)
  case (failed e)
  then show ?thesis using FetchOAuthMetadata_sound[OF failed(1)] by simp
next
  case (ok m qs1 qs2)
  note meta = FetchOAuthMetadata_sound[OF ok(1)]
  then have https: "is_https_text (omToken m)" by (simp add: metadata_valid_def)
  show ?thesis
  proof (cases "url_Parse (omToken m)")
    case None with ok(2,3) meta show ?thesis by auto
  next
    case (Some u)
    with ok(2) have "after (send net (n + length qs1) (own_request net ''POST'' (omToken m) (Form (device_token_params code clientID))))
        (\<lambda>j (status, body). (read_poll now clientID body, [])) = (r, qs2)" by simp
    then show ?thesis
    proof (cases rule: after_cases)
      case (failed e) then show ?thesis using send_sound[OF failed(1)] https meta ok(3) by simp
    next
      case polled: (ok answered qs3 qs4)
      then show ?thesis using send_sound[OF polled(1)] https meta ok(3)
        by (auto simp: read_poll_def poll_verdict_def split: prod.splits if_splits option.splits)
    qed
  qed
qed

text \<open>What a round leads to.\<close>

lemma poll_loop_round:
  assumes "now < deadline"
    and "PollDeviceCodeOnce net (clock (now + max 0 interval + int (lag i))) (poHost opts) (poDeviceCode opts) (poClientID opts) n = (result, qs0)"
  shows "poll_loop (Suc rounds) net lag clock opts deadline now interval i n =
      (case result of
         Inl e \<Rightarrow> Some ((Inl e, qs0), [interval])
       | Inr (PollOK t) \<Rightarrow> Some ((Inr t, qs0), [interval])
       | Inr SlowDown \<Rightarrow> map_option (\<lambda>((r, qs'), ps). ((r, qs0 @ qs'), interval # ps))
           (poll_loop rounds net lag clock opts deadline (now + max 0 interval + int (lag i)) (wrap64 (interval + 5 * second)) (Suc i) (n + length qs0))
       | Inr AuthorizationPending \<Rightarrow> map_option (\<lambda>((r, qs'), ps). ((r, qs0 @ qs'), interval # ps))
           (poll_loop rounds net lag clock opts deadline (now + max 0 interval + int (lag i)) interval (Suc i) (n + length qs0))
       | Inr ExpiredToken \<Rightarrow>
           Some ((Inl (client_failure ''DEVICE_CODE_EXPIRED'' ''Authorization timed out, please re-run meegle auth login --device-code''), qs0), [interval]))"
  using assms by (simp only: poll_loop.simps(2) Let_def prod.case not_not if_False simp_thms)

text \<open>A token that the polling returns has a text and is for the client, whatever the intervals.\<close>

lemma poll_loop_token:
  "poll_loop rounds net lag clock opts deadline now interval i n = Some (run, ps) \<Longrightarrow> token_for net (poClientID opts) run"
proof (induction rounds arbitrary: now interval i n run ps)
  case (Suc rounds)
  show ?case
  proof (cases "now < deadline")
    case False with Suc.prems show ?thesis by (auto simp: token_for_def)
  next
    case True
    obtain result qs0 where once: "PollDeviceCodeOnce net (clock (now + max 0 interval + int (lag i))) (poHost opts) (poDeviceCode opts) (poClientID opts) n = (result, qs0)"
      by (metis prod.exhaust)
    note sound = PollDeviceCodeOnce_sound[OF once]
    have again: "token_for net (poClientID opts) run"
      if "map_option (\<lambda>((r, qs'), ps). ((r, qs0 @ qs'), interval # ps))
        (poll_loop rounds net lag clock opts deadline later pause (Suc i) (n + length qs0)) = Some (run, ps)" for later pause
    proof -
      from that obtain r qs ps' where "poll_loop rounds net lag clock opts deadline later pause (Suc i) (n + length qs0) = Some ((r, qs), ps')"
        "run = (r, qs0 @ qs)" by auto
      with Suc.IH[OF this(1)] sound show ?thesis by (simp add: token_for_def)
    qed
    from Suc.prems sound again show ?thesis unfolding poll_loop_round[where clock = clock and lag = lag and interval = interval and i = i, OF True once]
      by (cases result) (auto simp: token_for_def split: poll_status.splits)
  qed
qed simp

text \<open>
  The interval is five seconds at least.  It may grow beyond 64 bits only in the round that ends after the deadline,
  and then no other round uses it.
\<close>

lemma poll_loop_returns:
  assumes "deadline - now \<le> int rounds * (5 * second)" "5 * second \<le> interval" "fits_int64 interval"
    and "deadline - now \<le> int64_max - 5 * second"
  shows "\<exists>run ps. poll_loop (Suc rounds) net lag clock opts deadline now interval i n = Some (run, ps) \<and>
    length ps \<le> rounds \<and> list_all (\<lambda>p. interval \<le> p) ps \<and> sorted ps \<and>
    (if ps = [] then True else sum_list (butlast ps) < deadline - now)"
  using assms
proof (induction rounds arbitrary: now interval i n)
  case 0 then show ?case by simp
next
  case (Suc rounds)
  have pause: "max 0 interval = interval" using Suc.prems(2) by (simp add: second_def)
  show ?case
  proof (cases "now < deadline")
    case False then show ?thesis by simp
  next
    case True
    let ?later = "now + interval + int (lag i)"
    obtain result qs0 where once: "PollDeviceCodeOnce net (clock ?later) (poHost opts) (poDeviceCode opts) (poClientID opts) n = (result, qs0)"
      by (metis prod.exhaust)
    note steps = poll_loop_round[where clock = clock and lag = lag and interval = interval and i = i, unfolded pause, OF True once, of "Suc rounds"]
    have again: "\<exists>run ps. map_option (\<lambda>((r, qs'), ps). ((r, qs0 @ qs'), interval # ps))
        (poll_loop (Suc rounds) net lag clock opts deadline ?later pause (Suc i) (n + length qs0)) = Some (run, ps) \<and>
      length ps \<le> Suc rounds \<and> list_all (\<lambda>p. interval \<le> p) ps \<and> sorted ps \<and>
      (if ps = [] then True else sum_list (butlast ps) < deadline - now)"
      if longer: "?later < deadline \<Longrightarrow> interval \<le> pause \<and> fits_int64 pause" for pause
    proof (cases "?later < deadline")
      case False then show ?thesis using True by simp
    next
      case on_time: True
      have "deadline - ?later \<le> int rounds * (5 * second)" "deadline - ?later \<le> int64_max - 5 * second"
        using Suc.prems by (simp_all add: algebra_simps second_def)
      moreover have "5 * second \<le> pause" "fits_int64 pause" using Suc.prems longer[OF on_time] by simp_all
      ultimately obtain run ps where
        ih: "poll_loop (Suc rounds) net lag clock opts deadline ?later pause (Suc i) (n + length qs0) = Some (run, ps)"
        "length ps \<le> rounds" "list_all (\<lambda>p. pause \<le> p) ps" "sorted ps"
        "if ps = [] then True else sum_list (butlast ps) < deadline - ?later" using Suc.IH by blast
      have "list_all (\<lambda>p. interval \<le> p) ps" using ih(3) longer[OF on_time] by (auto simp: list_all_iff)
      then show ?thesis using ih True by (cases run) (auto simp: list_all_iff)
    qed
    have last_round: "sum_list (butlast [interval]) < deadline - now" using True by simp
    have slower: "interval \<le> wrap64 (interval + 5 * second) \<and> fits_int64 (wrap64 (interval + 5 * second))" if "?later < deadline"
    proof -
      have "interval + 5 * second \<le> int64_max" using that Suc.prems(4) by simp
      then have "fits_int64 (interval + 5 * second)" using Suc.prems(2,3) by (simp add: fits_int64_def second_def)
      then show ?thesis by (simp add: wrap64_id second_def)
    qed
    show ?thesis
    proof (cases result)
      case (Inl e) then show ?thesis using last_round unfolding steps by simp
    next
      case (Inr verdict)
      show ?thesis
      proof (cases verdict)
        case (PollOK t) then show ?thesis using last_round Inr unfolding steps by simp
      next
        case ExpiredToken then show ?thesis using last_round Inr unfolding steps by simp
      next
        case AuthorizationPending then show ?thesis using again[of interval] Suc.prems(3) Inr unfolding steps by simp
      next
        case SlowDown then show ?thesis using again[OF slower] Inr unfolding steps by simp
      qed
    qed
  qed
qed

lemma quotient_bound: "0 < (d :: int) \<Longrightarrow> x \<le> int (nat (max 0 x div d) + 1) * d"
proof -
  assume d: "0 < d"
  have "max 0 x div d * d + max 0 x mod d = max 0 x" by simp
  moreover have "max 0 x mod d < d" using d by simp
  ultimately have "max 0 x \<le> (max 0 x div d + 1) * d" unfolding distrib_right by linarith
  moreover have "int (nat (max 0 x div d)) = max 0 x div d" using d by (simp add: pos_imp_zdiv_nonneg_iff)
  ultimately show ?thesis by (simp add: add.commute)
qed

lemma wrap64_fits: "fits_int64 (wrap64 x)"
proof -
  have "0 \<le> (x + 9223372036854775808) mod 18446744073709551616" "(x + 9223372036854775808) mod 18446744073709551616 < 18446744073709551616"
    by simp_all
  then show ?thesis by (simp add: wrap64_def fits_int64_def int64_min_def int64_max_def)
qed

lemma poll_interval_fits: "fits_int64 (poll_interval opts)"
  using wrap64_fits[of "poInterval opts * second"]
  by (auto simp: poll_interval_def fits_int64_def second_def int64_min_def int64_max_def)

section \<open>Properties\<close>

text \<open>
  C38.  Waiting for the authorization of a device ends: whatever the service answers, however long it takes, the
  polling returns after at most one poll for each five seconds of the lifetime of the code and one more.  The pauses
  are never shorter than five seconds or than the interval asked for, and never get shorter; all but the last one fit into the
  lifetime.  Every request of the polling goes over HTTPS (those of redirects too when a transport extension is installed), and a
  token is returned only with a text, for the client that asked.  The lifetime is less than the 292 years a duration
  of 64 bits can hold; beyond it the interval itself could overflow.
\<close>

theorem device_poll_returns:
  assumes "wrap64 (poExpiresIn opts * second) \<le> int64_max - 5 * second"
  shows "\<exists>r qs pauses. StartDeviceCodePoll (poll_rounds opts) net lag clock now opts n = Some ((r, qs), pauses) \<and>
     length pauses < poll_rounds opts \<and> list_all (\<lambda>p. poll_interval opts \<le> p \<and> 5 * second \<le> p) pauses \<and> sorted pauses \<and>
     (if pauses = [] then True else sum_list (butlast pauses) < wrap64 (poExpiresIn opts * second)) \<and>
     over_https net qs \<and> (case r of Inr t \<Rightarrow> AccessToken t \<noteq> [] \<and> ClientID t = poClientID opts | Inl e \<Rightarrow> True)"
proof -
  let ?life = "wrap64 (poExpiresIn opts * second)"
  obtain k where k: "poll_rounds opts = Suc k" "?life \<le> int k * (5 * second)"
    using quotient_bound[of "5 * second" ?life] by (simp add: poll_rounds_def second_def)
  then have enough: "now + ?life - now \<le> int k * (5 * second)" by simp
  have five: "5 * second \<le> poll_interval opts" by (simp add: poll_interval_def)
  have short: "now + ?life - now \<le> int64_max - 5 * second" using assms by simp
  from poll_loop_returns[OF enough five poll_interval_fits short, of net lag clock opts 0 n] obtain r qs ps where
    run: "poll_loop (Suc k) net lag clock opts (now + ?life) now (poll_interval opts) 0 n = Some ((r, qs), ps)"
    and ps: "length ps \<le> k" "list_all (\<lambda>p. poll_interval opts \<le> p) ps" "sorted ps"
    "if ps = [] then True else sum_list (butlast ps) < now + ?life - now" by auto
  have "StartDeviceCodePoll (poll_rounds opts) net lag clock now opts n = Some ((r, qs), ps)"
    unfolding StartDeviceCodePoll_def k(1) by (rule run)
  moreover have "list_all (\<lambda>p. poll_interval opts \<le> p \<and> 5 * second \<le> p) ps" using ps(2) five by (auto simp: list_all_iff)
  ultimately show ?thesis using ps k(1) poll_loop_token[OF run] by (auto simp: token_for_def)
qed

text \<open>
  How the token was obtained.  The endpoints are those of the metadata the host answered with, the client is the one the
  registration endpoint answered with.  The first callback named the state of this login and a code; the code was
  exchanged at the token endpoint with the verifier whose challenge is in the address the user was sent to, and
  the token is the one that came back.  The login sent these three requests, and those of their redirects.
\<close>

definition obtained_by_proof :: "login_world \<Rightarrow> string \<Rightarrow> TokenData \<Rightarrow> oauth_request list \<Rightarrow> bool" where
  "obtained_by_proof w host t qs =
     (\<exists>m q1 port c q2 cb rest tr q3.
        FetchOAuthMetadata (lwNet w) host 0 = (Inr m, q1) \<and> metadata_valid m \<and> lwPort w = Some port \<and>
        RegisterClient (lwNet w) (lwClientName w) (omRegistration m) (callback_uri port) (length q1) = (Inr c, q2) \<and>
        lwCallbacks w (omAuthorization m) (authorization_params w (crID c) (callback_uri port)) = cb # rest \<and>
        cbState cb = login_state w \<and> cbCode cb \<noteq> [] \<and>
        exchangeToken (lwNet w) (omToken m) (exchange_params w (crID c) (callback_uri port) (cbCode cb)) (length (q1 @ q2)) = (Inr tr, q3) \<and>
        sent_as (own_request (lwNet w) ''POST'' (omToken m) (Form (exchange_params w (crID c) (callback_uri port) (cbCode cb)))) q3 \<and>
        t = token_data (lwNow w) (crID c) tr \<and> qs = q1 @ q2 @ q3)"

lemma code_exchange_sound:
  assumes "code_exchange w m (callback_uri port) clientID n = (r, qs)" "metadata_valid m"
  shows "over_https (lwNet w) qs \<and>
    (case r of
       Inr t \<Rightarrow>
         (\<exists>cb rest tr.
            lwCallbacks w (omAuthorization m) (authorization_params w clientID (callback_uri port)) = cb # rest \<and>
            cbState cb = login_state w \<and> cbCode cb \<noteq> [] \<and>
            exchangeToken (lwNet w) (omToken m) (exchange_params w clientID (callback_uri port) (cbCode cb)) n = (Inr tr, qs) \<and>
            sent_as (own_request (lwNet w) ''POST'' (omToken m) (Form (exchange_params w clientID (callback_uri port) (cbCode cb)))) qs \<and>
            trAccess tr \<noteq> [] \<and> t = token_data (lwNow w) clientID tr)
     | Inl e \<Rightarrow> True)"
proof (cases "WaitForCallback (login_state w) (lwCallbacks w (omAuthorization m) (authorization_params w clientID (callback_uri port)))")
  case (Inl e) then show ?thesis using assms(1) by (auto simp: code_exchange_def)
next
  case (Inr code)
  from callback_sound[OF this] obtain cb rest where cb: "code \<noteq> []" "cbState cb = login_state w" "cbCode cb = code"
    "lwCallbacks w (omAuthorization m) (authorization_params w clientID (callback_uri port)) = cb # rest" by blast
  have https: "is_https_text (omToken m)" using assms(2) by (simp add: metadata_valid_def)
  from assms(1) have run: "after (exchangeToken (lwNet w) (omToken m) (exchange_params w clientID (callback_uri port) code) n)
      (\<lambda>k t. (Inr (token_data (lwNow w) clientID t), [])) = (r, qs)" by (simp add: code_exchange_def Inr)
  then show ?thesis
  proof (cases rule: after_cases)
    case (failed e) then show ?thesis using exchangeToken_sound[OF failed(1) https] by simp
  next
    case (ok t qs1 qs2)
    then show ?thesis using exchangeToken_sound[OF ok(1) https] cb by auto
  qed
qed

text \<open>
  C37.  What a login with a browser proves: every request of the login goes over HTTPS, and with a transport extension installed
  the requests of redirects do too.  It returns a token only if the first request that reached the local callback
  carried the state of this login and a code, and that code was exchanged at the token endpoint the host named,
  together with the verifier whose hash is the challenge in the address that was opened, for the client that the
  host's registration endpoint had just given; the token is the one that came back, and it is not empty.
\<close>

theorem code_login_sound:
  "case StartAuthCodeFlow w host of
     (r, qs) \<Rightarrow> over_https (lwNet w) qs \<and>
       (case r of Inr t \<Rightarrow> AccessToken t \<noteq> [] \<and> ClientID t \<noteq> [] \<and> obtained_by_proof w host t qs | Inl e \<Rightarrow> True)"
proof -
  obtain r qs where run: "StartAuthCodeFlow w host = (r, qs)" by (metis prod.exhaust)
  then have "over_https (lwNet w) qs \<and>
      (case r of Inr t \<Rightarrow> AccessToken t \<noteq> [] \<and> ClientID t \<noteq> [] \<and> obtained_by_proof w host t qs | Inl e \<Rightarrow> True)"
    unfolding StartAuthCodeFlow_def
  proof (cases rule: after_cases)
    case (failed e) then show ?thesis using FetchOAuthMetadata_sound[OF failed(1)] by simp
  next
    case (ok m qs1 qs2)
    note meta = FetchOAuthMetadata_sound[OF ok(1)]
    then have valid: "metadata_valid m" and https: "is_https_text (omRegistration m)" by (simp_all add: metadata_valid_def)
    show ?thesis
    proof (cases "lwPort w")
      case None then show ?thesis using ok(2,3) meta by auto
    next
      case (Some port)
      from ok(2) have "after (RegisterClient (lwNet w) (lwClientName w) (omRegistration m) (callback_uri port) (length qs1))
          (\<lambda>k c. code_exchange w m (callback_uri port) (crID c) (length qs1 + k)) = (r, qs2)" by (simp add: Some)
      then show ?thesis
      proof (cases rule: after_cases)
        case (failed e) then show ?thesis using RegisterClient_sound[OF failed(1) https] failed(2) ok(3) meta by auto
      next
        case reg: (ok c qs3 qs4)
        note sound = RegisterClient_sound[OF reg(1) https] code_exchange_sound[OF reg(2) valid]
        show ?thesis
        proof (cases r)
          case (Inl e) then show ?thesis using sound meta ok(3) reg(3) by simp
        next
          case (Inr t)
          from sound(2) Inr obtain cb rest tr where
            cb: "lwCallbacks w (omAuthorization m) (authorization_params w (crID c) (callback_uri port)) = cb # rest"
              "cbState cb = login_state w" "cbCode cb \<noteq> []"
            and tr: "exchangeToken (lwNet w) (omToken m) (exchange_params w (crID c) (callback_uri port) (cbCode cb)) (length qs1 + length qs3) = (Inr tr, qs4)"
              "sent_as (own_request (lwNet w) ''POST'' (omToken m) (Form (exchange_params w (crID c) (callback_uri port) (cbCode cb)))) qs4"
              "trAccess tr \<noteq> []" "t = token_data (lwNow w) (crID c) tr" by auto
          have "obtained_by_proof w host t qs"
            unfolding obtained_by_proof_def
            using ok(1,3) valid Some reg(1,3) cb tr(1,2,4) by (intro exI conjI) (assumption | simp)+
          then show ?thesis using sound meta ok(3) reg(3) tr(3,4) Inr by (simp add: token_data_def)
        qed
      qed
    qed
  qed
  then show ?thesis using run by simp
qed

definition demo_metadata :: "string \<Rightarrow> oauth_reply" where
  "demo_metadata endpoint = Replied 200 (Some (JObject
     [(''issuer'', JString ''https://h''), (''authorization_endpoint'', JString ''https://h/a''), (''token_endpoint'', JString ''https://h/t''),
      (''registration_endpoint'', JString ''https://h/r''), (''device_authorization_endpoint'', JString endpoint)]))"

definition demo_client :: "bool \<Rightarrow> oauth_reply list \<Rightarrow> oauth_client" where
  "demo_client baseline script =
     \<lparr>ocAnswer = (\<lambda>n q. if n < length script then script ! n else Unreachable []), ocHeaders = [], ocGuarded = baseline\<rparr>"

definition demo_registered :: oauth_reply where
  "demo_registered = Replied 201 (Some (JObject [(''data'', JObject [(''client_id'', JString ''c'')])]))"

definition device_net :: "string \<Rightarrow> oauth_client" where
  "device_net endpoint =
     demo_client False [demo_metadata endpoint, demo_registered, Replied 200 (Some (JObject [(''device_code'', JString ''d'')]))]"

definition device_world :: "string \<Rightarrow> login_world" where
  "device_world endpoint =
     \<lparr>lwNet = device_net endpoint, lwClientName = ''n'', lwPort = None, lwVerifierBytes = [], lwStateBytes = [], lwSha256 = (\<lambda>s. []),
      lwCallbacks = (\<lambda>a ps. []), lwNow = 0\<rparr>"

text \<open>
  The endpoint of the device flow is not among the validated ones: a host that names an address without TLS is sent the
  client id in the clear, and one that names an address that does not parse crashes the command.
\<close>

lemma device_endpoint_unchecked:
  "(case StartDeviceCodeInit (device_world ''http://h/d'') ''h'' of
      Some (Inr r, qs) \<Rightarrow> diDeviceCode r = ''d'' \<and> \<not> over_https (device_net ''http://h/d'') qs | _ \<Rightarrow> False) \<and>
   StartDeviceCodeInit (device_world ''http://h:port/d'') ''h'' = None"
  by code_simp

text \<open>A device that is asked to slow down once, and gets its token in the second round.\<close>

definition poll_demo :: DeviceCodePollOptions where
  "poll_demo = \<lparr>poHost = ''h'', poDeviceCode = ''d'', poClientID = ''c'', poInterval = 0, poExpiresIn = 12\<rparr>"

definition poll_net :: oauth_client where
  "poll_net = demo_client True
     [demo_metadata [], Replied 400 (Some (JObject [(''error'', JString ''slow_down'')])),
      demo_metadata [], Replied 200 (Some (JObject [(''access_token'', JString ''t'')]))]"

theorem device_poll_returns_witness:
  "(case StartDeviceCodePoll (poll_rounds poll_demo) poll_net (\<lambda>i. 0) (\<lambda>t. t div 1000000) 0 poll_demo 0 of
      Some ((Inr t, qs), pauses) \<Rightarrow> AccessToken t = ''t'' \<and> length qs = 4 \<and> pauses = [5 * second, 10 * second] | _ \<Rightarrow> False) \<and>
   (\<exists>r qs pauses. StartDeviceCodePoll (poll_rounds poll_demo) poll_net (\<lambda>i. 0) (\<lambda>t. t div 1000000) 0 poll_demo 0 = Some ((r, qs), pauses) \<and>
      length pauses < poll_rounds poll_demo \<and> sorted pauses \<and> over_https poll_net qs)"
proof (rule conjI)
  have short: "wrap64 (poExpiresIn poll_demo * second) \<le> int64_max - 5 * second" by code_simp
  from device_poll_returns[OF short, of poll_net "\<lambda>i. 0" "\<lambda>t. t div 1000000" 0 0]
  show "\<exists>r qs pauses. StartDeviceCodePoll (poll_rounds poll_demo) poll_net (\<lambda>i. 0) (\<lambda>t. t div 1000000) 0 poll_demo 0 = Some ((r, qs), pauses) \<and>
      length pauses < poll_rounds poll_demo \<and> sorted pauses \<and> over_https poll_net qs" by blast
qed code_simp

text \<open>A login that succeeds.  Its token endpoint redirects to an address without TLS; a guarded client refuses to follow.\<close>

definition code_world :: "bool \<Rightarrow> oauth_reply list \<Rightarrow> login_world" where
  "code_world baseline script =
     \<lparr>lwNet = demo_client baseline ([demo_metadata [], demo_registered] @ script), lwClientName = ''n'', lwPort = Some 9,
      lwVerifierBytes = [1], lwStateBytes = [255], lwSha256 = (\<lambda>s. [0]),
      lwCallbacks = (\<lambda>a ps. [\<lparr>cbCode = ''x'', cbState = (case map_of ps ''state'' of Some s \<Rightarrow> s | None \<Rightarrow> [])\<rparr>]), lwNow = 0\<rparr>"

definition moved_token :: "oauth_reply list" where
  "moved_token = [Moved 307 ''http://h/t'', Replied 200 (Some (JObject [(''access_token'', JString ''t'')]))]"

lemma redirect_leaves_https:
  "(case StartAuthCodeFlow (code_world False moved_token) ''h'' of
      (Inr t, qs) \<Rightarrow> AccessToken t = ''t'' \<and> oqURL (List.last qs) = ''http://h/t'' \<and>
        (case oqBody (List.last qs) of Form fs \<Rightarrow> map_of fs ''code'' = Some ''x'' | _ \<Rightarrow> False)
    | _ \<Rightarrow> False) \<and>
   (case StartAuthCodeFlow (code_world True moved_token) ''h'' of (Inl e, qs) \<Rightarrow> length qs = 3 | _ \<Rightarrow> False)"
  by code_simp

end
