(* ===== verification/Auth_Commands.thy ===== *)
theory Auth_Commands
  imports Oauth_Login Identity
begin

text \<open>
  The commands \<open>auth login\<close>, \<open>auth logout\<close> and \<open>auth status\<close> (\<open>internal/products/meegle/commands/auth.go\<close>,
  \<open>invalidateProfileCaches\<close> of \<open>helpers.go\<close>): which host is logged in to, which flow runs, what is stored, and what a
  script that checks the status is told.

  The flows are those of \<open>Oauth_Login\<close>; the terminal, the prompt, the stores and the rendering of a result are
  arguments.  The state is the configuration, the stored tokens and the profiles whose caches were dropped.
\<close>

section \<open>The host\<close>

definition normalizeHost :: "string \<Rightarrow> string" where
  "normalizeHost raw =
     (let trimmed = TrimSpace raw;
          full = (if Contains trimmed ''://'' then trimmed else ''https://'' @ trimmed)
      in case url_Parse full of None \<Rightarrow> TrimSpace raw | Some u \<Rightarrow> urlHost u)"

record auth_state =
  asConfig :: rootConfig
  asTokens :: "string \<Rightarrow> TokenData option"
  asDropped :: "string list"

record auth_io =
  aiInteractive :: bool
  aiPrompt :: "(api_error, string) result"
  aiConfigWritable :: bool
  aiStoreWritable :: bool
  aiRenders :: bool
  aiLogin :: login_world
  aiLag :: "nat \<Rightarrow> nat"
  aiClock :: "int \<Rightarrow> int"
  aiStart :: int

text \<open>The host of the flag or of the prompt is saved in the profile.\<close>

definition save_host :: "auth_io \<Rightarrow> string \<Rightarrow> MeegleConfig \<Rightarrow> string \<Rightarrow> auth_state \<Rightarrow> (api_error, string) result \<times> auth_state" where
  "save_host io profile cfg host s =
     (if aiConfigWritable io then (Inr host, s\<lparr>asConfig := SaveProfileConfig profile (cfg\<lparr>cfgHost := host\<rparr>) (asConfig s)\<rparr>)
      else (Inl (PlainError ''save config''), s))"

definition resolveHost :: "auth_io \<Rightarrow> string \<Rightarrow> string \<Rightarrow> MeegleConfig \<Rightarrow> auth_state \<Rightarrow> (api_error, string) result \<times> auth_state" where
  "resolveHost io profile hostFlag cfg s =
     (if hostFlag \<noteq> [] then save_host io profile cfg (normalizeHost hostFlag) s
      else if cfgHost cfg \<noteq> [] then (Inr (cfgHost cfg), s)
      else if \<not> aiInteractive io then (Inl (client_failure ''HOST_NOT_CONFIGURED'' ''host not configured''), s)
      else (case aiPrompt io of Inl e \<Rightarrow> (Inl e, s) | Inr host \<Rightarrow> save_host io profile cfg host s))"

section \<open>Login\<close>

record login_flags =
  lfDeviceCode :: bool
  lfHost :: string
  lfPhase :: string
  lfDeviceCodeValue :: string
  lfClientID :: string
  lfInterval :: string
  lfExpiresIn :: string
  lfOnce :: bool

datatype login_outcome =
    LoggedIn
  | DeviceCodeShown DeviceCodeInitResult
  | StillPending poll_status
  | LoginFailed api_error
  | LoginCrash

definition save_token :: "auth_io \<Rightarrow> string \<Rightarrow> TokenData \<Rightarrow> auth_state \<Rightarrow> login_outcome \<times> auth_state" where
  "save_token io profile t s =
     (if aiStoreWritable io
      then ((if aiRenders io then LoggedIn else LoginFailed (PlainError ''render'')),
            s\<lparr>asTokens := (asTokens s)(profile := Some t), asDropped := profile # asDropped s\<rparr>)
      else (LoginFailed (PlainError ''save token''), s))"

text \<open>A number that does not parse, or is not positive, is replaced; beyond the range \<open>Atoi\<close> gives the nearest bound.\<close>

definition positive_or :: "int \<Rightarrow> string \<Rightarrow> int" where
  "positive_or d text_of = (if parse_clamped text_of \<le> 0 then d else parse_clamped text_of)"

definition poll_options :: "login_flags \<Rightarrow> string \<Rightarrow> DeviceCodePollOptions" where
  "poll_options fl host =
     \<lparr>poHost = host, poDeviceCode = lfDeviceCodeValue fl, poClientID = lfClientID fl,
      poInterval = positive_or 5 (lfInterval fl), poExpiresIn = positive_or 600 (lfExpiresIn fl)\<rparr>"

definition run_poll :: "auth_io \<Rightarrow> DeviceCodePollOptions \<Rightarrow> nat \<Rightarrow> (api_error, TokenData) result" where
  "run_poll io opts n =
     (case StartDeviceCodePoll (poll_rounds opts) (lwNet (aiLogin io)) (aiLag io) (aiClock io) (aiStart io) opts n of
        Some ((r, qs), pauses) \<Rightarrow> r
      | None \<Rightarrow> Inl (PlainError ''rounds''))"

definition init_phase :: "auth_io \<Rightarrow> string \<Rightarrow> auth_state \<Rightarrow> login_outcome \<times> auth_state" where
  "init_phase io host s =
     ((case StartDeviceCodeInit (aiLogin io) host of
         None \<Rightarrow> LoginCrash
       | Some (Inl e, qs) \<Rightarrow> LoginFailed e
       | Some (Inr r, qs) \<Rightarrow> (if aiRenders io then DeviceCodeShown r else LoginFailed (PlainError ''render''))), s)"

definition poll_phase :: "auth_io \<Rightarrow> string \<Rightarrow> login_flags \<Rightarrow> string \<Rightarrow> auth_state \<Rightarrow> login_outcome \<times> auth_state" where
  "poll_phase io profile fl host s =
     (if lfOnce fl then
        (case fst (PollDeviceCodeOnce (lwNet (aiLogin io)) (lwNow (aiLogin io)) host (lfDeviceCodeValue fl) (lfClientID fl) 0) of
           Inl e \<Rightarrow> (LoginFailed e, s)
         | Inr (PollOK t) \<Rightarrow> save_token io profile t s
         | Inr status \<Rightarrow> ((if aiRenders io then StillPending status else LoginFailed (PlainError ''render'')), s))
      else (case run_poll io (poll_options fl host) 0 of
              Inl e \<Rightarrow> (LoginFailed e, s)
            | Inr t \<Rightarrow> save_token io profile t s))"

text \<open>\<open>StartDeviceCodeFlow\<close>: initialise, show, poll.\<close>

definition StartDeviceCodeFlow :: "auth_io \<Rightarrow> string \<Rightarrow> (api_error, TokenData) result option" where
  "StartDeviceCodeFlow io host =
     (case StartDeviceCodeInit (aiLogin io) host of
        None \<Rightarrow> None
      | Some (Inl e, qs) \<Rightarrow> Some (Inl e)
      | Some (Inr r, qs) \<Rightarrow>
          Some (run_poll io \<lparr>poHost = host, poDeviceCode = diDeviceCode r, poClientID = diClientID r,
            poInterval = diInterval r, poExpiresIn = diExpiresIn r\<rparr> (length qs)))"

definition runInteractiveLogin :: "auth_io \<Rightarrow> string \<Rightarrow> bool \<Rightarrow> string \<Rightarrow> auth_state \<Rightarrow> login_outcome \<times> auth_state" where
  "runInteractiveLogin io profile deviceCode host s =
     (if \<not> deviceCode \<and> \<not> aiInteractive io
      then (LoginFailed (client_failure ''INTERACTIVE_BROWSER_REQUIRED'' ''the default Authorization Code flow requires an interactive browser callback''), s)
      else (case (if deviceCode then StartDeviceCodeFlow io host else Some (fst (StartAuthCodeFlow (aiLogin io) host))) of
              None \<Rightarrow> (LoginCrash, s)
            | Some (Inl e) \<Rightarrow> (LoginFailed e, s)
            | Some (Inr t) \<Rightarrow> save_token (io\<lparr>aiRenders := True\<rparr>) profile t s))"

definition with_host ::
    "(api_error, string) result \<times> auth_state \<Rightarrow> (string \<Rightarrow> auth_state \<Rightarrow> login_outcome \<times> auth_state) \<Rightarrow> login_outcome \<times> auth_state" where
  "with_host resolved f = (case resolved of (Inl e, s) \<Rightarrow> (LoginFailed e, s) | (Inr host, s) \<Rightarrow> f host s)"

definition effective_login_profile :: "string \<Rightarrow> auth_state \<Rightarrow> string" where
  "effective_login_profile flag s = (if flag = [] then GetCurrentProfileName (asConfig s) else flag)"

definition login_command :: "(json \<Rightarrow> string) \<Rightarrow> auth_io \<Rightarrow> string \<Rightarrow> login_flags \<Rightarrow> auth_state \<Rightarrow> login_outcome \<times> auth_state" where
  "login_command show_any io profileFlag fl s =
     (let profile = effective_login_profile profileFlag s;
          resolved = resolveHost io profile (lfHost fl) (LoadConfig show_any profile (asConfig s)) s
      in if lfPhase fl = ''init'' then
           (if \<not> lfDeviceCode fl then (LoginFailed (client_failure ''INVALID_OPTION'' ''--phase is only available in --device-code mode''), s)
            else with_host resolved (\<lambda>host s'. init_phase io host s'))
         else if lfPhase fl = ''poll'' then
           (if \<not> lfDeviceCode fl then (LoginFailed (client_failure ''INVALID_OPTION'' ''--phase is only available in --device-code mode''), s)
            else if lfDeviceCodeValue fl = [] \<or> lfClientID fl = []
            then (LoginFailed (client_failure ''MISSING_OPTION'' ''--phase poll requires --device-code-value and --client-id''), s)
            else with_host resolved (\<lambda>host s'. poll_phase io profile fl host s'))
         else with_host resolved (\<lambda>host s'. runInteractiveLogin io profile (lfDeviceCode fl) host s'))"

definition logout_command :: "bool \<Rightarrow> string \<Rightarrow> auth_state \<Rightarrow> bool \<times> auth_state" where
  "logout_command clear_works profileFlag s =
     (if clear_works then (True, s\<lparr>asTokens := (asTokens s)(effective_login_profile profileFlag s := None)\<rparr>) else (False, s))"

section \<open>Status\<close>

datatype status_reason = NoLocalToken | TokenRejected | ServerUnreachable string

record StatusResult =
  srAuthenticated :: bool
  srHost :: "string option"
  srExpiresInMinutes :: "int option"
  srReason :: "status_reason option"

text \<open>What the probe of the service ended with: \<open>verifyMCPClient\<close>.\<close>

definition verifyMCPClient :: "call_error option \<Rightarrow> (call_error \<Rightarrow> string) \<Rightarrow> status_reason option" where
  "verifyMCPClient err error_message =
     (case err of
        None \<Rightarrow> None
      | Some e \<Rightarrow> Some (if IsUnauthorized e then TokenRejected else ServerUnreachable (error_message e)))"

definition minutes_left :: "int \<Rightarrow> TokenData option \<Rightarrow> int option" where
  "minutes_left now d =
     (case d of
        Some t \<Rightarrow>
          (if ExpiresAt t > 0
           then Some (if ExpiresAt t - now < 0 then 0 else (ExpiresAt t - now) div 60000) else None)
      | None \<Rightarrow> None)"

definition buildStatusResult ::
    "int \<Rightarrow> TokenData option \<Rightarrow> (ResolvedIdentity \<Rightarrow> status_reason option) \<Rightarrow> ResolvedIdentity \<Rightarrow> StatusResult" where
  "buildStatusResult now kept_token verify i =
     (let host = (if idHost i \<noteq> [] then Some (idHost i) else None) in
      if idToken i = [] then \<lparr>srAuthenticated = False, srHost = host, srExpiresInMinutes = None, srReason = Some NoLocalToken\<rparr>
      else (case verify i of
              Some reason \<Rightarrow> \<lparr>srAuthenticated = False, srHost = host, srExpiresInMinutes = None, srReason = Some reason\<rparr>
            | None \<Rightarrow>
                \<lparr>srAuthenticated = True, srHost = host,
                 srExpiresInMinutes = (if idSource i = SourceStore then minutes_left now kept_token else None), srReason = None\<rparr>))"

definition statusExitCode :: "StatusResult \<Rightarrow> nat" where
  "statusExitCode r =
     (if srAuthenticated r then 0 else (case srReason r of Some (ServerUnreachable e) \<Rightarrow> 2 | _ \<Rightarrow> 1))"

section \<open>What the commands leave\<close>

text \<open>A login that does not succeed stores nothing and drops no cache; one that succeeds stores a token that is not empty.\<close>

definition login_ok :: "string \<Rightarrow> auth_state \<Rightarrow> login_outcome \<times> auth_state \<Rightarrow> bool" where
  "login_ok profile s run =
     (case run of
        (LoggedIn, s') \<Rightarrow>
          (\<exists>t. AccessToken t \<noteq> [] \<and> asTokens s' = (asTokens s)(profile := Some t)) \<and> asDropped s' = profile # asDropped s
      | (out, s') \<Rightarrow> asTokens s' = asTokens s \<and> asDropped s' = asDropped s)"

lemma save_token_ok: "AccessToken t \<noteq> [] \<Longrightarrow> aiRenders io \<Longrightarrow> login_ok profile s (save_token io profile t s)"
  by (auto simp: login_ok_def save_token_def)

lemma run_poll_token: "run_poll io opts n = Inr t \<Longrightarrow> AccessToken t \<noteq> []"
  by (auto simp: run_poll_def StartDeviceCodePoll_def token_for_def split: option.splits prod.splits dest!: poll_loop_token)

lemma code_login_token: "fst (StartAuthCodeFlow w host) = Inr t \<Longrightarrow> AccessToken t \<noteq> []"
  by (auto simp: StartAuthCodeFlow_def code_exchange_def after_def exchangeToken_def exchanged_def token_data_def Let_def
      split: prod.splits sum.splits option.splits if_splits)

lemma init_phase_ok: "login_ok profile s (init_phase io host s)"
  by (auto simp: login_ok_def init_phase_def split: option.splits prod.splits sum.splits)

lemma poll_phase_ok: "aiRenders io \<Longrightarrow> login_ok profile s (poll_phase io profile fl host s)"
proof -
  assume renders: "aiRenders io"
  obtain r qs where once: "PollDeviceCodeOnce (lwNet (aiLogin io)) (lwNow (aiLogin io)) host (lfDeviceCodeValue fl) (lfClientID fl) 0 = (r, qs)"
    by (metis prod.exhaust)
  show ?thesis using PollDeviceCodeOnce_sound[OF once] save_token_ok[OF run_poll_token renders] save_token_ok[OF _ renders] renders
    by (auto simp: poll_phase_def once login_ok_def[of profile s "(LoginFailed e, s)" for e] login_ok_def[of profile s "(StillPending e, s)" for e]
        split: sum.splits poll_status.splits)
qed

lemma interactive_ok: "login_ok profile s (runInteractiveLogin io profile deviceCode host s)"
proof -
  let ?io = "io\<lparr>aiRenders := True\<rparr>"
  have saved: "AccessToken t \<noteq> [] \<Longrightarrow> login_ok profile s (save_token ?io profile t s)" for t by (rule save_token_ok) simp_all
  have device: "StartDeviceCodeFlow io host = Some (Inr t) \<Longrightarrow> AccessToken t \<noteq> []" for t
    by (auto simp: StartDeviceCodeFlow_def dest: run_poll_token split: option.splits prod.splits sum.splits)
  show ?thesis using saved device code_login_token
    by (auto simp: runInteractiveLogin_def login_ok_def[of profile s "(LoginFailed e, s)" for e] login_ok_def[of profile s "(LoginCrash, s)"]
        split: option.splits sum.splits)
qed

lemma with_host_ok:
  assumes "resolved = resolveHost io profile hostFlag cfg s" "\<And>host s'. login_ok profile s' (f host s')"
  shows "login_ok profile s (with_host resolved f)"
proof -
  obtain r s' where res: "resolved = (r, s')" by (cases resolved)
  have kept: "asTokens s' = asTokens s \<and> asDropped s' = asDropped s"
    using assms(1) by (auto simp: res resolveHost_def save_host_def split: if_splits sum.splits)
  show ?thesis
  proof (cases r)
    case (Inl e) then show ?thesis using kept by (simp add: with_host_def res login_ok_def)
  next
    case (Inr host) then show ?thesis using assms(2)[of s' host] kept by (simp add: with_host_def res login_ok_def split: prod.splits login_outcome.splits)
  qed
qed

lemma login_command_ok:
  assumes "aiRenders io" shows "login_ok (effective_login_profile flag s) s (login_command show_any io flag fl s)"
proof -
  note hosts = with_host_ok[OF refl]
  have failed: "login_ok p s (LoginFailed e, s)" for p e by (simp add: login_ok_def)
  show ?thesis using hosts init_phase_ok poll_phase_ok[OF assms] interactive_ok failed
    by (simp add: login_command_def Let_def)
qed

text \<open>The exit code of the status: 0 exactly if the service accepted the token, 2 if it could not be asked.\<close>

lemma status_exit:
  "statusExitCode (buildStatusResult now d verify i) =
     (if idToken i = [] then 1 else (case verify i of None \<Rightarrow> 0 | Some (ServerUnreachable e) \<Rightarrow> 2 | Some reason \<Rightarrow> 1))"
  by (simp add: statusExitCode_def buildStatusResult_def Let_def split: option.split status_reason.split)

end
