(* ===== verification/Url_String.thy ===== *)
theory Url_String
  imports Go_Url
begin

text \<open>
  The other direction of \<open>net/url\<close>: \<open>escape\<close>, \<open>EscapedPath\<close>, \<open>EscapedFragment\<close> and \<open>String\<close> of an absolute
  address that was parsed and whose \<open>Host\<close> was set to another one.  \<open>authority_host\<close> reads the host of an
  address back from its text alone, the way RFC 3986 delimits it.
\<close>

section \<open>Escaping\<close>

text \<open>\<open>shouldEscape\<close> for the modes that \<open>String\<close> writes.\<close>

definition shouldEscape :: "encoding \<Rightarrow> char \<Rightarrow> bool" where
  "shouldEscape mode c =
     (if is_alnum c then False
      else if (mode = encodeHost \<or> mode = encodeZone) \<and> (List.member ''!$&()*+,;=:[]<>'' c \<or> c = CHR 0x27 \<or> c = CHR 0x22)
      then False
      else if List.member ''-_.~'' c then False
      else if List.member ''$&+,/:;=?@'' c then
        (case mode of
           encodePath \<Rightarrow> c = CHR ''?''
         | encodeUserPassword \<Rightarrow> List.member ''@/?:'' c
         | encodeFragment \<Rightarrow> False
         | _ \<Rightarrow> True)
      else if mode = encodeFragment \<and> List.member ''!()*'' c then False
      else True)"

definition hex_digit :: "nat \<Rightarrow> char" where
  "hex_digit n = (if n < 10 then char_of (48 + n) else char_of (55 + n))"

fun escape :: "encoding \<Rightarrow> string \<Rightarrow> string" where
  "escape mode [] = []"
| "escape mode (c # cs) =
     (if shouldEscape mode c
      then (if c = CHR '' '' \<and> mode = encodeQuery then [CHR ''+'']
            else [CHR ''%'', hex_digit (of_char c div 16), hex_digit (of_char c mod 16)])
      else [c]) @ escape mode cs"

definition validEncoded :: "encoding \<Rightarrow> string \<Rightarrow> bool" where
  "validEncoded mode s =
     list_all (\<lambda>c. List.member ''!$&()*+,;=:@[]%'' c \<or> c = CHR 0x27 \<or> \<not> shouldEscape mode c) s"

text \<open>\<open>EscapedPath\<close> and \<open>EscapedFragment\<close>: the text of the address where it is a valid encoding.\<close>

definition escaped_again :: "encoding \<Rightarrow> string \<Rightarrow> string" where
  "escaped_again mode raw =
     (if validEncoded mode raw then raw
      else case unescape mode raw of None \<Rightarrow> [] | Some plain \<Rightarrow> escape mode plain)"

text \<open>\<open>Userinfo.String\<close> of the text before the at sign.\<close>

definition Userinfo_String :: "string \<Rightarrow> string" where
  "Userinfo_String user =
     (let (name, pw, has_pw) = Cut CHR '':'' user;
          again = (\<lambda>s. case unescape encodeUserPassword s of None \<Rightarrow> [] | Some p \<Rightarrow> escape encodeUserPassword p)
      in again name @ (if has_pw then CHR '':'' # again pw else []))"

section \<open>String with another host\<close>

text \<open>
  \<open>parsed.Host = host; parsed.String()\<close> for \<open>parsed\<close> the result of parsing \<open>raw\<close>, an address with a scheme and
  an authority.  A question mark without a query stays (\<open>ForceQuery\<close>).
\<close>

definition String_with_host :: "string \<Rightarrow> string \<Rightarrow> string" where
  "String_with_host raw host =
     (let (u, frag, _) = Cut CHR ''#'' raw in
      case getScheme u [] u of
        None \<Rightarrow> []
      | Some (scheme, rest0) \<Rightarrow>
          (let (rest, query, has_query) = Cut CHR ''?'' rest0;
               authority = takeWhile (\<lambda>c. c \<noteq> CHR ''/'') (drop 2 rest);
               path = dropWhile (\<lambda>c. c \<noteq> CHR ''/'') (drop 2 rest);
               (user, _, has_user) = LastCut CHR ''@'' authority
           in scheme @ ''://'' @ (if has_user then Userinfo_String user @ ''@'' else []) @
              escape encodeHost host @ escaped_again encodePath path @
              (if has_query then CHR ''?'' # query else []) @
              (if frag = [] then [] else CHR ''#'' # escaped_again encodeFragment frag)))"

text \<open>The scheme and the host as they stand in the text of an address.\<close>

definition scheme_text :: "string \<Rightarrow> string" where
  "scheme_text s = takeWhile (\<lambda>c. c \<noteq> CHR '':'') s"

definition ends_authority :: "char \<Rightarrow> bool" where
  "ends_authority c = (c = CHR ''/'' \<or> c = CHR ''?'' \<or> c = CHR ''#'')"

definition authority_text :: "string \<Rightarrow> string" where
  "authority_text s = takeWhile (\<lambda>c. \<not> ends_authority c) (drop (length (scheme_text s) + 3) s)"

definition authority_host :: "string \<Rightarrow> string" where
  "authority_host s =
     (let (user, host, ok) = LastCut CHR ''@'' (authority_text s) in if ok then host else authority_text s)"

section \<open>The host is where it should be\<close>

definition hex_char :: "char \<Rightarrow> bool" where
  "hex_char c = List.member ''0123456789ABCDEF'' c"

lemma hex_digit_char: "n < 16 \<Longrightarrow> hex_char (hex_digit n)"
proof -
  assume "n < 16"
  then have "n \<in> set [0..<16]" by simp
  moreover have "list_all (\<lambda>n. hex_char (hex_digit n)) [0..<16]" by code_simp
  ultimately show ?thesis by (simp only: list_all_iff)
qed

lemma escape_chars:
  "list_all (\<lambda>c. \<not> shouldEscape mode c \<or> c = CHR ''%'' \<or> c = CHR ''+'' \<or> hex_char c) (escape mode s)"
proof (induction s)
  case (Cons c s)
  have "(of_char c :: nat) < 256" by simp
  then have "(of_char c :: nat) div 16 < 16" "(of_char c :: nat) mod 16 < 16"
    by (simp_all add: less_mult_imp_div_less)
  with Cons show ?case by (simp add: hex_digit_char)
qed simp

text \<open>Characters that end an authority or a user part appear neither in an escaped host nor in an escaped user.\<close>

definition delimiter :: "char \<Rightarrow> bool" where
  "delimiter c = (ends_authority c \<or> c = CHR ''@'')"

lemma delimiter_escaped:
  assumes "delimiter c" "mode = encodeHost \<or> mode = encodeUserPassword"
  shows "shouldEscape mode c \<and> c \<noteq> CHR ''%'' \<and> c \<noteq> CHR ''+'' \<and> \<not> hex_char c"
proof -
  have "list_all (\<lambda>c. shouldEscape encodeHost c \<and> shouldEscape encodeUserPassword c \<and> c \<noteq> CHR ''%'' \<and>
      c \<noteq> CHR ''+'' \<and> \<not> hex_char c) [CHR ''/'', CHR ''?'', CHR ''#'', CHR ''@'']" by code_simp
  with assms show ?thesis unfolding delimiter_def ends_authority_def by auto
qed

lemma escape_no_delimiter:
  assumes "mode = encodeHost \<or> mode = encodeUserPassword" shows "list_all (\<lambda>c. \<not> delimiter c) (escape mode s)"
  unfolding list_all_iff
proof
  fix c
  assume "c \<in> set (escape mode s)"
  then have "\<not> shouldEscape mode c \<or> c = CHR ''%'' \<or> c = CHR ''+'' \<or> hex_char c"
    using escape_chars[of mode s] by (simp only: list_all_iff)
  then show "\<not> delimiter c" using delimiter_escaped[OF _ assms] by blast
qed

lemma Userinfo_no_delimiter: "list_all (\<lambda>c. \<not> delimiter c) (Userinfo_String user)"
proof -
  have "\<not> delimiter CHR '':''" by (simp add: delimiter_def ends_authority_def)
  then show ?thesis using escape_no_delimiter[of encodeUserPassword]
    by (simp add: Userinfo_String_def Let_def split: prod.split option.split)
qed

lemma lower_colon: "lower_char c = CHR '':'' \<Longrightarrow> c = CHR '':''"
  by (auto simp: lower_char_def less_eq_char_def of_char_of dest!: arg_cong[where f = "of_char :: char \<Rightarrow> nat"] split: if_splits)

lemma getScheme_no_colon:
  "getScheme whole acc s = Some (scheme, rest) \<Longrightarrow> CHR '':'' \<notin> set acc \<Longrightarrow> CHR '':'' \<notin> set scheme"
proof (induction whole acc s rule: getScheme.induct)
  case (2 whole acc c cs)
  have colon: "\<not> is_alnum CHR '':''" "\<not> is_digit CHR '':''" by code_simp+
  show ?case
  proof (cases "c = CHR '':''")
    case True
    with 2 colon show ?thesis by (auto simp: ToLower_def dest: lower_colon[OF sym] split: if_splits)
  next
    case False
    with 2 show ?thesis by (auto split: if_splits)
  qed
qed auto

lemma escaped_again_path:
  "path = [] \<or> List.hd path = CHR ''/'' \<Longrightarrow> escaped_again encodePath path = [] \<or> List.hd (escaped_again encodePath path) = CHR ''/''"
proof -
  assume p: "path = [] \<or> List.hd path = CHR ''/''"
  have "plain = [] \<or> List.hd plain = CHR ''/''" if "unescape encodePath path = Some plain" for plain
    using p that by (cases path) (auto simp: cons_opt_def split: if_splits)
  moreover have "\<not> shouldEscape encodePath CHR ''/''" by code_simp
  ultimately have "escape encodePath plain = [] \<or> List.hd (escape encodePath plain) = CHR ''/''"
    if "unescape encodePath path = Some plain" for plain
    using that by (cases plain) auto
  with p show ?thesis by (auto simp: escaped_again_def split: option.split)
qed

lemma dropWhile_hd: "dropWhile (\<lambda>c. c \<noteq> d) s = [] \<or> List.hd (dropWhile (\<lambda>c. c \<noteq> d) s) = d"
  by (induction s) simp_all

lemma takeWhile_stops:
  "list_all P xs \<Longrightarrow> ys = [] \<or> \<not> P (List.hd ys) \<Longrightarrow> takeWhile P (xs @ ys) = xs"
  by (cases ys) (auto simp: list_all_iff takeWhile_append2)

lemma LastCut_at: "CHR ''@'' \<notin> set h \<Longrightarrow> LastCut CHR ''@'' (u @ ''@'' @ h) = (u, h, True)"
  using Cut_append[of "CHR ''@''" "rev h" "rev u"] by (simp add: LastCut_def)

lemma LastCut_none: "CHR ''@'' \<notin> set h \<Longrightarrow> LastCut CHR ''@'' h = (h, [], False)"
  using Cut_absent[of "CHR ''@''" "rev h"] by (simp add: LastCut_def)

lemma authority_host_text:
  assumes scheme: "CHR '':'' \<notin> set scheme" and user: "user = [] \<or> (\<exists>v. user = v @ ''@'' \<and> list_all (\<lambda>c. \<not> delimiter c) v)"
    and host: "list_all (\<lambda>c. \<not> delimiter c) host" and rest: "rest = [] \<or> ends_authority (List.hd rest)"
  shows "scheme_text (scheme @ ''://'' @ user @ host @ rest) = scheme \<and>
    authority_host (scheme @ ''://'' @ user @ host @ rest) = host"
proof -
  let ?s = "scheme @ ''://'' @ user @ host @ rest"
  have s: "scheme_text ?s = scheme"
    unfolding scheme_text_def using scheme by (intro takeWhile_stops) (auto simp: list_all_iff)
  have "list_all (\<lambda>c. \<not> ends_authority c) (user @ host)"
  proof -
    have "list_all (\<lambda>c. \<not> ends_authority c) host" using host by (simp add: list_all_iff delimiter_def)
    moreover have "list_all (\<lambda>c. \<not> ends_authority c) user"
      using user by (elim disjE exE conjE) (simp_all add: list_all_iff delimiter_def ends_authority_def[of "CHR ''@''"])
    ultimately show ?thesis by simp
  qed
  then have "takeWhile (\<lambda>c. \<not> ends_authority c) ((user @ host) @ rest) = user @ host"
    using rest by (intro takeWhile_stops) auto
  then have a: "authority_text ?s = user @ host" unfolding authority_text_def s by simp
  have h: "CHR ''@'' \<notin> set host" using host delimiter_def[of "CHR ''@''"] by (simp only: list_all_iff) blast
  have "authority_host ?s = host" unfolding authority_host_def a using user LastCut_at[OF h] LastCut_none[OF h] by auto
  with s show ?thesis by simp
qed

text \<open>The address that is written has the scheme of the one that was parsed, and the given host.\<close>

lemma String_with_host_text:
  assumes "url_Parse raw = Some u" "urlScheme u \<noteq> []"
  shows "scheme_text (String_with_host raw host) = urlScheme u \<and>
    authority_host (String_with_host raw host) = escape encodeHost host"
proof -
  obtain front frag has where cut: "Cut CHR ''#'' raw = (front, frag, has)" by (metis prod_cases3)
  have "front \<noteq> ''*''" using assms cut by (auto simp: url_Parse_def split: if_splits)
  with assms(1) cut obtain scheme rest0 where gs: "getScheme front [] front = Some (scheme, rest0)"
    by (auto simp: url_Parse_def split: if_splits option.splits)
  obtain rest query hq where cq: "Cut CHR ''?'' rest0 = (rest, query, hq)" by (metis prod_cases3)
  have "parse_rest scheme rest query = Some u"
    using assms(1) cut gs cq \<open>front \<noteq> ''*''\<close> by (auto simp: url_Parse_def split: if_splits)
  then have sch: "urlScheme u = scheme"
    by (auto simp: parse_rest_def Let_def split: if_splits option.splits)
  define path where "path = dropWhile (\<lambda>c. c \<noteq> CHR ''/'') (drop 2 rest)"
  obtain user h hu where lc: "LastCut CHR ''@'' (takeWhile (\<lambda>c. c \<noteq> CHR ''/'') (drop 2 rest)) = (user, h, hu)"
    by (metis prod_cases3)
  have "path = [] \<or> List.hd path = CHR ''/''" unfolding path_def by (rule dropWhile_hd)
  note p = escaped_again_path[OF this]
  let ?rest = "escaped_again encodePath path @ (if hq then CHR ''?'' # query else []) @
     (if frag = [] then [] else CHR ''#'' # escaped_again encodeFragment frag)"
  let ?user = "if hu then Userinfo_String user @ ''@'' else []"
  have r: "?rest = [] \<or> ends_authority (List.hd ?rest)"
    using p by (cases "escaped_again encodePath path") (auto simp: ends_authority_def)
  have w: "?user = [] \<or> (\<exists>v. ?user = v @ ''@'' \<and> list_all (\<lambda>c. \<not> delimiter c) v)"
    using Userinfo_no_delimiter[of user] by auto
  have "String_with_host raw host = scheme @ ''://'' @ ?user @ escape encodeHost host @ ?rest"
    by (simp add: String_with_host_def cut gs cq lc path_def)
  with authority_host_text[OF getScheme_no_colon[OF gs] w escape_no_delimiter r, of encodeHost host] sch
  show ?thesis by simp
qed

text \<open>A host of plain characters is written as it is.\<close>

lemma escape_plain: "list_all (\<lambda>c. \<not> shouldEscape mode c) s \<Longrightarrow> escape mode s = s"
  by (induction s) simp_all

end
