(* ===== verification/Cli_Runtime.thy ===== *)
theory Cli_Runtime
  imports Execution Cli_Client Url_String
begin

text \<open>
  The commands of the AI handoff (\<open>internal/products/meegle/cliapi_runtime.go\<close>) over the client of the CLI API, with
  the cached configuration of the service (\<open>cli_config_provider.go\<close>, \<open>cli_config_cache.go\<close>).

  A command runs with what its session left, the environment and the network; the cache files are its state.
  The JSON codec is an argument.  The seams for tests
  (\<open>ClientFactory\<close>, \<open>ConfigProviderFactory\<close>) are not set.
\<close>

section \<open>The cached configuration\<close>

definition DefaultCLIConfigTTL :: int where "DefaultCLIConfigTTL = 3600000"

record cliConfigCacheData =
  ccdTimestamp :: int
  ccdConfig :: "CLIConfig option"

type_synonym cli_cache = "string \<Rightarrow> cliConfigCacheData option"

text \<open>What the file keeps of a configuration: the log ids are not written.\<close>

definition persisted :: "CLIConfig \<Rightarrow> CLIConfig" where
  "persisted a = a\<lparr>ccLogID := [], ccHandoff := (ccHandoff a)\<lparr>avLogID := []\<rparr>\<rparr>"

definition CLIConfigCache_Get :: "int \<Rightarrow> cliConfigCacheData option \<Rightarrow> (CLIConfig \<times> bool) option" where
  "CLIConfigCache_Get now content =
     (case jsonFileCache_Get now DefaultCLIConfigTTL ccdTimestamp content of
        None \<Rightarrow> None
      | Some c \<Rightarrow> map_option (\<lambda>a. (a, cachedStale c)) (ccdConfig (cachedValue c)))"

definition CLIConfigCache_Set :: "int \<Rightarrow> CLIConfig \<Rightarrow> cliConfigCacheData" where
  "CLIConfigCache_Set now a = \<lparr>ccdTimestamp = now, ccdConfig = Some (persisted a)\<rparr>"

section \<open>Commands\<close>

record 'f cli_io =
  ioHandoffEnv :: string
  ioSession :: "session_config option"
  ioCurrentProfile :: string
  ioBuild :: string
  ioApi :: api_env
  ioKey :: string
  ioNow :: int
  ioSetWorks :: bool
  ioClearWorks :: bool
  ioReadJson :: "string \<Rightarrow> (json \<times> string) option"
  ioMarshal :: "'f any \<Rightarrow> string option"
  ioFloatText :: "'f \<Rightarrow> string"
  ioEncode :: "json \<Rightarrow> string"

datatype local_data =
    AvailabilityData Availability
  | LinkData CreateLinkResponse
  | PreferenceData PreferenceUpdateResult
  | DryRunData string string "json option"

record local_result =
  lrData :: local_data
  lrTool :: string
  lrCommand :: string
  lrBackend :: string
  lrLogID :: string

datatype cli_outcome = Shown local_result | CliFailure api_error | CliPanic | NoOutcome

type_synonym cli_run = "cli_outcome \<times> api_event list \<times> cli_cache"

text \<open>The modes of the preference, by handler.\<close>

definition preference_mode :: "string \<Rightarrow> string option" where
  "preference_mode ref =
     (if ref = ''meegle.local.preference.handoff.auto'' then Some ''auto''
      else if ref = ''meegle.local.preference.handoff.ask'' then Some ''ask''
      else if ref = ''meegle.local.preference.handoff.off'' then Some ''off'' else None)"

definition localResult :: "local_data \<Rightarrow> BuiltNode \<Rightarrow> 'f ParsedCommand \<Rightarrow> string \<Rightarrow> local_result" where
  "localResult data n c logID =
     \<lparr>lrData = data, lrTool = bnHandler n, lrCommand = Join '' '' (FullPath c),
      lrBackend = text_at (Tags (bnMeta n)) ''executor_kind'', lrLogID = TrimSpace logID\<rparr>"

definition isHandoffHandler :: "'f ParsedCommand \<Rightarrow> bool" where
  "isHandoffHandler c =
     (case cmdNode c of
        None \<Rightarrow> False
      | Some n \<Rightarrow> bnHandler n = handlerHandoffAvailability \<or> bnHandler n = handlerHandoffCreateLink)"

definition isAIHandoffLocallyDisabled :: "'f cli_io \<Rightarrow> bool" where
  "isAIHandoffLocallyDisabled io = (ToLower (TrimSpace (ioHandoffEnv io)) = ''disabled'')"

text \<open>\<open>session\<close> is the session step.\<close>

definition cli_PrepareSession :: "'f cli_io \<Rightarrow> bool \<Rightarrow> 'f ParsedCommand \<Rightarrow> session_result \<Rightarrow> session_result" where
  "cli_PrepareSession io injected c session =
     (if injected then SessionSkipped
      else if isHandoffHandler c \<and> isAIHandoffLocallyDisabled io then SessionSkipped
      else session)"

definition resolveCacheProfile :: "'f cli_io \<Rightarrow> 'f ParsedCommand \<Rightarrow> string" where
  "resolveCacheProfile io c =
     (let fromSession = (case ioSession io of Some s \<Rightarrow> scProfile s | None \<Rightarrow> []);
          fromFlag = (case map_of (Flags c) ''profile'' of Some (VString p) \<Rightarrow> p | _ \<Rightarrow> [])
      in if fromSession \<noteq> [] then fromSession else if fromFlag \<noteq> [] then fromFlag else ioCurrentProfile io)"

definition cache_file :: "'f cli_io \<Rightarrow> 'f ParsedCommand \<Rightarrow> string" where
  "cache_file io c = cache_filename ''cli-config'' (resolveCacheProfile io c)"

definition api_headers :: "session_config \<Rightarrow> header" where
  "api_headers s =
     fold (\<lambda>(k, v). Header_Set k v)
       (filter (\<lambda>(k, v). \<not> (ToLower k = ''authorization'' \<or> scHeader s \<noteq> [] \<and> ToLower k = ToLower (scHeader s))) (scHeaders s)) []"

definition no_session :: session_config where
  "no_session = \<lparr>scHost = [], scToken = [], scHeaders = [], scSource = SourceUnset, scHeader = [], scProfile = [], scAgent = [], scManaged = False\<rparr>"

definition newCLIAPIClientFromState :: "'f cli_io \<Rightarrow> api_client" where
  "newCLIAPIClientFromState io =
     (let s = (case ioSession io of Some s \<Rightarrow> s | None \<Rightarrow> no_session)
      in \<lparr>acBaseURL = GetAPIBaseURL (empty_config\<lparr>cfgHost := scHost s\<rparr>),
          acToken = (if scManaged s then ManagedToken else FixedToken (scToken s)),
          acRefresh = scManaged s, acHeaders = api_headers s, acAuthHeader = scHeader s,
          acUserAgent = (if scAgent s \<noteq> [] then scAgent s else UserAgentForVersion (ioBuild io) []),
          acMaxRetries = 0, acRetryBackoff = 0\<rparr>)"

text \<open>\<open>CLIConfigProvider\<close>: a fresh entry of the cache, else the service, whose answer is cached.\<close>

definition provider_Get ::
    "'f cli_io \<Rightarrow> 'f ParsedCommand \<Rightarrow> cli_cache \<Rightarrow> (api_error option \<times> CLIConfig) option \<times> api_event list \<times> cli_cache" where
  "provider_Get io c cache =
     (case CLIConfigCache_Get (ioNow io) (cache (cache_file io c)) of
        Some (a, False) \<Rightarrow> (Some (None, a), [], cache)
      | _ \<Rightarrow>
          (case client_Config (newCLIAPIClientFromState io) (ioApi io) of
             None \<Rightarrow> (None, [], cache)
           | Some ((Some e, a), ev) \<Rightarrow> (Some (Some e, a), ev, cache)
           | Some ((None, a), ev) \<Rightarrow>
               (Some (None, a), ev,
                if ioSetWorks io then cache(cache_file io c := Some (CLIConfigCache_Set (ioNow io) a)) else cache)))"

definition provider_Clear :: "'f cli_io \<Rightarrow> 'f ParsedCommand \<Rightarrow> cli_cache \<Rightarrow> cli_cache" where
  "provider_Clear io c cache = (if ioClearWorks io then cache(cache_file io c := None) else cache)"

section \<open>Related context\<close>

record ProjectContext = pcProjectKey :: string
record WorkItemContext = wcProjectKey :: string wcTypeKey :: string wcID :: string
record ViewContext = vcProjectKey :: string vcTypeKey :: string vcViewID :: string
record MeasureChartContext = mcProjectKey :: string mcChartID :: string

record RelatedContext =
  rcType :: int
  rcProject :: "ProjectContext option"
  rcWorkItem :: "WorkItemContext option"
  rcView :: "ViewContext option"
  rcMeasureChart :: "MeasureChartContext option"

definition decode_int32 :: "json \<Rightarrow> int \<Rightarrow> int option" where
  "decode_int32 v old =
     (case decode_int v old of Some i \<Rightarrow> (if - 2147483648 \<le> i \<and> i \<le> 2147483647 then Some i else None) | None \<Rightarrow> None)"

text \<open>A field that the struct does not have is an error.\<close>

definition project_field :: "string \<Rightarrow> json \<Rightarrow> ProjectContext \<Rightarrow> ProjectContext option" where
  "project_field k v a =
     (if k = ''project_key'' then map_option (\<lambda>s. a\<lparr>pcProjectKey := s\<rparr>) (decode_text v (pcProjectKey a)) else None)"

definition work_item_field :: "string \<Rightarrow> json \<Rightarrow> WorkItemContext \<Rightarrow> WorkItemContext option" where
  "work_item_field k v a =
     (if k = ''project_key'' then map_option (\<lambda>s. a\<lparr>wcProjectKey := s\<rparr>) (decode_text v (wcProjectKey a))
      else if k = ''work_item_type_key'' then map_option (\<lambda>s. a\<lparr>wcTypeKey := s\<rparr>) (decode_text v (wcTypeKey a))
      else if k = ''work_item_id'' then map_option (\<lambda>s. a\<lparr>wcID := s\<rparr>) (decode_text v (wcID a))
      else None)"

definition view_field :: "string \<Rightarrow> json \<Rightarrow> ViewContext \<Rightarrow> ViewContext option" where
  "view_field k v a =
     (if k = ''project_key'' then map_option (\<lambda>s. a\<lparr>vcProjectKey := s\<rparr>) (decode_text v (vcProjectKey a))
      else if k = ''work_item_type_key'' then map_option (\<lambda>s. a\<lparr>vcTypeKey := s\<rparr>) (decode_text v (vcTypeKey a))
      else if k = ''view_id'' then map_option (\<lambda>s. a\<lparr>vcViewID := s\<rparr>) (decode_text v (vcViewID a))
      else None)"

definition chart_field :: "string \<Rightarrow> json \<Rightarrow> MeasureChartContext \<Rightarrow> MeasureChartContext option" where
  "chart_field k v a =
     (if k = ''project_key'' then map_option (\<lambda>s. a\<lparr>mcProjectKey := s\<rparr>) (decode_text v (mcProjectKey a))
      else if k = ''chart_id'' then map_option (\<lambda>s. a\<lparr>mcChartID := s\<rparr>) (decode_text v (mcChartID a))
      else None)"

definition context_item_field :: "string \<Rightarrow> json \<Rightarrow> RelatedContext \<Rightarrow> RelatedContext option" where
  "context_item_field k v a =
     (if k = ''type'' then map_option (\<lambda>i. a\<lparr>rcType := i\<rparr>) (decode_int32 v (rcType a))
      else if k = ''project'' then map_option (\<lambda>x. a\<lparr>rcProject := x\<rparr>) (decode_pointer project_field \<lparr>pcProjectKey = []\<rparr> v (rcProject a))
      else if k = ''work_item''
      then map_option (\<lambda>x. a\<lparr>rcWorkItem := x\<rparr>) (decode_pointer work_item_field \<lparr>wcProjectKey = [], wcTypeKey = [], wcID = []\<rparr> v (rcWorkItem a))
      else if k = ''view''
      then map_option (\<lambda>x. a\<lparr>rcView := x\<rparr>) (decode_pointer view_field \<lparr>vcProjectKey = [], vcTypeKey = [], vcViewID = []\<rparr> v (rcView a))
      else if k = ''measure_chart''
      then map_option (\<lambda>x. a\<lparr>rcMeasureChart := x\<rparr>) (decode_pointer chart_field \<lparr>mcProjectKey = [], mcChartID = []\<rparr> v (rcMeasureChart a))
      else None)"

definition no_context :: RelatedContext where
  "no_context = \<lparr>rcType = 0, rcProject = None, rcWorkItem = None, rcView = None, rcMeasureChart = None\<rparr>"

definition decode_context_item :: "json \<Rightarrow> RelatedContext option" where
  "decode_context_item v = decode_struct context_item_field v no_context"

text \<open>One value and nothing behind it.\<close>

definition decodeStrictJSON :: "(string \<Rightarrow> (json \<times> string) option) \<Rightarrow> (json \<Rightarrow> 'a option) \<Rightarrow> string \<Rightarrow> (string, 'a) result" where
  "decodeStrictJSON read decode payload =
     (case read payload of
        None \<Rightarrow> Inl ''invalid JSON''
      | Some (v, rest) \<Rightarrow>
          (case decode v of
             None \<Rightarrow> Inl ''JSON of another type''
           | Some a \<Rightarrow>
               (if rest = [] then Inr a
                else if read rest \<noteq> None then Inl ''multiple JSON values are not allowed'' else Inl ''invalid JSON'')))"

definition decode_context_list :: "json \<Rightarrow> RelatedContext list option" where
  "decode_context_list v = (case v of JArray vs \<Rightarrow> all_some (map decode_context_item vs) | JNull \<Rightarrow> Some [] | _ \<Rightarrow> None)"

fun requireContextFields :: "(string \<times> string) list \<Rightarrow> string option" where
  "requireContextFields [] = None"
| "requireContextFields ((name, v) # fs) = (if v = [] then Some (name @ '' is required'') else requireContextFields fs)"

definition payload_count :: "RelatedContext \<Rightarrow> nat" where
  "payload_count a = length (filter (\<lambda>b. b) [rcProject a \<noteq> None, rcWorkItem a \<noteq> None, rcView a \<noteq> None, rcMeasureChart a \<noteq> None])"

definition trim_project :: "ProjectContext \<Rightarrow> ProjectContext" where
  "trim_project p = p\<lparr>pcProjectKey := TrimSpace (pcProjectKey p)\<rparr>"

definition trim_work_item :: "WorkItemContext \<Rightarrow> WorkItemContext" where
  "trim_work_item p = p\<lparr>wcProjectKey := TrimSpace (wcProjectKey p), wcTypeKey := TrimSpace (wcTypeKey p), wcID := TrimSpace (wcID p)\<rparr>"

definition trim_view :: "ViewContext \<Rightarrow> ViewContext" where
  "trim_view p = p\<lparr>vcProjectKey := TrimSpace (vcProjectKey p), vcTypeKey := TrimSpace (vcTypeKey p), vcViewID := TrimSpace (vcViewID p)\<rparr>"

definition trim_chart :: "MeasureChartContext \<Rightarrow> MeasureChartContext" where
  "trim_chart p = p\<lparr>mcProjectKey := TrimSpace (mcProjectKey p), mcChartID := TrimSpace (mcChartID p)\<rparr>"

definition checked_item :: "RelatedContext \<Rightarrow> (string \<times> string) list \<Rightarrow> (string, RelatedContext) result" where
  "checked_item a fs = (case requireContextFields fs of Some e \<Rightarrow> Inl e | None \<Rightarrow> Inr a)"

definition normalizeRelatedContextItem :: "RelatedContext \<Rightarrow> (string, RelatedContext) result" where
  "normalizeRelatedContextItem a =
     (if payload_count a \<noteq> 1 then Inl (''exactly one context payload is required, got '' @ show_nat (payload_count a))
      else if rcType a = 1 then
        (case rcProject a of
           None \<Rightarrow> Inl ''type Project requires project payload''
         | Some p \<Rightarrow> (let p' = trim_project p in checked_item (a\<lparr>rcProject := Some p'\<rparr>) [(''project_key'', pcProjectKey p')]))
      else if rcType a = 3 then
        (case rcWorkItem a of
           None \<Rightarrow> Inl ''type WorkItem requires work_item payload''
         | Some p \<Rightarrow>
             (let p' = trim_work_item p
              in checked_item (a\<lparr>rcWorkItem := Some p'\<rparr>)
                   [(''project_key'', wcProjectKey p'), (''work_item_type_key'', wcTypeKey p'), (''work_item_id'', wcID p')]))
      else if rcType a = 4 then
        (case rcView a of
           None \<Rightarrow> Inl ''type View requires view payload''
         | Some p \<Rightarrow>
             (let p' = trim_view p
              in checked_item (a\<lparr>rcView := Some p'\<rparr>) [(''project_key'', vcProjectKey p'), (''view_id'', vcViewID p')]))
      else if rcType a = 5 then
        (case rcMeasureChart a of
           None \<Rightarrow> Inl ''type MeasureChart requires measure_chart payload''
         | Some p \<Rightarrow>
             (let p' = trim_chart p
              in checked_item (a\<lparr>rcMeasureChart := Some p'\<rparr>) [(''project_key'', mcProjectKey p'), (''chart_id'', mcChartID p')]))
      else Inl (''unsupported context type '' @ show_int (rcType a)))"

fun normalize_from :: "nat \<Rightarrow> RelatedContext list \<Rightarrow> (string, RelatedContext list) result" where
  "normalize_from i [] = Inr []"
| "normalize_from i (a # as) =
     (case normalizeRelatedContextItem a of
        Inl e \<Rightarrow> Inl (''related_context['' @ show_nat i @ '']: '' @ e)
      | Inr b \<Rightarrow> (case normalize_from (Suc i) as of Inl e \<Rightarrow> Inl e | Inr bs \<Rightarrow> Inr (b # bs)))"

definition decodeRelatedContextJSON :: "'f cli_io \<Rightarrow> string \<Rightarrow> (string, RelatedContext list) result" where
  "decodeRelatedContextJSON io payload =
     (let trimmed = TrimSpace payload in
      if trimmed = [] then Inr []
      else if HasPrefix trimmed ''['' then
        (case decodeStrictJSON (ioReadJson io) decode_context_list trimmed of Inl e \<Rightarrow> Inl e | Inr as \<Rightarrow> normalize_from 0 as)
      else (case decodeStrictJSON (ioReadJson io) decode_context_item trimmed of Inl e \<Rightarrow> Inl e | Inr a \<Rightarrow> normalize_from 0 [a]))"

fun decode_each :: "'f cli_io \<Rightarrow> string list \<Rightarrow> (string, RelatedContext list) result" where
  "decode_each io [] = Inr []"
| "decode_each io (s # ss) =
     (case decodeRelatedContextJSON io s of
        Inl e \<Rightarrow> Inl e
      | Inr as \<Rightarrow> (case decode_each io ss of Inl e \<Rightarrow> Inl e | Inr bs \<Rightarrow> Inr (as @ bs)))"

definition parseRelatedContext :: "'f cli_io \<Rightarrow> 'f any option \<Rightarrow> (string, RelatedContext list) result" where
  "parseRelatedContext io v =
     (case v of
        None \<Rightarrow> Inr []
      | Some VNil \<Rightarrow> Inr []
      | Some (VString s) \<Rightarrow> (if TrimSpace s = [] then Inr [] else decodeRelatedContextJSON io s)
      | Some (VStrings ss) \<Rightarrow> decode_each io ss
      | Some w \<Rightarrow>
          (case ioMarshal io w of
             None \<Rightarrow> Inl ''encode structured value''
           | Some payload \<Rightarrow> decodeRelatedContextJSON io payload))"

section \<open>Creating a link\<close>

record CreateLinkRequest =
  clUserQuery :: string
  clRelated :: "RelatedContext list"

definition buildCreateLinkRequest :: "'f cli_io \<Rightarrow> 'f value_map \<Rightarrow> (meegle_error, CreateLinkRequest) result" where
  "buildCreateLinkRequest io vals =
     (let query = stringValue (ioFloatText io) (map_of vals ''query'') in
      if query = [] then Inl (NewClientError ''CLIENT_INVALID_QUERY'' ''invalid --query: value is required'')
      else (case parseRelatedContext io (map_of vals ''related-context'') of
              Inl e \<Rightarrow> Inl (NewClientError ''CLIENT_INVALID_RELATED_CONTEXT'' (''invalid --related-context: '' @ e))
            | Inr items \<Rightarrow> Inr \<lparr>clUserQuery = query, clRelated = items\<rparr>))"

definition optional_member :: "string \<Rightarrow> json option \<Rightarrow> json_object" where
  "optional_member k v = (case v of None \<Rightarrow> [] | Some j \<Rightarrow> [(k, j)])"

definition optional_text :: "string \<Rightarrow> string \<Rightarrow> json_object" where
  "optional_text k s = (if s = [] then [] else [(k, JString s)])"

definition context_json :: "RelatedContext \<Rightarrow> json" where
  "context_json a = JObject
     ((''type'', JNumber (show_int (rcType a))) #
      optional_member ''project'' (map_option (\<lambda>p. JObject [(''project_key'', JString (pcProjectKey p))]) (rcProject a)) @
      optional_member ''work_item'' (map_option (\<lambda>p. JObject
        [(''project_key'', JString (wcProjectKey p)), (''work_item_type_key'', JString (wcTypeKey p)), (''work_item_id'', JString (wcID p))])
        (rcWorkItem a)) @
      optional_member ''view'' (map_option (\<lambda>p. JObject
        ((''project_key'', JString (vcProjectKey p)) # optional_text ''work_item_type_key'' (vcTypeKey p) @ [(''view_id'', JString (vcViewID p))]))
        (rcView a)) @
      optional_member ''measure_chart'' (map_option (\<lambda>p. JObject
        [(''project_key'', JString (mcProjectKey p)), (''chart_id'', JString (mcChartID p))]) (rcMeasureChart a)))"

definition request_json :: "CreateLinkRequest \<Rightarrow> json" where
  "request_json r = JObject
     ((''user_query'', JString (clUserQuery r)) #
      (if clRelated r = [] then [] else [(''related_context'', JArray (map context_json (clRelated r)))]))"

definition misconfigured :: "string \<Rightarrow> api_error" where
  "misconfigured msg = MeegleErr (NewClientError ''CLIENT_MISCONFIGURED'' msg)"

definition invalid_response :: "string \<Rightarrow> api_error" where
  "invalid_response msg = MeegleErr (NewServerError ''HANDOFF_API_INVALID_RESPONSE'' msg)"

text \<open>The host the user logged in to.  A user part shows as a \<open>@\<close> in the authority; \<open>Fragment\<close> as what follows a \<open>#\<close>.\<close>

definition bare_host :: "string \<Rightarrow> string option" where
  "bare_host host =
     (case url_Parse (''//'' @ host) of
        None \<Rightarrow> None
      | Some u \<Rightarrow>
          (let (front, frag, has) = Cut CHR ''#'' host in
           if urlHost u = [] \<or> CHR ''@'' \<in> set front \<or> urlPath u \<noteq> [] \<or> urlRawQuery u \<noteq> [] \<or> frag \<noteq> [] then None
           else Some (urlHost u)))"

definition activeLoginHost :: "'f cli_io \<Rightarrow> (api_error, string) result" where
  "activeLoginHost io =
     (let host = (case ioSession io of None \<Rightarrow> [] | Some s \<Rightarrow> TrimSpace (sanitizeHost (TrimSpace (scHost s)))) in
      if host = [] then Inl (misconfigured ''active login host is unavailable'')
      else (case bare_host host of None \<Rightarrow> Inl (misconfigured ''active login host is invalid'') | Some h \<Rightarrow> Inr h))"

definition replaceURLHost :: "string \<Rightarrow> string \<Rightarrow> (string, string) result" where
  "replaceURLHost raw host =
     (case url_Parse (TrimSpace raw) of
        None \<Rightarrow> Inl ''parse''
      | Some u \<Rightarrow>
          (if urlScheme u = [] \<or> urlHost u = [] then Inl ''URL must be absolute''
           else Inr (String_with_host (TrimSpace raw) host)))"

definition handoffRejectedError :: "string \<Rightarrow> string \<Rightarrow> string \<Rightarrow> api_error" where
  "handoffRejectedError rawCode rawMessage logID =
     (let code = (if TrimSpace rawCode = [] then ''UNKNOWN'' else TrimSpace rawCode);
          message = (if TrimSpace rawMessage = [] then code else TrimSpace rawMessage);
          e = WithLogID logID (NewClientError ''HANDOFF_REJECTED'' (''AI handoff was rejected: '' @ message))
      in MeegleErr (if code = ''USER_DISABLED''
           then e\<lparr>meSuggestion := ''run 'meegle preference handoff auto' or 'meegle preference handoff ask' to enable recommendations''\<rparr>
           else e))"

definition disabled_availability :: Availability where
  "disabled_availability = no_availability\<lparr>avRejectCode := ''LOCAL_DISABLED'',
     avRejectMsg := ''AI handoff is disabled in this installation environment''\<rparr>"

definition disabled_link :: CreateLinkResponse where
  "disabled_link = \<lparr>clAvailable = False, clExpiresAt = 0, clRejectCode = ''LOCAL_DISABLED'',
     clRejectMsg = ''AI handoff is disabled in this installation environment'', clURL = [], clLogID = []\<rparr>"

definition show_availability :: "'f cli_io \<Rightarrow> BuiltNode \<Rightarrow> 'f ParsedCommand \<Rightarrow> cli_cache \<Rightarrow> cli_run" where
  "show_availability io n c cache =
     (if isDryRun c
      then (Shown (localResult (DryRunData ''GET'' ''/goapi/v5/meeglecli/config'' None) n c []), [], cache)
      else (case provider_Get io c cache of
              (None, ev, cache') \<Rightarrow> (CliPanic, ev, cache')
            | (Some (Some e, a), ev, cache') \<Rightarrow> (CliFailure e, ev, cache')
            | (Some (None, a), ev, cache') \<Rightarrow> (Shown (localResult (AvailabilityData (ccHandoff a)) n c (ccLogID a)), ev, cache')))"

text \<open>What the command makes of the answer to a request for a link.\<close>

definition link_outcome ::
    "'f cli_io \<Rightarrow> BuiltNode \<Rightarrow> 'f ParsedCommand \<Rightarrow> CreateLinkResponse \<Rightarrow> cli_cache \<Rightarrow> cli_outcome \<times> cli_cache" where
  "link_outcome io n c a cache =
     (if \<not> clAvailable a then (CliFailure (handoffRejectedError (clRejectCode a) (clRejectMsg a) (clLogID a)), provider_Clear io c cache)
      else if TrimSpace (clURL a) = [] then (CliFailure (invalid_response ''handoff API returned no URL''), cache)
      else (case activeLoginHost io of
              Inl e \<Rightarrow> (CliFailure e, cache)
            | Inr host \<Rightarrow>
                (case replaceURLHost (clURL a) host of
                   Inl e \<Rightarrow> (CliFailure (invalid_response (''handoff API returned an invalid URL: '' @ e)), cache)
                 | Inr url \<Rightarrow> (Shown (localResult (LinkData (a\<lparr>clURL := url\<rparr>)) n c (clLogID a)), cache))))"

definition create_link :: "'f cli_io \<Rightarrow> BuiltNode \<Rightarrow> 'f ParsedCommand \<Rightarrow> 'f value_map \<Rightarrow> cli_cache \<Rightarrow> cli_run" where
  "create_link io n c vals cache =
     (case buildCreateLinkRequest io vals of
        Inl e \<Rightarrow> (CliFailure (MeegleErr e), [], cache)
      | Inr request \<Rightarrow>
          (if isDryRun c
           then (Shown (localResult (DryRunData ''POST'' ''/goapi/v5/meeglecli/handoff/link'' (Some (request_json request))) n c []), [], cache)
           else (case client_CreateLink (newCLIAPIClientFromState io) (ioApi io) (ioKey io) (request_json request) of
                   None \<Rightarrow> (CliPanic, [], cache)
                 | Some ((Some e, a), ev) \<Rightarrow> (CliFailure e, ev, cache)
                 | Some ((None, a), ev) \<Rightarrow> (let (out, cache') = link_outcome io n c a cache in (out, ev, cache')))))"

definition executeHandoff ::
    "'f cli_io \<Rightarrow> BuiltNode \<Rightarrow> 'f ParsedCommand \<Rightarrow> 'f value_map option \<Rightarrow> cli_cache \<Rightarrow> cli_run" where
  "executeHandoff io n c vals cache =
     (if isAIHandoffLocallyDisabled io \<and> bnHandler n = handlerHandoffAvailability
      then (Shown (localResult (AvailabilityData disabled_availability) n c []), [], cache)
      else if isAIHandoffLocallyDisabled io \<and> bnHandler n = handlerHandoffCreateLink
      then (Shown (localResult (LinkData disabled_link) n c []), [], cache)
      else if bnHandler n = handlerHandoffAvailability then show_availability io n c cache
      else if bnHandler n = handlerHandoffCreateLink
      then create_link io n c (case vals of Some vs \<Rightarrow> vs | None \<Rightarrow> BuildInputValues c) cache
      else (CliFailure (misconfigured ''unknown handoff command handler''), [], cache))"

section \<open>Preferences\<close>

definition mode_payload :: "string \<Rightarrow> string" where
  "mode_payload mode = [CHR ''{'', CHR 0x22] @ ''mode'' @ [CHR 0x22, CHR '':'', CHR 0x22] @ mode @ [CHR 0x22, CHR ''}'']"

definition executePreference :: "'f cli_io \<Rightarrow> BuiltNode \<Rightarrow> 'f ParsedCommand \<Rightarrow> cli_cache \<Rightarrow> cli_run" where
  "executePreference io n c cache =
     (case preference_mode (bnHandler n) of
        None \<Rightarrow> (CliFailure (misconfigured ''unknown preference command handler''), [], cache)
      | Some mode \<Rightarrow>
          (if isDryRun c
           then (Shown (localResult (DryRunData ''POST'' ''/goapi/v5/meeglecli/preference'' (Some (preference_body (mode_payload mode)))) n c []), [], cache)
           else (case client_UpdatePreference (ioEncode io) (newCLIAPIClientFromState io) (ioApi io) mode of
                   None \<Rightarrow> (CliPanic, [], cache)
                 | Some ((Some e, a), ev) \<Rightarrow> (CliFailure e, ev, cache)
                 | Some ((None, a), ev) \<Rightarrow>
                     (Shown (localResult (PreferenceData a) n c (puLogID a)), ev, provider_Clear io c cache))))"

definition cli_Execute :: "'f cli_io \<Rightarrow> 'f ParsedCommand \<Rightarrow> 'f value_map option \<Rightarrow> cli_cache \<Rightarrow> cli_run" where
  "cli_Execute io c vals cache =
     (case cmdNode c of
        None \<Rightarrow> (NoOutcome, [], cache)
      | Some n \<Rightarrow>
          (if bnHandler n = handlerHandoffAvailability \<or> bnHandler n = handlerHandoffCreateLink then executeHandoff io n c vals cache
           else if preference_mode (bnHandler n) \<noteq> None then executePreference io n c cache
           else (CliFailure (misconfigured ''unknown CLI API command handler''), [], cache)))"

section \<open>What the commands do\<close>

lemma client_backoff: "acRetryBackoff (newCLIAPIClientFromState io) \<le> 4611686018427387903"
  by (simp add: newCLIAPIClientFromState_def Let_def)

lemma api_call_cases:
  obtains err a ev where "api_call_run (newCLIAPIClientFromState io) env call target = Some ((err, a), ev)"
    "(err = None) = (\<exists>pre r. api_requests ev = pre @ [(r, None)])"
  using api_call_ends[OF client_backoff, of io env call target] ends_with_None unfolding call_trace_ok_def by metis

text \<open>An item that may be sent: one payload, of its type, with its keys.\<close>

definition context_ok :: "RelatedContext \<Rightarrow> bool" where
  "context_ok a =
     (payload_count a = 1 \<and>
      (case rcProject a of None \<Rightarrow> True | Some p \<Rightarrow> rcType a = 1 \<and> pcProjectKey p \<noteq> []) \<and>
      (case rcWorkItem a of None \<Rightarrow> True | Some p \<Rightarrow> rcType a = 3 \<and> wcProjectKey p \<noteq> [] \<and> wcTypeKey p \<noteq> [] \<and> wcID p \<noteq> []) \<and>
      (case rcView a of None \<Rightarrow> True | Some p \<Rightarrow> rcType a = 4 \<and> vcProjectKey p \<noteq> [] \<and> vcViewID p \<noteq> []) \<and>
      (case rcMeasureChart a of None \<Rightarrow> True | Some p \<Rightarrow> rcType a = 5 \<and> mcProjectKey p \<noteq> [] \<and> mcChartID p \<noteq> []))"

lemma normalized_ok: "normalizeRelatedContextItem a = Inr b \<Longrightarrow> context_ok b"
  by (auto simp: normalizeRelatedContextItem_def checked_item_def context_ok_def payload_count_def Let_def
      split: if_splits option.splits)

lemma normalize_from_ok: "normalize_from i as = Inr bs \<Longrightarrow> list_all context_ok bs"
  by (induction as arbitrary: i bs) (auto split: sum.splits dest: normalized_ok)

lemma decoded_ok: "decodeRelatedContextJSON io payload = Inr bs \<Longrightarrow> list_all context_ok bs"
  by (auto simp: decodeRelatedContextJSON_def Let_def split: if_splits sum.splits dest: normalize_from_ok normalized_ok)

lemma decode_each_ok: "decode_each io ss = Inr bs \<Longrightarrow> list_all context_ok bs"
  by (induction ss arbitrary: bs) (auto split: sum.splits dest: decoded_ok)

lemma built_request_ok:
  "buildCreateLinkRequest io vals = Inr request \<Longrightarrow> clUserQuery request \<noteq> [] \<and> list_all context_ok (clRelated request)"
  by (auto simp: buildCreateLinkRequest_def parseRelatedContext_def Let_def
      split: if_splits sum.splits option.splits any.splits dest: decoded_ok decode_each_ok)

text \<open>
  The link of an answer that grants one.  Only its address is changed: the host that is read from its text is
  the host of the login, escaped, and the scheme is the one the service gave.
\<close>

definition granted :: "'f cli_io \<Rightarrow> CreateLinkResponse \<Rightarrow> CreateLinkResponse \<Rightarrow> bool" where
  "granted io ans a =
     (clAvailable ans \<and> TrimSpace (clURL ans) \<noteq> [] \<and>
      (case activeLoginHost io of
         Inr host \<Rightarrow>
           a = ans\<lparr>clURL := String_with_host (TrimSpace (clURL ans)) host\<rparr> \<and>
           authority_host (clURL a) = escape encodeHost host \<and>
           (case url_Parse (TrimSpace (clURL ans)) of None \<Rightarrow> False | Some u \<Rightarrow> scheme_text (clURL a) = urlScheme u)
       | Inl e \<Rightarrow> False))"

definition values_of :: "'f ParsedCommand \<Rightarrow> 'f value_map option \<Rightarrow> 'f value_map" where
  "values_of c vals = (case vals of Some vs \<Rightarrow> vs | None \<Rightarrow> BuildInputValues c)"

text \<open>
  The requests a command may make.  A dry run, a handoff that is disabled here and a command without a handler of
  this kind make none; a link is asked for only with a valid request, and by nothing but the one call of the API
  that carries it; the availability is asked for only without a fresh entry of the cache.
\<close>

definition calls_ok :: "'f cli_io \<Rightarrow> 'f ParsedCommand \<Rightarrow> 'f value_map option \<Rightarrow> cli_cache \<Rightarrow> api_event list \<Rightarrow> bool" where
  "calls_ok io c vals cache ev =
     (case cmdNode c of
        None \<Rightarrow> ev = []
      | Some n \<Rightarrow>
          (if isDryRun c \<or> isAIHandoffLocallyDisabled io \<and> isHandoffHandler c then ev = []
           else if bnHandler n = handlerHandoffAvailability then
             (case CLIConfigCache_Get (ioNow io) (cache (cache_file io c)) of
                Some (a, False) \<Rightarrow> ev = []
              | _ \<Rightarrow> \<exists>res. client_Config (newCLIAPIClientFromState io) (ioApi io) = Some (res, ev))
           else if bnHandler n = handlerHandoffCreateLink then
             (case buildCreateLinkRequest io (values_of c vals) of
                Inl e \<Rightarrow> ev = []
              | Inr request \<Rightarrow>
                  clUserQuery request \<noteq> [] \<and> list_all context_ok (clRelated request) \<and>
                  (\<exists>res. client_CreateLink (newCLIAPIClientFromState io) (ioApi io) (ioKey io) (request_json request) = Some (res, ev)))
           else (case preference_mode (bnHandler n) of
                   None \<Rightarrow> ev = []
                 | Some mode \<Rightarrow>
                     \<exists>res. client_UpdatePreference (ioEncode io) (newCLIAPIClientFromState io) (ioApi io) mode = Some (res, ev))))"

definition link_obtained :: "'f cli_io \<Rightarrow> 'f value_map \<Rightarrow> api_event list \<Rightarrow> CreateLinkResponse \<Rightarrow> bool" where
  "link_obtained io vals ev a =
     (case buildCreateLinkRequest io vals of
        Inl e \<Rightarrow> False
      | Inr request \<Rightarrow>
          clUserQuery request \<noteq> [] \<and> list_all context_ok (clRelated request) \<and>
          (case client_CreateLink (newCLIAPIClientFromState io) (ioApi io) (ioKey io) (request_json request) of
             Some ((None, ans), out) \<Rightarrow> out = ev \<and> granted io ans a
           | _ \<Rightarrow> False))"

definition shown_ok :: "'f cli_io \<Rightarrow> 'f ParsedCommand \<Rightarrow> 'f value_map option \<Rightarrow> api_event list \<Rightarrow> local_data \<Rightarrow> bool" where
  "shown_ok io c vals ev d =
     (case d of
        LinkData a \<Rightarrow> (if isAIHandoffLocallyDisabled io then a = disabled_link else link_obtained io (values_of c vals) ev a)
      | AvailabilityData a \<Rightarrow> (if isAIHandoffLocallyDisabled io then a = disabled_availability else \<not> isDryRun c)
      | PreferenceData a \<Rightarrow> \<not> isDryRun c \<and> (\<exists>pre r. api_requests ev = pre @ [(r, None)])
      | DryRunData path http body \<Rightarrow> isDryRun c)"

definition run_ok :: "'f cli_io \<Rightarrow> 'f ParsedCommand \<Rightarrow> 'f value_map option \<Rightarrow> cli_cache \<Rightarrow> cli_run \<Rightarrow> bool" where
  "run_ok io c vals cache run =
     (case run of
        (out, ev, cache') \<Rightarrow>
          out \<noteq> CliPanic \<and> calls_ok io c vals cache ev \<and>
          (if ev = [] then cache' = cache else True) \<and>
          (case out of Shown r \<Rightarrow> shown_ok io c vals ev (lrData r) | _ \<Rightarrow> True))"

lemma localResult_data [simp]: "lrData (localResult d n c l) = d"
  by (simp add: localResult_def)

lemma handlers_differ: "handlerHandoffCreateLink \<noteq> handlerHandoffAvailability"
  by (simp add: handlerHandoffAvailability_def handlerHandoffCreateLink_def)

lemma api_requests_ne: "\<exists>pre r. api_requests ev = pre @ [(r, None)] \<Longrightarrow> ev \<noteq> []"
  by (auto simp: api_requests_def)

lemma availability_ok:
  assumes on: "\<not> isAIHandoffLocallyDisabled io" and node: "cmdNode c = Some n" "bnHandler n = handlerHandoffAvailability"
  shows "run_ok io c vals cache (show_availability io n c cache)"
proof -
  obtain err a ev where run: "client_Config (newCLIAPIClientFromState io) (ioApi io) = Some ((err, a), ev)"
    "(err = None) = (\<exists>pre r. api_requests ev = pre @ [(r, None)])" unfolding client_Config_def by (rule api_call_cases)
  show ?thesis
  proof (cases "isDryRun c")
    case True
    then show ?thesis by (simp add: run_ok_def show_availability_def calls_ok_def node shown_ok_def)
  next
    case wet: False
    note calls = calls_ok_def node on wet run(1)
    show ?thesis
    proof (cases "\<exists>b. CLIConfigCache_Get (ioNow io) (cache (cache_file io c)) = Some (b, False)")
      case True
      then show ?thesis by (auto simp: run_ok_def show_availability_def provider_Get_def shown_ok_def calls)
    next
      case False
      then have "calls_ok io c vals cache ev" by (auto simp: calls split: option.split bool.split)
      moreover have "provider_Get io c cache =
          (Some (err, a), ev, if err = None \<and> ioSetWorks io
             then cache(cache_file io c := Some (CLIConfigCache_Set (ioNow io) a)) else cache)"
        using False by (cases err) (auto simp: provider_Get_def run(1) split: option.split bool.split)
      moreover have "err = None \<Longrightarrow> ev \<noteq> []" using run(2) api_requests_ne by blast
      ultimately show ?thesis
        using wet on by (cases err) (auto simp: run_ok_def show_availability_def shown_ok_def)
    qed
  qed
qed

lemma link_outcome_ok:
  assumes "link_outcome io n c ans cache = (out, cache')"
  shows "case out of Shown r \<Rightarrow> (case lrData r of LinkData a \<Rightarrow> granted io ans a | _ \<Rightarrow> False) | CliFailure e \<Rightarrow> True | _ \<Rightarrow> False"
proof (cases "clAvailable ans \<and> TrimSpace (clURL ans) \<noteq> []")
  case False
  with assms show ?thesis by (auto simp: link_outcome_def split: if_splits)
next
  case granted: True
  show ?thesis
  proof (cases "activeLoginHost io")
    case (Inl e) with assms granted show ?thesis by (auto simp: link_outcome_def)
  next
    case (Inr host)
    show ?thesis
    proof (cases "url_Parse (TrimSpace (clURL ans))")
      case None with assms granted Inr show ?thesis by (auto simp: link_outcome_def replaceURLHost_def)
    next
      case (Some u)
      with assms granted Inr String_with_host_text[OF Some, of host] show ?thesis
        by (auto simp: link_outcome_def replaceURLHost_def granted_def split: if_splits)
    qed
  qed
qed

lemma create_link_ok:
  assumes on: "\<not> isAIHandoffLocallyDisabled io" and node: "cmdNode c = Some n" "bnHandler n = handlerHandoffCreateLink"
  shows "run_ok io c vals cache (create_link io n c (values_of c vals) cache)"
proof (cases "buildCreateLinkRequest io (values_of c vals)")
  case (Inl e)
  then show ?thesis by (simp add: run_ok_def create_link_def calls_ok_def node handlers_differ)
next
  case (Inr request)
  let ?run = "client_CreateLink (newCLIAPIClientFromState io) (ioApi io) (ioKey io) (request_json request)"
  obtain err a ev where run: "?run = Some ((err, a), ev)"
    "(err = None) = (\<exists>pre r. api_requests ev = pre @ [(r, None)])" unfolding client_CreateLink_def by (rule api_call_cases)
  obtain out cache' where link: "link_outcome io n c a cache = (out, cache')" by (metis prod.exhaust)
  note valid = built_request_ok[OF Inr]
  show ?thesis
  proof (cases "isDryRun c")
    case True
    then show ?thesis by (simp add: run_ok_def create_link_def Inr shown_ok_def calls_ok_def node)
  next
    case wet: False
    have calls: "calls_ok io c vals cache ev"
      using wet on node valid run(1) by (simp add: calls_ok_def Inr handlers_differ)
    show ?thesis
    proof (cases err)
      case (Some e) then show ?thesis using wet calls by (simp add: run_ok_def create_link_def Inr run)
    next
      case None
      have "create_link io n c (values_of c vals) cache = (out, ev, cache')" using wet by (simp add: create_link_def Inr run None link)
      moreover have "link_obtained io (values_of c vals) ev b = granted io a b" for b
        using valid by (simp add: link_obtained_def Inr run None)
      moreover have "ev \<noteq> []" using run(2) None api_requests_ne by blast
      ultimately show ?thesis using link_outcome_ok[OF link] calls on
        by (auto simp: run_ok_def shown_ok_def split: cli_outcome.splits local_data.splits)
    qed
  qed
qed

lemma preference_ok:
  assumes node: "cmdNode c = Some n" and known: "preference_mode (bnHandler n) \<noteq> None"
  shows "run_ok io c vals cache (executePreference io n c cache)"
proof -
  from known obtain mode where mode: "preference_mode (bnHandler n) = Some mode" by blast
  obtain err a ev where run: "client_UpdatePreference (ioEncode io) (newCLIAPIClientFromState io) (ioApi io) mode = Some ((err, a), ev)"
    "(err = None) = (\<exists>pre r. api_requests ev = pre @ [(r, None)])" unfolding client_UpdatePreference_def by (rule api_call_cases)
  have other: "bnHandler n \<noteq> handlerHandoffAvailability" "bnHandler n \<noteq> handlerHandoffCreateLink"
    using known by (auto simp: preference_mode_def handlerHandoffAvailability_def handlerHandoffCreateLink_def split: if_splits)
  show ?thesis
  proof (cases "isDryRun c")
    case True
    then show ?thesis by (simp add: run_ok_def executePreference_def mode shown_ok_def calls_ok_def node)
  next
    case wet: False
    have "calls_ok io c vals cache ev" using wet other by (simp add: calls_ok_def node isHandoffHandler_def mode run(1))
    moreover have "err = None \<Longrightarrow> ev \<noteq> []" using run(2) api_requests_ne by blast
    ultimately show ?thesis using run wet by (cases err) (auto simp: run_ok_def executePreference_def mode shown_ok_def)
  qed
qed

lemma handoff_ok:
  assumes "cmdNode c = Some n" "bnHandler n = handlerHandoffAvailability \<or> bnHandler n = handlerHandoffCreateLink"
  shows "run_ok io c vals cache (executeHandoff io n c vals cache)"
proof (cases "isAIHandoffLocallyDisabled io")
  case True
  then show ?thesis using assms
    by (auto simp: executeHandoff_def run_ok_def shown_ok_def calls_ok_def isHandoffHandler_def)
next
  case False
  show ?thesis
  proof (cases "bnHandler n = handlerHandoffAvailability")
    case True
    then show ?thesis using availability_ok[OF False assms(1)] False by (simp add: executeHandoff_def)
  next
    case other: False
    then show ?thesis using create_link_ok[OF False assms(1), of vals] assms(2) False
      by (simp add: executeHandoff_def values_of_def)
  qed
qed

section \<open>Properties\<close>

text \<open>
  C35.  The commands of the AI handoff: none of them crashes, and each makes no other request than its own.  A dry
  run, a handoff that is disabled on this machine, and a link asked for with an invalid query or context make no
  request and leave the cache as it is.  A link is asked for only with a query that is not empty and context items
  that have one payload of their type with all its keys, by the one API call that carries them.  It is shown only if
  the service granted it, and its address, read back from the text, has the scheme the service gave and the host
  the user logged in to in place of the host the service named.  A preference is reported as changed only after the
  service has accepted the change.
\<close>

theorem handoff_commands_lawful: "run_ok io c vals cache (cli_Execute io c vals cache)"
proof (cases "cmdNode c")
  case None then show ?thesis by (simp add: cli_Execute_def run_ok_def calls_ok_def)
next
  case (Some n)
  consider (handoff) "bnHandler n = handlerHandoffAvailability \<or> bnHandler n = handlerHandoffCreateLink"
    | (preference) "\<not> (bnHandler n = handlerHandoffAvailability \<or> bnHandler n = handlerHandoffCreateLink)"
        "preference_mode (bnHandler n) \<noteq> None"
    | (unknown) "\<not> (bnHandler n = handlerHandoffAvailability \<or> bnHandler n = handlerHandoffCreateLink)"
        "preference_mode (bnHandler n) = None" by blast
  then show ?thesis
  proof cases
    case handoff
    then have "cli_Execute io c vals cache = executeHandoff io n c vals cache" by (simp add: cli_Execute_def Some)
    then show ?thesis using handoff_ok[OF Some handoff] by simp
  next
    case preference
    then have "cli_Execute io c vals cache = executePreference io n c cache" by (simp add: cli_Execute_def Some)
    then show ?thesis using preference_ok[OF Some preference(2)] by simp
  next
    case unknown
    then have "cli_Execute io c vals cache = (CliFailure (misconfigured ''unknown CLI API command handler''), [], cache)"
      by (simp add: cli_Execute_def Some)
    then show ?thesis using unknown by (simp add: run_ok_def calls_ok_def Some isHandoffHandler_def)
  qed
qed

section \<open>Decisions that make the cache stale\<close>

text \<open>The service has changed the preference, or has refused a link in a reply it accepted the request with.\<close>

definition overrules :: "cli_outcome \<Rightarrow> api_event list \<Rightarrow> bool" where
  "overrules out ev =
     (case out of
        Shown r \<Rightarrow> (case lrData r of PreferenceData a \<Rightarrow> True | _ \<Rightarrow> False)
      | CliFailure e \<Rightarrow>
          (case (as_MeegleError e, rev (api_requests ev)) of
             (Some m, (r, None) # rs) \<Rightarrow> meCode m = ''HANDOFF_REJECTED''
           | _ \<Rightarrow> False)
      | _ \<Rightarrow> False)"

lemma failed_call_overrules_not:
  assumes "api_call_run (newCLIAPIClientFromState io) env call target = Some ((Some e, a), ev)" shows "\<not> overrules (CliFailure e') ev"
proof -
  have "\<not> (\<exists>pre r. api_requests ev = pre @ [(r, None)])"
    using api_call_cases[of io env call target] assms by (metis (no_types) option.distinct(1) option.inject prod.inject)
  then have "rev (api_requests ev) \<noteq> (r, None) # rs" for r rs by (metis rev.simps(2) rev_rev_ident)
  then show ?thesis by (auto simp: overrules_def split: option.splits list.splits)
qed

lemma no_requests_overrules_not [simp]: "\<not> overrules (CliFailure e) []"
  by (simp add: overrules_def split: option.split)

lemma overrules_Shown [simp]:
  "overrules (Shown (localResult d n c l)) ev = (case d of PreferenceData a \<Rightarrow> True | _ \<Rightarrow> False)"
  by (simp add: overrules_def)

lemma availability_overrules_not: "show_availability io n c cache = (out, ev, cache') \<Longrightarrow> \<not> overrules out ev"
  by (auto simp: show_availability_def provider_Get_def client_Config_def overrules_def[of CliPanic]
      dest: failed_call_overrules_not split: if_splits option.splits prod.splits bool.splits)

lemma overrules_code: "overrules (CliFailure e) ev \<Longrightarrow> \<exists>m. as_MeegleError e = Some m \<and> meCode m = ''HANDOFF_REJECTED''"
  by (auto simp: overrules_def split: option.splits list.splits)

lemma link_outcome_overrules:
  assumes "link_outcome io n c ans cache = (out, cache')" "overrules out ev" shows "cache' = provider_Clear io c cache"
  using assms
  by (auto simp: link_outcome_def activeLoginHost_def misconfigured_def invalid_response_def NewClientError_def NewServerError_def
      Let_def dest!: overrules_code split: if_splits sum.splits option.splits)

lemma create_link_overrules:
  assumes "create_link io n c vals cache = (out, ev, cache')" "overrules out ev" shows "cache' = provider_Clear io c cache"
  using assms
  by (auto simp: create_link_def client_CreateLink_def overrules_def[of CliPanic] Let_def
      dest: failed_call_overrules_not link_outcome_overrules split: if_splits option.splits prod.splits sum.splits)

lemma preference_overrules:
  assumes "executePreference io n c cache = (out, ev, cache')" "overrules out ev" shows "cache' = provider_Clear io c cache"
  using assms
  by (auto simp: executePreference_def client_UpdatePreference_def overrules_def[of CliPanic]
      dest: failed_call_overrules_not split: if_splits option.splits prod.splits)

lemma overruled_cache:
  assumes "cli_Execute io c vals cache = (out, ev, cache')" "overrules out ev" shows "cache' = provider_Clear io c cache"
  using assms
  by (auto simp: cli_Execute_def executeHandoff_def overrules_def[of NoOutcome]
      dest: availability_overrules_not create_link_overrules preference_overrules split: option.splits if_splits)


text \<open>The cache says yes; the user turns the recommendation off; the service then says no, and so does the command.\<close>

definition local_node :: "string \<Rightarrow> BuiltNode" where
  "local_node ref = BuiltNode ''x'' [] \<lparr>Brief = [], Long = [], TemplateVars = [], Examples = []\<rparr> [] [] ref (bnMeta demo_node) [''x''] [] []"

definition local_cmd :: "string \<Rightarrow> unit ParsedCommand" where
  "local_cmd ref = \<lparr>cmdNode = Some (local_node ref), FullPath = [''x''], Flags = [], ExplicitFlags = [], Args = [], IsHelp = False,
     RawArgs = [], RawFlags = []\<rparr>"

definition config_reply :: "bool \<Rightarrow> exchange" where
  "config_reply b = Answered 200 [] (Some (JObject [(''handoff_suggestion'', JObject [(''available'', JBool b)])]))"

definition demo_io :: "exchange \<Rightarrow> unit cli_io" where
  "demo_io x =
     \<lparr>ioHandoffEnv = [], ioSession = Some (no_session\<lparr>scHost := ''h'', scToken := ''t''\<rparr>), ioCurrentProfile = ''default'', ioBuild = [],
      ioApi = demo_api\<lparr>exchangeAt := (\<lambda>n. x)\<rparr>, ioKey = ''k'', ioNow = 5, ioSetWorks = True, ioClearWorks = True,
      ioReadJson = (\<lambda>s. None), ioMarshal = (\<lambda>v. None), ioFloatText = (\<lambda>f. []), ioEncode = (\<lambda>j. [])\<rparr>"

definition demo_cache :: cli_cache where
  "demo_cache = (\<lambda>f. None)(''cli-config.json'' :=
     Some (CLIConfigCache_Set 5 \<lparr>ccHandoff = no_availability\<lparr>avAvailable := True\<rparr>, ccLogID = []\<rparr>))"

definition off_cmd :: "unit ParsedCommand" where "off_cmd = local_cmd ''meegle.local.preference.handoff.off''"
definition ask_cmd :: "unit ParsedCommand" where "ask_cmd = local_cmd handlerHandoffAvailability"
definition off_run :: cli_run where "off_run = cli_Execute (demo_io (Answered 200 [] (Some (JObject [])))) off_cmd None demo_cache"
definition later_io :: "unit cli_io" where "later_io = demo_io (config_reply False)"

definition shows_available :: "cli_outcome \<Rightarrow> bool option" where
  "shows_available out =
     (case out of Shown r \<Rightarrow> (case lrData r of AvailabilityData a \<Rightarrow> Some (avAvailable a) | _ \<Rightarrow> None) | _ \<Rightarrow> None)"


text \<open>A link of another host is shown with the host of the login; without a query nothing is sent.\<close>

definition link_cmd :: "string \<Rightarrow> unit ParsedCommand" where
  "link_cmd query = (local_cmd handlerHandoffCreateLink)\<lparr>Flags := [(''query'', VString query)]\<rparr>"

definition link_io :: "unit cli_io" where
  "link_io = demo_io (Answered 200 [] (Some (JObject [(''available'', JBool True),
     (''url'', JString ''HTTPS://me@other.example:8443/a%2Fb?q=1#top'')])))"

definition link_vals :: "string \<Rightarrow> unit value_map option" where
  "link_vals query = Some [(''query'', VString query)]"

definition shown_url :: "cli_outcome \<Rightarrow> string option" where
  "shown_url out = (case out of Shown r \<Rightarrow> (case lrData r of LinkData a \<Rightarrow> Some (clURL a) | _ \<Rightarrow> None) | _ \<Rightarrow> None)"

theorem handoff_commands_lawful_witness:
  "shown_url (fst (cli_Execute link_io (link_cmd ''q'') (link_vals ''q'') demo_cache)) = Some ''https://me@h/a%2Fb?q=1#top'' \<and>
   authority_host ''https://me@h/a%2Fb?q=1#top'' = ''h'' \<and>
   length (fst (snd (cli_Execute link_io (link_cmd ''q'') (link_vals ''q'') demo_cache))) = 1 \<and>
   fst (snd (cli_Execute link_io (link_cmd []) (link_vals []) demo_cache)) = [] \<and>
   run_ok link_io (link_cmd ''q'') (link_vals ''q'') demo_cache (cli_Execute link_io (link_cmd ''q'') (link_vals ''q'') demo_cache)"
proof (intro conjI)
  show "run_ok link_io (link_cmd ''q'') (link_vals ''q'') demo_cache (cli_Execute link_io (link_cmd ''q'') (link_vals ''q'') demo_cache)"
    by (rule handoff_commands_lawful)
qed code_simp+

end
