(* ===== verification/Attachment.thy ===== *)
theory Attachment
  imports Cli_Runtime
begin

text \<open>
  Attachments (\<open>internal/products/meegle/attachment\<close>: \<open>download.go\<close>, \<open>upload.go\<close>, \<open>types.go\<close>, and the shortcut steps of
  \<open>attachment_register.go\<close>): the parameters of the two tools, the reading of their answers, the transfers to and from
  the object storage in one or many parts, and what they leave on the disk.

  The tools, the storage and the file system's failures are arguments.  Files are their contents by path; a body that breaks
  off carries the error of the connection.  Removing a file that was just created is taken to succeed.
\<close>

section \<open>Resources\<close>

definition ValidateResourceType :: "int \<Rightarrow> bool" where
  "ValidateResourceType rt = (rt \<in> {13, 14, 15, 16})"

definition RequiresFieldKey :: "int \<Rightarrow> bool" where
  "RequiresFieldKey rt = (rt = 15 \<or> rt = 16)"

definition partNumberPlaceholder :: string where "partNumberPlaceholder = '':part_number''"
definition signHeader :: string where "signHeader = ''X-Meego-File-Sign''"

definition part_url :: "string \<Rightarrow> int \<Rightarrow> string" where
  "part_url template i = ReplaceAll template partNumberPlaceholder (show_int i)"

section \<open>Downloads\<close>

record DownloadPreprocess =
  dpURL :: string
  dpSign :: string
  dpIsMultipart :: bool
  dpMultipart :: "(int \<times> int) option"

record DownloadInput =
  diProjectKey :: string
  diWorkItemID :: string
  diFileURL :: string
  diOutput :: string
  diOverwrite :: bool
  diHeaders :: "(string \<times> string) list"

record DownloadResult =
  drPath :: string
  drSize :: nat
  drName :: string
  drMime :: string

text \<open>\<open>NilMultipart\<close> is the panic on a nil \<open>Multipart\<close>.\<close>

datatype transfer_error = TransferFailed string | FileSignMissing | FileSignMismatch string string | NilMultipart

definition validateDownloadPreprocessInput :: "DownloadInput \<Rightarrow> string option" where
  "validateDownloadPreprocessInput a =
     (if diProjectKey a = [] then Some ''--project-key is required''
      else if diWorkItemID a = [] then Some ''--work-item-id is required''
      else if diFileURL a = [] then Some ''<file-url> is required'' else None)"

definition parts_field :: "string \<Rightarrow> json \<Rightarrow> int \<times> int \<Rightarrow> (int \<times> int) option" where
  "parts_field k v a =
     (if k = ''part_count'' then map_option (\<lambda>i. (i, snd a)) (decode_int32 v (fst a))
      else if k = ''part_size'' then map_option (\<lambda>i. (fst a, i)) (decode_int v (snd a))
      else Some a)"

definition download_field :: "string \<Rightarrow> json \<Rightarrow> DownloadPreprocess \<Rightarrow> DownloadPreprocess option" where
  "download_field k v a =
     (if k = ''download_url'' then map_option (\<lambda>s. a\<lparr>dpURL := s\<rparr>) (decode_text v (dpURL a))
      else if k = ''sign'' then map_option (\<lambda>s. a\<lparr>dpSign := s\<rparr>) (decode_text v (dpSign a))
      else if k = ''is_multipart'' then map_option (\<lambda>b. a\<lparr>dpIsMultipart := b\<rparr>) (decode_bool v (dpIsMultipart a))
      else if k = ''multipart'' then map_option (\<lambda>m. a\<lparr>dpMultipart := m\<rparr>) (decode_pointer parts_field (0, 0) v (dpMultipart a))
      else Some a)"

definition parseDownloadURLResponse :: "json option \<Rightarrow> (string, DownloadPreprocess) result" where
  "parseDownloadURLResponse resp =
     (case resp of
        None \<Rightarrow> Inl ''get_download_url returned nil response''
      | Some v \<Rightarrow>
          (case decode_struct download_field v \<lparr>dpURL = [], dpSign = [], dpIsMultipart = False, dpMultipart = None\<rparr> of
             None \<Rightarrow> Inl ''parse get_download_url response''
           | Some a \<Rightarrow>
               (if dpURL a = [] then Inl ''get_download_url response missing download_url''
                else if dpIsMultipart a \<and> (case dpMultipart a of None \<Rightarrow> True | Some m \<Rightarrow> fst m \<le> 0)
                then Inl ''get_download_url reports is_multipart=true but multipart info is missing or invalid''
                else Inr a)))"

type_synonym tool_call = "string \<times> (string \<times> json) list"

text \<open>A tool answers with data or nothing, or fails.  The calls are returned.\<close>

type_synonym attachment_tool = "tool_call \<Rightarrow> (string, json option) result"

definition PreprocessDownload :: "attachment_tool \<Rightarrow> string \<Rightarrow> DownloadInput \<Rightarrow> (string, DownloadPreprocess) result \<times> tool_call list" where
  "PreprocessDownload tool toolName a =
     (case validateDownloadPreprocessInput a of
        Some e \<Rightarrow> (Inl e, [])
      | None \<Rightarrow>
          (let name = (if toolName = [] then ''get_download_url'' else toolName);
               call = (name, [(''project_key'', JString (diProjectKey a)), (''work_item_id'', JString (diWorkItemID a)),
                 (''file_url'', JString (diFileURL a))])
           in ((case tool call of Inl e \<Rightarrow> Inl (name @ '' failed: '' @ e) | Inr resp \<Rightarrow> parseDownloadURLResponse resp), [call])))"

datatype part_answer = NoAnswer string | PartAnswer int header string "string option"

type_synonym part_request = "string \<times> header"

text \<open>
  \<open>strings.EqualFold\<close> on the bytes of a text: the letters of ASCII, and the two other characters that fold to one of
  them, the Kelvin sign and the long s.  This is Go's folding when one of the texts is ASCII, as a header name and a
  signature are; other letters are compared as they are.
\<close>

fun fold_text :: "string \<Rightarrow> string" where
  "fold_text [] = []"
| "fold_text (c # cs) =
     (if c = CHR 0xC5 \<and> HasPrefix cs [CHR 0xBF] then CHR ''s'' # fold_text (drop 1 cs)
      else if c = CHR 0xE2 \<and> HasPrefix cs [CHR 0x84, CHR 0xAA] then CHR ''k'' # fold_text (drop 2 cs)
      else lower_char c # fold_text cs)"

definition EqualFold :: "string \<Rightarrow> string \<Rightarrow> bool" where
  "EqualFold a b = (fold_text a = fold_text b)"

definition verifySign :: "string \<Rightarrow> string \<Rightarrow> transfer_error option" where
  "verifySign got want =
     (if TrimSpace got = [] then Some FileSignMissing
      else if \<not> EqualFold (TrimSpace got) want then Some (FileSignMismatch (TrimSpace got) want) else None)"

text \<open>\<open>media\<close> is \<open>mime.ParseMediaType\<close>, its parameters.\<close>

fun after_quotes :: "string \<Rightarrow> string option" where
  "after_quotes [] = None"
| "after_quotes (c # cs) =
     (case cs of d # ds \<Rightarrow> (if c = CHR 0x27 \<and> d = CHR 0x27 then Some ds else after_quotes cs) | [] \<Rightarrow> None)"

definition filenameFromHeader :: "(string \<Rightarrow> (string \<times> string) list option) \<Rightarrow> string \<Rightarrow> string" where
  "filenameFromHeader media cd =
     (if cd = [] then []
      else (case media cd of
              None \<Rightarrow> []
            | Some params \<Rightarrow>
                (case map_of params ''filename'' of
                   Some (c # cs) \<Rightarrow> c # cs
                 | _ \<Rightarrow>
                     (case map_of params ''filename*'' of
                        Some fn \<Rightarrow> (case after_quotes fn of Some rest \<Rightarrow> rest | None \<Rightarrow> fn)
                      | None \<Rightarrow> []))))"

record storage =
  stAnswer :: "nat \<Rightarrow> part_request \<Rightarrow> part_answer"
  stMedia :: "string \<Rightarrow> (string \<times> string) list option"
  stStatFails :: bool
  stCreates :: bool
  stCloses :: bool
  stRenames :: bool

definition download_request :: "string \<Rightarrow> string \<Rightarrow> (string \<times> string) list \<Rightarrow> part_request" where
  "download_request url sign extra = (url, Header_Set signHeader sign (fold (\<lambda>(k, v). Header_Set k v) extra []))"

record part_meta =
  pmBody :: string
  pmName :: string
  pmMime :: string

definition doDownloadPart ::
    "storage \<Rightarrow> nat \<Rightarrow> string \<Rightarrow> string \<Rightarrow> (string \<times> string) list \<Rightarrow> (transfer_error, part_meta) result \<times> part_request list" where
  "doDownloadPart st n url sign extra =
     (case url_Parse url of
        None \<Rightarrow> (Inl (TransferFailed ''parse''), [])
      | Some u \<Rightarrow>
          (let q = download_request url sign extra in
           ((case stAnswer st n q of
               NoAnswer e \<Rightarrow> Inl (TransferFailed e)
             | PartAnswer status h body broken \<Rightarrow>
                 (if status < 200 \<or> status \<ge> 300 then Inl (TransferFailed (''download part HTTP '' @ show_int status))
                  else (case verifySign (Header_Get h signHeader) sign of
                          Some e \<Rightarrow> Inl e
                        | None \<Rightarrow>
                            (case broken of
                               Some e \<Rightarrow> Inl (TransferFailed (''write part body: '' @ e))
                             | None \<Rightarrow>
                                 Inr \<lparr>pmBody = body, pmName = filenameFromHeader (stMedia st) (Header_Get h ''Content-Disposition''),
                                      pmMime = Header_Get h ''Content-Type''\<rparr>)))), [q])))"

text \<open>The parts in order, until one fails; the first name and type that are not empty count.\<close>

fun download_parts ::
    "storage \<Rightarrow> DownloadPreprocess \<Rightarrow> (string \<times> string) list \<Rightarrow> nat \<Rightarrow> nat \<Rightarrow> (transfer_error, part_meta list) result \<times> part_request list" where
  "download_parts st pre extra i 0 = (Inr [], [])"
| "download_parts st pre extra i (Suc k) =
     (let (r, qs) = doDownloadPart st i (part_url (dpURL pre) (int i)) (dpSign pre) extra in
      case r of
        Inl e \<Rightarrow> (Inl e, qs)
      | Inr m \<Rightarrow>
          (let (rs, qs') = download_parts st pre extra (Suc i) k
           in ((case rs of Inl e \<Rightarrow> Inl e | Inr ms \<Rightarrow> Inr (m # ms)), qs @ qs')))"

definition part_total :: "DownloadPreprocess \<Rightarrow> nat" where
  "part_total pre = (if dpIsMultipart pre then (case dpMultipart pre of Some m \<Rightarrow> nat (fst m) | None \<Rightarrow> 0) else 1)"

definition first_text :: "string list \<Rightarrow> string" where
  "first_text ss = (case filter (\<lambda>s. s \<noteq> []) ss of [] \<Rightarrow> [] | s # rest \<Rightarrow> s)"

type_synonym disk = "string \<Rightarrow> string option"

definition partial_path :: "string \<Rightarrow> string" where "partial_path out = out @ ''.partial''"

definition checkOutputAvailable :: "storage \<Rightarrow> DownloadInput \<Rightarrow> disk \<Rightarrow> string option" where
  "checkOutputAvailable st a fs =
     (if diOutput a = [] then None
      else if stStatFails st then Some ''stat output path''
      else if fs (diOutput a) \<noteq> None \<and> \<not> diOverwrite a then Some ''output path already exists (pass --overwrite to replace)''
      else None)"

definition ExecuteDownload ::
    "storage \<Rightarrow> DownloadPreprocess \<Rightarrow> DownloadInput \<Rightarrow> disk \<Rightarrow> (transfer_error, DownloadResult) result \<times> disk \<times> part_request list" where
  "ExecuteDownload st pre a fs =
     (if diOutput a = [] then (Inl (TransferFailed ''--output is required''), fs, [])
      else (case checkOutputAvailable st a fs of
              Some e \<Rightarrow> (Inl (TransferFailed e), fs, [])
            | None \<Rightarrow>
                (if \<not> stCreates st then (Inl (TransferFailed ''create partial file''), fs, [])
                 else if dpIsMultipart pre \<and> dpMultipart pre = None
                 then (Inl NilMultipart, fs(partial_path (diOutput a) := Some []), [])
                 else
                   (let (r, qs) = download_parts st pre (diHeaders a) 0 (part_total pre);
                        removed = fs(partial_path (diOutput a) := None)
                    in case r of
                         Inl e \<Rightarrow> (Inl e, removed, qs)
                       | Inr ms \<Rightarrow>
                           (if \<not> stCloses st then (Inl (TransferFailed ''close partial file''), removed, qs)
                            else if \<not> stRenames st then (Inl (TransferFailed ''rename partial to output''), removed, qs)
                            else (let content = concat (map pmBody ms)
                                  in (Inr \<lparr>drPath = diOutput a, drSize = length content, drName = first_text (map pmName ms),
                                           drMime = first_text (map pmMime ms)\<rparr>,
                                      removed(diOutput a := Some content), qs)))))))"

section \<open>What a download leaves\<close>

text \<open>A part that was accepted: the storage answered its request with the signature that was asked for and a whole body.\<close>

definition accepted_part :: "storage \<Rightarrow> string \<Rightarrow> nat \<Rightarrow> part_request \<Rightarrow> part_meta \<Rightarrow> bool" where
  "accepted_part st sign n q m =
     (case stAnswer st n q of
        PartAnswer status h body broken \<Rightarrow>
          200 \<le> status \<and> status < 300 \<and> EqualFold (TrimSpace (Header_Get h signHeader)) sign \<and> sign \<noteq> [] \<and>
          broken = None \<and> pmBody m = body
      | NoAnswer e \<Rightarrow> False)"

definition signed_request :: "string \<Rightarrow> part_request \<Rightarrow> bool" where
  "signed_request sign q = (map_of (snd q) (CanonicalHeaderKey signHeader) = Some [sign])"

lemma download_request_signed: "signed_request sign (download_request url sign extra)"
  by (simp add: signed_request_def download_request_def Header_Set_def map_of_update)

lemma EqualFold_nonempty: "EqualFold a b \<Longrightarrow> a \<noteq> [] \<Longrightarrow> b \<noteq> []"
  by (cases a; cases b) (auto simp: EqualFold_def split: if_splits)

lemma doDownloadPart_sound:
  assumes "doDownloadPart st n url sign extra = (r, qs)"
  shows "list_all (signed_request sign) qs \<and>
    (case r of Inr m \<Rightarrow> qs = [download_request url sign extra] \<and> accepted_part st sign n (download_request url sign extra) m | Inl e \<Rightarrow> True)"
  using assms EqualFold_nonempty
  by (auto simp: doDownloadPart_def accepted_part_def verifySign_def download_request_signed Let_def
      split: option.splits part_answer.splits if_splits)

text \<open>Every part accepted, in order.\<close>

definition all_accepted :: "storage \<Rightarrow> DownloadPreprocess \<Rightarrow> (string \<times> string) list \<Rightarrow> nat \<Rightarrow> part_meta list \<Rightarrow> bool" where
  "all_accepted st pre extra i ms =
     (\<forall>k < length ms. accepted_part st (dpSign pre) (i + k) (download_request (part_url (dpURL pre) (int (i + k))) (dpSign pre) extra) (ms ! k))"

lemma all_accepted_Cons:
  "accepted_part st (dpSign pre) i (download_request (part_url (dpURL pre) (int i)) (dpSign pre) extra) m \<Longrightarrow>
   all_accepted st pre extra (Suc i) ms \<Longrightarrow> all_accepted st pre extra i (m # ms)"
  by (auto simp: all_accepted_def nth_Cons add_ac split: nat.split)

lemma download_parts_sound:
  assumes "download_parts st pre extra i k = (r, qs)"
  shows "list_all (signed_request (dpSign pre)) qs \<and> (case r of Inr ms \<Rightarrow> length ms = k \<and> all_accepted st pre extra i ms | Inl e \<Rightarrow> True)"
  using assms
proof (induction k arbitrary: i r qs)
  case 0 then show ?case by (auto simp: all_accepted_def)
next
  case (Suc k)
  obtain r1 qs1 where part: "doDownloadPart st i (part_url (dpURL pre) (int i)) (dpSign pre) extra = (r1, qs1)" by (metis prod.exhaust)
  obtain rs qs2 where rest: "download_parts st pre extra (Suc i) k = (rs, qs2)" by (metis prod.exhaust)
  note p = doDownloadPart_sound[OF part] and ih = Suc.IH[OF rest]
  show ?case
  proof (cases r1)
    case (Inl e) then show ?thesis using Suc.prems p by (auto simp: part)
  next
    case (Inr m)
    then have out: "r = (case rs of Inl e \<Rightarrow> Inl e | Inr ms \<Rightarrow> Inr (m # ms))" "qs = qs1 @ qs2" using Suc.prems by (auto simp: part rest)
    show ?thesis
    proof (cases rs)
      case (Inl e) then show ?thesis using out p ih by simp
    next
      case rs: (Inr ms)
      have "all_accepted st pre extra i (m # ms)" using p ih Inr rs by (intro all_accepted_Cons) simp_all
      then show ?thesis using out p ih rs by simp
    qed
  qed
qed

lemma doDownloadPart_no_panic: "doDownloadPart st n url sign extra = (r, qs) \<Longrightarrow> r \<noteq> Inl NilMultipart"
  by (auto simp: doDownloadPart_def verifySign_def Let_def split: option.splits part_answer.splits if_splits)

lemma download_parts_no_panic: "download_parts st pre extra i k = (r, qs) \<Longrightarrow> r \<noteq> Inl NilMultipart"
proof (induction k arbitrary: i r qs)
  case (Suc k)
  obtain r1 qs1 where part: "doDownloadPart st i (part_url (dpURL pre) (int i)) (dpSign pre) extra = (r1, qs1)" by (metis prod.exhaust)
  obtain rs qs2 where rest: "download_parts st pre extra (Suc i) k = (rs, qs2)" by (metis prod.exhaust)
  from Suc.prems doDownloadPart_no_panic[OF part] Suc.IH[OF rest] show ?case
    by (auto simp: part rest split: sum.splits)
qed simp

text \<open>A response that was parsed has the information on the parts when it says there are several.\<close>

lemma parsed_multipart: "parseDownloadURLResponse resp = Inr pre \<Longrightarrow> \<not> (dpIsMultipart pre \<and> dpMultipart pre = None)"
  by (auto simp: parseDownloadURLResponse_def split: option.splits if_splits)

lemma partial_path_differs [simp]: "partial_path out \<noteq> out" "out \<noteq> partial_path out"
  by (simp_all add: partial_path_def)

section \<open>Properties of downloads\<close>

text \<open>
  C39.  What a download does to the disk: if it fails, the file at the destination is what it was, and so is every
  other file but the temporary one, which is gone.  (It panics on parts without their number, which no response that
  was parsed has.)  If it succeeds, the destination, which did not exist or may be
  replaced, holds exactly the bodies of all parts in order; each part was answered with the signature that was asked for, so
  that no byte of another object is kept.  Every request carries that signature.
\<close>

theorem download_atomic:
  "case ExecuteDownload st pre a fs of
     (r, fs', qs) \<Rightarrow>
       list_all (signed_request (dpSign pre)) qs \<and>
       (case r of
          Inl e \<Rightarrow>
            (if e = NilMultipart then dpIsMultipart pre \<and> dpMultipart pre = None
             else fs' = fs \<or> fs' = fs(partial_path (diOutput a) := None))
        | Inr res \<Rightarrow>
            (\<exists>ms. length ms = part_total pre \<and> all_accepted st pre (diHeaders a) 0 ms \<and>
               fs' = fs(partial_path (diOutput a) := None, diOutput a := Some (concat (map pmBody ms))) \<and>
               drSize res = length (concat (map pmBody ms)) \<and> (if diOverwrite a then True else fs (diOutput a) = None)))"
proof -
  obtain r qs where parts: "download_parts st pre (diHeaders a) 0 (part_total pre) = (r, qs)" by (metis prod.exhaust)
  show ?thesis using download_parts_sound[OF parts] download_parts_no_panic[OF parts]
    by (auto simp: ExecuteDownload_def checkOutputAvailable_def parts Let_def split: if_splits sum.splits option.splits)
qed

text \<open>A file at the temporary path is lost, whether replacing was allowed or not, and even if the download fails.\<close>

lemma partial_file_lost:
  assumes "\<not> (dpIsMultipart pre \<and> dpMultipart pre = None)" "fs (diOutput a) = None" "diOutput a \<noteq> []" "\<not> stStatFails st" "stCreates st"
  shows "fst (snd (ExecuteDownload st pre a fs)) (partial_path (diOutput a)) = None"
  using assms by (auto simp: ExecuteDownload_def checkOutputAvailable_def Let_def split: prod.split sum.split)

section \<open>Uploads\<close>

record ChunkInfo =
  ckIndex :: int
  ckStart :: int
  ckEnd :: int

record MultipartInfo =
  mpPartCount :: int
  mpPartSize :: int
  mpNeed :: "ChunkInfo list"

record UploadPreprocess =
  upSign :: string
  upURL :: string
  upIsMultipart :: bool
  upMultipart :: "MultipartInfo option"

record UploadInput =
  uiResourceType :: int
  uiProjectKey :: string
  uiWorkItemID :: string
  uiWorkItemType :: string
  uiFieldKey :: string
  uiFile :: "string option"
  uiFileSize :: int
  uiFilename :: string
  uiContentType :: string

record UploadResult =
  urToken :: string
  urURL :: string
  urName :: string
  urSize :: int
  urMime :: string

definition validateUploadInput :: "UploadInput \<Rightarrow> string option" where
  "validateUploadInput a =
     (if \<not> ValidateResourceType (uiResourceType a) then Some ''unknown --resource-type''
      else if RequiresFieldKey (uiResourceType a) \<and> uiFieldKey a = [] then Some ''--field-key is required''
      else if uiProjectKey a = [] then Some ''--project-key is required''
      else if uiWorkItemID a = [] \<and> uiWorkItemType a = [] then Some ''one of --work-item-id or --work-item-type is required''
      else if uiFile a = None then Some ''File reader is nil''
      else if uiFileSize a \<le> 0 then Some ''FileSize must be > 0''
      else if uiFilename a = [] then Some ''Filename is empty''
      else if uiContentType a = [] then Some ''ContentType is empty'' else None)"

definition upload_params :: "UploadInput \<Rightarrow> (string \<times> json) list" where
  "upload_params a =
     [(''project_key'', JString (uiProjectKey a)), (''file_name'', JString (uiFilename a)), (''mime_type'', JString (uiContentType a)),
      (''size'', JNumber (show_int (uiFileSize a))), (''resource_type'', JNumber (show_int (uiResourceType a)))] @
     (if uiWorkItemID a \<noteq> [] then [(''work_item_id'', JString (uiWorkItemID a))]
      else if uiWorkItemType a \<noteq> [] then [(''work_item_type'', JString (uiWorkItemType a))] else []) @
     (if uiFieldKey a \<noteq> [] then [(''field_key'', JString (uiFieldKey a))] else [])"

definition chunk_field :: "string \<Rightarrow> json \<Rightarrow> ChunkInfo \<Rightarrow> ChunkInfo option" where
  "chunk_field k v a =
     (if k = ''part_index'' then map_option (\<lambda>i. a\<lparr>ckIndex := i\<rparr>) (decode_int32 v (ckIndex a))
      else if k = ''start_byte'' then map_option (\<lambda>i. a\<lparr>ckStart := i\<rparr>) (decode_int v (ckStart a))
      else if k = ''end_byte'' then map_option (\<lambda>i. a\<lparr>ckEnd := i\<rparr>) (decode_int v (ckEnd a))
      else Some a)"

definition decode_list :: "(json \<Rightarrow> 'a option) \<Rightarrow> json \<Rightarrow> 'a list option" where
  "decode_list decode v = (case v of JArray vs \<Rightarrow> all_some (map decode vs) | JNull \<Rightarrow> Some [] | _ \<Rightarrow> None)"

definition multipart_field :: "string \<Rightarrow> json \<Rightarrow> MultipartInfo \<Rightarrow> MultipartInfo option" where
  "multipart_field k v a =
     (if k = ''part_count'' then map_option (\<lambda>i. a\<lparr>mpPartCount := i\<rparr>) (decode_int32 v (mpPartCount a))
      else if k = ''part_size'' then map_option (\<lambda>i. a\<lparr>mpPartSize := i\<rparr>) (decode_int v (mpPartSize a))
      else if k = ''need''
      then map_option (\<lambda>l. a\<lparr>mpNeed := l\<rparr>) (decode_list (\<lambda>x. decode_struct chunk_field x \<lparr>ckIndex = 0, ckStart = 0, ckEnd = 0\<rparr>) v)
      else Some a)"

definition upload_field :: "string \<Rightarrow> json \<Rightarrow> UploadPreprocess \<Rightarrow> UploadPreprocess option" where
  "upload_field k v a =
     (if k = ''sign'' then map_option (\<lambda>s. a\<lparr>upSign := s\<rparr>) (decode_text v (upSign a))
      else if k = ''upload_url'' then map_option (\<lambda>s. a\<lparr>upURL := s\<rparr>) (decode_text v (upURL a))
      else if k = ''is_multipart'' then map_option (\<lambda>b. a\<lparr>upIsMultipart := b\<rparr>) (decode_bool v (upIsMultipart a))
      else if k = ''multipart''
      then map_option (\<lambda>m. a\<lparr>upMultipart := m\<rparr>) (decode_pointer multipart_field \<lparr>mpPartCount = 0, mpPartSize = 0, mpNeed = []\<rparr> v (upMultipart a))
      else Some a)"

definition parsePreProcessResponse :: "json option \<Rightarrow> (string, UploadPreprocess) result" where
  "parsePreProcessResponse resp =
     (case resp of
        None \<Rightarrow> Inl ''upload_file returned nil response''
      | Some v \<Rightarrow>
          (case decode_struct upload_field v \<lparr>upSign = [], upURL = [], upIsMultipart = False, upMultipart = None\<rparr> of
             None \<Rightarrow> Inl ''parse upload_file response''
           | Some a \<Rightarrow>
               (if upURL a = [] then Inl ''upload_file response missing upload_url''
                else if upIsMultipart a \<and> (case upMultipart a of None \<Rightarrow> True | Some m \<Rightarrow> mpPartCount m \<le> 0)
                then Inl ''upload_file reports is_multipart=true but multipart info is missing or invalid''
                else Inr a)))"

definition PreprocessUpload :: "attachment_tool \<Rightarrow> string \<Rightarrow> UploadInput \<Rightarrow> (string, UploadPreprocess) result \<times> tool_call list" where
  "PreprocessUpload tool toolName a =
     (case validateUploadInput a of
        Some e \<Rightarrow> (Inl e, [])
      | None \<Rightarrow>
          (let name = (if toolName = [] then ''upload_file'' else toolName); call = (name, upload_params a)
           in ((case tool call of Inl e \<Rightarrow> Inl (name @ '' preprocess failed: '' @ e) | Inr resp \<Rightarrow> parsePreProcessResponse resp), [call])))"

section \<open>Sending parts\<close>

record uploadPartResponse =
  upToken :: string
  upFileURL :: string
  upMissing :: "int list"

definition no_part :: uploadPartResponse where "no_part = \<lparr>upToken = [], upFileURL = [], upMissing = []\<rparr>"

definition part_field :: "string \<Rightarrow> json \<Rightarrow> uploadPartResponse \<Rightarrow> uploadPartResponse option" where
  "part_field k v a =
     (if k = ''file_token'' then map_option (\<lambda>s. a\<lparr>upToken := s\<rparr>) (decode_text v (upToken a))
      else if k = ''file_url'' then map_option (\<lambda>s. a\<lparr>upFileURL := s\<rparr>) (decode_text v (upFileURL a))
      else if k = ''un_upload_index'' then map_option (\<lambda>l. a\<lparr>upMissing := l\<rparr>) (decode_list (\<lambda>x. decode_int32 x 0) v)
      else Some a)"

record part_envelope =
  peCode :: "int option"
  peMsg :: string
  peData :: json

definition envelope_field :: "string \<Rightarrow> json \<Rightarrow> part_envelope \<Rightarrow> part_envelope option" where
  "envelope_field k v a =
     (if k = ''code'' then
        (case v of JNull \<Rightarrow> Some (a\<lparr>peCode := None\<rparr>) | _ \<Rightarrow> map_option (\<lambda>i. a\<lparr>peCode := Some i\<rparr>) (decode_int v 0))
      else if k = ''msg'' then map_option (\<lambda>s. a\<lparr>peMsg := s\<rparr>) (decode_text v (peMsg a))
      else if k = ''data'' then Some (a\<lparr>peData := v\<rparr>)
      else Some a)"

text \<open>The envelope first, then the flat form; a code that is not zero is an error of the service.\<close>

definition wrapped_part :: "json \<Rightarrow> uploadPartResponse option" where
  "wrapped_part data =
     (if data = JNull then None
      else (case decode_struct part_field data no_part of
              Some p \<Rightarrow> (if upToken p \<noteq> [] \<or> upMissing p \<noteq> [] then Some p else None)
            | None \<Rightarrow> None))"

definition flat_part :: "json option \<Rightarrow> (string, uploadPartResponse) result" where
  "flat_part body =
     (case Option.bind body (\<lambda>v. decode_struct part_field v no_part) of
        None \<Rightarrow> Inl ''parse upload part response''
      | Some p \<Rightarrow> Inr p)"

definition parseUploadPartResponse :: "json option \<Rightarrow> (string, uploadPartResponse) result" where
  "parseUploadPartResponse body =
     (case Option.bind body (\<lambda>v. decode_struct envelope_field v \<lparr>peCode = None, peMsg = [], peData = JNull\<rparr>) of
        None \<Rightarrow> flat_part body
      | Some env \<Rightarrow>
          (case peCode env of
             Some code \<Rightarrow>
               (if code \<noteq> 0 then Inl (''server returned code='' @ show_int code)
                else (case wrapped_part (peData env) of Some p \<Rightarrow> Inr p | None \<Rightarrow> flat_part body))
           | None \<Rightarrow> (case wrapped_part (peData env) of Some p \<Rightarrow> Inr p | None \<Rightarrow> flat_part body)))"

text \<open>The body of a request is what the file holds from its position on, at most as long as announced.\<close>

record upload_request =
  uqURL :: string
  uqSign :: string
  uqContentType :: string
  uqLength :: int
  uqBody :: string

datatype upload_answer = NoUploadAnswer string | UploadAnswer int "json option"

type_synonym upload_store = "nat \<Rightarrow> upload_request \<Rightarrow> upload_answer"

definition doUploadPart ::
    "upload_store \<Rightarrow> nat \<Rightarrow> string \<Rightarrow> string \<Rightarrow> string \<Rightarrow> string \<Rightarrow> int \<Rightarrow> (string, uploadPartResponse) result \<times> upload_request list" where
  "doUploadPart st n url sign contentType rest len =
     (case url_Parse url of
        None \<Rightarrow> (Inl ''parse'', [])
      | Some u \<Rightarrow>
          (let q = \<lparr>uqURL = url, uqSign = sign, uqContentType = contentType, uqLength = len, uqBody = take (nat len) rest\<rparr> in
           ((case st n q of
               NoUploadAnswer e \<Rightarrow> Inl e
             | UploadAnswer status body \<Rightarrow>
                 (if status < 200 \<or> status \<ge> 300 then Inl (''upload part HTTP '' @ show_int status) else parseUploadPartResponse body)), [q])))"

definition chunkBodySize :: "ChunkInfo \<Rightarrow> int \<Rightarrow> int \<Rightarrow> int" where
  "chunkBodySize c partCount fileSize =
     (if ckIndex c = partCount - 1 then wrap64 (fileSize - ckStart c) else wrap64 (ckEnd c - ckStart c + 1))"

fun upload_chunks ::
    "upload_store \<Rightarrow> UploadPreprocess \<Rightarrow> UploadInput \<Rightarrow> string \<Rightarrow> int \<Rightarrow> ChunkInfo list \<Rightarrow> nat \<Rightarrow> uploadPartResponse option \<Rightarrow>
     (string, uploadPartResponse option) result \<times> upload_request list" where
  "upload_chunks st pre a content partCount [] n final = (Inr final, [])"
| "upload_chunks st pre a content partCount (c # cs) n final =
     (let len = chunkBodySize c partCount (uiFileSize a) in
      if ckStart c < 0 then (Inl ''seek'', [])
      else if len \<le> 0 then (Inl ''computed bodySize <= 0'', [])
      else
        (let (r, qs) = doUploadPart st n (part_url (upURL pre) (ckIndex c)) (upSign pre) (uiContentType a) (drop (nat (ckStart c)) content) len in
         case r of
           Inl e \<Rightarrow> (Inl (''upload chunk '' @ show_int (ckIndex c) @ '': '' @ e), qs)
         | Inr resp \<Rightarrow>
             (if ckIndex c = partCount - 1 \<and> upMissing resp \<noteq> [] then (Inl ''upload incomplete after last chunk'', qs)
              else (let (out, qs') = upload_chunks st pre a content partCount cs (n + length qs)
                      (if ckIndex c = partCount - 1 then Some resp else final)
                    in (out, qs @ qs')))))"

definition uploadMultipart ::
    "upload_store \<Rightarrow> UploadPreprocess \<Rightarrow> UploadInput \<Rightarrow> string \<Rightarrow> MultipartInfo \<Rightarrow> (string, uploadPartResponse) result \<times> upload_request list" where
  "uploadMultipart st pre a content mp =
     (case upload_chunks st pre a content (mpPartCount mp) (mpNeed mp) 0 None of
        (Inl e, qs) \<Rightarrow> (Inl e, qs)
      | (Inr None, qs) \<Rightarrow> (Inl ''multipart upload finished without receiving the final chunk'', qs)
      | (Inr (Some p), qs) \<Rightarrow> (Inr p, qs))"

definition uploadOneShot ::
    "upload_store \<Rightarrow> UploadPreprocess \<Rightarrow> UploadInput \<Rightarrow> string \<Rightarrow> (string, uploadPartResponse) result \<times> upload_request list" where
  "uploadOneShot st pre a content = doUploadPart st 0 (part_url (upURL pre) 0) (upSign pre) (uiContentType a) content (uiFileSize a)"

text \<open>None is a crash: a nil reader, or parts without their description.\<close>

definition ExecuteUpload ::
    "upload_store \<Rightarrow> UploadPreprocess \<Rightarrow> UploadInput \<Rightarrow> ((string, UploadResult) result \<times> upload_request list) option" where
  "ExecuteUpload st pre a =
     (case uiFile a of
        None \<Rightarrow> None
      | Some content \<Rightarrow>
          (case (if \<not> upIsMultipart pre then Some (uploadOneShot st pre a content)
                 else map_option (uploadMultipart st pre a content) (upMultipart pre)) of
             None \<Rightarrow> None
           | Some (Inl e, qs) \<Rightarrow> Some (Inl e, qs)
           | Some (Inr p, qs) \<Rightarrow>
               Some ((if upToken p = [] then Inl ''upload completed but file_token was empty''
                      else Inr \<lparr>urToken = upToken p, urURL = upFileURL p, urName = uiFilename a, urSize = uiFileSize a,
                             urMime = uiContentType a\<rparr>), qs)))"

section \<open>What is uploaded\<close>

text \<open>
  The parts the service asks for follow each other from a position to the end of the file; where the last one ends is not
  looked at.
\<close>

fun cover_from :: "int \<Rightarrow> int \<Rightarrow> int \<Rightarrow> ChunkInfo list \<Rightarrow> bool" where
  "cover_from start partCount size_of [] = False"
| "cover_from start partCount size_of (c # cs) =
     (ckStart c = start \<and> 0 \<le> start \<and> start < size_of \<and>
      (if cs = [] then ckIndex c = partCount - 1
       else ckIndex c \<noteq> partCount - 1 \<and> start \<le> ckEnd c \<and> ckEnd c < size_of \<and> cover_from (ckEnd c + 1) partCount size_of cs))"

definition covers_file :: "UploadPreprocess \<Rightarrow> int \<Rightarrow> bool" where
  "covers_file pre size_of =
     (if upIsMultipart pre then (case upMultipart pre of None \<Rightarrow> False | Some mp \<Rightarrow> cover_from 0 (mpPartCount mp) size_of (mpNeed mp)) else True)"

lemma doUploadPart_sound:
  assumes "doUploadPart st n url sign ct rest len = (r, qs)"
  shows "list_all (\<lambda>q. uqSign q = sign) qs \<and> (case r of Inr p \<Rightarrow> map uqBody qs = [take (nat len) rest] | Inl e \<Rightarrow> True)"
  using assms by (auto simp: doUploadPart_def Let_def split: option.splits upload_answer.splits if_splits sum.splits)

lemma take_drop_split: "start \<le> k \<Longrightarrow> take (k - start) (drop start xs) @ drop k xs = drop start xs"
  by (metis append_take_drop_id drop_drop le_add_diff_inverse2)

lemma chunks_cover:
  assumes "upload_chunks st pre a content partCount cs n final = (Inr out, qs)" "cover_from start partCount (uiFileSize a) cs"
    and "uiFileSize a = int (length content)" "fits_int64 (uiFileSize a)"
  shows "concat (map uqBody qs) = drop (nat start) content \<and> list_all (\<lambda>q. uqSign q = upSign pre) qs"
  using assms(1,2)
proof (induction cs arbitrary: start n final qs)
  case Nil then show ?case by simp
next
  case (Cons c cs)
  let ?len = "chunkBodySize c partCount (uiFileSize a)"
  obtain r qs1 where part: "doUploadPart st n (part_url (upURL pre) (ckIndex c)) (upSign pre) (uiContentType a)
      (drop (nat (ckStart c)) content) ?len = (r, qs1)" by (metis prod.exhaust)
  note sound = doUploadPart_sound[OF part]
  have start: "ckStart c = start" "0 \<le> start" "start < uiFileSize a" using Cons.prems(2) by simp_all
  from Cons.prems(1) obtain resp where r: "r = Inr resp" and len: "\<not> ?len \<le> 0"
    by (auto simp: part Let_def split: if_splits sum.splits)
  let ?final = "if ckIndex c = partCount - 1 then Some resp else final"
  obtain out2 qs2 where rest: "upload_chunks st pre a content partCount cs (n + length qs1) ?final = (out2, qs2)" by (metis prod.exhaust)
  have qs: "out2 = Inr out" "qs = qs1 @ qs2"
    using Cons.prems(1) start by (auto simp: part r rest Let_def split: if_splits)
  have body: "map uqBody qs1 = [take (nat ?len) (drop (nat start) content)]" using sound r start by simp
  show ?case
  proof (cases "cs = []")
    case True
    then have "?len = wrap64 (uiFileSize a - start)" using Cons.prems(2) by (simp add: chunkBodySize_def)
    also have "\<dots> = uiFileSize a - start"
      using start assms(3,4) by (intro wrap64_id) (auto simp: fits_int64_def int64_min_def int64_max_def)
    finally have "nat ?len = length content - nat start" using assms(3) start by simp
    moreover have "qs2 = []" using rest True by simp
    moreover have "concat (map uqBody qs1) = take (nat ?len) (drop (nat start) content)" using body by simp
    ultimately show ?thesis using sound qs(2) by simp
  next
    case False
    then have c: "ckIndex c \<noteq> partCount - 1" "start \<le> ckEnd c" "ckEnd c < uiFileSize a"
      "cover_from (ckEnd c + 1) partCount (uiFileSize a) cs" using Cons.prems(2) by simp_all
    then have "?len = wrap64 (ckEnd c - start + 1)" using start by (simp add: chunkBodySize_def)
    also have "\<dots> = ckEnd c - start + 1"
      using start c assms(4) by (intro wrap64_id) (auto simp: fits_int64_def int64_min_def)
    finally have len: "nat ?len = nat (ckEnd c + 1) - nat start" using start c by simp
    from Cons.IH[OF rest[unfolded qs(1)] c(4)]
    have ih: "concat (map uqBody qs2) = drop (nat (ckEnd c + 1)) content" "list_all (\<lambda>q. uqSign q = upSign pre) qs2" by simp_all
    have "concat (map uqBody qs) = take (nat (ckEnd c + 1) - nat start) (drop (nat start) content) @ drop (nat (ckEnd c + 1)) content"
      using qs(2) ih(1) body len by simp
    also have "\<dots> = drop (nat start) content" using start c by (intro take_drop_split) simp
    finally show ?thesis using ih(2) sound qs(2) by simp
  qed
qed

text \<open>
  C40.  What an upload sends: if it succeeds, and the parts the service asked for follow each other to the end of the file, then
  the bodies of the requests, in order, are the file, byte for byte, whatever end the service named for the last part; each
  carries the signature, and the result has the token the service gave.
\<close>

theorem upload_sends_file:
  assumes "ExecuteUpload st pre a = Some (Inr res, qs)" "uiFile a = Some content" "uiFileSize a = int (length content)"
    and "fits_int64 (uiFileSize a)" "covers_file pre (uiFileSize a)"
  shows "concat (map uqBody qs) = content \<and> list_all (\<lambda>q. uqSign q = upSign pre) qs \<and> urToken res \<noteq> []"
proof (cases "upIsMultipart pre")
  case False
  obtain r qs' where shot: "uploadOneShot st pre a content = (r, qs')" by (metis prod.exhaust)
  with assms(1,2) False obtain p where p: "r = Inr p" "qs' = qs" "upToken p \<noteq> []" "urToken res = upToken p"
    by (auto simp: ExecuteUpload_def split: sum.splits if_splits)
  from doUploadPart_sound[OF shot[unfolded uploadOneShot_def]] p(1)
  have "map uqBody qs' = [take (nat (uiFileSize a)) content]" "list_all (\<lambda>q. uqSign q = upSign pre) qs'" by simp_all
  then show ?thesis using p assms(3) by simp
next
  case True
  then obtain mp where mp: "upMultipart pre = Some mp" "cover_from 0 (mpPartCount mp) (uiFileSize a) (mpNeed mp)"
    using assms(5) by (auto simp: covers_file_def split: option.splits)
  obtain r qs' where chunks: "upload_chunks st pre a content (mpPartCount mp) (mpNeed mp) 0 None = (r, qs')" by (metis prod.exhaust)
  with assms(1,2) True mp(1) obtain p where p: "r = Inr (Some p)" "qs' = qs" "upToken p \<noteq> []" "urToken res = upToken p"
    by (auto simp: ExecuteUpload_def uploadMultipart_def split: sum.splits option.splits if_splits)
  from chunks_cover[OF chunks[unfolded p(1)] mp(2) assms(3,4)] p show ?thesis by simp
qed

text \<open>A file of five bytes in three parts; the service names a wrong end for the last one.\<close>

definition demo_pre :: UploadPreprocess where
  "demo_pre = \<lparr>upSign = ''s'', upURL = ''https://h/:part_number'', upIsMultipart = True,
     upMultipart = Some \<lparr>mpPartCount = 3, mpPartSize = 2,
       mpNeed = [\<lparr>ckIndex = 0, ckStart = 0, ckEnd = 1\<rparr>, \<lparr>ckIndex = 1, ckStart = 2, ckEnd = 3\<rparr>, \<lparr>ckIndex = 2, ckStart = 4, ckEnd = 99\<rparr>]\<rparr>\<rparr>"

definition demo_upload :: UploadInput where
  "demo_upload = \<lparr>uiResourceType = 13, uiProjectKey = ''p'', uiWorkItemID = ''1'', uiWorkItemType = [], uiFieldKey = [],
     uiFile = Some ''abcde'', uiFileSize = 5, uiFilename = ''f'', uiContentType = ''t''\<rparr>"

definition demo_store :: upload_store where
  "demo_store n q = UploadAnswer 200 (Some (JObject [(''code'', JNumber ''0''), (''data'', JObject [(''file_token'', JString ''k'')])]))"

definition demo_sent :: "upload_request list" where
  "demo_sent = (case ExecuteUpload demo_store demo_pre demo_upload of Some (r, qs) \<Rightarrow> qs | None \<Rightarrow> [])"

definition demo_result :: UploadResult where
  "demo_result = \<lparr>urToken = ''k'', urURL = [], urName = ''f'', urSize = 5, urMime = ''t''\<rparr>"

theorem upload_sends_file_witness:
  "map uqBody demo_sent = [''ab'', ''cd'', ''e''] \<and>
   concat (map uqBody demo_sent) = ''abcde'' \<and> list_all (\<lambda>q. uqSign q = upSign demo_pre) demo_sent \<and> urToken demo_result \<noteq> []"
proof -
  have "ExecuteUpload demo_store demo_pre demo_upload = Some (Inr demo_result, demo_sent)" by code_simp
  moreover have "uiFile demo_upload = Some ''abcde''" "uiFileSize demo_upload = int (length ''abcde'')" by (simp_all add: demo_upload_def)
  moreover have "fits_int64 (uiFileSize demo_upload)" "covers_file demo_pre (uiFileSize demo_upload)" by code_simp+
  moreover have "map uqBody demo_sent = [''ab'', ''cd'', ''e'']" by code_simp
  ultimately show ?thesis using upload_sends_file[of demo_store demo_pre demo_upload demo_result demo_sent "''abcde''"] by blast
qed

section \<open>The shortcut commands\<close>

definition stringFlag :: "'f value_map \<Rightarrow> string \<Rightarrow> string" where
  "stringFlag vals k = (case map_of vals k of Some (VString s) \<Rightarrow> s | _ \<Rightarrow> [])"

definition boolFlag :: "'f value_map \<Rightarrow> string \<Rightarrow> bool" where
  "boolFlag vals k = (case map_of vals k of Some (VBool b) \<Rightarrow> b | _ \<Rightarrow> False)"

text \<open>A number out of range is an error, as is a text that is no number.\<close>

definition validateUploadShortcutInputs :: "'f value_map \<Rightarrow> meegle_error option" where
  "validateUploadShortcutInputs vals =
     (case Atoi (stringFlag vals ''resource-type'') of
        None \<Rightarrow> Some (NewClientError ''CLIENT_INVALID_VALUE'' ''--resource-type must be an integer (13|14|15|16)'')
      | Some rt \<Rightarrow>
          (if \<not> ValidateResourceType rt then Some (NewClientError ''CLIENT_INVALID_VALUE'' ''unknown --resource-type'')
           else if stringFlag vals ''work-item-id'' = [] \<and> stringFlag vals ''work-item-type'' = []
           then Some (NewClientError ''CLIENT_MISSING_REQUIRED'' ''one of --work-item-id or --work-item-type is required'')
           else if RequiresFieldKey rt \<and> stringFlag vals ''field-key'' = []
           then Some (NewClientError ''CLIENT_MISSING_REQUIRED'' ''--field-key is required'')
           else None))"

text \<open>The headers of the session without those that carry a credential.\<close>

definition downloadGETHeaders :: "(string \<times> string) list \<Rightarrow> string \<Rightarrow> (string \<times> string) list" where
  "downloadGETHeaders hdrs authHeader =
     filter (\<lambda>(k, v). \<not> EqualFold k ''Authorization'' \<and> \<not> (authHeader \<noteq> [] \<and> EqualFold k authHeader)) hdrs"

datatype attachment_error = AttachmentMeegle meegle_error | AttachmentTransfer transfer_error | AttachmentText string

definition mapDownloadError :: "transfer_error \<Rightarrow> attachment_error" where
  "mapDownloadError e =
     (case e of
        FileSignMismatch got want \<Rightarrow> AttachmentMeegle (NewClientError ''CLIENT_FILE_SIGN_MISMATCH'' ''downloaded file failed its integrity check; download failed'')
      | FileSignMissing \<Rightarrow> AttachmentMeegle (NewClientError ''CLIENT_FILE_SIGN_UNVERIFIED'' ''cannot verify the downloaded file's integrity; download failed'')
      | TransferFailed msg \<Rightarrow> AttachmentTransfer e
      | NilMultipart \<Rightarrow> AttachmentTransfer e)"

datatype local_file = MissingFile | DirectoryFile | RegularFile string

record attachment_io =
  ioTool :: attachment_tool
  ioStore :: upload_store
  ioStorage :: storage
  ioFile :: "string \<Rightarrow> local_file"
  ioMimeByExtension :: "string \<Rightarrow> string"
  ioBaseName :: "string \<Rightarrow> string"
  ioHeaders :: "(string \<times> string) list"
  ioAuthHeader :: string

definition DefaultContentType :: "(string \<Rightarrow> string) \<Rightarrow> string \<Rightarrow> string" where
  "DefaultContentType by_extension path =
     (let ct = by_extension path; (front, back_part, found) = Cut CHR '';'' ct in
      if ct = [] then ''application/octet-stream'' else if found \<and> front \<noteq> [] then TrimSpace front else ct)"

definition or_else :: "string \<Rightarrow> string \<Rightarrow> string" where "or_else s d = (if s = [] then d else s)"

definition upload_input :: "attachment_io \<Rightarrow> 'f value_map \<Rightarrow> string \<Rightarrow> string \<Rightarrow> UploadInput" where
  "upload_input io vals path content =
     \<lparr>uiResourceType = (case Atoi (stringFlag vals ''resource-type'') of Some rt \<Rightarrow> rt | None \<Rightarrow> 0),
      uiProjectKey = stringFlag vals ''project-key'', uiWorkItemID = stringFlag vals ''work-item-id'',
      uiWorkItemType = stringFlag vals ''work-item-type'', uiFieldKey = stringFlag vals ''field-key'',
      uiFile = Some content, uiFileSize = int (length content),
      uiFilename = or_else (stringFlag vals ''filename'') (ioBaseName io path),
      uiContentType = or_else (stringFlag vals ''content-type'') (DefaultContentType (ioMimeByExtension io) path)\<rparr>"

datatype attachment_result = UploadDone UploadResult | DownloadDone DownloadResult | AttachmentDryRun string | NoAttachment

record attachment_run =
  arOutcome :: "(attachment_error, attachment_result) result"
  arCalls :: "tool_call list"
  arUploads :: "upload_request list"
  arDownloads :: "part_request list"
  arDisk :: disk

definition quiet_run :: "(attachment_error, attachment_result) result \<Rightarrow> disk \<Rightarrow> attachment_run" where
  "quiet_run r fs = \<lparr>arOutcome = r, arCalls = [], arUploads = [], arDownloads = [], arDisk = fs\<rparr>"

definition runUpload :: "attachment_io \<Rightarrow> string \<Rightarrow> 'f value_map \<Rightarrow> disk \<Rightarrow> attachment_run option" where
  "runUpload io toolName vals fs =
     (let path = stringFlag vals ''source-path'' in
      case ioFile io path of
        MissingFile \<Rightarrow> Some (quiet_run (Inl (AttachmentMeegle (NewClientError ''CLIENT_INVALID_PARAM'' (''open '' @ path)))) fs)
      | DirectoryFile \<Rightarrow> Some (quiet_run (Inl (AttachmentMeegle (NewClientError ''CLIENT_INVALID_PARAM'' (path @ '' is a directory'')))) fs)
      | RegularFile content \<Rightarrow>
          (let a = upload_input io vals path content in
           case PreprocessUpload (ioTool io) toolName a of
             (Inl e, calls) \<Rightarrow> Some ((quiet_run (Inl (AttachmentText e)) fs)\<lparr>arCalls := calls\<rparr>)
           | (Inr pre, calls) \<Rightarrow>
               map_option (\<lambda>(r, qs). \<lparr>arOutcome = (case r of Inl e \<Rightarrow> Inl (AttachmentText e) | Inr u \<Rightarrow> Inr (UploadDone u)),
                   arCalls = calls, arUploads = qs, arDownloads = [], arDisk = fs\<rparr>)
                 (ExecuteUpload (ioStore io) pre a)))"

definition runDownload :: "attachment_io \<Rightarrow> string \<Rightarrow> 'f value_map \<Rightarrow> disk \<Rightarrow> attachment_run" where
  "runDownload io toolName vals fs =
     (let a = \<lparr>diProjectKey = stringFlag vals ''project-key'', diWorkItemID = stringFlag vals ''work-item-id'',
                diFileURL = stringFlag vals ''file-url'', diOutput = stringFlag vals ''output'', diOverwrite = boolFlag vals ''overwrite'',
                diHeaders = downloadGETHeaders (ioHeaders io) (ioAuthHeader io)\<rparr> in
      case PreprocessDownload (ioTool io) toolName a of
        (Inl e, calls) \<Rightarrow> (quiet_run (Inl (AttachmentText e)) fs)\<lparr>arCalls := calls\<rparr>
      | (Inr pre, calls) \<Rightarrow>
          (let (r, fs', qs) = ExecuteDownload (ioStorage io) pre a fs
           in \<lparr>arOutcome = (case r of Inl e \<Rightarrow> Inl (mapDownloadError e) | Inr d \<Rightarrow> Inr (DownloadDone d)),
               arCalls = calls, arUploads = [], arDownloads = qs, arDisk = fs'\<rparr>))"

definition AttachmentShortcutStep :: "attachment_io \<Rightarrow> 'f ParsedCommand \<Rightarrow> 'f value_map option \<Rightarrow> disk \<Rightarrow> attachment_run option" where
  "AttachmentShortcutStep io c vals fs =
     (case cmdNode c of
        None \<Rightarrow> Some (quiet_run (Inr NoAttachment) fs)
      | Some n \<Rightarrow>
          (let kind = text_at (Tags (bnMeta n)) ''mcp_attachment_shortcut'';
               vs = (case vals of Some vs \<Rightarrow> vs | None \<Rightarrow> BuildInputValues c) in
           if kind = [] then Some (quiet_run (Inr NoAttachment) fs)
           else (case (if kind = ''upload'' then validateUploadShortcutInputs vs else None) of
                   Some e \<Rightarrow> Some (quiet_run (Inl (AttachmentMeegle e)) fs)
                 | None \<Rightarrow>
                     (if isDryRun c then Some (quiet_run (Inr (AttachmentDryRun kind)) fs)
                      else if kind = ''upload'' then runUpload io (bnHandler n) vs fs
                      else if kind = ''download'' then Some (runDownload io (bnHandler n) vs fs)
                      else Some (quiet_run (Inl (AttachmentMeegle (NewClientError ''CLIENT_MISCONFIGURED'' (''unknown attachment shortcut kind '' @ kind)))) fs)))))"

section \<open>No credential leaves for the storage\<close>

lemma lower_upper: "lower_char (upper_char c) = lower_char c" "lower_char (lower_char c) = lower_char c"
  by (auto simp: lower_char_def upper_char_def less_eq_char_def of_char_of)

text \<open>Canonicalising a header name changes letters of ASCII only.\<close>

lemma header_char_ascii: "header_char c \<Longrightarrow> c \<noteq> CHR 0xC5 \<and> c \<noteq> CHR 0xE2"
  by (auto simp: header_char_def is_alnum_def is_digit_def)

lemma fold_text_ascii: "list_all (\<lambda>c. c \<noteq> CHR 0xC5 \<and> c \<noteq> CHR 0xE2) s \<Longrightarrow> fold_text s = ToLower s"
  by (induction s) (simp_all add: ToLower_def)

lemma ToLower_canonical_from: "ToLower (canonical_from up s) = ToLower s"
  by (induction up s rule: canonical_from.induct) (auto simp: ToLower_def lower_upper)

lemma case_of_high:
  assumes "128 \<le> (of_char d :: nat)" "c \<noteq> d" shows "upper_char c \<noteq> d" "lower_char c \<noteq> d"
proof -
  have "of_char (upper_char c) < (128 :: nat)" if "upper_char c \<noteq> c"
    using that by (auto simp: upper_char_def less_eq_char_def of_char_of mod_less split: if_splits)
  with assms show "upper_char c \<noteq> d" by fastforce
  have "of_char (lower_char c) < (128 :: nat)" if "lower_char c \<noteq> c"
    using that by (auto simp: lower_char_def less_eq_char_def of_char_of mod_less split: if_splits)
  with assms show "lower_char c \<noteq> d" by fastforce
qed

lemma upper_lower_plain:
  "c \<noteq> CHR 0xC5 \<and> c \<noteq> CHR 0xE2 \<Longrightarrow> upper_char c \<noteq> CHR 0xC5 \<and> upper_char c \<noteq> CHR 0xE2 \<and> lower_char c \<noteq> CHR 0xC5 \<and> lower_char c \<noteq> CHR 0xE2"
  by (simp add: case_of_high)

lemma canonical_plain:
  "list_all (\<lambda>c. c \<noteq> CHR 0xC5 \<and> c \<noteq> CHR 0xE2) s \<Longrightarrow> list_all (\<lambda>c. c \<noteq> CHR 0xC5 \<and> c \<noteq> CHR 0xE2) (canonical_from up s)"
  by (induction up s rule: canonical_from.induct) (auto simp: upper_lower_plain)

lemma fold_canonical: "fold_text (CanonicalHeaderKey s) = fold_text s"
proof (cases "list_all header_char s")
  case True
  then have "list_all (\<lambda>c. c \<noteq> CHR 0xC5 \<and> c \<noteq> CHR 0xE2) s" using header_char_ascii by (auto simp: list_all_iff)
  then show ?thesis using True
    by (simp add: CanonicalHeaderKey_def fold_text_ascii canonical_plain ToLower_canonical_from)
qed (simp add: CanonicalHeaderKey_def)

lemma fold_set_absent:
  "map_of h key = None \<Longrightarrow> list_all (\<lambda>(k, v). CanonicalHeaderKey k \<noteq> key) kvs \<Longrightarrow> map_of (fold (\<lambda>(k, v). Header_Set k v) kvs h) key = None"
proof (induction kvs arbitrary: h)
  case (Cons kv kvs)
  then show ?case by (cases kv) (auto intro!: Cons.IH simp: Header_Set_def map_of_update)
qed simp

text \<open>The key of the credential, unless it is the key of the signature, is in no request to the storage.\<close>

lemma storage_sees_no_credential:
  assumes "key = ''Authorization'' \<or> auth \<noteq> [] \<and> key = CanonicalHeaderKey auth" "key \<noteq> CanonicalHeaderKey signHeader"
  shows "map_of (snd (download_request url sign (downloadGETHeaders hdrs auth))) key = None"
proof -
  have kept: "CanonicalHeaderKey k \<noteq> key" if "\<not> EqualFold k ''Authorization''" "\<not> (auth \<noteq> [] \<and> EqualFold k auth)" for k
    using that assms(1) fold_canonical[of k] fold_canonical[of auth] by (auto simp: EqualFold_def)
  have "list_all (\<lambda>(k, v). CanonicalHeaderKey k \<noteq> key) (downloadGETHeaders hdrs auth)"
    unfolding downloadGETHeaders_def
    using kept by (fastforce simp: list_all_iff)
  then have "map_of (fold (\<lambda>(k, v). Header_Set k v) (downloadGETHeaders hdrs auth) []) key = None" by (intro fold_set_absent) simp_all
  then show ?thesis using assms(2) by (simp add: download_request_def Header_Set_def map_of_update)
qed

text \<open>A dry run of a shortcut calls nothing and changes no file.\<close>

lemma shortcut_dry_run:
  assumes "isDryRun c" "AttachmentShortcutStep io c vals fs = Some run"
  shows "arCalls run = [] \<and> arUploads run = [] \<and> arDownloads run = [] \<and> arDisk run = fs"
  using assms by (auto simp: AttachmentShortcutStep_def quiet_run_def Let_def split: option.splits if_splits)

end
