(* ===== verification/Table_Format.thy ===== *)
theory Table_Format
  imports Pipeline
begin

text \<open>
  The output of a result (\<open>pkg/framework/output\<close>: \<open>hooks.go\<close>, \<open>hooks_envelope.go\<close>, \<open>processor.go\<close>; \<open>pkg/integrations/formatting\<close>):
  the selection of fields, the envelope, the choice of the format, and the table with its columns and shortened cells.

  Data is decoded JSON; a map has no repeated keys.  The text of a cell is the list of its runes: \<open>runes\<close> decodes UTF-8.  The
  encoders of \<open>encoding/json\<close> and the drawing of a table are not part of the model: a table is its header and its rows.
\<close>

section \<open>Shortening\<close>

type_synonym runes = "nat list"

definition ellipsis :: nat where "ellipsis = 8230"

definition rune_of :: "char \<Rightarrow> nat" where "rune_of c = of_char c"

definition truncatePlain :: "runes \<Rightarrow> int \<Rightarrow> runes" where
  "truncatePlain s maxWidth =
     (if int (length s) \<le> maxWidth then s
      else if maxWidth - 1 \<le> 0 then [ellipsis]
      else take (nat (maxWidth - 1)) s @ [ellipsis])"

record scan =
  scDepth :: int
  scInString :: bool
  scEscape :: bool

definition start_scan :: scan where "start_scan = \<lparr>scDepth = 0, scInString = False, scEscape = False\<rparr>"

text \<open>One rune; the flag says whether the text may be cut after it (1) or before it (2).\<close>

datatype cut = NoCut | CutAfter | CutBefore

definition scan_rune :: "nat \<Rightarrow> scan \<Rightarrow> scan \<times> cut" where
  "scan_rune r s =
     (if scEscape s then (s\<lparr>scEscape := False\<rparr>, NoCut)
      else if scInString s then
        (if r = rune_of (CHR 0x5C) then (s\<lparr>scEscape := True\<rparr>, NoCut)
         else if r = rune_of (CHR 0x22) then (s\<lparr>scInString := False\<rparr>, NoCut) else (s, NoCut))
      else if r = rune_of (CHR 0x22) then (s\<lparr>scInString := True\<rparr>, NoCut)
      else if r = rune_of (CHR ''{'') \<or> r = rune_of (CHR ''['') then (s\<lparr>scDepth := scDepth s + 1\<rparr>, NoCut)
      else if r = rune_of (CHR ''}'') \<or> r = rune_of (CHR '']'') then
        (s\<lparr>scDepth := scDepth s - 1\<rparr>, if scDepth s - 1 = 0 then CutAfter else NoCut)
      else if r = rune_of (CHR '','') then (s, if scDepth s = 0 then CutBefore else NoCut)
      else (s, NoCut))"

text \<open>The last place where the body can be cut, counted from its start, within the budget.\<close>

fun safe_end :: "nat \<Rightarrow> scan \<Rightarrow> nat \<Rightarrow> nat option \<Rightarrow> runes \<Rightarrow> nat option" where
  "safe_end budget s i found [] = found"
| "safe_end budget s i found (r # rs) =
     (if budget < i + 1 then found
      else (let (s', c) = scan_rune r s
            in safe_end budget s' (i + 1) (case c of NoCut \<Rightarrow> found | CutAfter \<Rightarrow> Some (i + 1) | CutBefore \<Rightarrow> Some i) rs))"

definition TruncateBalanced :: "runes \<Rightarrow> int \<Rightarrow> runes" where
  "TruncateBalanced s maxWidth =
     (if maxWidth \<le> 0 \<or> int (length s) \<le> maxWidth then s
      else (case s of
              [] \<Rightarrow> s
            | first # body \<Rightarrow>
                (if first \<noteq> rune_of (CHR ''{'') \<and> first \<noteq> rune_of (CHR ''['') then truncatePlain s maxWidth
                 else
                   (let suffix = [rune_of (CHR '',''), ellipsis, if first = rune_of (CHR ''['') then rune_of (CHR '']'') else rune_of (CHR ''}'')];
                        budget = maxWidth - 3 - 1
                    in if budget \<le> 0 then truncatePlain s maxWidth
                       else (case safe_end (nat budget) start_scan 0 None body of
                               Some k \<Rightarrow> first # take k body @ suffix
                             | None \<Rightarrow> truncatePlain s maxWidth)))))"

fun scan_all :: "scan \<Rightarrow> runes \<Rightarrow> scan" where
  "scan_all s [] = s"
| "scan_all s (r # rs) = scan_all (fst (scan_rune r s)) rs"

text \<open>A body that ends outside of every string and every nested value.\<close>

definition whole_items :: "runes \<Rightarrow> bool" where
  "whole_items body = (scDepth (scan_all start_scan body) = 0 \<and> \<not> scInString (scan_all start_scan body))"

lemma scan_all_append: "scan_all s (a @ b) = scan_all (scan_all s a) b"
  by (induction a arbitrary: s) simp_all

definition good_cut :: "nat \<Rightarrow> scan \<Rightarrow> runes \<Rightarrow> nat \<Rightarrow> nat \<Rightarrow> bool" where
  "good_cut budget s rs i k =
     (i \<le> k \<and> k \<le> budget \<and> k \<le> i + length rs \<and>
      scDepth (scan_all s (take (k - i) rs)) = 0 \<and> \<not> scInString (scan_all s (take (k - i) rs)))"

lemma scan_cut:
  "scan_rune r s = (s', CutAfter) \<Longrightarrow> scDepth s' = 0 \<and> \<not> scInString s'"
  "scan_rune r s = (s', CutBefore) \<Longrightarrow> scDepth s = 0 \<and> \<not> scInString s"
  by (auto simp: scan_rune_def split: if_splits)

lemma good_cut_Cons: "good_cut budget (fst (scan_rune r s)) rs (Suc i) k \<Longrightarrow> good_cut budget s (r # rs) i k"
proof -
  assume g: "good_cut budget (fst (scan_rune r s)) rs (Suc i) k"
  then obtain d where d: "k = Suc i + d" by (auto simp: good_cut_def le_iff_add)
  with g show ?thesis by (simp add: good_cut_def)
qed

lemma safe_end_good:
  "safe_end budget s i found rs = Some k \<Longrightarrow> found = Some k \<or> good_cut budget s rs i k"
proof (induction budget s i found rs rule: safe_end.induct)
  case (1 budget s i found) then show ?case by simp
next
  case (2 budget s i found r rs)
  obtain s' c where step: "scan_rune r s = (s', c)" by (cases "scan_rune r s")
  show ?case
  proof (cases "budget < i + 1")
    case True then show ?thesis using 2 by simp
  next
    case False
    let ?found = "case c of NoCut \<Rightarrow> found | CutAfter \<Rightarrow> Some (i + 1) | CutBefore \<Rightarrow> Some i"
    have "safe_end budget s' (i + 1) ?found rs = Some k" using 2 False step by simp
    from 2(1)[OF False step[symmetric] refl this]
    consider "?found = Some k" | "good_cut budget s' rs (i + 1) k" by blast
    then show ?thesis
    proof cases
      case 1
      then show ?thesis using scan_cut[of r s s'] step False by (cases c) (auto simp: good_cut_def)
    next
      case 2
      then show ?thesis using good_cut_Cons[of budget r s rs i k] step by simp
    qed
  qed
qed

lemma truncatePlain_bounded: "0 < w \<Longrightarrow> int (length (truncatePlain s w)) \<le> w"
  by (auto simp: truncatePlain_def)

section \<open>Cells\<close>

definition formatting_text :: "(string \<Rightarrow> runes) \<Rightarrow> (json \<Rightarrow> string) \<Rightarrow> json \<Rightarrow> runes" where
  "formatting_text decode marshal v =
     (case v of
        JNull \<Rightarrow> decode ''<nil>''
      | JBool b \<Rightarrow> decode (if b then ''true'' else ''false'')
      | JNumber n \<Rightarrow> decode n
      | JString s \<Rightarrow> decode s
      | JArray vs \<Rightarrow> decode (marshal v)
      | JObject kvs \<Rightarrow> decode (marshal v))"

definition is_primitive :: "json \<Rightarrow> bool" where
  "is_primitive v = (case v of JArray vs \<Rightarrow> False | JObject kvs \<Rightarrow> False | _ \<Rightarrow> True)"

definition isPrimitiveArray :: "json list \<Rightarrow> bool" where
  "isPrimitiveArray vs = list_all is_primitive vs"

fun join_runes :: "runes \<Rightarrow> runes list \<Rightarrow> runes" where
  "join_runes d [] = []"
| "join_runes d [s] = s"
| "join_runes d (s # t # ts) = s @ d @ join_runes d (t # ts)"

definition maybeTruncatePlain :: "runes \<Rightarrow> int \<Rightarrow> runes" where
  "maybeTruncatePlain s maxWidth = (if maxWidth \<le> 0 then s else truncatePlain s maxWidth)"

definition RenderCell :: "(string \<Rightarrow> runes) \<Rightarrow> (json \<Rightarrow> string) \<Rightarrow> json \<Rightarrow> int \<Rightarrow> runes" where
  "RenderCell decode marshal v maxWidth =
     (case v of
        JNull \<Rightarrow> []
      | JString s \<Rightarrow> maybeTruncatePlain (decode s) maxWidth
      | JBool b \<Rightarrow> decode (if b then ''true'' else ''false'')
      | JNumber n \<Rightarrow> decode n
      | JArray vs \<Rightarrow>
          (if isPrimitiveArray vs
           then maybeTruncatePlain (join_runes (decode '', '') (map (formatting_text decode marshal) vs)) maxWidth
           else TruncateBalanced (decode (marshal v)) maxWidth)
      | JObject kvs \<Rightarrow> TruncateBalanced (decode (marshal v)) maxWidth)"

section \<open>Properties of cells\<close>

text \<open>
  C1.  Shortening keeps to the width and never cuts inside a value: a text is left as it is if it fits; otherwise the
  result is no longer than the width, and it is either the front of the text with a mark, or, for an array or an object, its
  bracket, a front of its content that ends outside of every string and every nested value, the mark and the
  closing bracket.
\<close>

theorem truncation_bounded:
  "if w \<le> 0 \<or> int (length s) \<le> w then TruncateBalanced s w = s
   else int (length (TruncateBalanced s w)) \<le> w \<and>
     (TruncateBalanced s w = truncatePlain s w \<or>
      (\<exists>first body k closing. s = first # body \<and> (first = rune_of (CHR ''['') \<or> first = rune_of (CHR ''{'')) \<and>
         closing = (if first = rune_of (CHR ''['') then rune_of (CHR '']'') else rune_of (CHR ''}'')) \<and>
         whole_items (take k body) \<and> TruncateBalanced s w = first # take k body @ [rune_of (CHR '',''), ellipsis, closing]))"
proof (cases "w \<le> 0 \<or> int (length s) \<le> w")
  case True then show ?thesis by (simp add: TruncateBalanced_def)
next
  case wide: False
  then obtain first body where s: "s = first # body" by (cases s) auto
  let ?brackets = "first = rune_of (CHR ''['') \<or> first = rune_of (CHR ''{'')"
  show ?thesis
  proof (cases "?brackets \<and> 0 < w - 4 \<and> safe_end (nat (w - 4)) start_scan 0 None body \<noteq> None")
    case False
    then have "TruncateBalanced s w = truncatePlain s w" using wide by (auto simp: TruncateBalanced_def s split: option.splits)
    then show ?thesis using wide truncatePlain_bounded[of w s] by simp
  next
    case True
    then obtain k where k: "safe_end (nat (w - 4)) start_scan 0 None body = Some k" by blast
    then have "good_cut (nat (w - 4)) start_scan body 0 k" using safe_end_good by fastforce
    then have cut: "int k \<le> w - 4" "whole_items (take k body)" using True by (auto simp: good_cut_def whole_items_def)
    let ?closing = "if first = rune_of (CHR ''['') then rune_of (CHR '']'') else rune_of (CHR ''}'')"
    have out: "TruncateBalanced s w = first # take k body @ [rune_of (CHR '',''), ellipsis, ?closing]"
      using wide True k by (auto simp: TruncateBalanced_def s)
    then have "int (length (TruncateBalanced s w)) \<le> w" using cut(1) by simp
    then show ?thesis using wide True s out cut(2) by auto
  qed
qed

end
