(* ===== verification/Spec2Isabelle.thy ===== *)
theory Spec2Isabelle
  imports Platform_Builder Platform_Apply Platform_Lifecycle Platform_Tracker Url_Decode Telemetry_Uploader Token_Manager Execution
    Transport Http_Transport Auth_Commands Attachment Table_Format
begin

text \<open>
  A verification library for \<open>meegle-cli\<close>, the command line client of Meegle, written in Go.

  \<^bold>\<open>The program.\<close>  A command line is resolved against a tree of commands (\<open>pkg/framework/registry\<close>), its tokens
  are parsed into typed flags (\<open>pkg/framework/router\<close>), and a pipeline merges structured parameters, validates
  them and calls an executor (\<open>pkg/framework/pipeline\<close>).  Most commands come from the service: at the start the
  identity is resolved, the tools of the service are fetched or read from a cache, mapped to commands, sanitized
  and composed with the local ones (\<open>internal/products/meegle\<close>).  Plugins of the organisation that ships the
  client observe, wrap and restrict the commands (\<open>extension/platform\<close>, \<open>internal/extension/platform\<close>).  Failures
  are sampled, queued on disk and uploaded by a telemetry subsystem (\<open>internal/products/meegle/telemetry\<close>).

  \<^bold>\<open>Shared theories.\<close>
  \<^item> \<open>Prelude\<close>: the string functions of the Go library the program uses (\<open>strings\<close>, \<open>strconv\<close>), results, and the
    locales of operations that preserve an invariant (\<open>preserving\<close>) or append to a log (\<open>logging\<close>).  Strings are lists of bytes; lowering is that of ASCII.
  \<^item> \<open>Go_Path\<close>, \<open>Go_Url\<close>: \<open>path.Match\<close> and the parts of \<open>net/url\<close> the program uses.
  \<^item> \<open>Json_Number\<close>: \<open>pkg/framework/jsonvalue\<close>; the value of a JSON number, \<open>IsInteger\<close> decides integrality and
    \<open>Int64\<close> is exact on 64 bits, both on the text of the number.  \<open>Json_Value\<close>: JSON values.

  \<^bold>\<open>The plugin platform.\<close>
  \<^item> \<open>Platform_Version\<close>: \<open>version.go\<close>; versions are totally preordered (locale \<open>three_way\<close>, interpreted
    on every comparison), a constraint holds as its comparators do.
  \<^item> \<open>Platform_Api\<close>: \<open>extension/platform/types.go\<close>; rules, selectors and path patterns, with the meaning of
    patterns as groups of segments.
  \<^item> \<open>Platform_Policy\<close>: \<open>policy.go\<close>; \<open>denial\<close> against the permission each rule grants: it is the conjunction of
    all rules, monotone in the rules, and cites a rule that refuses.
  \<^item> \<open>Platform_Install\<close>: \<open>install.go\<close>; staging and committing of plugins, the invariant of the runtime,
    atomicity and the fate of each plugin.  \<open>Platform_Builder\<close>: \<open>builder.go\<close>.
  \<^item> \<open>Platform_Runtime\<close>: \<open>runtime.go\<close> and \<open>pkg/framework/errors/safe.go\<close>; one invocation through observers,
    policy, wrappers and the command, as a function on the trace.  Hooks are programs of a small datatype of
    behaviours (return, panic, call next, time out), so that every misbehaviour is a value.
  \<^item> \<open>Platform_Tracker\<close>: the same tracker of wrapper calls as a step relation, with one transition per locked
    section, for calls from any number of goroutines; invariants by rule induction over the runs.
  \<^item> \<open>Platform_Apply\<close>: hiding denied commands in the tree.  \<open>Platform_Lifecycle\<close>: \<open>lifecycle.go\<close>; events, failure
    policies and deadlines with an explicit clock in milliseconds.

  \<^bold>\<open>Commands and parameters.\<close>
  \<^item> \<open>Registry\<close>: the model of a command, \<open>CompositeSetup\<close>, \<open>ValidateTree\<close>, \<open>New\<close>, \<open>Resolve\<close>, \<open>dedupFlags\<close>;
    exactly the well-formed trees are accepted and every command of them resolves.
  \<^item> \<open>Router_Parse\<close>: \<open>parse.go\<close>; the value of type \<open>any\<close>, the parser of tokens as a terminating loop, and a
    typing predicate for stored flags that every step preserves.
  \<^item> \<open>Router_Params\<close>: \<open>params.go\<close>; \<open>--params\<close> and \<open>--set\<close>, what is read back, and when merging panics.
  \<^item> \<open>Pipeline\<close>: the steps, the loop that runs them and the default pipeline; the executor is called at most
    once, with a complete and valid command.
  \<^item> \<open>Param_Coercion\<close>, \<open>Pagination\<close>, \<open>Command_Runtime\<close>: \<open>mcp_runtime.go\<close>, \<open>command_runtime.go\<close> and the product
    pipeline; flags become the parameters of a tool, the pages of a result are fetched and merged, and a tool is
    called only for a complete and valid command.
  \<^item> \<open>Batch_Ids\<close>: the ids of a batch command (\<open>batch.go\<close>); they are kept once per number, whatever its spelling.
    \<open>Batch_Fanout\<close>: the workers that call the service, as a step relation with one transition per
    channel or locked operation; no result is lost or reported twice, and every run can be brought to its end.
  \<^item> \<open>Url_Decode\<close>: \<open>commands/url_rules.go\<close> and \<open>url_decode.go\<close>; links round trip and every alias leads to a rule.

  \<^bold>\<open>Commands of the service.\<close>
  \<^item> \<open>Mcp_Client\<close>, \<open>Mcp_Tools\<close>: \<open>mcpclient\<close>; a call with its credential, the guard on redirects and the single
    retry; the decoding of announced tools and of results, with the struct rules of \<open>encoding/json\<close>.
  \<^item> \<open>Tool_Mapping\<close>: \<open>dynamic/mapper.go\<close>, \<open>risk.go\<close>.  \<open>Local_Registry\<close>: \<open>local_registry.go\<close>.  \<open>Product_Tree\<close>,
    \<open>Product_Registry\<close>: the tree of \<open>registry.go\<close> with its batch, sugar and attachment commands, and the sanitizing of
    untrusted tools; no list of tools can make the registry refuse the tree.
  \<^item> \<open>Cli_Client\<close>, \<open>Cli_Runtime\<close>: \<open>cliapiclient\<close>, \<open>cliapi_runtime.go\<close>; the HTTP operations behind the handoff and
    preference commands with their retries, and a cache of the configuration that the commands keep honest.
    \<open>Http_Transport\<close>: the bounded request of \<open>httptransport\<close>.
  \<^item> \<open>Attachment\<close>: \<open>attachment\<close>, \<open>attachment_register.go\<close>; signed transfers in parts and what stays on the disk.
  \<^item> \<open>Registry_Setup\<close>: caches, discovery, and the placeholders when discovery fails.

  \<^bold>\<open>Identity and start.\<close>
  \<^item> \<open>Config\<close>: \<open>config.go\<close>; profiles, environment templates, addresses.  \<open>Identity\<close>: \<open>extension/credential\<close> and
    \<open>identity.go\<close>; the chain of providers and the precedence of the built-in sources.
  \<^item> \<open>Refresh_Lock\<close>, \<open>Token_Manager\<close>: the lock file of \<open>auth/file_store.go\<close> and \<open>auth/token_manager.go\<close>, as step
    relations of any number of processes; mutual exclusion, and no refresh token is used twice.
  \<^item> \<open>Oauth_Login\<close>, \<open>Auth_Commands\<close>: the rest of \<open>auth\<close> and \<open>commands/auth.go\<close>; the login in the browser with PKCE, the
    device code and its polling, and the commands that store or drop a token.
  \<^item> \<open>Transport\<close>: \<open>extension/transport\<close>; hooks around a request and the rules they cannot break.
  \<^item> \<open>Command_Line\<close>: command strings and the scans of \<open>pkg/runtime/cliapp/app.go\<close>.  \<open>Startup\<close>: \<open>NewCLIApp\<close> of \<open>app.go\<close>,
    which composes plugins, identity, client, caches and registry; it fails for two reasons only.  \<open>Execution\<close>: the
    session of a command, \<open>ExecuteWithIO\<close> with the lifecycle hooks, and the exit code.

  \<^bold>\<open>Telemetry.\<close>
  \<^item> \<open>Telemetry_Event\<close>: \<open>types.go\<close>; the allowlist, the normal form and the validation of events.
  \<^item> \<open>Telemetry_Policy\<close>: \<open>policy.go\<close>; sampling in basis points and the policy cache.
  \<^item> \<open>Telemetry_Queue\<close>: \<open>queue.go\<close>; the queue directory and its refinement of a finite map of events, stated for
    the locale \<open>event_store\<close> and interpreted on the operations of the queue.
  \<^item> \<open>Telemetry_Reporter\<close>: \<open>settings.go\<close>, \<open>reporter.go\<close>; consent, with the generation of the settings as a 64-bit word.
  \<^item> \<open>Telemetry_Uploader\<close>: \<open>uploader.go\<close>; batches, acknowledgements and the loop of a run.

  \<^bold>\<open>How the parts meet.\<close>  \<open>Platform_Runtime\<close> uses the rules \<open>Platform_Install\<close> commits and the \<open>denial\<close> of
  \<open>Platform_Policy\<close>, so that its first property goes from registration to execution.  \<open>ParseInput\<close> uses \<open>Resolve\<close>
  and \<open>AllFlagsForNode\<close> of the registry, and the pipeline takes the command \<open>ParseInput\<close> returns; the batch executor
  takes the ids from its flags and the coercion of \<open>Param_Coercion\<close> for each of them.  \<open>NewCLIApp\<close> of \<open>Startup\<close> runs
  \<open>installPlugins\<close>, \<open>resolveCLIIdentity\<close>, \<open>ListTools\<close>, \<open>Setup\<close>, \<open>CompositeSetup\<close> and \<open>New\<close> one after the other, so that
  its property rests on a lemma of each: a setup degrades (\<open>Setup_degrades\<close>), its tree is \<open>buildable\<close>, and a buildable
  tree composes with the local one and is accepted (\<open>registry_built\<close>).  The session of \<open>Execution\<close> uses the identity
  of the start.  The reporter uses the policy, the events and the queue; the uploader uses the queue and the settings.

  \<^bold>\<open>Termination and fuel.\<close>  Every loop of the program is a total function, with a measure where the recursion is not
  structural (\<open>parse_loop\<close>: the number of tokens left; the loops of \<open>Pagination\<close>: 200 less the number of pages).  Two
  loops carry fuel: for \<open>upload_loop\<close> one more than the number of queued events is enough (\<open>uploader_terminates\<close>), for
  \<open>poll_loop\<close> two more than the five-second pauses until the deadline (\<open>device_poll_returns\<close>).  A callback that never returns is a value (\<open>TimedOut\<close>, \<open>Blocks\<close>, \<open>Hangs\<close>), not a missing result.

  \<^bold>\<open>What is given.\<close>  Arguments of the models stand for what is outside the repository or outside a pure function: the
  JSON decoder and encoder, SHA-256, \<open>ParseFloat\<close> and the text of a float, the file system and its failures,
  locks that are or are not acquired, the clock, the answers of the network, cobra's flags, the executor and the
  output processor.  No property assumes more of them than its statement says.

  \<^bold>\<open>Not modelled.\<close>  Cobra and its routing, keychains and the encryption of the token file, prompts, help texts, the
  drawing of tables, platform-specific code, the second front end of the SDK; these print, talk to the user or only
  call libraries.
\<close>

end
